(* ===== verification/EF_Prelude.thy ===== *)
theory EF_Prelude
  imports Complex_Main "HOL-Library.AList" "HOL-Library.Char_ord" "HOL-Library.List_Lexorder"
    "HOL-Library.Product_Lexorder"
begin

text \<open>
  Shared vocabulary of the EstateFlow development: Python values as HOL types, insertion-ordered
  dictionaries, the text routines of \<open>str\<close> the services use, and the generic lemmas about them.

  \<^item> \<open>datetime\<close> and \<open>timedelta\<close> values are integers (microseconds, UTC); \<open>Decimal\<close> and \<open>float\<close>
    scores are exact rationals.
  \<^item> A \<open>dict\<close> is an association list in insertion order, changed by \<open>AList.update\<close>, which keeps a
    key's position when it overwrites and appends when the key is new, as Python does.
  \<^item> A \<open>str\<close> is a list of characters; the text routines (case folding, white space, digits) are
    those of Python on ASCII text and leave the other characters alone.
  \<^item> A raised exception is the left value of a sum.
\<close>

section \<open>Value types\<close>

type_synonym time = int
type_synonym duration = int
type_synonym ('k, 'v) dict = "('k \<times> 'v) list"

text \<open>
  The exceptions the code tells apart; the flag of \<open>StorageUploadError\<close> is \<open>retryable\<close>, and
  \<open>OtherError\<close> holds the class and text of any other one.
\<close>

datatype py_error =
    KeyError string
  | ValueError string
  | TypeError string
  | PermissionError string
  | RuntimeError string
  | QueuePublishError string
  | AttributeError string
  | ValidationError string
  | StorageUploadError string bool
  | OtherError string string

type_synonym 'a res = "py_error + 'a"

text \<open>\<open>type(exc).__name__\<close>.\<close>

fun error_class :: "py_error \<Rightarrow> string" where
  "error_class (KeyError _) = ''KeyError''"
| "error_class (ValueError _) = ''ValueError''"
| "error_class (TypeError _) = ''TypeError''"
| "error_class (PermissionError _) = ''PermissionError''"
| "error_class (RuntimeError _) = ''RuntimeError''"
| "error_class (QueuePublishError _) = ''QueuePublishError''"
| "error_class (AttributeError _) = ''AttributeError''"
| "error_class (ValidationError _) = ''ValidationError''"
| "error_class (StorageUploadError _ _) = ''StorageUploadError''"
| "error_class (OtherError c _) = c"

named_theorems dict_simps "facts about insertion-ordered dictionaries"
named_theorems text_simps "facts about the text routines"

definition seconds :: "int \<Rightarrow> duration" where
  "seconds n = n * 1000000"

definition res_bind :: "'a res \<Rightarrow> ('a \<Rightarrow> 'b res) \<Rightarrow> 'b res" where
  "res_bind m f = (case m of Inl e \<Rightarrow> Inl e | Inr x \<Rightarrow> f x)"

lemma res_bind_Inl [simp]: "res_bind (Inl e) f = Inl e"
  and res_bind_Inr [simp]: "res_bind (Inr x) f = f x"
  by (simp_all add: res_bind_def)

lemma res_bind_InrE:
  assumes "res_bind m f = Inr y"
  obtains x where "m = Inr x" and "f x = Inr y"
  using assms by (cases m) auto

text \<open>Sequencing of steps that change a state and may raise: the state reached so far is kept.\<close>

definition then_do :: "'a res \<times> 's \<Rightarrow> ('a \<Rightarrow> 's \<Rightarrow> 'b res \<times> 's) \<Rightarrow> 'b res \<times> 's" where
  "then_do p f = (case p of (Inl e, s) \<Rightarrow> (Inl e, s) | (Inr x, s) \<Rightarrow> f x s)"

lemma then_do_Inl [simp]: "then_do (Inl e, s) f = (Inl e, s)"
  and then_do_Inr [simp]: "then_do (Inr x, s) f = f x s"
  by (simp_all add: then_do_def)

lemma then_do_InrE:
  assumes "then_do p f = (Inr y, s')"
  obtains x s where "p = (Inr x, s)" and "f x s = (Inr y, s')"
  using assms by (cases p rule: prod.exhaust; cases "fst p") (auto simp: then_do_def)

fun res_all :: "'a res list \<Rightarrow> 'a list res" where
  "res_all [] = Inr []"
| "res_all (r # rs) = (case r of Inl e \<Rightarrow> Inl e
     | Inr x \<Rightarrow> (case res_all rs of Inl e \<Rightarrow> Inl e | Inr xs \<Rightarrow> Inr (x # xs)))"

lemma res_all_Inr_length: "res_all rs = Inr xs \<Longrightarrow> length xs = length rs"
  by (induction rs arbitrary: xs) (auto split: sum.splits)

lemma res_all_map_Inr [simp]: "res_all (map (\<lambda>x. Inr (f x)) xs) = Inr (map f xs)"
  by (induction xs) auto

lemma res_all_nth:
  "res_all rs = Inr xs \<Longrightarrow> i < length rs \<Longrightarrow> rs ! i = Inr (xs ! i)"
proof (induction rs arbitrary: xs i)
  case Nil
  then show ?case by simp
next
  case (Cons r rs)
  then show ?case by (cases i) (auto split: sum.splits)
qed

section \<open>JSON values\<close>

text \<open>
  The text written by \<open>json.dumps\<close> is represented by the value it encodes, so \<open>json.loads\<close> after
  \<open>json.dumps\<close> is the identity; a body that is not JSON is a missing value.
\<close>

datatype json =
    JNull
  | JBool bool
  | JNum rat
  | JStr string
  | JArr "json list"
  | JObj "(string \<times> json) list"

section \<open>Dictionaries\<close>

abbreviation dict_get :: "('k, 'v) dict \<Rightarrow> 'k \<Rightarrow> 'v option" where
  "dict_get d k \<equiv> map_of d k"

abbreviation dict_put :: "'k \<Rightarrow> 'v \<Rightarrow> ('k, 'v) dict \<Rightarrow> ('k, 'v) dict" where
  "dict_put k v d \<equiv> AList.update k v d"

abbreviation dict_pop :: "'k \<Rightarrow> ('k, 'v) dict \<Rightarrow> ('k, 'v) dict" where
  "dict_pop k d \<equiv> AList.delete k d"

abbreviation dict_keys :: "('k, 'v) dict \<Rightarrow> 'k list" where
  "dict_keys d \<equiv> map fst d"

abbreviation dict_values :: "('k, 'v) dict \<Rightarrow> 'v list" where
  "dict_values d \<equiv> map snd d"

definition dict_ok :: "('k, 'v) dict \<Rightarrow> bool" where
  "dict_ok d \<longleftrightarrow> distinct (dict_keys d)"

lemma dict_ok_Nil [simp]: "dict_ok []"
  by (simp add: dict_ok_def)

lemma dict_ok_put [simp]: "dict_ok d \<Longrightarrow> dict_ok (dict_put k v d)"
  by (simp add: dict_ok_def distinct_update)

lemma dict_ok_pop [simp]: "dict_ok d \<Longrightarrow> dict_ok (dict_pop k d)"
  by (simp add: dict_ok_def distinct_delete)

lemma dict_get_put [dict_simps]:
  "dict_get (dict_put k v d) k' = (if k' = k then Some v else dict_get d k')"
  by (simp add: update_conv)

lemma dict_get_pop [dict_simps]:
  "dict_get (dict_pop k d) k' = (if k' = k then None else dict_get d k')"
  by (simp add: delete_conv)

lemma dict_get_in_values: "dict_get d k = Some v \<Longrightarrow> v \<in> set (dict_values d)"
  by (force dest: map_of_SomeD)

lemma dict_values_iff:
  "dict_ok d \<Longrightarrow> v \<in> set (dict_values d) \<longleftrightarrow> (\<exists>k. dict_get d k = Some v)"
  by (force simp: dict_ok_def dest: map_of_SomeD)

lemma dict_put_new: "dict_get d k = None \<Longrightarrow> dict_put k v d = d @ [(k, v)]"
  by (induction d) (auto split: if_splits)

lemma dict_keys_put_existing:
  "dict_get d k \<noteq> None \<Longrightarrow> dict_keys (dict_put k v d) = dict_keys d"
  by (induction d) auto

lemma length_dict_put_existing:
  "dict_get d k \<noteq> None \<Longrightarrow> length (dict_put k v d) = length d"
  by (induction d) auto

lemma set_dict_keys_put: "set (dict_keys (dict_put k v d)) = insert k (set (dict_keys d))"
  by (induction d) auto

text \<open>A dictionary whose values are stored under their own key.\<close>

definition keyed_by :: "('v \<Rightarrow> 'k) \<Rightarrow> ('k, 'v) dict \<Rightarrow> bool" where
  "keyed_by key d \<longleftrightarrow> dict_ok d \<and> (\<forall>k v. dict_get d k = Some v \<longrightarrow> key v = k)"

lemma keyed_by_Nil [simp]: "keyed_by key []"
  by (simp add: keyed_by_def)

lemma keyed_by_put [simp]:
  "keyed_by key d \<Longrightarrow> key v = k \<Longrightarrow> keyed_by key (dict_put k v d)"
  by (auto simp: keyed_by_def dict_simps)

lemma keyed_by_okD [dest]: "keyed_by key d \<Longrightarrow> dict_ok d"
  by (simp add: keyed_by_def)

lemma keyed_by_getD: "keyed_by key d \<Longrightarrow> dict_get d k = Some v \<Longrightarrow> key v = k"
  by (simp add: keyed_by_def)

lemma keyed_by_modify:
  "keyed_by key d \<Longrightarrow> dict_get d k = Some v \<Longrightarrow> key w = key v \<Longrightarrow> keyed_by key (dict_put k w d)"
  using keyed_by_getD keyed_by_put by metis

lemma keyed_by_values:
  "keyed_by key d \<Longrightarrow> v \<in> set (dict_values d) \<longleftrightarrow> dict_get d (key v) = Some v"
  unfolding keyed_by_def using dict_values_iff by metis

section \<open>Lists\<close>

definition find_first :: "('a \<Rightarrow> bool) \<Rightarrow> 'a list \<Rightarrow> 'a option" where
  "find_first P xs = List.find P xs"

lemma find_first_None_iff: "find_first P xs = None \<longleftrightarrow> (\<forall>x \<in> set xs. \<not> P x)"
  by (auto simp: find_first_def find_None_iff)

lemma find_first_SomeD: "find_first P xs = Some x \<Longrightarrow> x \<in> set xs \<and> P x"
  by (auto simp: find_first_def find_Some_iff)

lemma find_first_append:
  "find_first P (xs @ ys) = (case find_first P xs of None \<Rightarrow> find_first P ys | Some x \<Rightarrow> Some x)"
  by (induction xs) (auto simp: find_first_def)

text \<open>Stable sorting by a key, ascending and with \<open>reverse=True\<close>.\<close>

definition py_sort :: "('a \<Rightarrow> 'k::linorder) \<Rightarrow> 'a list \<Rightarrow> 'a list" where
  "py_sort key xs = sort_key key xs"

definition py_sort_desc :: "('a \<Rightarrow> 'k::linorder) \<Rightarrow> 'a list \<Rightarrow> 'a list" where
  "py_sort_desc key xs = rev (sort_key key (rev xs))"

lemma set_py_sort [simp]: "set (py_sort key xs) = set xs"
  and set_py_sort_desc [simp]: "set (py_sort_desc key xs) = set xs"
  by (simp_all add: py_sort_def py_sort_desc_def)

lemma length_py_sort [simp]: "length (py_sort key xs) = length xs"
  and length_py_sort_desc [simp]: "length (py_sort_desc key xs) = length xs"
  by (simp_all add: py_sort_def py_sort_desc_def)

lemma sorted_py_sort: "sorted (map key (py_sort key xs))"
  by (simp add: py_sort_def)

lemma sorted_py_sort_desc: "sorted (rev (map key (py_sort_desc key xs)))"
  by (simp add: py_sort_desc_def rev_map)

lemma distinct_py_sort [simp]: "distinct (py_sort key xs) = distinct xs"
  by (simp add: py_sort_def)

text \<open>Pages: \<open>items[offset : offset + limit]\<close>.\<close>

definition page :: "nat \<Rightarrow> nat \<Rightarrow> 'a list \<Rightarrow> 'a list" where
  "page offset limit xs = take limit (drop offset xs)"

lemma length_page: "length (page offset limit xs) = min limit (length xs - offset)"
  by (simp add: page_def)

lemma set_page: "set (page offset limit xs) \<subseteq> set xs"
  unfolding page_def by (meson set_drop_subset set_take_subset subset_trans)

end
