(* ===== verification/EF_Text.thy ===== *)
theory EF_Text
  imports EF_Prelude
begin

text \<open>
  The text routines of Python's \<open>str\<close> and \<open>int\<close> that the services call: character classes, case
  folding, \<open>strip\<close>, \<open>split\<close>, \<open>join\<close>, \<open>rpartition\<close>, \<open>str(n)\<close> and \<open>int(s)\<close>. Characters are read as
  ASCII; a character above 127 belongs to no class and is left unchanged.
\<close>

section \<open>Character classes\<close>

definition code_of :: "char \<Rightarrow> nat" where
  "code_of c = of_char c"

definition is_space :: "char \<Rightarrow> bool" where
  "is_space c \<longleftrightarrow> code_of c = 32 \<or> (9 \<le> code_of c \<and> code_of c \<le> 13) \<or> (28 \<le> code_of c \<and> code_of c \<le> 31)"

definition is_digit :: "char \<Rightarrow> bool" where
  "is_digit c \<longleftrightarrow> 48 \<le> code_of c \<and> code_of c \<le> 57"

definition is_upper :: "char \<Rightarrow> bool" where
  "is_upper c \<longleftrightarrow> 65 \<le> code_of c \<and> code_of c \<le> 90"

definition is_lower :: "char \<Rightarrow> bool" where
  "is_lower c \<longleftrightarrow> 97 \<le> code_of c \<and> code_of c \<le> 122"

definition is_alnum :: "char \<Rightarrow> bool" where
  "is_alnum c \<longleftrightarrow> is_digit c \<or> is_upper c \<or> is_lower c"

definition is_word :: "char \<Rightarrow> bool" where
  "is_word c \<longleftrightarrow> is_alnum c \<or> code_of c = 95"

definition lower_char :: "char \<Rightarrow> char" where
  "lower_char c = (if is_upper c then char_of (code_of c + 32) else c)"

definition lower :: "string \<Rightarrow> string" where
  "lower s = map lower_char s"

definition upper_char :: "char \<Rightarrow> char" where
  "upper_char c = (if is_lower c then char_of (code_of c - 32) else c)"

definition upper :: "string \<Rightarrow> string" where
  "upper s = map upper_char s"

lemma code_of_char_of: "n < 256 \<Longrightarrow> code_of (char_of n) = n"
  by (simp add: code_of_def)

lemma lower_char_idem [simp]: "lower_char (lower_char c) = lower_char c"
  by (auto simp: lower_char_def is_upper_def code_of_char_of)

lemma lower_idem [simp]: "lower (lower s) = lower s"
  by (simp add: lower_def)

lemma lower_Nil_iff [simp]: "lower s = [] \<longleftrightarrow> s = []" "[] = lower s \<longleftrightarrow> s = []"
  by (auto simp: lower_def)

lemma lower_append [simp]: "lower (s @ t) = lower s @ lower t"
  by (simp add: lower_def)

lemma not_space_lower_char [simp]: "is_space (lower_char c) = is_space c"
  by (auto simp: lower_char_def is_upper_def is_space_def code_of_char_of)

lemma digit_not_space: "is_digit c \<Longrightarrow> \<not> is_space c"
  by (auto simp: is_digit_def is_space_def)

lemma alnum_not_space: "is_alnum c \<Longrightarrow> \<not> is_space c"
  by (auto simp: is_alnum_def is_digit_def is_upper_def is_lower_def is_space_def)

section \<open>White space\<close>

definition lstrip :: "string \<Rightarrow> string" where
  "lstrip s = dropWhile is_space s"

definition rstrip :: "string \<Rightarrow> string" where
  "rstrip s = rev (dropWhile is_space (rev s))"

definition strip :: "string \<Rightarrow> string" where
  "strip s = rstrip (lstrip s)"

text \<open>\<open>s.split()\<close>: the maximal runs of non-space characters.\<close>

function words :: "string \<Rightarrow> string list" where
  "words [] = []"
| "words (c # cs) =
     (if is_space c then words cs
      else (c # takeWhile (\<lambda>x. \<not> is_space x) cs) # words (dropWhile (\<lambda>x. \<not> is_space x) cs))"
  by pat_completeness auto
termination
  by (relation "measure length") (auto simp: le_imp_less_Suc length_dropWhile_le)

fun join :: "string \<Rightarrow> string list \<Rightarrow> string" where
  "join sep [] = []"
| "join sep [x] = x"
| "join sep (x # y # zs) = x @ sep @ join sep (y # zs)"

definition collapse :: "string \<Rightarrow> string" where
  "collapse s = join '' '' (words s)"

definition spaceless :: "string \<Rightarrow> bool" where
  "spaceless s \<longleftrightarrow> s \<noteq> [] \<and> (\<forall>c \<in> set s. \<not> is_space c)"

lemma is_space_blank [simp]: "is_space CHR '' ''"
  by (simp add: is_space_def code_of_def)

lemma words_spaceless: "w \<in> set (words s) \<Longrightarrow> spaceless w"
proof (induction s rule: words.induct)
  case (2 c cs)
  show ?case
  proof (cases "is_space c")
    case True
    with 2 show ?thesis by simp
  next
    case False
    then have "spaceless (c # takeWhile (\<lambda>x. \<not> is_space x) cs)"
      by (auto simp: spaceless_def dest: set_takeWhileD)
    moreover from False 2(3) have "w = c # takeWhile (\<lambda>x. \<not> is_space x) cs \<or>
        w \<in> set (words (dropWhile (\<lambda>x. \<not> is_space x) cs))" by simp
    ultimately show ?thesis using 2(2) [OF False] by blast
  qed
qed simp

lemma words_spaceless_append:
  assumes "spaceless w" and "t = [] \<or> is_space (hd t)"
  shows "words (w @ t) = w # words t"
proof (cases w)
  case Nil
  with assms show ?thesis by (simp add: spaceless_def)
next
  case (Cons c cs)
  with assms(1) have c: "\<not> is_space c" and cs: "\<forall>x \<in> set cs. \<not> is_space x"
    by (auto simp: spaceless_def)
  have "takeWhile (\<lambda>x. \<not> is_space x) (cs @ t) = cs" and "dropWhile (\<lambda>x. \<not> is_space x) (cs @ t) = t"
    using cs assms(2) by (cases t; auto)+
  with c Cons show ?thesis by simp
qed

lemma words_join: "(\<And>w. w \<in> set ws \<Longrightarrow> spaceless w) \<Longrightarrow> words (join '' '' ws) = ws"
proof (induction "'' '' :: string" ws rule: join.induct)
  case (2 x)
  then show ?case using words_spaceless_append [of x "[]"] by simp
next
  case (3 x y zs)
  then show ?case using words_spaceless_append [of x "'' '' @ join '' '' (y # zs)"] by simp
qed simp

lemma collapse_idem [simp]: "collapse (collapse s) = collapse s"
  by (simp add: collapse_def words_join words_spaceless)

lemma words_collapse [simp]: "words (collapse s) = words s"
  by (simp add: collapse_def words_join words_spaceless)

section \<open>Decimal numerals\<close>

definition digit_char :: "nat \<Rightarrow> char" where
  "digit_char n = char_of (48 + n)"

definition digit_val :: "char \<Rightarrow> nat" where
  "digit_val c = code_of c - 48"

fun str_nat :: "nat \<Rightarrow> string" where
  "str_nat n = (if n < 10 then [digit_char n] else str_nat (n div 10) @ [digit_char (n mod 10)])"

declare str_nat.simps [simp del]

definition str_int :: "int \<Rightarrow> string" where
  "str_int i = (if i < 0 then CHR ''-'' # str_nat (nat (- i)) else str_nat (nat i))"

text \<open>
  \<open>int(s)\<close>: surrounding white space and one sign are allowed, and single underscores between
  digits; anything else raises \<open>ValueError\<close>. The flag records whether the last character was a digit.
\<close>

fun int_body :: "nat \<Rightarrow> bool \<Rightarrow> string \<Rightarrow> nat option" where
  "int_body acc d [] = (if d then Some acc else None)"
| "int_body acc d (c # cs) =
     (if is_digit c then int_body (10 * acc + digit_val c) True cs
      else if c = CHR ''_'' \<and> d then int_body acc False cs
      else None)"

definition py_int :: "string \<Rightarrow> int option" where
  "py_int s =
     (case strip s of
        [] \<Rightarrow> None
      | c # cs \<Rightarrow>
          if c = CHR ''-'' then map_option (\<lambda>n. - int n) (int_body 0 False cs)
          else if c = CHR ''+'' then map_option int (int_body 0 False cs)
          else map_option int (int_body 0 False (c # cs)))"

lemma digit_char_digit [simp]: "n < 10 \<Longrightarrow> is_digit (digit_char n)"
  by (simp add: is_digit_def digit_char_def code_of_char_of)

lemma digit_val_char [simp]: "n < 10 \<Longrightarrow> digit_val (digit_char n) = n"
  by (simp add: digit_val_def digit_char_def code_of_char_of)

lemma int_body_snoc:
  "(\<forall>c \<in> set s. is_digit c) \<Longrightarrow> s \<noteq> [] \<or> d \<Longrightarrow> is_digit c \<Longrightarrow>
   int_body acc d (s @ [c]) = map_option (\<lambda>n. 10 * n + digit_val c) (int_body acc d s)"
proof (induction s arbitrary: acc d)
  case (Cons x s)
  then show ?case by simp
qed simp

lemma str_nat_digits: "(\<forall>c \<in> set (str_nat n). is_digit c) \<and> str_nat n \<noteq> []"
proof (induction n rule: str_nat.induct)
  case (1 n)
  then show ?case by (cases "n < 10") (auto simp: str_nat.simps [of n])
qed

lemma int_body_str_nat [simp]: "int_body 0 False (str_nat n) = Some n"
proof (induction n rule: str_nat.induct)
  case (1 n)
  show ?case
  proof (cases "n < 10")
    case True
    then show ?thesis by (simp add: str_nat.simps [of n])
  next
    case False
    have "int_body 0 False (str_nat (n div 10) @ [digit_char (n mod 10)]) =
        map_option (\<lambda>k. 10 * k + n mod 10) (int_body 0 False (str_nat (n div 10)))"
      using str_nat_digits [of "n div 10"] by (subst int_body_snoc) auto
    with 1 False show ?thesis by (simp add: str_nat.simps [of n])
  qed
qed

lemma strip_spaceless: "(\<forall>c \<in> set s. \<not> is_space c) \<Longrightarrow> strip s = s"
proof -
  assume a: "\<forall>c \<in> set s. \<not> is_space c"
  then have "dropWhile is_space s = s" by (cases s) auto
  moreover have "dropWhile is_space (rev s) = rev s"
  proof (cases "rev s")
    case (Cons x xs)
    then have "x \<in> set (rev s)" by simp
    with a have "\<not> is_space x" by simp
    with Cons show ?thesis by simp
  qed simp
  ultimately show ?thesis by (simp add: strip_def lstrip_def rstrip_def)
qed

lemma sign_not_space [simp]: "\<not> is_space CHR ''-''" "\<not> is_digit CHR ''-''" "\<not> is_digit CHR ''+''"
  by (simp_all add: is_space_def is_digit_def code_of_def)

lemma py_int_str_int [simp]: "py_int (str_int i) = Some i"
proof (cases "i < 0")
  case True
  have "strip (CHR ''-'' # str_nat (nat (- i))) = CHR ''-'' # str_nat (nat (- i))"
    using str_nat_digits by (intro strip_spaceless) (auto dest: digit_not_space)
  with True show ?thesis by (simp add: py_int_def str_int_def)
next
  case False
  let ?s = "str_nat (nat i)"
  have s: "strip ?s = ?s"
    using str_nat_digits by (intro strip_spaceless) (auto dest: digit_not_space)
  obtain c cs where cc: "?s = c # cs" using str_nat_digits [of "nat i"] by (cases ?s) auto
  then have "is_digit c" using str_nat_digits [of "nat i"] by simp
  then have "c \<noteq> CHR ''-''" and "c \<noteq> CHR ''+''" by auto
  moreover have "int_body 0 False (c # cs) = Some (nat i)"
    using int_body_str_nat [of "nat i"] cc by simp
  ultimately show ?thesis using False s cc by (simp add: py_int_def str_int_def del: int_body.simps)
qed

lemma str_int_inject [simp]: "str_int i = str_int j \<longleftrightarrow> i = j"
  by (metis option.inject py_int_str_int)

lemma str_nat_inject [simp]: "str_nat m = str_nat n \<longleftrightarrow> m = n"
  by (metis int_body_str_nat option.inject)

section \<open>Splitting\<close>

definition starts_with :: "string \<Rightarrow> string \<Rightarrow> bool" where
  "starts_with s p \<longleftrightarrow> take (length p) s = p"

fun contains :: "string \<Rightarrow> string \<Rightarrow> bool" where
  "contains [] p = (p = [])"
| "contains (c # cs) p = (starts_with (c # cs) p \<or> contains cs p)"

text \<open>\<open>s.split(c, n)\<close>: at most \<open>n\<close> cuts, the rest of the text stays in the last part.\<close>

fun split_n :: "char \<Rightarrow> nat \<Rightarrow> string \<Rightarrow> string list" where
  "split_n sep n [] = [[]]"
| "split_n sep n (c # cs) =
     (if c = sep \<and> 0 < n then [] # split_n sep (n - 1) cs
      else (case split_n sep n cs of [] \<Rightarrow> [[c]] | w # ws \<Rightarrow> (c # w) # ws))"

text \<open>\<open>s.split(c)\<close>.\<close>

fun split_all :: "char \<Rightarrow> string \<Rightarrow> string list" where
  "split_all sep [] = [[]]"
| "split_all sep (c # cs) =
     (if c = sep then [] # split_all sep cs
      else (case split_all sep cs of [] \<Rightarrow> [[c]] | w # ws \<Rightarrow> (c # w) # ws))"

lemma split_n_0: "split_n sep 0 s = [s]"
  by (induction s) auto

lemma split_n_append:
  "sep \<notin> set w \<Longrightarrow> split_n sep (Suc n) (w @ sep # s) = w # split_n sep n s"
  by (induction w) auto

lemma split_n_none: "sep \<notin> set w \<Longrightarrow> split_n sep n w = [w]"
  by (induction w arbitrary: n) auto

lemma split_n_nonempty [simp]: "split_n sep n s \<noteq> []"
  by (induction sep n s rule: split_n.induct) (auto split: list.splits)

lemma split_n_join: "join [sep] (split_n sep n s) = s"
proof (induction sep n s rule: split_n.induct)
  case (2 sep n c cs)
  then show ?case
  proof (cases "c = sep \<and> 0 < n")
    case True
    with 2 show ?thesis by (cases "split_n sep (n - 1) cs") auto
  next
    case False
    obtain w ws where ws: "split_n sep n cs = w # ws" by (cases "split_n sep n cs") auto
    with 2 False have "join [sep] (w # ws) = cs" by auto
    with False ws show ?thesis by (cases ws) auto
  qed
qed simp

lemma split_all_append: "sep \<notin> set w \<Longrightarrow> split_all sep (w @ sep # s) = w # split_all sep s"
  by (induction w) auto

lemma split_all_none: "sep \<notin> set w \<Longrightarrow> split_all sep w = [w]"
  by (induction w) auto

lemma length_split_all: "length (split_all sep s) = Suc (count_list s sep)"
  by (induction s) (auto split: list.splits)

text \<open>
  \<open>s.rpartition(m)\<close>: the text before the last occurrence of the marker and the text after it, or
  nothing when the marker does not occur.
\<close>

fun rpartition :: "string \<Rightarrow> string \<Rightarrow> (string \<times> string) option" where
  "rpartition m [] = None"
| "rpartition m (c # cs) =
     (case rpartition m cs of
        Some (a, b) \<Rightarrow> Some (c # a, b)
      | None \<Rightarrow> if starts_with (c # cs) m then Some ([], drop (length m) (c # cs)) else None)"

lemma rpartition_eq: "rpartition m s = Some (a, b) \<Longrightarrow> s = a @ m @ b"
proof (induction s arbitrary: a)
  case (Cons c cs)
  then show ?case
    by (auto simp: starts_with_def split: option.splits if_splits)
      (metis append_take_drop_id)
qed simp

text \<open>A tail without the marker's first character holds no later occurrence.\<close>

lemma rpartition_none:
  "m \<noteq> [] \<Longrightarrow> hd m \<notin> set s \<Longrightarrow> rpartition m s = None"
  by (induction s) (auto simp: starts_with_def neq_Nil_conv)

definition is_decimal :: "string \<Rightarrow> bool" where
  "is_decimal s \<longleftrightarrow> s \<noteq> [] \<and> (\<forall>c \<in> set s. is_digit c)"

lemma is_decimal_str_nat [simp]: "is_decimal (str_nat n)"
  using str_nat_digits by (simp add: is_decimal_def)

end
