(* ===== verification/EF_Queue.thy ===== *)
theory EF_Queue
  imports EF_Text
begin

text \<open>
  The event queue: \<open>contracts/events.py\<close> and \<open>services/queue.py\<close>. A \<open>QueueMessage\<close> is a record, its
  wire form the JSON object \<open>serialize_queue_message\<close> builds. The brokers are third party: what they
  answer is an argument of the operations that ask them (\<open>accepts\<close>: the broker took the message,
  \<open>settles\<close>: it took the acknowledgement, \<open>fetched\<close>: what \<open>queue.get\<close> or \<open>blpop\<close> returned), and what
  RabbitMQ is told is recorded in the state (\<open>published\<close>, \<open>acked\<close>, \<open>rejected\<close>).
\<close>

section \<open>Messages\<close>

record message =
  queue_name :: string
  payload :: json
  correlation_id :: string
  metadata :: "(string, json) dict"
  delivery_token :: "string option"

definition serialize_queue_message :: "message \<Rightarrow> json" where
  "serialize_queue_message m = JObj
     [(''queue_name'', JStr (queue_name m)),
      (''payload'', payload m),
      (''correlation_id'', JStr (correlation_id m)),
      (''metadata'', JObj (metadata m))]"

text \<open>
  The decoding half of \<open>pop\<close>: absent fields take their defaults. A field that is not of the declared
  type counts as a body that cannot be decoded.
\<close>

definition json_str :: "json \<Rightarrow> string option" where
  "json_str j = (case j of JStr s \<Rightarrow> Some s | _ \<Rightarrow> None)"

definition json_dict :: "json \<Rightarrow> (string, json) dict option" where
  "json_dict j = (case j of JObj d \<Rightarrow> Some d | _ \<Rightarrow> None)"

definition get_or :: "(string, json) dict \<Rightarrow> string \<Rightarrow> json \<Rightarrow> json" where
  "get_or d k dflt = (case dict_get d k of None \<Rightarrow> dflt | Some v \<Rightarrow> v)"

definition decode_message :: "string \<Rightarrow> string option \<Rightarrow> (string, json) dict \<Rightarrow> message option" where
  "decode_message q tok d =
     Option.bind (json_str (get_or d ''queue_name'' (JStr q))) (\<lambda>name.
     Option.bind (json_str (get_or d ''correlation_id'' (JStr ''''))) (\<lambda>corr.
     Option.bind (json_dict (get_or d ''metadata'' (JObj []))) (\<lambda>meta.
     Some \<lparr>queue_name = name, payload = get_or d ''payload'' (JObj []), correlation_id = corr,
           metadata = meta, delivery_token = tok\<rparr>)))"

lemma decode_serialize:
  "\<exists>d. serialize_queue_message m = JObj d \<and>
     decode_message q tok d = Some (m\<lparr>delivery_token := tok\<rparr>)"
  by (simp add: serialize_queue_message_def decode_message_def get_or_def json_str_def json_dict_def)

section \<open>The retry counter\<close>

text \<open>\<open>int(message.metadata.get("retry_count", "0"))\<close>, with the values JSON can put there.\<close>

definition json_int :: "json \<Rightarrow> int res" where
  "json_int j =
     (case j of
        JStr s \<Rightarrow> (case py_int s of Some n \<Rightarrow> Inr n | None \<Rightarrow> Inl (ValueError ''invalid literal for int()''))
      | JNum r \<Rightarrow> Inr (if r < 0 then - \<lfloor>- r\<rfloor> else \<lfloor>r\<rfloor>)
      | JBool b \<Rightarrow> Inr (if b then 1 else 0)
      | _ \<Rightarrow> Inl (TypeError ''int() argument must be a string or a number''))"

definition attempt_of :: "message \<Rightarrow> int res" where
  "attempt_of m = json_int (get_or (metadata m) ''retry_count'' (JStr ''0''))"

definition next_attempt :: "message \<Rightarrow> int \<Rightarrow> string \<Rightarrow> message" where
  "next_attempt m attempt reason =
     \<lparr>queue_name = queue_name m, payload = payload m, correlation_id = correlation_id m,
      metadata = dict_put ''last_error'' (JStr (take 200 reason))
        (dict_put ''retry_count'' (JStr (str_int (attempt + 1))) (metadata m)),
      delivery_token = None\<rparr>"

lemma attempt_of_next [simp]: "attempt_of (next_attempt m k reason) = Inr (k + 1)"
  by (simp add: attempt_of_def next_attempt_def get_or_def json_int_def dict_simps)

lemma next_attempt_fields [simp]:
  "queue_name (next_attempt m k r) = queue_name m"
  "payload (next_attempt m k r) = payload m"
  "correlation_id (next_attempt m k r) = correlation_id m"
  "delivery_token (next_attempt m k r) = None"
  by (simp_all add: next_attempt_def)

lemma attempt_of_token [simp]: "attempt_of (m\<lparr>delivery_token := t\<rparr>) = attempt_of m"
  by (simp add: attempt_of_def)

section \<open>The retry contract\<close>

text \<open>
  What \<open>EventQueue.retry\<close> promises whatever the broker: a message under the bound is published again
  with its counter raised by one and only then settled; a message at the bound is dropped (for
  RabbitMQ: dead-lettered) and not published.
\<close>

locale retrying_queue =
  fixes publish :: "message \<Rightarrow> 's \<Rightarrow> unit res \<times> 's"
    and retry :: "message \<Rightarrow> string \<Rightarrow> 's \<Rightarrow> unit res \<times> 's"
    and settle :: "message \<Rightarrow> 's \<Rightarrow> unit res \<times> 's"
    and discard :: "message \<Rightarrow> 's \<Rightarrow> unit res \<times> 's"
    and max_retries :: int
  assumes retry_again: "attempt_of m = Inr k \<Longrightarrow> k < max_retries \<Longrightarrow>
      retry m reason s = then_do (publish (next_attempt m k reason) s) (\<lambda>_. settle m)"
    and retry_exhausted: "attempt_of m = Inr k \<Longrightarrow> max_retries \<le> k \<Longrightarrow>
      retry m reason s = discard m s"
    and retry_malformed: "attempt_of m = Inl e \<Longrightarrow> retry m reason s = (Inl e, s)"

text \<open>
  The life of a message whose handler always fails: it is handed to \<open>retry\<close>, and while a copy was
  published that copy is received (with some token) and fails again. The result lists the messages
  that were published on the way; the fuel bounds the receptions followed.
\<close>

fun republished :: "nat \<Rightarrow> int \<Rightarrow> message \<Rightarrow> string \<Rightarrow> message list" where
  "republished 0 mx m reason = []"
| "republished (Suc n) mx m reason =
     (case attempt_of m of
        Inl e \<Rightarrow> []
      | Inr k \<Rightarrow> if k < mx then next_attempt m k reason # republished n mx (next_attempt m k reason) reason
                else [])"

lemma length_republished:
  "attempt_of m = Inr k \<Longrightarrow> length (republished n mx m reason) = min n (nat (mx - k))"
proof (induction n arbitrary: m k)
  case (Suc n)
  show ?case
  proof (cases "k < mx")
    case True
    have "length (republished n mx (next_attempt m k reason) reason) = min n (nat (mx - (k + 1)))"
      by (rule Suc.IH) simp
    moreover have "nat (mx - k) = Suc (nat (mx - (k + 1)))" using True by simp
    ultimately show ?thesis using Suc.prems True by simp
  next
    case False
    with Suc.prems show ?thesis by simp
  qed
qed simp

lemma republished_counters:
  "attempt_of m = Inr k \<Longrightarrow> i < length (republished n mx m reason) \<Longrightarrow>
   attempt_of (republished n mx m reason ! i) = Inr (k + 1 + int i) \<and>
   payload (republished n mx m reason ! i) = payload m \<and>
   queue_name (republished n mx m reason ! i) = queue_name m \<and>
   correlation_id (republished n mx m reason ! i) = correlation_id m"
proof (induction n arbitrary: m k i)
  case (Suc n)
  then have k: "k < mx" by (auto split: if_splits)
  show ?case
  proof (cases i)
    case 0
    with Suc.prems k show ?thesis by simp
  next
    case (Suc j)
    have "attempt_of (next_attempt m k reason) = Inr (k + 1)" by simp
    from Suc.IH [OF this, of j] Suc.prems k Suc show ?thesis by simp
  qed
qed simp

context retrying_queue
begin

text \<open>A failed publication is raised as it is, and nothing is settled: the delivery stays open.\<close>

lemma failed_publish_keeps_delivery:
  assumes "attempt_of m = Inr k" and "k < max_retries"
    and "publish (next_attempt m k reason) s = (Inl e, s')"
  shows "retry m reason s = (Inl e, s')"
  using assms by (simp add: retry_again)

lemma settled_only_after_publish:
  assumes "attempt_of m = Inr k" and "k < max_retries" and "retry m reason s = (Inr u, s')"
  obtains v s1 where "publish (next_attempt m k reason) s = (Inr v, s1)"
    and "settle m s1 = (Inr u, s')"
  using assms by (auto simp: retry_again elim: then_do_InrE)

end

section \<open>RabbitMQ\<close>

text \<open>
  \<open>RabbitMQEventQueue\<close>: the client keeps the unsettled deliveries under the token given to the
  consumer. \<open>incoming.processed\<close> is true once the delivery was acknowledged or rejected.
\<close>

record 'd rabbit =
  deliveries :: "(string, 'd) dict"
  acked :: "'d list"
  rejected :: "'d list"
  published :: "(string \<times> json) list"

datatype 'd fetched =
    FetchRaised
  | NothingReady
  | Incoming 'd "json option"

definition processed :: "'d rabbit \<Rightarrow> 'd \<Rightarrow> bool" where
  "processed s d \<longleftrightarrow> d \<in> set (acked s) \<or> d \<in> set (rejected s)"

definition rabbit_publish :: "(message \<Rightarrow> bool) \<Rightarrow> message \<Rightarrow> 'd rabbit \<Rightarrow> unit res \<times> 'd rabbit" where
  "rabbit_publish accepts m s =
     (if accepts m
      then (Inr (), s\<lparr>published := published s @ [(queue_name m, serialize_queue_message m)]\<rparr>)
      else (Inl (QueuePublishError (queue_name m)), s))"

definition rabbit_reject :: "('d \<Rightarrow> bool) \<Rightarrow> 'd \<Rightarrow> 'd rabbit \<Rightarrow> unit res \<times> 'd rabbit" where
  "rabbit_reject settles d s =
     (if processed s d then (Inr (), s)
      else if settles d then (Inr (), s\<lparr>rejected := rejected s @ [d]\<rparr>)
      else (Inl (RuntimeError ''reject''), s))"

definition rabbit_pop ::
  "('d \<Rightarrow> bool) \<Rightarrow> 'd fetched \<Rightarrow> string \<Rightarrow> string \<Rightarrow> 'd rabbit \<Rightarrow> message option res \<times> 'd rabbit" where
  "rabbit_pop settles fetched token q s =
     (case fetched of
        FetchRaised \<Rightarrow> (Inr None, s)
      | NothingReady \<Rightarrow> (Inr None, s)
      | Incoming d body \<Rightarrow>
          (case body of
             None \<Rightarrow> then_do (rabbit_reject settles d s) (\<lambda>_ s'. (Inr None, s'))
           | Some j \<Rightarrow>
               (let s1 = s\<lparr>deliveries := dict_put token d (deliveries s)\<rparr> in
                case Option.bind (json_dict j) (decode_message q (Some token)) of
                  Some m \<Rightarrow> (Inr (Some m), s1)
                | None \<Rightarrow> then_do (rabbit_reject settles d s1) (\<lambda>_ s'. (Inr None, s')))))"

definition rabbit_ack :: "('d \<Rightarrow> bool) \<Rightarrow> message \<Rightarrow> 'd rabbit \<Rightarrow> unit res \<times> 'd rabbit" where
  "rabbit_ack settles m s =
     (case delivery_token m of
        None \<Rightarrow> (Inr (), s)
      | Some t \<Rightarrow>
          (case dict_get (deliveries s) t of
             None \<Rightarrow> (Inr (), s)
           | Some d \<Rightarrow>
               (let s1 = s\<lparr>deliveries := dict_pop t (deliveries s)\<rparr> in
                if processed s1 d then (Inr (), s1)
                else if settles d then (Inr (), s1\<lparr>acked := acked s1 @ [d]\<rparr>)
                else (Inl (RuntimeError ''ack''), s1))))"

text \<open>The branch of \<open>retry\<close> taken when the attempts are used up: the delivery goes to the DLQ.\<close>

definition rabbit_dead_letter :: "('d \<Rightarrow> bool) \<Rightarrow> message \<Rightarrow> 'd rabbit \<Rightarrow> unit res \<times> 'd rabbit" where
  "rabbit_dead_letter settles m s =
     (case delivery_token m of
        None \<Rightarrow> (Inr (), s)
      | Some t \<Rightarrow>
          (case dict_get (deliveries s) t of
             None \<Rightarrow> (Inr (), s)
           | Some d \<Rightarrow> rabbit_reject settles d (s\<lparr>deliveries := dict_pop t (deliveries s)\<rparr>)))"

definition rabbit_retry ::
  "(message \<Rightarrow> bool) \<Rightarrow> ('d \<Rightarrow> bool) \<Rightarrow> int \<Rightarrow> message \<Rightarrow> string \<Rightarrow> 'd rabbit \<Rightarrow> unit res \<times> 'd rabbit" where
  "rabbit_retry accepts settles max_retries m reason s =
     (case attempt_of m of
        Inl e \<Rightarrow> (Inl e, s)
      | Inr attempt \<Rightarrow>
          if attempt < max_retries
          then then_do (rabbit_publish accepts (next_attempt m attempt reason) s)
                 (\<lambda>_. rabbit_ack settles m)
          else rabbit_dead_letter settles m s)"

definition rabbit_aclose :: "'d rabbit \<Rightarrow> 'd rabbit" where
  "rabbit_aclose s = s\<lparr>deliveries := []\<rparr>"

interpretation rabbit: retrying_queue
  "rabbit_publish accepts" "rabbit_retry accepts settles mx" "rabbit_ack settles"
  "rabbit_dead_letter settles" mx
  for accepts settles mx
  by unfold_locales (auto simp: rabbit_retry_def)

section \<open>Redis\<close>

text \<open>
  \<open>RedisEventQueue\<close>: the list commands are arguments, \<open>rpush\<close> failing with \<open>None\<close>. A message popped
  by \<open>blpop\<close> is gone from Redis, so \<open>ack\<close> does nothing and a message at the bound is lost.
\<close>

definition redis_publish :: "(string \<Rightarrow> json \<Rightarrow> 'r \<Rightarrow> 'r option) \<Rightarrow> message \<Rightarrow> 'r \<Rightarrow> unit res \<times> 'r" where
  "redis_publish rpush m r =
     (case rpush (queue_name m) (serialize_queue_message m) r of
        None \<Rightarrow> (Inl (QueuePublishError (queue_name m)), r)
      | Some r' \<Rightarrow> (Inr (), r'))"

definition redis_pop ::
  "(string \<Rightarrow> 'r \<Rightarrow> (json option \<times> 'r) option) \<Rightarrow> string \<Rightarrow> 'r \<Rightarrow> message option \<times> 'r" where
  "redis_pop blpop q r =
     (case blpop q r of
        None \<Rightarrow> (None, r)
      | Some (None, r') \<Rightarrow> (None, r')
      | Some (Some j, r') \<Rightarrow> (Option.bind (json_dict j) (decode_message q None), r'))"

definition redis_ack :: "message \<Rightarrow> 'r \<Rightarrow> unit res \<times> 'r" where
  "redis_ack m r = (Inr (), r)"

definition redis_retry ::
  "(string \<Rightarrow> json \<Rightarrow> 'r \<Rightarrow> 'r option) \<Rightarrow> int \<Rightarrow> message \<Rightarrow> string \<Rightarrow> 'r \<Rightarrow> unit res \<times> 'r" where
  "redis_retry rpush max_retries m reason r =
     (case attempt_of m of
        Inl e \<Rightarrow> (Inl e, r)
      | Inr attempt \<Rightarrow>
          if max_retries \<le> attempt then (Inr (), r)
          else redis_publish rpush (next_attempt m attempt reason) r)"

interpretation redis: retrying_queue
  "redis_publish rpush" "redis_retry rpush mx" redis_ack "\<lambda>m r. (Inr (), r)" mx
  for rpush mx
proof unfold_locales
  fix m k reason and s :: 'a
  assume "attempt_of m = Inr k" and "k < mx"
  then show "redis_retry rpush mx m reason s =
      then_do (redis_publish rpush (next_attempt m k reason) s) (\<lambda>_. redis_ack m)"
    by (cases "redis_publish rpush (next_attempt m k reason) s" rule: prod.exhaust)
      (auto simp: redis_retry_def redis_ack_def then_do_def redis_publish_def split: option.splits)
qed (auto simp: redis_retry_def)

end
