(* ===== verification/EF_Consumer.thy ===== *)
theory EF_Consumer
  imports EF_Queue
begin

text \<open>
  \<open>services/queue_consumer.py\<close>: one polling round of \<open>IngestionQueueConsumerWorker\<close>. The queue's
  operations, the three processors and the decoding of the structured announcement are arguments;
  each processor takes the message and the shared state and may raise. Logging is left out.
\<close>

section \<open>The worker\<close>

datatype stage = All | PreAi | Ai | Dedup | Notification

record 's worker =
  w_stage :: stage
  pre_ai_processor :: "(message \<Rightarrow> 's \<Rightarrow> unit res \<times> 's) option"
  ai_worker :: "(message \<Rightarrow> 's \<Rightarrow> unit res \<times> 's) option"
  post_ai_processor :: "(message \<Rightarrow> 's \<Rightarrow> unit res \<times> 's) option"

definition RAW_ANNOUNCEMENT_QUEUE :: string where
  "RAW_ANNOUNCEMENT_QUEUE = ''ingestion.raw_announcements''"

definition AI_PROCESSING_QUEUE :: string where
  "AI_PROCESSING_QUEUE = ''ai.processing.raw_announcements''"

definition POST_AI_DEDUP_QUEUE :: string where
  "POST_AI_DEDUP_QUEUE = ''dedup.post_ai.structured_announcements''"

fun error_text :: "py_error \<Rightarrow> string" where
  "error_text (KeyError s) = s"
| "error_text (ValueError s) = s"
| "error_text (TypeError s) = s"
| "error_text (PermissionError s) = s"
| "error_text (RuntimeError s) = s"
| "error_text (AttributeError s) = s"
| "error_text (ValidationError s) = s"
| "error_text (StorageUploadError s r) = s"
| "error_text (OtherError c s) = s"
| "error_text (QueuePublishError s) = ''Failed to publish to '' @ s"

text \<open>\<open>try: handle; ack  except: retry\<close>, the shape shared by the stages.\<close>

definition handle_message ::
  "(message \<Rightarrow> 's \<Rightarrow> unit res \<times> 's) \<Rightarrow> (message \<Rightarrow> string \<Rightarrow> 's \<Rightarrow> unit res \<times> 's) \<Rightarrow>
   (message \<Rightarrow> 's \<Rightarrow> unit res \<times> 's) \<Rightarrow> message \<Rightarrow> 's \<Rightarrow> unit res \<times> 's" where
  "handle_message ack retry handler m s =
     (case then_do (handler m s) (\<lambda>_. ack m) of
        (Inr u, s') \<Rightarrow> (Inr u, s')
      | (Inl e, s') \<Rightarrow> retry m (error_text e) s')"

definition not_configured :: "string \<Rightarrow> message \<Rightarrow> 's \<Rightarrow> unit res \<times> 's" where
  "not_configured what m s = (Inl (RuntimeError what), s)"

definition or_raise ::
  "string \<Rightarrow> (message \<Rightarrow> 's \<Rightarrow> unit res \<times> 's) option \<Rightarrow> message \<Rightarrow> 's \<Rightarrow> unit res \<times> 's" where
  "or_raise what h = (case h of Some f \<Rightarrow> f | None \<Rightarrow> not_configured what)"

text \<open>One stage: nothing when it is not this worker's stage or its queue is empty.\<close>

definition run_stage ::
  "bool \<Rightarrow> (string \<Rightarrow> 's \<Rightarrow> message option res \<times> 's) \<Rightarrow> (message \<Rightarrow> 's \<Rightarrow> unit res \<times> 's) \<Rightarrow>
   string \<Rightarrow> 's \<Rightarrow> bool res \<times> 's" where
  "run_stage enabled pop on_message q s =
     (if enabled
      then then_do (pop q s) (\<lambda>r s1.
             case r of
               None \<Rightarrow> (Inr False, s1)
             | Some m \<Rightarrow> then_do (on_message m s1) (\<lambda>_ s2. (Inr True, s2)))
      else (Inr False, s))"

definition raw_stage where
  "raw_stage pop ack retry w s =
     run_stage (w_stage w \<in> {All, PreAi}) pop
       (handle_message ack retry
          (or_raise ''Pre-AI processor is not configured for this worker'' (pre_ai_processor w)))
       RAW_ANNOUNCEMENT_QUEUE s"

definition ai_stage where
  "ai_stage pop ack retry w s =
     run_stage (w_stage w \<in> {All, Ai}) pop
       (case ai_worker w of
          Some h \<Rightarrow> handle_message ack retry h
        | None \<Rightarrow> (\<lambda>m. retry m ''AI worker is not configured''))
       AI_PROCESSING_QUEUE s"

definition dedup_stage where
  "dedup_stage pop ack retry (decodes :: message \<Rightarrow> py_error option) w s =
     run_stage (w_stage w \<in> {All, Dedup}) pop
       (handle_message ack retry
          (\<lambda>m s. case decodes m of
                   Some e \<Rightarrow> (Inl e, s)
                 | None \<Rightarrow> or_raise ''Post-AI processor is not configured for this worker''
                             (post_ai_processor w) m s))
       POST_AI_DEDUP_QUEUE s"

definition process_batch_once ::
  "(string \<Rightarrow> 's \<Rightarrow> message option res \<times> 's) \<Rightarrow> (message \<Rightarrow> 's \<Rightarrow> unit res \<times> 's) \<Rightarrow>
   (message \<Rightarrow> string \<Rightarrow> 's \<Rightarrow> unit res \<times> 's) \<Rightarrow> (message \<Rightarrow> py_error option) \<Rightarrow>
   's worker \<Rightarrow> 's \<Rightarrow> bool res \<times> 's" where
  "process_batch_once pop ack retry decodes w s =
     then_do (raw_stage pop ack retry w s) (\<lambda>p1 s1.
     then_do (ai_stage pop ack retry w s1) (\<lambda>p2 s2.
     then_do (dedup_stage pop ack retry decodes w s2) (\<lambda>p3 s3.
       (Inr (p1 \<or> p2 \<or> p3), s3))))"

section \<open>What a stage does with a RabbitMQ delivery\<close>

text \<open>The bookkeeping a processor leaves alone: it may publish, nothing else.\<close>

definition publishes_only :: "(message \<Rightarrow> 'd rabbit \<Rightarrow> unit res \<times> 'd rabbit) \<Rightarrow> bool" where
  "publishes_only h \<longleftrightarrow> (\<forall>m s. \<exists>new. snd (h m s) = s\<lparr>published := published s @ new\<rparr>)"

definition open_delivery :: "'d rabbit \<Rightarrow> message \<Rightarrow> 'd \<Rightarrow> bool" where
  "open_delivery s m d \<longleftrightarrow>
     (\<exists>t. delivery_token m = Some t \<and> dict_get (deliveries s) t = Some d) \<and> \<not> processed s d"

lemma publishes_onlyE:
  assumes "publishes_only h"
  obtains r new where "h m s = (r, s\<lparr>published := published s @ new\<rparr>)"
  using assms unfolding publishes_only_def by (metis prod.collapse)

lemma rabbit_ack_open:
  assumes "open_delivery s m d" and "settles d"
  shows "fst (rabbit_ack settles m s) = Inr ()"
    and "acked (snd (rabbit_ack settles m s)) = acked s @ [d]"
    and "rejected (snd (rabbit_ack settles m s)) = rejected s"
    and "published (snd (rabbit_ack settles m s)) = published s"
  using assms by (auto simp: open_delivery_def rabbit_ack_def processed_def Let_def)

lemma rabbit_dead_letter_open:
  assumes "open_delivery s m d" and "settles d"
  shows "fst (rabbit_dead_letter settles m s) = Inr ()"
    and "acked (snd (rabbit_dead_letter settles m s)) = acked s"
    and "rejected (snd (rabbit_dead_letter settles m s)) = rejected s @ [d]"
    and "published (snd (rabbit_dead_letter settles m s)) = published s"
  using assms by (auto simp: open_delivery_def rabbit_dead_letter_def rabbit_reject_def processed_def)

lemma open_delivery_published [simp]:
  "open_delivery (s\<lparr>published := p\<rparr>) m d = open_delivery s m d"
  by (simp add: open_delivery_def processed_def)

lemma rabbit_retry_open:
  assumes "open_delivery s m d" and "settles d" and "attempt_of m = Inr k"
  shows "k < mx \<Longrightarrow> accepts (next_attempt m k reason) \<Longrightarrow>
      fst (rabbit_retry accepts settles mx m reason s) = Inr () \<and>
      acked (snd (rabbit_retry accepts settles mx m reason s)) = acked s @ [d] \<and>
      rejected (snd (rabbit_retry accepts settles mx m reason s)) = rejected s \<and>
      published (snd (rabbit_retry accepts settles mx m reason s)) =
        published s @ [(queue_name m, serialize_queue_message (next_attempt m k reason))]"
    and "k < mx \<Longrightarrow> \<not> accepts (next_attempt m k reason) \<Longrightarrow>
      rabbit_retry accepts settles mx m reason s = (Inl (QueuePublishError (queue_name m)), s)"
    and "mx \<le> k \<Longrightarrow>
      fst (rabbit_retry accepts settles mx m reason s) = Inr () \<and>
      acked (snd (rabbit_retry accepts settles mx m reason s)) = acked s \<and>
      rejected (snd (rabbit_retry accepts settles mx m reason s)) = rejected s @ [d] \<and>
      published (snd (rabbit_retry accepts settles mx m reason s)) = published s"
  using assms
  by (simp_all add: rabbit_retry_def rabbit_publish_def rabbit_ack_open rabbit_dead_letter_open)

section \<open>Properties\<close>

text \<open>
  C1. A RabbitMQ delivery handed to a processor is settled exactly once: acknowledged when the
  processor succeeds; acknowledged after its retry copy, with the counter raised, was published when
  it fails under the bound; rejected to the dead-letter queue when it fails at the bound; and when
  the retry copy cannot be published the error is raised and the delivery stays open. Besides what
  the processor published (\<open>new\<close>) nothing else is sent.
\<close>

theorem handle_message_rabbit:
  fixes mx :: int and accepts :: "message \<Rightarrow> bool"
  assumes only: "publishes_only h" and op: "open_delivery s m d" and st: "settles d"
    and att: "attempt_of m = Inr k"
  defines "r \<equiv> handle_message (rabbit_ack settles) (rabbit_retry accepts settles mx) h m s"
  shows "\<exists>new. published (snd (h m s)) = published s @ new \<and>
     (case fst (h m s) of
        Inr _ \<Rightarrow> fst r = Inr () \<and> acked (snd r) = acked s @ [d] \<and> rejected (snd r) = rejected s \<and>
                 published (snd r) = published s @ new
      | Inl e \<Rightarrow>
          (if mx \<le> k
           then fst r = Inr () \<and> acked (snd r) = acked s \<and> rejected (snd r) = rejected s @ [d] \<and>
                published (snd r) = published s @ new
           else if accepts (next_attempt m k (error_text e))
           then fst r = Inr () \<and> acked (snd r) = acked s @ [d] \<and> rejected (snd r) = rejected s \<and>
                published (snd r) = published s @ new @
                  [(queue_name m, serialize_queue_message (next_attempt m k (error_text e)))]
           else fst r = Inl (QueuePublishError (queue_name m)) \<and> acked (snd r) = acked s \<and>
                rejected (snd r) = rejected s \<and> published (snd r) = published s @ new))"
proof -
  from only obtain res new where h: "h m s = (res, s\<lparr>published := published s @ new\<rparr>)"
    by (rule publishes_onlyE)
  let ?s1 = "s\<lparr>published := published s @ new\<rparr>"
  from op have op1: "open_delivery ?s1 m d" by simp
  show ?thesis
  proof (cases res)
    case (Inr u)
    have "fst (rabbit_ack settles m ?s1) = Inr ()" using op1 st by (rule rabbit_ack_open)
    then obtain s2 where a: "rabbit_ack settles m ?s1 = (Inr (), s2)" by (metis prod.collapse)
    have "acked s2 = acked s @ [d]" "rejected s2 = rejected s" "published s2 = published s @ new"
      using rabbit_ack_open [of ?s1 m d settles] op1 st a by auto
    then show ?thesis using h Inr a by (auto simp: r_def handle_message_def)
  next
    case (Inl e)
    then have r: "r = rabbit_retry accepts settles mx m (error_text e) ?s1"
      using h by (simp add: r_def handle_message_def)
    show ?thesis
      using h Inl r rabbit_retry_open [of ?s1 m d settles k mx accepts "error_text e"] op1 st att
      by (intro exI [of _ new]) auto
  qed
qed

lemma handle_message_rabbit_witness:
  defines "m \<equiv> \<lparr>queue_name = ''q'', payload = JNull, correlation_id = ''c'', metadata = [],
      delivery_token = Some ''t''\<rparr>"
    and "s \<equiv> \<lparr>deliveries = [(''t'', 7 :: nat)], acked = [], rejected = [], published = []\<rparr>"
  shows "rejected (snd (handle_message (rabbit_ack (\<lambda>_. True)) (rabbit_retry (\<lambda>_. True) (\<lambda>_. True) 0)
            (\<lambda>m s. (Inl (RuntimeError ''x''), s)) m s)) = [7]"
proof -
  have "publishes_only (\<lambda>m (s :: nat rabbit). (Inl (RuntimeError ''x''), s))"
    unfolding publishes_only_def by (intro allI exI [of _ "[]"]) simp
  moreover have "open_delivery s m 7"
    by (simp add: open_delivery_def m_def s_def processed_def)
  moreover have "attempt_of m = Inr 0"
    by (simp add: attempt_of_def m_def get_or_def json_int_def) code_simp
  ultimately show ?thesis
    using handle_message_rabbit [of "\<lambda>m s. (Inl (RuntimeError ''x''), s)" s m 7 "\<lambda>_. True" 0 0
        "\<lambda>_. True"] by (simp add: s_def)
qed

text \<open>
  A message whose handler never succeeds, over the polling rounds of a worker of one stage. The broker hands the bodies
  published to the stage's queue over in their order, one per round, the number of a delivery being its place in that order;
  a round is a whole \<open>process_batch_once\<close>.
\<close>

definition own_queue :: "string \<Rightarrow> 'd rabbit \<Rightarrow> json list" where
  "own_queue q s = map snd (filter (\<lambda>p. fst p = q) (published s))"

definition next_delivery :: "string \<Rightarrow> nat rabbit \<Rightarrow> nat fetched" where
  "next_delivery q s =
     (let k = length (acked s) + length (rejected s) in
      if k < length (own_queue q s) then Incoming k (Some (own_queue q s ! k)) else NothingReady)"

definition fifo_broker :: "(string \<Rightarrow> nat rabbit \<Rightarrow> message option res \<times> nat rabbit) \<Rightarrow> string \<Rightarrow> bool" where
  "fifo_broker pop q \<longleftrightarrow>
     (\<forall>s. pop q s = rabbit_pop (\<lambda>_. True) (next_delivery q s) (str_nat (length (acked s) + length (rejected s))) q s)"

definition always_fails :: "(message \<Rightarrow> 'd rabbit \<Rightarrow> unit res \<times> 'd rabbit) \<Rightarrow> string \<Rightarrow> bool" where
  "always_fails h q \<longleftrightarrow>
     (\<forall>m s. \<exists>e new. h m s = (Inl e, s\<lparr>published := published s @ new\<rparr>) \<and> (\<forall>p \<in> set new. fst p \<noteq> q))"

definition failing_worker :: "(message \<Rightarrow> py_error option) \<Rightarrow> 'd rabbit worker \<Rightarrow> string \<Rightarrow> bool" where
  "failing_worker decodes w q \<longleftrightarrow>
     (case w_stage w of
        PreAi \<Rightarrow> q = RAW_ANNOUNCEMENT_QUEUE \<and> (\<forall>h. pre_ai_processor w = Some h \<longrightarrow> always_fails h q)
      | Ai \<Rightarrow> q = AI_PROCESSING_QUEUE \<and> (\<forall>h. ai_worker w = Some h \<longrightarrow> always_fails h q)
      | Dedup \<Rightarrow> q = POST_AI_DEDUP_QUEUE \<and> ((\<forall>m. decodes m \<noteq> None) \<or> (\<forall>h. post_ai_processor w = Some h \<longrightarrow> always_fails h q))
      | _ \<Rightarrow> False)"

fun polling_rounds ::
  "nat \<Rightarrow> (string \<Rightarrow> 's \<Rightarrow> message option res \<times> 's) \<Rightarrow> (message \<Rightarrow> 's \<Rightarrow> unit res \<times> 's) \<Rightarrow>
   (message \<Rightarrow> string \<Rightarrow> 's \<Rightarrow> unit res \<times> 's) \<Rightarrow> (message \<Rightarrow> py_error option) \<Rightarrow> 's worker \<Rightarrow> 's \<Rightarrow> 's" where
  "polling_rounds 0 pop ack retry decodes w s = s"
| "polling_rounds (Suc n) pop ack retry decodes w s =
     polling_rounds n pop ack retry decodes w (snd (process_batch_once pop ack retry decodes w s))"

lemma not_configured_fails: "always_fails (not_configured what) q"
  unfolding always_fails_def not_configured_def by (auto intro: exI [of _ "[]"])

lemma ai_not_configured:
  "(case ai_worker w of Some h \<Rightarrow> handle_message ack retry h | None \<Rightarrow> (\<lambda>m. retry m ''AI worker is not configured'')) =
   handle_message ack retry (or_raise ''AI worker is not configured'' (ai_worker w))"
  by (auto simp: or_raise_def handle_message_def not_configured_def then_do_def fun_eq_iff split: option.split)

lemma or_raise_fails: "(\<And>h. o' = Some h \<Longrightarrow> always_fails h q) \<Longrightarrow> always_fails (or_raise what o') q"
  using not_configured_fails by (auto simp: or_raise_def split: option.split)

text \<open>A round of such a worker is one stage with a handler that always fails.\<close>

lemma failing_round:
  assumes "failing_worker decodes w q"
  obtains h where "always_fails h q"
    and "\<And>pop ack retry s. snd (process_batch_once pop ack retry decodes w s) =
        snd (run_stage True pop (handle_message ack retry h) q s)"
proof -
  have one: "snd (then_do p (\<lambda>x s. (Inr (f x), s))) = snd p" for p :: "bool res \<times> 'a rabbit" and f :: "bool \<Rightarrow> bool"
    by (cases p; cases "fst p") (auto simp: then_do_def)
  show ?thesis
  proof (cases "w_stage w")
    case PreAi
    show ?thesis
      by (rule that [of "or_raise ''Pre-AI processor is not configured for this worker'' (pre_ai_processor w)"])
        (use assms PreAi in \<open>auto simp: failing_worker_def process_batch_once_def raw_stage_def ai_stage_def
            dedup_stage_def run_stage_def [of False] one intro!: or_raise_fails\<close>)
  next
    case Ai
    show ?thesis
      by (rule that [of "or_raise ''AI worker is not configured'' (ai_worker w)"])
        (use assms Ai in \<open>auto simp: failing_worker_def process_batch_once_def raw_stage_def ai_stage_def
            dedup_stage_def run_stage_def [of False] one ai_not_configured intro!: or_raise_fails\<close>)
  next
    case Dedup
    let ?h = "\<lambda>m s. case decodes m of Some e \<Rightarrow> (Inl e, s)
        | None \<Rightarrow> or_raise ''Post-AI processor is not configured for this worker'' (post_ai_processor w) m s"
    have "always_fails ?h q"
    proof (cases "\<forall>m. decodes m \<noteq> None")
      case True
      show ?thesis
        unfolding always_fails_def
      proof (intro allI)
        fix m and s :: "'a rabbit"
        from True obtain e where "decodes m = Some e" by blast
        then show "\<exists>e new. ?h m s = (Inl e, s\<lparr>published := published s @ new\<rparr>) \<and> (\<forall>p \<in> set new. fst p \<noteq> q)"
          by (auto intro: exI [of _ "[]"])
      qed
    next
      case False
      then have "always_fails (or_raise ''Post-AI processor is not configured for this worker'' (post_ai_processor w)) q"
        using assms Dedup False by (intro or_raise_fails) (auto simp add: failing_worker_def simp del: not_None_eq not_Some_eq)
      then show ?thesis
        by (auto simp: always_fails_def split: option.split intro: exI [of _ "[]"])
    qed
    with Dedup assms show ?thesis
      by (intro that [of ?h]) (auto simp: failing_worker_def process_batch_once_def raw_stage_def ai_stage_def
            dedup_stage_def run_stage_def [of False] one)
  qed (use assms in \<open>simp_all add: failing_worker_def\<close>)
qed

lemma rabbit_pop_published:
  "rabbit_pop settles (Incoming d (Some (serialize_queue_message m))) t q s =
     (Inr (Some (m\<lparr>delivery_token := Some t\<rparr>)), s\<lparr>deliveries := dict_put t d (deliveries s)\<rparr>)"
  using decode_serialize [of m q "Some t"] by (auto simp: rabbit_pop_def json_dict_def)

text \<open>After \<open>k\<close> rounds, \<open>k\<close> at most the bound: the copies in the queue carry the numbers up to \<open>k\<close>.\<close>

definition copies_of :: "message \<Rightarrow> string \<Rightarrow> nat \<Rightarrow> json list \<Rightarrow> bool" where
  "copies_of m q k js \<longleftrightarrow> length js = Suc k \<and>
     (\<forall>i \<le> k. \<exists>c. js ! i = serialize_queue_message c \<and> attempt_of c = Inr (int i) \<and> payload c = payload m \<and>
        queue_name c = q \<and> correlation_id c = correlation_id m)"

definition after_failures :: "message \<Rightarrow> string \<Rightarrow> nat \<Rightarrow> nat rabbit \<Rightarrow> bool" where
  "after_failures m q k s \<longleftrightarrow> copies_of m q k (own_queue q s) \<and> acked s = [0 ..< k] \<and> rejected s = []"

lemma copies_of_snoc:
  assumes "copies_of m q k js" and "attempt_of c = Inr (int (Suc k))" "payload c = payload m" "queue_name c = q"
    "correlation_id c = correlation_id m"
  shows "copies_of m q (Suc k) (js @ [serialize_queue_message c])"
  using assms unfolding copies_of_def by (auto simp: nth_append le_Suc_eq)


lemma copies_of_last: "copies_of m q k js \<Longrightarrow> \<exists>c. js ! k = serialize_queue_message c \<and> attempt_of c = Inr (int k) \<and>
    payload c = payload m \<and> queue_name c = q \<and> correlation_id c = correlation_id m"
  by (simp add: copies_of_def)

lemma own_queue_published:
  "\<forall>p \<in> set new. fst p \<noteq> q \<Longrightarrow> own_queue q (s\<lparr>published := published s @ new\<rparr>) = own_queue q s"
  by (simp add: own_queue_def filter_empty_conv)

text \<open>One more round: the next copy, or at the bound the dead letter.\<close>

lemma after_failures_round:
  fixes mx :: int
  assumes s: "after_failures m q k s" and h: "always_fails h q" and pop: "fifo_broker pop q" and k: "int k \<le> mx"
  defines "s' \<equiv> snd (run_stage True pop (handle_message (rabbit_ack (\<lambda>_. True))
      (rabbit_retry (\<lambda>_. True) (\<lambda>_. True) mx) h) q s)"
  shows "int k < mx \<Longrightarrow> after_failures m q (Suc k) s'"
    and "int k = mx \<Longrightarrow> own_queue q s' = own_queue q s \<and> acked s' = acked s \<and> rejected s' = [k]"
proof -
  have st: "acked s = [0 ..< k]" "rejected s = []" "copies_of m q k (own_queue q s)"
    using s by (simp_all add: after_failures_def)
  from copies_of_last [OF st(3)] obtain c where c: "own_queue q s ! k = serialize_queue_message c"
    "attempt_of c = Inr (int k)" "payload c = payload m" "queue_name c = q" "correlation_id c = correlation_id m"
    by blast
  let ?t = "str_nat k"
  let ?c = "c\<lparr>delivery_token := Some ?t\<rparr>"
  let ?s1 = "s\<lparr>deliveries := dict_put ?t k (deliveries s)\<rparr>"
  have "next_delivery q s = Incoming k (Some (serialize_queue_message c))"
    using st c(1) by (simp add: next_delivery_def copies_of_def)
  with pop have popped: "pop q s = (Inr (Some ?c), ?s1)"
    using st by (simp add: fifo_broker_def rabbit_pop_published)
  obtain e new where fails: "h ?c ?s1 = (Inl e, ?s1\<lparr>published := published ?s1 @ new\<rparr>)" "\<forall>p \<in> set new. fst p \<noteq> q"
    using h unfolding always_fails_def by blast
  let ?s2 = "?s1\<lparr>published := published s @ new\<rparr>"
  let ?r = "rabbit_retry (\<lambda>_. True) (\<lambda>_. True) mx ?c (error_text e) ?s2"
  have "open_delivery ?s2 ?c k" using st by (simp add: open_delivery_def processed_def dict_simps)
  moreover have att: "attempt_of ?c = Inr (int k)" using c(2) by (simp add: attempt_of_def)
  ultimately have open_c: "open_delivery ?s2 ?c k" "(\<lambda>_. True) k" "attempt_of ?c = Inr (int k)" by simp_all
  have s': "s' = snd ?r" if "fst ?r = Inr ()"
    using popped fails that unfolding s'_def run_stage_def handle_message_def
    by (cases ?r) (simp add: then_do_def)
  have own: "own_queue q ?s2 = own_queue q s"
    using own_queue_published [OF fails(2), of ?s1] by (simp add: own_queue_def)
  show "after_failures m q (Suc k) s'" if "int k < mx"
  proof -
    let ?n = "next_attempt ?c (int k) (error_text e)"
    have r: "fst ?r = Inr ()" "acked (snd ?r) = acked ?s2 @ [k]" "rejected (snd ?r) = rejected ?s2"
      "published (snd ?r) = published ?s2 @ [(queue_name ?c, serialize_queue_message ?n)]"
      using rabbit_retry_open(1) [OF open_c that, of "\<lambda>_. True"] by auto
    have "own_queue q s' = own_queue q s @ [serialize_queue_message ?n]"
      using own r(4) c(4) s' [OF r(1)] by (simp add: own_queue_def)
    moreover have "copies_of m q (Suc k) (own_queue q s @ [serialize_queue_message ?n])"
      using c by (intro copies_of_snoc [OF st(3)]) simp_all
    ultimately show ?thesis
      using s' [OF r(1)] r(2,3) st by (simp add: after_failures_def)
  qed
  show "own_queue q s' = own_queue q s \<and> acked s' = acked s \<and> rejected s' = [k]" if "int k = mx"
  proof -
    have r: "fst ?r = Inr ()" "acked (snd ?r) = acked ?s2" "rejected (snd ?r) = rejected ?s2 @ [k]"
      "published (snd ?r) = published ?s2"
      using rabbit_retry_open(3) [OF open_c, of mx "\<lambda>_. True"] that by auto
    then show ?thesis using s' [OF r(1)] own st by (simp add: own_queue_def)
  qed
qed


lemma polling_rounds_add:
  "polling_rounds (n + k) pop ack retry decodes w s =
   polling_rounds k pop ack retry decodes w (polling_rounds n pop ack retry decodes w s)"
  by (induction n arbitrary: s) simp_all

lemma idle_rounds:
  "snd (process_batch_once pop ack retry decodes w s) = s \<Longrightarrow> polling_rounds n pop ack retry decodes w s = s"
  by (induction n) simp_all

lemma polling_rounds_run:
  fixes mx :: int
  assumes w: "failing_worker decodes w q" and pop: "fifo_broker pop q" and s: "after_failures m q 0 s" and mx: "0 \<le> mx"
  defines "poll \<equiv> process_batch_once pop (rabbit_ack (\<lambda>_. True)) (rabbit_retry (\<lambda>_. True) (\<lambda>_. True) mx) decodes w"
    and "after n \<equiv> polling_rounds n pop (rabbit_ack (\<lambda>_. True)) (rabbit_retry (\<lambda>_. True) (\<lambda>_. True) mx) decodes w s"
  shows "k \<le> nat mx \<Longrightarrow> after_failures m q k (after k)"
    and "nat mx < n \<Longrightarrow> copies_of m q (nat mx) (own_queue q (after n)) \<and> acked (after n) = [0 ..< nat mx] \<and>
      rejected (after n) = [nat mx]"
proof -
  obtain h where h: "always_fails h q"
    and every: "\<And>pop' ack retry s'. snd (process_batch_once pop' ack retry decodes w s') =
        snd (run_stage True pop' (handle_message ack retry h) q s')"
    by (rule failing_round [OF w]) (rule that; assumption)
  have one: "snd (poll s') = snd (run_stage True pop (handle_message (rabbit_ack (\<lambda>_. True))
        (rabbit_retry (\<lambda>_. True) (\<lambda>_. True) mx) h) q s')" for s'
    unfolding poll_def by (rule every)
  have next_round: "after (Suc i) = snd (poll (after i))" for i
    using polling_rounds_add [of i 1 pop _ _ decodes w s] unfolding after_def poll_def by simp
  have run: "after_failures m q i (after i)" if "i \<le> nat mx" for i
    using that
  proof (induction i)
    case 0
    then show ?case using s by (simp add: after_def)
  next
    case (Suc i)
    then have "after_failures m q i (after i)" "int i \<le> mx" "int i < mx" by simp_all
    then show ?case using after_failures_round(1) [OF _ h pop] by (simp add: next_round one)
  qed
  then show "k \<le> nat mx \<Longrightarrow> after_failures m q k (after k)" by simp
  have at: "after_failures m q (nat mx) (after (nat mx))" by (simp add: run)
  let ?s = "after (Suc (nat mx))"
  have dead: "own_queue q ?s = own_queue q (after (nat mx)) \<and> acked ?s = acked (after (nat mx)) \<and> rejected ?s = [nat mx]"
    using after_failures_round(2) [OF at h pop, of mx] mx by (simp add: next_round one)
  then have st: "copies_of m q (nat mx) (own_queue q ?s)" "acked ?s = [0 ..< nat mx]" "rejected ?s = [nat mx]"
    using at by (simp_all add: after_failures_def)
  then have "pop q ?s = (Inr None, ?s)"
    using pop by (simp add: fifo_broker_def next_delivery_def copies_of_def rabbit_pop_def)
  then have "snd (poll ?s) = ?s"
    by (simp add: one run_stage_def then_do_def)
  then have idle: "after (Suc (nat mx) + i) = ?s" for i
    unfolding after_def polling_rounds_add [of "Suc (nat mx)" i] poll_def by (rule idle_rounds)
  assume "nat mx < n"
  then obtain i where "n = Suc (nat mx) + i" by (metis less_iff_Suc_add add_Suc)
  then show "copies_of m q (nat mx) (own_queue q (after n)) \<and> acked (after n) = [0 ..< nat mx] \<and> rejected (after n) = [nat mx]"
    using idle st by simp
qed

text \<open>
  C2. A worker of one stage whose processing of a message always fails (the processor raises, is not configured, or the
  announcement cannot be decoded) polls its queue: in each of the first \<open>max_retries\<close> rounds the delivery is acknowledged
  after a copy with the next number, the same payload and the same correlation id was published; in the round after those the
  delivery is rejected to the dead letters, and no later round publishes or settles anything.
\<close>

theorem failing_message_dead_lettered:
  fixes mx :: int
  assumes "failing_worker decodes w q" and "fifo_broker pop q" and "0 \<le> mx"
    and "queue_name m = q" "attempt_of m = Inr 0"
  defines "after n \<equiv> polling_rounds n pop (rabbit_ack (\<lambda>_. True)) (rabbit_retry (\<lambda>_. True) (\<lambda>_. True) mx) decodes w
      \<lparr>deliveries = [], acked = [], rejected = [], published = [(q, serialize_queue_message m)]\<rparr>"
  shows "copies_of m q (min n (nat mx)) (own_queue q (after n)) \<and> acked (after n) = [0 ..< min n (nat mx)] \<and>
    rejected (after n) = (if nat mx < n then [nat mx] else [])"
proof -
  let ?s = "\<lparr>deliveries = [], acked = [], rejected = [], published = [(q, serialize_queue_message m)]\<rparr> :: nat rabbit"
  have "after_failures m q 0 ?s"
    using assms(4,5) by (auto simp: after_failures_def copies_of_def own_queue_def)
  note run = polling_rounds_run [OF assms(1,2) this assms(3)]
  show ?thesis
    using run(1) [of n] run(2) [of n] by (cases "nat mx < n") (simp_all add: after_def after_failures_def)
qed

definition sample_pop :: "string \<Rightarrow> nat rabbit \<Rightarrow> message option res \<times> nat rabbit" where
  "sample_pop q s = rabbit_pop (\<lambda>_. True) (next_delivery q s) (str_nat (length (acked s) + length (rejected s))) q s"

lemma failing_message_dead_lettered_witness:
  "rejected (polling_rounds 5 sample_pop (rabbit_ack (\<lambda>_. True)) (rabbit_retry (\<lambda>_. True) (\<lambda>_. True) 3) (\<lambda>_. None)
      \<lparr>w_stage = Ai, pre_ai_processor = None, ai_worker = Some (\<lambda>m s. (Inl (RuntimeError ''boom''), s)), post_ai_processor = None\<rparr>
      \<lparr>deliveries = [], acked = [], rejected = [], published = [(AI_PROCESSING_QUEUE,
         serialize_queue_message \<lparr>queue_name = AI_PROCESSING_QUEUE, payload = JNull, correlation_id = ''c'', metadata = [],
           delivery_token = None\<rparr>)]\<rparr>) = [3]"
  (is "rejected (polling_rounds 5 _ _ _ ?d ?w \<lparr>deliveries = _, acked = _, rejected = _, published = [(_, serialize_queue_message ?m)]\<rparr>) = _")
proof -
  have "failing_worker ?d ?w AI_PROCESSING_QUEUE"
    unfolding failing_worker_def always_fails_def by (auto intro!: exI [of _ "[]"])
  moreover have "fifo_broker sample_pop AI_PROCESSING_QUEUE" by (simp add: fifo_broker_def sample_pop_def)
  moreover have "attempt_of ?m = Inr 0"
    by (simp add: attempt_of_def get_or_def json_int_def) code_simp
  ultimately show ?thesis
    using failing_message_dead_lettered [of ?d ?w AI_PROCESSING_QUEUE sample_pop 3 ?m 5] by simp
qed

end
