(* ===== verification/EF_Tags.thy ===== *)
theory EF_Tags
  imports EF_Text
begin

text \<open>
  Audience tags: \<open>services/audience_tags.py\<close>. The in-memory repository is a record, the service's
  operations pass it along and may raise. The similarity ratio of \<open>difflib.SequenceMatcher\<close> and the
  clock are arguments.
\<close>

section \<open>Tag keys\<close>

fun replace_char :: "char \<Rightarrow> char \<Rightarrow> string \<Rightarrow> string" where
  "replace_char a b [] = []"
| "replace_char a b (c # cs) = (if c = a then b else c) # replace_char a b cs"

text \<open>\<open>re.sub("_+", "_", s)\<close> and \<open>s.strip("_")\<close>.\<close>

fun squeeze :: "string \<Rightarrow> string" where
  "squeeze [] = []"
| "squeeze [c] = [c]"
| "squeeze (c # d # cs) =
     (if c = CHR ''_'' \<and> d = CHR ''_'' then squeeze (d # cs) else c # squeeze (d # cs))"

definition strip_underscores :: "string \<Rightarrow> string" where
  "strip_underscores s = rev (dropWhile (\<lambda>c. c = CHR ''_'') (rev (dropWhile (\<lambda>c. c = CHR ''_'') s)))"

definition is_tag_char :: "char \<Rightarrow> bool" where
  "is_tag_char c \<longleftrightarrow> is_lower c \<or> is_digit c \<or> c = CHR ''_''"

definition TAG_ALIAS_MAP :: "(string, string) dict" where
  "TAG_ALIAS_MAP = [(''young_family'', ''family''), (''yosh_oila'', ''family'')]"

definition SEED_AUDIENCE_TAGS :: "(string, string) dict" where
  "SEED_AUDIENCE_TAGS =
     [(''family'', ''Oila''), (''family_with_children'', ''Bolali oila''),
      (''students'', ''Talabalar''), (''single_male'', ''Yolg'' @ [CHR 0x27] @ ''iz erkak''),
      (''single_female'', ''Yolg'' @ [CHR 0x27] @ ''iz ayol''), (''group_of_girls'', ''Qizlar guruhi''),
      (''group_of_boys'', ''Yigitlar guruhi''), (''foreigners'', ''Chet elliklar'')]"

text \<open>\<open>^[a-z][a-z0-9_]{1,63}$\<close>\<close>

definition tag_key_ok :: "string \<Rightarrow> bool" where
  "tag_key_ok k \<longleftrightarrow>
     2 \<le> length k \<and> length k \<le> 64 \<and> is_lower (hd k) \<and> (\<forall>c \<in> set k. is_tag_char c)"

definition normalize_tag_key :: "string \<Rightarrow> string res" where
  "normalize_tag_key raw =
     (let k1 = replace_char CHR '' '' CHR ''_'' (replace_char CHR ''-'' CHR ''_'' (lower (strip raw)));
          k2 = filter is_tag_char k1;
          k3 = strip_underscores (squeeze k2);
          k4 = (case dict_get TAG_ALIAS_MAP k3 of Some a \<Rightarrow> a | None \<Rightarrow> k3)
      in if tag_key_ok k4 then Inr k4 else Inl (ValueError (''Invalid audience tag key: '' @ raw)))"

section \<open>The repository\<close>

datatype tag_status = Approved | Pending | Rejected

record tag =
  tag_key :: string
  tag_display_name :: string
  tag_status :: tag_status
  tag_usage_count :: nat
  tag_created_at :: time
  tag_updated_at :: time

datatype tag_action = ApproveTag | MergeTag | RejectTag

record tag_audit =
  ta_admin_user_id :: int
  ta_action :: tag_action
  ta_idempotency_key :: string
  ta_tag_key :: string
  ta_target_tag_key :: "string option"
  ta_note :: "string option"

record tag_repo =
  tags :: "(string, tag) dict"
  tag_audit_events :: "(string, tag_audit) dict"
  announcement_refs :: "(string, string set) dict"
  announcement_excluded_refs :: "(string, string set) dict"
  filter_refs :: "(string, string) dict"

definition list_approved :: "nat option \<Rightarrow> tag_repo \<Rightarrow> tag list" where
  "list_approved limit r =
     (let approved = py_sort (\<lambda>t. (- int (tag_usage_count t), tag_key t))
            (filter (\<lambda>t. tag_status t = Approved) (dict_values (tags r)))
      in case limit of Some n \<Rightarrow> take n approved | None \<Rightarrow> approved)"

definition list_pending :: "tag_repo \<Rightarrow> tag list" where
  "list_pending r =
     py_sort (\<lambda>t. (tag_created_at t, tag_key t))
       (filter (\<lambda>t. tag_status t = Pending) (dict_values (tags r)))"

definition upsert_pending :: "time \<Rightarrow> string \<Rightarrow> string \<Rightarrow> tag_repo \<Rightarrow> (tag \<times> bool) \<times> tag_repo" where
  "upsert_pending now key name r =
     (case dict_get (tags r) key of
        Some t \<Rightarrow> ((t, False), r)
      | None \<Rightarrow>
          (let t = \<lparr>tag_key = key, tag_display_name = name, tag_status = Pending,
                    tag_usage_count = 0, tag_created_at = now, tag_updated_at = now\<rparr>
           in ((t, True), r\<lparr>tags := dict_put key t (tags r)\<rparr>)))"

definition increment_usage :: "time \<Rightarrow> string \<Rightarrow> tag_repo \<Rightarrow> tag res \<times> tag_repo" where
  "increment_usage now key r =
     (case dict_get (tags r) key of
        None \<Rightarrow> (Inl (KeyError key), r)
      | Some t \<Rightarrow>
          (let u = t\<lparr>tag_usage_count := Suc (tag_usage_count t), tag_updated_at := now\<rparr>
           in (Inr u, r\<lparr>tags := dict_put key u (tags r)\<rparr>)))"

definition set_tag_status ::
  "time \<Rightarrow> string \<Rightarrow> tag_status \<Rightarrow> string option \<Rightarrow> tag_repo \<Rightarrow> tag res \<times> tag_repo" where
  "set_tag_status now key st name r =
     (case dict_get (tags r) key of
        None \<Rightarrow> (Inl (KeyError key), r)
      | Some t \<Rightarrow>
          (let u = t\<lparr>tag_status := st,
                     tag_display_name := (case name of
                        Some n \<Rightarrow> if n = [] then tag_display_name t else n
                      | None \<Rightarrow> tag_display_name t),
                     tag_updated_at := now\<rparr>
           in (Inr u, r\<lparr>tags := dict_put key u (tags r)\<rparr>)))"

definition audit_once :: "tag_audit \<Rightarrow> tag_repo \<Rightarrow> (tag_audit \<times> bool) \<times> tag_repo" where
  "audit_once ev r =
     (case dict_get (tag_audit_events r) (ta_idempotency_key ev) of
        Some old \<Rightarrow> ((old, False), r)
      | None \<Rightarrow> ((ev, True),
          r\<lparr>tag_audit_events := dict_put (ta_idempotency_key ev) ev (tag_audit_events r)\<rparr>))"

definition remap_tag_set :: "string \<Rightarrow> string \<Rightarrow> string set \<Rightarrow> string set" where
  "remap_tag_set src tgt s = (if src \<in> s then insert tgt (s - {src}) else s)"

definition remap_references :: "string \<Rightarrow> string \<Rightarrow> tag_repo \<Rightarrow> (nat \<times> nat) \<times> tag_repo" where
  "remap_references src tgt r =
     ((length (filter (\<lambda>(k, s). src \<in> s) (announcement_refs r)) +
         length (filter (\<lambda>(k, s). src \<in> s) (announcement_excluded_refs r)),
       length (filter (\<lambda>(k, t). t = src) (filter_refs r))),
      r\<lparr>announcement_refs := map (\<lambda>(k, s). (k, remap_tag_set src tgt s)) (announcement_refs r),
        announcement_excluded_refs :=
          map (\<lambda>(k, s). (k, remap_tag_set src tgt s)) (announcement_excluded_refs r),
        filter_refs := map (\<lambda>(k, t). (k, if t = src then tgt else t)) (filter_refs r)\<rparr>)"

section \<open>The service\<close>

record resolve_result =
  rr_input_tag :: string
  rr_tag_key :: string
  rr_status :: tag_status
  rr_created :: bool
  rr_matched_existing :: bool

fun best_tag_loop :: "(string \<Rightarrow> rat) \<Rightarrow> (rat \<times> tag) option \<Rightarrow> tag list \<Rightarrow> (rat \<times> tag) option" where
  "best_tag_loop score best [] = best"
| "best_tag_loop score best (t # ts) =
     (if best = None \<or> fst (the best) < score (tag_key t)
      then best_tag_loop score (Some (score (tag_key t), t)) ts
      else best_tag_loop score best ts)"

definition fuzzy_match :: "(string \<Rightarrow> string \<Rightarrow> rat) \<Rightarrow> rat \<Rightarrow> string \<Rightarrow> tag_repo \<Rightarrow> tag option" where
  "fuzzy_match ratio threshold key r =
     (case best_tag_loop (ratio key) None (list_approved None r) of
        Some (score, t) \<Rightarrow> if threshold \<le> score then Some t else None
      | None \<Rightarrow> None)"

text \<open>\<open>key.replace("_", " ").title()\<close>: the first letter of every run of letters is a capital.\<close>

fun title_from :: "bool \<Rightarrow> string \<Rightarrow> string" where
  "title_from prev_letter [] = []"
| "title_from prev_letter (c # cs) =
     (if is_upper c \<or> is_lower c
      then (if prev_letter then lower_char c else upper_char c) # title_from True cs
      else c # title_from False cs)"

definition resolve_tag ::
  "(string \<Rightarrow> string \<Rightarrow> rat) \<Rightarrow> rat \<Rightarrow> time \<Rightarrow> string \<Rightarrow> tag_repo \<Rightarrow> resolve_result res \<times> tag_repo" where
  "resolve_tag ratio threshold now raw r =
     (case normalize_tag_key raw of
        Inl e \<Rightarrow> (Inl e, r)
      | Inr key \<Rightarrow>
          (let fresh =
             (case fuzzy_match ratio threshold key r of
                Some t \<Rightarrow> then_do (increment_usage now (tag_key t) r) (\<lambda>_ r1.
                  (Inr \<lparr>rr_input_tag = raw, rr_tag_key = tag_key t, rr_status = tag_status t,
                        rr_created = False, rr_matched_existing = True\<rparr>, r1))
              | None \<Rightarrow>
                  (case upsert_pending now key (title_from False (replace_char CHR ''_'' CHR '' '' key)) r of
                     ((t, created), r1) \<Rightarrow>
                       (Inr \<lparr>rr_input_tag = raw, rr_tag_key = tag_key t, rr_status = tag_status t,
                             rr_created = created, rr_matched_existing = False\<rparr>, r1)))
           in case dict_get (tags r) key of
                Some t \<Rightarrow>
                  if tag_status t \<noteq> Rejected
                  then then_do (increment_usage now (tag_key t) r) (\<lambda>_ r1.
                    (Inr \<lparr>rr_input_tag = raw, rr_tag_key = tag_key t, rr_status = tag_status t,
                          rr_created = False, rr_matched_existing = True\<rparr>, r1))
                  else fresh
              | None \<Rightarrow> fresh))"

fun resolve_tags_loop ::
  "(string \<Rightarrow> string \<Rightarrow> rat) \<Rightarrow> rat \<Rightarrow> time \<Rightarrow> string list \<Rightarrow> string list \<Rightarrow> tag_repo \<Rightarrow>
   resolve_result list res \<times> tag_repo" where
  "resolve_tags_loop ratio threshold now seen [] r = (Inr [], r)"
| "resolve_tags_loop ratio threshold now seen (v # vs) r =
     (case normalize_tag_key v of
        Inl e \<Rightarrow> (Inl e, r)
      | Inr key \<Rightarrow>
          if key \<in> set seen then resolve_tags_loop ratio threshold now seen vs r
          else then_do (resolve_tag ratio threshold now key r) (\<lambda>x r1.
                 then_do (resolve_tags_loop ratio threshold now (key # seen) vs r1) (\<lambda>xs r2.
                   (Inr (x # xs), r2))))"

definition resolve_tags where
  "resolve_tags ratio threshold now vs r = resolve_tags_loop ratio threshold now [] vs r"

fun canonical_tags :: "resolve_result list \<Rightarrow> string list \<Rightarrow> string list \<Rightarrow> string list \<times> string list" where
  "canonical_tags [] approved audit = (approved, audit)"
| "canonical_tags (x # xs) approved audit =
     (case rr_status x of
        Approved \<Rightarrow>
          canonical_tags xs
            (if rr_tag_key x \<in> set approved then approved else approved @ [rr_tag_key x])
            (if rr_input_tag x \<noteq> rr_tag_key x
             then audit @ [''audience_tag_mapped:'' @ rr_input_tag x @ ''->'' @ rr_tag_key x]
             else audit)
      | Pending \<Rightarrow> canonical_tags xs approved (audit @ [''pending_audience_tag:'' @ rr_tag_key x])
      | Rejected \<Rightarrow> canonical_tags xs approved (audit @ [''rejected_audience_tag:'' @ rr_tag_key x]))"

definition resolve_for_canonical where
  "resolve_for_canonical ratio threshold now vs r =
     then_do (resolve_tags ratio threshold now vs r) (\<lambda>xs r1. (Inr (canonical_tags xs [] []), r1))"

text \<open>
  The administrator's decisions. The audit event is written first, whatever comes after; a replay is
  recognised by that event alone.
\<close>

definition state_conflict :: py_error where
  "state_conflict = ValueError ''audience_tag_state_conflict''"

definition approve_tag ::
  "time \<Rightarrow> string \<Rightarrow> int \<Rightarrow> string \<Rightarrow> string option \<Rightarrow> tag_status option \<Rightarrow> tag_repo \<Rightarrow> tag res \<times> tag_repo" where
  "approve_tag now raw admin idem name expected r =
     (case normalize_tag_key raw of
        Inl e \<Rightarrow> (Inl e, r)
      | Inr key \<Rightarrow>
          (case audit_once \<lparr>ta_admin_user_id = admin, ta_action = ApproveTag, ta_idempotency_key = idem,
                 ta_tag_key = key, ta_target_tag_key = None, ta_note = None\<rparr> r of
             ((ev, created), r1) \<Rightarrow>
               (case dict_get (tags r1) (ta_tag_key ev) of
                  None \<Rightarrow> (Inl (KeyError (ta_tag_key ev)), r1)
                | Some t \<Rightarrow>
                    if \<not> created then (Inr t, r1)
                    else if expected \<noteq> None \<and> Some (tag_status t) \<noteq> expected
                    then (Inl state_conflict, r1)
                    else set_tag_status now (ta_tag_key ev) Approved name r1)))"

definition reject_tag ::
  "time \<Rightarrow> string \<Rightarrow> int \<Rightarrow> string \<Rightarrow> string option \<Rightarrow> tag_status option \<Rightarrow> tag_repo \<Rightarrow> tag res \<times> tag_repo" where
  "reject_tag now raw admin idem note expected r =
     (case normalize_tag_key raw of
        Inl e \<Rightarrow> (Inl e, r)
      | Inr key \<Rightarrow>
          (case audit_once \<lparr>ta_admin_user_id = admin, ta_action = RejectTag, ta_idempotency_key = idem,
                 ta_tag_key = key, ta_target_tag_key = None, ta_note = note\<rparr> r of
             ((ev, created), r1) \<Rightarrow>
               (case dict_get (tags r1) (ta_tag_key ev) of
                  None \<Rightarrow> (Inl (KeyError (ta_tag_key ev)), r1)
                | Some t \<Rightarrow>
                    if \<not> created then (Inr t, r1)
                    else if expected \<noteq> None \<and> Some (tag_status t) \<noteq> expected
                    then (Inl state_conflict, r1)
                    else set_tag_status now (ta_tag_key ev) Rejected None r1)))"

definition merge_tag ::
  "time \<Rightarrow> string \<Rightarrow> string \<Rightarrow> int \<Rightarrow> string \<Rightarrow> string option \<Rightarrow> tag_status option \<Rightarrow> tag_repo \<Rightarrow>
   tag res \<times> tag_repo" where
  "merge_tag now raw raw_target admin idem note expected r =
     (case (normalize_tag_key raw, normalize_tag_key raw_target) of
        (Inl e, _) \<Rightarrow> (Inl e, r)
      | (_, Inl e) \<Rightarrow> (Inl e, r)
      | (Inr src, Inr tgt) \<Rightarrow>
          if src = tgt then (Inl (ValueError ''Cannot merge a tag into itself.''), r)
          else
          (case audit_once \<lparr>ta_admin_user_id = admin, ta_action = MergeTag, ta_idempotency_key = idem,
                 ta_tag_key = src, ta_target_tag_key = Some tgt, ta_note = note\<rparr> r of
             ((ev, created), r1) \<Rightarrow>
               (case (dict_get (tags r1) (ta_tag_key ev), dict_get (tags r1) tgt) of
                  (Some s, Some t) \<Rightarrow>
                    if tag_status t \<noteq> Approved then (Inl (KeyError ''source_or_target_tag''), r1)
                    else if \<not> created then (Inr s, r1)
                    else if expected \<noteq> None \<and> Some (tag_status s) \<noteq> expected
                    then (Inl state_conflict, r1)
                    else
                      (let r2 = snd (remap_references (ta_tag_key ev) tgt r1)
                       in then_do (increment_usage now tgt r2) (\<lambda>_ r3.
                            set_tag_status now (ta_tag_key ev) Rejected None r3))
                | _ \<Rightarrow> (Inl (KeyError ''source_or_target_tag''), r1))))"

section \<open>Tag keys are canonical\<close>

abbreviation us :: char where "us \<equiv> CHR ''_''"

definition no_double_us :: "string \<Rightarrow> bool" where
  "no_double_us s \<longleftrightarrow> successively (\<lambda>c d. \<not> (c = us \<and> d = us)) s"

lemma squeeze_Nil_iff [simp]: "squeeze s = [] \<longleftrightarrow> s = []"
  by (induction s rule: squeeze.induct) auto

lemma hd_squeeze: "s \<noteq> [] \<Longrightarrow> hd (squeeze s) = hd s"
  by (induction s rule: squeeze.induct) auto

lemma squeeze_no_double: "no_double_us (squeeze s)"
  by (induction s rule: squeeze.induct)
    (auto simp: no_double_us_def successively_Cons hd_squeeze)

lemma squeeze_id: "no_double_us s \<Longrightarrow> squeeze s = s"
  by (induction s rule: squeeze.induct) (auto simp: no_double_us_def)

lemma no_double_us_rev: "no_double_us (rev s) = no_double_us s"
  unfolding no_double_us_def successively_rev by (rule arg_cong [where f = "\<lambda>P. successively P s"]) auto

lemma no_double_us_dropWhile: "no_double_us s \<Longrightarrow> no_double_us (dropWhile P s)"
  unfolding no_double_us_def
  by (induction s) (auto simp: successively_Cons)

lemma strip_underscores_no_double: "no_double_us s \<Longrightarrow> no_double_us (strip_underscores s)"
  by (simp add: strip_underscores_def no_double_us_rev no_double_us_dropWhile)

lemma last_strip_underscores: "strip_underscores s \<noteq> [] \<Longrightarrow> last (strip_underscores s) \<noteq> us"
  using hd_dropWhile [of "\<lambda>c. c = us" "rev (dropWhile (\<lambda>c. c = us) s)"]
  by (auto simp: strip_underscores_def last_rev)

lemma strip_underscores_id:
  assumes "s \<noteq> []" and "hd s \<noteq> us" and "last s \<noteq> us"
  shows "strip_underscores s = s"
proof -
  have "dropWhile (\<lambda>c. c = us) s = s" using assms(1,2) by (cases s) auto
  moreover have "dropWhile (\<lambda>c. c = us) (rev s) = rev s"
  proof (cases "rev s")
    case (Cons x xs)
    then have "last s = x" by (metis last_rev list.sel(1) rev_rev_ident hd_rev)
    with assms(3) Cons show ?thesis by simp
  qed simp
  ultimately show ?thesis by (simp add: strip_underscores_def)
qed

lemma tag_char_facts:
  "is_tag_char c \<Longrightarrow> \<not> is_space c \<and> lower_char c = c \<and> c \<noteq> CHR '' '' \<and> c \<noteq> CHR ''-''"
  by (auto simp: is_tag_char_def is_lower_def is_digit_def is_space_def lower_char_def is_upper_def code_of_def)

lemma lower_not_us: "is_lower c \<Longrightarrow> c \<noteq> us"
  by (auto simp: is_lower_def code_of_def)

lemma replace_char_id: "a \<notin> set s \<Longrightarrow> replace_char a b s = s"
  by (induction s) auto

text \<open>A key in the accepted form whose runs of underscores are single and inner is left alone.\<close>

lemma normalize_fixed_point:
  assumes ok: "tag_key_ok k" and nd: "no_double_us k" and la: "last k \<noteq> us"
    and na: "dict_get TAG_ALIAS_MAP k = None"
  shows "normalize_tag_key k = Inr k"
proof -
  have cs: "\<forall>c \<in> set k. is_tag_char c" and ne: "k \<noteq> []" and hd: "hd k \<noteq> us"
    using ok by (auto simp: tag_key_ok_def lower_not_us)
  have "strip k = k" using cs tag_char_facts by (intro strip_spaceless) blast
  moreover have "lower k = k" using cs tag_char_facts by (simp add: lower_def map_idI)
  moreover have "CHR ''-'' \<notin> set k" "CHR '' '' \<notin> set k" using cs tag_char_facts by blast+
  moreover have "filter is_tag_char k = k" using cs by (simp add: filter_id_conv)
  moreover have "strip_underscores (squeeze k) = k"
    using nd strip_underscores_id [OF ne hd la] by (simp add: squeeze_id)
  ultimately show ?thesis using ok na by (simp add: normalize_tag_key_def replace_char_id)
qed

lemma normalize_family: "normalize_tag_key ''family'' = Inr ''family''"
  by (rule normalize_fixed_point)
    (simp_all add: tag_key_ok_def is_tag_char_def is_lower_def is_digit_def code_of_def
      no_double_us_def TAG_ALIAS_MAP_def)

lemma normalize_tag_key_accepted: "normalize_tag_key raw = Inr k \<Longrightarrow> tag_key_ok k"
  by (auto simp: normalize_tag_key_def Let_def split: if_splits)

lemma normalize_tag_key_fixed:
  assumes "normalize_tag_key raw = Inr k"
  shows "normalize_tag_key k = Inr k"
proof -
  let ?k2 = "filter is_tag_char (replace_char CHR '' '' us (replace_char CHR ''-'' us (lower (strip raw))))"
  let ?k3 = "strip_underscores (squeeze ?k2)"
  have k: "k = (case dict_get TAG_ALIAS_MAP ?k3 of Some a \<Rightarrow> a | None \<Rightarrow> ?k3)" and ok: "tag_key_ok k"
    using assms by (auto simp: normalize_tag_key_def Let_def split: if_splits)
  show ?thesis
  proof (cases "dict_get TAG_ALIAS_MAP ?k3")
    case None
    with k have "k = ?k3" by simp
    moreover have "no_double_us ?k3"
      by (rule strip_underscores_no_double) (rule squeeze_no_double)
    moreover have "k \<noteq> []" using ok by (auto simp: tag_key_ok_def)
    ultimately show ?thesis
      using ok None last_strip_underscores by (intro normalize_fixed_point) auto
  next
    case (Some a)
    then have "a = ''family''" by (auto simp: TAG_ALIAS_MAP_def split: if_splits)
    with Some k normalize_family show ?thesis by simp
  qed
qed

text \<open>
  A normalised tag key has the accepted form (2 to 64 characters, a letter first, then letters,
  digits and underscores) and normalising it again changes nothing, so the repository never holds
  two spellings of one key.
\<close>

theorem normalize_tag_key_idempotent:
  assumes "normalize_tag_key raw = Inr k"
  shows "tag_key_ok k \<and> normalize_tag_key k = Inr k"
  using assms normalize_tag_key_accepted normalize_tag_key_fixed by blast

lemma normalize_tag_key_idempotent_witness:
  "normalize_tag_key '' Young-Family '' = Inr ''family'' \<and> tag_key_ok ''family''"
proof -
  have "normalize_tag_key '' Young-Family '' = Inr ''family''"
    by code_simp
  then show ?thesis using normalize_tag_key_idempotent by blast
qed

section \<open>The repository invariant\<close>

definition tag_repo_ok :: "tag_repo \<Rightarrow> bool" where
  "tag_repo_ok r \<longleftrightarrow> keyed_by tag_key (tags r) \<and> keyed_by ta_idempotency_key (tag_audit_events r)"

lemma tag_repo_ok_put [simp]:
  "tag_repo_ok r \<Longrightarrow> tag_key t = k \<Longrightarrow> tag_repo_ok (r\<lparr>tags := dict_put k t (tags r)\<rparr>)"
  by (simp add: tag_repo_ok_def)

lemma increment_usage_ok: "tag_repo_ok r \<Longrightarrow> tag_repo_ok (snd (increment_usage now k r))"
  by (auto simp: increment_usage_def Let_def tag_repo_ok_def intro: keyed_by_modify split: option.splits)

lemma set_tag_status_ok: "tag_repo_ok r \<Longrightarrow> tag_repo_ok (snd (set_tag_status now k st name r))"
  by (auto simp: set_tag_status_def Let_def tag_repo_ok_def intro: keyed_by_modify split: option.splits)

lemma audit_once_ok: "tag_repo_ok r \<Longrightarrow> tag_repo_ok (snd (audit_once ev r))"
  by (auto simp: audit_once_def tag_repo_ok_def split: option.splits)

lemma upsert_pending_ok: "tag_repo_ok r \<Longrightarrow> tag_repo_ok (snd (upsert_pending now k name r))"
  by (auto simp: upsert_pending_def Let_def tag_repo_ok_def split: option.splits)

lemma remap_references_ok: "tag_repo_ok r \<Longrightarrow> tag_repo_ok (snd (remap_references s t r))"
  by (simp add: remap_references_def tag_repo_ok_def)

lemma audit_once_tags [simp]: "tags (snd (audit_once ev r)) = tags r"
  by (auto simp: audit_once_def split: option.splits)

lemma audit_once_fresh:
  "dict_get (tag_audit_events r) (ta_idempotency_key ev) = None \<Longrightarrow>
   audit_once ev r = ((ev, True), r\<lparr>tag_audit_events := dict_put (ta_idempotency_key ev) ev (tag_audit_events r)\<rparr>)"
  by (simp add: audit_once_def)

section \<open>Administrator decisions\<close>

text \<open>
  Approving with a fresh idempotency key succeeds exactly for an existing tag in the expected
  status; it then approves that tag and no other, and records the decision.
\<close>

theorem approve_tag_fresh:
  assumes "normalize_tag_key raw = Inr key" and "dict_get (tag_audit_events r) idem = None"
    and "approve_tag now raw admin idem name expected r = (res, r')"
  shows "(\<exists>u. res = Inr u) = (\<exists>t. dict_get (tags r) key = Some t \<and>
      (expected = None \<or> expected = Some (tag_status t))) \<and>
    (\<forall>u. res = Inr u \<longrightarrow> tag_status u = Approved \<and> dict_get (tags r') key = Some u) \<and>
    (\<forall>e. res = Inl e \<longrightarrow> tags r' = tags r) \<and>
    (\<forall>k. k \<noteq> key \<longrightarrow> dict_get (tags r') k = dict_get (tags r) k) \<and>
    dict_get (tag_audit_events r') idem \<noteq> None"
  using assms
  by (auto simp: approve_tag_def audit_once_fresh set_tag_status_def Let_def dict_simps
      split: option.splits if_splits)

lemma approve_tag_fresh_witness:
  "\<exists>res r'. approve_tag 5 ''pets'' 1 ''k1'' None (Some Pending)
      (snd (upsert_pending 3 ''pets'' ''Pets'' \<lparr>tags = [], tag_audit_events = [], announcement_refs = [],
         announcement_excluded_refs = [], filter_refs = []\<rparr>)) = (res, r') \<and> (\<exists>u. res = Inr u)"
  (is "\<exists>res r'. approve_tag _ _ _ _ _ _ ?r = _ \<and> _")
proof -
  obtain res r' where run: "approve_tag 5 ''pets'' 1 ''k1'' None (Some Pending) ?r = (res, r')"
    by fastforce
  have key: "normalize_tag_key ''pets'' = Inr ''pets''" by code_simp
  have fresh: "dict_get (tag_audit_events ?r) ''k1'' = None"
    by (simp add: upsert_pending_def Let_def)
  have "\<exists>t. dict_get (tags ?r) ''pets'' = Some t \<and> tag_status t = Pending"
    by (simp add: upsert_pending_def Let_def)
  then show ?thesis using approve_tag_fresh [OF key fresh run] run by auto
qed

text \<open>
  A refused approval uses up its idempotency key: the audit event was already written, so
  repeating the call with the same key, whatever status it now expects, returns the tag as if it had
  been approved while its status is unchanged.
\<close>

theorem refused_approval_consumes_key:
  assumes "normalize_tag_key raw = Inr key" and "dict_get (tag_audit_events r) idem = None"
    and "dict_get (tags r) key = Some t" and "tag_status t \<noteq> Pending"
  shows "\<exists>r1. approve_tag now raw admin idem name (Some Pending) r = (Inl state_conflict, r1) \<and>
    (\<exists>ev. dict_get (tag_audit_events r1) idem = Some ev \<and> ta_action ev = ApproveTag) \<and>
    approve_tag now' raw admin idem name expected r1 = (Inr t, r1) \<and>
    dict_get (tags r1) key = Some t"
  using assms
  by (auto simp: approve_tag_def audit_once_fresh audit_once_def dict_simps)

lemma refused_approval_consumes_key_witness:
  "\<exists>r1. approve_tag 1 ''pets'' 7 ''k'' None (Some Pending)
      \<lparr>tags = [(''pets'', \<lparr>tag_key = ''pets'', tag_display_name = ''Pets'', tag_status = Rejected,
         tag_usage_count = 0, tag_created_at = 0, tag_updated_at = 0\<rparr>)], tag_audit_events = [],
       announcement_refs = [], announcement_excluded_refs = [], filter_refs = []\<rparr> = (Inl state_conflict, r1)"
  (is "\<exists>r1. approve_tag _ _ _ _ _ _ ?r = _")
proof -
  have "normalize_tag_key ''pets'' = Inr ''pets''" by code_simp
  then show ?thesis
    using refused_approval_consumes_key [of "''pets''" "''pets''" ?r "''k''" _ 1 7 None 2 None] by auto
qed

lemma remap_no_source: "src \<noteq> tgt \<Longrightarrow> (k, s) \<in> set (map (\<lambda>(k, s). (k, remap_tag_set src tgt s)) d) \<Longrightarrow> src \<notin> s"
  by (auto simp: remap_tag_set_def split: if_splits)

text \<open>
  A successful merge leaves the source tag rejected and referenced nowhere, the target approved
  with one more use, and every reference to the source redirected to the target; the other tags
  keep their records.
\<close>

theorem merge_tag_redirects:
  assumes ok: "tag_repo_ok r"
    and keys: "normalize_tag_key raw = Inr src" "normalize_tag_key raw_target = Inr tgt"
    and fresh: "dict_get (tag_audit_events r) idem = None"
    and run: "merge_tag now raw raw_target admin idem note expected r = (Inr u, r')"
  shows "src \<noteq> tgt \<and> dict_get (tags r') src = Some u \<and> tag_status u = Rejected \<and>
    (\<exists>t t'. dict_get (tags r) tgt = Some t \<and> dict_get (tags r') tgt = Some t' \<and>
       tag_status t' = Approved \<and> tag_usage_count t' = Suc (tag_usage_count t)) \<and>
    (\<forall>k. k \<noteq> src \<longrightarrow> k \<noteq> tgt \<longrightarrow> dict_get (tags r') k = dict_get (tags r) k) \<and>
    announcement_refs r' = map (\<lambda>(k, s). (k, remap_tag_set src tgt s)) (announcement_refs r) \<and>
    (\<forall>(k, s) \<in> set (announcement_refs r') \<union> set (announcement_excluded_refs r'). src \<notin> s) \<and>
    (\<forall>(k, t) \<in> set (filter_refs r'). t \<noteq> src)"
proof -
  let ?ev = "\<lparr>ta_admin_user_id = admin, ta_action = MergeTag, ta_idempotency_key = idem,
                 ta_tag_key = src, ta_target_tag_key = Some tgt, ta_note = note\<rparr>"
  let ?r1 = "r\<lparr>tag_audit_events := dict_put idem ?ev (tag_audit_events r)\<rparr>"
  let ?r2 = "snd (remap_references src tgt ?r1)"
  have ne: "src \<noteq> tgt" using run keys by (auto simp: merge_tag_def)
  have au: "audit_once ?ev r = ((?ev, True), ?r1)" using fresh by (simp add: audit_once_def)
  obtain s t where st: "dict_get (tags r) src = Some s" "dict_get (tags r) tgt = Some t"
    "tag_status t = Approved"
    and "then_do (increment_usage now tgt ?r2) (\<lambda>_ r3. set_tag_status now src Rejected None r3) = (Inr u, r')"
    using run keys ne au
    by (auto simp: merge_tag_def Let_def split: option.splits if_splits)
  moreover have "tags ?r2 = tags r" by (simp add: remap_references_def)
  ultimately have r': "r' = ?r2\<lparr>tags := tags r'\<rparr>" and t': "tags r' = dict_put src u (dict_put tgt
      (t\<lparr>tag_usage_count := Suc (tag_usage_count t), tag_updated_at := now\<rparr>) (tags r))"
    and u: "tag_status u = Rejected"
    using ne by (auto simp: increment_usage_def set_tag_status_def Let_def dict_simps)
  have "announcement_refs r' = announcement_refs ?r2"
    "announcement_excluded_refs r' = announcement_excluded_refs ?r2" "filter_refs r' = filter_refs ?r2"
    by (subst r', simp)+
  then show ?thesis
    using ne st t' u remap_no_source [OF ne]
    by (auto simp: dict_simps remap_references_def remap_tag_set_def split: if_splits)
qed

definition tag_record :: "string \<Rightarrow> tag_status \<Rightarrow> tag" where
  "tag_record key st = \<lparr>tag_key = key, tag_display_name = key, tag_status = st, tag_usage_count = 0,
     tag_created_at = 0, tag_updated_at = 0\<rparr>"

lemma merge_tag_redirects_witness:
  "\<exists>u r'. merge_tag 9 ''kids'' ''family'' 1 ''m1'' None None
      \<lparr>tags = [(''kids'', tag_record ''kids'' Pending), (''family'', tag_record ''family'' Approved)],
       tag_audit_events = [], announcement_refs = [(''a'', {''kids''})], announcement_excluded_refs = [],
       filter_refs = [(''f'', ''kids'')]\<rparr> = (Inr u, r') \<and>
     announcement_refs r' = [(''a'', {''family''})]"
  (is "\<exists>u r'. merge_tag _ _ _ _ _ _ _ ?r = _ \<and> _")
proof -
  have keys: "normalize_tag_key ''kids'' = Inr ''kids''" by code_simp
  have ok: "tag_repo_ok ?r"
    by (auto simp: tag_repo_ok_def keyed_by_def dict_ok_def tag_record_def)
  have fresh: "dict_get (tag_audit_events ?r) ''m1'' = None" by simp
  have "\<exists>u r'. merge_tag 9 ''kids'' ''family'' 1 ''m1'' None None ?r = (Inr u, r')"
    by (simp add: merge_tag_def keys normalize_family audit_once_def tag_record_def remap_references_def
        increment_usage_def set_tag_status_def Let_def)
  then obtain u r' where run: "merge_tag 9 ''kids'' ''family'' 1 ''m1'' None None ?r = (Inr u, r')"
    by blast
  from merge_tag_redirects [OF ok keys normalize_family fresh run] run
  show ?thesis by (auto simp: remap_tag_set_def)
qed

end
