(* ===== verification/EF_PhoneText.thy ===== *)
theory EF_PhoneText
  imports EF_Text
begin

text \<open>
  The text side of \<open>services/pre_ai_dedup.py\<close>: the phone pattern with its backtracking, the hashtag
  pattern, \<open>normalize_listing_text\<close>, \<open>extract_phone_numbers\<close> and the tokens. Text is ASCII, on which
  NFKC is the identity and \<open>casefold\<close> is \<open>lower\<close>.

  A pattern piece is a function from the text to the list of remainders it can leave, in the order
  the regular expression engine tries them.
\<close>

section \<open>The phone pattern\<close>

definition is_phone_sep :: "char \<Rightarrow> bool" where
  "is_phone_sep c \<longleftrightarrow> is_space c \<or> c \<in> set ''()-''"

text \<open>\<open>[\s()-]*\<close>, longest first.\<close>

fun sep_star :: "string \<Rightarrow> string list" where
  "sep_star [] = [[]]"
| "sep_star (c # cs) = (if is_phone_sep c then sep_star cs @ [c # cs] else [c # cs])"

text \<open>\<open>(?:\d[\s()-]*){lo,hi}\<close>, greedy.\<close>

fun phone_reps :: "nat \<Rightarrow> nat \<Rightarrow> string \<Rightarrow> string list" where
  "phone_reps lo 0 s = (if lo = 0 then [s] else [])"
| "phone_reps lo (Suc hi) s =
     (case s of
        [] \<Rightarrow> []
      | c # cs \<Rightarrow> if is_digit c then concat (map (phone_reps (lo - 1) hi) (sep_star cs)) else [])
     @ (if lo = 0 then [s] else [])"

text \<open>\<open>(?:\+?998)?\<close>\<close>

definition phone_prefix :: "string \<Rightarrow> string list" where
  "phone_prefix s =
     (if starts_with s ''+998'' then [drop 4 s]
      else if starts_with s ''998'' then [drop 3 s] else []) @ [s]"

definition not_before_digit :: "string \<Rightarrow> bool" where
  "not_before_digit s = (case s of [] \<Rightarrow> True | c # _ \<Rightarrow> \<not> is_digit c)"

text \<open>A match that starts here: the remainder after it.\<close>

definition phone_match_here :: "string \<Rightarrow> string option" where
  "phone_match_here s =
     List.find not_before_digit
       (concat (map (phone_reps 9 12) (concat (map sep_star (phone_prefix s)))))"

text \<open>
  Scanning from left to right, without overlaps, as \<open>finditer\<close> and \<open>sub\<close> do: a text is cut into the
  characters outside a match and the matched texts. The flag is the look-behind \<open>(?<!\d)\<close>.
\<close>

datatype segment = Lit char | Phone string

function phone_segments :: "bool \<Rightarrow> string \<Rightarrow> segment list" where
  "phone_segments prev_digit [] = []"
| "phone_segments prev_digit (c # cs) =
     (case (if prev_digit then None else phone_match_here (c # cs)) of
        Some rest \<Rightarrow>
          (if length rest \<le> length cs
           then (let m = take (Suc (length cs) - length rest) (c # cs) in
                 Phone m # phone_segments (is_digit (last m)) rest)
           else Lit c # phone_segments (is_digit c) cs)
      | None \<Rightarrow> Lit c # phone_segments (is_digit c) cs)"
  by pat_completeness auto
termination
  by (relation "measure (\<lambda>(b, s). length s)") auto

text \<open>A match is never empty, so the guard on the lengths never takes the other branch.\<close>

lemma sep_star_length: "r \<in> set (sep_star s) \<Longrightarrow> length r \<le> length s"
  by (induction s) (auto split: if_splits)

lemma phone_reps_length:
  "r \<in> set (phone_reps lo hi s) \<Longrightarrow> length r + lo \<le> length s"
proof (induction lo hi s arbitrary: r rule: phone_reps.induct)
  case (2 lo hi s)
  show ?case
  proof (cases "lo = 0 \<and> r = s")
    case False
    then have "r \<in> set (case s of [] \<Rightarrow> [] | c # cs \<Rightarrow>
        if is_digit c then concat (map (phone_reps (lo - 1) hi) (sep_star cs)) else [])"
      using 2(2) by (auto split: if_splits)
    then obtain c cs q where "s = c # cs" "is_digit c" "q \<in> set (sep_star cs)"
      "r \<in> set (phone_reps (lo - 1) hi q)"
      by (cases s) (auto split: if_splits)
    with 2(1) sep_star_length [of q cs] show ?thesis by fastforce
  qed simp
qed (auto split: if_splits)

lemma phone_match_shorter:
  assumes "phone_match_here s = Some r"
  shows "length r + 9 \<le> length s"
proof -
  from assms have "r \<in> set (concat (map (phone_reps 9 12) (concat (map sep_star (phone_prefix s)))))"
    unfolding phone_match_here_def find_first_def [symmetric] by (blast dest: find_first_SomeD)
  then obtain p q where "p \<in> set (phone_prefix s)" "q \<in> set (sep_star p)"
    "r \<in> set (phone_reps 9 12 q)" by auto
  then show ?thesis
    using phone_reps_length [of r 9 12 q] sep_star_length [of q p]
    by (fastforce simp: phone_prefix_def split: if_splits)
qed

section \<open>Phone numbers\<close>

definition digits_of :: "string \<Rightarrow> string" where
  "digits_of s = filter is_digit s"

definition full_digits :: "string \<Rightarrow> string" where
  "full_digits m = (let d = digits_of m in if length d = 9 then ''998'' @ d else d)"

definition last_n :: "nat \<Rightarrow> 'a list \<Rightarrow> 'a list" where
  "last_n n xs = drop (length xs - n) xs"

definition normalize_phone_match :: "string \<Rightarrow> string" where
  "normalize_phone_match m =
     (let d = full_digits m in if 12 \<le> length d then CHR ''+'' # last_n 12 d else m)"

fun extracted_phone :: "segment \<Rightarrow> string list" where
  "extracted_phone (Lit c) = []"
| "extracted_phone (Phone m) =
     (let d = full_digits m in if 12 \<le> length d then [CHR ''+'' # last_n 12 d] else [])"

definition extract_phone_numbers :: "string \<Rightarrow> string set" where
  "extract_phone_numbers s = set (concat (map extracted_phone (phone_segments False s)))"

fun substituted :: "segment \<Rightarrow> string" where
  "substituted (Lit c) = [c]"
| "substituted (Phone m) = normalize_phone_match m"

definition phone_sub :: "string \<Rightarrow> string" where
  "phone_sub s = concat (map substituted (phone_segments False s))"

section \<open>Normalised listing text\<close>

text \<open>\<open>(?<!\w)#\w+\<close> replaced by a blank; the flag is the look-behind.\<close>

function strip_hashtags :: "bool \<Rightarrow> string \<Rightarrow> string" where
  "strip_hashtags prev_word [] = []"
| "strip_hashtags prev_word (c # cs) =
     (if c = CHR ''#'' \<and> \<not> prev_word \<and> cs \<noteq> [] \<and> is_word (hd cs)
      then CHR '' '' # strip_hashtags True (dropWhile is_word cs)
      else c # strip_hashtags (is_word c) cs)"
  by pat_completeness auto
termination
  by (relation "measure (\<lambda>(b, s). length s)") (auto simp: le_imp_less_Suc length_dropWhile_le)

definition keep_listing_char :: "char \<Rightarrow> bool" where
  "keep_listing_char c \<longleftrightarrow> is_alnum c \<or> is_space c \<or> c \<in> set ''$+''"

definition normalize_listing_text :: "string option \<Rightarrow> string" where
  "normalize_listing_text text =
     (case text of
        None \<Rightarrow> ''''
      | Some t \<Rightarrow>
          if t = [] then ''''
          else collapse (map (\<lambda>c. if keep_listing_char c then c else CHR '' '')
                 (strip_hashtags False (phone_sub (lower t)))))"

text \<open>\<open>[\w$]+\<close>, every maximal run.\<close>

definition is_token_char :: "char \<Rightarrow> bool" where
  "is_token_char c \<longleftrightarrow> is_word c \<or> c = CHR ''$''"

definition tokenize_words :: "string \<Rightarrow> string set" where
  "tokenize_words s = set (words (map (\<lambda>c. if is_token_char c then c else CHR '' '') s))"

section \<open>Facts\<close>

lemma length_last_n: "length (last_n n xs) = min n (length xs)"
  by (simp add: last_n_def)

lemma set_last_n: "set (last_n n xs) \<subseteq> set xs"
  by (simp add: last_n_def set_drop_subset)

lemma full_digits_digits: "c \<in> set (full_digits m) \<Longrightarrow> is_digit c"
  by (auto simp: full_digits_def digits_of_def Let_def is_digit_def code_of_def split: if_splits)

lemma extracted_phone_shape:
  "p \<in> set (extracted_phone seg) \<Longrightarrow>
   \<exists>d. p = CHR ''+'' # d \<and> length d = 12 \<and> (\<forall>c \<in> set d. is_digit c)"
  using set_last_n full_digits_digits
  by (cases seg) (fastforce simp: Let_def length_last_n split: if_splits)+

text \<open>Every extracted number is in the canonical form: a plus sign and twelve digits.\<close>

lemma extract_phone_numbers_canonical:
  "p \<in> extract_phone_numbers s \<Longrightarrow>
   \<exists>d. p = CHR ''+'' # d \<and> length d = 12 \<and> (\<forall>c \<in> set d. is_digit c)"
  unfolding extract_phone_numbers_def using extracted_phone_shape by auto

lemma finite_phones [simp]: "finite (extract_phone_numbers s)"
  by (simp add: extract_phone_numbers_def)

lemma finite_tokens [simp]: "finite (tokenize_words s)"
  by (simp add: tokenize_words_def)

lemma normalize_lower: "normalize_listing_text (Some (lower t)) = normalize_listing_text (Some t)"
  by (simp add: normalize_listing_text_def)

lemma set_words: "w \<in> set (words s) \<Longrightarrow> set w \<subseteq> set s"
proof (induction s rule: words.induct)
  case (2 c cs)
  show ?case
  proof (cases "is_space c")
    case True
    with 2 show ?thesis by auto
  next
    case False
    with 2(3) consider "w = c # takeWhile (\<lambda>x. \<not> is_space x) cs"
      | "w \<in> set (words (dropWhile (\<lambda>x. \<not> is_space x) cs))" by auto
    then show ?thesis
    proof cases
      case 1
      then show ?thesis by (auto dest: set_takeWhileD)
    next
      case 2
      then show ?thesis using "2.IH"(2) [OF False] set_dropWhileD by fastforce
    qed
  qed
qed simp

lemma set_join: "set (join sep ws) \<subseteq> set sep \<union> (\<Union>w \<in> set ws. set w)"
  by (induction sep ws rule: join.induct) auto

lemma normalize_chars:
  "c \<in> set (normalize_listing_text t) \<Longrightarrow> is_alnum c \<or> c = CHR '' '' \<or> c \<in> set ''$+''"
proof -
  let ?k = "\<lambda>c. if keep_listing_char c then c else CHR '' ''"
  assume c: "c \<in> set (normalize_listing_text t)"
  then obtain s where "c \<in> set (collapse (map ?k s))"
    by (auto simp: normalize_listing_text_def split: option.splits if_splits)
  then have "c = CHR '' '' \<or> (\<exists>w \<in> set (words (map ?k s)). c \<in> set w)"
    using set_join [of "'' ''" "words (map ?k s)"] by (auto simp: collapse_def)
  moreover have "is_alnum c \<or> c \<in> set ''$+''" if "w \<in> set (words (map ?k s))" "c \<in> set w" for w
  proof -
    from that words_spaceless have "\<not> is_space c" by (auto simp: spaceless_def)
    moreover from that set_words have "c \<in> set (map ?k s)" by blast
    ultimately show ?thesis by (auto simp: keep_listing_char_def split: if_splits)
  qed
  ultimately show ?thesis by blast
qed

end
