(* ===== verification/EF_Listing.thy ===== *)
theory EF_Listing
  imports EF_Tags EF_PhoneText
begin

text \<open>
  The structured listing of \<open>services/extraction.py\<close>: the raw extraction, its normalisation, and the
  field-wise view \<open>model_dump\<close> and \<open>model_validate\<close> give of the canonical listing. \<open>Decimal\<close> and
  \<open>float\<close> values are rationals.
\<close>

section \<open>Data\<close>

datatype price_period = Daily | Monthly | OneTime
datatype price_basis = TotalPrice | PerPerson
datatype listing_kind = Rent | Sale
datatype owner_type = Owner | Agent | UnknownOwner
datatype renovation_level = NoRenovation | BasicRenovation | GoodRenovation | EuroRenovation | LuxuryRenovation
datatype renovation_source = VisionSource | TextSource | UnknownSource

record listing_raw =
  lr_price :: "rat option"
  lr_currency :: "string option"
  lr_price_period :: "price_period option"
  lr_price_basis :: "price_basis option"
  lr_listing_type :: "listing_kind option"
  lr_rooms :: "int option"
  lr_area_sqm :: "rat option"
  lr_floor :: "int option"
  lr_total_floors :: "int option"
  lr_district :: "string option"
  lr_address :: "string option"
  lr_phone_numbers :: "string list"
  lr_owner_type :: "owner_type option"
  lr_renovation_level :: "renovation_level option"
  lr_renovation_source :: renovation_source
  lr_furniture :: "bool option"
  lr_description :: "string option"
  lr_audience_tags :: "string list"
  lr_audience_excluded_tags :: "string list"
  lr_confidence :: rat
  lr_is_rental :: "bool option"
  lr_rental_confidence :: "rat option"
  lr_field_confidence :: "(string, rat) dict"

record canonical_listing =
  cl_schema_version :: string
  cl_prompt_version :: string
  cl_price :: "rat option"
  cl_currency :: "string option"
  cl_price_period :: price_period
  cl_price_basis :: price_basis
  cl_price_normalized_monthly :: "rat option"
  cl_listing_type :: "listing_kind option"
  cl_rooms :: "int option"
  cl_area_sqm :: "rat option"
  cl_floor :: "int option"
  cl_total_floors :: "int option"
  cl_district :: "string option"
  cl_address :: "string option"
  cl_phone_numbers :: "string list"
  cl_owner_type :: owner_type
  cl_renovation_level :: "renovation_level option"
  cl_renovation_source :: renovation_source
  cl_furniture :: "bool option"
  cl_description :: string
  cl_audience_tags :: "string list"
  cl_audience_excluded_tags :: "string list"
  cl_confidence :: rat
  cl_field_confidence :: "(string, rat) dict"
  cl_assumptions :: "string list"

section \<open>Normalisation\<close>

definition normalized_monthly :: "rat option \<Rightarrow> price_period \<Rightarrow> rat option" where
  "normalized_monthly price period =
     (case price of
        None \<Rightarrow> None
      | Some p \<Rightarrow>
          if period = OneTime then None
          else if period = Daily then Some (p * 30)
          else Some p)"

definition normalize_space :: "string option \<Rightarrow> string option" where
  "normalize_space v =
     (case v of
        None \<Rightarrow> None
      | Some s \<Rightarrow> (let t = collapse s in if t = [] then None else Some t))"

definition normalize_currency :: "string option \<Rightarrow> string option" where
  "normalize_currency v =
     (case v of
        None \<Rightarrow> None
      | Some s \<Rightarrow>
          (let n = upper (strip s) in
           if n \<in> {''$'', ''DOLLAR''} then Some ''USD''
           else if n \<in> {''SUM'', ''SO'' @ [CHR 0x27] @ ''M'', ''SOM'', ''UZS''} then Some ''UZS''
           else Some n))"

definition district_aliases :: "(string, string) dict" where
  "district_aliases =
     [(''yashnobod'', ''Yashnobod''), (''yashnabad'', ''Yashnobod''), (''yashnobod tumani'', ''Yashnobod''),
      (''yunusabad'', ''Yunusobod''), (''yunusobod'', ''Yunusobod''),
      (''chilonzor'', ''Chilonzor''), (''chilanraz'', ''Chilonzor''),
      (''mirzo ulug'' @ [CHR 0x27] @ ''bek'', ''Mirzo Ulug'' @ [CHR 0x27] @ ''bek''),
      (''mirzo ulugbek'', ''Mirzo Ulug'' @ [CHR 0x27] @ ''bek''),
      (''mirobod'', ''Mirobod''), (''mirabad'', ''Mirobod''),
      (''shayxontohur'', ''Shayxontohur''), (''shayxantaxur'', ''Shayxontohur''),
      (''olmazor'', ''Olmazor''), (''almazar'', ''Olmazor''),
      (''uchtepa'', ''Uchtepa''), (''sergeli'', ''Sergeli''),
      (''yakkasaroy'', ''Yakkasaroy''), (''yakkasaray'', ''Yakkasaroy''),
      (''bektemir'', ''Bektemir''), (''yangihayot'', ''Yangihayot'')]"

definition normalize_district :: "string option \<Rightarrow> string option" where
  "normalize_district v =
     map_option (\<lambda>n. case dict_get district_aliases (lower n) of Some d \<Rightarrow> d | None \<Rightarrow> n)
       (normalize_space v)"

fun normalize_audience_tags_loop ::
  "string list \<Rightarrow> bool \<Rightarrow> string list \<Rightarrow> string list \<Rightarrow> string list" where
  "normalize_audience_tags_loop allowed keep acc [] = acc"
| "normalize_audience_tags_loop allowed keep acc (v # vs) =
     (case normalize_tag_key v of
        Inl _ \<Rightarrow> normalize_audience_tags_loop allowed keep acc vs
      | Inr t \<Rightarrow>
          normalize_audience_tags_loop allowed keep
            (if (t \<in> set allowed \<or> keep) \<and> t \<notin> set acc then acc @ [t] else acc) vs)"

definition normalize_audience_tags :: "string list option \<Rightarrow> bool \<Rightarrow> string list \<Rightarrow> string list" where
  "normalize_audience_tags allowed keep vs =
     normalize_audience_tags_loop
       (case allowed of
          None \<Rightarrow> dict_keys SEED_AUDIENCE_TAGS
        | Some a \<Rightarrow> if a = [] then dict_keys SEED_AUDIENCE_TAGS else a) keep [] vs"

definition normalize_listing ::
  "listing_raw \<Rightarrow> string \<Rightarrow> string option \<Rightarrow> string list option \<Rightarrow> bool \<Rightarrow> string list \<Rightarrow> canonical_listing" where
  "normalize_listing raw prompt_version source_text allowed keep extra =
     (let period = (case lr_price_period raw of None \<Rightarrow> Monthly | Some p \<Rightarrow> p);
          basis = (case lr_price_basis raw of None \<Rightarrow> TotalPrice | Some b \<Rightarrow> b);
          assumptions = extra
            @ (if lr_price_period raw = None then [''price_period_defaulted_monthly''] else [])
            @ (if lr_price_basis raw = None then [''price_basis_defaulted_total''] else []);
          phones = sorted_list_of_set
            (set (lr_phone_numbers raw) \<union>
             extract_phone_numbers (case source_text of None \<Rightarrow> [] | Some t \<Rightarrow> t))
      in \<lparr>cl_schema_version = ''estateflow.announcement.v1'',
          cl_prompt_version = prompt_version,
          cl_price = lr_price raw,
          cl_currency = lr_currency raw,
          cl_price_period = period,
          cl_price_basis = basis,
          cl_price_normalized_monthly = normalized_monthly (lr_price raw) period,
          cl_listing_type = lr_listing_type raw,
          cl_rooms = lr_rooms raw,
          cl_area_sqm = lr_area_sqm raw,
          cl_floor = lr_floor raw,
          cl_total_floors = lr_total_floors raw,
          cl_district = normalize_district (lr_district raw),
          cl_address = normalize_space (lr_address raw),
          cl_phone_numbers = phones,
          cl_owner_type = (case lr_owner_type raw of None \<Rightarrow> UnknownOwner | Some t \<Rightarrow> t),
          cl_renovation_level = lr_renovation_level raw,
          cl_renovation_source = lr_renovation_source raw,
          cl_furniture = lr_furniture raw,
          cl_description = (case normalize_space (lr_description raw) of
             Some d \<Rightarrow> d
           | None \<Rightarrow> (case normalize_space source_text of Some d \<Rightarrow> d | None \<Rightarrow> [])),
          cl_audience_tags = normalize_audience_tags allowed keep (lr_audience_tags raw),
          cl_audience_excluded_tags = normalize_audience_tags allowed keep (lr_audience_excluded_tags raw),
          cl_confidence = lr_confidence raw,
          cl_field_confidence = lr_field_confidence raw,
          cl_assumptions = assumptions\<rparr>)"

section \<open>The field-wise view\<close>

text \<open>The values a dumped field can hold; the literals are dumped as their text.\<close>

datatype fval =
    FNone
  | FDec rat
  | FInt int
  | FBool bool
  | FFloat rat
  | FStr string
  | FStrs "string list"
  | FMap "(string, rat) dict"

definition f_opt :: "('a \<Rightarrow> fval) \<Rightarrow> 'a option \<Rightarrow> fval" where
  "f_opt f v = (case v of None \<Rightarrow> FNone | Some x \<Rightarrow> f x)"

definition period_text :: "price_period \<Rightarrow> string" where
  "period_text p = (case p of Daily \<Rightarrow> ''daily'' | Monthly \<Rightarrow> ''monthly'' | OneTime \<Rightarrow> ''one_time'')"

definition basis_text :: "price_basis \<Rightarrow> string" where
  "basis_text b = (case b of TotalPrice \<Rightarrow> ''total'' | PerPerson \<Rightarrow> ''per_person'')"

definition kind_text :: "listing_kind \<Rightarrow> string" where
  "kind_text k = (case k of Rent \<Rightarrow> ''rent'' | Sale \<Rightarrow> ''sale'')"

definition owner_text :: "owner_type \<Rightarrow> string" where
  "owner_text o' = (case o' of Owner \<Rightarrow> ''owner'' | Agent \<Rightarrow> ''agent'' | UnknownOwner \<Rightarrow> ''unknown'')"

definition level_text :: "renovation_level \<Rightarrow> string" where
  "level_text l = (case l of NoRenovation \<Rightarrow> ''none'' | BasicRenovation \<Rightarrow> ''basic''
     | GoodRenovation \<Rightarrow> ''good'' | EuroRenovation \<Rightarrow> ''euro'' | LuxuryRenovation \<Rightarrow> ''luxury'')"

definition source_text_of :: "renovation_source \<Rightarrow> string" where
  "source_text_of s = (case s of VisionSource \<Rightarrow> ''vision'' | TextSource \<Rightarrow> ''text'' | UnknownSource \<Rightarrow> ''unknown'')"

definition model_dump :: "canonical_listing \<Rightarrow> (string \<times> fval) list" where
  "model_dump c =
     [(''schema_version'', FStr (cl_schema_version c)),
      (''prompt_version'', FStr (cl_prompt_version c)),
      (''price'', f_opt FDec (cl_price c)),
      (''currency'', f_opt FStr (cl_currency c)),
      (''price_period'', FStr (period_text (cl_price_period c))),
      (''price_basis'', FStr (basis_text (cl_price_basis c))),
      (''price_normalized_monthly'', f_opt FDec (cl_price_normalized_monthly c)),
      (''listing_type'', f_opt (FStr \<circ> kind_text) (cl_listing_type c)),
      (''rooms'', f_opt FInt (cl_rooms c)),
      (''area_sqm'', f_opt FDec (cl_area_sqm c)),
      (''floor'', f_opt FInt (cl_floor c)),
      (''total_floors'', f_opt FInt (cl_total_floors c)),
      (''district'', f_opt FStr (cl_district c)),
      (''address'', f_opt FStr (cl_address c)),
      (''phone_numbers'', FStrs (cl_phone_numbers c)),
      (''owner_type'', FStr (owner_text (cl_owner_type c))),
      (''renovation_level'', f_opt (FStr \<circ> level_text) (cl_renovation_level c)),
      (''renovation_source'', FStr (source_text_of (cl_renovation_source c))),
      (''furniture'', f_opt FBool (cl_furniture c)),
      (''description'', FStr (cl_description c)),
      (''audience_tags'', FStrs (cl_audience_tags c)),
      (''audience_excluded_tags'', FStrs (cl_audience_excluded_tags c)),
      (''confidence'', FFloat (cl_confidence c)),
      (''field_confidence'', FMap (cl_field_confidence c)),
      (''assumptions'', FStrs (cl_assumptions c))]"

text \<open>
  \<open>CanonicalListing.model_validate\<close> on dumped fields: every declared field must be there with a value of
  its type, \<open>schema_version\<close> and \<open>assumptions\<close> have defaults, other fields are refused.
\<close>

definition invalid :: "string \<Rightarrow> 'a res" where
  "invalid n = Inl (ValueError (''canonical_validation_error:'' @ n))"

definition required :: "(string \<times> fval) list \<Rightarrow> (fval \<Rightarrow> 'a option) \<Rightarrow> string \<Rightarrow> 'a res" where
  "required d parse n =
     (case dict_get d n of
        None \<Rightarrow> invalid n
      | Some v \<Rightarrow> (case parse v of None \<Rightarrow> invalid n | Some x \<Rightarrow> Inr x))"

definition defaulted :: "(string \<times> fval) list \<Rightarrow> (fval \<Rightarrow> 'a option) \<Rightarrow> 'a \<Rightarrow> string \<Rightarrow> 'a res" where
  "defaulted d parse x n = (case dict_get d n of None \<Rightarrow> Inr x | Some v \<Rightarrow> required d parse n)"

definition nullable :: "(fval \<Rightarrow> 'a option) \<Rightarrow> fval \<Rightarrow> 'a option option" where
  "nullable parse v = (if v = FNone then Some None else map_option Some (parse v))"

fun as_dec :: "fval \<Rightarrow> rat option" where "as_dec (FDec r) = Some r" | "as_dec _ = None"
fun as_int :: "fval \<Rightarrow> int option" where "as_int (FInt i) = Some i" | "as_int _ = None"
fun as_bool :: "fval \<Rightarrow> bool option" where "as_bool (FBool b) = Some b" | "as_bool _ = None"
fun as_float :: "fval \<Rightarrow> rat option" where "as_float (FFloat r) = Some r" | "as_float _ = None"
fun as_str :: "fval \<Rightarrow> string option" where "as_str (FStr s) = Some s" | "as_str _ = None"
fun as_strs :: "fval \<Rightarrow> string list option" where "as_strs (FStrs s) = Some s" | "as_strs _ = None"
fun as_map :: "fval \<Rightarrow> (string, rat) dict option" where "as_map (FMap m) = Some m" | "as_map _ = None"

definition as_literal :: "(string \<times> 'a) list \<Rightarrow> fval \<Rightarrow> 'a option" where
  "as_literal table v = (case v of FStr s \<Rightarrow> map_of table s | _ \<Rightarrow> None)"

definition as_period :: "fval \<Rightarrow> price_period option" where
  "as_period = as_literal [(''daily'', Daily), (''monthly'', Monthly), (''one_time'', OneTime)]"

definition as_basis :: "fval \<Rightarrow> price_basis option" where
  "as_basis = as_literal [(''total'', TotalPrice), (''per_person'', PerPerson)]"

definition as_kind :: "fval \<Rightarrow> listing_kind option" where
  "as_kind = as_literal [(''rent'', Rent), (''sale'', Sale)]"

definition as_owner :: "fval \<Rightarrow> owner_type option" where
  "as_owner = as_literal [(''owner'', Owner), (''agent'', Agent), (''unknown'', UnknownOwner)]"

definition as_level :: "fval \<Rightarrow> renovation_level option" where
  "as_level = as_literal [(''none'', NoRenovation), (''basic'', BasicRenovation), (''good'', GoodRenovation),
     (''euro'', EuroRenovation), (''luxury'', LuxuryRenovation)]"

definition as_source :: "fval \<Rightarrow> renovation_source option" where
  "as_source = as_literal [(''vision'', VisionSource), (''text'', TextSource), (''unknown'', UnknownSource)]"

definition canonical_fields :: "string list" where
  "canonical_fields =
     [''schema_version'', ''prompt_version'', ''price'', ''currency'', ''price_period'', ''price_basis'',
      ''price_normalized_monthly'', ''listing_type'', ''rooms'', ''area_sqm'', ''floor'', ''total_floors'',
      ''district'', ''address'', ''phone_numbers'', ''owner_type'', ''renovation_level'',
      ''renovation_source'', ''furniture'', ''description'', ''audience_tags'', ''audience_excluded_tags'',
      ''confidence'', ''field_confidence'', ''assumptions'']"

definition model_validate :: "(string \<times> fval) list \<Rightarrow> canonical_listing res" where
  "model_validate d =
     (if \<not> set (dict_keys d) \<subseteq> set canonical_fields then invalid ''extra_forbidden'' else
      res_bind (defaulted d as_str ''estateflow.announcement.v1'' ''schema_version'') (\<lambda>schema.
      res_bind (required d as_str ''prompt_version'') (\<lambda>prompt.
      res_bind (required d (nullable as_dec) ''price'') (\<lambda>price.
      res_bind (required d (nullable as_str) ''currency'') (\<lambda>currency.
      res_bind (required d as_period ''price_period'') (\<lambda>period.
      res_bind (required d as_basis ''price_basis'') (\<lambda>basis.
      res_bind (required d (nullable as_dec) ''price_normalized_monthly'') (\<lambda>monthly.
      res_bind (required d (nullable as_kind) ''listing_type'') (\<lambda>kind.
      res_bind (required d (nullable as_int) ''rooms'') (\<lambda>rooms.
      res_bind (required d (nullable as_dec) ''area_sqm'') (\<lambda>area.
      res_bind (required d (nullable as_int) ''floor'') (\<lambda>floor'.
      res_bind (required d (nullable as_int) ''total_floors'') (\<lambda>floors.
      res_bind (required d (nullable as_str) ''district'') (\<lambda>district.
      res_bind (required d (nullable as_str) ''address'') (\<lambda>address.
      res_bind (required d as_strs ''phone_numbers'') (\<lambda>phones.
      res_bind (required d as_owner ''owner_type'') (\<lambda>owner.
      res_bind (required d (nullable as_level) ''renovation_level'') (\<lambda>level.
      res_bind (required d as_source ''renovation_source'') (\<lambda>source.
      res_bind (required d (nullable as_bool) ''furniture'') (\<lambda>furniture.
      res_bind (required d as_str ''description'') (\<lambda>description.
      res_bind (required d as_strs ''audience_tags'') (\<lambda>tags'.
      res_bind (required d as_strs ''audience_excluded_tags'') (\<lambda>excluded.
      res_bind (required d as_float ''confidence'') (\<lambda>confidence.
      res_bind (required d as_map ''field_confidence'') (\<lambda>fields.
      res_bind (defaulted d as_strs [] ''assumptions'') (\<lambda>assumptions.
        Inr \<lparr>cl_schema_version = schema, cl_prompt_version = prompt, cl_price = price,
             cl_currency = currency, cl_price_period = period, cl_price_basis = basis,
             cl_price_normalized_monthly = monthly, cl_listing_type = kind, cl_rooms = rooms,
             cl_area_sqm = area, cl_floor = floor', cl_total_floors = floors,
             cl_district = district, cl_address = address, cl_phone_numbers = phones,
             cl_owner_type = owner, cl_renovation_level = level, cl_renovation_source = source,
             cl_furniture = furniture, cl_description = description, cl_audience_tags = tags',
             cl_audience_excluded_tags = excluded, cl_confidence = confidence,
             cl_field_confidence = fields, cl_assumptions = assumptions\<rparr>))))))))))))))))))))))))))"

lemma as_literal_texts [simp]:
  "as_period (FStr (period_text p)) = Some p"
  "as_basis (FStr (basis_text b)) = Some b"
  "as_kind (FStr (kind_text k)) = Some k"
  "as_owner (FStr (owner_text ow)) = Some ow"
  "as_level (FStr (level_text l)) = Some l"
  "as_source (FStr (source_text_of so)) = Some so"
  by (simp_all add: as_period_def as_basis_def as_kind_def as_owner_def as_level_def as_source_def
      as_literal_def period_text_def basis_text_def kind_text_def owner_text_def level_text_def
      source_text_of_def split: price_period.split price_basis.split listing_kind.split owner_type.split
      renovation_level.split renovation_source.split)

lemma nullable_f_opt [simp]:
  "(\<And>x. f x \<noteq> FNone) \<Longrightarrow> (\<And>x. parse (f x) = Some x) \<Longrightarrow> nullable parse (f_opt f v) = Some v"
  by (cases v) (auto simp: nullable_def f_opt_def)

lemma dict_keys_model_dump: "dict_keys (model_dump c) = canonical_fields"
  by (simp add: model_dump_def canonical_fields_def)

lemma distinct_canonical_fields: "distinct canonical_fields"
  by (simp add: canonical_fields_def)

lemma model_validate_dump [simp]: "model_validate (model_dump c) = Inr c"
  unfolding model_validate_def dict_keys_model_dump
  by (simp add: model_dump_def required_def defaulted_def)

section \<open>Well-formed listings\<close>

lemma collapse_Nil [simp]: "collapse [] = []"
  by (simp add: collapse_def)

lemma normalize_space_fixed:
  "normalize_space v = Some t \<Longrightarrow> t \<noteq> [] \<and> collapse t = t \<and> normalize_space (Some t) = Some t"
  by (auto simp: normalize_space_def Let_def split: option.splits if_splits)

lemma normalize_audience_tags_loop_props:
  assumes "distinct acc" and "\<And>t. t \<in> set acc \<Longrightarrow> P t"
    and "\<And>v t. normalize_tag_key v = Inr t \<Longrightarrow> t \<in> set allowed \<or> keep \<Longrightarrow> P t"
  shows "distinct (normalize_audience_tags_loop allowed keep acc vs) \<and>
    (\<forall>t \<in> set (normalize_audience_tags_loop allowed keep acc vs). P t)"
  using assms
proof (induction vs arbitrary: acc)
  case Nil
  then show ?case by simp
next
  case (Cons v vs)
  show ?case
  proof (cases "normalize_tag_key v")
    case (Inl e)
    with Cons show ?thesis by simp
  next
    case (Inr t)
    let ?acc = "if (t \<in> set allowed \<or> keep) \<and> t \<notin> set acc then acc @ [t] else acc"
    have "distinct ?acc" using Cons.prems(1) by simp
    moreover have "P u" if "u \<in> set ?acc" for u
      using that Cons.prems(2,3) Inr by (auto split: if_splits)
    ultimately have "distinct (normalize_audience_tags_loop allowed keep ?acc vs) \<and>
        (\<forall>t \<in> set (normalize_audience_tags_loop allowed keep ?acc vs). P t)"
      using Cons.prems(3) by (rule Cons.IH)
    with Inr show ?thesis by simp
  qed
qed

definition allowed_tags :: "string list option \<Rightarrow> string list" where
  "allowed_tags allowed =
     (case allowed of
        None \<Rightarrow> dict_keys SEED_AUDIENCE_TAGS
      | Some a \<Rightarrow> if a = [] then dict_keys SEED_AUDIENCE_TAGS else a)"

lemma normalize_audience_tags_props:
  "distinct (normalize_audience_tags allowed keep vs) \<and>
   (\<forall>t \<in> set (normalize_audience_tags allowed keep vs).
      normalize_tag_key t = Inr t \<and> (keep \<or> t \<in> set (allowed_tags allowed)))"
  unfolding normalize_audience_tags_def allowed_tags_def
  by (rule normalize_audience_tags_loop_props) (auto intro: normalize_tag_key_fixed)

text \<open>
  C4. Whatever the model extracted, the canonical listing is well formed: its phone numbers are
  strictly sorted and contain every number of the source text, its tags are distinct canonical keys
  that are allowed (unless unknown ones are kept), its description is a fixed point of the space
  normalisation, a monthly price is there exactly when there is a price that is not a one-time one,
  and dumping and validating it gives it back.
\<close>

theorem normalize_listing_well_formed:
  "let c = normalize_listing raw version source allowed keep extra in
     sorted (cl_phone_numbers c) \<and> distinct (cl_phone_numbers c) \<and>
     extract_phone_numbers (case source of None \<Rightarrow> [] | Some t \<Rightarrow> t) \<subseteq> set (cl_phone_numbers c) \<and>
     distinct (cl_audience_tags c) \<and> distinct (cl_audience_excluded_tags c) \<and>
     (\<forall>t \<in> set (cl_audience_tags c) \<union> set (cl_audience_excluded_tags c).
        normalize_tag_key t = Inr t \<and> (keep \<or> t \<in> set (allowed_tags allowed))) \<and>
     collapse (cl_description c) = cl_description c \<and>
     (cl_price_normalized_monthly c \<noteq> None) = (cl_price c \<noteq> None \<and> cl_price_period c \<noteq> OneTime) \<and>
     (cl_price_period c = Daily \<longrightarrow>
        cl_price_normalized_monthly c = map_option (\<lambda>p. p * 30) (cl_price c)) \<and>
     model_validate (model_dump c) = Inr c"
proof -
  let ?c = "normalize_listing raw version source allowed keep extra"
  have "collapse (cl_description ?c) = cl_description ?c"
    using normalize_space_fixed
    by (auto simp: normalize_listing_def Let_def split: option.split)
  moreover have "\<forall>t \<in> set (cl_audience_tags ?c) \<union> set (cl_audience_excluded_tags ?c).
        normalize_tag_key t = Inr t \<and> (keep \<or> t \<in> set (allowed_tags allowed))"
    using normalize_audience_tags_props [of allowed keep]
    by (auto simp: normalize_listing_def Let_def)
  moreover have "(cl_price_normalized_monthly ?c \<noteq> None) = (cl_price ?c \<noteq> None \<and> cl_price_period ?c \<noteq> OneTime)"
    and "cl_price_period ?c = Daily \<longrightarrow>
        cl_price_normalized_monthly ?c = map_option (\<lambda>p. p * 30) (cl_price ?c)"
    by (auto simp: normalize_listing_def Let_def normalized_monthly_def split: option.split)
  ultimately show ?thesis
    using normalize_audience_tags_props [of allowed keep] model_validate_dump [of ?c]
    by (simp add: Let_def del: model_validate_dump) (simp add: normalize_listing_def Let_def)
qed

text \<open>An extraction with nothing in it but a text.\<close>

definition empty_raw :: listing_raw where
  "empty_raw =
     \<lparr>lr_price = Some 10, lr_currency = None, lr_price_period = Some Daily, lr_price_basis = None,
      lr_listing_type = None, lr_rooms = None, lr_area_sqm = None, lr_floor = None, lr_total_floors = None,
      lr_district = None, lr_address = None, lr_phone_numbers = [], lr_owner_type = None,
      lr_renovation_level = None, lr_renovation_source = UnknownSource, lr_furniture = None,
      lr_description = None, lr_audience_tags = [''family''], lr_audience_excluded_tags = [],
      lr_confidence = 1, lr_is_rental = None, lr_rental_confidence = None, lr_field_confidence = []\<rparr>"

lemma normalize_listing_well_formed_witness:
  "cl_price_normalized_monthly (normalize_listing empty_raw ''v1'' None None False []) = Some 300 \<and>
   distinct (cl_audience_tags (normalize_listing empty_raw ''v1'' None None False []))"
proof -
  let ?c = "normalize_listing empty_raw ''v1'' None None False []"
  have "cl_price_period ?c = Daily" and "cl_price ?c = Some 10"
    by (simp_all add: normalize_listing_def empty_raw_def Let_def)
  then show ?thesis
    using normalize_listing_well_formed [of empty_raw "''v1''" None None False "[]"]
    by (simp add: Let_def)
qed

end
