(* ===== verification/EF_Fanout.thy ===== *)
theory EF_Fanout
  imports EF_Text
begin

text \<open>
  The identities of candidates fanned out of one Telegram post
  (\<open>services/source_parsing/contracts.py\<close>): encoding, decoding and the sibling test the two
  deduplication stages share.
\<close>

section \<open>Encoding and decoding\<close>

definition FANOUT_SOURCE_MESSAGE_MARKER :: string where
  "FANOUT_SOURCE_MESSAGE_MARKER = ''::estateflow-candidate::''"

definition fanout_candidate_source_message_id :: "string \<Rightarrow> int \<Rightarrow> string res" where
  "fanout_candidate_source_message_id raw i =
     (if i < 0 then Inl (ValueError ''candidate_index must be non-negative'')
      else Inr (raw @ FANOUT_SOURCE_MESSAGE_MARKER @ str_int i))"

definition fanout_source_message_identity :: "string \<Rightarrow> (string \<times> nat) option" where
  "fanout_source_message_identity val_text =
     (case rpartition FANOUT_SOURCE_MESSAGE_MARKER val_text of
        None \<Rightarrow> None
      | Some (raw, index_text) \<Rightarrow>
          if raw = [] \<or> \<not> is_decimal index_text then None
          else map_option (\<lambda>n. (raw, n)) (int_body 0 False index_text))"

definition are_fanout_source_message_siblings :: "string \<Rightarrow> string \<Rightarrow> bool" where
  "are_fanout_source_message_siblings left right =
     (case (fanout_source_message_identity left, fanout_source_message_identity right) of
        (Some (lraw, li), Some (rraw, ri)) \<Rightarrow> lraw = rraw \<and> li \<noteq> ri
      | _ \<Rightarrow> False)"

section \<open>Round trip\<close>

lemma rpartition_append_none:
  "rpartition m (c # cs) = Some ([], b) \<Longrightarrow> rpartition m (a @ c # cs) = Some (a, b)"
  by (induction a) auto

lemma marker_last:
  assumes "is_decimal b"
  shows "rpartition FANOUT_SOURCE_MESSAGE_MARKER (FANOUT_SOURCE_MESSAGE_MARKER @ b) = Some ([], b)"
proof -
  obtain c cs where b: "b = c # cs" and d: "is_digit c"
    using assms by (cases b) (auto simp: is_decimal_def)
  have "rpartition FANOUT_SOURCE_MESSAGE_MARKER b = None"
    using assms by (intro rpartition_none)
      (auto simp: FANOUT_SOURCE_MESSAGE_MARKER_def is_decimal_def is_digit_def code_of_def)
  moreover have "c \<noteq> CHR '':''" "c \<noteq> CHR ''e''"
    using d by (auto simp: is_digit_def code_of_def)
  ultimately show ?thesis
    by (simp add: FANOUT_SOURCE_MESSAGE_MARKER_def b starts_with_def)
qed

lemma fanout_identity_encode:
  assumes "raw \<noteq> []"
  shows "fanout_source_message_identity (raw @ FANOUT_SOURCE_MESSAGE_MARKER @ str_nat n) = Some (raw, n)"
proof -
  have "\<exists>c cs. FANOUT_SOURCE_MESSAGE_MARKER @ str_nat n = c # cs"
    by (simp add: FANOUT_SOURCE_MESSAGE_MARKER_def)
  then have "rpartition FANOUT_SOURCE_MESSAGE_MARKER
      (raw @ FANOUT_SOURCE_MESSAGE_MARKER @ str_nat n) = Some (raw, str_nat n)"
    using marker_last [OF is_decimal_str_nat, of n] rpartition_append_none by metis
  with assms show ?thesis by (simp add: fanout_source_message_identity_def)
qed

text \<open>
  The persistence identity of a digest candidate decodes to the post and the slot it was made
  from, so two candidates are siblings exactly when they come from the same post and differ in slot.
\<close>

theorem fanout_siblings_iff:
  assumes "raw \<noteq> []" and "raw' \<noteq> []"
    and "fanout_candidate_source_message_id raw i = Inr left"
    and "fanout_candidate_source_message_id raw' j = Inr right"
  shows "fanout_source_message_identity left = Some (raw, nat i) \<and>
    are_fanout_source_message_siblings left right = (raw = raw' \<and> i \<noteq> j)"
proof -
  have i: "0 \<le> i" "left = raw @ FANOUT_SOURCE_MESSAGE_MARKER @ str_nat (nat i)"
    and j: "0 \<le> j" "right = raw' @ FANOUT_SOURCE_MESSAGE_MARKER @ str_nat (nat j)"
    using assms(3,4) by (auto simp: fanout_candidate_source_message_id_def str_int_def split: if_splits)
  have "fanout_source_message_identity left = Some (raw, nat i)"
    and "fanout_source_message_identity right = Some (raw', nat j)"
    using fanout_identity_encode assms(1,2) i(2) j(2) by auto
  with i(1) j(1) show ?thesis by (auto simp: are_fanout_source_message_siblings_def)
qed

lemma fanout_siblings_iff_witness:
  "are_fanout_source_message_siblings ''77::estateflow-candidate::0'' ''77::estateflow-candidate::12''"
proof -
  have "fanout_candidate_source_message_id ''77'' 0 = Inr ''77::estateflow-candidate::0''"
    and "fanout_candidate_source_message_id ''77'' 12 = Inr ''77::estateflow-candidate::12''"
    by (simp_all add: fanout_candidate_source_message_id_def FANOUT_SOURCE_MESSAGE_MARKER_def str_int_def) code_simp+
  then show ?thesis using fanout_siblings_iff [of "''77''" "''77''" 0 _ 12] by simp
qed

text \<open>A Telegram message id, which is a plain decimal, is nobody's sibling.\<close>

lemma plain_id_no_identity:
  "CHR '':'' \<notin> set val_text \<Longrightarrow> fanout_source_message_identity val_text = None"
  using rpartition_none [of FANOUT_SOURCE_MESSAGE_MARKER val_text]
  by (simp add: fanout_source_message_identity_def FANOUT_SOURCE_MESSAGE_MARKER_def)

lemma siblings_irrefl [simp]: "\<not> are_fanout_source_message_siblings m m"
  by (auto simp: are_fanout_source_message_siblings_def split: option.splits)

lemma siblings_sym:
  "are_fanout_source_message_siblings a b = are_fanout_source_message_siblings b a"
  by (auto simp: are_fanout_source_message_siblings_def split: option.splits)

end
