(* ===== verification/EF_PreAi.thy ===== *)
theory EF_PreAi
  imports EF_PhoneText EF_Fanout
begin

text \<open>
  Pre-AI deduplication: \<open>services/pre_ai_dedup.py\<close> over the raw events of
  \<open>services/telegram_listener.py\<close>. The SHA-256 digest and the perceptual hash provider are arguments.
  Similarities and strengths are exact rationals where Python has floats.
\<close>

section \<open>Raw Telegram events\<close>

record forward_metadata =
  original_channel_id :: "string option"
  original_message_id :: "string option"
  original_channel_username :: "string option"

record media_reference =
  mr_media_id :: string
  mr_media_type :: string
  mr_mime_type :: "string option"
  mr_size_bytes :: "int option"
  mr_access_hash :: "string option"
  mr_source_channel_id :: "string option"
  mr_source_message_id :: "string option"

datatype parser_mode = Active | Shadow | Disabled

datatype update_type = Created | Edited | Deleted

record raw_event =
  ev_schema_version :: string
  ev_event_type :: update_type
  ev_idempotency_key :: string
  ev_account_key :: string
  ev_source_id :: string
  ev_source_channel_id :: string
  ev_source_message_id :: string
  ev_source_identifier :: string
  ev_occurred_at :: time
  ev_correlation_id :: string
  ev_text :: "string option"
  ev_forward_metadata :: "forward_metadata option"
  ev_media :: "media_reference list"
  ev_media_group_id :: "string option"
  ev_source_message_ids :: "string list"
  ev_source_url :: "string option"
  ev_parser_key :: "string option"
  ev_parser_version :: "string option"
  ev_parser_config :: "(string, json) dict"
  ev_parser_mode :: parser_mode
  ev_parser_diagnostics :: "(string, json) dict"
  ev_parser_provenance :: "(string, json) dict"

section \<open>Signals\<close>

record raw_event_reference =
  ref_raw_event_id :: string
  ref_source_id :: string
  ref_source_channel_id :: string
  ref_source_message_id :: string
  ref_parent_reference :: "string option"

datatype signal_type = ForwardOrigin | TextHash | NearText | SamePhone | PHash

record dedup_signal =
  sg_type :: signal_type
  sg_matched :: bool
  sg_strength :: rat
  sg_reason :: string
  sg_reference :: "raw_event_reference option"
  sg_details :: "(string, json) dict"

datatype pre_ai_decision_type = ProceedToAi | HighConfidenceDuplicate | NeedsReviewableSignal

record pre_ai_decision =
  pd_decision :: pre_ai_decision_type
  pd_should_skip_ai :: bool
  pd_reasons :: "string list"
  pd_signals :: "dedup_signal list"
  pd_audit_reference :: "raw_event_reference option"

record event_signals =
  es_reference :: raw_event_reference
  es_forward_origin_key :: "string option"
  es_text_hash :: "string option"
  es_normalized_text :: "string option"
  es_phones :: "string set"
  es_media_phashes :: "string list"

record pre_ai_config =
  near_text_threshold :: rat
  phash_hamming_threshold :: nat

section \<open>Building the signals of an event\<close>

text \<open>A reference is recorded as text; the parser writes it as a string.\<close>

definition json_text :: "json \<Rightarrow> string option" where
  "json_text j =
     (case j of
        JStr s \<Rightarrow> if s = [] then None else Some s
      | JNum r \<Rightarrow> Some (str_int \<lfloor>r\<rfloor>)
      | JBool b \<Rightarrow> Some (if b then ''True'' else ''False'')
      | _ \<Rightarrow> None)"

definition forward_origin_key :: "forward_metadata option \<Rightarrow> string option" where
  "forward_origin_key md =
     (case md of
        None \<Rightarrow> None
      | Some f \<Rightarrow>
          (case (original_channel_id f, original_message_id f) of
             (Some c, Some m) \<Rightarrow> Some (c @ '':'' @ m)
           | _ \<Rightarrow> None))"

definition stable_media_phash :: "(string \<Rightarrow> string) \<Rightarrow> media_reference \<Rightarrow> string option" where
  "stable_media_phash sha256 media =
     (if mr_media_type media \<notin> {''photo'', ''image'', ''document''} then None
      else
        (let seed = (case mr_access_hash media of
                       Some h \<Rightarrow> if h = [] then mr_media_id media else h
                     | None \<Rightarrow> mr_media_id media)
         in if seed = [] then None else Some (take 16 (sha256 seed))))"

definition parent_reference_of :: "raw_event \<Rightarrow> string option" where
  "parent_reference_of ev =
     Option.bind (dict_get (ev_parser_provenance ev) ''raw_event_id'') json_text"

definition build_raw_event_dedup_signals ::
  "(string \<Rightarrow> string) \<Rightarrow> (media_reference \<Rightarrow> string option) \<Rightarrow> raw_event \<Rightarrow> event_signals" where
  "build_raw_event_dedup_signals sha256 phash ev =
     (let normalized = normalize_listing_text (ev_text ev) in
      \<lparr>es_reference =
         \<lparr>ref_raw_event_id = ev_idempotency_key ev,
          ref_source_id = ev_source_id ev,
          ref_source_channel_id = ev_source_channel_id ev,
          ref_source_message_id = ev_source_message_id ev,
          ref_parent_reference = parent_reference_of ev\<rparr>,
       es_forward_origin_key = forward_origin_key (ev_forward_metadata ev),
       es_text_hash = (if normalized = [] then None else Some (sha256 normalized)),
       es_normalized_text = (if normalized = [] then None else Some normalized),
       es_phones = extract_phone_numbers (case ev_text ev of None \<Rightarrow> [] | Some t \<Rightarrow> t),
       es_media_phashes = List.map_filter phash (ev_media ev)\<rparr>)"

section \<open>Similarity measures\<close>

definition jaccard_similarity :: "'a set \<Rightarrow> 'a set \<Rightarrow> rat" where
  "jaccard_similarity left right =
     (if left = {} \<and> right = {} then 1
      else if left = {} \<or> right = {} then 0
      else of_nat (card (left \<inter> right)) / of_nat (card (left \<union> right)))"

text \<open>
  \<open>int(s, 16)\<close>: white space around, one sign, an optional \<open>0x\<close> and single underscores between digits
  (and after the prefix) are accepted. The flag says whether an underscore may follow.
\<close>

definition hex_val :: "char \<Rightarrow> nat option" where
  "hex_val c =
     (if is_digit c then Some (digit_val c)
      else if 97 \<le> code_of c \<and> code_of c \<le> 102 then Some (code_of c - 87)
      else if 65 \<le> code_of c \<and> code_of c \<le> 70 then Some (code_of c - 55)
      else None)"

fun hex_body :: "nat \<Rightarrow> bool \<Rightarrow> string \<Rightarrow> nat option" where
  "hex_body acc d [] = (if d then Some acc else None)"
| "hex_body acc d (c # cs) =
     (case hex_val c of
        Some v \<Rightarrow> hex_body (16 * acc + v) True cs
      | None \<Rightarrow> if c = CHR ''_'' \<and> d then hex_body acc False cs else None)"

definition hex_unsigned :: "string \<Rightarrow> nat option" where
  "hex_unsigned s =
     (if starts_with s ''0x'' \<or> starts_with s ''0X''
      then (if length s = 2 then None else hex_body 0 True (drop 2 s))
      else hex_body 0 False s)"

definition hex_int :: "string \<Rightarrow> int res" where
  "hex_int s =
     (let t = strip s;
          n = (case t of
                 [] \<Rightarrow> None
               | c # cs \<Rightarrow>
                   if c = CHR ''-'' then map_option (\<lambda>n. - int n) (hex_unsigned cs)
                   else if c = CHR ''+'' then map_option int (hex_unsigned cs)
                   else map_option int (hex_unsigned t))
      in case n of
           Some i \<Rightarrow> Inr i
         | None \<Rightarrow> Inl (ValueError ''invalid literal for int() with base 16''))"

fun bit_count :: "nat \<Rightarrow> nat" where
  "bit_count n = (if n = 0 then 0 else n mod 2 + bit_count (n div 2))"

declare bit_count.simps [simp del]

definition hamming_int :: "int \<Rightarrow> int \<Rightarrow> nat" where
  "hamming_int m n = bit_count (nat \<bar>Bit_Operations.xor m n\<bar>)"

definition hamming_distance_hex :: "string \<Rightarrow> string \<Rightarrow> nat res" where
  "hamming_distance_hex left right =
     res_bind (hex_int left) (\<lambda>l. res_bind (hex_int right) (\<lambda>r. Inr (hamming_int l r)))"

section \<open>Best matches\<close>

text \<open>The loops keep the first strictly better candidate.\<close>

fun best_near_text_loop ::
  "string \<Rightarrow> (rat \<times> raw_event_reference) option \<Rightarrow> event_signals list \<Rightarrow>
   (rat \<times> raw_event_reference) option" where
  "best_near_text_loop text best [] = best"
| "best_near_text_loop text best (c # cs) =
     (case es_normalized_text c of
        None \<Rightarrow> best_near_text_loop text best cs
      | Some other \<Rightarrow>
          (let sim = jaccard_similarity (tokenize_words text) (tokenize_words other) in
           if best = None \<or> fst (the best) < sim
           then best_near_text_loop text (Some (sim, es_reference c)) cs
           else best_near_text_loop text best cs))"

definition best_near_text_match ::
  "event_signals \<Rightarrow> event_signals list \<Rightarrow> (rat \<times> raw_event_reference) option" where
  "best_near_text_match ev cands =
     (case es_normalized_text ev of None \<Rightarrow> None | Some t \<Rightarrow> best_near_text_loop t None cands)"

fun best_phash_inner ::
  "string \<Rightarrow> raw_event_reference \<Rightarrow> (nat \<times> raw_event_reference) option \<Rightarrow> string list \<Rightarrow>
   (nat \<times> raw_event_reference) option res" where
  "best_phash_inner p ref best [] = Inr best"
| "best_phash_inner p ref best (q # qs) =
     (case hamming_distance_hex p q of
        Inl e \<Rightarrow> Inl e
      | Inr d \<Rightarrow>
          if best = None \<or> d < fst (the best)
          then best_phash_inner p ref (Some (d, ref)) qs
          else best_phash_inner p ref best qs)"

fun best_phash_candidates ::
  "string \<Rightarrow> (nat \<times> raw_event_reference) option \<Rightarrow> event_signals list \<Rightarrow>
   (nat \<times> raw_event_reference) option res" where
  "best_phash_candidates p best [] = Inr best"
| "best_phash_candidates p best (c # cs) =
     (case best_phash_inner p (es_reference c) best (es_media_phashes c) of
        Inl e \<Rightarrow> Inl e
      | Inr best' \<Rightarrow> best_phash_candidates p best' cs)"

fun best_phash_loop ::
  "(nat \<times> raw_event_reference) option \<Rightarrow> event_signals list \<Rightarrow> string list \<Rightarrow>
   (nat \<times> raw_event_reference) option res" where
  "best_phash_loop best cands [] = Inr best"
| "best_phash_loop best cands (p # ps) =
     (case best_phash_candidates p best cands of
        Inl e \<Rightarrow> Inl e
      | Inr best' \<Rightarrow> best_phash_loop best' cands ps)"

definition best_phash_match ::
  "event_signals \<Rightarrow> event_signals list \<Rightarrow> (nat \<times> raw_event_reference) option res" where
  "best_phash_match ev cands = best_phash_loop None cands (es_media_phashes ev)"

definition best_phone_match ::
  "event_signals \<Rightarrow> event_signals list \<Rightarrow> raw_event_reference option" where
  "best_phone_match ev cands =
     (if es_phones ev = {} then None
      else map_option es_reference (List.find (\<lambda>c. es_phones ev \<inter> es_phones c \<noteq> {}) cands))"

section \<open>The filter\<close>

text \<open>What the filter reads and writes: the signal store, the audit sink and the ops notifier.\<close>

record pre_ai_state =
  st_signals :: "event_signals list"
  st_audit :: "(raw_event \<times> pre_ai_decision) list"
  st_ops :: "(string \<times> string \<times> string) list"

definition find_by_forward_origin :: "event_signals list \<Rightarrow> string \<Rightarrow> raw_event_reference option" where
  "find_by_forward_origin store key =
     map_option es_reference (List.find (\<lambda>s. es_forward_origin_key s = Some key) store)"

definition find_by_text_hash :: "event_signals list \<Rightarrow> string \<Rightarrow> raw_event_reference option" where
  "find_by_text_hash store h =
     map_option es_reference (List.find (\<lambda>s. es_text_hash s = Some h) store)"

definition add_signals :: "event_signals \<Rightarrow> pre_ai_state \<Rightarrow> pre_ai_state" where
  "add_signals sigs st = st\<lparr>st_signals := st_signals st @ [sigs]\<rparr>"

definition are_fanout_sibling_references ::
  "raw_event_reference \<Rightarrow> raw_event_reference \<Rightarrow> bool" where
  "are_fanout_sibling_references left right =
     (case (ref_parent_reference left, ref_parent_reference right) of
        (Some p, Some q) \<Rightarrow> p \<noteq> [] \<and> q \<noteq> [] \<and> p = q \<and> ref_raw_event_id left \<noteq> ref_raw_event_id right
      | _ \<Rightarrow> False)"

definition match_forward_origin ::
  "event_signals list \<Rightarrow> event_signals \<Rightarrow> raw_event_reference option" where
  "match_forward_origin store ev =
     (case es_forward_origin_key ev of
        None \<Rightarrow> None
      | Some key \<Rightarrow>
          (case find_by_forward_origin store key of
             None \<Rightarrow> None
           | Some r \<Rightarrow>
               if \<not> are_fanout_sibling_references (es_reference ev) r then Some r
               else map_option es_reference
                 (List.find (\<lambda>s. es_forward_origin_key s = Some key \<and>
                    \<not> are_fanout_sibling_references (es_reference ev) (es_reference s)) store)))"

definition match_text_hash ::
  "event_signals list \<Rightarrow> event_signals \<Rightarrow> raw_event_reference option" where
  "match_text_hash store ev =
     (case es_text_hash ev of None \<Rightarrow> None | Some h \<Rightarrow> find_by_text_hash store h)"

text \<open>\<open>round(x, 4)\<close>, halves to even.\<close>

definition round4 :: "rat \<Rightarrow> rat" where
  "round4 x =
     (let y = x * 10000; f = \<lfloor>y\<rfloor>; d = y - of_int f;
          n = (if d < 1 / 2 then f else if 1 / 2 < d then f + 1 else if even f then f else f + 1)
      in of_int n / 10000)"

definition ambiguous_signals ::
  "pre_ai_config \<Rightarrow> event_signals list \<Rightarrow> event_signals \<Rightarrow> dedup_signal list res" where
  "ambiguous_signals cfg store ev =
     (let near = (case best_near_text_match ev store of
            Some (sim, r) \<Rightarrow>
              if near_text_threshold cfg \<le> sim
              then [\<lparr>sg_type = NearText, sg_matched = True, sg_strength = sim,
                     sg_reason = ''near_text_match_requires_ai_confirmation'',
                     sg_reference = Some r, sg_details = [(''similarity'', JNum (round4 sim))]\<rparr>]
              else []
          | None \<Rightarrow> []);
          phone = (case best_phone_match ev store of
            Some r \<Rightarrow>
              [\<lparr>sg_type = SamePhone, sg_matched = True, sg_strength = 15 / 100,
                sg_reason = ''same_phone_is_weak_signal_only'', sg_reference = Some r,
                sg_details = [(''phone_count'', JNum (of_nat (card (es_phones ev))))]\<rparr>]
          | None \<Rightarrow> [])
      in case best_phash_match ev store of
           Inl e \<Rightarrow> Inl e
         | Inr best \<Rightarrow>
             Inr (near @
               (case best of
                  Some (distance, r) \<Rightarrow>
                    if distance \<le> phash_hamming_threshold cfg
                    then [\<lparr>sg_type = PHash, sg_matched = True, sg_strength = 1 - of_nat distance / 64,
                           sg_reason = ''phash_match_requires_ai_confirmation'',
                           sg_reference = Some r,
                           sg_details = [(''hamming_distance'', JNum (of_nat distance))]\<rparr>]
                    else []
                | None \<Rightarrow> []) @ phone))"

definition decision_text :: "pre_ai_decision_type \<Rightarrow> string" where
  "decision_text d = (case d of
     ProceedToAi \<Rightarrow> ''proceed_to_ai''
   | HighConfidenceDuplicate \<Rightarrow> ''high_confidence_duplicate''
   | NeedsReviewableSignal \<Rightarrow> ''needs_reviewable_signal'')"

definition record_decision ::
  "raw_event \<Rightarrow> pre_ai_decision_type \<Rightarrow> string list \<Rightarrow> dedup_signal list \<Rightarrow>
   raw_event_reference option \<Rightarrow> pre_ai_state \<Rightarrow> pre_ai_decision res \<times> pre_ai_state" where
  "record_decision ev d reasons sigs ref st =
     (let dec = \<lparr>pd_decision = d, pd_should_skip_ai = (d = HighConfidenceDuplicate),
                 pd_reasons = reasons, pd_signals = sigs, pd_audit_reference = ref\<rparr>
      in (Inr dec,
          st\<lparr>st_audit := st_audit st @ [(ev, dec)],
             st_ops := st_ops st @
               [(''info'',
                 ''pre_ai_dedup decision='' @ decision_text d @ '' source='' @ ev_source_id ev @
                   '' signal_count='' @ str_nat (length sigs),
                 ev_correlation_id ev)]\<rparr>))"

definition evaluate_event ::
  "(string \<Rightarrow> string) \<Rightarrow> (media_reference \<Rightarrow> string option) \<Rightarrow> pre_ai_config \<Rightarrow> raw_event \<Rightarrow>
   pre_ai_state \<Rightarrow> pre_ai_decision res \<times> pre_ai_state" where
  "evaluate_event sha256 phash cfg ev st =
     (let es = build_raw_event_dedup_signals sha256 phash ev in
      case match_forward_origin (st_signals st) es of
        Some r \<Rightarrow>
          record_decision ev HighConfidenceDuplicate [''forward_origin_exact_match'']
            [\<lparr>sg_type = ForwardOrigin, sg_matched = True, sg_strength = 1,
              sg_reason = ''forward origin channel/post matched exactly'',
              sg_reference = Some r, sg_details = []\<rparr>] (Some r) st
      | None \<Rightarrow>
          (case match_text_hash (st_signals st) es of
             Some r \<Rightarrow>
               record_decision ev HighConfidenceDuplicate [''normalized_text_hash_exact_match'']
                 [\<lparr>sg_type = TextHash, sg_matched = True, sg_strength = 1,
                   sg_reason = ''normalized text SHA-256 matched exactly'',
                   sg_reference = Some r,
                   sg_details = [(''text_hash'',
                     JStr (case es_text_hash es of None \<Rightarrow> [] | Some h \<Rightarrow> h))]\<rparr>] (Some r) st
           | None \<Rightarrow>
               (case ambiguous_signals cfg (st_signals st) es of
                  Inl e \<Rightarrow> (Inl e, st)
                | Inr sigs \<Rightarrow>
                    if \<exists>s \<in> set sigs. sg_matched s
                    then record_decision ev NeedsReviewableSignal
                           (map sg_reason (filter sg_matched sigs)) sigs
                           (Option.bind (List.find (\<lambda>s. sg_reference s \<noteq> None) sigs) sg_reference) st
                    else record_decision ev ProceedToAi [''no_high_confidence_duplicate_signal'']
                           sigs None st)))"

section \<open>Properties of the measures\<close>

lemma jaccard_sym: "jaccard_similarity a b = jaccard_similarity b a"
  by (auto simp: jaccard_similarity_def Int_commute Un_commute)

lemma jaccard_le_1:
  assumes "finite a" and "finite b"
  shows "jaccard_similarity a b \<le> 1"
proof -
  have "card (a \<inter> b) \<le> card (a \<union> b)"
    using assms by (intro card_mono) auto
  then show ?thesis
    by (auto simp: jaccard_similarity_def divide_le_eq_1 not_less)
qed

lemma jaccard_ge_0: "0 \<le> jaccard_similarity a b"
  by (simp add: jaccard_similarity_def)

lemma jaccard_1_iff:
  assumes "finite a" and "finite b"
  shows "jaccard_similarity a b = 1 \<longleftrightarrow> a = b"
proof (cases "a = {} \<or> b = {}")
  case True
  then show ?thesis by (auto simp: jaccard_similarity_def)
next
  case False
  then have pos: "card (a \<union> b) \<noteq> 0" using assms by simp
  have "a = b" if "card (a \<inter> b) = card (a \<union> b)"
    using that assms card_subset_eq [of "a \<union> b" "a \<inter> b"] by blast
  moreover have "a = b \<Longrightarrow> card (a \<inter> b) = card (a \<union> b)" by simp
  moreover have "jaccard_similarity a b = 1 \<longleftrightarrow> card (a \<inter> b) = card (a \<union> b)"
    using False pos by (auto simp: jaccard_similarity_def divide_eq_1_iff)
  ultimately show ?thesis by blast
qed

lemma bit_count_zero [simp]: "bit_count 0 = 0"
  by (subst bit_count.simps) simp

lemma bit_count_0_iff [simp]: "bit_count n = 0 \<longleftrightarrow> n = 0"
proof (induction n rule: bit_count.induct)
  case (1 n)
  then show ?case by (cases "n = 0") (auto simp: bit_count.simps [of n] mod2_eq_if)
qed

lemma xor_div2_nat: "Bit_Operations.xor m n div 2 = Bit_Operations.xor (m div 2) (n div (2 :: nat))"
  using drop_bit_xor [of 1 m n] by (simp add: drop_bit_eq_div)

lemma xor_0_iff: "Bit_Operations.xor m n = 0 \<longleftrightarrow> m = (n :: nat)"
proof
  assume "Bit_Operations.xor m n = 0"
  then have "Bit_Operations.xor (Bit_Operations.xor m n) n = Bit_Operations.xor 0 n" by simp
  then show "m = n" by (simp add: xor.assoc)
qed simp

lemma bit_count_xor_le: "bit_count (Bit_Operations.xor m n) \<le> bit_count m + bit_count n"
proof (induction m arbitrary: n rule: bit_count.induct)
  case (1 m)
  show ?case
  proof (cases "m = 0")
    case False
    let ?x = "Bit_Operations.xor m n"
    have "bit_count (?x div 2) \<le> bit_count (m div 2) + bit_count (n div 2)"
      using 1 False by (simp add: xor_div2_nat)
    moreover have "?x mod 2 \<le> m mod 2 + n mod 2"
      by (simp add: mod_2_eq_odd even_xor_iff)
    moreover have "bit_count ?x = ?x mod 2 + bit_count (?x div 2)"
      and "bit_count m = m mod 2 + bit_count (m div 2)"
      and "bit_count n = n mod 2 + bit_count (n div 2)"
      by (subst bit_count.simps, simp)+
    ultimately show ?thesis by linarith
  qed simp
qed

lemma hamming_int_nat: "hamming_int (int m) (int n) = bit_count (Bit_Operations.xor m n)"
proof -
  have "nat \<bar>Bit_Operations.xor (int m) (int n)\<bar> = Bit_Operations.xor m n"
    by (metis abs_of_nat nat_int of_nat_xor_eq)
  then show ?thesis by (simp add: hamming_int_def)
qed

text \<open>
  On hashes (unsigned hexadecimal text) the perceptual hash distance is a metric: it is
  symmetric, zero exactly for equal hash values, and obeys the triangle inequality.
\<close>

theorem hamming_distance_metric:
  assumes "hex_int a = Inr x" and "hex_int b = Inr y" and "hex_int c = Inr z"
    and "0 \<le> x" and "0 \<le> y" and "0 \<le> z"
  shows "hamming_distance_hex a b = hamming_distance_hex b a \<and>
    (hamming_distance_hex a b = Inr 0 \<longleftrightarrow> x = y) \<and>
    (\<exists>dab dbc dac. hamming_distance_hex a b = Inr dab \<and> hamming_distance_hex b c = Inr dbc \<and>
       hamming_distance_hex a c = Inr dac \<and> dac \<le> dab + dbc)"
proof -
  obtain m n k where mnk: "x = int m" "y = int n" "z = int k"
    using assms(4-6) by (metis nonneg_int_cases)
  have "Bit_Operations.xor (Bit_Operations.xor m n) (Bit_Operations.xor n k) =
      Bit_Operations.xor m (Bit_Operations.xor (Bit_Operations.xor n n) k)"
    by (simp only: xor.assoc)
  then have "Bit_Operations.xor m k = Bit_Operations.xor (Bit_Operations.xor m n) (Bit_Operations.xor n k)"
    by simp
  then have "bit_count (Bit_Operations.xor m k) \<le>
      bit_count (Bit_Operations.xor m n) + bit_count (Bit_Operations.xor n k)"
    using bit_count_xor_le by metis
  moreover have "Bit_Operations.xor m n = 0 \<longleftrightarrow> m = n"
    by (rule xor_0_iff)
  ultimately show ?thesis
    using assms(1-3) mnk
    by (simp add: hamming_distance_hex_def hamming_int_nat xor.commute)
qed

lemma hamming_distance_metric_witness: "hamming_distance_hex ''f0'' ''0F'' \<noteq> Inr 0"
proof -
  have "hex_int ''f0'' = Inr 240" and "hex_int ''0F'' = Inr 15"
    by (simp_all add: hex_int_def strip_def rstrip_def lstrip_def is_space_def code_of_def
        hex_unsigned_def starts_with_def hex_val_def is_digit_def digit_val_def)
  then have "(hamming_distance_hex ''f0'' ''0F'' = Inr 0) = ((240::int) = 15)"
    using hamming_distance_metric [of "''f0''" 240 "''0F''" 15 "''f0''" 240] by linarith
  then show ?thesis by simp
qed

text \<open>The near-text loop returns a maximum over the candidates that have text.\<close>

lemma best_near_text_loop_max:
  assumes "best_near_text_loop t best cs = Some (sim, r)"
  shows "(\<forall>b. best = Some b \<longrightarrow> fst b \<le> sim) \<and>
    (\<forall>c u. c \<in> set cs \<longrightarrow> es_normalized_text c = Some u \<longrightarrow>
       jaccard_similarity (tokenize_words t) (tokenize_words u) \<le> sim) \<and>
    (best = Some (sim, r) \<or> (\<exists>c u. c \<in> set cs \<and> es_normalized_text c = Some u \<and> es_reference c = r \<and>
       jaccard_similarity (tokenize_words t) (tokenize_words u) = sim))"
  using assms
proof (induction cs arbitrary: best)
  case Nil
  then show ?case by simp
next
  case (Cons c cs)
  show ?case
  proof (cases "es_normalized_text c")
    case None
    with Cons.prems have "best_near_text_loop t best cs = Some (sim, r)" by simp
    from Cons.IH [OF this] None show ?thesis by (metis option.distinct(1) set_ConsD list.set_intros(2))
  next
    case (Some u)
    let ?s = "jaccard_similarity (tokenize_words t) (tokenize_words u)"
    show ?thesis
    proof (cases "best = None \<or> fst (the best) < ?s")
      case True
      with Cons.prems Some have "best_near_text_loop t (Some (?s, es_reference c)) cs = Some (sim, r)"
        by (simp add: Let_def)
      note ih = Cons.IH [OF this]
      then have "?s \<le> sim" by simp
      with True have "\<forall>b. best = Some b \<longrightarrow> fst b \<le> sim" by auto
      with ih \<open>?s \<le> sim\<close> Some show ?thesis by auto
    next
      case False
      with Cons.prems Some have "best_near_text_loop t best cs = Some (sim, r)"
        by (simp add: Let_def)
      note ih = Cons.IH [OF this]
      from False obtain b where "best = Some b" and "?s \<le> fst b" by auto
      with ih have "?s \<le> sim" by force
      with ih Some show ?thesis by auto
    qed
  qed
qed

section \<open>Properties of the filter\<close>

lemma find_some_iff: "(\<exists>x. List.find P xs = Some x) \<longleftrightarrow> (\<exists>x \<in> set xs. P x)"
  by (metis find_None_iff not_None_eq)

lemma find_map_some_iff: "(\<exists>r. map_option f (List.find P xs) = Some r) \<longleftrightarrow> (\<exists>x \<in> set xs. P x)"
  using find_some_iff [of P xs] by auto

text \<open>
  The two-step search for the forward origin (the first hit, then a second pass when that hit is a
  sibling) finds the first stored signal with the key that is not a sibling.
\<close>

lemma match_forward_origin_find:
  assumes "es_forward_origin_key ev = Some key"
  shows "match_forward_origin store ev = map_option es_reference
    (List.find (\<lambda>s. es_forward_origin_key s = Some key \<and>
       \<not> are_fanout_sibling_references (es_reference ev) (es_reference s)) store)"
proof -
  let ?P = "\<lambda>s. es_forward_origin_key s = Some key"
  let ?Q = "\<lambda>s. ?P s \<and> \<not> are_fanout_sibling_references (es_reference ev) (es_reference s)"
  have sat: "?P s" if "List.find ?P store = Some s" for s
    using that by (auto simp: find_Some_iff)
  have "List.find ?Q store = Some s" if "List.find ?P store = Some s" "?Q s" for s
    using that by (induction store) (auto split: if_splits)
  moreover have "List.find ?Q store = None" if "List.find ?P store = None"
    using that by (auto simp: find_None_iff)
  ultimately show ?thesis
    using assms sat
    by (auto simp: match_forward_origin_def find_by_forward_origin_def split: option.splits)
qed

lemma match_forward_origin_iff:
  "(\<exists>r. match_forward_origin store ev = Some r) \<longleftrightarrow>
   (\<exists>s \<in> set store. es_forward_origin_key ev \<noteq> None \<and>
      es_forward_origin_key s = es_forward_origin_key ev \<and>
      \<not> are_fanout_sibling_references (es_reference ev) (es_reference s))"
proof (cases "es_forward_origin_key ev")
  case None
  then show ?thesis by (simp add: match_forward_origin_def)
next
  case (Some key)
  then show ?thesis by (simp add: match_forward_origin_find find_some_iff)
qed

lemma match_text_hash_iff:
  "(\<exists>r. match_text_hash store ev = Some r) \<longleftrightarrow>
   (\<exists>s \<in> set store. es_text_hash ev \<noteq> None \<and> es_text_hash s = es_text_hash ev)"
  by (cases "es_text_hash ev") (auto simp: match_text_hash_def find_by_text_hash_def find_some_iff)

definition pre_ai_duplicate :: "event_signals list \<Rightarrow> event_signals \<Rightarrow> bool" where
  "pre_ai_duplicate store ev \<longleftrightarrow>
     (\<exists>s \<in> set store. es_forward_origin_key ev \<noteq> None \<and>
        es_forward_origin_key s = es_forward_origin_key ev \<and>
        \<not> are_fanout_sibling_references (es_reference ev) (es_reference s)) \<or>
     (\<exists>s \<in> set store. es_text_hash ev \<noteq> None \<and> es_text_hash s = es_text_hash ev)"

lemma record_decision_result:
  "record_decision ev d reasons sigs ref st = (Inr dec, st') \<Longrightarrow>
   pd_decision dec = d \<and> pd_should_skip_ai dec = (d = HighConfidenceDuplicate) \<and>
   pd_audit_reference dec = ref \<and> st_signals st' = st_signals st \<and>
   st_audit st' = st_audit st @ [(ev, dec)] \<and> length (st_ops st') = Suc (length (st_ops st))"
  by (auto simp: record_decision_def Let_def)

lemma record_decision_Inr: "\<exists>dec st'. record_decision ev d reasons sigs ref st = (Inr dec, st')"
  by (simp add: record_decision_def Let_def)

lemma evaluate_event_result:
  "let es = build_raw_event_dedup_signals sha256 phash ev; (r, st') = evaluate_event sha256 phash cfg ev st in
     st_signals st' = st_signals st \<and>
     (case r of
        Inl e \<Rightarrow> \<not> pre_ai_duplicate (st_signals st) es \<and> st' = st
      | Inr dec \<Rightarrow> pd_should_skip_ai dec = pre_ai_duplicate (st_signals st) es \<and>
          pd_should_skip_ai dec = (pd_decision dec = HighConfidenceDuplicate) \<and>
          st_audit st' = st_audit st @ [(ev, dec)])"
proof -
  let ?es = "build_raw_event_dedup_signals sha256 phash ev"
  let ?st = "st_signals st"
  have dup: "pre_ai_duplicate ?st ?es \<longleftrightarrow>
      match_forward_origin ?st ?es \<noteq> None \<or> match_text_hash ?st ?es \<noteq> None"
    using match_forward_origin_iff [of ?st ?es] match_text_hash_iff [of ?st ?es]
    unfolding pre_ai_duplicate_def by auto
  obtain r st' where run: "evaluate_event sha256 phash cfg ev st = (r, st')" by fastforce
  show ?thesis
  proof (cases "match_forward_origin ?st ?es = None \<and> match_text_hash ?st ?es = None")
    case True
    then have "\<not> pre_ai_duplicate ?st ?es" using dup by simp
    with True run show ?thesis
      by (cases "ambiguous_signals cfg ?st ?es")
        (auto simp: evaluate_event_def Let_def record_decision_def split: if_splits)
  next
    case False
    then have "pre_ai_duplicate ?st ?es" using dup by auto
    with False run show ?thesis
      by (auto simp: evaluate_event_def Let_def record_decision_def split: option.splits)
  qed
qed

text \<open>
  C3. The filter skips the AI call exactly for an event that repeats a stored forward origin which
  is not one of its own fan-out siblings, or a stored normalised text; every decision it returns is
  audited once and leaves the signal store alone; and a high-confidence decision never fails, even
  when a stored perceptual hash cannot be read.
\<close>

theorem evaluate_event_skips_iff:
  "let es = build_raw_event_dedup_signals sha256 phash ev; (r, st') = evaluate_event sha256 phash cfg ev st in
     st_signals st' = st_signals st \<and>
     (case r of
        Inl e \<Rightarrow> \<not> pre_ai_duplicate (st_signals st) es \<and> st' = st
      | Inr dec \<Rightarrow> pd_should_skip_ai dec = pre_ai_duplicate (st_signals st) es \<and>
          pd_should_skip_ai dec = (pd_decision dec = HighConfidenceDuplicate) \<and>
          st_audit st' = st_audit st @ [(ev, dec)])"
  by (rule evaluate_event_result)

end
