(* ===== verification/EF_Scoring.thy ===== *)
theory EF_Scoring
  imports EF_Listing EF_PreAi
begin

text \<open>
  Scoring of structured announcements against stored ones: the data, the eleven signal matchers and
  the decision of \<open>services/post_ai_dedup.py\<close>. A matcher is a function into a result, since reading a
  stored perceptual hash may raise. Ratios that Python computes with \<open>Decimal\<close> or \<open>float\<close> are exact.
\<close>

section \<open>Data\<close>

record scoring_config =
  cfg_version :: string
  exact_threshold :: int
  high_confidence_threshold :: int
  possible_threshold :: int
  candidate_limit :: nat
  source_url_weight :: int
  same_image_weight :: int
  district_weight :: int
  rooms_weight :: int
  area_weight :: int
  price_weight :: int
  floor_weight :: int
  address_weight :: int
  phone_weight :: int
  cfg_phash_threshold :: nat
  area_tolerance_sqm :: rat
  price_tolerance_ratio :: rat
  address_similarity_threshold :: rat
  description_similarity_threshold :: rat
  parent_selection_policy :: string

definition default_scoring_config :: scoring_config where
  "default_scoring_config =
     \<lparr>cfg_version = ''estateflow.dedup.v2'', exact_threshold = 100, high_confidence_threshold = 80,
      possible_threshold = 60, candidate_limit = 50, source_url_weight = 100, same_image_weight = 70,
      district_weight = 10, rooms_weight = 10, area_weight = 10, price_weight = 10, floor_weight = 5,
      address_weight = 15, phone_weight = 15, cfg_phash_threshold = 8, area_tolerance_sqm = 3,
      price_tolerance_ratio = 5 / 100, address_similarity_threshold = 75 / 100,
      description_similarity_threshold = 82 / 100,
      parent_selection_policy = ''completeness_trust_first_seen''\<rparr>"

record stored_media =
  sm_media_id :: string
  sm_storage_url :: string
  sm_object_key :: string
  sm_mime_type :: string
  sm_size_bytes :: int
  sm_phash :: string
  sm_content_sha256 :: string
  sm_width :: "int option"
  sm_height :: "int option"
  sm_metadata :: "(string, string) dict"

datatype review_reason = PossibleDuplicateReason | LowConfidence | BusinessQuality

datatype announcement_status = ActiveAnn | ArchivedAnn | ManualReviewAnn

record announcement =
  an_id :: string
  an_idempotency_key :: string
  an_source_id :: string
  an_source_channel_id :: string
  an_source_message_id :: string
  an_occurred_at :: time
  an_canonical :: canonical_listing
  an_media :: "stored_media list"
  an_source_url :: "string option"
  an_forward_origin_key :: "string option"
  an_source_message_ids :: "string list"
  an_trusted_source_score :: int
  an_parent_id :: "string option"
  an_status :: announcement_status
  an_source_count :: int
  an_latest_source_id :: "string option"
  an_review_reason :: "review_reason option"
  an_created_at :: time
  an_updated_at :: time

definition is_parent :: "announcement \<Rightarrow> bool" where
  "is_parent a \<longleftrightarrow> an_parent_id a = None"

record score_signal =
  ss_name :: string
  ss_weight :: int
  ss_matched :: bool
  ss_reason :: string
  ss_details :: "(string \<times> rat) list"
  ss_independent :: bool
  ss_exact :: bool

record candidate_score =
  cs_candidate_id :: string
  cs_score :: int
  cs_signals :: "score_signal list"

datatype dedup_decision_type = ExactDuplicate | HighConfidence | PossibleDuplicate | NewAnnouncement

record dedup_decision =
  dd_decision :: dedup_decision_type
  dd_score :: int
  dd_threshold :: int
  dd_candidate_id :: "string option"
  dd_config_version :: string
  dd_breakdown :: "score_signal list"

section \<open>Helpers\<close>

definition are_fanout_sibling_announcements :: "announcement \<Rightarrow> announcement \<Rightarrow> bool" where
  "are_fanout_sibling_announcements incoming candidate \<longleftrightarrow>
     an_source_id incoming = an_source_id candidate \<and>
     an_source_channel_id incoming = an_source_channel_id candidate \<and>
     are_fanout_source_message_siblings (an_source_message_id incoming) (an_source_message_id candidate)"

text \<open>The truth value of an optional text and the equality of two optional values that are there.\<close>

definition truthy :: "string option \<Rightarrow> bool" where
  "truthy v \<longleftrightarrow> v \<noteq> None \<and> v \<noteq> Some []"

definition casefold_or_none :: "string option \<Rightarrow> string option" where
  "casefold_or_none v =
     (case v of
        None \<Rightarrow> None
      | Some s \<Rightarrow> if strip s = [] then None else Some (lower (strip s)))"

definition address_tokens :: "string option \<Rightarrow> string set" where
  "address_tokens v =
     (if \<not> truthy v then {}
      else set (words (replace_char CHR ''-'' CHR '' '' (replace_char CHR '','' CHR '' '' (lower (the v))))))"

definition description_tokens :: "string option \<Rightarrow> string set" where
  "description_tokens v =
     (if \<not> truthy v then {}
      else address_tokens (Some (normalize_listing_text v)) - extract_phone_numbers (the v))"

definition prices_are_comparable :: "canonical_listing \<Rightarrow> canonical_listing \<Rightarrow> bool" where
  "prices_are_comparable left right \<longleftrightarrow>
     cl_price_basis left = TotalPrice \<and> cl_price_basis right = TotalPrice \<and>
     cl_price_period left \<noteq> OneTime \<and> cl_price_period right \<noteq> OneTime \<and>
     truthy (cl_currency left) \<and> cl_currency left = cl_currency right \<and>
     cl_price_normalized_monthly left \<noteq> None \<and> cl_price_normalized_monthly right \<noteq> None"

section \<open>Matchers\<close>

definition plain_signal :: "string \<Rightarrow> int \<Rightarrow> bool \<Rightarrow> string \<Rightarrow> string \<Rightarrow> (string \<times> rat) list \<Rightarrow> score_signal" where
  "plain_signal name weight matched yes no details =
     \<lparr>ss_name = name, ss_weight = weight, ss_matched = matched,
      ss_reason = (if matched then yes else no), ss_details = details,
      ss_independent = True, ss_exact = False\<rparr>"

definition source_url_match :: "scoring_config \<Rightarrow> announcement \<Rightarrow> announcement \<Rightarrow> score_signal" where
  "source_url_match cfg incoming candidate =
     (let siblings = are_fanout_sibling_announcements incoming candidate;
          matched = (truthy (an_source_url incoming) \<and>
            an_source_url incoming = an_source_url candidate \<and> \<not> siblings)
      in \<lparr>ss_name = ''source_url'', ss_weight = source_url_weight cfg, ss_matched = matched,
          ss_reason = (if siblings then ''source URL belongs to a distinct digest sibling''
            else if matched then ''source URL matched exactly''
            else ''source URL missing or different''),
          ss_details = [], ss_independent = True, ss_exact = matched\<rparr>)"

definition forward_origin_match :: "scoring_config \<Rightarrow> announcement \<Rightarrow> announcement \<Rightarrow> score_signal" where
  "forward_origin_match cfg incoming candidate =
     (let siblings = are_fanout_sibling_announcements incoming candidate;
          matched = (truthy (an_forward_origin_key incoming) \<and>
            an_forward_origin_key incoming = an_forward_origin_key candidate \<and> \<not> siblings)
      in \<lparr>ss_name = ''forward_origin'', ss_weight = source_url_weight cfg, ss_matched = matched,
          ss_reason = (if siblings then ''forward provenance belongs to a distinct digest sibling''
            else if matched then ''forward provenance matched exactly''
            else ''forward provenance missing or different''),
          ss_details = [], ss_independent = True, ss_exact = matched\<rparr>)"

fun best_distance :: "nat option \<Rightarrow> (string \<times> string) list \<Rightarrow> nat option res" where
  "best_distance best [] = Inr best"
| "best_distance best ((p, q) # ps) =
     (case hamming_distance_hex p q of
        Inl e \<Rightarrow> Inl e
      | Inr d \<Rightarrow> best_distance (if best = None \<or> d < the best then Some d else best) ps)"

definition media_pairs :: "announcement \<Rightarrow> announcement \<Rightarrow> (string \<times> string) list" where
  "media_pairs incoming candidate =
     List.product (map sm_phash (an_media incoming)) (map sm_phash (an_media candidate))"

definition image_phash_match :: "scoring_config \<Rightarrow> announcement \<Rightarrow> announcement \<Rightarrow> score_signal res" where
  "image_phash_match cfg incoming candidate =
     (let siblings = are_fanout_sibling_announcements incoming candidate in
      res_bind (best_distance None (media_pairs incoming candidate)) (\<lambda>best.
        let matched = (best \<noteq> None \<and> the best \<le> cfg_phash_threshold cfg \<and> \<not> siblings) in
        Inr \<lparr>ss_name = ''same_image_phash'', ss_weight = same_image_weight cfg, ss_matched = matched,
             ss_reason = (if siblings then ''image belongs to a distinct digest sibling''
               else if matched then ''image pHash matched'' else ''no close image pHash match''),
             ss_details = (case best of None \<Rightarrow> [] | Some d \<Rightarrow> [(''hamming_distance'', of_nat d)]),
             ss_independent = True, ss_exact = False\<rparr>))"

definition district_match :: "scoring_config \<Rightarrow> announcement \<Rightarrow> announcement \<Rightarrow> score_signal" where
  "district_match cfg incoming candidate =
     (let left = casefold_or_none (cl_district (an_canonical incoming));
          right = casefold_or_none (cl_district (an_canonical candidate))
      in plain_signal ''district'' (district_weight cfg) (left \<noteq> None \<and> left = right)
           ''district matched'' ''district missing or different'' [])"

definition rooms_match :: "scoring_config \<Rightarrow> announcement \<Rightarrow> announcement \<Rightarrow> score_signal" where
  "rooms_match cfg incoming candidate =
     (let left = cl_rooms (an_canonical incoming) in
      plain_signal ''rooms'' (rooms_weight cfg)
        (left \<noteq> None \<and> left = cl_rooms (an_canonical candidate))
        ''room count matched'' ''room count missing or different'' [])"

definition area_match :: "scoring_config \<Rightarrow> announcement \<Rightarrow> announcement \<Rightarrow> score_signal" where
  "area_match cfg incoming candidate =
     (case (cl_area_sqm (an_canonical incoming), cl_area_sqm (an_canonical candidate)) of
        (Some a, Some b) \<Rightarrow>
          plain_signal ''area'' (area_weight cfg) (\<bar>a - b\<bar> < area_tolerance_sqm cfg)
            ''area is within tolerance'' ''area missing or outside tolerance''
            [(''difference_sqm'', \<bar>a - b\<bar>)]
      | _ \<Rightarrow> plain_signal ''area'' (area_weight cfg) False
            ''area is within tolerance'' ''area missing or outside tolerance'' [])"

definition price_difference_ratio :: "rat \<Rightarrow> rat \<Rightarrow> rat" where
  "price_difference_ratio a b =
     (let base = max \<bar>a\<bar> \<bar>b\<bar> in if base = 0 then 0 else \<bar>a - b\<bar> / base)"

definition price_match :: "scoring_config \<Rightarrow> announcement \<Rightarrow> announcement \<Rightarrow> score_signal" where
  "price_match cfg incoming candidate =
     (let left = an_canonical incoming; right = an_canonical candidate in
      if \<not> prices_are_comparable left right
      then plain_signal ''price'' (price_weight cfg) False []
             ''price period, basis, currency, or value is not comparable'' []
      else
        (let ratio = price_difference_ratio (the (cl_price_normalized_monthly left))
               (the (cl_price_normalized_monthly right))
         in plain_signal ''price'' (price_weight cfg) (ratio \<le> price_tolerance_ratio cfg)
              ''monthly normalized total price is within tolerance'' ''price outside tolerance''
              [(''difference_ratio'', ratio)]))"

definition floor_match :: "scoring_config \<Rightarrow> announcement \<Rightarrow> announcement \<Rightarrow> score_signal" where
  "floor_match cfg incoming candidate =
     (let left = cl_floor (an_canonical incoming) in
      plain_signal ''floor'' (floor_weight cfg)
        (left \<noteq> None \<and> left = cl_floor (an_canonical candidate))
        ''floor matched'' ''floor missing or different'' [])"

definition similar_address_match :: "scoring_config \<Rightarrow> announcement \<Rightarrow> announcement \<Rightarrow> score_signal" where
  "similar_address_match cfg incoming candidate =
     (let left = address_tokens (cl_address (an_canonical incoming));
          right = address_tokens (cl_address (an_canonical candidate));
          sim = jaccard_similarity left right
      in plain_signal ''similar_address'' (address_weight cfg)
           (left \<noteq> {} \<and> right \<noteq> {} \<and> address_similarity_threshold cfg \<le> sim)
           ''address text is similar'' ''address missing or not similar''
           [(''similarity'', round4 sim)])"

definition similar_description_match :: "scoring_config \<Rightarrow> announcement \<Rightarrow> announcement \<Rightarrow> score_signal" where
  "similar_description_match cfg incoming candidate =
     (let left = description_tokens (Some (cl_description (an_canonical incoming)));
          right = description_tokens (Some (cl_description (an_canonical candidate)));
          sim = jaccard_similarity left right;
          matched = (left \<noteq> {} \<and> right \<noteq> {} \<and> description_similarity_threshold cfg \<le> sim)
      in \<lparr>ss_name = ''similar_description'', ss_weight = 30, ss_matched = matched,
          ss_reason = (if matched then ''description text is similar''
            else ''description missing or not similar''),
          ss_details = [(''similarity'', round4 sim)], ss_independent = True,
          ss_exact = matched \<and> 95 / 100 \<le> sim\<rparr>)"

definition phone_match :: "scoring_config \<Rightarrow> announcement \<Rightarrow> announcement \<Rightarrow> score_signal" where
  "phone_match cfg incoming candidate =
     (let matched = (set (cl_phone_numbers (an_canonical incoming)) \<inter>
            set (cl_phone_numbers (an_canonical candidate)) \<noteq> {})
      in \<lparr>ss_name = ''phone'', ss_weight = phone_weight cfg, ss_matched = matched,
          ss_reason = (if matched then ''phone matched as weak helper signal''
            else ''phone missing or different''),
          ss_details = [], ss_independent = False, ss_exact = False\<rparr>)"

definition DEFAULT_SIGNAL_MATCHERS ::
  "(scoring_config \<Rightarrow> announcement \<Rightarrow> announcement \<Rightarrow> score_signal res) list" where
  "DEFAULT_SIGNAL_MATCHERS =
     [(\<lambda>c i j. Inr (source_url_match c i j)), (\<lambda>c i j. Inr (forward_origin_match c i j)),
      image_phash_match, (\<lambda>c i j. Inr (district_match c i j)), (\<lambda>c i j. Inr (rooms_match c i j)),
      (\<lambda>c i j. Inr (area_match c i j)), (\<lambda>c i j. Inr (price_match c i j)),
      (\<lambda>c i j. Inr (floor_match c i j)), (\<lambda>c i j. Inr (similar_address_match c i j)),
      (\<lambda>c i j. Inr (similar_description_match c i j)), (\<lambda>c i j. Inr (phone_match c i j))]"

section \<open>Scores and decisions\<close>

definition score_of :: "score_signal list \<Rightarrow> int" where
  "score_of signals = sum_list (map ss_weight (filter ss_matched signals))"

definition score_candidate :: "scoring_config \<Rightarrow> announcement \<Rightarrow> announcement \<Rightarrow> candidate_score res" where
  "score_candidate cfg incoming candidate =
     res_bind (res_all (map (\<lambda>m. m cfg incoming candidate) DEFAULT_SIGNAL_MATCHERS)) (\<lambda>signals.
       Inr \<lparr>cs_candidate_id = an_id candidate, cs_score = score_of signals, cs_signals = signals\<rparr>)"

definition matched_names :: "score_signal list \<Rightarrow> string set" where
  "matched_names signals = set (map ss_name (filter ss_matched signals))"

definition STRUCTURED_IDENTITY_SIGNALS :: "string set" where
  "STRUCTURED_IDENTITY_SIGNALS = {''district'', ''rooms'', ''area'', ''price'', ''floor''}"

definition has_structured_identity :: "string set \<Rightarrow> bool" where
  "has_structured_identity matched \<longleftrightarrow>
     ''phone'' \<in> matched \<and> STRUCTURED_IDENTITY_SIGNALS \<subseteq> matched"

definition has_strong_anchor :: "score_signal list \<Rightarrow> bool" where
  "has_strong_anchor signals \<longleftrightarrow>
     (let matched = matched_names signals in
      matched \<inter> {''source_url'', ''forward_origin'', ''same_image_phash''} \<noteq> {} \<or>
      has_structured_identity matched \<or>
      {''phone'', ''similar_address'', ''similar_description''} \<subseteq> matched)"

definition has_manual_review_anchor :: "score_signal list \<Rightarrow> bool" where
  "has_manual_review_anchor signals \<longleftrightarrow>
     (let matched = matched_names signals in
      if matched \<inter> {''source_url'', ''forward_origin'', ''same_image_phash''} \<noteq> {} then True
      else if has_structured_identity matched then False
      else if {''similar_address'', ''similar_description''} \<subseteq> matched then True
      else {''phone'', ''similar_description''} \<subseteq> matched \<and>
        2 \<le> card (matched \<inter> STRUCTURED_IDENTITY_SIGNALS))"

definition decision_from_score :: "scoring_config \<Rightarrow> candidate_score \<Rightarrow> dedup_decision" where
  "decision_from_score cfg best =
     (let signals = cs_signals best;
          matched = matched_names signals;
          (d, threshold) =
            (if \<exists>s \<in> set signals. ss_matched s \<and> ss_exact s \<and> ss_name s \<in> {''source_url'', ''forward_origin''}
             then (ExactDuplicate, exact_threshold cfg)
             else if has_structured_identity matched
             then (HighConfidence, high_confidence_threshold cfg)
             else if exact_threshold cfg \<le> cs_score best \<and> has_strong_anchor signals
             then (ExactDuplicate, exact_threshold cfg)
             else if high_confidence_threshold cfg \<le> cs_score best \<and> has_strong_anchor signals
             then (HighConfidence, high_confidence_threshold cfg)
             else if possible_threshold cfg \<le> cs_score best \<and> has_manual_review_anchor signals
             then (PossibleDuplicate, possible_threshold cfg)
             else (NewAnnouncement, possible_threshold cfg))
      in \<lparr>dd_decision = d, dd_score = cs_score best, dd_threshold = threshold,
          dd_candidate_id = Some (cs_candidate_id best), dd_config_version = cfg_version cfg,
          dd_breakdown = signals\<rparr>)"

fun best_candidate ::
  "(announcement \<Rightarrow> candidate_score res) \<Rightarrow> candidate_score option \<Rightarrow> announcement list \<Rightarrow>
   candidate_score option res" where
  "best_candidate score best [] = Inr best"
| "best_candidate score best (c # cs) =
     (case score c of
        Inl e \<Rightarrow> Inl e
      | Inr s \<Rightarrow> best_candidate score (if best = None \<or> cs_score (the best) < cs_score s then Some s else best) cs)"

definition evaluate_candidates :: "scoring_config \<Rightarrow> announcement list \<Rightarrow> announcement \<Rightarrow> dedup_decision res" where
  "evaluate_candidates cfg candidates announcement =
     res_bind (best_candidate (score_candidate cfg announcement) None candidates) (\<lambda>best.
       Inr (case best of
              None \<Rightarrow>
                \<lparr>dd_decision = NewAnnouncement, dd_score = 0, dd_threshold = possible_threshold cfg,
                 dd_candidate_id = None, dd_config_version = cfg_version cfg, dd_breakdown = []\<rparr>
            | Some b \<Rightarrow> decision_from_score cfg b))"

section \<open>What the signals mean\<close>

text \<open>The evidence behind a matched signal, read off the announcements themselves.\<close>

definition same_source_url :: "announcement \<Rightarrow> announcement \<Rightarrow> bool" where
  "same_source_url i c \<longleftrightarrow>
     truthy (an_source_url i) \<and> an_source_url i = an_source_url c \<and> \<not> are_fanout_sibling_announcements i c"

definition same_forward_origin :: "announcement \<Rightarrow> announcement \<Rightarrow> bool" where
  "same_forward_origin i c \<longleftrightarrow>
     truthy (an_forward_origin_key i) \<and> an_forward_origin_key i = an_forward_origin_key c \<and>
     \<not> are_fanout_sibling_announcements i c"

definition close_image :: "scoring_config \<Rightarrow> announcement \<Rightarrow> announcement \<Rightarrow> bool" where
  "close_image cfg i c \<longleftrightarrow>
     \<not> are_fanout_sibling_announcements i c \<and>
     (\<exists>m \<in> set (an_media i). \<exists>n \<in> set (an_media c). \<exists>d.
        hamming_distance_hex (sm_phash m) (sm_phash n) = Inr d \<and> d \<le> cfg_phash_threshold cfg)"

definition common_phone :: "announcement \<Rightarrow> announcement \<Rightarrow> bool" where
  "common_phone i c \<longleftrightarrow>
     set (cl_phone_numbers (an_canonical i)) \<inter> set (cl_phone_numbers (an_canonical c)) \<noteq> {}"

definition same_fingerprint :: "scoring_config \<Rightarrow> announcement \<Rightarrow> announcement \<Rightarrow> bool" where
  "same_fingerprint cfg i c \<longleftrightarrow>
     ss_matched (district_match cfg i c) \<and> ss_matched (rooms_match cfg i c) \<and>
     ss_matched (area_match cfg i c) \<and> ss_matched (price_match cfg i c) \<and> ss_matched (floor_match cfg i c)"

definition same_text :: "scoring_config \<Rightarrow> announcement \<Rightarrow> announcement \<Rightarrow> bool" where
  "same_text cfg i c \<longleftrightarrow>
     ss_matched (similar_address_match cfg i c) \<and> ss_matched (similar_description_match cfg i c)"

lemma ss_name_matchers [simp]:
  "ss_name (source_url_match cfg i c) = ''source_url''"
  "ss_name (forward_origin_match cfg i c) = ''forward_origin''"
  "ss_name (district_match cfg i c) = ''district''"
  "ss_name (rooms_match cfg i c) = ''rooms''"
  "ss_name (area_match cfg i c) = ''area''"
  "ss_name (price_match cfg i c) = ''price''"
  "ss_name (floor_match cfg i c) = ''floor''"
  "ss_name (similar_address_match cfg i c) = ''similar_address''"
  "ss_name (similar_description_match cfg i c) = ''similar_description''"
  "ss_name (phone_match cfg i c) = ''phone''"
  by (simp_all add: source_url_match_def forward_origin_match_def district_match_def rooms_match_def
      area_match_def price_match_def floor_match_def similar_address_match_def similar_description_match_def
      phone_match_def plain_signal_def Let_def split: option.split)

lemma ss_matched_evidence [simp]:
  "ss_matched (source_url_match cfg i c) = same_source_url i c"
  "ss_matched (forward_origin_match cfg i c) = same_forward_origin i c"
  "ss_matched (phone_match cfg i c) = common_phone i c"
  by (auto simp: source_url_match_def forward_origin_match_def phone_match_def same_source_url_def
      same_forward_origin_def common_phone_def Let_def)

lemma best_distance_Inr:
  assumes "best_distance b ps = Inr r"
  shows "(\<forall>(p, q) \<in> set ps. \<exists>d. hamming_distance_hex p q = Inr d \<and> r \<noteq> None \<and> the r \<le> d) \<and>
    (\<forall>d. b = Some d \<longrightarrow> r \<noteq> None \<and> the r \<le> d) \<and>
    (r = b \<or> (\<exists>(p, q) \<in> set ps. hamming_distance_hex p q = Inr (the r)))"
  using assms
proof (induction b ps rule: best_distance.induct)
  case (1 best)
  then show ?case by auto
next
  case (2 best p q ps)
  obtain d where d: "hamming_distance_hex p q = Inr d" and
    rest: "best_distance (if best = None \<or> d < the best then Some d else best) ps = Inr r"
    using 2(2) by (auto split: sum.splits)
  note ih = 2(1) [OF d rest]
  show ?case
  proof (cases "best = None \<or> d < the best")
    case True
    then show ?thesis using ih d by (cases best) auto
  next
    case False
    then show ?thesis using ih d by (cases best) auto
  qed
qed

lemma image_phash_match_Inr:
  assumes "image_phash_match cfg i c = Inr img"
  shows "ss_name img = ''same_image_phash'' \<and> ss_matched img = close_image cfg i c \<and>
    ss_exact img = False \<and> ss_weight img = same_image_weight cfg"
proof -
  obtain best where best: "best_distance None (media_pairs i c) = Inr best"
    and img: "img = \<lparr>ss_name = ''same_image_phash'', ss_weight = same_image_weight cfg,
       ss_matched = (best \<noteq> None \<and> the best \<le> cfg_phash_threshold cfg \<and> \<not> are_fanout_sibling_announcements i c),
       ss_reason = ss_reason img, ss_details = ss_details img, ss_independent = True, ss_exact = False\<rparr>"
    using assms by (auto simp: image_phash_match_def Let_def elim!: res_bind_InrE)
  have pairs: "(p, q) \<in> set (media_pairs i c) \<longleftrightarrow>
      (\<exists>m \<in> set (an_media i). \<exists>n \<in> set (an_media c). p = sm_phash m \<and> q = sm_phash n)" for p q
    by (auto simp: media_pairs_def)
  have "(best \<noteq> None \<and> the best \<le> cfg_phash_threshold cfg) =
      (\<exists>m \<in> set (an_media i). \<exists>n \<in> set (an_media c). \<exists>d.
         hamming_distance_hex (sm_phash m) (sm_phash n) = Inr d \<and> d \<le> cfg_phash_threshold cfg)" (is "?l = ?r")
  proof
    assume l: ?l
    then obtain p q where "(p, q) \<in> set (media_pairs i c)" and "hamming_distance_hex p q = Inr (the best)"
      using best_distance_Inr [OF best] by auto
    with l pairs show ?r by metis
  next
    assume ?r
    then obtain m n d where "m \<in> set (an_media i)" "n \<in> set (an_media c)"
      and d: "hamming_distance_hex (sm_phash m) (sm_phash n) = Inr d" "d \<le> cfg_phash_threshold cfg"
      by blast
    then have "(sm_phash m, sm_phash n) \<in> set (media_pairs i c)" using pairs by blast
    then obtain d' where "hamming_distance_hex (sm_phash m) (sm_phash n) = Inr d'"
      and "best \<noteq> None" "the best \<le> d'"
      using best_distance_Inr [OF best] by blast
    with d show ?l by simp
  qed
  then have "ss_matched img = close_image cfg i c"
    by (subst img) (auto simp: close_image_def)
  moreover have "ss_name img = ''same_image_phash''" "ss_exact img = False" "ss_weight img = same_image_weight cfg"
    by (subst img, simp)+
  ultimately show ?thesis by simp
qed

definition candidate_signals ::
  "scoring_config \<Rightarrow> announcement \<Rightarrow> announcement \<Rightarrow> score_signal \<Rightarrow> score_signal list" where
  "candidate_signals cfg i c img =
     [source_url_match cfg i c, forward_origin_match cfg i c, img, district_match cfg i c,
      rooms_match cfg i c, area_match cfg i c, price_match cfg i c, floor_match cfg i c,
      similar_address_match cfg i c, similar_description_match cfg i c, phone_match cfg i c]"

lemma score_candidate_eq:
  "score_candidate cfg i c = res_bind (image_phash_match cfg i c) (\<lambda>img.
     Inr \<lparr>cs_candidate_id = an_id c, cs_score = score_of (candidate_signals cfg i c img),
          cs_signals = candidate_signals cfg i c img\<rparr>)"
  by (cases "image_phash_match cfg i c")
    (simp_all add: score_candidate_def DEFAULT_SIGNAL_MATCHERS_def candidate_signals_def)

lemma score_candidate_InrE:
  assumes "score_candidate cfg i c = Inr s"
  obtains img where "image_phash_match cfg i c = Inr img"
    and "s = \<lparr>cs_candidate_id = an_id c, cs_score = score_of (candidate_signals cfg i c img),
          cs_signals = candidate_signals cfg i c img\<rparr>"
  using assms by (auto simp: score_candidate_eq elim!: res_bind_InrE)

lemma matched_names_Cons [simp]:
  "n \<in> matched_names (s # ss) \<longleftrightarrow> ss_matched s \<and> ss_name s = n \<or> n \<in> matched_names ss"
  "n \<notin> matched_names []"
  by (auto simp: matched_names_def)

lemma matched_names_candidate:
  assumes "image_phash_match cfg i c = Inr img"
  shows "''source_url'' \<in> matched_names (candidate_signals cfg i c img) \<longleftrightarrow> same_source_url i c"
    and "''forward_origin'' \<in> matched_names (candidate_signals cfg i c img) \<longleftrightarrow> same_forward_origin i c"
    and "''same_image_phash'' \<in> matched_names (candidate_signals cfg i c img) \<longleftrightarrow> close_image cfg i c"
    and "''phone'' \<in> matched_names (candidate_signals cfg i c img) \<longleftrightarrow> common_phone i c"
    and "STRUCTURED_IDENTITY_SIGNALS \<subseteq> matched_names (candidate_signals cfg i c img) \<longleftrightarrow> same_fingerprint cfg i c"
    and "''similar_address'' \<in> matched_names (candidate_signals cfg i c img) \<longleftrightarrow>
           ss_matched (similar_address_match cfg i c)"
    and "''similar_description'' \<in> matched_names (candidate_signals cfg i c img) \<longleftrightarrow>
           ss_matched (similar_description_match cfg i c)"
  using image_phash_match_Inr [OF assms]
  by (simp_all add: candidate_signals_def STRUCTURED_IDENTITY_SIGNALS_def same_fingerprint_def)

lemma strong_anchor_candidate:
  assumes "image_phash_match cfg i c = Inr img"
  shows "has_strong_anchor (candidate_signals cfg i c img) \<longleftrightarrow>
    same_source_url i c \<or> same_forward_origin i c \<or> close_image cfg i c \<or>
    common_phone i c \<and> same_fingerprint cfg i c \<or> common_phone i c \<and> same_text cfg i c"
  using matched_names_candidate [OF assms]
  by (auto simp: has_strong_anchor_def has_structured_identity_def same_text_def Let_def)

lemma exact_identity_candidate:
  assumes "image_phash_match cfg i c = Inr img"
  shows "(\<exists>s \<in> set (candidate_signals cfg i c img). ss_matched s \<and> ss_exact s \<and>
      ss_name s \<in> {''source_url'', ''forward_origin''}) \<longleftrightarrow> same_source_url i c \<or> same_forward_origin i c"
  using image_phash_match_Inr [OF assms]
  by (auto simp: candidate_signals_def source_url_match_def forward_origin_match_def Let_def
      same_source_url_def same_forward_origin_def)

section \<open>The choice of the candidate\<close>

lemma best_candidate_append:
  "best_candidate score b (xs @ ys) = res_bind (best_candidate score b xs) (\<lambda>b'. best_candidate score b' ys)"
  by (induction xs arbitrary: b) (auto split: sum.splits)

text \<open>The loop keeps the first candidate of the highest score.\<close>

lemma best_candidate_first_max:
  assumes "best_candidate score None cs = Inr r"
  shows "(case r of
       None \<Rightarrow> cs = []
     | Some s \<Rightarrow> \<exists>i < length cs. score (cs ! i) = Inr s \<and>
         (\<forall>j < length cs. \<exists>t. score (cs ! j) = Inr t \<and> cs_score t \<le> cs_score s \<and>
            (j < i \<longrightarrow> cs_score t < cs_score s)))"
  using assms
proof (induction cs arbitrary: r rule: rev_induct)
  case Nil
  then show ?case by simp
next
  case (snoc c cs)
  obtain b t where b: "best_candidate score None cs = Inr b" and t: "score c = Inr t"
    and r: "r = (if b = None \<or> cs_score (the b) < cs_score t then Some t else b)"
    using snoc.prems by (auto simp: best_candidate_append split: sum.splits elim!: res_bind_InrE)
  note ih = snoc.IH [OF b]
  show ?case
  proof (cases b)
    case None
    with ih have "cs = []" by simp
    with None r t show ?thesis by simp
  next
    case (Some s)
    with ih obtain i where i: "i < length cs" "score (cs ! i) = Inr s"
      and max: "\<And>j. j < length cs \<Longrightarrow> \<exists>t. score (cs ! j) = Inr t \<and> cs_score t \<le> cs_score s \<and>
            (j < i \<longrightarrow> cs_score t < cs_score s)" by auto
    show ?thesis
    proof (cases "cs_score s < cs_score t")
      case True
      have "\<exists>u. score ((cs @ [c]) ! j) = Inr u \<and> cs_score u \<le> cs_score t \<and> (j < length cs \<longrightarrow> cs_score u < cs_score t)"
        if "j < length (cs @ [c])" for j
        using max [of j] that True t by (cases "j < length cs") (force simp: nth_append)+
      moreover have "r = Some t" using True r Some by simp
      moreover have "length cs < length (cs @ [c])" and "score ((cs @ [c]) ! length cs) = Inr t"
        using t by simp_all
      ultimately show ?thesis by fastforce
    next
      case False
      have "\<exists>u. score ((cs @ [c]) ! j) = Inr u \<and> cs_score u \<le> cs_score s \<and> (j < i \<longrightarrow> cs_score u < cs_score s)"
        if "j < length (cs @ [c])" for j
        using max [of j] that False t i by (cases "j < length cs") (force simp: nth_append)+
      moreover have "r = Some s" using False r Some by simp
      moreover have "i < length (cs @ [c])" and "score ((cs @ [c]) ! i) = Inr s"
        using i by (simp_all add: nth_append)
      ultimately show ?thesis by fastforce
    qed
  qed
qed

lemma best_candidate_in:
  assumes "best_candidate score None cs = Inr (Some s)"
  obtains c where "c \<in> set cs" and "score c = Inr s"
  using best_candidate_first_max [OF assms] by (auto dest: nth_mem)

lemma best_candidate_raises:
  assumes "best_candidate (score_candidate cfg a) b cs = Inl e"
  shows "\<exists>c \<in> set cs. \<exists>e'. best_distance None (media_pairs a c) = Inl e'"
  using assms
proof (induction cs arbitrary: b)
  case (Cons c cs)
  show ?case
  proof (cases "score_candidate cfg a c")
    case (Inl e')
    then have "\<exists>e'. best_distance None (media_pairs a c) = Inl e'"
      by (cases "best_distance None (media_pairs a c)") (auto simp: score_candidate_eq image_phash_match_def Let_def)
    then show ?thesis by simp
  next
    case (Inr s)
    with Cons show ?thesis by auto
  qed
qed simp

text \<open>
  C5. The engine raises exactly when a perceptual hash of the announcement or of a candidate cannot
  be read; without candidates the announcement is new; otherwise the decision is about the first
  candidate with the highest score, and carries that score and its signals.
\<close>

theorem evaluate_candidates_picks_best:
  "(case evaluate_candidates cfg cands a of
      Inl e \<Rightarrow> (\<exists>c \<in> set cands. \<exists>e'. best_distance None (media_pairs a c) = Inl e')
    | Inr dec \<Rightarrow>
        if cands = [] then dd_decision dec = NewAnnouncement \<and> dd_candidate_id dec = None
        else \<exists>i < length cands. \<exists>s. score_candidate cfg a (cands ! i) = Inr s \<and>
          dd_candidate_id dec = Some (an_id (cands ! i)) \<and> dd_score dec = score_of (dd_breakdown dec) \<and>
          dd_breakdown dec = cs_signals s \<and> dd_score dec = cs_score s \<and>
          (\<forall>j < length cands. \<exists>t. score_candidate cfg a (cands ! j) = Inr t \<and> cs_score t \<le> dd_score dec \<and>
             (j < i \<longrightarrow> cs_score t < dd_score dec)))"
proof -
  let ?score = "score_candidate cfg a"
  show ?thesis
  proof (cases "best_candidate ?score None cands")
    case (Inl e)
    then show ?thesis using best_candidate_raises by (simp add: evaluate_candidates_def)
  next
    case (Inr r)
    note first = best_candidate_first_max [OF Inr]
    show ?thesis
    proof (cases r)
      case None
      with Inr first show ?thesis by (simp add: evaluate_candidates_def)
    next
      case (Some s)
      with first obtain i where i: "i < length cands" "?score (cands ! i) = Inr s"
        and mx: "\<forall>j < length cands. \<exists>t. ?score (cands ! j) = Inr t \<and> cs_score t \<le> cs_score s \<and>
            (j < i \<longrightarrow> cs_score t < cs_score s)" by auto
      from i(2) have s: "cs_candidate_id s = an_id (cands ! i)" "cs_score s = score_of (cs_signals s)"
        by (auto elim!: score_candidate_InrE)
      from i(1) have ne: "cands \<noteq> []" by auto
      have dec: "evaluate_candidates cfg cands a = Inr (decision_from_score cfg s)"
        using Inr Some by (simp add: evaluate_candidates_def)
      have "dd_candidate_id (decision_from_score cfg s) = Some (an_id (cands ! i))"
        "dd_score (decision_from_score cfg s) = cs_score s"
        "dd_breakdown (decision_from_score cfg s) = cs_signals s"
        using s by (simp_all add: decision_from_score_def Let_def)
      with dec ne i mx s show ?thesis by auto
    qed
  qed
qed

section \<open>No merge without evidence\<close>

definition merge_evidence :: "scoring_config \<Rightarrow> announcement \<Rightarrow> announcement \<Rightarrow> bool" where
  "merge_evidence cfg i c \<longleftrightarrow>
     same_source_url i c \<or> same_forward_origin i c \<or> close_image cfg i c \<or>
     common_phone i c \<and> same_fingerprint cfg i c \<or> common_phone i c \<and> same_text cfg i c"

lemma decision_evidence:
  assumes "score_candidate cfg a c = Inr s"
  shows "dd_decision (decision_from_score cfg s) \<in> {ExactDuplicate, HighConfidence} \<longrightarrow> merge_evidence cfg a c"
    and "same_source_url a c \<or> same_forward_origin a c \<longrightarrow>
      dd_decision (decision_from_score cfg s) = ExactDuplicate"
    and "common_phone a c \<and> same_fingerprint cfg a c \<longrightarrow>
      dd_decision (decision_from_score cfg s) \<in> {ExactDuplicate, HighConfidence}"
    and "dd_decision (decision_from_score cfg s) = PossibleDuplicate \<longrightarrow>
      possible_threshold cfg \<le> cs_score s \<and> \<not> (common_phone a c \<and> same_fingerprint cfg a c) \<and>
      (close_image cfg a c \<or> same_text cfg a c \<or>
       common_phone a c \<and> ss_matched (similar_description_match cfg a c))"
proof -
  obtain img where img: "image_phash_match cfg a c = Inr img"
    and s: "s = \<lparr>cs_candidate_id = an_id c, cs_score = score_of (candidate_signals cfg a c img),
          cs_signals = candidate_signals cfg a c img\<rparr>"
    using assms by (rule score_candidate_InrE)
  have ident: "has_structured_identity (matched_names (candidate_signals cfg a c img)) \<longleftrightarrow>
      common_phone a c \<and> same_fingerprint cfg a c"
    using matched_names_candidate [OF img] by (simp add: has_structured_identity_def)
  have strong: "has_strong_anchor (candidate_signals cfg a c img) = merge_evidence cfg a c"
    using strong_anchor_candidate [OF img] by (simp add: merge_evidence_def)
  have d: "dd_decision (decision_from_score cfg s) =
      (if same_source_url a c \<or> same_forward_origin a c then ExactDuplicate
       else if common_phone a c \<and> same_fingerprint cfg a c then HighConfidence
       else if exact_threshold cfg \<le> cs_score s \<and> merge_evidence cfg a c then ExactDuplicate
       else if high_confidence_threshold cfg \<le> cs_score s \<and> merge_evidence cfg a c then HighConfidence
       else if possible_threshold cfg \<le> cs_score s \<and> has_manual_review_anchor (candidate_signals cfg a c img)
       then PossibleDuplicate else NewAnnouncement)"
    using exact_identity_candidate [OF img]
    by (simp add: decision_from_score_def Let_def s ident strong del: insert_iff)
  show "dd_decision (decision_from_score cfg s) \<in> {ExactDuplicate, HighConfidence} \<longrightarrow> merge_evidence cfg a c"
    unfolding d by (simp add: merge_evidence_def)
  show "same_source_url a c \<or> same_forward_origin a c \<longrightarrow>
      dd_decision (decision_from_score cfg s) = ExactDuplicate"
    unfolding d by simp
  show "common_phone a c \<and> same_fingerprint cfg a c \<longrightarrow>
      dd_decision (decision_from_score cfg s) \<in> {ExactDuplicate, HighConfidence}"
    unfolding d by simp
  have "close_image cfg a c \<or> same_text cfg a c \<or>
       common_phone a c \<and> ss_matched (similar_description_match cfg a c)"
    if "has_manual_review_anchor (candidate_signals cfg a c img)"
      and "\<not> (same_source_url a c \<or> same_forward_origin a c)"
    using that matched_names_candidate [OF img]
    by (simp add: has_manual_review_anchor_def Let_def same_text_def split: if_splits)
  then show "dd_decision (decision_from_score cfg s) = PossibleDuplicate \<longrightarrow>
      possible_threshold cfg \<le> cs_score s \<and> \<not> (common_phone a c \<and> same_fingerprint cfg a c) \<and>
      (close_image cfg a c \<or> same_text cfg a c \<or>
       common_phone a c \<and> ss_matched (similar_description_match cfg a c))"
    unfolding d by (simp split: if_split)
qed

text \<open>
  C6. An announcement is only merged on evidence, whatever the weights and thresholds: the chosen
  candidate shares its source link or forwarded post, or a close image (none of these between siblings
  of one digest post), or a phone number together with the whole fingerprint (district, rooms, area,
  price, floor) or with address and description; a manual review needs the score, no full
  fingerprint, and an image or similar texts.
\<close>

theorem evaluate_candidates_evidence:
  assumes "evaluate_candidates cfg cands a = Inr dec"
  shows "(dd_decision dec \<in> {ExactDuplicate, HighConfidence} \<longrightarrow>
      (\<exists>c \<in> set cands. dd_candidate_id dec = Some (an_id c) \<and> merge_evidence cfg a c)) \<and>
    (dd_decision dec = PossibleDuplicate \<longrightarrow>
      possible_threshold cfg \<le> dd_score dec \<and>
      (\<exists>c \<in> set cands. dd_candidate_id dec = Some (an_id c) \<and>
         \<not> (common_phone a c \<and> same_fingerprint cfg a c) \<and>
         (close_image cfg a c \<or> same_text cfg a c \<or>
          common_phone a c \<and> ss_matched (similar_description_match cfg a c))))"
proof -
  obtain r where r: "best_candidate (score_candidate cfg a) None cands = Inr r"
    using assms by (auto simp: evaluate_candidates_def elim!: res_bind_InrE)
  show ?thesis
  proof (cases r)
    case None
    with r assms show ?thesis by (auto simp: evaluate_candidates_def)
  next
    case (Some s)
    with r obtain c where c: "c \<in> set cands" "score_candidate cfg a c = Inr s"
      by (auto elim!: best_candidate_in)
    have dec: "dec = decision_from_score cfg s"
      using assms r Some by (simp add: evaluate_candidates_def)
    have ids: "dd_candidate_id dec = Some (an_id c)" "dd_score dec = cs_score s"
      using c(2) by (auto simp: dec decision_from_score_def Let_def elim!: score_candidate_InrE)
    show ?thesis
      using c(1) decision_evidence(1,4) [OF c(2)] unfolding dec [symmetric] ids by blast
  qed
qed

section \<open>Symmetry of the score\<close>

lemma fanout_announcements_sym:
  "are_fanout_sibling_announcements a b = are_fanout_sibling_announcements b a"
  by (auto simp: are_fanout_sibling_announcements_def siblings_sym)

lemma hamming_distance_sym: "hamming_distance_hex p q = Inr d \<longleftrightarrow> hamming_distance_hex q p = Inr d"
  by (cases "hex_int p"; cases "hex_int q") (simp_all add: hamming_distance_hex_def hamming_int_def xor.commute)

lemma close_image_sym: "close_image cfg a b = close_image cfg b a"
  unfolding close_image_def fanout_announcements_sym [of a b]
  using hamming_distance_sym by (meson hamming_distance_sym)

lemma best_distance_Inl_iff:
  "(\<exists>r. best_distance b ps = Inr r) \<longleftrightarrow> (\<forall>(p, q) \<in> set ps. \<exists>d. hamming_distance_hex p q = Inr d)"
  by (induction b ps rule: best_distance.induct) (auto split: sum.splits)

lemma image_phash_readable:
  "(\<exists>img. image_phash_match cfg a b = Inr img) \<longleftrightarrow>
   (\<forall>m \<in> set (an_media a). \<forall>n \<in> set (an_media b). \<exists>d. hamming_distance_hex (sm_phash m) (sm_phash n) = Inr d)"
proof -
  have "(\<exists>img. image_phash_match cfg a b = Inr img) \<longleftrightarrow> (\<exists>r. best_distance None (media_pairs a b) = Inr r)"
    by (cases "best_distance None (media_pairs a b)") (simp_all add: image_phash_match_def Let_def)
  then show ?thesis by (auto simp: best_distance_Inl_iff media_pairs_def)
qed

definition gist :: "score_signal \<Rightarrow> string \<times> int \<times> bool" where
  "gist s = (ss_name s, ss_weight s, ss_matched s)"

lemma score_of_gist: "map gist xs = map gist ys \<Longrightarrow> score_of xs = score_of ys"
  by (induction xs ys rule: list_induct2') (auto simp: score_of_def gist_def)

lemma matched_names_gist: "map gist xs = map gist ys \<Longrightarrow> matched_names xs = matched_names ys"
  by (induction xs ys rule: list_induct2') (auto simp: matched_names_def gist_def)

lemma price_difference_sym: "price_difference_ratio a b = price_difference_ratio b a"
  unfolding price_difference_ratio_def abs_minus_commute [of a b] max.commute [of "\<bar>a\<bar>"] by (rule refl)

lemma comparable_sym: "prices_are_comparable a b = prices_are_comparable b a"
  by (auto simp: prices_are_comparable_def)

lemma gist_matched:
  "ss_name s = ss_name t \<Longrightarrow> ss_weight s = ss_weight t \<Longrightarrow> ss_matched s = ss_matched t \<Longrightarrow> gist s = gist t"
  by (simp add: gist_def)

lemma gist_plain:
  "gist (plain_signal n w m y no d) = (n, w, m)"
  by (simp add: gist_def plain_signal_def)

lemma gist_source_url: "gist (source_url_match cfg a b) = gist (source_url_match cfg b a)"
  by (auto simp: gist_def source_url_match_def Let_def fanout_announcements_sym [of a b])

lemma gist_forward: "gist (forward_origin_match cfg a b) = gist (forward_origin_match cfg b a)"
  by (auto simp: gist_def forward_origin_match_def Let_def fanout_announcements_sym [of a b])

lemma gist_district: "gist (district_match cfg a b) = gist (district_match cfg b a)"
  unfolding district_match_def Let_def gist_plain by (simp, metis)

lemma gist_rooms: "gist (rooms_match cfg a b) = gist (rooms_match cfg b a)"
  unfolding rooms_match_def Let_def gist_plain by (simp, metis)

lemma gist_floor: "gist (floor_match cfg a b) = gist (floor_match cfg b a)"
  unfolding floor_match_def Let_def gist_plain by (simp, metis)

lemma gist_area: "gist (area_match cfg a b) = gist (area_match cfg b a)"
  by (auto simp: gist_plain area_match_def abs_minus_commute split: option.split)

lemma gist_price: "gist (price_match cfg a b) = gist (price_match cfg b a)"
  unfolding price_match_def Let_def comparable_sym [of "an_canonical a"]
    price_difference_sym [of "the (cl_price_normalized_monthly (an_canonical a))"]
  by (simp add: gist_plain)

lemma gist_address: "gist (similar_address_match cfg a b) = gist (similar_address_match cfg b a)"
  unfolding similar_address_match_def Let_def
    jaccard_sym [of "address_tokens (cl_address (an_canonical a))"]
  by (auto simp: gist_plain)

lemma gist_description: "gist (similar_description_match cfg a b) = gist (similar_description_match cfg b a)"
  unfolding similar_description_match_def Let_def
    jaccard_sym [of "description_tokens (Some (cl_description (an_canonical a)))"]
  by (auto simp: gist_def)

lemma gist_phone: "gist (phone_match cfg a b) = gist (phone_match cfg b a)"
  by (auto simp: gist_def phone_match_def Let_def)

lemmas gist_sym = gist_source_url gist_forward gist_district gist_rooms gist_floor gist_area gist_price
  gist_address gist_description gist_phone

text \<open>
  Scoring is symmetric: comparing two announcements in either order raises in both or gives the
  same score with the same matched signals, so the outcome does not depend on which one came first.
\<close>

theorem score_candidate_symmetric:
  "(case (score_candidate cfg a b, score_candidate cfg b a) of
      (Inr s, Inr t) \<Rightarrow> cs_score s = cs_score t \<and> matched_names (cs_signals s) = matched_names (cs_signals t)
    | (Inl _, Inl _) \<Rightarrow> True
    | _ \<Rightarrow> False)"
proof (cases "image_phash_match cfg a b")
  case (Inl e)
  then have "\<nexists>img. image_phash_match cfg a b = Inr img" by simp
  then have "\<nexists>img. image_phash_match cfg b a = Inr img"
    unfolding image_phash_readable using hamming_distance_sym by blast
  then obtain e' where "image_phash_match cfg b a = Inl e'" by (cases "image_phash_match cfg b a") auto
  with Inl show ?thesis by (simp add: score_candidate_eq)
next
  case (Inr img)
  then have "\<exists>img. image_phash_match cfg a b = Inr img" by simp
  then obtain img' where img': "image_phash_match cfg b a = Inr img'"
    unfolding image_phash_readable using hamming_distance_sym by (metis image_phash_readable)
  have "gist img = gist img'"
    using image_phash_match_Inr [OF Inr] image_phash_match_Inr [OF img'] close_image_sym [of cfg a b]
    by (simp add: gist_def)
  then have "map gist (candidate_signals cfg a b img) = map gist (candidate_signals cfg b a img')"
    by (simp add: candidate_signals_def gist_sym [of cfg a b])
  then have "score_of (candidate_signals cfg a b img) = score_of (candidate_signals cfg b a img')"
    and "matched_names (candidate_signals cfg a b img) = matched_names (candidate_signals cfg b a img')"
    by (rule score_of_gist, rule matched_names_gist)
  with Inr img' show ?thesis by (simp add: score_candidate_eq)
qed

section \<open>A concrete evaluation\<close>

definition blank_listing :: canonical_listing where
  "blank_listing =
     \<lparr>cl_schema_version = ''estateflow.announcement.v1'', cl_prompt_version = ''v1'', cl_price = None,
      cl_currency = None, cl_price_period = Monthly, cl_price_basis = TotalPrice,
      cl_price_normalized_monthly = None, cl_listing_type = None, cl_rooms = Some 2, cl_area_sqm = None,
      cl_floor = None, cl_total_floors = None, cl_district = None, cl_address = None,
      cl_phone_numbers = [], cl_owner_type = UnknownOwner, cl_renovation_level = None,
      cl_renovation_source = UnknownSource, cl_furniture = None, cl_description = [],
      cl_audience_tags = [], cl_audience_excluded_tags = [], cl_confidence = 1,
      cl_field_confidence = [], cl_assumptions = []\<rparr>"

definition blank_announcement :: "string \<Rightarrow> string \<Rightarrow> announcement" where
  "blank_announcement key url =
     \<lparr>an_id = key, an_idempotency_key = key, an_source_id = ''s'', an_source_channel_id = ''c'',
      an_source_message_id = key, an_occurred_at = 0, an_canonical = blank_listing, an_media = [],
      an_source_url = Some url, an_forward_origin_key = None, an_source_message_ids = [key],
      an_trusted_source_score = 0, an_parent_id = None, an_status = ActiveAnn, an_source_count = 1,
      an_latest_source_id = None, an_review_reason = None, an_created_at = 0, an_updated_at = 0\<rparr>"

lemma blank_score:
  assumes "\<not> are_fanout_source_message_siblings k l"
  shows "\<exists>s. score_candidate cfg (blank_announcement k u) (blank_announcement l v) = Inr s"
    and "same_source_url (blank_announcement k u) (blank_announcement l u) = (u \<noteq> [])"
  using assms
  by (simp_all add: score_candidate_eq image_phash_match_def media_pairs_def blank_announcement_def
      same_source_url_def truthy_def are_fanout_sibling_announcements_def Let_def)

lemma plain_not_sibling [simp]: "\<not> are_fanout_source_message_siblings ''m2'' ''m1''"
  by (simp add: are_fanout_source_message_siblings_def plain_id_no_identity)

lemma evaluate_blank:
  "\<exists>dec. evaluate_candidates cfg [blank_announcement ''m1'' ''u''] (blank_announcement ''m2'' ''u'') = Inr dec \<and>
     dd_decision dec = ExactDuplicate"
proof -
  obtain s where s: "score_candidate cfg (blank_announcement ''m2'' ''u'') (blank_announcement ''m1'' ''u'') = Inr s"
    using blank_score(1) [OF plain_not_sibling] by blast
  then have "dd_decision (decision_from_score cfg s) = ExactDuplicate"
    using decision_evidence(2) [OF s] blank_score(2) [OF plain_not_sibling, of "''u''"] by simp
  with s show ?thesis by (simp add: evaluate_candidates_def)
qed

lemma evaluate_candidates_picks_best_witness:
  "\<exists>dec. evaluate_candidates default_scoring_config [blank_announcement ''m1'' ''u'']
      (blank_announcement ''m2'' ''u'') = Inr dec \<and> dd_candidate_id dec = Some ''m1''"
proof -
  obtain dec where dec: "evaluate_candidates default_scoring_config [blank_announcement ''m1'' ''u'']
      (blank_announcement ''m2'' ''u'') = Inr dec"
    using evaluate_blank by blast
  with evaluate_candidates_picks_best [where cfg = default_scoring_config and cands = "[blank_announcement ''m1'' ''u'']"
      and a = "blank_announcement ''m2'' ''u''"]
  have "dd_candidate_id dec = Some ''m1''" by (auto simp: blank_announcement_def)
  with dec show ?thesis by blast
qed

lemma evaluate_candidates_evidence_witness:
  "\<exists>dec. evaluate_candidates default_scoring_config [blank_announcement ''m1'' ''u'']
      (blank_announcement ''m2'' ''u'') = Inr dec \<and>
     merge_evidence default_scoring_config (blank_announcement ''m2'' ''u'') (blank_announcement ''m1'' ''u'')"
proof -
  obtain dec where dec: "evaluate_candidates default_scoring_config [blank_announcement ''m1'' ''u'']
      (blank_announcement ''m2'' ''u'') = Inr dec" "dd_decision dec = ExactDuplicate"
    using evaluate_blank by blast
  with evaluate_candidates_evidence [OF dec(1)] show ?thesis by auto
qed

end
