(* ===== verification/EF_Merge.thy ===== *)
theory EF_Merge
  imports EF_Scoring
begin

text \<open>
  Merging a duplicate into its parent (\<open>services/post_ai_dedup.py\<close>): the field-wise merge over the
  dumped canonical listings, the completeness measure and the choice of the parent.
\<close>

section \<open>Empty values and completeness\<close>

text \<open>\<open>value is None or value == "" or value == [] or value == {}\<close>\<close>

definition is_empty_val :: "fval \<Rightarrow> bool" where
  "is_empty_val v \<longleftrightarrow> v = FNone \<or> v = FStr [] \<or> v = FStrs [] \<or> v = FMap []"

text \<open>Equality of two values; dictionaries are compared as mappings.\<close>

fun fval_eq :: "fval \<Rightarrow> fval \<Rightarrow> bool" where
  "fval_eq (FMap a) (FMap b) \<longleftrightarrow>
     length a = length b \<and> (\<forall>(k, x) \<in> set a. dict_get b k = Some x)"
| "fval_eq v w \<longleftrightarrow> v = w"

definition canonical_completeness :: "canonical_listing \<Rightarrow> int" where
  "canonical_completeness c = sum_list (map (\<lambda>v. if is_empty_val v then 0 else 1) (dict_values (model_dump c)))"

section \<open>Merging fields\<close>

record conflict =
  cf_field :: string
  cf_parent :: fval
  cf_child :: fval

text \<open>One pass over the parent's fields; the child has the same fields.\<close>

fun merge_fields ::
  "(string \<times> fval) list \<Rightarrow> (string \<times> fval) list \<Rightarrow> ((string \<times> fval) list \<times> conflict list) res" where
  "merge_fields [] child = Inr ([], [])"
| "merge_fields ((n, p) # ps) child =
     (case dict_get child n of
        None \<Rightarrow> Inl (KeyError n)
      | Some c \<Rightarrow>
          res_bind (merge_fields ps child) (\<lambda>(rest, conflicts).
            Inr (if is_empty_val p \<and> \<not> is_empty_val c then ((n, c) # rest, conflicts)
                 else if \<not> is_empty_val p \<and> \<not> is_empty_val c \<and> \<not> fval_eq p c
                 then ((n, p) # rest, \<lparr>cf_field = n, cf_parent = p, cf_child = c\<rparr> # conflicts)
                 else ((n, p) # rest, conflicts))))"

definition merge_parent_fields :: "announcement \<Rightarrow> announcement \<Rightarrow> (announcement \<times> conflict list) res" where
  "merge_parent_fields parent child =
     res_bind (merge_fields (model_dump (an_canonical parent)) (model_dump (an_canonical child)))
       (\<lambda>(data, conflicts).
         res_bind (model_validate data) (\<lambda>c. Inr (parent\<lparr>an_canonical := c\<rparr>, conflicts)))"

section \<open>Choice of the parent\<close>

text \<open>\<open>ParentSelectionPolicy.select_parent\<close>: the stored candidate wins ties.\<close>

definition parent_rank :: "announcement \<times> int \<Rightarrow> int \<times> int \<times> time \<times> int \<times> string" where
  "parent_rank item = (case item of (a, tie) \<Rightarrow>
     (- canonical_completeness (an_canonical a), - an_trusted_source_score a, an_created_at a, tie, an_id a))"

definition select_parent :: "announcement \<Rightarrow> announcement \<Rightarrow> announcement \<times> announcement" where
  "select_parent incoming candidate =
     (let ranked = py_sort parent_rank [(candidate, 0), (incoming, 1)]
      in (fst (ranked ! 0), fst (ranked ! 1)))"

definition parent_selection_policy_from_config :: "scoring_config \<Rightarrow> string res" where
  "parent_selection_policy_from_config cfg =
     (if parent_selection_policy cfg = ''completeness_trust_first_seen''
      then Inr ''completeness_trust_first_seen''
      else Inl (ValueError (''Unknown parent selection policy: '' @ parent_selection_policy cfg)))"

section \<open>The merge as a record\<close>

text \<open>What the merge computes, stated on the fields themselves.\<close>

definition fill_opt :: "'a option \<Rightarrow> 'a option \<Rightarrow> 'a option" where
  "fill_opt p c = (case p of None \<Rightarrow> c | Some x \<Rightarrow> Some x)"

definition fill_text :: "string option \<Rightarrow> string option \<Rightarrow> string option" where
  "fill_text p c = (if \<not> truthy p \<and> truthy c then c else p)"

definition fill_list :: "'a list \<Rightarrow> 'a list \<Rightarrow> 'a list" where
  "fill_list p c = (if p = [] then c else p)"

definition merged_listing :: "canonical_listing \<Rightarrow> canonical_listing \<Rightarrow> canonical_listing" where
  "merged_listing p c =
     p\<lparr>cl_schema_version := fill_list (cl_schema_version p) (cl_schema_version c),
       cl_prompt_version := fill_list (cl_prompt_version p) (cl_prompt_version c),
       cl_price := fill_opt (cl_price p) (cl_price c),
       cl_currency := fill_text (cl_currency p) (cl_currency c),
       cl_price_normalized_monthly := fill_opt (cl_price_normalized_monthly p) (cl_price_normalized_monthly c),
       cl_listing_type := fill_opt (cl_listing_type p) (cl_listing_type c),
       cl_rooms := fill_opt (cl_rooms p) (cl_rooms c),
       cl_area_sqm := fill_opt (cl_area_sqm p) (cl_area_sqm c),
       cl_floor := fill_opt (cl_floor p) (cl_floor c),
       cl_total_floors := fill_opt (cl_total_floors p) (cl_total_floors c),
       cl_district := fill_text (cl_district p) (cl_district c),
       cl_address := fill_text (cl_address p) (cl_address c),
       cl_phone_numbers := fill_list (cl_phone_numbers p) (cl_phone_numbers c),
       cl_renovation_level := fill_opt (cl_renovation_level p) (cl_renovation_level c),
       cl_furniture := fill_opt (cl_furniture p) (cl_furniture c),
       cl_description := fill_list (cl_description p) (cl_description c),
       cl_audience_tags := fill_list (cl_audience_tags p) (cl_audience_tags c),
       cl_audience_excluded_tags := fill_list (cl_audience_excluded_tags p) (cl_audience_excluded_tags c),
       cl_field_confidence := fill_list (cl_field_confidence p) (cl_field_confidence c),
       cl_assumptions := fill_list (cl_assumptions p) (cl_assumptions c)\<rparr>"

definition fill_val :: "fval \<Rightarrow> fval \<Rightarrow> fval" where
  "fill_val p c = (if is_empty_val p \<and> \<not> is_empty_val c then c else p)"

definition conflicting :: "fval \<Rightarrow> fval \<Rightarrow> bool" where
  "conflicting p c \<longleftrightarrow> \<not> is_empty_val p \<and> \<not> is_empty_val c \<and> \<not> fval_eq p c"

lemma merge_fields_zip:
  assumes "dict_keys ps = dict_keys cs" and "distinct (dict_keys cs)"
  shows "merge_fields ps cs = Inr
    (map (\<lambda>((n, p), (m, c)). (n, fill_val p c)) (zip ps cs),
     map (\<lambda>((n, p), (m, c)). \<lparr>cf_field = n, cf_parent = p, cf_child = c\<rparr>)
       (filter (\<lambda>((n, p), (m, c)). conflicting p c) (zip ps cs)))"
proof -
  have "merge_fields ps child = Inr
    (map (\<lambda>((n, p), (m, c)). (n, fill_val p c)) (zip ps cs),
     map (\<lambda>((n, p), (m, c)). \<lparr>cf_field = n, cf_parent = p, cf_child = c\<rparr>)
       (filter (\<lambda>((n, p), (m, c)). conflicting p c) (zip ps cs)))"
    if "dict_keys ps = dict_keys cs" and "\<forall>(n, c) \<in> set cs. dict_get child n = Some c" for child
    using that
  proof (induction ps arbitrary: cs)
    case Nil
    then show ?case by simp
  next
    case (Cons np ps)
    obtain n p where np: "np = (n, p)" by fastforce
    with Cons.prems obtain c cs' where cs: "cs = (n, c) # cs'" by (cases cs) auto
    have "dict_keys ps = dict_keys cs'" and "\<forall>(n, c) \<in> set cs'. dict_get child n = Some c"
      and "dict_get child n = Some c"
      using Cons.prems cs np by auto
    then show ?case
      using Cons.IH [of cs'] by (simp add: np cs fill_val_def conflicting_def)
  qed
  moreover have "\<forall>(n, c) \<in> set cs. dict_get cs n = Some c"
    using assms(2) by auto
  ultimately show ?thesis using assms(1) by blast
qed

lemma is_empty_val_simps [simp]:
  "is_empty_val (FStr s) = (s = [])" "is_empty_val (FStrs t) = (t = [])" "is_empty_val (FMap m) = (m = [])"
  "\<not> is_empty_val (FDec r)" "\<not> is_empty_val (FInt i)" "\<not> is_empty_val (FBool b)" "\<not> is_empty_val (FFloat r)"
  "is_empty_val FNone"
  by (simp_all add: is_empty_val_def)

lemma texts_not_empty [simp]:
  "period_text p \<noteq> []" "basis_text b \<noteq> []" "owner_text ow \<noteq> []" "source_text_of so \<noteq> []"
  "kind_text k \<noteq> []" "level_text l \<noteq> []"
  by (simp_all add: period_text_def basis_text_def owner_text_def source_text_of_def kind_text_def
      level_text_def split: price_period.split price_basis.split owner_type.split
      renovation_source.split listing_kind.split renovation_level.split)

lemma fill_val_simps [simp]:
  "fill_val (FStr s) (FStr t) = FStr (fill_list s t)"
  "fill_val (FStrs u) (FStrs v) = FStrs (fill_list u v)"
  "fill_val (FMap m) (FMap n) = FMap (fill_list m n)"
  "fill_val (FFloat r) (FFloat q) = FFloat r"
  by (auto simp: fill_val_def fill_list_def)

lemma fill_val_text [simp]:
  "fill_val (FStr (period_text p)) v = FStr (period_text p)"
  "fill_val (FStr (basis_text b)) v = FStr (basis_text b)"
  "fill_val (FStr (owner_text ow)) v = FStr (owner_text ow)"
  "fill_val (FStr (source_text_of so)) v = FStr (source_text_of so)"
  by (simp_all add: fill_val_def)

lemma fill_val_opt:
  assumes "\<And>x. \<not> is_empty_val (f x)"
  shows "fill_val (f_opt f a) (f_opt f b) = f_opt f (fill_opt a b)"
  using assms by (cases a; cases b) (simp_all add: fill_val_def f_opt_def fill_opt_def)

lemma fill_val_opt_text:
  "fill_val (f_opt FStr a) (f_opt FStr b) = f_opt FStr (fill_text a b)"
  by (cases a; cases b) (auto simp: fill_val_def f_opt_def fill_text_def truthy_def)

lemma fill_list_text [simp]:
  "fill_list (period_text p) v = period_text p"
  "fill_list (basis_text b) v = basis_text b"
  "fill_list (owner_text ow) v = owner_text ow"
  "fill_list (source_text_of so) v = source_text_of so"
  by (simp_all add: fill_list_def)

lemma merged_dump:
  "map (\<lambda>((n, p), (m, c)). (n, fill_val p c)) (zip (model_dump p) (model_dump c)) = model_dump (merged_listing p c)"
  by (simp add: model_dump_def merged_listing_def fill_val_opt fill_val_opt_text)

definition merge_conflicts :: "canonical_listing \<Rightarrow> canonical_listing \<Rightarrow> conflict list" where
  "merge_conflicts p c =
     map (\<lambda>((n, v), (m, w)). \<lparr>cf_field = n, cf_parent = v, cf_child = w\<rparr>)
       (filter (\<lambda>((n, v), (m, w)). conflicting v w) (zip (model_dump p) (model_dump c)))"

lemma merge_parent_fields_eq:
  "merge_parent_fields parent child =
     Inr (parent\<lparr>an_canonical := merged_listing (an_canonical parent) (an_canonical child)\<rparr>,
          merge_conflicts (an_canonical parent) (an_canonical child))"
proof -
  have "merge_fields (model_dump (an_canonical parent)) (model_dump (an_canonical child)) =
      Inr (model_dump (merged_listing (an_canonical parent) (an_canonical child)),
           merge_conflicts (an_canonical parent) (an_canonical child))"
    using merge_fields_zip [of "model_dump (an_canonical parent)" "model_dump (an_canonical child)"]
      distinct_canonical_fields
    by (simp only: dict_keys_model_dump merged_dump merge_conflicts_def)
  then show ?thesis by (simp add: merge_parent_fields_def)
qed

section \<open>Correctness of the merge\<close>

lemma map_of_zip_fields:
  assumes "dict_keys ps = dict_keys cs"
  shows "dict_get (map (\<lambda>((n, p), (m, c)). (n, f p c)) (zip ps cs)) n =
    (case (dict_get ps n, dict_get cs n) of (Some p, Some c) \<Rightarrow> Some (f p c) | _ \<Rightarrow> None)"
  using assms
proof (induction ps arbitrary: cs)
  case Nil
  then show ?case by simp
next
  case (Cons np ps)
  then show ?case by (cases cs; cases np) (auto split: option.splits)
qed

lemma merged_field:
  "dict_get (model_dump (merged_listing p c)) n =
     (case (dict_get (model_dump p) n, dict_get (model_dump c) n) of
        (Some v, Some w) \<Rightarrow> Some (fill_val v w) | _ \<Rightarrow> None)"
  unfolding merged_dump [symmetric] by (rule map_of_zip_fields) (simp add: dict_keys_model_dump)

lemma in_zip_fields:
  assumes "dict_keys ps = dict_keys cs" and "distinct (dict_keys cs)"
  shows "((n, v), (m, w)) \<in> set (zip ps cs) \<longleftrightarrow> n = m \<and> dict_get ps n = Some v \<and> dict_get cs n = Some w"
  using assms
proof (induction ps arbitrary: cs)
  case Nil
  then show ?case by simp
next
  case (Cons np ps)
  obtain k x where np: "np = (k, x)" by fastforce
  with Cons.prems obtain y cs' where cs: "cs = (k, y) # cs'" by (cases cs) auto
  have "((n, v), (m, w)) \<in> set (zip ps cs') \<longleftrightarrow> n = m \<and> dict_get ps n = Some v \<and> dict_get cs' n = Some w"
    using Cons.prems cs np by (intro Cons.IH) auto
  moreover have "k \<notin> set (dict_keys cs')" "dict_keys ps = dict_keys cs'"
    using Cons.prems cs np by auto
  then have "dict_get ps k = None" "dict_get cs' k = None"
    by (metis map_of_eq_None_iff list.set_map)+
  ultimately show ?case by (auto simp: np cs)
qed

lemma zip_filter_set:
  assumes "dict_keys ps = dict_keys cs" and "distinct (dict_keys cs)"
  shows "set (map (\<lambda>((n, v), (m, w)). g n v w) (filter (\<lambda>((n, v), (m, w)). P v w) (zip ps cs))) =
    {g n v w |n v w. dict_get ps n = Some v \<and> dict_get cs n = Some w \<and> P v w}" (is "?l = ?r")
proof (intro equalityI subsetI)
  fix x
  assume "x \<in> ?l"
  then obtain n v m w where "((n, v), (m, w)) \<in> set (zip ps cs)" "P v w" "x = g n v w" by auto
  then show "x \<in> ?r" unfolding in_zip_fields [OF assms] by blast
next
  fix x
  assume "x \<in> ?r"
  then obtain n v w where "((n, v), (n, w)) \<in> set (zip ps cs)" "P v w" "x = g n v w"
    unfolding in_zip_fields [OF assms] by blast
  then have "((n, v), (n, w)) \<in> set (filter (\<lambda>((n, v), (m, w)). P v w) (zip ps cs))" by simp
  with \<open>x = g n v w\<close> show "x \<in> ?l" by (force simp del: filter_set)
qed

lemma completeness_zip:
  "length ps = length cs \<Longrightarrow>
   sum_list (map (\<lambda>v. if is_empty_val v then 0 else 1) (map (\<lambda>(v, w). fill_val v w) (zip ps cs))) \<ge>
     (max (sum_list (map (\<lambda>v. if is_empty_val v then 0 else 1) ps))
       (sum_list (map (\<lambda>v. if is_empty_val v then 0 else 1) cs)) :: int)"
proof (induction ps cs rule: list_induct2)
  case Nil
  then show ?case by simp
next
  case (Cons v vs w ws)
  have "(if is_empty_val (fill_val v w) then 0 else 1 :: int) \<ge> (if is_empty_val v then 0 else 1)"
    and "(if is_empty_val (fill_val v w) then 0 else 1 :: int) \<ge> (if is_empty_val w then 0 else 1)"
    by (auto simp: fill_val_def)
  with Cons.IH show ?case by simp
qed

lemma zip_values:
  "dict_values (map (\<lambda>((n, p), (m, c)). (n, f p c)) (zip ps cs)) =
     map (\<lambda>(v, w). f v w) (zip (dict_values ps) (dict_values cs))"
  by (induction ps cs rule: list_induct2') auto

lemma completeness_merged:
  "canonical_completeness (merged_listing p c) \<ge> max (canonical_completeness p) (canonical_completeness c)"
proof -
  have "length (dict_values (model_dump p)) = length (dict_values (model_dump c))"
    by (simp add: model_dump_def)
  then show ?thesis
    unfolding canonical_completeness_def merged_dump [symmetric] zip_values by (rule completeness_zip)
qed

lemma fill_val_absorb [simp]: "fill_val (fill_val v w) w = fill_val v w"
  by (simp add: fill_val_def)

lemma merged_again: "merged_listing (merged_listing p c) c = merged_listing p c"
  by (simp add: merged_listing_def fill_list_def fill_text_def fill_opt_def split: option.split)

text \<open>
  C7. Merging a duplicate into its parent never fails: the parent keeps every field it has, fills a
  blank one from the duplicate, and nothing else of it changes; the recorded conflicts are exactly
  the fields both have with different values; the merged listing is at least as complete as each of
  the two, and merging the same duplicate again changes nothing.
\<close>

theorem merge_parent_fields_correct:
  "\<exists>m conflicts. merge_parent_fields parent child = Inr (m, conflicts) \<and>
     (let p = model_dump (an_canonical parent); c = model_dump (an_canonical child) in
      m = parent\<lparr>an_canonical := an_canonical m\<rparr> \<and>
      (\<forall>n. dict_get (model_dump (an_canonical m)) n =
         (case (dict_get p n, dict_get c n) of
            (Some v, Some w) \<Rightarrow> Some (if is_empty_val v \<and> \<not> is_empty_val w then w else v) | _ \<Rightarrow> None)) \<and>
      set conflicts = {\<lparr>cf_field = n, cf_parent = v, cf_child = w\<rparr> |n v w.
         dict_get p n = Some v \<and> dict_get c n = Some w \<and> \<not> is_empty_val v \<and> \<not> is_empty_val w \<and> \<not> fval_eq v w} \<and>
      canonical_completeness (an_canonical m) \<ge> canonical_completeness (an_canonical parent) \<and>
      canonical_completeness (an_canonical m) \<ge> canonical_completeness (an_canonical child) \<and>
      (\<exists>conflicts'. merge_parent_fields m child = Inr (m, conflicts')))"
proof -
  let ?p = "an_canonical parent" and ?c = "an_canonical child"
  define m where "m = parent\<lparr>an_canonical := merged_listing ?p ?c\<rparr>"
  have mc: "an_canonical m = merged_listing ?p ?c" by (simp add: m_def)
  have run: "merge_parent_fields parent child = Inr (m, merge_conflicts ?p ?c)"
    by (simp add: merge_parent_fields_eq m_def)
  have same: "m = parent\<lparr>an_canonical := an_canonical m\<rparr>" by (simp add: m_def)
  have fields: "\<forall>n. dict_get (model_dump (an_canonical m)) n =
      (case (dict_get (model_dump ?p) n, dict_get (model_dump ?c) n) of
         (Some v, Some w) \<Rightarrow> Some (if is_empty_val v \<and> \<not> is_empty_val w then w else v) | _ \<Rightarrow> None)"
    unfolding mc merged_field fill_val_def by (intro allI refl)
  have "dict_keys (model_dump ?p) = dict_keys (model_dump ?c)" "distinct (dict_keys (model_dump ?c))"
    using distinct_canonical_fields by (simp_all add: dict_keys_model_dump)
  note conf = zip_filter_set [OF this, where P = conflicting and
      g = "\<lambda>n v w. \<lparr>cf_field = n, cf_parent = v, cf_child = w\<rparr>", folded merge_conflicts_def,
      unfolded conflicting_def]
  have conf: "set (merge_conflicts ?p ?c) = {\<lparr>cf_field = n, cf_parent = v, cf_child = w\<rparr> |n v w.
         dict_get (model_dump ?p) n = Some v \<and> dict_get (model_dump ?c) n = Some w \<and>
         \<not> is_empty_val v \<and> \<not> is_empty_val w \<and> \<not> fval_eq v w}"
    by (rule conf)
  have more: "canonical_completeness (an_canonical m) \<ge> canonical_completeness ?p"
    "canonical_completeness (an_canonical m) \<ge> canonical_completeness ?c"
    using completeness_merged [of ?p ?c] unfolding mc by simp_all
  have again: "\<exists>conflicts'. merge_parent_fields m child = Inr (m, conflicts')"
    by (simp add: merge_parent_fields_eq merged_again m_def)
  show ?thesis
    unfolding Let_def
    by (rule exI [of _ m], rule exI [of _ "merge_conflicts ?p ?c"], intro conjI)
      (fact run same fields conf more again)+
qed

section \<open>The parent policy\<close>

lemma sort_key_two: "sort_key f [a, b] = (if f a \<le> f b then [a, b] else [b, a])"
  by (simp add: sort_key_def)

text \<open>
  The parent of two duplicates is the more complete one, then the more trusted, then the older;
  the stored candidate stays the parent in a draw.
\<close>

theorem select_parent_choice:
  "select_parent incoming candidate =
     (let ci = canonical_completeness (an_canonical incoming);
          cc = canonical_completeness (an_canonical candidate);
          ti = an_trusted_source_score incoming; tc = an_trusted_source_score candidate
      in if cc < ci \<or> cc = ci \<and> (tc < ti \<or> tc = ti \<and> an_created_at incoming < an_created_at candidate)
         then (incoming, candidate) else (candidate, incoming))"
  by (auto simp: select_parent_def py_sort_def sort_key_two parent_rank_def Let_def less_prod_def less_eq_prod_def)

end
