(* ===== verification/EF_Once.thy ===== *)
theory EF_Once
  imports EF_Prelude
begin

text \<open>
  The contract the stores with idempotency keys share: an operation that stores a value under its key
  unless the key is taken, and then returns what is stored. Audit events, parent announcements,
  review items, queued notifications and sessions are kept this way; each theory interprets the
  contract on its own operation.
\<close>

locale insert_once =
  fixes look :: "'s \<Rightarrow> 'k \<Rightarrow> 'v option"
    and ensure :: "'v \<Rightarrow> 's \<Rightarrow> 'v \<times> 's"
    and key :: "'v \<Rightarrow> 'k"
  assumes taken: "look s (key v) = Some w \<Longrightarrow> ensure v s = (w, s)"
    and fresh: "look s (key v) = None \<Longrightarrow>
      look (snd (ensure v s)) k = (if k = key v then Some (fst (ensure v s)) else look s k)"
begin

lemma stored: "look (snd (ensure v s)) (key v) = Some (fst (ensure v s))"
  using taken [of s v] fresh [of s v] by (cases "look s (key v)") auto

lemma keeps: "look s k = Some w \<Longrightarrow> look (snd (ensure v s)) k = Some w"
  using taken [of s v] fresh [of s v k] by (cases "look s (key v)") auto

lemma others: "k \<noteq> key v \<Longrightarrow> look (snd (ensure v s)) k = look s k"
  using taken [of s v] fresh [of s v k] by (cases "look s (key v)") auto

lemma first_wins:
  assumes "key u = key v"
  shows "ensure u (snd (ensure v s)) = (fst (ensure v s), snd (ensure v s))"
  using taken [of "snd (ensure v s)" u] stored [of v s] assms by simp

lemma replay: "ensure v (snd (ensure v s)) = ensure v s"
  using first_wins [of v v s] by simp

text \<open>Stores run in any order keep every entry that was there before them.\<close>

lemma keeps_all: "look s k = Some w \<Longrightarrow> look (fold (\<lambda>v s. snd (ensure v s)) vs s) k = Some w"
  by (induction vs arbitrary: s) (auto simp: keeps)

lemma stored_all:
  "v \<in> set vs \<Longrightarrow> look (fold (\<lambda>v s. snd (ensure v s)) vs s) (key v) \<noteq> None"
proof (induction vs arbitrary: s)
  case (Cons u vs)
  show ?case
  proof (cases "v = u")
    case True
    then show ?thesis using keeps_all [OF stored [of u s], of vs] by simp
  next
    case False
    with Cons show ?thesis by simp
  qed
qed simp

end

end
