(* ===== verification/EF_PostAi.thy ===== *)
theory EF_PostAi
  imports EF_Merge EF_Once
begin

text \<open>
  Post-AI deduplication (\<open>services/post_ai_dedup.py\<close>): the in-memory announcement repository, the
  manual review queue and its administration, and the processor that ties them together. One record
  holds their state; an operation may raise and keeps what it wrote before. The clock is an argument,
  and so is whether the event queue accepts a message.
\<close>

section \<open>State\<close>

record merge_entry =
  me_parent_id :: string
  me_child_id :: "string option"
  me_decision :: string
  me_score :: int
  me_config_version :: string
  me_merge_policy :: string
  me_conflicts :: "conflict list"
  me_reason :: "string option"

datatype review_status = PendingReview | ApprovedReview | RejectedReview | MergedReview

record review_item =
  ri_review_id :: string
  ri_announcement_id :: string
  ri_reason :: review_reason
  ri_score_breakdown :: "score_signal list"
  ri_related_candidate_id :: "string option"
  ri_status :: review_status
  ri_created_at :: time
  ri_decided_at :: "time option"

datatype review_action = EnqueueReview | ApproveMerge | ApproveAsNew | ApproveCanonicalUpdate | RejectReview

record review_entry =
  re_action :: review_action
  re_review_id :: string
  re_admin_user_id :: "int option"
  re_idempotency_key :: "string option"
  re_note :: "string option"
  re_decided_at :: "time option"
  re_status :: review_status
  re_subject :: "string option"

record persisted_event =
  pe_idempotency_key :: string
  pe_source_id :: string
  pe_source_channel_id :: string
  pe_source_message_id :: string
  pe_occurred_at :: time
  pe_canonical :: canonical_listing
  pe_media :: "stored_media list"

record post_ai =
  announcements :: "(string, announcement) dict"
  merge_audit :: "merge_entry list"
  decision_audit :: "dedup_decision list"
  review_items :: "(string, review_item) dict"
  review_log :: "review_entry list"
  action_audit :: "(string, review_entry) dict"
  dedup_metrics :: "(string \<times> dedup_decision) list"
  persisted_events :: "persisted_event list"

section \<open>The announcement repository\<close>

fun any_close :: "nat \<Rightarrow> (string \<times> string) list \<Rightarrow> bool res" where
  "any_close threshold [] = Inr False"
| "any_close threshold ((p, q) # ps) =
     (case hamming_distance_hex p q of
        Inl e \<Rightarrow> Inl e
      | Inr d \<Rightarrow> if d \<le> threshold then Inr True else any_close threshold ps)"

definition cheap_candidate_match :: "scoring_config \<Rightarrow> announcement \<Rightarrow> announcement \<Rightarrow> bool res" where
  "cheap_candidate_match cfg incoming candidate =
     (let siblings = are_fanout_sibling_announcements incoming candidate;
          i = an_canonical incoming; c = an_canonical candidate
      in if truthy (an_source_url incoming) \<and> an_source_url incoming = an_source_url candidate \<and> \<not> siblings
         then Inr True
         else if truthy (an_forward_origin_key incoming) \<and>
           an_forward_origin_key incoming = an_forward_origin_key candidate \<and> \<not> siblings
         then Inr True
         else if set (cl_phone_numbers i) \<inter> set (cl_phone_numbers c) \<noteq> {} then Inr True
         else if truthy (cl_district i) \<and> cl_district i = cl_district c then Inr True
         else if cl_rooms i \<noteq> None \<and> cl_rooms i = cl_rooms c then Inr True
         else if siblings then Inr False
         else any_close (cfg_phash_threshold cfg) (media_pairs incoming candidate))"

fun filter_candidates :: "scoring_config \<Rightarrow> announcement \<Rightarrow> announcement list \<Rightarrow> announcement list res" where
  "filter_candidates cfg incoming [] = Inr []"
| "filter_candidates cfg incoming (a # as) =
     (if an_id a \<noteq> an_id incoming \<and> an_status a = ActiveAnn \<and> is_parent a
      then (case cheap_candidate_match cfg incoming a of
              Inl e \<Rightarrow> Inl e
            | Inr b \<Rightarrow> res_bind (filter_candidates cfg incoming as) (\<lambda>rest.
                Inr (if b then a # rest else rest)))
      else filter_candidates cfg incoming as)"

definition list_candidates :: "scoring_config \<Rightarrow> announcement \<Rightarrow> nat \<Rightarrow> post_ai \<Rightarrow> announcement list res" where
  "list_candidates cfg incoming limit s =
     res_bind (filter_candidates cfg incoming (dict_values (announcements s))) (\<lambda>cands.
       Inr (take limit (py_sort_desc an_created_at cands)))"

definition save_parent :: "announcement \<Rightarrow> post_ai \<Rightarrow> announcement \<times> post_ai" where
  "save_parent a s =
     (case dict_get (announcements s) (an_id a) of
        Some existing \<Rightarrow> (existing, s)
      | None \<Rightarrow>
          (let parent = a\<lparr>an_parent_id := None, an_latest_source_id := Some (an_source_id a)\<rparr>
           in (parent, s\<lparr>announcements := dict_put (an_id parent) parent (announcements s)\<rparr>)))"

definition activate_announcement :: "time \<Rightarrow> string \<Rightarrow> post_ai \<Rightarrow> announcement res \<times> post_ai" where
  "activate_announcement now k s =
     (case dict_get (announcements s) k of
        None \<Rightarrow> (Inl (KeyError k), s)
      | Some a \<Rightarrow>
          (let u = a\<lparr>an_status := ActiveAnn, an_updated_at := now\<rparr>
           in (Inr u, s\<lparr>announcements := dict_put k u (announcements s)\<rparr>)))"

definition decision_name :: "dedup_decision_type \<Rightarrow> string" where
  "decision_name d =
     (case d of ExactDuplicate \<Rightarrow> ''exact_duplicate'' | HighConfidence \<Rightarrow> ''high_confidence_duplicate''
      | PossibleDuplicate \<Rightarrow> ''possible_duplicate'' | NewAnnouncement \<Rightarrow> ''new'')"

definition link_child ::
  "time \<Rightarrow> announcement \<Rightarrow> string \<Rightarrow> dedup_decision \<Rightarrow> string \<Rightarrow> post_ai \<Rightarrow> announcement res \<times> post_ai" where
  "link_child now child pid decision policy s =
     (case dict_get (announcements s) pid of
        None \<Rightarrow> (Inl (KeyError pid), s)
      | Some parent \<Rightarrow>
          (case Option.bind (dict_get (announcements s) (an_id child))
                  (\<lambda>old. if an_parent_id old = Some pid then Some old else None) of
             Some old \<Rightarrow> (Inr old, s)
           | None \<Rightarrow>
               (case merge_parent_fields parent child of
                  Inl e \<Rightarrow> (Inl e, s)
                | Inr (merged, conflicts) \<Rightarrow>
                    (let updated = merged\<lparr>an_source_count := an_source_count parent + 1,
                           an_latest_source_id := Some (an_source_id child), an_updated_at := now\<rparr>;
                         linked = child\<lparr>an_parent_id := Some (an_id updated), an_status := ActiveAnn,
                           an_updated_at := now\<rparr>
                     in (Inr linked,
                         s\<lparr>announcements := dict_put (an_id linked) linked
                              (dict_put (an_id updated) updated (announcements s)),
                           merge_audit := merge_audit s @
                             [\<lparr>me_parent_id = an_id updated, me_child_id = Some (an_id linked),
                               me_decision = decision_name (dd_decision decision),
                               me_score = dd_score decision, me_config_version = dd_config_version decision,
                               me_merge_policy = policy, me_conflicts = conflicts, me_reason = None\<rparr>]\<rparr>)))))"

definition record_dedup_decision :: "dedup_decision \<Rightarrow> post_ai \<Rightarrow> post_ai" where
  "record_dedup_decision d s = s\<lparr>decision_audit := decision_audit s @ [d]\<rparr>"

definition update_canonical ::
  "time \<Rightarrow> string \<Rightarrow> canonical_listing \<Rightarrow> string \<Rightarrow> post_ai \<Rightarrow> announcement res \<times> post_ai" where
  "update_canonical now k c reason s =
     (case dict_get (announcements s) k of
        None \<Rightarrow> (Inl (KeyError k), s)
      | Some a \<Rightarrow>
          (let u = a\<lparr>an_canonical := c, an_updated_at := now\<rparr>
           in (Inr u, s\<lparr>announcements := dict_put k u (announcements s),
                merge_audit := merge_audit s @
                  [\<lparr>me_parent_id = k, me_child_id = None, me_decision = ''manual_canonical_update'',
                    me_score = 0, me_config_version = [], me_merge_policy = ''manual_review'',
                    me_conflicts = [], me_reason = Some reason\<rparr>]\<rparr>)))"

definition search_user_facing :: "post_ai \<Rightarrow> announcement list" where
  "search_user_facing s =
     filter (\<lambda>a. an_status a = ActiveAnn \<and> an_parent_id a = None) (dict_values (announcements s))"

section \<open>The manual review queue\<close>

definition reason_text :: "review_reason \<Rightarrow> string" where
  "reason_text r =
     (case r of PossibleDuplicateReason \<Rightarrow> ''possible_duplicate'' | LowConfidence \<Rightarrow> ''low_confidence''
      | BusinessQuality \<Rightarrow> ''business_quality'')"

definition review_matches :: "review_status option \<Rightarrow> review_reason option \<Rightarrow> review_item \<Rightarrow> bool" where
  "review_matches status reason i \<longleftrightarrow>
     (status = None \<or> status = Some (ri_status i)) \<and> (reason = None \<or> reason = Some (ri_reason i))"

definition list_review_items ::
  "review_status option \<Rightarrow> review_reason option \<Rightarrow> nat \<Rightarrow> nat \<Rightarrow> post_ai \<Rightarrow> review_item list" where
  "list_review_items status reason limit offset s =
     page offset limit (py_sort (\<lambda>i. (ri_created_at i, ri_review_id i))
       (filter (review_matches status reason) (dict_values (review_items s))))"

definition count_review_items :: "review_status option \<Rightarrow> review_reason option \<Rightarrow> post_ai \<Rightarrow> nat" where
  "count_review_items status reason s =
     length (filter (review_matches status reason) (dict_values (review_items s)))"

definition new_review_item :: "time \<Rightarrow> announcement \<Rightarrow> review_reason \<Rightarrow> dedup_decision \<Rightarrow> review_item" where
  "new_review_item now a reason d =
     \<lparr>ri_review_id = reason_text reason @ '':'' @ an_idempotency_key a, ri_announcement_id = an_id a,
      ri_reason = reason, ri_score_breakdown = dd_breakdown d,
      ri_related_candidate_id = dd_candidate_id d, ri_status = PendingReview,
      ri_created_at = now, ri_decided_at = None\<rparr>"

definition store_review_item :: "review_item \<Rightarrow> post_ai \<Rightarrow> review_item \<times> post_ai" where
  "store_review_item i s =
     (case dict_get (review_items s) (ri_review_id i) of
        Some existing \<Rightarrow> (existing, s)
      | None \<Rightarrow> (i, s\<lparr>review_items := dict_put (ri_review_id i) i (review_items s),
          review_log := review_log s @
            [\<lparr>re_action = EnqueueReview, re_review_id = ri_review_id i, re_admin_user_id = None,
              re_idempotency_key = None, re_note = None, re_decided_at = None, re_status = ri_status i,
              re_subject = ri_related_candidate_id i\<rparr>]\<rparr>))"

definition enqueue_review ::
  "time \<Rightarrow> announcement \<Rightarrow> review_reason \<Rightarrow> dedup_decision \<Rightarrow> post_ai \<Rightarrow> review_item \<times> post_ai" where
  "enqueue_review now a reason d s = store_review_item (new_review_item now a reason d) s"

definition require_item :: "string \<Rightarrow> post_ai \<Rightarrow> review_item res" where
  "require_item rid s = (case dict_get (review_items s) rid of None \<Rightarrow> Inl (KeyError rid) | Some i \<Rightarrow> Inr i)"

definition action_replayed :: "string option \<Rightarrow> post_ai \<Rightarrow> bool" where
  "action_replayed idem s \<longleftrightarrow> (case idem of None \<Rightarrow> False | Some k \<Rightarrow> dict_get (action_audit s) k \<noteq> None)"

definition validate_action :: "review_item \<Rightarrow> review_status option \<Rightarrow> int option \<Rightarrow> unit res" where
  "validate_action i expected admin =
     (if admin \<noteq> None \<and> the admin \<le> 0 then Inl (PermissionError ''Admin reviewer id is required.'')
      else if expected \<noteq> None \<and> expected \<noteq> Some (ri_status i)
      then Inl (ValueError ''manual_review_state_conflict'')
      else Inr ())"

text \<open>\<open>_store_updated_item\<close> followed by \<open>_append_action_audit\<close>.\<close>

definition settle_item ::
  "time \<Rightarrow> review_item \<Rightarrow> review_status \<Rightarrow> review_action \<Rightarrow> int option \<Rightarrow> string option \<Rightarrow> string option \<Rightarrow>
   string option \<Rightarrow> post_ai \<Rightarrow> review_item res \<times> post_ai" where
  "settle_item now i status action admin idem note subject s =
     (let u = i\<lparr>ri_status := status, ri_decided_at := Some now\<rparr>;
          entry = \<lparr>re_action = action, re_review_id = ri_review_id u, re_admin_user_id = admin,
            re_idempotency_key = idem, re_note = note, re_decided_at = ri_decided_at u, re_status = ri_status u,
            re_subject = subject\<rparr>
      in (Inr u, s\<lparr>review_items := dict_put (ri_review_id u) u (review_items s),
           review_log := review_log s @ [entry],
           action_audit := (case idem of None \<Rightarrow> action_audit s | Some k \<Rightarrow> dict_put k entry (action_audit s))\<rparr>))"

definition approve_merge ::
  "time \<Rightarrow> string \<Rightarrow> announcement \<Rightarrow> string \<Rightarrow> dedup_decision \<Rightarrow> int option \<Rightarrow> string option \<Rightarrow>
   review_status option \<Rightarrow> string option \<Rightarrow> post_ai \<Rightarrow> review_item res \<times> post_ai" where
  "approve_merge now rid child pid d admin idem expected note s =
     (case require_item rid s of
        Inl e \<Rightarrow> (Inl e, s)
      | Inr i \<Rightarrow>
          if ri_status i = ApprovedReview
          then then_do (activate_announcement now (ri_announcement_id i) s) (\<lambda>_ s1. (Inr i, s1))
          else if action_replayed idem s then (Inr i, s)
          else then_do (validate_action i expected admin, s) (\<lambda>_ s0.
            if ri_status i \<in> {MergedReview, ApprovedReview} then (Inr i, s0)
            else then_do (link_child now child pid d ''manual_review'' s0) (\<lambda>_ s1.
              settle_item now i MergedReview ApproveMerge admin idem note None s1)))"

definition approve_as_new ::
  "time \<Rightarrow> string \<Rightarrow> int option \<Rightarrow> string option \<Rightarrow> review_status option \<Rightarrow> string option \<Rightarrow>
   post_ai \<Rightarrow> review_item res \<times> post_ai" where
  "approve_as_new now rid admin idem expected note s =
     (case require_item rid s of
        Inl e \<Rightarrow> (Inl e, s)
      | Inr i \<Rightarrow>
          if action_replayed idem s then (Inr i, s)
          else then_do (validate_action i expected admin, s) (\<lambda>_ s0.
            if ri_status i = ApprovedReview then (Inr i, s0)
            else then_do (activate_announcement now (ri_announcement_id i) s0) (\<lambda>_ s1.
              settle_item now i ApprovedReview ApproveAsNew admin idem note None s1)))"

definition approve_canonical_update ::
  "time \<Rightarrow> string \<Rightarrow> string \<Rightarrow> canonical_listing \<Rightarrow> int option \<Rightarrow> string option \<Rightarrow> review_status option \<Rightarrow>
   string option \<Rightarrow> post_ai \<Rightarrow> review_item res \<times> post_ai" where
  "approve_canonical_update now rid aid c admin idem expected note s =
     (case require_item rid s of
        Inl e \<Rightarrow> (Inl e, s)
      | Inr i \<Rightarrow>
          if action_replayed idem s then (Inr i, s)
          else then_do (validate_action i expected admin, s) (\<lambda>_ s0.
            if ri_status i = ApprovedReview then (Inr i, s0)
            else then_do (update_canonical now aid c (''manual_review:'' @ reason_text (ri_reason i)) s0) (\<lambda>_ s1.
              settle_item now i ApprovedReview ApproveCanonicalUpdate admin idem note (Some aid) s1)))"

definition reject_review ::
  "time \<Rightarrow> string \<Rightarrow> int option \<Rightarrow> string option \<Rightarrow> review_status option \<Rightarrow> string option \<Rightarrow>
   post_ai \<Rightarrow> review_item res \<times> post_ai" where
  "reject_review now rid admin idem expected note s =
     (case require_item rid s of
        Inl e \<Rightarrow> (Inl e, s)
      | Inr i \<Rightarrow>
          if action_replayed idem s then (Inr i, s)
          else then_do (validate_action i expected admin, s) (\<lambda>_ s0.
            if ri_status i = RejectedReview then (Inr i, s0)
            else settle_item now i RejectedReview RejectReview admin idem note None s0))"

definition manual_review_decision ::
  "review_reason \<Rightarrow> string option \<Rightarrow> score_signal list \<Rightarrow> dedup_decision" where
  "manual_review_decision reason candidate breakdown =
     \<lparr>dd_decision = (if reason = PossibleDuplicateReason then PossibleDuplicate else NewAnnouncement),
      dd_score = 0, dd_threshold = 0, dd_candidate_id = candidate,
      dd_config_version = ''manual_review'', dd_breakdown = breakdown\<rparr>"

definition merge_related_duplicate ::
  "time \<Rightarrow> string \<Rightarrow> int option \<Rightarrow> string option \<Rightarrow> review_status option \<Rightarrow> string option \<Rightarrow>
   post_ai \<Rightarrow> review_item res \<times> post_ai" where
  "merge_related_duplicate now rid admin idem expected note s =
     (case require_item rid s of
        Inl e \<Rightarrow> (Inl e, s)
      | Inr i \<Rightarrow>
          if action_replayed idem s then (Inr i, s)
          else then_do (validate_action i expected admin, s) (\<lambda>_ s0.
            (case ri_related_candidate_id i of
               None \<Rightarrow> (Inl (ValueError ''manual_review_missing_duplicate_candidate''), s0)
             | Some pid \<Rightarrow>
                 (case dict_get (announcements s0) (ri_announcement_id i) of
                    None \<Rightarrow> (Inl (KeyError (ri_announcement_id i)), s0)
                  | Some child \<Rightarrow>
                      then_do (link_child now child pid
                          (manual_review_decision (ri_reason i) (Some pid) (ri_score_breakdown i))
                          ''manual_review'' s0) (\<lambda>_ s1.
                        settle_item now i MergedReview ApproveMerge admin idem note None s1)))))"

section \<open>The processor\<close>

definition persisted_event_of :: "announcement \<Rightarrow> persisted_event" where
  "persisted_event_of a =
     \<lparr>pe_idempotency_key = an_idempotency_key a, pe_source_id = an_source_id a,
      pe_source_channel_id = an_source_channel_id a, pe_source_message_id = an_source_message_id a,
      pe_occurred_at = an_occurred_at a, pe_canonical = an_canonical a, pe_media = an_media a\<rparr>"

definition publish_persisted :: "(persisted_event \<Rightarrow> bool) \<Rightarrow> announcement \<Rightarrow> post_ai \<Rightarrow> unit res \<times> post_ai" where
  "publish_persisted accepts a s =
     (if an_status a \<noteq> ActiveAnn then (Inr (), s)
      else if accepts (persisted_event_of a)
      then (Inr (), s\<lparr>persisted_events := persisted_events s @ [persisted_event_of a]\<rparr>)
      else (Inl (QueuePublishError ''announcement.persisted''), s))"

text \<open>Saving a new parent: publish it, then record the decision.\<close>

definition persist_new ::
  "(persisted_event \<Rightarrow> bool) \<Rightarrow> announcement \<Rightarrow> dedup_decision \<Rightarrow> post_ai \<Rightarrow> dedup_decision res \<times> post_ai" where
  "persist_new accepts a d s =
     (case save_parent a s of
        (persisted, s1) \<Rightarrow> then_do (publish_persisted accepts persisted s1) (\<lambda>_ s2.
          (Inr d, record_dedup_decision d s2)))"

definition merge_duplicate ::
  "(persisted_event \<Rightarrow> bool) \<Rightarrow> time \<Rightarrow> announcement \<Rightarrow> announcement \<Rightarrow> dedup_decision \<Rightarrow> post_ai \<Rightarrow>
   dedup_decision res \<times> post_ai" where
  "merge_duplicate accepts now a candidate d s =
     (case select_parent a candidate of
        (parent, child) \<Rightarrow>
          if an_id parent = an_id a
          then (case save_parent parent s of
                  (persisted, s1) \<Rightarrow> then_do (publish_persisted accepts persisted s1) (\<lambda>_ s2.
                    if an_id child \<noteq> an_id persisted
                    then then_do (link_child now child (an_id persisted) d ''completeness_trust_first_seen'' s2)
                           (\<lambda>_ s3. (Inr d, record_dedup_decision d s3))
                    else (Inr d, record_dedup_decision d s2)))
          else then_do (link_child now child (an_id parent) d ''completeness_trust_first_seen'' s) (\<lambda>_ s1.
                 (Inr d, record_dedup_decision d s1)))"

definition process_announcement ::
  "scoring_config \<Rightarrow> (persisted_event \<Rightarrow> bool) \<Rightarrow> time \<Rightarrow> announcement \<Rightarrow> post_ai \<Rightarrow>
   dedup_decision res \<times> post_ai" where
  "process_announcement cfg accepts now a s =
     (if an_status a = ManualReviewAnn
      then (let reason = (case an_review_reason a of None \<Rightarrow> BusinessQuality | Some r \<Rightarrow> r);
                d = manual_review_decision reason None []
            in case save_parent a s of
                 (persisted, s1) \<Rightarrow> (Inr d, snd (enqueue_review now persisted reason d s1)))
      else then_do (res_bind (list_candidates cfg a (candidate_limit cfg) s) (\<lambda>cands.
                evaluate_candidates cfg cands a), s) (\<lambda>d s0.
        let s1 = s0\<lparr>dedup_metrics := dedup_metrics s0 @ [(an_id a, d)]\<rparr> in
        case dd_decision d of
          PossibleDuplicate \<Rightarrow>
            (case save_parent (a\<lparr>an_status := ManualReviewAnn\<rparr>) s1 of
               (persisted, s2) \<Rightarrow>
                 (Inr d, record_dedup_decision d
                    (snd (enqueue_review now persisted PossibleDuplicateReason d s2))))
        | NewAnnouncement \<Rightarrow> persist_new accepts a d s1
        | _ \<Rightarrow>
            (case Option.bind (dd_candidate_id d) (dict_get (announcements s1)) of
               None \<Rightarrow> persist_new accepts a d s1
             | Some candidate \<Rightarrow> merge_duplicate accepts now a candidate d s1)))"

section \<open>The stores keep what they have\<close>

interpretation parents: insert_once "\<lambda>s. dict_get (announcements s)" save_parent an_id
  by unfold_locales (auto simp: save_parent_def Let_def dict_simps split: option.splits)

interpretation reviews: insert_once "\<lambda>s. dict_get (review_items s)" store_review_item ri_review_id
  by unfold_locales (auto simp: store_review_item_def dict_simps split: option.splits)

section \<open>The invariant\<close>

text \<open>
  Announcements and review items are stored under their own identifiers; a child is active and its
  parent is stored; a review item is about a stored announcement.
\<close>

definition children_ok :: "(string, announcement) dict \<Rightarrow> bool" where
  "children_ok d \<longleftrightarrow>
     (\<forall>k a p. dict_get d k = Some a \<longrightarrow> an_parent_id a = Some p \<longrightarrow>
        an_status a = ActiveAnn \<and> dict_get d p \<noteq> None)"

definition items_ok :: "(string, review_item) dict \<Rightarrow> (string, announcement) dict \<Rightarrow> bool" where
  "items_ok r d \<longleftrightarrow> (\<forall>k i. dict_get r k = Some i \<longrightarrow> dict_get d (ri_announcement_id i) \<noteq> None)"

definition post_ai_ok :: "post_ai \<Rightarrow> bool" where
  "post_ai_ok s \<longleftrightarrow>
     keyed_by an_id (announcements s) \<and> keyed_by ri_review_id (review_items s) \<and>
     children_ok (announcements s) \<and> items_ok (review_items s) (announcements s)"

definition empty_post_ai :: post_ai where
  "empty_post_ai =
     \<lparr>announcements = [], merge_audit = [], decision_audit = [], review_items = [], review_log = [],
      action_audit = [], dedup_metrics = [], persisted_events = []\<rparr>"

lemma post_ai_ok_empty: "post_ai_ok empty_post_ai"
  by (simp add: post_ai_ok_def empty_post_ai_def children_ok_def items_ok_def)

text \<open>Storing an announcement keeps the invariant when a child is active and has its parent stored.\<close>

lemma post_ai_ok_put:
  assumes "post_ai_ok s" and "an_id a = k"
    and "\<And>p. an_parent_id a = Some p \<Longrightarrow> an_status a = ActiveAnn \<and> (p = k \<or> dict_get (announcements s) p \<noteq> None)"
    and "announcements t = dict_put k a (announcements s)" and "review_items t = review_items s"
  shows "post_ai_ok t"
  using assms unfolding post_ai_ok_def children_ok_def items_ok_def
  by (auto simp: dict_simps)

lemma post_ai_ok_same:
  "post_ai_ok s \<Longrightarrow> announcements t = announcements s \<Longrightarrow> review_items t = review_items s \<Longrightarrow> post_ai_ok t"
  by (simp add: post_ai_ok_def)

lemma post_ai_okD:
  assumes "post_ai_ok s" and "dict_get (announcements s) k = Some a"
  shows "an_id a = k"
    and "an_parent_id a = Some p \<Longrightarrow> an_status a = ActiveAnn \<and> dict_get (announcements s) p \<noteq> None"
  using assms by (auto simp: post_ai_ok_def children_ok_def dest: keyed_by_getD)

lemma save_parent_ok:
  assumes "post_ai_ok s"
  shows "post_ai_ok (snd (save_parent a s))"
proof (cases "dict_get (announcements s) (an_id a)")
  case None
  then show ?thesis
    by (intro post_ai_ok_put [OF assms, of "fst (save_parent a s)" "an_id a"])
      (simp_all add: save_parent_def Let_def)
next
  case (Some b)
  then show ?thesis using assms by (simp add: save_parent_def)
qed

lemma activate_ok:
  assumes "post_ai_ok s"
  shows "post_ai_ok (snd (activate_announcement now k s))"
proof (cases "dict_get (announcements s) k")
  case None
  then show ?thesis using assms by (simp add: activate_announcement_def)
next
  case (Some a)
  note a = post_ai_okD [OF assms Some]
  show ?thesis
    using Some a(1) a(2)
    by (intro post_ai_ok_put [OF assms, of "a\<lparr>an_status := ActiveAnn, an_updated_at := now\<rparr>" k])
      (simp_all add: activate_announcement_def Let_def)
qed

lemma update_canonical_ok:
  assumes "post_ai_ok s"
  shows "post_ai_ok (snd (update_canonical now k c reason s))"
proof (cases "dict_get (announcements s) k")
  case None
  then show ?thesis using assms by (simp add: update_canonical_def)
next
  case (Some a)
  note a = post_ai_okD [OF assms Some]
  show ?thesis
    using Some a(1) a(2)
    by (intro post_ai_ok_put [OF assms, of "a\<lparr>an_canonical := c, an_updated_at := now\<rparr>" k])
      (simp_all add: update_canonical_def Let_def)
qed

lemma link_child_ok:
  assumes ok: "post_ai_ok s"
  shows "post_ai_ok (snd (link_child now child pid d policy s))"
proof (cases "dict_get (announcements s) pid")
  case None
  then show ?thesis using ok by (simp add: link_child_def)
next
  case (Some parent)
  note parent = post_ai_okD [OF ok Some]
  show ?thesis
  proof (cases "Option.bind (dict_get (announcements s) (an_id child))
      (\<lambda>old. if an_parent_id old = Some pid then Some old else None)")
    case (Some old)
    then show ?thesis using ok \<open>dict_get (announcements s) pid = Some parent\<close> by (simp add: link_child_def)
  next
    case None
    let ?merged = "merged_listing (an_canonical parent) (an_canonical child)"
    let ?p = "parent\<lparr>an_canonical := ?merged, an_source_count := an_source_count parent + 1,
        an_latest_source_id := Some (an_source_id child), an_updated_at := now\<rparr>"
    let ?c = "child\<lparr>an_parent_id := Some pid, an_status := ActiveAnn, an_updated_at := now\<rparr>"
    let ?s1 = "s\<lparr>announcements := dict_put pid ?p (announcements s)\<rparr>"
    have ok1: "post_ai_ok ?s1"
      by (rule post_ai_ok_put [OF ok, where a = ?p and k = pid]) (simp_all add: parent)
    have anns: "announcements (snd (link_child now child pid d policy s)) =
        dict_put (an_id child) ?c (announcements ?s1)"
      and items: "review_items (snd (link_child now child pid d policy s)) = review_items ?s1"
      using Some None parent(1) by (simp_all add: link_child_def merge_parent_fields_eq Let_def)
    have "an_status ?c = ActiveAnn \<and> (p = an_id child \<or> dict_get (announcements ?s1) p \<noteq> None)"
      if "an_parent_id ?c = Some p" for p
      using that by (simp add: dict_get_put)
    from post_ai_ok_put [OF ok1 _ this anns items] show ?thesis by simp
  qed
qed

lemma items_ok_put:
  "items_ok r d \<Longrightarrow> dict_get d (ri_announcement_id i) \<noteq> None \<Longrightarrow> items_ok (dict_put k i r) d"
  by (simp add: items_ok_def dict_simps)

lemma store_review_ok:
  assumes "post_ai_ok s" and "dict_get (announcements s) (ri_announcement_id i) \<noteq> None"
  shows "post_ai_ok (snd (store_review_item i s))"
  using assms items_ok_put
  by (cases "dict_get (review_items s) (ri_review_id i)") (simp_all add: store_review_item_def post_ai_ok_def)

lemma settle_item_ok:
  assumes "post_ai_ok s" and "dict_get (announcements s) (ri_announcement_id i) \<noteq> None"
  shows "post_ai_ok (snd (settle_item now i st act admin idem note subject s))"
  using assms items_ok_put [of "review_items s" "announcements s" "i\<lparr>ri_status := st, ri_decided_at := Some now\<rparr>"]
  by (simp add: settle_item_def Let_def post_ai_ok_def)

definition has_announcement :: "post_ai \<Rightarrow> string \<Rightarrow> bool" where
  "has_announcement s k \<longleftrightarrow> dict_get (announcements s) k \<noteq> None"

lemma activate_keeps: "has_announcement s k \<Longrightarrow> has_announcement (snd (activate_announcement now j s)) k"
  by (auto simp: has_announcement_def activate_announcement_def Let_def dict_get_put split: option.split)

lemma update_canonical_keeps: "has_announcement s k \<Longrightarrow> has_announcement (snd (update_canonical now j c r s)) k"
  by (auto simp: has_announcement_def update_canonical_def Let_def dict_get_put split: option.split)

lemma link_child_keeps: "has_announcement s k \<Longrightarrow> has_announcement (snd (link_child now c p d pol s)) k"
  by (auto simp: has_announcement_def link_child_def merge_parent_fields_eq Let_def dict_get_put
      split: option.split)

lemma required_item_announcement:
  "post_ai_ok s \<Longrightarrow> require_item rid s = Inr i \<Longrightarrow> has_announcement s (ri_announcement_id i) \<and> ri_review_id i = rid"
  by (auto simp: require_item_def post_ai_ok_def items_ok_def has_announcement_def
      dest: keyed_by_getD split: option.splits)

text \<open>A step followed by the settling of an item keeps the invariant.\<close>

lemma then_settle_ok:
  assumes "post_ai_ok (snd p)" and "has_announcement (snd p) (ri_announcement_id i)"
  shows "post_ai_ok (snd (then_do p (\<lambda>_ s1. settle_item now i st act admin idem note subject s1)))"
  using assms settle_item_ok [of "snd p"]
  by (cases p; cases "fst p") (auto simp: then_do_def has_announcement_def)

lemma then_validate_ok:
  assumes "post_ai_ok s" and "post_ai_ok (snd (f s))"
  shows "post_ai_ok (snd (then_do (validate_action i expected admin, s) (\<lambda>_ s0. f s0)))"
  using assms by (simp add: validate_action_def)

lemma then_return_ok: "post_ai_ok (snd p) \<Longrightarrow> post_ai_ok (snd (then_do p (\<lambda>_ s1. (Inr i, s1))))"
  by (cases p; cases "fst p") (auto simp: then_do_def)

lemma approve_merge_ok:
  assumes "post_ai_ok s"
  shows "post_ai_ok (snd (approve_merge now rid child pid d admin idem expected note s))"
proof (cases "require_item rid s")
  case (Inl e)
  then show ?thesis using assms by (simp add: approve_merge_def)
next
  case (Inr i)
  note i = required_item_announcement [OF assms Inr]
  have "post_ai_ok (snd (then_do (link_child now child pid d ''manual_review'' s) (\<lambda>_ s1.
      settle_item now i MergedReview ApproveMerge admin idem note None s1)))"
    using i by (intro then_settle_ok link_child_ok [OF assms] link_child_keeps) simp
  then show ?thesis
    using assms Inr then_return_ok [OF activate_ok [OF assms]]
    by (auto simp: approve_merge_def intro!: then_validate_ok)
qed

lemma approve_as_new_ok:
  assumes "post_ai_ok s"
  shows "post_ai_ok (snd (approve_as_new now rid admin idem expected note s))"
proof (cases "require_item rid s")
  case (Inl e)
  then show ?thesis using assms by (simp add: approve_as_new_def)
next
  case (Inr i)
  note i = required_item_announcement [OF assms Inr]
  have "post_ai_ok (snd (then_do (activate_announcement now (ri_announcement_id i) s) (\<lambda>_ s1.
      settle_item now i ApprovedReview ApproveAsNew admin idem note None s1)))"
    using i by (intro then_settle_ok activate_ok [OF assms] activate_keeps) simp
  then show ?thesis
    using assms Inr by (auto simp: approve_as_new_def intro!: then_validate_ok)
qed

lemma approve_canonical_update_ok:
  assumes "post_ai_ok s"
  shows "post_ai_ok (snd (approve_canonical_update now rid aid c admin idem expected note s))"
proof (cases "require_item rid s")
  case (Inl e)
  then show ?thesis using assms by (simp add: approve_canonical_update_def)
next
  case (Inr i)
  note i = required_item_announcement [OF assms Inr]
  have "post_ai_ok (snd (then_do (update_canonical now aid c r s) (\<lambda>_ s1.
      settle_item now i ApprovedReview ApproveCanonicalUpdate admin idem note (Some aid) s1)))" for r
    using i by (intro then_settle_ok update_canonical_ok [OF assms] update_canonical_keeps) simp
  then show ?thesis
    using assms Inr by (auto simp: approve_canonical_update_def intro!: then_validate_ok)
qed

lemma reject_review_ok:
  assumes "post_ai_ok s"
  shows "post_ai_ok (snd (reject_review now rid admin idem expected note s))"
proof (cases "require_item rid s")
  case (Inl e)
  then show ?thesis using assms by (simp add: reject_review_def)
next
  case (Inr i)
  have "post_ai_ok (snd (settle_item now i RejectedReview RejectReview admin idem note None s))"
    using settle_item_ok [OF assms] required_item_announcement [OF assms Inr]
    by (simp add: has_announcement_def)
  then show ?thesis
    using assms Inr by (auto simp: reject_review_def intro!: then_validate_ok)
qed

lemma merge_related_ok:
  assumes "post_ai_ok s"
  shows "post_ai_ok (snd (merge_related_duplicate now rid admin idem expected note s))"
proof (cases "require_item rid s")
  case (Inl e)
  then show ?thesis using assms by (simp add: merge_related_duplicate_def)
next
  case (Inr i)
  note i = required_item_announcement [OF assms Inr]
  have "post_ai_ok (snd (then_do (link_child now child pid d ''manual_review'' s) (\<lambda>_ s1.
      settle_item now i MergedReview ApproveMerge admin idem note None s1)))" for child pid d
    using i by (intro then_settle_ok link_child_ok [OF assms] link_child_keeps) simp
  then show ?thesis
    using assms Inr
    by (auto simp: merge_related_duplicate_def intro!: then_validate_ok split: option.split)
qed

section \<open>The processor keeps the invariant\<close>

lemma publish_persisted_same:
  "announcements (snd (publish_persisted accepts a s)) = announcements s"
  "review_items (snd (publish_persisted accepts a s)) = review_items s"
  by (simp_all add: publish_persisted_def)

lemma record_decision_ok [simp]: "post_ai_ok (record_dedup_decision d s) = post_ai_ok s"
  by (simp add: record_dedup_decision_def post_ai_ok_def)

lemma publish_ok: "post_ai_ok s \<Longrightarrow> post_ai_ok (snd (publish_persisted accepts a s))"
  by (rule post_ai_ok_same) (simp_all add: publish_persisted_same)

lemma then_ok:
  assumes "post_ai_ok (snd p)" and "\<And>x s. post_ai_ok s \<Longrightarrow> p = (Inr x, s) \<Longrightarrow> post_ai_ok (snd (f x s))"
  shows "post_ai_ok (snd (then_do p f))"
  using assms by (cases p; cases "fst p") (auto simp: then_do_def)

lemma persist_new_ok: "post_ai_ok s \<Longrightarrow> post_ai_ok (snd (persist_new accepts a d s))"
  using save_parent_ok [of s a]
  by (auto simp: persist_new_def split: prod.split intro!: then_ok publish_ok)

lemma merge_duplicate_ok:
  assumes "post_ai_ok s"
  shows "post_ai_ok (snd (merge_duplicate accepts now a c d s))"
proof -
  obtain parent child where sel: "select_parent a c = (parent, child)" by fastforce
  obtain persisted s1 where sp: "save_parent parent s = (persisted, s1)" by fastforce
  then have "post_ai_ok s1" using save_parent_ok [OF assms, of parent] by simp
  then have "post_ai_ok (snd (then_do (publish_persisted accepts persisted s1) (\<lambda>_ s2.
      if an_id child \<noteq> an_id persisted
      then then_do (link_child now child (an_id persisted) d ''completeness_trust_first_seen'' s2)
             (\<lambda>_ s3. (Inr d, record_dedup_decision d s3))
      else (Inr d, record_dedup_decision d s2))))"
    by (intro then_ok publish_ok) (auto intro!: then_ok link_child_ok)
  moreover have "post_ai_ok (snd (then_do (link_child now child (an_id parent) d
      ''completeness_trust_first_seen'' s) (\<lambda>_ s1. (Inr d, record_dedup_decision d s1))))"
    by (intro then_ok link_child_ok [OF assms]) simp
  ultimately show ?thesis by (simp add: merge_duplicate_def sel sp)
qed

lemma enqueue_ok:
  "post_ai_ok s \<Longrightarrow> has_announcement s (an_id a) \<Longrightarrow> post_ai_ok (snd (enqueue_review now a reason d s))"
  by (simp add: enqueue_review_def store_review_ok has_announcement_def new_review_item_def)

lemma save_parent_has:
  "post_ai_ok s \<Longrightarrow> save_parent a s = (b, s1) \<Longrightarrow> has_announcement s1 (an_id b) \<and> an_id b = an_id a"
  using parents.stored [of a s] post_ai_okD(1) [of s "an_id a" b]
  by (auto simp: has_announcement_def save_parent_def Let_def split: option.splits)

lemma process_ok:
  assumes "post_ai_ok s"
  shows "post_ai_ok (snd (process_announcement cfg accepts now a s))"
proof (cases "an_status a = ManualReviewAnn")
  case True
  obtain b s1 where sp: "save_parent a s = (b, s1)" by fastforce
  have ok1: "post_ai_ok s1" using save_parent_ok [OF assms, of a] sp by simp
  have "post_ai_ok (snd (enqueue_review now b r d s1))" for r d
    using save_parent_has [OF assms sp] by (intro enqueue_ok [OF ok1]) blast
  with True sp show ?thesis by (simp add: process_announcement_def Let_def)
next
  case False
  have branch: "post_ai_ok (snd (case dd_decision d of
          PossibleDuplicate \<Rightarrow>
            (case save_parent (a\<lparr>an_status := ManualReviewAnn\<rparr>) s1 of
               (persisted, s2) \<Rightarrow>
                 (Inr d, record_dedup_decision d
                    (snd (enqueue_review now persisted PossibleDuplicateReason d s2))))
        | NewAnnouncement \<Rightarrow> persist_new accepts a d s1
        | _ \<Rightarrow>
            (case Option.bind (dd_candidate_id d) (dict_get (announcements s1)) of
               None \<Rightarrow> persist_new accepts a d s1
             | Some candidate \<Rightarrow> merge_duplicate accepts now a candidate d s1)))"
    if ok: "post_ai_ok s1" for s1 d
  proof -
    obtain b s2 where sp: "save_parent (a\<lparr>an_status := ManualReviewAnn\<rparr>) s1 = (b, s2)" by fastforce
    have ok2: "post_ai_ok s2" using save_parent_ok [OF ok, of "a\<lparr>an_status := ManualReviewAnn\<rparr>"] sp by simp
    have "post_ai_ok (snd (enqueue_review now b r d s2))" for r d
      using save_parent_has [OF ok sp] by (intro enqueue_ok [OF ok2]) blast
    with sp show ?thesis
      using persist_new_ok [OF ok] merge_duplicate_ok [OF ok]
      by (simp split: dedup_decision_type.split option.split)
  qed
  have "post_ai_ok (s\<lparr>dedup_metrics := m\<rparr>)" for m
    using assms by (rule post_ai_ok_same) simp_all
  with branch False assms show ?thesis
    unfolding process_announcement_def Let_def by (auto intro!: then_ok)
qed

section \<open>Reachable states\<close>

inductive dedup_step :: "scoring_config \<Rightarrow> (persisted_event \<Rightarrow> bool) \<Rightarrow> post_ai \<Rightarrow> post_ai \<Rightarrow> bool"
  for cfg accepts where
  Process: "dedup_step cfg accepts s (snd (process_announcement cfg accepts now a s))"
| Merge: "dedup_step cfg accepts s (snd (approve_merge now rid child pid d admin idem expected note s))"
| AsNew: "dedup_step cfg accepts s (snd (approve_as_new now rid admin idem expected note s))"
| Canonical: "dedup_step cfg accepts s (snd (approve_canonical_update now rid aid c admin idem expected note s))"
| Reject: "dedup_step cfg accepts s (snd (reject_review now rid admin idem expected note s))"
| MergeRelated: "dedup_step cfg accepts s (snd (merge_related_duplicate now rid admin idem expected note s))"

inductive dedup_reachable :: "scoring_config \<Rightarrow> (persisted_event \<Rightarrow> bool) \<Rightarrow> post_ai \<Rightarrow> bool"
  for cfg accepts where
  Initially: "dedup_reachable cfg accepts empty_post_ai"
| Step: "dedup_reachable cfg accepts s \<Longrightarrow> dedup_step cfg accepts s t \<Longrightarrow> dedup_reachable cfg accepts t"

inductive_cases dedup_stepE: "dedup_step cfg accepts s t"

lemma dedup_step_ok: "dedup_step cfg accepts s t \<Longrightarrow> post_ai_ok s \<Longrightarrow> post_ai_ok t"
  by (erule dedup_stepE)
    (simp_all add: process_ok approve_merge_ok approve_as_new_ok approve_canonical_update_ok
      reject_review_ok merge_related_ok)

lemma dedup_reachable_ok: "dedup_reachable cfg accepts s \<Longrightarrow> post_ai_ok s"
  by (induction rule: dedup_reachable.induct) (auto simp: post_ai_ok_empty dedup_step_ok)

text \<open>
  C9. In every state the processor and the reviewers can reach, failed calls included, announcements
  and review items are stored under their own identifiers, every child is active and its parent is
  stored, and every review item can be approved: its announcement is there to be activated, so
  approving it with an admin and no expected status returns the item and publishes the announcement
  to the users unless it is a child.
\<close>

theorem reachable_review_approvable:
  assumes "dedup_reachable cfg accepts s" and "dict_get (review_items s) rid = Some i"
    and "0 < admin"
  shows "keyed_by an_id (announcements s) \<and> children_ok (announcements s) \<and>
    (\<exists>j t a. approve_as_new now rid (Some admin) None None note s = (Inr j, t) \<and>
       ri_status j = ApprovedReview \<and>
       (ri_status i \<noteq> ApprovedReview \<longrightarrow>
          dict_get (announcements t) (ri_announcement_id i) = Some a \<and> an_status a = ActiveAnn \<and>
          (a \<in> set (search_user_facing t) \<longleftrightarrow> an_parent_id a = None)))"
proof -
  have ok: "post_ai_ok s" using assms(1) by (rule dedup_reachable_ok)
  have req: "require_item rid s = Inr i" using assms(2) by (simp add: require_item_def)
  obtain b where b: "dict_get (announcements s) (ri_announcement_id i) = Some b"
    using required_item_announcement [OF ok req] by (auto simp: has_announcement_def)
  show ?thesis
  proof (cases "ri_status i = ApprovedReview")
    case True
    then show ?thesis
      using ok req assms(3)
      by (simp add: post_ai_ok_def approve_as_new_def action_replayed_def validate_action_def)
  next
    case False
    let ?a = "b\<lparr>an_status := ActiveAnn, an_updated_at := now\<rparr>"
    obtain j t where run: "approve_as_new now rid (Some admin) None None note s = (Inr j, t)"
      and j: "ri_status j = ApprovedReview" and t: "announcements t = dict_put (ri_announcement_id i) ?a (announcements s)"
      using False req b assms(3)
      by (simp add: approve_as_new_def action_replayed_def validate_action_def activate_announcement_def
          settle_item_def Let_def)
    have "keyed_by an_id (announcements t)"
      unfolding t using ok b post_ai_okD(1) [OF ok b] by (intro keyed_by_put) (simp_all add: post_ai_ok_def)
    moreover have get: "dict_get (announcements t) (ri_announcement_id i) = Some ?a"
      by (simp add: t dict_get_put)
    ultimately have "?a \<in> set (dict_values (announcements t))"
      using dict_get_in_values by metis
    then have "?a \<in> set (search_user_facing t) \<longleftrightarrow> an_parent_id ?a = None"
      by (simp add: search_user_facing_def)
    with run j get ok show ?thesis by (simp add: post_ai_ok_def)
  qed
qed

section \<open>What processing does\<close>

lemma filter_candidates_sound:
  "filter_candidates cfg a xs = Inr cs \<Longrightarrow> c \<in> set cs \<Longrightarrow>
   c \<in> set xs \<and> an_id c \<noteq> an_id a \<and> an_status c = ActiveAnn \<and> an_parent_id c = None"
proof (induction xs arbitrary: cs)
  case (Cons x xs)
  show ?case
  proof (cases "an_id x \<noteq> an_id a \<and> an_status x = ActiveAnn \<and> is_parent x")
    case True
    with Cons.prems(1) obtain b rest where "cheap_candidate_match cfg a x = Inr b"
      and rest: "filter_candidates cfg a xs = Inr rest" and cs: "cs = (if b then x # rest else rest)"
      by (auto split: sum.splits elim!: res_bind_InrE)
    have "c \<in> set rest \<or> c = x" using Cons.prems(2) cs by (cases b) auto
    with Cons.IH [OF rest] True show ?thesis by (auto simp: is_parent_def)
  next
    case False
    with Cons show ?thesis by auto
  qed
qed simp

lemma list_candidates_sound:
  assumes "list_candidates cfg a n s = Inr cs" and "c \<in> set cs"
  shows "c \<in> set (dict_values (announcements s)) \<and> an_id c \<noteq> an_id a \<and> an_status c = ActiveAnn \<and>
    an_parent_id c = None"
proof -
  obtain xs where xs: "filter_candidates cfg a (dict_values (announcements s)) = Inr xs"
    and cs: "cs = take n (py_sort_desc an_created_at xs)"
    using assms(1) by (auto simp: list_candidates_def elim!: res_bind_InrE)
  have "c \<in> set xs" using assms(2) set_take_subset unfolding cs by fastforce
  then show ?thesis by (rule filter_candidates_sound [OF xs])
qed

lemma evaluate_candidate_in:
  assumes "evaluate_candidates cfg cands a = Inr d" and "dd_decision d \<noteq> NewAnnouncement"
  obtains c where "c \<in> set cands" and "dd_candidate_id d = Some (an_id c)"
proof -
  obtain r where r: "best_candidate (score_candidate cfg a) None cands = Inr r"
    using assms by (auto simp: evaluate_candidates_def elim!: res_bind_InrE)
  with assms obtain b where b: "r = Some b" by (cases r) (auto simp: evaluate_candidates_def)
  with r obtain c where c: "c \<in> set cands" "score_candidate cfg a c = Inr b"
    by (auto elim!: best_candidate_in)
  moreover have "dd_candidate_id d = Some (an_id c)"
    using assms r b c(2)
    by (auto simp: evaluate_candidates_def decision_from_score_def Let_def elim!: score_candidate_InrE)
  ultimately show thesis using that by blast
qed

text \<open>The decision an active announcement gets, and the stored candidate it is about.\<close>

definition decide :: "scoring_config \<Rightarrow> announcement \<Rightarrow> post_ai \<Rightarrow> dedup_decision res" where
  "decide cfg a s =
     res_bind (list_candidates cfg a (candidate_limit cfg) s) (\<lambda>cands. evaluate_candidates cfg cands a)"

lemma decide_candidate:
  assumes "post_ai_ok s" and "decide cfg a s = Inr d" and "dd_decision d \<noteq> NewAnnouncement"
  obtains c where "dict_get (announcements s) (an_id c) = Some c" and "dd_candidate_id d = Some (an_id c)"
    and "an_id c \<noteq> an_id a" and "an_status c = ActiveAnn" and "an_parent_id c = None"
proof -
  obtain cands where cands: "list_candidates cfg a (candidate_limit cfg) s = Inr cands"
    and ev: "evaluate_candidates cfg cands a = Inr d"
    using assms(2) by (auto simp: decide_def elim!: res_bind_InrE)
  obtain c where c: "c \<in> set cands" "dd_candidate_id d = Some (an_id c)"
    using evaluate_candidate_in [OF ev assms(3)] by blast
  note facts = list_candidates_sound [OF cands c(1)]
  have "dict_get (announcements s) (an_id c) = Some c"
    using facts assms(1) keyed_by_values [of an_id "announcements s" c] by (simp add: post_ai_ok_def)
  with c facts show thesis by (intro that) auto
qed

text \<open>The three outcomes of processing an active announcement.\<close>

lemma process_decision:
  assumes "an_status a = ActiveAnn" and "decide cfg a s = Inr d"
  shows "process_announcement cfg accepts now a s =
    (let s1 = s\<lparr>dedup_metrics := dedup_metrics s @ [(an_id a, d)]\<rparr> in
     case dd_decision d of
       PossibleDuplicate \<Rightarrow>
         (case save_parent (a\<lparr>an_status := ManualReviewAnn\<rparr>) s1 of
            (persisted, s2) \<Rightarrow>
              (Inr d, record_dedup_decision d
                 (snd (enqueue_review now persisted PossibleDuplicateReason d s2))))
     | NewAnnouncement \<Rightarrow> persist_new accepts a d s1
     | _ \<Rightarrow>
         (case Option.bind (dd_candidate_id d) (dict_get (announcements s1)) of
            None \<Rightarrow> persist_new accepts a d s1
          | Some candidate \<Rightarrow> merge_duplicate accepts now a candidate d s1))"
  using assms by (simp add: process_announcement_def decide_def)

lemma save_parent_fresh:
  "dict_get (announcements s) (an_id a) = None \<Longrightarrow>
   save_parent a s = (a\<lparr>an_parent_id := None, an_latest_source_id := Some (an_source_id a)\<rparr>,
     s\<lparr>announcements := dict_put (an_id a)
         (a\<lparr>an_parent_id := None, an_latest_source_id := Some (an_source_id a)\<rparr>) (announcements s)\<rparr>)"
  by (simp add: save_parent_def Let_def)

lemma link_child_new:
  assumes "dict_get (announcements s) pid = Some p" and "an_id p = pid"
    and "\<And>old. dict_get (announcements s) (an_id c) = Some old \<Longrightarrow> an_parent_id old \<noteq> Some pid"
  shows "\<exists>linked t. link_child now c pid d policy s = (Inr linked, t) \<and>
    announcements t = dict_put (an_id c)
        (c\<lparr>an_parent_id := Some pid, an_status := ActiveAnn, an_updated_at := now\<rparr>)
      (dict_put pid (p\<lparr>an_canonical := merged_listing (an_canonical p) (an_canonical c),
          an_source_count := an_source_count p + 1, an_latest_source_id := Some (an_source_id c),
          an_updated_at := now\<rparr>) (announcements s)) \<and>
    persisted_events t = persisted_events s \<and> review_items t = review_items s \<and>
    length (merge_audit t) = Suc (length (merge_audit s))"
proof -
  have "Option.bind (dict_get (announcements s) (an_id c))
      (\<lambda>old. if an_parent_id old = Some pid then Some old else None) = None"
    using assms(3) by (cases "dict_get (announcements s) (an_id c)") auto
  with assms(1,2) show ?thesis by (simp add: link_child_def merge_parent_fields_eq Let_def)
qed

text \<open>The two ways a merge can go.\<close>

lemma merge_into_candidate:
  assumes "select_parent a c = (c, a)" and "an_id c \<noteq> an_id a"
    and "dict_get (announcements s) (an_id c) = Some c" and "dict_get (announcements s) (an_id a) = None"
  shows "\<exists>t. merge_duplicate accepts now a c d s = (Inr d, t) \<and>
    announcements t = dict_put (an_id a)
        (a\<lparr>an_parent_id := Some (an_id c), an_status := ActiveAnn, an_updated_at := now\<rparr>)
      (dict_put (an_id c) (c\<lparr>an_canonical := merged_listing (an_canonical c) (an_canonical a),
          an_source_count := an_source_count c + 1, an_latest_source_id := Some (an_source_id a),
          an_updated_at := now\<rparr>) (announcements s)) \<and>
    persisted_events t = persisted_events s"
  using assms link_child_new [OF assms(3) refl, of a now d "''completeness_trust_first_seen''"]
  by (auto simp: merge_duplicate_def record_dedup_decision_def)

lemma merge_into_incoming:
  assumes "select_parent a c = (a, c)" and "an_id c \<noteq> an_id a" and "an_status a = ActiveAnn"
    and "dict_get (announcements s) (an_id c) = Some c" and "an_parent_id c = None"
    and "dict_get (announcements s) (an_id a) = None"
    and "\<And>e. accepts e"
  shows "\<exists>t p. merge_duplicate accepts now a c d s = (Inr d, t) \<and>
    p = a\<lparr>an_parent_id := None, an_latest_source_id := Some (an_source_id a)\<rparr> \<and>
    announcements t = dict_put (an_id c)
        (c\<lparr>an_parent_id := Some (an_id a), an_status := ActiveAnn, an_updated_at := now\<rparr>)
      (dict_put (an_id a) (p\<lparr>an_canonical := merged_listing (an_canonical a) (an_canonical c),
          an_source_count := an_source_count a + 1, an_latest_source_id := Some (an_source_id c),
          an_updated_at := now\<rparr>) (dict_put (an_id a) p (announcements s))) \<and>
    persisted_events t = persisted_events s @ [persisted_event_of p]"
proof -
  let ?p = "a\<lparr>an_parent_id := None, an_latest_source_id := Some (an_source_id a)\<rparr>"
  let ?s1 = "s\<lparr>announcements := dict_put (an_id a) ?p (announcements s),
      persisted_events := persisted_events s @ [persisted_event_of ?p]\<rparr>"
  have pub: "publish_persisted accepts ?p (s\<lparr>announcements := dict_put (an_id a) ?p (announcements s)\<rparr>) = (Inr (), ?s1)"
    using assms(3,7) by (simp add: publish_persisted_def)
  have "dict_get (announcements ?s1) (an_id a) = Some ?p" by (simp add: dict_get_put)
  moreover have "an_parent_id old \<noteq> Some (an_id a)"
    if "dict_get (announcements ?s1) (an_id c) = Some old" for old
    using that assms(2,4,5) by (simp add: dict_get_put)
  ultimately obtain linked t where "link_child now c (an_id a) d ''completeness_trust_first_seen'' ?s1 = (Inr linked, t)"
    and "announcements t = dict_put (an_id c)
        (c\<lparr>an_parent_id := Some (an_id a), an_status := ActiveAnn, an_updated_at := now\<rparr>)
      (dict_put (an_id a) (?p\<lparr>an_canonical := merged_listing (an_canonical ?p) (an_canonical c),
          an_source_count := an_source_count ?p + 1, an_latest_source_id := Some (an_source_id c),
          an_updated_at := now\<rparr>) (announcements ?s1))"
    and "persisted_events t = persisted_events ?s1"
    using link_child_new [of ?s1 "an_id a" ?p c now d "''completeness_trust_first_seen''"] by auto
  with assms(1,2) pub show ?thesis
    by (auto simp: merge_duplicate_def save_parent_fresh [OF assms(6)] record_dedup_decision_def)
qed

lemma select_parent_either: "select_parent a c = (a, c) \<or> select_parent a c = (c, a)"
  by (auto simp: select_parent_def py_sort_def sort_key_two Let_def)

lemma process_possible:
  assumes fresh: "dict_get (announcements s) (an_id a) = None" and active: "an_status a = ActiveAnn"
    and dec: "decide cfg a s = Inr d" and possible: "dd_decision d = PossibleDuplicate"
  shows "\<exists>t b. process_announcement cfg accepts now a s = (Inr d, t) \<and> dict_get (announcements t) (an_id a) = Some b \<and>
    an_canonical b = an_canonical a \<and> b \<notin> set (search_user_facing t) \<and>
    dict_get (review_items t) (''possible_duplicate:'' @ an_idempotency_key a) \<noteq> None \<and> persisted_events t = persisted_events s"
proof -
  let ?s1 = "s\<lparr>dedup_metrics := dedup_metrics s @ [(an_id a, d)]\<rparr>"
  note run = process_decision [OF active dec, of accepts now, unfolded Let_def]
  let ?m = "a\<lparr>an_status := ManualReviewAnn\<rparr>"
  let ?b = "?m\<lparr>an_parent_id := None, an_latest_source_id := Some (an_source_id a)\<rparr>"
  let ?s2 = "?s1\<lparr>announcements := dict_put (an_id a) ?b (announcements ?s1)\<rparr>"
  let ?i = "new_review_item now ?b PossibleDuplicateReason d"
  have sp: "save_parent ?m ?s1 = (?b, ?s2)"
    using save_parent_fresh [of ?s1 ?m] fresh by simp
  let ?t = "record_dedup_decision d (snd (enqueue_review now ?b PossibleDuplicateReason d ?s2))"
  have anns: "announcements ?t = dict_put (an_id a) ?b (announcements s)"
    and evs: "persisted_events ?t = persisted_events s"
    by (auto simp: enqueue_review_def store_review_item_def record_dedup_decision_def split: option.split)
  have "dict_get (review_items (snd (store_review_item ?i ?s2))) (ri_review_id ?i) \<noteq> None"
    using reviews.stored [of ?i ?s2] by simp
  then have item: "dict_get (review_items ?t) (''possible_duplicate:'' @ an_idempotency_key a) \<noteq> None"
    by (simp add: enqueue_review_def record_dedup_decision_def new_review_item_def reason_text_def)
  have "dict_get (announcements ?t) (an_id a) = Some ?b"
    unfolding anns by (simp add: dict_get_put)
  moreover have "?b \<notin> set (search_user_facing ?t)" by (simp add: search_user_facing_def)
  ultimately show ?thesis using possible run sp evs item by auto
qed

text \<open>
  C8. Processing a new active announcement that the queue accepts: when it is new it is stored as a
  parent, published once and shown to the users; when it may be a duplicate it is stored for review
  with a review item, neither published nor shown; when it is a duplicate of a stored parent, one
  of the two becomes the child of the other, exactly one of them is shown, its canonical listing is
  the merge of both and it counts one source more, and the newcomer is published only when it became
  the parent.
\<close>

theorem process_announcement_outcome:
  assumes ok: "post_ai_ok s" and fresh: "dict_get (announcements s) (an_id a) = None"
    and active: "an_status a = ActiveAnn" and top: "an_parent_id a = None"
    and dec: "decide cfg a s = Inr d" and acc: "\<And>e. accepts e"
  shows "\<exists>t. process_announcement cfg accepts now a s = (Inr d, t) \<and>
    (case dd_decision d of
       NewAnnouncement \<Rightarrow>
         (\<exists>b. dict_get (announcements t) (an_id a) = Some b \<and> an_canonical b = an_canonical a \<and>
            b \<in> set (search_user_facing t) \<and> persisted_events t = persisted_events s @ [persisted_event_of b])
     | PossibleDuplicate \<Rightarrow>
         (\<exists>b. dict_get (announcements t) (an_id a) = Some b \<and> an_canonical b = an_canonical a \<and>
            b \<notin> set (search_user_facing t)) \<and>
         dict_get (review_items t) (''possible_duplicate:'' @ an_idempotency_key a) \<noteq> None \<and>
         persisted_events t = persisted_events s
     | _ \<Rightarrow>
         (\<exists>c b e. dict_get (announcements s) (an_id c) = Some c \<and> an_id c \<noteq> an_id a \<and>
            dict_get (announcements t) (an_id a) = Some b \<and> dict_get (announcements t) (an_id c) = Some e \<and>
            (if select_parent a c = (a, c)
             then an_parent_id b = None \<and> an_parent_id e = Some (an_id a) \<and>
               an_canonical b = merged_listing (an_canonical a) (an_canonical c) \<and>
               an_source_count b = an_source_count a + 1 \<and>
               length (persisted_events t) = Suc (length (persisted_events s))
             else an_parent_id b = Some (an_id c) \<and> an_parent_id e = None \<and>
               an_canonical e = merged_listing (an_canonical c) (an_canonical a) \<and>
               an_source_count e = an_source_count c + 1 \<and>
               persisted_events t = persisted_events s)))"
proof -
  let ?s1 = "s\<lparr>dedup_metrics := dedup_metrics s @ [(an_id a, d)]\<rparr>"
  note run = process_decision [OF active dec, of accepts now, unfolded Let_def]
  have ok1: "post_ai_ok ?s1" using ok by (rule post_ai_ok_same) simp_all
  have fresh1: "dict_get (announcements ?s1) (an_id a) = None" using fresh by simp
  have keyed: "dict_ok (announcements s)" using ok by (auto simp: post_ai_ok_def)
  consider (new) "dd_decision d = NewAnnouncement" | (possible) "dd_decision d = PossibleDuplicate"
    | (dup) "dd_decision d \<in> {ExactDuplicate, HighConfidence}"
    by (cases "dd_decision d") auto
  then show ?thesis
  proof cases
    case new
    let ?b = "a\<lparr>an_parent_id := None, an_latest_source_id := Some (an_source_id a)\<rparr>"
    have "?b \<in> set (dict_values (dict_put (an_id a) ?b (announcements s)))"
      by (rule dict_get_in_values [where k = "an_id a"]) (simp add: dict_get_put)
    with new run fresh active acc show ?thesis
      by (simp add: persist_new_def save_parent_fresh publish_persisted_def record_dedup_decision_def
          search_user_facing_def dict_get_put)
  next
    case possible
    then show ?thesis using process_possible [OF fresh active dec, of accepts now] by auto
  next
    case dup
    then obtain c where c: "dict_get (announcements s) (an_id c) = Some c" "dd_candidate_id d = Some (an_id c)"
      "an_id c \<noteq> an_id a" "an_parent_id c = None"
      using decide_candidate [OF ok dec] by (metis dedup_decision_type.distinct insertE singletonD)
    have step: "process_announcement cfg accepts now a s = merge_duplicate accepts now a c d ?s1"
      using dup run c by (auto split: dedup_decision_type.split)
    consider (inc) "select_parent a c = (a, c)" | (cand) "select_parent a c = (c, a)" "select_parent a c \<noteq> (a, c)"
      using select_parent_either [of a c] by blast
    then show ?thesis
    proof cases
      case inc
      from merge_into_incoming [OF inc c(3) active, of ?s1 accepts now d] c fresh acc dup step inc
      show ?thesis by (auto simp: dict_get_put intro!: exI [of _ c] split: dedup_decision_type.split)
    next
      case cand
      from merge_into_candidate [OF cand(1) c(3), of ?s1 accepts now d] c fresh dup step cand
      show ?thesis by (auto simp: dict_get_put intro!: exI [of _ c] split: dedup_decision_type.split)
    qed
  qed
qed

lemma decide_empty: "decide cfg a empty_post_ai =
    Inr \<lparr>dd_decision = NewAnnouncement, dd_score = 0, dd_threshold = possible_threshold cfg,
      dd_candidate_id = None, dd_config_version = cfg_version cfg, dd_breakdown = []\<rparr>"
  by (simp add: decide_def list_candidates_def empty_post_ai_def py_sort_desc_def evaluate_candidates_def)

lemma process_announcement_outcome_witness:
  "\<exists>t b. process_announcement default_scoring_config (\<lambda>_. True) 5 (blank_announcement ''m1'' ''u'') empty_post_ai =
     (Inr \<lparr>dd_decision = NewAnnouncement, dd_score = 0, dd_threshold = 60, dd_candidate_id = None,
        dd_config_version = ''estateflow.dedup.v2'', dd_breakdown = []\<rparr>, t) \<and>
     b \<in> set (search_user_facing t) \<and> persisted_events t = [persisted_event_of b]"
proof -
  have "dict_get (announcements empty_post_ai) (an_id (blank_announcement ''m1'' ''u'')) = None"
    by (simp add: empty_post_ai_def)
  moreover have "an_status (blank_announcement ''m1'' ''u'') = ActiveAnn"
    "an_parent_id (blank_announcement ''m1'' ''u'') = None"
    by (simp_all add: blank_announcement_def)
  moreover have "persisted_events empty_post_ai = []" by (simp add: empty_post_ai_def)
  ultimately show ?thesis
    using process_announcement_outcome [OF post_ai_ok_empty _ _ _ decide_empty,
      where a = "blank_announcement ''m1'' ''u''" and accepts = "\<lambda>_. True" and now = 5
        and cfg = default_scoring_config]
    by (auto simp: default_scoring_config_def)
qed

lemma reachable_review_approvable_witness:
  "\<exists>j t. approve_as_new 7 ''business_quality:m1'' (Some 1) None None None
      (snd (process_announcement default_scoring_config (\<lambda>_. True) 5
        (blank_announcement ''m1'' ''u''\<lparr>an_status := ManualReviewAnn\<rparr>) empty_post_ai)) = (Inr j, t) \<and>
     ri_status j = ApprovedReview"
  (is "\<exists>j t. approve_as_new _ _ _ _ _ _ ?s = _ \<and> _")
proof -
  have reach: "dedup_reachable default_scoring_config (\<lambda>_. True) ?s"
    by (rule dedup_reachable.Step [OF dedup_reachable.Initially dedup_step.Process])
  have "\<exists>i. dict_get (review_items ?s) ''business_quality:m1'' = Some i"
    by (simp add: process_announcement_def save_parent_def empty_post_ai_def blank_announcement_def Let_def
        enqueue_review_def store_review_item_def new_review_item_def reason_text_def)
  then obtain i where "dict_get (review_items ?s) ''business_quality:m1'' = Some i" by blast
  from reachable_review_approvable [OF reach this, of 1 7 None] show ?thesis by auto
qed

end
