(* ===== verification/EF_Review.thy ===== *)
theory EF_Review
  imports EF_PostAi
begin

text \<open>
  Theorems about the manual review queue and about what repeated processing does to the parent and
  child links of \<open>services/post_ai_dedup.py\<close>.
\<close>

section \<open>Decisions on review items\<close>

lemma require_itemI: "dict_get (review_items s) rid = Some i \<Longrightarrow> require_item rid s = Inr i"
  by (simp add: require_item_def)

lemmas review_actions = approve_merge_def approve_as_new_def approve_canonical_update_def
  reject_review_def merge_related_duplicate_def


text \<open>A settled action leaves its idempotency key behind.\<close>

lemma settle_item_records:
  "settle_item now i st act admin (Some k) note subject s = (Inr j, t) \<Longrightarrow>
   dict_get (action_audit t) k \<noteq> None \<and> dict_get (review_items t) (ri_review_id i) = Some j \<and>
   ri_status j = st \<and> ri_review_id j = ri_review_id i \<and> announcements t = announcements s \<and>
   persisted_events t = persisted_events s"
  by (auto simp: settle_item_def Let_def dict_get_put)

lemma replayed_no_effect:
  assumes "dict_get (action_audit t) k \<noteq> None" and "dict_get (review_items t) rid = Some j"
  shows "approve_as_new now rid admin (Some k) expected note t = (Inr j, t)"
    and "approve_canonical_update now rid aid c admin (Some k) expected note t = (Inr j, t)"
    and "reject_review now rid admin (Some k) expected note t = (Inr j, t)"
    and "merge_related_duplicate now rid admin (Some k) expected note t = (Inr j, t)"
    and "ri_status j \<noteq> ApprovedReview \<Longrightarrow>
      approve_merge now rid child pid d admin (Some k) expected note t = (Inr j, t)"
  using assms by (simp_all add: review_actions require_itemI action_replayed_def)

text \<open>
  Deciding is exactly-once: after a rejection under a fresh idempotency key, repeating the request
  with that key, by whichever action and whatever it expects, returns the rejected item and changes
  nothing.
\<close>

theorem review_replay_is_idempotent:
  assumes "dict_get (review_items s) rid = Some i" and "post_ai_ok s" and "\<not> action_replayed (Some k) s"
    and "ri_status i \<noteq> RejectedReview"
    and "reject_review now rid admin (Some k) expected note s = (Inr j, t)"
  shows "ri_status j = RejectedReview \<and> announcements t = announcements s \<and>
    reject_review now' rid admin' (Some k) expected' note' t = (Inr j, t) \<and>
    approve_as_new now' rid admin' (Some k) expected' note' t = (Inr j, t) \<and>
    merge_related_duplicate now' rid admin' (Some k) expected' note' t = (Inr j, t) \<and>
    approve_merge now' rid child pid d admin' (Some k) expected' note' t = (Inr j, t)"
proof -
  have "validate_action i expected admin = Inr ()"
    and "settle_item now i RejectedReview RejectReview admin (Some k) note None s = (Inr j, t)"
    using assms by (cases "validate_action i expected admin"; simp add: reject_review_def require_itemI)+
  note settled = settle_item_records [OF this(2)]
  have "ri_review_id i = rid"
    using assms(1,2) by (auto simp: post_ai_ok_def dest: keyed_by_getD)
  with settled replayed_no_effect [of t k rid j] show ?thesis by auto
qed

text \<open>
  Approve-and-merge looks at nothing once an item is approved: whoever asks, whatever status the
  request expects and whichever parent it names, the call succeeds, links nothing and activates the
  item's announcement again.
\<close>

theorem approve_merge_on_approved_unchecked:
  assumes "dict_get (review_items s) rid = Some i" and "ri_status i = ApprovedReview"
    and "dict_get (announcements s) (ri_announcement_id i) = Some a"
  shows "\<exists>t b. approve_merge now rid child pid d (Some 0) idem (Some PendingReview) note s = (Inr i, t) \<and>
    dict_get (announcements t) (ri_announcement_id i) = Some b \<and> an_status b = ActiveAnn \<and>
    an_parent_id b = an_parent_id a \<and> merge_audit t = merge_audit s \<and>
    approve_as_new now rid (Some 0) None (Some PendingReview) note s =
      (Inl (PermissionError ''Admin reviewer id is required.''), s)"
  using assms
  by (simp add: approve_merge_def approve_as_new_def require_itemI activate_announcement_def Let_def
      dict_get_put validate_action_def action_replayed_def)

lemma link_child_events [simp]: "persisted_events (snd (link_child now c p d pol s)) = persisted_events s"
  by (auto simp: link_child_def merge_parent_fields_eq Let_def split: option.split)

lemma activate_events [simp]: "persisted_events (snd (activate_announcement now k s)) = persisted_events s"
  by (auto simp: activate_announcement_def Let_def split: option.split)

lemma settle_events [simp]:
  "persisted_events (snd (settle_item now i st act admin idem note subject s)) = persisted_events s"
  by (simp add: settle_item_def Let_def)

lemma then_do_events:
  "(\<And>x s. persisted_events (snd (f x s)) = persisted_events s) \<Longrightarrow>
   persisted_events (snd (then_do p f)) = persisted_events (snd p)"
  by (cases p; cases "fst p") (auto simp: then_do_def)

text \<open>
  Approving a reviewed announcement as new makes it visible to the users, but no persisted event
  is published for it, neither then nor when it was first processed: the matching of saved filters,
  which is fed by those events, never sees an announcement that went through review.
\<close>

theorem approved_announcement_never_published:
  assumes review: "an_status a = ManualReviewAnn"
  shows "persisted_events (snd (process_announcement cfg accepts now a s)) = persisted_events s \<and>
    persisted_events (snd (approve_as_new now' rid admin idem expected note t)) = persisted_events t"
proof
  show "persisted_events (snd (process_announcement cfg accepts now a s)) = persisted_events s"
    using review
    by (auto simp: process_announcement_def Let_def save_parent_def enqueue_review_def store_review_item_def
        split: prod.split option.split)
  show "persisted_events (snd (approve_as_new now' rid admin idem expected note t)) = persisted_events t"
    by (auto simp: approve_as_new_def then_do_events split: sum.split)
qed

section \<open>Parents that change\<close>

text \<open>
  When a newcomer is more complete than the stored parent it repeats, it becomes the parent and
  the former parent its child, but the former parent's own children keep pointing at it: they are
  children of a child, and the new parent counts two sources whatever the old one had counted.
\<close>

theorem takeover_strands_children:
  assumes ok: "post_ai_ok s" and fresh: "dict_get (announcements s) (an_id a) = None"
    and active: "an_status a = ActiveAnn" and single: "an_source_count a = 1"
    and dec: "decide cfg a s = Inr d" "dd_decision d \<in> {ExactDuplicate, HighConfidence}"
    and cand: "dd_candidate_id d = Some (an_id c)" "dict_get (announcements s) (an_id c) = Some c"
      "an_id c \<noteq> an_id a" "an_parent_id c = None"
    and more: "canonical_completeness (an_canonical c) < canonical_completeness (an_canonical a)"
    and child: "dict_get (announcements s) k = Some g" "an_parent_id g = Some (an_id c)"
    and acc: "\<And>e. accepts e"
  shows "\<exists>t p c'. process_announcement cfg accepts now a s = (Inr d, t) \<and>
    dict_get (announcements t) (an_id a) = Some p \<and> an_source_count p = 2 \<and>
    dict_get (announcements t) (an_id c) = Some c' \<and> an_parent_id c' = Some (an_id a) \<and>
    dict_get (announcements t) k = Some g"
proof -
  have sel: "select_parent a c = (a, c)"
    using more by (simp add: select_parent_def py_sort_def sort_key_two parent_rank_def less_eq_prod_def)
  let ?s1 = "s\<lparr>dedup_metrics := dedup_metrics s @ [(an_id a, d)]\<rparr>"
  have step: "process_announcement cfg accepts now a s = merge_duplicate accepts now a c d ?s1"
    using process_decision [OF active dec(1), of accepts now] dec(2) cand
    by (auto simp: Let_def split: dedup_decision_type.split)
  have "k \<noteq> an_id a" "k \<noteq> an_id c"
    using child fresh cand by auto
  with merge_into_incoming [OF sel cand(3) active, of ?s1 accepts now d] cand fresh acc single child step
  show ?thesis by (auto simp: dict_get_put)
qed

text \<open>
  Processing a stored child again, now extracted more completely than its parent, makes the two
  children of each other: neither is shown to the users any more.
\<close>

theorem reprocessed_child_cycle:
  assumes ok: "post_ai_ok s" and active: "an_status a = ActiveAnn"
    and child: "dict_get (announcements s) (an_id a) = Some b" "an_parent_id b = Some (an_id c)"
      "an_status b = ActiveAnn"
    and dec: "decide cfg a s = Inr d" "dd_decision d \<in> {ExactDuplicate, HighConfidence}"
    and cand: "dd_candidate_id d = Some (an_id c)" "dict_get (announcements s) (an_id c) = Some c"
      "an_id c \<noteq> an_id a" "an_parent_id c = None"
    and more: "canonical_completeness (an_canonical c) < canonical_completeness (an_canonical a)"
    and acc: "\<And>e. accepts e"
  shows "\<exists>t a' c'. process_announcement cfg accepts now a s = (Inr d, t) \<and>
    dict_get (announcements t) (an_id a) = Some a' \<and> an_parent_id a' = Some (an_id c) \<and>
    dict_get (announcements t) (an_id c) = Some c' \<and> an_parent_id c' = Some (an_id a) \<and>
    a' \<notin> set (search_user_facing t) \<and> c' \<notin> set (search_user_facing t)"
proof -
  have sel: "select_parent a c = (a, c)"
    using more by (simp add: select_parent_def py_sort_def sort_key_two parent_rank_def less_eq_prod_def)
  let ?s1 = "s\<lparr>dedup_metrics := dedup_metrics s @ [(an_id a, d)]\<rparr>"
  let ?s2 = "?s1\<lparr>persisted_events := persisted_events ?s1 @ [persisted_event_of b]\<rparr>"
  have step: "process_announcement cfg accepts now a s = merge_duplicate accepts now a c d ?s1"
    using process_decision [OF active dec(1), of accepts now] dec(2) cand
    by (auto simp: Let_def split: dedup_decision_type.split)
  have idb: "an_id b = an_id a" using post_ai_okD(1) [OF ok child(1)] .
  have sp: "save_parent a ?s1 = (b, ?s1)" using child(1) by (simp add: save_parent_def)
  have pub: "publish_persisted accepts b ?s1 = (Inr (), ?s2)"
    using child(3) acc by (simp add: publish_persisted_def)
  have "an_parent_id old \<noteq> Some (an_id a)" if "dict_get (announcements ?s2) (an_id c) = Some old" for old
    using that cand by simp
  moreover have "dict_get (announcements ?s2) (an_id a) = Some b" using child(1) by simp
  ultimately obtain linked t where link: "link_child now c (an_id a) d ''completeness_trust_first_seen'' ?s2 = (Inr linked, t)"
    and anns: "announcements t = dict_put (an_id c)
        (c\<lparr>an_parent_id := Some (an_id a), an_status := ActiveAnn, an_updated_at := now\<rparr>)
      (dict_put (an_id a) (b\<lparr>an_canonical := merged_listing (an_canonical b) (an_canonical c),
          an_source_count := an_source_count b + 1, an_latest_source_id := Some (an_source_id c),
          an_updated_at := now\<rparr>) (announcements ?s2))"
    using link_child_new [of ?s2 "an_id a" b c now d "''completeness_trust_first_seen''"] idb by auto
  have run: "process_announcement cfg accepts now a s = (Inr d, record_dedup_decision d t)"
    using step sel sp pub link cand(3) idb by (simp add: merge_duplicate_def)
  show ?thesis
    using run anns cand(3) child(2)
    by (auto simp: record_dedup_decision_def dict_get_put search_user_facing_def)
qed

section \<open>Concrete runs\<close>

definition sample_item :: "review_status \<Rightarrow> review_item" where
  "sample_item st =
     \<lparr>ri_review_id = ''r'', ri_announcement_id = ''m1'', ri_reason = LowConfidence, ri_score_breakdown = [],
      ri_related_candidate_id = None, ri_status = st, ri_created_at = 0, ri_decided_at = None\<rparr>"

definition sample_state :: "review_status \<Rightarrow> post_ai" where
  "sample_state st = empty_post_ai
     \<lparr>announcements := [(''m1'', blank_announcement ''m1'' ''u'')], review_items := [(''r'', sample_item st)]\<rparr>"

lemma sample_state_ok: "post_ai_ok (sample_state st)"
  by (simp add: post_ai_ok_def sample_state_def sample_item_def empty_post_ai_def keyed_by_def dict_ok_def
      blank_announcement_def children_ok_def items_ok_def)


lemma review_replay_is_idempotent_witness:
  "\<exists>j t. reject_review 1 ''r'' (Some 4) (Some ''k'') None None (sample_state PendingReview) = (Inr j, t) \<and>
     approve_as_new 2 ''r'' (Some 5) (Some ''k'') None None t = (Inr j, t)"
proof -
  have item: "dict_get (review_items (sample_state PendingReview)) ''r'' = Some (sample_item PendingReview)"
    and fresh: "\<not> action_replayed (Some ''k'') (sample_state PendingReview)"
    and open': "ri_status (sample_item PendingReview) \<noteq> RejectedReview"
    by (simp_all add: sample_state_def action_replayed_def empty_post_ai_def sample_item_def)
  have "\<exists>j t. reject_review 1 ''r'' (Some 4) (Some ''k'') None None (sample_state PendingReview) = (Inr j, t)"
    using item fresh open' by (simp add: reject_review_def require_itemI validate_action_def settle_item_def Let_def)
  then obtain j t where
    run: "reject_review 1 ''r'' (Some 4) (Some ''k'') None None (sample_state PendingReview) = (Inr j, t)"
    by blast
  from review_replay_is_idempotent [OF item sample_state_ok fresh open' run, of 2 "Some 5" None None] run
  show ?thesis by blast
qed

lemma approve_merge_on_approved_unchecked_witness:
  "\<exists>t. approve_merge 1 ''r'' (blank_announcement ''m9'' ''v'') ''m1'' (manual_review_decision LowConfidence None [])
      (Some 0) None (Some PendingReview) None (sample_state ApprovedReview) = (Inr (sample_item ApprovedReview), t)"
proof -
  have "dict_get (review_items (sample_state ApprovedReview)) ''r'' = Some (sample_item ApprovedReview)"
    "ri_status (sample_item ApprovedReview) = ApprovedReview"
    "dict_get (announcements (sample_state ApprovedReview)) (ri_announcement_id (sample_item ApprovedReview)) =
       Some (blank_announcement ''m1'' ''u'')"
    by (simp_all add: sample_state_def sample_item_def)
  from approve_merge_on_approved_unchecked [OF this, of 1 "blank_announcement ''m9'' ''v''" "''m1''"] show ?thesis
    by blast
qed

lemma approved_announcement_never_published_witness:
  "persisted_events (snd (process_announcement default_scoring_config (\<lambda>_. True) 5
     (blank_announcement ''m1'' ''u''\<lparr>an_status := ManualReviewAnn\<rparr>) empty_post_ai)) = []"
  using approved_announcement_never_published [of "blank_announcement ''m1'' ''u''\<lparr>an_status := ManualReviewAnn\<rparr>"
      default_scoring_config "\<lambda>_. True" 5 empty_post_ai]
  by (simp add: empty_post_ai_def)

lemma evaluate_single:
  assumes "an_media a = []" and "same_source_url a c"
  shows "\<exists>d. evaluate_candidates cfg [c] a = Inr d \<and> dd_decision d = ExactDuplicate \<and>
    dd_candidate_id d = Some (an_id c)"
proof -
  obtain s where s: "score_candidate cfg a c = Inr s"
    using assms(1) by (simp add: score_candidate_eq image_phash_match_def media_pairs_def Let_def)
  then have "dd_decision (decision_from_score cfg s) = ExactDuplicate"
    using decision_evidence(2) [OF s] assms(2) by simp
  moreover have "dd_candidate_id (decision_from_score cfg s) = Some (an_id c)"
    using s by (auto simp: decision_from_score_def Let_def elim!: score_candidate_InrE)
  ultimately show ?thesis using s by (simp add: evaluate_candidates_def)
qed

text \<open>A parent with one child, and a more complete extraction of the same source link.\<close>

definition family_state :: post_ai where
  "family_state = empty_post_ai
     \<lparr>announcements :=
        [(''m1'', blank_announcement ''m1'' ''u''),
         (''m2'', blank_announcement ''m2'' ''u''\<lparr>an_parent_id := Some ''m1''\<rparr>)]\<rparr>"

definition fuller :: "string \<Rightarrow> announcement" where
  "fuller key = blank_announcement key ''u''\<lparr>an_canonical := blank_listing\<lparr>cl_floor := Some 4\<rparr>\<rparr>"

lemma family_state_ok: "post_ai_ok family_state"
  by (simp add: post_ai_ok_def family_state_def empty_post_ai_def keyed_by_def dict_ok_def
      blank_announcement_def children_ok_def items_ok_def)

lemma fuller_complete: "canonical_completeness blank_listing < canonical_completeness (an_canonical (fuller key))"
  by (simp add: canonical_completeness_def fuller_def blank_listing_def model_dump_def f_opt_def)

lemma family_decide:
  assumes "CHR '':'' \<notin> set key" and "key \<noteq> ''m1''"
  shows "\<exists>d. decide default_scoring_config (fuller key) family_state = Inr d \<and>
    dd_decision d = ExactDuplicate \<and> dd_candidate_id d = Some ''m1''"
proof -
  have url: "same_source_url (fuller key) (blank_announcement ''m1'' ''u'')"
    using plain_id_no_identity [OF assms(1)]
    by (simp add: same_source_url_def fuller_def blank_announcement_def truthy_def
        are_fanout_sibling_announcements_def are_fanout_source_message_siblings_def)
  have "cheap_candidate_match default_scoring_config (fuller key) (blank_announcement ''m1'' ''u'') = Inr True"
    unfolding cheap_candidate_match_def Let_def by (rule if_P) (rule url [unfolded same_source_url_def])
  then have "list_candidates default_scoring_config (fuller key) (candidate_limit default_scoring_config) family_state =
      Inr [blank_announcement ''m1'' ''u'']"
    using assms(2)
    by (simp add: list_candidates_def family_state_def empty_post_ai_def fuller_def blank_announcement_def
        is_parent_def py_sort_desc_def default_scoring_config_def)
  moreover have "an_media (fuller key) = []" by (simp add: fuller_def blank_announcement_def)
  ultimately show ?thesis
    using evaluate_single [OF _ url, of default_scoring_config]
    by (simp add: decide_def blank_announcement_def)
qed

lemma takeover_strands_children_witness:
  "\<exists>d t p. process_announcement default_scoring_config (\<lambda>_. True) 9 (fuller ''m3'') family_state = (Inr d, t) \<and>
     dict_get (announcements t) ''m3'' = Some p \<and> an_source_count p = 2"
proof -
  obtain d where d: "decide default_scoring_config (fuller ''m3'') family_state = Inr d"
    "dd_decision d \<in> {ExactDuplicate, HighConfidence}" "dd_candidate_id d = Some ''m1''"
    using family_decide [of "''m3''"] by auto
  let ?c = "blank_announcement ''m1'' ''u''"
  have "dict_get (announcements family_state) (an_id (fuller ''m3'')) = None"
    "an_status (fuller ''m3'') = ActiveAnn" "an_source_count (fuller ''m3'') = 1"
    "dd_candidate_id d = Some (an_id ?c)" "dict_get (announcements family_state) (an_id ?c) = Some ?c"
    "an_id ?c \<noteq> an_id (fuller ''m3'')" "an_parent_id ?c = None"
    "canonical_completeness (an_canonical ?c) < canonical_completeness (an_canonical (fuller ''m3''))"
    "dict_get (announcements family_state) ''m2'' = Some (blank_announcement ''m2'' ''u''\<lparr>an_parent_id := Some ''m1''\<rparr>)"
    "an_parent_id (blank_announcement ''m2'' ''u''\<lparr>an_parent_id := Some ''m1''\<rparr>) = Some (an_id ?c)"
    using d(3) fuller_complete [of "''m3''"]
    by (simp_all add: family_state_def fuller_def blank_announcement_def)
  from takeover_strands_children [OF family_state_ok this(1-3) d(1,2) this(4-10), of "\<lambda>_. True" 9]
  have "\<exists>t p. process_announcement default_scoring_config (\<lambda>_. True) 9 (fuller ''m3'') family_state = (Inr d, t) \<and>
      dict_get (announcements t) (an_id (fuller ''m3'')) = Some p \<and> an_source_count p = 2"
    by blast
  moreover have "an_id (fuller ''m3'') = ''m3''" by (simp add: fuller_def blank_announcement_def)
  ultimately show ?thesis by auto
qed

lemma reprocessed_child_cycle_witness:
  "\<exists>d t a'. process_announcement default_scoring_config (\<lambda>_. True) 9 (fuller ''m2'') family_state = (Inr d, t) \<and>
     dict_get (announcements t) ''m2'' = Some a' \<and> an_parent_id a' = Some ''m1''"
proof -
  obtain d where d: "decide default_scoring_config (fuller ''m2'') family_state = Inr d"
    "dd_decision d \<in> {ExactDuplicate, HighConfidence}" "dd_candidate_id d = Some ''m1''"
    using family_decide [of "''m2''"] by auto
  let ?c = "blank_announcement ''m1'' ''u''"
  let ?b = "blank_announcement ''m2'' ''u''\<lparr>an_parent_id := Some ''m1''\<rparr>"
  have "an_status (fuller ''m2'') = ActiveAnn" "dict_get (announcements family_state) (an_id (fuller ''m2'')) = Some ?b"
    "an_parent_id ?b = Some (an_id ?c)" "an_status ?b = ActiveAnn"
    "dd_candidate_id d = Some (an_id ?c)" "dict_get (announcements family_state) (an_id ?c) = Some ?c"
    "an_id ?c \<noteq> an_id (fuller ''m2'')" "an_parent_id ?c = None"
    "canonical_completeness (an_canonical ?c) < canonical_completeness (an_canonical (fuller ''m2''))"
    using d(3) fuller_complete [of "''m2''"]
    by (simp_all add: family_state_def fuller_def blank_announcement_def)
  from reprocessed_child_cycle [OF family_state_ok this(1-4) d(1,2) this(5-9), of "\<lambda>_. True" 9]
  have "\<exists>t a'. process_announcement default_scoring_config (\<lambda>_. True) 9 (fuller ''m2'') family_state = (Inr d, t) \<and>
      dict_get (announcements t) (an_id (fuller ''m2'')) = Some a' \<and> an_parent_id a' = Some (an_id ?c)"
    by blast
  moreover have "an_id (fuller ''m2'') = ''m2''" "an_id ?c = ''m1''"
    by (simp_all add: fuller_def blank_announcement_def)
  ultimately show ?thesis by auto
qed

end
