(* ===== verification/EF_Search.thy ===== *)
theory EF_Search
  imports EF_Scoring "HOL-Library.Multiset"
begin

text \<open>
  Search: \<open>services/search.py\<close>. Validation of the criteria, the matching predicate shared with the
  notification matcher, the sort orders and the in-memory repository.
\<close>

section \<open>Criteria\<close>

datatype search_sort = Newest | Cheapest | PriceDesc

record search_criteria =
  sc_min_price :: "rat option"
  sc_max_price :: "rat option"
  sc_include_per_person :: bool
  sc_district :: "string option"
  sc_districts :: "string list"
  sc_rooms :: "int option"
  sc_renovation_level :: "renovation_level option"
  sc_audience_tag :: "string option"
  sc_sort :: search_sort
  sc_limit :: int
  sc_offset :: int

definition default_criteria :: search_criteria where
  "default_criteria =
     \<lparr>sc_min_price = None, sc_max_price = None, sc_include_per_person = False, sc_district = None,
      sc_districts = [], sc_rooms = None, sc_renovation_level = None, sc_audience_tag = None,
      sc_sort = Newest, sc_limit = 10, sc_offset = 0\<rparr>"

text \<open>Blank names are dropped, and names that differ only in case are kept once.\<close>

fun normalize_districts :: "string list \<Rightarrow> string list \<Rightarrow> string list" where
  "normalize_districts acc [] = acc"
| "normalize_districts acc (d # ds) =
     normalize_districts
       (if collapse d \<noteq> [] \<and> lower (collapse d) \<notin> set (map lower acc) then acc @ [collapse d] else acc) ds"

fun dedupe_districts :: "string list \<Rightarrow> string list \<Rightarrow> string list" where
  "dedupe_districts seen [] = []"
| "dedupe_districts seen (d # ds) =
     (if lower d \<in> set seen then dedupe_districts seen ds
      else d # dedupe_districts (lower d # seen) ds)"

definition synchronize_district_filters :: "string option \<Rightarrow> string list \<Rightarrow> string list" where
  "synchronize_district_filters district districts =
     dedupe_districts [] ((case district of Some d \<Rightarrow> if d = [] then [] else [d] | None \<Rightarrow> []) @ districts)"

definition validate_audience_tag :: "string option \<Rightarrow> string option res" where
  "validate_audience_tag t =
     (case t of None \<Rightarrow> Inr None | Some v \<Rightarrow> res_bind (normalize_tag_key v) (\<lambda>k. Inr (Some k)))"

definition bounds_ok :: "search_criteria \<Rightarrow> bool" where
  "bounds_ok c \<longleftrightarrow>
     (\<forall>p. sc_min_price c = Some p \<longrightarrow> 0 \<le> p) \<and> (\<forall>p. sc_max_price c = Some p \<longrightarrow> 0 \<le> p) \<and>
     (\<forall>r. sc_rooms c = Some r \<longrightarrow> 0 \<le> r) \<and> 1 \<le> sc_limit c \<and> sc_limit c \<le> 50 \<and> 0 \<le> sc_offset c"

lemma bounds_ok_code [code]:
  "bounds_ok c \<longleftrightarrow>
     (case sc_min_price c of None \<Rightarrow> True | Some p \<Rightarrow> 0 \<le> p) \<and> (case sc_max_price c of None \<Rightarrow> True | Some p \<Rightarrow> 0 \<le> p) \<and>
     (case sc_rooms c of None \<Rightarrow> True | Some r \<Rightarrow> 0 \<le> r) \<and> 1 \<le> sc_limit c \<and> sc_limit c \<le> 50 \<and> 0 \<le> sc_offset c"
  by (simp add: bounds_ok_def split: option.split)

definition range_ok :: "search_criteria \<Rightarrow> bool" where
  "range_ok c \<longleftrightarrow>
     (case (sc_min_price c, sc_max_price c) of (Some p, Some q) \<Rightarrow> p \<le> q | _ \<Rightarrow> True)"

definition validate_criteria :: "search_criteria \<Rightarrow> search_criteria res" where
  "validate_criteria c =
     (let given = normalize_districts [] (sc_districts c) in
      if \<not> bounds_ok c then Inl (ValueError ''search_criteria'')
      else if 12 < length given then Inl (ValueError ''districts'')
      else res_bind (validate_audience_tag (sc_audience_tag c)) (\<lambda>tag.
        let ds = synchronize_district_filters (normalize_space (sc_district c)) given in
        if \<not> range_ok c
        then Inl (ValueError ''min_price must be less than or equal to max_price'')
        else Inr (c\<lparr>sc_district := (case ds of [] \<Rightarrow> None | d # _ \<Rightarrow> Some d), sc_districts := ds,
               sc_audience_tag := tag\<rparr>)))"

definition has_price_filter :: "search_criteria \<Rightarrow> bool" where
  "has_price_filter c \<longleftrightarrow> sc_min_price c \<noteq> None \<or> sc_max_price c \<noteq> None"

section \<open>Matching\<close>

definition price_in_range :: "search_criteria \<Rightarrow> rat option \<Rightarrow> bool" where
  "price_in_range c price \<longleftrightarrow>
     (case price of
        None \<Rightarrow> False
      | Some p \<Rightarrow>
          (case sc_min_price c of None \<Rightarrow> True | Some q \<Rightarrow> \<not> p < q) \<and>
          (case sc_max_price c of None \<Rightarrow> True | Some q \<Rightarrow> \<not> q < p))"

definition announcement_matches :: "announcement \<Rightarrow> search_criteria \<Rightarrow> bool" where
  "announcement_matches a c =
     (let k = an_canonical a in
      if an_status a \<noteq> ActiveAnn \<or> an_parent_id a \<noteq> None then False
      else if cl_price_period k = OneTime then False
      else if cl_price_basis k = PerPerson \<and> \<not> sc_include_per_person c then False
      else if has_price_filter c \<and> \<not> price_in_range c (cl_price_normalized_monthly k) then False
      else if sc_districts c \<noteq> [] \<and>
        lower (case cl_district k of None \<Rightarrow> [] | Some d \<Rightarrow> d) \<notin> set (map lower (sc_districts c)) then False
      else if sc_rooms c \<noteq> None \<and> cl_rooms k \<noteq> sc_rooms c then False
      else if sc_renovation_level c \<noteq> None \<and> cl_renovation_level k \<noteq> sc_renovation_level c then False
      else
        (case sc_audience_tag c of
           None \<Rightarrow> True
         | Some t \<Rightarrow> t \<in> set (map lower (cl_audience_tags k)) \<and>
             t \<notin> set (map lower (cl_audience_excluded_tags k))))"

section \<open>Sorting and paging\<close>

definition price_or_zero :: "announcement \<Rightarrow> rat" where
  "price_or_zero a = (case cl_price_normalized_monthly (an_canonical a) of None \<Rightarrow> 0 | Some p \<Rightarrow> p)"

definition unpriced :: "announcement \<Rightarrow> bool" where
  "unpriced a \<longleftrightarrow> cl_price_normalized_monthly (an_canonical a) = None"

definition sort_announcements :: "search_sort \<Rightarrow> announcement list \<Rightarrow> announcement list" where
  "sort_announcements order xs =
     (case order of
        Cheapest \<Rightarrow> py_sort (\<lambda>a. (unpriced a, price_or_zero a, an_created_at a, an_id a)) xs
      | PriceDesc \<Rightarrow> py_sort_desc (\<lambda>a. (\<not> unpriced a, price_or_zero a, an_created_at a, an_id a)) xs
      | Newest \<Rightarrow> py_sort_desc (\<lambda>a. (an_created_at a, an_id a)) xs)"

record search_metadata =
  md_returned :: nat
  md_limit :: int
  md_offset :: int
  md_total :: nat
  md_per_person_included :: bool
  md_null_price_included :: bool
  md_notes :: "string list"

definition search_meta :: "search_criteria \<Rightarrow> nat \<Rightarrow> nat \<Rightarrow> search_metadata" where
  "search_meta c returned found =
     \<lparr>md_returned = returned, md_limit = sc_limit c, md_offset = sc_offset c, md_total = found,
      md_per_person_included = sc_include_per_person c, md_null_price_included = (\<not> has_price_filter c),
      md_notes =
        [''Search returns active canonical parent announcements only.'',
         ''Sale/one_time listings are excluded from monthly rent search.''] @
        (if has_price_filter c
         then [''Listings with null price_normalized_monthly are excluded by price filters.''] else []) @
        (if sc_include_per_person c
         then [''Per-person prices are matched as per-person values; they are not converted to total.'']
         else [])\<rparr>"

definition search_announcements :: "search_criteria \<Rightarrow> announcement list \<Rightarrow> announcement list \<times> search_metadata" where
  "search_announcements c repo =
     (let found = sort_announcements (sc_sort c) (filter (\<lambda>a. announcement_matches a c) repo);
          items = page (nat (sc_offset c)) (nat (sc_limit c)) found
      in (items, search_meta c (length items) (length found)))"

definition search_get :: "string \<Rightarrow> announcement list \<Rightarrow> announcement option" where
  "search_get k repo =
     List.find (\<lambda>a. an_id a = k \<and> announcement_matches a default_criteria) repo"

section \<open>Validated criteria\<close>

definition distinct_names :: "string list \<Rightarrow> bool" where
  "distinct_names ds \<longleftrightarrow> distinct (map lower ds)"

lemma dedupe_districts_props:
  "distinct_names (dedupe_districts seen ds) \<and> set (map lower (dedupe_districts seen ds)) \<inter> set seen = {} \<and>
   set (dedupe_districts seen ds) \<subseteq> set ds"
proof (induction ds arbitrary: seen)
  case Nil
  then show ?case by (simp add: distinct_names_def)
next
  case (Cons d ds)
  show ?case
  proof (cases "lower d \<in> set seen")
    case True
    then show ?thesis using Cons.IH [of seen] by auto
  next
    case False
    then show ?thesis using Cons.IH [of "lower d # seen"] by (auto simp: distinct_names_def)
  qed
qed

lemma dedupe_districts_id:
  "distinct_names ds \<Longrightarrow> set (map lower ds) \<inter> set seen = {} \<Longrightarrow> dedupe_districts seen ds = ds"
  by (induction ds arbitrary: seen) (auto simp: distinct_names_def)

lemma normalize_districts_props:
  assumes "distinct_names acc" and "\<And>d. d \<in> set acc \<Longrightarrow> P d"
    and "\<And>d. collapse d \<noteq> [] \<Longrightarrow> P (collapse d)"
  shows "distinct_names (normalize_districts acc ds) \<and> (\<forall>d \<in> set (normalize_districts acc ds). P d)"
  using assms
proof (induction ds arbitrary: acc)
  case Nil
  then show ?case by simp
next
  case (Cons d ds)
  let ?acc = "if collapse d \<noteq> [] \<and> lower (collapse d) \<notin> set (map lower acc) then acc @ [collapse d] else acc"
  have "distinct_names ?acc" using Cons.prems(1) by (simp add: distinct_names_def)
  moreover have "P x" if "x \<in> set ?acc" for x
    using that Cons.prems(2,3) by (auto split: if_splits)
  ultimately show ?case using Cons.IH [of ?acc] Cons.prems(3) by simp
qed

lemma normalize_districts_id:
  "distinct_names (acc @ ds) \<Longrightarrow> \<forall>d \<in> set ds. d \<noteq> [] \<and> collapse d = d \<Longrightarrow>
   normalize_districts acc ds = acc @ ds"
  by (induction ds arbitrary: acc) (auto simp: distinct_names_def)

definition criteria_ok :: "search_criteria \<Rightarrow> bool" where
  "criteria_ok c \<longleftrightarrow>
     bounds_ok c \<and> range_ok c \<and> distinct_names (sc_districts c) \<and>
     (\<forall>d \<in> set (sc_districts c). d \<noteq> [] \<and> collapse d = d) \<and> length (sc_districts c) \<le> 13 \<and>
     sc_district c = (case sc_districts c of [] \<Rightarrow> None | d # _ \<Rightarrow> Some d) \<and>
     (\<forall>t. sc_audience_tag c = Some t \<longrightarrow> normalize_tag_key t = Inr t)"

lemma length_dedupe: "length (dedupe_districts seen ds) \<le> length ds"
  by (induction ds arbitrary: seen) (auto simp: le_SucI)

lemma validate_criteria_ok:
  assumes "validate_criteria c = Inr d"
  shows "criteria_ok d"
proof -
  let ?given = "normalize_districts [] (sc_districts c)"
  let ?ds = "synchronize_district_filters (normalize_space (sc_district c)) ?given"
  obtain tag where tag: "validate_audience_tag (sc_audience_tag c) = Inr tag"
    and ok: "bounds_ok c" "length ?given \<le> 12" "range_ok c"
    and d: "d = c\<lparr>sc_district := (case ?ds of [] \<Rightarrow> None | x # _ \<Rightarrow> Some x), sc_districts := ?ds,
               sc_audience_tag := tag\<rparr>"
    using assms by (auto simp: validate_criteria_def Let_def split: if_splits elim!: res_bind_InrE)
  have given: "\<forall>x \<in> set ?given. x \<noteq> [] \<and> collapse x = x"
    using normalize_districts_props [of "[]" "\<lambda>x. x \<noteq> [] \<and> collapse x = x" "sc_districts c"]
    by (simp add: distinct_names_def)
  let ?all = "(case normalize_space (sc_district c) of Some x \<Rightarrow> if x = [] then [] else [x] | None \<Rightarrow> []) @ ?given"
  have "distinct_names ?ds" and sub: "set ?ds \<subseteq> set ?all"
    using dedupe_districts_props [of "[]" ?all] by (simp_all add: synchronize_district_filters_def)
  moreover have "\<forall>x \<in> set ?all. x \<noteq> [] \<and> collapse x = x"
    using given normalize_space_fixed [of "sc_district c"] by (auto split: option.splits)
  then have "\<forall>x \<in> set ?ds. x \<noteq> [] \<and> collapse x = x" using sub by blast
  moreover have "length ?ds \<le> 13"
    using length_dedupe [of "[]" ?all] ok(2) unfolding synchronize_district_filters_def
    by (auto split: option.splits if_splits)
  moreover have "\<forall>t. tag = Some t \<longrightarrow> normalize_tag_key t = Inr t"
    using tag normalize_tag_key_fixed
    by (auto simp: validate_audience_tag_def split: option.splits elim!: res_bind_InrE)
  ultimately show ?thesis
    using ok by (simp add: criteria_ok_def d bounds_ok_def range_ok_def)
qed

text \<open>
  Validated criteria are canonical: validating them again gives the same criteria as long as they
  name at most twelve districts. With thirteen, which a single district beside a list of twelve
  others gives, the second validation is refused: such a saved filter can be written but never read.
\<close>

theorem validate_criteria_again:
  assumes "validate_criteria c = Inr d"
  shows "validate_criteria d =
    (if length (sc_districts d) \<le> 12 then Inr d else Inl (ValueError ''districts''))"
proof -
  have ok: "criteria_ok d" using assms by (rule validate_criteria_ok)
  let ?ds = "sc_districts d"
  have given: "normalize_districts [] ?ds = ?ds"
    using normalize_districts_id [of "[]" ?ds] ok by (simp add: criteria_ok_def)
  have sync: "synchronize_district_filters (normalize_space (sc_district d)) ?ds = ?ds"
  proof (cases ?ds)
    case Nil
    then show ?thesis using ok by (simp add: criteria_ok_def synchronize_district_filters_def normalize_space_def)
  next
    case (Cons x xs)
    then have x: "x \<noteq> []" "normalize_space (sc_district d) = Some x" "distinct_names (x # xs)"
      using ok by (simp_all add: criteria_ok_def normalize_space_def)
    then show ?thesis
      using Cons dedupe_districts_id [of xs "[lower x]"]
      by (simp add: synchronize_district_filters_def distinct_names_def)
  qed
  have "validate_audience_tag (sc_audience_tag d) = Inr (sc_audience_tag d)"
    using ok by (cases "sc_audience_tag d") (simp_all add: validate_audience_tag_def criteria_ok_def)
  with given sync ok show ?thesis by (simp add: validate_criteria_def criteria_ok_def)
qed

definition thirteen :: "string list" where
  "thirteen = [''b'', ''c'', ''d'', ''e'', ''f'', ''g'', ''h'', ''i'', ''j'', ''k'', ''l'', ''m'']"

lemma validate_criteria_again_witness:
  "\<exists>d. validate_criteria (default_criteria\<lparr>sc_district := Some ''a'', sc_districts := thirteen\<rparr>) = Inr d \<and>
     validate_criteria d = Inl (ValueError ''districts'')"
proof -
  let ?c = "default_criteria\<lparr>sc_district := Some ''a'', sc_districts := thirteen\<rparr>"
  have letters: "collapse [x] = [x]" if "\<not> is_space x" for x
    using that words_spaceless_append [of "[x]" "[]"] by (simp add: collapse_def spaceless_def)
  have single: "collapse ''a'' = ''a''" "collapse ''b'' = ''b''" "collapse ''c'' = ''c''" "collapse ''d'' = ''d''"
    "collapse ''e'' = ''e''" "collapse ''f'' = ''f''" "collapse ''g'' = ''g''" "collapse ''h'' = ''h''"
    "collapse ''i'' = ''i''" "collapse ''j'' = ''j''" "collapse ''k'' = ''k''" "collapse ''l'' = ''l''"
    "collapse ''m'' = ''m''"
    by (rule letters, simp add: is_space_def code_of_def)+
  have names: "distinct_names (''a'' # thirteen)"
    by (simp add: distinct_names_def thirteen_def lower_def lower_char_def is_upper_def code_of_def)
  then have "distinct_names thirteen" by (simp add: distinct_names_def)
  moreover have "\<forall>d \<in> set thirteen. d \<noteq> [] \<and> collapse d = d" by (simp add: thirteen_def single)
  ultimately have given: "normalize_districts [] thirteen = thirteen"
    using normalize_districts_id [of "[]" thirteen] by simp
  have sync: "synchronize_district_filters (Some ''a'') thirteen = ''a'' # thirteen"
    using dedupe_districts_id [OF names, of "[]"] by (simp add: synchronize_district_filters_def)
  have "length thirteen = 12" by (simp add: thirteen_def)
  then have "\<exists>d. validate_criteria ?c = Inr d \<and> length (sc_districts d) = 13"
    by (simp add: validate_criteria_def default_criteria_def given bounds_ok_def range_ok_def
        validate_audience_tag_def normalize_space_def single sync)
  then obtain d where d: "validate_criteria ?c = Inr d" "length (sc_districts d) = 13" by blast
  with validate_criteria_again [OF d(1)] show ?thesis by simp
qed

section \<open>Search results\<close>

lemma sorted_map_wrt: "sorted (map f xs) \<longleftrightarrow> sorted_wrt (\<lambda>a b. f a \<le> f b) xs"
  by (simp add: sorted_wrt_map)

lemma sorted_wrt_py_sort: "sorted_wrt (\<lambda>a b. f a \<le> f b) (py_sort f xs)"
  using sorted_py_sort [of f xs] by (simp only: sorted_map_wrt)

lemma sorted_wrt_py_sort_desc: "sorted_wrt (\<lambda>a b. f b \<le> f a) (py_sort_desc f xs)"
  using sorted_py_sort_desc [of f xs] by (simp add: sorted_wrt_rev sorted_wrt_map)

lemma mset_py_sort [simp]: "mset (py_sort f xs) = mset xs"
  and mset_py_sort_desc [simp]: "mset (py_sort_desc f xs) = mset xs"
  by (simp_all add: py_sort_def py_sort_desc_def)

lemma mset_sort_announcements [simp]: "mset (sort_announcements order xs) = mset xs"
  by (cases order) (simp_all add: sort_announcements_def)

lemma length_sort_announcements [simp]: "length (sort_announcements order xs) = length xs"
  by (cases order) (simp_all add: sort_announcements_def)

lemma set_sort_announcements [simp]: "set (sort_announcements order xs) = set xs"
  by (cases order) (simp_all add: sort_announcements_def)

lemma sorted_wrt_page: "sorted_wrt P xs \<Longrightarrow> sorted_wrt P (page offset limit xs)"
  by (simp add: page_def sorted_wrt_take sorted_wrt_drop)

text \<open>The order the users asked for; listings without a price come last in both price orders.\<close>

definition in_order :: "search_sort \<Rightarrow> announcement \<Rightarrow> announcement \<Rightarrow> bool" where
  "in_order order a b \<longleftrightarrow>
     (case order of
        Newest \<Rightarrow> an_created_at b \<le> an_created_at a
      | Cheapest \<Rightarrow> unpriced b \<or> \<not> unpriced a \<and> price_or_zero a \<le> price_or_zero b
      | PriceDesc \<Rightarrow> unpriced b \<or> \<not> unpriced a \<and> price_or_zero b \<le> price_or_zero a)"

lemma sort_announcements_in_order: "sorted_wrt (in_order order) (sort_announcements order xs)"
proof (cases order)
  case Newest
  then show ?thesis
    using sorted_wrt_py_sort_desc [of "\<lambda>a. (an_created_at a, an_id a)" xs]
    by (auto simp: sort_announcements_def in_order_def less_eq_prod_def elim!: sorted_wrt_mono_rel [rotated])
next
  case Cheapest
  then show ?thesis
    using sorted_wrt_py_sort [of "\<lambda>a. (unpriced a, price_or_zero a, an_created_at a, an_id a)" xs]
    by (auto simp: sort_announcements_def in_order_def less_eq_prod_def elim!: sorted_wrt_mono_rel [rotated])
next
  case PriceDesc
  then show ?thesis
    using sorted_wrt_py_sort_desc [of "\<lambda>a. (\<not> unpriced a, price_or_zero a, an_created_at a, an_id a)" xs]
    by (auto simp: sort_announcements_def in_order_def less_eq_prod_def elim!: sorted_wrt_mono_rel [rotated])
qed

lemma concat_pages: "concat (map (\<lambda>i. page (i * l) l xs) [0..<n]) = take (n * l) xs"
proof (induction n)
  case (Suc n)
  have "take (n * l) xs @ take l (drop (n * l) xs) = take (n * l + l) xs" by (simp add: take_add)
  then show ?case using Suc by (simp add: page_def add.commute)
qed simp

lemma price_filter_offset [simp]:
  "has_price_filter (c\<lparr>sc_offset := k\<rparr>) = has_price_filter c"
  "price_in_range (c\<lparr>sc_offset := k\<rparr>) p = price_in_range c p"
  by (simp_all add: has_price_filter_def price_in_range_def cong: option.case_cong)

lemma announcement_matches_offset [simp]:
  "announcement_matches a (c\<lparr>sc_offset := k\<rparr>) = announcement_matches a c"
  unfolding announcement_matches_def price_filter_offset Let_def by (simp cong: option.case_cong if_cong)

text \<open>
  C11. A search returns matching announcements only, in the order asked for, never more than the
  limit, with the number of all matches; and walking through the pages of one criterion returns
  every match exactly once.
\<close>

theorem search_pages_complete:
  assumes "1 \<le> sc_limit c" and "length (filter (\<lambda>a. announcement_matches a c) repo) \<le> n * nat (sc_limit c)"
  shows "mset (concat (map (\<lambda>i. fst (search_announcements (c\<lparr>sc_offset := int i * sc_limit c\<rparr>) repo)) [0..<n])) =
      filter_mset (\<lambda>a. announcement_matches a c) (mset repo) \<and>
    (\<forall>a \<in> set (fst (search_announcements c repo)). a \<in> set repo \<and> announcement_matches a c) \<and>
    sorted_wrt (in_order (sc_sort c)) (fst (search_announcements c repo)) \<and>
    int (length (fst (search_announcements c repo))) \<le> sc_limit c \<and>
    md_total (snd (search_announcements c repo)) = length (filter (\<lambda>a. announcement_matches a c) repo)"
proof -
  let ?l = "nat (sc_limit c)"
  let ?found = "sort_announcements (sc_sort c) (filter (\<lambda>a. announcement_matches a c) repo)"
  have "fst (search_announcements (c\<lparr>sc_offset := int i * sc_limit c\<rparr>) repo) = page (i * ?l) ?l ?found" for i
    using assms(1) by (simp add: search_announcements_def Let_def nat_mult_distrib)
  then have "concat (map (\<lambda>i. fst (search_announcements (c\<lparr>sc_offset := int i * sc_limit c\<rparr>) repo)) [0..<n]) = ?found"
    using assms(2) by (simp add: concat_pages)
  then have "mset (concat (map (\<lambda>i. fst (search_announcements (c\<lparr>sc_offset := int i * sc_limit c\<rparr>) repo)) [0..<n])) =
      filter_mset (\<lambda>a. announcement_matches a c) (mset repo)"
    by (simp add: mset_filter)
  moreover have "fst (search_announcements c repo) = page (nat (sc_offset c)) ?l ?found"
    and "md_total (snd (search_announcements c repo)) = length (filter (\<lambda>a. announcement_matches a c) repo)"
    by (simp_all add: search_announcements_def Let_def search_meta_def)
  ultimately show ?thesis
    using set_page [of "nat (sc_offset c)" ?l ?found] assms(1)
      sorted_wrt_page [OF sort_announcements_in_order]
    by (auto simp: length_page)
qed

lemma blank_matches: "announcement_matches (blank_announcement k u) default_criteria"
  by (simp add: announcement_matches_def blank_announcement_def blank_listing_def default_criteria_def
      has_price_filter_def)

lemma search_pages_complete_witness:
  "mset (concat (map (\<lambda>i. fst (search_announcements (default_criteria\<lparr>sc_offset := int i * 10\<rparr>)
      [blank_announcement ''m1'' ''u'', blank_announcement ''m2'' ''v''])) [0..<1])) =
   {#blank_announcement ''m1'' ''u'', blank_announcement ''m2'' ''v''#}"
  using search_pages_complete [of default_criteria
      "[blank_announcement ''m1'' ''u'', blank_announcement ''m2'' ''v'']" 1]
  by (simp add: blank_matches default_criteria_def [THEN arg_cong [where f = sc_limit]])

text \<open>
  Opening a listing by its id applies the default criteria, which leave out per-person prices: an
  announcement priced per person that a search returned cannot be opened.
\<close>

theorem search_get_misses_per_person:
  assumes "an_status a = ActiveAnn" and "an_parent_id a = None"
    and "cl_price_basis (an_canonical a) = PerPerson" and "cl_price_period (an_canonical a) \<noteq> OneTime"
  shows "a \<in> set (fst (search_announcements (default_criteria\<lparr>sc_include_per_person := True\<rparr>) [a])) \<and>
    search_get (an_id a) [a] = None"
  using assms
  by (simp add: search_announcements_def search_get_def announcement_matches_def default_criteria_def
      has_price_filter_def Let_def sort_announcements_def py_sort_desc_def page_def)

lemma search_get_misses_per_person_witness:
  "search_get ''m1'' [blank_announcement ''m1'' ''u''\<lparr>an_canonical := blank_listing\<lparr>cl_price_basis := PerPerson\<rparr>\<rparr>] =
     None"
  using search_get_misses_per_person
    [of "blank_announcement ''m1'' ''u''\<lparr>an_canonical := blank_listing\<lparr>cl_price_basis := PerPerson\<rparr>\<rparr>"]
  by (simp add: blank_announcement_def blank_listing_def)

end
