(* ===== verification/EF_SavedFilters.thy ===== *)
theory EF_SavedFilters
  imports EF_Search
begin

text \<open>
  Saved filters: the service of \<open>services/saved_filters.py\<close> over the in-memory repository of
  \<open>repositories/saved_filters.py\<close>. The clock, the identifier that \<open>uuid4\<close> yields and the activation
  recorder (which may raise) are arguments.
\<close>

section \<open>State and repository\<close>

record user_filter =
  uf_filter_id :: string
  uf_user_id :: int
  uf_name :: string
  uf_criteria :: search_criteria
  uf_enabled :: bool
  uf_created_at :: time
  uf_updated_at :: time

record filter_store =
  stored_filters :: "(string, user_filter) dict"
  filter_events :: "(string \<times> int) list"

definition create_filter ::
  "time \<Rightarrow> string \<Rightarrow> int \<Rightarrow> string \<Rightarrow> search_criteria \<Rightarrow> filter_store \<Rightarrow> user_filter \<times> filter_store" where
  "create_filter now fid user name c s =
     (let f = \<lparr>uf_filter_id = fid, uf_user_id = user, uf_name = name, uf_criteria = c, uf_enabled = True,
               uf_created_at = now, uf_updated_at = now\<rparr>
      in (f, s\<lparr>stored_filters := dict_put fid f (stored_filters s)\<rparr>))"

definition list_for_user :: "int \<Rightarrow> filter_store \<Rightarrow> user_filter list" where
  "list_for_user user s =
     py_sort_desc uf_created_at (filter (\<lambda>f. uf_user_id f = user) (dict_values (stored_filters s)))"

definition get_for_user :: "int \<Rightarrow> string \<Rightarrow> filter_store \<Rightarrow> user_filter option" where
  "get_for_user user fid s =
     (case dict_get (stored_filters s) fid of
        None \<Rightarrow> None
      | Some f \<Rightarrow> if uf_user_id f \<noteq> user then None else Some f)"

definition update_filter ::
  "time \<Rightarrow> int \<Rightarrow> string \<Rightarrow> string option \<Rightarrow> search_criteria option \<Rightarrow> bool option \<Rightarrow> filter_store \<Rightarrow>
   user_filter res \<times> filter_store" where
  "update_filter now user fid name c enabled s =
     (case get_for_user user fid s of
        None \<Rightarrow> (Inl (KeyError ''Saved filter not found.''), s)
      | Some f \<Rightarrow>
          (let u = f\<lparr>uf_name := (case name of None \<Rightarrow> uf_name f | Some n \<Rightarrow> n),
                     uf_criteria := (case c of None \<Rightarrow> uf_criteria f | Some x \<Rightarrow> x),
                     uf_enabled := (case enabled of None \<Rightarrow> uf_enabled f | Some b \<Rightarrow> b),
                     uf_updated_at := now\<rparr>
           in (Inr u, s\<lparr>stored_filters := dict_put fid u (stored_filters s)\<rparr>)))"

definition delete_filter :: "int \<Rightarrow> string \<Rightarrow> filter_store \<Rightarrow> bool \<times> filter_store" where
  "delete_filter user fid s =
     (case get_for_user user fid s of
        None \<Rightarrow> (False, s)
      | Some f \<Rightarrow> (True, s\<lparr>stored_filters := dict_pop fid (stored_filters s)\<rparr>))"

section \<open>Service\<close>

definition validate_name :: "string \<Rightarrow> string res" where
  "validate_name name =
     (let clean = collapse name in
      if \<not> (1 \<le> length clean \<and> length clean \<le> 64)
      then Inl (ValueError ''Filter name must be 1-64 characters.'') else Inr clean)"

definition service_create ::
  "nat \<Rightarrow> (int \<Rightarrow> string \<Rightarrow> unit res) \<Rightarrow> time \<Rightarrow> string \<Rightarrow> int \<Rightarrow> string \<Rightarrow> search_criteria \<Rightarrow> filter_store \<Rightarrow>
   user_filter res \<times> filter_store" where
  "service_create limit activate now fid user name c s =
     (case validate_name name of
        Inl e \<Rightarrow> (Inl e, s)
      | Inr clean \<Rightarrow>
          if limit \<le> length (list_for_user user s)
          then (Inl (ValueError ''Saved filter limit reached.''), s)
          else
            (case create_filter now fid user clean c s of
               (f, s1) \<Rightarrow>
                 (case activate user (uf_filter_id f) of
                    Inl e \<Rightarrow> (Inl e, s1)
                  | Inr _ \<Rightarrow> (Inr f, s1\<lparr>filter_events := filter_events s1 @
                      [(''saved_filter_created:'' @ uf_filter_id f, user)]\<rparr>))))"

definition service_update ::
  "time \<Rightarrow> int \<Rightarrow> string \<Rightarrow> string option \<Rightarrow> search_criteria option \<Rightarrow> bool option \<Rightarrow> filter_store \<Rightarrow>
   user_filter res \<times> filter_store" where
  "service_update now user fid name c enabled s =
     (case name of
        None \<Rightarrow> update_filter now user fid None c enabled s
      | Some n \<Rightarrow>
          (case validate_name n of
             Inl e \<Rightarrow> (Inl e, s)
           | Inr clean \<Rightarrow> update_filter now user fid (Some clean) c enabled s))"

definition set_filter_enabled ::
  "time \<Rightarrow> int \<Rightarrow> string \<Rightarrow> bool \<Rightarrow> filter_store \<Rightarrow> user_filter res \<times> filter_store" where
  "set_filter_enabled now user fid enabled s = service_update now user fid None None (Some enabled) s"

section \<open>Invariant\<close>

definition name_ok :: "string \<Rightarrow> bool" where
  "name_ok n \<longleftrightarrow> 1 \<le> length n \<and> length n \<le> 64 \<and> collapse n = n"

definition count_for_user :: "int \<Rightarrow> (string, user_filter) dict \<Rightarrow> nat" where
  "count_for_user user d = length (filter (\<lambda>f. uf_user_id f = user) (dict_values d))"

definition filters_ok :: "nat \<Rightarrow> filter_store \<Rightarrow> bool" where
  "filters_ok limit s \<longleftrightarrow>
     keyed_by uf_filter_id (stored_filters s) \<and>
     (\<forall>f \<in> set (dict_values (stored_filters s)). name_ok (uf_name f)) \<and>
     (\<forall>user. count_for_user user (stored_filters s) \<le> limit)"

lemma validate_name_ok: "validate_name n = Inr c \<Longrightarrow> name_ok c"
  by (auto simp: validate_name_def name_ok_def Let_def split: if_splits)

lemma length_list_for_user: "length (list_for_user user s) = count_for_user user (stored_filters s)"
  by (simp add: list_for_user_def count_for_user_def)

lemma values_put: "set (dict_values (dict_put k v d)) \<subseteq> insert v (set (dict_values d))"
  by (induction d) auto

lemma values_pop: "set (dict_values (dict_pop k d)) \<subseteq> set (dict_values d)"
  by (induction d) (auto simp: AList.delete_eq)

lemma count_put_new:
  "dict_get d k = None \<Longrightarrow>
   count_for_user u (dict_put k f d) = count_for_user u d + (if uf_user_id f = u then 1 else 0)"
  by (simp add: dict_put_new count_for_user_def)

lemma count_put_same_user:
  "dict_get d k = Some f \<Longrightarrow> uf_user_id g = uf_user_id f \<Longrightarrow>
   count_for_user u (dict_put k g d) = count_for_user u d"
  by (induction d) (auto simp: count_for_user_def split: if_splits)

lemma count_pop: "count_for_user u (dict_pop k d) \<le> count_for_user u d"
  by (induction d) (auto simp: count_for_user_def AList.delete_eq)

lemma update_filter_ok:
  assumes "filters_ok limit s" and "\<And>n. name = Some n \<Longrightarrow> name_ok n"
  shows "filters_ok limit (snd (update_filter now user fid name c enabled s))"
proof (cases "get_for_user user fid s")
  case None
  then show ?thesis using assms by (simp add: update_filter_def)
next
  case (Some f)
  then have f: "dict_get (stored_filters s) fid = Some f"
    by (auto simp: get_for_user_def split: option.splits if_splits)
  let ?u = "f\<lparr>uf_name := (case name of None \<Rightarrow> uf_name f | Some n \<Rightarrow> n),
                     uf_criteria := (case c of None \<Rightarrow> uf_criteria f | Some x \<Rightarrow> x),
                     uf_enabled := (case enabled of None \<Rightarrow> uf_enabled f | Some b \<Rightarrow> b),
                     uf_updated_at := now\<rparr>"
  have st: "stored_filters (snd (update_filter now user fid name c enabled s)) =
      dict_put fid ?u (stored_filters s)"
    using Some by (simp add: update_filter_def Let_def)
  have "name_ok (uf_name f)"
    using assms(1) dict_get_in_values [OF f] unfolding filters_ok_def by blast
  then have "name_ok (uf_name ?u)" using assms(2) by (cases name) auto
  then have "\<forall>g \<in> set (dict_values (dict_put fid ?u (stored_filters s))). name_ok (uf_name g)"
    using values_put [of fid ?u "stored_filters s"] assms(1) unfolding filters_ok_def by blast
  moreover have "keyed_by uf_filter_id (dict_put fid ?u (stored_filters s))"
    using assms(1) f by (intro keyed_by_modify) (auto simp: filters_ok_def)
  ultimately show ?thesis
    using assms(1) count_put_same_user [OF f, of ?u] by (simp add: filters_ok_def st)
qed

lemma filter_operations_ok:
  assumes "filters_ok limit s" and "dict_get (stored_filters s) fid' = None"
  shows "filters_ok limit (snd (service_create limit activate now fid' user name c s)) \<and>
    filters_ok limit (snd (service_update now user fid uname uc enabled s)) \<and>
    filters_ok limit (snd (set_filter_enabled now user fid b s)) \<and>
    filters_ok limit (snd (delete_filter user fid s))"
proof -
  have update: "filters_ok limit (snd (service_update now user fid n x e s))" for n x e
    using assms(1)
    by (auto simp: service_update_def intro!: update_filter_ok intro: validate_name_ok
        split: option.split sum.split)
  have "filters_ok limit (snd (service_create limit activate now fid' user name c s))"
  proof (cases "validate_name name")
    case (Inl e)
    then show ?thesis using assms(1) by (simp add: service_create_def)
  next
    case (Inr clean)
    let ?f = "\<lparr>uf_filter_id = fid', uf_user_id = user, uf_name = clean, uf_criteria = c, uf_enabled = True,
               uf_created_at = now, uf_updated_at = now\<rparr>"
    let ?d = "dict_put fid' ?f (stored_filters s)"
    show ?thesis
    proof (cases "limit \<le> length (list_for_user user s)")
      case True
      then show ?thesis using assms(1) Inr by (simp add: service_create_def)
    next
      case False
      then have "count_for_user u ?d \<le> limit" for u
        using assms count_put_new [OF assms(2), of u ?f]
        by (auto simp: filters_ok_def length_list_for_user Suc_le_eq)
      moreover have "\<forall>g \<in> set (dict_values ?d). name_ok (uf_name g)"
      proof
        fix g
        assume "g \<in> set (dict_values ?d)"
        then have "g = ?f \<or> g \<in> set (dict_values (stored_filters s))"
          using values_put [of fid' ?f "stored_filters s"] by blast
        then show "name_ok (uf_name g)"
          using assms(1) validate_name_ok [OF Inr] unfolding filters_ok_def by force
      qed
      moreover have "keyed_by uf_filter_id ?d"
        using assms(1) by (simp add: filters_ok_def)
      moreover have "stored_filters (snd (service_create limit activate now fid' user name c s)) = ?d"
        using False Inr by (auto simp: service_create_def create_filter_def Let_def split: sum.split)
      ultimately show ?thesis by (simp add: filters_ok_def)
    qed
  qed
  moreover have "filters_ok limit (snd (delete_filter user fid s))"
  proof -
    have "keyed_by uf_filter_id (dict_pop fid (stored_filters s))"
      using assms(1) by (auto simp: filters_ok_def keyed_by_def dict_get_pop split: if_splits)
    moreover have "\<forall>f \<in> set (dict_values (dict_pop fid (stored_filters s))). name_ok (uf_name f)"
      using assms(1) values_pop [of fid "stored_filters s"] unfolding filters_ok_def by blast
    moreover have "count_for_user u (dict_pop fid (stored_filters s)) \<le> limit" for u
      using assms(1) count_pop [of u fid "stored_filters s"] unfolding filters_ok_def
      by (meson order_trans)
    ultimately have "filters_ok limit (s\<lparr>stored_filters := dict_pop fid (stored_filters s)\<rparr>)"
      by (simp add: filters_ok_def)
    then show ?thesis using assms(1) by (simp add: delete_filter_def split: option.split)
  qed
  ultimately show ?thesis using update unfolding set_filter_enabled_def by blast
qed

text \<open>
  C12. The service keeps its promises under every operation, failed ones included, for filter ids that
  are fresh: filters are stored under their ids, their names are 1 to 64 characters of
  space-normalised text, and no user has more filters than the limit.
\<close>

theorem saved_filters_invariant:
  assumes "filters_ok limit s" and "dict_get (stored_filters s) fid' = None"
  shows "filters_ok limit (snd (service_create limit activate now fid' user name c s)) \<and>
    filters_ok limit (snd (service_update now user fid uname uc enabled s)) \<and>
    filters_ok limit (snd (set_filter_enabled now user fid b s)) \<and>
    filters_ok limit (snd (delete_filter user fid s))"
  using assms by (rule filter_operations_ok)

lemma saved_filters_invariant_witness:
  "filters_ok 1 (snd (service_create 1 (\<lambda>_ _. Inr ()) 0 ''f1'' 7 ''my filter'' default_criteria
      \<lparr>stored_filters = [], filter_events = []\<rparr>))"
proof -
  have "filters_ok 1 \<lparr>stored_filters = [], filter_events = []\<rparr>"
    by (simp add: filters_ok_def count_for_user_def)
  moreover have "dict_get (stored_filters \<lparr>stored_filters = [], filter_events = []\<rparr>) ''f1'' = None" by simp
  ultimately show ?thesis by (rule saved_filters_invariant [THEN conjunct1])
qed

section \<open>Isolation of users\<close>

text \<open>
  No request of a user reads, changes or deletes another user's filter: whatever user \<open>u\<close> does, a
  filter of someone else is still stored unchanged, was not returned, and stays out of \<open>u\<close>'s list.
\<close>

theorem saved_filters_isolated:
  assumes "dict_get (stored_filters s) k = Some f" and "uf_user_id f \<noteq> u"
    and "dict_get (stored_filters s) fresh_id = None"
  shows "dict_get (stored_filters (snd (service_create limit activate now fresh_id u name c s))) k = Some f \<and>
    dict_get (stored_filters (snd (service_update now u fid uname uc enabled s))) k = Some f \<and>
    dict_get (stored_filters (snd (delete_filter u fid s))) k = Some f \<and>
    get_for_user u k s = None \<and> f \<notin> set (list_for_user u s) \<and>
    service_update now u k None uc enabled s = (Inl (KeyError ''Saved filter not found.''), s) \<and>
    delete_filter u k s = (False, s)"
proof -
  have none: "get_for_user u k s = None"
    using assms by (simp add: get_for_user_def)
  have "k \<noteq> fresh_id" using assms by auto
  then have "dict_get (stored_filters (snd (service_create limit activate now fresh_id u name c s))) k = Some f"
    using assms(1)
    by (auto simp: service_create_def create_filter_def Let_def dict_get_put split: sum.split)
  moreover have upd: "dict_get (stored_filters (snd (update_filter now u fid n uc enabled s))) k = Some f" for n
    using assms none by (cases "fid = k") (auto simp: update_filter_def Let_def dict_get_put split: option.split)
  moreover have "dict_get (stored_filters (snd (service_update now u fid uname uc enabled s))) k = Some f"
    using upd assms(1) by (auto simp: service_update_def split: option.split sum.split)
  moreover have "dict_get (stored_filters (snd (delete_filter u fid s))) k = Some f"
    using assms none by (cases "fid = k") (auto simp: delete_filter_def dict_get_pop split: option.split)
  ultimately show ?thesis
    using none assms(2) by (simp add: list_for_user_def service_update_def update_filter_def delete_filter_def)
qed

lemma saved_filters_isolated_witness:
  "delete_filter 8 ''f1'' \<lparr>stored_filters = [(''f1'', \<lparr>uf_filter_id = ''f1'', uf_user_id = 7, uf_name = ''n'',
      uf_criteria = default_criteria, uf_enabled = True, uf_created_at = 0, uf_updated_at = 0\<rparr>)],
     filter_events = []\<rparr> =
   (False, \<lparr>stored_filters = [(''f1'', \<lparr>uf_filter_id = ''f1'', uf_user_id = 7, uf_name = ''n'',
      uf_criteria = default_criteria, uf_enabled = True, uf_created_at = 0, uf_updated_at = 0\<rparr>)],
     filter_events = []\<rparr>)"
  (is "delete_filter _ _ ?s = _")
  using saved_filters_isolated [of ?s "''f1''" _ 8 "''f2''"] by simp

end
