(* ===== verification/EF_Notifications.thy ===== *)
theory EF_Notifications
  imports EF_SavedFilters EF_Once
begin

text \<open>
  Notifications: \<open>services/notifications.py\<close>. The matching engine, the in-memory job repository, the
  rate limiter and the delivery worker. What the Telegram client does with a message, the matching
  predicate (which may raise), the identifiers of new jobs and the clock are arguments.
\<close>

section \<open>Data\<close>

record notification_user =
  nu_user_id :: int
  nu_notifications_enabled :: bool
  nu_premium_until :: "time option"
  nu_status :: string

definition is_premium :: "notification_user \<Rightarrow> time \<Rightarrow> bool" where
  "is_premium u now \<longleftrightarrow> (case nu_premium_until u of None \<Rightarrow> False | Some t \<Rightarrow> now < t)"

datatype notification_status = PendingJob | SendingJob | SentJob | FailedJob | SuppressedJob

datatype notification_queue = StandardQueue | HighPriorityQueue

record notification_job =
  nj_notification_id :: string
  nj_user_id :: int
  nj_filter_id :: string
  nj_announcement_id :: string
  nj_status :: notification_status
  nj_priority :: int
  nj_queue_name :: notification_queue
  nj_created_at :: time
  nj_attempts :: nat
  nj_next_attempt_at :: "time option"
  nj_telegram_message_id :: "string option"

definition notification_idempotency_key :: "int \<Rightarrow> string \<Rightarrow> string \<Rightarrow> string" where
  "notification_idempotency_key user fid aid =
     ''notification:'' @ str_int user @ '':'' @ fid @ '':'' @ aid"

definition nj_key :: "notification_job \<Rightarrow> string" where
  "nj_key j = notification_idempotency_key (nj_user_id j) (nj_filter_id j) (nj_announcement_id j)"

record match_metrics =
  mm_matched_filters :: nat
  mm_jobs_created :: nat
  mm_duplicate_jobs :: nat
  mm_skipped_disabled_filters :: nat
  mm_skipped_non_canonical :: nat
  mm_skipped_inactive_user :: nat
  mm_skipped_notifications_disabled :: nat
  mm_skipped_no_match :: nat
  mm_matching_errors :: nat

definition no_match_metrics :: match_metrics where
  "no_match_metrics =
     \<lparr>mm_matched_filters = 0, mm_jobs_created = 0, mm_duplicate_jobs = 0, mm_skipped_disabled_filters = 0,
      mm_skipped_non_canonical = 0, mm_skipped_inactive_user = 0, mm_skipped_notifications_disabled = 0,
      mm_skipped_no_match = 0, mm_matching_errors = 0\<rparr>"

datatype attempt_result = SendingAttempt | SentAttempt | RetryableFailure | PermanentFailure | RateLimited | Skipped

record delivery_attempt =
  da_notification_id :: string
  da_attempt_no :: nat
  da_result :: attempt_result
  da_error_type :: "string option"
  da_retryable :: bool
  da_telegram_message_id :: "string option"
  da_created_at :: time

record delivery_metrics =
  dm_picked :: nat
  dm_sent :: nat
  dm_retryable_failures :: nat
  dm_permanent_failures :: nat
  dm_rate_limited :: nat
  dm_skipped :: nat

section \<open>Rate limiting\<close>

record rate_limiter =
  rl_per_user_interval :: duration
  rl_global_interval :: duration
  rl_last_user_send :: "(int, time) dict"
  rl_last_global_send :: "time option"

definition remaining :: "time option \<Rightarrow> duration \<Rightarrow> time \<Rightarrow> duration option" where
  "remaining last_seen interval now =
     (case last_seen of
        None \<Rightarrow> None
      | Some t \<Rightarrow> if interval \<le> 0 then None else if interval \<le> now - t then None else Some (interval - (now - t)))"

definition rate_retry_after :: "int \<Rightarrow> time \<Rightarrow> rate_limiter \<Rightarrow> duration option \<times> rate_limiter" where
  "rate_retry_after user now rl =
     (let g = remaining (rl_last_global_send rl) (rl_global_interval rl) now;
          u = remaining (dict_get (rl_last_user_send rl) user) (rl_per_user_interval rl) now;
          r = (if g = None \<or> u \<noteq> None \<and> the u > the g then u else g)
      in (r, if r = None
             then rl\<lparr>rl_last_global_send := Some now, rl_last_user_send := dict_put user now (rl_last_user_send rl)\<rparr>
             else rl))"

section \<open>The job repository\<close>

record notif =
  nt_jobs :: "(string, notification_job) dict"
  nt_announcements :: "(string, announcement) dict"
  nt_filter_names :: "(string, string) dict"
  nt_attempts :: "delivery_attempt list"
  nt_queue :: "notification_job list"
  nt_ops :: "(string \<times> string) list"
  nt_limiter :: rate_limiter
  nt_delivered :: "string list"

definition store_job :: "notification_job \<Rightarrow> notif \<Rightarrow> notification_job \<times> notif" where
  "store_job j s =
     (case dict_get (nt_jobs s) (nj_key j) of
        Some existing \<Rightarrow> (existing, s)
      | None \<Rightarrow> (j, s\<lparr>nt_jobs := dict_put (nj_key j) j (nt_jobs s)\<rparr>))"

definition create_pending ::
  "time \<Rightarrow> string \<Rightarrow> int \<Rightarrow> string \<Rightarrow> string \<Rightarrow> int \<Rightarrow> notification_queue \<Rightarrow> notif \<Rightarrow>
   (notification_job \<times> bool) \<times> notif" where
  "create_pending now nid user fid aid priority queue s =
     (let key = notification_idempotency_key user fid aid;
          job = \<lparr>nj_notification_id = nid, nj_user_id = user, nj_filter_id = fid, nj_announcement_id = aid,
                 nj_status = PendingJob, nj_priority = priority, nj_queue_name = queue, nj_created_at = now,
                 nj_attempts = 0, nj_next_attempt_at = None, nj_telegram_message_id = None\<rparr>
      in case store_job job s of (j, s1) \<Rightarrow> ((j, dict_get (nt_jobs s) key = None), s1))"

definition add_delivery_context :: "announcement \<Rightarrow> user_filter \<Rightarrow> notif \<Rightarrow> notif" where
  "add_delivery_context a f s =
     s\<lparr>nt_announcements := dict_put (an_id a) a (nt_announcements s),
       nt_filter_names := dict_put (uf_filter_id f) (uf_name f) (nt_filter_names s)\<rparr>"

definition job_ready :: "time \<Rightarrow> notification_job \<Rightarrow> bool" where
  "job_ready now j \<longleftrightarrow>
     nj_status j = PendingJob \<and> (case nj_next_attempt_at j of None \<Rightarrow> True | Some t \<Rightarrow> t \<le> now)"

definition list_ready :: "nat \<Rightarrow> time \<Rightarrow> notif \<Rightarrow> notification_job list" where
  "list_ready limit now s =
     take limit (py_sort (\<lambda>j. (- nj_priority j, nj_created_at j, nj_notification_id j))
       (filter (job_ready now) (dict_values (nt_jobs s))))"

definition job_by_id :: "string \<Rightarrow> notif \<Rightarrow> notification_job option" where
  "job_by_id nid s = List.find (\<lambda>j. nj_notification_id j = nid) (dict_values (nt_jobs s))"

definition get_delivery_context :: "string \<Rightarrow> notif \<Rightarrow> (notification_job \<times> announcement \<times> string) option" where
  "get_delivery_context nid s =
     (case job_by_id nid s of
        None \<Rightarrow> None
      | Some j \<Rightarrow>
          (case (dict_get (nt_announcements s) (nj_announcement_id j), dict_get (nt_filter_names s) (nj_filter_id j)) of
             (Some a, Some name) \<Rightarrow> Some (j, a, name)
           | _ \<Rightarrow> None))"

definition put_job :: "notification_job \<Rightarrow> notif \<Rightarrow> notif" where
  "put_job j s = s\<lparr>nt_jobs := dict_put (nj_key j) j (nt_jobs s)\<rparr>"

definition add_attempt :: "delivery_attempt \<Rightarrow> notif \<Rightarrow> notif" where
  "add_attempt a s = s\<lparr>nt_attempts := nt_attempts s @ [a]\<rparr>"

definition mark_sending :: "string \<Rightarrow> time \<Rightarrow> notif \<Rightarrow> notification_job option \<times> notif" where
  "mark_sending nid now s =
     (case job_by_id nid s of
        None \<Rightarrow> (None, s)
      | Some j \<Rightarrow>
          if nj_status j \<noteq> PendingJob then (None, s)
          else
            (let u = j\<lparr>nj_status := SendingJob, nj_attempts := Suc (nj_attempts j)\<rparr>
             in (Some u, add_attempt
                   \<lparr>da_notification_id = nid, da_attempt_no = nj_attempts u, da_result = SendingAttempt,
                    da_error_type = None, da_retryable = False, da_telegram_message_id = None,
                    da_created_at = now\<rparr> (put_job u s))))"

definition mark_sent :: "string \<Rightarrow> string \<Rightarrow> time \<Rightarrow> notif \<Rightarrow> delivery_attempt res \<times> notif" where
  "mark_sent nid mid now s =
     (case job_by_id nid s of
        None \<Rightarrow> (Inl (KeyError nid), s)
      | Some j \<Rightarrow>
          (let u = j\<lparr>nj_status := SentJob, nj_telegram_message_id := Some mid, nj_next_attempt_at := None\<rparr>;
               a = \<lparr>da_notification_id = nid, da_attempt_no = nj_attempts u, da_result = SentAttempt,
                    da_error_type = None, da_retryable = False, da_telegram_message_id = Some mid,
                    da_created_at = now\<rparr>
           in (Inr a, add_attempt a (put_job u s))))"

definition mark_retryable_failure :: "string \<Rightarrow> string \<Rightarrow> duration \<Rightarrow> time \<Rightarrow> notif \<Rightarrow> delivery_attempt res \<times> notif" where
  "mark_retryable_failure nid error retry_after now s =
     (case job_by_id nid s of
        None \<Rightarrow> (Inl (KeyError nid), s)
      | Some j \<Rightarrow>
          (let u = j\<lparr>nj_status := PendingJob, nj_next_attempt_at := Some (now + retry_after)\<rparr>;
               a = \<lparr>da_notification_id = nid, da_attempt_no = nj_attempts u,
                    da_result = (if contains error ''rate_limited'' then RateLimited else RetryableFailure),
                    da_error_type = Some error, da_retryable = True, da_telegram_message_id = None,
                    da_created_at = now\<rparr>
           in (Inr a, add_attempt a (put_job u s))))"

definition mark_permanent_failure :: "string \<Rightarrow> string \<Rightarrow> time \<Rightarrow> notif \<Rightarrow> delivery_attempt res \<times> notif" where
  "mark_permanent_failure nid error now s =
     (case job_by_id nid s of
        None \<Rightarrow> (Inl (KeyError nid), s)
      | Some j \<Rightarrow>
          (let u = j\<lparr>nj_status := (if error = ''telegram_user_blocked'' then SuppressedJob else FailedJob),
                     nj_next_attempt_at := None\<rparr>;
               a = \<lparr>da_notification_id = nid, da_attempt_no = nj_attempts u, da_result = PermanentFailure,
                    da_error_type = Some error, da_retryable = False, da_telegram_message_id = None,
                    da_created_at = now\<rparr>
           in (Inr a, add_attempt a (put_job u s))))"

section \<open>Matching\<close>

definition priority_for_user :: "notification_user \<Rightarrow> time \<Rightarrow> notification_queue \<times> int" where
  "priority_for_user u now = (if is_premium u now then (HighPriorityQueue, 10) else (StandardQueue, 0))"

record match_run =
  mr_jobs :: "notification_job list"
  mr_metrics :: match_metrics
  mr_skipped :: "string list"

definition bump :: "((nat \<Rightarrow> nat) \<Rightarrow> match_metrics \<Rightarrow> match_metrics) \<Rightarrow> match_run \<Rightarrow> match_run" where
  "bump field r = r\<lparr>mr_metrics := field Suc (mr_metrics r)\<rparr>"

text \<open>One saved filter; the publisher accepts a job or raises.\<close>

definition match_filter ::
  "(announcement \<Rightarrow> search_criteria \<Rightarrow> bool res) \<Rightarrow> (int \<Rightarrow> notification_user option) \<Rightarrow>
   (notification_job \<Rightarrow> bool) \<Rightarrow> time \<Rightarrow> (string \<Rightarrow> string) \<Rightarrow> announcement \<Rightarrow> user_filter \<Rightarrow>
   match_run \<Rightarrow> notif \<Rightarrow> match_run res \<times> notif" where
  "match_filter matches users accepts now ids a f r s =
     (if \<not> uf_enabled f then (Inr (bump mm_skipped_disabled_filters_update r), s)
      else
        (case matches a (uf_criteria f) of
           Inl e \<Rightarrow>
             (Inr (bump mm_matching_errors_update
                (r\<lparr>mr_skipped := mr_skipped r @ [''filter_match_error:'' @ uf_filter_id f]\<rparr>)),
              s\<lparr>nt_ops := nt_ops s @ [(''warning'', ''notification filter match failed: '' @ error_class e)]\<rparr>)
         | Inr False \<Rightarrow> (Inr (bump mm_skipped_no_match_update r), s)
         | Inr True \<Rightarrow>
             (case users (uf_user_id f) of
                None \<Rightarrow> (Inr (bump mm_skipped_inactive_user_update r), s)
              | Some u \<Rightarrow>
                  if nu_status u \<noteq> ''active'' then (Inr (bump mm_skipped_inactive_user_update r), s)
                  else if \<not> nu_notifications_enabled u
                  then (Inr (bump mm_skipped_notifications_disabled_update r), s)
                  else
                    (case priority_for_user u now of
                       (queue, priority) \<Rightarrow>
                         (case create_pending now (ids (uf_filter_id f)) (uf_user_id f) (uf_filter_id f)
                                 (an_id a) priority queue s of
                            ((job, created), s1) \<Rightarrow>
                              if \<not> created
                              then (Inr (bump mm_duplicate_jobs_update (bump mm_matched_filters_update r)), s1)
                              else if \<not> accepts job then (Inl (QueuePublishError ''notification.delivery''), s1)
                              else (Inr (bump mm_jobs_created_update (bump mm_matched_filters_update
                                      (r\<lparr>mr_jobs := mr_jobs r @ [job]\<rparr>))),
                                    s1\<lparr>nt_queue := nt_queue s1 @ [job]\<rparr>))))))"

fun match_filters where
  "match_filters matches users accepts now ids a [] r s = (Inr r, s)"
| "match_filters matches users accepts now ids a (f # fs) r s =
     then_do (match_filter matches users accepts now ids a f r s) (\<lambda>r1 s1.
       match_filters matches users accepts now ids a fs r1 s1)"

definition match_announcement ::
  "(announcement \<Rightarrow> search_criteria \<Rightarrow> bool res) \<Rightarrow> (int \<Rightarrow> notification_user option) \<Rightarrow>
   (notification_job \<Rightarrow> bool) \<Rightarrow> time \<Rightarrow> (string \<Rightarrow> string) \<Rightarrow> user_filter list \<Rightarrow> announcement \<Rightarrow>
   notif \<Rightarrow> match_run res \<times> notif" where
  "match_announcement matches users accepts now ids filters a s =
     (let empty = \<lparr>mr_jobs = [], mr_metrics = no_match_metrics, mr_skipped = []\<rparr> in
      if an_status a \<noteq> ActiveAnn \<or> an_parent_id a \<noteq> None
      then (Inr (bump mm_skipped_non_canonical_update
              (empty\<lparr>mr_skipped := [''announcement_not_active_canonical_parent'']\<rparr>)), s)
      else match_filters matches users accepts now ids a filters empty s)"

section \<open>Delivery\<close>

datatype send_outcome =
    Delivered string
  | TelegramRateLimit int
  | TelegramUserBlocked
  | TelegramPermanent
  | TelegramTransient
  | OtherException py_error

datatype delivery_metric = MSent | MRetryable | MPermanent | MRateLimited | MSkipped

definition process_job ::
  "(notification_job \<Rightarrow> announcement \<Rightarrow> string \<Rightarrow> send_outcome) \<Rightarrow> duration \<Rightarrow> time \<Rightarrow> notification_job \<Rightarrow>
   notif \<Rightarrow> (delivery_attempt \<times> delivery_metric) res \<times> notif" where
  "process_job send backoff now job s =
     (case mark_sending (nj_notification_id job) now s of
        (None, s1) \<Rightarrow>
          (Inr (\<lparr>da_notification_id = nj_notification_id job, da_attempt_no = nj_attempts job,
                 da_result = Skipped, da_error_type = None, da_retryable = False,
                 da_telegram_message_id = None, da_created_at = now\<rparr>, MSkipped), s1)
      | (Some sending, s1) \<Rightarrow>
          (let nid = nj_notification_id sending in
           case rate_retry_after (nj_user_id sending) now (nt_limiter s1) of
             (retry, rl) \<Rightarrow>
               (let s2 = s1\<lparr>nt_limiter := rl\<rparr> in
                case retry of
                  Some wait \<Rightarrow> then_do (mark_retryable_failure nid ''local_rate_limited'' wait now s2) (\<lambda>a s3.
                    (Inr (a, MRateLimited), s3))
                | None \<Rightarrow>
                    (case get_delivery_context nid s2 of
                       None \<Rightarrow> then_do (mark_permanent_failure nid ''missing_delivery_context'' now s2) (\<lambda>a s3.
                         (Inr (a, MPermanent), s3))
                     | Some (j, an, name) \<Rightarrow>
                         (case send j an name of
                            TelegramRateLimit secs \<Rightarrow>
                              then_do (mark_retryable_failure nid ''telegram_rate_limited'' (seconds secs) now s2)
                                (\<lambda>a s3. (Inr (a, MRetryable), s3))
                          | TelegramUserBlocked \<Rightarrow>
                              then_do (mark_permanent_failure nid ''telegram_user_blocked'' now s2)
                                (\<lambda>a s3. (Inr (a, MPermanent), s3))
                          | TelegramPermanent \<Rightarrow>
                              then_do (mark_permanent_failure nid ''telegram_permanent_error'' now s2)
                                (\<lambda>a s3. (Inr (a, MPermanent), s3))
                          | TelegramTransient \<Rightarrow>
                              then_do (mark_retryable_failure nid ''telegram_transient_error'' backoff now s2)
                                (\<lambda>a s3. (Inr (a, MRetryable), s3))
                          | OtherException e \<Rightarrow> (Inl e, s2)
                          | Delivered mid \<Rightarrow>
                              then_do (mark_sent nid mid now (s2\<lparr>nt_delivered := nt_delivered s2 @ [nid]\<rparr>))
                                (\<lambda>a s3. (Inr (a, MSent), s3)))))))"

definition count_metric :: "delivery_metric \<Rightarrow> delivery_metrics \<Rightarrow> delivery_metrics" where
  "count_metric k m =
     (case k of
        MSent \<Rightarrow> m\<lparr>dm_sent := Suc (dm_sent m)\<rparr>
      | MRetryable \<Rightarrow> m\<lparr>dm_retryable_failures := Suc (dm_retryable_failures m)\<rparr>
      | MPermanent \<Rightarrow> m\<lparr>dm_permanent_failures := Suc (dm_permanent_failures m)\<rparr>
      | MRateLimited \<Rightarrow> m\<lparr>dm_rate_limited := Suc (dm_rate_limited m)\<rparr>
      | MSkipped \<Rightarrow> m\<lparr>dm_skipped := Suc (dm_skipped m)\<rparr>)"

fun process_jobs where
  "process_jobs send backoff now [] m attempts s = (Inr (m, attempts), s)"
| "process_jobs send backoff now (j # js) m attempts s =
     then_do (process_job send backoff now j s) (\<lambda>ak s1.
       process_jobs send backoff now js (count_metric (snd ak) m) (attempts @ [fst ak]) s1)"

definition process_batch ::
  "(notification_job \<Rightarrow> announcement \<Rightarrow> string \<Rightarrow> send_outcome) \<Rightarrow> duration \<Rightarrow> nat \<Rightarrow> nat \<Rightarrow> time \<Rightarrow> notif \<Rightarrow>
   (delivery_metrics \<times> delivery_attempt list) res \<times> notif" where
  "process_batch send backoff threshold limit now s =
     (let jobs = list_ready limit now s;
          m = \<lparr>dm_picked = length jobs, dm_sent = 0, dm_retryable_failures = 0, dm_permanent_failures = 0,
               dm_rate_limited = 0, dm_skipped = 0\<rparr>
      in then_do (process_jobs send backoff now jobs m [] s) (\<lambda>ma s1.
           let failures = length (filter (\<lambda>a. da_result a \<in> {RetryableFailure, PermanentFailure}) (snd ma))
           in (Inr ma,
               if threshold \<le> failures
               then s1\<lparr>nt_ops := nt_ops s1 @
                      [(''warning'', ''notification delivery bulk failure count='' @ str_nat failures)]\<rparr>
               else s1)))"

section \<open>Callback data\<close>

definition notification_actions :: "string list" where
  "notification_actions = [''open'', ''search'', ''read'']"

definition notification_action_callback :: "string \<Rightarrow> string \<Rightarrow> string res" where
  "notification_action_callback nid action =
     (if action \<notin> set notification_actions then Inl (ValueError ''Unsupported notification action.'')
      else Inr (''n:v1:'' @ action @ '':'' @ nid))"

definition parse_notification_action_callback :: "string \<Rightarrow> (string \<times> string) res" where
  "parse_notification_action_callback text =
     (case split_n CHR '':'' 3 text of
        [p, v, action, nid] \<Rightarrow>
          if p \<noteq> ''n'' \<or> v \<noteq> ''v1'' then Inl (ValueError ''Unsupported notification callback.'')
          else if action \<notin> set notification_actions
          then Inl (ValueError ''Unsupported notification action.'') else Inr (action, nid)
      | _ \<Rightarrow> Inl (ValueError ''Unsupported notification callback.''))"

end
