(* ===== verification/EF_Delivery.thy ===== *)
theory EF_Delivery
  imports EF_Notifications
begin

text \<open>
  Theorems about notifications: one job per match, at most one delivery per job, what each outcome of
  a delivery leaves behind, and the spacing the rate limiter enforces.
\<close>

section \<open>The job store\<close>

interpretation jobs: insert_once "\<lambda>s. dict_get (nt_jobs s)" store_job nj_key
  by unfold_locales (auto simp: store_job_def dict_simps split: option.splits)

definition jobs_ok :: "(string, notification_job) dict \<Rightarrow> bool" where
  "jobs_ok d \<longleftrightarrow> keyed_by nj_key d \<and> distinct (map nj_notification_id (dict_values d))"

abbreviation notif_ok :: "notif \<Rightarrow> bool" where
  "notif_ok s \<equiv> jobs_ok (nt_jobs s)"

lemma find_distinct:
  "distinct (map f xs) \<Longrightarrow> List.find (\<lambda>x. f x = k) xs = Some x \<longleftrightarrow> x \<in> set xs \<and> f x = k"
  by (induction xs) (auto simp: image_iff)

lemma job_by_id_iff:
  assumes "notif_ok s"
  shows "job_by_id nid s = Some j \<longleftrightarrow> dict_get (nt_jobs s) (nj_key j) = Some j \<and> nj_notification_id j = nid"
proof -
  have "j \<in> set (dict_values (nt_jobs s)) \<longleftrightarrow> dict_get (nt_jobs s) (nj_key j) = Some j"
    using assms keyed_by_values [of nj_key "nt_jobs s" j] by (simp add: jobs_ok_def)
  then show ?thesis
    using assms find_distinct [of nj_notification_id "dict_values (nt_jobs s)" nid j]
    by (auto simp: job_by_id_def jobs_ok_def)
qed

lemma put_put [simp]: "dict_put k v (dict_put k u d) = dict_put k v d"
  by (induction d) auto

lemma put_existing_values:
  "dict_get d k = Some j \<Longrightarrow> f u = f j \<Longrightarrow> map f (dict_values (dict_put k u d)) = map f (dict_values d)"
  by (induction d) (auto split: if_splits)

text \<open>Replacing a job by a later state of itself.\<close>

lemma jobs_ok_replace:
  assumes "jobs_ok d" and "dict_get d (nj_key j) = Some j" and "nj_key u = nj_key j"
    and "nj_notification_id u = nj_notification_id j"
  shows "jobs_ok (dict_put (nj_key j) u d)"
  using assms put_existing_values [of d "nj_key j" j nj_notification_id u]
  by (auto simp: jobs_ok_def intro: keyed_by_modify)

lemma job_by_id_replaced:
  assumes "notif_ok s" and "job_by_id nid s = Some j" and "nj_key u = nj_key j"
    and "nj_notification_id u = nid"
    and "nt_jobs t = dict_put (nj_key j) u (nt_jobs s)"
  shows "notif_ok t \<and> job_by_id nid t = Some u \<and> (\<forall>n. n \<noteq> nid \<longrightarrow> job_by_id n t = job_by_id n s)"
proof -
  have j: "dict_get (nt_jobs s) (nj_key j) = Some j" "nj_notification_id j = nid"
    using assms(1,2) by (simp_all add: job_by_id_iff)
  have ok: "notif_ok t"
    using jobs_ok_replace [OF assms(1) j(1), of u] assms(3-5) j(2) by simp
  have "job_by_id n t = job_by_id n s" if "n \<noteq> nid" for n
  proof (rule option.expand)
    have iff: "job_by_id n t = Some x \<longleftrightarrow> job_by_id n s = Some x" for x
    proof (cases "nj_key x = nj_key j")
      case True
      then show ?thesis
        unfolding job_by_id_iff [OF ok] job_by_id_iff [OF assms(1)] assms(5)
        using \<open>n \<noteq> nid\<close> assms(4) j by (auto simp: dict_get_put)
    next
      case False
      then show ?thesis
        unfolding job_by_id_iff [OF ok] job_by_id_iff [OF assms(1)] assms(5) by (simp add: dict_get_put)
    qed
    show "(job_by_id n t = None) = (job_by_id n s = None)"
      using iff by (metis not_None_eq)
    show "the (job_by_id n t) = the (job_by_id n s)" if "job_by_id n t \<noteq> None" "job_by_id n s \<noteq> None"
      using iff that by (metis option.collapse)
  qed
  with ok show ?thesis
    using assms(3-5) unfolding job_by_id_iff [OF ok] by (simp add: dict_get_put)
qed

section \<open>What a delivery does to its job\<close>

lemma job_updates [simp]:
  "nj_key (j\<lparr>nj_status := st\<rparr>) = nj_key j"
  "nj_key (j\<lparr>nj_attempts := n\<rparr>) = nj_key j"
  "nj_key (j\<lparr>nj_next_attempt_at := t\<rparr>) = nj_key j"
  "nj_key (j\<lparr>nj_telegram_message_id := m\<rparr>) = nj_key j"
  by (simp_all add: nj_key_def)

lemma nt_jobs_simps [simp]:
  "nt_jobs (add_attempt a s) = nt_jobs s" "nt_jobs (put_job j s) = dict_put (nj_key j) j (nt_jobs s)"
  "nt_delivered (add_attempt a s) = nt_delivered s" "nt_delivered (put_job j s) = nt_delivered s"
  "nt_limiter (add_attempt a s) = nt_limiter s" "nt_limiter (put_job j s) = nt_limiter s"
  "nt_announcements (add_attempt a s) = nt_announcements s" "nt_announcements (put_job j s) = nt_announcements s"
  "nt_filter_names (add_attempt a s) = nt_filter_names s" "nt_filter_names (put_job j s) = nt_filter_names s"
  by (simp_all add: add_attempt_def put_job_def)

lemma job_by_id_cong [simp]:
  "job_by_id n (s\<lparr>nt_limiter := l\<rparr>) = job_by_id n s"
  "job_by_id n (s\<lparr>nt_delivered := x\<rparr>) = job_by_id n s"
  "job_by_id n (add_attempt a s) = job_by_id n s"
  by (simp_all add: job_by_id_def)

lemma mark_sending_pending:
  assumes "notif_ok s" and "job_by_id nid s = Some j" and "nj_status j = PendingJob"
  shows "\<exists>t. mark_sending nid now s = (Some (j\<lparr>nj_status := SendingJob, nj_attempts := Suc (nj_attempts j)\<rparr>), t) \<and>
    nt_jobs t = dict_put (nj_key j) (j\<lparr>nj_status := SendingJob, nj_attempts := Suc (nj_attempts j)\<rparr>) (nt_jobs s) \<and>
    nt_delivered t = nt_delivered s \<and> nt_limiter t = nt_limiter s \<and> notif_ok t \<and>
    nt_announcements t = nt_announcements s \<and> nt_filter_names t = nt_filter_names s \<and>
    job_by_id nid t = Some (j\<lparr>nj_status := SendingJob, nj_attempts := Suc (nj_attempts j)\<rparr>)"
proof -
  let ?u = "j\<lparr>nj_status := SendingJob, nj_attempts := Suc (nj_attempts j)\<rparr>"
  obtain t where t: "mark_sending nid now s = (Some ?u, t)" "nt_jobs t = dict_put (nj_key j) ?u (nt_jobs s)"
    "nt_delivered t = nt_delivered s" "nt_limiter t = nt_limiter s"
    "nt_announcements t = nt_announcements s" "nt_filter_names t = nt_filter_names s"
    using assms(2,3) by (simp add: mark_sending_def Let_def)
  moreover have "nj_notification_id ?u = nid" using assms(1,2) by (simp add: job_by_id_iff)
  ultimately show ?thesis
    using job_by_id_replaced [OF assms(1,2), of ?u t] by auto
qed

text \<open>The effect of a delivery on the store: nothing, or one later state of a pending job.\<close>

definition delivery_effect :: "string \<Rightarrow> notif \<Rightarrow> notif \<Rightarrow> bool" where
  "delivery_effect nid s t \<longleftrightarrow>
     (\<exists>j u. job_by_id nid s = Some j \<and> nj_status j = PendingJob \<and> nj_key u = nj_key j \<and>
        nj_notification_id u = nid \<and> nt_jobs t = dict_put (nj_key j) u (nt_jobs s) \<and>
        (nj_status u = SentJob \<and> nt_delivered t = nt_delivered s @ [nid] \<or>
         nj_status u \<noteq> SentJob \<and> nt_delivered t = nt_delivered s))"

lemma process_job_skips:
  assumes "\<forall>j. job_by_id (nj_notification_id job) s = Some j \<longrightarrow> nj_status j \<noteq> PendingJob"
  shows "\<exists>a. process_job send backoff now job s = (Inr (a, MSkipped), s) \<and> da_result a = Skipped"
proof -
  have "mark_sending (nj_notification_id job) now s = (None, s)"
    using assms by (simp add: mark_sending_def split: option.split)
  then show ?thesis by (simp add: process_job_def)
qed

text \<open>What a pending job becomes, by limiter, context and Telegram's answer.\<close>

definition after_delivery ::
  "(notification_job \<Rightarrow> announcement \<Rightarrow> string \<Rightarrow> send_outcome) \<Rightarrow> duration \<Rightarrow> time \<Rightarrow> notification_job \<Rightarrow> notif \<Rightarrow>
   notification_job \<times> (py_error + delivery_metric)" where
  "after_delivery send backoff now j s =
     (let v = j\<lparr>nj_status := SendingJob, nj_attempts := Suc (nj_attempts j)\<rparr>;
          later = (\<lambda>wait. v\<lparr>nj_status := PendingJob, nj_next_attempt_at := Some (now + wait)\<rparr>);
          ended = (\<lambda>st. v\<lparr>nj_status := st, nj_next_attempt_at := None\<rparr>)
      in case fst (rate_retry_after (nj_user_id j) now (nt_limiter s)) of
           Some wait \<Rightarrow> (later wait, Inr MRateLimited)
         | None \<Rightarrow>
             (case (dict_get (nt_announcements s) (nj_announcement_id j),
                    dict_get (nt_filter_names s) (nj_filter_id j)) of
                (Some an, Some name) \<Rightarrow>
                  (case send v an name of
                     Delivered mid \<Rightarrow> (v\<lparr>nj_status := SentJob, nj_telegram_message_id := Some mid, nj_next_attempt_at := None\<rparr>, Inr MSent)
                   | TelegramRateLimit secs \<Rightarrow> (later (seconds secs), Inr MRetryable)
                   | TelegramUserBlocked \<Rightarrow> (ended SuppressedJob, Inr MPermanent)
                   | TelegramPermanent \<Rightarrow> (ended FailedJob, Inr MPermanent)
                   | TelegramTransient \<Rightarrow> (later backoff, Inr MRetryable)
                   | OtherException e \<Rightarrow> (v, Inl e))
              | _ \<Rightarrow> (ended FailedJob, Inr MPermanent)))"

lemma after_delivery_same_job:
  "nj_key (fst (after_delivery send backoff now j s)) = nj_key j"
  "nj_notification_id (fst (after_delivery send backoff now j s)) = nj_notification_id j"
  "nj_attempts (fst (after_delivery send backoff now j s)) = Suc (nj_attempts j)"
  by (auto simp: after_delivery_def Let_def split: option.split send_outcome.split)

lemma process_job_pending:
  assumes ok: "notif_ok s" and j: "job_by_id nid s = Some j" and pending: "nj_status j = PendingJob"
    and id: "nj_notification_id job = nid"
  shows "\<exists>r t. process_job send backoff now job s = (r, t) \<and>
    map_sum id snd r = snd (after_delivery send backoff now j s) \<and>
    nt_jobs t = dict_put (nj_key j) (fst (after_delivery send backoff now j s)) (nt_jobs s) \<and>
    nt_delivered t = (if nj_status (fst (after_delivery send backoff now j s)) = SentJob
      then nt_delivered s @ [nid] else nt_delivered s)"
proof -
  let ?v = "j\<lparr>nj_status := SendingJob, nj_attempts := Suc (nj_attempts j)\<rparr>"
  obtain s1 where s1: "mark_sending nid now s = (Some ?v, s1)"
    "nt_jobs s1 = dict_put (nj_key j) ?v (nt_jobs s)" "nt_delivered s1 = nt_delivered s"
    "nt_limiter s1 = nt_limiter s" "nt_announcements s1 = nt_announcements s"
    "nt_filter_names s1 = nt_filter_names s" "job_by_id nid s1 = Some ?v"
    using mark_sending_pending [OF ok j pending, of now] by blast
  have idj: "nj_notification_id j = nid" using ok j by (simp add: job_by_id_iff)
  obtain retry rl where rl: "rate_retry_after (nj_user_id j) now (nt_limiter s) = (retry, rl)" by fastforce
  let ?s2 = "s1\<lparr>nt_limiter := rl\<rparr>"
  have ctx: "get_delivery_context nid ?s2 =
      (case (dict_get (nt_announcements s) (nj_announcement_id j), dict_get (nt_filter_names s) (nj_filter_id j)) of
         (Some an, Some name) \<Rightarrow> Some (?v, an, name) | _ \<Rightarrow> None)"
    using s1 by (simp add: get_delivery_context_def)
  note step = process_job_def id s1 rl idj Let_def after_delivery_def mark_retryable_failure_def
    mark_permanent_failure_def mark_sent_def
  show ?thesis
  proof (cases retry)
    case (Some wait)
    then show ?thesis by (simp add: step)
  next
    case None
    show ?thesis
    proof (cases "get_delivery_context nid ?s2")
      case none: None
      with ctx have "dict_get (nt_announcements s) (nj_announcement_id j) = None \<or>
          dict_get (nt_filter_names s) (nj_filter_id j) = None"
        by (auto split: option.splits)
      with None none show ?thesis by (auto simp: step split: option.split)
    next
      case (Some c)
      then obtain an name where an: "dict_get (nt_announcements s) (nj_announcement_id j) = Some an"
        "dict_get (nt_filter_names s) (nj_filter_id j) = Some name" and c: "c = (?v, an, name)"
        using ctx by (auto split: option.splits)
      show ?thesis
        using None Some an c by (cases "send ?v an name") (simp_all add: step)
    qed
  qed
qed

lemma process_job_effect:
  assumes "notif_ok s"
  shows "snd (process_job send backoff now job s) = s \<or>
    delivery_effect (nj_notification_id job) s (snd (process_job send backoff now job s))"
proof (cases "\<exists>j. job_by_id (nj_notification_id job) s = Some j \<and> nj_status j = PendingJob")
  case True
  then obtain j where j: "job_by_id (nj_notification_id job) s = Some j" "nj_status j = PendingJob" by blast
  then have idj: "nj_notification_id j = nj_notification_id job" using assms by (simp add: job_by_id_iff)
  from process_job_pending [OF assms j refl, of send backoff now] obtain r t
    where run: "process_job send backoff now job s = (r, t)"
      "nt_jobs t = dict_put (nj_key j) (fst (after_delivery send backoff now j s)) (nt_jobs s)"
      "nt_delivered t = (if nj_status (fst (after_delivery send backoff now j s)) = SentJob
        then nt_delivered s @ [nj_notification_id job] else nt_delivered s)" by blast
  then have "delivery_effect (nj_notification_id job) s t"
    unfolding delivery_effect_def using j idj after_delivery_same_job [of send backoff now j s]
    by (intro exI [of _ j] exI [of _ "fst (after_delivery send backoff now j s)"]) simp
  with run(1) show ?thesis by simp
next
  case False
  then show ?thesis using process_job_skips [of job s send backoff now] by auto
qed

section \<open>Matching adds pending jobs only\<close>

lemma create_pending_cases:
  "(dict_get (nt_jobs s) (notification_idempotency_key user fid aid) \<noteq> None \<and>
      (\<exists>j. create_pending now nid user fid aid prio queue s = ((j, False), s))) \<or>
   (dict_get (nt_jobs s) (notification_idempotency_key user fid aid) = None \<and>
      (\<exists>j. create_pending now nid user fid aid prio queue s =
         ((j, True), s\<lparr>nt_jobs := dict_put (nj_key j) j (nt_jobs s)\<rparr>) \<and>
       nj_key j = notification_idempotency_key user fid aid \<and> nj_notification_id j = nid \<and>
       nj_status j = PendingJob))"
  by (auto simp: create_pending_def store_job_def nj_key_def Let_def split: option.split)

definition job_added :: "string \<Rightarrow> notif \<Rightarrow> notif \<Rightarrow> bool" where
  "job_added nid s t \<longleftrightarrow>
     (\<exists>j. nj_notification_id j = nid \<and> nj_status j = PendingJob \<and> dict_get (nt_jobs s) (nj_key j) = None \<and>
        nt_jobs t = dict_put (nj_key j) j (nt_jobs s))"

text \<open>The filters that get a job, and what matching does with them and with the others.\<close>

definition wants ::
  "(announcement \<Rightarrow> search_criteria \<Rightarrow> bool res) \<Rightarrow> (int \<Rightarrow> notification_user option) \<Rightarrow> announcement \<Rightarrow>
   user_filter \<Rightarrow> bool" where
  "wants matches users a f \<longleftrightarrow>
     uf_enabled f \<and> matches a (uf_criteria f) = Inr True \<and>
     (\<exists>u. users (uf_user_id f) = Some u \<and> nu_status u = ''active'' \<and> nu_notifications_enabled u)"

definition job_key :: "announcement \<Rightarrow> user_filter \<Rightarrow> string" where
  "job_key a f = notification_idempotency_key (uf_user_id f) (uf_filter_id f) (an_id a)"

lemma match_filter_unwanted:
  assumes "\<not> wants matches users a f"
  shows "\<exists>r' s'. match_filter matches users accepts now ids a f r s = (Inr r', s') \<and>
    nt_jobs s' = nt_jobs s \<and> nt_delivered s' = nt_delivered s \<and> nt_queue s' = nt_queue s \<and>
    mr_jobs r' = mr_jobs r \<and> mm_jobs_created (mr_metrics r') = mm_jobs_created (mr_metrics r)"
proof (cases "uf_enabled f")
  case False
  then show ?thesis by (simp add: match_filter_def bump_def)
next
  case enabled: True
  show ?thesis
  proof (cases "matches a (uf_criteria f)")
    case (Inl e)
    then show ?thesis using enabled by (simp add: match_filter_def bump_def)
  next
    case (Inr b)
    then show ?thesis
      using enabled assms
      by (cases b; cases "users (uf_user_id f)") (auto simp: match_filter_def bump_def wants_def)
  qed
qed

lemma match_filter_present:
  assumes "wants matches users a f" and "dict_get (nt_jobs s) (job_key a f) \<noteq> None"
  shows "\<exists>r'. match_filter matches users accepts now ids a f r s = (Inr r', s) \<and>
    mr_jobs r' = mr_jobs r \<and> mm_jobs_created (mr_metrics r') = mm_jobs_created (mr_metrics r)"
proof -
  obtain u where u: "users (uf_user_id f) = Some u" "nu_status u = ''active''" "nu_notifications_enabled u"
    and f: "uf_enabled f" "matches a (uf_criteria f) = Inr True" using assms(1) by (auto simp: wants_def)
  obtain q p where qp: "priority_for_user u now = (q, p)" by fastforce
  obtain j where "create_pending now (ids (uf_filter_id f)) (uf_user_id f) (uf_filter_id f) (an_id a) p q s = ((j, False), s)"
    using create_pending_cases [of s "uf_user_id f" "uf_filter_id f" "an_id a" now "ids (uf_filter_id f)" p q]
      assms(2) by (auto simp: job_key_def)
  with u f qp show ?thesis by (simp add: match_filter_def bump_def)
qed

lemma match_filter_absent:
  assumes "wants matches users a f" and "dict_get (nt_jobs s) (job_key a f) = None"
  shows "\<exists>j s1. nj_key j = job_key a f \<and> nj_notification_id j = ids (uf_filter_id f) \<and> nj_status j = PendingJob \<and>
    s1 = s\<lparr>nt_jobs := dict_put (nj_key j) j (nt_jobs s)\<rparr> \<and>
    (if accepts j
     then (\<exists>r'. match_filter matches users accepts now ids a f r s = (Inr r', s1\<lparr>nt_queue := nt_queue s @ [j]\<rparr>) \<and>
       mr_jobs r' = mr_jobs r @ [j])
     else match_filter matches users accepts now ids a f r s = (Inl (QueuePublishError ''notification.delivery''), s1))"
proof -
  obtain u where u: "users (uf_user_id f) = Some u" "nu_status u = ''active''" "nu_notifications_enabled u"
    and f: "uf_enabled f" "matches a (uf_criteria f) = Inr True" using assms(1) by (auto simp: wants_def)
  obtain q p where qp: "priority_for_user u now = (q, p)" by fastforce
  obtain j where "create_pending now (ids (uf_filter_id f)) (uf_user_id f) (uf_filter_id f) (an_id a) p q s =
      ((j, True), s\<lparr>nt_jobs := dict_put (nj_key j) j (nt_jobs s)\<rparr>)"
    and "nj_key j = job_key a f" "nj_notification_id j = ids (uf_filter_id f)" "nj_status j = PendingJob"
    using create_pending_cases [of s "uf_user_id f" "uf_filter_id f" "an_id a" now "ids (uf_filter_id f)" p q]
      assms(2) by (auto simp: job_key_def)
  with u f qp show ?thesis by (intro exI [of _ j]) (simp add: match_filter_def bump_def)
qed

lemma match_filter_effect:
  "nt_delivered (snd (match_filter matches users accepts now ids a f r s)) = nt_delivered s \<and>
   (nt_jobs (snd (match_filter matches users accepts now ids a f r s)) = nt_jobs s \<or>
    job_added (ids (uf_filter_id f)) s (snd (match_filter matches users accepts now ids a f r s)))"
proof (cases "wants matches users a f")
  case False
  from match_filter_unwanted [OF this, of accepts now ids r s] show ?thesis by auto
next
  case wanted: True
  show ?thesis
  proof (cases "dict_get (nt_jobs s) (job_key a f)")
    case None
    from match_filter_absent [OF wanted None, of ids accepts now r] None show ?thesis
      by (auto simp: job_added_def split: if_splits)
  next
    case (Some j)
    with match_filter_present [OF wanted, of s accepts now ids r] show ?thesis by auto
  qed
qed

definition fresh_id :: "string \<Rightarrow> notif \<Rightarrow> bool" where
  "fresh_id nid s \<longleftrightarrow>
     nid \<notin> set (map nj_notification_id (dict_values (nt_jobs s))) \<and> nid \<notin> set (nt_delivered s)"

definition delivered_ok :: "notif \<Rightarrow> bool" where
  "delivered_ok s \<longleftrightarrow>
     (\<forall>n. count_list (nt_delivered s) n =
        (if \<exists>j. job_by_id n s = Some j \<and> nj_status j = SentJob then 1 else 0))"

lemma job_added_ok:
  assumes "notif_ok s" and "delivered_ok s" and "fresh_id nid s" and "job_added nid s t"
    and "nt_delivered t = nt_delivered s"
  shows "notif_ok t \<and> delivered_ok t \<and> (\<forall>n. n \<noteq> nid \<longrightarrow> fresh_id n s \<longrightarrow> fresh_id n t)"
proof -
  obtain j where j: "nj_notification_id j = nid" "nj_status j = PendingJob"
    "dict_get (nt_jobs s) (nj_key j) = None" "nt_jobs t = dict_put (nj_key j) j (nt_jobs s)"
    using assms(4) by (auto simp: job_added_def)
  then have vals: "dict_values (nt_jobs t) = dict_values (nt_jobs s) @ [j]"
    by (simp add: dict_put_new)
  have ok: "notif_ok t"
    using assms(1,3) j unfolding jobs_ok_def fresh_id_def vals by (auto simp: j(4))
  have "job_by_id n t = (case job_by_id n s of Some x \<Rightarrow> Some x | None \<Rightarrow> if n = nid then Some j else None)" for n
    using j(1) find_first_append [of "\<lambda>x. nj_notification_id x = n" "dict_values (nt_jobs s)" "[j]"]
    by (auto simp: job_by_id_def vals find_first_def split: option.split)
  then have "delivered_ok t"
    using assms(2,5) j(2) unfolding delivered_ok_def
    by (auto split: option.split)
  moreover have "\<forall>n. n \<noteq> nid \<longrightarrow> fresh_id n s \<longrightarrow> fresh_id n t"
    using j(1) assms(5) unfolding fresh_id_def vals by auto
  ultimately show ?thesis using ok by blast
qed

lemma ok_cong:
  assumes "nt_jobs t = nt_jobs s" and "nt_delivered t = nt_delivered s"
  shows "notif_ok t = notif_ok s" and "delivered_ok t = delivered_ok s" and "fresh_id n t = fresh_id n s"
  using assms by (simp_all add: delivered_ok_def fresh_id_def job_by_id_def)

lemma match_filters_ok:
  assumes "notif_ok s" and "delivered_ok s" and "distinct (map (ids \<circ> uf_filter_id) fs)"
    and "\<forall>f \<in> set fs. fresh_id (ids (uf_filter_id f)) s"
  shows "notif_ok (snd (match_filters matches users accepts now ids a fs r s)) \<and>
    delivered_ok (snd (match_filters matches users accepts now ids a fs r s))"
  using assms
proof (induction fs arbitrary: r s)
  case Nil
  then show ?case by simp
next
  case (Cons f fs)
  obtain x t where run: "match_filter matches users accepts now ids a f r s = (x, t)" by fastforce
  note eff = match_filter_effect [of matches users accepts now ids a f r s, unfolded run snd_conv]
  have "notif_ok t \<and> delivered_ok t \<and>
      (\<forall>n. n \<noteq> ids (uf_filter_id f) \<longrightarrow> fresh_id n s \<longrightarrow> fresh_id n t)"
  proof (cases "nt_jobs t = nt_jobs s")
    case True
    then show ?thesis using Cons.prems(1,2) eff ok_cong [of t s] by blast
  next
    case False
    then show ?thesis using eff Cons.prems job_added_ok [of s "ids (uf_filter_id f)" t] by auto
  qed
  then have t: "notif_ok t" "delivered_ok t"
    and keep: "\<And>n. n \<noteq> ids (uf_filter_id f) \<Longrightarrow> fresh_id n s \<Longrightarrow> fresh_id n t" by blast+
  have "fresh_id (ids (uf_filter_id g)) t" if "g \<in> set fs" for g
  proof (rule keep)
    show "ids (uf_filter_id g) \<noteq> ids (uf_filter_id f)" using that Cons.prems(3) by (auto simp: rev_image_eqI)
    show "fresh_id (ids (uf_filter_id g)) s" using that Cons.prems(4) by simp
  qed
  then have "notif_ok (snd (match_filters matches users accepts now ids a fs r' t)) \<and>
      delivered_ok (snd (match_filters matches users accepts now ids a fs r' t))" for r'
    using Cons.prems(3) t by (intro Cons.IH) simp_all
  with run t show ?case by (cases x) simp_all
qed

lemma delivery_effect_ok:
  assumes "notif_ok s" and "delivered_ok s" and "delivery_effect nid s t"
  shows "notif_ok t \<and> delivered_ok t"
proof -
  obtain j u where j: "job_by_id nid s = Some j" "nj_status j = PendingJob"
    and u: "nj_key u = nj_key j" "nj_notification_id u = nid" "nt_jobs t = dict_put (nj_key j) u (nt_jobs s)"
    and d: "nj_status u = SentJob \<and> nt_delivered t = nt_delivered s @ [nid] \<or>
         nj_status u \<noteq> SentJob \<and> nt_delivered t = nt_delivered s"
    using assms(3) by (auto simp: delivery_effect_def)
  note rep = job_by_id_replaced [OF assms(1) j(1) u]
  have none: "count_list (nt_delivered s) nid = 0" using assms(2) j unfolding delivered_ok_def by simp
  have "count_list (nt_delivered t) n = (if \<exists>j. job_by_id n t = Some j \<and> nj_status j = SentJob then 1 else 0)" for n
  proof (cases "n = nid")
    case True
    then show ?thesis using none rep d by auto
  next
    case False
    then have "count_list (nt_delivered t) n = count_list (nt_delivered s) n" "job_by_id n t = job_by_id n s"
      using d rep by auto
    then show ?thesis using assms(2) by (simp add: delivered_ok_def)
  qed
  with rep show ?thesis by (simp add: delivered_ok_def)
qed

lemma process_job_ok:
  assumes "notif_ok s" and "delivered_ok s"
  shows "notif_ok (snd (process_job send backoff now job s)) \<and> delivered_ok (snd (process_job send backoff now job s))"
  using process_job_effect [OF assms(1)] delivery_effect_ok [OF assms] assms by metis

lemma process_jobs_ok:
  assumes "notif_ok s" and "delivered_ok s"
  shows "notif_ok (snd (process_jobs send backoff now js m as s)) \<and>
    delivered_ok (snd (process_jobs send backoff now js m as s))"
  using assms
proof (induction js arbitrary: m as s)
  case (Cons j js)
  obtain x t where run: "process_job send backoff now j s = (x, t)" by fastforce
  with process_job_ok [OF Cons.prems, of send backoff now j] have "notif_ok t" "delivered_ok t" by auto
  with Cons.IH [of t] run show ?case by (cases x) auto
qed simp

lemma process_batch_ok:
  assumes "notif_ok s" and "delivered_ok s"
  shows "notif_ok (snd (process_batch send backoff threshold limit now s)) \<and>
    delivered_ok (snd (process_batch send backoff threshold limit now s))"
proof -
  let ?m = "\<lparr>dm_picked = length (list_ready limit now s), dm_sent = 0, dm_retryable_failures = 0,
      dm_permanent_failures = 0, dm_rate_limited = 0, dm_skipped = 0\<rparr>"
  obtain x t where run: "process_jobs send backoff now (list_ready limit now s) ?m [] s = (x, t)" by fastforce
  have t: "notif_ok t" "delivered_ok t"
    using process_jobs_ok [OF assms, of send backoff now "list_ready limit now s" ?m "[]"] run by auto
  have "delivered_ok (t\<lparr>nt_ops := y\<rparr>)" for y
    using t(2) ok_cong(2) [of "t\<lparr>nt_ops := y\<rparr>" t] by simp
  with run t show ?thesis by (cases x) (auto simp: process_batch_def Let_def)
qed

section \<open>Reachable states\<close>

definition notif_init :: "rate_limiter \<Rightarrow> notif" where
  "notif_init rl =
     \<lparr>nt_jobs = [], nt_announcements = [], nt_filter_names = [], nt_attempts = [], nt_queue = [], nt_ops = [],
      nt_limiter = rl, nt_delivered = []\<rparr>"

inductive notif_step :: "notif \<Rightarrow> notif \<Rightarrow> bool" where
  Match: "distinct (map (ids \<circ> uf_filter_id) filters) \<Longrightarrow> \<forall>f \<in> set filters. fresh_id (ids (uf_filter_id f)) s \<Longrightarrow>
    notif_step s (snd (match_announcement matches users accepts now ids filters a s))"
| Context: "notif_step s (add_delivery_context a f s)"
| One: "notif_step s (snd (process_job send backoff now job s))"
| Batch: "notif_step s (snd (process_batch send backoff threshold limit now s))"

inductive notif_reachable :: "rate_limiter \<Rightarrow> notif \<Rightarrow> bool" for rl where
  Start: "notif_reachable rl (notif_init rl)"
| Then: "notif_reachable rl s \<Longrightarrow> notif_step s t \<Longrightarrow> notif_reachable rl t"

inductive_cases notif_stepE: "notif_step s t"

lemma notif_step_ok:
  assumes "notif_step s t" and "notif_ok s" and "delivered_ok s"
  shows "notif_ok t \<and> delivered_ok t"
  using assms
proof (induction rule: notif_step.induct)
  case (Match ids filters s matches users accepts now a)
  then show ?case
    using match_filters_ok [of s ids filters] by (simp add: match_announcement_def Let_def)
next
  case (Context s a f)
  then show ?case
    using ok_cong [of "add_delivery_context a f s" s] by (simp add: add_delivery_context_def)
next
  case (One s send backoff now job)
  then show ?case using process_job_ok by blast
next
  case (Batch s send backoff threshold limit now)
  then show ?case using process_batch_ok by blast
qed

section \<open>A concrete run\<close>

definition sample_filter :: user_filter where
  "sample_filter =
     \<lparr>uf_filter_id = ''f1'', uf_user_id = 7, uf_name = ''n'', uf_criteria = default_criteria, uf_enabled = True,
      uf_created_at = 0, uf_updated_at = 0\<rparr>"

definition sample_users :: "int \<Rightarrow> notification_user option" where
  "sample_users i =
     (if i = 7 then Some \<lparr>nu_user_id = 7, nu_notifications_enabled = True, nu_premium_until = None, nu_status = ''active''\<rparr>
      else None)"

definition sample_limiter :: rate_limiter where
  "sample_limiter =
     \<lparr>rl_per_user_interval = 10, rl_global_interval = 1, rl_last_user_send = [], rl_last_global_send = None\<rparr>"

definition sample_job :: notification_job where
  "sample_job =
     \<lparr>nj_notification_id = ''n1'', nj_user_id = 7, nj_filter_id = ''f1'', nj_announcement_id = ''m1'',
      nj_status = PendingJob, nj_priority = 0, nj_queue_name = StandardQueue, nj_created_at = 0,
      nj_attempts = 0, nj_next_attempt_at = None, nj_telegram_message_id = None\<rparr>"

definition sample_notif :: notif where
  "sample_notif = (notif_init sample_limiter)\<lparr>nt_jobs := [(nj_key sample_job, sample_job)],
     nt_announcements := [(''m1'', blank_announcement ''m1'' ''u'')], nt_filter_names := [(''f1'', ''n'')]\<rparr>"

abbreviation always :: "announcement \<Rightarrow> search_criteria \<Rightarrow> bool res" where
  "always \<equiv> \<lambda>_ _. Inr True"

lemma sample_wants: "wants always sample_users (blank_announcement ''m1'' ''u'') sample_filter"
  by (simp add: wants_def sample_filter_def sample_users_def)

lemma blank_parent: "an_status (blank_announcement k u) = ActiveAnn" "an_parent_id (blank_announcement k u) = None"
  by (simp_all add: blank_announcement_def)

lemma sample_notif_ok: "notif_ok sample_notif"
  and sample_pending: "job_by_id ''n1'' sample_notif = Some sample_job"
  by (simp_all add: sample_notif_def sample_job_def jobs_ok_def keyed_by_def dict_ok_def job_by_id_def nj_key_def)

lemma sample_match_runs:
  "\<exists>r t. match_announcement always sample_users (\<lambda>_. True) 0 (\<lambda>_. ''n1'') [sample_filter]
     (blank_announcement ''m1'' ''u'') (notif_init sample_limiter) = (Inr r, t)"
  by (simp add: match_announcement_def blank_parent match_filter_def sample_filter_def sample_users_def
      priority_for_user_def is_premium_def create_pending_def store_job_def notif_init_def Let_def)

section \<open>At most one delivery\<close>

text \<open>
  C13. In every state that matching and delivery reach, whatever fails on the way, there is at most
  one job per user, filter and announcement, and Telegram accepted each notification at most once: exactly
  once for the jobs that are marked as sent and never for the others.
\<close>

theorem delivered_at_most_once:
  assumes "notif_reachable rl s"
  shows "keyed_by nj_key (nt_jobs s) \<and>
    (\<forall>n. count_list (nt_delivered s) n \<le> 1 \<and>
       (count_list (nt_delivered s) n = 1 \<longleftrightarrow> (\<exists>j. job_by_id n s = Some j \<and> nj_status j = SentJob)))"
proof -
  have "notif_ok s \<and> delivered_ok s"
    using assms
  proof (induction rule: notif_reachable.induct)
    case Start
    then show ?case
      by (simp add: notif_init_def jobs_ok_def delivered_ok_def job_by_id_def)
  next
    case (Then s t)
    then show ?case using notif_step_ok by blast
  qed
  then show ?thesis by (simp add: jobs_ok_def delivered_ok_def)
qed

lemma delivered_at_most_once_witness:
  "count_list (nt_delivered (snd (match_announcement always sample_users (\<lambda>_. True) 0 (\<lambda>_. ''n1'') [sample_filter]
     (blank_announcement ''m1'' ''u'') (notif_init sample_limiter)))) ''n1'' \<le> 1"
  using delivered_at_most_once
    [OF notif_reachable.Then [OF notif_reachable.Start notif_step.Match [of "\<lambda>_. ''n1''" "[sample_filter]"
      "notif_init sample_limiter" always sample_users "\<lambda>_. True" 0 "blank_announcement ''m1'' ''u''"]]]
  by (simp add: fresh_id_def notif_init_def)

section \<open>One job per match\<close>

definition filters_accounted :: "match_metrics \<Rightarrow> nat" where
  "filters_accounted m =
     mm_matched_filters m + mm_skipped_disabled_filters m + mm_skipped_inactive_user m +
     mm_skipped_notifications_disabled m + mm_skipped_no_match m + mm_matching_errors m"

lemma match_filter_counts:
  assumes "match_filter matches users accepts now ids a f r s = (Inr r', t)"
  shows "filters_accounted (mr_metrics r') = Suc (filters_accounted (mr_metrics r)) \<and>
    mm_jobs_created (mr_metrics r') + mm_duplicate_jobs (mr_metrics r') + mm_matched_filters (mr_metrics r) =
      mm_jobs_created (mr_metrics r) + mm_duplicate_jobs (mr_metrics r) + mm_matched_filters (mr_metrics r') \<and>
    length (mr_jobs r') + mm_jobs_created (mr_metrics r) = length (mr_jobs r) + mm_jobs_created (mr_metrics r')"
  using assms
  by (auto simp: match_filter_def bump_def filters_accounted_def
      split: if_splits sum.splits bool.splits option.splits prod.splits)

lemma match_filters_counts:
  assumes "match_filters matches users accepts now ids a fs r s = (Inr r', t)"
  shows "filters_accounted (mr_metrics r') = filters_accounted (mr_metrics r) + length fs \<and>
    mm_jobs_created (mr_metrics r') + mm_duplicate_jobs (mr_metrics r') + mm_matched_filters (mr_metrics r) =
      mm_jobs_created (mr_metrics r) + mm_duplicate_jobs (mr_metrics r) + mm_matched_filters (mr_metrics r') \<and>
    length (mr_jobs r') + mm_jobs_created (mr_metrics r) = length (mr_jobs r) + mm_jobs_created (mr_metrics r')"
  using assms
proof (induction fs arbitrary: r s)
  case (Cons f fs)
  then obtain r1 s1 where step: "match_filter matches users accepts now ids a f r s = (Inr r1, s1)"
    and rest: "match_filters matches users accepts now ids a fs r1 s1 = (Inr r', t)"
    by (auto elim: then_do_InrE)
  from match_filter_counts [OF step] Cons.IH [OF rest] show ?case by simp
qed simp

lemma match_filter_step:
  assumes "match_filter matches users accepts now ids a f r s = (Inr r', t)"
  shows "(wants matches users a f \<longrightarrow> dict_get (nt_jobs t) (job_key a f) \<noteq> None) \<and>
    (dict_get (nt_jobs s) k \<noteq> None \<longrightarrow> dict_get (nt_jobs t) k \<noteq> None) \<and>
    (\<exists>new. mr_jobs r' = mr_jobs r @ new \<and> nt_queue t = nt_queue s @ new)"
proof (cases "wants matches users a f")
  case False
  from match_filter_unwanted [OF this, of accepts now ids r s] assms False show ?thesis by auto
next
  case wanted: True
  show ?thesis
  proof (cases "dict_get (nt_jobs s) (job_key a f)")
    case None
    from match_filter_absent [OF wanted None, of ids accepts now r] assms show ?thesis
      by (auto simp: dict_get_put split: if_splits)
  next
    case (Some j)
    with match_filter_present [OF wanted, of s accepts now ids r] assms show ?thesis by auto
  qed
qed

lemma match_filters_run:
  assumes "match_filters matches users accepts now ids a fs r s = (Inr r', t)"
  shows "(\<forall>f \<in> set fs. wants matches users a f \<longrightarrow> dict_get (nt_jobs t) (job_key a f) \<noteq> None) \<and>
    (\<forall>k. dict_get (nt_jobs s) k \<noteq> None \<longrightarrow> dict_get (nt_jobs t) k \<noteq> None) \<and>
    (\<exists>new. mr_jobs r' = mr_jobs r @ new \<and> nt_queue t = nt_queue s @ new)"
  using assms
proof (induction fs arbitrary: r s)
  case (Cons f fs)
  then obtain r1 s1 where step: "match_filter matches users accepts now ids a f r s = (Inr r1, s1)"
    and rest: "match_filters matches users accepts now ids a fs r1 s1 = (Inr r', t)"
    by (auto elim: then_do_InrE)
  have one: "wants matches users a f \<longrightarrow> dict_get (nt_jobs s1) (job_key a f) \<noteq> None"
    and keep: "dict_get (nt_jobs s) k \<noteq> None \<longrightarrow> dict_get (nt_jobs s1) k \<noteq> None" for k
    using match_filter_step [OF step] by blast+
  obtain new1 where new1: "mr_jobs r1 = mr_jobs r @ new1" "nt_queue s1 = nt_queue s @ new1"
    using match_filter_step [OF step] by blast
  obtain new2 where new2: "mr_jobs r' = mr_jobs r1 @ new2" "nt_queue t = nt_queue s1 @ new2"
    using Cons.IH [OF rest] by blast
  have "\<exists>new. mr_jobs r' = mr_jobs r @ new \<and> nt_queue t = nt_queue s @ new"
    using new1 new2 by (intro exI [of _ "new1 @ new2"]) simp
  with one keep Cons.IH [OF rest] show ?case by auto
qed simp

lemma match_filters_again:
  assumes "\<forall>f \<in> set fs. wants matches users a f \<longrightarrow> dict_get (nt_jobs s) (job_key a f) \<noteq> None"
  shows "\<exists>r' t. match_filters matches users accepts now ids a fs r s = (Inr r', t) \<and>
    nt_jobs t = nt_jobs s \<and> nt_queue t = nt_queue s \<and> nt_delivered t = nt_delivered s \<and> mr_jobs r' = mr_jobs r"
  using assms
proof (induction fs arbitrary: r s)
  case Nil
  then show ?case by simp
next
  case (Cons f fs)
  obtain r1 s1 where step: "match_filter matches users accepts now ids a f r s = (Inr r1, s1)"
    and same: "nt_jobs s1 = nt_jobs s" "nt_queue s1 = nt_queue s" "nt_delivered s1 = nt_delivered s"
      "mr_jobs r1 = mr_jobs r"
  proof (cases "wants matches users a f")
    case False
    with match_filter_unwanted [OF this, of accepts now ids r s] that show thesis by blast
  next
    case True
    with match_filter_present [OF True, of s accepts now ids r] Cons.prems that show thesis by auto
  qed
  obtain r' t where "match_filters matches users accepts now ids a fs r1 s1 = (Inr r', t)"
    and "nt_jobs t = nt_jobs s1" "nt_queue t = nt_queue s1" "nt_delivered t = nt_delivered s1" "mr_jobs r' = mr_jobs r1"
    using Cons.IH [of s1 r1] Cons.prems same by auto
  with step same show ?case by auto
qed

text \<open>
  C14. A completed match of an active parent leaves a job for every enabled, matching filter of an
  active user who wants notifications, has published exactly the jobs it created, and its counters account for
  every filter once; matching the announcement again creates and publishes nothing.
\<close>

theorem match_announcement_once:
  assumes "an_status a = ActiveAnn" and "an_parent_id a = None"
    and "match_announcement matches users accepts now ids filters a s = (Inr r, t)"
  shows "(\<forall>f \<in> set filters. wants matches users a f \<longrightarrow> dict_get (nt_jobs t) (job_key a f) \<noteq> None) \<and>
    nt_queue t = nt_queue s @ mr_jobs r \<and> filters_accounted (mr_metrics r) = length filters \<and>
    mm_jobs_created (mr_metrics r) = length (mr_jobs r) \<and>
    mm_matched_filters (mr_metrics r) = mm_jobs_created (mr_metrics r) + mm_duplicate_jobs (mr_metrics r) \<and>
    (\<exists>r' t'. match_announcement matches users accepts' now' ids' filters a t = (Inr r', t') \<and>
       nt_jobs t' = nt_jobs t \<and> nt_queue t' = nt_queue t \<and> mr_jobs r' = [])"
proof -
  let ?r0 = "\<lparr>mr_jobs = [], mr_metrics = no_match_metrics, mr_skipped = []\<rparr>"
  have run: "match_filters matches users accepts now ids a filters ?r0 s = (Inr r, t)"
    using assms by (simp add: match_announcement_def)
  have again: "match_announcement matches users accepts' now' ids' filters a t =
      match_filters matches users accepts' now' ids' a filters ?r0 t"
    using assms(1,2) by (simp add: match_announcement_def)
  from match_filters_run [OF run] have "\<forall>f \<in> set filters. wants matches users a f \<longrightarrow>
      dict_get (nt_jobs t) (job_key a f) \<noteq> None" "nt_queue t = nt_queue s @ mr_jobs r" by auto
  moreover from match_filters_counts [OF run]
  have "filters_accounted (mr_metrics r) = length filters"
    "mm_jobs_created (mr_metrics r) = length (mr_jobs r)"
    "mm_matched_filters (mr_metrics r) = mm_jobs_created (mr_metrics r) + mm_duplicate_jobs (mr_metrics r)"
    by (simp_all add: no_match_metrics_def filters_accounted_def)
  ultimately show ?thesis
    unfolding again
    using match_filters_again [of filters matches users a t accepts' now' ids' ?r0] by auto
qed

lemma match_announcement_once_witness:
  "case match_announcement always sample_users (\<lambda>_. True) 0 (\<lambda>_. ''n1'') [sample_filter]
     (blank_announcement ''m1'' ''u'') (notif_init sample_limiter) of
     (Inr r, t) \<Rightarrow> nt_queue t = mr_jobs r \<and> filters_accounted (mr_metrics r) = 1 | _ \<Rightarrow> False"
proof -
  obtain r t where run: "match_announcement always sample_users (\<lambda>_. True) 0 (\<lambda>_. ''n1'') [sample_filter]
     (blank_announcement ''m1'' ''u'') (notif_init sample_limiter) = (Inr r, t)" using sample_match_runs by blast
  from match_announcement_once [OF blank_parent run] run show ?thesis
    by (simp add: notif_init_def)
qed

text \<open>
  When the queue refuses a new job, matching fails after the job is stored; the redelivered
  announcement then finds the job, counts a duplicate and publishes nothing: the notification never
  reaches the delivery queue.
\<close>

theorem unpublished_job_is_lost:
  assumes "an_status a = ActiveAnn" and "an_parent_id a = None" and "wants matches users a f"
    and "dict_get (nt_jobs s) (job_key a f) = None" and "\<And>j. \<not> refuses j" and "\<And>j. accepts j"
  shows "\<exists>e t r t'. match_announcement matches users refuses now ids [f] a s = (Inl e, t) \<and>
    match_announcement matches users accepts now' ids' [f] a t = (Inr r, t') \<and>
    dict_get (nt_jobs t') (job_key a f) \<noteq> None \<and> nt_queue t' = nt_queue s \<and> mr_jobs r = []"
proof -
  let ?r0 = "\<lparr>mr_jobs = [], mr_metrics = no_match_metrics, mr_skipped = []\<rparr>"
  obtain j t where t: "match_filter matches users refuses now ids a f ?r0 s =
      (Inl (QueuePublishError ''notification.delivery''), t)"
    and j: "nj_key j = job_key a f" "t = s\<lparr>nt_jobs := dict_put (nj_key j) j (nt_jobs s)\<rparr>"
    using match_filter_absent [OF assms(3,4), of ids refuses now ?r0] assms(5) by auto
  have present: "dict_get (nt_jobs t) (job_key a f) \<noteq> None"
    using j by (simp add: dict_get_put)
  obtain r where r: "match_filter matches users accepts now' ids' a f ?r0 t = (Inr r, t)" "mr_jobs r = []"
    using match_filter_present [OF assms(3) present, of accepts now' ids' ?r0] by auto
  show ?thesis
    using t r assms(1,2) present j(2) by (simp add: match_announcement_def)
qed

lemma unpublished_job_is_lost_witness:
  "\<exists>e t r t'. match_announcement always sample_users (\<lambda>_. False) 0 (\<lambda>_. ''n1'') [sample_filter]
      (blank_announcement ''m1'' ''u'') (notif_init sample_limiter) = (Inl e, t) \<and>
    match_announcement always sample_users (\<lambda>_. True) 9 (\<lambda>_. ''n2'') [sample_filter]
      (blank_announcement ''m1'' ''u'') t = (Inr r, t') \<and> nt_queue t' = []"
  using unpublished_job_is_lost [OF blank_parent sample_wants, of "notif_init sample_limiter" "\<lambda>_. False" "\<lambda>_. True"
      0 "\<lambda>_. ''n1''" 9 "\<lambda>_. ''n2''"]
  by (auto simp: notif_init_def)

section \<open>Deliveries\<close>

lemma not_ready_not_listed:
  assumes "nj_status u \<noteq> PendingJob"
  shows "u \<notin> set (list_ready limit now s)"
proof
  assume "u \<in> set (list_ready limit now s)"
  then have "u \<in> set (filter (job_ready now) (dict_values (nt_jobs s)))"
    unfolding list_ready_def by (auto dest: in_set_takeD)
  then have "job_ready now u" by simp
  with assms show False by (simp add: job_ready_def)
qed

text \<open>
  A delivery of a job that is not pending is skipped and changes nothing; a pending job gets one attempt
  and becomes exactly what the limiter, the context and Telegram's answer say: sent, suppressed or failed
  for good, or pending again at the time the answer asks for. No other job changes.
\<close>

theorem process_job_outcome:
  assumes "notif_ok s" and "job_by_id (nj_notification_id job) s = Some j"
  shows "(case process_job send backoff now job s of (r, t) \<Rightarrow>
      if nj_status j \<noteq> PendingJob then t = s \<and> map_sum id snd r = Inr MSkipped
      else map_sum id snd r = snd (after_delivery send backoff now j s) \<and>
        job_by_id (nj_notification_id job) t = Some (fst (after_delivery send backoff now j s)) \<and>
        (\<forall>n. n \<noteq> nj_notification_id job \<longrightarrow> job_by_id n t = job_by_id n s))"
proof (cases "nj_status j = PendingJob")
  case False
  with assms(2) process_job_skips [of job s send backoff now] show ?thesis by auto
next
  case True
  have idj: "nj_notification_id j = nj_notification_id job" using assms by (simp add: job_by_id_iff)
  obtain r t where run: "process_job send backoff now job s = (r, t)"
    "map_sum id snd r = snd (after_delivery send backoff now j s)"
    "nt_jobs t = dict_put (nj_key j) (fst (after_delivery send backoff now j s)) (nt_jobs s)"
    using process_job_pending [OF assms True refl, of send backoff now] by blast
  from job_by_id_replaced [OF assms after_delivery_same_job(1) _ run(3)] idj run(1,2) True
  show ?thesis by (simp add: after_delivery_same_job)
qed

lemma process_job_outcome_witness:
  "job_by_id ''n1'' (snd (process_job (\<lambda>_ _ _. Delivered ''55'') 300 0 sample_job sample_notif)) =
     Some (fst (after_delivery (\<lambda>_ _ _. Delivered ''55'') 300 0 sample_job sample_notif))"
  using process_job_outcome [OF sample_notif_ok, of sample_job sample_job "\<lambda>_ _ _. Delivered ''55''" 300 0]
    sample_pending
  by (simp add: sample_job_def split: prod.splits)

text \<open>
  Any other exception while sending (a disabled feature, a network library's error) leaves the job
  in the state "sending" for good: the call raises, and every later delivery of the job, whatever
  Telegram would answer then, is skipped and the job never becomes ready again.
\<close>

theorem unexpected_error_strands_job:
  assumes "notif_ok s" and "job_by_id (nj_notification_id job) s = Some j" and "nj_status j = PendingJob"
    and "fst (rate_retry_after (nj_user_id j) now (nt_limiter s)) = None"
    and "dict_get (nt_announcements s) (nj_announcement_id j) = Some an"
    and "dict_get (nt_filter_names s) (nj_filter_id j) = Some name"
    and "\<And>j. send j an name = OtherException e"
  shows "\<exists>t. process_job send backoff now job s = (Inl e, t) \<and>
    (\<exists>a. process_job send' backoff' now' job t = (Inr (a, MSkipped), t)) \<and>
    (\<exists>u. job_by_id (nj_notification_id job) t = Some u \<and> nj_status u = SendingJob \<and>
       u \<notin> set (list_ready limit later t))"
proof -
  let ?u = "j\<lparr>nj_status := SendingJob, nj_attempts := Suc (nj_attempts j)\<rparr>"
  have out: "after_delivery send backoff now j s = (?u, Inl e)"
    using assms(4-7) by (simp add: after_delivery_def Let_def)
  have idj: "nj_notification_id j = nj_notification_id job" using assms(1,2) by (simp add: job_by_id_iff)
  obtain r t where run: "process_job send backoff now job s = (r, t)"
    and r: "map_sum id snd r = Inl e" and t: "nt_jobs t = dict_put (nj_key j) ?u (nt_jobs s)"
    using process_job_pending [OF assms(1-3) refl, of send backoff now] out by auto
  have "r = Inl e" using r by (cases r) auto
  moreover have u: "job_by_id (nj_notification_id job) t = Some ?u"
    using job_by_id_replaced [OF assms(1,2) _ _ t] idj by simp
  moreover have "\<exists>a. process_job send' backoff' now' job t = (Inr (a, MSkipped), t)"
    using process_job_skips [of job t send' backoff' now'] u by auto
  moreover have "?u \<notin> set (list_ready limit later t)"
    by (rule not_ready_not_listed) simp
  ultimately show ?thesis using run by (intro exI [of _ t]) auto
qed

lemma unexpected_error_strands_job_witness:
  "\<exists>t. process_job (\<lambda>_ _ _. OtherException (RuntimeError ''off'')) 300 0 sample_job sample_notif =
      (Inl (RuntimeError ''off''), t) \<and>
    (\<exists>a. process_job (\<lambda>_ _ _. Delivered ''55'') 300 9 sample_job t = (Inr (a, MSkipped), t))"
proof -
  have "job_by_id (nj_notification_id sample_job) sample_notif = Some sample_job" "nj_status sample_job = PendingJob"
    "fst (rate_retry_after (nj_user_id sample_job) 0 (nt_limiter sample_notif)) = None"
    "dict_get (nt_announcements sample_notif) (nj_announcement_id sample_job) = Some (blank_announcement ''m1'' ''u'')"
    "dict_get (nt_filter_names sample_notif) (nj_filter_id sample_job) = Some ''n''"
    using sample_pending
    by (simp_all add: sample_job_def sample_notif_def notif_init_def sample_limiter_def rate_retry_after_def remaining_def)
  from unexpected_error_strands_job [OF sample_notif_ok this, of "\<lambda>_ _ _. OtherException (RuntimeError ''off'')"
      "RuntimeError ''off''" 300 "\<lambda>_ _ _. Delivered ''55''" 300 9]
  show ?thesis by blast
qed

section \<open>The rate limiter\<close>

text \<open>The requests of a sequence that the limiter lets through, each with its user and time.\<close>

fun allowed_sends :: "(int \<times> time) list \<Rightarrow> rate_limiter \<Rightarrow> (int \<times> time) list" where
  "allowed_sends [] rl = []"
| "allowed_sends ((u, t) # rs) rl =
     (case rate_retry_after u t rl of
        (None, rl1) \<Rightarrow> (u, t) # allowed_sends rs rl1
      | (Some _, rl1) \<Rightarrow> allowed_sends rs rl1)"

definition spaced :: "rate_limiter \<Rightarrow> int \<times> time \<Rightarrow> int \<times> time \<Rightarrow> bool" where
  "spaced rl x y \<longleftrightarrow>
     snd x + rl_global_interval rl \<le> snd y \<and> (fst x = fst y \<longrightarrow> snd x + rl_per_user_interval rl \<le> snd y)"

definition stamps_before :: "time \<Rightarrow> rate_limiter \<Rightarrow> bool" where
  "stamps_before lo rl \<longleftrightarrow>
     (\<forall>t. rl_last_global_send rl = Some t \<longrightarrow> t \<le> lo) \<and> (\<forall>u t. dict_get (rl_last_user_send rl) u = Some t \<longrightarrow> t \<le> lo)"

lemma remaining_None_iff:
  "remaining seen i now = None \<longleftrightarrow> (\<forall>t. seen = Some t \<longrightarrow> i \<le> 0 \<or> t + i \<le> now)"
  by (auto simp: remaining_def split: option.split)

lemma rate_retry_None:
  "fst (rate_retry_after u now rl) = None \<longleftrightarrow>
     remaining (rl_last_global_send rl) (rl_global_interval rl) now = None \<and>
     remaining (dict_get (rl_last_user_send rl) u) (rl_per_user_interval rl) now = None"
  by (auto simp: rate_retry_after_def Let_def)

lemma rate_retry_cases:
  obtains "rate_retry_after u t rl =
      (None, rl\<lparr>rl_last_global_send := Some t, rl_last_user_send := dict_put u t (rl_last_user_send rl)\<rparr>)"
    and "remaining (rl_last_global_send rl) (rl_global_interval rl) t = None"
    and "remaining (dict_get (rl_last_user_send rl) u) (rl_per_user_interval rl) t = None"
  | w where "rate_retry_after u t rl = (Some w, rl)"
  using rate_retry_None [of u t rl] by (cases "fst (rate_retry_after u t rl)") (auto simp: rate_retry_after_def Let_def)

lemma allowed_sends_subset: "set (allowed_sends rs rl) \<subseteq> set rs"
proof (induction rs arbitrary: rl)
  case (Cons r rs)
  obtain u t w rl1 where "r = (u, t)" and "rate_retry_after u t rl = (w, rl1)"
    by (metis surj_pair)
  with Cons [of rl1] show ?case by (cases w) auto
qed simp

text \<open>Everything sent later keeps its distance to the stamps the limiter already has.\<close>

lemma allowed_sends_after:
  assumes "sorted (map snd rs)" and "\<forall>r \<in> set rs. lo \<le> snd r" and "stamps_before lo rl"
  shows "(\<forall>t. rl_last_global_send rl = Some t \<longrightarrow> (\<forall>x \<in> set (allowed_sends rs rl). t + rl_global_interval rl \<le> snd x)) \<and>
    (\<forall>v t. dict_get (rl_last_user_send rl) v = Some t \<longrightarrow>
       (\<forall>x \<in> set (allowed_sends rs rl). fst x = v \<longrightarrow> t + rl_per_user_interval rl \<le> snd x)) \<and>
    sorted_wrt (spaced rl) (allowed_sends rs rl)"
  using assms
proof (induction rs arbitrary: rl lo)
  case (Cons r rs)
  obtain u t where r: "r = (u, t)" by (cases r)
  have lo: "lo \<le> t" and later: "sorted (map snd rs)" "\<forall>r \<in> set rs. t \<le> snd r"
    using Cons.prems(1,2) r by auto
  show ?case
  proof (rule rate_retry_cases [of u t rl])
    assume go: "rate_retry_after u t rl =
        (None, rl\<lparr>rl_last_global_send := Some t, rl_last_user_send := dict_put u t (rl_last_user_send rl)\<rparr>)"
      "remaining (rl_last_global_send rl) (rl_global_interval rl) t = None"
      "remaining (dict_get (rl_last_user_send rl) u) (rl_per_user_interval rl) t = None"
    let ?rl = "rl\<lparr>rl_last_global_send := Some t, rl_last_user_send := dict_put u t (rl_last_user_send rl)\<rparr>"
    have "stamps_before t ?rl"
      using Cons.prems(3) lo unfolding stamps_before_def by (auto simp: dict_get_put split: if_splits) (meson order_trans)
    note ih = Cons.IH [OF later this]
    have g: "\<forall>x \<in> set (allowed_sends rs ?rl). t + rl_global_interval rl \<le> snd x"
      and p: "\<forall>v s. dict_get (dict_put u t (rl_last_user_send rl)) v = Some s \<longrightarrow>
        (\<forall>x \<in> set (allowed_sends rs ?rl). fst x = v \<longrightarrow> s + rl_per_user_interval rl \<le> snd x)"
      and sp: "sorted_wrt (spaced rl) (allowed_sends rs ?rl)"
      using ih by (simp_all add: spaced_def [abs_def])
    have glob: "s + rl_global_interval rl \<le> t" "s \<le> t" if "rl_last_global_send rl = Some s" for s
      using that go(2) Cons.prems(3) lo unfolding remaining_None_iff stamps_before_def by fastforce+
    have user: "s + rl_per_user_interval rl \<le> t" if "dict_get (rl_last_user_send rl) u = Some s" for s
      using that go(3) Cons.prems(3) lo unfolding remaining_None_iff stamps_before_def by fastforce
    have own: "\<forall>x \<in> set (allowed_sends rs ?rl). fst x = u \<longrightarrow> t + rl_per_user_interval rl \<le> snd x"
      using spec [OF spec [OF p], of u t] by (simp add: dict_get_put)
    have after: "t \<le> snd x" if "x \<in> set (allowed_sends rs ?rl)" for x
      using that allowed_sends_subset later(2) by blast
    have eq: "allowed_sends (r # rs) rl = (u, t) # allowed_sends rs ?rl"
      using go(1) r by simp
    have "t + 0 \<le> snd x \<and> s + rl_global_interval rl \<le> snd x"
      if "rl_last_global_send rl = Some s" "x \<in> set (allowed_sends rs ?rl)" for s x
      using glob [OF that(1)] after [OF that(2)] by linarith
    moreover have "s + rl_per_user_interval rl \<le> snd x"
      if "dict_get (rl_last_user_send rl) v = Some s" "x \<in> set (allowed_sends rs ?rl)" "fst x = v" for s x v
    proof (cases "v = u")
      case True
      then show ?thesis using user [of s] that(1) after [OF that(2)] by simp
    next
      case False
      then show ?thesis using spec [OF spec [OF p], of v s] that by (simp add: dict_get_put)
    qed
    moreover have "sorted_wrt (spaced rl) (allowed_sends (r # rs) rl)"
      unfolding eq using sp g own by (auto simp: spaced_def)
    ultimately show ?thesis
      unfolding eq using glob user by auto
  next
    fix w
    assume "rate_retry_after u t rl = (Some w, rl)"
    then show ?thesis
      unfolding r using Cons.IH [OF later(1), of lo rl] Cons.prems by simp
  qed
qed simp

text \<open>
  C14. Whatever requests arrive in the order of time, the messages the limiter lets through are at least
  the global interval apart, and those to one user at least the user's interval.
\<close>

theorem rate_limiter_spacing:
  assumes "sorted (map snd rs)" and "rl_last_global_send rl = None" and "rl_last_user_send rl = []"
  shows "sorted_wrt (\<lambda>x y. snd x + rl_global_interval rl \<le> snd y \<and>
      (fst x = fst y \<longrightarrow> snd x + rl_per_user_interval rl \<le> snd y)) (allowed_sends rs rl)"
proof (cases rs)
  case (Cons r rest)
  have "stamps_before (snd r) rl" using assms(2,3) by (simp add: stamps_before_def)
  then show ?thesis
    using allowed_sends_after [of rs "snd r" rl] assms(1) Cons by (simp add: spaced_def [abs_def])
qed simp

lemma rate_limiter_spacing_witness:
  "sorted_wrt (\<lambda>x y. snd x + 1 \<le> snd y) (allowed_sends [(7, 0), (7, 4), (8, 4), (7, 12)] sample_limiter)"
proof -
  have "sorted (map snd [(7, 0), (7, 4), (8, 4), (7 :: int, 12 :: time)])"
    "rl_last_global_send sample_limiter = None" "rl_last_user_send sample_limiter = []"
    by (simp_all add: sample_limiter_def)
  from rate_limiter_spacing [OF this]
  show ?thesis by (rule sorted_wrt_mono_rel [rotated]) (simp add: sample_limiter_def)
qed

text \<open>
  The wait the limiter answers is the shortest one: it is positive, the limiter is left as it was,
  asking again after the wait succeeds, and asking at any earlier time is answered by the rest of the wait.
\<close>

theorem rate_retry_after_exact:
  "case rate_retry_after u now rl of
     (None, _) \<Rightarrow> True
   | (Some w, rl1) \<Rightarrow> 0 < w \<and> rl1 = rl \<and> fst (rate_retry_after u (now + w) rl1) = None \<and>
       fst (rate_retry_after u (now + w - d) rl1) = (if d \<le> 0 then None else Some d)"
  by (auto simp: rate_retry_after_def remaining_def Let_def split: option.splits if_splits)

section \<open>Callback data\<close>

text \<open>
  The callback of a notification button gives back its action and its notification id, whatever
  characters the id has; every other action is refused when the callback is built.
\<close>

theorem notification_callback_round_trip:
  "notification_action_callback nid action =
     (if action \<in> {''open'', ''search'', ''read''} then Inr (''n:v1:'' @ action @ '':'' @ nid)
      else Inl (ValueError ''Unsupported notification action.'')) \<and>
   res_bind (notification_action_callback nid action) parse_notification_action_callback =
     (if action \<in> {''open'', ''search'', ''read''} then Inr (action, nid)
      else Inl (ValueError ''Unsupported notification action.''))"
proof -
  have "split_n CHR '':'' 3 (''n:v1:'' @ action @ '':'' @ nid) = [''n'', ''v1'', action, nid]"
    if "CHR '':'' \<notin> set action"
    using that by (simp add: split_n_append numeral_3_eq_3 split_n_0)
  then show ?thesis
    by (auto simp: notification_action_callback_def parse_notification_action_callback_def
        notification_actions_def)
qed

end
