(* ===== verification/EF_Release.thy ===== *)
theory EF_Release
  imports EF_Text
begin

text \<open>
  Release controls: \<open>services/release_controls.py\<close>. The feature flags, the in-memory store with its
  versions and audit trail, the Redis store with its local fallback, the beta policy and the service.
  Which of the Redis calls of an operation fail is an argument (\<open>up\<close>), and so are the two directions of
  \<open>datetime\<close>'s ISO format (\<open>to_iso\<close>, \<open>of_iso\<close>).
\<close>

section \<open>Flags\<close>

datatype flag_name =
    BotAccess | ListenerSources | AiProcessing | NotificationsFlag | NlpFlag | ContentPublishing | AiVision

definition FEATURE_FLAG_NAMES :: "flag_name list" where
  "FEATURE_FLAG_NAMES =
     [BotAccess, ListenerSources, AiProcessing, NotificationsFlag, NlpFlag, ContentPublishing, AiVision]"

fun flag_text :: "flag_name \<Rightarrow> string" where
  "flag_text BotAccess = ''bot_access''"
| "flag_text ListenerSources = ''listener_sources''"
| "flag_text AiProcessing = ''ai_processing''"
| "flag_text NotificationsFlag = ''notifications''"
| "flag_text NlpFlag = ''nlp''"
| "flag_text ContentPublishing = ''content_publishing''"
| "flag_text AiVision = ''ai_vision''"

record feature_flag_set =
  ff_bot_access :: bool
  ff_listener_sources :: bool
  ff_ai_processing :: bool
  ff_notifications :: bool
  ff_nlp :: bool
  ff_content_publishing :: bool
  ff_ai_vision :: bool

definition default_flags :: feature_flag_set where
  "default_flags =
     \<lparr>ff_bot_access = False, ff_listener_sources = False, ff_ai_processing = False, ff_notifications = False,
      ff_nlp = False, ff_content_publishing = False, ff_ai_vision = True\<rparr>"

fun flag_enabled :: "feature_flag_set \<Rightarrow> flag_name \<Rightarrow> bool" where
  "flag_enabled f BotAccess = ff_bot_access f"
| "flag_enabled f ListenerSources = ff_listener_sources f"
| "flag_enabled f AiProcessing = ff_ai_processing f"
| "flag_enabled f NotificationsFlag = ff_notifications f"
| "flag_enabled f NlpFlag = ff_nlp f"
| "flag_enabled f ContentPublishing = ff_content_publishing f"
| "flag_enabled f AiVision = ff_ai_vision f"

fun with_update :: "flag_name \<Rightarrow> bool \<Rightarrow> feature_flag_set \<Rightarrow> feature_flag_set" where
  "with_update BotAccess b f = f\<lparr>ff_bot_access := b\<rparr>"
| "with_update ListenerSources b f = f\<lparr>ff_listener_sources := b\<rparr>"
| "with_update AiProcessing b f = f\<lparr>ff_ai_processing := b\<rparr>"
| "with_update NotificationsFlag b f = f\<lparr>ff_notifications := b\<rparr>"
| "with_update NlpFlag b f = f\<lparr>ff_nlp := b\<rparr>"
| "with_update ContentPublishing b f = f\<lparr>ff_content_publishing := b\<rparr>"
| "with_update AiVision b f = f\<lparr>ff_ai_vision := b\<rparr>"

record flag_state =
  fs_flag_name :: flag_name
  fs_enabled :: bool
  fs_version :: int
  fs_updated_at :: time

definition default_flag_state :: "flag_name \<Rightarrow> flag_state" where
  "default_flag_state n = \<lparr>fs_flag_name = n, fs_enabled = False, fs_version = 0, fs_updated_at = 0\<rparr>"

type_synonym flag_snapshot = "(flag_name, flag_state) dict"

definition snapshot_state :: "flag_snapshot \<Rightarrow> flag_name \<Rightarrow> flag_state" where
  "snapshot_state d n = (case dict_get d n of None \<Rightarrow> default_flag_state n | Some s \<Rightarrow> s)"

definition as_set :: "flag_snapshot \<Rightarrow> feature_flag_set" where
  "as_set d =
     \<lparr>ff_bot_access = fs_enabled (snapshot_state d BotAccess),
      ff_listener_sources = fs_enabled (snapshot_state d ListenerSources),
      ff_ai_processing = fs_enabled (snapshot_state d AiProcessing),
      ff_notifications = fs_enabled (snapshot_state d NotificationsFlag),
      ff_nlp = fs_enabled (snapshot_state d NlpFlag),
      ff_content_publishing = fs_enabled (snapshot_state d ContentPublishing),
      ff_ai_vision = fs_enabled (snapshot_state d AiVision)\<rparr>"

record flag_event =
  fe_flag_name :: string
  fe_previous_enabled :: bool
  fe_new_enabled :: bool
  fe_previous_version :: int
  fe_new_version :: int
  fe_actor :: string
  fe_reason :: string
  fe_occurred_at :: time

section \<open>The in-memory store\<close>

record flag_store =
  flag_states :: flag_snapshot
  flag_audit :: "flag_event list"

definition init_flag_store :: "time \<Rightarrow> feature_flag_set \<Rightarrow> flag_store" where
  "init_flag_store now flags =
     \<lparr>flag_states = map (\<lambda>n. (n, \<lparr>fs_flag_name = n, fs_enabled = flag_enabled flags n, fs_version = 1,
        fs_updated_at = now\<rparr>)) FEATURE_FLAG_NAMES, flag_audit = []\<rparr>"

definition store_set_flag ::
  "flag_name \<Rightarrow> bool \<Rightarrow> int option \<Rightarrow> string \<Rightarrow> string \<Rightarrow> time \<Rightarrow> flag_store \<Rightarrow> flag_event res \<times> flag_store" where
  "store_set_flag n enabled expected actor reason now st =
     (case dict_get (flag_states st) n of
        None \<Rightarrow> (Inl (KeyError (flag_text n)), st)
      | Some current \<Rightarrow>
          if expected \<noteq> None \<and> Some (fs_version current) \<noteq> expected
          then (Inl (ValueError ''feature_flag_version_conflict''), st)
          else
            (let new_version = fs_version current + 1;
                 ev = \<lparr>fe_flag_name = flag_text n, fe_previous_enabled = fs_enabled current,
                   fe_new_enabled = enabled, fe_previous_version = fs_version current,
                   fe_new_version = new_version, fe_actor = actor, fe_reason = reason, fe_occurred_at = now\<rparr>
             in (Inr ev, st\<lparr>flag_states := dict_put n \<lparr>fs_flag_name = n, fs_enabled = enabled,
                   fs_version = new_version, fs_updated_at = now\<rparr> (flag_states st),
                   flag_audit := flag_audit st @ [ev]\<rparr>)))"

section \<open>Audit events as text\<close>

definition bit_text :: "bool \<Rightarrow> string" where
  "bit_text b = (if b then ''1'' else ''0'')"

definition serialize_audit_event :: "(time \<Rightarrow> string) \<Rightarrow> flag_event \<Rightarrow> string" where
  "serialize_audit_event to_iso e = join ''|''
     [fe_flag_name e, bit_text (fe_previous_enabled e), bit_text (fe_new_enabled e),
      str_int (fe_previous_version e), str_int (fe_new_version e), fe_actor e, fe_reason e,
      to_iso (fe_occurred_at e)]"

definition event_of_parts ::
  "(string \<Rightarrow> time option) \<Rightarrow> string \<Rightarrow> string \<Rightarrow> string \<Rightarrow> string \<Rightarrow> string \<Rightarrow> string \<Rightarrow> string \<Rightarrow> string \<Rightarrow>
   flag_event res" where
  "event_of_parts of_iso name previous new pv nv actor reason at_text =
     (case (py_int previous, py_int new, py_int pv, py_int nv, of_iso at_text) of
        (Some p, Some n, Some p', Some n', Some t) \<Rightarrow>
          Inr \<lparr>fe_flag_name = name, fe_previous_enabled = (p \<noteq> 0), fe_new_enabled = (n \<noteq> 0),
            fe_previous_version = p', fe_new_version = n', fe_actor = actor, fe_reason = reason,
            fe_occurred_at = t\<rparr>
      | _ \<Rightarrow> Inl (ValueError ''invalid literal''))"

definition deserialize_audit_event :: "(string \<Rightarrow> time option) \<Rightarrow> string \<Rightarrow> flag_event res" where
  "deserialize_audit_event of_iso text =
     (case split_all CHR ''|'' text of
        [name, previous, new, actor, reason, at_text] \<Rightarrow>
          event_of_parts of_iso name previous new ''0'' ''0'' actor reason at_text
      | [name, previous, new, pv, nv, actor, reason, at_text] \<Rightarrow>
          event_of_parts of_iso name previous new pv nv actor reason at_text
      | _ \<Rightarrow> Inl (ValueError ''unpack''))"

section \<open>The Redis store\<close>

datatype redis_call = HGetAll | SeedHSet | HGetAllAgain | HSet | RPush | LRange

record redis_flags =
  rf_hash :: "(string, string) dict"
  rf_rows :: "string list"
  rf_local :: "feature_flag_set option"
  rf_local_audit :: "flag_event list"
  rf_initial :: feature_flag_set

definition as_bool_text :: "string option \<Rightarrow> bool" where
  "as_bool_text v = (case v of None \<Rightarrow> False | Some s \<Rightarrow> lower s \<in> {''1'', ''true'', ''yes'', ''on''})"

definition bool_word :: "bool \<Rightarrow> string" where
  "bool_word b = (if b then ''true'' else ''false'')"

definition flags_of_payload :: "(string, string) dict \<Rightarrow> feature_flag_set" where
  "flags_of_payload d =
     \<lparr>ff_bot_access = as_bool_text (dict_get d ''bot_access''),
      ff_listener_sources = as_bool_text (dict_get d ''listener_sources''),
      ff_ai_processing = as_bool_text (dict_get d ''ai_processing''),
      ff_notifications = as_bool_text (dict_get d ''notifications''),
      ff_nlp = as_bool_text (dict_get d ''nlp''),
      ff_content_publishing = as_bool_text (dict_get d ''content_publishing''),
      ff_ai_vision = as_bool_text (Some (case dict_get d ''ai_vision'' of None \<Rightarrow> ''true'' | Some s \<Rightarrow> s))\<rparr>"

definition write_flags :: "feature_flag_set \<Rightarrow> (string, string) dict \<Rightarrow> (string, string) dict" where
  "write_flags f d = fold (\<lambda>n. dict_put (flag_text n) (bool_word (flag_enabled f n))) FEATURE_FLAG_NAMES d"

definition local_flags :: "redis_flags \<Rightarrow> feature_flag_set" where
  "local_flags s = (case rf_local s of None \<Rightarrow> rf_initial s | Some f \<Rightarrow> f)"

definition seed_initial :: "(redis_call \<Rightarrow> bool) \<Rightarrow> redis_flags \<Rightarrow> redis_flags" where
  "seed_initial up s =
     (if up SeedHSet then s\<lparr>rf_hash := write_flags (rf_initial s) (rf_hash s)\<rparr>
      else s\<lparr>rf_local := Some (rf_initial s)\<rparr>)"

definition redis_get_flags :: "(redis_call \<Rightarrow> bool) \<Rightarrow> redis_flags \<Rightarrow> feature_flag_set \<times> redis_flags" where
  "redis_get_flags up s =
     (if \<not> up HGetAll then (local_flags s, s)
      else if rf_hash s \<noteq> [] then (flags_of_payload (rf_hash s), s)
      else (let s1 = seed_initial up s
            in (if up HGetAllAgain then flags_of_payload (rf_hash s1) else local_flags s1, s1)))"

definition redis_set_flag ::
  "(time \<Rightarrow> string) \<Rightarrow> (redis_call \<Rightarrow> bool) \<Rightarrow> flag_name \<Rightarrow> bool \<Rightarrow> string \<Rightarrow> string \<Rightarrow> time \<Rightarrow> redis_flags \<Rightarrow>
   flag_event \<times> redis_flags" where
  "redis_set_flag to_iso up n enabled actor reason now s =
     (case redis_get_flags up s of
        (current, s1) \<Rightarrow>
          (let updated = with_update n enabled current;
               s2 = (if up HSet then s1\<lparr>rf_hash := write_flags updated (rf_hash s1)\<rparr>
                     else s1\<lparr>rf_local := Some updated\<rparr>);
               ev = \<lparr>fe_flag_name = flag_text n, fe_previous_enabled = flag_enabled current n,
                 fe_new_enabled = enabled, fe_previous_version = 0, fe_new_version = 0, fe_actor = actor,
                 fe_reason = reason, fe_occurred_at = now\<rparr>
           in (ev, if up RPush then s2\<lparr>rf_rows := rf_rows s2 @ [serialize_audit_event to_iso ev]\<rparr>
                   else s2\<lparr>rf_local_audit := rf_local_audit s2 @ [ev]\<rparr>)))"

fun readable_events :: "(string \<Rightarrow> time option) \<Rightarrow> string list \<Rightarrow> flag_event list" where
  "readable_events of_iso [] = []"
| "readable_events of_iso (r # rs) =
     (case deserialize_audit_event of_iso r of
        Inl _ \<Rightarrow> readable_events of_iso rs
      | Inr e \<Rightarrow> e # readable_events of_iso rs)"

definition redis_audit_log :: "(string \<Rightarrow> time option) \<Rightarrow> (redis_call \<Rightarrow> bool) \<Rightarrow> redis_flags \<Rightarrow> flag_event list" where
  "redis_audit_log of_iso up s = (if up LRange then readable_events of_iso (rf_rows s) else rf_local_audit s)"

section \<open>Beta access and the service\<close>

datatype beta_reason = BotEnabled | AllowlistEmpty | Allowlisted | NotAllowlisted

record beta_decision =
  bd_allowed :: bool
  bd_reason :: beta_reason

definition beta_decide :: "int set \<Rightarrow> int \<Rightarrow> feature_flag_set \<Rightarrow> beta_decision" where
  "beta_decide allowlist user flags =
     (if \<not> ff_bot_access flags
      then if user \<in> allowlist then \<lparr>bd_allowed = True, bd_reason = Allowlisted\<rparr>
           else if allowlist = {} then \<lparr>bd_allowed = False, bd_reason = AllowlistEmpty\<rparr>
           else \<lparr>bd_allowed = False, bd_reason = NotAllowlisted\<rparr>
      else \<lparr>bd_allowed = True, bd_reason = BotEnabled\<rparr>)"

record release_service =
  rs_store :: flag_store
  rs_allowlist :: "int set"

definition service_set_flag ::
  "flag_name \<Rightarrow> bool \<Rightarrow> int \<Rightarrow> string \<Rightarrow> string \<Rightarrow> time \<Rightarrow> release_service \<Rightarrow> flag_event res \<times> release_service" where
  "service_set_flag n enabled expected actor reason now s =
     (if strip actor = [] then (Inl (ValueError ''actor is required for feature flag changes.''), s)
      else if length (strip reason) < 5
      then (Inl (ValueError ''reason is required for feature flag changes.''), s)
      else
        (case store_set_flag n enabled (Some expected) (strip actor) (strip reason) now (rs_store s) of
           (r, st) \<Rightarrow> (r, s\<lparr>rs_store := st\<rparr>)))"

definition beta_access :: "int \<Rightarrow> release_service \<Rightarrow> beta_decision" where
  "beta_access user s = beta_decide (rs_allowlist s) user (as_set (flag_states (rs_store s)))"

definition add_beta_allowlist_user_id :: "int \<Rightarrow> release_service \<Rightarrow> nat res \<times> release_service" where
  "add_beta_allowlist_user_id user s =
     (if user \<le> 0 then (Inl (ValueError ''user_id must be a positive integer''), s)
      else (let l = insert user (rs_allowlist s) in (Inr (card l), s\<lparr>rs_allowlist := l\<rparr>)))"

text \<open>The gates: what a wrapped provider, publisher or Telegram client does.\<close>

definition gated_sources :: "'a list \<Rightarrow> release_service \<Rightarrow> 'a list" where
  "gated_sources active s = (if ff_listener_sources (as_set (flag_states (rs_store s))) then active else [])"

definition gated_publish :: "'a \<Rightarrow> (string \<Rightarrow> 'a) \<Rightarrow> string \<Rightarrow> release_service \<Rightarrow> 'a" where
  "gated_publish published dry_run key s =
     (if ff_content_publishing (as_set (flag_states (rs_store s))) then published
      else dry_run (''feature-disabled:'' @ key))"

section \<open>The history of a flag\<close>

type_synonym flag_request = "flag_name \<times> bool \<times> int option \<times> string \<times> string \<times> time"

fun flag_run :: "flag_request list \<Rightarrow> flag_store \<Rightarrow> flag_store" where
  "flag_run [] st = st"
| "flag_run ((n, enabled, expected, actor, reason, now) # rs) st =
     flag_run rs (snd (store_set_flag n enabled expected actor reason now st))"

definition events_of :: "flag_name \<Rightarrow> flag_store \<Rightarrow> flag_event list" where
  "events_of n st = filter (\<lambda>e. fe_flag_name e = flag_text n) (flag_audit st)"

lemma flag_text_inject [simp]: "flag_text m = flag_text n \<longleftrightarrow> m = n"
  by (cases m; cases n) simp_all

text \<open>The events of a flag are numbered without gaps and lead from its initial value to the current one.\<close>

definition flag_chain :: "bool \<Rightarrow> flag_name \<Rightarrow> flag_store \<Rightarrow> bool" where
  "flag_chain start n st \<longleftrightarrow>
     (let es = events_of n st in
      \<exists>s. dict_get (flag_states st) n = Some s \<and> fs_version s = 1 + int (length es) \<and>
        map fe_previous_version es = map (\<lambda>i. 1 + int i) [0..<length es] \<and>
        map fe_new_version es = map (\<lambda>i. 2 + int i) [0..<length es] \<and>
        start # map fe_new_enabled es = map fe_previous_enabled es @ [fs_enabled s])"

lemma flag_chain_init: "flag_chain (flag_enabled flags n) n (init_flag_store now flags)"
  by (cases n) (simp_all add: flag_chain_def init_flag_store_def events_of_def FEATURE_FLAG_NAMES_def)

lemma flag_chain_set:
  assumes "flag_chain start n st"
  shows "flag_chain start n (snd (store_set_flag m enabled expected actor reason now st))"
proof (cases "m = n")
  case True
  then show ?thesis
    using assms by (auto simp: flag_chain_def events_of_def store_set_flag_def Let_def dict_get_put)
next
  case False
  then show ?thesis
    using assms
    by (auto simp: flag_chain_def events_of_def store_set_flag_def Let_def dict_get_put split: option.split)
qed

lemma flag_chain_run: "flag_chain start n st \<Longrightarrow> flag_chain start n (flag_run rs st)"
  by (induction rs st rule: flag_run.induct) (simp_all add: flag_chain_set)

text \<open>
  After any sequence of flag changes the audit trail explains every flag: its events are numbered without
  gaps, each starts from the value the one before left, and the last one gives the present value. A change
  that names a version other than the present one is refused and changes nothing; every other one succeeds.
\<close>

theorem flag_history:
  "flag_chain (flag_enabled flags n) n (flag_run rs (init_flag_store t0 flags)) \<and>
   (let st = flag_run rs (init_flag_store t0 flags); v = 1 + int (length (events_of n st)) in
    if expected = None \<or> expected = Some v
    then (\<exists>e. fst (store_set_flag n b expected actor reason now st) = Inr e \<and> fe_new_version e = v + 1)
    else store_set_flag n b expected actor reason now st =
      (Inl (ValueError ''feature_flag_version_conflict''), st))"
proof -
  let ?st = "flag_run rs (init_flag_store t0 flags)"
  have chain: "flag_chain (flag_enabled flags n) n ?st" by (intro flag_chain_run flag_chain_init)
  then obtain s where "dict_get (flag_states ?st) n = Some s" "fs_version s = 1 + int (length (events_of n ?st))"
    by (auto simp: flag_chain_def Let_def)
  with chain show ?thesis by (auto simp: store_set_flag_def Let_def)
qed

section \<open>The audit trail in Redis\<close>

lemma flag_text_no_bar [simp]: "CHR ''|'' \<notin> set (flag_text n)"
  by (cases n) simp_all

lemma digit_not_bar: "is_digit c \<Longrightarrow> c \<noteq> CHR ''|''"
  by (auto simp: is_digit_def code_of_def)

lemma str_int_no_bar [simp]: "CHR ''|'' \<notin> set (str_int i)"
proof -
  have "CHR ''|'' \<notin> set (str_nat n)" for n using str_nat_digits [of n] digit_not_bar by blast
  then show ?thesis by (simp add: str_int_def)
qed

lemma zero_one_chars: "char_of (48 :: nat) = CHR ''0''" "char_of (49 :: nat) = CHR ''1''"
  by (simp_all add: char_of_def drop_bit_eq_div bit_0)

lemma py_int_bits [simp]: "py_int ''0'' = Some 0" "py_int ''1'' = Some 1"
  using py_int_str_int [of 0] py_int_str_int [of 1]
  by (simp_all add: str_int_def str_nat.simps digit_char_def zero_one_chars)

lemma count_join:
  "ws \<noteq> [] \<Longrightarrow> count_list (join [c] ws) c = sum_list (map (\<lambda>w. count_list w c) ws) + (length ws - 1)"
proof (induction ws)
  case (Cons w ws)
  then show ?case by (cases ws) simp_all
qed simp

lemma serialized_fields:
  assumes "fe_flag_name e = flag_text n" and "CHR ''|'' \<notin> set (to_iso (fe_occurred_at e))"
  shows "length (split_all CHR ''|'' (serialize_audit_event to_iso e)) =
    8 + count_list (fe_actor e) CHR ''|'' + count_list (fe_reason e) CHR ''|''"
  using assms unfolding length_split_all serialize_audit_event_def
  by (subst count_join) (simp_all add: bit_text_def count_list_0_iff)

lemma deserialize_serialize:
  assumes "fe_flag_name e = flag_text n" and "\<And>t. CHR ''|'' \<notin> set (to_iso t)" and "\<And>t. of_iso (to_iso t) = Some t"
  shows "deserialize_audit_event of_iso (serialize_audit_event to_iso e) =
    (if CHR ''|'' \<in> set (fe_actor e) \<union> set (fe_reason e) then Inl (ValueError ''unpack'') else Inr e)"
proof (cases "CHR ''|'' \<in> set (fe_actor e) \<union> set (fe_reason e)")
  case True
  then have "count_list (fe_actor e) CHR ''|'' \<noteq> 0 \<or> count_list (fe_reason e) CHR ''|'' \<noteq> 0"
    by (auto simp: count_list_0_iff)
  then have "8 < length (split_all CHR ''|'' (serialize_audit_event to_iso e))"
    using serialized_fields [OF assms(1), of to_iso] assms(2) by auto
  with True show ?thesis
    by (auto simp: deserialize_audit_event_def split: list.split)
next
  case False
  then have "split_all CHR ''|'' (serialize_audit_event to_iso e) =
      [flag_text n, bit_text (fe_previous_enabled e), bit_text (fe_new_enabled e),
       str_int (fe_previous_version e), str_int (fe_new_version e), fe_actor e, fe_reason e,
       to_iso (fe_occurred_at e)]"
    using assms(1,2) by (simp add: serialize_audit_event_def split_all_append split_all_none bit_text_def)
  with False show ?thesis
    using assms(1,3) by (simp add: deserialize_audit_event_def event_of_parts_def bit_text_def)
qed

text \<open>
  The Redis audit trail gives back, in order, exactly the events whose actor and reason have no
  vertical bar; the others are dropped without an error. (Asked of the ISO format: it can be read
  back and has no bar.)
\<close>

theorem redis_audit_log_events:
  assumes "rf_rows s = map (serialize_audit_event to_iso) es" and "up LRange"
    and "\<forall>e \<in> set es. \<exists>n. fe_flag_name e = flag_text n"
    and "\<And>t. CHR ''|'' \<notin> set (to_iso t)" and "\<And>t. of_iso (to_iso t) = Some t"
  shows "redis_audit_log of_iso up s =
    filter (\<lambda>e. CHR ''|'' \<notin> set (fe_actor e) \<and> CHR ''|'' \<notin> set (fe_reason e)) es"
proof -
  have "readable_events of_iso (map (serialize_audit_event to_iso) es) =
      filter (\<lambda>e. CHR ''|'' \<notin> set (fe_actor e) \<and> CHR ''|'' \<notin> set (fe_reason e)) es"
    using assms(3)
  proof (induction es)
    case (Cons e es)
    then obtain n where "fe_flag_name e = flag_text n" by auto
    from deserialize_serialize [OF this assms(4,5)] Cons show ?case by auto
  qed simp
  with assms(1,2) show ?thesis by (simp add: redis_audit_log_def)
qed

definition barred_event :: flag_event where
  "barred_event =
     \<lparr>fe_flag_name = flag_text NlpFlag, fe_previous_enabled = False, fe_new_enabled = True,
      fe_previous_version = 0, fe_new_version = 0, fe_actor = ''root'', fe_reason = ''on | off'', fe_occurred_at = 5\<rparr>"

lemma redis_audit_log_events_witness:
  "redis_audit_log py_int (\<lambda>_. True)
     \<lparr>rf_hash = [], rf_rows = map (serialize_audit_event str_int)
        [barred_event, barred_event\<lparr>fe_reason := ''enable''\<rparr>],
      rf_local = None, rf_local_audit = [], rf_initial = default_flags\<rparr> = [barred_event\<lparr>fe_reason := ''enable''\<rparr>]"
  (is "redis_audit_log _ _ ?s = _")
proof -
  let ?es = "[barred_event, barred_event\<lparr>fe_reason := ''enable''\<rparr>]"
  have rows: "rf_rows ?s = map (serialize_audit_event str_int) ?es" by simp
  have named: "\<forall>e \<in> set ?es. \<exists>n. fe_flag_name e = flag_text n" by (auto simp: barred_event_def intro: exI [of _ NlpFlag])
  have "redis_audit_log py_int (\<lambda>_. True) ?s =
      filter (\<lambda>e. CHR ''|'' \<notin> set (fe_actor e) \<and> CHR ''|'' \<notin> set (fe_reason e)) ?es"
    by (rule redis_audit_log_events [OF rows _ named str_int_no_bar py_int_str_int]) simp
  then show ?thesis by (simp add: barred_event_def)
qed

section \<open>An outage of Redis\<close>

text \<open>
  A change of one flag while the first read of the hash fails but the write goes through writes the
  fallback's values over all the other flags: their stored values are lost.
\<close>

theorem redis_set_flag_after_failed_read:
  assumes "\<not> up HGetAll" and "up HSet"
  shows "flags_of_payload (rf_hash (snd (redis_set_flag to_iso up n b actor reason now s))) =
    with_update n b (local_flags s)"
proof -
  have word: "as_bool_text (Some (bool_word x)) = x" for x
    by (simp add: as_bool_text_def bool_word_def lower_def lower_char_def is_upper_def code_of_def)
  have written: "flags_of_payload (write_flags f d) = f" for f d
    by (simp add: flags_of_payload_def write_flags_def FEATURE_FLAG_NAMES_def dict_get_put word)
  show ?thesis
    using assms by (simp add: redis_set_flag_def redis_get_flags_def Let_def written)
qed

lemma redis_set_flag_after_failed_read_witness:
  "flags_of_payload (rf_hash (snd (redis_set_flag str_int (\<lambda>c. c \<noteq> HGetAll) NlpFlag True ''root'' ''enable'' 0
     \<lparr>rf_hash = write_flags (default_flags\<lparr>ff_bot_access := True\<rparr>) [], rf_rows = [], rf_local = None,
      rf_local_audit = [], rf_initial = default_flags\<rparr>))) =
   default_flags\<lparr>ff_nlp := True\<rparr>"
  (is "flags_of_payload (rf_hash (snd (redis_set_flag _ _ _ _ _ _ _ ?s))) = _")
proof -
  have "flags_of_payload (rf_hash (snd (redis_set_flag str_int (\<lambda>c. c \<noteq> HGetAll) NlpFlag True ''root'' ''enable'' 0 ?s))) =
      with_update NlpFlag True (local_flags ?s)"
    by (rule redis_set_flag_after_failed_read) simp_all
  then show ?thesis by (simp add: local_flags_def)
qed

end
