(* ===== verification/EF_Regex.thy ===== *)
theory EF_Regex
  imports EF_Text
begin

text \<open>
  The safety check for operator-supplied regular expressions
  (\<open>services/source_parsing/contracts.py\<close>, \<open>_validate_regexes\<close>, \<open>_regex_safety_error\<close> and
  \<open>_regex_repeat_at\<close>), its termination, and what it decides about the expressions of a small grammar.
  Whether Python compiles a pattern is an argument (\<open>compiles\<close>).
\<close>

section \<open>The scanner\<close>

definition MAX_REGEX_LENGTH :: nat where "MAX_REGEX_LENGTH = 1000"

definition MAX_REGEX_COUNT :: nat where "MAX_REGEX_COUNT = 100"

definition MAX_REGEX_REPEAT :: nat where "MAX_REGEX_REPEAT = 10000"

definition starts_at :: "string \<Rightarrow> nat \<Rightarrow> string \<Rightarrow> bool" where
  "starts_at pattern i prefix = starts_with (drop i pattern) prefix"

text \<open>\<open>pattern.find("}", start)\<close>.\<close>

definition find_char :: "char \<Rightarrow> string \<Rightarrow> nat \<Rightarrow> nat option" where
  "find_char c s start =
     (let n = length (takeWhile (\<lambda>x. x \<noteq> c) (drop start s))
      in if start + n < length s then Some (start + n) else None)"

text \<open>\<open>re.fullmatch(r"\d+(?:,\d*)?", body)\<close> and the bounds read from it: lower, and the upper one if there is a
  comma (\<open>Some None\<close> when nothing follows it).\<close>

definition repeat_bounds :: "string \<Rightarrow> (nat \<times> nat option option) option" where
  "repeat_bounds body =
     (let lo = takeWhile is_digit body; rest = dropWhile is_digit body in
      if lo = [] then None
      else case rest of
        [] \<Rightarrow> map_option (\<lambda>l. (l, None)) (int_body 0 False lo)
      | c # up \<Rightarrow>
          if c \<noteq> CHR '','' \<or> \<not> list_all is_digit up then None
          else map_option (\<lambda>l. (l, Some (if up = [] then None else int_body 0 False up))) (int_body 0 False lo))"

record repeat_info =
  rp_repeated :: bool
  rp_unbounded :: bool
  rp_end :: nat
  rp_excessive :: bool

definition no_repeat :: "nat \<Rightarrow> repeat_info" where
  "no_repeat i = \<lparr>rp_repeated = False, rp_unbounded = False, rp_end = i, rp_excessive = False\<rparr>"

definition regex_repeat_at :: "string \<Rightarrow> nat \<Rightarrow> repeat_info" where
  "regex_repeat_at pattern i =
     (if length pattern \<le> i then no_repeat i
      else
        let c = pattern ! i in
        if c = CHR ''*'' \<or> c = CHR ''+''
        then \<lparr>rp_repeated = True, rp_unbounded = True, rp_end = i + 1, rp_excessive = False\<rparr>
        else if c = CHR ''?''
        then if 0 < i \<and> pattern ! (i - 1) = CHR ''('' then no_repeat (i + 1)
             else \<lparr>rp_repeated = True, rp_unbounded = False, rp_end = i + 1, rp_excessive = False\<rparr>
        else if c \<noteq> CHR ''{'' then no_repeat i
        else
          case find_char CHR ''}'' pattern (i + 1) of
            None \<Rightarrow> no_repeat i
          | Some closing \<Rightarrow>
              (case repeat_bounds (take (closing - (i + 1)) (drop (i + 1) pattern)) of
                 None \<Rightarrow> no_repeat i
               | Some (lo, up) \<Rightarrow>
                   let upper_bound = (case up of None \<Rightarrow> Some lo | Some u \<Rightarrow> u) in
                   if MAX_REGEX_REPEAT < lo \<or> (case upper_bound of None \<Rightarrow> False | Some u \<Rightarrow> MAX_REGEX_REPEAT < u)
                   then \<lparr>rp_repeated = True, rp_unbounded = False, rp_end = closing + 1, rp_excessive = True\<rparr>
                   else \<lparr>rp_repeated = True, rp_unbounded = (up = Some None), rp_end = closing + 1,
                     rp_excessive = False\<rparr>))"

lemma find_char_ge: "find_char c s start = Some i \<Longrightarrow> start \<le> i \<and> i < length s \<and> s ! i = c"
proof -
  assume "find_char c s start = Some i"
  then have i: "i = start + length (takeWhile (\<lambda>x. x \<noteq> c) (drop start s))" "i < length s"
    by (auto simp: find_char_def Let_def split: if_splits)
  then have "length (takeWhile (\<lambda>x. x \<noteq> c) (drop start s)) < length (drop start s)" by simp
  from nth_length_takeWhile [OF this] i show ?thesis by simp
qed

lemma repeat_end_progress: "rp_repeated (regex_repeat_at p i) \<Longrightarrow> i < rp_end (regex_repeat_at p i)"
proof (cases "i < length p \<and> p ! i = CHR ''{''")
  case True
  assume repeated: "rp_repeated (regex_repeat_at p i)"
  show ?thesis
  proof (cases "find_char CHR ''}'' p (i + 1)")
    case None
    with True repeated show ?thesis by (simp add: regex_repeat_at_def no_repeat_def)
  next
    case (Some closing)
    then have "i < closing" using find_char_ge [OF Some] by simp
    with True Some repeated show ?thesis
      by (cases "repeat_bounds (take (closing - (i + 1)) (drop (i + 1) p))")
        (simp_all add: regex_repeat_at_def no_repeat_def Let_def case_prod_unfold del: One_nat_def)
  qed
next
  case False
  assume "rp_repeated (regex_repeat_at p i)"
  with False show ?thesis
    by (cases "i < length p"; cases "p ! i = CHR ''*''"; cases "p ! i = CHR ''+''"; cases "p ! i = CHR ''?''")
      (simp_all add: regex_repeat_at_def no_repeat_def Let_def split: if_splits)
qed

datatype regex_error = Backreference | Lookaround | RepeatBounds | NestedRepeat

text \<open>A group records whether it has a repeat and whether it has an alternation; the innermost is first.\<close>

type_synonym group_flags = "bool \<times> bool"

function regex_scan :: "string \<Rightarrow> nat \<Rightarrow> bool \<Rightarrow> group_flags \<Rightarrow> group_flags list \<Rightarrow> regex_error option" where
  "regex_scan pattern i in_class g gs =
     (if length pattern \<le> i then None
      else
        let c = pattern ! i in
        if c = CHR 0x5C
        then if i + 1 < length pattern \<and> pattern ! (i + 1) \<in> set ''123456789'' then Some Backreference
             else regex_scan pattern (i + 2) in_class g gs
        else if c = CHR ''['' then regex_scan pattern (i + 1) True g gs
        else if c = CHR '']'' \<and> in_class then regex_scan pattern (i + 1) False g gs
        else if in_class then regex_scan pattern (i + 1) True g gs
        else if c = CHR ''(''
        then if (\<exists>p \<in> set [''(?='', ''(?!'', ''(?<='', ''(?<!'']. starts_at pattern i p) \<and> \<not> starts_at pattern i ''(?=^''
             then Some Lookaround
             else if starts_at pattern i ''(?P='' then Some Backreference
             else regex_scan pattern (i + 1) False (False, False) (g # gs)
        else if c = CHR ''|'' then regex_scan pattern (i + 1) False (fst g, True) gs
        else if c = CHR '')'' \<and> gs \<noteq> []
        then let r = regex_repeat_at pattern (i + 1); outer = hd gs in
             if rp_excessive r then Some RepeatBounds
             else if rp_repeated r \<and> rp_unbounded r \<and> (fst g \<or> snd g) then Some NestedRepeat
             else regex_scan pattern (i + 1) False (fst outer \<or> fst g \<or> rp_repeated r, snd outer) (tl gs)
        else let r = regex_repeat_at pattern i in
             if rp_excessive r then Some RepeatBounds
             else if rp_repeated r then regex_scan pattern (rp_end r) False (True, snd g) gs
             else regex_scan pattern (i + 1) False g gs)"
  by pat_completeness auto

text \<open>Every turn of the loop moves forward.\<close>

termination regex_scan
  by (relation "measure (\<lambda>(pattern, i, _). length pattern - i)") (auto dest: repeat_end_progress)

declare regex_scan.simps [simp del]

definition regex_safety_error :: "string \<Rightarrow> regex_error option" where
  "regex_safety_error pattern = regex_scan pattern 0 False (False, False) []"

definition validate_regexes :: "(string \<Rightarrow> bool) \<Rightarrow> string \<Rightarrow> string list \<Rightarrow> string list res" where
  "validate_regexes compiles field patterns =
     (if MAX_REGEX_COUNT < length patterns then Inl (ValueError (field @ '' may contain at most 100 patterns''))
      else fold (\<lambda>p r. res_bind r (\<lambda>ok.
        if p = [] then Inl (ValueError (field @ '' cannot contain an empty pattern''))
        else if MAX_REGEX_LENGTH < length p
        then Inl (ValueError (field @ '' patterns must be at most 1000 characters''))
        else if \<not> compiles p then Inl (ValueError (''invalid regex in '' @ field))
        else if regex_safety_error p \<noteq> None then Inl (ValueError (''unsafe regex in '' @ field))
        else Inr ok)) patterns (Inr patterns))"

section \<open>A grammar of expressions\<close>

datatype quant = One | Opt | Star | Plus | Times nat | AtLeast nat | Between nat nat

datatype rx = Chr char quant | Esc char quant | Cls string quant | Bar | Grp "rx list" quant

fun quant_text :: "quant \<Rightarrow> string" where
  "quant_text One = []"
| "quant_text Opt = ''?''"
| "quant_text Star = ''*''"
| "quant_text Plus = ''+''"
| "quant_text (Times n) = CHR ''{'' # str_nat n @ ''}''"
| "quant_text (AtLeast n) = CHR ''{'' # str_nat n @ '',}''"
| "quant_text (Between m n) = CHR ''{'' # str_nat m @ CHR '','' # str_nat n @ ''}''"

fun rx_text :: "rx \<Rightarrow> string" where
  "rx_text (Chr c q) = c # quant_text q"
| "rx_text (Esc c q) = CHR 0x5C # c # quant_text q"
| "rx_text (Cls cs q) = CHR ''['' # cs @ CHR '']'' # quant_text q"
| "rx_text Bar = ''|''"
| "rx_text (Grp xs q) = CHR ''('' # concat (map rx_text xs) @ CHR '')'' # quant_text q"

abbreviation rxs_text :: "rx list \<Rightarrow> string" where
  "rxs_text xs \<equiv> concat (map rx_text xs)"

definition plain_char :: "char \<Rightarrow> bool" where
  "plain_char c \<longleftrightarrow> c \<noteq> CHR 0x5C \<and> c \<notin> set ''[]()|?*+{''"

text \<open>
  The expressions for which the check is exact: an escaped opening parenthesis is not followed by \<open>?\<close>,
  and a closing bracket inside a character class is escaped (hence not in this grammar).
\<close>

fun rx_ok :: "rx \<Rightarrow> bool" where
  "rx_ok (Chr c q) = plain_char c"
| "rx_ok (Esc c q) = (c \<notin> set ''123456789'' \<and> (c = CHR ''('' \<longrightarrow> q \<noteq> Opt))"
| "rx_ok (Cls cs q) = (CHR '']'' \<notin> set cs \<and> CHR 0x5C \<notin> set cs)"
| "rx_ok Bar = True"
| "rx_ok (Grp xs q) = list_all rx_ok xs"

fun unbounded :: "quant \<Rightarrow> bool" where
  "unbounded Star = True"
| "unbounded Plus = True"
| "unbounded (AtLeast _) = True"
| "unbounded _ = False"

fun excessive :: "quant \<Rightarrow> bool" where
  "excessive (Times n) = (MAX_REGEX_REPEAT < n)"
| "excessive (AtLeast n) = (MAX_REGEX_REPEAT < n)"
| "excessive (Between m n) = (MAX_REGEX_REPEAT < m \<or> MAX_REGEX_REPEAT < n)"
| "excessive _ = False"

fun repeats :: "rx \<Rightarrow> bool" where
  "repeats (Chr c q) = (q \<noteq> One)"
| "repeats (Esc c q) = (q \<noteq> One)"
| "repeats (Cls cs q) = (q \<noteq> One)"
| "repeats Bar = False"
| "repeats (Grp xs q) = (q \<noteq> One \<or> list_ex repeats xs)"

text \<open>The condition the check is meant to refuse.\<close>

fun risky :: "rx \<Rightarrow> bool" where
  "risky (Chr c q) = excessive q"
| "risky (Esc c q) = excessive q"
| "risky (Cls cs q) = excessive q"
| "risky Bar = False"
| "risky (Grp xs q) =
     (list_ex risky xs \<or> excessive q \<or> unbounded q \<and> (list_ex repeats xs \<or> Bar \<in> set xs))"

section \<open>The check decides the condition\<close>

definition quant_free :: "string \<Rightarrow> bool" where
  "quant_free s \<longleftrightarrow> s = [] \<or> hd s \<notin> set ''?*+{''"

lemma quant_free_rx: "rx_ok x \<Longrightarrow> quant_free (rx_text x @ rest)"
  by (cases x) (auto simp: quant_free_def plain_char_def)

lemma quant_free_rxs: "list_all rx_ok xs \<Longrightarrow> quant_free rest \<Longrightarrow> quant_free (rxs_text xs @ rest)"
proof (cases xs)
  case (Cons x ys)
  assume "list_all rx_ok xs"
  with Cons quant_free_rx [of x "rxs_text ys @ rest"] show ?thesis by simp
qed simp

lemma digits_str_nat [simp]: "list_all is_digit (str_nat n)" "takeWhile is_digit (str_nat n) = str_nat n"
  "dropWhile is_digit (str_nat n) = []" "str_nat n \<noteq> []"
  using str_nat_digits [of n] by (auto simp: list_all_iff takeWhile_eq_all_conv dropWhile_eq_Nil_conv)

lemma comma_not_digit [simp]: "\<not> is_digit CHR '',''" "\<not> is_digit CHR ''}''"
  by (simp_all add: is_digit_def code_of_def)

lemma repeat_bounds_texts:
  "repeat_bounds (str_nat n) = Some (n, None)"
  "repeat_bounds (str_nat n @ '','') = Some (n, Some None)"
  "repeat_bounds (str_nat m @ CHR '','' # str_nat n) = Some (m, Some (Some n))"
proof -
  have split: "takeWhile is_digit (str_nat n @ CHR '','' # w) = str_nat n"
    "dropWhile is_digit (str_nat n @ CHR '','' # w) = CHR '','' # w" for n w
    using str_nat_digits [of n] by (simp_all add: takeWhile_append2 dropWhile_append2)
  show "repeat_bounds (str_nat n) = Some (n, None)" by (simp add: repeat_bounds_def Let_def)
  show "repeat_bounds (str_nat n @ '','') = Some (n, Some None)"
    using split [of n "[]"] by (simp add: repeat_bounds_def Let_def)
  show "repeat_bounds (str_nat m @ CHR '','' # str_nat n) = Some (m, Some (Some n))"
    by (simp add: repeat_bounds_def Let_def split)
qed

lemma no_brace_str_nat [simp]: "CHR ''}'' \<notin> set (str_nat n)"
  using str_nat_digits [of n] comma_not_digit(2) by blast

lemma find_brace:
  assumes "drop j p = w @ CHR ''}'' # rest" and "CHR ''}'' \<notin> set w"
  shows "find_char CHR ''}'' p j = Some (j + length w)"
proof -
  have "takeWhile (\<lambda>x. x \<noteq> CHR ''}'') (drop j p) = w"
  proof -
    have "takeWhile (\<lambda>x. x \<noteq> CHR ''}'') (w @ CHR ''}'' # rest) = w @ takeWhile (\<lambda>x. x \<noteq> CHR ''}'') (CHR ''}'' # rest)"
      by (rule takeWhile_append2) (use assms(2) in auto)
    then show ?thesis by (simp add: assms(1))
  qed
  moreover have "j + length w < length p"
  proof -
    have "length (drop j p) = length w + Suc (length rest)" using assms(1) by simp
    then show ?thesis by simp
  qed
  ultimately show ?thesis by (simp add: find_char_def Let_def)
qed

lemma drop_nth: "drop i p = c # s \<Longrightarrow> i < length p \<and> p ! i = c \<and> drop (Suc i) p = s"
proof -
  assume d: "drop i p = c # s"
  then have "i < length p" by (cases "i < length p") simp_all
  with d show ?thesis using Cons_nth_drop_Suc [of i p] by simp
qed

lemma brace_repeat:
  assumes "drop i p = CHR ''{'' # w @ CHR ''}'' # rest" and "CHR ''}'' \<notin> set w" and "repeat_bounds w = Some (lo, up)"
  shows "regex_repeat_at p i =
    (if MAX_REGEX_REPEAT < lo \<or> (case up of Some (Some u) \<Rightarrow> MAX_REGEX_REPEAT < u | _ \<Rightarrow> False)
     then \<lparr>rp_repeated = True, rp_unbounded = False, rp_end = i + length w + 2, rp_excessive = True\<rparr>
     else \<lparr>rp_repeated = True, rp_unbounded = (up = Some None), rp_end = i + length w + 2, rp_excessive = False\<rparr>)"
proof -
  note at_i = drop_nth [OF assms(1)]
  have closing: "find_char CHR ''}'' p (Suc i) = Some (Suc i + length w)"
    using at_i find_brace [of "Suc i" p w rest] assms(2) by simp
  have body: "take (length w) (drop (Suc i) p) = w" using at_i by simp
  show ?thesis
    using at_i closing body assms(3)
    by (auto simp: regex_repeat_at_def Let_def split: option.splits)
qed

lemma quant_repeat:
  assumes "drop i p = quant_text q @ rest" and "quant_free rest" and "q = Opt \<longrightarrow> 0 < i \<and> p ! (i - 1) \<noteq> CHR ''(''"
  shows "rp_excessive (regex_repeat_at p i) = excessive q"
    and "\<not> excessive q \<Longrightarrow> rp_repeated (regex_repeat_at p i) = (q \<noteq> One)"
    and "\<not> excessive q \<Longrightarrow> rp_unbounded (regex_repeat_at p i) = unbounded q"
    and "q \<noteq> One \<Longrightarrow> rp_end (regex_repeat_at p i) = i + length (quant_text q)"
proof -
  have one: "regex_repeat_at p i = no_repeat i" if "q = One"
  proof (cases rest)
    case Nil
    with assms(1) that have "length p \<le> i" by simp
    then show ?thesis by (simp add: regex_repeat_at_def)
  next
    case (Cons c s)
    then have "drop i p = c # s" using assms(1) that by simp
    from drop_nth [OF this] assms(2) Cons show ?thesis
      by (simp add: regex_repeat_at_def Let_def quant_free_def)
  qed
  have simple: "regex_repeat_at p i = \<lparr>rp_repeated = True, rp_unbounded = unbounded q, rp_end = i + 1, rp_excessive = False\<rparr>"
    if "q = Opt \<or> q = Star \<or> q = Plus"
  proof -
    from that obtain c where c: "quant_text q = [c]" "c = CHR ''?'' \<and> q = Opt \<or> c = CHR ''*'' \<and> q = Star \<or> c = CHR ''+'' \<and> q = Plus" by auto
    then have "drop i p = c # rest" using assms(1) by simp
    from drop_nth [OF this] c(2) assms(3) show ?thesis
      by (auto simp: regex_repeat_at_def Let_def)
  qed
  have times: "drop i p = CHR ''{'' # str_nat n @ CHR ''}'' # rest" if "q = Times n" for n
    using assms(1) that by simp
  have least: "drop i p = CHR ''{'' # (str_nat n @ '','') @ CHR ''}'' # rest" if "q = AtLeast n" for n
    using assms(1) that by simp
  have between: "drop i p = CHR ''{'' # (str_nat m @ CHR '','' # str_nat n) @ CHR ''}'' # rest" if "q = Between m n" for m n
    using assms(1) that by simp
  show "rp_excessive (regex_repeat_at p i) = excessive q"
    and "\<not> excessive q \<Longrightarrow> rp_repeated (regex_repeat_at p i) = (q \<noteq> One)"
    and "\<not> excessive q \<Longrightarrow> rp_unbounded (regex_repeat_at p i) = unbounded q"
    and "q \<noteq> One \<Longrightarrow> rp_end (regex_repeat_at p i) = i + length (quant_text q)"
    using one simple brace_repeat [OF times _ repeat_bounds_texts(1)]
      brace_repeat [OF least _ repeat_bounds_texts(2)] brace_repeat [OF between _ repeat_bounds_texts(3)]
    by (cases q; simp add: no_repeat_def)+
qed

text \<open>A quantifier met by the loop, after an atom or after a closed group.\<close>

lemma scan_quant:
  assumes "drop i p = quant_text q @ rest" and "quant_free rest" and "q = Opt \<longrightarrow> 0 < i \<and> p ! (i - 1) \<noteq> CHR ''(''"
  shows "regex_scan p i False g gs =
    (if excessive q then Some RepeatBounds
     else regex_scan p (i + length (quant_text q)) False (fst g \<or> q \<noteq> One, snd g) gs)"
proof (cases "q = One")
  case False
  then obtain c s where c: "quant_text q = c # s" "c \<in> set ''?*+{''" by (cases q) auto
  then have at_i: "i < length p" "p ! i = c" using drop_nth [of i p c "s @ rest"] assms(1) by simp_all
  have other: "c \<noteq> CHR 0x5C" "c \<noteq> CHR ''[''" "c \<noteq> CHR ''(''" "c \<noteq> CHR ''|''" "c \<noteq> CHR '')''" using c(2) by auto
  have step: "regex_scan p i False g gs =
      (let r = regex_repeat_at p i in
       if rp_excessive r then Some RepeatBounds
       else if rp_repeated r then regex_scan p (rp_end r) False (True, snd g) gs
       else regex_scan p (i + 1) False g gs)"
    using at_i other by (subst regex_scan.simps) (simp add: Let_def)
  show ?thesis
    using quant_repeat [OF assms] False by (simp add: step Let_def)
qed simp

definition scan_to :: "string \<Rightarrow> nat \<Rightarrow> nat \<Rightarrow> group_flags \<Rightarrow> group_flags \<Rightarrow> bool \<Rightarrow> bool" where
  "scan_to p i j g h bad \<longleftrightarrow>
     (\<forall>gs. if bad then regex_scan p i False g gs \<noteq> None else regex_scan p i False g gs = regex_scan p j False h gs)"

lemma scan_toD:
  assumes "scan_to p i j g h b"
  shows "b \<Longrightarrow> \<exists>e. regex_scan p i False g gs = Some e"
    and "\<not> b \<Longrightarrow> regex_scan p i False g gs = regex_scan p j False h gs"
  using assms by (auto simp: scan_to_def)

lemma scan_to_trans:
  "scan_to p i j g h b \<Longrightarrow> (\<not> b \<Longrightarrow> scan_to p j k h l c) \<Longrightarrow> scan_to p i k g l (b \<or> c)"
  unfolding scan_to_def by (cases b) auto

lemma scan_to_quant:
  assumes "drop i p = quant_text q @ rest" and "quant_free rest" and "q = Opt \<longrightarrow> 0 < i \<and> p ! (i - 1) \<noteq> CHR ''(''"
  shows "scan_to p i (i + length (quant_text q)) g (fst g \<or> q \<noteq> One, snd g) (excessive q)"
  using scan_quant [OF assms] by (auto simp: scan_to_def)

lemma scan_to_plain:
  "drop i p = c # s \<Longrightarrow> plain_char c \<Longrightarrow> scan_to p i (Suc i) g g False"
  using drop_nth [of i p c s]
  by (auto simp: scan_to_def regex_scan.simps [of p i] Let_def plain_char_def regex_repeat_at_def no_repeat_def)

lemma scan_to_escape:
  assumes "drop i p = CHR 0x5C # c # s" and "c \<notin> set ''123456789''"
  shows "scan_to p i (i + 2) g g False"
proof -
  have "i < length p" "p ! i = CHR 0x5C" "p ! Suc i = c" 
    using drop_nth [OF assms(1)] drop_nth [of "Suc i" p c s] by auto
  then show ?thesis using assms(2) by (auto simp: scan_to_def regex_scan.simps [of p i])
qed

lemma scan_class_body:
  assumes "drop i p = cs @ CHR '']'' # s" and "CHR '']'' \<notin> set cs" and "CHR 0x5C \<notin> set cs"
  shows "regex_scan p i True g gs = regex_scan p (i + length cs + 1) False g gs"
  using assms
proof (induction cs arbitrary: i)
  case Nil
  from drop_nth [of i p "CHR '']''" s] Nil show ?case by (simp add: regex_scan.simps [of p i])
next
  case (Cons c cs)
  have c: "i < length p" "p ! i = c" "drop (Suc i) p = cs @ CHR '']'' # s"
    using drop_nth [of i p c "cs @ CHR '']'' # s"] Cons.prems(1) by simp_all
  then have "regex_scan p i True g gs = regex_scan p (Suc i) True g gs"
    using Cons.prems(2,3) by (auto simp: regex_scan.simps [of p i])
  with Cons.IH [OF c(3)] Cons.prems show ?case by simp
qed

lemma scan_to_class:
  assumes "drop i p = CHR ''['' # cs @ CHR '']'' # s" and "CHR '']'' \<notin> set cs" and "CHR 0x5C \<notin> set cs"
  shows "scan_to p i (i + length cs + 2) g g False"
proof -
  have c: "i < length p" "p ! i = CHR ''[''" "drop (Suc i) p = cs @ CHR '']'' # s"
    using drop_nth [OF assms(1)] by simp_all
  then show ?thesis
    using scan_class_body [OF c(3) assms(2,3)] by (auto simp: scan_to_def regex_scan.simps [of p i])
qed

lemma scan_open:
  assumes "drop i p = CHR ''('' # s" and "quant_free s"
  shows "regex_scan p i False g gs = regex_scan p (i + 1) False (False, False) (g # gs)"
proof -
  note at_i = drop_nth [OF assms(1)]
  have "\<not> starts_with (drop i p) (CHR ''('' # CHR ''?'' # w)" for w
    using assms by (cases s) (auto simp: starts_with_def quant_free_def)
  then show ?thesis using at_i by (subst regex_scan.simps) (simp add: starts_at_def)
qed

lemma scan_close:
  assumes "drop i p = CHR '')'' # quant_text q @ rest" and "quant_free rest"
  shows "regex_scan p i False h (g # gs) =
    (if excessive q then Some RepeatBounds
     else if unbounded q \<and> (fst h \<or> snd h) then Some NestedRepeat
     else regex_scan p (i + 1) False (fst g \<or> fst h \<or> q \<noteq> One, snd g) gs)"
proof -
  note at_i = drop_nth [OF assms(1)]
  have next_at: "drop (i + 1) p = quant_text q @ rest" using at_i by simp
  have after: "q = Opt \<longrightarrow> 0 < i + 1 \<and> p ! (i + 1 - 1) \<noteq> CHR ''(''" using at_i by simp
  have step: "regex_scan p i False h (g # gs) =
      (let r = regex_repeat_at p (i + 1) in
       if rp_excessive r then Some RepeatBounds
       else if rp_repeated r \<and> rp_unbounded r \<and> (fst h \<or> snd h) then Some NestedRepeat
       else regex_scan p (i + 1) False (fst g \<or> fst h \<or> rp_repeated r, snd g) gs)"
    using at_i by (subst regex_scan.simps) (auto simp: Let_def)
  have "unbounded q \<Longrightarrow> q \<noteq> One" by (cases q) simp_all
  then show ?thesis
    using quant_repeat(1-3) [OF next_at assms(2) after] by (auto simp: step Let_def)
qed

lemma quant_free_close: "quant_free (CHR '')'' # s)"
  by (simp add: quant_free_def)

lemma scan_to_list:
  assumes "\<And>x i rest g. x \<in> set xs \<Longrightarrow> drop i p = rx_text x @ rest \<Longrightarrow> rx_ok x \<Longrightarrow> quant_free rest \<Longrightarrow>
      scan_to p i (i + length (rx_text x)) g (fst g \<or> repeats x, snd g \<or> x = Bar) (risky x)"
    and "drop i p = rxs_text xs @ rest" and "list_all rx_ok xs" and "quant_free rest"
  shows "scan_to p i (i + length (rxs_text xs)) g (fst g \<or> list_ex repeats xs, snd g \<or> Bar \<in> set xs) (list_ex risky xs)"
  using assms
proof (induction xs arbitrary: i g)
  case Nil
  then show ?case by (simp add: scan_to_def)
next
  case (Cons x xs)
  let ?j = "i + length (rx_text x)" and ?h = "(fst g \<or> repeats x, snd g \<or> x = Bar)"
  have here: "drop i p = rx_text x @ rxs_text xs @ rest" using Cons.prems(2) by simp
  have first: "scan_to p i ?j g ?h (risky x)"
    using Cons.prems(3,4) quant_free_rxs [of xs rest] by (intro Cons.prems(1) [OF _ here]) simp_all
  have "drop ?j p = rxs_text xs @ rest"
    using here by (metis add.commute append_eq_conv_conj drop_drop)
  then have "scan_to p ?j (?j + length (rxs_text xs)) ?h
      (fst ?h \<or> list_ex repeats xs, snd ?h \<or> Bar \<in> set xs) (list_ex risky xs)"
    using Cons.prems(1,3,4) by (intro Cons.IH) simp_all
  from scan_to_trans [OF first this] show ?case by (simp add: add.assoc disj_assoc eq_commute [of Bar])
qed

lemma scan_to_rx:
  "drop i p = rx_text x @ rest \<Longrightarrow> rx_ok x \<Longrightarrow> quant_free rest \<Longrightarrow>
   scan_to p i (i + length (rx_text x)) g (fst g \<or> repeats x, snd g \<or> x = Bar) (risky x)"
proof (induction x arbitrary: i rest g)
  case (Chr c q)
  note at_i = drop_nth [of i p c "quant_text q @ rest"]
  have atom: "scan_to p i (Suc i) g g False" using Chr.prems(1,2) scan_to_plain [of i p c] by simp
  have "scan_to p (Suc i) (Suc i + length (quant_text q)) g (fst g \<or> q \<noteq> One, snd g) (excessive q)"
    using at_i Chr.prems by (intro scan_to_quant [where rest = rest]) (auto simp: plain_char_def)
  from scan_to_trans [OF atom this] show ?case by simp
next
  case (Esc c q)
  have chars: "p ! Suc i = c \<and> drop (Suc (Suc i)) p = quant_text q @ rest"
    using Esc.prems(1) drop_nth [of i p "CHR 0x5C"] drop_nth [of "Suc i" p c] by simp
  have atom: "scan_to p i (i + 2) g g False"
    using Esc.prems(1,2) scan_to_escape [of i p c "quant_text q @ rest"] by simp
  have "scan_to p (i + 2) (i + 2 + length (quant_text q)) g (fst g \<or> q \<noteq> One, snd g) (excessive q)"
    using chars Esc.prems by (intro scan_to_quant [where rest = rest]) auto
  from scan_to_trans [OF atom this] show ?case by simp
next
  case (Cls cs q)
  have here: "drop i p = (CHR ''['' # cs) @ CHR '']'' # quant_text q @ rest" using Cls.prems(1) by simp
  then have "drop (i + length (CHR ''['' # cs)) p = CHR '']'' # quant_text q @ rest"
    by (metis add.commute append_eq_conv_conj drop_drop)
  note close = drop_nth [OF this]
  have atom: "scan_to p i (i + length cs + 2) g g False"
    using here Cls.prems(2) by (intro scan_to_class [where s = "quant_text q @ rest"]) simp_all
  have "scan_to p (i + length cs + 2) (i + length cs + 2 + length (quant_text q)) g
      (fst g \<or> q \<noteq> One, snd g) (excessive q)"
    using close Cls.prems by (intro scan_to_quant [where rest = rest]) auto
  from scan_to_trans [OF atom this] show ?case by (simp add: algebra_simps)
next
  case Bar
  then show ?case using drop_nth [of i p "CHR ''|''" rest] by (auto simp: scan_to_def regex_scan.simps [of p i])
next
  case (Grp xs q)
  let ?j = "i + 1 + length (rxs_text xs)"
  have here: "drop i p = CHR ''('' # rxs_text xs @ CHR '')'' # quant_text q @ rest" using Grp.prems(1) by simp
  have inside: "drop (i + 1) p = rxs_text xs @ CHR '')'' # quant_text q @ rest" using drop_nth [OF here] by simp
  then have close: "drop ?j p = CHR '')'' # quant_text q @ rest"
    by (metis add.commute append_eq_conv_conj drop_drop)
  have after: "drop (?j + 1) p = quant_text q @ rest" "p ! (?j + 1 - 1) \<noteq> CHR ''(''"
    using drop_nth [OF close] by simp_all
  have opened: "regex_scan p i False g gs = regex_scan p (i + 1) False (False, False) (g # gs)" for gs
    using Grp.prems(2) by (intro scan_open [OF here] quant_free_rxs quant_free_close) simp
  have body: "scan_to p (i + 1) ?j (False, False) (list_ex repeats xs, Bar \<in> set xs) (list_ex risky xs)"
  proof -
    have "scan_to p (i + 1) ?j (False, False)
        (fst (False, False) \<or> list_ex repeats xs, snd (False, False) \<or> Bar \<in> set xs) (list_ex risky xs)"
    proof (rule scan_to_list [OF _ inside _ quant_free_close])
      show "scan_to p i (i + length (rx_text y)) g (fst g \<or> repeats y, snd g \<or> y = Bar) (risky y)"
        if "y \<in> set xs" "drop i p = rx_text y @ rest" "rx_ok y" "quant_free rest" for y i rest g
        using that by (rule Grp.IH)
      show "list_all rx_ok xs" using Grp.prems(2) by simp
    qed
    then show ?thesis by simp
  qed
  have tail: "scan_to p (?j + 1) (?j + 1 + length (quant_text q)) h (fst h \<or> q \<noteq> One, snd h) (excessive q)" for h
    using after Grp.prems(3) by (intro scan_to_quant [where rest = rest]) auto
  show ?case
    unfolding scan_to_def
  proof
    fix gs
    show "if risky (Grp xs q) then regex_scan p i False g gs \<noteq> None
      else regex_scan p i False g gs =
        regex_scan p (i + length (rx_text (Grp xs q))) False (fst g \<or> repeats (Grp xs q), snd g \<or> Grp xs q = Bar) gs"
    proof (cases "list_ex risky xs")
      case True
      then show ?thesis using scan_toD(1) [OF body, of "g # gs"] by (auto simp: opened)
    next
      case False
      have run: "regex_scan p i False g gs =
        (if excessive q then Some RepeatBounds
         else if unbounded q \<and> (list_ex repeats xs \<or> Bar \<in> set xs) then Some NestedRepeat
         else regex_scan p (?j + 1) False (fst g \<or> list_ex repeats xs \<or> q \<noteq> One, snd g) gs)"
        by (simp only: opened scan_toD(2) [OF body False] scan_close [OF close Grp.prems(3)] fst_conv snd_conv)
      have len: "i + length (rx_text (Grp xs q)) = ?j + 1 + length (quant_text q)" by simp
      show ?thesis
        unfolding run len
        using False scan_toD(2) [OF tail [of "(fst g \<or> list_ex repeats xs \<or> q \<noteq> One, snd g)"], of gs]
        by (cases "q = One") (auto simp del: One_nat_def)
    qed
  qed
qed

text \<open>The check on every expression of the grammar.\<close>

lemma regex_safety_risky:
  assumes "list_all rx_ok xs"
  shows "regex_safety_error (concat (map rx_text xs)) = None \<longleftrightarrow> \<not> list_ex risky xs"
proof -
  let ?p = "rxs_text xs"
  have "scan_to ?p 0 (0 + length ?p) (False, False) (False \<or> list_ex repeats xs, False \<or> Bar \<in> set xs) (list_ex risky xs)"
    using scan_to_list [of xs ?p 0 "[]" "(False, False)"] scan_to_rx assms by (simp add: quant_free_def)
  then have "if list_ex risky xs then regex_scan ?p 0 False (False, False) [] \<noteq> None
    else regex_scan ?p 0 False (False, False) [] = regex_scan ?p (length ?p) False (list_ex repeats xs, Bar \<in> set xs) []"
    unfolding scan_to_def by simp
  moreover have "regex_scan ?p (length ?p) False h [] = None" for h by (subst regex_scan.simps) simp
  ultimately show ?thesis by (auto simp: regex_safety_error_def split: if_splits)
qed



section \<open>What the check lets through\<close>

text \<open>
  Outside the grammar the check is not sound: a closing bracket that Python reads as the first
  member of a class, an escaped parenthesis before \<open>?\<close>, and bounded repeats up to the maximum each hide a
  nested repeat that the check refuses in its plain form.
\<close>

theorem regex_safety_gaps:
  "regex_safety_error ''(a+|[](]b)+'' = None \<and> regex_safety_error ''(a+|[(]b)+'' = Some NestedRepeat \<and>
   regex_safety_error (''('' @ [CHR 0x5C] @ ''(?'' @ [CHR 0x5C] @ ''(?)*'') = None \<and>
   regex_safety_error ''(x?x?)*'' = Some NestedRepeat \<and>
   regex_safety_error ''(a+){0,10000}'' = None \<and> regex_safety_error ''(a+){0,}'' = Some NestedRepeat"
  by (intro conjI; code_simp)

end
