(* ===== verification/EF_RawEvent.thy ===== *)
theory EF_RawEvent
  imports EF_PreAi EF_Regex EF_Queue
begin

text \<open>
  Raw Telegram events on the queue: \<open>RawTelegramEvent.to_queue_payload\<close> and \<open>from_queue_payload\<close> of
  \<open>services/telegram_listener.py\<close>, and the values of \<open>services/source_config.py\<close> that parser bindings are made of.
  The regular expression engine, Unicode normalisation, SHA-256, the ISO form of times and Python's \<open>repr\<close>
  of containers are the fields of \<open>text_env\<close>.
\<close>

section \<open>The environment\<close>

datatype unicode_form = NFC | NFKC

datatype quality_pattern = PhonePattern | PricePattern | RoomPattern | RealEstatePattern

text \<open>\<open>re.split\<close> may return unmatched groups, which are \<open>None\<close>.\<close>

record text_env =
  te_subn :: "string \<Rightarrow> string \<Rightarrow> string \<times> nat"
  te_split :: "string \<Rightarrow> string \<Rightarrow> string option list"
  te_search :: "string \<Rightarrow> string \<Rightarrow> bool"
  te_compiles :: "string \<Rightarrow> bool"
  te_quality :: "quality_pattern \<Rightarrow> string \<Rightarrow> bool"
  te_normalize :: "unicode_form \<Rightarrow> string \<Rightarrow> string"
  te_digest_defaults :: "string list"
  te_sha256 :: "string \<Rightarrow> string"
  te_to_iso :: "time \<Rightarrow> string"
  te_of_iso :: "string \<Rightarrow> time option"
  te_repr :: "json \<Rightarrow> string"

section \<open>JSON values of a payload\<close>

text \<open>\<open>str(x)\<close> of a decoded JSON value.\<close>

definition py_str :: "text_env \<Rightarrow> json \<Rightarrow> string" where
  "py_str E j =
     (case j of
        JStr s \<Rightarrow> s
      | JNull \<Rightarrow> ''None''
      | JBool b \<Rightarrow> (if b then ''True'' else ''False'')
      | JNum r \<Rightarrow> (if r = of_int \<lfloor>r\<rfloor> then str_int \<lfloor>r\<rfloor> else te_repr E j)
      | _ \<Rightarrow> te_repr E j)"

definition json_opt :: "string option \<Rightarrow> json" where
  "json_opt s = (case s of None \<Rightarrow> JNull | Some x \<Rightarrow> JStr x)"

definition json_strs :: "string list \<Rightarrow> json" where
  "json_strs xs = JArr (map JStr xs)"

definition require :: "(string, json) dict \<Rightarrow> string \<Rightarrow> json res" where
  "require d k = (case dict_get d k of None \<Rightarrow> Inl (KeyError k) | Some v \<Rightarrow> Inr v)"

definition required_text :: "text_env \<Rightarrow> (string, json) dict \<Rightarrow> string \<Rightarrow> string res" where
  "required_text E d k = res_bind (require d k) (\<lambda>v. Inr (py_str E v))"

text \<open>A field that is copied as it is and must be text or null for the rest of the code to work.\<close>

definition optional_text :: "(string, json) dict \<Rightarrow> string \<Rightarrow> string option res" where
  "optional_text d k =
     (case get_or d k JNull of
        JNull \<Rightarrow> Inr None | JStr s \<Rightarrow> Inr (Some s) | _ \<Rightarrow> Inl (TypeError k))"

definition optional_payload_text :: "text_env \<Rightarrow> json \<Rightarrow> string option" where
  "optional_payload_text E v =
     (case v of JNull \<Rightarrow> None
      | _ \<Rightarrow> (let t = strip (py_str E v) in if t = [] then None else Some t))"

definition payload_object :: "json \<Rightarrow> (string, json) dict" where
  "payload_object v = (case v of JObj d \<Rightarrow> d | _ \<Rightarrow> [])"

section \<open>Parser modes and media\<close>

fun mode_text :: "parser_mode \<Rightarrow> string" where
  "mode_text Active = ''active''"
| "mode_text Shadow = ''shadow''"
| "mode_text Disabled = ''disabled''"

definition mode_of_text :: "string \<Rightarrow> parser_mode option" where
  "mode_of_text s =
     (if s = ''active'' then Some Active else if s = ''shadow'' then Some Shadow
      else if s = ''disabled'' then Some Disabled else None)"

definition normalize_parser_mode :: "string \<Rightarrow> parser_mode res" where
  "normalize_parser_mode s =
     (case mode_of_text (lower (strip s)) of
        None \<Rightarrow> Inl (ValueError ''parser_mode must be active, shadow, or disabled.'')
      | Some m \<Rightarrow> Inr m)"

fun update_type_text :: "update_type \<Rightarrow> string" where
  "update_type_text Created = ''created''"
| "update_type_text Edited = ''edited''"
| "update_type_text Deleted = ''deleted''"

definition telegram_update_type :: "string \<Rightarrow> update_type res" where
  "telegram_update_type s =
     (if s = ''created'' then Inr Created else if s = ''edited'' then Inr Edited
      else if s = ''deleted'' then Inr Deleted
      else Inl (ValueError (''Unknown Telegram update type: '' @ s)))"

definition is_supported_telegram_media :: "media_reference \<Rightarrow> bool" where
  "is_supported_telegram_media m \<longleftrightarrow>
     mr_media_type m = ''photo'' \<or>
     mr_media_type m \<in> {''image'', ''document''} \<and>
       starts_with (lower (case mr_mime_type m of None \<Rightarrow> [] | Some t \<Rightarrow> t)) ''image/''"

definition media_json :: "media_reference \<Rightarrow> json" where
  "media_json m = JObj
     [(''media_id'', JStr (mr_media_id m)), (''media_type'', JStr (mr_media_type m)),
      (''mime_type'', json_opt (mr_mime_type m)),
      (''size_bytes'', case mr_size_bytes m of None \<Rightarrow> JNull | Some n \<Rightarrow> JNum (of_int n)),
      (''access_hash'', json_opt (mr_access_hash m)),
      (''source_channel_id'', json_opt (mr_source_channel_id m)),
      (''source_message_id'', json_opt (mr_source_message_id m))]"

definition str_only :: "json \<Rightarrow> string option" where
  "str_only v = (case v of JStr s \<Rightarrow> Some s | _ \<Rightarrow> None)"

definition int_only :: "json \<Rightarrow> int option" where
  "int_only v =
     (case v of JNum r \<Rightarrow> if r = of_int \<lfloor>r\<rfloor> then Some \<lfloor>r\<rfloor> else None
      | JBool b \<Rightarrow> Some (if b then 1 else 0) | _ \<Rightarrow> None)"

definition str_unless_null :: "text_env \<Rightarrow> json \<Rightarrow> string option" where
  "str_unless_null E v = (case v of JNull \<Rightarrow> None | _ \<Rightarrow> Some (py_str E v))"

definition media_reference_from_payload :: "text_env \<Rightarrow> (string, json) dict \<Rightarrow> media_reference res" where
  "media_reference_from_payload E d =
     res_bind (required_text E d ''media_id'') (\<lambda>i.
     res_bind (required_text E d ''media_type'') (\<lambda>t.
       Inr \<lparr>mr_media_id = i, mr_media_type = t, mr_mime_type = str_only (get_or d ''mime_type'' JNull),
         mr_size_bytes = int_only (get_or d ''size_bytes'' JNull),
         mr_access_hash = str_only (get_or d ''access_hash'' JNull),
         mr_source_channel_id = str_unless_null E (get_or d ''source_channel_id'' JNull),
         mr_source_message_id = str_unless_null E (get_or d ''source_message_id'' JNull)\<rparr>))"

fun media_from_payload :: "text_env \<Rightarrow> json list \<Rightarrow> media_reference list res" where
  "media_from_payload E [] = Inr []"
| "media_from_payload E (v # vs) =
     (case v of
        JObj d \<Rightarrow>
          res_bind (media_reference_from_payload E d) (\<lambda>m.
          res_bind (media_from_payload E vs) (\<lambda>ms.
            Inr (if is_supported_telegram_media m then m # ms else ms)))
      | _ \<Rightarrow> media_from_payload E vs)"

definition forward_json :: "forward_metadata option \<Rightarrow> json" where
  "forward_json md =
     (case md of
        None \<Rightarrow> JNull
      | Some f \<Rightarrow> JObj
          [(''original_channel_id'', json_opt (original_channel_id f)),
           (''original_message_id'', json_opt (original_message_id f)),
           (''original_channel_username'', json_opt (original_channel_username f))])"

definition forward_metadata_from_payload :: "json \<Rightarrow> forward_metadata option res" where
  "forward_metadata_from_payload v =
     (case v of
        JObj d \<Rightarrow>
          res_bind (optional_text d ''original_channel_id'') (\<lambda>c.
          res_bind (optional_text d ''original_message_id'') (\<lambda>m.
          res_bind (optional_text d ''original_channel_username'') (\<lambda>u.
            Inr (Some \<lparr>original_channel_id = c, original_message_id = m, original_channel_username = u\<rparr>))))
      | _ \<Rightarrow> Inr None)"

section \<open>The payload of an event\<close>

definition to_queue_payload :: "text_env \<Rightarrow> raw_event \<Rightarrow> (string, json) dict" where
  "to_queue_payload E ev =
     [(''schema_version'', JStr (ev_schema_version ev)),
      (''event_type'', JStr (update_type_text (ev_event_type ev))),
      (''idempotency_key'', JStr (ev_idempotency_key ev)),
      (''account_key'', JStr (ev_account_key ev)),
      (''source_id'', JStr (ev_source_id ev)),
      (''source_channel_id'', JStr (ev_source_channel_id ev)),
      (''source_message_id'', JStr (ev_source_message_id ev)),
      (''source_identifier'', JStr (ev_source_identifier ev)),
      (''occurred_at'', JStr (te_to_iso E (ev_occurred_at ev))),
      (''correlation_id'', JStr (ev_correlation_id ev)),
      (''text'', json_opt (ev_text ev)),
      (''forward_metadata'', forward_json (ev_forward_metadata ev)),
      (''media'', JArr (map media_json (ev_media ev))),
      (''media_group_id'', json_opt (ev_media_group_id ev)),
      (''source_message_ids'', json_strs (ev_source_message_ids ev)),
      (''source_url'', json_opt (ev_source_url ev)),
      (''parser_key'', json_opt (ev_parser_key ev)),
      (''parser_version'', json_opt (ev_parser_version ev)),
      (''parser_config'', JObj (ev_parser_config ev)),
      (''parser_mode'', JStr (mode_text (ev_parser_mode ev))),
      (''parser_diagnostics'', JObj (ev_parser_diagnostics ev)),
      (''parser_provenance'', JObj (ev_parser_provenance ev))]"

definition json_list :: "json \<Rightarrow> json list res" where
  "json_list v = (case v of JArr xs \<Rightarrow> Inr xs | _ \<Rightarrow> Inl (TypeError ''not iterable''))"

text \<open>\<open>str(payload.get("parser_mode") or "active")\<close>.\<close>

definition falsy :: "json \<Rightarrow> bool" where
  "falsy v = (case v of JNull \<Rightarrow> True | JBool b \<Rightarrow> \<not> b | JNum r \<Rightarrow> r = 0 | JStr s \<Rightarrow> s = []
     | JArr xs \<Rightarrow> xs = [] | JObj d \<Rightarrow> d = [])"

definition from_queue_payload :: "text_env \<Rightarrow> (string, json) dict \<Rightarrow> raw_event res" where
  "from_queue_payload E d =
     res_bind (required_text E d ''schema_version'') (\<lambda>schema.
     res_bind (required_text E d ''event_type'') (\<lambda>type_text.
     res_bind (telegram_update_type type_text) (\<lambda>event_type.
     res_bind (required_text E d ''idempotency_key'') (\<lambda>key.
     res_bind (required_text E d ''account_key'') (\<lambda>account.
     res_bind (required_text E d ''source_id'') (\<lambda>source.
     res_bind (required_text E d ''source_channel_id'') (\<lambda>channel.
     res_bind (required_text E d ''source_message_id'') (\<lambda>msg.
     res_bind (required_text E d ''source_identifier'') (\<lambda>ident.
     res_bind (required_text E d ''occurred_at'') (\<lambda>occurred_text.
     res_bind (case te_of_iso E occurred_text of
         None \<Rightarrow> Inl (ValueError ''Invalid isoformat string'') | Some t \<Rightarrow> Inr t) (\<lambda>occurred.
     res_bind (required_text E d ''correlation_id'') (\<lambda>corr.
     res_bind (optional_text d ''text'') (\<lambda>txt.
     res_bind (forward_metadata_from_payload (get_or d ''forward_metadata'' JNull)) (\<lambda>fwd.
     res_bind (json_list (get_or d ''media'' (JArr []))) (\<lambda>items.
     res_bind (media_from_payload E items) (\<lambda>media.
     res_bind (optional_text d ''media_group_id'') (\<lambda>grp.
     res_bind (json_list (get_or d ''source_message_ids'' (JArr []))) (\<lambda>ids.
     res_bind (optional_text d ''source_url'') (\<lambda>url.
     res_bind (normalize_parser_mode
         (let m = get_or d ''parser_mode'' JNull in if falsy m then ''active'' else py_str E m)) (\<lambda>mode.
       Inr \<lparr>ev_schema_version = schema, ev_event_type = event_type, ev_idempotency_key = key,
         ev_account_key = account, ev_source_id = source, ev_source_channel_id = channel,
         ev_source_message_id = msg, ev_source_identifier = ident, ev_occurred_at = occurred,
         ev_correlation_id = corr, ev_text = txt, ev_forward_metadata = fwd, ev_media = media,
         ev_media_group_id = grp, ev_source_message_ids = map (py_str E) ids, ev_source_url = url,
         ev_parser_key = optional_payload_text E (get_or d ''parser_key'' JNull),
         ev_parser_version = optional_payload_text E (get_or d ''parser_version'' JNull),
         ev_parser_config = payload_object (get_or d ''parser_config'' JNull),
         ev_parser_mode = mode,
         ev_parser_diagnostics = payload_object (get_or d ''parser_diagnostics'' JNull),
         ev_parser_provenance = payload_object (get_or d ''parser_provenance'' JNull)\<rparr>))))))))))))))))))))"

section \<open>Round trip\<close>

lemma strip_strip [simp]: "strip (strip s) = strip s"
proof -
  have idem: "dropWhile P (dropWhile P xs) = dropWhile P xs" for P and xs :: string
    by (induction xs) auto
  have right: "rstrip (rstrip t) = rstrip t" for t by (simp add: rstrip_def idem)
  have left: "lstrip (rstrip (lstrip t)) = rstrip (lstrip t)" for t
  proof (cases "rstrip (lstrip t)")
    case (Cons c cs)
    have "rstrip (lstrip t) = take (length (rstrip (lstrip t))) (lstrip t)"
      by (simp add: rstrip_def) (metis append_eq_conv_conj length_rev rev_append rev_rev_ident takeWhile_dropWhile_id)
    with Cons obtain ds where "lstrip t = c # ds" by (cases "lstrip t") auto
    then have "\<not> is_space c" by (metis hd_dropWhile list.distinct(1) list.sel(1) lstrip_def)
    with Cons show ?thesis by (simp add: lstrip_def)
  qed (simp add: lstrip_def)
  show ?thesis by (simp add: strip_def left right)
qed

definition normalized_text_opt :: "string option \<Rightarrow> string option" where
  "normalized_text_opt t = Option.bind t (\<lambda>s. if strip s = [] then None else Some (strip s))"

text \<open>What of an event reaches the other side of the queue.\<close>

definition received_event :: "raw_event \<Rightarrow> raw_event" where
  "received_event ev = ev\<lparr>ev_media := filter is_supported_telegram_media (ev_media ev),
     ev_parser_key := normalized_text_opt (ev_parser_key ev),
     ev_parser_version := normalized_text_opt (ev_parser_version ev)\<rparr>"

lemma json_opt_simps [simp]:
  "str_only (json_opt t) = t" "str_unless_null E (json_opt t) = t"
  "optional_payload_text E (json_opt t) = normalized_text_opt t"
  by (cases t; simp add: json_opt_def str_only_def str_unless_null_def py_str_def optional_payload_text_def
      normalized_text_opt_def Let_def)+

lemma optional_text_opt: "dict_get d k = Some (json_opt t) \<Longrightarrow> optional_text d k = Inr t"
  by (cases t) (simp_all add: optional_text_def get_or_def json_opt_def)

lemma media_from_json: "media_reference_from_payload E (case media_json m of JObj d \<Rightarrow> d) = Inr m"
  by (cases "mr_size_bytes m")
    (simp_all add: media_json_def media_reference_from_payload_def required_text_def require_def get_or_def
      py_str_def int_only_def)

lemma media_list_from_json:
  "media_from_payload E (map media_json ms) = Inr (filter is_supported_telegram_media ms)"
proof (induction ms)
  case (Cons m ms)
  obtain d where "media_json m = JObj d" by (simp add: media_json_def)
  with media_from_json [of E m] Cons show ?case by simp
qed simp

lemma forward_from_json: "forward_metadata_from_payload (forward_json f) = Inr f"
  by (cases f) (simp_all add: forward_json_def forward_metadata_from_payload_def optional_text_opt)

lemma type_text_simps [simp]:
  "telegram_update_type (update_type_text t) = Inr t" "mode_of_text (mode_text m) = Some m" "mode_text m \<noteq> []"
  by (cases t; simp add: telegram_update_type_def) (cases m; simp add: mode_of_text_def)+

lemma normalize_mode_text [simp]: "normalize_parser_mode (mode_text m) = Inr m"
proof -
  have "strip (mode_text m) = mode_text m"
    by (rule strip_spaceless) (cases m; simp add: is_space_def code_of_def)
  moreover have "lower (mode_text m) = mode_text m"
    by (cases m) (simp_all add: lower_def lower_char_def is_upper_def code_of_def)
  ultimately show ?thesis by (simp add: normalize_parser_mode_def)
qed

lemma falsy_JStr [simp]: "falsy (JStr s) = (s = [])"
  by (simp add: falsy_def)

lemma py_str_JStr [simp]: "py_str E (JStr s) = s"
  by (simp add: py_str_def)

text \<open>
  An event survives the queue: decoding its payload gives the event back, with the media the pipeline
  does not support left out and the parser binding stripped. A second trip changes nothing.
\<close>

theorem queue_payload_round_trip:
  assumes "te_of_iso E (te_to_iso E (ev_occurred_at ev)) = Some (ev_occurred_at ev)"
  shows "from_queue_payload E (to_queue_payload E ev) = Inr (received_event ev) \<and>
    from_queue_payload E (to_queue_payload E (received_event ev)) = Inr (received_event ev)"
proof -
  have trip: "from_queue_payload E (to_queue_payload E x) = Inr (received_event x)"
    if "te_of_iso E (te_to_iso E (ev_occurred_at x)) = Some (ev_occurred_at x)" for x
  proof -
    have "optional_text (to_queue_payload E x) ''text'' = Inr (ev_text x)"
      "optional_text (to_queue_payload E x) ''media_group_id'' = Inr (ev_media_group_id x)"
      "optional_text (to_queue_payload E x) ''source_url'' = Inr (ev_source_url x)"
      by (rule optional_text_opt, simp add: to_queue_payload_def)+
    moreover have "map (py_str E) (map JStr ids) = ids" for ids by (simp add: comp_def)
    ultimately show ?thesis
      using that unfolding from_queue_payload_def
      by (simp add: to_queue_payload_def required_text_def require_def get_or_def json_list_def json_strs_def
          media_list_from_json forward_from_json payload_object_def received_event_def comp_def)
  qed
  have "received_event (received_event ev) = received_event ev"
    by (cases "ev_parser_key ev"; cases "ev_parser_version ev") (simp_all add: received_event_def normalized_text_opt_def)
  with trip [of ev] trip [of "received_event ev"] assms show ?thesis by (simp add: received_event_def)
qed

text \<open>An environment without a regular expression engine, for concrete runs.\<close>

definition sample_env :: text_env where
  "sample_env =
     \<lparr>te_subn = (\<lambda>p t. (t, 0)), te_split = (\<lambda>p t. [Some t]), te_search = (\<lambda>p t. False), te_compiles = (\<lambda>p. True),
      te_quality = (\<lambda>q t. False), te_normalize = (\<lambda>f t. t), te_digest_defaults = [],
      te_sha256 = (\<lambda>s. s), te_to_iso = str_int, te_of_iso = py_int, te_repr = (\<lambda>_. [])\<rparr>"

definition sample_event :: "string \<Rightarrow> string \<Rightarrow> raw_event" where
  "sample_event key text =
     \<lparr>ev_schema_version = ''telegram.raw.v1'', ev_event_type = Created, ev_idempotency_key = key,
      ev_account_key = ''acc'', ev_source_id = ''src'', ev_source_channel_id = ''ch'', ev_source_message_id = ''1'',
      ev_source_identifier = ''@ch'', ev_occurred_at = 0, ev_correlation_id = ''corr'', ev_text = Some text,
      ev_forward_metadata = None, ev_media = [], ev_media_group_id = None, ev_source_message_ids = [''1''],
      ev_source_url = None, ev_parser_key = None, ev_parser_version = None, ev_parser_config = [],
      ev_parser_mode = Active, ev_parser_diagnostics = [], ev_parser_provenance = []\<rparr>"

lemma queue_payload_round_trip_witness:
  "from_queue_payload sample_env (to_queue_payload sample_env (sample_event ''k'' ''3 xona'')) =
     Inr (sample_event ''k'' ''3 xona'')"
proof -
  have "te_of_iso sample_env (te_to_iso sample_env (ev_occurred_at (sample_event ''k'' ''3 xona''))) =
    Some (ev_occurred_at (sample_event ''k'' ''3 xona''))"
    by code_simp
  moreover have "received_event (sample_event ''k'' ''3 xona'') = sample_event ''k'' ''3 xona''"
    by (simp add: received_event_def sample_event_def normalized_text_opt_def)
  ultimately show ?thesis using queue_payload_round_trip [of sample_env "sample_event ''k'' ''3 xona''"] by simp
qed

end
