(* ===== verification/EF_Recipe.thy ===== *)
theory EF_Recipe
  imports EF_RawEvent
begin

text \<open>
  Declarative source parsers: the recipe schema of \<open>services/source_parsing/contracts.py\<close>, the text
  operators of \<open>operators.py\<close> and the candidates and outcomes a parser returns.
\<close>

section \<open>Recipes\<close>

datatype parser_family = SingleListing | DigestBlocks | AlbumCaption | MixedFeed | BufferedThread | CustomFamily

datatype parse_decision = EmitDecision | DropDecision | BufferDecision | QuarantineDecision

datatype candidate_policy = EmitPolicy | DropPolicy | QuarantinePolicy

datatype media_policy = AutoMedia | AllMedia | FirstCandidate | NoMedia

record cleanup_config =
  cc_strip_patterns :: "string list"
  cc_unicode_form :: unicode_form
  cc_collapse_inline_whitespace :: bool
  cc_collapse_blank_lines :: bool
  cc_trim :: bool

record split_config =
  sp_patterns :: "string list"
  sp_min_segment_chars :: int
  sp_max_candidates :: int
  sp_keep_unsplit_if_no_match :: bool

record filter_config =
  fl_include_any :: "string list"
  fl_exclude_any :: "string list"
  fl_unmatched_policy :: candidate_policy
  fl_excluded_policy :: candidate_policy
  fl_empty_text_policy :: candidate_policy

record score_config =
  sn_minimum :: rat
  sn_below_minimum_policy :: candidate_policy

record parser_recipe =
  rc_parser_key :: string
  rc_parser_version :: string
  rc_family :: parser_family
  rc_cleanup :: cleanup_config
  rc_split :: split_config
  rc_filters :: filter_config
  rc_score :: score_config
  rc_media_policy :: media_policy
  rc_defaults :: "(string, json) dict"
  rc_required_fields :: "string list"
  rc_prompt_hints :: "string list"
  rc_description :: string

definition default_recipe :: "string \<Rightarrow> parser_family \<Rightarrow> parser_recipe" where
  "default_recipe key family =
     \<lparr>rc_parser_key = key, rc_parser_version = ''1'', rc_family = family,
      rc_cleanup = \<lparr>cc_strip_patterns = [], cc_unicode_form = NFKC, cc_collapse_inline_whitespace = True,
        cc_collapse_blank_lines = True, cc_trim = True\<rparr>,
      rc_split = \<lparr>sp_patterns = [], sp_min_segment_chars = 1, sp_max_candidates = 25,
        sp_keep_unsplit_if_no_match = True\<rparr>,
      rc_filters = \<lparr>fl_include_any = [], fl_exclude_any = [], fl_unmatched_policy = EmitPolicy,
        fl_excluded_policy = DropPolicy, fl_empty_text_policy = QuarantinePolicy\<rparr>,
      rc_score = \<lparr>sn_minimum = 0, sn_below_minimum_policy = QuarantinePolicy\<rparr>,
      rc_media_policy = AutoMedia, rc_defaults = [], rc_required_fields = [], rc_prompt_hints = [],
      rc_description = []\<rparr>"

text \<open>\<open>_KEY_PATTERN\<close> and \<open>_VERSION_PATTERN\<close>.\<close>

definition is_key_char :: "char \<Rightarrow> bool" where
  "is_key_char c \<longleftrightarrow> is_lower c \<or> is_digit c \<or> c \<in> set ''_.-''"

definition is_version_char :: "char \<Rightarrow> bool" where
  "is_version_char c \<longleftrightarrow> is_lower c \<or> is_upper c \<or> is_digit c \<or> c \<in> set ''_.+-''"

definition key_pattern :: "string \<Rightarrow> bool" where
  "key_pattern s \<longleftrightarrow> s \<noteq> [] \<and> length s \<le> 128 \<and> (is_lower (hd s) \<or> is_digit (hd s)) \<and> list_all is_key_char s"

definition version_pattern :: "string \<Rightarrow> bool" where
  "version_pattern s \<longleftrightarrow>
     s \<noteq> [] \<and> length s \<le> 64 \<and> (is_lower (hd s) \<or> is_upper (hd s) \<or> is_digit (hd s)) \<and> list_all is_version_char s"

definition validate_parser_key :: "string \<Rightarrow> string res" where
  "validate_parser_key s =
     (let n = lower (strip s) in
      if key_pattern n then Inr n else Inl (ValueError ''parser_key must start with a lowercase letter/digit''))"

definition validate_parser_version :: "string \<Rightarrow> string res" where
  "validate_parser_version s =
     (let n = strip s in
      if version_pattern n then Inr n else Inl (ValueError ''parser_version contains unsupported characters''))"

definition validate_prompt_hints :: "string list \<Rightarrow> string list res" where
  "validate_prompt_hints hints =
     (if 30 < length hints then Inl (ValueError ''prompt_hints may contain at most 30 entries'')
      else (let n = map strip (filter (\<lambda>h. strip h \<noteq> []) hints) in
            if list_ex (\<lambda>h. 500 < length h) n
            then Inl (ValueError ''each prompt hint must be at most 500 characters'') else Inr n))"

definition ALLOWED_REQUIRED_FIELDS :: "string list" where
  "ALLOWED_REQUIRED_FIELDS =
     [''address'', ''area_sqm'', ''description'', ''district'', ''phone_numbers'', ''price'', ''rooms'']"

text \<open>\<open>dict.fromkeys(xs)\<close>: the first occurrences, in order.\<close>

definition fromkeys :: "'a list \<Rightarrow> 'a list" where
  "fromkeys xs = rev (remdups (rev xs))"

definition validate_required_fields :: "string list \<Rightarrow> string list res" where
  "validate_required_fields wanted =
     (let n = fromkeys (map strip (filter (\<lambda>f. strip f \<noteq> []) wanted)) in
      if list_all (\<lambda>f. f \<in> set ALLOWED_REQUIRED_FIELDS) n then Inr n
      else Inl (ValueError ''unsupported required listing fields''))"

text \<open>Building a recipe: field validators, bounds and the family check. Any failure is one \<open>ValidationError\<close>.\<close>

definition validate_recipe :: "text_env \<Rightarrow> parser_recipe \<Rightarrow> parser_recipe res" where
  "validate_recipe E r =
     res_bind (validate_parser_key (rc_parser_key r)) (\<lambda>key.
     res_bind (validate_parser_version (rc_parser_version r)) (\<lambda>version.
     res_bind (validate_regexes (te_compiles E) ''cleanup.strip_patterns'' (cc_strip_patterns (rc_cleanup r))) (\<lambda>_.
     res_bind (validate_regexes (te_compiles E) ''split.patterns'' (sp_patterns (rc_split r))) (\<lambda>_.
     res_bind (validate_regexes (te_compiles E) ''filters.include_any'' (fl_include_any (rc_filters r))) (\<lambda>_.
     res_bind (validate_regexes (te_compiles E) ''filters.exclude_any'' (fl_exclude_any (rc_filters r))) (\<lambda>_.
     res_bind (validate_prompt_hints (rc_prompt_hints r)) (\<lambda>hints.
     res_bind (validate_required_fields (rc_required_fields r)) (\<lambda>needed.
       if \<not> (0 \<le> sp_min_segment_chars (rc_split r) \<and> sp_min_segment_chars (rc_split r) \<le> 10000 \<and>
             1 \<le> sp_max_candidates (rc_split r) \<and> sp_max_candidates (rc_split r) \<le> 100 \<and>
             0 \<le> sn_minimum (rc_score r) \<and> sn_minimum (rc_score r) \<le> 1 \<and>
             fl_excluded_policy (rc_filters r) \<noteq> EmitPolicy)
       then Inl (ValueError ''ValidationError'')
       else if rc_family r = CustomFamily \<and> starts_with key ''generic.''
       then Inl (ValueError ''generic recipes cannot use the custom family'')
       else Inr (r\<lparr>rc_parser_key := key, rc_parser_version := version, rc_prompt_hints := hints,
         rc_required_fields := needed\<rparr>)))))))))"

section \<open>Text operators\<close>

text \<open>
  \<open>normalize_and_cleanup\<close>. Zero-width characters lie outside the 8-bit characters of the model, so
  removing them has no effect here; the no-break space is character 160.
\<close>

fun unix_newlines :: "string \<Rightarrow> string" where
  "unix_newlines [] = []"
| "unix_newlines (c # cs) =
     (if c = CHR 0x0D
      then (case cs of d # ds \<Rightarrow> if d = CHR 0x0A then unix_newlines cs else CHR 0x0A # unix_newlines cs
            | [] \<Rightarrow> [CHR 0x0A])
      else (if c = CHR 0xA0 then CHR '' '' else c) # unix_newlines cs)"

text \<open>Runs of white space other than line breaks become one blank.\<close>

fun collapse_inline :: "bool \<Rightarrow> string \<Rightarrow> string" where
  "collapse_inline in_run [] = []"
| "collapse_inline in_run (c # cs) =
     (if is_space c \<and> c \<noteq> CHR 0x0A \<and> c \<noteq> CHR 0x0D
      then (if in_run then collapse_inline True cs else CHR '' '' # collapse_inline True cs)
      else c # collapse_inline False cs)"

text \<open>
  \<open>\n\s*\n(?:\s*\n)+\<close>: from a line break on, the white space up to its last line break is replaced by
  two line breaks when it holds at least two more.
\<close>

definition upto_last_newline :: "string \<Rightarrow> nat" where
  "upto_last_newline run = length run - length (takeWhile (\<lambda>c. c \<noteq> CHR 0x0A) (rev run))"

function collapse_blank :: "string \<Rightarrow> string" where
  "collapse_blank [] = []"
| "collapse_blank (c # cs) =
     (let run = takeWhile is_space cs in
      if c = CHR 0x0A \<and> 2 \<le> count_list run (CHR 0x0A)
      then CHR 0x0A # CHR 0x0A # collapse_blank (drop (upto_last_newline run) cs)
      else c # collapse_blank cs)"
  by pat_completeness auto
termination by (relation "measure length") (auto simp: le_imp_less_Suc)

fun strip_patterns :: "text_env \<Rightarrow> string list \<Rightarrow> string \<Rightarrow> string \<times> nat" where
  "strip_patterns E [] s = (s, 0)"
| "strip_patterns E (p # ps) s =
     (case te_subn E p s of (t, n) \<Rightarrow> (case strip_patterns E ps t of (u, m) \<Rightarrow> (u, n + m)))"

record cleanup_result =
  cu_text :: string
  cu_removed_pattern_count :: nat
  cu_changed :: bool

definition normalize_and_cleanup :: "text_env \<Rightarrow> string option \<Rightarrow> cleanup_config \<Rightarrow> cleanup_result" where
  "normalize_and_cleanup E text cfg =
     (let raw = (case text of None \<Rightarrow> [] | Some t \<Rightarrow> t);
          normal = te_normalize E (cc_unicode_form cfg) (unix_newlines raw)
      in case strip_patterns E (cc_strip_patterns cfg) normal of
           (stripped, removed) \<Rightarrow>
             (let inline = (if cc_collapse_inline_whitespace cfg then collapse_inline False stripped else stripped);
                  blank = (if cc_collapse_blank_lines cfg then collapse_blank inline else inline);
                  cleaned = (if cc_trim cfg then strip blank else blank)
              in \<lparr>cu_text = cleaned, cu_removed_pattern_count = removed, cu_changed = (cleaned \<noteq> raw)\<rparr>))"

record split_result =
  sr_segments :: "string list"
  sr_applied_pattern_count :: nat
  sr_discarded_short_count :: nat
  sr_overflow :: bool

text \<open>One pattern over all chunks; calling \<open>strip\<close> on an unmatched group raises.\<close>

definition meaningful_parts :: "text_env \<Rightarrow> string \<Rightarrow> string \<Rightarrow> string list res" where
  "meaningful_parts E pattern chunk =
     (let parts = te_split E pattern chunk in
      if None \<in> set parts then Inl (AttributeError ''strip'')
      else Inr (filter (\<lambda>p. strip p \<noteq> []) (map the parts)))"

fun split_chunks :: "text_env \<Rightarrow> string \<Rightarrow> string list \<Rightarrow> (string list \<times> bool) res" where
  "split_chunks E pattern [] = Inr ([], False)"
| "split_chunks E pattern (c # cs) =
     res_bind (meaningful_parts E pattern c) (\<lambda>parts.
     res_bind (split_chunks E pattern cs) (\<lambda>(rest, applied).
       Inr (parts @ rest, 1 < length parts \<or> applied)))"

fun split_by :: "text_env \<Rightarrow> string list \<Rightarrow> string list \<Rightarrow> nat \<Rightarrow> (string list \<times> nat) res" where
  "split_by E [] chunks applied = Inr (chunks, applied)"
| "split_by E (p # ps) chunks applied =
     res_bind (split_chunks E p chunks) (\<lambda>(next_chunks, hit).
       if hit then split_by E ps next_chunks (Suc applied) else split_by E ps chunks applied)"

definition split_listing_blocks :: "text_env \<Rightarrow> string \<Rightarrow> split_config \<Rightarrow> bool \<Rightarrow> split_result res" where
  "split_listing_blocks E text cfg use_digest_defaults =
     (let patterns = (if sp_patterns cfg \<noteq> [] then sp_patterns cfg
                      else if use_digest_defaults then te_digest_defaults E else []) in
      res_bind (split_by E patterns [text] 0) (\<lambda>(chunks0, applied).
        let chunks = (if patterns \<noteq> [] \<and> applied = 0 \<and> \<not> sp_keep_unsplit_if_no_match cfg then []
                      else if chunks0 = [] \<and> sp_keep_unsplit_if_no_match cfg \<and> strip text \<noteq> [] then [text]
                      else chunks0);
            long = (\<lambda>c. sp_min_segment_chars cfg \<le> int (length (strip c)));
            segments = map strip (filter long chunks)
        in Inr \<lparr>sr_segments = take (nat (sp_max_candidates cfg)) segments, sr_applied_pattern_count = applied,
             sr_discarded_short_count = length (filter (\<lambda>c. \<not> long c) chunks),
             sr_overflow = (sp_max_candidates cfg < int (length segments))\<rparr>))"

definition matched_patterns :: "text_env \<Rightarrow> string \<Rightarrow> string list \<Rightarrow> string list" where
  "matched_patterns E text patterns = filter (\<lambda>p. te_search E p text) patterns"

datatype quality = HasText | HasPhone | HasPrice | HasRooms | HasRealEstateTerms | HasMedia

definition quality_signals :: "text_env \<Rightarrow> string \<Rightarrow> bool \<Rightarrow> quality list" where
  "quality_signals E text has_media =
     (if strip text \<noteq> [] then [HasText] else []) @
     (if te_quality E PhonePattern text then [HasPhone] else []) @
     (if te_quality E PricePattern text then [HasPrice] else []) @
     (if te_quality E RoomPattern text then [HasRooms] else []) @
     (if te_quality E RealEstatePattern text then [HasRealEstateTerms] else []) @
     (if has_media then [HasMedia] else [])"

fun quality_weight :: "quality \<Rightarrow> rat" where
  "quality_weight HasText = 20 / 100"
| "quality_weight HasPhone = 20 / 100"
| "quality_weight HasPrice = 20 / 100"
| "quality_weight HasRooms = 10 / 100"
| "quality_weight HasRealEstateTerms = 15 / 100"
| "quality_weight HasMedia = 5 / 100"

definition transparent_candidate_score :: "quality list \<Rightarrow> nat \<Rightarrow> rat" where
  "transparent_candidate_score signals include_match_count =
     (let score = 5 / 100 + sum_list (map quality_weight signals) +
        (if 0 < include_match_count then min (20 / 100) (of_nat include_match_count * (10 / 100)) else 0)
      in min 1 (round4 score))"

section \<open>Candidates and outcomes\<close>

record parsed_candidate =
  pc_candidate_id :: string
  pc_idempotency_key :: string
  pc_index :: nat
  pc_cleaned_text :: "string option"
  pc_raw_text :: "string option"
  pc_score :: rat
  pc_reasons :: "string list"
  pc_signals :: "quality list"
  pc_parser_key :: string
  pc_parser_version :: string
  pc_parser_family :: parser_family
  pc_defaults :: "(string, json) dict"
  pc_required_fields :: "string list"
  pc_prompt_hints :: "string list"
  pc_diagnostics :: "(string, json) dict"
  pc_include_media :: bool
  pc_isolate_source_identity :: bool

record quarantined_candidate =
  qc_candidate_id :: string
  qc_index :: nat
  qc_cleaned_text :: "string option"
  qc_reason :: string
  qc_score :: rat

record parse_outcome =
  po_decision :: parse_decision
  po_parser_key :: string
  po_parser_version :: string
  po_parser_family :: parser_family
  po_mode :: parser_mode
  po_candidates :: "parsed_candidate list"
  po_quarantined_candidates :: "quarantined_candidate list"
  po_reasons :: "string list"
  po_score :: rat
  po_diagnostics :: "(string, json) dict"

text \<open>\<open>ParseOutcome.__post_init__\<close>.\<close>

definition make_outcome :: "parse_outcome \<Rightarrow> parse_outcome res" where
  "make_outcome po =
     (if po_decision po = EmitDecision \<and> po_candidates po = []
      then Inl (ValueError ''emit outcomes require at least one candidate'')
      else if po_decision po \<noteq> EmitDecision \<and> po_candidates po \<noteq> []
      then Inl (ValueError ''only emit outcomes may contain candidates'')
      else if \<not> (0 \<le> po_score po \<and> po_score po \<le> 1)
      then Inl (ValueError ''outcome score must be between 0 and 1'')
      else Inr po)"

definition stable_candidate_id :: "text_env \<Rightarrow> string \<Rightarrow> string \<Rightarrow> string \<Rightarrow> nat \<Rightarrow> string option \<Rightarrow> string" where
  "stable_candidate_id E raw_event_id key version index cleaned =
     ''spc_'' @ take 32 (te_sha256 E (join [CHR 0x1F]
       [raw_event_id, key, version, str_nat index, case cleaned of None \<Rightarrow> [] | Some t \<Rightarrow> t]))"

definition candidate_idempotency_key :: "string \<Rightarrow> string \<Rightarrow> bool \<Rightarrow> string" where
  "candidate_idempotency_key raw_event_id candidate_id preserve_raw_id =
     (if preserve_raw_id then raw_event_id else raw_event_id @ '':candidate:'' @ candidate_id)"

end
