(* ===== verification/EF_SourceParser.thy ===== *)
theory EF_SourceParser
  imports EF_Recipe
begin

text \<open>
  The recipe parser (\<open>services/source_parsing/parser.py\<close>): one raw event and a recipe give an outcome, the
  candidates for extraction and the segments held back. What it guarantees of every outcome is proved at the end.
\<close>

section \<open>The policy of a segment\<close>

definition candidate_policy_of ::
  "string \<Rightarrow> bool \<Rightarrow> bool \<Rightarrow> string list \<Rightarrow> string list \<Rightarrow> filter_config \<Rightarrow> candidate_policy \<times> string" where
  "candidate_policy_of segment has_media include_configured include_matches exclude_matches fl =
     (if exclude_matches \<noteq> [] then (fl_excluded_policy fl, ''exclude_marker_matched'')
      else if strip segment = [] \<and> \<not> has_media then (fl_empty_text_policy fl, ''empty_text'')
      else if include_configured \<and> include_matches = [] then (fl_unmatched_policy fl, ''include_marker_missing'')
      else (EmitPolicy, ''candidate_accepted''))"

text \<open>\<open>^\s*#?\d{1,3}[.)]\s+\<close>.\<close>

definition numbered_segment :: "string \<Rightarrow> bool" where
  "numbered_segment s =
     (let t = lstrip s;
          u = (case t of c # cs \<Rightarrow> if c = CHR ''#'' then cs else t | [] \<Rightarrow> t);
          digits = takeWhile is_digit u
      in digits \<noteq> [] \<and> length digits \<le> 3 \<and>
         (case dropWhile is_digit u of
            c # d # _ \<Rightarrow> (c = CHR ''.'' \<or> c = CHR '')'') \<and> is_space d | _ \<Rightarrow> False))"

definition is_generic_digest_preamble :: "parser_recipe \<Rightarrow> string list \<Rightarrow> nat \<Rightarrow> bool" where
  "is_generic_digest_preamble r segments index \<longleftrightarrow>
     rc_parser_key r = ''generic.digest_blocks'' \<and> index = 0 \<and> 2 \<le> length segments \<and>
     \<not> numbered_segment (hd segments) \<and> list_ex numbered_segment (tl segments)"

definition candidate_has_media :: "parser_family \<Rightarrow> media_policy \<Rightarrow> nat \<Rightarrow> nat \<Rightarrow> bool" where
  "candidate_has_media family policy index cnt =
     (case policy of
        AllMedia \<Rightarrow> True
      | NoMedia \<Rightarrow> False
      | FirstCandidate \<Rightarrow> index = 0
      | AutoMedia \<Rightarrow> family \<noteq> DigestBlocks \<or> cnt = 1)"

definition quarantined ::
  "text_env \<Rightarrow> raw_event \<Rightarrow> parser_recipe \<Rightarrow> nat \<Rightarrow> string \<Rightarrow> string \<Rightarrow> rat \<Rightarrow> quarantined_candidate" where
  "quarantined E ev r index segment reason score =
     \<lparr>qc_candidate_id = stable_candidate_id E (ev_idempotency_key ev) (rc_parser_key r) (rc_parser_version r)
        index (Some segment),
      qc_index = index, qc_cleaned_text = Some segment, qc_reason = reason, qc_score = score\<rparr>"

section \<open>The loop over the segments\<close>

record parse_run =
  pr_candidates :: "parsed_candidate list"
  pr_quarantined :: "quarantined_candidate list"
  pr_rejected_reasons :: "string list"
  pr_rejected_decisions :: "candidate_policy list"

definition reject ::
  "text_env \<Rightarrow> raw_event \<Rightarrow> parser_recipe \<Rightarrow> nat \<Rightarrow> string \<Rightarrow> candidate_policy \<Rightarrow> string \<Rightarrow> rat \<Rightarrow> parse_run \<Rightarrow> parse_run" where
  "reject E ev r index segment policy reason score run = run
     \<lparr>pr_rejected_decisions := pr_rejected_decisions run @ [policy],
      pr_rejected_reasons := pr_rejected_reasons run @ [reason],
      pr_quarantined := pr_quarantined run @
        (if policy = QuarantinePolicy then [quarantined E ev r index segment reason score] else [])\<rparr>"

definition emitted ::
  "text_env \<Rightarrow> raw_event \<Rightarrow> parser_recipe \<Rightarrow> cleanup_result \<Rightarrow> split_result \<Rightarrow> nat \<Rightarrow> nat \<Rightarrow> string \<Rightarrow>
   string list \<Rightarrow> string list \<Rightarrow> rat \<Rightarrow> parsed_candidate" where
  "emitted E ev r cu sr segment_count index segment include_matches exclude_matches score =
     (let cleaned = (if segment = [] \<and> ev_text ev = None then None else Some segment);
          include_media = candidate_has_media (rc_family r) (rc_media_policy r) index segment_count;
          cid = stable_candidate_id E (ev_idempotency_key ev) (rc_parser_key r) (rc_parser_version r) index cleaned;
          preserve = (rc_parser_key r = ''generic.single_listing'' \<and> segment_count = 1 \<and> \<not> cu_changed cu)
      in \<lparr>pc_candidate_id = cid,
          pc_idempotency_key = candidate_idempotency_key (ev_idempotency_key ev) cid preserve,
          pc_index = index, pc_cleaned_text = cleaned, pc_raw_text = ev_text ev, pc_score = score,
          pc_reasons = [''source_recipe_matched''] @
            (if cu_changed cu then [''text_normalized''] else []) @
            (if cu_removed_pattern_count cu \<noteq> 0 then [''boilerplate_removed''] else []) @
            (if sr_applied_pattern_count sr \<noteq> 0 then [''digest_split''] else []) @
            (if include_matches \<noteq> [] then [''include_marker_matched''] else []),
          pc_signals = quality_signals E segment (ev_media ev \<noteq> []),
          pc_parser_key = rc_parser_key r, pc_parser_version = rc_parser_version r,
          pc_parser_family = rc_family r, pc_defaults = rc_defaults r,
          pc_required_fields = rc_required_fields r, pc_prompt_hints = rc_prompt_hints r,
          pc_diagnostics =
            [(''segment_char_count'', JNum (of_nat (length segment))),
             (''include_match_count'', JNum (of_nat (length include_matches))),
             (''exclude_match_count'', JNum (of_nat (length exclude_matches))),
             (''media_attached'', JBool include_media),
             (''raw_media_count'', JNum (of_nat (length (ev_media ev)))),
             (''source_identity_isolated'', JBool (1 < segment_count)),
             (''source_identity_strategy'', JStr ''raw_message_id+candidate_index''),
             (''source_identity_reorder_sensitive'', JBool (1 < segment_count))],
          pc_include_media = include_media, pc_isolate_source_identity = (1 < segment_count)\<rparr>)"

definition parse_segment ::
  "text_env \<Rightarrow> raw_event \<Rightarrow> parser_recipe \<Rightarrow> cleanup_result \<Rightarrow> split_result \<Rightarrow> string list \<Rightarrow> nat \<Rightarrow> string \<Rightarrow>
   parse_run \<Rightarrow> parse_run" where
  "parse_segment E ev r cu sr segments index segment run =
     (let has_media = (ev_media ev \<noteq> []);
          include_matches = matched_patterns E segment (fl_include_any (rc_filters r));
          exclude_matches = matched_patterns E segment (fl_exclude_any (rc_filters r));
          score = transparent_candidate_score (quality_signals E segment has_media) (length include_matches)
      in case (if is_generic_digest_preamble r segments index then (QuarantinePolicy, ''digest_preamble'')
               else candidate_policy_of segment has_media (fl_include_any (rc_filters r) \<noteq> []) include_matches
                 exclude_matches (rc_filters r)) of
           (policy, reason) \<Rightarrow>
             if policy \<noteq> EmitPolicy then reject E ev r index segment policy reason score run
             else if score < sn_minimum (rc_score r) \<and> sn_below_minimum_policy (rc_score r) \<noteq> EmitPolicy
             then reject E ev r index segment (sn_below_minimum_policy (rc_score r)) ''below_minimum_parser_score''
               score run
             else run\<lparr>pr_candidates := pr_candidates run @
               [emitted E ev r cu sr (length segments) index segment include_matches exclude_matches score]\<rparr>)"

fun parse_segments where
  "parse_segments E ev r cu sr segments index [] run = run"
| "parse_segments E ev r cu sr segments index (s # ss) run =
     parse_segments E ev r cu sr segments (Suc index) ss (parse_segment E ev r cu sr segments index s run)"

section \<open>Parsing an event\<close>

definition empty_outcome ::
  "parser_recipe \<Rightarrow> parse_decision \<Rightarrow> string list \<Rightarrow> (string, json) dict \<Rightarrow> quarantined_candidate list \<Rightarrow> parse_outcome res" where
  "empty_outcome r decision reasons diagnostics held = make_outcome
     \<lparr>po_decision = decision, po_parser_key = rc_parser_key r, po_parser_version = rc_parser_version r,
      po_parser_family = rc_family r, po_mode = Active, po_candidates = [],
      po_quarantined_candidates = held, po_reasons = reasons, po_score = 0, po_diagnostics = diagnostics\<rparr>"

fun decision_of_policy :: "candidate_policy \<Rightarrow> parse_decision" where
  "decision_of_policy EmitPolicy = EmitDecision"
| "decision_of_policy DropPolicy = DropDecision"
| "decision_of_policy QuarantinePolicy = QuarantineDecision"

definition segments_of :: "raw_event \<Rightarrow> parser_recipe \<Rightarrow> cleanup_result \<Rightarrow> split_result \<Rightarrow> string list" where
  "segments_of ev r cu sr =
     (let should_split = (rc_family r = DigestBlocks \<or> sp_patterns (rc_split r) \<noteq> []);
          base = (if should_split then sr_segments sr else if cu_text cu \<noteq> [] then [cu_text cu] else [])
      in if base = [] \<and> (ev_media ev \<noteq> [] \<or> fl_empty_text_policy (rc_filters r) = EmitPolicy) then [[]] else base)"

definition finish_parse ::
  "raw_event \<Rightarrow> parser_recipe \<Rightarrow> cleanup_result \<Rightarrow> split_result \<Rightarrow> nat \<Rightarrow> parse_run \<Rightarrow> parse_outcome res" where
  "finish_parse ev r cu sr segment_count run =
     (let diagnostics =
            [(''raw_char_count'', JNum (of_nat (length (case ev_text ev of None \<Rightarrow> [] | Some t \<Rightarrow> t)))),
             (''cleaned_char_count'', JNum (of_nat (length (cu_text cu)))),
             (''cleanup_changed'', JBool (cu_changed cu)),
             (''removed_pattern_count'', JNum (of_nat (cu_removed_pattern_count cu))),
             (''segment_count'', JNum (of_nat segment_count)),
             (''discarded_short_segment_count'', JNum (of_nat (sr_discarded_short_count sr))),
             (''applied_split_pattern_count'', JNum (of_nat (sr_applied_pattern_count sr))),
             (''rejected_candidate_count'', JNum (of_nat (length (pr_rejected_decisions run))))]
      in if pr_candidates run \<noteq> []
         then make_outcome
           \<lparr>po_decision = EmitDecision, po_parser_key = rc_parser_key r, po_parser_version = rc_parser_version r,
            po_parser_family = rc_family r, po_mode = Active, po_candidates = pr_candidates run,
            po_quarantined_candidates = pr_quarantined run,
            po_reasons = fromkeys (''candidates_emitted'' # pr_rejected_reasons run),
            po_score = Min (set (map pc_score (pr_candidates run))), po_diagnostics = diagnostics\<rparr>
         else empty_outcome r
           (if QuarantinePolicy \<in> set (pr_rejected_decisions run) then QuarantineDecision else DropDecision)
           (fromkeys (if pr_rejected_reasons run = [] then [''no_candidates''] else pr_rejected_reasons run))
           diagnostics (pr_quarantined run))"

definition parse_event :: "text_env \<Rightarrow> raw_event \<Rightarrow> parser_recipe \<Rightarrow> parse_outcome res" where
  "parse_event E ev r =
     (if rc_family r = BufferedThread
      then empty_outcome r BufferDecision [''stateful_buffer_required'', ''buffer_not_configured'']
        [(''supported'', JBool False)] []
      else if rc_family r = CustomFamily
      then empty_outcome r QuarantineDecision [''custom_parser_plugin_required''] [] []
      else
        (let cu = normalize_and_cleanup E (ev_text ev) (rc_cleanup r) in
         res_bind (split_listing_blocks E (cu_text cu) (rc_split r) (rc_family r = DigestBlocks)) (\<lambda>sr.
           if sr_overflow sr
           then empty_outcome r QuarantineDecision [''candidate_limit_exceeded'']
             [(''max_candidates'', JNum (of_int (sp_max_candidates (rc_split r)))),
              (''applied_split_pattern_count'', JNum (of_nat (sr_applied_pattern_count sr)))] []
           else
             (let segments = segments_of ev r cu sr in
              if segments = []
              then empty_outcome r (decision_of_policy (fl_empty_text_policy (rc_filters r))) [''empty_text'']
                [(''has_media'', JBool (ev_media ev \<noteq> [])), (''cleanup_changed'', JBool (cu_changed cu)),
                 (''applied_split_pattern_count'', JNum (of_nat (sr_applied_pattern_count sr))),
                 (''discarded_short_segment_count'', JNum (of_nat (sr_discarded_short_count sr)))] []
              else finish_parse ev r cu sr (length segments)
                (parse_segments E ev r cu sr segments 0 segments
                  \<lparr>pr_candidates = [], pr_quarantined = [], pr_rejected_reasons = [],
                   pr_rejected_decisions = []\<rparr>)))))"

section \<open>What every outcome guarantees\<close>

lemma round4_nonneg: "0 \<le> x \<Longrightarrow> 0 \<le> round4 x"
  by (auto simp: round4_def Let_def intro!: divide_nonneg_nonneg)

lemma quality_weight_nonneg: "0 \<le> quality_weight q"
  by (cases q) simp_all

lemma candidate_score_bounds: "0 \<le> transparent_candidate_score signals n \<and> transparent_candidate_score signals n \<le> 1"
proof -
  have "0 \<le> sum_list (map quality_weight signals)" by (induction signals) (simp_all add: quality_weight_nonneg)
  then have "0 \<le> 5 / 100 + sum_list (map quality_weight signals) +
      (if 0 < n then min (20 / 100) (of_nat n * (10 / 100)) else 0 :: rat)" by simp
  from round4_nonneg [OF this] show ?thesis by (simp add: transparent_candidate_score_def Let_def)
qed

text \<open>The state of the loop after the first \<open>k\<close> segments.\<close>

definition segment_text :: "raw_event \<Rightarrow> string list \<Rightarrow> nat \<Rightarrow> string option" where
  "segment_text ev segments i = (if segments ! i = [] \<and> ev_text ev = None then None else Some (segments ! i))"

definition score_accepted :: "parser_recipe \<Rightarrow> rat \<Rightarrow> bool" where
  "score_accepted r x \<longleftrightarrow> 0 \<le> x \<and> x \<le> 1 \<and> (sn_minimum (rc_score r) \<le> x \<or> sn_below_minimum_policy (rc_score r) = EmitPolicy)"

definition run_ok :: "raw_event \<Rightarrow> parser_recipe \<Rightarrow> string list \<Rightarrow> nat \<Rightarrow> parse_run \<Rightarrow> bool" where
  "run_ok ev r segments k run \<longleftrightarrow>
     sorted_wrt (<) (map pc_index (pr_candidates run)) \<and> sorted_wrt (<) (map qc_index (pr_quarantined run)) \<and>
     (\<forall>c \<in> set (pr_candidates run). pc_index c < k \<and> score_accepted r (pc_score c) \<and>
        pc_cleaned_text c = segment_text ev segments (pc_index c) \<and>
        pc_isolate_source_identity c = (1 < length segments)) \<and>
     (\<forall>q \<in> set (pr_quarantined run). qc_index q < k \<and> qc_cleaned_text q = Some (segments ! qc_index q)) \<and>
     pc_index ` set (pr_candidates run) \<inter> qc_index ` set (pr_quarantined run) = {} \<and>
     length (pr_candidates run) + length (pr_rejected_decisions run) = k \<and>
     length (pr_quarantined run) = count_list (pr_rejected_decisions run) QuarantinePolicy"

lemma sorted_wrt_snoc: "sorted_wrt P (xs @ [x]) \<longleftrightarrow> sorted_wrt P xs \<and> (\<forall>y \<in> set xs. P y x)"
  by (auto simp: sorted_wrt_append)

lemma run_ok_reject:
  assumes "run_ok ev r segments k run" and "segment = segments ! k"
  shows "run_ok ev r segments (Suc k) (reject E ev r k segment policy reason score run)"
proof -
  have "k \<notin> pc_index ` set (pr_candidates run)" using assms(1) by (auto simp: run_ok_def)
  with assms show ?thesis
    by (auto simp: run_ok_def reject_def quarantined_def sorted_wrt_snoc less_Suc_eq)
qed

lemma run_ok_emit:
  assumes "run_ok ev r segments k run" and "c = emitted E ev r cu sr (length segments) k (segments ! k) i x score"
    and "score_accepted r score"
  shows "run_ok ev r segments (Suc k) (run\<lparr>pr_candidates := pr_candidates run @ [c]\<rparr>)"
proof -
  have "pc_index c = k" "pc_score c = score" "pc_cleaned_text c = segment_text ev segments k"
    "pc_isolate_source_identity c = (1 < length segments)"
    by (simp_all add: assms(2) emitted_def Let_def segment_text_def)
  moreover have "k \<notin> qc_index ` set (pr_quarantined run)" using assms(1) by (auto simp: run_ok_def)
  ultimately show ?thesis
    using assms(1,3) by (auto simp: run_ok_def sorted_wrt_snoc less_Suc_eq)
qed

lemma run_ok_segment:
  assumes "run_ok ev r segments k run" and "segment = segments ! k"
  shows "run_ok ev r segments (Suc k) (parse_segment E ev r cu sr segments k segment run)"
  using assms(1) candidate_score_bounds unfolding parse_segment_def Let_def
  by (auto split: prod.split simp: score_accepted_def assms(2) intro!: run_ok_reject run_ok_emit)

lemma run_ok_segments:
  "run_ok ev r segments k run \<Longrightarrow> drop k segments = ss \<Longrightarrow> k \<le> length segments \<Longrightarrow>
   run_ok ev r segments (length segments) (parse_segments E ev r cu sr segments k ss run)"
proof (induction ss arbitrary: k run)
  case Nil
  then show ?case by simp
next
  case (Cons s ss)
  note here = drop_nth [OF Cons.prems(2)]
  have "run_ok ev r segments (Suc k) (parse_segment E ev r cu sr segments k s run)"
    using Cons.prems(1) here by (intro run_ok_segment) simp_all
  then show ?case using Cons.IH [of "Suc k"] here by simp
qed

lemma split_chunks_total:
  assumes "\<And>p t. None \<notin> set (te_split E p t)"
  shows "\<exists>out. split_chunks E p cs = Inr out"
  by (induction cs) (auto simp: meaningful_parts_def Let_def assms)

lemma split_by_total:
  assumes "\<And>p t. None \<notin> set (te_split E p t)"
  shows "\<exists>out. split_by E ps cs n = Inr out"
proof (induction ps arbitrary: cs n)
  case (Cons p ps)
  obtain nc hit where "split_chunks E p cs = Inr (nc, hit)" using split_chunks_total [OF assms] by (metis surj_pair)
  with Cons.IH show ?case by simp
qed simp

lemma split_listing_blocks_total:
  assumes "\<And>p t. None \<notin> set (te_split E p t)"
  obtains sr where "split_listing_blocks E t cfg d = Inr sr"
    and "length (sr_segments sr) \<le> nat (sp_max_candidates cfg)"
proof -
  obtain chunks n where "split_by E (if sp_patterns cfg \<noteq> [] then sp_patterns cfg else if d then te_digest_defaults E else [])
      [t] 0 = Inr (chunks, n)" using split_by_total [OF assms] by (metis surj_pair)
  then show thesis using that by (simp add: split_listing_blocks_def Let_def)
qed

lemma length_segments_of:
  "length (sr_segments sr) \<le> m \<Longrightarrow> length (segments_of ev r cu sr) \<le> max 1 m"
  by (auto simp: segments_of_def Let_def split: if_splits)

lemma set_fromkeys [simp]: "set (fromkeys xs) = set xs"
  by (simp add: fromkeys_def)

lemma Min_scores:
  assumes "xs \<noteq> []" and "\<And>x. x \<in> set xs \<Longrightarrow> 0 \<le> f x \<and> f x \<le> (1 :: rat)"
  shows "0 \<le> Min (set (map f xs)) \<and> Min (set (map f xs)) \<le> 1"
proof -
  have "Min (set (map f xs)) \<in> set (map f xs)" using assms(1) by (intro Min_in) simp_all
  with assms(2) show ?thesis by auto
qed

lemma finish_parse_outcome:
  assumes "\<And>c. c \<in> set (pr_candidates run) \<Longrightarrow> 0 \<le> pc_score c \<and> pc_score c \<le> 1"
  obtains po where "finish_parse ev r cu sr n run = Inr po" and "po_candidates po = pr_candidates run"
    and "po_quarantined_candidates po = pr_quarantined run"
    and "po_decision po = EmitDecision \<longleftrightarrow> pr_candidates run \<noteq> []" and "0 \<le> po_score po" and "po_score po \<le> 1"
proof (cases "pr_candidates run = []")
  case True
  then show thesis
    using that by (cases "QuarantinePolicy \<in> set (pr_rejected_decisions run)")
      (simp_all add: finish_parse_def Let_def empty_outcome_def make_outcome_def)
next
  case False
  define m where "m = Min (set (map pc_score (pr_candidates run)))"
  have "0 \<le> m \<and> m \<le> 1" unfolding m_def using Min_scores [OF False] assms by blast
  then show thesis
    using that False unfolding finish_parse_def Let_def m_def [symmetric]
    by (simp add: make_outcome_def)
qed

text \<open>
  Parsing always returns an outcome (unless a split pattern has an optional group, on whose
  missing text the code calls \<open>strip\<close>): it emits exactly when it has candidates, its score is between 0 and 1, each
  candidate and each held segment is one of at most \<open>max_candidates\<close> segments, no segment appears
  twice, and every candidate reaches the minimum score if the recipe rejects lower ones.
\<close>

theorem parse_event_outcome:
  assumes "\<And>p t. None \<notin> set (te_split E p t)" and "fl_excluded_policy (rc_filters r) \<noteq> EmitPolicy"
  shows "\<exists>po segments. parse_event E ev r = Inr po \<and>
    (po_decision po = EmitDecision \<longleftrightarrow> po_candidates po \<noteq> []) \<and> 0 \<le> po_score po \<and> po_score po \<le> 1 \<and>
    length segments \<le> max 1 (nat (sp_max_candidates (rc_split r))) \<and>
    sorted_wrt (<) (map pc_index (po_candidates po)) \<and> sorted_wrt (<) (map qc_index (po_quarantined_candidates po)) \<and>
    pc_index ` set (po_candidates po) \<inter> qc_index ` set (po_quarantined_candidates po) = {} \<and>
    (\<forall>c \<in> set (po_candidates po). pc_index c < length segments \<and> score_accepted r (pc_score c) \<and>
       pc_cleaned_text c = segment_text ev segments (pc_index c)) \<and>
    (\<forall>q \<in> set (po_quarantined_candidates po). qc_index q < length segments \<and>
       qc_cleaned_text q = Some (segments ! qc_index q))"
proof -
  obtain sr where sr: "split_listing_blocks E (cu_text (normalize_and_cleanup E (ev_text ev) (rc_cleanup r)))
      (rc_split r) (rc_family r = DigestBlocks) = Inr sr" "length (sr_segments sr) \<le> nat (sp_max_candidates (rc_split r))"
    using split_listing_blocks_total [OF assms(1)] by metis
  let ?cu = "normalize_and_cleanup E (ev_text ev) (rc_cleanup r)"
  let ?segs = "segments_of ev r ?cu sr"
  let ?run = "parse_segments E ev r ?cu sr ?segs 0 ?segs
    \<lparr>pr_candidates = [], pr_quarantined = [], pr_rejected_reasons = [], pr_rejected_decisions = []\<rparr>"
  have run: "run_ok ev r ?segs (length ?segs) ?run"
    by (rule run_ok_segments) (simp_all add: run_ok_def)
  have len: "length ?segs \<le> max 1 (nat (sp_max_candidates (rc_split r)))" by (rule length_segments_of [OF sr(2)])
  have empty: "empty_outcome r d reasons diag [] = Inr po \<Longrightarrow> ?thesis"
    if "parse_event E ev r = empty_outcome r d reasons diag []" for d reasons diag po
    using that by (intro exI [of _ po] exI [of _ "[]"])
      (auto simp: empty_outcome_def make_outcome_def split: if_splits)
  have nil: "\<exists>s :: string list. length s \<le> m" for m by (rule exI [of _ "[]"]) simp
  consider "rc_family r = BufferedThread \<or> rc_family r = CustomFamily \<or> sr_overflow sr"
    | "rc_family r \<noteq> BufferedThread" "rc_family r \<noteq> CustomFamily" "\<not> sr_overflow sr" "?segs = []"
    | "rc_family r \<noteq> BufferedThread" "rc_family r \<noteq> CustomFamily" "\<not> sr_overflow sr" "?segs \<noteq> []" by blast
  then show ?thesis
  proof cases
    case 1
    then show ?thesis
      using sr(1)
      by (cases "rc_family r = BufferedThread"; cases "rc_family r = CustomFamily")
        (auto intro!: empty simp: parse_event_def Let_def, simp_all add: empty_outcome_def make_outcome_def nil)
  next
    case 2
    then have "fl_empty_text_policy (rc_filters r) \<noteq> EmitPolicy" by (auto simp: segments_of_def Let_def split: if_splits)
    then have d: "decision_of_policy (fl_empty_text_policy (rc_filters r)) \<noteq> EmitDecision"
      by (cases "fl_empty_text_policy (rc_filters r)") simp_all
    have "parse_event E ev r = empty_outcome r (decision_of_policy (fl_empty_text_policy (rc_filters r))) [''empty_text'']
        [(''has_media'', JBool (ev_media ev \<noteq> [])), (''cleanup_changed'', JBool (cu_changed ?cu)),
         (''applied_split_pattern_count'', JNum (of_nat (sr_applied_pattern_count sr))),
         (''discarded_short_segment_count'', JNum (of_nat (sr_discarded_short_count sr)))] []"
      using 2 sr(1) by (simp add: parse_event_def Let_def)
    from empty [OF this] d show ?thesis by (simp add: empty_outcome_def make_outcome_def)
  next
    case 3
    then have parse: "parse_event E ev r = finish_parse ev r ?cu sr (length ?segs) ?run"
      using sr(1) by (simp add: parse_event_def Let_def)
    have scores: "0 \<le> pc_score c \<and> pc_score c \<le> 1" if "c \<in> set (pr_candidates ?run)" for c
      using run that by (auto simp: run_ok_def score_accepted_def)
    obtain po where po: "finish_parse ev r ?cu sr (length ?segs) ?run = Inr po"
      "po_candidates po = pr_candidates ?run" "po_quarantined_candidates po = pr_quarantined ?run"
      "po_decision po = EmitDecision \<longleftrightarrow> pr_candidates ?run \<noteq> []" "0 \<le> po_score po" "po_score po \<le> 1"
      using finish_parse_outcome [OF scores] by metis
    show ?thesis
      using run len parse po by (intro exI [of _ po] exI [of _ ?segs]) (simp add: run_ok_def)
  qed
qed

lemma parse_event_outcome_witness:
  "\<exists>po. parse_event sample_env (sample_event ''k'' ''3 xona'') (default_recipe ''generic.single_listing'' SingleListing) =
      Inr po \<and> (po_decision po = EmitDecision) = (po_candidates po \<noteq> [])"
proof -
  have "\<And>p t. None \<notin> set (te_split sample_env p t)" by (simp add: sample_env_def)
  moreover have "fl_excluded_policy (rc_filters (default_recipe ''generic.single_listing'' SingleListing)) \<noteq> EmitPolicy"
    by (simp add: default_recipe_def)
  ultimately show ?thesis
    using parse_event_outcome [of sample_env "default_recipe ''generic.single_listing'' SingleListing"
      "sample_event ''k'' ''3 xona''"] by blast
qed

end
