(* ===== verification/EF_Router.thy ===== *)
theory EF_Router
  imports EF_SourceParser
begin

text \<open>
  Choosing the parser of an event: \<open>SourceParserRouter\<close> and the check of parser bindings in
  \<open>services/source_parsing/router.py\<close>. Pydantic turns a configuration object into a recipe's fields and back
  (\<open>rv_coerce\<close>, \<open>rv_dump\<close>); the checks a recipe's own validators make are \<open>validate_recipe\<close>. The patterns of the
  built-in recipes use letters outside the 8-bit characters and are fields too.
\<close>

text \<open>\<open>{**old, **new}\<close>.\<close>

abbreviation dict_update :: "('k, 'v) dict \<Rightarrow> ('k, 'v) dict \<Rightarrow> ('k, 'v) dict" where
  "dict_update old new \<equiv> AList.updates (map fst new) (map snd new) old"

section \<open>Environment and state\<close>

record router_env =
  rv_text :: text_env
  rv_coerce :: "(string, json) dict \<Rightarrow> parser_recipe option"
  rv_dump :: "parser_recipe \<Rightarrow> (string, json) dict"
  rv_digest_markers :: "string list"
  rv_mixed_include :: "string list"
  rv_mixed_exclude :: "string list"

text \<open>A plugin raises, or returns an object that may not be an outcome.\<close>

type_synonym source_plugin = "raw_event \<Rightarrow> parser_recipe \<Rightarrow> parse_outcome option res"

datatype source_binding = BindKey string | BindRecipe parser_recipe | BindConfig "(string, json) dict"

record router =
  rt_recipes :: "(string \<times> string, parser_recipe) dict"
  rt_latest :: "(string, parser_recipe) dict"
  rt_fallback_key :: string
  rt_source_recipes :: "(string, source_binding) dict"
  rt_plugins :: "(string, source_plugin) dict"

definition recipe_model_validate :: "router_env \<Rightarrow> (string, json) dict \<Rightarrow> parser_recipe res" where
  "recipe_model_validate V config =
     (case rv_coerce V config of
        None \<Rightarrow> Inl (ValidationError ''ParserRecipe'')
      | Some r \<Rightarrow> (case validate_recipe (rv_text V) r of
          Inl e \<Rightarrow> Inl (ValidationError ''ParserRecipe'') | Inr v \<Rightarrow> Inr v))"

definition built_in_recipes :: "router_env \<Rightarrow> parser_recipe list" where
  "built_in_recipes V =
     (let d = default_recipe; emit_empty = (\<lambda>f. f\<lparr>fl_empty_text_policy := EmitPolicy\<rparr>);
          single = d ''generic.single_listing'' SingleListing;
          digest = d ''generic.digest_blocks'' DigestBlocks;
          album = d ''generic.album_caption'' AlbumCaption;
          mixed = d ''generic.mixed_feed'' MixedFeed
      in [single\<lparr>rc_filters := emit_empty (rc_filters single),
            rc_description := ''Safe one-message/one-candidate compatibility parser.''\<rparr>,
          digest\<lparr>rc_filters := (rc_filters digest)\<lparr>fl_include_any := rv_digest_markers V,
              fl_unmatched_policy := QuarantinePolicy\<rparr>,
            rc_description := ''Numbered or separator-delimited listing digest.''\<rparr>,
          album\<lparr>rc_filters := emit_empty (rc_filters album),
            rc_description := ''One album and its caption represent one listing.''\<rparr>,
          mixed\<lparr>rc_filters := (rc_filters mixed)\<lparr>fl_include_any := rv_mixed_include V,
              fl_exclude_any := rv_mixed_exclude V, fl_unmatched_policy := QuarantinePolicy,
              fl_excluded_policy := DropPolicy\<rparr>,
            rc_description := ''Conservative mixed channel parser with auditable filtering.''\<rparr>])"

definition register_recipe :: "parser_recipe \<Rightarrow> router \<Rightarrow> router" where
  "register_recipe r rt = rt
     \<lparr>rt_recipes := dict_put (rc_parser_key r, rc_parser_version r) r (rt_recipes rt),
      rt_latest := dict_put (rc_parser_key r) r (rt_latest rt)\<rparr>"

definition new_router ::
  "router_env \<Rightarrow> parser_recipe list \<Rightarrow> (string, source_binding) dict \<Rightarrow> (string, source_plugin) dict \<Rightarrow> string \<Rightarrow>
   router res" where
  "new_router V recipes source_recipes plugins fallback_key =
     (let rt = fold register_recipe (built_in_recipes V @ recipes)
            \<lparr>rt_recipes = [], rt_latest = [], rt_fallback_key = fallback_key,
             rt_source_recipes = source_recipes, rt_plugins = plugins\<rparr>
      in if dict_get (rt_latest rt) fallback_key = None
         then Inl (ValueError (''unknown parser fallback_key: '' @ fallback_key)) else Inr rt)"

section \<open>Reading a binding\<close>

definition blank_value :: "json \<Rightarrow> bool" where
  "blank_value v \<longleftrightarrow> v = JNull \<or> v = JObj [] \<or> v = JStr []"

definition null_or_empty :: "json \<Rightarrow> bool" where
  "null_or_empty v \<longleftrightarrow> v = JNull \<or> v = JStr []"

definition binding_fields :: "string list" where
  "binding_fields = [''parser_key'', ''parser_version'', ''parser_config'', ''parser_mode'']"

definition event_binding :: "raw_event \<Rightarrow> (string, json) dict" where
  "event_binding ev =
     [(''parser_key'', json_opt (ev_parser_key ev)), (''parser_version'', json_opt (ev_parser_version ev)),
      (''parser_config'', JObj (ev_parser_config ev)), (''parser_mode'', JStr (mode_text (ev_parser_mode ev)))]"

definition take_field :: "(string, json) dict \<Rightarrow> string \<Rightarrow> (string, json) dict \<Rightarrow> (string, json) dict" where
  "take_field from f md =
     (if blank_value (get_or from f JNull) then md else dict_put f (get_or from f JNull) md)"

definition routing_metadata :: "raw_event \<Rightarrow> (string, json) dict \<Rightarrow> (string, json) dict" where
  "routing_metadata ev pl =
     (let md = fold (\<lambda>f d. take_field pl f (take_field (event_binding ev) f d)) binding_fields []
      in case get_or pl ''source_parser'' JNull of
           JObj nested \<Rightarrow> fold (take_field nested) binding_fields md
         | _ \<Rightarrow> md)"

definition parser_mode_of :: "text_env \<Rightarrow> json \<Rightarrow> parser_mode \<times> string option" where
  "parser_mode_of E v =
     (if null_or_empty v then (Active, None)
      else case mode_of_text (lower (strip (py_str E v))) of
             Some m \<Rightarrow> (m, None) | None \<Rightarrow> (Active, Some ''invalid_parser_mode''))"

definition metadata_text :: "text_env \<Rightarrow> json \<Rightarrow> string option" where
  "metadata_text E v = (if null_or_empty v then None else Some (strip (py_str E v)))"

definition safe_metadata_text :: "text_env \<Rightarrow> json \<Rightarrow> string \<Rightarrow> string" where
  "safe_metadata_text E v dflt =
     (case metadata_text E v of None \<Rightarrow> dflt | Some t \<Rightarrow> if t = [] then dflt else take 128 t)"

definition strip_char :: "char \<Rightarrow> string \<Rightarrow> string" where
  "strip_char c s = rev (dropWhile (\<lambda>x. x = c) (rev (dropWhile (\<lambda>x. x = c) s)))"

definition safe_source_key :: "string \<Rightarrow> string" where
  "safe_source_key s =
     (let safe = map (\<lambda>c. if is_alnum c then c else CHR ''-'') (lower s);
          short = take 80 (strip_char (CHR ''-'') safe)
      in if short = [] then ''unknown'' else short)"

definition parser_aliases :: "(string, string) dict" where
  "parser_aliases =
     [(''passthrough'', ''generic.single_listing''), (''caption_first'', ''generic.album_caption''),
      (''album_text_merge'', ''generic.album_caption''), (''single_listing'', ''generic.single_listing''),
      (''digest_blocks'', ''generic.digest_blocks''), (''album_caption'', ''generic.album_caption''),
      (''mixed_feed'', ''generic.mixed_feed'')]"

definition legacy_alias :: "string option \<Rightarrow> string option" where
  "legacy_alias key =
     (case dict_get parser_aliases (case key of None \<Rightarrow> [] | Some k \<Rightarrow> k) of Some k \<Rightarrow> Some k | None \<Rightarrow> key)"

section \<open>Inline configurations\<close>

text \<open>\<open>dict(value)\<close>. A key that is not text makes the later recipe validation fail; here it fails at once.\<close>

definition pair_of :: "json \<Rightarrow> (string \<times> json) res" where
  "pair_of v =
     (case v of
        JArr [a, b] \<Rightarrow> (case a of JStr k \<Rightarrow> Inr (k, b) | JArr _ \<Rightarrow> Inl (TypeError ''unhashable'')
          | JObj _ \<Rightarrow> Inl (TypeError ''unhashable'') | _ \<Rightarrow> Inl (ValidationError ''ParserRecipe''))
      | JStr [a, b] \<Rightarrow> Inr ([a], JStr [b])
      | JObj [(a, _), (b, _)] \<Rightarrow> Inr (a, JStr b)
      | JArr _ \<Rightarrow> Inl (ValueError ''dictionary update sequence'')
      | JStr _ \<Rightarrow> Inl (ValueError ''dictionary update sequence'')
      | JObj _ \<Rightarrow> Inl (ValueError ''dictionary update sequence'')
      | _ \<Rightarrow> Inl (TypeError ''cannot convert dictionary update sequence''))"

definition dict_of_json :: "json \<Rightarrow> (string, json) dict res" where
  "dict_of_json v =
     (if falsy v then Inr []
      else case v of
        JObj d \<Rightarrow> Inr d
      | JArr xs \<Rightarrow> res_bind (res_all (map pair_of xs)) (\<lambda>ps. Inr (fold (\<lambda>(k, x). dict_put k x) ps []))
      | JStr s \<Rightarrow> Inl (ValueError ''dictionary update sequence'')
      | _ \<Rightarrow> Inl (TypeError ''object is not iterable''))"

text \<open>\<open>part[name] = normalized.pop(key)\<close> if the key is there.\<close>

definition move_field ::
  "string \<Rightarrow> string \<Rightarrow> (string, json) dict \<times> (string, json) dict \<Rightarrow> (string, json) dict \<times> (string, json) dict" where
  "move_field key name p =
     (case dict_get (fst p) key of None \<Rightarrow> p | Some v \<Rightarrow> (dict_pop key (fst p), dict_put name v (snd p)))"

definition put_unless_empty :: "string \<Rightarrow> (string, json) dict \<Rightarrow> (string, json) dict \<Rightarrow> (string, json) dict" where
  "put_unless_empty k part d = (if part = [] then d else dict_put k (JObj part) d)"

definition normalize_inline_config :: "(string, json) dict \<Rightarrow> (string, json) dict res" where
  "normalize_inline_config config =
     res_bind (dict_of_json (get_or config ''cleanup'' JNull)) (\<lambda>cleanup0.
     res_bind (dict_of_json (get_or config ''split'' JNull)) (\<lambda>split0.
     res_bind (dict_of_json (get_or config ''filters'' JNull)) (\<lambda>filters0.
       case fold (\<lambda>f. move_field f f) [''strip_patterns'', ''unicode_form'', ''collapse_inline_whitespace'',
              ''collapse_blank_lines'', ''trim''] (config, cleanup0) of (n1, cleanup) \<Rightarrow>
       (case fold (\<lambda>f. move_field f f) [''min_segment_chars'', ''max_candidates'', ''keep_unsplit_if_no_match'']
              (move_field ''split_patterns'' ''patterns'' (n1, split0)) of (n2, split) \<Rightarrow>
       (case fold (\<lambda>f. move_field f f) [''include_any'', ''exclude_any'', ''unmatched_policy'', ''excluded_policy'',
              ''empty_text_policy''] (n2, filters0) of (n3, filters) \<Rightarrow>
         Inr (dict_pop ''parser_mode'' (put_unless_empty ''filters'' filters
           (put_unless_empty ''split'' split (put_unless_empty ''cleanup'' cleanup n3)))))))))"

lemma size_member: "size_prod (\<lambda>_. 0) size = (\<lambda>x :: string \<times> json. Suc (size (snd x)))"
  by (auto simp: fun_eq_iff size_prod_simp)

function deep_merge :: "(string, json) dict \<Rightarrow> (string, json) dict \<Rightarrow> (string, json) dict" where
  "deep_merge base [] = base"
| "deep_merge base ((k, v) # rest) =
     deep_merge
       (dict_put k
         (case v of JObj o1 \<Rightarrow> (case dict_get base k of Some (JObj b) \<Rightarrow> JObj (deep_merge b o1) | _ \<Rightarrow> v) | _ \<Rightarrow> v)
         base) rest"
  by pat_completeness auto
termination by (relation "measure (\<lambda>(b, d). size_list (\<lambda>x. Suc (size (snd x))) d)") (auto simp: size_member)

section \<open>Resolving the recipe\<close>

definition registered_recipe :: "router \<Rightarrow> string option \<Rightarrow> string option \<Rightarrow> parser_recipe option" where
  "registered_recipe rt key version =
     (case key of
        None \<Rightarrow> None
      | Some k \<Rightarrow> (case version of Some v \<Rightarrow> dict_get (rt_recipes rt) (k, v) | None \<Rightarrow> dict_get (rt_latest rt) k))"

definition text_or :: "string option \<Rightarrow> string \<Rightarrow> string" where
  "text_or t dflt = (case t of Some x \<Rightarrow> if x = [] then dflt else x | None \<Rightarrow> dflt)"

text \<open>The recipe of an inline configuration, over the registered recipe if there is one.\<close>

definition inline_recipe ::
  "router_env \<Rightarrow> string \<Rightarrow> string option \<Rightarrow> string option \<Rightarrow> parser_recipe option \<Rightarrow> json \<Rightarrow> parser_recipe res" where
  "inline_recipe V source_id key version base raw =
     (case raw of
        JObj d \<Rightarrow>
          res_bind (normalize_inline_config d) (\<lambda>config0.
          res_bind (case dict_get config0 ''recipe'' of
              None \<Rightarrow> Inr config0
            | Some (JObj nested) \<Rightarrow> Inr (deep_merge nested (dict_pop ''recipe'' config0))
            | Some _ \<Rightarrow> Inl (TypeError ''parser_config.recipe must be an object'')) (\<lambda>config1.
          if dict_get config1 ''parser_key'' \<noteq> None \<or> dict_get config1 ''parser_version'' \<noteq> None
          then Inl (ValueError ''parser_config cannot define binding identity fields'')
          else
            (let config2 = (case base of None \<Rightarrow> config1 | Some b \<Rightarrow> deep_merge (rv_dump V b) config1);
                 config3 = dict_put ''parser_version''
                   (JStr (text_or version (case base of Some b \<Rightarrow> rc_parser_version b | None \<Rightarrow> ''1'')))
                   (dict_put ''parser_key'' (JStr (text_or key (''source.'' @ safe_source_key source_id))) config2);
                 config4 = (if dict_get config3 ''family'' = None
                            then dict_put ''family'' (JStr ''single_listing'') config3 else config3)
             in recipe_model_validate V config4)))
      | _ \<Rightarrow> Inl (TypeError ''parser_config must be an object''))"

definition resolve_recipe ::
  "router_env \<Rightarrow> router \<Rightarrow> string \<Rightarrow> (string, json) dict \<Rightarrow>
   (parser_recipe \<times> string list \<times> (string, json) dict) res" where
  "resolve_recipe V rt source_id md =
     (let requested = metadata_text (rv_text V) (get_or md ''parser_key'' JNull);
          version = metadata_text (rv_text V) (get_or md ''parser_version'' JNull);
          raw = get_or md ''parser_config'' JNull;
          by_source = (\<lambda>r. (r, [''source_id_recipe_match''], [(''route'', JStr ''source_id'')]));
          by_key = (\<lambda>key0.
            (let key = legacy_alias key0; base = registered_recipe rt key version in
             if raw \<noteq> JNull \<and> raw \<noteq> JObj []
             then res_bind (inline_recipe V source_id key version base raw) (\<lambda>r.
               Inr (r, [''inline_parser_config''], [(''route'', JStr ''event_config'')]))
             else case base of
               Some b \<Rightarrow>
                 (let route = (if key \<noteq> None then ''event_key'' else ''source_id'')
                  in Inr (b, [route @ ''_recipe_match''], [(''route'', JStr route)]))
             | None \<Rightarrow>
                 (case dict_get (rt_latest rt) (rt_fallback_key rt) of
                    None \<Rightarrow> Inl (KeyError (rt_fallback_key rt))
                  | Some f \<Rightarrow> Inr
                      (if key \<noteq> None
                       then (f, [''generic_fallback'', ''unknown_parser_key_or_version''],
                         [(''route'', JStr ''fallback''), (''requested_parser_key'', json_opt key),
                          (''requested_parser_version'', json_opt version)])
                       else (f, [''generic_fallback''], [(''route'', JStr ''fallback'')])))))
      in case (if requested = None then dict_get (rt_source_recipes rt) source_id else None) of
           None \<Rightarrow> by_key requested
         | Some (BindKey k) \<Rightarrow> by_key (Some k)
         | Some (BindRecipe r) \<Rightarrow> Inr (by_source r)
         | Some (BindConfig c) \<Rightarrow> res_bind (recipe_model_validate V c) (\<lambda>r. Inr (by_source r)))"

section \<open>Parsing\<close>

definition routing_error ::
  "raw_event \<Rightarrow> string \<Rightarrow> string \<Rightarrow> parser_mode \<Rightarrow> string \<Rightarrow> parser_family \<Rightarrow> (string, json) dict \<Rightarrow> parse_outcome res" where
  "routing_error ev key version mode reason family diagnostics = make_outcome
     \<lparr>po_decision = QuarantineDecision, po_parser_key = key, po_parser_version = version, po_parser_family = family,
      po_mode = mode, po_candidates = [], po_quarantined_candidates = [], po_reasons = [reason], po_score = 0,
      po_diagnostics = dict_update [(''source_id'', JStr (ev_source_id ev))] diagnostics\<rparr>"

definition build_passthrough_outcome ::
  "text_env \<Rightarrow> raw_event \<Rightarrow> string \<Rightarrow> string \<Rightarrow> parser_mode \<Rightarrow> string list \<Rightarrow> parse_outcome res" where
  "build_passthrough_outcome E ev key version mode reasons = make_outcome
     \<lparr>po_decision = EmitDecision, po_parser_key = key, po_parser_version = version,
      po_parser_family = SingleListing, po_mode = mode,
      po_candidates =
        [\<lparr>pc_candidate_id = stable_candidate_id E (ev_idempotency_key ev) key version 0 (ev_text ev),
          pc_idempotency_key = ev_idempotency_key ev, pc_index = 0, pc_cleaned_text = ev_text ev,
          pc_raw_text = ev_text ev, pc_score = 0, pc_reasons = reasons,
          pc_signals = quality_signals E (case ev_text ev of None \<Rightarrow> [] | Some t \<Rightarrow> t) (ev_media ev \<noteq> []),
          pc_parser_key = key, pc_parser_version = version, pc_parser_family = SingleListing,
          pc_defaults = [], pc_required_fields = [], pc_prompt_hints = [],
          pc_diagnostics = [(''passthrough'', JBool True)], pc_include_media = True,
          pc_isolate_source_identity = False\<rparr>],
      po_quarantined_candidates = [], po_reasons = reasons, po_score = 0,
      po_diagnostics = [(''passthrough'', JBool True)]\<rparr>"

text \<open>What the recipe's parser or plugin makes of the event; every exception becomes an outcome.\<close>

definition run_parser ::
  "router_env \<Rightarrow> router \<Rightarrow> raw_event \<Rightarrow> parser_mode \<Rightarrow> parser_recipe \<Rightarrow> parse_outcome res" where
  "run_parser V rt ev mode r =
     (let failed = (\<lambda>reason diagnostics.
            routing_error ev (rc_parser_key r) (rc_parser_version r) mode reason (rc_family r) diagnostics);
          answer = (case (if rc_family r = CustomFamily then dict_get (rt_plugins rt) (rc_parser_key r) else None) of
              Some plugin \<Rightarrow> res_bind (plugin ev r) (\<lambda>x. case x of
                  Some po \<Rightarrow> make_outcome po
                | None \<Rightarrow> Inl (TypeError ''source parser plugin returned an invalid outcome''))
            | None \<Rightarrow> parse_event (rv_text V) ev r)
      in if rc_family r = CustomFamily \<and> dict_get (rt_plugins rt) (rc_parser_key r) = None
         then failed ''custom_parser_plugin_not_registered'' []
         else case answer of
           Inr po \<Rightarrow> Inr po
         | Inl e \<Rightarrow> failed ''source_parser_failed'' [(''error_type'', JStr (error_class e))])"

definition router_parse ::
  "router_env \<Rightarrow> router \<Rightarrow> raw_event \<Rightarrow> (string, json) dict \<Rightarrow> parse_outcome res" where
  "router_parse V rt ev pl =
     (let E = rv_text V; md = routing_metadata ev pl;
          key = get_or md ''parser_key'' JNull; version = get_or md ''parser_version'' JNull;
          invalid_key = safe_metadata_text E key ''invalid.config'';
          invalid_version = safe_metadata_text E version ''unknown''
      in case parser_mode_of E (get_or md ''parser_mode'' JNull) of
           (mode, Some reason) \<Rightarrow> routing_error ev invalid_key invalid_version Active reason SingleListing []
         | (mode, None) \<Rightarrow>
             if mode = Disabled
             then build_passthrough_outcome E ev (safe_metadata_text E key ''parser.disabled'')
               (safe_metadata_text E version ''1'') Disabled [''source_parser_disabled'']
             else case resolve_recipe V rt (ev_source_id ev) md of
               Inl (KeyError k) \<Rightarrow> Inl (KeyError k)
             | Inl e \<Rightarrow> routing_error ev invalid_key invalid_version mode ''invalid_parser_config'' SingleListing
                 [(''error_type'', JStr (error_class e))]
             | Inr (r, route_reasons, route_diagnostics) \<Rightarrow>
                 res_bind (run_parser V rt ev mode r) (\<lambda>po.
                   make_outcome (po\<lparr>po_parser_key := rc_parser_key r, po_parser_version := rc_parser_version r,
                     po_parser_family := rc_family r, po_mode := mode,
                     po_reasons := fromkeys (route_reasons @ po_reasons po),
                     po_diagnostics := dict_update route_diagnostics (po_diagnostics po)\<rparr>)))"

definition validate_source_parser_binding ::
  "router_env \<Rightarrow> router \<Rightarrow> string \<Rightarrow> string option \<Rightarrow> string option \<Rightarrow> (string, json) dict \<Rightarrow> json \<Rightarrow> parser_recipe res" where
  "validate_source_parser_binding V rt source_id key version config mode =
     (case parser_mode_of (rv_text V) mode of
        (_, Some e) \<Rightarrow> Inl (ValueError e)
      | (_, None) \<Rightarrow>
          res_bind (resolve_recipe V rt source_id
            [(''parser_key'', json_opt key), (''parser_version'', json_opt version),
             (''parser_config'', JObj config), (''parser_mode'', JStr ''active'')]) (\<lambda>(r, reasons, _).
            if ''unknown_parser_key_or_version'' \<in> set reasons
            then Inl (ValueError ''unknown parser binding'')
            else if rc_family r = CustomFamily \<and> dict_get (rt_plugins rt) (rc_parser_key r) = None
            then Inl (ValueError ''custom parser plugin is not registered'')
            else Inr r))"

section \<open>Routing never raises\<close>

definition outcome_ok :: "parse_outcome \<Rightarrow> bool" where
  "outcome_ok po \<longleftrightarrow> (po_decision po = EmitDecision \<longleftrightarrow> po_candidates po \<noteq> []) \<and> 0 \<le> po_score po \<and> po_score po \<le> 1"

lemma make_outcome_Inr [simp]: "make_outcome po = Inr q \<longleftrightarrow> q = po \<and> outcome_ok po"
  by (auto simp: make_outcome_def outcome_ok_def)

lemma empty_outcome_ok: "empty_outcome r d reasons diag held = Inr po \<Longrightarrow> outcome_ok po"
  by (auto simp: empty_outcome_def)

lemma parse_event_ok: "parse_event E ev r = Inr po \<Longrightarrow> outcome_ok po"
  by (auto simp: parse_event_def Let_def finish_parse_def dest: empty_outcome_ok split: if_splits elim!: res_bind_InrE)

lemma routing_error_Inr [simp]:
  "\<exists>po. routing_error ev key version mode reason family diag = Inr po \<and> outcome_ok po \<and> po_mode po = mode \<and>
     po_decision po = QuarantineDecision \<and> po_reasons po = [reason]"
  by (simp add: routing_error_def outcome_ok_def)

lemma routing_error_ok [dest]: "routing_error ev key version mode reason family diag = Inr po \<Longrightarrow> outcome_ok po"
  by (simp add: routing_error_def)

lemma passthrough_Inr: "\<exists>po. build_passthrough_outcome E ev key version mode reasons = Inr po \<and> outcome_ok po \<and> po_mode po = mode"
  by (simp add: build_passthrough_outcome_def outcome_ok_def)

lemma run_parser_ok: "\<exists>po. run_parser V rt ev mode r = Inr po \<and> outcome_ok po"
proof -
  have error: "\<exists>po. routing_error ev k v m reason f d = Inr po \<and> outcome_ok po" for k v m reason f d
    using routing_error_Inr by metis
  show ?thesis
    unfolding run_parser_def Let_def
    by (auto split: sum.splits option.splits if_splits elim!: res_bind_InrE dest: parse_event_ok intro: error)
qed

definition config_error :: "py_error \<Rightarrow> bool" where
  "config_error e = (case e of TypeError _ \<Rightarrow> True | ValueError _ \<Rightarrow> True | ValidationError _ \<Rightarrow> True | _ \<Rightarrow> False)"

lemma config_error_simps [simp]:
  "config_error (TypeError s)" "config_error (ValueError s)" "config_error (ValidationError s)"
  by (simp_all add: config_error_def)

lemma res_bind_InlE:
  assumes "res_bind m f = Inl e" and "m = Inl e \<Longrightarrow> P" and "\<And>x. m = Inr x \<Longrightarrow> f x = Inl e \<Longrightarrow> P"
  shows P
  using assms by (cases m) auto

lemma res_all_InlD: "res_all rs = Inl e \<Longrightarrow> Inl e \<in> set rs"
  by (induction rs) (auto split: sum.splits)

lemma pair_of_error: "pair_of v = Inl e \<Longrightarrow> config_error e"
  by (auto simp: pair_of_def split: json.splits list.splits prod.splits)

lemma dict_of_json_error: "dict_of_json v = Inl e \<Longrightarrow> config_error e"
  by (auto simp: dict_of_json_def split: json.splits if_splits elim!: res_bind_InlE dest!: res_all_InlD)
    (metis pair_of_error)

lemma recipe_model_validate_error: "recipe_model_validate V c = Inl e \<Longrightarrow> config_error e"
  by (auto simp: recipe_model_validate_def split: option.splits sum.splits)

lemma normalize_inline_config_error: "normalize_inline_config c = Inl e \<Longrightarrow> config_error e"
  unfolding normalize_inline_config_def
  by (elim res_bind_InlE) (simp_all add: dict_of_json_error split: prod.splits)

lemma inline_recipe_error: "inline_recipe V s key version base raw = Inl e \<Longrightarrow> config_error e"
proof (cases raw)
  case (JObj d)
  assume "inline_recipe V s key version base raw = Inl e"
  then show ?thesis
    unfolding inline_recipe_def JObj json.case
    by (elim res_bind_InlE)
      (auto simp: Let_def dest: recipe_model_validate_error normalize_inline_config_error
        split: option.splits json.splits if_splits)
qed (auto simp: inline_recipe_def)

definition router_ok :: "router \<Rightarrow> bool" where
  "router_ok rt \<longleftrightarrow> dict_get (rt_latest rt) (rt_fallback_key rt) \<noteq> None"

lemma new_router_ok:
  assumes "new_router V recipes src plugins fb = Inr rt"
  shows "router_ok rt"
proof -
  have keep: "rt_fallback_key (fold register_recipe rs x) = rt_fallback_key x" for rs x
    by (induction rs arbitrary: x) (simp_all add: register_recipe_def)
  show ?thesis
    using assms by (auto simp: new_router_def Let_def router_ok_def keep split: if_splits)
qed

lemma resolve_recipe_error: "router_ok rt \<Longrightarrow> resolve_recipe V rt s md = Inl e \<Longrightarrow> config_error e"
  by (auto simp: resolve_recipe_def Let_def router_ok_def elim!: res_bind_InlE
      dest: inline_recipe_error recipe_model_validate_error
      split: option.splits source_binding.splits if_splits)

text \<open>
  Routing never raises, whatever the event, its payload and the plugins do: a router that could be built
  answers an outcome that emits exactly when it has candidates and has a score between 0 and 1; an
  unreadable mode is held back under \<open>active\<close>, and otherwise the outcome has the requested mode.
\<close>

theorem router_parse_total:
  assumes "new_router V recipes src plugins fb = Inr rt"
  shows "\<exists>po. router_parse V rt ev pl = Inr po \<and> outcome_ok po \<and>
    (case parser_mode_of (rv_text V) (get_or (routing_metadata ev pl) ''parser_mode'' JNull) of
       (m, None) \<Rightarrow> po_mode po = m
     | (m, Some e) \<Rightarrow> po_mode po = Active \<and> po_decision po = QuarantineDecision \<and> po_reasons po = [e])"
proof -
  let ?E = "rv_text V" and ?md = "routing_metadata ev pl"
  obtain m err where mode: "parser_mode_of ?E (get_or ?md ''parser_mode'' JNull) = (m, err)" by (metis surj_pair)
  note error = routing_error_Inr [of ev]
  show ?thesis
  proof (cases err)
    case (Some e)
    then show ?thesis using mode error by (simp add: router_parse_def Let_def)
  next
    case None
    show ?thesis
    proof (cases "m = Disabled")
      case True
      then show ?thesis
        using mode None passthrough_Inr [of ?E ev] by (simp add: router_parse_def Let_def)
    next
      case False
      show ?thesis
      proof (cases "resolve_recipe V rt (ev_source_id ev) ?md")
        case (Inl e)
        with resolve_recipe_error [OF new_router_ok [OF assms]] have "config_error e" by blast
        moreover have "\<exists>po. routing_error ev k v m reason f d = Inr po \<and> outcome_ok po \<and> po_mode po = m" for k v reason f d
          using error by blast
        ultimately show ?thesis
          using mode None False Inl by (cases e) (simp_all add: router_parse_def Let_def config_error_def)
      next
        case (Inr x)
        obtain r reasons diag where x: "x = (r, reasons, diag)" by (metis surj_pair)
        obtain po where "run_parser V rt ev m r = Inr po" "outcome_ok po" using run_parser_ok by metis
        then show ?thesis
          using mode None False Inr x by (simp add: router_parse_def Let_def outcome_ok_def)
      qed
    qed
  qed
qed

section \<open>A validated binding is the one that runs\<close>

lemma resolve_recipe_cong:
  assumes "metadata_text (rv_text V) (get_or md1 ''parser_key'' JNull) =
      metadata_text (rv_text V) (get_or md2 ''parser_key'' JNull)"
    and "metadata_text (rv_text V) (get_or md1 ''parser_version'' JNull) =
      metadata_text (rv_text V) (get_or md2 ''parser_version'' JNull)"
    and "get_or md1 ''parser_config'' JNull = get_or md2 ''parser_config'' JNull \<or>
      {get_or md1 ''parser_config'' JNull, get_or md2 ''parser_config'' JNull} \<subseteq> {JNull, JObj []}"
  shows "resolve_recipe V rt s md1 = resolve_recipe V rt s md2"
proof (cases "get_or md1 ''parser_config'' JNull = get_or md2 ''parser_config'' JNull")
  case True
  with assms(1,2) show ?thesis by (simp add: resolve_recipe_def)
next
  case False
  with assms(3) consider "get_or md1 ''parser_config'' JNull = JNull" "get_or md2 ''parser_config'' JNull = JObj []"
    | "get_or md1 ''parser_config'' JNull = JObj []" "get_or md2 ''parser_config'' JNull = JNull" by auto
  then show ?thesis
    by cases (simp_all only: resolve_recipe_def assms(1,2) Let_def json.distinct simp_thms if_False)
qed

lemma get_take_field [simp]:
  "get_or (take_field from f md) k JNull =
     (if k = f \<and> \<not> blank_value (get_or from f JNull) then get_or from f JNull else get_or md k JNull)"
  by (auto simp: take_field_def get_or_def dict_get_put)

lemma get_routing_metadata:
  assumes "dict_get pl ''source_parser'' = None" and "f \<in> set binding_fields"
  shows "get_or (routing_metadata ev pl) f JNull =
    (if \<not> blank_value (get_or pl f JNull) then get_or pl f JNull
     else if \<not> blank_value (get_or (event_binding ev) f JNull) then get_or (event_binding ev) f JNull else JNull)"
proof -
  have nested: "get_or pl ''source_parser'' JNull = JNull" using assms(1) by (simp add: get_or_def)
  have none: "get_or [] k JNull = JNull" for k by (simp add: get_or_def)
  show ?thesis
    using assms(2) by (auto simp: routing_metadata_def nested binding_fields_def none)
qed

lemma parser_mode_of_text [simp]: "parser_mode_of E (JStr (mode_text m)) = (m, None)"
proof -
  have "mode_of_text (lower (strip (mode_text m))) = Some m"
    using normalize_mode_text [of m] by (simp add: normalize_parser_mode_def split: option.splits)
  then show ?thesis by (simp add: parser_mode_of_def null_or_empty_def)
qed

lemma metadata_text_simps [simp]:
  "metadata_text E JNull = None"
  "metadata_text E (JStr t) = (if t = [] then None else Some (strip t))"
  by (simp_all add: metadata_text_def null_or_empty_def)

lemma json_opt_blank [simp]: "blank_value (json_opt t) \<longleftrightarrow> t = None \<or> t = Some []"
  by (cases t) (simp_all add: json_opt_def blank_value_def)

lemma metadata_text_opt: "metadata_text E (json_opt t) = (case t of None \<Rightarrow> None | Some x \<Rightarrow> if x = [] then None else Some (strip x))"
  by (cases t) (simp_all add: json_opt_def)

lemma validated_binding_parses:
  assumes "new_router V recipes src plugins fb = Inr rt" and "ev_parser_mode ev \<noteq> Disabled"
    and "validate_source_parser_binding V rt (ev_source_id ev) (ev_parser_key ev) (ev_parser_version ev)
      (ev_parser_config ev) (JStr (mode_text (ev_parser_mode ev))) = Inr r"
  shows "\<exists>po. router_parse V rt (received_event ev) (to_queue_payload (rv_text V) ev) = Inr po \<and>
    po_parser_key po = rc_parser_key r \<and> po_parser_version po = rc_parser_version r \<and>
    po_parser_family po = rc_family r \<and> po_mode po = ev_parser_mode ev"
proof -
  let ?E = "rv_text V" and ?ev = "received_event ev" and ?pl = "to_queue_payload (rv_text V) ev"
  let ?md = "routing_metadata ?ev ?pl"
  let ?vd = "[(''parser_key'', json_opt (ev_parser_key ev)), (''parser_version'', json_opt (ev_parser_version ev)),
    (''parser_config'', JObj (ev_parser_config ev)), (''parser_mode'', JStr ''active'')]"
  have no_nested: "dict_get ?pl ''source_parser'' = None" by (simp add: to_queue_payload_def)
  note get = get_routing_metadata [OF no_nested, of _ ?ev]
  have names: "''parser_key'' \<in> set binding_fields" "''parser_version'' \<in> set binding_fields"
    "''parser_config'' \<in> set binding_fields" "''parser_mode'' \<in> set binding_fields"
    by (simp_all add: binding_fields_def)
  have sent: "get_or ?pl ''parser_key'' JNull = json_opt (ev_parser_key ev)"
    "get_or ?pl ''parser_version'' JNull = json_opt (ev_parser_version ev)"
    "get_or ?pl ''parser_config'' JNull = JObj (ev_parser_config ev)"
    "get_or ?pl ''parser_mode'' JNull = JStr (mode_text (ev_parser_mode ev))"
    by (simp_all add: to_queue_payload_def get_or_def)
  have own: "get_or (event_binding ?ev) ''parser_key'' JNull = json_opt (normalized_text_opt (ev_parser_key ev))"
    "get_or (event_binding ?ev) ''parser_version'' JNull = json_opt (normalized_text_opt (ev_parser_version ev))"
    "get_or (event_binding ?ev) ''parser_config'' JNull = JObj (ev_parser_config ev)"
    by (simp_all add: event_binding_def received_event_def get_or_def)
  have same: "metadata_text ?E (if \<not> blank_value (json_opt t) then json_opt t
      else if \<not> blank_value (json_opt (normalized_text_opt t)) then json_opt (normalized_text_opt t) else JNull) =
      metadata_text ?E (json_opt t)" for t
    by (cases t) (auto simp: metadata_text_opt normalized_text_opt_def strip_def lstrip_def rstrip_def)
  have asked: "get_or ?vd ''parser_key'' JNull = json_opt (ev_parser_key ev)"
    "get_or ?vd ''parser_version'' JNull = json_opt (ev_parser_version ev)"
    "get_or ?vd ''parser_config'' JNull = JObj (ev_parser_config ev)"
    by (simp_all add: get_or_def)
  have mode: "get_or ?md ''parser_mode'' JNull = JStr (mode_text (ev_parser_mode ev))"
    using get [OF names(4)] sent(4) by (simp add: blank_value_def)
  have "resolve_recipe V rt (ev_source_id ev) ?md = resolve_recipe V rt (ev_source_id ev) ?vd"
  proof (rule resolve_recipe_cong)
    show "metadata_text ?E (get_or ?md ''parser_key'' JNull) = metadata_text ?E (get_or ?vd ''parser_key'' JNull)"
      by (simp only: get [OF names(1)] sent own same asked)
    show "metadata_text ?E (get_or ?md ''parser_version'' JNull) = metadata_text ?E (get_or ?vd ''parser_version'' JNull)"
      by (simp only: get [OF names(2)] sent own same asked)
    show "get_or ?md ''parser_config'' JNull = get_or ?vd ''parser_config'' JNull \<or>
      {get_or ?md ''parser_config'' JNull, get_or ?vd ''parser_config'' JNull} \<subseteq> {JNull, JObj []}"
      using get [OF names(3)] by (simp add: sent own asked blank_value_def)
  qed
  moreover obtain reasons diag where "resolve_recipe V rt (ev_source_id ev) ?vd = Inr (r, reasons, diag)"
    "rc_family r = CustomFamily \<longrightarrow> dict_get (rt_plugins rt) (rc_parser_key r) \<noteq> None"
    "''unknown_parser_key_or_version'' \<notin> set reasons"
    using assms(3) by (auto simp: validate_source_parser_binding_def elim!: res_bind_InrE split: if_splits)
  moreover obtain po where "run_parser V rt ?ev (ev_parser_mode ev) r = Inr po" "outcome_ok po"
    using run_parser_ok by metis
  ultimately show ?thesis
    using mode assms(2) by (simp add: router_parse_def Let_def received_event_def outcome_ok_def)
qed

text \<open>
  A parser binding accepted at configuration time is the one that parses at run time: if the check returned a
  recipe for the binding on an event, then on the other side of the queue the router uses this recipe, whatever
  its parser makes of the event.
\<close>

theorem validated_binding_runs:
  assumes "new_router V recipes src plugins fb = Inr rt" and "ev_parser_mode ev \<noteq> Disabled"
    and "validate_source_parser_binding V rt (ev_source_id ev) (ev_parser_key ev) (ev_parser_version ev)
      (ev_parser_config ev) (JStr (mode_text (ev_parser_mode ev))) = Inr r"
  shows "\<exists>po. router_parse V rt (received_event ev) (to_queue_payload (rv_text V) ev) = Inr po \<and>
    po_parser_key po = rc_parser_key r \<and> po_parser_version po = rc_parser_version r \<and>
    po_parser_family po = rc_family r \<and> po_mode po = ev_parser_mode ev"
  using assms by (rule validated_binding_parses)

text \<open>A router with the built-in recipes only, for concrete runs.\<close>

definition sample_router_env :: router_env where
  "sample_router_env =
     \<lparr>rv_text = sample_env, rv_coerce = (\<lambda>_. None), rv_dump = (\<lambda>_. []), rv_digest_markers = [''xona''],
      rv_mixed_include = [''ijara''], rv_mixed_exclude = [''reklama'']\<rparr>"

definition sample_router :: router where
  "sample_router = fold register_recipe (built_in_recipes sample_router_env)
     \<lparr>rt_recipes = [], rt_latest = [], rt_fallback_key = ''generic.single_listing'', rt_source_recipes = [],
      rt_plugins = []\<rparr>"

lemma sample_router_new: "new_router sample_router_env [] [] [] ''generic.single_listing'' = Inr sample_router"
  by (simp add: new_router_def sample_router_def Let_def built_in_recipes_def register_recipe_def default_recipe_def)

lemma router_parse_total_witness:
  "\<exists>po. router_parse sample_router_env sample_router (sample_event ''k'' ''3 xona'') [(''parser_mode'', JStr ''later'')] =
      Inr po \<and> outcome_ok po"
  using router_parse_total [OF sample_router_new] by blast

lemma validated_binding_runs_witness:
  "\<exists>po. router_parse sample_router_env sample_router
      (received_event ((sample_event ''k'' ''3 xona'')\<lparr>ev_parser_key := Some ''passthrough''\<rparr>))
      (to_queue_payload sample_env ((sample_event ''k'' ''3 xona'')\<lparr>ev_parser_key := Some ''passthrough''\<rparr>)) = Inr po \<and>
    po_parser_key po = ''generic.single_listing'' \<and> po_mode po = Active"
proof -
  let ?ev = "(sample_event ''k'' ''3 xona'')\<lparr>ev_parser_key := Some ''passthrough''\<rparr>"
  obtain r where r: "validate_source_parser_binding sample_router_env sample_router (ev_source_id ?ev) (ev_parser_key ?ev)
      (ev_parser_version ?ev) (ev_parser_config ?ev) (JStr (mode_text (ev_parser_mode ?ev))) = Inr r"
    "rc_parser_key r = ''generic.single_listing''"
    by (rule that [of "hd (built_in_recipes sample_router_env)"]) code_simp+
  have "ev_parser_mode ?ev = Active" by (simp add: sample_event_def)
  moreover have "rv_text sample_router_env = sample_env" by (simp add: sample_router_env_def)
  ultimately show ?thesis
    using validated_binding_runs [OF sample_router_new _ r(1)] r(2) by auto
qed

section \<open>Merging configurations\<close>

fun lookup_path :: "json \<Rightarrow> string list \<Rightarrow> json option" where
  "lookup_path v [] = Some v"
| "lookup_path v (k # ks) = (case v of JObj d \<Rightarrow> Option.bind (dict_get d k) (\<lambda>w. lookup_path w ks) | _ \<Rightarrow> None)"

fun distinct_names :: "json \<Rightarrow> bool" where
  "distinct_names (JObj d) = (dict_ok d \<and> (\<forall>p \<in> set d. distinct_names (snd p)))"
| "distinct_names (JArr xs) = (\<forall>x \<in> set xs. distinct_names x)"
| "distinct_names _ = True"

definition merged_value :: "json option \<Rightarrow> json \<Rightarrow> json" where
  "merged_value old v = (case (old, v) of (Some (JObj b), JObj d) \<Rightarrow> JObj (deep_merge b d) | _ \<Rightarrow> v)"

lemma dict_get_deep_merge:
  "dict_ok d \<Longrightarrow> dict_get (deep_merge b d) k =
     (case dict_get d k of None \<Rightarrow> dict_get b k | Some v \<Rightarrow> Some (merged_value (dict_get b k) v))"
proof (induction d arbitrary: b)
  case (Cons p d)
  obtain k1 v1 where p: "p = (k1, v1)" by (cases p)
  have fresh: "dict_get d k1 = None" and rest: "dict_ok d"
    using Cons.prems by (auto simp: p dict_ok_def map_of_eq_None_iff)
  have step: "deep_merge b (p # d) = deep_merge (dict_put k1 (merged_value (dict_get b k1) v1) b) d"
    by (cases v1) (simp_all add: p merged_value_def split: json.splits option.splits)
  show ?case
    using fresh unfolding step Cons.IH [OF rest]
    by (cases "k = k1") (auto simp: p dict_get_put split: option.split)
qed simp

fun mentions :: "json \<Rightarrow> string list \<Rightarrow> bool" where
  "mentions v [] = True"
| "mentions v (k # ks) =
     (case v of JObj d \<Rightarrow> (case dict_get d k of None \<Rightarrow> False | Some w \<Rightarrow> mentions w ks) | _ \<Rightarrow> True)"

definition leaf_at :: "json \<Rightarrow> string list \<Rightarrow> json option" where
  "leaf_at v p = (case lookup_path v p of Some (JObj d) \<Rightarrow> None | Some x \<Rightarrow> Some x | None \<Rightarrow> None)"

lemma leaf_at_Cons: "leaf_at v (k # ks) = (case v of JObj d \<Rightarrow> Option.bind (dict_get d k) (\<lambda>w. leaf_at w ks) | _ \<Rightarrow> None)"
proof (cases v)
  case (JObj d)
  then show ?thesis by (cases "dict_get d k") (simp_all add: leaf_at_def)
qed (simp_all add: leaf_at_def)

lemma mentions_leaf: "\<not> mentions v p \<Longrightarrow> leaf_at v p = None"
  by (induction v p rule: mentions.induct) (auto simp: leaf_at_Cons split: json.splits option.splits)

text \<open>
  Merging configurations: at every path the merged configuration has the setting of the override if the
  override says anything about the path, and the setting of the base otherwise.
\<close>

theorem deep_merge_paths:
  assumes "distinct_names (JObj d)" and "p \<noteq> []"
  shows "leaf_at (JObj (deep_merge b d)) p = (if mentions (JObj d) p then leaf_at (JObj d) p else leaf_at (JObj b) p)"
  using assms
proof (induction p arbitrary: b d)
  case (Cons k ks)
  have ok: "dict_ok d" using Cons.prems by simp
  show ?case
  proof (cases "dict_get d k")
    case None
    with ok show ?thesis by (simp add: leaf_at_Cons dict_get_deep_merge)
  next
    case (Some v)
    have names: "distinct_names v" using map_of_SomeD [OF Some] Cons.prems(1) by force
    have "leaf_at (merged_value (dict_get b k) v) ks =
      (if mentions v ks then leaf_at v ks else Option.bind (dict_get b k) (\<lambda>w. leaf_at w ks))"
    proof (cases "\<exists>o1 b1. v = JObj o1 \<and> dict_get b k = Some (JObj b1)")
      case True
      then obtain o1 b1 where v: "v = JObj o1" "dict_get b k = Some (JObj b1)" by blast
      then show ?thesis
        using Cons.IH [of o1 b1] names by (cases ks) (auto simp: merged_value_def leaf_at_def)
    next
      case False
      then have "merged_value (dict_get b k) v = v"
        by (cases v) (auto simp: merged_value_def split: option.split json.split)
      moreover have "Option.bind (dict_get b k) (\<lambda>w. leaf_at w ks) = None" if "\<not> mentions v ks"
      proof -
        from that False obtain o1 k1 ks1 where "v = JObj o1" "ks = k1 # ks1" by (cases ks; cases v) auto
        with False show ?thesis by (auto simp: bind_eq_None_conv leaf_at_Cons split: json.split)
      qed
      ultimately show ?thesis using mentions_leaf by auto
    qed
    with Some ok show ?thesis by (simp add: leaf_at_Cons dict_get_deep_merge)
  qed
qed simp

lemma deep_merge_paths_witness:
  "leaf_at (JObj (deep_merge [(''split'', JObj [(''max_candidates'', JNum 9), (''min_segment_chars'', JNum 2)])]
      [(''split'', JObj [(''max_candidates'', JNum 3)])])) [''split'', ''min_segment_chars''] = Some (JNum 2)"
  using deep_merge_paths [of "[(''split'', JObj [(''max_candidates'', JNum 3)])]" "[''split'', ''min_segment_chars'']"
    "[(''split'', JObj [(''max_candidates'', JNum 9), (''min_segment_chars'', JNum 2)])]"]
  by (simp add: dict_ok_def leaf_at_Cons leaf_at_def)

end
