(* ===== verification/EF_Pipeline.thy ===== *)
theory EF_Pipeline
  imports EF_Router EF_Consumer
begin

text \<open>
  The first queue stage: \<open>PreAiIngestionProcessor\<close> (\<open>services/ingestion_pipeline.py\<close>) parses a raw event, publishes
  what is held back, passes every candidate through the pre-AI filter and publishes the rest for extraction.
  The events and payloads of candidates are those of \<open>source_parsing/contracts.py\<close>.
\<close>

section \<open>Candidates on the queue\<close>

fun family_text :: "parser_family \<Rightarrow> string" where
  "family_text SingleListing = ''single_listing''"
| "family_text DigestBlocks = ''digest_blocks''"
| "family_text AlbumCaption = ''album_caption''"
| "family_text MixedFeed = ''mixed_feed''"
| "family_text BufferedThread = ''buffered_thread''"
| "family_text CustomFamily = ''custom''"

fun parse_decision_text :: "parse_decision \<Rightarrow> string" where
  "parse_decision_text EmitDecision = ''emit''"
| "parse_decision_text DropDecision = ''drop''"
| "parse_decision_text BufferDecision = ''buffer''"
| "parse_decision_text QuarantineDecision = ''quarantine''"

fun quality_text :: "quality \<Rightarrow> string" where
  "quality_text HasText = ''has_text''"
| "quality_text HasPhone = ''has_phone''"
| "quality_text HasPrice = ''has_price''"
| "quality_text HasRooms = ''has_rooms''"
| "quality_text HasRealEstateTerms = ''has_real_estate_terms''"
| "quality_text HasMedia = ''has_media''"

fun signal_type_text :: "signal_type \<Rightarrow> string" where
  "signal_type_text ForwardOrigin = ''forward_origin''"
| "signal_type_text TextHash = ''text_hash''"
| "signal_type_text NearText = ''near_text''"
| "signal_type_text SamePhone = ''phone''"
| "signal_type_text PHash = ''phash''"

definition to_event :: "parsed_candidate \<Rightarrow> raw_event \<Rightarrow> bool \<Rightarrow> raw_event res" where
  "to_event c raw force =
     (let isolate = (pc_isolate_source_identity c \<or> force) in
      res_bind (if isolate then fanout_candidate_source_message_id (ev_source_message_id raw) (int (pc_index c))
                else Inr (ev_source_message_id raw)) (\<lambda>message_id.
        Inr (raw\<lparr>ev_idempotency_key := pc_idempotency_key c,
          ev_text := pc_cleaned_text c,
          ev_source_message_id := message_id,
          ev_media := (if pc_include_media c then ev_media raw else []),
          ev_parser_key := Some (pc_parser_key c),
          ev_parser_version := Some (pc_parser_version c),
          ev_parser_diagnostics := dict_update (ev_parser_diagnostics raw) (pc_diagnostics c),
          ev_parser_provenance := dict_update (ev_parser_provenance raw)
            [(''raw_event_id'', JStr (ev_idempotency_key raw)),
             (''candidate_id'', JStr (pc_candidate_id c)),
             (''candidate_index'', JNum (of_nat (pc_index c))),
             (''candidate_source_message_id'', JStr message_id),
             (''raw_source_message_id'', JStr (ev_source_message_id raw)),
             (''raw_source_message_ids'', json_strs (ev_source_message_ids raw)),
             (''raw_source_url'', json_opt (ev_source_url raw)),
             (''raw_forward_metadata'', forward_json (ev_forward_metadata raw)),
             (''source_identity_isolated'', JBool isolate),
             (''source_identity_strategy'', JStr ''raw_message_id+candidate_index''),
             (''source_identity_reorder_sensitive'', JBool isolate)]\<rparr>)))"

definition outcome_audit_payload :: "parse_outcome \<Rightarrow> (string, json) dict" where
  "outcome_audit_payload po =
     [(''decision'', JStr (parse_decision_text (po_decision po))),
      (''parser_key'', JStr (po_parser_key po)),
      (''parser_version'', JStr (po_parser_version po)),
      (''parser_family'', JStr (family_text (po_parser_family po))),
      (''mode'', JStr (mode_text (po_mode po))),
      (''candidate_count'', JNum (of_nat (length (po_candidates po)))),
      (''candidate_ids'', json_strs (map pc_candidate_id (po_candidates po))),
      (''quarantined_candidate_count'', JNum (of_nat (length (po_quarantined_candidates po)))),
      (''quarantined_candidate_ids'', json_strs (map qc_candidate_id (po_quarantined_candidates po))),
      (''reasons'', json_strs (po_reasons po)),
      (''score'', JNum (po_score po)),
      (''diagnostics'', JObj (po_diagnostics po))]"

definition quarantined_audit_payload :: "quarantined_candidate \<Rightarrow> (string, json) dict" where
  "quarantined_audit_payload q =
     [(''candidate_id'', JStr (qc_candidate_id q)), (''candidate_index'', JNum (of_nat (qc_index q))),
      (''reason'', JStr (qc_reason q)), (''score'', JNum (qc_score q))]"

definition to_queue_metadata ::
  "parsed_candidate \<Rightarrow> raw_event \<Rightarrow> nat \<Rightarrow> parse_outcome \<Rightarrow> parse_outcome option \<Rightarrow> (string, json) dict" where
  "to_queue_metadata c raw candidate_count po shadow =
     [(''decision'', JStr (parse_decision_text (po_decision po))),
      (''mode'', JStr (mode_text (po_mode po))),
      (''parser_key'', JStr (pc_parser_key c)),
      (''parser_version'', JStr (pc_parser_version c)),
      (''parser_family'', JStr (family_text (pc_parser_family c))),
      (''candidate_id'', JStr (pc_candidate_id c)),
      (''candidate_index'', JNum (of_nat (pc_index c))),
      (''candidate_count'', JNum (of_nat candidate_count)),
      (''score'', JNum (pc_score c)),
      (''reasons'', json_strs (fromkeys (po_reasons po @ pc_reasons c))),
      (''signals'', json_strs (map quality_text (pc_signals c))),
      (''defaults'', JObj (pc_defaults c)),
      (''required_fields'', json_strs (pc_required_fields c)),
      (''prompt_hints'', json_strs (pc_prompt_hints c)),
      (''diagnostics'', JObj (dict_update (po_diagnostics po) (pc_diagnostics c))),
      (''provenance'', JObj
        [(''raw_event_id'', JStr (ev_idempotency_key raw)),
         (''raw_schema_version'', JStr (ev_schema_version raw)),
         (''raw_text'', json_opt (pc_raw_text c)),
         (''source_id'', JStr (ev_source_id raw)),
         (''source_channel_id'', JStr (ev_source_channel_id raw)),
         (''source_message_id'', JStr (ev_source_message_id raw)),
         (''source_message_ids'', json_strs (ev_source_message_ids raw)),
         (''source_url'', json_opt (ev_source_url raw)),
         (''raw_forward_metadata'', forward_json (ev_forward_metadata raw)),
         (''raw_media'', JArr (map media_json (ev_media raw)))])] @
     (case shadow of None \<Rightarrow> [] | Some s \<Rightarrow> [(''shadow'', JObj (outcome_audit_payload s))])"

definition reference_json :: "raw_event_reference option \<Rightarrow> json" where
  "reference_json r =
     (case r of
        None \<Rightarrow> JNull
      | Some x \<Rightarrow> JObj
          [(''raw_event_id'', JStr (ref_raw_event_id x)), (''source_id'', JStr (ref_source_id x)),
           (''source_channel_id'', JStr (ref_source_channel_id x)),
           (''source_message_id'', JStr (ref_source_message_id x)),
           (''parent_reference'', json_opt (ref_parent_reference x))])"

definition signal_json :: "dedup_signal \<Rightarrow> json" where
  "signal_json s = JObj
     [(''signal_type'', JStr (signal_type_text (sg_type s))), (''matched'', JBool (sg_matched s)),
      (''strength'', JNum (sg_strength s)), (''reason'', JStr (sg_reason s)),
      (''reference'', reference_json (sg_reference s)), (''details'', JObj (sg_details s))]"

definition decision_json :: "pre_ai_decision \<Rightarrow> json" where
  "decision_json d = JObj
     [(''decision'', JStr (decision_text (pd_decision d))), (''should_skip_ai'', JBool (pd_should_skip_ai d)),
      (''reasons'', json_strs (pd_reasons d)), (''signals'', JArr (map signal_json (pd_signals d))),
      (''audit_reference'', reference_json (pd_audit_reference d))]"

section \<open>State\<close>

text \<open>The queue takes a message or raises; the messages it took are kept in order, and so are the metrics.\<close>

record pipeline =
  pl_dedup :: pre_ai_state
  pl_published :: "message list"
  pl_metrics :: "(string \<times> string \<times> rat) list"

record pipeline_env =
  pp_router_env :: router_env
  pp_router :: router
  pp_phash :: "media_reference \<Rightarrow> string option"
  pp_config :: pre_ai_config

abbreviation pp_text :: "pipeline_env \<Rightarrow> text_env" where
  "pp_text P \<equiv> rv_text (pp_router_env P)"

definition SOURCE_PARSER_QUARANTINE_QUEUE :: string where
  "SOURCE_PARSER_QUARANTINE_QUEUE = ''ingestion.source_parser.quarantine''"

definition pipeline_publish :: "(message \<Rightarrow> bool) \<Rightarrow> message \<Rightarrow> pipeline \<Rightarrow> unit res \<times> pipeline" where
  "pipeline_publish accepts m s =
     (if accepts m then (Inr (), s\<lparr>pl_published := pl_published s @ [m]\<rparr>)
      else (Inl (QueuePublishError (queue_name m)), s))"

definition record_metric :: "string \<Rightarrow> string \<Rightarrow> rat \<Rightarrow> pipeline \<Rightarrow> pipeline" where
  "record_metric name key x s = s\<lparr>pl_metrics := pl_metrics s @ [(name, key, x)]\<rparr>"

section \<open>Segments held back\<close>

definition quarantine_message :: "text_env \<Rightarrow> message \<Rightarrow> raw_event \<Rightarrow> parse_outcome \<Rightarrow> quarantined_candidate option \<Rightarrow> message" where
  "quarantine_message E m raw po q =
     (let quarantine_id = join '':'' [''source-parser-quarantine'', ev_idempotency_key raw, po_parser_key po,
            po_parser_version po, case q of Some c \<Rightarrow> qc_candidate_id c | None \<Rightarrow> ''raw-event'']
      in \<lparr>queue_name = SOURCE_PARSER_QUARANTINE_QUEUE,
          payload = JObj (dict_put ''source_parsing_quarantine''
            (JObj (dict_update (outcome_audit_payload po)
              [(''quarantine_id'', JStr quarantine_id),
               (''candidate'', case q of None \<Rightarrow> JNull
                  | Some c \<Rightarrow> JObj (quarantined_audit_payload c @ [(''cleaned_text'', json_opt (qc_cleaned_text c))])),
               (''origin_queue'', JStr (queue_name m))]))
            (to_queue_payload E raw)),
          correlation_id = ev_correlation_id raw,
          metadata = [(''idempotency_key'', JStr quarantine_id), (''source_id'', JStr (ev_source_id raw)),
            (''source_parser_key'', JStr (po_parser_key po)),
            (''source_parser_version'', JStr (po_parser_version po))],
          delivery_token = None\<rparr>)"

fun publish_all :: "(message \<Rightarrow> bool) \<Rightarrow> message list \<Rightarrow> pipeline \<Rightarrow> unit res \<times> pipeline" where
  "publish_all accepts [] s = (Inr (), s)"
| "publish_all accepts (m # ms) s = then_do (pipeline_publish accepts m s) (\<lambda>_. publish_all accepts ms)"

definition held_back :: "parse_outcome \<Rightarrow> quarantined_candidate option list" where
  "held_back po =
     (if po_quarantined_candidates po \<noteq> [] then map Some (po_quarantined_candidates po)
      else if po_decision po = QuarantineDecision then [None] else [])"

definition publish_quarantines ::
  "(message \<Rightarrow> bool) \<Rightarrow> text_env \<Rightarrow> message \<Rightarrow> raw_event \<Rightarrow> parse_outcome \<Rightarrow> pipeline \<Rightarrow> unit res \<times> pipeline" where
  "publish_quarantines accepts E m raw po = publish_all accepts (map (quarantine_message E m raw po) (held_back po))"

section \<open>Candidates\<close>

definition candidate_message ::
  "text_env \<Rightarrow> raw_event \<Rightarrow> raw_event \<Rightarrow> parsed_candidate \<Rightarrow> nat \<Rightarrow> parse_outcome \<Rightarrow> parse_outcome option \<Rightarrow>
   pre_ai_decision \<Rightarrow> message" where
  "candidate_message E raw ev c candidate_count po shadow dec =
     \<lparr>queue_name = AI_PROCESSING_QUEUE,
      payload = JObj (dict_update (to_queue_payload E ev)
        [(''source_parsing'', JObj (to_queue_metadata c raw candidate_count po shadow)),
         (''pre_ai_dedup'', decision_json dec)]),
      correlation_id = ev_correlation_id ev,
      metadata = [(''idempotency_key'', JStr (ev_idempotency_key ev)),
        (''schema_version'', JStr (ev_schema_version ev)),
        (''pre_ai_decision'', JStr (decision_text (pd_decision dec))),
        (''source_parser_key'', JStr (pc_parser_key c)),
        (''source_parser_version'', JStr (pc_parser_version c)),
        (''source_parser_candidate_id'', JStr (pc_candidate_id c))],
      delivery_token = None\<rparr>"

definition lift_dedup :: "(pre_ai_state \<Rightarrow> 'a res \<times> pre_ai_state) \<Rightarrow> pipeline \<Rightarrow> 'a res \<times> pipeline" where
  "lift_dedup f s = (case f (pl_dedup s) of (r, d) \<Rightarrow> (r, s\<lparr>pl_dedup := d\<rparr>))"

definition process_candidate ::
  "pipeline_env \<Rightarrow> (message \<Rightarrow> bool) \<Rightarrow> time \<Rightarrow> raw_event \<Rightarrow> nat \<Rightarrow> parse_outcome \<Rightarrow> parse_outcome option \<Rightarrow>
   parsed_candidate \<Rightarrow> pipeline \<Rightarrow> bool res \<times> pipeline" where
  "process_candidate P accepts now raw candidate_count po shadow c s =
     (let E = pp_text P in
      then_do (to_event c raw (1 < candidate_count), s) (\<lambda>ev.
        \<lambda>s. then_do (lift_dedup (evaluate_event (te_sha256 E) (pp_phash P) (pp_config P) ev) s) (\<lambda>dec.
          if pd_should_skip_ai dec then (\<lambda>s. (Inr False, s))
          else (\<lambda>s. then_do (pipeline_publish accepts (candidate_message E raw ev c candidate_count po shadow dec) s)
            (\<lambda>_ s.
              let s1 = record_metric ''queue_delay_ms'' (''queue_delay:'' @ ev_idempotency_key ev)
                (max 0 (of_int (now - ev_occurred_at ev) / 1000)) s
              in (Inr True, s1\<lparr>pl_dedup := add_signals
                   (build_raw_event_dedup_signals (te_sha256 E) (pp_phash P) ev) (pl_dedup s1)\<rparr>))))))"

fun process_candidates ::
  "pipeline_env \<Rightarrow> (message \<Rightarrow> bool) \<Rightarrow> time \<Rightarrow> raw_event \<Rightarrow> nat \<Rightarrow> parse_outcome \<Rightarrow> parse_outcome option \<Rightarrow>
   parsed_candidate list \<Rightarrow> bool \<Rightarrow> pipeline \<Rightarrow> bool res \<times> pipeline" where
  "process_candidates P accepts now raw n po shadow [] acc s = (Inr acc, s)"
| "process_candidates P accepts now raw n po shadow (c # cs) acc s =
     then_do (process_candidate P accepts now raw n po shadow c s)
       (\<lambda>hit. process_candidates P accepts now raw n po shadow cs (acc \<or> hit))"

section \<open>A raw message\<close>

text \<open>The outcome whose candidates are published: the legacy one in shadow mode and for buffering recipes.\<close>

definition effective_outcome :: "text_env \<Rightarrow> raw_event \<Rightarrow> parse_outcome \<Rightarrow> parse_outcome res" where
  "effective_outcome E raw parsed =
     (if po_mode parsed = Shadow
      then build_passthrough_outcome E raw (po_parser_key parsed) (po_parser_version parsed) Shadow
        [''shadow_legacy_emission'']
      else if po_decision parsed = BufferDecision
      then res_bind (build_passthrough_outcome E raw (po_parser_key parsed) (po_parser_version parsed) Active
          (''buffer_unavailable_fail_open'' # po_reasons parsed)) (\<lambda>po.
        make_outcome (po\<lparr>po_diagnostics :=
          dict_update (po_diagnostics parsed) [(''fail_open_from_decision'', JStr ''buffer'')]\<rparr>))
      else Inr parsed)"

definition record_parser_metric :: "raw_event \<Rightarrow> parse_outcome \<Rightarrow> pipeline \<Rightarrow> pipeline" where
  "record_parser_metric raw po s = record_metric ''source_parser_decision''
     (join '':'' [''source_parser'', ev_idempotency_key raw, po_parser_key po, po_parser_version po,
       mode_text (po_mode po)]) (of_nat (length (po_candidates po))) s"

definition process_raw_queue_message ::
  "pipeline_env \<Rightarrow> (message \<Rightarrow> bool) \<Rightarrow> time \<Rightarrow> message \<Rightarrow> pipeline \<Rightarrow> bool res \<times> pipeline" where
  "process_raw_queue_message P accepts now m s =
     (let E = pp_text P;
          parsed_message = (case payload m of
              JObj d \<Rightarrow> res_bind (from_queue_payload E d) (\<lambda>raw.
                res_bind (router_parse (pp_router_env P) (pp_router P) raw d) (\<lambda>po. Inr (raw, po)))
            | _ \<Rightarrow> Inl (TypeError ''payload''))
      in then_do (parsed_message, s) (\<lambda>(raw, parsed) s.
           let s1 = record_parser_metric raw parsed s
           in then_do (if po_mode parsed = Active then publish_quarantines accepts E m raw parsed s1 else (Inr (), s1))
             (\<lambda>_ s. then_do (effective_outcome E raw parsed, s) (\<lambda>po.
               if po_decision po \<noteq> EmitDecision then (\<lambda>s. (Inr False, s))
               else process_candidates P accepts now raw (length (po_candidates po)) po
                 (if po_mode parsed = Shadow then Some parsed else None) (po_candidates po) False))))"

definition new_pipeline :: pipeline where
  "new_pipeline =
     \<lparr>pl_dedup = \<lparr>st_signals = [], st_audit = [], st_ops = []\<rparr>, pl_published = [], pl_metrics = []\<rparr>"

section \<open>One candidate\<close>

lemma to_event_Inr:
  obtains ev where "to_event c raw force = Inr ev" and "ev_idempotency_key ev = pc_idempotency_key c"
    and "ev_text ev = pc_cleaned_text c" and "ev_media ev = (if pc_include_media c then ev_media raw else [])"
    and "ev_source_id ev = ev_source_id raw" and "ev_forward_metadata ev = ev_forward_metadata raw"
    and "\<not> pc_isolate_source_identity c \<Longrightarrow> \<not> force \<Longrightarrow> ev_source_message_id ev = ev_source_message_id raw"
    and "ev_source_message_ids ev = ev_source_message_ids raw" and "ev_source_url ev = ev_source_url raw"
proof (cases "pc_isolate_source_identity c \<or> force")
  case True
  then show thesis using that by (auto simp: to_event_def Let_def fanout_candidate_source_message_id_def)
next
  case False
  then show thesis using that by (simp add: to_event_def Let_def)
qed

definition ai_messages :: "pipeline \<Rightarrow> message list" where
  "ai_messages s = filter (\<lambda>m. queue_name m = AI_PROCESSING_QUEUE) (pl_published s)"

text \<open>The normalised text of the listing in a message.\<close>

definition ai_text :: "message \<Rightarrow> string" where
  "ai_text m = normalize_listing_text
     (case payload m of JObj d \<Rightarrow> Option.bind (dict_get d ''text'') str_only | _ \<Rightarrow> None)"

abbreviation stored_signals :: "pipeline \<Rightarrow> event_signals list" where
  "stored_signals s \<equiv> st_signals (pl_dedup s)"

abbreviation event_signals_of :: "pipeline_env \<Rightarrow> raw_event \<Rightarrow> event_signals" where
  "event_signals_of P ev \<equiv> build_raw_event_dedup_signals (te_sha256 (pp_text P)) (pp_phash P) ev"

lemma queue_names_differ [simp]: "SOURCE_PARSER_QUARANTINE_QUEUE \<noteq> AI_PROCESSING_QUEUE"
  by (simp add: SOURCE_PARSER_QUARANTINE_QUEUE_def AI_PROCESSING_QUEUE_def)

lemma candidate_message_simps [simp]:
  "queue_name (candidate_message E raw ev c n po shadow dec) = AI_PROCESSING_QUEUE"
  "ai_text (candidate_message E raw ev c n po shadow dec) = normalize_listing_text (ev_text ev)"
  "dict_get (metadata (candidate_message E raw ev c n po shadow dec)) ''idempotency_key'' =
     Some (JStr (ev_idempotency_key ev))"
  by (simp_all add: candidate_message_def ai_text_def to_queue_payload_def json_opt_def str_only_def split: option.split)

lemma pre_ai_duplicate_ex: "pre_ai_duplicate store e \<longleftrightarrow> (\<exists>x \<in> set store. pre_ai_duplicate [x] e)"
  by (auto simp: pre_ai_duplicate_def)

lemma pre_ai_duplicate_mono: "set xs \<subseteq> set ys \<Longrightarrow> pre_ai_duplicate xs e \<Longrightarrow> pre_ai_duplicate ys e"
  by (auto simp: pre_ai_duplicate_def)

lemma pre_ai_duplicate_self: "es_text_hash e \<noteq> None \<Longrightarrow> pre_ai_duplicate [e] e"
  by (auto simp: pre_ai_duplicate_def)

text \<open>What handling one candidate did: it was skipped as a duplicate, published and remembered, or it raised.\<close>

lemma process_candidate_cases:
  assumes "process_candidate P accepts now raw n po shadow c s = (r, s')" and "to_event c raw (1 < n) = Inr ev"
  obtains (skipped) "r = Inr False" "pre_ai_duplicate (stored_signals s) (event_signals_of P ev)"
      "pl_published s' = pl_published s" "stored_signals s' = stored_signals s"
    | (published) dec where "r = Inr True" "\<not> pre_ai_duplicate (stored_signals s) (event_signals_of P ev)"
      "pl_published s' = pl_published s @ [candidate_message (pp_text P) raw ev c n po shadow dec]"
      "stored_signals s' = stored_signals s @ [event_signals_of P ev]"
    | (raised) e where "r = Inl e" "\<not> pre_ai_duplicate (stored_signals s) (event_signals_of P ev)"
      "pl_published s' = pl_published s" "stored_signals s' = stored_signals s"
proof -
  obtain a d where eval: "evaluate_event (te_sha256 (pp_text P)) (pp_phash P) (pp_config P) ev (pl_dedup s) = (a, d)"
    by fastforce
  note res = evaluate_event_result [of "te_sha256 (pp_text P)" "pp_phash P" ev "pp_config P" "pl_dedup s",
    unfolded eval Let_def prod.case]
  show thesis
  proof (cases a)
    case (Inl e)
    then show thesis
      using assms eval res raised by (auto simp: process_candidate_def Let_def lift_dedup_def)
  next
    case (Inr dec)
    show thesis
    proof (cases "pd_should_skip_ai dec")
      case True
      then show thesis
        using assms eval res Inr skipped by (auto simp: process_candidate_def Let_def lift_dedup_def)
    next
      case False
      then show thesis
        using assms eval res Inr raised published
        by (auto simp: process_candidate_def Let_def lift_dedup_def pipeline_publish_def record_metric_def
            add_signals_def split: if_splits)
    qed
  qed
qed

section \<open>Runs of the stage\<close>

definition carries :: "pipeline_env \<Rightarrow> message \<Rightarrow> raw_event \<Rightarrow> bool" where
  "carries P m ev \<longleftrightarrow> (\<exists>raw c n po shadow dec. m = candidate_message (pp_text P) raw ev c n po shadow dec)"

lemma carries_text: "carries P m ev \<Longrightarrow> ai_text m = normalize_listing_text (ev_text ev)"
  by (auto simp: carries_def)

definition pipeline_ok :: "pipeline_env \<Rightarrow> pipeline \<Rightarrow> bool" where
  "pipeline_ok P s \<longleftrightarrow>
     list_all2 (\<lambda>m e. \<exists>ev. carries P m ev \<and> e = event_signals_of P ev) (ai_messages s) (stored_signals s) \<and>
     sorted_wrt (\<lambda>a b. \<not> pre_ai_duplicate [a] b) (stored_signals s)"

lemma pipeline_ok_cong:
  "pl_published s' = pl_published s \<Longrightarrow> stored_signals s' = stored_signals s \<Longrightarrow> pipeline_ok P s \<Longrightarrow> pipeline_ok P s'"
  by (simp add: pipeline_ok_def ai_messages_def)

lemma pipeline_ok_new [simp]: "pipeline_ok P new_pipeline"
  by (simp add: pipeline_ok_def new_pipeline_def ai_messages_def)

lemma pipeline_ok_candidate:
  assumes "pipeline_ok P s" and "process_candidate P accepts now raw n po shadow c s = (r, s')"
  shows "pipeline_ok P s'"
proof -
  obtain ev where ev: "to_event c raw (1 < n) = Inr ev" by (rule to_event_Inr)
  show ?thesis
  proof (rule process_candidate_cases [OF assms(2) ev])
    fix dec
    assume new: "\<not> pre_ai_duplicate (stored_signals s) (event_signals_of P ev)"
      "pl_published s' = pl_published s @ [candidate_message (pp_text P) raw ev c n po shadow dec]"
      "stored_signals s' = stored_signals s @ [event_signals_of P ev]"
    have "ai_messages s' = ai_messages s @ [candidate_message (pp_text P) raw ev c n po shadow dec]"
      using new(2) by (simp add: ai_messages_def)
    moreover have "\<forall>a \<in> set (stored_signals s). \<not> pre_ai_duplicate [a] (event_signals_of P ev)"
      using new(1) pre_ai_duplicate_ex by blast
    moreover have "carries P (candidate_message (pp_text P) raw ev c n po shadow dec) ev"
      unfolding carries_def by blast
    ultimately show ?thesis
      using assms(1) new(3) unfolding pipeline_ok_def by (auto simp: sorted_wrt_append intro!: list_all2_appendI)
  qed (rule pipeline_ok_cong [OF _ _ assms(1)], assumption+)+
qed

lemma pipeline_ok_candidates:
  "pipeline_ok P s \<Longrightarrow> process_candidates P accepts now raw n po shadow cs acc s = (r, s') \<Longrightarrow> pipeline_ok P s'"
proof (induction cs arbitrary: s acc)
  case (Cons c cs)
  obtain a s1 where one: "process_candidate P accepts now raw n po shadow c s = (a, s1)" by fastforce
  note ok = pipeline_ok_candidate [OF Cons.prems(1) one]
  show ?case
  proof (cases a)
    case (Inl e)
    with Cons.prems(2) one ok show ?thesis by simp
  next
    case (Inr hit)
    with Cons.prems(2) one ok Cons.IH [of s1 "acc \<or> hit"] show ?thesis by simp
  qed
qed simp

lemma publish_all_other:
  assumes "publish_all accepts ms s = (r, s')" and "\<forall>m \<in> set ms. queue_name m \<noteq> AI_PROCESSING_QUEUE"
  shows "ai_messages s' = ai_messages s \<and> pl_dedup s' = pl_dedup s"
  using assms
proof (induction ms arbitrary: s)
  case (Cons m ms)
  show ?case
  proof (cases "accepts m")
    case True
    with Cons.prems Cons.IH [of "s\<lparr>pl_published := pl_published s @ [m]\<rparr>"] show ?thesis
      by (simp add: pipeline_publish_def ai_messages_def)
  qed (use Cons.prems in \<open>auto simp: pipeline_publish_def\<close>)
qed simp

lemma publish_quarantines_other:
  assumes "publish_quarantines accepts E m raw po s = (r, s')"
  shows "ai_messages s' = ai_messages s \<and> pl_dedup s' = pl_dedup s"
  using assms unfolding publish_quarantines_def
  by (rule publish_all_other) (auto simp: quarantine_message_def Let_def)

lemma record_metric_simps [simp]:
  "pl_published (record_metric name key x s) = pl_published s" "pl_dedup (record_metric name key x s) = pl_dedup s"
  "ai_messages (record_metric name key x s) = ai_messages s"
  by (simp_all add: record_metric_def ai_messages_def)

lemma record_parser_metric_simps [simp]:
  "pl_published (record_parser_metric raw po s) = pl_published s" "pl_dedup (record_parser_metric raw po s) = pl_dedup s"
  "ai_messages (record_parser_metric raw po s) = ai_messages s"
  by (simp_all add: record_parser_metric_def)

text \<open>The stage up to the candidates: what it decodes, and which outcome is in effect.\<close>

definition staged :: "pipeline_env \<Rightarrow> message \<Rightarrow> (raw_event \<times> parse_outcome \<times> parse_outcome) res" where
  "staged P m =
     (case payload m of
        JObj d \<Rightarrow>
          res_bind (from_queue_payload (pp_text P) d) (\<lambda>raw.
          res_bind (router_parse (pp_router_env P) (pp_router P) raw d) (\<lambda>parsed.
          res_bind (effective_outcome (pp_text P) raw parsed) (\<lambda>po. Inr (raw, parsed, po))))
      | _ \<Rightarrow> Inl (TypeError ''payload''))"

lemma process_raw_cases:
  assumes "process_raw_queue_message P accepts now m s = (r, s')"
  obtains (early) "ai_messages s' = ai_messages s" "pl_dedup s' = pl_dedup s" "\<And>b. r = Inr b \<Longrightarrow> \<not> b"
      "\<And>b raw parsed po. r = Inr b \<Longrightarrow> staged P m = Inr (raw, parsed, po) \<Longrightarrow> po_decision po \<noteq> EmitDecision"
    | (candidates) raw parsed po s1 where "staged P m = Inr (raw, parsed, po)" "po_decision po = EmitDecision"
      "ai_messages s1 = ai_messages s" "pl_dedup s1 = pl_dedup s"
      "process_candidates P accepts now raw (length (po_candidates po)) po
         (if po_mode parsed = Shadow then Some parsed else None) (po_candidates po) False s1 = (r, s')"
proof (cases "payload m")
  case (JObj d)
  show thesis
  proof (cases "from_queue_payload (pp_text P) d")
    case (Inl e)
    show thesis
      by (rule early) (use assms JObj Inl in \<open>auto simp: process_raw_queue_message_def Let_def staged_def\<close>)
  next
    case raw: (Inr raw)
    show thesis
    proof (cases "router_parse (pp_router_env P) (pp_router P) raw d")
      case (Inl e)
      show thesis
        by (rule early) (use assms JObj raw Inl in \<open>auto simp: process_raw_queue_message_def Let_def staged_def\<close>)
    next
      case parsed: (Inr parsed)
      let ?s1 = "record_parser_metric raw parsed s"
      obtain q s2 where held: "(if po_mode parsed = Active then publish_quarantines accepts (pp_text P) m raw parsed ?s1
          else (Inr (), ?s1)) = (q, s2)" by fastforce
      then have same: "ai_messages s2 = ai_messages s" "pl_dedup s2 = pl_dedup s"
        using publish_quarantines_other by (fastforce split: if_splits)+
      show thesis
      proof (cases q)
        case (Inl e)
        show thesis
          by (rule early) (use assms JObj raw parsed held same Inl in \<open>auto simp: process_raw_queue_message_def Let_def staged_def\<close>)
      next
        case q: (Inr u)
        show thesis
        proof (cases "effective_outcome (pp_text P) raw parsed")
          case (Inl e)
          show thesis
            by (rule early) (use assms JObj raw parsed held same q Inl in \<open>auto simp: process_raw_queue_message_def Let_def staged_def\<close>)
        next
          case (Inr po)
          show thesis
          proof (cases "po_decision po = EmitDecision")
            case True
            show thesis
              by (rule candidates [of raw parsed po s2])
                (use assms JObj raw parsed held same q Inr True in \<open>simp_all add: process_raw_queue_message_def Let_def staged_def\<close>)
          next
            case False
            show thesis
              by (rule early) (use assms JObj raw parsed held same q Inr False in \<open>auto simp: process_raw_queue_message_def Let_def staged_def\<close>)
          qed
        qed
      qed
    qed
  qed
qed (rule early; use assms in \<open>auto simp: process_raw_queue_message_def Let_def staged_def\<close>)+

lemma pipeline_ok_message:
  assumes "pipeline_ok P s" and "process_raw_queue_message P accepts now m s = (r, s')"
  shows "pipeline_ok P s'"
  using assms(2)
proof (cases rule: process_raw_cases)
  case early
  with assms(1) show ?thesis by (simp add: pipeline_ok_def)
next
  case (candidates raw parsed po s1)
  with assms(1) have "pipeline_ok P s1" by (simp add: pipeline_ok_def)
  from pipeline_ok_candidates [OF this candidates(5)] show ?thesis .
qed

text \<open>Messages arrive in any order, any number of times, and the queue takes or refuses whatever it wants.\<close>

fun run_stage_on :: "pipeline_env \<Rightarrow> ((message \<Rightarrow> bool) \<times> time \<times> message) list \<Rightarrow> pipeline \<Rightarrow> pipeline" where
  "run_stage_on P [] s = s"
| "run_stage_on P ((accepts, now, m) # rest) s = run_stage_on P rest (snd (process_raw_queue_message P accepts now m s))"

lemma pipeline_ok_run: "pipeline_ok P s \<Longrightarrow> pipeline_ok P (run_stage_on P ms s)"
proof (induction ms arbitrary: s)
  case (Cons x ms)
  obtain accepts now m where x: "x = (accepts, now, m)" by (cases x)
  obtain r s1 where "process_raw_queue_message P accepts now m s = (r, s1)" by fastforce
  with Cons pipeline_ok_message [of P s] x show ?case by fastforce
qed simp

lemma distinct_non_empty:
  "sorted_wrt (\<lambda>x y. x = y \<longrightarrow> x = []) xs \<Longrightarrow> distinct (filter (\<lambda>t. t \<noteq> []) xs)"
  by (induction xs) auto

lemma pipeline_ok_events:
  assumes "pipeline_ok P s"
  obtains evs where "list_all2 (carries P) (ai_messages s) evs" and "stored_signals s = map (event_signals_of P) evs"
proof -
  have "\<exists>evs. list_all2 (carries P) ms evs \<and> es = map (event_signals_of P) evs"
    if "list_all2 (\<lambda>m e. \<exists>ev. carries P m ev \<and> e = event_signals_of P ev) ms es" for ms es
    using that
  proof (induction rule: list_all2_induct)
    case (Cons m ms e es)
    then obtain ev evs where "carries P m ev" "e = event_signals_of P ev" "list_all2 (carries P) ms evs"
      "es = map (event_signals_of P) evs" by blast
    then show ?case by (intro exI [of _ "ev # evs"]) simp
  qed simp
  with assms that show thesis unfolding pipeline_ok_def by blast
qed

text \<open>Two events of which the later one does not repeat the earlier.\<close>

lemma not_repeated:
  assumes "\<not> pre_ai_duplicate [event_signals_of P ev1] (event_signals_of P ev2)"
  shows "normalize_listing_text (ev_text ev2) \<noteq> [] \<Longrightarrow>
      normalize_listing_text (ev_text ev1) \<noteq> normalize_listing_text (ev_text ev2)"
    and "forward_origin_key (ev_forward_metadata ev2) \<noteq> None \<Longrightarrow>
      forward_origin_key (ev_forward_metadata ev1) = forward_origin_key (ev_forward_metadata ev2) \<Longrightarrow>
      are_fanout_sibling_references (es_reference (event_signals_of P ev2)) (es_reference (event_signals_of P ev1))"
  using assms by (auto simp: pre_ai_duplicate_def build_raw_event_dedup_signals_def Let_def split: if_splits)

text \<open>
  C15. No listing is sent to the language model twice: whatever messages arrive, however often they are redelivered and
  whenever publishing fails, each message on the extraction queue carries an event of its own whose signals were stored, the
  normalised texts of the messages are distinct (apart from listings without text), and two messages of the same forward
  origin are parts of one and the same raw message.
\<close>

theorem ai_queue_never_repeats:
  "\<exists>evs. list_all2 (carries P) (ai_messages (run_stage_on P ms new_pipeline)) evs \<and>
     stored_signals (run_stage_on P ms new_pipeline) = map (event_signals_of P) evs \<and>
     distinct (filter (\<lambda>t. t \<noteq> []) (map ai_text (ai_messages (run_stage_on P ms new_pipeline)))) \<and>
     (\<forall>j < length evs. \<forall>i < j. forward_origin_key (ev_forward_metadata (evs ! j)) \<noteq> None \<longrightarrow>
        forward_origin_key (ev_forward_metadata (evs ! i)) = forward_origin_key (ev_forward_metadata (evs ! j)) \<longrightarrow>
        are_fanout_sibling_references (es_reference (event_signals_of P (evs ! j))) (es_reference (event_signals_of P (evs ! i))))"
proof -
  let ?s = "run_stage_on P ms new_pipeline"
  have ok: "pipeline_ok P ?s" by (rule pipeline_ok_run) simp
  from pipeline_ok_events [OF ok] obtain evs where evs: "list_all2 (carries P) (ai_messages ?s) evs"
    "stored_signals ?s = map (event_signals_of P) evs" .
  have fresh: "\<not> pre_ai_duplicate [event_signals_of P (evs ! i)] (event_signals_of P (evs ! j))"
    if "i < j" "j < length evs" for i j
    using ok evs(2) that by (simp add: pipeline_ok_def sorted_wrt_iff_nth_less)
  have texts: "map ai_text (ai_messages ?s) = map (\<lambda>ev. normalize_listing_text (ev_text ev)) evs"
    using evs(1) by (induction rule: list_all2_induct) (simp_all add: carries_text)
  have "sorted_wrt (\<lambda>x y. x = y \<longrightarrow> x = []) (map ai_text (ai_messages ?s))"
    unfolding texts using not_repeated(1) [OF fresh] by (fastforce simp: sorted_wrt_map sorted_wrt_iff_nth_less)
  from distinct_non_empty [OF this] evs not_repeated(2) [OF fresh] show ?thesis by blast
qed

section \<open>Redelivery\<close>

lemma process_candidates_covers:
  "process_candidates P accepts now raw n po shadow cs acc s = (Inr b, s') \<Longrightarrow>
   set (stored_signals s) \<subseteq> set (stored_signals s') \<and>
   (\<forall>c \<in> set cs. \<forall>ev. to_event c raw (1 < n) = Inr ev \<longrightarrow> normalize_listing_text (ev_text ev) \<noteq> [] \<longrightarrow>
     pre_ai_duplicate (stored_signals s') (event_signals_of P ev))"
proof (induction cs arbitrary: s acc)
  case (Cons c cs)
  obtain a s1 where one: "process_candidate P accepts now raw n po shadow c s = (a, s1)" by fastforce
  then obtain hit where a: "a = Inr hit" using Cons.prems by (cases a) simp_all
  with Cons.prems one have rest: "process_candidates P accepts now raw n po shadow cs (acc \<or> hit) s1 = (Inr b, s')" by simp
  note later = Cons.IH [OF rest]
  obtain ev where ev: "to_event c raw (1 < n) = Inr ev" by (rule to_event_Inr)
  have hash: "normalize_listing_text (ev_text ev) \<noteq> [] \<Longrightarrow> es_text_hash (event_signals_of P ev) \<noteq> None"
    by (simp add: build_raw_event_dedup_signals_def Let_def)
  have now: "set (stored_signals s) \<subseteq> set (stored_signals s1) \<and>
      (normalize_listing_text (ev_text ev) \<noteq> [] \<longrightarrow> pre_ai_duplicate (stored_signals s1) (event_signals_of P ev))"
  proof (rule process_candidate_cases [OF one ev])
    fix dec
    assume grown: "stored_signals s1 = stored_signals s @ [event_signals_of P ev]"
    have "pre_ai_duplicate (stored_signals s1) (event_signals_of P ev)"
      if "pre_ai_duplicate [event_signals_of P ev] (event_signals_of P ev)"
      using that by (rule pre_ai_duplicate_mono [rotated]) (simp add: grown)
    moreover have "set (stored_signals s) \<subseteq> set (stored_signals s1)" by (auto simp: grown)
    ultimately show ?thesis using hash pre_ai_duplicate_self by blast
  qed (use a in auto)
  have "pre_ai_duplicate (stored_signals s') (event_signals_of P ev)" if "normalize_listing_text (ev_text ev) \<noteq> []"
    using now later that pre_ai_duplicate_mono [of "stored_signals s1" "stored_signals s'"] by blast
  with now later ev show ?case by auto
qed simp

lemma process_candidates_duplicates:
  "(\<And>c ev. c \<in> set cs \<Longrightarrow> to_event c raw (1 < n) = Inr ev \<Longrightarrow> pre_ai_duplicate (stored_signals s) (event_signals_of P ev)) \<Longrightarrow>
   process_candidates P accepts now raw n po shadow cs acc s = (r, s') \<Longrightarrow>
   r = Inr acc \<and> ai_messages s' = ai_messages s \<and> stored_signals s' = stored_signals s"
proof (induction cs arbitrary: s acc)
  case (Cons c cs)
  obtain a s1 where one: "process_candidate P accepts now raw n po shadow c s = (a, s1)" by fastforce
  obtain ev where ev: "to_event c raw (1 < n) = Inr ev" by (rule to_event_Inr)
  have "a = Inr False \<and> pl_published s1 = pl_published s \<and> stored_signals s1 = stored_signals s"
    using Cons.prems(1) [OF _ ev] by (rule_tac process_candidate_cases [OF one ev]) simp_all
  moreover from this have "r = Inr acc \<and> ai_messages s' = ai_messages s1 \<and> stored_signals s' = stored_signals s1"
    using Cons.prems one by (intro Cons.IH) auto
  ultimately show ?case by (simp add: ai_messages_def)
qed simp

text \<open>
  Redelivery is harmless: once a raw message was handled without an exception, handling it again publishes
  no listing that has text, with any answer of the queue.
\<close>

theorem redelivery_publishes_nothing:
  assumes "process_raw_queue_message P accepts now m s = (Inr b, s')"
    and "staged P m = Inr (raw, parsed, po)"
    and "\<And>c. c \<in> set (po_candidates po) \<Longrightarrow> normalize_listing_text (pc_cleaned_text c) \<noteq> []"
    and "process_raw_queue_message P accepts' now' m s' = (r, s'')"
  shows "ai_messages s'' = ai_messages s' \<and> st_signals (pl_dedup s'') = st_signals (pl_dedup s') \<and> r \<noteq> Inr True"
  using assms(4)
proof (cases rule: process_raw_cases)
  case early
  then show ?thesis by auto
next
  case (candidates raw2 parsed2 po2 s2)
  with assms(2) have same: "raw2 = raw" "parsed2 = parsed" "po2 = po" "po_decision po = EmitDecision" by simp_all
  have covered: "pre_ai_duplicate (stored_signals s') (event_signals_of P ev)"
    if "c \<in> set (po_candidates po)" "to_event c raw (1 < length (po_candidates po)) = Inr ev" for c ev
    using assms(1)
  proof (cases rule: process_raw_cases)
    case early
    with assms(2) same show ?thesis by auto
  next
    case (candidates raw1 parsed1 po1 s1)
    with assms(2) have here: "raw1 = raw" "po1 = po" by simp_all
    have "ev_text ev = pc_cleaned_text c" by (rule to_event_Inr [of c raw "1 < length (po_candidates po)"]) (use that(2) in auto)
    with assms(3) [OF that(1)] process_candidates_covers [OF candidates(5)] that here show ?thesis by auto
  qed
  have "r = Inr False \<and> ai_messages s'' = ai_messages s2 \<and> stored_signals s'' = stored_signals s2"
    using candidates(4,5) covered unfolding same by (intro process_candidates_duplicates) simp_all
  with candidates(3,4) show ?thesis by simp
qed

section \<open>Shadow mode\<close>

lemma router_parse_disabled:
  assumes "router_parse V rt ev pl = Inr po" and "po_mode po = Disabled"
  shows "\<exists>key version. build_passthrough_outcome (rv_text V) ev key version Disabled [''source_parser_disabled''] = Inr po"
proof (cases "parser_mode_of (rv_text V) (get_or (routing_metadata ev pl) ''parser_mode'' JNull)")
  case (Pair mode err)
  then show ?thesis
    using assms unfolding router_parse_def Let_def
    by (auto simp: routing_error_def split: option.splits if_splits sum.splits py_error.splits elim!: res_bind_InrE)
qed

text \<open>
  A parser in shadow or disabled mode cannot change what the language model sees: at most one message is
  published, nothing is held back, and the message carries the key, text, media and message identity of the
  raw event.
\<close>

theorem shadow_mode_is_legacy:
  assumes "payload m = JObj d" and "from_queue_payload (pp_text P) d = Inr raw"
    and "router_parse (pp_router_env P) (pp_router P) raw d = Inr parsed" and "po_mode parsed \<noteq> Active"
    and "process_raw_queue_message P accepts now m s = (r, s')"
  shows "pl_published s' = pl_published s \<or>
    (\<exists>ev c po dec. pl_published s' = pl_published s @
       [candidate_message (pp_text P) raw ev c 1 po (if po_mode parsed = Shadow then Some parsed else None) dec] \<and>
     ev_idempotency_key ev = ev_idempotency_key raw \<and> ev_text ev = ev_text raw \<and> ev_media ev = ev_media raw \<and>
     ev_source_message_id ev = ev_source_message_id raw)"
proof -
  obtain po c where po: "effective_outcome (pp_text P) raw parsed = Inr po" "po_decision po = EmitDecision"
    "po_candidates po = [c]" "pc_idempotency_key c = ev_idempotency_key raw" "pc_cleaned_text c = ev_text raw"
    "pc_include_media c" "\<not> pc_isolate_source_identity c"
  proof (cases "po_mode parsed = Shadow")
    case True
    then show thesis using that by (simp add: effective_outcome_def build_passthrough_outcome_def outcome_ok_def)
  next
    case False
    with assms(4) have "po_mode parsed = Disabled" by (cases "po_mode parsed") simp_all
    from router_parse_disabled [OF assms(3) this] False show thesis
      using that by (auto simp: effective_outcome_def build_passthrough_outcome_def)
  qed
  let ?s1 = "record_parser_metric raw parsed s"
  have run: "process_raw_queue_message P accepts now m s =
      process_candidates P accepts now raw 1 po (if po_mode parsed = Shadow then Some parsed else None) [c] False ?s1"
    using assms(1-4) po by (simp add: process_raw_queue_message_def Let_def)
  obtain ev where ev: "to_event c raw (1 < (1::nat)) = Inr ev" "ev_idempotency_key ev = ev_idempotency_key raw"
    "ev_text ev = ev_text raw" "ev_media ev = ev_media raw" "ev_source_message_id ev = ev_source_message_id raw"
    using po by (rule_tac to_event_Inr [of c raw "1 < (1::nat)"]) auto
  obtain a s2 where one: "process_candidate P accepts now raw 1 po
      (if po_mode parsed = Shadow then Some parsed else None) c ?s1 = (a, s2)" by fastforce
  then have "s' = s2" using assms(5) run by (cases a) simp_all
  from one ev(1) show ?thesis
    by (rule process_candidate_cases) (use ev \<open>s' = s2\<close> in auto)
qed

section \<open>Concrete runs\<close>

definition sample_pipeline_env :: pipeline_env where
  "sample_pipeline_env =
     \<lparr>pp_router_env = sample_router_env, pp_router = sample_router, pp_phash = (\<lambda>_. None),
      pp_config = \<lparr>near_text_threshold = 88 / 100, phash_hamming_threshold = 8\<rparr>\<rparr>"

definition sample_raw_message :: "parser_mode \<Rightarrow> message" where
  "sample_raw_message mode =
     \<lparr>queue_name = RAW_ANNOUNCEMENT_QUEUE,
      payload = JObj (to_queue_payload sample_env ((sample_event ''k'' ''3 xona'')\<lparr>ev_parser_mode := mode\<rparr>)),
      correlation_id = ''corr'', metadata = [], delivery_token = None\<rparr>"

lemma sample_text: "normalize_listing_text (Some ''3 xona'') = ''3 xona''"
  by code_simp

lemma sample_run:
  "fst (process_raw_queue_message sample_pipeline_env (\<lambda>_. True) 0 (sample_raw_message Active) new_pipeline) = Inr True"
  by code_simp

lemma sample_staged:
  "case staged sample_pipeline_env (sample_raw_message Active) of
     Inr (raw, parsed, po) \<Rightarrow> map pc_cleaned_text (po_candidates po) = [Some ''3 xona''] | Inl _ \<Rightarrow> False"
  by code_simp

lemma redelivery_publishes_nothing_witness:
  "\<exists>s' r s''. process_raw_queue_message sample_pipeline_env (\<lambda>_. True) 0 (sample_raw_message Active) new_pipeline =
      (Inr True, s') \<and>
    process_raw_queue_message sample_pipeline_env (\<lambda>_. False) 9 (sample_raw_message Active) s' = (r, s'') \<and>
    ai_messages s'' = ai_messages s'"
proof -
  obtain s' where first: "process_raw_queue_message sample_pipeline_env (\<lambda>_. True) 0 (sample_raw_message Active) new_pipeline =
      (Inr True, s')" using sample_run by (metis prod.collapse)
  obtain r s'' where again: "process_raw_queue_message sample_pipeline_env (\<lambda>_. False) 9 (sample_raw_message Active) s' = (r, s'')"
    by fastforce
  obtain raw parsed po where staged: "staged sample_pipeline_env (sample_raw_message Active) = Inr (raw, parsed, po)"
    and cands: "map pc_cleaned_text (po_candidates po) = [Some ''3 xona'']"
    using sample_staged by (auto split: sum.splits)
  have "normalize_listing_text (pc_cleaned_text c) \<noteq> []" if "c \<in> set (po_candidates po)" for c
    using cands that sample_text by (auto simp: map_eq_Cons_conv)
  from redelivery_publishes_nothing [OF first staged this again] first again show ?thesis by auto
qed

lemma sample_twice:
  "map ai_text (ai_messages (run_stage_on sample_pipeline_env
     [(\<lambda>_. True, 0, sample_raw_message Active), (\<lambda>_. True, 9, sample_raw_message Active)] new_pipeline)) = [''3 xona'']"
  by code_simp

lemma ai_queue_never_repeats_witness:
  "\<exists>ev. stored_signals (run_stage_on sample_pipeline_env
       [(\<lambda>_. True, 0, sample_raw_message Active), (\<lambda>_. True, 9, sample_raw_message Active)] new_pipeline) =
       [event_signals_of sample_pipeline_env ev] \<and>
     normalize_listing_text (ev_text ev) = ''3 xona''"
proof -
  let ?s = "run_stage_on sample_pipeline_env
       [(\<lambda>_. True, 0, sample_raw_message Active), (\<lambda>_. True, 9, sample_raw_message Active)] new_pipeline"
  obtain evs where evs: "list_all2 (carries sample_pipeline_env) (ai_messages ?s) evs"
    "stored_signals ?s = map (event_signals_of sample_pipeline_env) evs"
    using ai_queue_never_repeats by blast
  obtain m where "ai_messages ?s = [m]" "ai_text m = ''3 xona''"
    using sample_twice by (auto simp: map_eq_Cons_conv)
  with evs show ?thesis by (auto simp: list_all2_Cons1 carries_text [symmetric])
qed

lemma sample_shadow:
  "case from_queue_payload sample_env (to_queue_payload sample_env ((sample_event ''k'' ''3 xona'')\<lparr>ev_parser_mode := Shadow\<rparr>)) of
     Inr raw \<Rightarrow>
       (case router_parse sample_router_env sample_router raw
           (to_queue_payload sample_env ((sample_event ''k'' ''3 xona'')\<lparr>ev_parser_mode := Shadow\<rparr>)) of
          Inr po \<Rightarrow> po_mode po = Shadow | Inl _ \<Rightarrow> False)
   | Inl _ \<Rightarrow> False"
  by code_simp

lemma shadow_mode_is_legacy_witness:
  "length (pl_published (snd (process_raw_queue_message sample_pipeline_env (\<lambda>_. True) 0 (sample_raw_message Shadow)
     new_pipeline))) \<le> 1"
proof -
  let ?m = "sample_raw_message Shadow"
  let ?d = "to_queue_payload sample_env ((sample_event ''k'' ''3 xona'')\<lparr>ev_parser_mode := Shadow\<rparr>)"
  have env: "pp_router_env sample_pipeline_env = sample_router_env" "pp_router sample_pipeline_env = sample_router"
    "rv_text sample_router_env = sample_env"
    by (simp_all add: sample_pipeline_env_def sample_router_env_def)
  have m: "payload ?m = JObj ?d" by (simp add: sample_raw_message_def)
  obtain raw parsed where raw: "from_queue_payload sample_env ?d = Inr raw"
    and parsed: "router_parse sample_router_env sample_router raw ?d = Inr parsed" "po_mode parsed \<noteq> Active"
    using sample_shadow by (auto split: sum.splits)
  obtain r s' where run: "process_raw_queue_message sample_pipeline_env (\<lambda>_. True) 0 ?m new_pipeline = (r, s')"
    by fastforce
  from shadow_mode_is_legacy [OF m _ _ parsed(2) run, unfolded env, OF raw parsed(1)] run show ?thesis
    by (auto simp: new_pipeline_def)
qed

end
