(* ===== verification/EF_LlmClient.thy ===== *)
theory EF_LlmClient
  imports EF_RawEvent "HOL-Library.Product_Lexorder"
begin

text \<open>
  Asking the language models: \<open>services/ai_client.py\<close>. The client asks the configured models in order until an answer
  is good enough, and falls back to the best usable one. What a provider answers is an argument, as are the
  validator of the request, the decoder of JSON text and of numbers in text, and the measured latencies.
\<close>

section \<open>Requests and answers\<close>

datatype validation = ValidationRaised | ValidatedAs "(string, json) dict" | ValidatedOther

record llm_request =
  rq_min_confidence :: rat
  rq_listing_quality :: bool
  rq_required_listing_fields :: "string list"
  rq_schema_required :: "string list"
  rq_schema_properties :: "string list option"
  rq_validator :: "((string, json) dict \<Rightarrow> validation) option"

record llm_response =
  rs_model :: string
  rs_content :: "(string, json) dict"
  rs_confidence :: rat
  rs_usage :: "(string, json) dict"
  rs_provider_request_id :: "string option"

type_synonym quality_rank = "nat \<times> nat \<times> nat \<times> nat \<times> rat"

record fallback_decision =
  fd_should_retry :: bool
  fd_returnable :: bool
  fd_status :: string
  fd_reason :: string
  fd_quality_rank :: quality_rank

record llm_attempt =
  la_model :: string
  la_fallback_stage :: nat
  la_latency_ms :: int
  la_status :: string
  la_error_type :: "string option"
  la_error_reason :: "string option"
  la_usage :: "(string, json) dict"
  la_provider_request_id :: "string option"
  la_decision_reason :: "string option"
  la_selected :: bool
  la_selection_reason :: "string option"
  la_fallback_trigger_reason :: "string option"

text \<open>What asking one model gives: an answer, a transport error, another \<open>LLMError\<close>, or any other exception.\<close>

datatype llm_answer =
    Answered llm_response
  | TransportError string bool
  | MalformedResponse string
  | OtherLlmError string string
  | OtherRaised py_error

section \<open>The provider\<close>

datatype http_outcome =
    HttpTimeout
  | HttpClientError string
  | HttpResponse int string "json option"

text \<open>\<open>float(x)\<close> of a decoded value; \<open>None\<close> is an exception \<open>parse_openrouter_response\<close> catches.\<close>

definition json_float :: "(string \<Rightarrow> rat option) \<Rightarrow> json \<Rightarrow> rat option" where
  "json_float float_of v =
     (case v of JNum r \<Rightarrow> Some r | JBool b \<Rightarrow> Some (if b then 1 else 0) | JStr s \<Rightarrow> float_of s | _ \<Rightarrow> None)"

definition json_item :: "json \<Rightarrow> string \<Rightarrow> json option" where
  "json_item v k = (case v of JObj d \<Rightarrow> dict_get d k | _ \<Rightarrow> None)"

text \<open>
  The body is read as \<open>body["choices"][0]["message"]["content"]\<close>; the handler for the caught exceptions
  itself calls \<open>body.get\<close>, which a body that is not an object does not have.
\<close>

definition parse_openrouter_response ::
  "text_env \<Rightarrow> (string \<Rightarrow> json option) \<Rightarrow> (string \<Rightarrow> rat option) \<Rightarrow> json \<Rightarrow> llm_answer" where
  "parse_openrouter_response E loads float_of body =
     (case body of
        JObj d \<Rightarrow>
          (let malformed = MalformedResponse (''Malformed OpenRouter response id='' @
                 (case dict_get d ''id'' of Some (JStr i) \<Rightarrow> i | _ \<Rightarrow> ''unknown'') @ '' model='' @
                 (case dict_get d ''model'' of Some (JStr m) \<Rightarrow> m | _ \<Rightarrow> ''unknown''));
               raw = Option.bind (dict_get d ''choices'') (\<lambda>choices.
                 Option.bind (case choices of JArr (c # _) \<Rightarrow> Some c | _ \<Rightarrow> None) (\<lambda>choice.
                 Option.bind (json_item choice ''message'') (\<lambda>m. json_item m ''content'')));
               content = Option.bind raw (\<lambda>v. case v of JStr s \<Rightarrow> loads s | _ \<Rightarrow> Some v)
           in case content of
                Some (JObj c) \<Rightarrow>
                  (case json_float float_of (get_or c ''confidence'' (JNum 0)) of
                     None \<Rightarrow> malformed
                   | Some confidence \<Rightarrow> Answered
                       \<lparr>rs_model = (let m = get_or d ''model'' JNull in if falsy m then [] else py_str E m), rs_content = c,
                        rs_confidence = confidence, rs_usage = payload_object (get_or d ''usage'' JNull),
                        rs_provider_request_id = str_only (get_or d ''id'' JNull)\<rparr>)
              | _ \<Rightarrow> malformed)
      | _ \<Rightarrow> OtherRaised (AttributeError ''get''))"

definition openrouter_complete ::
  "text_env \<Rightarrow> (string \<Rightarrow> json option) \<Rightarrow> (string \<Rightarrow> rat option) \<Rightarrow> http_outcome \<Rightarrow> llm_answer" where
  "openrouter_complete E loads float_of h =
     (case h of
        HttpTimeout \<Rightarrow> TransportError ''OpenRouter timeout'' True
      | HttpClientError class_name \<Rightarrow> TransportError class_name True
      | HttpResponse status detail body \<Rightarrow>
          if status \<in> {408, 409, 425, 429} \<or> 500 \<le> status
          then TransportError (''OpenRouter HTTP '' @ str_int status @ detail) True
          else if 400 \<le> status then TransportError (''OpenRouter HTTP '' @ str_int status @ detail) False
          else (case body of
              None \<Rightarrow> OtherRaised (ValueError ''JSONDecodeError'')
            | Some b \<Rightarrow> parse_openrouter_response E loads float_of b))"

section \<open>Judging an answer\<close>

definition has_meaningful_value :: "json \<Rightarrow> bool" where
  "has_meaningful_value v =
     (case v of JNull \<Rightarrow> False | JStr s \<Rightarrow> strip s \<noteq> [] | JArr xs \<Rightarrow> xs \<noteq> [] | JObj d \<Rightarrow> d \<noteq> [] | _ \<Rightarrow> True)"

definition listing_core_signal_fields :: "string list" where
  "listing_core_signal_fields =
     [''price'', ''rooms'', ''area_sqm'', ''district'', ''address'', ''phone_numbers'', ''floor'', ''total_floors'']"

definition validated_response_content ::
  "llm_request \<Rightarrow> (string, json) dict \<Rightarrow> (string, json) dict \<times> string option" where
  "validated_response_content rq content =
     (if list_ex (\<lambda>f. dict_get content f = None) (rq_schema_required rq)
      then (content, Some ''schema_required_field_missing'')
      else if (case rq_schema_properties rq of None \<Rightarrow> False
        | Some props \<Rightarrow> list_ex (\<lambda>k. k \<notin> set props) (dict_keys content))
      then (content, Some ''schema_unknown_field'')
      else (case rq_validator rq of
          None \<Rightarrow> (content, None)
        | Some validate \<Rightarrow> (case validate content of
            ValidationRaised \<Rightarrow> (content, Some ''schema_validation_failed'')
          | ValidatedAs d \<Rightarrow> (d, None)
          | ValidatedOther \<Rightarrow> (content, None))))"

definition decision :: "bool \<Rightarrow> bool \<Rightarrow> string \<Rightarrow> string \<Rightarrow> quality_rank \<Rightarrow> fallback_decision" where
  "decision retry returnable status reason rank =
     \<lparr>fd_should_retry = retry, fd_returnable = returnable, fd_status = status, fd_reason = reason,
      fd_quality_rank = rank\<rparr>"

definition listing_response_fallback_decision :: "llm_request \<Rightarrow> llm_response \<Rightarrow> fallback_decision" where
  "listing_response_fallback_decision rq rs =
     (case validated_response_content rq (rs_content rs) of
        (content, Some reason) \<Rightarrow> decision True False ''invalid_schema'' reason (0, 0, 0, 0, rs_confidence rs)
      | (content, None) \<Rightarrow>
          (let rental = get_or content ''is_rental_announcement'' JNull;
               kind = get_or content ''listing_type'' JNull;
               meaningful = (\<lambda>f. has_meaningful_value (get_or content f JNull));
               core = length (filter meaningful listing_core_signal_fields);
               missing = filter (\<lambda>f. \<not> meaningful f) (rq_required_listing_fields rq);
               present = length (rq_required_listing_fields rq) - length missing;
               rental_rank = (if rental = JBool True then 2 else if kind = JStr ''rent'' then 1 else 0);
               rank = (if missing = [] then 1 else 0, present, rental_rank, core, rs_confidence rs);
               status = (if rq_min_confidence rq \<le> rs_confidence rs then ''success'' else ''low_confidence'')
           in if rental = JBool True \<and> kind = JStr ''sale'' \<or> rental = JBool False \<and> kind = JStr ''rent''
              then decision False True ''classification_conflict'' ''contradictory_rental_classification_no_fallback'' rank
              else if rental = JBool False \<or> kind = JStr ''sale''
              then decision False True status ''explicit_non_rental_no_fallback'' rank
              else if \<not> (rental = JBool True \<or> kind = JStr ''rent'' \<or> 2 \<le> core)
              then decision False True status ''insufficient_listing_signals_no_fallback'' rank
              else if missing \<noteq> []
              then decision True True ''incomplete'' (''source_required_fields_missing:'' @ join '','' missing) rank
              else if core < 2
              then decision True True (if status = ''low_confidence'' then ''low_confidence'' else ''incomplete'')
                ''plausible_listing_incomplete'' rank
              else if rs_confidence rs < rq_min_confidence rq
              then (if rq_required_listing_fields rq \<noteq> []
                    then decision False True ''low_confidence'' ''source_required_fields_complete_no_fallback'' rank
                    else decision True True ''low_confidence'' ''plausible_listing_low_confidence'' rank)
              else decision False True ''success'' ''listing_quality_gate_passed'' rank))"

definition response_fallback_decision :: "llm_request \<Rightarrow> llm_response \<Rightarrow> fallback_decision" where
  "response_fallback_decision rq rs =
     (if rq_listing_quality rq then listing_response_fallback_decision rq rs
      else if rq_min_confidence rq \<le> rs_confidence rs
      then decision False True ''success'' ''confidence_threshold_met'' (0, 0, 0, 0, rs_confidence rs)
      else decision True False ''low_confidence'' ''confidence_below_threshold'' (0, 0, 0, 0, rs_confidence rs))"

section \<open>Asking the models\<close>

record llm_run =
  rn_attempts :: "llm_attempt list"
  rn_valid :: "(llm_response \<times> nat \<times> quality_rank) list"
  rn_notes :: "llm_attempt list"

datatype llm_result = Completed llm_response "llm_attempt list" | AllModelsFailed "llm_attempt list" | Escaped py_error

definition answered_attempt ::
  "string \<Rightarrow> nat \<Rightarrow> int \<Rightarrow> llm_response \<Rightarrow> fallback_decision \<Rightarrow> string option \<Rightarrow> llm_attempt" where
  "answered_attempt model stage latency rs d trigger =
     \<lparr>la_model = model, la_fallback_stage = stage, la_latency_ms = latency, la_status = fd_status d,
      la_error_type = None, la_error_reason = None, la_usage = rs_usage rs,
      la_provider_request_id = rs_provider_request_id rs, la_decision_reason = Some (fd_reason d),
      la_selected = (\<not> fd_should_retry d),
      la_selection_reason = (if \<not> fd_should_retry d then Some ''response_accepted'' else None),
      la_fallback_trigger_reason = trigger\<rparr>"

definition failed_attempt ::
  "string \<Rightarrow> nat \<Rightarrow> int \<Rightarrow> string \<Rightarrow> string \<Rightarrow> string \<Rightarrow> string option \<Rightarrow> llm_attempt" where
  "failed_attempt model stage latency error_name message reason trigger =
     \<lparr>la_model = model, la_fallback_stage = stage, la_latency_ms = latency, la_status = ''failed'',
      la_error_type = Some error_name, la_error_reason = Some message, la_usage = [], la_provider_request_id = None,
      la_decision_reason = Some reason, la_selected = False, la_selection_reason = None,
      la_fallback_trigger_reason = trigger\<rparr>"

definition note_attempt :: "llm_attempt \<Rightarrow> llm_run \<Rightarrow> llm_run" where
  "note_attempt a rn = rn\<lparr>rn_attempts := rn_attempts rn @ [a], rn_notes := rn_notes rn @ [a]\<rparr>"

text \<open>\<open>max(candidates, key=rank)\<close>: the first of the best.\<close>

fun first_max :: "('a \<Rightarrow> 'b :: linorder) \<Rightarrow> 'a \<Rightarrow> 'a list \<Rightarrow> 'a" where
  "first_max key b [] = b"
| "first_max key b (c # cs) = first_max key (if key b < key c then c else b) cs"

definition mark_selected_attempt :: "nat \<Rightarrow> string \<Rightarrow> llm_attempt list \<Rightarrow> llm_attempt list" where
  "mark_selected_attempt stage reason attempts =
     map (\<lambda>a. if la_fallback_stage a = stage then a\<lparr>la_selected := True, la_selection_reason := Some reason\<rparr> else a)
       attempts"

definition finish_run :: "llm_run \<Rightarrow> llm_result \<times> llm_attempt list" where
  "finish_run rn =
     (case rn_valid rn of
        [] \<Rightarrow> (AllModelsFailed (rn_attempts rn), rn_notes rn)
      | c # cs \<Rightarrow>
          (case first_max (\<lambda>v. snd (snd v)) c cs of (rs, stage, _) \<Rightarrow>
             (let attempts = mark_selected_attempt stage ''best_valid_low_quality_response_returned'' (rn_attempts rn)
              in (Completed rs attempts, rn_notes rn @ [hd (filter la_selected attempts)]))))"

fun try_models ::
  "llm_request \<Rightarrow> (nat \<Rightarrow> string \<Rightarrow> llm_answer) \<Rightarrow> (nat \<Rightarrow> int) \<Rightarrow> nat \<Rightarrow> string list \<Rightarrow> llm_run \<Rightarrow>
   llm_result \<times> llm_attempt list" where
  "try_models rq ask latency stage [] rn = finish_run rn"
| "try_models rq ask latency stage (model # models) rn =
     (let trigger = (if 0 < stage \<and> rn_attempts rn \<noteq> [] then la_decision_reason (last (rn_attempts rn)) else None) in
      case ask stage model of
        Answered rs \<Rightarrow>
          (let d = response_fallback_decision rq rs;
               rn1 = note_attempt (answered_attempt model stage (latency stage) rs d trigger) rn
           in if \<not> fd_should_retry d then (Completed rs (rn_attempts rn1), rn_notes rn1)
              else try_models rq ask latency (Suc stage) models
                (if fd_returnable d
                 then rn1\<lparr>rn_valid := rn_valid rn1 @ [(rs, stage, fd_quality_rank d)]\<rparr> else rn1))
      | TransportError message retryable \<Rightarrow>
          (let rn1 = note_attempt (failed_attempt model stage (latency stage) ''LLMTransportError'' message
                 (if retryable then ''retryable_transport_error'' else ''non_retryable_transport_error'') trigger) rn
           in if retryable then try_models rq ask latency (Suc stage) models rn1 else finish_run rn1)
      | MalformedResponse message \<Rightarrow>
          try_models rq ask latency (Suc stage) models
            (note_attempt (failed_attempt model stage (latency stage) ''LLMMalformedResponseError'' message
               ''malformed_response'' trigger) rn)
      | OtherLlmError error_name message \<Rightarrow>
          try_models rq ask latency (Suc stage) models
            (note_attempt (failed_attempt model stage (latency stage) error_name message ''model_error'' trigger) rn)
      | OtherRaised e \<Rightarrow> (Escaped e, rn_notes rn))"

definition complete_json ::
  "llm_request \<Rightarrow> (nat \<Rightarrow> string \<Rightarrow> llm_answer) \<Rightarrow> (nat \<Rightarrow> int) \<Rightarrow> string list \<Rightarrow> llm_result \<times> llm_attempt list" where
  "complete_json rq ask latency models =
     try_models rq ask latency 0 models \<lparr>rn_attempts = [], rn_valid = [], rn_notes = []\<rparr>"

section \<open>What the fallback returns\<close>

lemma first_max_in: "first_max key b cs \<in> insert b (set cs)"
proof (induction cs arbitrary: b)
  case (Cons c cs)
  from Cons.IH [of b] Cons.IH [of c] show ?case by (cases "key b < key c") auto
qed simp

lemma first_max_le: "x \<in> insert b (set cs) \<Longrightarrow> key x \<le> key (first_max key b cs)"
proof (induction cs arbitrary: b x)
  case (Cons c cs)
  let ?b = "if key b < key c then c else b"
  have "key b \<le> key ?b" "key c \<le> key ?b" by auto
  with Cons.IH [of ?b ?b] Cons.IH [of x ?b] Cons.prems show ?case by fastforce
qed simp

abbreviation judged :: "llm_request \<Rightarrow> llm_response \<Rightarrow> fallback_decision" where
  "judged rq rs \<equiv> response_fallback_decision rq rs"

text \<open>The run before the given stage: every earlier model was asked, none was accepted.\<close>

definition run_inv ::
  "llm_request \<Rightarrow> (nat \<Rightarrow> string \<Rightarrow> llm_answer) \<Rightarrow> string list \<Rightarrow> nat \<Rightarrow> llm_run \<Rightarrow> bool" where
  "run_inv rq ask models stage rn \<longleftrightarrow>
     stage \<le> length models \<and> map la_model (rn_attempts rn) = take stage models \<and>
     map la_fallback_stage (rn_attempts rn) = [0..<stage] \<and> (\<forall>a \<in> set (rn_attempts rn). \<not> la_selected a) \<and>
     set (rn_valid rn) = {(rs, j, fd_quality_rank (judged rq rs)) | rs j. j < stage \<and>
       ask j (models ! j) = Answered rs \<and> fd_returnable (judged rq rs)} \<and>
     (\<forall>j < stage. \<forall>rs. ask j (models ! j) = Answered rs \<longrightarrow> fd_should_retry (judged rq rs))"

definition completed_ok ::
  "llm_request \<Rightarrow> (nat \<Rightarrow> string \<Rightarrow> llm_answer) \<Rightarrow> string list \<Rightarrow> llm_response \<Rightarrow> llm_attempt list \<Rightarrow> bool" where
  "completed_ok rq ask models rs atts \<longleftrightarrow>
     (\<exists>i < length atts. ask i (models ! i) = Answered rs \<and> (\<forall>j < length atts. la_selected (atts ! j) \<longleftrightarrow> j = i) \<and>
        (\<not> fd_should_retry (judged rq rs) \<and> Suc i = length atts \<or>
         fd_returnable (judged rq rs) \<and>
         (\<forall>j < length atts. \<forall>rs'. ask j (models ! j) = Answered rs' \<longrightarrow> fd_should_retry (judged rq rs') \<and>
            (fd_returnable (judged rq rs') \<longrightarrow> fd_quality_rank (judged rq rs') \<le> fd_quality_rank (judged rq rs)))))"

lemma finish_run_result:
  assumes "run_inv rq ask models stage rn" and "finish_run rn = (res, notes)"
  shows "(\<exists>rs atts. res = Completed rs atts \<and> map la_model atts = take (length atts) models \<and> length atts = stage \<and>
      completed_ok rq ask models rs atts) \<or>
    (\<exists>atts. res = AllModelsFailed atts \<and> map la_model atts = take (length atts) models \<and> length atts = stage \<and>
      (\<forall>a \<in> set atts. \<not> la_selected a) \<and>
      (\<forall>j < length atts. \<forall>rs. ask j (models ! j) = Answered rs \<longrightarrow> \<not> fd_returnable (judged rq rs)))"
proof (cases "rn_valid rn")
  case Nil
  have len: "length (rn_attempts rn) = stage" using assms(1) unfolding run_inv_def by (metis length_map length_upt diff_zero)
  with Nil assms show ?thesis by (auto simp: run_inv_def finish_run_def)
next
  case (Cons c cs)
  have len: "length (rn_attempts rn) = stage" using assms(1) unfolding run_inv_def by (metis length_map length_upt diff_zero)
  obtain rs i rank where best: "first_max (\<lambda>v. snd (snd v)) c cs = (rs, i, rank)" by (metis surj_pair)
  let ?atts = "mark_selected_attempt i ''best_valid_low_quality_response_returned'' (rn_attempts rn)"
  have "(rs, i, rank) \<in> set (rn_valid rn)" using first_max_in [of "\<lambda>v. snd (snd v)" c cs] best Cons by simp
  then have i: "i < stage" "ask i (models ! i) = Answered rs" "fd_returnable (judged rq rs)"
    "rank = fd_quality_rank (judged rq rs)"
    using assms(1) by (auto simp: run_inv_def)
  have top: "fd_quality_rank (judged rq rs') \<le> rank"
    if "j < stage" "ask j (models ! j) = Answered rs'" "fd_returnable (judged rq rs')" for j rs'
  proof -
    have "(rs', j, fd_quality_rank (judged rq rs')) \<in> set (rn_valid rn)" using assms(1) that by (auto simp: run_inv_def)
    then have "(rs', j, fd_quality_rank (judged rq rs')) \<in> insert c (set cs)" using Cons by simp
    from first_max_le [OF this, of "\<lambda>v. snd (snd v)"] best show ?thesis by simp
  qed
  have plain: "\<forall>a \<in> set (rn_attempts rn). \<not> la_selected a"
    and retried: "\<forall>j < stage. \<forall>rs'. ask j (models ! j) = Answered rs' \<longrightarrow> fd_should_retry (judged rq rs')"
    and stages: "map la_fallback_stage (rn_attempts rn) = [0..<stage]"
    using assms(1) unfolding run_inv_def by blast+
  have selected: "la_selected (?atts ! j) \<longleftrightarrow> j = i" if "j < stage" for j
  proof -
    have "la_fallback_stage (rn_attempts rn ! j) = j"
      using stages len that by (metis add_0 nth_map nth_upt)
    moreover have "\<not> la_selected (rn_attempts rn ! j)" using plain len that by simp
    ultimately show ?thesis using len that by (simp add: mark_selected_attempt_def)
  qed
  have "length ?atts = stage" using len by (simp add: mark_selected_attempt_def)
  then have "completed_ok rq ask models rs ?atts"
    unfolding completed_ok_def using i selected retried top by (intro exI [of _ i]) metis
  moreover have "map la_model ?atts = map la_model (rn_attempts rn)" by (simp add: mark_selected_attempt_def)
  moreover have "length ?atts = stage" using len by (simp add: mark_selected_attempt_def)
  moreover have "map la_model (rn_attempts rn) = take stage models" using assms(1) unfolding run_inv_def by blast
  moreover have "res = Completed rs ?atts" using assms(2) Cons best by (simp add: finish_run_def Let_def)
  ultimately show ?thesis by (intro disjI1 exI [of _ rs] exI [of _ ?atts] conjI) simp_all
qed

lemma run_inv_note:
  assumes "run_inv rq ask models stage rn" and "stage < length models" and "la_model a = models ! stage"
    and "la_fallback_stage a = stage" and "\<not> la_selected a" and "\<And>rs. ask stage (models ! stage) \<noteq> Answered rs"
  shows "run_inv rq ask models (Suc stage) (note_attempt a rn)"
proof -
  have "{(rs, j, fd_quality_rank (judged rq rs)) | rs j. j < Suc stage \<and> ask j (models ! j) = Answered rs \<and>
      fd_returnable (judged rq rs)} =
    {(rs, j, fd_quality_rank (judged rq rs)) | rs j. j < stage \<and> ask j (models ! j) = Answered rs \<and>
      fd_returnable (judged rq rs)}"
    using assms(6) less_Suc_eq by fastforce
  then show ?thesis
    using assms unfolding run_inv_def by (simp add: note_attempt_def take_Suc_conv_app_nth less_Suc_eq)
qed

lemma run_inv_answer:
  assumes "run_inv rq ask models stage rn" and "stage < length models" and "ask stage (models ! stage) = Answered rs"
    and "fd_should_retry (judged rq rs)"
    and "rn1 = note_attempt (answered_attempt (models ! stage) stage latency rs (judged rq rs) trigger) rn"
    and "rn2 = (if fd_returnable (judged rq rs)
      then rn1\<lparr>rn_valid := rn_valid rn1 @ [(rs, stage, fd_quality_rank (judged rq rs))]\<rparr> else rn1)"
  shows "run_inv rq ask models (Suc stage) rn2"
proof -
  let ?a = "answered_attempt (models ! stage) stage latency rs (judged rq rs) trigger"
  let ?usable = "\<lambda>n. {(rs', j, fd_quality_rank (judged rq rs')) | rs' j. j < n \<and> ask j (models ! j) = Answered rs' \<and>
      fd_returnable (judged rq rs')}"
  have inv: "map la_model (rn_attempts rn) = take stage models" "map la_fallback_stage (rn_attempts rn) = [0..<stage]"
    "\<forall>a \<in> set (rn_attempts rn). \<not> la_selected a" "set (rn_valid rn) = ?usable stage"
    "\<forall>j < stage. \<forall>rs. ask j (models ! j) = Answered rs \<longrightarrow> fd_should_retry (judged rq rs)"
    using assms(1) unfolding run_inv_def by blast+
  have atts: "rn_attempts rn2 = rn_attempts rn @ [?a]" by (simp add: assms(5,6) note_attempt_def)
  have "?usable (Suc stage) = ?usable stage \<union>
      (if fd_returnable (judged rq rs) then {(rs, stage, fd_quality_rank (judged rq rs))} else {})"
    using assms(3) by (auto simp: less_Suc_eq)
  then have valid: "set (rn_valid rn2) = ?usable (Suc stage)"
    unfolding assms(5,6) using inv(4) by (cases "fd_returnable (judged rq rs)") (simp_all add: note_attempt_def)
  have "map la_model (rn_attempts rn2) = take (Suc stage) models"
    using inv(1) assms(2) by (simp add: atts take_Suc_conv_app_nth answered_attempt_def)
  moreover have "map la_fallback_stage (rn_attempts rn2) = [0..<Suc stage]"
    using inv(2) by (simp add: atts answered_attempt_def)
  moreover have "\<forall>a \<in> set (rn_attempts rn2). \<not> la_selected a"
    using inv(3) assms(4) by (simp add: atts answered_attempt_def)
  moreover have "\<forall>j < Suc stage. \<forall>rs'. ask j (models ! j) = Answered rs' \<longrightarrow> fd_should_retry (judged rq rs')"
    using inv(5) assms(3,4) by (auto simp: less_Suc_eq)
  ultimately show ?thesis
    unfolding run_inv_def using valid assms(2) by (intro conjI) (simp_all only: Suc_leI)
qed

definition result_ok :: "llm_request \<Rightarrow> (nat \<Rightarrow> string \<Rightarrow> llm_answer) \<Rightarrow> string list \<Rightarrow> llm_result \<Rightarrow> bool" where
  "result_ok rq ask models res \<longleftrightarrow>
     (case res of
        Completed rs atts \<Rightarrow> map la_model atts = take (length atts) models \<and> completed_ok rq ask models rs atts
      | AllModelsFailed atts \<Rightarrow>
          map la_model atts = take (length atts) models \<and> (\<forall>a \<in> set atts. \<not> la_selected a) \<and>
          (\<forall>j < length atts. \<forall>rs. ask j (models ! j) = Answered rs \<longrightarrow> \<not> fd_returnable (judged rq rs)) \<and>
          (length atts < length models \<longrightarrow>
            (\<exists>message. ask (length atts - 1) (models ! (length atts - 1)) = TransportError message False))
      | Escaped e \<Rightarrow> \<exists>i < length models. ask i (models ! i) = OtherRaised e)"

lemma finish_run_ok:
  assumes "run_inv rq ask models stage rn"
    and "stage < length models \<Longrightarrow> \<exists>message. ask (stage - 1) (models ! (stage - 1)) = TransportError message False"
  shows "result_ok rq ask models (fst (finish_run rn))"
proof -
  obtain res ns where run: "finish_run rn = (res, ns)" by fastforce
  from finish_run_result [OF assms(1) run] assms(2) run show ?thesis by (auto simp: result_ok_def)
qed

lemma try_models_ok:
  "run_inv rq ask models stage rn \<Longrightarrow> drop stage models = rest \<Longrightarrow>
   result_ok rq ask models (fst (try_models rq ask latency stage rest rn))"
proof (induction rest arbitrary: stage rn)
  case Nil
  with finish_run_ok [OF Nil.prems(1)] show ?case by simp
next
  case (Cons m rest)
  then have here: "stage < length models" "models ! stage = m" "drop (Suc stage) models = rest"
    by (metis drop_eq_Nil linorder_not_less list.distinct(1), metis nth_via_drop, metis drop_Suc drop_tl list.sel(3))
  show ?case
  proof (cases "ask stage m")
    case (Answered rs)
    let ?trigger = "if 0 < stage \<and> rn_attempts rn \<noteq> [] then la_decision_reason (last (rn_attempts rn)) else None"
    show ?thesis
    proof (cases "fd_should_retry (judged rq rs)")
      case True
      let ?rn1 = "note_attempt (answered_attempt m stage (latency stage) rs (judged rq rs) ?trigger) rn"
      let ?next = "if fd_returnable (judged rq rs)
        then ?rn1\<lparr>rn_valid := rn_valid ?rn1 @ [(rs, stage, fd_quality_rank (judged rq rs))]\<rparr> else ?rn1"
      have "run_inv rq ask models (Suc stage) ?next"
        by (rule run_inv_answer [OF Cons.prems(1) here(1) _ True _ refl, where latency = "latency stage" and trigger = ?trigger])
          (simp_all only: here(2) Answered)
      from Cons.IH [OF this here(3)]
      have "result_ok rq ask models (fst (try_models rq ask latency (Suc stage) rest ?next))" .
      moreover have "try_models rq ask latency stage (m # rest) rn = try_models rq ask latency (Suc stage) rest ?next"
        unfolding try_models.simps Let_def Answered llm_answer.case using True by simp
      ultimately show ?thesis by simp
    next
      case False
      let ?a = "answered_attempt m stage (latency stage) rs (judged rq rs) ?trigger"
      have inv: "map la_model (rn_attempts rn) = take stage models" "\<forall>a \<in> set (rn_attempts rn). \<not> la_selected a"
        "map la_fallback_stage (rn_attempts rn) = [0..<stage]"
        using Cons.prems(1) unfolding run_inv_def by blast+
      have len: "length (rn_attempts rn) = stage" using inv(3) by (metis length_map length_upt diff_zero)
      have "la_selected ((rn_attempts rn @ [?a]) ! j) \<longleftrightarrow> j = stage" if "j < Suc stage" for j
        using inv(2) len that False by (cases "j = stage") (auto simp: nth_append answered_attempt_def less_Suc_eq)
      then have "completed_ok rq ask models rs (rn_attempts rn @ [?a])"
        unfolding completed_ok_def using Answered here len False by (intro exI [of _ stage]) simp
      moreover have "map la_model (rn_attempts rn @ [?a]) = take (Suc stage) models"
        using inv(1) here by (simp add: take_Suc_conv_app_nth answered_attempt_def)
      ultimately show ?thesis
        using Answered False len by (simp add: Let_def note_attempt_def result_ok_def)
    qed
  next
    case (TransportError message retryable)
    have inv: "run_inv rq ask models (Suc stage) (note_attempt (failed_attempt m stage l e t reason trigger) rn)"
      for l e t reason trigger
      using Cons.prems(1) here TransportError by (intro run_inv_note) (simp_all add: failed_attempt_def)
    show ?thesis
    proof (cases retryable)
      case True
      with TransportError Cons.IH [OF inv here(3)] show ?thesis by (simp add: Let_def)
    next
      case False
      with TransportError here finish_run_ok [OF inv] show ?thesis by (simp add: Let_def)
    qed
  next
    case (MalformedResponse message)
    have "run_inv rq ask models (Suc stage) (note_attempt (failed_attempt m stage l e t reason trigger) rn)"
      for l e t reason trigger
      using Cons.prems(1) here MalformedResponse by (intro run_inv_note) (simp_all add: failed_attempt_def)
    with MalformedResponse Cons.IH [OF _ here(3)] show ?thesis by (simp add: Let_def)
  next
    case (OtherLlmError e message)
    have "run_inv rq ask models (Suc stage) (note_attempt (failed_attempt m stage l e t reason trigger) rn)"
      for l e t reason trigger
      using Cons.prems(1) here OtherLlmError by (intro run_inv_note) (simp_all add: failed_attempt_def)
    with OtherLlmError Cons.IH [OF _ here(3)] show ?thesis by (simp add: Let_def)
  next
    case (OtherRaised e)
    with here show ?thesis by (auto simp: result_ok_def)
  qed
qed

text \<open>
  Falling back between models: a returned answer is either the first one good enough, given by the last model
  asked, or, when every answer asked for a retry, one with the highest quality rank among the usable ones; exactly
  its attempt is marked as selected. The client fails only if no answer was usable and either every model was
  asked or the last one failed with an error that is not retryable. The attempts name the models in order.
\<close>

theorem fallback_returns_best: "result_ok rq ask models (fst (complete_json rq ask latency models))"
  unfolding complete_json_def by (rule try_models_ok) (simp_all add: run_inv_def)

end
