(* ===== verification/EF_Image.thy ===== *)
theory EF_Image
  imports EF_PreAi "HOL-Library.Word"
begin

text \<open>
  Images of listings (\<open>MediaProcessor\<close> and the header decoders of \<open>services/media_storage.py\<close>) over bytes, which are
  8-bit words. The SHA-256 digest is an argument. The scaling ratio, a \<open>float\<close> in the code, is exact.
\<close>

section \<open>Bytes\<close>

type_synonym bytes = "8 word list"

definition byte_prefix :: "bytes \<Rightarrow> bytes \<Rightarrow> bool" where
  "byte_prefix p bs \<longleftrightarrow> take (length p) bs = p"

definition slice_bytes :: "nat \<Rightarrow> nat \<Rightarrow> bytes \<Rightarrow> bytes" where
  "slice_bytes i j bs = take (j - i) (drop i bs)"

definition big_endian :: "bytes \<Rightarrow> nat" where
  "big_endian bs = foldl (\<lambda>n b. n * 256 + unat b) 0 bs"

definition little_endian :: "bytes \<Rightarrow> nat" where
  "little_endian bs = big_endian (rev bs)"

definition ascii_bytes :: "string \<Rightarrow> bytes" where
  "ascii_bytes s = map (\<lambda>c. word_of_nat (of_char c)) s"

section \<open>Data\<close>

record media_config =
  mc_max_input_bytes :: int
  mc_max_output_bytes :: int
  mc_target_max_width :: int
  mc_target_max_height :: int
  mc_phash_hamming_threshold :: nat
  mc_allowed_mime_types :: "string list"

definition default_media_config :: media_config where
  "default_media_config =
     \<lparr>mc_max_input_bytes = 10000000, mc_max_output_bytes = 600000, mc_target_max_width = 800,
      mc_target_max_height = 600, mc_phash_hamming_threshold = 8,
      mc_allowed_mime_types = [''image/jpeg'', ''image/png'', ''image/webp'']\<rparr>"

record downloaded_media =
  dm_media_id :: string
  dm_content :: bytes
  dm_mime_type :: string

record image_info =
  ii_width :: int
  ii_height :: int
  ii_format :: string

record processed_media =
  pm_media_id :: string
  pm_content :: bytes
  pm_mime_type :: string
  pm_phash :: string
  pm_content_sha256 :: string
  pm_size_bytes :: int
  pm_width :: int
  pm_height :: int
  pm_original_width :: int
  pm_original_height :: int

text \<open>\<open>hashlib.sha256\<close> of bytes: \<open>digest()\<close> and \<open>hexdigest()\<close>.\<close>

record hash_env =
  he_digest :: "bytes \<Rightarrow> bytes"
  he_hexdigest :: "bytes \<Rightarrow> string"

definition media_processing_error :: "string \<Rightarrow> 'a res" where
  "media_processing_error reason = Inl (OtherError ''MediaProcessingError'' reason)"

section \<open>Headers\<close>

definition sniff_mime_type :: "bytes \<Rightarrow> string option" where
  "sniff_mime_type content =
     (if byte_prefix [0xFF, 0xD8, 0xFF] content then Some ''image/jpeg''
      else if byte_prefix [0x89, 0x50, 0x4E, 0x47, 0x0D, 0x0A, 0x1A, 0x0A] content then Some ''image/png''
      else if byte_prefix (ascii_bytes ''RIFF'') content \<and> slice_bytes 8 12 content = ascii_bytes ''WEBP''
      then Some ''image/webp'' else None)"

definition validated_info :: "nat \<Rightarrow> nat \<Rightarrow> string \<Rightarrow> image_info res" where
  "validated_info width height format =
     (if width \<le> 0 \<or> height \<le> 0 \<or> 20000 < width \<or> 20000 < height
      then media_processing_error ''unsafe image dimensions''
      else Inr \<lparr>ii_width = int width, ii_height = int height, ii_format = format\<rparr>)"

definition sof_markers :: "8 word list" where
  "sof_markers = [0xC0, 0xC1, 0xC2, 0xC3, 0xC5, 0xC6, 0xC7, 0xC9, 0xCA, 0xCB, 0xCD, 0xCE, 0xCF]"

text \<open>The loop of \<open>_decode_jpeg_info\<close>: its body either goes on at a later index or leaves with a result.\<close>

datatype jpeg_loop = Again nat | Leave "image_info res"

definition jpeg_step :: "bytes \<Rightarrow> nat \<Rightarrow> jpeg_loop" where
  "jpeg_step content index =
     (let not_found = Leave (media_processing_error ''JPEG dimensions not found'') in
      if \<not> index + 9 < length content then not_found
      else if content ! index \<noteq> 0xFF then Again (index + 1)
      else
        (let marker = content ! (index + 1); i = index + 2 in
         if marker = 0xD8 \<or> marker = 0xD9 then Again i
         else if length content < i + 2 then not_found
         else
           (let segment_length = big_endian (slice_bytes i (i + 2) content) in
            if segment_length < 2 then not_found
            else if marker \<in> set sof_markers
            then (if length content < i + 7 then not_found
                  else Leave (validated_info (big_endian (slice_bytes (i + 5) (i + 7) content))
                    (big_endian (slice_bytes (i + 3) (i + 5) content)) ''jpeg''))
            else Again (i + segment_length))))"

lemma jpeg_step_forward: "jpeg_step content i = Again j \<Longrightarrow> i < j \<and> i < length content"
  by (auto simp: jpeg_step_def Let_def split: if_splits)

function jpeg_scan :: "bytes \<Rightarrow> nat \<Rightarrow> image_info res" where
  "jpeg_scan content index =
     (case jpeg_step content index of Again i \<Rightarrow> jpeg_scan content i | Leave r \<Rightarrow> r)"
  by pat_completeness auto
termination
  by (relation "measure (\<lambda>(content, index). length content - index)") (auto dest!: jpeg_step_forward)

declare jpeg_scan.simps [simp del]

definition decode_jpeg_info :: "bytes \<Rightarrow> image_info res" where
  "decode_jpeg_info content =
     (if \<not> byte_prefix [0xFF, 0xD8] content then media_processing_error ''invalid JPEG'' else jpeg_scan content 2)"

definition decode_webp_info :: "bytes \<Rightarrow> image_info res" where
  "decode_webp_info content =
     (if length content < 30 then media_processing_error ''truncated WebP''
      else if slice_bytes 12 16 content = ascii_bytes ''VP8X''
      then validated_info (little_endian (slice_bytes 24 27 content) + 1)
        (little_endian (slice_bytes 27 30 content) + 1) ''webp''
      else media_processing_error ''unsupported WebP variant'')"

definition decode_image_info :: "bytes \<Rightarrow> string \<Rightarrow> image_info res" where
  "decode_image_info content mime =
     (if mime = ''image/png''
      then (if length content < 24 then media_processing_error ''truncated PNG''
            else validated_info (big_endian (slice_bytes 16 20 content)) (big_endian (slice_bytes 20 24 content)) ''png'')
      else if mime = ''image/jpeg'' then decode_jpeg_info content
      else if mime = ''image/webp'' then decode_webp_info content
      else media_processing_error ''unsupported media type'')"

section \<open>Processing\<close>

text \<open>\<open>round(x)\<close>, halves to even.\<close>

definition py_round :: "rat \<Rightarrow> int" where
  "py_round x =
     (let f = \<lfloor>x\<rfloor>; d = x - of_int f
      in if d < 1 / 2 then f else if 1 / 2 < d then f + 1 else if even f then f else f + 1)"

definition fit_dimensions :: "int \<Rightarrow> int \<Rightarrow> int \<Rightarrow> int \<Rightarrow> int \<times> int" where
  "fit_dimensions width height max_width max_height =
     (let ratio = min (min (of_int max_width / of_int width) (of_int max_height / of_int height)) 1
      in (max 1 (py_round (of_int width * ratio)), max 1 (py_round (of_int height * ratio))))"

definition compress_image :: "hash_env \<Rightarrow> media_config \<Rightarrow> bytes \<Rightarrow> image_info \<Rightarrow> bytes \<times> image_info" where
  "compress_image H cfg content info =
     (case fit_dimensions (ii_width info) (ii_height info) (mc_target_max_width cfg) (mc_target_max_height cfg) of
        (w, h) \<Rightarrow>
          (let output_info = \<lparr>ii_width = w, ii_height = h, ii_format = ii_format info\<rparr> in
           if int (length content) \<le> mc_max_output_bytes cfg then (content, output_info)
           else
             (let digest = he_digest H content;
                  keep = max 0 (mc_max_output_bytes cfg - int (length digest))
              in (take (nat keep) content @ digest, output_info))))"

definition phash_image :: "hash_env \<Rightarrow> bytes \<Rightarrow> image_info \<Rightarrow> string" where
  "phash_image H content info =
     take 16 (he_hexdigest H (ascii_bytes (ii_format info @ '':'' @ str_int (ii_width info div 16) @ '':'' @
       str_int (ii_height info div 16) @ '':'') @ take 4096 content))"

definition process_media :: "hash_env \<Rightarrow> media_config \<Rightarrow> downloaded_media \<Rightarrow> processed_media res" where
  "process_media H cfg m =
     (if dm_mime_type m \<notin> set (mc_allowed_mime_types cfg) then media_processing_error ''unsupported media type''
      else if dm_content m = [] then media_processing_error ''empty media''
      else if mc_max_input_bytes cfg < int (length (dm_content m)) then media_processing_error ''media file too large''
      else if sniff_mime_type (dm_content m) \<noteq> Some (dm_mime_type m)
      then media_processing_error ''media content does not match declared image type''
      else
        res_bind (decode_image_info (dm_content m) (dm_mime_type m)) (\<lambda>info.
          case compress_image H cfg (dm_content m) info of
            (content, output_info) \<Rightarrow>
              Inr \<lparr>pm_media_id = dm_media_id m, pm_content = content, pm_mime_type = dm_mime_type m,
                pm_phash = phash_image H content output_info, pm_content_sha256 = he_hexdigest H content,
                pm_size_bytes = int (length content), pm_width = ii_width output_info,
                pm_height = ii_height output_info, pm_original_width = ii_width info,
                pm_original_height = ii_height info\<rparr>))"

fun near_any :: "nat \<Rightarrow> processed_media \<Rightarrow> processed_media list \<Rightarrow> bool res" where
  "near_any threshold item [] = Inr False"
| "near_any threshold item (u # us) =
     res_bind (hamming_distance_hex (pm_phash item) (pm_phash u)) (\<lambda>d.
       if d \<le> threshold then Inr True else near_any threshold item us)"

fun remove_near_duplicates :: "nat \<Rightarrow> processed_media list \<Rightarrow> processed_media list \<Rightarrow> processed_media list res" where
  "remove_near_duplicates threshold unique [] = Inr unique"
| "remove_near_duplicates threshold unique (x # xs) =
     res_bind (near_any threshold x unique) (\<lambda>hit.
       remove_near_duplicates threshold (if hit then unique else unique @ [x]) xs)"

section \<open>The scanner ends\<close>

text \<open>The loop run for at most \<open>n\<close> rounds; \<open>None\<close> means it is still running.\<close>

fun jpeg_run :: "nat \<Rightarrow> bytes \<Rightarrow> nat \<Rightarrow> image_info res option" where
  "jpeg_run 0 content index = None"
| "jpeg_run (Suc n) content index =
     (case jpeg_step content index of Again i \<Rightarrow> jpeg_run n content i | Leave r \<Rightarrow> Some r)"

lemma jpeg_run_scan: "length content - index < n \<Longrightarrow> jpeg_run n content index = Some (jpeg_scan content index)"
proof (induction n arbitrary: index)
  case (Suc n)
  show ?case
  proof (cases "jpeg_step content index")
    case (Again i)
    have "length content - i < n" using jpeg_step_forward [OF Again] Suc.prems by linarith
    with Again Suc.IH [of i] show ?thesis by (simp add: jpeg_scan.simps [of content index])
  qed (simp add: jpeg_scan.simps [of content index])
qed simp

text \<open>
  C17. The JPEG scanner ends on every input, also a hostile one: whatever the bytes are, its loop leaves
  within as many rounds as the file has bytes.
\<close>

theorem jpeg_scan_terminates: "jpeg_run (Suc (length content)) content 2 = Some (jpeg_scan content 2)"
  by (rule jpeg_run_scan) simp

section \<open>Reading back JPEG headers\<close>

definition be16 :: "nat \<Rightarrow> bytes" where
  "be16 n = [word_of_nat (n div 256), word_of_nat n]"

lemma big_endian_be16 [simp]: "n < 65536 \<Longrightarrow> big_endian (be16 n) = n"
  by (simp add: big_endian_def be16_def unsigned_of_nat take_bit_eq_mod)

lemma length_be16 [simp]: "length (be16 n) = 2"
  by (simp add: be16_def)

definition segment_bytes :: "8 word \<times> bytes \<Rightarrow> bytes" where
  "segment_bytes s = [0xFF, fst s] @ be16 (length (snd s) + 2) @ snd s"

definition frame_bytes :: "8 word \<Rightarrow> nat \<Rightarrow> 8 word \<Rightarrow> nat \<Rightarrow> nat \<Rightarrow> bytes \<Rightarrow> bytes" where
  "frame_bytes m len precision w h rest = [0xFF, m] @ be16 len @ [precision] @ be16 h @ be16 w @ rest"

text \<open>A JPEG file: other segments, then the frame header, then the rest.\<close>

definition jpeg_file :: "(8 word \<times> bytes) list \<Rightarrow> bytes \<Rightarrow> bytes" where
  "jpeg_file segs frame = [0xFF, 0xD8] @ concat (map segment_bytes segs) @ frame"

definition plain_segment :: "8 word \<times> bytes \<Rightarrow> bool" where
  "plain_segment s \<longleftrightarrow> fst s \<notin> set sof_markers \<and> fst s \<noteq> 0xD8 \<and> fst s \<noteq> 0xD9 \<and> length (snd s) + 2 < 65536"

lemma slice_after: "i = length xs \<Longrightarrow> j = i + length ys \<Longrightarrow> slice_bytes i j (xs @ ys @ zs) = ys"
  by (simp add: slice_bytes_def)

lemma jpeg_scan_marker:
  assumes "index + 9 < length c" and "c ! index = 0xFF" "c ! (index + 1) = m" and "m \<noteq> 0xD8" "m \<noteq> 0xD9"
    and "big_endian (slice_bytes (index + 2) (index + 4) c) = len" and "2 \<le> len"
  shows "jpeg_scan c index =
    (if m \<in> set sof_markers
     then validated_info (big_endian (slice_bytes (index + 7) (index + 9) c))
       (big_endian (slice_bytes (index + 5) (index + 7) c)) ''jpeg''
     else jpeg_scan c (index + (2 + len)))"
  using assms
  by (subst jpeg_scan.simps) (simp del: add_2_eq_Suc' add_2_eq_Suc One_nat_def add: jpeg_step_def Let_def add.assoc)

lemma jpeg_scan_segment:
  assumes "plain_segment s" and "10 \<le> length post"
  shows "jpeg_scan (pre @ segment_bytes s @ post) (length pre) =
    jpeg_scan (pre @ segment_bytes s @ post) (length (pre @ segment_bytes s))"
proof -
  let ?c = "pre @ segment_bytes s @ post"
  have c: "?c = (pre @ [0xFF, fst s]) @ be16 (length (snd s) + 2) @ (snd s @ post)" by (simp add: segment_bytes_def)
  have "slice_bytes (length pre + 2) (length pre + 4) ?c = be16 (length (snd s) + 2)"
    unfolding c by (rule slice_after) simp_all
  then have len: "big_endian (slice_bytes (length pre + 2) (length pre + 4) ?c) = length (snd s) + 2"
    using assms(1) by (simp add: plain_segment_def)
  have "jpeg_scan ?c (length pre) = jpeg_scan ?c (length pre + (2 + (length (snd s) + 2)))"
    using jpeg_scan_marker [OF _ _ _ _ _ len] assms by (simp add: plain_segment_def segment_bytes_def nth_append)
  then show ?thesis by (simp add: segment_bytes_def)
qed

lemma jpeg_scan_frame:
  assumes "m \<in> set sof_markers" and "2 \<le> len" "len < 65536" and "w < 65536" "h < 65536" and "rest \<noteq> []"
  shows "jpeg_scan (pre @ frame_bytes m len precision w h rest) (length pre) = validated_info w h ''jpeg''"
proof -
  let ?c = "pre @ frame_bytes m len precision w h rest"
  have "slice_bytes (length pre + 2) (length pre + 4) ?c = be16 len"
    using slice_after [of "length pre + 2" "pre @ [0xFF, m]" "length pre + 4" "be16 len"]
    by (simp add: frame_bytes_def)
  then have field: "big_endian (slice_bytes (length pre + 2) (length pre + 4) ?c) = len" using assms(3) by simp
  have height: "slice_bytes (length pre + 5) (length pre + 7) ?c = be16 h"
    using slice_after [of "length pre + 5" "pre @ [0xFF, m] @ be16 len @ [precision]" "length pre + 7" "be16 h"]
    by (simp add: frame_bytes_def)
  have width: "slice_bytes (length pre + 7) (length pre + 9) ?c = be16 w"
    using slice_after [of "length pre + 7" "pre @ [0xFF, m] @ be16 len @ [precision] @ be16 h" "length pre + 9" "be16 w"]
    by (simp add: frame_bytes_def)
  have marker: "?c ! length pre = 0xFF" "?c ! (length pre + 1) = m" by (simp_all add: frame_bytes_def nth_append)
  have long: "length pre + 9 < length ?c" using assms(6) by (cases rest) (simp_all add: frame_bytes_def)
  have "m \<noteq> 0xD8" "m \<noteq> 0xD9" using assms(1) by (auto simp: sof_markers_def)
  from jpeg_scan_marker [OF long marker this field assms(2)] assms(1,4,5) height width show ?thesis by simp
qed

lemma jpeg_scan_file:
  assumes "\<forall>s \<in> set segs. plain_segment s" and "10 \<le> length frame"
  shows "jpeg_scan (pre @ concat (map segment_bytes segs) @ frame) (length pre) =
    jpeg_scan (pre @ concat (map segment_bytes segs) @ frame) (length (pre @ concat (map segment_bytes segs)))"
  using assms
proof (induction segs arbitrary: pre)
  case (Cons s segs)
  have "jpeg_scan (pre @ segment_bytes s @ concat (map segment_bytes segs) @ frame) (length pre) =
      jpeg_scan (pre @ segment_bytes s @ concat (map segment_bytes segs) @ frame) (length (pre @ segment_bytes s))"
    using Cons.prems by (intro jpeg_scan_segment) simp_all
  also have "\<dots> = jpeg_scan (pre @ segment_bytes s @ concat (map segment_bytes segs) @ frame)
      (length (pre @ segment_bytes s @ concat (map segment_bytes segs)))"
    using Cons.IH [of "pre @ segment_bytes s"] Cons.prems by simp
  finally show ?case by simp
qed simp

text \<open>
  The JPEG scanner finds the dimensions: after any segments whose markers are neither frame headers nor
  the two without a length, it returns the width and height of the first frame header, or refuses them
  when they are zero or above 20000.
\<close>

theorem jpeg_dimensions_round_trip:
  assumes "\<And>s. s \<in> set segs \<Longrightarrow> plain_segment s" and "m \<in> set sof_markers" and "2 \<le> len" "len < 65536"
    and "w < 65536" "h < 65536" and "rest \<noteq> []"
  shows "decode_jpeg_info (jpeg_file segs (frame_bytes m len precision w h rest)) = validated_info w h ''jpeg''"
proof -
  let ?frame = "frame_bytes m len precision w h rest" and ?segs = "concat (map segment_bytes segs)"
  have "10 \<le> length ?frame" using assms(7) by (cases rest) (simp_all add: frame_bytes_def)
  then have "jpeg_scan ([0xFF, 0xD8] @ ?segs @ ?frame) (length [0xFF, 0xD8 :: 8 word]) =
      jpeg_scan (([0xFF, 0xD8] @ ?segs) @ ?frame) (length ([0xFF, 0xD8] @ ?segs))"
    using jpeg_scan_file [of segs ?frame "[0xFF, 0xD8]"] assms(1) by simp
  also have "\<dots> = validated_info w h ''jpeg''" using assms by (intro jpeg_scan_frame)
  finally show ?thesis by (simp add: decode_jpeg_info_def jpeg_file_def byte_prefix_def numeral_2_eq_2)
qed

lemma jpeg_dimensions_round_trip_witness:
  "decode_jpeg_info (jpeg_file [(0xE0, [1, 2, 3])] (frame_bytes 0xC0 17 8 640 480 [3])) =
     Inr \<lparr>ii_width = 640, ii_height = 480, ii_format = ''jpeg''\<rparr>"
proof -
  have "s \<in> set [(0xE0, [1, 2, 3])] \<Longrightarrow> plain_segment s" for s :: "8 word \<times> bytes"
    by (simp add: plain_segment_def sof_markers_def)
  moreover have "0xC0 \<in> set sof_markers" by (simp add: sof_markers_def)
  ultimately show ?thesis
    using jpeg_dimensions_round_trip [of "[(0xE0, [1, 2, 3])]" "0xC0" 17 640 480 "[3]" 8]
    by (simp add: validated_info_def)
qed

section \<open>What processing guarantees\<close>

lemma py_round_le:
  assumes "x \<le> of_int n"
  shows "py_round x \<le> n"
proof -
  have "\<lfloor>x\<rfloor> \<le> n" using assms by (simp add: floor_le_iff)
  moreover have "x = of_int n" if "\<lfloor>x\<rfloor> = n" using that assms by (metis antisym of_int_floor_le)
  ultimately show ?thesis by (cases "\<lfloor>x\<rfloor> = n") (auto simp: py_round_def Let_def)
qed

lemma fit_dimensions_bounds:
  assumes "fit_dimensions w h mw mh = (a, b)" and "1 \<le> w" "1 \<le> h" and "1 \<le> mw" "1 \<le> mh"
  shows "1 \<le> a \<and> a \<le> mw \<and> a \<le> w \<and> 1 \<le> b \<and> b \<le> mh \<and> b \<le> h"
proof -
  let ?r = "min (min (of_int mw / of_int w) (of_int mh / of_int h)) 1 :: rat"
  have scale: "py_round (of_int x * ?r) \<le> y" if "1 \<le> x" "?r \<le> of_int y / of_int x" for x y :: int
  proof (rule py_round_le)
    have "0 < (of_int x :: rat)" using that(1) by simp
    with that(2) show "of_int x * ?r \<le> of_int y" by (simp only: pos_le_divide_eq mult.commute)
  qed
  have "py_round (of_int w * ?r) \<le> mw" "py_round (of_int h * ?r) \<le> mh"
    by (rule scale, rule assms, simp)+
  moreover have "py_round (of_int x * ?r) \<le> x" if "1 \<le> x" for x
    by (rule scale [OF that]) (use that in simp)
  ultimately have all: "py_round (of_int w * ?r) \<le> mw" "py_round (of_int h * ?r) \<le> mh"
    "py_round (of_int w * ?r) \<le> w" "py_round (of_int h * ?r) \<le> h" using assms by blast+
  have "a = max 1 (py_round (of_int w * ?r))" "b = max 1 (py_round (of_int h * ?r))"
    using assms(1) by (simp_all add: fit_dimensions_def Let_def)
  with all assms show ?thesis by linarith
qed

lemma decode_image_info_bounds:
  assumes "decode_image_info content mime = Inr info"
  shows "1 \<le> ii_width info \<and> ii_width info \<le> 20000 \<and> 1 \<le> ii_height info \<and> ii_height info \<le> 20000"
proof -
  have valid: "validated_info w h f = Inr info \<Longrightarrow> ?thesis" for w h f
    by (auto simp: validated_info_def media_processing_error_def split: if_splits)
  have scan: "jpeg_scan content i = Inr info \<Longrightarrow> ?thesis" for i
  proof (induction content i rule: jpeg_scan.induct)
    case (1 content i)
    show ?case
    proof (cases "jpeg_step content i")
      case (Again j)
      with 1 show ?thesis by (simp add: jpeg_scan.simps [of content i])
    next
      case (Leave r)
      with 1(2) valid show ?thesis
        by (auto simp: jpeg_scan.simps [of content i] jpeg_step_def Let_def media_processing_error_def split: if_splits)
    qed
  qed
  show ?thesis
    using assms valid scan
    by (auto simp: decode_image_info_def decode_jpeg_info_def decode_webp_info_def media_processing_error_def
        split: if_splits)
qed

text \<open>
  What is stored of an image is bounded: the original is within 20000 by 20000, the recorded dimensions are
  within the target and not above the original, and the stored bytes within the larger of the output limit and
  one digest.
\<close>

theorem process_media_bounds:
  assumes "process_media H cfg m = Inr pm" and "1 \<le> mc_target_max_width cfg" "1 \<le> mc_target_max_height cfg"
    and "length (he_digest H (dm_content m)) = 32"
  shows "1 \<le> pm_width pm \<and> pm_width pm \<le> mc_target_max_width cfg \<and> pm_width pm \<le> pm_original_width pm \<and>
    1 \<le> pm_height pm \<and> pm_height pm \<le> mc_target_max_height cfg \<and> pm_height pm \<le> pm_original_height pm \<and>
    pm_original_width pm \<le> 20000 \<and> pm_original_height pm \<le> 20000 \<and>
    pm_size_bytes pm = int (length (pm_content pm)) \<and> pm_size_bytes pm \<le> max (mc_max_output_bytes cfg) 32 \<and>
    pm_mime_type pm \<in> set (mc_allowed_mime_types cfg)"
proof -
  obtain info where info: "decode_image_info (dm_content m) (dm_mime_type m) = Inr info"
    using assms(1) by (auto simp: process_media_def media_processing_error_def split: if_splits elim!: res_bind_InrE)
  obtain w h where fit: "fit_dimensions (ii_width info) (ii_height info) (mc_target_max_width cfg)
      (mc_target_max_height cfg) = (w, h)" by fastforce
  have size: "int (length (fst (compress_image H cfg (dm_content m) info))) \<le> max (mc_max_output_bytes cfg) 32"
    using assms(4) by (auto simp: compress_image_def Let_def fit)
  show ?thesis
    using assms(1) size fit_dimensions_bounds [OF fit] decode_image_info_bounds [OF info] assms(2,3) info
    by (auto simp: process_media_def compress_image_def fit Let_def media_processing_error_def split: if_splits)
qed

definition sample_hash :: hash_env where
  "sample_hash = \<lparr>he_digest = (\<lambda>_. replicate 32 0), he_hexdigest = (\<lambda>_. ''0a'')\<rparr>"

definition sample_png :: downloaded_media where
  "sample_png =
     \<lparr>dm_media_id = ''m1'', dm_content = [0x89, 0x50, 0x4E, 0x47, 0x0D, 0x0A, 0x1A, 0x0A, 0, 0, 0, 13, 73, 72, 68, 82,
        0, 0, 0x06, 0x40, 0, 0, 0x04, 0xB0],
      dm_mime_type = ''image/png''\<rparr>"

lemma process_media_bounds_witness:
  "case process_media sample_hash default_media_config sample_png of
     Inr pm \<Rightarrow> pm_width pm \<le> 800 \<and> pm_original_width pm \<le> 20000 | Inl _ \<Rightarrow> False"
proof -
  have "case process_media sample_hash default_media_config sample_png of Inr pm \<Rightarrow> True | Inl _ \<Rightarrow> False" by code_simp
  then obtain pm where pm: "process_media sample_hash default_media_config sample_png = Inr pm" by (auto split: sum.splits)
  have "1 \<le> mc_target_max_width default_media_config" "1 \<le> mc_target_max_height default_media_config"
    "length (he_digest sample_hash (dm_content sample_png)) = 32" "mc_target_max_width default_media_config = 800"
    by (simp_all add: default_media_config_def sample_hash_def)
  with process_media_bounds [OF pm] show ?thesis by (simp add: pm)
qed

end
