(* ===== verification/EF_MediaStore.thy ===== *)
theory EF_MediaStore
  imports EF_Image EF_RawEvent EF_Scoring
begin

text \<open>
  Storing the images of a listing: \<open>MediaStorageService\<close> over \<open>InMemoryObjectStorage\<close> (\<open>services/media_storage.py\<close>).
  The resolver that downloads an image is an argument; it returns the image or raises.
\<close>

section \<open>The object storage\<close>

record object_storage =
  os_base_url :: string
  os_objects :: "(string, bytes) dict"
  os_metadata :: "(string, (string, string) dict) dict"
  os_deleted :: "string list"
  os_fail_upload :: bool
  os_fail_after_count :: "nat option"

definition storage_upload ::
  "string \<Rightarrow> bytes \<Rightarrow> string \<Rightarrow> (string, string) dict \<Rightarrow> object_storage \<Rightarrow> string res \<times> object_storage" where
  "storage_upload key content mime md st =
     (if os_fail_upload st \<or> (\<exists>n \<in> set_option (os_fail_after_count st). n \<le> length (os_objects st))
      then (Inl (StorageUploadError ''object storage upload failed'' True), st)
      else (Inr (os_base_url st @ ''/'' @ key),
        st\<lparr>os_objects := dict_put key content (os_objects st),
           os_metadata := dict_put key (dict_put ''mime_type'' mime md) (os_metadata st)\<rparr>))"

definition storage_delete :: "string \<Rightarrow> object_storage \<Rightarrow> object_storage" where
  "storage_delete key st =
     st\<lparr>os_deleted := os_deleted st @ [key], os_objects := dict_pop key (os_objects st),
        os_metadata := dict_pop key (os_metadata st)\<rparr>"

section \<open>The service\<close>

record media_env =
  me_text :: text_env
  me_hash :: hash_env
  me_config :: media_config
  me_download :: "media_reference \<Rightarrow> downloaded_media res"

definition skipped_media_error :: "py_error \<Rightarrow> bool" where
  "skipped_media_error e \<longleftrightarrow> error_class e = ''MediaDownloadError'' \<or> error_class e = ''MediaProcessingError''"

text \<open>An image that cannot be downloaded or processed is skipped.\<close>

fun prepare_media :: "media_env \<Rightarrow> media_reference list \<Rightarrow> processed_media list res" where
  "prepare_media M [] = Inr []"
| "prepare_media M (r # rs) =
     (case res_bind (me_download M r) (process_media (me_hash M) (me_config M)) of
        Inr pm \<Rightarrow> res_bind (prepare_media M rs) (\<lambda>pms. Inr (pm # pms))
      | Inl e \<Rightarrow> if skipped_media_error e then prepare_media M rs else Inl e)"

definition two_digits :: "nat \<Rightarrow> string" where
  "two_digits n = (if n < 10 then CHR ''0'' # str_nat n else str_nat n)"

definition build_object_key :: "text_env \<Rightarrow> string \<Rightarrow> string \<Rightarrow> nat \<Rightarrow> string \<Rightarrow> string" where
  "build_object_key E idempotency_key media_id index content_sha256 =
     ''announcements/'' @ take 16 (te_sha256 E idempotency_key) @ ''/'' @ two_digits index @ ''-'' @
       take 12 (te_sha256 E media_id) @ ''-'' @ take 12 content_sha256 @ ''.jpg''"

definition media_metadata :: "processed_media \<Rightarrow> (string, string) dict" where
  "media_metadata pm =
     [(''media_id'', pm_media_id pm), (''content_sha256'', pm_content_sha256 pm), (''phash'', pm_phash pm),
      (''width'', str_int (pm_width pm)), (''height'', str_int (pm_height pm)),
      (''original_width'', str_int (pm_original_width pm)), (''original_height'', str_int (pm_original_height pm)),
      (''dedup_scope'', ''same_announcement_media_only'')]"

definition cleanup_media :: "stored_media list \<Rightarrow> object_storage \<Rightarrow> object_storage" where
  "cleanup_media stored st = fold (\<lambda>m. storage_delete (sm_object_key m)) stored st"

fun store_media ::
  "text_env \<Rightarrow> string \<Rightarrow> nat \<Rightarrow> processed_media list \<Rightarrow> stored_media list \<Rightarrow> object_storage \<Rightarrow>
   stored_media list res \<times> object_storage" where
  "store_media E ikey index [] stored st = (Inr stored, st)"
| "store_media E ikey index (pm # pms) stored st =
     (let key = build_object_key E ikey (pm_media_id pm) index (pm_content_sha256 pm) in
      case storage_upload key (pm_content pm) (pm_mime_type pm) (media_metadata pm) st of
        (Inl e, st') \<Rightarrow> (Inl e, cleanup_media stored st')
      | (Inr url, st') \<Rightarrow>
          store_media E ikey (Suc index) pms
            (stored @ [\<lparr>sm_media_id = pm_media_id pm, sm_storage_url = url, sm_object_key = key,
               sm_mime_type = pm_mime_type pm, sm_size_bytes = pm_size_bytes pm, sm_phash = pm_phash pm,
               sm_content_sha256 = pm_content_sha256 pm, sm_width = Some (pm_width pm),
               sm_height = Some (pm_height pm), sm_metadata = media_metadata pm\<rparr>]) st')"

definition prepare_and_store ::
  "media_env \<Rightarrow> string \<Rightarrow> media_reference list \<Rightarrow> object_storage \<Rightarrow> stored_media list res \<times> object_storage" where
  "prepare_and_store M ikey references st =
     (case res_bind (prepare_media M references)
         (remove_near_duplicates (mc_phash_hamming_threshold (me_config M)) []) of
        Inl e \<Rightarrow> (Inl e, st)
      | Inr unique \<Rightarrow> store_media (me_text M) ikey 0 unique [] st)"

section \<open>Keys\<close>

lemma two_digits_no_dash: "CHR ''-'' \<notin> set (two_digits n)"
proof -
  have "is_digit c" if "c \<in> set (two_digits n)" for c
    using that str_nat_digits [of n] by (auto simp: two_digits_def is_digit_def code_of_def split: if_splits)
  moreover have "\<not> is_digit (CHR ''-'')" by (simp add: is_digit_def code_of_def)
  ultimately show ?thesis by blast
qed

lemma two_digits_inject: "two_digits m = two_digits n \<Longrightarrow> m = n"
proof -
  have zero: "is_digit (CHR ''0'')" "digit_val (CHR ''0'') = 0"
    by (simp_all add: is_digit_def digit_val_def code_of_def)
  have decoded: "int_body 0 False (two_digits k) = Some k" for k
  proof (cases "k < 10")
    case True
    then show ?thesis using zero by (simp add: two_digits_def str_nat.simps [of k])
  qed (simp add: two_digits_def)
  show "two_digits m = two_digits n \<Longrightarrow> m = n" using decoded by (metis option.inject)
qed

lemma object_key_index:
  assumes "build_object_key E k a i x = build_object_key E k b j y"
  shows "i = j"
proof -
  have "takeWhile (\<lambda>c. c \<noteq> CHR ''-'') (xs @ CHR ''-'' # u) = xs" if "CHR ''-'' \<notin> set xs" for xs u
    using that by (induction xs) auto
  with two_digits_no_dash
  have "takeWhile (\<lambda>c. c \<noteq> CHR ''-'') (two_digits n @ CHR ''-'' # u) = two_digits n" for n u by blast
  then have "two_digits i @ CHR ''-'' # u = two_digits j @ CHR ''-'' # v \<Longrightarrow> two_digits i = two_digits j" for u v
    by metis
  moreover obtain u v where "two_digits i @ CHR ''-'' # u = two_digits j @ CHR ''-'' # v"
    using assms by (simp add: build_object_key_def)
  ultimately show ?thesis using two_digits_inject by blast
qed

section \<open>All or nothing\<close>

abbreviation key_of :: "text_env \<Rightarrow> string \<Rightarrow> nat \<Rightarrow> processed_media \<Rightarrow> string" where
  "key_of E ikey i pm \<equiv> build_object_key E ikey (pm_media_id pm) i (pm_content_sha256 pm)"

lemma dict_get_cleanup:
  "dict_get (os_objects (cleanup_media ms st)) k =
     (if k \<in> set (map sm_object_key ms) then None else dict_get (os_objects st) k)"
  unfolding cleanup_media_def
  by (induction ms arbitrary: st) (auto simp: storage_delete_def dict_get_pop)

lemma storage_upload_cases:
  assumes "storage_upload key content mime md st = (r, st')"
  obtains e where "r = Inl e" "st' = st"
    | url where "r = Inr url" "os_objects st' = dict_put key content (os_objects st)"
  using assms by (auto simp: storage_upload_def split: if_splits)

text \<open>One uploaded image.\<close>

definition stored_as :: "text_env \<Rightarrow> string \<Rightarrow> nat \<Rightarrow> processed_media \<Rightarrow> stored_media \<Rightarrow> bool" where
  "stored_as E ikey i pm m \<longleftrightarrow> sm_object_key m = key_of E ikey i pm \<and> sm_media_id m = pm_media_id pm \<and>
     sm_phash m = pm_phash pm \<and> sm_content_sha256 m = pm_content_sha256 pm \<and> sm_size_bytes m = pm_size_bytes pm"

lemma store_media_Cons:
  obtains e where "store_media E ikey i (pm # pms) stored st = (Inl e, cleanup_media stored st)"
    | m st1 where "stored_as E ikey i pm m"
      "os_objects st1 = dict_put (key_of E ikey i pm) (pm_content pm) (os_objects st)"
      "store_media E ikey i (pm # pms) stored st = store_media E ikey (Suc i) pms (stored @ [m]) st1"
proof -
  obtain a st1 where up: "storage_upload (key_of E ikey i pm) (pm_content pm) (pm_mime_type pm) (media_metadata pm) st =
    (a, st1)" by fastforce
  then show thesis
  proof (cases rule: storage_upload_cases)
    case (1 e)
    with up that(1) show thesis by simp
  next
    case (2 url)
    define m where "m = \<lparr>sm_media_id = pm_media_id pm, sm_storage_url = url, sm_object_key = key_of E ikey i pm,
       sm_mime_type = pm_mime_type pm, sm_size_bytes = pm_size_bytes pm, sm_phash = pm_phash pm,
       sm_content_sha256 = pm_content_sha256 pm, sm_width = Some (pm_width pm),
       sm_height = Some (pm_height pm), sm_metadata = media_metadata pm\<rparr>"
    have "stored_as E ikey i pm m" by (simp add: stored_as_def m_def)
    moreover have "store_media E ikey i (pm # pms) stored st = store_media E ikey (Suc i) pms (stored @ [m]) st1"
      using up 2(1) by (simp add: Let_def m_def)
    ultimately show thesis using that(2) 2(2) by blast
  qed
qed

lemma store_media_fails:
  "store_media E ikey i pms stored st = (Inl e, st') \<Longrightarrow>
   dict_get (os_objects st') k = dict_get (os_objects st) k \<and> k \<notin> sm_object_key ` set stored \<or>
   dict_get (os_objects st') k = None \<and>
     (k \<in> sm_object_key ` set stored \<or> (\<exists>j < length pms. k = key_of E ikey (i + j) (pms ! j)))"
proof (induction pms arbitrary: i stored st)
  case (Cons pm pms)
  show ?case
  proof (rule store_media_Cons [of E ikey i pm pms stored st])
    fix e' assume "store_media E ikey i (pm # pms) stored st = (Inl e', cleanup_media stored st)"
    with Cons.prems show ?thesis by (auto simp: dict_get_cleanup)
  next
    fix m st1
    assume m: "stored_as E ikey i pm m"
      and st1: "os_objects st1 = dict_put (key_of E ikey i pm) (pm_content pm) (os_objects st)"
      and run: "store_media E ikey i (pm # pms) stored st = store_media E ikey (Suc i) pms (stored @ [m]) st1"
    have key: "sm_object_key m = key_of E ikey i pm" using m by (simp add: stored_as_def)
    have "\<exists>j < length (pm # pms). k = key_of E ikey (i + j) ((pm # pms) ! j)"
      if "k = key_of E ikey i pm \<or> (\<exists>j < length pms. k = key_of E ikey (Suc i + j) (pms ! j))"
      using that by (metis add.right_neutral add_Suc_shift length_Cons nth_Cons_0 nth_Cons_Suc Suc_less_eq zero_less_Suc)
    moreover have "dict_get (os_objects st1) k = dict_get (os_objects st) k" if "k \<noteq> key_of E ikey i pm"
      using that st1 by (simp add: dict_get_put)
    ultimately show ?thesis
      using Cons.IH [of "Suc i" "stored @ [m]" st1] Cons.prems run key by auto
  qed
qed simp

lemma store_media_stores:
  "store_media E ikey i pms stored st = (Inr out, st') \<Longrightarrow>
   (\<exists>new. out = stored @ new \<and> list_all2 (\<lambda>(j, pm) m. stored_as E ikey j pm m) (enumerate i pms) new) \<and>
   (\<forall>(j, pm) \<in> set (enumerate i pms). dict_get (os_objects st') (key_of E ikey j pm) = Some (pm_content pm)) \<and>
   (\<forall>k. k \<notin> (\<lambda>(j, pm). key_of E ikey j pm) ` set (enumerate i pms) \<longrightarrow>
      dict_get (os_objects st') k = dict_get (os_objects st) k)"
proof (induction pms arbitrary: i stored st)
  case (Cons pm pms)
  show ?case
  proof (rule store_media_Cons [of E ikey i pm pms stored st])
    fix e' assume "store_media E ikey i (pm # pms) stored st = (Inl e', cleanup_media stored st)"
    with Cons.prems show ?thesis by simp
  next
    fix m st1
    assume m: "stored_as E ikey i pm m"
      and st1: "os_objects st1 = dict_put (key_of E ikey i pm) (pm_content pm) (os_objects st)"
      and run: "store_media E ikey i (pm # pms) stored st = store_media E ikey (Suc i) pms (stored @ [m]) st1"
    have "key_of E ikey i pm \<notin> (\<lambda>(j, pm). key_of E ikey j pm) ` set (enumerate (Suc i) pms)"
      using object_key_index by (fastforce simp: in_set_enumerate_eq)
    then show ?thesis
      using Cons.IH [of "Suc i" "stored @ [m]" st1] Cons.prems run m st1 by (auto simp: dict_get_put)
  qed
qed simp

definition far_apart :: "nat \<Rightarrow> string \<Rightarrow> string \<Rightarrow> bool" where
  "far_apart threshold p q \<longleftrightarrow> (\<exists>d. hamming_distance_hex q p = Inr d \<and> threshold < d)"

lemma near_any_False:
  "near_any threshold x vs = Inr False \<Longrightarrow> u \<in> set vs \<Longrightarrow> far_apart threshold (pm_phash u) (pm_phash x)"
  by (induction vs) (auto simp: far_apart_def elim!: res_bind_InrE split: if_splits)

lemma remove_near_duplicates_apart:
  "remove_near_duplicates threshold unique xs = Inr out \<Longrightarrow>
   sorted_wrt (far_apart threshold) (map pm_phash unique) \<Longrightarrow>
   sorted_wrt (far_apart threshold) (map pm_phash out) \<and> set out \<subseteq> set unique \<union> set xs"
proof (induction xs arbitrary: unique)
  case (Cons x xs)
  then obtain hit where hit: "near_any threshold x unique = Inr hit"
    "remove_near_duplicates threshold (if hit then unique else unique @ [x]) xs = Inr out"
    by (auto elim!: res_bind_InrE)
  have "sorted_wrt (far_apart threshold) (map pm_phash (if hit then unique else unique @ [x]))"
    using Cons.prems(2) hit(1) near_any_False by (auto simp: sorted_wrt_append)
  from Cons.IH [OF hit(2) this] show ?case by (auto split: if_splits)
qed simp

lemma prepare_media_source:
  "prepare_media M refs = Inr pms \<Longrightarrow> pm \<in> set pms \<Longrightarrow>
   \<exists>r \<in> set refs. \<exists>d. me_download M r = Inr d \<and> process_media (me_hash M) (me_config M) d = Inr pm"
proof (induction refs arbitrary: pms)
  case (Cons r refs)
  then show ?case
    by (cases "res_bind (me_download M r) (process_media (me_hash M) (me_config M))")
      (fastforce elim!: res_bind_InrE split: if_splits)+
qed simp

lemma list_all2_phashes:
  "list_all2 (\<lambda>(j, pm) m. stored_as E ikey j pm m) (enumerate i pms) ms \<Longrightarrow> map sm_phash ms = map pm_phash pms"
  by (induction pms arbitrary: i ms) (auto simp: list_all2_Cons1 stored_as_def)

lemma list_all2_keys:
  "list_all2 (\<lambda>(j, pm) m. stored_as E ikey j pm m) (enumerate i pms) ms \<Longrightarrow>
   map sm_object_key ms = map (\<lambda>(j, pm). key_of E ikey j pm) (enumerate i pms)"
  by (induction pms arbitrary: i ms) (auto simp: list_all2_Cons1 stored_as_def)

lemma distinct_keys: "distinct (map (\<lambda>(j, pm). key_of E ikey j pm) (enumerate i pms))"
proof (induction pms arbitrary: i)
  case (Cons pm pms)
  have "key_of E ikey i pm \<notin> (\<lambda>(j, pm). key_of E ikey j pm) ` set (enumerate (Suc i) pms)"
    using object_key_index by (fastforce simp: in_set_enumerate_eq)
  with Cons.IH show ?case by simp
qed simp

text \<open>
  The images of a listing are stored all or not at all: when no object of the listing was there before and
  storing raises, the storage is as it was; when it returns, each image is under a key of its own with the
  bytes that processing gave, no two images are near duplicates, and no other object changed.
\<close>

theorem media_all_or_nothing:
  assumes "prepare_and_store M ikey refs st = (r, st')"
    and "\<And>i media_id sha. dict_get (os_objects st) (build_object_key (me_text M) ikey media_id i sha) = None"
  shows "case r of
      Inl e \<Rightarrow> \<forall>k. dict_get (os_objects st') k = dict_get (os_objects st) k
    | Inr out \<Rightarrow>
        distinct (map sm_object_key out) \<and>
        sorted_wrt (far_apart (mc_phash_hamming_threshold (me_config M))) (map sm_phash out) \<and>
        (\<forall>m \<in> set out. \<exists>r \<in> set refs. \<exists>d pm. me_download M r = Inr d \<and>
           process_media (me_hash M) (me_config M) d = Inr pm \<and>
           dict_get (os_objects st') (sm_object_key m) = Some (pm_content pm)) \<and>
        (\<forall>k. k \<notin> set (map sm_object_key out) \<longrightarrow> dict_get (os_objects st') k = dict_get (os_objects st) k)"
proof (cases "res_bind (prepare_media M refs) (remove_near_duplicates (mc_phash_hamming_threshold (me_config M)) [])")
  case (Inl e)
  with assms(1) show ?thesis by (auto simp: prepare_and_store_def)
next
  case (Inr unique)
  then obtain pms where pms: "prepare_media M refs = Inr pms"
    "remove_near_duplicates (mc_phash_hamming_threshold (me_config M)) [] pms = Inr unique"
    by (auto elim!: res_bind_InrE)
  note apart = remove_near_duplicates_apart [OF pms(2)]
  have run: "store_media (me_text M) ikey 0 unique [] st = (r, st')"
    using assms(1) Inr by (simp add: prepare_and_store_def)
  show ?thesis
  proof (cases r)
    case (Inl e)
    have "dict_get (os_objects st') k = dict_get (os_objects st) k" for k
      using store_media_fails [OF run [unfolded Inl], of k] assms(2) by auto
    with Inl show ?thesis by simp
  next
    case (Inr out)
    note stored = store_media_stores [OF run [unfolded Inr]]
    then have all: "list_all2 (\<lambda>(j, pm) m. stored_as (me_text M) ikey j pm m) (enumerate 0 unique) out" by simp
    note keys = list_all2_keys [OF all]
    have "\<exists>r \<in> set refs. \<exists>d pm. me_download M r = Inr d \<and> process_media (me_hash M) (me_config M) d = Inr pm \<and>
        dict_get (os_objects st') (sm_object_key m) = Some (pm_content pm)" if "m \<in> set out" for m
    proof -
      have "sm_object_key m \<in> set (map (\<lambda>(j, pm). key_of (me_text M) ikey j pm) (enumerate 0 unique))"
        using that unfolding keys [symmetric] by simp
      then obtain j pm where pm: "(j, pm) \<in> set (enumerate 0 unique)" "sm_object_key m = key_of (me_text M) ikey j pm"
        by auto
      then have "pm \<in> set pms" using apart by (auto simp: in_set_enumerate_eq)
      with prepare_media_source [OF pms(1)] pm stored show ?thesis by fastforce
    qed
    moreover have "sorted_wrt (far_apart (mc_phash_hamming_threshold (me_config M))) (map sm_phash out)"
      using apart unfolding list_all2_phashes [OF all] by simp
    moreover have "set (map sm_object_key out) = (\<lambda>(j, pm). key_of (me_text M) ikey j pm) ` set (enumerate 0 unique)"
      unfolding keys by simp
    ultimately show ?thesis
      using stored distinct_keys [of "me_text M" ikey 0 unique] unfolding Inr keys [symmetric] by auto
  qed
qed

definition sample_media_env :: media_env where
  "sample_media_env = \<lparr>me_text = sample_env, me_hash = sample_hash, me_config = default_media_config,
     me_download = (\<lambda>r. if mr_media_id r = ''m1'' then Inr sample_png else Inl (OtherError ''MediaDownloadError'' ''gone''))\<rparr>"

definition empty_storage :: object_storage where
  "empty_storage = \<lparr>os_base_url = ''memory://r2'', os_objects = [], os_metadata = [], os_deleted = [],
     os_fail_upload = False, os_fail_after_count = None\<rparr>"

definition sample_reference :: "string \<Rightarrow> media_reference" where
  "sample_reference i = \<lparr>mr_media_id = i, mr_media_type = ''photo'', mr_mime_type = None, mr_size_bytes = None,
     mr_access_hash = None, mr_source_channel_id = None, mr_source_message_id = None\<rparr>"

lemma media_all_or_nothing_witness:
  "case prepare_and_store sample_media_env ''k'' [sample_reference ''m0'', sample_reference ''m1'', sample_reference ''m1'']
      empty_storage of
     (Inr out, st') \<Rightarrow> length out = 1 \<and> distinct (map sm_object_key out)
   | (Inl e, st') \<Rightarrow> False"
proof -
  let ?refs = "[sample_reference ''m0'', sample_reference ''m1'', sample_reference ''m1'']"
  have "case prepare_and_store sample_media_env ''k'' ?refs empty_storage of
      (Inr out, st') \<Rightarrow> length out = 1 | (Inl e, st') \<Rightarrow> False" by code_simp
  then obtain out st' where run: "prepare_and_store sample_media_env ''k'' ?refs empty_storage = (Inr out, st')" "length out = 1"
    by (auto split: prod.splits sum.splits)
  have "\<And>i m sha. dict_get (os_objects empty_storage) (build_object_key (me_text sample_media_env) ''k'' m i sha) = None"
    by (simp add: empty_storage_def)
  from media_all_or_nothing [OF run(1) this] have "distinct (map sm_object_key out)" unfolding sum.case by blast
  with run show ?thesis by (simp only: prod.case sum.case)
qed

end
