(* ===== verification/EF_AiWorker.thy ===== *)
theory EF_AiWorker
  imports EF_LlmClient EF_MediaStore EF_Consumer
begin

text \<open>
  The second queue stage: \<open>AiExtractionWorker\<close> (\<open>services/ai_worker.py\<close>) stores the images of an event, asks the
  language models, judges and normalises what they extracted and publishes the listing for deduplication. The
  prompt is text for the models and is left out, so their answers are an argument; the texts of operator notes
  and the labels of metrics are left out too.
\<close>

section \<open>Records\<close>

datatype processing_status = SucceededRecord | ReviewRecord | FailedRecord

record ai_record =
  ar_idempotency_key :: string
  ar_status :: processing_status
  ar_correlation_id :: string
  ar_canonical :: "canonical_listing option"
  ar_media :: "stored_media list"
  ar_attempts :: "llm_attempt list"
  ar_source_parsing :: "(string, json) dict"
  ar_error_type :: "string option"
  ar_failure_reason :: "string option"
  ar_post_ai_published :: bool

record ai_state =
  as_records :: "(string, ai_record) dict"
  as_storage :: object_storage
  as_tags :: tag_repo
  as_published :: "message list"
  as_notes :: "(string \<times> string) list"
  as_metrics :: "(string \<times> string) list"

text \<open>
  The settings and the third parties: \<open>aw_extract\<close> is \<open>ListingExtractionRaw.model_validate\<close>, which Pydantic
  performs; \<open>aw_decimal\<close> writes a \<open>Decimal\<close>.
\<close>

record ai_env =
  aw_media :: media_env
  aw_models :: "string list"
  aw_min_confidence :: rat
  aw_rental_min_confidence :: rat
  aw_prompt_version :: string
  aw_tag_service :: bool
  aw_tag_ratio :: "string \<Rightarrow> string \<Rightarrow> rat"
  aw_tag_threshold :: rat
  aw_extract :: "(string, json) dict \<Rightarrow> listing_raw option"
  aw_schema_required :: "string list"
  aw_schema_properties :: "string list option"
  aw_decimal :: "rat \<Rightarrow> string"

abbreviation aw_text :: "ai_env \<Rightarrow> text_env" where
  "aw_text W \<equiv> me_text (aw_media W)"

definition save_record :: "ai_record \<Rightarrow> ai_state \<Rightarrow> ai_state" where
  "save_record r s = s\<lparr>as_records := dict_put (ar_idempotency_key r) r (as_records s)\<rparr>"

definition ops_note :: "string \<Rightarrow> string \<Rightarrow> ai_state \<Rightarrow> ai_state" where
  "ops_note severity correlation s = s\<lparr>as_notes := as_notes s @ [(severity, correlation)]\<rparr>"

definition count_metric_of :: "string \<Rightarrow> string \<Rightarrow> ai_state \<Rightarrow> ai_state" where
  "count_metric_of name key s = s\<lparr>as_metrics := as_metrics s @ [(name, key)]\<rparr>"

definition record_ai_attempt_metrics :: "string \<Rightarrow> llm_attempt list \<Rightarrow> ai_state \<Rightarrow> ai_state" where
  "record_ai_attempt_metrics ikey attempts s =
     fold (\<lambda>a. count_metric_of ''ai_fallback_attempt''
         (join '':'' [''ai_fallback'', ikey, str_nat (la_fallback_stage a), la_status a]))
       (filter (\<lambda>a. 0 < la_fallback_stage a) attempts) s"

section \<open>Publishing a listing\<close>

definition fval_json :: "(rat \<Rightarrow> string) \<Rightarrow> fval \<Rightarrow> json" where
  "fval_json dec v =
     (case v of
        FNone \<Rightarrow> JNull | FDec r \<Rightarrow> JStr (dec r) | FInt i \<Rightarrow> JNum (of_int i) | FBool b \<Rightarrow> JBool b
      | FFloat r \<Rightarrow> JNum r | FStr t \<Rightarrow> JStr t | FStrs ts \<Rightarrow> json_strs ts
      | FMap m \<Rightarrow> JObj (map (\<lambda>(k, r). (k, JNum r)) m))"

definition canonical_json :: "(rat \<Rightarrow> string) \<Rightarrow> canonical_listing \<Rightarrow> (string, json) dict" where
  "canonical_json dec c = map (\<lambda>(k, v). (k, fval_json dec v)) (model_dump c)"

definition int_json :: "int option \<Rightarrow> json" where
  "int_json i = (case i of None \<Rightarrow> JNull | Some n \<Rightarrow> JNum (of_int n))"

definition stored_media_json :: "stored_media \<Rightarrow> json" where
  "stored_media_json m = JObj
     [(''media_id'', JStr (sm_media_id m)), (''storage_url'', JStr (sm_storage_url m)),
      (''object_key'', JStr (sm_object_key m)), (''mime_type'', JStr (sm_mime_type m)),
      (''size_bytes'', JNum (of_int (sm_size_bytes m))), (''phash'', JStr (sm_phash m)),
      (''content_sha256'', JStr (sm_content_sha256 m)), (''width'', int_json (sm_width m)),
      (''height'', int_json (sm_height m)),
      (''metadata'', JObj (map (\<lambda>(k, v). (k, JStr v)) (sm_metadata m)))]"

definition source_parsing_audit_payload :: "(string, json) dict \<Rightarrow> (string, json) dict" where
  "source_parsing_audit_payload pl = payload_object (get_or pl ''source_parsing'' JNull)"

definition post_ai_payload ::
  "ai_env \<Rightarrow> raw_event \<Rightarrow> ai_record \<Rightarrow> canonical_listing \<Rightarrow> (string, json) dict \<Rightarrow> (string, json) dict" where
  "post_ai_payload W ev r c pre_ai =
     (let parsing = (if ar_source_parsing r \<noteq> [] then ar_source_parsing r else source_parsing_audit_payload pre_ai) in
      [(''schema_version'', JStr (cl_schema_version c)),
       (''idempotency_key'', JStr (ev_idempotency_key ev)),
       (''source_id'', JStr (ev_source_id ev)),
       (''source_channel_id'', JStr (ev_source_channel_id ev)),
       (''source_message_id'', JStr (ev_source_message_id ev)),
       (''source_message_ids'', json_strs (ev_source_message_ids ev)),
       (''source_url'', json_opt (ev_source_url ev)),
       (''forward_metadata'', forward_json (ev_forward_metadata ev)),
       (''forward_origin_key'', json_opt (forward_origin_key (ev_forward_metadata ev))),
       (''occurred_at'', JStr (te_to_iso (aw_text W) (ev_occurred_at ev))),
       (''correlation_id'', JStr (ev_correlation_id ev)),
       (''canonical'', JObj (canonical_json (aw_decimal W) c)),
       (''media'', JArr (map stored_media_json (ar_media r))),
       (''pre_ai_dedup'', get_or pre_ai ''pre_ai_dedup'' JNull),
       (''source_parsing'', if parsing = [] then JNull else JObj parsing),
       (''dedup_signals'', JObj [(''phones_present'', JBool (cl_phone_numbers c \<noteq> [])),
         (''media_phashes'', json_strs (map sm_phash (ar_media r)))]),
       (''manual_review_reason'', if ar_status r = ReviewRecord then json_opt (ar_failure_reason r) else JNull)])"

definition post_ai_message ::
  "ai_env \<Rightarrow> raw_event \<Rightarrow> ai_record \<Rightarrow> canonical_listing \<Rightarrow> (string, json) dict \<Rightarrow> message" where
  "post_ai_message W ev r c pre_ai =
     \<lparr>queue_name = POST_AI_DEDUP_QUEUE, payload = JObj (post_ai_payload W ev r c pre_ai),
      correlation_id = ev_correlation_id ev,
      metadata = [(''idempotency_key'', JStr (ev_idempotency_key ev)),
        (''schema_version'', JStr (cl_schema_version c)), (''source_id'', JStr (ev_source_id ev))],
      delivery_token = None\<rparr>"

definition publish_post_ai ::
  "ai_env \<Rightarrow> (message \<Rightarrow> bool) \<Rightarrow> raw_event \<Rightarrow> ai_record \<Rightarrow> (string, json) dict \<Rightarrow> ai_state \<Rightarrow> unit res \<times> ai_state" where
  "publish_post_ai W accepts ev r pre_ai s =
     (case ar_canonical r of
        None \<Rightarrow> (Inr (), s)
      | Some c \<Rightarrow>
          (let m = post_ai_message W ev r c pre_ai in
           if accepts m then (Inr (), s\<lparr>as_published := as_published s @ [m]\<rparr>)
           else (Inl (QueuePublishError POST_AI_DEDUP_QUEUE), s)))"

section \<open>Hints of the source parser\<close>

definition parser_hint_keys :: "string list" where
  "parser_hint_keys = [''district'', ''language'', ''listing_type'', ''owner_type'', ''price_basis'', ''price_period'',
     ''required_fields'', ''recipe_hints'', ''source_format'']"

definition safe_parser_hint_value :: "json \<Rightarrow> json option" where
  "safe_parser_hint_value v =
     (case v of
        JBool b \<Rightarrow> Some v
      | JNum r \<Rightarrow> Some v
      | JStr t \<Rightarrow> (let u = take 200 (strip t) in if u = [] then None else Some (JStr u))
      | JArr xs \<Rightarrow>
          (let items = map (\<lambda>t. take 100 (strip t)) (filter (\<lambda>t. strip t \<noteq> []) (List.map_filter str_only (take 20 xs)))
           in if items = [] then None else Some (json_strs items))
      | _ \<Rightarrow> None)"

definition first_value :: "json list \<Rightarrow> json" where
  "first_value vs = (case filter (\<lambda>v. v \<noteq> JNull) vs of [] \<Rightarrow> JNull | v # _ \<Rightarrow> v)"

definition hints_from_parsing :: "json \<Rightarrow> json" where
  "hints_from_parsing v =
     (case v of
        JObj d \<Rightarrow>
          (let combined = payload_object (get_or d ''defaults'' JNull);
               with_fields = (case get_or d ''required_fields'' JNull of
                   JArr xs \<Rightarrow> dict_put ''required_fields'' (JArr xs) combined | _ \<Rightarrow> combined)
           in JObj (case get_or d ''prompt_hints'' JNull of
                JArr xs \<Rightarrow> dict_put ''recipe_hints'' (JArr xs) with_fields | _ \<Rightarrow> with_fields))
      | _ \<Rightarrow> JNull)"

definition source_parser_hints :: "(string, json) dict \<Rightarrow> (string, json) dict" where
  "source_parser_hints pl =
     (case first_value
         [get_or pl ''source_parser_hints'' JNull, get_or pl ''parser_hints'' JNull,
          get_or pl ''extraction_hints'' JNull,
          get_or (payload_object (get_or pl ''source_parser'' JNull)) ''extraction_hints'' JNull,
          hints_from_parsing (get_or pl ''source_parsing'' JNull)] of
        JObj raw \<Rightarrow>
          fold (\<lambda>(k, v) hints.
              if strip k \<notin> set parser_hint_keys then hints
              else (case safe_parser_hint_value v of None \<Rightarrow> hints | Some x \<Rightarrow> dict_put (strip k) x hints)) raw []
      | _ \<Rightarrow> [])"

definition required_listing_fields :: "(string, json) dict \<Rightarrow> string list" where
  "required_listing_fields hints =
     (case get_or hints ''required_fields'' JNull of
        JArr xs \<Rightarrow> rev (remdups (rev (map strip (filter (\<lambda>t. strip t \<noteq> []) (List.map_filter str_only xs)))))
      | _ \<Rightarrow> [])"

section \<open>Judging an extraction\<close>

definition raw_content :: "listing_raw \<Rightarrow> (string, json) dict" where
  "raw_content l =
     (let num = (\<lambda>v. case v of None \<Rightarrow> JNull | Some r \<Rightarrow> JNum r) in
      [(''price'', num (lr_price l)), (''currency'', json_opt (lr_currency l)),
       (''price_period'', json_opt (map_option period_text (lr_price_period l))),
       (''price_basis'', json_opt (map_option basis_text (lr_price_basis l))),
       (''listing_type'', json_opt (map_option kind_text (lr_listing_type l))),
       (''rooms'', int_json (lr_rooms l)), (''area_sqm'', num (lr_area_sqm l)), (''floor'', int_json (lr_floor l)),
       (''total_floors'', int_json (lr_total_floors l)), (''district'', json_opt (lr_district l)),
       (''address'', json_opt (lr_address l)), (''phone_numbers'', json_strs (lr_phone_numbers l)),
       (''owner_type'', json_opt (map_option owner_text (lr_owner_type l))),
       (''renovation_level'', json_opt (map_option level_text (lr_renovation_level l))),
       (''renovation_source'', JStr (source_text_of (lr_renovation_source l))),
       (''furniture'', case lr_furniture l of None \<Rightarrow> JNull | Some b \<Rightarrow> JBool b),
       (''description'', json_opt (lr_description l)), (''audience_tags'', json_strs (lr_audience_tags l)),
       (''audience_excluded_tags'', json_strs (lr_audience_excluded_tags l)),
       (''confidence'', JNum (lr_confidence l)),
       (''is_rental_announcement'', case lr_is_rental l of None \<Rightarrow> JNull | Some b \<Rightarrow> JBool b),
       (''rental_confidence'', num (lr_rental_confidence l)),
       (''field_confidence'', JObj (map (\<lambda>(k, r). (k, JNum r)) (lr_field_confidence l)))])"

definition missing_required_listing_fields :: "listing_raw \<Rightarrow> string list \<Rightarrow> string list" where
  "missing_required_listing_fields l needed =
     filter (\<lambda>f. \<not> has_meaningful_value (get_or (raw_content l) f JNull)) needed"

definition rental_rejection :: "rat \<Rightarrow> listing_raw \<Rightarrow> rat \<Rightarrow> string option" where
  "rental_rejection min_confidence l response_confidence =
     (let rental_confidence = (case lr_rental_confidence l of Some c \<Rightarrow> c | None \<Rightarrow> response_confidence);
          conflict = (lr_is_rental l = Some True \<and> lr_listing_type l = Some Sale \<or>
            lr_is_rental l = Some False \<and> lr_listing_type l = Some Rent);
          is_rental = (if conflict then False
            else case lr_is_rental l of Some b \<Rightarrow> b | None \<Rightarrow> lr_listing_type l \<noteq> Some Sale)
      in if \<not> is_rental \<or> rental_confidence \<le> min_confidence
         then Some (if conflict then ''contradictory_rental_classification''
                    else if \<not> is_rental then ''not_a_rental_announcement''
                    else ''rental_confidence_below_threshold'')
         else None)"

definition has_essential_fields :: "canonical_listing \<Rightarrow> bool" where
  "has_essential_fields c \<longleftrightarrow>
     cl_price c \<noteq> None \<or> cl_rooms c \<noteq> None \<or> cl_district c \<noteq> None \<or> cl_phone_numbers c \<noteq> []"

definition listing_verdict ::
  "rat \<Rightarrow> canonical_listing \<Rightarrow> string list \<Rightarrow> processing_status \<times> string option" where
  "listing_verdict min_confidence c missing =
     (let junk = (length (strip (cl_description c)) < 5 \<or> \<not> has_essential_fields c) in
      if cl_confidence c < 40 / 100 \<or> junk \<and> cl_confidence c < 60 / 100
      then (FailedRecord, Some (if \<not> has_essential_fields c then ''rejected_not_real_estate_listing''
              else ''low_relevance_score''))
      else if missing \<noteq> []
      then (ReviewRecord, Some (''source_required_fields_missing:'' @ join '','' missing))
      else if cl_confidence c < min_confidence \<or> junk
      then (ReviewRecord, Some (if junk then ''missing_essential_fields'' else ''low_confidence''))
      else (SucceededRecord, None))"

section \<open>Processing a message\<close>

text \<open>What the \<open>try\<close> block of \<open>process_raw_queue_message\<close> may raise.\<close>

datatype worker_error = ModelsFailed "llm_attempt list" | Raised py_error

definition base_record :: "raw_event \<Rightarrow> (string, json) dict \<Rightarrow> processing_status \<Rightarrow> ai_record" where
  "base_record ev parsing status =
     \<lparr>ar_idempotency_key = ev_idempotency_key ev, ar_status = status, ar_correlation_id = ev_correlation_id ev,
      ar_canonical = None, ar_media = [], ar_attempts = [], ar_source_parsing = parsing, ar_error_type = None,
      ar_failure_reason = None, ar_post_ai_published = False\<rparr>"

definition resolve_listing_tags ::
  "ai_env \<Rightarrow> time \<Rightarrow> listing_raw \<Rightarrow> ai_state \<Rightarrow> (listing_raw \<times> string list \<times> string list option) res \<times> ai_state" where
  "resolve_listing_tags W now l s =
     (if \<not> aw_tag_service W then (Inr (l, [], None), s)
      else
        (case resolve_for_canonical (aw_tag_ratio W) (aw_tag_threshold W) now (lr_audience_tags l) (as_tags s) of
           (Inl e, t1) \<Rightarrow> (Inl e, s\<lparr>as_tags := t1\<rparr>)
         | (Inr (approved, audit1), t1) \<Rightarrow>
             (case resolve_for_canonical (aw_tag_ratio W) (aw_tag_threshold W) now (lr_audience_excluded_tags l) t1 of
                (Inl e, t2) \<Rightarrow> (Inl e, s\<lparr>as_tags := t2\<rparr>)
              | (Inr (excluded, audit2), t2) \<Rightarrow>
                  (Inr (l\<lparr>lr_audience_tags := approved, lr_audience_excluded_tags := excluded\<rparr>,
                     audit1 @ audit2, Some (approved @ excluded)), s\<lparr>as_tags := t2\<rparr>))))"

text \<open>From the canonical listing on: save, publish, save again.\<close>

definition conclude ::
  "ai_env \<Rightarrow> (message \<Rightarrow> bool) \<Rightarrow> raw_event \<Rightarrow> (string, json) dict \<Rightarrow> ai_record \<Rightarrow> ai_state \<Rightarrow>
   (worker_error + ai_record) \<times> ai_state" where
  "conclude W accepts ev pl r s =
     (if ar_status r = FailedRecord
      then (Inr r, ops_note ''warning'' (ev_correlation_id ev) (save_record r s))
      else
        (case publish_post_ai W accepts ev r pl (save_record r s) of
           (Inl e, s1) \<Rightarrow> (Inl (Raised e), s1)
         | (Inr _, s1) \<Rightarrow>
             (let r1 = r\<lparr>ar_post_ai_published := True\<rparr> in
              (Inr r1, ops_note (if ar_status r = SucceededRecord then ''info'' else ''warning'') (ev_correlation_id ev)
                 (save_record r1 s1)))))"

definition judge_response ::
  "ai_env \<Rightarrow> (message \<Rightarrow> bool) \<Rightarrow> time \<Rightarrow> raw_event \<Rightarrow> (string, json) dict \<Rightarrow> string list \<Rightarrow> stored_media list \<Rightarrow>
   llm_response \<Rightarrow> llm_attempt list \<Rightarrow> ai_state \<Rightarrow> (worker_error + ai_record) \<times> ai_state" where
  "judge_response W accepts now ev pl needed media rs attempts s =
     (let parsing = source_parsing_audit_payload pl in
      case aw_extract W (rs_content rs) of
        None \<Rightarrow> (Inl (Raised (ValidationError ''ListingExtractionRaw'')), s)
      | Some l0 \<Rightarrow>
          (case rental_rejection (aw_rental_min_confidence W) l0 (rs_confidence rs) of
             Some reason \<Rightarrow>
               (let r = (base_record ev parsing FailedRecord)
                      \<lparr>ar_attempts := attempts, ar_failure_reason := Some reason\<rparr>
                in (Inr r, ops_note ''info'' (ev_correlation_id ev) (save_record r s)))
           | None \<Rightarrow>
               (case resolve_listing_tags W now l0 s of
                  (Inl e, s1) \<Rightarrow> (Inl (Raised e), s1)
                | (Inr (l, assumptions, allowed), s1) \<Rightarrow>
                    (let c = normalize_listing l (aw_prompt_version W) (ev_text ev) allowed False assumptions in
                     case listing_verdict (aw_min_confidence W) c (missing_required_listing_fields l0 needed) of
                       (status, reason) \<Rightarrow>
                         conclude W accepts ev pl
                           ((base_record ev parsing status)\<lparr>ar_canonical := Some c, ar_media := media,
                              ar_attempts := attempts, ar_failure_reason := reason\<rparr>) s1))))"

definition worker_request :: "ai_env \<Rightarrow> string list \<Rightarrow> llm_request" where
  "worker_request W needed =
     \<lparr>rq_min_confidence = aw_min_confidence W, rq_listing_quality = True, rq_required_listing_fields = needed,
      rq_schema_required = aw_schema_required W, rq_schema_properties = aw_schema_properties W,
      rq_validator = Some (\<lambda>content. case aw_extract W content of
          None \<Rightarrow> ValidationRaised | Some l \<Rightarrow> ValidatedAs (raw_content l))\<rparr>"

definition extract_listing ::
  "ai_env \<Rightarrow> (message \<Rightarrow> bool) \<Rightarrow> time \<Rightarrow> (nat \<Rightarrow> string \<Rightarrow> llm_answer) \<Rightarrow> (nat \<Rightarrow> int) \<Rightarrow> raw_event \<Rightarrow>
   (string, json) dict \<Rightarrow> ai_state \<Rightarrow> (worker_error + ai_record) \<times> ai_state" where
  "extract_listing W accepts now ask latency ev pl s =
     (case prepare_and_store (aw_media W) (ev_idempotency_key ev) (ev_media ev) (as_storage s) of
        (Inl e, st) \<Rightarrow> (Inl (Raised e), s\<lparr>as_storage := st\<rparr>)
      | (Inr media, st) \<Rightarrow>
          (let s1 = s\<lparr>as_storage := st\<rparr>;
               needed = required_listing_fields (source_parser_hints pl)
           in case complete_json (worker_request W needed) ask latency (aw_models W) of
                (AllModelsFailed attempts, _) \<Rightarrow> (Inl (ModelsFailed attempts), s1)
              | (Escaped e, _) \<Rightarrow> (Inl (Raised e), s1)
              | (Completed rs attempts, _) \<Rightarrow>
                  judge_response W accepts now ev pl needed media rs attempts
                    (record_ai_attempt_metrics (ev_idempotency_key ev) attempts s1)))"

text \<open>
  The classes of the last handler, \<open>(LLMError, RuntimeError, ValidationError)\<close>; \<open>QueuePublishError\<close> and the
  errors of media and of the language models are subclasses of \<open>RuntimeError\<close>.
\<close>

definition caught_by_worker :: "py_error \<Rightarrow> bool" where
  "caught_by_worker e =
     (case e of RuntimeError _ \<Rightarrow> True | QueuePublishError _ \<Rightarrow> True | ValidationError _ \<Rightarrow> True
      | OtherError c _ \<Rightarrow> c \<in> {''LLMError'', ''LLMConfigurationError'', ''LLMTransportError'',
          ''LLMMalformedResponseError'', ''MediaDownloadError'', ''MediaProcessingError''}
      | _ \<Rightarrow> False)"

definition failed_record :: "raw_event \<Rightarrow> (string, json) dict \<Rightarrow> llm_attempt list \<Rightarrow> string \<Rightarrow> string \<Rightarrow> ai_record" where
  "failed_record ev pl attempts error_name reason =
     (base_record ev (source_parsing_audit_payload pl) FailedRecord)
       \<lparr>ar_attempts := attempts, ar_error_type := Some error_name, ar_failure_reason := Some reason\<rparr>"

definition handle_worker_error ::
  "raw_event \<Rightarrow> (string, json) dict \<Rightarrow> worker_error \<Rightarrow> ai_state \<Rightarrow> ai_record res \<times> ai_state" where
  "handle_worker_error ev pl err s =
     (let finish = (\<lambda>r s. (Inr r, ops_note ''critical'' (ev_correlation_id ev) (save_record r s))) in
      case err of
        ModelsFailed attempts \<Rightarrow>
          finish (failed_record ev pl attempts ''LLMAllModelsFailedError'' ''all_models_failed'')
            (record_ai_attempt_metrics (ev_idempotency_key ev) attempts s)
      | Raised (StorageUploadError message retryable) \<Rightarrow>
          finish (failed_record ev pl [] ''StorageUploadError''
              (if retryable then ''storage_retryable'' else ''storage_permanent''))
            (count_metric_of ''ai_validation_failure'' (''ai_storage_failure:'' @ ev_idempotency_key ev) s)
      | Raised e \<Rightarrow>
          if caught_by_worker e
          then finish (failed_record ev pl [] (error_class e) (error_class e))
            (count_metric_of ''ai_validation_failure'' (''ai_validation_failure:'' @ ev_idempotency_key ev) s)
          else (Inl e, s))"

definition process_ai_event ::
  "ai_env \<Rightarrow> (message \<Rightarrow> bool) \<Rightarrow> time \<Rightarrow> (nat \<Rightarrow> string \<Rightarrow> llm_answer) \<Rightarrow> (nat \<Rightarrow> int) \<Rightarrow> raw_event \<Rightarrow>
   (string, json) dict \<Rightarrow> ai_state \<Rightarrow> ai_record res \<times> ai_state" where
  "process_ai_event W accepts now ask latency ev pl s =
     (let again = (\<lambda>r. then_do (publish_post_ai W accepts ev r pl s) (\<lambda>_ s1.
            let r1 = r\<lparr>ar_post_ai_published := True\<rparr> in (Inr r1, save_record r1 s1)));
          fresh = (case extract_listing W accepts now ask latency ev pl s of
              (Inr r, s1) \<Rightarrow> (Inr r, s1)
            | (Inl err, s1) \<Rightarrow> handle_worker_error ev pl err s1)
      in case dict_get (as_records s) (ev_idempotency_key ev) of
           Some r \<Rightarrow>
             if ar_status r = FailedRecord then fresh
             else if ar_post_ai_published r then (Inr r, s) else again r
         | None \<Rightarrow> fresh)"

definition process_ai_message ::
  "ai_env \<Rightarrow> (message \<Rightarrow> bool) \<Rightarrow> time \<Rightarrow> (nat \<Rightarrow> string \<Rightarrow> llm_answer) \<Rightarrow> (nat \<Rightarrow> int) \<Rightarrow> message \<Rightarrow> ai_state \<Rightarrow>
   ai_record res \<times> ai_state" where
  "process_ai_message W accepts now ask latency m s =
     (case payload m of
        JObj pl \<Rightarrow>
          then_do (from_queue_payload (aw_text W) pl, s) (\<lambda>ev. process_ai_event W accepts now ask latency ev pl)
      | _ \<Rightarrow> (Inl (TypeError ''payload''), s))"

end
