(* ===== verification/EF_Handover.thy ===== *)
theory EF_Handover
  imports EF_AiWorker
begin

text \<open>
  From extraction to deduplication: \<open>StructuredAnnouncement.from_payload\<close> (\<open>services/post_ai_dedup.py\<close>) reads the
  message that \<open>AiExtractionWorker\<close> publishes. Pydantic reads each field of the listing by its declared type;
  \<open>dec_of\<close> reads a \<open>Decimal\<close> and \<open>uuid5\<close> derives the announcement id.
\<close>

section \<open>Reading a payload\<close>

definition strings_of :: "json list \<Rightarrow> string list option" where
  "strings_of xs = (if list_all (\<lambda>x. str_only x \<noteq> None) xs then Some (List.map_filter str_only xs) else None)"

definition numbers_of :: "(string, json) dict \<Rightarrow> (string, rat) dict option" where
  "numbers_of d =
     (if list_all (\<lambda>(k, v). case v of JNum r \<Rightarrow> True | _ \<Rightarrow> False) d
      then Some (map (\<lambda>(k, v). (k, case v of JNum r \<Rightarrow> r | _ \<Rightarrow> 0)) d) else None)"

text \<open>A value that does not fit its field becomes one that \<open>model_validate\<close> refuses.\<close>

definition json_field :: "(string \<Rightarrow> rat option) \<Rightarrow> string \<Rightarrow> json \<Rightarrow> fval" where
  "json_field dec_of k v =
     (if v = JNull then FNone
      else if k \<in> {''price'', ''price_normalized_monthly'', ''area_sqm''}
      then (case v of JStr t \<Rightarrow> (case dec_of t of Some r \<Rightarrow> FDec r | None \<Rightarrow> FStr t) | JNum r \<Rightarrow> FDec r | _ \<Rightarrow> FBool False)
      else if k \<in> {''rooms'', ''floor'', ''total_floors''}
      then (case v of JNum r \<Rightarrow> (if r = of_int \<lfloor>r\<rfloor> then FInt \<lfloor>r\<rfloor> else FFloat r) | _ \<Rightarrow> FBool False)
      else case v of
        JStr t \<Rightarrow> FStr t | JBool b \<Rightarrow> FBool b | JNum r \<Rightarrow> FFloat r
      | JArr xs \<Rightarrow> (case strings_of xs of Some ts \<Rightarrow> FStrs ts | None \<Rightarrow> FBool False)
      | JObj d \<Rightarrow> (case numbers_of d of Some m \<Rightarrow> FMap m | None \<Rightarrow> FBool False)
      | JNull \<Rightarrow> FNone)"

definition canonical_of_json :: "(string \<Rightarrow> rat option) \<Rightarrow> (string, json) dict \<Rightarrow> canonical_listing res" where
  "canonical_of_json dec_of d = model_validate (map (\<lambda>(k, v). (k, json_field dec_of k v)) d)"

definition require_str :: "(string, json) dict \<Rightarrow> string \<Rightarrow> string res" where
  "require_str d k =
     res_bind (require d k) (\<lambda>v. case v of JStr t \<Rightarrow> Inr t | _ \<Rightarrow> Inl (TypeError k))"

definition require_int :: "(string, json) dict \<Rightarrow> string \<Rightarrow> int res" where
  "require_int d k =
     res_bind (require d k) (\<lambda>v. case int_only v of Some n \<Rightarrow> Inr n | None \<Rightarrow> Inl (TypeError k))"

definition optional_int :: "(string, json) dict \<Rightarrow> string \<Rightarrow> int option res" where
  "optional_int d k =
     (case get_or d k JNull of
        JNull \<Rightarrow> Inr None
      | v \<Rightarrow> (case int_only v of Some n \<Rightarrow> Inr (Some n) | None \<Rightarrow> Inl (TypeError k)))"

definition text_dict :: "json \<Rightarrow> (string, string) dict res" where
  "text_dict v =
     (case v of
        JObj d \<Rightarrow> (if list_all (\<lambda>(k, x). str_only x \<noteq> None) d then Inr (map (\<lambda>(k, x). (k, the (str_only x))) d)
                else Inl (TypeError ''metadata''))
      | _ \<Rightarrow> Inl (TypeError ''metadata''))"

definition stored_media_fields :: "string list" where
  "stored_media_fields = [''media_id'', ''storage_url'', ''object_key'', ''mime_type'', ''size_bytes'', ''phash'',
     ''content_sha256'', ''width'', ''height'', ''metadata'']"

definition stored_media_of_json :: "json \<Rightarrow> stored_media res" where
  "stored_media_of_json v =
     (case v of
        JObj d \<Rightarrow>
          if list_ex (\<lambda>k. k \<notin> set stored_media_fields) (dict_keys d)
          then Inl (TypeError ''unexpected keyword argument'')
          else
            res_bind (require_str d ''media_id'') (\<lambda>i.
            res_bind (require_str d ''storage_url'') (\<lambda>url.
            res_bind (require_str d ''object_key'') (\<lambda>key.
            res_bind (require_str d ''mime_type'') (\<lambda>mime.
            res_bind (require_int d ''size_bytes'') (\<lambda>size.
            res_bind (require_str d ''phash'') (\<lambda>ph.
            res_bind (require_str d ''content_sha256'') (\<lambda>sha.
            res_bind (optional_int d ''width'') (\<lambda>w.
            res_bind (optional_int d ''height'') (\<lambda>h.
            res_bind (text_dict (get_or d ''metadata'' (JObj []))) (\<lambda>md.
              Inr \<lparr>sm_media_id = i, sm_storage_url = url, sm_object_key = key, sm_mime_type = mime,
                sm_size_bytes = size, sm_phash = ph, sm_content_sha256 = sha, sm_width = w, sm_height = h,
                sm_metadata = md\<rparr>))))))))))
      | _ \<Rightarrow> Inl (TypeError ''argument after ** must be a mapping''))"

definition review_reason_of :: "json \<Rightarrow> review_reason option" where
  "review_reason_of v =
     (if v = JStr ''low_confidence'' then Some LowConfidence else if falsy v then None else Some BusinessQuality)"

definition announcement_from_payload ::
  "text_env \<Rightarrow> (string \<Rightarrow> rat option) \<Rightarrow> (string \<Rightarrow> string) \<Rightarrow> time \<Rightarrow> (string, json) dict \<Rightarrow> announcement res" where
  "announcement_from_payload E dec_of uuid5 now d =
     res_bind (require_str d ''idempotency_key'') (\<lambda>key.
     res_bind (required_text E d ''source_message_id'') (\<lambda>msg.
     res_bind (require_str d ''source_id'') (\<lambda>source.
     res_bind (require_str d ''source_channel_id'') (\<lambda>channel.
     res_bind (require_str d ''occurred_at'') (\<lambda>occurred_text.
     res_bind (case te_of_iso E occurred_text of
         None \<Rightarrow> Inl (ValueError ''Invalid isoformat string'') | Some t \<Rightarrow> Inr t) (\<lambda>occurred.
     res_bind (require d ''canonical'') (\<lambda>cj.
     res_bind (case cj of JObj c \<Rightarrow> canonical_of_json dec_of c | _ \<Rightarrow> Inl (ValidationError ''CanonicalListing'')) (\<lambda>canonical.
     res_bind (json_list (get_or d ''media'' (JArr []))) (\<lambda>items.
     res_bind (res_all (map stored_media_of_json items)) (\<lambda>media.
     res_bind (optional_text d ''source_url'') (\<lambda>url.
     res_bind (optional_text d ''forward_origin_key'') (\<lambda>origin.
       let listed = (case get_or d ''source_message_ids'' JNull of
             JArr xs \<Rightarrow> map (py_str E) (filter (\<lambda>x. x \<noteq> JNull) xs) | _ \<Rightarrow> []);
           reason = review_reason_of (get_or d ''manual_review_reason'' JNull)
       in Inr \<lparr>an_id = uuid5 key, an_idempotency_key = key, an_source_id = source, an_source_channel_id = channel,
            an_source_message_id = msg, an_occurred_at = occurred, an_canonical = canonical, an_media = media,
            an_source_url = url, an_forward_origin_key = origin,
            an_source_message_ids = (if listed = [] then [msg] else listed),
            an_trusted_source_score = 0, an_parent_id = None,
            an_status = (if reason = None then ActiveAnn else ManualReviewAnn), an_source_count = 1,
            an_latest_source_id = None, an_review_reason = reason, an_created_at = now,
            an_updated_at = now\<rparr>))))))))))))"

section \<open>What the worker publishes is what is read\<close>

lemma strings_of_json [simp]: "strings_of (map JStr ts) = Some ts"
proof -
  have "list_all (\<lambda>x. str_only x \<noteq> None) (map JStr ts)" and "List.map_filter str_only (map JStr ts) = ts"
    by (induction ts) (simp_all add: str_only_def map_filter_simps)
  then show ?thesis by (simp only: strings_of_def if_True)
qed

lemma numbers_of_json [simp]: "numbers_of (map (\<lambda>(k, r). (k, JNum r)) m) = Some m"
  unfolding numbers_of_def by (subst if_P) (induction m; auto)+

text \<open>A field and a value of its declared type.\<close>

definition fits :: "string \<Rightarrow> fval \<Rightarrow> bool" where
  "fits k v \<longleftrightarrow>
     (if k \<in> {''price'', ''price_normalized_monthly'', ''area_sqm''} then (case v of FNone \<Rightarrow> True | FDec r \<Rightarrow> True | _ \<Rightarrow> False)
      else if k \<in> {''rooms'', ''floor'', ''total_floors''} then (case v of FNone \<Rightarrow> True | FInt i \<Rightarrow> True | _ \<Rightarrow> False)
      else (case v of FDec r \<Rightarrow> False | FInt i \<Rightarrow> False | _ \<Rightarrow> True))"

lemma json_field_fits:
  "(\<And>r. v = FDec r \<Longrightarrow> dec_of (dec r) = Some r) \<Longrightarrow> fits k v \<Longrightarrow> json_field dec_of k (fval_json dec v) = v"
  by (cases v) (auto simp: fits_def json_field_def fval_json_def json_strs_def split: if_splits)

lemma fits_dump: "(k, v) \<in> set (model_dump c) \<Longrightarrow> fits k v"
proof -
  have "list_all (\<lambda>(k, v). fits k v) (model_dump c)"
    by (simp add: model_dump_def fits_def f_opt_def split: option.split)
  then show "(k, v) \<in> set (model_dump c) \<Longrightarrow> fits k v" by (auto simp: list_all_iff)
qed

text \<open>The exact decimals of a listing.\<close>

definition decimals_of :: "canonical_listing \<Rightarrow> rat list" where
  "decimals_of c = List.map_filter id [cl_price c, cl_price_normalized_monthly c, cl_area_sqm c]"

lemma dumped_decimal:
  assumes "(k, FDec r) \<in> set (model_dump c)"
  shows "r \<in> set (decimals_of c)"
proof -
  have "list_all (\<lambda>(k, v). \<forall>q. v = FDec q \<longrightarrow> q \<in> set (decimals_of c)) (model_dump c)"
    by (simp add: model_dump_def f_opt_def decimals_of_def map_filter_simps split: option.split)
  with assms show ?thesis by (auto simp: list_all_iff)
qed

lemma canonical_of_dump:
  assumes "\<And>r. r \<in> set (decimals_of c) \<Longrightarrow> dec_of (dec r) = Some r"
  shows "canonical_of_json dec_of (canonical_json dec c) = Inr c"
proof -
  have "map (\<lambda>(k, v). (k, json_field dec_of k v)) (canonical_json dec c) = map id (model_dump c)"
    unfolding canonical_json_def map_map
    by (rule map_cong) (auto intro!: json_field_fits assms dest: dumped_decimal fits_dump)
  then show ?thesis by (simp add: canonical_of_json_def)
qed

lemma int_json_get: "dict_get d k = Some (int_json i) \<Longrightarrow> optional_int d k = Inr i"
  by (cases i) (simp_all add: optional_int_def get_or_def int_json_def int_only_def)

lemma stored_media_json_read: "stored_media_of_json (stored_media_json m) = Inr m"
proof -
  have "text_dict (JObj (map (\<lambda>(k, v). (k, JStr v)) d)) = Inr d" for d
  proof -
    have "list_all (\<lambda>(k, x). str_only x \<noteq> None) (map (\<lambda>(k, v). (k, JStr v)) d)"
      and "map (\<lambda>(k, x). (k, the (str_only x))) (map (\<lambda>(k, v). (k, JStr v)) d) = d"
      by (induction d) (auto simp: str_only_def)
    then show ?thesis by (simp add: text_dict_def)
  qed
  then show ?thesis
    by (simp add: stored_media_json_def stored_media_of_json_def stored_media_fields_def require_str_def
        require_int_def require_def get_or_def int_only_def int_json_get)
qed

lemma media_list_read: "res_all (map stored_media_of_json (map stored_media_json ms)) = Inr ms"
  by (induction ms) (simp_all add: stored_media_json_read)


text \<open>The announcement that arrives at deduplication for an event \<open>ev\<close> and the record \<open>r\<close> with listing \<open>c\<close>.\<close>

definition handed_over ::
  "(string \<Rightarrow> string) \<Rightarrow> time \<Rightarrow> raw_event \<Rightarrow> ai_record \<Rightarrow> canonical_listing \<Rightarrow> announcement" where
  "handed_over uuid5 now ev r c =
     (let reason = (case (ar_status r, ar_failure_reason r) of
          (ReviewRecord, Some why) \<Rightarrow>
            if why = ''low_confidence'' then Some LowConfidence else if why = [] then None else Some BusinessQuality
        | _ \<Rightarrow> None)
      in \<lparr>an_id = uuid5 (ev_idempotency_key ev), an_idempotency_key = ev_idempotency_key ev,
        an_source_id = ev_source_id ev, an_source_channel_id = ev_source_channel_id ev,
        an_source_message_id = ev_source_message_id ev, an_occurred_at = ev_occurred_at ev, an_canonical = c,
        an_media = ar_media r, an_source_url = ev_source_url ev,
        an_forward_origin_key = forward_origin_key (ev_forward_metadata ev),
        an_source_message_ids =
          (if ev_source_message_ids ev = [] then [ev_source_message_id ev] else ev_source_message_ids ev),
        an_trusted_source_score = 0, an_parent_id = None,
        an_status = (if reason = None then ActiveAnn else ManualReviewAnn), an_source_count = 1,
        an_latest_source_id = None, an_review_reason = reason, an_created_at = now, an_updated_at = now\<rparr>)"

lemma review_reason_json:
  "review_reason_of (if st = ReviewRecord then json_opt why else JNull) =
     (case (st, why) of
        (ReviewRecord, Some t) \<Rightarrow>
          if t = ''low_confidence'' then Some LowConfidence else if t = [] then None else Some BusinessQuality
      | _ \<Rightarrow> None)"
  by (cases st; cases why) (auto simp: review_reason_of_def json_opt_def falsy_def)

lemma listed_ids [simp]: "filter (\<lambda>x. x \<noteq> JNull) (map JStr ids) = map JStr ids"
  by (induction ids) auto

lemma post_ai_payload_get:
  "dict_get (post_ai_payload W ev r c pl) ''idempotency_key'' = Some (JStr (ev_idempotency_key ev))"
  "dict_get (post_ai_payload W ev r c pl) ''source_id'' = Some (JStr (ev_source_id ev))"
  "dict_get (post_ai_payload W ev r c pl) ''source_channel_id'' = Some (JStr (ev_source_channel_id ev))"
  "dict_get (post_ai_payload W ev r c pl) ''source_message_id'' = Some (JStr (ev_source_message_id ev))"
  "dict_get (post_ai_payload W ev r c pl) ''source_message_ids'' = Some (json_strs (ev_source_message_ids ev))"
  "dict_get (post_ai_payload W ev r c pl) ''source_url'' = Some (json_opt (ev_source_url ev))"
  "dict_get (post_ai_payload W ev r c pl) ''forward_origin_key'' =
     Some (json_opt (forward_origin_key (ev_forward_metadata ev)))"
  "dict_get (post_ai_payload W ev r c pl) ''occurred_at'' = Some (JStr (te_to_iso (aw_text W) (ev_occurred_at ev)))"
  "dict_get (post_ai_payload W ev r c pl) ''canonical'' = Some (JObj (canonical_json (aw_decimal W) c))"
  "dict_get (post_ai_payload W ev r c pl) ''media'' = Some (JArr (map stored_media_json (ar_media r)))"
  "dict_get (post_ai_payload W ev r c pl) ''manual_review_reason'' =
     Some (if ar_status r = ReviewRecord then json_opt (ar_failure_reason r) else JNull)"
  by (simp_all add: post_ai_payload_def Let_def)

text \<open>
  The message that the extraction worker publishes is read by deduplication as exactly the listing it
  extracted: the canonical listing with every field, the stored media with their hashes, the source
  identities, and the review reason, which decides between an active and a held announcement.
\<close>

theorem hand_over_round_trip:
  assumes "\<And>r. r \<in> set (decimals_of c) \<Longrightarrow> dec_of (aw_decimal W r) = Some r"
    and "te_of_iso (aw_text W) (te_to_iso (aw_text W) (ev_occurred_at ev)) = Some (ev_occurred_at ev)"
  shows "announcement_from_payload (aw_text W) dec_of uuid5 now (post_ai_payload W ev r c pl) =
     Inr (handed_over uuid5 now ev r c)"
proof -
  have "map (py_str (aw_text W)) (map JStr ids) = ids" for ids by (simp add: comp_def)
  then show ?thesis
    using assms(2) canonical_of_dump [OF assms(1)]
    unfolding announcement_from_payload_def
    by (simp add: require_str_def required_text_def require_def get_or_def json_list_def json_strs_def
        optional_text_opt post_ai_payload_get media_list_read review_reason_json handed_over_def Let_def
        del: map_map)
qed

text \<open>Worker settings for concrete runs: whole numbers as decimals, one model, every answer the given extraction.\<close>

definition sample_ai_env :: "listing_raw option \<Rightarrow> ai_env" where
  "sample_ai_env raw = \<lparr>aw_media = sample_media_env, aw_models = [''m''], aw_min_confidence = 7 / 10,
     aw_rental_min_confidence = 1 / 2, aw_prompt_version = ''v1'', aw_tag_service = True,
     aw_tag_ratio = (\<lambda>a b. if a = b then 1 else 0), aw_tag_threshold = 9 / 10,
     aw_extract = (\<lambda>d. raw), aw_schema_required = [], aw_schema_properties = None,
     aw_decimal = (\<lambda>r. str_int \<lfloor>r\<rfloor>)\<rparr>"

definition sample_listing :: canonical_listing where
  "sample_listing = normalize_listing empty_raw ''v1'' (Some ''2 xona'') None False []"

lemma hand_over_round_trip_witness:
  "announcement_from_payload sample_env (\<lambda>t. map_option of_int (py_int t)) (\<lambda>k. k) 5
     (post_ai_payload (sample_ai_env None) (sample_event ''k'' ''2 xona'')
        ((base_record (sample_event ''k'' ''2 xona'') [] ReviewRecord)\<lparr>ar_failure_reason := Some ''low_confidence''\<rparr>)
        sample_listing []) =
   Inr (handed_over (\<lambda>k. k) 5 (sample_event ''k'' ''2 xona'')
        ((base_record (sample_event ''k'' ''2 xona'') [] ReviewRecord)\<lparr>ar_failure_reason := Some ''low_confidence''\<rparr>)
        sample_listing)"
proof -
  have W: "aw_text (sample_ai_env None) = sample_env"
    by (simp add: sample_ai_env_def sample_media_env_def)
  have decs: "decimals_of sample_listing = [10, 300]" by code_simp
  have "map_option of_int (py_int (aw_decimal (sample_ai_env None) r)) = Some r"
    if "r \<in> set (decimals_of sample_listing)" for r
  proof -
    have "r = 10 \<or> r = 300" using that by (simp add: decs)
    moreover have "py_int (str_int 10) = Some 10" "py_int (str_int 300) = Some 300" by code_simp+
    ultimately show ?thesis by (auto simp: sample_ai_env_def)
  qed
  moreover have "te_of_iso sample_env (te_to_iso sample_env (ev_occurred_at (sample_event ''k'' ''2 xona''))) =
      Some (ev_occurred_at (sample_event ''k'' ''2 xona''))" by code_simp
  ultimately show ?thesis
    using hand_over_round_trip [of sample_listing "\<lambda>t. map_option of_int (py_int t)" "sample_ai_env None"
        "sample_event ''k'' ''2 xona''"]
    unfolding W by simp
qed

end
