(* ===== verification/EF_AiOutcome.thy ===== *)
theory EF_AiOutcome
  imports EF_Handover
begin

text \<open>
  What the extraction worker guarantees over any sequence of deliveries: each idempotency key is published at
  most once and only with an accepted record behind it, and what it does with a refusing queue and with an
  extraction whose audience tags do not normalise.
\<close>

section \<open>What a step may touch\<close>

definition published_key :: "message \<Rightarrow> json option" where
  "published_key m = dict_get (metadata m) ''idempotency_key''"

definition accepted_record :: "ai_record \<Rightarrow> bool" where
  "accepted_record r \<longleftrightarrow> ar_status r \<noteq> FailedRecord \<and> ar_post_ai_published r"

text \<open>What a stored record says about its listing.\<close>

definition record_ok :: "rat \<Rightarrow> ai_record \<Rightarrow> bool" where
  "record_ok min_confidence r \<longleftrightarrow>
     (case ar_status r of
        FailedRecord \<Rightarrow> \<not> ar_post_ai_published r
      | ReviewRecord \<Rightarrow> (case ar_canonical r of None \<Rightarrow> False | Some c \<Rightarrow> 40 / 100 \<le> cl_confidence c)
      | SucceededRecord \<Rightarrow>
          (case ar_canonical r of
             None \<Rightarrow> False
           | Some c \<Rightarrow> 40 / 100 \<le> cl_confidence c \<and> min_confidence \<le> cl_confidence c \<and> has_essential_fields c \<and>
               5 \<le> length (strip (cl_description c))))"

text \<open>
  A step for key \<open>k\<close>: at most one message, of that key and with an accepted record; other records are untouched
  and a new record of \<open>k\<close> is well formed.
\<close>

definition step_for :: "ai_env \<Rightarrow> string \<Rightarrow> ai_state \<Rightarrow> ai_state \<Rightarrow> bool" where
  "step_for W k s s' \<longleftrightarrow>
     (as_published s' = as_published s \<or>
      (\<exists>m r. as_published s' = as_published s @ [m] \<and> published_key m = Some (JStr k) \<and>
         dict_get (as_records s') k = Some r \<and> accepted_record r)) \<and>
     (\<forall>i. i \<noteq> k \<longrightarrow> dict_get (as_records s') i = dict_get (as_records s) i) \<and>
     (dict_get (as_records s') k = dict_get (as_records s) k \<or>
      (\<exists>r. dict_get (as_records s') k = Some r \<and> ar_idempotency_key r = k \<and> record_ok (aw_min_confidence W) r))"

definition quiet_for :: "ai_env \<Rightarrow> string \<Rightarrow> ai_state \<Rightarrow> ai_state \<Rightarrow> bool" where
  "quiet_for W k s s' \<longleftrightarrow> step_for W k s s' \<and> as_published s' = as_published s"

lemma quiet_for_step: "quiet_for W k s s' \<Longrightarrow> step_for W k s s'"
  by (simp add: quiet_for_def)

lemma step_for_same: "as_published s' = as_published s \<Longrightarrow> as_records s' = as_records s \<Longrightarrow> quiet_for W k s s'"
  by (simp add: step_for_def quiet_for_def)

lemma quiet_for_refl [simp]: "quiet_for W k s s"
  by (rule step_for_same) simp_all

lemma quiet_then_step: "quiet_for W k s t \<Longrightarrow> step_for W k t u \<Longrightarrow> step_for W k s u"
  by (auto simp: step_for_def quiet_for_def)

lemma quiet_then_quiet: "quiet_for W k s t \<Longrightarrow> quiet_for W k t u \<Longrightarrow> quiet_for W k s u"
  by (auto simp: quiet_for_def intro: quiet_then_step [unfolded quiet_for_def])

lemma attempt_metrics_frame [simp]:
  "as_records (record_ai_attempt_metrics i xs s) = as_records s"
  "as_published (record_ai_attempt_metrics i xs s) = as_published s"
  "as_notes (record_ai_attempt_metrics i xs s) = as_notes s"
proof -
  have "as_records (fold (\<lambda>a. count_metric_of n (f a)) ys s) = as_records s \<and>
      as_notes (fold (\<lambda>a. count_metric_of n (f a)) ys s) = as_notes s \<and>
      as_published (fold (\<lambda>a. count_metric_of n (f a)) ys s) = as_published s"
    for n and f :: "llm_attempt \<Rightarrow> string" and ys
    by (induction ys arbitrary: s) (simp_all add: count_metric_of_def)
  then show "as_records (record_ai_attempt_metrics i xs s) = as_records s"
    and "as_published (record_ai_attempt_metrics i xs s) = as_published s"
    and "as_notes (record_ai_attempt_metrics i xs s) = as_notes s"
    by (simp_all add: record_ai_attempt_metrics_def)
qed

lemma note_frame [simp]:
  "as_records (ops_note sev c s) = as_records s" "as_published (ops_note sev c s) = as_published s"
  "as_records (count_metric_of n i s) = as_records s" "as_published (count_metric_of n i s) = as_published s"
  "as_published (save_record r s) = as_published s"
  "as_records (save_record r s) = dict_put (ar_idempotency_key r) r (as_records s)"
  by (simp_all add: ops_note_def count_metric_of_def save_record_def)

lemma saved_step:
  "as_published s' = as_published s \<Longrightarrow> as_records s' = dict_put k r (as_records s) \<Longrightarrow> ar_idempotency_key r = k \<Longrightarrow>
   record_ok (aw_min_confidence W) r \<Longrightarrow> quiet_for W k s s'"
  by (auto simp: quiet_for_def step_for_def dict_simps)

section \<open>Every path is such a step\<close>

lemma listing_verdict_ok:
  assumes "listing_verdict b c missing = (status, reason)" and "ar_status r = status" and "ar_canonical r = Some c"
    and "ar_post_ai_published r \<Longrightarrow> status \<noteq> FailedRecord"
  shows "record_ok b r"
  using assms by (auto simp: listing_verdict_def record_ok_def Let_def split: if_splits)

lemma published_key_message [simp]: "published_key (post_ai_message W ev r c pl) = Some (JStr (ev_idempotency_key ev))"
  by (simp add: published_key_def post_ai_message_def)

text \<open>Publishing a record that is not failed, then marking it.\<close>

lemma publish_and_mark_step:
  assumes run: "publish_post_ai W accepts ev r pl s = (Inr u, s1)"
    and saved: "as_records s' = dict_put (ev_idempotency_key ev) (r\<lparr>ar_post_ai_published := True\<rparr>) (as_records s1)"
      "as_published s' = as_published s1"
    and r: "ar_idempotency_key r = ev_idempotency_key ev" "ar_status r \<noteq> FailedRecord" "record_ok (aw_min_confidence W) r"
  shows "step_for W (ev_idempotency_key ev) s s'"
proof -
  obtain c where c: "ar_canonical r = Some c" using r(2,3) by (auto simp: record_ok_def split: processing_status.splits option.splits)
  have ok: "record_ok (aw_min_confidence W) (r\<lparr>ar_post_ai_published := True\<rparr>)"
    using r(2,3) by (auto simp: record_ok_def split: processing_status.splits option.splits)
  from run c have "as_records s1 = as_records s" "as_published s1 = as_published s @ [post_ai_message W ev r c pl]"
    by (auto simp: publish_post_ai_def Let_def split: if_splits)
  with saved r ok show ?thesis by (auto simp: step_for_def accepted_record_def dict_simps)
qed

lemma publish_refused: "publish_post_ai W accepts ev r pl s = (Inl e, s1) \<Longrightarrow>
   s1 = s \<and> e = QueuePublishError POST_AI_DEDUP_QUEUE"
  by (auto simp: publish_post_ai_def Let_def split: option.splits if_splits)

lemma conclude_step:
  assumes run: "conclude W accepts ev pl r s = (res, s')" and key: "ar_idempotency_key r = ev_idempotency_key ev"
    and ok: "record_ok (aw_min_confidence W) r"
  shows "step_for W (ev_idempotency_key ev) s s' \<and> ((\<exists>e. res = Inl e) \<longrightarrow> quiet_for W (ev_idempotency_key ev) s s')"
proof (cases "ar_status r = FailedRecord")
  case True
  with run have s': "s' = ops_note ''warning'' (ev_correlation_id ev) (save_record r s)" by (simp add: conclude_def)
  have "quiet_for W (ev_idempotency_key ev) s s'"
    by (rule saved_step [where r = r]) (use s' key ok in simp_all)
  then show ?thesis by (simp add: quiet_for_step)
next
  case False
  have first: "quiet_for W (ev_idempotency_key ev) s (save_record r s)"
    by (rule saved_step [where r = r]) (use key ok in simp_all)
  show ?thesis
  proof (cases "publish_post_ai W accepts ev r pl (save_record r s)")
    case (Pair a s1)
    show ?thesis
    proof (cases a)
      case (Inl e)
      with run False Pair publish_refused [OF Pair [unfolded Inl]] have "s' = save_record r s"
        by (simp add: conclude_def)
      with first show ?thesis by (simp add: quiet_for_step)
    next
      case (Inr u)
      have "step_for W (ev_idempotency_key ev) (save_record r s) s'"
        by (rule publish_and_mark_step [OF Pair [unfolded Inr]]) (use run False Pair Inr key ok in \<open>auto simp: conclude_def Let_def\<close>)
      moreover have "\<nexists>e. res = Inl e" using run False Pair Inr by (auto simp: conclude_def Let_def)
      ultimately show ?thesis using first by (auto intro: quiet_then_step)
    qed
  qed
qed


lemma base_record_simps [simp]:
  "ar_idempotency_key (base_record ev pl st) = ev_idempotency_key ev" "ar_status (base_record ev pl st) = st"
  "ar_post_ai_published (base_record ev pl st) = False"
  by (simp_all add: base_record_def)

lemma resolve_listing_tags_frame:
  "resolve_listing_tags W now l s = (res, s') \<Longrightarrow> as_records s' = as_records s \<and> as_published s' = as_published s"
  by (auto simp: resolve_listing_tags_def split: if_splits prod.splits sum.splits)

text \<open>A response is either settled without the queue or comes to a listing to conclude.\<close>

lemma judge_response_shape:
  obtains (early) res s' where "\<And>acc. judge_response W acc now ev pl needed media rs attempts s = (res, s')"
      and "quiet_for W (ev_idempotency_key ev) s s'" and "\<And>r. res = Inr r \<Longrightarrow> \<not> ar_post_ai_published r"
  | (listing) r t where "\<And>acc. judge_response W acc now ev pl needed media rs attempts s = conclude W acc ev pl r t"
      and "record_ok (aw_min_confidence W) r" and "ar_idempotency_key r = ev_idempotency_key ev"
      and "\<not> ar_post_ai_published r" and "ar_canonical r \<noteq> None"
      and "as_records t = as_records s" and "as_published t = as_published s"
proof (cases "aw_extract W (rs_content rs)")
  case None
  then show ?thesis by (intro early [of _ s]) (auto simp: judge_response_def Let_def)
next
  case (Some l0)
  show ?thesis
  proof (cases "rental_rejection (aw_rental_min_confidence W) l0 (rs_confidence rs)")
    case (Some reason)
    let ?r = "(base_record ev (source_parsing_audit_payload pl) FailedRecord)\<lparr>ar_attempts := attempts, ar_failure_reason := Some reason\<rparr>"
    let ?s' = "ops_note ''info'' (ev_correlation_id ev) (save_record ?r s)"
    have "quiet_for W (ev_idempotency_key ev) s ?s'"
      by (rule saved_step [where r = ?r]) (simp_all add: record_ok_def)
    with Some \<open>aw_extract W (rs_content rs) = Some l0\<close> show ?thesis
      by (intro early [of "Inr ?r" ?s']) (auto simp: judge_response_def Let_def)
  next
    case None
    obtain tr s1 where tags: "resolve_listing_tags W now l0 s = (tr, s1)" by (cases "resolve_listing_tags W now l0 s")
    have same: "as_records s1 = as_records s" "as_published s1 = as_published s"
      using resolve_listing_tags_frame [OF tags] by simp_all
    show ?thesis
    proof (cases tr)
      case (Inl e)
      with None \<open>aw_extract W (rs_content rs) = Some l0\<close> tags same show ?thesis
        by (intro early [of "Inl (Raised e)" s1]) (auto simp: judge_response_def Let_def step_for_same)
    next
      case (Inr t)
      obtain l assumptions allowed where t: "t = (l, assumptions, allowed)" by (cases t)
      define c where "c = normalize_listing l (aw_prompt_version W) (ev_text ev) allowed False assumptions"
      obtain st reason where v: "listing_verdict (aw_min_confidence W) c (missing_required_listing_fields l0 needed) = (st, reason)"
        by fastforce
      let ?r = "(base_record ev (source_parsing_audit_payload pl) st)\<lparr>ar_canonical := Some c, ar_media := media,
          ar_attempts := attempts, ar_failure_reason := reason\<rparr>"
      have "judge_response W acc now ev pl needed media rs attempts s = conclude W acc ev pl ?r s1" for acc
        using None \<open>aw_extract W (rs_content rs) = Some l0\<close> tags Inr t v by (simp add: judge_response_def Let_def c_def)
      moreover have "record_ok (aw_min_confidence W) ?r" by (rule listing_verdict_ok [OF v]) simp_all
      ultimately show ?thesis using same by (intro listing [of ?r s1]) simp_all
    qed
  qed
qed

lemma judge_response_step:
  assumes "judge_response W accepts now ev pl needed media rs attempts s = (res, s')"
  shows "step_for W (ev_idempotency_key ev) s s' \<and> ((\<exists>e. res = Inl e) \<longrightarrow> quiet_for W (ev_idempotency_key ev) s s')"
proof (rule judge_response_shape [of W now ev pl needed media rs attempts s])
  fix res' t
  assume "\<And>acc. judge_response W acc now ev pl needed media rs attempts s = (res', t)"
    and "quiet_for W (ev_idempotency_key ev) s t"
  with assms show ?thesis by (auto simp: quiet_for_step)
next
  fix r t
  assume shape: "\<And>acc. judge_response W acc now ev pl needed media rs attempts s = conclude W acc ev pl r t"
    and r: "record_ok (aw_min_confidence W) r" "ar_idempotency_key r = ev_idempotency_key ev"
    and t: "as_records t = as_records s" "as_published t = as_published s"
  have "quiet_for W (ev_idempotency_key ev) s t" by (rule step_for_same) (simp_all add: t)
  with conclude_step [OF _ r(2,1)] assms [unfolded shape] show ?thesis
    by (blast intro: quiet_then_step quiet_then_quiet)
qed

lemma extract_listing_step:
  assumes "extract_listing W accepts now ask latency ev pl s = (res, s')"
  shows "step_for W (ev_idempotency_key ev) s s' \<and> ((\<exists>e. res = Inl e) \<longrightarrow> quiet_for W (ev_idempotency_key ev) s s')"
proof -
  obtain m st where media: "prepare_and_store (aw_media W) (ev_idempotency_key ev) (ev_media ev) (as_storage s) = (m, st)"
    by fastforce
  obtain out log where llm:
    "complete_json (worker_request W (required_listing_fields (source_parser_hints pl))) ask latency (aw_models W) = (out, log)"
    by fastforce
  have same: "quiet_for W (ev_idempotency_key ev) s (f (s\<lparr>as_storage := st\<rparr>))"
    if "\<And>t. as_records (f t) = as_records t \<and> as_published (f t) = as_published t" for f
    by (rule step_for_same) (simp_all add: that)
  have plain: "quiet_for W (ev_idempotency_key ev) s (s\<lparr>as_storage := st\<rparr>)" using same [of id] by simp
  show ?thesis
  proof (cases m)
    case (Inl e)
    with assms media plain show ?thesis by (auto simp: extract_listing_def quiet_for_step)
  next
    case (Inr stored)
    show ?thesis
    proof (cases out)
      case (Completed rs attempts)
      with assms media Inr llm have "judge_response W accepts now ev pl (required_listing_fields (source_parser_hints pl)) stored rs
          attempts (record_ai_attempt_metrics (ev_idempotency_key ev) attempts (s\<lparr>as_storage := st\<rparr>)) = (res, s')"
        by (simp add: extract_listing_def Let_def)
      from judge_response_step [OF this] same [of "record_ai_attempt_metrics (ev_idempotency_key ev) attempts"]
      show ?thesis by (auto intro: quiet_then_step quiet_then_quiet)
    qed (use assms media Inr llm plain in \<open>auto simp: extract_listing_def Let_def quiet_for_step\<close>)
  qed
qed

lemma handle_worker_error_quiet:
  assumes "handle_worker_error ev pl err s = (res, s')"
  shows "quiet_for W (ev_idempotency_key ev) s s'"
proof -
  have saved: "quiet_for W (ev_idempotency_key ev) s (ops_note sev c (save_record (failed_record ev pl xs n why) t))"
    if "as_records t = as_records s" "as_published t = as_published s" for sev c xs n why t
    by (rule saved_step [where r = "failed_record ev pl xs n why"]) (simp_all add: that failed_record_def record_ok_def)
  show ?thesis
  proof (cases err)
    case (ModelsFailed xs)
    with assms show ?thesis by (auto simp: handle_worker_error_def Let_def intro!: saved)
  next
    case (Raised e)
    with assms show ?thesis
      by (cases e) (auto simp: handle_worker_error_def Let_def split: if_splits intro!: saved)
  qed
qed


section \<open>The invariant\<close>

definition ai_consistent :: "ai_env \<Rightarrow> ai_state \<Rightarrow> bool" where
  "ai_consistent W s \<longleftrightarrow>
     distinct (map published_key (as_published s)) \<and>
     (\<forall>k. Some (JStr k) \<in> published_key ` set (as_published s) \<longrightarrow>
        (\<exists>r. dict_get (as_records s) k = Some r \<and> accepted_record r)) \<and>
     (\<forall>k r. dict_get (as_records s) k = Some r \<longrightarrow> ar_idempotency_key r = k \<and> record_ok (aw_min_confidence W) r)"

lemma step_keeps_consistent:
  assumes inv: "ai_consistent W s" and step: "step_for W k s s'"
    and fresh: "\<And>r. dict_get (as_records s) k = Some r \<Longrightarrow> \<not> accepted_record r"
  shows "ai_consistent W s'"
proof -
  have unpublished: "Some (JStr k) \<notin> published_key ` set (as_published s)"
    using inv fresh by (auto simp: ai_consistent_def)
  have others: "i \<noteq> k \<Longrightarrow> dict_get (as_records s') i = dict_get (as_records s) i" for i
    using step by (simp add: step_for_def)
  have pub: "as_published s' = as_published s \<or>
      (\<exists>m r. as_published s' = as_published s @ [m] \<and> published_key m = Some (JStr k) \<and>
         dict_get (as_records s') k = Some r \<and> accepted_record r)"
    using step by (simp add: step_for_def)
  have "distinct (map published_key (as_published s'))"
    using inv pub unpublished by (auto simp: ai_consistent_def)
  moreover have "\<exists>r. dict_get (as_records s') i = Some r \<and> accepted_record r"
    if i: "Some (JStr i) \<in> published_key ` set (as_published s')" for i
  proof (cases "i = k")
    case True
    with i pub unpublished show ?thesis by auto
  next
    case False
    with i pub have "Some (JStr i) \<in> published_key ` set (as_published s)" by auto
    with inv others [OF False] show ?thesis by (simp add: ai_consistent_def)
  qed
  moreover have "ar_idempotency_key r = i \<and> record_ok (aw_min_confidence W) r"
    if r: "dict_get (as_records s') i = Some r" for i r
  proof (cases "i = k \<and> dict_get (as_records s') k \<noteq> dict_get (as_records s) k")
    case True
    with r step show ?thesis by (auto simp: step_for_def)
  next
    case False
    with r others [of i] have "dict_get (as_records s) i = Some r" by (cases "i = k") auto
    with inv show ?thesis by (simp add: ai_consistent_def)
  qed
  ultimately show ?thesis by (simp add: ai_consistent_def)
qed

lemma process_ai_event_consistent:
  assumes inv: "ai_consistent W s" and run: "process_ai_event W accepts now ask latency ev pl s = (res, s')"
  shows "ai_consistent W s'"
proof -
  let ?k = "ev_idempotency_key ev"
  have fresh: "step_for W ?k s s'" if "(case extract_listing W accepts now ask latency ev pl s of
      (Inr r, s1) \<Rightarrow> (Inr r, s1) | (Inl err, s1) \<Rightarrow> handle_worker_error ev pl err s1) = (res, s')"
  proof (cases "extract_listing W accepts now ask latency ev pl s")
    case (Pair out s1)
    note step = extract_listing_step [OF Pair]
    show ?thesis
    proof (cases out)
      case (Inl err)
      with that Pair have "handle_worker_error ev pl err s1 = (res, s')" by simp
      from handle_worker_error_quiet [OF this] step Inl show ?thesis by (auto intro: quiet_then_step quiet_for_step)
    next
      case (Inr r)
      with that Pair step show ?thesis by simp
    qed
  qed
  show ?thesis
  proof (cases "dict_get (as_records s) ?k")
    case None
    with run have "step_for W ?k s s'" by (intro fresh) (simp add: process_ai_event_def Let_def)
    with inv None show ?thesis by (auto intro: step_keeps_consistent)
  next
    case (Some r)
    with inv have r: "ar_idempotency_key r = ?k" "record_ok (aw_min_confidence W) r" by (simp_all add: ai_consistent_def)
    consider "ar_status r = FailedRecord" | "ar_status r \<noteq> FailedRecord" "ar_post_ai_published r"
      | "ar_status r \<noteq> FailedRecord" "\<not> ar_post_ai_published r" by blast
    then show ?thesis
    proof cases
      case 1
      with run Some have "step_for W ?k s s'" by (intro fresh) (simp add: process_ai_event_def Let_def)
      with inv Some 1 show ?thesis by (auto intro: step_keeps_consistent simp: accepted_record_def)
    next
      case 2
      with run Some inv show ?thesis by (simp add: process_ai_event_def Let_def)
    next
      case 3
      obtain p s1 where pub: "publish_post_ai W accepts ev r pl s = (p, s1)" by fastforce
      have "step_for W ?k s s'"
      proof (cases p)
        case (Inl e)
        with publish_refused pub run Some 3 have "s' = s" by (auto simp: process_ai_event_def Let_def)
        then show ?thesis by (simp add: quiet_for_step)
      next
        case (Inr u)
        show ?thesis
          by (rule publish_and_mark_step [OF pub [unfolded Inr]])
            (use run Some 3 pub Inr r in \<open>auto simp: process_ai_event_def Let_def\<close>)
      qed
      with inv Some 3 show ?thesis by (auto intro: step_keeps_consistent simp: accepted_record_def)
    qed
  qed
qed

lemma process_ai_message_consistent:
  "ai_consistent W s \<Longrightarrow> ai_consistent W (snd (process_ai_message W accepts now ask latency m s))"
proof (cases "payload m")
  case (JObj pl)
  assume inv: "ai_consistent W s"
  show ?thesis
  proof (cases "from_queue_payload (aw_text W) pl")
    case (Inl e)
    with JObj inv show ?thesis by (simp add: process_ai_message_def)
  next
    case (Inr ev)
    obtain res s' where run: "process_ai_event W accepts now ask latency ev pl s = (res, s')" by fastforce
    have "process_ai_message W accepts now ask latency m s = (res, s')"
      by (simp only: process_ai_message_def JObj json.case Inr then_do_Inr run)
    with process_ai_event_consistent [OF inv run] show ?thesis by (simp only: snd_conv)
  qed
qed (simp_all add: process_ai_message_def)

text \<open>One delivery: the answers of the queue, the clock and the models, and the message.\<close>

record ai_delivery =
  ad_accepts :: "message \<Rightarrow> bool"
  ad_now :: time
  ad_ask :: "nat \<Rightarrow> string \<Rightarrow> llm_answer"
  ad_latency :: "nat \<Rightarrow> int"
  ad_message :: message

definition ai_run :: "ai_env \<Rightarrow> ai_delivery list \<Rightarrow> ai_state \<Rightarrow> ai_state" where
  "ai_run W ds s =
     fold (\<lambda>d t. snd (process_ai_message W (ad_accepts d) (ad_now d) (ad_ask d) (ad_latency d) (ad_message d) t)) ds s"

definition new_ai_state :: "object_storage \<Rightarrow> tag_repo \<Rightarrow> ai_state" where
  "new_ai_state storage repo = \<lparr>as_records = [], as_storage = storage, as_tags = repo, as_published = [],
     as_notes = [], as_metrics = []\<rparr>"

text \<open>
  Over any sequence of deliveries, redeliveries and failures of the models, the storage, the tags and the
  queue included, a listing is published for deduplication at most once per idempotency key, every
  published key has an accepted record, every stored record that is not failed carries a listing of confidence
  at least 0.4, and a succeeded one reaches the configured confidence with a description and an essential field.
\<close>

theorem ai_worker_invariant: "ai_consistent W (ai_run W ds (new_ai_state storage repo))"
proof -
  have "ai_consistent W s \<Longrightarrow> ai_consistent W (ai_run W ds s)" for s
    by (induction ds arbitrary: s) (simp_all add: ai_run_def process_ai_message_consistent)
  moreover have "ai_consistent W (new_ai_state storage repo)" by (simp add: ai_consistent_def new_ai_state_def)
  ultimately show ?thesis .
qed


section \<open>A refusing queue\<close>

lemma judge_response_refused:
  assumes "judge_response W (\<lambda>_. True) now ev pl needed media rs attempts s = (Inr r', s1)" and "ar_post_ai_published r'"
  shows "\<exists>s2. judge_response W (\<lambda>_. False) now ev pl needed media rs attempts s =
      (Inl (Raised (QueuePublishError POST_AI_DEDUP_QUEUE)), s2) \<and> as_published s2 = as_published s"
proof (rule judge_response_shape [of W now ev pl needed media rs attempts s])
  fix res t
  assume "\<And>acc. judge_response W acc now ev pl needed media rs attempts s = (res, t)"
    and "\<And>r. res = Inr r \<Longrightarrow> \<not> ar_post_ai_published r"
  with assms show ?thesis by simp
next
  fix r t
  assume shape: "\<And>acc. judge_response W acc now ev pl needed media rs attempts s = conclude W acc ev pl r t"
    and r: "\<not> ar_post_ai_published r" "ar_canonical r \<noteq> None" and t: "as_published t = as_published s"
  from assms r have "ar_status r \<noteq> FailedRecord" unfolding shape by (auto simp: conclude_def)
  with r(2) t show ?thesis unfolding shape by (auto simp: conclude_def publish_post_ai_def Let_def)
qed

lemma extract_listing_refused:
  assumes "extract_listing W (\<lambda>_. True) now ask latency ev pl s = (Inr r, s1)" and "ar_post_ai_published r"
  shows "\<exists>s2. extract_listing W (\<lambda>_. False) now ask latency ev pl s =
      (Inl (Raised (QueuePublishError POST_AI_DEDUP_QUEUE)), s2) \<and> as_published s2 = as_published s"
proof -
  obtain m st where media: "prepare_and_store (aw_media W) (ev_idempotency_key ev) (ev_media ev) (as_storage s) = (m, st)"
    by fastforce
  obtain out log where llm:
    "complete_json (worker_request W (required_listing_fields (source_parser_hints pl))) ask latency (aw_models W) = (out, log)"
    by fastforce
  from assms media llm obtain stored rs attempts where m: "m = Inr stored" and out: "out = Completed rs attempts"
    by (cases m; cases out) (auto simp: extract_listing_def Let_def)
  let ?t = "record_ai_attempt_metrics (ev_idempotency_key ev) attempts (s\<lparr>as_storage := st\<rparr>)"
  have "judge_response W (\<lambda>_. True) now ev pl (required_listing_fields (source_parser_hints pl)) stored rs attempts ?t = (Inr r, s1)"
    using assms(1) media llm m out by (simp add: extract_listing_def Let_def)
  from judge_response_refused [OF this assms(2)] media llm m out show ?thesis
    by (auto simp: extract_listing_def Let_def)
qed

text \<open>
  When the post-AI queue refuses a listing that it would otherwise have taken, the worker returns
  normally: the accepted listing is overwritten by a failed record without it and nothing is published. No
  error reaches the consumer, so the message is acknowledged and the listing is never published.
\<close>

theorem refused_publish_is_swallowed:
  assumes "dict_get (as_records s) (ev_idempotency_key ev) = None"
    and "process_ai_event W (\<lambda>_. True) now ask latency ev pl s = (Inr r, s1)" and "ar_post_ai_published r"
  shows "\<exists>s2. process_ai_event W (\<lambda>_. False) now ask latency ev pl s =
      (Inr (failed_record ev pl [] ''QueuePublishError'' ''QueuePublishError''), s2) \<and>
    as_published s2 = as_published s \<and>
    dict_get (as_records s2) (ev_idempotency_key ev) =
      Some (failed_record ev pl [] ''QueuePublishError'' ''QueuePublishError'')"
proof -
  have "extract_listing W (\<lambda>_. True) now ask latency ev pl s = (Inr r, s1)"
  proof (cases "extract_listing W (\<lambda>_. True) now ask latency ev pl s")
    case (Pair out t)
    show ?thesis
    proof (cases out)
      case (Inl err)
      with assms Pair have run: "handle_worker_error ev pl err t = (Inr r, s1)" by (simp add: process_ai_event_def Let_def)
      have "\<not> ar_post_ai_published r"
        using run by (cases err rule: worker_error.exhaust; cases "case err of Raised e \<Rightarrow> e")
          (auto simp: handle_worker_error_def failed_record_def Let_def split: if_splits)
      with assms(3) show ?thesis by blast
    qed (use assms Pair in \<open>simp add: process_ai_event_def Let_def\<close>)
  qed
  from extract_listing_refused [OF this assms(3)] obtain s2
    where run: "extract_listing W (\<lambda>_. False) now ask latency ev pl s = (Inl (Raised (QueuePublishError POST_AI_DEDUP_QUEUE)), s2)"
      and same: "as_published s2 = as_published s" by blast
  have key: "ar_idempotency_key (failed_record ev pl xs n why) = ev_idempotency_key ev" for xs n why
    by (simp add: failed_record_def)
  show ?thesis
    using assms(1) run same
    by (simp add: process_ai_event_def Let_def handle_worker_error_def caught_by_worker_def key dict_simps)
qed


section \<open>An audience tag that does not normalise\<close>

definition tag_error :: "py_error \<Rightarrow> bool" where
  "tag_error e \<longleftrightarrow> (case e of KeyError k \<Rightarrow> True | ValueError m \<Rightarrow> True | _ \<Rightarrow> False)"

lemma normalize_tag_key_error: "normalize_tag_key t = Inl e \<Longrightarrow> \<exists>m. e = ValueError m"
  by (auto simp: normalize_tag_key_def Let_def split: if_splits)

lemma resolve_tag_error:
  assumes "resolve_tag ratio threshold now raw r = (Inl e, r')"
  shows "tag_error e"
proof -
  have "tag_error x" if "increment_usage now k q = (Inl x, q')" for x k q q'
    using that by (auto simp: increment_usage_def Let_def tag_error_def split: option.splits)
  moreover have "tag_error x" if "normalize_tag_key raw = Inl x" for x
    using normalize_tag_key_error [OF that] by (auto simp: tag_error_def)
  ultimately show ?thesis
    using assms
    by (auto simp: resolve_tag_def then_do_def Let_def split: sum.splits option.splits prod.splits if_splits)
qed

lemma resolve_tags_loop_bad:
  assumes "t \<in> set vs" and "normalize_tag_key t = Inl bad"
  shows "\<exists>e r'. resolve_tags_loop ratio threshold now seen vs r = (Inl e, r') \<and> tag_error e"
  using assms(1)
proof (induction vs arbitrary: seen r)
  case (Cons v vs)
  show ?case
  proof (cases "normalize_tag_key v")
    case (Inl e)
    then show ?thesis using normalize_tag_key_error [OF Inl] by (auto simp: tag_error_def)
  next
    case (Inr key)
    with Cons.prems assms(2) have "t \<in> set vs" by auto
    note IH = Cons.IH [OF this]
    show ?thesis
    proof (cases "key \<in> set seen")
      case True
      with Inr IH show ?thesis by simp
    next
      case False
      obtain a r1 where one: "resolve_tag ratio threshold now key r = (a, r1)" by fastforce
      from IH [of "key # seen" r1] obtain e r' where rest:
        "resolve_tags_loop ratio threshold now (key # seen) vs r1 = (Inl e, r')" "tag_error e" by blast
      from Inr False one rest resolve_tag_error [of ratio threshold now key r _ r1] show ?thesis
        by (cases a) auto
    qed
  qed
qed simp

text \<open>
  If one of the audience tags that the model proposed for an accepted listing does not normalise to a
  tag key, an exception leaves the worker: no record is saved, no error is recorded and nothing is published,
  although the models answered and the images were stored. As nothing was saved, the redelivered message asks
  the models again.
\<close>

theorem bad_audience_tag_escapes:
  assumes "dict_get (as_records s) (ev_idempotency_key ev) = None" and "aw_tag_service W"
    and "prepare_and_store (aw_media W) (ev_idempotency_key ev) (ev_media ev) (as_storage s) = (Inr stored, st)"
    and "complete_json (worker_request W (required_listing_fields (source_parser_hints pl))) ask latency (aw_models W) =
      (Completed rs attempts, llm_log)"
    and "aw_extract W (rs_content rs) = Some l"
    and "rental_rejection (aw_rental_min_confidence W) l (rs_confidence rs) = None"
    and "t \<in> set (lr_audience_tags l)" and "normalize_tag_key t = Inl bad"
  shows "\<exists>e s'. process_ai_event W accepts now ask latency ev pl s = (Inl e, s') \<and>
    as_records s' = as_records s \<and> as_published s' = as_published s \<and> as_notes s' = as_notes s"
proof -
  define s1 where "s1 = record_ai_attempt_metrics (ev_idempotency_key ev) attempts (s\<lparr>as_storage := st\<rparr>)"
  obtain e r' where bad: "resolve_for_canonical (aw_tag_ratio W) (aw_tag_threshold W) now (lr_audience_tags l) (as_tags s1) = (Inl e, r')"
    and e: "tag_error e"
    using resolve_tags_loop_bad [OF assms(7,8), of "aw_tag_ratio W" "aw_tag_threshold W" now "[]" "as_tags s1"]
    by (auto simp: resolve_for_canonical_def resolve_tags_def)
  have "extract_listing W accepts now ask latency ev pl s = (Inl (Raised e), s1\<lparr>as_tags := r'\<rparr>)"
    using assms(2-6) bad by (simp add: extract_listing_def judge_response_def resolve_listing_tags_def Let_def s1_def)
  moreover have "handle_worker_error ev pl (Raised e) (s1\<lparr>as_tags := r'\<rparr>) = (Inl e, s1\<lparr>as_tags := r'\<rparr>)"
    using e by (cases e) (simp_all add: handle_worker_error_def tag_error_def caught_by_worker_def)
  ultimately show ?thesis using assms(1) by (simp add: process_ai_event_def s1_def)
qed

text \<open>Witnesses: one event without images, one model that answers at once.\<close>

definition sample_answer :: llm_response where
  "sample_answer = \<lparr>rs_model = ''m'', rs_content = [], rs_confidence = 1, rs_usage = [], rs_provider_request_id = None\<rparr>"

definition rental_raw :: "string list \<Rightarrow> listing_raw" where
  "rental_raw ts = empty_raw\<lparr>lr_listing_type := Some Rent, lr_is_rental := Some True, lr_rooms := Some 2,
     lr_district := Some ''Yunusobod'', lr_audience_tags := ts\<rparr>"

definition sample_ai_state :: ai_state where
  "sample_ai_state = new_ai_state empty_storage \<lparr>tags = [], tag_audit_events = [], announcement_refs = [],
     announcement_excluded_refs = [], filter_refs = []\<rparr>"

definition sample_ai_step :: "string list \<Rightarrow> bool \<Rightarrow> ai_record res \<times> ai_state" where
  "sample_ai_step ts ok = process_ai_event (sample_ai_env (Some (rental_raw ts))) (\<lambda>_. ok) 5 (\<lambda>_ _. Answered sample_answer)
     (\<lambda>_. 1) (sample_event ''k'' ''2 xona'') [] sample_ai_state"

lemma sample_ai_state_simps:
  "dict_get (as_records sample_ai_state) i = None" "as_published sample_ai_state = []" "as_records sample_ai_state = []"
  by (simp_all add: sample_ai_state_def new_ai_state_def)

lemma refused_publish_is_swallowed_witness:
  "case sample_ai_step [] True of
     (Inr r, s) \<Rightarrow> ar_post_ai_published r \<and>
       (case sample_ai_step [] False of (Inr r', s') \<Rightarrow> ar_status r' = FailedRecord \<and> as_published s' = [] | (Inl e, s') \<Rightarrow> False)
   | (Inl e, s) \<Rightarrow> False"
proof -
  have "case sample_ai_step [] True of (Inr r, s) \<Rightarrow> ar_post_ai_published r | (Inl e, s) \<Rightarrow> False" by code_simp
  then obtain r s where run: "sample_ai_step [] True = (Inr r, s)" "ar_post_ai_published r"
    by (auto split: prod.splits sum.splits)
  from refused_publish_is_swallowed [OF sample_ai_state_simps(1) run(1) [unfolded sample_ai_step_def] run(2)] run
  show ?thesis by (auto simp: sample_ai_step_def [of _ False] sample_ai_state_simps failed_record_def)
qed

lemma bad_audience_tag_escapes_witness:
  "case sample_ai_step [''family'', ''??''] True of
     (Inl e, s) \<Rightarrow> as_records s = [] \<and> as_published s = [] | (Inr r, s) \<Rightarrow> False"
proof -
  let ?W = "sample_ai_env (Some (rental_raw [''family'', ''??'']))" and ?ev = "sample_event ''k'' ''2 xona''"
  have "case prepare_and_store (aw_media ?W) (ev_idempotency_key ?ev) (ev_media ?ev) (as_storage sample_ai_state) of
      (Inr stored, st) \<Rightarrow> True | (Inl e, st) \<Rightarrow> False" by code_simp
  then obtain stored st where media:
    "prepare_and_store (aw_media ?W) (ev_idempotency_key ?ev) (ev_media ?ev) (as_storage sample_ai_state) = (Inr stored, st)"
    by (auto split: prod.splits sum.splits)
  have "case complete_json (worker_request ?W (required_listing_fields (source_parser_hints [])))
      (\<lambda>_ _. Answered sample_answer) (\<lambda>_. 1) (aw_models ?W) of (Completed rs xs, ys) \<Rightarrow> rs = sample_answer | _ \<Rightarrow> False"
    by code_simp
  then obtain attempts ys where llm: "complete_json (worker_request ?W (required_listing_fields (source_parser_hints [])))
      (\<lambda>_ _. Answered sample_answer) (\<lambda>_. 1) (aw_models ?W) = (Completed sample_answer attempts, ys)"
    by (auto split: prod.splits llm_result.splits)
  have "case normalize_tag_key ''??'' of Inl e \<Rightarrow> True | Inr k \<Rightarrow> False" by code_simp
  then obtain bad where bad: "normalize_tag_key ''??'' = Inl bad" by (auto split: sum.splits)
  have rest: "aw_tag_service ?W" "aw_extract ?W (rs_content sample_answer) = Some (rental_raw [''family'', ''??''])"
    "''??'' \<in> set (lr_audience_tags (rental_raw [''family'', ''??'']))"
    by (simp_all add: sample_ai_env_def rental_raw_def)
  have rental: "rental_rejection (aw_rental_min_confidence ?W) (rental_raw [''family'', ''??'']) (rs_confidence sample_answer) = None"
    by code_simp
  from bad_audience_tag_escapes [OF sample_ai_state_simps(1) rest(1) media llm rest(2) rental rest(3) bad, of "\<lambda>_. True" 5]
  show ?thesis by (auto simp: sample_ai_step_def sample_ai_state_simps)
qed

end
