(* ===== verification/EF_Sources.thy ===== *)
theory EF_Sources
  imports EF_Router
begin

text \<open>
  The configured sources of listings (\<open>services/source_config.py\<close>): \<open>SourceConfig\<close> with its normalisation, the
  merge of a parser binding and \<open>InMemorySourceRegistry\<close>. A parser mode is a value of its type, so its
  normalisation is the identity; the length of a compact JSON dump is an argument.
\<close>

section \<open>Source configurations\<close>

datatype source_type = TelegramChannel | TelegramGroup | Website

fun source_type_text :: "source_type \<Rightarrow> string" where
  "source_type_text TelegramChannel = ''telegram_channel''"
| "source_type_text TelegramGroup = ''telegram_group''"
| "source_type_text Website = ''website''"

record source_config =
  so_source_id :: string
  so_name :: string
  so_type :: source_type
  so_identifier :: string
  so_enabled :: bool
  so_adapter_name :: "string option"
  so_source_profile :: "string option"
  so_account_key :: "string option"
  so_parser_key :: "string option"
  so_parser_version :: "string option"
  so_parser_config :: "(string, json) dict"
  so_parser_mode :: parser_mode

definition DEFAULT_PARSER_KEY :: string where "DEFAULT_PARSER_KEY = ''generic.single_listing''"

definition DEFAULT_PARSER_VERSION :: string where "DEFAULT_PARSER_VERSION = ''1''"

definition LEGACY_SOURCE_PROFILE_TO_PARSER_KEY :: "(string, string) dict" where
  "LEGACY_SOURCE_PROFILE_TO_PARSER_KEY =
     [(''default'', DEFAULT_PARSER_KEY), (''caption_first'', ''generic.album_caption''),
      (''album_text_merge'', ''generic.album_caption'')]"

text \<open>\<open>a or b\<close> on optional texts.\<close>

definition opt_or :: "string option \<Rightarrow> string option \<Rightarrow> string option" where
  "opt_or a b = (if a = None \<or> a = Some [] then b else a)"

definition parser_key_from_legacy_profile :: "string option \<Rightarrow> string" where
  "parser_key_from_legacy_profile profile =
     (let n = lower (strip (text_or profile ''default''));
          n' = (if n = [] then ''default'' else n)
      in case dict_get LEGACY_SOURCE_PROFILE_TO_PARSER_KEY n' of Some k \<Rightarrow> k | None \<Rightarrow> DEFAULT_PARSER_KEY)"

definition effective_parser_key :: "source_config \<Rightarrow> string" where
  "effective_parser_key s = text_or (so_parser_key s) (parser_key_from_legacy_profile (so_source_profile s))"

definition effective_parser_version :: "source_config \<Rightarrow> string" where
  "effective_parser_version s = text_or (so_parser_version s) DEFAULT_PARSER_VERSION"

section \<open>Normalisation\<close>

definition normalize_parser_key :: "string option \<Rightarrow> string option res" where
  "normalize_parser_key v =
     (case v of
        None \<Rightarrow> Inr None
      | Some t \<Rightarrow>
          if key_pattern (lower (strip t)) then Inr (Some (lower (strip t))) else Inl (ValueError ''parser_key''))"

definition normalize_parser_version :: "string option \<Rightarrow> string option res" where
  "normalize_parser_version v =
     (case v of
        None \<Rightarrow> Inr None
      | Some t \<Rightarrow>
          if version_pattern (strip t) then Inr (Some (strip t))
          else Inl (ValueError ''parser_version contains unsupported characters.''))"

definition MAX_PARSER_CONFIG_BYTES :: nat where "MAX_PARSER_CONFIG_BYTES = 32 * 1024"

definition MAX_PARSER_CONFIG_DEPTH :: nat where "MAX_PARSER_CONFIG_DEPTH = 8"

fun validate_json_value :: "json \<Rightarrow> nat \<Rightarrow> bool" where
  "validate_json_value (JArr xs) depth =
     (depth \<le> MAX_PARSER_CONFIG_DEPTH \<and> (\<forall>x \<in> set xs. validate_json_value x (depth + 1)))"
| "validate_json_value (JObj d) depth =
     (depth \<le> MAX_PARSER_CONFIG_DEPTH \<and> (\<forall>p \<in> set d. validate_json_value (snd p) (depth + 1)))"
| "validate_json_value _ depth = (depth \<le> MAX_PARSER_CONFIG_DEPTH)"

text \<open>What \<open>json.loads\<close> makes of a dump with \<open>sort_keys\<close>.\<close>

fun sorted_json :: "json \<Rightarrow> json" where
  "sorted_json (JArr xs) = JArr (map sorted_json xs)"
| "sorted_json (JObj d) = JObj (py_sort fst (map (\<lambda>p. (fst p, sorted_json (snd p))) d))"
| "sorted_json v = v"

definition sorted_config :: "(string, json) dict \<Rightarrow> (string, json) dict" where
  "sorted_config d = py_sort fst (map (\<lambda>p. (fst p, sorted_json (snd p))) d)"

definition validate_parser_config ::
  "((string, json) dict \<Rightarrow> nat) \<Rightarrow> (string, json) dict \<Rightarrow> (string, json) dict res" where
  "validate_parser_config dump_bytes d =
     (if \<not> validate_json_value (JObj d) 0
      then Inl (ValueError ''parser_config nesting exceeds the supported depth.'')
      else if MAX_PARSER_CONFIG_BYTES < dump_bytes (sorted_config d)
      then Inl (ValueError ''parser_config exceeds the 32 KiB limit.'')
      else Inr (sorted_config d))"

text \<open>The constructor: \<open>__post_init__\<close>.\<close>

definition source_post_init :: "((string, json) dict \<Rightarrow> nat) \<Rightarrow> source_config \<Rightarrow> source_config res" where
  "source_post_init dump_bytes s =
     res_bind (normalize_parser_key (so_parser_key s)) (\<lambda>k.
     res_bind (normalize_parser_version (so_parser_version s)) (\<lambda>v.
     res_bind (validate_parser_config dump_bytes (so_parser_config s)) (\<lambda>c.
       Inr (s\<lparr>so_parser_key := k, so_parser_version := v, so_parser_config := c\<rparr>))))"

section \<open>Merging a binding\<close>

record source_request =
  sr_type :: source_type
  sr_identifier :: string
  sr_name :: string
  sr_adapter_name :: "string option"
  sr_source_profile :: "string option"
  sr_parser_key :: "string option"
  sr_parser_version :: "string option"
  sr_parser_config :: "(string, json) dict option"
  sr_parser_mode :: "parser_mode option"
  sr_session_name :: "string option"

record parser_binding =
  pb_parser_key :: "string option"
  pb_parser_version :: "string option"
  pb_parser_config :: "(string, json) dict"
  pb_parser_mode :: parser_mode

definition merge_source_parser_binding ::
  "((string, json) dict \<Rightarrow> nat) \<Rightarrow> source_config option \<Rightarrow> string option \<Rightarrow> source_request \<Rightarrow> parser_binding res" where
  "merge_source_parser_binding dump_bytes existing profile rq =
     res_bind (if sr_parser_key rq \<noteq> None then normalize_parser_key (sr_parser_key rq)
        else Inr (Option.bind existing so_parser_key)) (\<lambda>key.
       let next_key = text_or key (parser_key_from_legacy_profile profile);
           kept = (case existing of None \<Rightarrow> None
             | Some s \<Rightarrow> if next_key \<noteq> effective_parser_key s then None else Some s)
       in res_bind (if sr_parser_version rq \<noteq> None then normalize_parser_version (sr_parser_version rq)
             else Inr (Option.bind kept so_parser_version)) (\<lambda>version.
          res_bind (case sr_parser_config rq of
               Some c \<Rightarrow> validate_parser_config dump_bytes c
             | None \<Rightarrow> (case kept of Some s \<Rightarrow> validate_parser_config dump_bytes (so_parser_config s) | None \<Rightarrow> Inr []))
             (\<lambda>config.
            Inr \<lparr>pb_parser_key = key, pb_parser_version = version, pb_parser_config = config,
              pb_parser_mode = (case sr_parser_mode rq of
                  Some m \<Rightarrow> m | None \<Rightarrow> (case existing of Some s \<Rightarrow> so_parser_mode s | None \<Rightarrow> Active))\<rparr>)))"

section \<open>The registry\<close>

type_synonym source_registry = "(string, source_config) dict"

definition source_key :: "source_type \<Rightarrow> string \<Rightarrow> string" where
  "source_key t ident = source_type_text t @ '':'' @ lower ident"

definition list_active_sources :: "source_registry \<Rightarrow> source_config list" where
  "list_active_sources reg = py_sort so_source_id (filter so_enabled (dict_values reg))"

definition validate_source_binding :: "router_env \<Rightarrow> router \<Rightarrow> source_config \<Rightarrow> parser_recipe res" where
  "validate_source_binding V rt s =
     validate_source_parser_binding V rt (so_source_id s) (Some (effective_parser_key s))
       (Some (effective_parser_version s)) (so_parser_config s) (JStr (mode_text (so_parser_mode s)))"

definition requested_source :: "((string, json) dict \<Rightarrow> nat) \<Rightarrow> source_request \<Rightarrow> source_config option \<Rightarrow> source_config res" where
  "requested_source dump_bytes rq existing =
     (case existing of
        Some s \<Rightarrow>
          (let profile = opt_or (so_source_profile s) (sr_source_profile rq) in
           res_bind (merge_source_parser_binding dump_bytes (Some s) profile rq) (\<lambda>b.
             source_post_init dump_bytes (s\<lparr>so_enabled := True,
               so_adapter_name := opt_or (so_adapter_name s) (sr_adapter_name rq), so_source_profile := profile,
               so_account_key := opt_or (so_account_key s) (sr_session_name rq), so_parser_key := pb_parser_key b,
               so_parser_version := pb_parser_version b, so_parser_config := pb_parser_config b,
               so_parser_mode := pb_parser_mode b\<rparr>)))
      | None \<Rightarrow>
          source_post_init dump_bytes
            \<lparr>so_source_id = source_type_text (sr_type rq) @ '':'' @ sr_identifier rq, so_name = sr_name rq,
             so_type = sr_type rq, so_identifier = sr_identifier rq, so_enabled = True,
             so_adapter_name = sr_adapter_name rq, so_source_profile = sr_source_profile rq,
             so_account_key = sr_session_name rq, so_parser_key = sr_parser_key rq,
             so_parser_version = sr_parser_version rq,
             so_parser_config = (case sr_parser_config rq of None \<Rightarrow> [] | Some c \<Rightarrow> c),
             so_parser_mode = (case sr_parser_mode rq of None \<Rightarrow> Active | Some m \<Rightarrow> m)\<rparr>)"

definition create_or_enable_source ::
  "router_env \<Rightarrow> router \<Rightarrow> ((string, json) dict \<Rightarrow> nat) \<Rightarrow> source_request \<Rightarrow> source_registry \<Rightarrow>
   (source_config \<times> bool) res \<times> source_registry" where
  "create_or_enable_source V rt dump_bytes rq reg =
     (let key = source_key (sr_type rq) (sr_identifier rq); existing = dict_get reg key in
      case res_bind (requested_source dump_bytes rq existing) (\<lambda>s.
          res_bind (validate_source_binding V rt s) (\<lambda>_. Inr s)) of
        Inl e \<Rightarrow> (Inl e, reg)
      | Inr s \<Rightarrow> (Inr (s, existing = None), dict_put key s reg))"


section \<open>Normalised values stay as they are\<close>

lemma strip_lower: "strip (lower t) = lower (strip t)"
proof -
  have "dropWhile is_space (map lower_char u) = map lower_char (dropWhile is_space u)" for u
    by (simp add: dropWhile_map comp_def)
  then show ?thesis by (simp add: strip_def lstrip_def rstrip_def lower_def rev_map)
qed

lemma strip_lower_strip [simp]: "lower (strip (lower (strip t))) = lower (strip t)"
  by (simp add: strip_lower)

lemma normalize_parser_key_idem: "normalize_parser_key v = Inr k \<Longrightarrow> normalize_parser_key k = Inr k"
  by (auto simp: normalize_parser_key_def split: option.splits if_splits)

lemma normalize_parser_version_idem: "normalize_parser_version v = Inr k \<Longrightarrow> normalize_parser_version k = Inr k"
  by (auto simp: normalize_parser_version_def split: option.splits if_splits)

lemma py_sort_map_sorted: "(\<And>x. f (g x) = f x) \<Longrightarrow> py_sort f (map g (py_sort f xs)) = map g (py_sort f xs)"
  unfolding py_sort_def by (rule sort_key_id_if_sorted) (simp add: comp_def)

lemma sorted_json_idem: "sorted_json (sorted_json v) = sorted_json v"
proof (induction v rule: sorted_json.induct)
  case (2 d)
  let ?g = "\<lambda>p. (fst p, sorted_json (snd p))"
  have "map ?g (py_sort fst (map ?g d)) = py_sort fst (map ?g d)"
    by (rule map_idI) (use 2 in auto)
  then show ?case using py_sort_map_sorted [of fst ?g "map ?g d"] by simp
qed simp_all

lemma sorted_config_json: "JObj (sorted_config d) = sorted_json (JObj d)"
  by (simp add: sorted_config_def)

lemma sorted_config_idem [simp]: "sorted_config (sorted_config d) = sorted_config d"
  using sorted_json_idem [of "JObj d"] by (metis json.inject(5) sorted_config_json)

lemma sorted_json_depth: "validate_json_value (sorted_json v) n = validate_json_value v n"
  by (induction v n rule: validate_json_value.induct) auto

lemma validate_parser_config_idem:
  "validate_parser_config db d = Inr c \<Longrightarrow> validate_parser_config db c = Inr c"
  unfolding validate_parser_config_def
  by (auto simp only: sorted_config_json sorted_json_depth sorted_config_idem sum.inject sum.distinct split: if_splits)

lemma source_post_init_idem:
  "source_post_init db s = Inr s' \<Longrightarrow> source_post_init db s' = Inr s'"
  by (auto simp: source_post_init_def normalize_parser_key_idem normalize_parser_version_idem
      validate_parser_config_idem elim!: res_bind_InrE)

section \<open>The registry\<close>

lemma source_post_init_fields:
  "source_post_init db s = Inr s' \<Longrightarrow> so_source_id s' = so_source_id s \<and> so_type s' = so_type s \<and>
     so_identifier s' = so_identifier s \<and> so_enabled s' = so_enabled s \<and> so_parser_mode s' = so_parser_mode s \<and>
     so_source_profile s' = so_source_profile s \<and> so_adapter_name s' = so_adapter_name s \<and>
     so_account_key s' = so_account_key s \<and> so_name s' = so_name s \<and>
     normalize_parser_key (so_parser_key s) = Inr (so_parser_key s') \<and>
     normalize_parser_version (so_parser_version s) = Inr (so_parser_version s') \<and>
     validate_parser_config db (so_parser_config s) = Inr (so_parser_config s')"
  by (auto simp: source_post_init_def elim!: res_bind_InrE)

lemma post_init_normal:
  assumes "normalize_parser_key (so_parser_key s) = Inr (so_parser_key s)"
    and "normalize_parser_version (so_parser_version s) = Inr (so_parser_version s)"
    and "validate_parser_config db (so_parser_config s) = Inr (so_parser_config s)"
  shows "source_post_init db s = Inr s"
  by (simp add: source_post_init_def assms)

lemma requested_source_fields:
  assumes "requested_source db rq existing = Inr s"
  shows "source_post_init db s = Inr s \<and> so_enabled s \<and>
    (case existing of
       None \<Rightarrow> so_source_id s = source_type_text (sr_type rq) @ '':'' @ sr_identifier rq \<and> so_type s = sr_type rq \<and>
         so_identifier s = sr_identifier rq
     | Some e \<Rightarrow> so_source_id s = so_source_id e \<and> so_type s = so_type e \<and> so_identifier s = so_identifier e)"
  using assms
  by (auto simp: requested_source_def Let_def elim!: res_bind_InrE
      dest: source_post_init_fields source_post_init_idem split: option.splits)

text \<open>A stored source.\<close>

definition source_ok :: "router_env \<Rightarrow> router \<Rightarrow> ((string, json) dict \<Rightarrow> nat) \<Rightarrow> source_config \<Rightarrow> bool" where
  "source_ok V rt db s \<longleftrightarrow>
     so_enabled s \<and> so_source_id s = source_type_text (so_type s) @ '':'' @ so_identifier s \<and>
     source_post_init db s = Inr s \<and> (case validate_source_binding V rt s of Inr r \<Rightarrow> True | Inl e \<Rightarrow> False)"

definition registry_ok :: "router_env \<Rightarrow> router \<Rightarrow> ((string, json) dict \<Rightarrow> nat) \<Rightarrow> source_registry \<Rightarrow> bool" where
  "registry_ok V rt db reg \<longleftrightarrow> keyed_by (\<lambda>s. source_key (so_type s) (so_identifier s)) reg \<and>
     (\<forall>k s. dict_get reg k = Some s \<longrightarrow> source_ok V rt db s)"

lemma create_or_enable_ok:
  assumes "registry_ok V rt db reg"
  shows "registry_ok V rt db (snd (create_or_enable_source V rt db rq reg))"
proof (cases "fst (create_or_enable_source V rt db rq reg)")
  case (Inl e)
  then have "snd (create_or_enable_source V rt db rq reg) = reg"
    by (auto simp: create_or_enable_source_def Let_def split: sum.splits)
  with assms show ?thesis by simp
next
  case (Inr x)
  let ?k = "source_key (sr_type rq) (sr_identifier rq)"
  obtain s where s: "requested_source db rq (dict_get reg ?k) = Inr s"
    and valid: "case validate_source_binding V rt s of Inr r \<Rightarrow> True | Inl e \<Rightarrow> False"
    and run: "snd (create_or_enable_source V rt db rq reg) = dict_put ?k s reg"
    using Inr by (auto simp: create_or_enable_source_def Let_def elim!: res_bind_InrE split: sum.splits)
  have "source_ok V rt db s \<and> source_key (so_type s) (so_identifier s) = ?k"
  proof (cases "dict_get reg ?k")
    case None
    with requested_source_fields [OF s] valid show ?thesis by (simp add: source_ok_def)
  next
    case (Some e)
    then have "source_ok V rt db e" and "source_key (so_type e) (so_identifier e) = ?k"
      using assms by (auto simp: registry_ok_def dest: keyed_by_getD)
    with requested_source_fields [OF s] Some valid show ?thesis by (auto simp: source_ok_def)
  qed
  with assms show ?thesis by (auto simp: run registry_ok_def dict_get_put split: if_splits)
qed

definition registry_run ::
  "router_env \<Rightarrow> router \<Rightarrow> ((string, json) dict \<Rightarrow> nat) \<Rightarrow> source_request list \<Rightarrow> source_registry" where
  "registry_run V rt db rqs = fold (\<lambda>rq reg. snd (create_or_enable_source V rt db rq reg)) rqs []"

lemma registry_run_ok: "registry_ok V rt db (registry_run V rt db rqs)"
proof -
  have "registry_ok V rt db reg \<Longrightarrow>
      registry_ok V rt db (fold (\<lambda>rq reg. snd (create_or_enable_source V rt db rq reg)) rqs reg)" for reg
    by (induction rqs arbitrary: reg) (simp_all add: create_or_enable_ok)
  then have "registry_ok V rt db [] \<Longrightarrow> ?thesis" by (simp only: registry_run_def)
  then show ?thesis by (simp add: registry_ok_def)
qed

lemma source_id_inj:
  "source_type_text t @ '':'' @ i = source_type_text t' @ '':'' @ i' \<Longrightarrow> t = t' \<and> i = i'"
  by (cases t; cases t') simp_all

lemma keyed_by_distinct_values:
  assumes "keyed_by key d"
  shows "distinct (dict_values d)"
proof -
  have "inj_on snd (set d)"
  proof (rule inj_onI)
    fix p q
    assume "p \<in> set d" "q \<in> set d" "snd p = snd q"
    moreover have "fst r = key (snd r)" if "r \<in> set d" for r
    proof -
      have "dict_get d (fst r) = Some (snd r)" using that assms by (simp add: keyed_by_def dict_ok_def)
      with assms show ?thesis by (simp add: keyed_by_def)
    qed
    ultimately show "p = q" by (metis prod_eq_iff)
  qed
  moreover have "distinct d" using assms by (auto simp: keyed_by_def dict_ok_def distinct_map)
  ultimately show ?thesis by (simp add: distinct_map)
qed

lemma active_ids_distinct:
  assumes "registry_ok V rt db reg"
  shows "distinct (map so_source_id (list_active_sources reg))"
proof -
  have inj: "inj_on so_source_id (set (dict_values reg))"
  proof (rule inj_onI)
    fix s t
    assume mem: "s \<in> set (dict_values reg)" "t \<in> set (dict_values reg)" and same: "so_source_id s = so_source_id t"
    have keyed: "keyed_by (\<lambda>s. source_key (so_type s) (so_identifier s)) reg" using assms by (simp add: registry_ok_def)
    have get: "dict_get reg (source_key (so_type s) (so_identifier s)) = Some s"
      "dict_get reg (source_key (so_type t) (so_identifier t)) = Some t"
      using mem keyed_by_values [OF keyed] by simp_all
    with assms have "source_ok V rt db s" "source_ok V rt db t" by (auto simp: registry_ok_def)
    then have ids: "so_source_id s = source_type_text (so_type s) @ '':'' @ so_identifier s"
      "so_source_id t = source_type_text (so_type t) @ '':'' @ so_identifier t"
      unfolding source_ok_def by blast+
    have "source_type_text (so_type s) @ '':'' @ so_identifier s = source_type_text (so_type t) @ '':'' @ so_identifier t"
      using same unfolding ids .
    from source_id_inj [OF this] have same: "so_type s = so_type t" "so_identifier s = so_identifier t" by simp_all
    from get(1) [unfolded same get(2)] show "s = t" by simp
  qed
  have "distinct (dict_values reg)" using assms by (auto simp: registry_ok_def intro: keyed_by_distinct_values)
  with inj show ?thesis
    by (auto simp: list_active_sources_def distinct_map intro: inj_on_subset)
qed

text \<open>
  After any sequence of registrations, accepted or refused, every stored source is enabled and stored under
  its type and case-folded identifier, its binding is normalised (a further construction changes nothing) and
  accepted by the router, and no two listed sources have the same id.
\<close>

theorem registry_invariant:
  "registry_ok V rt db (registry_run V rt db rqs) \<and>
   distinct (map so_source_id (list_active_sources (registry_run V rt db rqs)))"
  using registry_run_ok active_ids_distinct by blast

section \<open>Registering twice\<close>

lemma opt_or_again [simp]: "opt_or (opt_or a b) b = opt_or a b"
  by (auto simp: opt_or_def)

lemma opt_or_same [simp]: "opt_or a a = a"
  by (simp add: opt_or_def)

lemma dict_put_again [simp]: "dict_put k v (dict_put k v d) = dict_put k v d"
  by (induction d) auto

text \<open>What a source keeps of the request that made it.\<close>

definition follows_request :: "((string, json) dict \<Rightarrow> nat) \<Rightarrow> source_request \<Rightarrow> source_config \<Rightarrow> bool" where
  "follows_request db rq s \<longleftrightarrow>
     opt_or (so_source_profile s) (sr_source_profile rq) = so_source_profile s \<and>
     opt_or (so_adapter_name s) (sr_adapter_name rq) = so_adapter_name s \<and>
     opt_or (so_account_key s) (sr_session_name rq) = so_account_key s \<and>
     (sr_parser_key rq \<noteq> None \<longrightarrow> normalize_parser_key (sr_parser_key rq) = Inr (so_parser_key s)) \<and>
     (sr_parser_version rq \<noteq> None \<longrightarrow> normalize_parser_version (sr_parser_version rq) = Inr (so_parser_version s)) \<and>
     (\<forall>c. sr_parser_config rq = Some c \<longrightarrow> validate_parser_config db c = Inr (so_parser_config s)) \<and>
     (\<forall>m. sr_parser_mode rq = Some m \<longrightarrow> so_parser_mode s = m)"

lemma merge_facts:
  assumes "merge_source_parser_binding db existing profile rq = Inr b"
  shows "(sr_parser_key rq \<noteq> None \<longrightarrow> normalize_parser_key (sr_parser_key rq) = Inr (pb_parser_key b)) \<and>
    (sr_parser_version rq \<noteq> None \<longrightarrow> normalize_parser_version (sr_parser_version rq) = Inr (pb_parser_version b)) \<and>
    (\<forall>c. sr_parser_config rq = Some c \<longrightarrow> validate_parser_config db c = Inr (pb_parser_config b)) \<and>
    (\<forall>m. sr_parser_mode rq = Some m \<longrightarrow> pb_parser_mode b = m)"
  using assms
  by (auto simp: merge_source_parser_binding_def Let_def elim!: res_bind_InrE split: if_splits)

lemma requested_follows:
  assumes "requested_source db rq existing = Inr s"
  shows "follows_request db rq s"
proof (cases existing)
  case None
  with assms show ?thesis
    by (auto simp: requested_source_def follows_request_def dest!: source_post_init_fields split: option.splits)
next
  case (Some e)
  obtain b where b: "merge_source_parser_binding db (Some e) (opt_or (so_source_profile e) (sr_source_profile rq)) rq = Inr b"
    and s: "source_post_init db (e\<lparr>so_enabled := True,
               so_adapter_name := opt_or (so_adapter_name e) (sr_adapter_name rq),
               so_source_profile := opt_or (so_source_profile e) (sr_source_profile rq),
               so_account_key := opt_or (so_account_key e) (sr_session_name rq), so_parser_key := pb_parser_key b,
               so_parser_version := pb_parser_version b, so_parser_config := pb_parser_config b,
               so_parser_mode := pb_parser_mode b\<rparr>) = Inr s"
    using assms Some by (auto simp: requested_source_def Let_def elim!: res_bind_InrE)
  have final: "so_parser_mode s = pb_parser_mode b"
    "so_source_profile s = opt_or (so_source_profile e) (sr_source_profile rq)"
    "so_adapter_name s = opt_or (so_adapter_name e) (sr_adapter_name rq)"
    "so_account_key s = opt_or (so_account_key e) (sr_session_name rq)"
    "normalize_parser_key (pb_parser_key b) = Inr (so_parser_key s)"
    "normalize_parser_version (pb_parser_version b) = Inr (so_parser_version s)"
    "validate_parser_config db (pb_parser_config b) = Inr (so_parser_config s)"
    using source_post_init_fields [OF s] by simp_all
  have "normalize_parser_key v = Inr (so_parser_key s)" if "normalize_parser_key v = Inr (pb_parser_key b)" for v
    using normalize_parser_key_idem [OF that] that final(5) by simp
  moreover have "normalize_parser_version v = Inr (so_parser_version s)"
    if "normalize_parser_version v = Inr (pb_parser_version b)" for v
    using normalize_parser_version_idem [OF that] that final(6) by simp
  moreover have "validate_parser_config db c = Inr (so_parser_config s)"
    if "validate_parser_config db c = Inr (pb_parser_config b)" for c
    using validate_parser_config_idem [OF that] that final(7) by simp
  ultimately show ?thesis
    using merge_facts [OF b] unfolding follows_request_def final(1-4) opt_or_again by blast
qed

lemma requested_source_again:
  assumes "requested_source db rq existing = Inr s"
  shows "requested_source db rq (Some s) = Inr s"
proof -
  have facts: "source_post_init db s = Inr s" "so_enabled s" using requested_source_fields [OF assms] by auto
  have valid: "validate_parser_config db (so_parser_config s) = Inr (so_parser_config s)"
    using source_post_init_fields [OF facts(1)] by simp
  have kept: "opt_or (so_source_profile s) (sr_source_profile rq) = so_source_profile s"
    "opt_or (so_adapter_name s) (sr_adapter_name rq) = so_adapter_name s"
    "opt_or (so_account_key s) (sr_session_name rq) = so_account_key s"
    and given: "sr_parser_key rq \<noteq> None \<Longrightarrow> normalize_parser_key (sr_parser_key rq) = Inr (so_parser_key s)"
    "sr_parser_version rq \<noteq> None \<Longrightarrow> normalize_parser_version (sr_parser_version rq) = Inr (so_parser_version s)"
    "\<And>c. sr_parser_config rq = Some c \<Longrightarrow> validate_parser_config db c = Inr (so_parser_config s)"
    "\<And>m. sr_parser_mode rq = Some m \<Longrightarrow> so_parser_mode s = m"
    using requested_follows [OF assms] by (auto simp: follows_request_def)
  have "merge_source_parser_binding db (Some s) (so_source_profile s) rq =
      Inr \<lparr>pb_parser_key = so_parser_key s, pb_parser_version = so_parser_version s,
        pb_parser_config = so_parser_config s, pb_parser_mode = so_parser_mode s\<rparr>"
  proof -
    have pick: "(if K then A else B) = x" if "K \<Longrightarrow> A = x" "B = x" for K and A B x :: "string option res"
      using that by simp
    have parts: "(if sr_parser_key rq \<noteq> None then normalize_parser_key (sr_parser_key rq)
        else Inr (Option.bind (Some s) so_parser_key)) = Inr (so_parser_key s)"
      "(if sr_parser_version rq \<noteq> None then normalize_parser_version (sr_parser_version rq)
        else Inr (Option.bind (Some s) so_parser_version)) = Inr (so_parser_version s)"
      by (rule pick [OF given(1)], assumption, simp, rule pick [OF given(2)], assumption, simp)
    have config: "(case sr_parser_config rq of Some c \<Rightarrow> validate_parser_config db c
        | None \<Rightarrow> validate_parser_config db (so_parser_config s)) = Inr (so_parser_config s)"
      using valid by (cases "sr_parser_config rq") (auto dest: given(3))
    have mode: "(case sr_parser_mode rq of Some m \<Rightarrow> m | None \<Rightarrow> so_parser_mode s) = so_parser_mode s"
      by (cases "sr_parser_mode rq") (auto dest: given(4))
    show ?thesis
      unfolding merge_source_parser_binding_def parts(1) res_bind_Inr Let_def option.case
        effective_parser_key_def [symmetric] simp_thms if_False parts(2) config mode
      ..
  qed
  moreover have "s\<lparr>so_enabled := True\<rparr> = s" using facts(2) by simp
  ultimately show ?thesis using facts(1) by (simp add: requested_source_def kept)
qed

text \<open>
  Registering a source twice with the same request is the same as once: the second call succeeds, answers
  the same source as already known and leaves the registry as it is.
\<close>

theorem register_twice:
  assumes "create_or_enable_source V rt db rq reg = (Inr (s, new), reg')"
  shows "create_or_enable_source V rt db rq reg' = (Inr (s, False), reg')"
proof -
  let ?k = "source_key (sr_type rq) (sr_identifier rq)"
  have s: "requested_source db rq (dict_get reg ?k) = Inr s"
    and valid: "res_bind (validate_source_binding V rt s) (\<lambda>_. Inr s) = Inr s" and reg': "reg' = dict_put ?k s reg"
    using assms by (auto simp: create_or_enable_source_def Let_def elim!: res_bind_InrE split: sum.splits)
  have "dict_get reg' ?k = Some s" by (simp add: reg' dict_get_put)
  with requested_source_again [OF s] valid show ?thesis
    by (simp add: create_or_enable_source_def Let_def) (simp add: reg')
qed

text \<open>A channel registered without a parser, for concrete runs.\<close>

definition sample_request :: source_request where
  "sample_request = \<lparr>sr_type = TelegramChannel, sr_identifier = ''@Uylar'', sr_name = ''Uylar'', sr_adapter_name = None,
     sr_source_profile = Some ''default'', sr_parser_key = None, sr_parser_version = None, sr_parser_config = None,
     sr_parser_mode = Some Shadow, sr_session_name = None\<rparr>"

definition sample_registry :: source_registry where
  "sample_registry = snd (create_or_enable_source sample_router_env sample_router (\<lambda>_. 2) sample_request [])"

lemma sample_registered:
  "\<exists>s. create_or_enable_source sample_router_env sample_router (\<lambda>_. 2) sample_request [] = (Inr (s, True), sample_registry)"
proof -
  have "case create_or_enable_source sample_router_env sample_router (\<lambda>_. 2) sample_request [] of
      (Inr (s, new), reg) \<Rightarrow> new | (Inl e, reg) \<Rightarrow> False" by code_simp
  then show ?thesis unfolding sample_registry_def by (auto split: prod.splits sum.splits)
qed

lemma register_twice_witness:
  "\<exists>s. create_or_enable_source sample_router_env sample_router (\<lambda>_. 2) sample_request sample_registry =
     (Inr (s, False), sample_registry)"
  using sample_registered register_twice by blast

end
