(* ===== verification/EF_Listener.thy ===== *)
theory EF_Listener
  imports EF_Sources EF_Pipeline
begin

text \<open>
  Listening to Telegram (\<open>services/telegram_listener.py\<close>, \<open>services/media_buffer.py\<close>): the account listener that
  turns updates into raw events, the publisher that remembers what it published, and the buffer that joins the
  messages of an album. The client is the list of updates and errors it delivers; new correlation ids are
  arguments; log records are left out.
\<close>

section \<open>What was published before\<close>

text \<open>\<open>IdempotencyStore\<close>: what its two operations promise each other.\<close>

locale seen_store =
  fixes seen :: "'s \<Rightarrow> string \<Rightarrow> bool"
    and mark :: "string \<Rightarrow> 's \<Rightarrow> 's"
  assumes seen_mark: "seen (mark k s) i \<longleftrightarrow> i = k \<or> seen s i"
begin

lemma seen_after [simp]: "seen (mark k s) k"
  by (simp add: seen_mark)

lemma mark_keeps: "seen s i \<Longrightarrow> seen (mark k s) i"
  by (simp add: seen_mark)

lemma marked_all: "seen (fold mark ks s) i \<longleftrightarrow> i \<in> set ks \<or> seen s i"
  by (induction ks arbitrary: s) (auto simp: seen_mark)

end

text \<open>\<open>InMemoryIdempotencyStore\<close> is a set, \<open>RedisIdempotencyStore\<close> a key space with a prefix.\<close>

definition memory_seen :: "string set \<Rightarrow> string \<Rightarrow> bool" where
  "memory_seen s k \<longleftrightarrow> k \<in> s"

definition memory_mark_seen :: "string \<Rightarrow> string set \<Rightarrow> string set" where
  "memory_mark_seen k s = insert k s"

definition redis_key :: "string \<Rightarrow> string \<Rightarrow> string" where
  "redis_key prefix k = prefix @ '':'' @ k"

definition redis_seen :: "string \<Rightarrow> (string, string) dict \<Rightarrow> string \<Rightarrow> bool" where
  "redis_seen prefix r k \<longleftrightarrow> dict_get r (redis_key prefix k) \<noteq> None"

definition redis_mark_seen :: "string \<Rightarrow> string \<Rightarrow> (string, string) dict \<Rightarrow> (string, string) dict" where
  "redis_mark_seen prefix k r = dict_put (redis_key prefix k) ''1'' r"

interpretation memory: seen_store memory_seen memory_mark_seen
  by unfold_locales (simp add: memory_seen_def memory_mark_seen_def)

interpretation redis_seen: seen_store "redis_seen prefix" "redis_mark_seen prefix" for prefix
  by unfold_locales (auto simp: redis_seen_def redis_mark_seen_def redis_key_def dict_get_put)

section \<open>From an update to an event\<close>

record telegram_update =
  tu_update_type :: update_type
  tu_source_channel_id :: string
  tu_source_message_id :: string
  tu_source_identifier :: string
  tu_occurred_at :: time
  tu_text :: "string option"
  tu_forward_metadata :: "forward_metadata option"
  tu_media :: "media_reference list"
  tu_media_group_id :: "string option"
  tu_source_username :: "string option"

definition RAW_EVENT_SCHEMA_VERSION :: string where "RAW_EVENT_SCHEMA_VERSION = ''telegram.raw.v1''"

definition build_telegram_idempotency_key :: "update_type \<Rightarrow> string \<Rightarrow> string \<Rightarrow> string" where
  "build_telegram_idempotency_key t channel msg = join '':'' [''telegram'', channel, msg, update_type_text t]"

definition build_telegram_album_idempotency_key :: "update_type \<Rightarrow> string \<Rightarrow> string \<Rightarrow> string" where
  "build_telegram_album_idempotency_key t channel grp =
     join '':'' [''telegram'', channel, ''album'', grp, update_type_text t]"

definition lstrip_char :: "char \<Rightarrow> string \<Rightarrow> string" where
  "lstrip_char c s = dropWhile (\<lambda>x. x = c) s"

definition build_telegram_source_url :: "string option \<Rightarrow> string \<Rightarrow> string option" where
  "build_telegram_source_url username msg =
     (if username = None \<or> username = Some [] \<or> \<not> is_decimal msg then None
      else (let clean = strip_char (CHR ''/'') (lstrip_char (CHR ''@'') (strip (the username)))
            in if clean = [] then None else Some (''https://t.me/'' @ clean @ ''/'' @ msg)))"

definition source_lookup_key :: "string \<Rightarrow> string" where
  "source_lookup_key v = lower (strip v)"

definition source_by_identifier :: "source_config list \<Rightarrow> (string, source_config) dict" where
  "source_by_identifier sources =
     fold (\<lambda>s d. dict_put (source_lookup_key (so_source_id s)) s (dict_put (source_lookup_key (so_identifier s)) s d))
       (filter so_enabled sources) []"

definition resolve_source :: "(string, source_config) dict \<Rightarrow> telegram_update \<Rightarrow> source_config option" where
  "resolve_source by_id u =
     (let username = lstrip_char (CHR ''@'') (strip (text_or (tu_source_username u) []))
      in (case List.map_filter (\<lambda>i. dict_get by_id (source_lookup_key i))
            [tu_source_identifier u, tu_source_channel_id u, if username = [] then [] else CHR ''@'' # username] of
            [] \<Rightarrow> None | s # _ \<Rightarrow> Some s))"

definition build_raw_event :: "string \<Rightarrow> source_config option \<Rightarrow> string \<Rightarrow> telegram_update \<Rightarrow> raw_event" where
  "build_raw_event account source cid u =
     (let source_id = (case source of Some s \<Rightarrow> so_source_id s | None \<Rightarrow> tu_source_identifier u);
          named = (case source of Some s \<Rightarrow>
              if take 1 (so_identifier s) = ''@'' then Some (so_identifier s) else None | None \<Rightarrow> None)
      in \<lparr>ev_schema_version = RAW_EVENT_SCHEMA_VERSION, ev_event_type = tu_update_type u,
          ev_idempotency_key =
            build_telegram_idempotency_key (tu_update_type u) (tu_source_channel_id u) (tu_source_message_id u),
          ev_account_key = account, ev_source_id = source_id, ev_source_channel_id = tu_source_channel_id u,
          ev_source_message_id = tu_source_message_id u, ev_source_identifier = tu_source_identifier u,
          ev_occurred_at = tu_occurred_at u, ev_correlation_id = cid, ev_text = tu_text u,
          ev_forward_metadata = tu_forward_metadata u, ev_media = tu_media u,
          ev_media_group_id = tu_media_group_id u, ev_source_message_ids = [tu_source_message_id u],
          ev_source_url = build_telegram_source_url (opt_or (tu_source_username u) named) (tu_source_message_id u),
          ev_parser_key = Some (case source of Some s \<Rightarrow> effective_parser_key s | None \<Rightarrow> DEFAULT_PARSER_KEY),
          ev_parser_version =
            Some (case source of Some s \<Rightarrow> effective_parser_version s | None \<Rightarrow> DEFAULT_PARSER_VERSION),
          ev_parser_config = (case source of Some s \<Rightarrow> so_parser_config s | None \<Rightarrow> []),
          ev_parser_mode = (case source of Some s \<Rightarrow> so_parser_mode s | None \<Rightarrow> Active),
          ev_parser_diagnostics = [],
          ev_parser_provenance =
            [(''source_binding'', JStr (if source = None then ''unresolved'' else ''configured'')),
             (''binding_source_id'', JStr source_id)] @
            (case source of
               Some s \<Rightarrow> (case so_source_profile s of
                   Some (c # cs) \<Rightarrow> [(''legacy_source_profile'', JStr (c # cs))] | _ \<Rightarrow> [])
             | None \<Rightarrow> [])\<rparr>)"

section \<open>Publishing an event\<close>

record 's raw_publisher =
  rp_store :: 's
  rp_queue :: "message list"

definition raw_event_message :: "text_env \<Rightarrow> raw_event \<Rightarrow> message" where
  "raw_event_message E ev =
     \<lparr>queue_name = RAW_ANNOUNCEMENT_QUEUE, payload = JObj (to_queue_payload E ev),
      correlation_id = ev_correlation_id ev,
      metadata = [(''idempotency_key'', JStr (ev_idempotency_key ev)),
        (''event_type'', JStr (update_type_text (ev_event_type ev))), (''source_id'', JStr (ev_source_id ev)),
        (''schema_version'', JStr (ev_schema_version ev)), (''parser_key'', JStr (text_or (ev_parser_key ev) [])),
        (''parser_version'', JStr (text_or (ev_parser_version ev) [])),
        (''parser_mode'', JStr (mode_text (ev_parser_mode ev)))],
      delivery_token = None\<rparr>"

definition publish_raw_event ::
  "('s \<Rightarrow> string \<Rightarrow> bool) \<Rightarrow> (string \<Rightarrow> 's \<Rightarrow> 's) \<Rightarrow> text_env \<Rightarrow> (message \<Rightarrow> bool) \<Rightarrow> raw_event \<Rightarrow> 's raw_publisher \<Rightarrow>
   unit res \<times> 's raw_publisher" where
  "publish_raw_event seen mark E accepts ev p =
     (if seen (rp_store p) (ev_idempotency_key ev) then (Inr (), p)
      else if accepts (raw_event_message E ev)
      then (Inr (), p\<lparr>rp_queue := rp_queue p @ [raw_event_message E ev],
             rp_store := mark (ev_idempotency_key ev) (rp_store p)\<rparr>)
      else (Inl (QueuePublishError RAW_ANNOUNCEMENT_QUEUE), p))"


section \<open>The listener\<close>

text \<open>
  The event publisher of the listener, either the queue publisher or the album buffer before it, is the argument
  \<open>pub\<close>, its idempotency store is read by \<open>known\<close>, and \<open>flush\<close> is what its \<open>flush_all\<close> does, nothing if it has
  none.
\<close>

record 'p listener =
  ln_publisher :: 'p
  ln_successes :: "string list"
  ln_health :: "(string \<times> string) list"
  ln_notes :: "(string \<times> string) list"
  ln_connected :: bool

definition handle_update ::
  "('p \<Rightarrow> string \<Rightarrow> bool) \<Rightarrow> (raw_event \<Rightarrow> 'p \<Rightarrow> unit res \<times> 'p) \<Rightarrow> string \<Rightarrow> (string, source_config) dict \<Rightarrow> string \<Rightarrow>
   telegram_update \<Rightarrow> 'p listener \<Rightarrow> raw_event option res \<times> 'p listener" where
  "handle_update known pub account by_id cid u l =
     (let ev = build_raw_event account (resolve_source by_id u) cid u in
      if known (ln_publisher l) (ev_idempotency_key ev) then (Inr None, l)
      else (case pub ev (ln_publisher l) of
          (Inl e, p) \<Rightarrow> (Inl e, l\<lparr>ln_publisher := p\<rparr>)
        | (Inr _, p) \<Rightarrow>
            (Inr (Some ev), l\<lparr>ln_publisher := p, ln_successes := ln_successes l @ [account]\<rparr>)))"

datatype client_error = FloodWait | AuthorizationFailed | ConnectionFailed | ClientRaised py_error

datatype stream_item = UpdateItem telegram_update string | StopRequested | StreamError client_error

text \<open>The health transition and the severity of the note for an error that the listener expects.\<close>

definition client_error_effect :: "string \<Rightarrow> client_error \<Rightarrow> 'p listener \<Rightarrow> unit res \<times> 'p listener" where
  "client_error_effect account err l =
     (let react = (\<lambda>health severity. (Inr (), l\<lparr>ln_health := ln_health l @ [(account, health)],
            ln_notes := ln_notes l @ [(severity, account)]\<rparr>))
      in case err of
           FloodWait \<Rightarrow> react ''flood_wait'' ''warning''
         | AuthorizationFailed \<Rightarrow> react ''banned'' ''critical''
         | ConnectionFailed \<Rightarrow> react ''reconnecting'' ''warning''
         | ClientRaised e \<Rightarrow> (Inl e, l))"

definition update_is_empty :: "telegram_update \<Rightarrow> bool" where
  "update_is_empty u \<longleftrightarrow> strip (text_or (tu_text u) []) = [] \<and> tu_media u = []"

fun listen ::
  "('p \<Rightarrow> string \<Rightarrow> bool) \<Rightarrow> (raw_event \<Rightarrow> 'p \<Rightarrow> unit res \<times> 'p) \<Rightarrow> string \<Rightarrow> (string, source_config) dict \<Rightarrow>
   stream_item list \<Rightarrow> 'p listener \<Rightarrow> unit res \<times> 'p listener" where
  "listen known pub account by_id [] l = (Inr (), l)"
| "listen known pub account by_id (StopRequested # items) l = (Inr (), l)"
| "listen known pub account by_id (StreamError err # items) l = client_error_effect account err l"
| "listen known pub account by_id (UpdateItem u cid # items) l =
     (if update_is_empty u then listen known pub account by_id items l
      else (case handle_update known pub account by_id cid u l of
          (Inl e, l1) \<Rightarrow> (Inl e, l1)
        | (Inr _, l1) \<Rightarrow> listen known pub account by_id items l1))"

text \<open>The \<open>finally\<close> block: flush, then disconnect; a failing flush replaces the result and the disconnect.\<close>

definition listener_run ::
  "('p \<Rightarrow> string \<Rightarrow> bool) \<Rightarrow> (raw_event \<Rightarrow> 'p \<Rightarrow> unit res \<times> 'p) \<Rightarrow> ('p \<Rightarrow> unit res \<times> 'p) \<Rightarrow> string \<Rightarrow>
   (string, source_config) dict \<Rightarrow> client_error option \<Rightarrow> stream_item list \<Rightarrow> 'p listener \<Rightarrow> unit res \<times> 'p listener" where
  "listener_run known pub flush account by_id start items l =
     (case (case start of
          Some err \<Rightarrow> client_error_effect account err l
        | None \<Rightarrow> listen known pub account by_id items
            (l\<lparr>ln_connected := True, ln_health := ln_health l @ [(account, ''online'')]\<rparr>)) of
        (r, l1) \<Rightarrow>
          (case flush (ln_publisher l1) of
             (Inl e, p) \<Rightarrow> (Inl e, l1\<lparr>ln_publisher := p\<rparr>)
           | (Inr _, p) \<Rightarrow> (r, l1\<lparr>ln_publisher := p, ln_connected := False\<rparr>)))"

section \<open>Events of registered sources\<close>

lemma text_or_Some [simp]: "t \<noteq> [] \<Longrightarrow> text_or (Some t) d = t"
  by (simp add: text_or_def)

text \<open>
  C18. From registration to parsing: an event of a source that went through the registry is, on the other
  side of the queue, parsed by the recipe that the registration was checked against, with the source's mode.
\<close>

theorem registered_source_is_parsed_as_checked:
  assumes "new_router V recipes src plugins fb = Inr rt"
    and "dict_get (registry_run V rt db rqs) k = Some s" and "so_parser_mode s \<noteq> Disabled"
    and "ev = build_raw_event account (Some s) cid u"
  shows "\<exists>r po. validate_source_binding V rt s = Inr r \<and>
    router_parse V rt (received_event ev) (to_queue_payload (rv_text V) ev) = Inr po \<and>
    po_parser_key po = rc_parser_key r \<and> po_parser_version po = rc_parser_version r \<and>
    po_parser_family po = rc_family r \<and> po_mode po = so_parser_mode s"
proof -
  have "source_ok V rt db s" using registry_run_ok [of V rt db rqs] assms(2) by (auto simp: registry_ok_def)
  then obtain r where r: "validate_source_binding V rt s = Inr r" by (auto simp: source_ok_def split: sum.splits)
  have ev: "ev_source_id ev = so_source_id s" "ev_parser_key ev = Some (effective_parser_key s)"
    "ev_parser_version ev = Some (effective_parser_version s)" "ev_parser_config ev = so_parser_config s"
    "ev_parser_mode ev = so_parser_mode s"
    by (simp_all add: assms(4) build_raw_event_def Let_def)
  have "validate_source_parser_binding V rt (ev_source_id ev) (ev_parser_key ev) (ev_parser_version ev)
      (ev_parser_config ev) (JStr (mode_text (ev_parser_mode ev))) = Inr r"
    using r by (simp add: ev validate_source_binding_def)
  from validated_binding_parses [OF assms(1) _ this] assms(3) r show ?thesis by (simp add: ev)
qed


section \<open>One event per message and kind of update\<close>

text \<open>
  The listener publishes a message once per kind of update: once an update was published, every later one of
  the same channel, message and kind is skipped without any effect. That is so for redeliveries, but also for a
  second edit of the message.
\<close>

theorem update_taken_once:
  assumes "handle_update (\<lambda>p. memory_seen (rp_store p)) (publish_raw_event memory_seen memory_mark_seen E accepts)
      account by_id cid u l = (Inr (Some ev), l')"
    and "tu_update_type u' = tu_update_type u" and "tu_source_channel_id u' = tu_source_channel_id u"
    and "tu_source_message_id u' = tu_source_message_id u"
  shows "raw_event_message E ev \<in> set (rp_queue (ln_publisher l')) \<and>
    handle_update (\<lambda>p. memory_seen (rp_store p)) (publish_raw_event memory_seen memory_mark_seen E accepts')
      account' by_id' cid' u' l' = (Inr None, l')"
  using assms
  by (auto simp: handle_update_def publish_raw_event_def build_raw_event_def Let_def split: if_splits)

definition sample_update :: telegram_update where
  "sample_update = \<lparr>tu_update_type = Edited, tu_source_channel_id = ''-100'', tu_source_message_id = ''7'',
     tu_source_identifier = ''@uylar'', tu_occurred_at = 3, tu_text = Some ''2 xona'', tu_forward_metadata = None,
     tu_media = [], tu_media_group_id = None, tu_source_username = None\<rparr>"

definition sample_listener :: "string set raw_publisher listener" where
  "sample_listener = \<lparr>ln_publisher = \<lparr>rp_store = {}, rp_queue = []\<rparr>, ln_successes = [], ln_health = [], ln_notes = [],
     ln_connected = True\<rparr>"

lemma update_taken_once_witness:
  "\<exists>l. fst (handle_update (\<lambda>p. memory_seen (rp_store p)) (publish_raw_event memory_seen memory_mark_seen sample_env (\<lambda>_. True))
      ''acc'' [] ''c2'' (sample_update\<lparr>tu_text := Some ''3 xona''\<rparr>) l) = Inr None \<and> length (rp_queue (ln_publisher l)) = 1"
proof -
  have "\<exists>ev l. handle_update (\<lambda>p. memory_seen (rp_store p)) (publish_raw_event memory_seen memory_mark_seen sample_env (\<lambda>_. True))
      ''acc'' [] ''c1'' sample_update sample_listener = (Inr (Some ev), l) \<and> length (rp_queue (ln_publisher l)) = 1"
    by (simp add: handle_update_def publish_raw_event_def sample_listener_def memory_seen_def Let_def)
  then obtain ev l where run: "handle_update (\<lambda>p. memory_seen (rp_store p))
      (publish_raw_event memory_seen memory_mark_seen sample_env (\<lambda>_. True)) ''acc'' [] ''c1'' sample_update sample_listener =
      (Inr (Some ev), l)" and one: "length (rp_queue (ln_publisher l)) = 1" by blast
  from update_taken_once [OF run, of "sample_update\<lparr>tu_text := Some ''3 xona''\<rparr>" "\<lambda>_. True" "''acc''" "[]" "''c2''"] one
  show ?thesis by (intro exI [of _ l]) simp
qed

lemma registered_source_is_parsed_as_checked_witness:
  "\<exists>s r po. dict_get sample_registry ''telegram_channel:@uylar'' = Some s \<and>
    validate_source_binding sample_router_env sample_router s = Inr r \<and>
    router_parse sample_router_env sample_router (received_event (build_raw_event ''acc'' (Some s) ''c'' sample_update))
      (to_queue_payload sample_env (build_raw_event ''acc'' (Some s) ''c'' sample_update)) = Inr po \<and>
    po_parser_key po = rc_parser_key r \<and> po_mode po = Shadow"
proof -
  have "case dict_get sample_registry ''telegram_channel:@uylar'' of None \<Rightarrow> False | Some s \<Rightarrow> so_parser_mode s = Shadow"
    unfolding sample_registry_def by code_simp
  then obtain s where s: "dict_get sample_registry ''telegram_channel:@uylar'' = Some s" "so_parser_mode s = Shadow"
    by (auto split: option.splits)
  have "dict_get (registry_run sample_router_env sample_router (\<lambda>_. 2) [sample_request]) ''telegram_channel:@uylar'' = Some s"
    using s(1) by (simp add: registry_run_def sample_registry_def)
  from registered_source_is_parsed_as_checked [OF sample_router_new this _ refl, of "''acc''" "''c''" sample_update] s
  show ?thesis by (auto simp: sample_router_env_def)
qed

end
