(* ===== verification/EF_Album.thy ===== *)
theory EF_Album
  imports EF_Listener "HOL-Library.Multiset"
begin

text \<open>
  The album buffer (\<open>services/media_buffer.py\<close>): the messages of an album arrive one by one, are collected under
  their group, and are published as one event when no further message came for a while. A flush takes its lock
  twice, before and after the publication, so its two halves are steps of their own and other calls may come
  between them; \<open>ab_tasks\<close> are the scheduled flushes.
\<close>

section \<open>One event for an album\<close>

definition message_sort_key :: "string \<Rightarrow> int \<times> string" where
  "message_sort_key i = (case py_int i of Some n \<Rightarrow> (n, i) | None \<Rightarrow> (0, i))"

type_synonym album_key = "string \<times> string \<times> update_type"

definition merged_media :: "media_reference list \<Rightarrow> media_reference list" where
  "merged_media items =
     fold (\<lambda>m out. if (mr_media_id m, mr_media_type m) \<in> set (map (\<lambda>x. (mr_media_id x, mr_media_type x)) out)
        then out else out @ [m]) items []"

definition canonical_album_event :: "string \<Rightarrow> raw_event list \<Rightarrow> raw_event res" where
  "canonical_album_event cid events =
     (case py_sort (\<lambda>ev. message_sort_key (ev_source_message_id ev)) events of
        [] \<Rightarrow> Inl (OtherError ''IndexError'' ''list index out of range'')
      | first # rest \<Rightarrow>
          (let ordered = first # rest;
               ids = concat (map (\<lambda>ev. if ev_source_message_ids ev = [] then [ev_source_message_id ev]
                  else ev_source_message_ids ev) ordered);
               texts = filter (\<lambda>t. t \<noteq> []) (List.map_filter ev_text ordered);
               joined = join [CHR 0x0A, CHR 0x0A] (fromkeys texts)
           in case ev_media_group_id first of
                None \<Rightarrow> Inl (ValueError ''Album canonicalization requires media_group_id.'')
              | Some grp \<Rightarrow> Inr (first
                  \<lparr>ev_schema_version := RAW_EVENT_SCHEMA_VERSION,
                   ev_idempotency_key :=
                     build_telegram_album_idempotency_key (ev_event_type first) (ev_source_channel_id first) grp,
                   ev_occurred_at := Min (set (map ev_occurred_at ordered)),
                   ev_correlation_id := cid,
                   ev_text := (if joined = [] then None else Some joined),
                   ev_media := merged_media (concat (map ev_media ordered)),
                   ev_source_message_ids := py_sort message_sort_key (remdups ids)\<rparr>)))"

section \<open>The buffer\<close>

record 'p album_buffer =
  ab_groups :: "(album_key, raw_event list) dict"
  ab_tasks :: "album_key list"
  ab_in_flight :: "(album_key \<times> raw_event list) list"
  ab_downstream :: 'p

definition album_key_of :: "raw_event \<Rightarrow> album_key option" where
  "album_key_of ev =
     (case ev_media_group_id ev of
        None \<Rightarrow> None
      | Some grp \<Rightarrow>
          if ev_event_type ev = Created then Some (ev_source_channel_id ev, grp, ev_event_type ev) else None)"

definition group_events :: "'p album_buffer \<Rightarrow> album_key \<Rightarrow> raw_event list" where
  "group_events b k = (case dict_get (ab_groups b) k of None \<Rightarrow> [] | Some xs \<Rightarrow> xs)"

definition album_publish ::
  "(raw_event \<Rightarrow> 'p \<Rightarrow> unit res \<times> 'p) \<Rightarrow> raw_event \<Rightarrow> 'p album_buffer \<Rightarrow> unit res \<times> 'p album_buffer" where
  "album_publish pub ev b =
     (case album_key_of ev of
        None \<Rightarrow> (case pub ev (ab_downstream b) of (r, p) \<Rightarrow> (r, b\<lparr>ab_downstream := p\<rparr>))
      | Some k \<Rightarrow>
          (Inr (), b\<lparr>ab_groups := dict_put k (group_events b k @ [ev]) (ab_groups b),
             ab_tasks := filter (\<lambda>t. t \<noteq> k) (ab_tasks b) @ [k]\<rparr>))"

text \<open>The first half of a flush takes the group out of the buffer.\<close>

definition flush_start :: "album_key \<Rightarrow> 'p album_buffer \<Rightarrow> 'p album_buffer" where
  "flush_start k b =
     (let b1 = b\<lparr>ab_groups := dict_pop k (ab_groups b)\<rparr> in
      if group_events b k = [] then b1
      else b1\<lparr>ab_tasks := filter (\<lambda>t. t \<noteq> k) (ab_tasks b), ab_in_flight := ab_in_flight b @ [(k, group_events b k)]\<rparr>)"

text \<open>The second half publishes the group \<open>i\<close> in flight; a failure puts it back in front of what came meanwhile.\<close>

definition flush_finish ::
  "(raw_event \<Rightarrow> 'p \<Rightarrow> unit res \<times> 'p) \<Rightarrow> string \<Rightarrow> nat \<Rightarrow> 'p album_buffer \<Rightarrow> unit res \<times> 'p album_buffer" where
  "flush_finish pub cid i b =
     (if length (ab_in_flight b) \<le> i then (Inr (), b)
      else (case ab_in_flight b ! i of (k, events) \<Rightarrow>
        (let b1 = b\<lparr>ab_in_flight := take i (ab_in_flight b) @ drop (Suc i) (ab_in_flight b)\<rparr> in
         case canonical_album_event cid events of
           Inl e \<Rightarrow> (Inl e, b1)
         | Inr ev \<Rightarrow>
             (case pub ev (ab_downstream b) of
                (Inr u, p) \<Rightarrow> (Inr u, b1\<lparr>ab_downstream := p\<rparr>)
              | (Inl e, p) \<Rightarrow>
                  (Inl e, b1\<lparr>ab_downstream := p,
                     ab_groups := dict_put k (events @ group_events b k) (dict_pop k (ab_groups b))\<rparr>)))))"

definition album_flush ::
  "(raw_event \<Rightarrow> 'p \<Rightarrow> unit res \<times> 'p) \<Rightarrow> string \<Rightarrow> album_key \<Rightarrow> 'p album_buffer \<Rightarrow> unit res \<times> 'p album_buffer" where
  "album_flush pub cid k b =
     (if group_events b k = [] then (Inr (), flush_start k b)
      else flush_finish pub cid (length (ab_in_flight b)) (flush_start k b))"

fun flush_keys ::
  "(raw_event \<Rightarrow> 'p \<Rightarrow> unit res \<times> 'p) \<Rightarrow> (album_key \<Rightarrow> string) \<Rightarrow> album_key list \<Rightarrow> unit res \<Rightarrow> 'p album_buffer \<Rightarrow>
   unit res \<times> 'p album_buffer" where
  "flush_keys pub cid [] r b = (r, b)"
| "flush_keys pub cid (k # ks) r b =
     (case album_flush pub (cid k) k b of
        (r1, b1) \<Rightarrow> flush_keys pub cid ks (case r of Inl e \<Rightarrow> Inl e | Inr _ \<Rightarrow> r1) b1)"

text \<open>\<open>flush_all\<close>: every task is cancelled, every group flushed, the first failure raised.\<close>

definition album_flush_all ::
  "(raw_event \<Rightarrow> 'p \<Rightarrow> unit res \<times> 'p) \<Rightarrow> (album_key \<Rightarrow> string) \<Rightarrow> 'p album_buffer \<Rightarrow> unit res \<times> 'p album_buffer" where
  "album_flush_all pub cid b =
     flush_keys pub cid (dict_keys (ab_groups b)) (Inr ()) (b\<lparr>ab_tasks := []\<rparr>)"

definition new_album_buffer :: "'p \<Rightarrow> 'p album_buffer" where
  "new_album_buffer p = \<lparr>ab_groups = [], ab_tasks = [], ab_in_flight = [], ab_downstream = p\<rparr>"


section \<open>The order of arrival\<close>

lemma message_sort_key_inj: "message_sort_key i = message_sort_key j \<longleftrightarrow> i = j"
  by (auto simp: message_sort_key_def split: option.splits)

text \<open>
  The event of an album does not depend on the order in which its messages arrive, nor on how the flushes
  and failures in between split them, as long as no two have the same message id.
\<close>

theorem album_order_irrelevant:
  assumes "mset xs = mset ys" and "distinct (map ev_source_message_id xs)"
  shows "canonical_album_event cid xs = canonical_album_event cid ys"
proof -
  have "inj_on (\<lambda>ev. message_sort_key (ev_source_message_id ev)) (set xs)"
    using assms(2) by (auto simp: distinct_map inj_on_def message_sort_key_inj)
  then have "sort_key (\<lambda>ev. message_sort_key (ev_source_message_id ev)) ys =
      sort_key (\<lambda>ev. message_sort_key (ev_source_message_id ev)) xs"
    using assms(1) by (intro sort_key_inj_key_eq [symmetric]) simp_all
  then show ?thesis by (simp add: canonical_album_event_def py_sort_def)
qed

section \<open>No message of an album is lost\<close>

type_synonym memory_buffer = "string set raw_publisher album_buffer"

abbreviation memory_pub :: "text_env \<Rightarrow> (message \<Rightarrow> bool) \<Rightarrow> raw_event \<Rightarrow> string set raw_publisher \<Rightarrow> unit res \<times> string set raw_publisher" where
  "memory_pub \<equiv> publish_raw_event memory_seen memory_mark_seen"

text \<open>The calls on the buffer in the order in which they take its lock, each with the answers of the queue.\<close>

datatype buffer_action = PublishItem raw_event | StartFlush album_key | FinishFlush nat string

fun buffer_step :: "text_env \<Rightarrow> buffer_action \<times> (message \<Rightarrow> bool) \<Rightarrow> memory_buffer \<Rightarrow> memory_buffer" where
  "buffer_step E (PublishItem ev, accepts) b = snd (album_publish (memory_pub E accepts) ev b)"
| "buffer_step E (StartFlush k, accepts) b = flush_start k b"
| "buffer_step E (FinishFlush i cid, accepts) b = snd (flush_finish (memory_pub E accepts) cid i b)"

definition buffer_run :: "text_env \<Rightarrow> (buffer_action \<times> (message \<Rightarrow> bool)) list \<Rightarrow> memory_buffer" where
  "buffer_run E acts = fold (buffer_step E) acts (new_album_buffer \<lparr>rp_store = {}, rp_queue = []\<rparr>)"

definition sent_key :: "message \<Rightarrow> json option" where
  "sent_key m = dict_get (metadata m) ''idempotency_key''"

definition album_sent :: "album_key \<Rightarrow> memory_buffer \<Rightarrow> bool" where
  "album_sent k b \<longleftrightarrow> (case k of (channel, grp, t) \<Rightarrow>
     list_ex (\<lambda>m. sent_key m = Some (JStr (build_telegram_album_idempotency_key t channel grp))) (rp_queue (ab_downstream b)))"

text \<open>A message of the queue that holds a message \<open>ev\<close> of an album: its ids, its media and its text are in the event sent.\<close>

definition event_ids :: "raw_event \<Rightarrow> string list" where
  "event_ids ev = (if ev_source_message_ids ev = [] then [ev_source_message_id ev] else ev_source_message_ids ev)"

definition media_keys :: "raw_event \<Rightarrow> (string \<times> string) set" where
  "media_keys ev = set (map (\<lambda>m. (mr_media_id m, mr_media_type m)) (ev_media ev))"

definition holds_message :: "text_env \<Rightarrow> message \<Rightarrow> album_key \<Rightarrow> raw_event \<Rightarrow> bool" where
  "holds_message E m k ev \<longleftrightarrow>
     (\<exists>one. m = raw_event_message E one \<and>
        ev_idempotency_key one = (case k of (channel, grp, t) \<Rightarrow> build_telegram_album_idempotency_key t channel grp) \<and>
        set (event_ids ev) \<subseteq> set (ev_source_message_ids one) \<and> media_keys ev \<subseteq> media_keys one \<and>
        (\<forall>t. ev_text ev = Some t \<longrightarrow> t \<noteq> [] \<longrightarrow> (\<exists>before after. ev_text one = Some (before @ t @ after))))"

text \<open>A message that came too late: the flush that took it finished after its album had been published.\<close>

definition dropped_late :: "text_env \<Rightarrow> (buffer_action \<times> (message \<Rightarrow> bool)) list \<Rightarrow> album_key \<Rightarrow> raw_event \<Rightarrow> bool" where
  "dropped_late E acts k ev \<longleftrightarrow>
     (\<exists>earlier i cid accepts later es. acts = earlier @ (FinishFlush i cid, accepts) # later \<and>
        i < length (ab_in_flight (buffer_run E earlier)) \<and> ab_in_flight (buffer_run E earlier) ! i = (k, es) \<and>
        ev \<in> set es \<and> album_sent k (buffer_run E earlier))"

text \<open>Where a message of the album \<open>k\<close> is after a run.\<close>

definition accounted :: "text_env \<Rightarrow> (buffer_action \<times> (message \<Rightarrow> bool)) list \<Rightarrow> album_key \<Rightarrow> raw_event \<Rightarrow> bool" where
  "accounted E acts k ev \<longleftrightarrow>
     (let b = buffer_run E acts in
        ev \<in> set (group_events b k) \<or> (\<exists>es. (k, es) \<in> set (ab_in_flight b) \<and> ev \<in> set es) \<or>
        (\<exists>m \<in> set (rp_queue (ab_downstream b)). holds_message E m k ev) \<or> dropped_late E acts k ev)"

definition buffer_ok :: "memory_buffer \<Rightarrow> bool" where
  "buffer_ok b \<longleftrightarrow>
     (\<forall>k. \<forall>ev \<in> set (group_events b k). album_key_of ev = Some k) \<and>
     (\<forall>k es. (k, es) \<in> set (ab_in_flight b) \<longrightarrow> es \<noteq> [] \<and> (\<forall>ev \<in> set es. album_key_of ev = Some k)) \<and>
     (\<forall>i \<in> rp_store (ab_downstream b). \<exists>m \<in> set (rp_queue (ab_downstream b)). sent_key m = Some (JStr i))"

lemma sent_key_message [simp]: "sent_key (raw_event_message E ev) = Some (JStr (ev_idempotency_key ev))"
  by (simp add: sent_key_def raw_event_message_def)

lemma memory_pub_cases:
  obtains (refused) e where "memory_pub E accepts ev p = (Inl e, p)"
  | (known) "memory_pub E accepts ev p = (Inr (), p)" "ev_idempotency_key ev \<in> rp_store p"
  | (sent) p' where "memory_pub E accepts ev p = (Inr (), p')"
      "p' = p\<lparr>rp_queue := rp_queue p @ [raw_event_message E ev], rp_store := insert (ev_idempotency_key ev) (rp_store p)\<rparr>"
  unfolding publish_raw_event_def memory_seen_def memory_mark_seen_def
  by (cases "ev_idempotency_key ev \<in> rp_store p"; cases "accepts (raw_event_message E ev)") auto

lemma canonical_key:
  assumes "es \<noteq> []" and "\<forall>ev \<in> set es. album_key_of ev = Some (channel, grp, t)"
  shows "\<exists>ev. canonical_album_event cid es = Inr ev \<and>
    ev_idempotency_key ev = build_telegram_album_idempotency_key t channel grp"
proof -
  obtain first rest where sorted: "py_sort (\<lambda>ev. message_sort_key (ev_source_message_id ev)) es = first # rest"
    using assms(1) by (cases "py_sort (\<lambda>ev. message_sort_key (ev_source_message_id ev)) es")
      (auto dest!: arg_cong [of _ _ length])
  have "first \<in> set es" using arg_cong [OF sorted, of set] by auto
  with assms(2) have "album_key_of first = Some (channel, grp, t)" by blast
  with sorted show ?thesis
    by (auto simp: canonical_album_event_def album_key_of_def Let_def split: option.splits if_splits)
qed


lemma merged_media_keys:
  "set (map (\<lambda>m. (mr_media_id m, mr_media_type m)) (merged_media ms)) = set (map (\<lambda>m. (mr_media_id m, mr_media_type m)) ms)"
proof -
  have "set (map (\<lambda>m. (mr_media_id m, mr_media_type m)) (fold (\<lambda>m out.
      if (mr_media_id m, mr_media_type m) \<in> set (map (\<lambda>x. (mr_media_id x, mr_media_type x)) out) then out else out @ [m]) ms out)) =
    set (map (\<lambda>m. (mr_media_id m, mr_media_type m)) out) \<union> set (map (\<lambda>m. (mr_media_id m, mr_media_type m)) ms)" for out
    by (induction ms arbitrary: out) (auto split: if_splits)
  from this [of "[]"] show ?thesis by (simp add: merged_media_def)
qed

lemma join_member: "t \<in> set ts \<Longrightarrow> \<exists>before after. join sep ts = before @ t @ after"
proof (induction ts rule: join.induct [of _ sep])
  case (3 sep x y zs)
  show ?case
  proof (cases "t = x")
    case True
    then show ?thesis by (intro exI [of _ "[]"] exI [of _ "sep @ join sep (y # zs)"]) simp
  next
    case False
    with 3 obtain before after where "join sep (y # zs) = before @ t @ after" by auto
    then show ?thesis by (intro exI [of _ "x @ sep @ before"] exI [of _ after]) simp
  qed
next
  case (2 sep x)
  then show ?case by (intro exI [of _ "[]"]) simp
qed simp

text \<open>The event of an album holds each of its messages.\<close>

lemma canonical_holds:
  assumes one: "canonical_album_event cid es = Inr one" and ev: "ev \<in> set es" and k: "\<forall>e \<in> set es. album_key_of e = Some k"
  shows "holds_message E (raw_event_message E one) k ev"
proof -
  obtain channel grp t where key: "k = (channel, grp, t)" by (cases k)
  obtain first rest where sorted: "py_sort (\<lambda>ev. message_sort_key (ev_source_message_id ev)) es = first # rest"
    using one by (cases "py_sort (\<lambda>ev. message_sort_key (ev_source_message_id ev)) es") (simp_all add: canonical_album_event_def)
  have all: "set (first # rest) = set es" using arg_cong [OF sorted, of set] by simp
  let ?texts = "fromkeys (filter (\<lambda>t. t \<noteq> []) (List.map_filter ev_text (first # rest)))"
  have fields: "ev_source_message_ids one = py_sort message_sort_key (remdups (concat (map event_ids (first # rest))))"
    "ev_media one = merged_media (concat (map ev_media (first # rest)))"
    "ev_text one = (let joined = join [CHR 0x0A, CHR 0x0A] ?texts in if joined = [] then None else Some joined)"
    using one sorted by (auto simp: canonical_album_event_def Let_def event_ids_def [abs_def] split: option.splits)
  have "ev_idempotency_key one = build_telegram_album_idempotency_key t channel grp"
    using canonical_key [of es channel grp t cid] one ev k key by fastforce
  moreover have ids: "set (ev_source_message_ids one) = (\<Union>e \<in> set es. set (event_ids e))"
    unfolding fields(1) all [symmetric] by simp
  moreover have "media_keys one = (\<Union>e \<in> set es. media_keys e)"
    unfolding media_keys_def fields(2) merged_media_keys all [symmetric] by auto
  moreover have "\<exists>before after. ev_text one = Some (before @ x @ after)" if "ev_text ev = Some x" "x \<noteq> []" for x
  proof -
    have "x \<in> set ?texts" using that ev all by (force simp: List.map_filter_def)
    from join_member [OF this, of "[CHR 0x0A, CHR 0x0A]"] obtain before after
      where "join [CHR 0x0A, CHR 0x0A] ?texts = before @ x @ after" by blast
    with that(2) show ?thesis by (auto simp: fields(3) Let_def)
  qed
  ultimately show ?thesis using ev key unfolding holds_message_def by (intro exI [of _ one]) auto
qed

text \<open>Album keys are triples; they stay folded below.\<close>

declare split_paired_All [simp del] split_paired_Ex [simp del]

lemma group_events_put [simp]:
  "group_events (b\<lparr>ab_groups := dict_put k xs g\<rparr>) j = (if j = k then xs else group_events (b\<lparr>ab_groups := g\<rparr>) j)"
  by (simp add: group_events_def dict_get_put)

lemma group_events_pop [simp]:
  "group_events (b\<lparr>ab_groups := dict_pop k g\<rparr>) j = (if j = k then [] else group_events (b\<lparr>ab_groups := g\<rparr>) j)"
  by (simp add: group_events_def dict_get_pop)

lemma group_events_other [simp]:
  "group_events (b\<lparr>ab_tasks := t\<rparr>) j = group_events b j"
  "group_events (b\<lparr>ab_in_flight := fl\<rparr>) j = group_events b j"
  "group_events (b\<lparr>ab_downstream := p\<rparr>) j = group_events b j"
  "group_events (b\<lparr>ab_groups := ab_groups b\<rparr>) j = group_events b j"
  by (simp_all add: group_events_def)

lemma album_sent_mono:
  "set (rp_queue (ab_downstream b)) \<subseteq> set (rp_queue (ab_downstream b')) \<Longrightarrow> album_sent k b \<Longrightarrow> album_sent k b'"
  by (auto simp: album_sent_def list_ex_iff)

lemma buffer_ok_groups: "buffer_ok b \<Longrightarrow> ev \<in> set (group_events b k) \<Longrightarrow> album_key_of ev = Some k"
  by (simp add: buffer_ok_def)

lemma set_without: "i < length xs \<Longrightarrow> set xs \<subseteq> insert (xs ! i) (set (take i xs @ drop (Suc i) xs))"
  using id_take_nth_drop [of i xs] by (metis insert_is_Un set_append set_simps(2) sup.idem sup_assoc sup_commute subset_refl)

lemma buffer_ok_sent:
  assumes "buffer_ok b" and "ev_idempotency_key ev \<in> rp_store (ab_downstream b)"
    and "ev_idempotency_key ev = build_telegram_album_idempotency_key t channel grp"
  shows "album_sent (channel, grp, t) b"
  using assms by (auto simp: buffer_ok_def album_sent_def list_ex_iff)

text \<open>A step keeps the buffer consistent; what it does with a message that waits, is being published or was published.\<close>

definition placed :: "text_env \<Rightarrow> memory_buffer \<Rightarrow> album_key \<Rightarrow> raw_event \<Rightarrow> bool" where
  "placed E b k ev \<longleftrightarrow> ev \<in> set (group_events b k) \<or> (\<exists>es. (k, es) \<in> set (ab_in_flight b) \<and> ev \<in> set es) \<or>
     (\<exists>m \<in> set (rp_queue (ab_downstream b)). holds_message E m k ev)"

lemma publish_item_step:
  assumes ok: "buffer_ok b"
  shows "buffer_ok (snd (album_publish (memory_pub E accepts) ev b)) \<and>
    (placed E b k x \<longrightarrow> placed E (snd (album_publish (memory_pub E accepts) ev b)) k x) \<and>
    (album_key_of ev = Some k \<longrightarrow> placed E (snd (album_publish (memory_pub E accepts) ev b)) k ev)"
proof (cases "album_key_of ev")
  case None
  show ?thesis
  proof (cases rule: memory_pub_cases [of E accepts ev "ab_downstream b"])
    case (sent p')
    have "buffer_ok (b\<lparr>ab_downstream := p'\<rparr>)" using ok by (auto simp: buffer_ok_def sent(2))
    moreover have "placed E (b\<lparr>ab_downstream := p'\<rparr>) k x" if "placed E b k x"
      using that by (auto simp: placed_def sent(2))
    ultimately show ?thesis using None sent(1) by (simp add: album_publish_def)
  qed (use None ok in \<open>simp_all add: album_publish_def\<close>)
next
  case (Some j)
  let ?b = "b\<lparr>ab_groups := dict_put j (group_events b j @ [ev]) (ab_groups b),
      ab_tasks := filter (\<lambda>t. t \<noteq> j) (ab_tasks b) @ [j]\<rparr>"
  have run: "snd (album_publish (memory_pub E accepts) ev b) = ?b" using Some by (simp add: album_publish_def)
  have "buffer_ok ?b" using ok Some unfolding buffer_ok_def by simp
  then show ?thesis using Some unfolding run placed_def by auto
qed

lemma flush_start_step:
  assumes ok: "buffer_ok b"
  shows "buffer_ok (flush_start j b) \<and> (placed E b k x \<longrightarrow> placed E (flush_start j b) k x)"
  using ok by (auto simp: flush_start_def Let_def placed_def buffer_ok_def)

lemma flush_finish_step:
  assumes ok: "buffer_ok b"
  shows "buffer_ok (snd (flush_finish (memory_pub E accepts) cid i b)) \<and>
    (placed E b k x \<longrightarrow> placed E (snd (flush_finish (memory_pub E accepts) cid i b)) k x \<or>
       (\<exists>es. i < length (ab_in_flight b) \<and> ab_in_flight b ! i = (k, es) \<and> x \<in> set es \<and> album_sent k b))"
proof (cases "i < length (ab_in_flight b)")
  case False
  with ok show ?thesis by (simp add: flush_finish_def)
next
  case True
  obtain j es where at_i: "ab_in_flight b ! i = (j, es)" by (cases "ab_in_flight b ! i")
  let ?fl = "take i (ab_in_flight b) @ drop (Suc i) (ab_in_flight b)"
  have "(j, es) \<in> set (ab_in_flight b)" using True at_i by (metis nth_mem)
  with ok have es: "es \<noteq> []" "\<forall>ev \<in> set es. album_key_of ev = Some j" by (auto simp: buffer_ok_def)
  obtain channel grp t where j: "j = (channel, grp, t)" by (cases j)
  obtain ev where ev: "canonical_album_event cid es = Inr ev"
    "ev_idempotency_key ev = build_telegram_album_idempotency_key t channel grp"
    using canonical_key [of es channel grp t cid] es j by auto
  have less: "set ?fl \<subseteq> set (ab_in_flight b)" by (auto dest: in_set_takeD in_set_dropD)
  have most: "set (ab_in_flight b) \<subseteq> insert (j, es) (set ?fl)" using set_without [OF True] at_i by simp
  show ?thesis
  proof (cases rule: memory_pub_cases [of E accepts ev "ab_downstream b"])
    case (refused e)
    let ?b = "b\<lparr>ab_in_flight := ?fl, ab_downstream := ab_downstream b,
        ab_groups := dict_put j (es @ group_events b j) (dict_pop j (ab_groups b))\<rparr>"
    have run: "snd (flush_finish (memory_pub E accepts) cid i b) = ?b"
      using True at_i ev refused by (simp add: flush_finish_def Let_def group_events_def)
    have "buffer_ok ?b" using ok subsetD [OF less] es unfolding buffer_ok_def by simp blast
    moreover have "placed E ?b k x" if "placed E b k x"
      using that most by (auto simp: placed_def)
    ultimately show ?thesis by (simp add: run)
  next
    case known
    let ?b = "b\<lparr>ab_in_flight := ?fl, ab_downstream := ab_downstream b\<rparr>"
    have run: "snd (flush_finish (memory_pub E accepts) cid i b) = ?b"
      using True at_i ev known by (simp add: flush_finish_def Let_def)
    have "buffer_ok ?b" using ok subsetD [OF less] unfolding buffer_ok_def by simp blast
    moreover have "album_sent j b" using buffer_ok_sent [OF ok known(2) ev(2)] by (simp add: j)
    ultimately show ?thesis using True at_i most by (auto simp: run placed_def)
  next
    case (sent p')
    let ?b = "b\<lparr>ab_in_flight := ?fl, ab_downstream := p'\<rparr>"
    have run: "snd (flush_finish (memory_pub E accepts) cid i b) = ?b"
      using True at_i ev sent(1) by (simp add: flush_finish_def Let_def)
    have "buffer_ok ?b" using ok subsetD [OF less] unfolding buffer_ok_def sent(2) by simp blast
    moreover have "placed E ?b k x" if "placed E b k x"
      using that most canonical_holds [OF ev(1) _ es(2), of _ E] by (auto simp: placed_def sent(2))
    ultimately show ?thesis by (simp add: run)
  qed
qed

definition published_items :: "(buffer_action \<times> (message \<Rightarrow> bool)) list \<Rightarrow> raw_event list" where
  "published_items acts = List.map_filter (\<lambda>a. case fst a of PublishItem ev \<Rightarrow> Some ev | _ \<Rightarrow> None) acts"

lemma published_items_snoc:
  "published_items (acts @ [(a, accepts)]) = published_items acts @ (case a of PublishItem ev \<Rightarrow> [ev] | _ \<Rightarrow> [])"
  by (simp add: published_items_def List.map_filter_def split: buffer_action.split)

lemma buffer_run_snoc: "buffer_run E (acts @ [a]) = buffer_step E a (buffer_run E acts)"
  by (simp add: buffer_run_def)

lemma buffer_run_ok: "buffer_ok (buffer_run E acts)"
proof (induction acts rule: rev_induct)
  case Nil
  show ?case by (simp add: buffer_run_def buffer_ok_def new_album_buffer_def group_events_def)
next
  case (snoc a acts)
  then show ?case
    using publish_item_step flush_start_step flush_finish_step
    by (cases a; cases "fst a") (auto simp: buffer_run_snoc)
qed

lemma accounted_iff: "accounted E acts k ev \<longleftrightarrow> placed E (buffer_run E acts) k ev \<or> dropped_late E acts k ev"
  by (auto simp: accounted_def placed_def Let_def)

lemma dropped_late_snoc: "dropped_late E acts k ev \<Longrightarrow> dropped_late E (acts @ [a]) k ev"
  unfolding dropped_late_def by (metis append.assoc append_Cons)

lemma accounted_snoc:
  assumes "accounted E acts k ev"
  shows "accounted E (acts @ [a]) k ev"
proof (cases "dropped_late E acts k ev")
  case True
  then show ?thesis by (simp add: accounted_iff dropped_late_snoc)
next
  case False
  with assms have here: "placed E (buffer_run E acts) k ev" by (simp add: accounted_iff)
  obtain act accepts where a: "a = (act, accepts)" by (cases a)
  show ?thesis
  proof (cases act)
    case (PublishItem x)
    then show ?thesis using here publish_item_step [OF buffer_run_ok] by (simp add: accounted_iff buffer_run_snoc a)
  next
    case (StartFlush j)
    then show ?thesis using here flush_start_step [OF buffer_run_ok] by (simp add: accounted_iff buffer_run_snoc a)
  next
    case (FinishFlush i cid)
    with here flush_finish_step [OF buffer_run_ok, where E = E and accepts = accepts and cid = cid and i = i and k = k and x = ev]
    show ?thesis unfolding accounted_iff buffer_run_snoc a dropped_late_def by fastforce
  qed
qed

text \<open>
  C19. No message of an album is lost by the buffer unnoticed, whatever the order of arrivals, of the two halves of the
  flushes and of the failures of the queue: after every run each message received so far waits in its group, is being
  published, or is in an event that was published under the key of its album and holds its message ids, its media and its
  text; the one exception are messages that came too late, whose flush finished after their album had been published.
\<close>

theorem album_messages_accounted:
  assumes "ev \<in> set (published_items acts)" and "album_key_of ev = Some k"
  shows "accounted E acts k ev"
  using assms(1)
proof (induction acts rule: rev_induct)
  case Nil
  then show ?case by (simp add: published_items_def List.map_filter_def)
next
  case (snoc a acts)
  obtain act accepts where a: "a = (act, accepts)" by (cases a)
  show ?case
  proof (cases "ev \<in> set (published_items acts)")
    case True
    from accounted_snoc [OF snoc.IH [OF True]] show ?thesis .
  next
    case False
    with snoc.prems have "act = PublishItem ev"
      by (auto simp: published_items_snoc a split: buffer_action.splits)
    then show ?thesis
      using publish_item_step [OF buffer_run_ok] assms(2) by (simp add: accounted_iff buffer_run_snoc a)
  qed
qed

section \<open>Late messages and failed flushes\<close>

text \<open>
  A message of an album that arrives after its album was published is dropped: its own flush succeeds, but the
  album key is already known, so nothing is published and the group is empty again.
\<close>

theorem late_album_message_dropped:
  assumes "album_key_of ev = Some (channel, grp, t)"
    and "build_telegram_album_idempotency_key t channel grp \<in> rp_store (ab_downstream b)"
    and "group_events b (channel, grp, t) = []"
    and "album_publish (memory_pub E accepts) ev b = (Inr (), b1)"
  shows "\<exists>b2. album_flush (memory_pub E accepts) cid (channel, grp, t) b1 = (Inr (), b2) \<and>
    group_events b2 (channel, grp, t) = [] \<and> ab_in_flight b2 = ab_in_flight b \<and>
    ab_downstream b2 = ab_downstream b"
proof -
  let ?k = "(channel, grp, t)"
  have b1: "b1 = b\<lparr>ab_groups := dict_put ?k [ev] (ab_groups b), ab_tasks := filter (\<lambda>t. t \<noteq> ?k) (ab_tasks b) @ [?k]\<rparr>"
    using assms(1,3,4) by (simp add: album_publish_def)
  obtain one where one: "canonical_album_event cid [ev] = Inr one"
    "ev_idempotency_key one = build_telegram_album_idempotency_key t channel grp"
    using canonical_key [of "[ev]" channel grp t cid] assms(1) by auto
  have "memory_pub E accepts one (ab_downstream b) = (Inr (), ab_downstream b)"
    using assms(2) one(2) by (simp add: publish_raw_event_def memory_seen_def)
  with one(1) show ?thesis
    by (simp add: b1 album_flush_def flush_start_def flush_finish_def Let_def)
qed

text \<open>
  A flush that fails leaves the album in the buffer, but schedules no further flush: it waits for another
  message of the album or for the shutdown.
\<close>

theorem failed_flush_not_rescheduled:
  assumes "album_flush (memory_pub E accepts) cid k b = (Inl e, b')" and "buffer_ok b"
  shows "group_events b' k = group_events b k \<and> group_events b k \<noteq> [] \<and> k \<notin> set (ab_tasks b') \<and>
    ab_in_flight b' = ab_in_flight b \<and> ab_downstream b' = ab_downstream b"
proof -
  have some: "group_events b k \<noteq> []" using assms(1) by (auto simp: album_flush_def split: if_splits)
  obtain channel grp t where k: "k = (channel, grp, t)" by (cases k)
  obtain ev where ev: "canonical_album_event cid (group_events b k) = Inr ev"
    using canonical_key [of "group_events b k" channel grp t cid] some buffer_ok_groups [OF assms(2)] k by blast
  show ?thesis
  proof (cases rule: memory_pub_cases [of E accepts ev "ab_downstream b"])
    case (refused e)
    with assms(1) some ev show ?thesis
      by (auto simp: album_flush_def flush_start_def flush_finish_def Let_def group_events_def dict_get_put dict_get_pop)
  qed (use assms(1) some ev in \<open>simp_all add: album_flush_def flush_start_def flush_finish_def Let_def\<close>)
qed

text \<open>Witnesses: two messages of one album.\<close>

definition album_message :: "string \<Rightarrow> raw_event" where
  "album_message i = (sample_event i ''2 xona'')\<lparr>ev_media_group_id := Some ''g'', ev_source_message_id := i,
     ev_source_message_ids := [i]\<rparr>"

lemma album_message_key [simp]: "album_key_of (album_message i) = Some (''ch'', ''g'', Created)"
  by (simp add: album_message_def album_key_of_def sample_event_def)

lemma album_order_irrelevant_witness:
  "canonical_album_event ''c'' [album_message ''10'', album_message ''9''] =
     canonical_album_event ''c'' [album_message ''9'', album_message ''10'']"
  by (rule album_order_irrelevant) (simp_all add: album_message_def)

lemma album_messages_accounted_witness:
  "accounted sample_env [(PublishItem (album_message ''9''), \<lambda>_. True), (StartFlush (''ch'', ''g'', Created), \<lambda>_. True),
     (PublishItem (album_message ''10''), \<lambda>_. True), (FinishFlush 0 ''c'', \<lambda>_. False)] (''ch'', ''g'', Created) (album_message ''9'')"
  by (rule album_messages_accounted) (simp_all add: published_items_def map_filter_simps)

definition sent_buffer :: memory_buffer where
  "sent_buffer = new_album_buffer \<lparr>rp_store = {''telegram:ch:album:g:created''}, rp_queue = []\<rparr>"

lemma late_album_message_dropped_witness:
  "case album_publish (memory_pub sample_env (\<lambda>_. True)) (album_message ''10'') sent_buffer of
     (r, b1) \<Rightarrow> fst (album_flush (memory_pub sample_env (\<lambda>_. True)) ''c'' (''ch'', ''g'', Created) b1) = Inr () \<and>
       rp_queue (ab_downstream (snd (album_flush (memory_pub sample_env (\<lambda>_. True)) ''c'' (''ch'', ''g'', Created) b1))) = []"
proof -
  have known: "build_telegram_album_idempotency_key Created ''ch'' ''g'' \<in> rp_store (ab_downstream sent_buffer)"
    by (simp add: sent_buffer_def new_album_buffer_def build_telegram_album_idempotency_key_def)
  have unused: "group_events sent_buffer (''ch'', ''g'', Created) = []"
    by (simp add: sent_buffer_def new_album_buffer_def group_events_def)
  obtain b1 where run: "album_publish (memory_pub sample_env (\<lambda>_. True)) (album_message ''10'') sent_buffer = (Inr (), b1)"
    by (simp add: album_publish_def)
  from late_album_message_dropped [OF album_message_key known unused run, of "''c''"] show ?thesis
    unfolding run by (auto simp: sent_buffer_def new_album_buffer_def)
qed

definition waiting_buffer :: memory_buffer where
  "waiting_buffer = snd (album_publish (memory_pub sample_env (\<lambda>_. True)) (album_message ''10'')
     (new_album_buffer \<lparr>rp_store = {}, rp_queue = []\<rparr>))"

lemma failed_flush_not_rescheduled_witness:
  "case album_flush (memory_pub sample_env (\<lambda>_. False)) ''c'' (''ch'', ''g'', Created) waiting_buffer of
     (Inl e, b) \<Rightarrow> ab_tasks waiting_buffer = [(''ch'', ''g'', Created)] \<and> (''ch'', ''g'', Created) \<notin> set (ab_tasks b) \<and>
       group_events b (''ch'', ''g'', Created) = [album_message ''10'']
   | (Inr u, b) \<Rightarrow> False"
proof -
  let ?k = "(''ch'', ''g'', Created)"
  have b: "waiting_buffer = \<lparr>ab_groups = [(?k, [album_message ''10''])], ab_tasks = [?k], ab_in_flight = [],
      ab_downstream = \<lparr>rp_store = {}, rp_queue = []\<rparr>\<rparr>"
    by (simp add: waiting_buffer_def album_publish_def new_album_buffer_def group_events_def)
  have group: "group_events waiting_buffer j = (if j = ?k then [album_message ''10''] else [])" for j
    by (simp add: b group_events_def)
  have ok: "buffer_ok waiting_buffer" unfolding buffer_ok_def group by (simp add: b)
  obtain one where "canonical_album_event ''c'' [album_message ''10''] = Inr one"
    using canonical_key [of "[album_message ''10'']" "''ch''" "''g''" Created "''c''"] by auto
  then obtain e b' where run: "album_flush (memory_pub sample_env (\<lambda>_. False)) ''c'' ?k waiting_buffer = (Inl e, b')"
    by (simp add: album_flush_def flush_start_def flush_finish_def group Let_def publish_raw_event_def memory_seen_def)
      (simp add: b)
  from failed_flush_not_rescheduled [OF run ok] show ?thesis by (simp add: run group) (simp add: b)
qed

declare split_paired_All [simp] split_paired_Ex [simp]

end
