(* ===== verification/EF_Topology.thy ===== *)
theory EF_Topology
  imports EF_RawEvent
begin

text \<open>
  The topology the listener worker publishes for the status page (\<open>services/listener_status.py\<close>): its groups, the
  snapshot, the payload both are stored as and the two stores. A text of the Redis key is either the dump of a JSON
  value or no JSON at all; the text of a moment is made and read by the text environment.
\<close>

section \<open>Snapshots\<close>

record topology_group =
  tg_adapter_name :: string
  tg_source_profile :: "string option"
  tg_source_count :: int
  tg_source_ids :: "string list"
  tg_source_identifiers :: "string list"
  tg_source_names :: "string list"
  tg_parser_keys :: "string list"
  tg_parser_modes :: "string list"
  tg_session_name :: "string option"
  tg_runnable :: bool
  tg_error :: "string option"

record topology_snapshot =
  ts_generated_at :: time
  ts_refresh_version :: int
  ts_listener_account_key :: string
  ts_started :: bool
  ts_reason :: string
  ts_source_count :: int
  ts_telegram_source_count :: int
  ts_listener_count :: int
  ts_adapter_failures :: "string list"
  ts_groups :: "topology_group list"

section \<open>Payloads\<close>

definition payload_items :: "json \<Rightarrow> json list" where
  "payload_items v = (case v of JArr xs \<Rightarrow> xs | _ \<Rightarrow> [])"

definition payload_strings :: "text_env \<Rightarrow> json \<Rightarrow> string list" where
  "payload_strings E v = map (py_str E) (payload_items v)"

definition payload_int :: "json \<Rightarrow> int res" where
  "payload_int v = (case v of JBool _ \<Rightarrow> json_int v | JNum _ \<Rightarrow> json_int v | JStr _ \<Rightarrow> json_int v | _ \<Rightarrow> Inr 0)"

text \<open>\<open>str(v) if v else None\<close> and \<open>bool(v)\<close>.\<close>

definition str_if_truthy :: "text_env \<Rightarrow> json \<Rightarrow> string option" where
  "str_if_truthy E v = (if falsy v then None else Some (py_str E v))"

definition group_to_payload :: "topology_group \<Rightarrow> (string, json) dict" where
  "group_to_payload g =
     [(''adapter_name'', JStr (tg_adapter_name g)), (''source_profile'', json_opt (tg_source_profile g)),
      (''source_count'', JNum (of_int (tg_source_count g))), (''source_ids'', json_strs (tg_source_ids g)),
      (''source_identifiers'', json_strs (tg_source_identifiers g)), (''source_names'', json_strs (tg_source_names g)),
      (''parser_keys'', json_strs (tg_parser_keys g)), (''parser_modes'', json_strs (tg_parser_modes g)),
      (''session_name'', json_opt (tg_session_name g)), (''runnable'', JBool (tg_runnable g)),
      (''error'', json_opt (tg_error g))]"

definition group_from_payload :: "text_env \<Rightarrow> (string, json) dict \<Rightarrow> topology_group res" where
  "group_from_payload E d =
     res_bind (required_text E d ''adapter_name'') (\<lambda>adapter.
     res_bind (payload_int (get_or d ''source_count'' JNull)) (\<lambda>n.
       Inr \<lparr>tg_adapter_name = adapter, tg_source_profile = str_if_truthy E (get_or d ''source_profile'' JNull),
         tg_source_count = n, tg_source_ids = payload_strings E (get_or d ''source_ids'' JNull),
         tg_source_identifiers = payload_strings E (get_or d ''source_identifiers'' JNull),
         tg_source_names = payload_strings E (get_or d ''source_names'' JNull),
         tg_parser_keys = payload_strings E (get_or d ''parser_keys'' JNull),
         tg_parser_modes = payload_strings E (get_or d ''parser_modes'' JNull),
         tg_session_name = str_if_truthy E (get_or d ''session_name'' JNull),
         tg_runnable = \<not> falsy (get_or d ''runnable'' (JBool True)),
         tg_error = str_if_truthy E (get_or d ''error'' JNull)\<rparr>))"

text \<open>Items of \<open>groups\<close> that are no objects are passed over.\<close>

fun groups_from_payload :: "text_env \<Rightarrow> json list \<Rightarrow> topology_group list res" where
  "groups_from_payload E [] = Inr []"
| "groups_from_payload E (v # vs) =
     (case v of
        JObj d \<Rightarrow> res_bind (group_from_payload E d) (\<lambda>g. res_bind (groups_from_payload E vs) (\<lambda>gs. Inr (g # gs)))
      | _ \<Rightarrow> groups_from_payload E vs)"

definition snapshot_to_payload :: "text_env \<Rightarrow> topology_snapshot \<Rightarrow> (string, json) dict" where
  "snapshot_to_payload E s =
     [(''generated_at'', JStr (te_to_iso E (ts_generated_at s))), (''refresh_version'', JNum (of_int (ts_refresh_version s))),
      (''listener_account_key'', JStr (ts_listener_account_key s)), (''started'', JBool (ts_started s)),
      (''reason'', JStr (ts_reason s)), (''source_count'', JNum (of_int (ts_source_count s))),
      (''telegram_source_count'', JNum (of_int (ts_telegram_source_count s))),
      (''listener_count'', JNum (of_int (ts_listener_count s))),
      (''adapter_failures'', json_strs (ts_adapter_failures s)),
      (''groups'', JArr (map (\<lambda>g. JObj (group_to_payload g)) (ts_groups s)))]"

definition snapshot_from_payload :: "text_env \<Rightarrow> (string, json) dict \<Rightarrow> topology_snapshot res" where
  "snapshot_from_payload E d =
     res_bind (required_text E d ''generated_at'') (\<lambda>at_text.
     res_bind (case te_of_iso E at_text of None \<Rightarrow> Inl (ValueError ''Invalid isoformat string'') | Some t \<Rightarrow> Inr t) (\<lambda>moment.
     res_bind (payload_int (get_or d ''refresh_version'' JNull)) (\<lambda>version.
     res_bind (payload_int (get_or d ''source_count'' JNull)) (\<lambda>sources.
     res_bind (payload_int (get_or d ''telegram_source_count'' JNull)) (\<lambda>telegram.
     res_bind (payload_int (get_or d ''listener_count'' JNull)) (\<lambda>listeners.
     res_bind (groups_from_payload E (payload_items (get_or d ''groups'' JNull))) (\<lambda>groups.
       Inr \<lparr>ts_generated_at = moment, ts_refresh_version = version,
         ts_listener_account_key = py_str E (get_or d ''listener_account_key'' (JStr [])),
         ts_started = \<not> falsy (get_or d ''started'' (JBool False)), ts_reason = py_str E (get_or d ''reason'' (JStr ''unknown'')),
         ts_source_count = sources, ts_telegram_source_count = telegram, ts_listener_count = listeners,
         ts_adapter_failures = payload_strings E (get_or d ''adapter_failures'' JNull), ts_groups = groups\<rparr>)))))))"

section \<open>The stores\<close>

datatype stored_text = Dumped json | NoJson string

definition LISTENER_TOPOLOGY_KEY :: string where "LISTENER_TOPOLOGY_KEY = ''estateflow:listener-topology''"

definition noop_topology_get :: "unit \<Rightarrow> topology_snapshot option" where "noop_topology_get s = None"

definition noop_topology_put :: "topology_snapshot \<Rightarrow> unit \<Rightarrow> unit" where "noop_topology_put t s = s"

definition redis_topology_get :: "text_env \<Rightarrow> (string, stored_text) dict \<Rightarrow> topology_snapshot option" where
  "redis_topology_get E r =
     (case dict_get r LISTENER_TOPOLOGY_KEY of
        Some (Dumped (JObj d)) \<Rightarrow> (case snapshot_from_payload E d of Inl _ \<Rightarrow> None | Inr s \<Rightarrow> Some s)
      | _ \<Rightarrow> None)"

definition redis_topology_put :: "text_env \<Rightarrow> topology_snapshot \<Rightarrow> (string, stored_text) dict \<Rightarrow> (string, stored_text) dict" where
  "redis_topology_put E s r = dict_put LISTENER_TOPOLOGY_KEY (Dumped (JObj (snapshot_to_payload E s))) r"

section \<open>The round trip\<close>

definition readable_group :: "topology_group \<Rightarrow> bool" where
  "readable_group g \<longleftrightarrow> tg_source_profile g \<noteq> Some [] \<and> tg_session_name g \<noteq> Some [] \<and> tg_error g \<noteq> Some []"

definition readable_snapshot :: "text_env \<Rightarrow> topology_snapshot \<Rightarrow> bool" where
  "readable_snapshot E s \<longleftrightarrow>
     te_of_iso E (te_to_iso E (ts_generated_at s)) = Some (ts_generated_at s) \<and> list_all readable_group (ts_groups s)"

lemma str_if_truthy_opt [simp]: "s \<noteq> Some [] \<Longrightarrow> str_if_truthy E (json_opt s) = s"
  by (cases s) (simp_all add: str_if_truthy_def json_opt_def falsy_def)

lemma payload_strings_strs [simp]: "payload_strings E (json_strs xs) = xs"
  by (simp add: payload_strings_def payload_items_def json_strs_def comp_def)

lemma payload_int_num [simp]: "payload_int (JNum (of_int i)) = Inr i"
proof -
  have "\<lfloor>- rat_of_int i\<rfloor> = - i" by (simp flip: of_int_minus)
  then show ?thesis by (simp add: payload_int_def json_int_def)
qed

lemma falsy_JBool [simp]: "falsy (JBool b) \<longleftrightarrow> \<not> b"
  by (simp add: falsy_def)

lemma group_round_trip: "readable_group g \<Longrightarrow> group_from_payload E (group_to_payload g) = Inr g"
  by (simp add: group_from_payload_def group_to_payload_def required_text_def require_def get_or_def readable_group_def)

lemma groups_round_trip:
  "list_all readable_group gs \<Longrightarrow> groups_from_payload E (map (\<lambda>g. JObj (group_to_payload g)) gs) = Inr gs"
  by (induction gs) (simp_all add: group_round_trip)

lemma snapshot_round_trip: "readable_snapshot E s \<Longrightarrow> snapshot_from_payload E (snapshot_to_payload E s) = Inr s"
  by (simp add: snapshot_from_payload_def snapshot_to_payload_def required_text_def require_def get_or_def readable_snapshot_def
      payload_items_def groups_round_trip)

text \<open>What a store gives after a write: nothing, or what was written.\<close>

locale topology_store =
  fixes get_snapshot :: "'s \<Rightarrow> topology_snapshot option"
    and put_snapshot :: "topology_snapshot \<Rightarrow> 's \<Rightarrow> 's"
    and readable :: "topology_snapshot \<Rightarrow> bool"
  assumes get_put: "readable t \<Longrightarrow> get_snapshot (put_snapshot t s) \<in> {None, Some t}"
begin

lemma shown_was_written: "readable t \<Longrightarrow> get_snapshot (put_snapshot t s) = Some u \<Longrightarrow> u = t"
  using get_put [of t s] by simp

end

interpretation noop_topology: topology_store noop_topology_get noop_topology_put "\<lambda>_. True"
  by unfold_locales (simp add: noop_topology_get_def)

interpretation redis_topology: topology_store "redis_topology_get E" "redis_topology_put E" "readable_snapshot E" for E
  by unfold_locales (simp add: redis_topology_get_def redis_topology_put_def dict_simps snapshot_round_trip)

end
