(* ===== verification/EF_ListenerPool.thy ===== *)
theory EF_ListenerPool
  imports EF_Sources
begin

text \<open>
  Which Telegram account listens to which source (\<open>services/listener_pool.py\<close>): account health, the in-memory
  repositories and \<open>ListenerAssignmentService\<close>. Metrics are left out, of an operator note the severity and the
  account are kept; the time of a call is an argument.
\<close>

section \<open>Accounts and assignments\<close>

datatype health_status = Online | Reconnecting | FloodWaiting | DisabledHealth | Banned

datatype assignment_reason = InitialAssignment | Rebalance | Failover | SourceDisabled

record listener_account =
  lc_account_key :: string
  lc_enabled :: bool
  lc_health :: health_status
  lc_last_event_at :: "time option"
  lc_flood_wait_count :: nat

record channel_assignment =
  ca_source_id :: string
  ca_account_key :: string
  ca_assigned_at :: time
  ca_active :: bool
  ca_released_at :: "time option"
  ca_reason :: assignment_reason

record assignment_event =
  ae_source_id :: string
  ae_previous :: "string option"
  ae_new :: "string option"
  ae_reason :: assignment_reason

record pool =
  pl_accounts :: "(string, listener_account) dict"
  pl_assignments :: "channel_assignment list"
  pl_audit :: "assignment_event list"
  pl_notes :: "(string \<times> string) list"

definition is_assignable :: "listener_account \<Rightarrow> bool" where
  "is_assignable a \<longleftrightarrow> lc_enabled a \<and> lc_health a = Online"

fun allowed_health_transition :: "health_status \<Rightarrow> health_status \<Rightarrow> bool" where
  "allowed_health_transition DisabledHealth h = (h = Online \<or> h = DisabledHealth)"
| "allowed_health_transition Banned h = (h = Banned)"
| "allowed_health_transition _ h = True"

definition list_accounts :: "pool \<Rightarrow> listener_account list" where
  "list_accounts p = py_sort lc_account_key (dict_values (pl_accounts p))"

definition save_account :: "listener_account \<Rightarrow> pool \<Rightarrow> pool" where
  "save_account a p = p\<lparr>pl_accounts := dict_put (lc_account_key a) a (pl_accounts p)\<rparr>"

definition list_active_assignments :: "pool \<Rightarrow> channel_assignment list" where
  "list_active_assignments p = filter ca_active (pl_assignments p)"

text \<open>The first active assignment of the source is released in its place.\<close>

fun release_first ::
  "string \<Rightarrow> assignment_reason \<Rightarrow> time \<Rightarrow> channel_assignment list \<Rightarrow> channel_assignment option \<times> channel_assignment list" where
  "release_first sid reason when [] = (None, [])"
| "release_first sid reason when (a # as) =
     (if ca_source_id a = sid \<and> ca_active a
      then (let r = a\<lparr>ca_active := False, ca_released_at := Some when, ca_reason := reason\<rparr> in (Some r, r # as))
      else (case release_first sid reason when as of (r, bs) \<Rightarrow> (r, a # bs)))"

definition append_audit :: "assignment_event \<Rightarrow> pool \<Rightarrow> pool" where
  "append_audit e p = p\<lparr>pl_audit := pl_audit p @ [e]\<rparr>"

definition pool_note :: "string \<Rightarrow> string \<Rightarrow> pool \<Rightarrow> pool" where
  "pool_note severity account p = p\<lparr>pl_notes := pl_notes p @ [(severity, account)]\<rparr>"

section \<open>Health\<close>

definition ensure_accounts :: "string list \<Rightarrow> pool \<Rightarrow> pool" where
  "ensure_accounts keys p =
     fold (\<lambda>k q. if dict_get (pl_accounts q) k \<noteq> None then q
         else save_account \<lparr>lc_account_key = k, lc_enabled = True, lc_health = Online, lc_last_event_at = None,
           lc_flood_wait_count = 0\<rparr> q)
       (py_sort (\<lambda>k. k) (remdups (map strip (filter (\<lambda>k. strip k \<noteq> []) keys)))) p"

definition validate_health_transition :: "health_status \<Rightarrow> health_status \<Rightarrow> unit res" where
  "validate_health_transition h h' =
     (if allowed_health_transition h h' then Inr ()
      else Inl (OtherError ''InvalidListenerHealthTransitionError'' ''Cannot transition listener account''))"

definition account_of :: "string \<Rightarrow> pool \<Rightarrow> listener_account res" where
  "account_of k p = (case dict_get (pl_accounts p) k of None \<Rightarrow> Inl (KeyError k) | Some a \<Rightarrow> Inr a)"

definition transition_health ::
  "string \<Rightarrow> health_status \<Rightarrow> nat \<Rightarrow> pool \<Rightarrow> listener_account res \<times> pool" where
  "transition_health k h flood p =
     (case res_bind (account_of k p) (\<lambda>a. res_bind (validate_health_transition (lc_health a) h) (\<lambda>_. Inr a)) of
        Inl e \<Rightarrow> (Inl e, p)
      | Inr a \<Rightarrow>
          (let b = a\<lparr>lc_health := h, lc_enabled := (if h \<in> {DisabledHealth, Banned} then False else lc_enabled a),
                   lc_flood_wait_count := lc_flood_wait_count a + flood\<rparr>;
               q = save_account b p
           in (Inr b, if h \<in> {FloodWaiting, Banned} then pool_note ''critical'' k q else q)))"

definition record_successful_event :: "string \<Rightarrow> time \<Rightarrow> pool \<Rightarrow> listener_account res \<times> pool" where
  "record_successful_event k now p =
     (case res_bind (account_of k p) (\<lambda>a. res_bind (validate_health_transition (lc_health a) Online) (\<lambda>_. Inr a)) of
        Inl e \<Rightarrow> (Inl e, p)
      | Inr a \<Rightarrow>
          (let b = a\<lparr>lc_health := Online, lc_last_event_at := Some now\<rparr> in (Inr b, save_account b p)))"

definition mark_long_silence :: "string \<Rightarrow> pool \<Rightarrow> listener_account res \<times> pool" where
  "mark_long_silence k p = then_do (transition_health k Reconnecting 0 p) (\<lambda>a q. (Inr a, pool_note ''warning'' k q))"

section \<open>Reconciling\<close>

definition load_of :: "(string, nat) dict \<Rightarrow> string \<Rightarrow> nat" where
  "load_of loads k = (case dict_get loads k of None \<Rightarrow> 0 | Some n \<Rightarrow> n)"

definition calculate_loads :: "channel_assignment list \<Rightarrow> (string, nat) dict" where
  "calculate_loads as = fold (\<lambda>a d. dict_put (ca_account_key a) (load_of d (ca_account_key a) + 1) d) as []"

text \<open>\<open>min\<close> by load and key, the first of equals.\<close>

fun least_loaded :: "(string, nat) dict \<Rightarrow> listener_account \<Rightarrow> listener_account list \<Rightarrow> listener_account" where
  "least_loaded loads b [] = b"
| "least_loaded loads b (a # as) =
     least_loaded loads
       (if (load_of loads (lc_account_key a), lc_account_key a) < (load_of loads (lc_account_key b), lc_account_key b)
        then a else b) as"

definition select_account :: "listener_account list \<Rightarrow> (string, nat) dict \<Rightarrow> listener_account res" where
  "select_account accounts loads =
     (case filter is_assignable accounts of
        [] \<Rightarrow> Inl (OtherError ''NoHealthyListenerAccountError'' ''No enabled healthy listener account is available.'')
      | a # as \<Rightarrow> Inr (least_loaded loads a as))"

definition by_source :: "channel_assignment list \<Rightarrow> (string, channel_assignment) dict" where
  "by_source as = fold (\<lambda>a d. dict_put (ca_source_id a) a d) as []"

definition active_telegram_sources :: "source_config list \<Rightarrow> (string, source_config) dict" where
  "active_telegram_sources sources =
     fold (\<lambda>s d. dict_put (so_source_id s) s d)
       (filter (\<lambda>s. so_enabled s \<and> so_type s \<in> {TelegramChannel, TelegramGroup}) sources) []"

definition release_assignment :: "channel_assignment \<Rightarrow> assignment_reason \<Rightarrow> time \<Rightarrow> pool \<Rightarrow> pool" where
  "release_assignment a reason now p =
     (case release_first (ca_source_id a) reason now (pl_assignments p) of
        (None, _) \<Rightarrow> p
      | (Some r, as) \<Rightarrow>
          append_audit \<lparr>ae_source_id = ca_source_id a, ae_previous = Some (ca_account_key a), ae_new = None,
              ae_reason = reason\<rparr> (p\<lparr>pl_assignments := as\<rparr>))"

text \<open>The first loop: what is no longer a source, or whose account cannot listen, is released.\<close>

definition release_step ::
  "(string, source_config) dict \<Rightarrow> (string, listener_account) dict \<Rightarrow> time \<Rightarrow> channel_assignment \<Rightarrow> pool \<Rightarrow> pool" where
  "release_step sources accounts now a p =
     (if dict_get sources (ca_source_id a) = None then release_assignment a SourceDisabled now p
      else (case dict_get accounts (ca_account_key a) of
          Some acc \<Rightarrow> if is_assignable acc then p
            else pool_note ''warning'' (ca_account_key a) (release_assignment a Failover now p)
        | None \<Rightarrow> pool_note ''warning'' (ca_account_key a) (release_assignment a Failover now p)))"

text \<open>The second loop: every source without an assignment gets the least loaded account.\<close>

fun assign_sources ::
  "listener_account list \<Rightarrow> (string, channel_assignment) dict \<Rightarrow> time \<Rightarrow> source_config list \<Rightarrow> (string, nat) dict \<Rightarrow> pool \<Rightarrow>
   unit res \<times> pool" where
  "assign_sources accounts assigned now [] loads p = (Inr (), p)"
| "assign_sources accounts assigned now (s # ss) loads p =
     (if dict_get assigned (so_source_id s) \<noteq> None then assign_sources accounts assigned now ss loads p
      else (case select_account accounts loads of
          Inl e \<Rightarrow> (Inl e, p)
        | Inr acc \<Rightarrow>
            assign_sources accounts assigned now ss
              (dict_put (lc_account_key acc) (load_of loads (lc_account_key acc) + 1) loads)
              (append_audit \<lparr>ae_source_id = so_source_id s, ae_previous = None, ae_new = Some (lc_account_key acc),
                  ae_reason = InitialAssignment\<rparr>
                (p\<lparr>pl_assignments := pl_assignments p @
                   [\<lparr>ca_source_id = so_source_id s, ca_account_key = lc_account_key acc, ca_assigned_at = now,
                     ca_active = True, ca_released_at = None, ca_reason = InitialAssignment\<rparr>]\<rparr>))))"

definition reconcile :: "source_config list \<Rightarrow> time \<Rightarrow> pool \<Rightarrow> channel_assignment list res \<times> pool" where
  "reconcile sources now p =
     (let accounts = list_accounts p;
          account_by_key = fold (\<lambda>a d. dict_put (lc_account_key a) a d) accounts [];
          active = active_telegram_sources sources;
          p1 = fold (release_step active account_by_key now)
            (map snd (py_sort fst (by_source (list_active_assignments p)))) p
      in then_do (assign_sources accounts (by_source (list_active_assignments p1)) now
             (py_sort so_source_id (dict_values active)) (calculate_loads (dict_values (by_source (list_active_assignments p1)))) p1)
           (\<lambda>_ q. (Inr (list_active_assignments q), q)))"


section \<open>Dictionaries built from lists\<close>

lemma fold_put_distinct:
  assumes "distinct (map f xs)" and "set (dict_keys d) \<inter> f ` set xs = {}"
  shows "fold (\<lambda>x d. dict_put (f x) x d) xs d = d @ map (\<lambda>x. (f x, x)) xs"
  using assms
proof (induction xs arbitrary: d)
  case (Cons x xs)
  then have "dict_put (f x) x d = d @ [(f x, x)]" by (intro dict_put_new) (auto simp: map_of_eq_None_iff)
  with Cons show ?case by auto
qed simp

lemma get_pairs: "distinct (map f xs) \<Longrightarrow> dict_get (map (\<lambda>x. (f x, x)) xs) k = Some x \<longleftrightarrow> x \<in> set xs \<and> f x = k"
proof (induction xs)
  case (Cons a xs)
  then show ?case by (cases "k = f a") (auto simp: image_iff)
qed simp

lemma get_pairs_None: "dict_get (map (\<lambda>x. (f x, x)) xs) k = None \<longleftrightarrow> k \<notin> f ` set xs"
  by (induction xs) auto

lemma fold_put_keyed: "keyed_by f d \<Longrightarrow> keyed_by f (fold (\<lambda>x d. dict_put (f x) x d) xs d)"
  by (induction xs arbitrary: d) simp_all

lemma by_source_distinct:
  "distinct (map ca_source_id as) \<Longrightarrow> by_source as = map (\<lambda>a. (ca_source_id a, a)) as"
  by (simp add: by_source_def fold_put_distinct)

lemma keyed_values_keys:
  assumes "keyed_by f d"
  shows "map f (dict_values d) = dict_keys d"
proof -
  have "dict_get d (fst r) = Some (snd r)" if "r \<in> set d" for r
    using that assms by (simp add: keyed_by_def dict_ok_def)
  with assms show ?thesis by (simp add: keyed_by_def)
qed

lemma keyed_distinct_ids: "keyed_by f d \<Longrightarrow> distinct (map f (dict_values d))"
  unfolding keyed_values_keys by (simp add: keyed_by_def dict_ok_def)

section \<open>Releasing\<close>

definition pool_ok :: "pool \<Rightarrow> bool" where
  "pool_ok p \<longleftrightarrow> keyed_by lc_account_key (pl_accounts p) \<and> distinct (map ca_source_id (list_active_assignments p))"

lemma release_first_None: "release_first sid reason now as = (None, bs) \<Longrightarrow> \<forall>a \<in> set as. ca_active a \<longrightarrow> ca_source_id a \<noteq> sid"
  by (induction as arbitrary: bs) (auto simp: Let_def split: if_splits prod.splits)

lemma release_first_active:
  assumes "release_first sid reason now as = (Some r, bs)" and "distinct (map ca_source_id (filter ca_active as))"
  shows "filter ca_active bs = filter (\<lambda>a. ca_source_id a \<noteq> sid) (filter ca_active as)"
  using assms
proof (induction as arbitrary: bs)
  case (Cons a as)
  show ?case
  proof (cases "ca_source_id a = sid \<and> ca_active a")
    case True
    have "\<forall>x \<in> set as. ca_active x \<longrightarrow> ca_source_id x \<noteq> sid" using Cons.prems(2) True by (auto simp: image_iff)
    then have "filter (\<lambda>x. ca_source_id x \<noteq> sid) (filter ca_active as) = filter ca_active as"
      by (intro filter_True) auto
    with True Cons.prems show ?thesis by (auto simp: Let_def)
  next
    case False
    with Cons show ?thesis by (auto split: prod.splits)
  qed
qed simp

text \<open>An assignment that stays.\<close>

definition keeps_account ::
  "(string, source_config) dict \<Rightarrow> (string, listener_account) dict \<Rightarrow> channel_assignment \<Rightarrow> bool" where
  "keeps_account sources accounts a \<longleftrightarrow> dict_get sources (ca_source_id a) \<noteq> None \<and>
     (case dict_get accounts (ca_account_key a) of None \<Rightarrow> False | Some acc \<Rightarrow> is_assignable acc)"

lemma note_audit_simps [simp]:
  "list_active_assignments (pool_note v k p) = list_active_assignments p" "pl_accounts (pool_note v k p) = pl_accounts p"
  "list_active_assignments (append_audit e p) = list_active_assignments p" "pl_accounts (append_audit e p) = pl_accounts p"
  by (simp_all add: pool_note_def append_audit_def list_active_assignments_def)

lemma release_assignment_active:
  assumes "distinct (map ca_source_id (list_active_assignments p))"
  shows "list_active_assignments (release_assignment a reason now p) =
      filter (\<lambda>x. ca_source_id x \<noteq> ca_source_id a) (list_active_assignments p) \<and>
    pl_accounts (release_assignment a reason now p) = pl_accounts p"
proof (cases "release_first (ca_source_id a) reason now (pl_assignments p)")
  case (Pair r as)
  show ?thesis
  proof (cases r)
    case None
    with release_first_None [OF Pair [unfolded None]] Pair show ?thesis
      by (auto simp: release_assignment_def list_active_assignments_def intro!: filter_cong)
  next
    case (Some x)
    with Pair release_first_active [OF Pair [unfolded Some]] assms show ?thesis
      by (simp add: release_assignment_def) (simp add: list_active_assignments_def)
  qed
qed

lemma release_step_active:
  assumes "distinct (map ca_source_id (list_active_assignments p))"
  shows "list_active_assignments (release_step sources accounts now a p) =
      filter (\<lambda>x. keeps_account sources accounts a \<or> ca_source_id x \<noteq> ca_source_id a) (list_active_assignments p) \<and>
    pl_accounts (release_step sources accounts now a p) = pl_accounts p \<and>
    (keeps_account sources accounts a \<longrightarrow> release_step sources accounts now a p = p)"
  using release_assignment_active [OF assms]
  by (auto simp: release_step_def keeps_account_def split: option.split)

lemma release_all_active:
  assumes "distinct (map ca_source_id (list_active_assignments p))"
  shows "list_active_assignments (fold (release_step sources accounts now) xs p) =
      filter (\<lambda>x. \<forall>a \<in> set xs. keeps_account sources accounts a \<or> ca_source_id x \<noteq> ca_source_id a) (list_active_assignments p) \<and>
    pl_accounts (fold (release_step sources accounts now) xs p) = pl_accounts p \<and>
    ((\<forall>a \<in> set xs. keeps_account sources accounts a) \<longrightarrow> fold (release_step sources accounts now) xs p = p)"
  using assms
proof (induction xs arbitrary: p)
  case (Cons a xs)
  note step = release_step_active [OF Cons.prems, of sources accounts now a]
  then have "distinct (map ca_source_id (list_active_assignments (release_step sources accounts now a p)))"
    using Cons.prems by (simp add: distinct_map_filter)
  from Cons.IH [OF this] step show ?case by (auto intro: filter_cong)
qed simp


section \<open>Balancing\<close>

definition load_in :: "channel_assignment list \<Rightarrow> string \<Rightarrow> nat" where
  "load_in as k = length (filter (\<lambda>a. ca_account_key a = k) as)"

lemma load_in_simps [simp]:
  "load_in [] k = 0"
  "load_in (as @ bs) k = load_in as k + load_in bs k"
  "load_in (a # as) k = (if ca_account_key a = k then 1 else 0) + load_in as k"
  by (simp_all add: load_in_def)

lemma load_of_put [simp]: "load_of (dict_put k n d) j = (if j = k then n else load_of d j)"
  by (simp add: load_of_def dict_get_put)

lemma load_of_calculate_loads: "load_of (calculate_loads as) k = load_in as k"
proof -
  have "load_of (fold (\<lambda>a d. dict_put (ca_account_key a) (load_of d (ca_account_key a) + 1) d) as d) k =
      load_of d k + load_in as k" for d
    by (induction as arbitrary: d) auto
  then show ?thesis by (simp add: calculate_loads_def load_of_def)
qed

lemma least_loaded_in: "least_loaded loads b as \<in> insert b (set as)"
  by (induction loads b as rule: least_loaded.induct) auto

lemma least_loaded_least:
  "a \<in> insert b (set as) \<Longrightarrow> load_of loads (lc_account_key (least_loaded loads b as)) \<le> load_of loads (lc_account_key a)"
proof (induction loads b as arbitrary: a rule: least_loaded.induct)
  case (2 loads b c as)
  let ?m = "if (load_of loads (lc_account_key c), lc_account_key c) < (load_of loads (lc_account_key b), lc_account_key b)
        then c else b"
  have "load_of loads (lc_account_key ?m) \<le> load_of loads (lc_account_key b)"
    "load_of loads (lc_account_key ?m) \<le> load_of loads (lc_account_key c)"
    by (auto simp: less_prod_def')
  with "2.IH" [of ?m] "2.IH" [of a] "2.prems" show ?case by (auto simp del: split_paired_all intro: order_trans)
qed simp

lemma select_account_Inr:
  assumes "select_account accounts loads = Inr a"
  shows "a \<in> set accounts \<and> is_assignable a \<and>
    (\<forall>b \<in> set accounts. is_assignable b \<longrightarrow> load_of loads (lc_account_key a) \<le> load_of loads (lc_account_key b))"
proof -
  obtain c cs where f: "filter is_assignable accounts = c # cs" and a: "a = least_loaded loads c cs"
    using assms by (auto simp: select_account_def split: list.splits)
  have set: "insert c (set cs) = {x \<in> set accounts. is_assignable x}" using arg_cong [OF f, of set] by auto
  from least_loaded_in [of loads c cs] least_loaded_least [of _ c cs loads] show ?thesis
    unfolding a [symmetric] set by blast
qed

lemma select_account_Inl: "select_account accounts loads = Inl e \<longleftrightarrow>
    (\<forall>a \<in> set accounts. \<not> is_assignable a) \<and>
    e = OtherError ''NoHealthyListenerAccountError'' ''No enabled healthy listener account is available.''"
  by (auto simp: select_account_def filter_empty_conv split: list.split dest: arg_cong [of _ _ set])


lemma assign_sources_Inr:
  assumes "assign_sources accounts assigned now ss loads p = (Inr (), q)"
    and "\<forall>k. load_of loads k = load_in (list_active_assignments p) k"
  shows "\<exists>as. list_active_assignments q = list_active_assignments p @ as \<and>
    map ca_source_id as = map so_source_id (filter (\<lambda>s. dict_get assigned (so_source_id s) = None) ss) \<and>
    (\<forall>a \<in> set as. \<exists>acc \<in> set accounts. is_assignable acc \<and> ca_account_key a = lc_account_key acc) \<and>
    (as = [] \<longrightarrow> q = p) \<and> pl_accounts q = pl_accounts p \<and>
    (\<forall>b \<in> set accounts. \<forall>k. is_assignable b \<longrightarrow> load_in (list_active_assignments q) k \<le>
       max (load_in (list_active_assignments p) k) (load_in (list_active_assignments q) (lc_account_key b) + 1))"
  using assms
proof (induction ss arbitrary: loads p)
  case (Cons s ss)
  show ?case
  proof (cases "dict_get assigned (so_source_id s) = None")
    case False
    with Cons show ?thesis by auto
  next
    case True
    then obtain acc where acc: "select_account accounts loads = Inr acc" using Cons.prems(1) by (auto split: sum.splits)
    let ?a = "\<lparr>ca_source_id = so_source_id s, ca_account_key = lc_account_key acc, ca_assigned_at = now,
                     ca_active = True, ca_released_at = None, ca_reason = InitialAssignment\<rparr>"
    let ?p = "append_audit \<lparr>ae_source_id = so_source_id s, ae_previous = None, ae_new = Some (lc_account_key acc),
                  ae_reason = InitialAssignment\<rparr> (p\<lparr>pl_assignments := pl_assignments p @ [?a]\<rparr>)"
    let ?loads = "dict_put (lc_account_key acc) (load_of loads (lc_account_key acc) + 1) loads"
    have active: "list_active_assignments ?p = list_active_assignments p @ [?a]" "pl_accounts ?p = pl_accounts p"
      by (simp_all add: list_active_assignments_def append_audit_def)
    have step: "assign_sources accounts assigned now ss ?loads ?p = (Inr (), q)" using Cons.prems(1) True acc by simp
    have loads: "\<forall>k. load_of ?loads k = load_in (list_active_assignments ?p) k"
      using Cons.prems(2) unfolding active by simp
    from Cons.IH [OF step loads] obtain as where as: "list_active_assignments q = list_active_assignments ?p @ as"
      "map ca_source_id as = map so_source_id (filter (\<lambda>s. dict_get assigned (so_source_id s) = None) ss)"
      "\<forall>a \<in> set as. \<exists>acc \<in> set accounts. is_assignable acc \<and> ca_account_key a = lc_account_key acc"
      "pl_accounts q = pl_accounts ?p"
      and balance: "\<forall>b \<in> set accounts. \<forall>k. is_assignable b \<longrightarrow> load_in (list_active_assignments q) k \<le>
       max (load_in (list_active_assignments ?p) k) (load_in (list_active_assignments q) (lc_account_key b) + 1)"
      by (elim exE conjE) (rule that, assumption+)
    note least = select_account_Inr [OF acc]
    have "load_in (list_active_assignments q) k \<le>
       max (load_in (list_active_assignments p) k) (load_in (list_active_assignments q) (lc_account_key b) + 1)"
      if "b \<in> set accounts" "is_assignable b" for b k
    proof -
      have "load_in (list_active_assignments p) (lc_account_key acc) \<le> load_in (list_active_assignments p) (lc_account_key b)"
        using least that Cons.prems(2) by auto
      with balance [rule_format, OF that, of k] show ?thesis unfolding as(1) active by (auto split: if_splits)
    qed
    with as active least True show ?thesis by (intro exI [of _ "?a # as"]) auto
  qed
qed auto

lemma assign_sources_Inl:
  "assign_sources accounts assigned now ss loads p = (Inl e, q) \<Longrightarrow>
   (\<forall>a \<in> set accounts. \<not> is_assignable a) \<and> (\<exists>s \<in> set ss. dict_get assigned (so_source_id s) = None) \<and>
   list_active_assignments q = list_active_assignments p \<and>
   e = OtherError ''NoHealthyListenerAccountError'' ''No enabled healthy listener account is available.''"
  by (induction ss arbitrary: loads p)
    (force split: if_splits sum.splits simp: select_account_Inl dest: select_account_Inr)+


section \<open>What reconciling achieves\<close>

lemma distinct_map_py_sort: "distinct (map f (py_sort g xs)) = distinct (map f xs)"
  by (simp add: distinct_map py_sort_def)

lemma get_account_dict:
  assumes "pool_ok p"
  shows "dict_get (fold (\<lambda>a d. dict_put (lc_account_key a) a d) (list_accounts p) []) = dict_get (pl_accounts p)"
proof
  fix k
  let ?as = "list_accounts p"
  have keyed: "keyed_by lc_account_key (pl_accounts p)" using assms by (simp add: pool_ok_def)
  have distinct: "distinct (map lc_account_key ?as)"
    unfolding list_accounts_def distinct_map_py_sort by (rule keyed_distinct_ids [OF keyed])
  have member: "a \<in> set ?as \<longleftrightarrow> dict_get (pl_accounts p) (lc_account_key a) = Some a" for a
    using keyed_by_values [OF keyed] by (simp add: list_accounts_def py_sort_def)
  show "dict_get (fold (\<lambda>a d. dict_put (lc_account_key a) a d) ?as []) k = dict_get (pl_accounts p) k"
  proof (cases "dict_get (pl_accounts p) k")
    case None
    then have "k \<notin> lc_account_key ` set ?as" using member by force
    with distinct None get_pairs_None [of lc_account_key ?as k] show ?thesis by (simp add: fold_put_distinct)
  next
    case (Some a)
    then have "a \<in> set ?as \<and> lc_account_key a = k" using keyed_by_getD [OF keyed Some] member [of a] by simp
    with distinct Some get_pairs [OF distinct, of k a] show ?thesis by (simp add: fold_put_distinct)
  qed
qed

lemma assignable_accounts_iff:
  "pool_ok p \<Longrightarrow> acc \<in> set (list_accounts p) \<longleftrightarrow> dict_get (pl_accounts p) (lc_account_key acc) = Some acc"
  using keyed_by_values [of lc_account_key "pl_accounts p" acc] by (simp add: list_accounts_def py_sort_def pool_ok_def)


lemma active_telegram_ids:
  "set (map so_source_id (dict_values (active_telegram_sources sources))) =
     so_source_id ` {s \<in> set sources. so_enabled s \<and> so_type s \<in> {TelegramChannel, TelegramGroup}}"
  "distinct (map so_source_id (dict_values (active_telegram_sources sources)))"
  "dict_get (active_telegram_sources sources) k \<noteq> None \<longleftrightarrow>
     k \<in> set (map so_source_id (dict_values (active_telegram_sources sources)))"
proof -
  have keys: "set (dict_keys (fold (\<lambda>s d. dict_put (so_source_id s) s d) xs d)) = set (dict_keys d) \<union> so_source_id ` set xs"
    for xs :: "source_config list" and d
    by (induction xs arbitrary: d) (auto simp: set_dict_keys_put simp del: set_map)
  have keyed: "keyed_by so_source_id (active_telegram_sources sources)"
    by (simp add: active_telegram_sources_def fold_put_keyed)
  have ids: "map so_source_id (dict_values (active_telegram_sources sources)) = dict_keys (active_telegram_sources sources)"
    by (rule keyed_values_keys [OF keyed])
  show "set (map so_source_id (dict_values (active_telegram_sources sources))) =
     so_source_id ` {s \<in> set sources. so_enabled s \<and> so_type s \<in> {TelegramChannel, TelegramGroup}}"
    unfolding ids unfolding active_telegram_sources_def keys by auto
  show "distinct (map so_source_id (dict_values (active_telegram_sources sources)))"
    by (rule keyed_distinct_ids [OF keyed])
  show "dict_get (active_telegram_sources sources) k \<noteq> None \<longleftrightarrow>
     k \<in> set (map so_source_id (dict_values (active_telegram_sources sources)))"
    unfolding ids by (auto simp: map_of_eq_None_iff)
qed

text \<open>The state after the first loop.\<close>

definition kept_assignments :: "source_config list \<Rightarrow> pool \<Rightarrow> channel_assignment list" where
  "kept_assignments sources p =
     filter (keeps_account (active_telegram_sources sources) (pl_accounts p)) (list_active_assignments p)"

definition released :: "source_config list \<Rightarrow> time \<Rightarrow> pool \<Rightarrow> pool" where
  "released sources now p =
     fold (release_step (active_telegram_sources sources)
         (fold (\<lambda>a d. dict_put (lc_account_key a) a d) (list_accounts p) []) now)
       (map snd (py_sort fst (by_source (list_active_assignments p)))) p"

lemma released_active:
  assumes "pool_ok p"
  shows "list_active_assignments (released sources now p) = kept_assignments sources p \<and>
    pl_accounts (released sources now p) = pl_accounts p \<and>
    (kept_assignments sources p = list_active_assignments p \<longrightarrow> released sources now p = p)"
proof -
  let ?keeps = "keeps_account (active_telegram_sources sources) (pl_accounts p)"
  have distinct: "distinct (map ca_source_id (list_active_assignments p))" using assms by (simp add: pool_ok_def)
  have keeps: "keeps_account src (fold (\<lambda>a d. dict_put (lc_account_key a) a d) (list_accounts p) []) =
      keeps_account src (pl_accounts p)" for src
    by (rule ext) (simp add: keeps_account_def get_account_dict [OF assms])
  have xs: "set (map snd (py_sort fst (by_source (list_active_assignments p)))) = set (list_active_assignments p)"
    by (simp add: by_source_distinct [OF distinct] py_sort_def image_image)
  have "filter (\<lambda>x. \<forall>a \<in> set (list_active_assignments p). ?keeps a \<or> ca_source_id x \<noteq> ca_source_id a)
      (list_active_assignments p) = kept_assignments sources p"
    unfolding kept_assignments_def using distinct by (intro filter_cong refl) (auto simp: distinct_map dest: inj_onD)
  moreover have "kept_assignments sources p = list_active_assignments p \<longleftrightarrow> (\<forall>a \<in> set (list_active_assignments p). ?keeps a)"
    by (simp add: kept_assignments_def filter_id_conv)
  ultimately show ?thesis
    using release_all_active [OF distinct, of "active_telegram_sources sources"
        "fold (\<lambda>a d. dict_put (lc_account_key a) a d) (list_accounts p) []" now
        "map snd (py_sort fst (by_source (list_active_assignments p)))"]
    unfolding released_def [symmetric] keeps xs by auto
qed


lemma reconcile_unfold:
  assumes "pool_ok p"
  shows "reconcile sources now p =
    then_do (assign_sources (list_accounts p) (by_source (kept_assignments sources p)) now
       (py_sort so_source_id (dict_values (active_telegram_sources sources)))
       (calculate_loads (kept_assignments sources p)) (released sources now p))
     (\<lambda>_ q. (Inr (list_active_assignments q), q))"
proof -
  have "distinct (map ca_source_id (kept_assignments sources p))"
    using assms by (simp add: kept_assignments_def pool_ok_def distinct_map_filter)
  then have "dict_values (by_source (kept_assignments sources p)) = kept_assignments sources p"
    by (simp add: by_source_distinct comp_def)
  then show ?thesis
    using released_active [OF assms, of sources now]
    by (simp add: reconcile_def Let_def released_def)
qed

text \<open>The sources the second loop serves: enabled, of Telegram, and without a kept assignment.\<close>

lemma unserved_ids:
  assumes "pool_ok p"
  shows "dict_get (by_source (kept_assignments sources p)) k = None \<longleftrightarrow> k \<notin> ca_source_id ` set (kept_assignments sources p)"
proof -
  have "distinct (map ca_source_id (kept_assignments sources p))"
    using assms by (simp add: kept_assignments_def pool_ok_def distinct_map_filter)
  then show ?thesis by (simp only: by_source_distinct get_pairs_None)
qed

definition wanted_ids :: "source_config list \<Rightarrow> string set" where
  "wanted_ids sources = so_source_id ` {s \<in> set sources. so_enabled s \<and> so_type s \<in> {TelegramChannel, TelegramGroup}}"

lemma wanted_ids_iff:
  "k \<in> wanted_ids sources \<longleftrightarrow> dict_get (active_telegram_sources sources) k \<noteq> None"
  "k \<in> wanted_ids sources \<longleftrightarrow> (\<exists>s \<in> set (py_sort so_source_id (dict_values (active_telegram_sources sources))). so_source_id s = k)"
  unfolding wanted_ids_def active_telegram_ids(1) [symmetric] active_telegram_ids(3)
  by (simp_all add: py_sort_def) (auto simp: image_iff)

lemma wanted_image: "so_source_id ` set (py_sort so_source_id (dict_values (active_telegram_sources sources))) = wanted_ids sources"
  using active_telegram_ids(1) [of sources] by (simp add: py_sort_def wanted_ids_def image_image)

lemma kept_wanted: "a \<in> set (kept_assignments sources p) \<Longrightarrow> ca_source_id a \<in> wanted_ids sources"
  by (simp add: kept_assignments_def keeps_account_def wanted_ids_iff(1))

definition assignable_keys :: "pool \<Rightarrow> string set" where
  "assignable_keys p = {k. \<exists>a. dict_get (pl_accounts p) k = Some a \<and> is_assignable a}"

lemma kept_assignable: "a \<in> set (kept_assignments sources p) \<Longrightarrow> ca_account_key a \<in> assignable_keys p"
  by (auto simp: kept_assignments_def keeps_account_def assignable_keys_def split: option.splits)

lemma assignable_account:
  assumes "pool_ok p"
  shows "k \<in> assignable_keys p \<longleftrightarrow> (\<exists>acc \<in> set (list_accounts p). is_assignable acc \<and> lc_account_key acc = k)"
  using assignable_accounts_iff [OF assms] assms
  by (auto simp: assignable_keys_def pool_ok_def dest: keyed_by_getD)

lemma reconcile_success:
  assumes "pool_ok p" and "reconcile sources now p = (Inr as, q)"
  shows "as = list_active_assignments q \<and> distinct (map ca_source_id as) \<and> ca_source_id ` set as = wanted_ids sources \<and>
    ca_account_key ` set as \<subseteq> assignable_keys p \<and>
    take (length (kept_assignments sources p)) as = kept_assignments sources p \<and> pl_accounts q = pl_accounts p \<and>
    (as = list_active_assignments p \<longrightarrow> q = p) \<and>
    (\<forall>b \<in> assignable_keys p. \<forall>k. load_in as k \<le> max (load_in (kept_assignments sources p) k) (load_in as b + 1))"
proof -
  let ?kept = "kept_assignments sources p"
  let ?ss = "py_sort so_source_id (dict_values (active_telegram_sources sources))"
  have q: "assign_sources (list_accounts p) (by_source ?kept) now ?ss (calculate_loads ?kept) (released sources now p) = (Inr (), q)"
    and as: "as = list_active_assignments q"
    using assms(2) unfolding reconcile_unfold [OF assms(1)] by (auto simp: then_do_def split: prod.splits sum.splits)
  note rel = released_active [OF assms(1), of sources now]
  obtain new where new: "list_active_assignments q = ?kept @ new"
    "map ca_source_id new = map so_source_id (filter (\<lambda>s. dict_get (by_source ?kept) (so_source_id s) = None) ?ss)"
    "\<forall>a \<in> set new. \<exists>acc \<in> set (list_accounts p). is_assignable acc \<and> ca_account_key a = lc_account_key acc"
    "new = [] \<longrightarrow> q = released sources now p" "pl_accounts q = pl_accounts p"
    and balance: "\<forall>b \<in> set (list_accounts p). \<forall>k. is_assignable b \<longrightarrow> load_in (list_active_assignments q) k \<le>
       max (load_in ?kept k) (load_in (list_active_assignments q) (lc_account_key b) + 1)"
    using assign_sources_Inr [OF q] rel load_of_calculate_loads by auto
  have ids: "ca_source_id ` set new = wanted_ids sources - ca_source_id ` set ?kept"
  proof -
    have "ca_source_id ` set new = set (map ca_source_id new)" by simp
    also have "\<dots> = {k \<in> so_source_id ` set ?ss. k \<notin> ca_source_id ` set ?kept}"
      unfolding new(2) unserved_ids [OF assms(1)] by auto
    also have "\<dots> = wanted_ids sources - ca_source_id ` set ?kept" unfolding wanted_image by auto
    finally show ?thesis .
  qed
  have "distinct (map ca_source_id new)"
    unfolding new(2) using active_telegram_ids(2) [of sources]
    by (intro distinct_map_filter) (simp only: distinct_map_py_sort)
  moreover have "distinct (map ca_source_id ?kept)"
    using assms by (simp add: kept_assignments_def pool_ok_def distinct_map_filter)
  ultimately have "distinct (map ca_source_id as)" using ids as new(1) by auto
  moreover have all_wanted: "ca_source_id ` set as = wanted_ids sources"
    using ids kept_wanted as new(1) by (auto simp: image_Un)
  moreover have all_assignable: "ca_account_key ` set as \<subseteq> assignable_keys p"
    proof
    fix k assume "k \<in> ca_account_key ` set as"
    then obtain a where a: "a \<in> set ?kept \<union> set new" "k = ca_account_key a" using as new(1) by auto
    then show "k \<in> assignable_keys p"
    proof (cases "a \<in> set ?kept")
      case True
      with a(2) kept_assignable show ?thesis by simp
    next
      case False
      with a new(3) have "\<exists>acc \<in> set (list_accounts p). is_assignable acc \<and> k = lc_account_key acc" by simp
      then show ?thesis unfolding assignable_account [OF assms(1)] by auto
    qed
  qed
  moreover have "as = list_active_assignments p \<longrightarrow> q = p"
  proof
    assume same: "as = list_active_assignments p"
    have "?kept = as" unfolding kept_assignments_def same [symmetric]
    proof (rule filter_True, rule ballI)
      fix a assume "a \<in> set as"
      then have "ca_source_id a \<in> ca_source_id ` set as" "ca_account_key a \<in> ca_account_key ` set as" by simp_all
      then have "ca_source_id a \<in> wanted_ids sources" "ca_account_key a \<in> assignable_keys p"
        using all_wanted all_assignable by blast+
      then show "keeps_account (active_telegram_sources sources) (pl_accounts p) a"
        by (auto simp: keeps_account_def wanted_ids_iff(1) assignable_keys_def)
    qed
    moreover from this as new(1) have "new = []" by simp
    ultimately show "q = p" using rel same new(4) by simp
  qed
  moreover have "\<forall>b \<in> assignable_keys p. \<forall>k. load_in as k \<le> max (load_in ?kept k) (load_in as b + 1)"
  proof (intro ballI allI)
    fix b k assume "b \<in> assignable_keys p"
    then obtain acc where acc: "acc \<in> set (list_accounts p)" "is_assignable acc" "lc_account_key acc = b"
      unfolding assignable_account [OF assms(1)] by auto
    with balance [rule_format, OF acc(1,2), of k] show "load_in as k \<le> max (load_in ?kept k) (load_in as b + 1)"
      unfolding as by simp
  qed
  ultimately show ?thesis using as new by simp
qed


lemma reconcile_failure:
  assumes "pool_ok p" and "reconcile sources now p = (Inl e, q)"
  shows "assignable_keys p = {} \<and> wanted_ids sources \<noteq> {} \<and>
    e = OtherError ''NoHealthyListenerAccountError'' ''No enabled healthy listener account is available.'' \<and>
    list_active_assignments q = []"
proof -
  have q: "assign_sources (list_accounts p) (by_source (kept_assignments sources p)) now
      (py_sort so_source_id (dict_values (active_telegram_sources sources)))
      (calculate_loads (kept_assignments sources p)) (released sources now p) = (Inl e, q)"
    using assms(2) unfolding reconcile_unfold [OF assms(1)] by (auto simp: then_do_def split: prod.splits sum.splits)
  note failed = assign_sources_Inl [OF q]
  then have none: "assignable_keys p = {}" using assignable_account [OF assms(1)] by blast
  then have "kept_assignments sources p = []" using kept_assignable [of _ sources p] by (cases "kept_assignments sources p") auto
  moreover have "wanted_ids sources \<noteq> {}" using failed by (auto simp: wanted_ids_iff(2) simp flip: ex_in_conv)
  ultimately show ?thesis using failed none released_active [OF assms(1), of sources now] by simp
qed

lemma reconcile_fails_iff:
  assumes "pool_ok p"
  shows "(\<exists>as. fst (reconcile sources now p) = Inr as) \<longleftrightarrow> assignable_keys p \<noteq> {} \<or> wanted_ids sources = {}"
proof (cases "reconcile sources now p")
  case (Pair r q)
  show ?thesis
  proof (cases r)
    case (Inl e)
    with reconcile_failure [OF assms] Pair show ?thesis by simp
  next
    case (Inr as)
    with reconcile_success [OF assms] Pair have "ca_source_id ` set as = wanted_ids sources"
      "ca_account_key ` set as \<subseteq> assignable_keys p" by blast+
    with Pair Inr show ?thesis by auto
  qed
qed

text \<open>
  C20. Reconciling succeeds exactly when some account can listen or no Telegram source is enabled. Then every
  enabled Telegram source has exactly one active assignment and nothing else has one, every assigned account is
  enabled and online, the assignments that could stay come first, unmoved, and no account was loaded beyond one
  more than any other assignable account unless it already carried that load.
\<close>

theorem reconcile_assigns_every_source:
  assumes "pool_ok p"
  shows "case reconcile sources now p of
      (Inl e, q) \<Rightarrow> assignable_keys p = {} \<and> wanted_ids sources \<noteq> {} \<and> list_active_assignments q = []
    | (Inr as, q) \<Rightarrow> as = list_active_assignments q \<and> distinct (map ca_source_id as) \<and>
        ca_source_id ` set as = wanted_ids sources \<and> ca_account_key ` set as \<subseteq> assignable_keys p \<and>
        take (length (kept_assignments sources p)) as = kept_assignments sources p \<and>
        (\<forall>b \<in> assignable_keys p. \<forall>k. load_in as k \<le> max (load_in (kept_assignments sources p) k) (load_in as b + 1))"
proof (cases "reconcile sources now p")
  case (Pair r q)
  show ?thesis
  proof (cases r)
    case (Inl e)
    with reconcile_failure [OF assms] Pair show ?thesis by simp
  next
    case (Inr as)
    with Pair have "reconcile sources now p = (Inr as, q)" by simp
    from reconcile_success [OF assms this] show ?thesis
      unfolding Pair Inr prod.case sum.case by (elim conjE) (intro conjI, assumption+)
  qed
qed


definition sample_account :: "string \<Rightarrow> health_status \<Rightarrow> listener_account" where
  "sample_account k h = \<lparr>lc_account_key = k, lc_enabled = True, lc_health = h, lc_last_event_at = None,
     lc_flood_wait_count = 0\<rparr>"

definition sample_assignment :: "string \<Rightarrow> string \<Rightarrow> channel_assignment" where
  "sample_assignment s k = \<lparr>ca_source_id = s, ca_account_key = k, ca_assigned_at = 0, ca_active = True,
     ca_released_at = None, ca_reason = InitialAssignment\<rparr>"

definition sample_pool :: pool where
  "sample_pool = \<lparr>pl_accounts = [(''one'', sample_account ''one'' Online), (''two'', sample_account ''two'' Banned)],
     pl_assignments = [sample_assignment ''s1'' ''two''], pl_audit = [], pl_notes = []\<rparr>"

lemma sample_pool_ok: "pool_ok sample_pool"
  by (auto simp: pool_ok_def sample_pool_def keyed_by_def dict_ok_def sample_account_def list_active_assignments_def
      sample_assignment_def split: if_splits)

theorem reconcile_assigns_every_source_witness:
  "case reconcile [] 5 sample_pool of
      (Inl e, q) \<Rightarrow> assignable_keys sample_pool = {} \<and> wanted_ids [] \<noteq> {} \<and> list_active_assignments q = []
    | (Inr as, q) \<Rightarrow> as = list_active_assignments q \<and> distinct (map ca_source_id as) \<and>
        ca_source_id ` set as = wanted_ids [] \<and> ca_account_key ` set as \<subseteq> assignable_keys sample_pool \<and>
        take (length (kept_assignments [] sample_pool)) as = kept_assignments [] sample_pool \<and>
        (\<forall>b \<in> assignable_keys sample_pool. \<forall>k.
           load_in as k \<le> max (load_in (kept_assignments [] sample_pool) k) (load_in as b + 1))"
  by (rule reconcile_assigns_every_source [OF sample_pool_ok])

section \<open>Reconciling again, and disabled accounts\<close>

text \<open>
  Reconciling a second time with the same sources returns the same assignments and changes nothing: no
  release, no audit event, no note.
\<close>

theorem reconcile_again:
  assumes "pool_ok p" and "reconcile sources now p = (Inr as, q)"
  shows "reconcile sources later q = (Inr as, q)"
proof -
  note first = reconcile_success [OF assms]
  then have active: "list_active_assignments q = as" by simp
  have "distinct (map ca_source_id as)" "pl_accounts q = pl_accounts p" using first by blast+
  then have ok: "pool_ok q" using assms(1) by (simp add: pool_ok_def active)
  have keys: "assignable_keys q = assignable_keys p" using first by (simp add: assignable_keys_def)
  have "filter (keeps_account (active_telegram_sources sources) (pl_accounts q)) as = as"
  proof (rule filter_True, rule ballI)
    fix a assume "a \<in> set as"
    then have "ca_source_id a \<in> ca_source_id ` set as" "ca_account_key a \<in> ca_account_key ` set as" by simp_all
    then have "ca_source_id a \<in> wanted_ids sources" "ca_account_key a \<in> assignable_keys q"
      using first keys by blast+
    then show "keeps_account (active_telegram_sources sources) (pl_accounts q) a"
      by (auto simp: keeps_account_def wanted_ids_iff(1) assignable_keys_def)
  qed
  then have kept: "kept_assignments sources q = as" by (simp add: kept_assignments_def active)
  then have same: "released sources later q = q" using released_active [OF ok, of sources later] active by simp
  have served: "assign_sources accounts (by_source as) later ss loads q = (Inr (), q)"
    if "so_source_id ` set ss \<subseteq> ca_source_id ` set as" for accounts ss loads
    using that unserved_ids [OF ok, of sources] unfolding kept by (induction ss arbitrary: loads) auto
  have "so_source_id ` set (py_sort so_source_id (dict_values (active_telegram_sources sources))) \<subseteq> ca_source_id ` set as"
    unfolding wanted_image using first by blast
  from served [OF this] show ?thesis
    unfolding reconcile_unfold [OF ok] kept same by (simp add: then_do_def active)
qed


lemma reconcile_again_witness:
  "let (r, q) = reconcile [] 5 sample_pool in reconcile [] 6 q = (r, q)"
proof -
  have "assignable_keys sample_pool \<noteq> {} \<or> wanted_ids [] = {}" by (simp add: wanted_ids_def)
  then obtain as q where "reconcile [] 5 sample_pool = (Inr as, q)"
    using reconcile_fails_iff [OF sample_pool_ok, of "[]" 5] by (cases "reconcile [] 5 sample_pool") auto
  with reconcile_again [OF sample_pool_ok this, of 6] show ?thesis by simp
qed

datatype pool_action =
    EnsureAccounts "string list"
  | TransitionHealth string health_status nat
  | SuccessfulEvent string time
  | LongSilence string
  | Reconcile "source_config list" time

fun pool_step :: "pool_action \<Rightarrow> pool \<Rightarrow> pool" where
  "pool_step (EnsureAccounts ks) p = ensure_accounts ks p"
| "pool_step (TransitionHealth k h n) p = snd (transition_health k h n p)"
| "pool_step (SuccessfulEvent k now) p = snd (record_successful_event k now p)"
| "pool_step (LongSilence k) p = snd (mark_long_silence k p)"
| "pool_step (Reconcile sources now) p = snd (reconcile sources now p)"

definition pool_run :: "pool_action list \<Rightarrow> pool \<Rightarrow> pool" where
  "pool_run acts p = fold pool_step acts p"

definition account_disabled :: "string \<Rightarrow> pool \<Rightarrow> bool" where
  "account_disabled k p \<longleftrightarrow> (\<exists>a. dict_get (pl_accounts p) k = Some a \<and> \<not> lc_enabled a)"

text \<open>What the health operations may do to the state.\<close>

lemma save_account_ok:
  "pool_ok p \<Longrightarrow> pool_ok (save_account a p)"
  "list_active_assignments (save_account a p) = list_active_assignments p"
  "account_disabled k p \<Longrightarrow> (lc_account_key a = k \<longrightarrow> \<not> lc_enabled a) \<Longrightarrow> account_disabled k (save_account a p)"
  by (auto simp: save_account_def pool_ok_def list_active_assignments_def account_disabled_def dict_get_put intro: keyed_by_put)

lemma pool_note_ok [simp]:
  "pool_ok (pool_note v k p) = pool_ok p" "account_disabled j (pool_note v k p) = account_disabled j p"
  by (simp_all add: pool_ok_def account_disabled_def)

lemma account_of_Inr:
  "pool_ok p \<Longrightarrow> account_of k p = Inr a \<Longrightarrow> lc_account_key a = k \<and> dict_get (pl_accounts p) k = Some a"
  by (auto simp: account_of_def pool_ok_def split: option.splits dest: keyed_by_getD)

lemma transition_health_ok:
  assumes "pool_ok p"
  shows "pool_ok (snd (transition_health k h n p)) \<and>
    list_active_assignments (snd (transition_health k h n p)) = list_active_assignments p \<and>
    (account_disabled j p \<longrightarrow> account_disabled j (snd (transition_health k h n p)))"
proof (cases "res_bind (account_of k p) (\<lambda>a. res_bind (validate_health_transition (lc_health a) h) (\<lambda>_. Inr a))")
  case (Inl e)
  with assms show ?thesis by (simp add: transition_health_def)
next
  case (Inr a)
  then have "account_of k p = Inr a" by (auto simp: res_bind_def split: sum.splits)
  note this = account_of_Inr [OF assms this]
  with Inr assms show ?thesis
    by (auto simp: transition_health_def Let_def save_account_ok account_disabled_def intro!: save_account_ok(3) [unfolded account_disabled_def])
qed


lemma record_successful_event_ok:
  assumes "pool_ok p"
  shows "pool_ok (snd (record_successful_event k now p)) \<and>
    (account_disabled j p \<longrightarrow> account_disabled j (snd (record_successful_event k now p)))"
proof (cases "res_bind (account_of k p) (\<lambda>a. res_bind (validate_health_transition (lc_health a) Online) (\<lambda>_. Inr a))")
  case (Inl e)
  with assms show ?thesis by (simp add: record_successful_event_def)
next
  case (Inr a)
  then have "account_of k p = Inr a" by (auto simp: res_bind_def split: sum.splits)
  note this = account_of_Inr [OF assms this]
  with Inr assms show ?thesis
    by (auto simp: record_successful_event_def Let_def save_account_ok account_disabled_def
        intro!: save_account_ok(3) [unfolded account_disabled_def])
qed

lemma mark_long_silence_ok:
  assumes "pool_ok p"
  shows "pool_ok (snd (mark_long_silence k p)) \<and> (account_disabled j p \<longrightarrow> account_disabled j (snd (mark_long_silence k p)))"
  using transition_health_ok [OF assms, of k Reconnecting 0 j]
  by (auto simp: mark_long_silence_def then_do_def split: prod.splits sum.splits)

lemma ensure_accounts_ok:
  "pool_ok p \<Longrightarrow> pool_ok (ensure_accounts ks p) \<and> (account_disabled j p \<longrightarrow> account_disabled j (ensure_accounts ks p))"
proof -
  define add where "add k q = (if dict_get (pl_accounts q) k \<noteq> None then q
         else save_account \<lparr>lc_account_key = k, lc_enabled = True, lc_health = Online, lc_last_event_at = None,
           lc_flood_wait_count = 0\<rparr> q)" for k q
  have add: "pool_ok (add k q) \<and> (account_disabled j q \<longrightarrow> account_disabled j (add k q))" if "pool_ok q" for k q
    using that by (auto simp: add_def account_disabled_def save_account_ok
        intro!: save_account_ok(3) [unfolded account_disabled_def])
  have "pool_ok (fold add xs q) \<and> (account_disabled j q \<longrightarrow> account_disabled j (fold add xs q))" if "pool_ok q" for xs q
    using that
  proof (induction xs arbitrary: q)
    case (Cons x xs)
    from add [OF Cons.prems, of x] Cons.IH [of "add x q"] show ?case by auto
  qed simp
  then show "pool_ok p \<Longrightarrow> ?thesis" unfolding ensure_accounts_def add_def .
qed

lemma reconcile_ok:
  assumes "pool_ok p"
  shows "pool_ok (snd (reconcile sources now p)) \<and> pl_accounts (snd (reconcile sources now p)) = pl_accounts p"
proof (cases "reconcile sources now p")
  case (Pair r q)
  have accounts: "pl_accounts (snd (assign_sources as d now ss loads p1)) = pl_accounts p1" for as d ss loads p1
    by (induction ss arbitrary: loads p1) (auto simp: append_audit_def split: sum.split)
  have same: "pl_accounts q = pl_accounts p"
    using Pair accounts [of "list_accounts p"] released_active [OF assms, of sources now]
    unfolding reconcile_unfold [OF assms] by (auto simp: then_do_def split: prod.splits sum.splits) (metis snd_conv)+
  show ?thesis
  proof (cases r)
    case (Inl e)
    with Pair reconcile_failure [OF assms, of sources now e q] same assms show ?thesis by (simp add: pool_ok_def)
  next
    case (Inr as)
    with Pair have "reconcile sources now p = (Inr as, q)" by simp
    note success = reconcile_success [OF assms this]
    then have "distinct (map ca_source_id (list_active_assignments q))" by metis
    with Pair same assms show ?thesis by (simp add: pool_ok_def)
  qed
qed

lemma pool_step_ok:
  "pool_ok p \<Longrightarrow> pool_ok (pool_step act p) \<and> (account_disabled j p \<longrightarrow> account_disabled j (pool_step act p))"
  using transition_health_ok record_successful_event_ok mark_long_silence_ok ensure_accounts_ok reconcile_ok
  by (cases act) (simp_all add: account_disabled_def)

lemma pool_run_ok:
  "pool_ok p \<Longrightarrow> pool_ok (pool_run acts p) \<and> (account_disabled j p \<longrightarrow> account_disabled j (pool_run acts p))"
proof (induction acts arbitrary: p)
  case (Cons act acts)
  from pool_step_ok [OF Cons.prems, of act j] Cons.IH [of "pool_step act p"] show ?case by (auto simp: pool_run_def)
qed (simp add: pool_run_def)

text \<open>
  An account that has been disabled or banned is never assignable again, whatever health reports,
  registrations and reconciliations follow: the transition back to online is allowed and succeeds, yet no
  operation sets the enabled flag again. The pool keeps its accounts keyed and its active sources distinct.
\<close>

theorem disabled_account_stays_out:
  assumes "pool_ok p" and "h \<in> {DisabledHealth, Banned}" and "transition_health k h n p = (Inr a, q)"
  shows "pool_ok (pool_run acts q) \<and> k \<notin> assignable_keys (pool_run acts q) \<and>
    (h = DisabledHealth \<longrightarrow> fst (transition_health k Online 0 q) = Inr (a\<lparr>lc_health := Online\<rparr>))"
proof -
  have ok: "pool_ok q" using transition_health_ok [OF assms(1), of k h n] assms(3) by simp
  obtain b where b: "account_of k p = Inr b" "a = b\<lparr>lc_health := h, lc_enabled := False,
      lc_flood_wait_count := lc_flood_wait_count b + n\<rparr>"
    "dict_get (pl_accounts q) k = Some a"
    using assms(2,3) account_of_Inr [OF assms(1), of k]
    by (auto simp: transition_health_def Let_def res_bind_def save_account_def pool_note_def dict_get_put
        split: sum.splits if_splits)
  then have "account_disabled k q" by (simp add: account_disabled_def)
  with pool_run_ok [OF ok, of acts k] have "account_disabled k (pool_run acts q)" "pool_ok (pool_run acts q)" by simp_all
  moreover from this have "k \<notin> assignable_keys (pool_run acts q)"
    by (auto simp: account_disabled_def assignable_keys_def is_assignable_def)
  moreover have "fst (transition_health k Online 0 q) = Inr (a\<lparr>lc_health := Online\<rparr>)" if "h = DisabledHealth"
    using b that by (simp add: transition_health_def account_of_def validate_health_transition_def Let_def)
  ultimately show ?thesis by blast
qed

lemma disabled_account_stays_out_witness:
  "\<exists>a q. transition_health ''one'' DisabledHealth 0 sample_pool = (Inr a, q) \<and> ''one'' \<notin> assignable_keys
     (pool_run [TransitionHealth ''one'' Online 0, SuccessfulEvent ''one'' 3, Reconcile [] 4] q)"
proof -
  obtain a q where "transition_health ''one'' DisabledHealth 0 sample_pool = (Inr a, q)"
    by (simp add: transition_health_def account_of_def sample_pool_def sample_account_def validate_health_transition_def Let_def)
  with disabled_account_stays_out [OF sample_pool_ok _ this] show ?thesis by blast
qed

end
