(* ===== verification/EF_Refresh.thy ===== *)
theory EF_Refresh
  imports EF_Topology EF_ListenerPool EF_Consumer "HOL-Library.Multiset"
begin

text \<open>
  The coordinator of the Telegram listeners (\<open>services/listener_refresh.py\<close>) and the supervisor it starts: the refresh
  stores, the fingerprint of what is configured, the groups of sources that share an adapter and a session, the refresh
  itself and the two loops that call it. The registry of adapters, the text of a JSON dump and the answers of the
  plugins are arguments. A refresh is split where the code suspends: what it does until it has stopped the old
  supervisor, and the rest, which builds and starts the new one.
\<close>

section \<open>The refresh stores\<close>

definition memory_version :: "int \<Rightarrow> int" where "memory_version s = s"

definition memory_signal :: "int \<Rightarrow> int res \<times> int" where "memory_signal s = (Inr (s + 1), s + 1)"

text \<open>
  The key in Redis holds a text or nothing. \<open>INCR\<close> takes only the plain text of an integer of 64 bits and refuses a result
  that does not fit.
\<close>

definition MAX_REDIS_INTEGER :: int where "MAX_REDIS_INTEGER = 2 ^ 63 - 1"

definition redis_version :: "string option \<Rightarrow> int" where
  "redis_version s = (case s of None \<Rightarrow> 0 | Some t \<Rightarrow> (case py_int t of None \<Rightarrow> 0 | Some n \<Rightarrow> n))"

definition redis_signal :: "string option \<Rightarrow> int res \<times> string option" where
  "redis_signal s =
     (let n = redis_version s in
      if (case s of None \<Rightarrow> True | Some t \<Rightarrow> t = str_int n) \<and> n < MAX_REDIS_INTEGER
      then (Inr (n + 1), Some (str_int (n + 1)))
      else (Inl (OtherError ''ResponseError'' ''value is not an integer or out of range''), s))"

text \<open>\<open>ListenerRefreshStore\<close>: a signal is seen as a new version.\<close>

locale refresh_store =
  fixes version :: "'s \<Rightarrow> int"
    and signal :: "'s \<Rightarrow> int res \<times> 's"
  assumes signalled: "signal s = (Inr n, s') \<Longrightarrow> version s' = n \<and> version s < n"
    and not_signalled: "signal s = (Inl e, s') \<Longrightarrow> s' = s"
begin

lemma noticed: "version s = known \<Longrightarrow> signal s = (Inr n, s') \<Longrightarrow> version s' \<noteq> known"
  using signalled by fastforce

lemma unnoticed: "version s = known \<Longrightarrow> signal s = (Inl e, s') \<Longrightarrow> version s' = known"
  using not_signalled by fastforce

end

interpretation memory_refresh: refresh_store memory_version memory_signal
  by unfold_locales (auto simp: memory_version_def memory_signal_def)

interpretation redis_refresh: refresh_store redis_version redis_signal
  by unfold_locales (auto simp: redis_version_def redis_signal_def Let_def split: if_splits)

section \<open>Adapters\<close>

record adapter_plugin =
  ap_session :: "string option"
  ap_family :: "string option"
  ap_source_types :: "string list"

text \<open>
  A loaded plugin: its file, its manifest, whether its module can be imported and the factory, if there is one. A factory
  answers for a call with the session name and for one without.
\<close>

record loaded_adapter =
  la_module_name :: string
  la_file_hash :: string
  la_version :: string
  la_import_error :: "py_error option"
  la_factory :: "((string option \<Rightarrow> adapter_plugin option res)) option"

record refresh_env =
  re_account_key :: string
  re_default_adapter :: string
  re_registry :: "string \<Rightarrow> loaded_adapter option"
  re_dump :: "(string, json) dict \<Rightarrow> string"
  re_text :: text_env
  re_topology_up :: bool

text \<open>A plugin without a manifest is \<open>None\<close>.\<close>

definition telegram_plugin :: "refresh_env \<Rightarrow> string \<Rightarrow> string \<Rightarrow> adapter_plugin res" where
  "telegram_plugin E adapter session =
     (case re_registry E adapter of
        None \<Rightarrow> Inl (RuntimeError (adapter @ '' adapter plugin is not loaded.''))
      | Some la \<Rightarrow>
          (case la_import_error la of
             Some e \<Rightarrow> Inl e
           | None \<Rightarrow>
               (case la_factory la of
                  None \<Rightarrow> Inl (RuntimeError (adapter @ '' adapter plugin cannot be instantiated.''))
                | Some f \<Rightarrow>
                    res_bind (case f (Some session) of Inl (TypeError m) \<Rightarrow> f None | r \<Rightarrow> r) (\<lambda>made.
                      case made of
                        None \<Rightarrow> Inl (RuntimeError (adapter @ '' adapter plugin must expose a manifest.''))
                      | Some p \<Rightarrow>
                          if ap_family p \<noteq> Some ''telegram'' \<or>
                             set (ap_source_types p) \<inter> {''telegram_channel'', ''telegram_group''} = {}
                          then Inl (RuntimeError (adapter @ '' is not a Telegram adapter compatible with listener sources.''))
                          else Inr p))))"

definition resolve_adapter_name :: "refresh_env \<Rightarrow> source_config \<Rightarrow> string" where
  "resolve_adapter_name E s =
     (let n = strip (text_or (so_adapter_name s) []) in if n = [] then re_default_adapter E else n)"

definition resolve_session_name :: "refresh_env \<Rightarrow> source_config \<Rightarrow> string" where
  "resolve_session_name E s =
     (let n = strip (text_or (so_account_key s) []) in if n = [] then re_account_key E else n)"

text \<open>\<open>sorted\<close> of a set.\<close>

definition sorted_set :: "'a::linorder list \<Rightarrow> 'a list" where
  "sorted_set xs = py_sort (\<lambda>x. x) (remdups xs)"

section \<open>The fingerprint\<close>

definition adapter_fingerprint :: "refresh_env \<Rightarrow> string list \<Rightarrow> string" where
  "adapter_fingerprint E names =
     join ''|'' (map (\<lambda>n. case re_registry E n of
         None \<Rightarrow> n @ '':missing''
       | Some la \<Rightarrow> n @ '':'' @ (if la_file_hash la = [] then la_module_name la else la_file_hash la) @ '':'' @ la_version la) names)"

definition source_fingerprint :: "refresh_env \<Rightarrow> source_config \<Rightarrow> string" where
  "source_fingerprint E s =
     join '':'' [so_source_id s, if so_enabled s then ''True'' else ''False'', text_or (so_adapter_name s) (re_default_adapter E),
       text_or (so_source_profile s) ''default'', effective_parser_key s, effective_parser_version s,
       mode_text (so_parser_mode s), re_dump E (so_parser_config s), text_or (so_account_key s) ''missing'', so_identifier s]"

definition fingerprint :: "refresh_env \<Rightarrow> source_config list \<Rightarrow> string" where
  "fingerprint E sources =
     join ''|'' (map (source_fingerprint E) (py_sort so_source_id sources)) @ ''|adapters:'' @
     adapter_fingerprint E (sorted_set (map (resolve_adapter_name E) sources))"

section \<open>Building the listeners\<close>

definition shared_source_profile :: "source_config list \<Rightarrow> string option" where
  "shared_source_profile ss =
     (case remdups (filter (\<lambda>p. p \<noteq> []) (map (\<lambda>s. strip (text_or (so_source_profile s) [])) ss)) of
        [p] \<Rightarrow> Some p | _ \<Rightarrow> None)"

text \<open>A listener is the session it reads with, the plugin it got and the sources it serves.\<close>

record telegram_group =
  gr_adapter :: string
  gr_session :: string
  gr_plugin :: adapter_plugin
  gr_sources :: "source_config list"

definition group_key :: "refresh_env \<Rightarrow> source_config \<Rightarrow> string \<times> string" where
  "group_key E s = (resolve_adapter_name E s, resolve_session_name E s)"

definition source_groups :: "refresh_env \<Rightarrow> source_config list \<Rightarrow> ((string \<times> string) \<times> source_config list) list" where
  "source_groups E sources =
     map (\<lambda>k. (k, filter (\<lambda>s. group_key E s = k) sources)) (sorted_set (map (group_key E) sources))"

definition group_summary :: "string \<Rightarrow> string \<Rightarrow> source_config list \<Rightarrow> string option \<Rightarrow> topology_group" where
  "group_summary adapter session ss err =
     \<lparr>tg_adapter_name = adapter, tg_source_profile = shared_source_profile ss, tg_source_count = int (length ss),
      tg_source_ids = map so_source_id ss, tg_source_identifiers = map so_identifier ss, tg_source_names = map so_name ss,
      tg_parser_keys = sorted_set (map effective_parser_key ss), tg_parser_modes = sorted_set (map (\<lambda>s. mode_text (so_parser_mode s)) ss),
      tg_session_name = Some session, tg_runnable = (err = None), tg_error = err\<rparr>"

definition build_group ::
  "refresh_env \<Rightarrow> (string \<times> string) \<times> source_config list \<Rightarrow> telegram_group list \<times> string list \<times> topology_group" where
  "build_group E x =
     (case x of ((adapter, session), ss) \<Rightarrow>
        (case telegram_plugin E adapter session of
           Inr p \<Rightarrow> ([\<lparr>gr_adapter = adapter, gr_session = session, gr_plugin = p, gr_sources = ss\<rparr>], [], group_summary adapter session ss None)
         | Inl e \<Rightarrow>
             ([], [join '':'' [adapter, session, error_class e, error_text e]], group_summary adapter session ss (Some (error_text e)))))"

definition build_listeners ::
  "refresh_env \<Rightarrow> source_config list \<Rightarrow> telegram_group list \<times> string list \<times> topology_group list" where
  "build_listeners E sources =
     (let built = map (build_group E) (source_groups E sources) in
      (concat (map fst built), concat (map (fst \<circ> snd) built), map (snd \<circ> snd) built))"


section \<open>The supervisor\<close>

text \<open>
  A supervisor runs its listeners until all of them have ended; \<open>None\<close> is a listener that still runs. Only then does it
  raise, for the first of them that failed.
\<close>

definition supervisor_result :: "unit res option list \<Rightarrow> py_error option" where
  "supervisor_result rs =
     (if None \<in> set rs then None
      else (case find (\<lambda>r. case r of Some (Inl e) \<Rightarrow> True | _ \<Rightarrow> False) rs of
          Some _ \<Rightarrow> Some (RuntimeError ''Telegram listener task failed'')
        | None \<Rightarrow> Some (RuntimeError ''Telegram listener task exited unexpectedly'')))"

record supervisor =
  sv_id :: nat
  sv_groups :: "telegram_group list"
  sv_done :: bool

section \<open>The coordinator\<close>

text \<open>
  \<open>co_running\<close> is what the process really runs: every supervisor that was started and has not been stopped. The coordinator
  itself only knows \<open>co_supervisor\<close>.
\<close>

record coordinator =
  co_supervisor :: "supervisor option"
  co_running :: "supervisor list"
  co_started :: nat
  co_pool :: pool
  co_version :: int
  co_last_version :: int
  co_last_fingerprint :: string
  co_last_groups :: "topology_group list"
  co_last_count :: nat
  co_topology :: "(string, stored_text) dict"
  co_notes :: "(string \<times> string) list"

record refresh_report =
  rr_version :: int
  rr_source_count :: nat
  rr_telegram_count :: nat
  rr_started :: bool
  rr_reason :: string
  rr_at :: time
  rr_failures :: "string list"

text \<open>A store that cannot be written is logged and passed over.\<close>

definition write_topology ::
  "refresh_env \<Rightarrow> time \<Rightarrow> bool \<Rightarrow> string \<Rightarrow> source_config list \<Rightarrow> source_config list \<Rightarrow> nat \<Rightarrow> string list \<Rightarrow>
   topology_group list \<Rightarrow> coordinator \<Rightarrow> coordinator" where
  "write_topology E now started reason sources telegram n failures groups s =
     (if \<not> re_topology_up E then s
      else s\<lparr>co_topology := redis_topology_put (re_text E)
        \<lparr>ts_generated_at = now, ts_refresh_version = co_version s, ts_listener_account_key = re_account_key E,
         ts_started = started, ts_reason = reason, ts_source_count = int (length sources),
         ts_telegram_source_count = int (length telegram), ts_listener_count = int n, ts_adapter_failures = failures,
         ts_groups = groups\<rparr> (co_topology s)\<rparr>)"

definition refresh_report_of ::
  "time \<Rightarrow> bool \<Rightarrow> string \<Rightarrow> source_config list \<Rightarrow> nat \<Rightarrow> string list \<Rightarrow> coordinator \<Rightarrow> refresh_report" where
  "refresh_report_of now started reason sources n failures s =
     \<lparr>rr_version = co_version s, rr_source_count = length sources, rr_telegram_count = n, rr_started = started,
      rr_reason = reason, rr_at = now, rr_failures = failures\<rparr>"

definition is_telegram :: "source_config \<Rightarrow> bool" where
  "is_telegram s \<longleftrightarrow> so_type s \<in> {TelegramChannel, TelegramGroup}"

text \<open>Stopping takes the known supervisor out of the coordinator and ends its listeners.\<close>

definition stop_supervisor :: "coordinator \<Rightarrow> coordinator" where
  "stop_supervisor s =
     (case co_supervisor s of
        None \<Rightarrow> s
      | Some v \<Rightarrow> s\<lparr>co_supervisor := None, co_running := filter (\<lambda>w. sv_id w \<noteq> sv_id v) (co_running s)\<rparr>)"

datatype refresh_progress = Unchanged refresh_report | Reload string

text \<open>
  The first part of \<open>refresh\<close>. An unchanged configuration under a running supervisor ends it; otherwise the assignments are
  reconciled, which can raise, and the old supervisor is stopped.
\<close>

definition refresh_prepare ::
  "refresh_env \<Rightarrow> source_config list \<Rightarrow> string \<Rightarrow> time \<Rightarrow> coordinator \<Rightarrow> refresh_progress res \<times> coordinator" where
  "refresh_prepare E sources reason now s =
     (let telegram = filter is_telegram sources;
          s1 = s\<lparr>co_pool := ensure_accounts (map (resolve_session_name E) telegram) (co_pool s)\<rparr>;
          fp = fingerprint E telegram in
      if fp = co_last_fingerprint s1 \<and> (case co_supervisor s1 of None \<Rightarrow> False | Some v \<Rightarrow> \<not> sv_done v)
      then (let n = (case co_supervisor s1 of None \<Rightarrow> 0 | Some v \<Rightarrow> length (sv_groups v));
                s2 = write_topology E now True (''unchanged:'' @ reason) sources telegram (if n = 0 then co_last_count s1 else n) []
                  (co_last_groups s1) s1
            in (Inr (Unchanged (refresh_report_of now True (''unchanged:'' @ reason) sources (length telegram) [] s2)), s2))
      else (case reconcile sources now (co_pool s1) of
          (Inl e, p) \<Rightarrow> (Inl e, s1\<lparr>co_pool := p\<rparr>)
        | (Inr _, p) \<Rightarrow> (Inr (Reload fp), stop_supervisor (s1\<lparr>co_pool := p\<rparr>))))"

definition start_supervisor :: "telegram_group list \<Rightarrow> coordinator \<Rightarrow> coordinator" where
  "start_supervisor gs s =
     (let v = \<lparr>sv_id = co_started s, sv_groups = gs, sv_done = False\<rparr> in
      s\<lparr>co_supervisor := Some v, co_running := co_running s @ [v], co_started := co_started s + 1\<rparr>)"

text \<open>The second part.\<close>

definition refresh_finish ::
  "refresh_env \<Rightarrow> source_config list \<Rightarrow> string \<Rightarrow> time \<Rightarrow> string \<Rightarrow> coordinator \<Rightarrow> refresh_report \<times> coordinator" where
  "refresh_finish E sources reason now fp s =
     (let telegram = filter is_telegram sources in
      if telegram = []
      then (let s1 = (write_topology E now False (''no_telegram_sources:'' @ reason) sources telegram 0 [] []
                  (s\<lparr>co_last_fingerprint := fp\<rparr>))\<lparr>co_last_groups := [], co_last_count := 0\<rparr>
            in (refresh_report_of now False (''no_telegram_sources:'' @ reason) sources 0 [] s1, s1))
      else (case build_listeners E telegram of (gs, failures, groups) \<Rightarrow>
          if gs = []
          then (let s1 = write_topology E now False (''disabled:'' @ reason) sources telegram 0 failures groups
                  (s\<lparr>co_last_fingerprint := fp, co_last_groups := groups, co_last_count := 0\<rparr>)
                in (refresh_report_of now False (''disabled:'' @ reason) sources (length telegram) failures s1, s1))
          else (let s1 = write_topology E now True (''reloaded:'' @ reason) sources telegram (length gs) failures groups
                  ((start_supervisor gs s)\<lparr>co_last_fingerprint := fp, co_last_groups := groups, co_last_count := length gs\<rparr>);
                  s2 = (if failures = [] then s1
                    else s1\<lparr>co_notes := co_notes s1 @ [(''warning'', ''Telegram listener reload skipped some adapters: '' @ join ''; '' failures)]\<rparr>)
                in (refresh_report_of now True (''reloaded:'' @ reason) sources (length telegram) failures s2, s2))))"

definition refresh ::
  "refresh_env \<Rightarrow> source_config list \<Rightarrow> string \<Rightarrow> time \<Rightarrow> coordinator \<Rightarrow> refresh_report res \<times> coordinator" where
  "refresh E sources reason now s =
     then_do (refresh_prepare E sources reason now s) (\<lambda>r s1.
       case r of
         Unchanged rep \<Rightarrow> (Inr rep, s1)
       | Reload fp \<Rightarrow> (case refresh_finish E sources reason now fp s1 of (rep, s2) \<Rightarrow> (Inr rep, s2)))"

section \<open>The loops\<close>

definition signal_refresh :: "coordinator \<Rightarrow> int \<times> coordinator" where
  "signal_refresh s = (co_version s + 1, s\<lparr>co_version := co_version s + 1\<rparr>)"

text \<open>The first refresh of \<open>run_forever\<close>; the version is read when it is over.\<close>

definition note_version :: "coordinator \<Rightarrow> coordinator" where
  "note_version s = s\<lparr>co_last_version := co_version s\<rparr>"

definition startup :: "refresh_env \<Rightarrow> source_config list \<Rightarrow> time \<Rightarrow> coordinator \<Rightarrow> refresh_report res \<times> coordinator" where
  "startup E sources now s =
     then_do (refresh E sources ''startup'' now s) (\<lambda>r s1. (Inr r, note_version s1))"

definition poll_step ::
  "refresh_env \<Rightarrow> source_config list \<Rightarrow> time \<Rightarrow> coordinator \<Rightarrow> refresh_report option res \<times> coordinator" where
  "poll_step E sources now s =
     (if co_version s = co_last_version s then (Inr None, s)
      else then_do (refresh E sources ''poll'' now (note_version s)) (\<lambda>r s1. (Inr (Some r), s1)))"

text \<open>A message of the channel: its text should be the new version; any other text stands for the current one.\<close>

definition pubsub_step ::
  "refresh_env \<Rightarrow> source_config list \<Rightarrow> string \<Rightarrow> time \<Rightarrow> coordinator \<Rightarrow> refresh_report res \<times> coordinator" where
  "pubsub_step E sources data now s =
     refresh E sources ''pubsub'' now
       (s\<lparr>co_last_version := (case py_int data of None \<Rightarrow> co_version s | Some n \<Rightarrow> n)\<rparr>)"

text \<open>What the main loop sees every second: the supervisor it knows has ended.\<close>

definition watch_supervisor :: "coordinator \<Rightarrow> unit res" where
  "watch_supervisor s =
     (case co_supervisor s of
        Some v \<Rightarrow> if sv_done v then Inl (RuntimeError ''Telegram listener supervisor stopped'') else Inr ()
      | None \<Rightarrow> Inr ())"

definition close_coordinator :: "coordinator \<Rightarrow> coordinator" where
  "close_coordinator s = stop_supervisor s"


section \<open>Groups\<close>

lemma sorted_set_props [simp]: "distinct (sorted_set xs)" "set (sorted_set xs) = set xs"
  by (simp_all add: sorted_set_def distinct_py_sort)

lemma mset_concat_filters:
  "distinct ks \<Longrightarrow> f ` set xs \<subseteq> set ks \<Longrightarrow> mset (concat (map (\<lambda>k. filter (\<lambda>x. f x = k) xs) ks)) = mset xs"
proof (induction xs)
  case (Cons x xs)
  then obtain a b where ks: "ks = a @ f x # b" by (auto dest: split_list)
  with Cons have new: "f x \<notin> set a" "f x \<notin> set b" and less: "f ` set xs \<subseteq> set ks" by auto
  have other: "filter (\<lambda>y. f y = k) (x # xs) = filter (\<lambda>y. f y = k) xs" if "k \<in> set a \<union> set b" for k
    using that new by auto
  then have "mset (concat (map (\<lambda>k. filter (\<lambda>y. f y = k) (x # xs)) ks)) =
    add_mset x (mset (concat (map (\<lambda>k. filter (\<lambda>y. f y = k) xs) ks)))"
    by (simp add: ks cong: map_cong)
  with Cons less show ?case by simp
qed simp

lemma mset_source_groups: "mset (concat (map snd (source_groups E sources))) = mset sources"
  using mset_concat_filters [of "sorted_set (map (group_key E) sources)" "group_key E" sources]
  by (simp add: source_groups_def comp_def)

definition group_sources_ok :: "refresh_env \<Rightarrow> telegram_group \<Rightarrow> bool" where
  "group_sources_ok E g \<longleftrightarrow> gr_sources g \<noteq> [] \<and> list_all (\<lambda>s. group_key E s = (gr_adapter g, gr_session g)) (gr_sources g) \<and>
     telegram_plugin E (gr_adapter g) (gr_session g) = Inr (gr_plugin g)"

lemma source_groups_member:
  "(k, ss) \<in> set (source_groups E sources) \<Longrightarrow> ss \<noteq> [] \<and> list_all (\<lambda>s. group_key E s = k) ss"
  by (auto simp: source_groups_def list_all_iff filter_empty_conv)

lemma keys_source_groups: "map fst (source_groups E sources) = sorted_set (map (group_key E) sources)"
  by (simp add: source_groups_def comp_def)

lemma build_group_runs:
  "tg_runnable (snd (snd (build_group E x))) \<Longrightarrow>
   \<exists>g. fst (build_group E x) = [g] \<and> (gr_adapter g, gr_session g) = fst x \<and> gr_sources g = snd x \<and>
     telegram_plugin E (gr_adapter g) (gr_session g) = Inr (gr_plugin g) \<and> fst (snd (build_group E x)) = []"
  by (auto simp: build_group_def group_summary_def split: prod.splits sum.splits)

lemma build_group_fails:
  "\<not> tg_runnable (snd (snd (build_group E x))) \<Longrightarrow> fst (build_group E x) = [] \<and> length (fst (snd (build_group E x))) = 1"
  by (auto simp: build_group_def group_summary_def split: prod.splits sum.splits)

lemma build_group_ids: "tg_source_ids (snd (snd (build_group E x))) = map so_source_id (snd x)"
  by (auto simp: build_group_def group_summary_def split: prod.splits sum.splits)

lemma build_group_ok:
  "x \<in> set (source_groups E sources) \<Longrightarrow> list_all (group_sources_ok E) (fst (build_group E x))"
  using build_group_runs [of E x] build_group_fails [of E x] source_groups_member [of "fst x" "snd x" E sources]
  by (cases "tg_runnable (snd (snd (build_group E x)))") (auto simp: group_sources_ok_def)

text \<open>
  Every source is in exactly one group; every group is either served by a listener, whose plugin belongs to it, or
  reported as a failure; no two listeners share an adapter and a session.
\<close>

lemma build_listeners_groups:
  "case build_listeners E sources of (gs, failures, groups) \<Rightarrow>
     mset (concat (map tg_source_ids groups)) = mset (map so_source_id sources) \<and>
     list_all (group_sources_ok E) gs \<and> distinct (map (\<lambda>g. (gr_adapter g, gr_session g)) gs) \<and>
     concat (map tg_source_ids (filter tg_runnable groups)) = concat (map (\<lambda>g. map so_source_id (gr_sources g)) gs) \<and>
     length gs + length failures = length groups"
proof -
  let ?x = "source_groups E sources"
  obtain gs failures groups where b: "build_listeners E sources = (gs, failures, groups)" by (rule prod_cases3)
  have parts: "gs = concat (map (fst \<circ> build_group E) ?x)" "failures = concat (map (fst \<circ> snd \<circ> build_group E) ?x)"
    "groups = map (snd \<circ> snd \<circ> build_group E) ?x"
    using b by (auto simp: build_listeners_def comp_def)
  have "map tg_source_ids groups = map (map so_source_id) (map snd ?x)"
    using build_group_ids by (auto simp: parts)
  then have "concat (map tg_source_ids groups) = map so_source_id (concat (map snd ?x))"
    by (simp only: map_concat)
  then have "mset (concat (map tg_source_ids groups)) = image_mset so_source_id (mset (concat (map snd ?x)))"
    by (simp del: map_concat map_map)
  then have one: "mset (concat (map tg_source_ids groups)) = mset (map so_source_id sources)"
    by (simp add: mset_source_groups)
  have two: "list_all (group_sources_ok E) gs"
    using build_group_ok by (fastforce simp: parts list_all_iff)
  have run: "map (\<lambda>g. (gr_adapter g, gr_session g)) (concat (map (fst \<circ> build_group E) ys)) =
      map fst (filter (\<lambda>x. tg_runnable (snd (snd (build_group E x)))) ys) \<and>
    concat (map tg_source_ids (filter tg_runnable (map (snd \<circ> snd \<circ> build_group E) ys))) =
      concat (map (\<lambda>g. map so_source_id (gr_sources g)) (concat (map (fst \<circ> build_group E) ys))) \<and>
    length (concat (map (fst \<circ> build_group E) ys)) + length (concat (map (fst \<circ> snd \<circ> build_group E) ys)) = length ys" for ys
  proof (induction ys)
    case (Cons y ys)
    show ?case
    proof (cases "tg_runnable (snd (snd (build_group E y)))")
      case True
      with build_group_runs [OF True] Cons show ?thesis by (auto simp: build_group_ids)
    next
      case False
      with build_group_fails [OF False] Cons show ?thesis by auto
    qed
  qed simp
  moreover have "distinct (map fst ?x)" by (simp add: keys_source_groups)
  ultimately have three: "distinct (map (\<lambda>g. (gr_adapter g, gr_session g)) gs)"
    by (simp add: distinct_map_filter parts)
  from run [of ?x] one two three show ?thesis by (simp add: b parts)
qed


section \<open>Runs of the coordinator\<close>

definition group_ids :: "telegram_group list \<Rightarrow> string list" where
  "group_ids gs = concat (map (\<lambda>g. map so_source_id (gr_sources g)) gs)"

text \<open>The sources the running supervisors listen to, once for every listener that does.\<close>

definition served_ids :: "coordinator \<Rightarrow> string list" where
  "served_ids s = concat (map (\<lambda>v. group_ids (sv_groups v)) (co_running s))"

definition failed_ids :: "topology_group list \<Rightarrow> string list" where
  "failed_ids groups = concat (map tg_source_ids (filter (\<lambda>g. \<not> tg_runnable g) groups))"

definition coordinator_ok :: "coordinator \<Rightarrow> bool" where
  "coordinator_ok s \<longleftrightarrow>
     co_running s = (case co_supervisor s of None \<Rightarrow> [] | Some v \<Rightarrow> [v]) \<and> list_all (\<lambda>v. sv_id v < co_started s) (co_running s) \<and>
     distinct (served_ids s)"

definition supervisor_ended :: "coordinator \<Rightarrow> coordinator" where
  "supervisor_ended s =
     (case co_supervisor s of
        None \<Rightarrow> s
      | Some v \<Rightarrow> s\<lparr>co_supervisor := Some (v\<lparr>sv_done := True\<rparr>),
          co_running := map (\<lambda>w. if sv_id w = sv_id v then w\<lparr>sv_done := True\<rparr> else w) (co_running s)\<rparr>)"

text \<open>Between two steps the registry, the stores and the configured sources may change.\<close>

datatype coordinator_action =
    RefreshNow refresh_env "source_config list" string time
  | PollNow refresh_env "source_config list" time
  | PubsubMessage refresh_env "source_config list" string time
  | SignalNow
  | SupervisorEnded

fun coordinator_step :: "coordinator_action \<Rightarrow> coordinator \<Rightarrow> coordinator" where
  "coordinator_step (RefreshNow E ss reason now) s = snd (refresh E ss reason now s)"
| "coordinator_step (PollNow E ss now) s = snd (poll_step E ss now s)"
| "coordinator_step (PubsubMessage E ss data now) s = snd (pubsub_step E ss data now s)"
| "coordinator_step SignalNow s = snd (signal_refresh s)"
| "coordinator_step SupervisorEnded s = supervisor_ended s"

definition coordinator_run :: "coordinator_action list \<Rightarrow> coordinator \<Rightarrow> coordinator" where
  "coordinator_run acts s = fold coordinator_step acts s"

fun action_sources :: "coordinator_action \<Rightarrow> source_config list" where
  "action_sources (RefreshNow E ss reason now) = ss"
| "action_sources (PollNow E ss now) = ss"
| "action_sources (PubsubMessage E ss data now) = ss"
| "action_sources _ = []"

definition sources_distinct :: "source_config list \<Rightarrow> bool" where
  "sources_distinct ss \<longleftrightarrow> distinct (map so_source_id ss)"

lemma write_topology_simps [simp]:
  "co_supervisor (write_topology E now b r ss ts n fs gs s) = co_supervisor s"
  "co_running (write_topology E now b r ss ts n fs gs s) = co_running s"
  "co_started (write_topology E now b r ss ts n fs gs s) = co_started s"
  "co_pool (write_topology E now b r ss ts n fs gs s) = co_pool s"
  "co_version (write_topology E now b r ss ts n fs gs s) = co_version s"
  "co_last_version (write_topology E now b r ss ts n fs gs s) = co_last_version s"
  "co_last_fingerprint (write_topology E now b r ss ts n fs gs s) = co_last_fingerprint s"
  "co_last_groups (write_topology E now b r ss ts n fs gs s) = co_last_groups s"
  "co_last_count (write_topology E now b r ss ts n fs gs s) = co_last_count s"
  by (simp_all add: write_topology_def)

lemma stop_supervisor_simps [simp]:
  "co_supervisor (stop_supervisor s) = None" "co_started (stop_supervisor s) = co_started s"
  "co_pool (stop_supervisor s) = co_pool s" "co_version (stop_supervisor s) = co_version s"
  "co_last_version (stop_supervisor s) = co_last_version s"
  by (auto simp: stop_supervisor_def split: option.splits)

lemma prepare_cases:
  obtains
    (unchanged) rep v s1 where "refresh_prepare E ss reason now s = (Inr (Unchanged rep), s1)" "rr_started rep"
      "co_supervisor s = Some v" "\<not> sv_done v" "co_last_fingerprint s = fingerprint E (filter is_telegram ss)"
      "co_running s1 = co_running s" "co_supervisor s1 = co_supervisor s" "co_started s1 = co_started s"
      "co_version s1 = co_version s" "co_last_version s1 = co_last_version s"
  | (refused) e p where "refresh_prepare E ss reason now s = (Inl e, s\<lparr>co_pool := p\<rparr>)"
  | (reload) p as where
      "refresh_prepare E ss reason now s = (Inr (Reload (fingerprint E (filter is_telegram ss))), stop_supervisor (s\<lparr>co_pool := p\<rparr>))"
      "reconcile ss now (ensure_accounts (map (resolve_session_name E) (filter is_telegram ss)) (co_pool s)) = (Inr as, p)"
proof -
  let ?s1 = "s\<lparr>co_pool := ensure_accounts (map (resolve_session_name E) (filter is_telegram ss)) (co_pool s)\<rparr>"
  let ?fp = "fingerprint E (filter is_telegram ss)"
  obtain r p where rec: "reconcile ss now (co_pool ?s1) = (r, p)" by force
  show ?thesis
  proof (cases "?fp = co_last_fingerprint ?s1 \<and> (case co_supervisor ?s1 of None \<Rightarrow> False | Some v \<Rightarrow> \<not> sv_done v)")
    case True
    then obtain v where "co_supervisor s = Some v" "\<not> sv_done v" by (auto split: option.splits)
    then have "\<exists>rep s1. refresh_prepare E ss reason now s = (Inr (Unchanged rep), s1) \<and> rr_started rep \<and>
      co_running s1 = co_running s \<and> co_supervisor s1 = co_supervisor s \<and> co_started s1 = co_started s \<and>
      co_version s1 = co_version s \<and> co_last_version s1 = co_last_version s"
      using True by (simp add: refresh_prepare_def Let_def refresh_report_of_def)
    with \<open>co_supervisor s = Some v\<close> \<open>\<not> sv_done v\<close> True show ?thesis
      using unchanged by auto
  next
    case False
    show ?thesis
    proof (cases r)
      case (Inl e)
      with False rec show ?thesis by (intro refused) (simp add: refresh_prepare_def Let_def)
    next
      case (Inr as)
      with False rec show ?thesis by (intro reload) (simp_all add: refresh_prepare_def Let_def)
    qed
  qed
qed


lemma build_listeners_Nil [simp]: "build_listeners E [] = ([], [], [])"
  by (simp add: build_listeners_def source_groups_def sorted_set_def py_sort_def)

lemma finish_facts:
  assumes b: "build_listeners E (filter is_telegram ss) = (gs, failures, groups)"
  shows "co_running (snd (refresh_finish E ss reason now fp s)) =
      co_running s @ (if gs = [] then [] else [\<lparr>sv_id = co_started s, sv_groups = gs, sv_done = False\<rparr>])"
    "co_supervisor (snd (refresh_finish E ss reason now fp s)) =
      (if gs = [] then co_supervisor s else Some \<lparr>sv_id = co_started s, sv_groups = gs, sv_done = False\<rparr>)"
    "co_started (snd (refresh_finish E ss reason now fp s)) = co_started s + (if gs = [] then 0 else 1)"
    "co_version (snd (refresh_finish E ss reason now fp s)) = co_version s"
    "co_last_version (snd (refresh_finish E ss reason now fp s)) = co_last_version s"
    "co_last_groups (snd (refresh_finish E ss reason now fp s)) = groups"
    "co_last_fingerprint (snd (refresh_finish E ss reason now fp s)) = fp"
    "rr_started (fst (refresh_finish E ss reason now fp s)) \<longleftrightarrow> gs \<noteq> []"
proof -
  have none: "filter is_telegram ss = [] \<Longrightarrow> gs = [] \<and> failures = [] \<and> groups = []"
    using b by simp
  show "co_running (snd (refresh_finish E ss reason now fp s)) =
      co_running s @ (if gs = [] then [] else [\<lparr>sv_id = co_started s, sv_groups = gs, sv_done = False\<rparr>])"
    "co_supervisor (snd (refresh_finish E ss reason now fp s)) =
      (if gs = [] then co_supervisor s else Some \<lparr>sv_id = co_started s, sv_groups = gs, sv_done = False\<rparr>)"
    "co_started (snd (refresh_finish E ss reason now fp s)) = co_started s + (if gs = [] then 0 else 1)"
    "co_version (snd (refresh_finish E ss reason now fp s)) = co_version s"
    "co_last_version (snd (refresh_finish E ss reason now fp s)) = co_last_version s"
    "co_last_groups (snd (refresh_finish E ss reason now fp s)) = groups"
    "co_last_fingerprint (snd (refresh_finish E ss reason now fp s)) = fp"
    "rr_started (fst (refresh_finish E ss reason now fp s)) \<longleftrightarrow> gs \<noteq> []"
    using none by (simp_all add: refresh_finish_def b Let_def start_supervisor_def refresh_report_of_def)
qed

lemma refresh_reload:
  assumes "refresh_prepare E ss reason now s = (Inr (Reload fp), s1)"
  shows "refresh E ss reason now s = (Inr (fst (refresh_finish E ss reason now fp s1)), snd (refresh_finish E ss reason now fp s1))"
  using assms by (simp add: refresh_def split: prod.splits)

lemma group_ids_partition:
  assumes "build_listeners E ss = (gs, failures, groups)"
  shows "mset (group_ids gs) + mset (failed_ids groups) = mset (map so_source_id ss)"
proof -
  have "mset (concat (map f (filter P xs))) + mset (concat (map f (filter (\<lambda>x. \<not> P x) xs))) = mset (concat (map f xs))"
    for f :: "topology_group \<Rightarrow> string list" and P xs
    by (induction xs) auto
  from this [of tg_source_ids tg_runnable groups] show ?thesis
    using build_listeners_groups [where E = E and sources = ss] assms by (auto simp: group_ids_def failed_ids_def)
qed

lemma distinct_group_ids:
  assumes "build_listeners E (filter is_telegram ss) = (gs, failures, groups)" and "sources_distinct ss"
  shows "distinct (group_ids gs)"
proof -
  have "distinct (map so_source_id (filter is_telegram ss))"
    using assms(2) by (simp add: sources_distinct_def distinct_map_filter)
  then have "distinct (group_ids gs @ failed_ids groups)"
    using group_ids_partition [OF assms(1)] by (metis mset_append mset_eq_imp_distinct_iff)
  then show ?thesis by simp
qed

lemma stop_running: "coordinator_ok s \<Longrightarrow> co_running (stop_supervisor s) = []"
  by (auto simp: coordinator_ok_def stop_supervisor_def split: option.splits)

lemma coordinator_ok_cong:
  "co_running s' = co_running s \<Longrightarrow> co_supervisor s' = co_supervisor s \<Longrightarrow> co_started s' = co_started s \<Longrightarrow>
   coordinator_ok s' \<longleftrightarrow> coordinator_ok s"
  by (simp add: coordinator_ok_def served_ids_def)

lemma coordinator_ok_note:
  "coordinator_ok (s\<lparr>co_last_version := v\<rparr>) \<longleftrightarrow> coordinator_ok s" "coordinator_ok (s\<lparr>co_version := v\<rparr>) \<longleftrightarrow> coordinator_ok s"
  "coordinator_ok (s\<lparr>co_pool := p\<rparr>) \<longleftrightarrow> coordinator_ok s"
  by (simp_all add: coordinator_ok_def served_ids_def)

lemma refresh_ok:
  assumes ok: "coordinator_ok s" and d: "sources_distinct ss"
  shows "coordinator_ok (snd (refresh E ss reason now s))"
proof (cases rule: prepare_cases [where E = E and ss = ss and reason = reason and now = now and s = s])
  case (unchanged rep v s1)
  then show ?thesis using ok coordinator_ok_cong [of s1 s] by (simp add: refresh_def)
next
  case (refused e p)
  then show ?thesis using ok by (simp add: refresh_def coordinator_ok_note)
next
  case (reload p as)
  obtain gs failures groups where b: "build_listeners E (filter is_telegram ss) = (gs, failures, groups)"
    by (rule prod_cases3)
  have "co_running (stop_supervisor (s\<lparr>co_pool := p\<rparr>)) = []"
    using ok by (intro stop_running) (simp add: coordinator_ok_note)
  then show ?thesis
    using distinct_group_ids [OF b d]
    by (simp add: refresh_reload [OF reload(1)] coordinator_ok_def finish_facts [OF b] served_ids_def)
qed

lemma supervisor_ended_ok: "coordinator_ok s \<Longrightarrow> coordinator_ok (supervisor_ended s)"
  by (auto simp: supervisor_ended_def coordinator_ok_def served_ids_def split: option.splits)

lemma coordinator_step_ok:
  assumes "coordinator_ok s" and "sources_distinct (action_sources a)"
  shows "coordinator_ok (coordinator_step a s)"
proof (cases a)
  case (PollNow E ss now)
  then show ?thesis
    using assms refresh_ok [of "note_version s" ss E "''poll''" now]
    by (auto simp: poll_step_def then_do_def note_version_def coordinator_ok_note split: prod.splits sum.splits)
qed (use assms in \<open>auto simp: refresh_ok pubsub_step_def signal_refresh_def coordinator_ok_note supervisor_ended_ok\<close>)

lemma coordinator_run_ok:
  "coordinator_ok s \<Longrightarrow> list_all (\<lambda>a. sources_distinct (action_sources a)) acts \<Longrightarrow> coordinator_ok (coordinator_run acts s)"
  by (induction acts arbitrary: s) (simp_all add: coordinator_run_def coordinator_step_ok)


section \<open>Properties\<close>

definition new_coordinator :: "pool \<Rightarrow> coordinator" where
  "new_coordinator p =
     \<lparr>co_supervisor = None, co_running = [], co_started = 0, co_pool = p, co_version = 0, co_last_version = - 1,
      co_last_fingerprint = [], co_last_groups = [], co_last_count = 0, co_topology = [], co_notes = []\<rparr>"

lemma new_coordinator_ok [simp]: "coordinator_ok (new_coordinator p)"
  by (simp add: new_coordinator_def coordinator_ok_def served_ids_def)

text \<open>
  C25. As long as one refresh is over before the next begins, whatever the registry, the sources and the signals are: the
  process runs at most the one supervisor the coordinator knows, and listens to no source twice.
\<close>

theorem one_supervisor_listens:
  assumes "list_all (\<lambda>a. sources_distinct (action_sources a)) acts"
  shows "let s = coordinator_run acts (new_coordinator p) in
    co_running s = (case co_supervisor s of None \<Rightarrow> [] | Some v \<Rightarrow> [v]) \<and> distinct (served_ids s)"
  using coordinator_run_ok [OF new_coordinator_ok assms] by (simp add: coordinator_ok_def Let_def)

text \<open>
  C26. A refresh that reloads listens to every Telegram source exactly once, those of a failed adapter apart, and these it
  reports; it says that it started exactly if something runs.
\<close>

theorem refresh_serves_every_source:
  assumes "coordinator_ok s" and "refresh_prepare E ss reason now s = (Inr (Reload fp), s1)"
  shows "case refresh E ss reason now s of
      (Inr rep, s2) \<Rightarrow>
        mset (served_ids s2) + mset (failed_ids (co_last_groups s2)) = mset (map so_source_id (filter is_telegram ss)) \<and>
        (rr_started rep \<longleftrightarrow> co_running s2 \<noteq> [])
    | (Inl e, s2) \<Rightarrow> False"
proof -
  obtain gs failures groups where b: "build_listeners E (filter is_telegram ss) = (gs, failures, groups)"
    by (rule prod_cases3)
  obtain p where s1: "s1 = stop_supervisor (s\<lparr>co_pool := p\<rparr>)"
    using assms(2) by (cases rule: prepare_cases [where E = E and ss = ss and reason = reason and now = now and s = s]) auto
  have "co_running s1 = []"
    unfolding s1 using assms(1) by (intro stop_running) (simp add: coordinator_ok_note)
  then show ?thesis
    using group_ids_partition [OF b]
    by (cases "gs = []") (simp_all add: refresh_reload [OF assms(2)] finish_facts [OF b] served_ids_def group_ids_def)
qed

lemma running_kept:
  assumes v: "v \<in> set (co_running s)" and other: "\<And>w. co_supervisor s = Some w \<Longrightarrow> sv_id w \<noteq> sv_id v"
    and old: "sv_id v < co_started s"
  shows "v \<in> set (co_running (coordinator_step a s)) \<and>
    (\<forall>w. co_supervisor (coordinator_step a s) = Some w \<longrightarrow> sv_id w \<noteq> sv_id v) \<and> sv_id v < co_started (coordinator_step a s)"
proof -
  have kept: "v \<in> set (co_running (snd (refresh E ss reason now t))) \<and>
      (\<forall>w. co_supervisor (snd (refresh E ss reason now t)) = Some w \<longrightarrow> sv_id w \<noteq> sv_id v) \<and>
      sv_id v < co_started (snd (refresh E ss reason now t))"
    if t: "co_running t = co_running s" "co_supervisor t = co_supervisor s" "co_started t = co_started s" for t E ss reason now
  proof (cases rule: prepare_cases [where E = E and ss = ss and reason = reason and now = now and s = t])
    case (unchanged rep u s1)
    then show ?thesis using v other old t by (simp add: refresh_def)
  next
    case (refused e p)
    then show ?thesis using v other old t by (simp add: refresh_def)
  next
    case (reload p as)
    obtain gs failures groups where b: "build_listeners E (filter is_telegram ss) = (gs, failures, groups)"
      by (rule prod_cases3)
    have "v \<in> set (co_running (stop_supervisor (t\<lparr>co_pool := p\<rparr>)))"
      using v other t by (auto simp: stop_supervisor_def split: option.splits)
    then show ?thesis
      using old t by (auto simp: refresh_reload [OF reload(1)] finish_facts [OF b])
  qed
  show ?thesis
  proof (cases a)
    case (PollNow E ss now)
    show ?thesis
      using kept [of "note_version s" E ss "''poll''" now] v other old
      by (auto simp: PollNow poll_step_def then_do_def note_version_def split: prod.splits sum.splits)
  next
    case SupervisorEnded
    then show ?thesis
      using v other old by (auto simp: supervisor_ended_def image_iff split: option.splits)
  next
    case (PubsubMessage E ss data now)
    show ?thesis
      using kept [of "s\<lparr>co_last_version := (case py_int data of None \<Rightarrow> co_version s | Some n \<Rightarrow> n)\<rparr>" E ss "''pubsub''" now]
      by (simp add: PubsubMessage pubsub_step_def)
  qed (use v other old kept in \<open>auto simp: signal_refresh_def\<close>)
qed

lemma running_forever:
  assumes "v \<in> set (co_running s)" "\<And>w. co_supervisor s = Some w \<Longrightarrow> sv_id w \<noteq> sv_id v" "sv_id v < co_started s"
  shows "v \<in> set (co_running (coordinator_run acts s))"
  using assms
proof (induction acts arbitrary: s)
  case (Cons a acts)
  from running_kept [OF Cons.prems] Cons.IH [of "coordinator_step a s"] show ?case
    by (auto simp: coordinator_run_def)
qed (simp add: coordinator_run_def)

text \<open>
  The two loops are not kept apart. When a second refresh begins before the first has started its supervisor, both
  start one: all sources are listened to twice, and nothing the coordinator does later stops the first supervisor.
\<close>

theorem overlapping_refreshes_listen_twice:
  assumes "coordinator_ok s" and "build_listeners E (filter is_telegram ss) = (gs, failures, groups)" and "gs \<noteq> []"
    and "refresh_prepare E ss r1 t1 s = (Inr (Reload f1), s1)" and "refresh_prepare E ss r2 t2 s1 = (Inr (Reload f2), s2)"
    and "s3 = snd (refresh_finish E ss r1 t1 f1 s2)" and "s4 = snd (refresh_finish E ss r2 t2 f2 s3)"
  shows "served_ids s4 = group_ids gs @ group_ids gs \<and>
    (\<exists>v. sv_groups v = gs \<and> v \<in> set (co_running (coordinator_run acts s4)) \<and> v \<in> set (co_running (close_coordinator s4)))"
proof -
  obtain p where s1: "s1 = stop_supervisor (s\<lparr>co_pool := p\<rparr>)"
    using assms(4) by (cases rule: prepare_cases [where E = E and ss = ss and reason = r1 and now = t1 and s = s]) auto
  obtain q where s2: "s2 = stop_supervisor (s1\<lparr>co_pool := q\<rparr>)"
    using assms(5) by (cases rule: prepare_cases [where E = E and ss = ss and reason = r2 and now = t2 and s = s1]) auto
  have ok: "coordinator_ok (s\<lparr>co_pool := p\<rparr>)" using assms(1) by (simp add: coordinator_ok_note)
  then have "co_running s1 = []" "co_supervisor s1 = None" unfolding s1 by (simp_all add: stop_running)
  then have "co_running s2 = []" by (simp add: s2 stop_supervisor_def)
  note s4 = assms(6,7) finish_facts [OF assms(2)] assms(3) this
  let ?v = "\<lparr>sv_id = co_started s2, sv_groups = gs, sv_done = False\<rparr>"
  have "served_ids s4 = group_ids gs @ group_ids gs" by (simp add: s4 served_ids_def)
  moreover have "?v \<in> set (co_running (coordinator_run acts s4))" by (rule running_forever) (auto simp: s4)
  moreover have "?v \<in> set (co_running (close_coordinator s4))" by (simp add: s4 close_coordinator_def stop_supervisor_def)
  ultimately show ?thesis by (metis supervisor.select_convs(2))
qed

text \<open>
  A poll whose refresh fails keeps the old listeners and has already noted the new version, so the next polls do nothing:
  the change stays unread until another signal comes.
\<close>

theorem failed_poll_not_retried:
  assumes "poll_step E ss now s = (Inl e, s1)"
  shows "co_supervisor s1 = co_supervisor s \<and> co_running s1 = co_running s \<and> co_version s1 = co_version s \<and>
    poll_step E' ss' later s1 = (Inr None, s1)"
proof -
  have c: "co_version s \<noteq> co_last_version s" and r: "refresh E ss ''poll'' now (note_version s) = (Inl e, s1)"
    using assms by (auto simp: poll_step_def then_do_def split: if_splits prod.splits sum.splits)
  from r obtain p where "s1 = (note_version s)\<lparr>co_pool := p\<rparr>"
    by (cases rule: prepare_cases [where E = E and ss = ss and reason = "''poll''" and now = now and s = "note_version s"])
      (auto simp: refresh_def split: prod.splits)
  then show ?thesis by (simp add: note_version_def poll_step_def)
qed

text \<open>
  A signal that comes while the first refresh runs is lost: the version is read only when that refresh is over, and the
  listeners that run were built from the sources listed before the signal.
\<close>

theorem startup_signal_lost:
  assumes "refresh_prepare E ss ''startup'' now s = (Inr (Reload fp), s1)"
    and "build_listeners E (filter is_telegram ss) = (gs, failures, groups)" and "gs \<noteq> []"
    and "s3 = note_version (snd (refresh_finish E ss ''startup'' now fp (snd (signal_refresh s1))))"
  shows "poll_step E' ss' later s3 = (Inr None, s3) \<and> map sv_groups (co_running s3) = map sv_groups (co_running s1) @ [gs] \<and>
    co_version s3 = co_version s + 1"
proof -
  have "co_version s1 = co_version s"
    using assms(1) by (cases rule: prepare_cases [where E = E and ss = ss and reason = "''startup''" and now = now and s = s]) auto
  then show ?thesis
    using assms(3) by (simp add: assms(4) poll_step_def note_version_def finish_facts [OF assms(2)] signal_refresh_def)
qed


section \<open>Witnesses\<close>

definition sample_adapter :: loaded_adapter where
  "sample_adapter = \<lparr>la_module_name = ''tg'', la_file_hash = ''h'', la_version = ''1'', la_import_error = None,
     la_factory = Some (\<lambda>session. Inr (Some \<lparr>ap_session = session, ap_family = Some ''telegram'', ap_source_types = [''telegram_channel'']\<rparr>))\<rparr>"

definition sample_refresh_env :: refresh_env where
  "sample_refresh_env = \<lparr>re_account_key = ''acc'', re_default_adapter = ''tg'',
     re_registry = (\<lambda>n. if n = ''tg'' then Some sample_adapter else None), re_dump = (\<lambda>d. []), re_text = sample_env, re_topology_up = True\<rparr>"

definition sample_source :: "string \<Rightarrow> string option \<Rightarrow> string option \<Rightarrow> source_config" where
  "sample_source i adapter account = \<lparr>so_source_id = i, so_name = i, so_type = TelegramChannel, so_identifier = ''@x'', so_enabled = True,
     so_adapter_name = adapter, so_source_profile = None, so_account_key = account, so_parser_key = None, so_parser_version = None,
     so_parser_config = [], so_parser_mode = Active\<rparr>"

definition sample_sources :: "source_config list" where
  "sample_sources = [sample_source ''s1'' None None, sample_source ''s2'' (Some ''gone'') None]"

definition empty_pool :: pool where
  "empty_pool = \<lparr>pl_accounts = [], pl_assignments = [], pl_audit = [], pl_notes = []\<rparr>"

lemma sample_prepare:
  "case fst (refresh_prepare sample_refresh_env sample_sources ''startup'' 0 (new_coordinator empty_pool)) of Inr (Reload fp) \<Rightarrow> True | _ \<Rightarrow> False"
  by code_simp


lemma sample_started: "fst (build_listeners sample_refresh_env (filter is_telegram sample_sources)) \<noteq> []"
  by code_simp

lemma sample_prepare_again:
  "case fst (refresh_prepare sample_refresh_env sample_sources ''poll'' 1
     (snd (refresh_prepare sample_refresh_env sample_sources ''startup'' 0 (new_coordinator empty_pool)))) of
     Inr (Reload fp) \<Rightarrow> True | _ \<Rightarrow> False"
  by code_simp

lemma sample_reloads:
  obtains fp s1 where "refresh_prepare sample_refresh_env sample_sources ''startup'' 0 (new_coordinator empty_pool) = (Inr (Reload fp), s1)"
  using sample_prepare
  by (cases "refresh_prepare sample_refresh_env sample_sources ''startup'' 0 (new_coordinator empty_pool)")
    (auto split: sum.splits refresh_progress.splits)

theorem one_supervisor_listens_witness:
  "let s = coordinator_run [RefreshNow sample_refresh_env sample_sources ''startup'' 0, SignalNow,
      PollNow sample_refresh_env [sample_source ''s3'' None None] 5] (new_coordinator empty_pool) in
    served_ids s = [''s3''] \<and> co_running s = (case co_supervisor s of None \<Rightarrow> [] | Some v \<Rightarrow> [v])"
proof -
  let ?acts = "[RefreshNow sample_refresh_env sample_sources ''startup'' 0, SignalNow,
      PollNow sample_refresh_env [sample_source ''s3'' None None] 5]"
  have "served_ids (coordinator_run ?acts (new_coordinator empty_pool)) = [''s3'']" by code_simp
  moreover have "list_all (\<lambda>a. sources_distinct (action_sources a)) ?acts"
    by (simp add: sources_distinct_def sample_sources_def sample_source_def)
  from one_supervisor_listens [OF this, of empty_pool] have
    "co_running (coordinator_run ?acts (new_coordinator empty_pool)) =
      (case co_supervisor (coordinator_run ?acts (new_coordinator empty_pool)) of None \<Rightarrow> [] | Some v \<Rightarrow> [v])"
    by (simp add: Let_def)
  ultimately show ?thesis by (simp add: Let_def)
qed

theorem refresh_serves_every_source_witness:
  "case refresh sample_refresh_env sample_sources ''startup'' 0 (new_coordinator empty_pool) of
     (Inr rep, s2) \<Rightarrow> mset (served_ids s2) + mset (failed_ids (co_last_groups s2)) = {#''s1'', ''s2''#}
   | (Inl e, s2) \<Rightarrow> False"
proof -
  obtain fp s1 where r: "refresh_prepare sample_refresh_env sample_sources ''startup'' 0 (new_coordinator empty_pool) = (Inr (Reload fp), s1)"
    by (rule sample_reloads)
  have "map so_source_id (filter is_telegram sample_sources) = [''s1'', ''s2'']" by code_simp
  then have m: "image_mset so_source_id (filter_mset is_telegram (mset sample_sources)) = {#''s1'', ''s2''#}"
    by (metis mset.simps mset_filter mset_map)
  show ?thesis
    using refresh_serves_every_source [OF new_coordinator_ok r] by (auto simp: m split: prod.splits sum.splits)
qed

theorem overlapping_refreshes_listen_twice_witness:
  "\<exists>gs s. gs \<noteq> [] \<and> served_ids s = group_ids gs @ group_ids gs \<and>
    (\<exists>v. sv_groups v = gs \<and> v \<in> set (co_running (close_coordinator s)))"
proof -
  obtain fp s1 where r: "refresh_prepare sample_refresh_env sample_sources ''startup'' 0 (new_coordinator empty_pool) = (Inr (Reload fp), s1)"
    by (rule sample_reloads)
  obtain f2 s2 where r2: "refresh_prepare sample_refresh_env sample_sources ''poll'' 1 s1 = (Inr (Reload f2), s2)"
    using sample_prepare_again unfolding r
    by (cases "refresh_prepare sample_refresh_env sample_sources ''poll'' 1 s1") (auto split: sum.splits refresh_progress.splits)
  obtain gs failures groups where b: "build_listeners sample_refresh_env (filter is_telegram sample_sources) = (gs, failures, groups)"
    by (rule prod_cases3)
  then have gs: "gs \<noteq> []" using sample_started by simp
  show ?thesis
    using overlapping_refreshes_listen_twice [OF new_coordinator_ok b gs r r2 refl refl] gs by blast
qed

theorem startup_signal_lost_witness:
  "\<exists>s gs. gs \<noteq> [] \<and> map sv_groups (co_running s) = [gs] \<and> co_version s = 1 \<and>
    poll_step sample_refresh_env [] 9 s = (Inr None, s)"
proof -
  obtain fp s1 where r: "refresh_prepare sample_refresh_env sample_sources ''startup'' 0 (new_coordinator empty_pool) = (Inr (Reload fp), s1)"
    by (rule sample_reloads)
  have "co_running s1 = [] \<and> co_version (new_coordinator empty_pool) = 0"
    using r by (cases rule: prepare_cases [where E = sample_refresh_env and ss = sample_sources and reason = "''startup''" and now = 0
          and s = "new_coordinator empty_pool"]) (auto simp: stop_supervisor_def new_coordinator_def)
  moreover obtain gs failures groups where b: "build_listeners sample_refresh_env (filter is_telegram sample_sources) = (gs, failures, groups)"
    by (rule prod_cases3)
  moreover from b have gs: "gs \<noteq> []" using sample_started by simp
  moreover obtain s where s: "s = note_version (snd (refresh_finish sample_refresh_env sample_sources ''startup'' 0 fp (snd (signal_refresh s1))))"
    by blast
  ultimately have "gs \<noteq> [] \<and> map sv_groups (co_running s) = [gs] \<and> co_version s = 1 \<and> poll_step sample_refresh_env [] 9 s = (Inr None, s)"
    using startup_signal_lost [OF r b gs s, of sample_refresh_env "[]" 9] by simp
  then show ?thesis by (intro exI)
qed

text \<open>No account of this pool can take a source.\<close>

definition banned_pool :: pool where
  "banned_pool = \<lparr>pl_accounts = [(''acc'', sample_account ''acc'' Banned)], pl_assignments = [], pl_audit = [], pl_notes = []\<rparr>"

theorem failed_poll_not_retried_witness:
  "\<exists>e s1. poll_step sample_refresh_env sample_sources 5 (new_coordinator banned_pool) = (Inl e, s1) \<and>
     poll_step sample_refresh_env sample_sources 6 s1 = (Inr None, s1)"
proof -
  have "isl (fst (poll_step sample_refresh_env sample_sources 5 (new_coordinator banned_pool)))" by code_simp
  then obtain e s1 where "poll_step sample_refresh_env sample_sources 5 (new_coordinator banned_pool) = (Inl e, s1)"
    by (metis isl_def prod.collapse)
  with failed_poll_not_retried [OF this] show ?thesis by blast
qed

text \<open>
  The assignments do not choose the session: with the account of a source banned, the source is assigned to the other
  account and still listened to with the session of the banned one.
\<close>

definition failover_pool :: pool where
  "failover_pool = banned_pool\<lparr>pl_accounts := [(''acc'', sample_account ''acc'' Banned), (''two'', sample_account ''two'' Online)]\<rparr>"

theorem banned_account_still_listens:
  "case refresh sample_refresh_env [sample_source ''s1'' None None] ''manual'' 0 (new_coordinator failover_pool) of (r, s) \<Rightarrow>
     map (\<lambda>a. (ca_source_id a, ca_account_key a)) (list_active_assignments (co_pool s)) = [(''s1'', ''two'')] \<and>
     map (\<lambda>v. map gr_session (sv_groups v)) (co_running s) = [[''acc'']]"
  by code_simp

end
