(* ===== verification/EF_Actors.thy ===== *)
theory EF_Actors
  imports EF_Prelude
begin

text \<open>
  Runs of a component that several users act on: each action has an actor and happens in an environment (clock, fresh
  identifiers, configuration). The contract of such a component is that an action changes the view of its actor
  only, and keeps the invariant.
\<close>

fun run_actions :: "('e \<Rightarrow> 'a \<Rightarrow> 's \<Rightarrow> 's) \<Rightarrow> ('e \<times> 'a) list \<Rightarrow> 's \<Rightarrow> 's" where
  "run_actions step [] s = s"
| "run_actions step ((e, a) # es) s = run_actions step es (step e a s)"

fun run_admissible :: "('e \<Rightarrow> 's \<Rightarrow> bool) \<Rightarrow> ('e \<Rightarrow> 'a \<Rightarrow> 's \<Rightarrow> 's) \<Rightarrow> ('e \<times> 'a) list \<Rightarrow> 's \<Rightarrow> bool" where
  "run_admissible adm step [] s \<longleftrightarrow> True"
| "run_admissible adm step ((e, a) # es) s \<longleftrightarrow> adm e s \<and> run_admissible adm step es (step e a s)"

lemma run_actions_append: "run_actions step (xs @ ys) s = run_actions step ys (run_actions step xs s)"
  by (induction xs arbitrary: s) auto

locale acting_users =
  fixes step :: "'e \<Rightarrow> 'a \<Rightarrow> 's \<Rightarrow> 's"
    and actor :: "'a \<Rightarrow> int"
    and view :: "int \<Rightarrow> 's \<Rightarrow> 'v"
    and adm :: "'e \<Rightarrow> 's \<Rightarrow> bool"
    and inv :: "'s \<Rightarrow> bool"
  assumes frame: "adm e s \<Longrightarrow> actor a \<noteq> v \<Longrightarrow> view v (step e a s) = view v s"
    and keeps: "inv s \<Longrightarrow> adm e s \<Longrightarrow> inv (step e a s)"
begin

lemma run_frame:
  "run_admissible adm step es s \<Longrightarrow> \<forall>(e, a) \<in> set es. actor a \<noteq> v \<Longrightarrow> view v (run_actions step es s) = view v s"
proof (induction es arbitrary: s)
  case (Cons x es)
  then show ?case by (cases x) (simp add: frame)
qed simp

lemma run_keeps: "inv s \<Longrightarrow> run_admissible adm step es s \<Longrightarrow> inv (run_actions step es s)"
proof (induction es arbitrary: s)
  case (Cons x es)
  then show ?case by (cases x) (simp add: keeps)
qed simp

end

end
