(* ===== verification/EF_Callback.thy ===== *)
theory EF_Callback
  imports EF_Text
begin

text \<open>
  Callback data of inline buttons (\<open>bot/callbacks.py\<close>) and the screens that carry them (\<open>bot/menu.py\<close>):
  \<open>v1:namespace:action:owner:issued:value\<close> with the owner and the issue time in base 36. The clock, in whole
  seconds, is an argument.
\<close>

section \<open>Base 36\<close>

definition digit36 :: "nat \<Rightarrow> char" where
  "digit36 n = (if n < 10 then char_of (48 + n) else char_of (87 + n))"

fun digits36 :: "nat \<Rightarrow> string" where
  "digits36 n = (if n = 0 then [] else digits36 (n div 36) @ [digit36 (n mod 36)])"

declare digits36.simps [simp del]

definition base36_encode :: "int \<Rightarrow> string res" where
  "base36_encode i =
     (if i < 0 then Inl (ValueError ''Cannot encode negative values.'')
      else if i = 0 then Inr ''0'' else Inr (digits36 (nat i)))"

text \<open>\<open>int(value, 36)\<close>: blanks around, one sign, upper or lower case letters, single underscores between digits.\<close>

definition value36 :: "char \<Rightarrow> nat option" where
  "value36 c = (if is_digit c then Some (code_of c - 48) else if is_lower c then Some (code_of c - 87)
     else if is_upper c then Some (code_of c - 55) else None)"

fun int36_body :: "nat \<Rightarrow> bool \<Rightarrow> string \<Rightarrow> nat option" where
  "int36_body acc d [] = (if d then Some acc else None)"
| "int36_body acc d (c # cs) =
     (case value36 c of
        Some v \<Rightarrow> int36_body (36 * acc + v) True cs
      | None \<Rightarrow> if c = CHR ''_'' \<and> d then int36_body acc False cs else None)"

definition base36_decode :: "string \<Rightarrow> int option" where
  "base36_decode s =
     (case strip s of
        [] \<Rightarrow> None
      | c # cs \<Rightarrow>
          if c = CHR ''-'' then map_option (\<lambda>n. - int n) (int36_body 0 False cs)
          else if c = CHR ''+'' then map_option int (int36_body 0 False cs)
          else map_option int (int36_body 0 False (c # cs)))"

section \<open>Payloads\<close>

definition CALLBACK_VERSION :: string where
  "CALLBACK_VERSION = ''v1''"

definition DEFAULT_CALLBACK_TTL_SECONDS :: int where
  "DEFAULT_CALLBACK_TTL_SECONDS = 24 * 60 * 60"

definition MENU_ACTIONS :: "string list" where
  "MENU_ACTIONS = [''search'', ''filters'', ''mini_app'', ''soon'', ''help'', ''back'', ''cancel'']"

definition NLP_ACTIONS :: "string list" where
  "NLP_ACTIONS = [''start'', ''confirm'', ''edit'', ''cancel'']"

definition WIZARD_ACTIONS :: "string list" where
  "WIZARD_ACTIONS = [''start'', ''skip'', ''back'', ''cancel'', ''basis_total'', ''basis_any'', ''renovation'',
     ''audience'', ''page'', ''reset'']"

definition FILTER_ACTIONS :: "string list" where
  "FILTER_ACTIONS = [''list'', ''view'', ''save'', ''run'', ''edit'', ''update'', ''enable'', ''disable'',
     ''delete_confirm'', ''delete'', ''cancel'']"

definition SOURCE_ACTIONS :: "string list" where
  "SOURCE_ACTIONS = [''start'', ''cancel'']"

definition REFERRAL_ACTIONS :: "string list" where
  "REFERRAL_ACTIONS = [''link'']"

record callback_payload =
  cb_namespace :: string
  cb_action :: string
  cb_owner_id :: int
  cb_value :: string
  cb_issued_at :: int

definition allowed_callback :: "string \<Rightarrow> string \<Rightarrow> bool" where
  "allowed_callback namespace action \<longleftrightarrow>
     namespace = ''menu'' \<and> action \<in> set MENU_ACTIONS \<or>
     namespace = ''nlp'' \<and> action \<in> set NLP_ACTIONS \<or>
     namespace = ''wizard'' \<and> action \<in> set WIZARD_ACTIONS \<or>
     namespace = ''filter'' \<and> action \<in> set FILTER_ACTIONS \<or>
     namespace = ''source'' \<and> action \<in> set SOURCE_ACTIONS \<or>
     namespace = ''referral'' \<and> action \<in> set REFERRAL_ACTIONS"

definition pack :: "int \<Rightarrow> callback_payload \<Rightarrow> string res" where
  "pack now p =
     res_bind (base36_encode (cb_owner_id p)) (\<lambda>owner.
     res_bind (base36_encode (if cb_issued_at p \<noteq> 0 then cb_issued_at p else now)) (\<lambda>issued.
       Inr (join '':'' [CALLBACK_VERSION, cb_namespace p, cb_action p, owner, issued, cb_value p])))"

definition unpack :: "int option \<Rightarrow> int \<Rightarrow> int \<Rightarrow> string \<Rightarrow> callback_payload res" where
  "unpack expected_owner now max_age data =
     (case split_n CHR '':'' 5 data of
        [version, namespace, action, owner, issued, val] \<Rightarrow>
          if version \<noteq> CALLBACK_VERSION then Inl (ValueError ''Unsupported callback payload.'')
          else (case (base36_decode owner, base36_decode issued) of
              (Some owner_id, Some issued_at) \<Rightarrow>
                if expected_owner \<noteq> None \<and> expected_owner \<noteq> Some owner_id
                then Inl (PermissionError ''Callback owner mismatch.'')
                else if \<not> allowed_callback namespace action then Inl (ValueError ''Unsupported callback action.'')
                else if issued_at > now + 60 \<or> now - issued_at > max_age
                then Inl (OtherError ''TimeoutError'' ''Callback payload expired.'')
                else Inr \<lparr>cb_namespace = namespace, cb_action = action, cb_owner_id = owner_id, cb_value = val,
                          cb_issued_at = issued_at\<rparr>
            | _ \<Rightarrow> Inl (ValueError ''Invalid callback payload.''))
      | _ \<Rightarrow> Inl (ValueError ''Unsupported callback payload.''))"

definition callback :: "int \<Rightarrow> string \<Rightarrow> string \<Rightarrow> int \<Rightarrow> string \<Rightarrow> string res" where
  "callback now namespace action owner_id val =
     pack now \<lparr>cb_namespace = namespace, cb_action = action, cb_owner_id = owner_id, cb_value = val, cb_issued_at = 0\<rparr>"

section \<open>Screens\<close>

record menu_button =
  mb_text :: string
  mb_callback_data :: string
  mb_enabled :: bool
  mb_web_app_url :: "string option"

record bot_screen =
  bs_text :: string
  bs_buttons :: "menu_button list"

text \<open>A button with its callback data; building the data may raise.\<close>

definition menu_button_of :: "int \<Rightarrow> string \<times> string \<times> string \<times> string \<Rightarrow> int \<Rightarrow> menu_button res" where
  "menu_button_of now b owner =
     (case b of (label, namespace, action, val) \<Rightarrow>
        res_bind (callback now namespace action owner val) (\<lambda>d.
          Inr \<lparr>mb_text = label, mb_callback_data = d, mb_enabled = True, mb_web_app_url = None\<rparr>))"

definition screen_of :: "int \<Rightarrow> string \<Rightarrow> (string \<times> string \<times> string \<times> string) list \<Rightarrow> int \<Rightarrow> bot_screen res" where
  "screen_of now txt bs owner =
     res_bind (res_all (map (\<lambda>b. menu_button_of now b owner) bs)) (\<lambda>buttons. Inr \<lparr>bs_text = txt, bs_buttons = buttons\<rparr>)"


definition main_menu :: "int \<Rightarrow> string option \<Rightarrow> int \<Rightarrow> bot_screen res" where
  "main_menu now mini_app_url user =
     res_bind (callback now ''menu'' ''mini_app'' user []) (\<lambda>open_app.
     res_bind (callback now ''menu'' ''mini_app'' user ''notifications'') (\<lambda>inbox.
     res_bind (callback now ''referral'' ''link'' user []) (\<lambda>link.
     res_bind (callback now ''source'' ''start'' user []) (\<lambda>suggest.
     res_bind (callback now ''menu'' ''help'' user []) (\<lambda>help.
       Inr \<lparr>bs_text = ''EstateFlow. E'' @ [CHR 0x27] @ ''lonlarni Mini App orqali qulay ko'' @ [CHR 0x27] @ ''ring.'',
            bs_buttons =
              [\<lparr>mb_text = ''Mini App'' @ [CHR 0x27] @ ''ni ochish'', mb_callback_data = open_app,
                 mb_enabled = (mini_app_url \<noteq> None), mb_web_app_url = mini_app_url\<rparr>,
               \<lparr>mb_text = ''Bildirishnomalar'', mb_callback_data = inbox,
                 mb_enabled = (mini_app_url \<noteq> None), mb_web_app_url = mini_app_url\<rparr>,
               \<lparr>mb_text = ''Do'' @ [CHR 0x27] @ ''stlarni taklif qilish'', mb_callback_data = link,
                 mb_enabled = True, mb_web_app_url = None\<rparr>,
               \<lparr>mb_text = ''Kanal taklif qilish'', mb_callback_data = suggest, mb_enabled = True, mb_web_app_url = None\<rparr>,
               \<lparr>mb_text = ''Yordam'', mb_callback_data = help, mb_enabled = True, mb_web_app_url = None\<rparr>]\<rparr>)))))"

definition coming_soon_screen :: bot_screen where
  "coming_soon_screen = \<lparr>bs_text = ''Bu bo'' @ [CHR 0x27] @ ''lim tez orada ishga tushadi.'', bs_buttons = []\<rparr>"

definition mini_app_screen :: "int \<Rightarrow> string option \<Rightarrow> int \<Rightarrow> bot_screen res" where
  "mini_app_screen now mini_app_url user =
     res_bind (callback now ''menu'' ''mini_app'' user []) (\<lambda>d.
       Inr \<lparr>bs_text = ''Qidiruv va e'' @ [CHR 0x27] @ ''lonlar Mini App ichida ishlaydi.'',
            bs_buttons = [\<lparr>mb_text = ''Mini App'' @ [CHR 0x27] @ ''ni ochish'', mb_callback_data = d,
              mb_enabled = (mini_app_url \<noteq> None), mb_web_app_url = mini_app_url\<rparr>]\<rparr>)"

definition help_screen :: bot_screen where
  "help_screen =
     \<lparr>bs_text = ''Qidiruv va saqlangan filterlar Mini App ichida ishlaydi. canonical e'' @ [CHR 0x27] @
        ''lonlar va bildirishnomalar shu tizimda ko'' @ [CHR 0x27] @ ''rsatiladi.'', bs_buttons = []\<rparr>"

definition search_empty_state :: "int \<Rightarrow> int \<Rightarrow> bot_screen res" where
  "search_empty_state now user =
     screen_of now ''Qidiruv Mini App ichida ochiladi.'' [(''Ortga'', ''menu'', ''back'', [])] user"

definition saved_filters_empty_state :: "int \<Rightarrow> int \<Rightarrow> bot_screen res" where
  "saved_filters_empty_state now user =
     screen_of now (''Hali saqlangan filtr yo'' @ [CHR 0x27] @ ''q.'') [(''Ortga'', ''menu'', ''back'', [])] user"

section \<open>Reading back a number\<close>

lemma value36_digit36 [simp]: "n < 36 \<Longrightarrow> value36 (digit36 n) = Some n"
  by (auto simp: value36_def digit36_def is_digit_def is_lower_def is_upper_def code_of_char_of)

lemma int36_body_snoc:
  "(\<forall>c \<in> set s. value36 c \<noteq> None) \<Longrightarrow> s \<noteq> [] \<or> d \<Longrightarrow> n < 36 \<Longrightarrow>
   int36_body acc d (s @ [digit36 n]) = map_option (\<lambda>m. 36 * m + n) (int36_body acc d s)"
  by (induction s arbitrary: acc d) auto

lemma digits36_value: "\<forall>c \<in> set (digits36 n). value36 c \<noteq> None"
proof (induction n rule: digits36.induct)
  case (1 n)
  then show ?case by (cases "n = 0") (auto simp: digits36.simps [of n] digits36.simps [of 0])
qed

lemma int36_body_digits36: "0 < n \<Longrightarrow> int36_body 0 False (digits36 n) = Some n"
proof (induction n rule: digits36.induct)
  case (1 n)
  show ?case
  proof (cases "n div 36 = 0")
    case True
    then show ?thesis using 1(2) by (simp add: digits36.simps [of n] digits36.simps [of 0] div_eq_0_iff)
  next
    case False
    then have ne: "digits36 (n div 36) \<noteq> []" by (simp add: digits36.simps [of "n div 36"])
    have "int36_body 0 False (digits36 (n div 36) @ [digit36 (n mod 36)]) =
        map_option (\<lambda>m. 36 * m + n mod 36) (int36_body 0 False (digits36 (n div 36)))"
      using digits36_value ne by (intro int36_body_snoc) auto
    with 1 False show ?thesis by (simp add: digits36.simps [of n])
  qed
qed

lemma value36_plain: "value36 c \<noteq> None \<Longrightarrow> \<not> is_space c \<and> c \<noteq> CHR ''-'' \<and> c \<noteq> CHR ''+'' \<and> c \<noteq> CHR '':''"
  by (auto simp: value36_def is_digit_def is_lower_def is_upper_def is_space_def code_of_def split: if_splits)

lemma base36_encode_Inr:
  assumes "base36_encode i = Inr s"
  shows "0 \<le> i \<and> s \<noteq> [] \<and> (\<forall>c \<in> set s. value36 c \<noteq> None) \<and> int36_body 0 False s = Some (nat i)"
proof (cases "i = 0")
  case True
  with assms have "s = ''0''" by (simp add: base36_encode_def)
  with True show ?thesis by (simp add: value36_def is_digit_def code_of_def)
next
  case False
  with assms have "0 < nat i" "s = digits36 (nat i)" by (auto simp: base36_encode_def split: if_splits)
  then show ?thesis using int36_body_digits36 [of "nat i"] digits36_value [of "nat i"]
    by (auto simp: digits36.simps [of "nat i"])
qed

lemma base36_round_trip: "base36_encode i = Inr s \<Longrightarrow> base36_decode s = Some i"
proof -
  assume enc: "base36_encode i = Inr s"
  note s = base36_encode_Inr [OF enc]
  then have "strip s = s" using value36_plain by (intro strip_spaceless) blast
  moreover obtain c cs where "s = c # cs" using s by (cases s) auto
  moreover have "c \<noteq> CHR ''-''" "c \<noteq> CHR ''+''" if "s = c # cs" for c cs
    using s that value36_plain [of c] by auto
  ultimately show ?thesis using s by (simp add: base36_decode_def del: int36_body.simps)
qed

lemma base36_encode_total: "0 \<le> i \<Longrightarrow> \<exists>s. base36_encode i = Inr s"
  by (simp add: base36_encode_def)


lemma length_digits36_le: "n < 36 ^ k \<Longrightarrow> length (digits36 n) \<le> k"
proof (induction n arbitrary: k rule: digits36.induct)
  case (1 n)
  show ?case
  proof (cases "n = 0")
    case True
    then show ?thesis by (simp add: digits36.simps [of 0])
  next
    case False
    with "1.prems" obtain j where k: "k = Suc j" by (cases k) auto
    have "n div 36 < 36 ^ j" using "1.prems" by (simp add: k less_mult_imp_div_less mult.commute)
    with "1.IH" [OF False] have "length (digits36 (n div 36)) \<le> j" by blast
    with False show ?thesis by (simp add: k digits36.simps [of n])
  qed
qed

lemma length_digits36_ge: "36 ^ k \<le> n \<Longrightarrow> k < length (digits36 n)"
proof (induction k arbitrary: n)
  case 0
  then show ?case by (simp add: digits36.simps [of n])
next
  case (Suc k)
  then have "36 ^ k \<le> n div 36" by (simp add: less_eq_div_iff_mult_less_eq mult.commute)
  with Suc.IH have "k < length (digits36 (n div 36))" by blast
  moreover have "n \<noteq> 0" using Suc.prems zero_less_power [of "36 :: nat" "Suc k"] by linarith
  ultimately show ?case by (simp add: digits36.simps [of n])
qed

lemma length_base36_le:
  assumes "base36_encode i = Inr s" and "i < 36 ^ k" and "0 < k"
  shows "length s \<le> k"
proof -
  have "nat i < 36 ^ k" using assms(2) by (simp add: nat_less_iff)
  then have "length (digits36 (nat i)) \<le> k" by (rule length_digits36_le)
  with assms show ?thesis by (auto simp: base36_encode_def split: if_splits)
qed

lemma length_base36_ge:
  assumes "base36_encode i = Inr s" and "36 ^ k \<le> i"
  shows "k < length s"
proof -
  have "36 ^ k \<le> nat i" using assms(2) by (simp add: le_nat_iff)
  then have "k < length (digits36 (nat i))" by (rule length_digits36_ge)
  moreover have "i \<noteq> 0" using assms(2) zero_less_power [of "36 :: int" k] by linarith
  ultimately show ?thesis using assms by (auto simp: base36_encode_def split: if_splits)
qed

section \<open>Packing and unpacking\<close>

lemma allowed_plain: "allowed_callback namespace action \<Longrightarrow> CHR '':'' \<notin> set namespace \<and> CHR '':'' \<notin> set action"
  by (auto simp: allowed_callback_def MENU_ACTIONS_def NLP_ACTIONS_def WIZARD_ACTIONS_def FILTER_ACTIONS_def
      SOURCE_ACTIONS_def REFERRAL_ACTIONS_def)

lemma split_packed:
  assumes "CHR '':'' \<notin> set a" "CHR '':'' \<notin> set b" "CHR '':'' \<notin> set c" "CHR '':'' \<notin> set d" "CHR '':'' \<notin> set e"
  shows "split_n CHR '':'' 5 (join '':'' [a, b, c, d, e, f]) = [a, b, c, d, e, f]"
proof -
  have five: "(5 :: nat) = Suc (Suc (Suc (Suc (Suc 0))))" by simp
  show ?thesis using assms by (simp add: five split_n_append split_n_0)
qed

lemma pack_Inr:
  assumes "pack now p = Inr data"
  obtains owner issued where "base36_encode (cb_owner_id p) = Inr owner"
    "base36_encode (if cb_issued_at p \<noteq> 0 then cb_issued_at p else now) = Inr issued"
    "data = join '':'' [CALLBACK_VERSION, cb_namespace p, cb_action p, owner, issued, cb_value p]"
  using assms that by (auto simp: pack_def elim!: res_bind_InrE split del: if_split)

lemma unpack_pack:
  assumes "pack now p = Inr data" and "allowed_callback (cb_namespace p) (cb_action p)"
  shows "unpack expected at_time max_age data =
    (let issued = (if cb_issued_at p \<noteq> 0 then cb_issued_at p else now) in
     if expected \<noteq> None \<and> expected \<noteq> Some (cb_owner_id p) then Inl (PermissionError ''Callback owner mismatch.'')
     else if issued > at_time + 60 \<or> at_time - issued > max_age
     then Inl (OtherError ''TimeoutError'' ''Callback payload expired.'')
     else Inr (p\<lparr>cb_issued_at := issued\<rparr>))"
proof -
  obtain owner issued where enc: "base36_encode (cb_owner_id p) = Inr owner"
    "base36_encode (if cb_issued_at p \<noteq> 0 then cb_issued_at p else now) = Inr issued"
    and data: "data = join '':'' [CALLBACK_VERSION, cb_namespace p, cb_action p, owner, issued, cb_value p]"
    using assms(1) by (rule pack_Inr)
  have "CHR '':'' \<notin> set owner" "CHR '':'' \<notin> set issued"
    using base36_encode_Inr [OF enc(1)] base36_encode_Inr [OF enc(2)] value36_plain by blast+
  then have "split_n CHR '':'' 5 data = [CALLBACK_VERSION, cb_namespace p, cb_action p, owner, issued, cb_value p]"
    unfolding data using allowed_plain [OF assms(2)]
    by (intro split_packed) (auto simp: CALLBACK_VERSION_def)
  with assms(2) base36_round_trip [OF enc(1)] base36_round_trip [OF enc(2)] show ?thesis
    by (simp add: unpack_def Let_def)
qed


text \<open>
  A button's data, packed for a user at one time and read at another, gives the button back, its value
  (colons included) and its action unchanged; only for its owner, and only within the day and no more than a
  minute before it was issued.
\<close>

theorem callback_round_trip:
  assumes "pack now p = Inr data" and "allowed_callback (cb_namespace p) (cb_action p)" and "cb_issued_at p = 0"
  shows "unpack (Some user) later DEFAULT_CALLBACK_TTL_SECONDS data = Inr q \<longleftrightarrow>
    user = cb_owner_id p \<and> now - 60 \<le> later \<and> later \<le> now + 86400 \<and> q = p\<lparr>cb_issued_at := now\<rparr>"
  using assms by (auto simp: unpack_pack Let_def DEFAULT_CALLBACK_TTL_SECONDS_def)

theorem callback_round_trip_witness:
  "\<exists>data. callback 1700000000 ''filter'' ''view'' 777 ''a:b:c'' = Inr data \<and>
     unpack (Some 777) 1700086400 DEFAULT_CALLBACK_TTL_SECONDS data =
       Inr \<lparr>cb_namespace = ''filter'', cb_action = ''view'', cb_owner_id = 777, cb_value = ''a:b:c'',
            cb_issued_at = 1700000000\<rparr>"
proof -
  let ?p = "\<lparr>cb_namespace = ''filter'', cb_action = ''view'', cb_owner_id = 777, cb_value = ''a:b:c'', cb_issued_at = 0\<rparr>"
  obtain data where data: "pack 1700000000 ?p = Inr data" by (simp add: pack_def base36_encode_def)
  have "allowed_callback (cb_namespace ?p) (cb_action ?p)" "cb_issued_at ?p = 0"
    by (simp_all add: allowed_callback_def FILTER_ACTIONS_def)
  from callback_round_trip [OF data this, of 777 1700086400 "?p\<lparr>cb_issued_at := 1700000000\<rparr>"]
  have "unpack (Some 777) 1700086400 DEFAULT_CALLBACK_TTL_SECONDS data = Inr (?p\<lparr>cb_issued_at := 1700000000\<rparr>)"
    by simp
  with data show ?thesis by (simp add: callback_def)
qed

text \<open>
  What a decoded payload guarantees, whatever the text was: the expected owner, an action of a known
  namespace, an issue time in the window.
\<close>

lemma unpack_sound:
  assumes "unpack expected now max_age data = Inr p"
  shows "(expected = None \<or> expected = Some (cb_owner_id p)) \<and> allowed_callback (cb_namespace p) (cb_action p) \<and>
    cb_issued_at p \<le> now + 60 \<and> now - cb_issued_at p \<le> max_age"
  using assms by (auto simp: unpack_def split: list.splits option.splits if_splits)

section \<open>Sizes\<close>

definition TELEGRAM_CALLBACK_LIMIT :: nat where
  "TELEGRAM_CALLBACK_LIMIT = 64"

lemma callback_length_le:
  assumes "callback now namespace action owner val = Inr data"
    and "owner < 36 ^ 11" and "now < 36 ^ 7"
  shows "length data \<le> 25 + length namespace + length action + length val"
proof -
  obtain o' i' where enc: "base36_encode owner = Inr o'" "base36_encode now = Inr i'"
    and data: "data = join '':'' [CALLBACK_VERSION, namespace, action, o', i', val]"
    using assms(1) by (auto simp: callback_def elim!: pack_Inr)
  have "length o' \<le> 11" "length i' \<le> 7"
    using length_base36_le [OF enc(1) assms(2)] length_base36_le [OF enc(2) assms(3)] by simp_all
  then show ?thesis by (simp add: data CALLBACK_VERSION_def)
qed

lemma callback_length_ge:
  assumes "callback now namespace action owner val = Inr data"
    and "36 ^ 5 \<le> owner" and "36 ^ 5 \<le> now"
  shows "19 + length namespace + length action + length val \<le> length data"
proof -
  obtain o' i' where enc: "base36_encode owner = Inr o'" "base36_encode now = Inr i'"
    and data: "data = join '':'' [CALLBACK_VERSION, namespace, action, o', i', val]"
    using assms(1) by (auto simp: callback_def elim!: pack_Inr)
  have "5 < length o'" "5 < length i'"
    using length_base36_ge [OF enc(1) assms(2)] length_base36_ge [OF enc(2) assms(3)] by simp_all
  then show ?thesis by (simp add: data CALLBACK_VERSION_def)
qed

end
