(* ===== verification/EF_Wizard.thy ===== *)
theory EF_Wizard
  imports EF_Callback EF_Search
begin

text \<open>
  The step-by-step search of the bot (\<open>bot/search_wizard.py\<close>) over the in-memory announcement repository, with
  the result page of \<open>bot/rendering.py\<close>. The activation recorder, which may raise, the format of a decimal and
  the clock of the callback data are arguments; the accepted analytics events are kept as a list.
\<close>

section \<open>State\<close>

datatype wizard_step = DistrictStep | RoomsStep | BudgetStep | BasisStep | RenovationStep | AudienceStep | DoneStep

definition wizard_order :: "wizard_step list" where
  "wizard_order = [DistrictStep, RoomsStep, BudgetStep, BasisStep, RenovationStep, AudienceStep, DoneStep]"

definition order_index :: "wizard_step \<Rightarrow> nat" where
  "order_index s = length (takeWhile (\<lambda>x. x \<noteq> s) wizard_order)"

definition next_step :: "wizard_step \<Rightarrow> wizard_step" where
  "next_step s = wizard_order ! min (order_index s + 1) (length wizard_order - 1)"

definition previous_step :: "wizard_step \<Rightarrow> wizard_step" where
  "previous_step s = wizard_order ! (order_index s - 1)"

definition KNOWN_DISTRICTS :: "(string, string) dict" where
  "KNOWN_DISTRICTS =
     [(''yunusobod'', ''Yunusobod''), (''yunusabad'', ''Yunusobod''), (''chilonzor'', ''Chilonzor''),
      (''chilanazar'', ''Chilonzor''), (''sergeli'', ''Sergeli''), (''mirzo ulugbek'', ''Mirzo Ulugbek''),
      (''mirzo ulug'' @ [CHR 0x27] @ ''bek'', ''Mirzo Ulugbek''), (''yakkasaroy'', ''Yakkasaroy''),
      (''shayxontohur'', ''Shayxontohur''), (''olmazor'', ''Olmazor''), (''uchtepa'', ''Uchtepa''),
      (''mirobod'', ''Mirobod''), (''yashnobod'', ''Yashnobod''), (''bektemir'', ''Bektemir'')]"

definition RENOVATION_LEVELS :: "renovation_level list" where
  "RENOVATION_LEVELS = [NoRenovation, BasicRenovation, GoodRenovation, EuroRenovation, LuxuryRenovation]"

definition PAGE_SIZE :: int where
  "PAGE_SIZE = 3"

record wizard_state =
  sw_owner_id :: int
  sw_step :: wizard_step
  sw_district :: "string option"
  sw_districts :: "string list"
  sw_rooms :: "int option"
  sw_max_price :: "rat option"
  sw_include_per_person :: bool
  sw_renovation_level :: "renovation_level option"
  sw_audience_tag :: "string option"

definition fresh_state :: "int \<Rightarrow> wizard_state" where
  "fresh_state user = \<lparr>sw_owner_id = user, sw_step = DistrictStep, sw_district = None, sw_districts = [],
     sw_rooms = None, sw_max_price = None, sw_include_per_person = False, sw_renovation_level = None,
     sw_audience_tag = None\<rparr>"

definition state_criteria :: "wizard_state \<Rightarrow> int \<Rightarrow> search_criteria res" where
  "state_criteria st offset =
     validate_criteria \<lparr>sc_min_price = None, sc_max_price = sw_max_price st,
       sc_include_per_person = sw_include_per_person st, sc_district = sw_district st,
       sc_districts = sw_districts st, sc_rooms = sw_rooms st, sc_renovation_level = sw_renovation_level st,
       sc_audience_tag = sw_audience_tag st, sc_sort = Newest, sc_limit = PAGE_SIZE, sc_offset = offset\<rparr>"

record search_wizard =
  wz_states :: "(int, wizard_state) dict"
  wz_activations :: "(int \<times> search_criteria) list"
  wz_events :: "(int \<times> search_criteria \<times> nat) list"

record wizard_env =
  we_activate :: "(int \<Rightarrow> search_criteria \<Rightarrow> unit res) option"
  we_repository :: "announcement list"
  we_decimal :: "rat \<Rightarrow> string"
  we_now :: int

section \<open>Reading the answers\<close>

text \<open>
  The separators of \<open>normalize_districts\<close>: \<open>va\<close>, \<open>yoki\<close> or \<open>or\<close> between blanks, or a run of \<open>,;/\<close>. The result
  is the text after a separator that starts here.
\<close>

definition separator_here :: "string \<Rightarrow> string option" where
  "separator_here s =
     (if s \<noteq> [] \<and> is_space (hd s)
      then (let r = dropWhile is_space s in
        case find_first (\<lambda>w. starts_with (lower r) w \<and> drop (length w) r \<noteq> [] \<and> is_space (drop (length w) r ! 0))
               [''va'', ''yoki'', ''or''] of
          None \<Rightarrow> None
        | Some w \<Rightarrow> Some (dropWhile is_space (drop (length w) r)))
      else if s \<noteq> [] \<and> hd s \<in> set '',;/'' then Some (dropWhile (\<lambda>c. c \<in> set '',;/'') s)
      else None)"

lemma separator_here_shorter: "separator_here s = Some r \<Longrightarrow> length r < length s"
proof -
  assume sep: "separator_here s = Some r"
  then obtain c cs where s: "s = c # cs" by (cases s) (auto simp: separator_here_def)
  have shorter: "length (dropWhile P (drop k (dropWhile Q cs))) \<le> length cs" for P Q k
    by (rule order_trans [OF length_dropWhile_le]) (simp add: length_dropWhile_le le_diff_conv trans_le_add1)
  have shorter1: "length (dropWhile P cs) \<le> length cs" for P by (rule length_dropWhile_le)
  show ?thesis
    using sep shorter shorter1 by (auto simp: s separator_here_def Let_def less_Suc_eq_le split: if_splits option.splits)
qed

function split_districts :: "string \<Rightarrow> string \<Rightarrow> string list" where
  "split_districts acc [] = [acc]"
| "split_districts acc (c # cs) =
     (case separator_here (c # cs) of
        Some r \<Rightarrow> acc # split_districts [] r
      | None \<Rightarrow> split_districts (acc @ [c]) cs)"
  by pat_completeness auto

termination by (relation "measure (length \<circ> snd)") (auto dest: separator_here_shorter)

definition wizard_district :: "string \<Rightarrow> string res" where
  "wizard_district v =
     (case dict_get KNOWN_DISTRICTS (collapse (lower (strip v))) of
        None \<Rightarrow> Inl (ValueError ''Unknown district.'') | Some d \<Rightarrow> Inr d)"

fun collect_districts :: "string list \<Rightarrow> string list \<Rightarrow> string list res" where
  "collect_districts acc [] = Inr acc"
| "collect_districts acc (p # ps) =
     res_bind (wizard_district p) (\<lambda>d.
       collect_districts (if lower d \<in> set (map lower acc) then acc else acc @ [d]) ps)"

definition parse_districts :: "string \<Rightarrow> string list res" where
  "parse_districts v =
     res_bind (collect_districts [] (split_districts [] (strip v))) (\<lambda>ds.
       if ds = [] then Inl (ValueError ''At least one district is required.'') else Inr ds)"

text \<open>\<open>Decimal(s)\<close> for a text of digits and points.\<close>

definition digits_value :: "string \<Rightarrow> nat" where
  "digits_value s = fold (\<lambda>c n. 10 * n + digit_val c) s 0"

definition plain_decimal :: "string \<Rightarrow> rat option" where
  "plain_decimal s =
     (let whole = takeWhile is_digit s; rest = dropWhile is_digit s in
      if rest = [] then (if whole = [] then None else Some (of_nat (digits_value whole)))
      else let frac = tl rest in
        if hd rest = CHR ''.'' \<and> (\<forall>c \<in> set frac. is_digit c) \<and> whole @ frac \<noteq> []
        then Some (of_nat (digits_value (whole @ frac)) / 10 ^ length frac) else None)"

definition parse_price :: "string \<Rightarrow> rat res" where
  "parse_price v =
     (let compact = filter (\<lambda>c. \<not> is_space c) (lower v);
          normalized = map (\<lambda>c. if c = CHR '','' then CHR ''.'' else c)
            (filter (\<lambda>c. is_digit c \<or> c = CHR ''.'' \<or> c = CHR '','') compact)
      in if normalized = [] then Inl (ValueError ''Price is required.'')
         else (case plain_decimal normalized of
             None \<Rightarrow> Inl (ValueError ''Invalid price format.'')
           | Some price \<Rightarrow>
               if price < 0 \<or> price > 100000000000 then Inl (ValueError ''Price is outside allowed range.'')
               else Inr price))"

definition validate_rooms :: "int \<Rightarrow> int res" where
  "validate_rooms n = (if n < 0 \<or> n > 20 then Inl (ValueError ''Rooms value is outside allowed range.'') else Inr n)"

definition validate_rooms_text :: "string \<Rightarrow> int res" where
  "validate_rooms_text v =
     (let found = takeWhile is_digit (dropWhile (\<lambda>c. \<not> is_digit c) v)
      in if found = [] then Inl (ValueError ''Rooms value is required.'')
         else validate_rooms (int (digits_value found)))"

definition validate_renovation :: "string \<Rightarrow> renovation_level res" where
  "validate_renovation v =
     (case find_first (\<lambda>l. level_text l = v) RENOVATION_LEVELS of
        None \<Rightarrow> Inl (ValueError ''Unknown renovation level.'') | Some l \<Rightarrow> Inr l)"

definition validate_audience :: "string \<Rightarrow> string res" where
  "validate_audience v =
     (let tag = lower (strip v)
      in if tag \<notin> set (dict_keys SEED_AUDIENCE_TAGS) then Inl (ValueError ''Unknown audience tag.'') else Inr tag)"

definition validate_offset :: "string \<Rightarrow> int res" where
  "validate_offset v =
     (case py_int v of
        None \<Rightarrow> Inl (ValueError ''invalid literal for int()'')
      | Some n \<Rightarrow> if n < 0 \<or> n > 10000 then Inl (ValueError ''Invalid page offset.'') else Inr n)"


section \<open>Screens\<close>

definition control_buttons :: "(string \<times> string \<times> string \<times> string) list" where
  "control_buttons =
     [(''Skip'', ''wizard'', ''skip'', []), (''Ortga'', ''wizard'', ''back'', []),
      (''Bekor qilish'', ''wizard'', ''cancel'', [])]"

fun prompt_parts :: "wizard_step \<Rightarrow> string \<times> (string \<times> string \<times> string \<times> string) list" where
  "prompt_parts DistrictStep =
     (''Tumanni yoki tumanlarni yozing. Masalan: Yunusobod yoki Chilonzor'', control_buttons)"
| "prompt_parts RoomsStep = (''Xonalar sonini yozing. Masalan: 2'', control_buttons)"
| "prompt_parts BudgetStep = (''Oylik maksimal byudjetni yozing. Masalan: 500$'', control_buttons)"
| "prompt_parts BasisStep =
     (''Narx turi:'', [(''Faqat umumiy'', ''wizard'', ''basis_total'', []),
        (''Kishiga narx ham'', ''wizard'', ''basis_any'', [])] @ control_buttons)"
| "prompt_parts RenovationStep =
     (''Remont darajasini tanlang.'',
      map (\<lambda>l. (level_text l, ''wizard'', ''renovation'', level_text l)) RENOVATION_LEVELS @
      [(''Skip'', ''wizard'', ''renovation'', ''skip'')] @ control_buttons)"
| "prompt_parts AudienceStep =
     (''Auditoriya tegini tanlang.'',
      map (\<lambda>t. (t, ''wizard'', ''audience'', t)) (py_sort (\<lambda>t. t) (dict_keys SEED_AUDIENCE_TAGS)) @
      [(''Skip'', ''wizard'', ''audience'', ''skip'')] @ control_buttons)"
| "prompt_parts DoneStep = (''Qidiruv tayyor.'', [])"

definition prompt :: "int \<Rightarrow> wizard_state \<Rightarrow> bot_screen res" where
  "prompt now st = (case prompt_parts (sw_step st) of (txt, bs) \<Rightarrow> screen_of now txt bs (sw_owner_id st))"

definition UNKNOWN_TEXT :: string where
  "UNKNOWN_TEXT = ''Noma'' @ [CHR 0x27] @ ''lum''"

definition unknown_text :: "string option \<Rightarrow> string" where
  "unknown_text v = (case v of None \<Rightarrow> UNKNOWN_TEXT | Some t \<Rightarrow> if t = [] then UNKNOWN_TEXT else t)"

definition render_price :: "(rat \<Rightarrow> string) \<Rightarrow> rat option \<Rightarrow> string option \<Rightarrow> price_basis \<Rightarrow> string" where
  "render_price dec price currency basis =
     (case price of
        None \<Rightarrow> UNKNOWN_TEXT
      | Some p \<Rightarrow> strip (dec p @ '' '' @ (case currency of None \<Rightarrow> [] | Some c \<Rightarrow> c) @
          (if basis = PerPerson then ''/kishiga'' else ''/oy'')))"

definition render_announcement_card :: "(rat \<Rightarrow> string) \<Rightarrow> announcement \<Rightarrow> string" where
  "render_announcement_card dec a =
     (let c = an_canonical a;
          description = collapse (cl_description c);
          rows =
            [''Narx: '' @ render_price dec (cl_price_normalized_monthly c) (cl_currency c) (cl_price_basis c),
             ''Davr/asos: '' @ period_text (cl_price_period c) @ ''/'' @ basis_text (cl_price_basis c),
             ''Tuman: '' @ unknown_text (cl_district c),
             ''Xona: '' @ (case cl_rooms c of None \<Rightarrow> UNKNOWN_TEXT | Some r \<Rightarrow> str_int r),
             ''Remont: '' @ unknown_text (map_option level_text (cl_renovation_level c)),
             ''Manbalar: '' @ str_int (an_source_count a),
             ''Rasm: '' @ (if an_media a \<noteq> [] then ''bor'' else ''yoq'')] @
            (case an_source_url a of None \<Rightarrow> [] | Some u \<Rightarrow> if u = [] then [] else [''Link: '' @ u]) @
            (if description = [] then [] else [take 280 description])
      in take 900 (join [CHR 0x0A] rows))"

definition render_search_page :: "(rat \<Rightarrow> string) \<Rightarrow> announcement list \<Rightarrow> string" where
  "render_search_page dec items =
     (if items = [] then ''Mos e'' @ [CHR 0x27] @ ''lon topilmadi. Filtrlarni o'' @ [CHR 0x27] @ ''zgartiring yoki reset qiling.''
      else take 3900 (join ([CHR 0x0A, CHR 0x0A] @ ''---'' @ [CHR 0x0A, CHR 0x0A])
             (map (render_announcement_card dec) items)))"

definition page_buttons :: "search_metadata \<Rightarrow> (string \<times> string \<times> string \<times> string) list" where
  "page_buttons m =
     (if md_offset m > 0
      then [(''Oldingi'', ''wizard'', ''page'', str_int (max 0 (md_offset m - md_limit m)))] else []) @
     (if md_offset m + int (md_returned m) < int (md_total m)
      then [(''Keyingi'', ''wizard'', ''page'', str_int (md_offset m + md_limit m))] else []) @
     [(''Filtrni saqlash'', ''filter'', ''save'', []), (''Filtrni yangilash'', ''filter'', ''update'', []),
      (''Filtrlarni reset'', ''wizard'', ''reset'', []), (''Bekor qilish'', ''wizard'', ''cancel'', [])]"

definition result_screen :: "wizard_env \<Rightarrow> int \<Rightarrow> announcement list \<times> search_metadata \<Rightarrow> bot_screen res" where
  "result_screen E user r =
     screen_of (we_now E) (render_search_page (we_decimal E) (fst r)) (page_buttons (snd r)) user"

section \<open>Operations\<close>

definition require_state :: "int \<Rightarrow> search_wizard \<Rightarrow> wizard_state res" where
  "require_state user wz =
     (case dict_get (wz_states wz) user of
        None \<Rightarrow> Inl (ValueError ''Search wizard state not found.'')
      | Some st \<Rightarrow> if sw_owner_id st \<noteq> user then Inl (PermissionError ''Search wizard owner mismatch.'') else Inr st)"

definition expect_step :: "int \<Rightarrow> wizard_step \<Rightarrow> search_wizard \<Rightarrow> wizard_state res" where
  "expect_step user step wz =
     res_bind (require_state user wz) (\<lambda>st.
       if sw_step st \<noteq> step then Inl (ValueError ''Unexpected wizard step.'') else Inr st)"

definition put_state :: "int \<Rightarrow> wizard_state \<Rightarrow> search_wizard \<Rightarrow> search_wizard" where
  "put_state user st wz = wz\<lparr>wz_states := dict_put user st (wz_states wz)\<rparr>"

definition drop_state :: "int \<Rightarrow> search_wizard \<Rightarrow> search_wizard" where
  "drop_state user wz = wz\<lparr>wz_states := dict_pop user (wz_states wz)\<rparr>"

definition wizard_start :: "wizard_env \<Rightarrow> int \<Rightarrow> search_wizard \<Rightarrow> bot_screen res \<times> search_wizard" where
  "wizard_start E user wz = (prompt (we_now E) (fresh_state user), put_state user (fresh_state user) wz)"

definition wizard_cancel :: "int \<Rightarrow> search_wizard \<Rightarrow> bot_screen res \<times> search_wizard" where
  "wizard_cancel user wz = (Inr \<lparr>bs_text = ''Qidiruv bekor qilindi.'', bs_buttons = []\<rparr>, drop_state user wz)"

text \<open>The state is stored before the prompt is built.\<close>

definition store_and_prompt ::
  "wizard_env \<Rightarrow> int \<Rightarrow> wizard_state res \<Rightarrow> search_wizard \<Rightarrow> bot_screen res \<times> search_wizard" where
  "store_and_prompt E user r wz =
     (case r of Inl e \<Rightarrow> (Inl e, wz) | Inr st \<Rightarrow> (prompt (we_now E) st, put_state user st wz))"

definition wizard_back :: "wizard_env \<Rightarrow> int \<Rightarrow> search_wizard \<Rightarrow> bot_screen res \<times> search_wizard" where
  "wizard_back E user wz =
     store_and_prompt E user
       (res_bind (require_state user wz) (\<lambda>st. Inr (st\<lparr>sw_step := previous_step (sw_step st)\<rparr>))) wz"

fun clear_step_value :: "wizard_state \<Rightarrow> wizard_step \<Rightarrow> wizard_state" where
  "clear_step_value st DistrictStep = st\<lparr>sw_district := None, sw_districts := []\<rparr>"
| "clear_step_value st RoomsStep = st\<lparr>sw_rooms := None\<rparr>"
| "clear_step_value st BudgetStep = st\<lparr>sw_max_price := None\<rparr>"
| "clear_step_value st RenovationStep = st\<lparr>sw_renovation_level := None\<rparr>"
| "clear_step_value st AudienceStep = st\<lparr>sw_audience_tag := None\<rparr>"
| "clear_step_value st _ = st"

definition wizard_skip :: "wizard_env \<Rightarrow> int \<Rightarrow> search_wizard \<Rightarrow> bot_screen res \<times> search_wizard" where
  "wizard_skip E user wz =
     store_and_prompt E user
       (res_bind (require_state user wz) (\<lambda>st.
         Inr ((clear_step_value st (sw_step st))\<lparr>sw_step := next_step (sw_step st)\<rparr>))) wz"


datatype price_arg = PriceText string | PriceValue rat

record wizard_update =
  wu_district :: "string option"
  wu_rooms :: "int option"
  wu_max_price :: "price_arg option"
  wu_include_per_person :: "bool option"
  wu_renovation_level :: "renovation_level option"
  wu_audience_tag :: "string option"

definition opt_step :: "'a option \<Rightarrow> 'b \<Rightarrow> ('a \<Rightarrow> 'b res) \<Rightarrow> 'b res" where
  "opt_step v old f = (case v of None \<Rightarrow> Inr old | Some x \<Rightarrow> f x)"

definition updated_state :: "wizard_update \<Rightarrow> wizard_state \<Rightarrow> wizard_state res" where
  "updated_state u st =
     res_bind (opt_step (wu_max_price u) (sw_max_price st)
       (\<lambda>p. case p of PriceText t \<Rightarrow> res_bind (parse_price t) (\<lambda>x. Inr (Some x)) | PriceValue x \<Rightarrow> Inr (Some x))) (\<lambda>price.
     res_bind (opt_step (wu_district u) (sw_district st, sw_districts st)
       (\<lambda>d. res_bind (parse_districts d) (\<lambda>ds. Inr (Some (hd ds), ds)))) (\<lambda>d.
     res_bind (opt_step (wu_rooms u) (sw_rooms st) (\<lambda>n. res_bind (validate_rooms n) (\<lambda>k. Inr (Some k)))) (\<lambda>rooms.
     res_bind (opt_step (wu_audience_tag u) (sw_audience_tag st)
       (\<lambda>t. res_bind (validate_audience t) (\<lambda>k. Inr (Some k)))) (\<lambda>tag.
     let new = \<lparr>sw_owner_id = sw_owner_id st, sw_step = sw_step st, sw_district = fst d, sw_districts = snd d,
         sw_rooms = rooms, sw_max_price = price,
         sw_include_per_person = (case wu_include_per_person u of None \<Rightarrow> sw_include_per_person st | Some b \<Rightarrow> b),
         sw_renovation_level = (case wu_renovation_level u of None \<Rightarrow> sw_renovation_level st | Some l \<Rightarrow> Some l),
         sw_audience_tag = tag\<rparr>
     in res_bind (state_criteria new 0) (\<lambda>_. Inr new)))))"

definition wizard_update :: "int \<Rightarrow> wizard_update \<Rightarrow> search_wizard \<Rightarrow> wizard_state res \<times> search_wizard" where
  "wizard_update user u wz =
     (case updated_state u (case dict_get (wz_states wz) user of None \<Rightarrow> fresh_state user | Some st \<Rightarrow> st) of
        Inl e \<Rightarrow> (Inl e, wz) | Inr new \<Rightarrow> (Inr new, put_state user new wz))"

definition wizard_text :: "wizard_env \<Rightarrow> int \<Rightarrow> string \<Rightarrow> search_wizard \<Rightarrow> bot_screen res \<times> search_wizard" where
  "wizard_text E user t wz =
     (case require_state user wz of
        Inl e \<Rightarrow> (Inl e, wz)
      | Inr st \<Rightarrow>
          (case sw_step st of
             DistrictStep \<Rightarrow> store_and_prompt E user (res_bind (parse_districts t) (\<lambda>ds.
               Inr (st\<lparr>sw_district := Some (hd ds), sw_districts := ds, sw_step := RoomsStep\<rparr>))) wz
           | RoomsStep \<Rightarrow> store_and_prompt E user (res_bind (validate_rooms_text t) (\<lambda>n.
               Inr (st\<lparr>sw_rooms := Some n, sw_step := BudgetStep\<rparr>))) wz
           | BudgetStep \<Rightarrow> store_and_prompt E user (res_bind (parse_price t) (\<lambda>p.
               Inr (st\<lparr>sw_max_price := Some p, sw_step := BasisStep\<rparr>))) wz
           | _ \<Rightarrow> (screen_of (we_now E) ''Bu qadamda tugmalardan foydalaning.'' control_buttons user, wz)))"

text \<open>A qualifying action is reported for a first page; the recorder may raise.\<close>

definition record_search_activation :: "wizard_env \<Rightarrow> int \<Rightarrow> search_criteria \<Rightarrow> search_wizard \<Rightarrow> unit res \<times> search_wizard" where
  "record_search_activation E user c wz =
     (case we_activate E of
        None \<Rightarrow> (Inr (), wz)
      | Some f \<Rightarrow> (case f user c of Inl e \<Rightarrow> (Inl e, wz)
          | Inr _ \<Rightarrow> (Inr (), wz\<lparr>wz_activations := wz_activations wz @ [(user, c)]\<rparr>)))"

definition show_results :: "wizard_env \<Rightarrow> int \<Rightarrow> int \<Rightarrow> wizard_state \<Rightarrow> search_wizard \<Rightarrow> bot_screen res \<times> search_wizard" where
  "show_results E user offset st wz =
     then_do
       (if offset = 0
        then (case state_criteria st 0 of Inl e \<Rightarrow> (Inl e, wz) | Inr c \<Rightarrow> record_search_activation E user c wz)
        else (Inr (), wz))
       (\<lambda>_ wz1. (case state_criteria st offset of
           Inl e \<Rightarrow> (Inl e, wz1)
         | Inr c \<Rightarrow>
             (let r = search_announcements c (we_repository E)
              in (result_screen E user r,
                  if offset = 0 then wz1\<lparr>wz_events := wz_events wz1 @ [(user, c, md_returned (snd r))]\<rparr> else wz1))))"

definition wizard_run :: "wizard_env \<Rightarrow> int \<Rightarrow> int \<Rightarrow> search_wizard \<Rightarrow> bot_screen res \<times> search_wizard" where
  "wizard_run E user offset wz =
     (case require_state user wz of Inl e \<Rightarrow> (Inl e, wz) | Inr st \<Rightarrow> show_results E user offset st wz)"

definition state_of_criteria :: "int \<Rightarrow> search_criteria \<Rightarrow> wizard_state" where
  "state_of_criteria user c =
     \<lparr>sw_owner_id = user, sw_step = DoneStep, sw_district = sc_district c, sw_districts = sc_districts c,
      sw_rooms = sc_rooms c, sw_max_price = sc_max_price c, sw_include_per_person = sc_include_per_person c,
      sw_renovation_level = sc_renovation_level c, sw_audience_tag = sc_audience_tag c\<rparr>"

definition run_criteria :: "wizard_env \<Rightarrow> int \<Rightarrow> search_criteria \<Rightarrow> search_wizard \<Rightarrow> bot_screen res \<times> search_wizard" where
  "run_criteria E user c wz =
     show_results E user 0 (state_of_criteria user c) (put_state user (state_of_criteria user c) wz)"

definition current_criteria :: "int \<Rightarrow> search_wizard \<Rightarrow> search_criteria res" where
  "current_criteria user wz = res_bind (require_state user wz) (\<lambda>st. state_criteria st 0)"

definition wizard_callback ::
  "wizard_env \<Rightarrow> int \<Rightarrow> string \<Rightarrow> string \<Rightarrow> search_wizard \<Rightarrow> bot_screen res \<times> search_wizard" where
  "wizard_callback E user action val wz =
     (if action = ''start'' then wizard_start E user wz
      else if action = ''cancel'' then wizard_cancel user wz
      else if action = ''back'' then wizard_back E user wz
      else if action = ''skip'' then
        (case require_state user wz of
           Inl e \<Rightarrow> (Inl e, wz)
         | Inr st \<Rightarrow> if sw_step st = DoneStep then wizard_start E user wz else wizard_skip E user wz)
      else if action = ''reset'' then wizard_start E user wz
      else if action = ''basis_total'' \<or> action = ''basis_any'' then
        store_and_prompt E user (res_bind (expect_step user BasisStep wz) (\<lambda>st.
          Inr (st\<lparr>sw_include_per_person := (action = ''basis_any''), sw_step := RenovationStep\<rparr>))) wz
      else if action = ''renovation'' then
        store_and_prompt E user (res_bind (expect_step user RenovationStep wz) (\<lambda>st.
          res_bind (if val = ''skip'' then Inr None else res_bind (validate_renovation val) (\<lambda>l. Inr (Some l))) (\<lambda>level.
            Inr (st\<lparr>sw_renovation_level := level, sw_step := AudienceStep\<rparr>)))) wz
      else if action = ''audience'' then
        (case res_bind (expect_step user AudienceStep wz) (\<lambda>st.
            res_bind (if val = ''skip'' then Inr None else res_bind (validate_audience val) (\<lambda>t. Inr (Some t))) (\<lambda>tag.
              Inr (st\<lparr>sw_audience_tag := tag, sw_step := DoneStep\<rparr>))) of
           Inl e \<Rightarrow> (Inl e, wz)
         | Inr st \<Rightarrow> wizard_run E user 0 (put_state user st wz))
      else if action = ''page'' then
        (case res_bind (expect_step user DoneStep wz) (\<lambda>_. validate_offset val) of
           Inl e \<Rightarrow> (Inl e, wz)
         | Inr offset \<Rightarrow> wizard_run E user offset wz)
      else (Inl (ValueError ''Unsupported wizard action.''), wz))"


section \<open>Valid answers\<close>

lemma state_criteria_valid_iff:
  "(\<exists>c. state_criteria st offset = Inr c) \<longleftrightarrow>
     (\<forall>p. sw_max_price st = Some p \<longrightarrow> 0 \<le> p) \<and> (\<forall>r. sw_rooms st = Some r \<longrightarrow> 0 \<le> r) \<and> 0 \<le> offset \<and>
     length (normalize_districts [] (sw_districts st)) \<le> 12 \<and>
     (\<forall>t. sw_audience_tag st = Some t \<longrightarrow> (\<exists>k. normalize_tag_key t = Inr k))"
  by (auto simp: state_criteria_def validate_criteria_def bounds_ok_def range_ok_def PAGE_SIZE_def Let_def
      validate_audience_tag_def res_bind_def split: option.splits sum.splits)

definition state_valid :: "int \<Rightarrow> wizard_state \<Rightarrow> bool" where
  "state_valid user st \<longleftrightarrow> sw_owner_id st = user \<and> (\<exists>c. state_criteria st 0 = Inr c \<and> length (sc_districts c) \<le> 12)"

definition state_districts :: "wizard_state \<Rightarrow> string list" where
  "state_districts st =
     synchronize_district_filters (normalize_space (sw_district st)) (normalize_districts [] (sw_districts st))"

lemma state_criteria_districts: "state_criteria st offset = Inr c \<Longrightarrow> sc_districts c = state_districts st"
  by (auto simp: state_criteria_def validate_criteria_def state_districts_def Let_def elim!: res_bind_InrE split: if_splits)

lemma state_valid_iff:
  "state_valid user st \<longleftrightarrow> sw_owner_id st = user \<and>
     (\<forall>p. sw_max_price st = Some p \<longrightarrow> 0 \<le> p) \<and> (\<forall>r. sw_rooms st = Some r \<longrightarrow> 0 \<le> r) \<and>
     length (normalize_districts [] (sw_districts st)) \<le> 12 \<and> length (state_districts st) \<le> 12 \<and>
     (\<forall>t. sw_audience_tag st = Some t \<longrightarrow> (\<exists>k. normalize_tag_key t = Inr k))"
  using state_criteria_valid_iff [of st 0] state_criteria_districts [of st 0] by (auto simp: state_valid_def)

lemma length_state_districts: "length (state_districts st) \<le> Suc (length (normalize_districts [] (sw_districts st)))"
proof -
  have "length (dedupe_districts [] (xs @ ys)) \<le> length xs + length ys" for xs ys :: "string list"
    using length_dedupe [of "[]" "xs @ ys"] by simp
  from this [of "case normalize_space (sw_district st) of Some d \<Rightarrow> if d = [] then [] else [d] | None \<Rightarrow> []"
      "normalize_districts [] (sw_districts st)"]
  show ?thesis
    by (auto simp: state_districts_def synchronize_district_filters_def split: option.splits if_splits)
qed

lemma length_normalize_districts: "length (normalize_districts acc ds) \<le> length acc + length ds"
proof (induction ds arbitrary: acc)
  case (Cons d ds)
  from Cons.IH [of acc] Cons.IH [of "acc @ [collapse d]"] show ?case by simp
qed simp

lemma wizard_district_known: "wizard_district v = Inr d \<Longrightarrow> d \<in> set (dict_values KNOWN_DISTRICTS)"
  by (auto simp: wizard_district_def split: option.splits dest: dict_get_in_values)

lemma collect_districts_known:
  "collect_districts acc ps = Inr ds \<Longrightarrow> set acc \<subseteq> set (dict_values KNOWN_DISTRICTS) \<Longrightarrow> distinct acc \<Longrightarrow>
   set ds \<subseteq> set (dict_values KNOWN_DISTRICTS) \<and> distinct ds"
proof (induction ps arbitrary: acc)
  case (Cons p ps)
  obtain d where d: "wizard_district p = Inr d"
    "collect_districts (if lower d \<in> set (map lower acc) then acc else acc @ [d]) ps = Inr ds"
    using Cons.prems(1) by (auto elim: res_bind_InrE)
  have "set (if lower d \<in> set (map lower acc) then acc else acc @ [d]) \<subseteq> set (dict_values KNOWN_DISTRICTS)"
    "distinct (if lower d \<in> set (map lower acc) then acc else acc @ [d])"
    using Cons.prems(2,3) wizard_district_known [OF d(1)] by auto
  with Cons.IH [OF d(2)] show ?case by blast
qed simp

lemma parse_districts_Inr:
  assumes "parse_districts v = Inr ds"
  shows "ds \<noteq> [] \<and> set ds \<subseteq> set (dict_values KNOWN_DISTRICTS) \<and> distinct ds \<and> length ds \<le> 11"
proof -
  have ds: "ds \<noteq> []" "collect_districts [] (split_districts [] (strip v)) = Inr ds"
    using assms by (auto simp: parse_districts_def elim!: res_bind_InrE split: if_splits)
  with collect_districts_known [OF ds(2)] have known: "set ds \<subseteq> set (dict_values KNOWN_DISTRICTS)" "distinct ds" by auto
  have "card (set (dict_values KNOWN_DISTRICTS)) \<le> 11" by code_simp
  with card_mono [OF _ known(1)] distinct_card [OF known(2)] have "length ds \<le> 11" by simp
  with ds known show ?thesis by blast
qed

lemma parse_price_Inr: "parse_price v = Inr p \<Longrightarrow> 0 \<le> p \<and> p \<le> 100000000000"
  by (auto simp: parse_price_def Let_def split: option.splits if_splits)

lemma validate_rooms_Inr: "validate_rooms n = Inr k \<Longrightarrow> k = n \<and> 0 \<le> k \<and> k \<le> 20"
  by (auto simp: validate_rooms_def split: if_splits)

lemma validate_rooms_text_Inr: "validate_rooms_text v = Inr k \<Longrightarrow> 0 \<le> k \<and> k \<le> 20"
  by (auto simp: validate_rooms_text_def Let_def split: if_splits dest: validate_rooms_Inr)

lemma seed_tags_normal: "\<forall>t \<in> set (dict_keys SEED_AUDIENCE_TAGS). normalize_tag_key t = Inr t"
proof
  fix t assume t: "t \<in> set (dict_keys SEED_AUDIENCE_TAGS)"
  show "normalize_tag_key t = Inr t"
    by (rule normalize_fixed_point; use t in \<open>auto simp: SEED_AUDIENCE_TAGS_def tag_key_ok_def is_tag_char_def
        is_lower_def is_digit_def code_of_def no_double_us_def TAG_ALIAS_MAP_def\<close>)
qed

lemma validate_audience_Inr: "validate_audience v = Inr t \<Longrightarrow> t \<in> set (dict_keys SEED_AUDIENCE_TAGS) \<and> normalize_tag_key t = Inr t"
  using seed_tags_normal by (auto simp: validate_audience_def Let_def split: if_splits)

text \<open>What the answers of each step do to a valid state.\<close>

lemma state_valid_clear: "state_valid user st \<Longrightarrow> state_valid user (clear_step_value st s)"
  by (cases s) (simp_all add: state_valid_iff state_districts_def normalize_space_def synchronize_district_filters_def)

lemma state_valid_basic:
  "state_valid user (fresh_state user)"
  "state_valid user st \<Longrightarrow> state_valid user (st\<lparr>sw_step := s\<rparr>)"
  "state_valid user st \<Longrightarrow> state_valid user (st\<lparr>sw_include_per_person := b, sw_step := s\<rparr>)"
  "state_valid user st \<Longrightarrow> state_valid user (st\<lparr>sw_renovation_level := l, sw_step := s\<rparr>)"
  by (simp_all add: state_valid_iff state_districts_def fresh_state_def normalize_space_def synchronize_district_filters_def)

lemma state_valid_districts:
  "state_valid user st \<Longrightarrow> parse_districts v = Inr ds \<Longrightarrow> state_valid user (st\<lparr>sw_district := d, sw_districts := ds, sw_step := s\<rparr>)"
  using length_normalize_districts [of "[]" ds] parse_districts_Inr [of v ds]
    length_state_districts [of "st\<lparr>sw_district := d, sw_districts := ds, sw_step := s\<rparr>"]
  by (simp add: state_valid_iff)

lemma state_valid_rooms:
  "state_valid user st \<Longrightarrow> validate_rooms_text v = Inr n \<Longrightarrow> state_valid user (st\<lparr>sw_rooms := Some n, sw_step := s\<rparr>)"
  using validate_rooms_text_Inr [of v n] by (simp add: state_valid_iff state_districts_def)

lemma state_valid_price:
  "state_valid user st \<Longrightarrow> parse_price v = Inr p \<Longrightarrow> state_valid user (st\<lparr>sw_max_price := Some p, sw_step := s\<rparr>)"
  using parse_price_Inr [of v p] by (simp add: state_valid_iff state_districts_def)

lemma state_valid_audience:
  "state_valid user st \<Longrightarrow> t = None \<or> (\<exists>v k. t = Some k \<and> validate_audience v = Inr k) \<Longrightarrow>
   state_valid user (st\<lparr>sw_audience_tag := t, sw_step := s\<rparr>)"
  using validate_audience_Inr by (auto simp: state_valid_iff state_districts_def)

lemmas state_valid_intros = state_valid_clear state_valid_basic state_valid_districts state_valid_rooms
  state_valid_price state_valid_audience

lemma state_of_criteria_valid:
  "validate_criteria c0 = Inr c \<Longrightarrow> length (sc_districts c) \<le> 12 \<Longrightarrow> state_valid user (state_of_criteria user c)"
proof -
  assume c: "validate_criteria c0 = Inr c" "length (sc_districts c) \<le> 12"
  have "state_districts (state_of_criteria user c) = sc_districts c"
    using validate_criteria_again [OF c(1)] c(2)
    by (auto simp: state_districts_def state_of_criteria_def validate_criteria_def Let_def elim!: res_bind_InrE
        split: if_splits dest!: arg_cong [where f = sc_districts])
  then show ?thesis
    using validate_criteria_ok [OF c(1)] length_normalize_districts [of "[]" "sc_districts c"] c(2)
    by (auto simp: state_valid_iff state_of_criteria_def criteria_ok_def bounds_ok_def)
qed


section \<open>Invariant\<close>

definition wizard_ok :: "search_wizard \<Rightarrow> bool" where
  "wizard_ok wz \<longleftrightarrow> (\<forall>u st. dict_get (wz_states wz) u = Some st \<longrightarrow> state_valid u st)"

lemma wizard_ok_put: "wizard_ok wz \<Longrightarrow> state_valid user st \<Longrightarrow> wizard_ok (put_state user st wz)"
  by (simp add: wizard_ok_def put_state_def dict_get_put)

lemma wizard_ok_drop: "wizard_ok wz \<Longrightarrow> wizard_ok (drop_state user wz)"
  by (simp add: wizard_ok_def drop_state_def dict_get_pop)

lemma require_state_Inr:
  "wizard_ok wz \<Longrightarrow> require_state user wz = Inr st \<Longrightarrow> state_valid user st \<and> dict_get (wz_states wz) user = Some st"
  by (auto simp: require_state_def wizard_ok_def split: option.splits if_splits)

lemma expect_step_Inr:
  "expect_step user s wz = Inr st \<Longrightarrow> require_state user wz = Inr st \<and> sw_step st = s"
  by (auto simp: expect_step_def elim!: res_bind_InrE split: if_splits)

lemma store_and_prompt_ok:
  assumes "wizard_ok wz" and "\<And>st. r = Inr st \<Longrightarrow> state_valid user st"
  shows "wizard_ok (snd (store_and_prompt E user r wz))"
  using assms by (auto simp: store_and_prompt_def wizard_ok_put split: sum.split)

lemma record_search_activation_states [simp]:
  "wz_states (snd (record_search_activation E user c wz)) = wz_states wz"
  by (auto simp: record_search_activation_def split: option.split sum.split)

lemma show_results_states [simp]: "wz_states (snd (show_results E user offset st wz)) = wz_states wz"
proof -
  have "wz_states wz1 = wz_states wz" if "record_search_activation E user c wz = (r, wz1)" for c r wz1
    using record_search_activation_states [of E user c wz] that by simp
  then show ?thesis
    by (auto simp: show_results_def then_do_def Let_def split: sum.split prod.split)
qed

lemma wizard_ok_states: "wz_states wz' = wz_states wz \<Longrightarrow> wizard_ok wz' = wizard_ok wz"
  by (simp add: wizard_ok_def)

lemma show_results_ok [simp]: "wizard_ok (snd (show_results E user offset st wz)) = wizard_ok wz"
  by (rule wizard_ok_states) simp

lemma wizard_run_ok: "wizard_ok wz \<Longrightarrow> wizard_ok (snd (wizard_run E user offset wz))"
  by (simp add: wizard_run_def split: sum.split)

lemma wizard_start_ok: "wizard_ok wz \<Longrightarrow> wizard_ok (snd (wizard_start E user wz))"
  by (simp add: wizard_start_def wizard_ok_put state_valid_intros)

lemma wizard_text_ok: "wizard_ok wz \<Longrightarrow> wizard_ok (snd (wizard_text E user t wz))"
  unfolding wizard_text_def
  by (auto split: sum.split wizard_step.split dest: require_state_Inr
      intro!: store_and_prompt_ok elim!: res_bind_InrE intro: state_valid_intros)

lemma wizard_back_ok: "wizard_ok wz \<Longrightarrow> wizard_ok (snd (wizard_back E user wz))"
  unfolding wizard_back_def
  by (rule store_and_prompt_ok) (auto dest: require_state_Inr elim!: res_bind_InrE intro: state_valid_intros)

lemma wizard_skip_ok: "wizard_ok wz \<Longrightarrow> wizard_ok (snd (wizard_skip E user wz))"
  unfolding wizard_skip_def
  by (rule store_and_prompt_ok) (auto dest: require_state_Inr elim!: res_bind_InrE intro: state_valid_intros)

text \<open>The states a button can lead to, before any search is run.\<close>

definition audience_answer :: "int \<Rightarrow> string \<Rightarrow> search_wizard \<Rightarrow> wizard_state res" where
  "audience_answer user val wz =
     res_bind (expect_step user AudienceStep wz) (\<lambda>st.
       res_bind (if val = ''skip'' then Inr None else res_bind (validate_audience val) (\<lambda>t. Inr (Some t))) (\<lambda>tag.
         Inr (st\<lparr>sw_audience_tag := tag, sw_step := DoneStep\<rparr>)))"

lemma audience_answer_valid: "wizard_ok wz \<Longrightarrow> audience_answer user val wz = Inr st \<Longrightarrow> state_valid user st"
  by (auto simp: audience_answer_def elim!: res_bind_InrE split: if_splits dest!: expect_step_Inr dest: require_state_Inr
      intro!: state_valid_audience)

lemma basis_answer_valid:
  "wizard_ok wz \<Longrightarrow>
   res_bind (expect_step user BasisStep wz) (\<lambda>st. Inr (st\<lparr>sw_include_per_person := b, sw_step := RenovationStep\<rparr>)) = Inr st \<Longrightarrow>
   state_valid user st"
  by (auto elim!: res_bind_InrE dest!: expect_step_Inr dest: require_state_Inr intro: state_valid_intros)

lemma renovation_answer_valid:
  "wizard_ok wz \<Longrightarrow>
   res_bind (expect_step user RenovationStep wz) (\<lambda>st.
     res_bind (if val = ''skip'' then Inr None else res_bind (validate_renovation val) (\<lambda>l. Inr (Some l))) (\<lambda>level.
       Inr (st\<lparr>sw_renovation_level := level, sw_step := AudienceStep\<rparr>))) = Inr st \<Longrightarrow>
   state_valid user st"
  by (auto elim!: res_bind_InrE dest!: expect_step_Inr dest: require_state_Inr intro: state_valid_intros split: if_splits)

lemma ok_if: "wizard_ok (snd a) \<Longrightarrow> wizard_ok (snd b) \<Longrightarrow> wizard_ok (snd (if c then a else b))"
  by simp

lemma ok_sum:
  "wizard_ok wz \<Longrightarrow> (\<And>x. r = Inr x \<Longrightarrow> wizard_ok (snd (f x))) \<Longrightarrow>
   wizard_ok (snd (case r of Inl e \<Rightarrow> (Inl e, wz) | Inr x \<Rightarrow> f x))"
  by (cases r) simp_all

lemma wizard_callback_ok:
  assumes "wizard_ok wz"
  shows "wizard_ok (snd (wizard_callback E user action val wz))"
  unfolding wizard_callback_def audience_answer_def [symmetric] wizard_cancel_def
  by (intro ok_if ok_sum wizard_start_ok wizard_back_ok wizard_skip_ok wizard_run_ok store_and_prompt_ok
        wizard_ok_put assms)
    (erule audience_answer_valid [OF assms] basis_answer_valid [OF assms] renovation_answer_valid [OF assms]
      | simp add: assms wizard_ok_drop)+

lemma updated_state_valid:
  assumes "state_valid (sw_owner_id st) st" and "updated_state u st = Inr new"
  shows "state_valid (sw_owner_id st) new"
proof -
  have "sw_owner_id new = sw_owner_id st" and crit: "\<exists>c. state_criteria new 0 = Inr c"
    and ds: "(sw_district new = sw_district st \<and> sw_districts new = sw_districts st) \<or>
      (\<exists>d. parse_districts d = Inr (sw_districts new))"
    using assms(2) by (auto simp: updated_state_def opt_step_def Let_def elim!: res_bind_InrE split: option.splits)
  moreover have "length (state_districts new) \<le> 12"
    using ds
  proof
    assume "\<exists>d. parse_districts d = Inr (sw_districts new)"
    then have "length (sw_districts new) \<le> 11" using parse_districts_Inr by blast
    then show ?thesis
      using length_state_districts [of new] length_normalize_districts [of "[]" "sw_districts new"] by simp
  qed (use assms(1) in \<open>simp add: state_valid_iff state_districts_def\<close>)
  ultimately show ?thesis using state_criteria_districts [of new 0] by (auto simp: state_valid_def)
qed

lemma wizard_update_ok:
  assumes "wizard_ok wz"
  shows "wizard_ok (snd (wizard_update user u wz))"
proof -
  let ?st = "case dict_get (wz_states wz) user of None \<Rightarrow> fresh_state user | Some st \<Rightarrow> st"
  have "state_valid user ?st"
    using assms state_valid_basic(1) [of user] by (auto simp: wizard_ok_def split: option.split)
  then have "state_valid user new" if "updated_state u ?st = Inr new" for new
    using updated_state_valid [of ?st u new] that by (simp add: state_valid_def)
  with assms show ?thesis unfolding wizard_update_def by (simp add: wizard_ok_put split: sum.split)
qed


datatype wizard_action =
    WizardText string
  | WizardCallback string string
  | WizardUpdate wizard_update
  | WizardBack
  | WizardCancel
  | WizardCriteria search_criteria

text \<open>Criteria reach the wizard from saved filters and free-text search, which validate them.\<close>

fun wizard_step_on :: "wizard_env \<Rightarrow> int \<Rightarrow> wizard_action \<Rightarrow> search_wizard \<Rightarrow> search_wizard" where
  "wizard_step_on E user (WizardText t) wz = snd (wizard_text E user t wz)"
| "wizard_step_on E user (WizardCallback a v) wz = snd (wizard_callback E user a v wz)"
| "wizard_step_on E user (WizardUpdate u) wz = snd (wizard_update user u wz)"
| "wizard_step_on E user WizardBack wz = snd (wizard_back E user wz)"
| "wizard_step_on E user WizardCancel wz = snd (wizard_cancel user wz)"
| "wizard_step_on E user (WizardCriteria c) wz =
     (case validate_criteria c of
        Inl _ \<Rightarrow> wz
      | Inr d \<Rightarrow> if length (sc_districts d) \<le> 12 then snd (run_criteria E user d wz) else wz)"

definition wizard_run_all :: "wizard_env \<Rightarrow> (int \<times> wizard_action) list \<Rightarrow> search_wizard \<Rightarrow> search_wizard" where
  "wizard_run_all E acts wz = fold (\<lambda>(u, a). wizard_step_on E u a) acts wz"

definition empty_wizard :: search_wizard where
  "empty_wizard = \<lparr>wz_states = [], wz_activations = [], wz_events = []\<rparr>"

lemma wizard_step_ok: "wizard_ok wz \<Longrightarrow> wizard_ok (wizard_step_on E user act wz)"
  by (cases act) (auto simp: wizard_text_ok wizard_callback_ok wizard_update_ok wizard_back_ok wizard_cancel_def
      wizard_ok_drop run_criteria_def intro!: wizard_ok_put state_of_criteria_valid split: sum.split)

lemma wizard_run_all_ok: "wizard_ok wz \<Longrightarrow> wizard_ok (wizard_run_all E acts wz)"
  by (induction acts arbitrary: wz) (auto simp: wizard_run_all_def wizard_step_ok)

lemma empty_wizard_ok: "wizard_ok empty_wizard"
  by (simp add: wizard_ok_def empty_wizard_def)

lemma state_valid_all_offsets:
  "state_valid user st \<Longrightarrow> 0 \<le> offset \<Longrightarrow> \<exists>c. state_criteria st offset = Inr c"
  by (simp add: state_valid_iff state_criteria_valid_iff)

text \<open>
  Whatever the users type or press, in any order, every stored wizard state belongs to its user and gives
  valid search criteria for every page: no answer the wizard accepts makes a later search fail on its criteria.
\<close>

theorem wizard_invariant:
  assumes "dict_get (wz_states (wizard_run_all E acts empty_wizard)) user = Some st" and "0 \<le> offset"
  shows "sw_owner_id st = user \<and> (\<exists>c. state_criteria st offset = Inr c)"
proof -
  have "wizard_ok (wizard_run_all E acts empty_wizard)" by (rule wizard_run_all_ok [OF empty_wizard_ok])
  then have "state_valid user st" using assms(1) by (auto simp: wizard_ok_def)
  with state_valid_all_offsets [OF this assms(2)] show ?thesis by (simp add: state_valid_def)
qed

definition sample_wizard_env :: wizard_env where
  "sample_wizard_env = \<lparr>we_activate = None, we_repository = [], we_decimal = (\<lambda>_. []), we_now = 1\<rparr>"

lemma sample_answers:
  "parse_districts ''Sergeli'' = Inr [''Sergeli'']" "validate_rooms_text ''2 xona'' = Inr 2"
  by code_simp+

theorem wizard_invariant_witness:
  "\<exists>st. dict_get (wz_states (wizard_run_all sample_wizard_env
       [(7, WizardCallback ''start'' []), (7, WizardText ''Sergeli''), (7, WizardText ''2 xona'')] empty_wizard)) 7 = Some st \<and>
     (\<exists>c. state_criteria st 9 = Inr c)"
proof -
  let ?acts = "[(7, WizardCallback ''start'' []), (7, WizardText ''Sergeli''), (7, WizardText ''2 xona'')]"
  obtain st where st: "dict_get (wz_states (wizard_run_all sample_wizard_env ?acts empty_wizard)) 7 = Some st"
    by (simp add: wizard_run_all_def wizard_callback_def wizard_start_def put_state_def empty_wizard_def wizard_text_def
        require_state_def fresh_state_def store_and_prompt_def sample_answers)
  with wizard_invariant [OF st, of 9] show ?thesis by simp
qed

text \<open>Nothing one user does touches the state of another.\<close>

definition leaves_alone :: "int \<Rightarrow> search_wizard \<Rightarrow> 'a \<times> search_wizard \<Rightarrow> bool" where
  "leaves_alone v wz r \<longleftrightarrow> dict_get (wz_states (snd r)) v = dict_get (wz_states wz) v"

lemma leaves_alone_basic:
  assumes "v \<noteq> user"
  shows "leaves_alone v wz (x, wz)" "leaves_alone v wz (x, put_state user st wz)" "leaves_alone v wz (x, drop_state user wz)"
    "leaves_alone v wz (store_and_prompt E user r wz)" "leaves_alone v wz (show_results E user' offset st' wz)"
    "leaves_alone v wz (wizard_run E user' offset wz)" "leaves_alone v wz (wizard_run E user' offset (put_state user st wz))"
    "leaves_alone v wz (show_results E user' offset st' (put_state user st wz))"
  using assms by (auto simp: leaves_alone_def put_state_def drop_state_def dict_get_put dict_get_pop store_and_prompt_def
      wizard_run_def split: sum.split)

lemma leaves_alone_cases:
  "leaves_alone v wz a \<Longrightarrow> leaves_alone v wz b \<Longrightarrow> leaves_alone v wz (if c then a else b)"
  "(\<And>e. leaves_alone v wz (f e)) \<Longrightarrow> (\<And>x. leaves_alone v wz (g x)) \<Longrightarrow> leaves_alone v wz (case q of Inl e \<Rightarrow> f e | Inr x \<Rightarrow> g x)"
  by (cases q; simp)+

lemma wizard_callback_other: "v \<noteq> user \<Longrightarrow> leaves_alone v wz (wizard_callback E user action val wz)"
  unfolding wizard_callback_def wizard_start_def wizard_cancel_def wizard_back_def wizard_skip_def
  by (intro leaves_alone_cases leaves_alone_basic)

lemma wizard_text_other: "v \<noteq> user \<Longrightarrow> leaves_alone v wz (wizard_text E user t wz)"
  unfolding wizard_text_def
  by (intro leaves_alone_cases) (auto split: wizard_step.split intro: leaves_alone_basic)

lemma wizard_step_other:
  assumes "v \<noteq> user"
  shows "dict_get (wz_states (wizard_step_on E user act wz)) v = dict_get (wz_states wz) v"
proof (cases act)
  case (WizardText t)
  then show ?thesis using wizard_text_other [OF assms] by (simp add: leaves_alone_def)
next
  case (WizardCallback a val)
  then show ?thesis using wizard_callback_other [OF assms] by (simp add: leaves_alone_def)
qed (use leaves_alone_basic [OF assms] in \<open>auto simp: leaves_alone_def wizard_update_def wizard_back_def wizard_cancel_def
      run_criteria_def split: sum.split\<close>)


section \<open>Errors\<close>

lemma callback_total: "0 \<le> now \<Longrightarrow> 0 \<le> user \<Longrightarrow> \<exists>d. callback now ns action user val = Inr d"
  using base36_encode_total [of now] base36_encode_total [of user] by (auto simp: callback_def pack_def)

lemma screen_of_total:
  assumes "0 \<le> now" and "0 \<le> user"
  shows "\<exists>s. screen_of now txt bs user = Inr s"
proof -
  have "\<exists>b'. menu_button_of now b user = Inr b'" for b
    using callback_total [OF assms] by (cases b) (auto simp: menu_button_of_def res_bind_def split: sum.split, metis sum.simps(4))
  then have "\<exists>buttons. res_all (map (\<lambda>b. menu_button_of now b user) bs) = Inr buttons"
    by (induction bs) (auto split: sum.split, metis Inl_Inr_False)
  then show ?thesis by (auto simp: screen_of_def)
qed

lemma prompt_total: "0 \<le> now \<Longrightarrow> 0 \<le> sw_owner_id st \<Longrightarrow> \<exists>s. prompt now st = Inr s"
  using screen_of_total by (simp add: prompt_def split: prod.split)

lemma store_and_prompt_Inl:
  assumes "store_and_prompt E user r wz = (Inl e, wz')" and "0 \<le> we_now E" and "\<And>st. r = Inr st \<Longrightarrow> state_valid user st"
    and "0 \<le> user"
  shows "wz' = wz"
proof (cases r)
  case (Inl x)
  with assms(1) show ?thesis by (simp add: store_and_prompt_def)
next
  case (Inr st)
  then have "sw_owner_id st = user" using assms(3) by (simp add: state_valid_def)
  with prompt_total [OF assms(2), of st] assms(4) obtain s where "prompt (we_now E) st = Inr s" by auto
  with assms(1) Inr show ?thesis by (simp add: store_and_prompt_def)
qed

text \<open>A valid state fails to show a page only when the activation recorder refuses.\<close>

lemma show_results_Inl:
  assumes "state_valid user st" and "0 \<le> offset" and "0 \<le> we_now E" and "0 \<le> user"
    and "show_results E user offset st wz = (Inl e, wz')"
  shows "wz' = wz \<and> offset = 0 \<and> (\<exists>f c. we_activate E = Some f \<and> f user c = Inl e)"
proof -
  obtain c where c: "state_criteria st offset = Inr c" using state_valid_all_offsets [OF assms(1,2)] by blast
  obtain s where s: "result_screen E user (search_announcements c (we_repository E)) = Inr s"
    using screen_of_total [OF assms(3,4)] by (auto simp: result_screen_def)
  show ?thesis
  proof (cases "offset = 0")
    case True
    with assms(5) c s show ?thesis
      by (auto simp: show_results_def Let_def record_search_activation_def split: option.splits sum.splits)
  next
    case False
    with assms(5) c s show ?thesis by (simp add: show_results_def Let_def)
  qed
qed

lemma validate_offset_Inr: "validate_offset v = Inr n \<Longrightarrow> 0 \<le> n \<and> n \<le> 10000"
  by (auto simp: validate_offset_def split: option.splits if_splits)

definition refused_unchanged :: "(py_error \<Rightarrow> bool) \<Rightarrow> search_wizard \<Rightarrow> 'a res \<times> search_wizard \<Rightarrow> bool" where
  "refused_unchanged P wz r \<longleftrightarrow> (\<forall>e wz'. r = (Inl e, wz') \<longrightarrow> wz' = wz \<or> P e)"

lemma refused_unchanged_cases:
  "refused_unchanged P wz a \<Longrightarrow> refused_unchanged P wz b \<Longrightarrow> refused_unchanged P wz (if c then a else b)"
  "(\<And>e. q = Inl e \<Longrightarrow> refused_unchanged P wz (f e)) \<Longrightarrow> (\<And>x. q = Inr x \<Longrightarrow> refused_unchanged P wz (g x)) \<Longrightarrow>
   refused_unchanged P wz (case q of Inl e \<Rightarrow> f e | Inr x \<Rightarrow> g x)"
  by (cases q; simp)+

lemma refused_unchanged_basic:
  assumes "0 \<le> user" and "0 \<le> we_now E"
  shows "refused_unchanged P wz (x, wz)" "refused_unchanged P wz (wizard_start E user wz)"
    "refused_unchanged P wz (wizard_cancel user wz)"
    "(\<And>st. r = Inr st \<Longrightarrow> state_valid user st) \<Longrightarrow> refused_unchanged P wz (store_and_prompt E user r wz)"
proof -
  have "\<exists>s. prompt (we_now E) (fresh_state user) = Inr s"
    by (rule prompt_total) (simp_all add: assms fresh_state_def)
  then show "refused_unchanged P wz (wizard_start E user wz)"
    by (auto simp: refused_unchanged_def wizard_start_def)
qed (use store_and_prompt_Inl [OF _ assms(2) _ assms(1)] in \<open>auto simp: refused_unchanged_def wizard_cancel_def\<close>)

lemma wizard_back_refused:
  "wizard_ok wz \<Longrightarrow> 0 \<le> user \<Longrightarrow> 0 \<le> we_now E \<Longrightarrow> refused_unchanged P wz (wizard_back E user wz)"
  unfolding wizard_back_def
  by (rule refused_unchanged_basic) (auto dest: require_state_Inr elim!: res_bind_InrE intro: state_valid_intros)

lemma wizard_skip_refused:
  "wizard_ok wz \<Longrightarrow> 0 \<le> user \<Longrightarrow> 0 \<le> we_now E \<Longrightarrow> refused_unchanged P wz (wizard_skip E user wz)"
  unfolding wizard_skip_def
  by (rule refused_unchanged_basic) (auto dest: require_state_Inr elim!: res_bind_InrE intro: state_valid_intros)

lemma wizard_run_refused:
  assumes "wizard_ok wz" and "0 \<le> user" and "0 \<le> we_now E" and "0 \<le> offset"
  shows "refused_unchanged P wz (wizard_run E user offset wz)"
  unfolding wizard_run_def
proof (rule refused_unchanged_cases)
  fix st assume "require_state user wz = Inr st"
  then have "state_valid user st" using assms(1) by (simp add: require_state_Inr)
  then show "refused_unchanged P wz (show_results E user offset st wz)"
    using show_results_Inl [OF _ assms(4,3,2)] by (auto simp: refused_unchanged_def)
qed (simp add: refused_unchanged_def)

lemma wizard_text_refused:
  assumes "wizard_ok wz" and "0 \<le> user" and "0 \<le> we_now E"
  shows "refused_unchanged P wz (wizard_text E user t wz)"
  unfolding wizard_text_def
proof (rule refused_unchanged_cases)
  fix st assume "require_state user wz = Inr st"
  then have st: "state_valid user st" using assms(1) by (simp add: require_state_Inr)
  show "refused_unchanged P wz (case sw_step st of
      DistrictStep \<Rightarrow> store_and_prompt E user (res_bind (parse_districts t) (\<lambda>ds.
        Inr (st\<lparr>sw_district := Some (hd ds), sw_districts := ds, sw_step := RoomsStep\<rparr>))) wz
    | RoomsStep \<Rightarrow> store_and_prompt E user (res_bind (validate_rooms_text t) (\<lambda>n.
        Inr (st\<lparr>sw_rooms := Some n, sw_step := BudgetStep\<rparr>))) wz
    | BudgetStep \<Rightarrow> store_and_prompt E user (res_bind (parse_price t) (\<lambda>p.
        Inr (st\<lparr>sw_max_price := Some p, sw_step := BasisStep\<rparr>))) wz
    | _ \<Rightarrow> (screen_of (we_now E) ''Bu qadamda tugmalardan foydalaning.'' control_buttons user, wz))"
    using st by (auto split: wizard_step.split elim!: res_bind_InrE
        intro!: refused_unchanged_basic [OF assms(2,3)] intro: state_valid_intros)
qed (simp add: refused_unchanged_def)

lemma audience_refused:
  assumes "wizard_ok wz" and "0 \<le> user" and "0 \<le> we_now E" and "audience_answer user val wz = Inr st"
  shows "refused_unchanged (\<lambda>e. \<exists>f c. we_activate E = Some f \<and> f user c = Inl e) wz
    (wizard_run E user 0 (put_state user st wz))"
proof -
  have valid: "state_valid user st" by (rule audience_answer_valid [OF assms(1,4)])
  then have "require_state user (put_state user st wz) = Inr st"
    by (simp add: require_state_def put_state_def dict_get_put state_valid_def)
  then show ?thesis
    using show_results_Inl [OF valid _ assms(3,2), of 0]
    by (auto simp: refused_unchanged_def wizard_run_def)
qed

lemma wizard_callback_refused:
  assumes "wizard_ok wz" and "0 \<le> user" and "0 \<le> we_now E"
  shows "refused_unchanged (\<lambda>e. action = ''audience'' \<and> (\<exists>f c. we_activate E = Some f \<and> f user c = Inl e)) wz
    (wizard_callback E user action val wz)"
proof (cases "action = ''audience''")
  case True
  then show ?thesis
    unfolding wizard_callback_def audience_answer_def [symmetric]
    using audience_refused [OF assms, of val] by (simp add: refused_unchanged_def split: sum.split)
next
  case False
  have page: "refused_unchanged P wz (case res_bind (expect_step user DoneStep wz) (\<lambda>_. validate_offset val) of
           Inl e \<Rightarrow> (Inl e, wz) | Inr offset \<Rightarrow> wizard_run E user offset wz)" for P
    by (rule refused_unchanged_cases)
      (auto simp: refused_unchanged_basic [OF assms(2,3)] elim!: res_bind_InrE dest!: validate_offset_Inr
        intro: wizard_run_refused [OF assms])
  show ?thesis
    unfolding wizard_callback_def audience_answer_def [symmetric] if_not_P [OF False]
    by (intro refused_unchanged_cases(1) page wizard_back_refused [OF assms] refused_unchanged_basic [OF assms(2,3)]
        refused_unchanged_cases(2) wizard_skip_refused [OF assms])
      (auto elim: basis_answer_valid [OF assms(1)] renovation_answer_valid [OF assms(1)])
qed

text \<open>
  An answer that is refused leaves the wizard as it was, so the user can answer again; the only
  exception is the last button, whose answer is kept when reporting the search raises.
\<close>

theorem wizard_refusal_keeps_state:
  assumes "wizard_ok wz" and "0 \<le> user" and "0 \<le> we_now E"
  shows "(wizard_text E user t wz = (Inl e, wz1) \<longrightarrow> wz1 = wz) \<and>
    (wizard_callback E user action val wz = (Inl e', wz2) \<longrightarrow>
      wz2 = wz \<or> action = ''audience'' \<and> (\<exists>f c. we_activate E = Some f \<and> f user c = Inl e'))"
  using wizard_text_refused [OF assms, of "\<lambda>_. False" t] wizard_callback_refused [OF assms, of action val]
  unfolding refused_unchanged_def by blast


theorem wizard_refusal_keeps_state_witness:
  "wizard_text sample_wizard_env 7 ''salom'' empty_wizard =
     (Inl (ValueError ''Search wizard state not found.''), empty_wizard) \<and>
   snd (wizard_text sample_wizard_env 7 ''salom'' empty_wizard) = empty_wizard"
proof -
  obtain wz1 where raised: "wizard_text sample_wizard_env 7 ''salom'' empty_wizard =
      (Inl (ValueError ''Search wizard state not found.''), wz1)"
    by (simp add: wizard_text_def require_state_def empty_wizard_def)
  have "0 \<le> we_now sample_wizard_env" by (simp add: sample_wizard_env_def)
  from wizard_refusal_keeps_state [OF empty_wizard_ok _ this, of 7 "''salom''" _ wz1] raised show ?thesis by simp
qed

section \<open>Paging\<close>

text \<open>All announcements the answers of a state select, newest first.\<close>

definition found_announcements :: "wizard_env \<Rightarrow> wizard_state \<Rightarrow> announcement list" where
  "found_announcements E st =
     (case state_criteria st 0 of
        Inl _ \<Rightarrow> []
      | Inr c \<Rightarrow> sort_announcements Newest (filter (\<lambda>a. announcement_matches a c) (we_repository E)))"

lemma state_criteria_offset:
  assumes "state_criteria st 0 = Inr c" and "0 \<le> offset"
  shows "state_criteria st offset = Inr (c\<lparr>sc_offset := offset\<rparr>)"
  using assms by (auto simp: state_criteria_def validate_criteria_def Let_def bounds_ok_def range_ok_def
      elim!: res_bind_InrE split: if_splits)

lemma state_criteria_shape:
  "state_criteria st offset = Inr c \<Longrightarrow> sc_sort c = Newest \<and> sc_limit c = PAGE_SIZE \<and> sc_offset c = offset \<and> sc_min_price c = None"
  by (auto simp: state_criteria_def validate_criteria_def Let_def elim!: res_bind_InrE split: if_splits)

lemma search_page:
  assumes "state_criteria st 0 = Inr c" and "0 \<le> offset" and "state_criteria st offset = Inr d"
  shows "fst (search_announcements d (we_repository E)) = page (nat offset) 3 (found_announcements E st)"
    and "md_offset (snd (search_announcements d (we_repository E))) = offset"
    and "md_limit (snd (search_announcements d (we_repository E))) = 3"
    and "md_total (snd (search_announcements d (we_repository E))) = length (found_announcements E st)"
    and "md_returned (snd (search_announcements d (we_repository E))) = length (page (nat offset) 3 (found_announcements E st))"
proof -
  have d: "d = c\<lparr>sc_offset := offset\<rparr>" using state_criteria_offset [OF assms(1,2)] assms(3) by simp
  have shape: "sc_sort d = Newest" "sc_limit d = 3" "sc_offset d = offset"
    using state_criteria_shape [OF assms(3)] by (simp_all add: PAGE_SIZE_def)
  have found: "sort_announcements Newest (filter (\<lambda>a. announcement_matches a d) (we_repository E)) = found_announcements E st"
    by (simp add: found_announcements_def assms(1) d announcement_matches_offset)
  show "fst (search_announcements d (we_repository E)) = page (nat offset) 3 (found_announcements E st)"
    "md_offset (snd (search_announcements d (we_repository E))) = offset"
    "md_limit (snd (search_announcements d (we_repository E))) = 3"
    "md_total (snd (search_announcements d (we_repository E))) = length (found_announcements E st)"
    "md_returned (snd (search_announcements d (we_repository E))) = length (page (nat offset) 3 (found_announcements E st))"
    by (simp_all add: search_announcements_def search_meta_def Let_def shape found)
qed

lemma pages_of_three: "concat (map (\<lambda>k. page (3 * k) 3 xs) [0..<n]) = take (3 * n) xs"
  using concat_pages [of 3 xs n] by (simp add: mult.commute)

lemma page_more_iff: "offset + length (page offset 3 xs) < length xs \<longleftrightarrow> offset + 3 < length xs"
  by (auto simp: length_page)

text \<open>
  The pages of a finished wizard show every announcement that matches the answers, each once and newest
  first: page k shows the k-th three of them, it offers the next page exactly when one more announcement is left,
  and the pages together are the whole result. A page number past ten thousand is refused.
\<close>

theorem wizard_pages_show_everything:
  assumes "dict_get (wz_states wz) user = Some st" and "state_valid user st" and "sw_step st = DoneStep"
    and "3 * k \<le> 10000" and "0 < k"
  shows "(\<exists>m. wizard_callback E user ''page'' (str_int (3 * int k)) wz =
      (result_screen E user (page (3 * k) 3 (found_announcements E st), m), wz) \<and>
      ((''Keyingi'', ''wizard'', ''page'', str_int (3 * int (k + 1))) \<in> set (page_buttons m) \<longleftrightarrow>
        3 * (k + 1) < length (found_announcements E st))) \<and>
    concat (map (\<lambda>k. page (3 * k) 3 (found_announcements E st)) [0..<(length (found_announcements E st) + 2) div 3]) =
      found_announcements E st"
proof (intro conjI)
  let ?found = "found_announcements E st"
  obtain c d where c: "state_criteria st 0 = Inr c" and d: "state_criteria st (3 * int k) = Inr d"
    using state_valid_all_offsets [OF assms(2)] by (metis of_nat_0_le_iff order_refl zero_le_mult_iff zero_le_numeral)
  note found = search_page [OF c _ d, of E, simplified]
  let ?r = "search_announcements d (we_repository E)"
  have offset: "validate_offset (str_int (3 * int k)) = Inr (3 * int k)" using assms(4) by (simp add: validate_offset_def)
  have req: "require_state user wz = Inr st" using assms(1,2) by (simp add: require_state_def state_valid_def)
  have items: "fst ?r = page (3 * k) 3 ?found" using found(1) by (simp add: nat_mult_distrib)
  have callback: "wizard_callback E user ''page'' (str_int (3 * int k)) wz = (result_screen E user ?r, wz)"
    using assms(3,5) by (simp add: wizard_callback_def expect_step_def req offset wizard_run_def show_results_def d Let_def)
  have "md_offset (snd ?r) + int (md_returned (snd ?r)) < int (md_total (snd ?r)) \<longleftrightarrow> 3 * k + 3 < length ?found"
    using found(2,4,5) page_more_iff [of "3 * k" ?found] by (simp add: nat_mult_distrib) presburger
  then have "((''Keyingi'', ''wizard'', ''page'', str_int (3 * int (k + 1))) \<in> set (page_buttons (snd ?r))) =
      (3 * (k + 1) < length ?found)"
    using found(2,3) by (simp add: page_buttons_def algebra_simps)
  with callback items show "\<exists>m. wizard_callback E user ''page'' (str_int (3 * int k)) wz =
      (result_screen E user (page (3 * k) 3 ?found, m), wz) \<and>
      ((''Keyingi'', ''wizard'', ''page'', str_int (3 * int (k + 1))) \<in> set (page_buttons m) \<longleftrightarrow>
        3 * (k + 1) < length ?found)"
    by (metis prod.collapse)
  show "concat (map (\<lambda>k. page (3 * k) 3 ?found) [0..<(length ?found + 2) div 3]) = ?found"
    unfolding pages_of_three by simp
qed


definition finished_wizard :: search_wizard where
  "finished_wizard = put_state 7 ((fresh_state 7)\<lparr>sw_step := DoneStep\<rparr>) empty_wizard"

theorem wizard_pages_show_everything_witness:
  "\<exists>m. wizard_callback sample_wizard_env 7 ''page'' (str_int 3) finished_wizard =
      (result_screen sample_wizard_env 7 ([], m), finished_wizard) \<and>
    (''Keyingi'', ''wizard'', ''page'', str_int 6) \<notin> set (page_buttons m)"
proof -
  let ?st = "(fresh_state 7)\<lparr>sw_step := DoneStep\<rparr>"
  have st: "dict_get (wz_states finished_wizard) 7 = Some ?st" by (simp add: finished_wizard_def put_state_def dict_get_put)
  have valid: "state_valid 7 ?st" by (rule state_valid_basic(2)) (rule state_valid_basic(1))
  have "found_announcements sample_wizard_env ?st = []"
    by (auto simp: found_announcements_def sample_wizard_env_def sort_announcements_def py_sort_desc_def split: sum.split)
  with wizard_pages_show_everything [OF st valid, of 1 sample_wizard_env] show ?thesis
    by (simp add: page_def)
qed

section \<open>Where answers are lost\<close>

text \<open>
  Running given criteria searches with all of them except the lower price bound, the order and the page:
  the wizard's state has no place for these, so a saved filter with a minimum price finds cheaper announcements
  too, and saving the search again loses the bound.
\<close>

theorem run_criteria_forgets_bounds:
  assumes "validate_criteria c0 = Inr c" and "length (sc_districts c) \<le> 12" and "0 \<le> we_now E" and "0 \<le> user"
    and "we_activate E = None"
  shows "case run_criteria E user c wz of (r, wz1) \<Rightarrow>
    (let d = c\<lparr>sc_min_price := None, sc_sort := Newest, sc_limit := 3, sc_offset := 0\<rparr> in
      r = result_screen E user (search_announcements d (we_repository E)) \<and> current_criteria user wz1 = Inr d)"
proof -
  let ?st = "state_of_criteria user c"
  let ?d = "c\<lparr>sc_min_price := None, sc_sort := Newest, sc_limit := 3, sc_offset := 0\<rparr>"
  have again: "validate_criteria c = Inr c" using validate_criteria_again [OF assms(1)] assms(2) by simp
  have "validate_criteria ?d = Inr ?d"
  proof -
    have "bounds_ok ?d" "range_ok ?d" "length (normalize_districts [] (sc_districts c)) \<le> 12"
      using again by (auto simp: validate_criteria_def bounds_ok_def range_ok_def Let_def split: if_splits)
    with again show ?thesis
      by (cases c) (auto simp: validate_criteria_def Let_def elim!: res_bind_InrE split: if_splits)
  qed
  then have criteria: "state_criteria ?st 0 = Inr ?d"
    by (cases c) (simp add: state_criteria_def state_of_criteria_def PAGE_SIZE_def)
  have "require_state user (put_state user ?st wz') = Inr ?st" for wz'
    by (simp add: require_state_def put_state_def dict_get_put state_of_criteria_def)
  then show ?thesis
    by (simp add: run_criteria_def show_results_def criteria record_search_activation_def assms(5) Let_def
        current_criteria_def) (simp add: put_state_def require_state_def dict_get_put criteria [unfolded state_of_criteria_def] state_of_criteria_def)
qed


theorem run_criteria_forgets_bounds_witness:
  "\<exists>wz1. run_criteria sample_wizard_env 7 (default_criteria\<lparr>sc_min_price := Some 300\<rparr>) empty_wizard =
     (result_screen sample_wizard_env 7 ([], search_meta (default_criteria\<lparr>sc_limit := 3\<rparr>) 0 0), wz1) \<and>
   current_criteria 7 wz1 = Inr (default_criteria\<lparr>sc_limit := 3\<rparr>)"
proof -
  let ?c = "default_criteria\<lparr>sc_min_price := Some 300\<rparr>"
  have c: "validate_criteria ?c = Inr ?c"
    by (simp add: default_criteria_def validate_criteria_def bounds_ok_def range_ok_def validate_audience_tag_def
        synchronize_district_filters_def normalize_space_def)
  obtain r wz1 where run: "run_criteria sample_wizard_env 7 ?c empty_wizard = (r, wz1)" by fastforce
  have env: "0 \<le> we_now sample_wizard_env" "we_activate sample_wizard_env = None" by (simp_all add: sample_wizard_env_def)
  have "?c\<lparr>sc_min_price := None, sc_sort := Newest, sc_limit := 3, sc_offset := 0\<rparr> = default_criteria\<lparr>sc_limit := 3\<rparr>"
    "length (sc_districts ?c) \<le> 12"
    by (simp_all add: default_criteria_def)
  with run_criteria_forgets_bounds [OF c _ env(1) _ env(2), of 7 empty_wizard] run
  have "r = result_screen sample_wizard_env 7 (search_announcements (default_criteria\<lparr>sc_limit := 3\<rparr>) []) \<and>
      current_criteria 7 wz1 = Inr (default_criteria\<lparr>sc_limit := 3\<rparr>)"
    by (simp add: Let_def sample_wizard_env_def)
  moreover have "search_announcements (default_criteria\<lparr>sc_limit := 3\<rparr>) [] =
      ([], search_meta (default_criteria\<lparr>sc_limit := 3\<rparr>) 0 0)"
    by (simp add: search_announcements_def default_criteria_def sort_announcements_def py_sort_desc_def page_def Let_def)
  ultimately show ?thesis using run by simp
qed

text \<open>
  The general Skip at the last question, the one for the audience, moves on to the finished state without a
  search: the answer is a text with no buttons. Only the question's own Skip button shows results.
\<close>

lemma skip_at_last_question:
  assumes "require_state user wz = Inr st" and "sw_step st = AudienceStep"
  shows "fst (wizard_callback E user ''skip'' val wz) = Inr \<lparr>bs_text = ''Qidiruv tayyor.'', bs_buttons = []\<rparr> \<and>
    wz_events (snd (wizard_callback E user ''skip'' val wz)) = wz_events wz"
  using assms by (simp add: wizard_callback_def wizard_skip_def store_and_prompt_def prompt_def screen_of_def next_step_def
      order_index_def wizard_order_def put_state_def)

text \<open>A range or a thousands separator is read as one number.\<close>

lemma price_readings:
  "parse_price ''300-500'' = Inr 300500" "parse_price ''1,500$'' = Inr (3 / 2)" "parse_price ''-500'' = Inr 500"
  by (simp_all add: parse_price_def plain_decimal_def digits_value_def digit_val_def is_digit_def is_space_def lower_def
      lower_char_def is_upper_def code_of_def)

section \<open>What Telegram accepts\<close>

definition buttons_fit :: "int \<Rightarrow> bot_screen res \<Rightarrow> bool" where
  "buttons_fit user r \<longleftrightarrow>
     (\<forall>s. r = Inr s \<longrightarrow> length (bs_text s) \<le> 4096 \<and>
        (\<forall>b \<in> set (bs_buttons s). length (mb_callback_data b) \<le> TELEGRAM_CALLBACK_LIMIT))"

lemma res_all_set: "res_all rs = Inr xs \<Longrightarrow> x \<in> set xs \<Longrightarrow> Inr x \<in> set rs"
  by (induction rs arbitrary: xs) (auto split: sum.splits)

lemma screen_of_Inr:
  assumes "screen_of now txt bs user = Inr s"
  shows "bs_text s = txt \<and> (\<forall>b \<in> set (bs_buttons s). \<exists>x \<in> set bs. menu_button_of now x user = Inr b)"
proof -
  obtain buttons where b: "res_all (map (\<lambda>b. menu_button_of now b user) bs) = Inr buttons"
    "s = \<lparr>bs_text = txt, bs_buttons = buttons\<rparr>"
    using assms by (auto simp: screen_of_def elim!: res_bind_InrE)
  then show ?thesis using res_all_set [OF b(1)] by fastforce
qed

lemma screen_of_fits:
  assumes "user < 36 ^ 11" and "now < 36 ^ 7" and "length txt \<le> 4096"
    and "list_all (\<lambda>(label, ns, action, val). length ns + length action + length val \<le> 39) bs"
  shows "buttons_fit user (screen_of now txt bs user)"
proof -
  have "length (mb_callback_data b) \<le> TELEGRAM_CALLBACK_LIMIT"
    if button: "x \<in> set bs" "menu_button_of now x user = Inr b" for x b
  proof -
    obtain label ns action val where x: "x = (label, ns, action, val)" by (cases x)
    then have "length ns + length action + length val \<le> 39" using assms(4) button(1) by (auto simp: list_all_iff)
    moreover obtain d where "callback now ns action user val = Inr d" "mb_callback_data b = d"
      using button(2) by (auto simp: x menu_button_of_def elim!: res_bind_InrE)
    moreover note callback_length_le [OF this(1) assms(1,2)]
    ultimately show ?thesis by (simp add: TELEGRAM_CALLBACK_LIMIT_def)
  qed
  then show ?thesis
    using assms(3) by (auto simp: buttons_fit_def dest!: screen_of_Inr)
qed


lemma length_str_nat_le: "n < 10 ^ k \<Longrightarrow> 0 < k \<Longrightarrow> length (str_nat n) \<le> k"
proof (induction n arbitrary: k rule: str_nat.induct)
  case (1 n)
  show ?case
  proof (cases "n < 10")
    case True
    with "1.prems" show ?thesis by (simp add: str_nat.simps [of n])
  next
    case False
    with "1.prems" obtain j where k: "k = Suc j" by (cases k) auto
    then have "n div 10 < 10 ^ j" using "1.prems" by (simp add: less_mult_imp_div_less mult.commute)
    moreover from this False have "0 < j" by (cases j) auto
    ultimately have "length (str_nat (n div 10)) \<le> j" using "1.IH" False by blast
    with False show ?thesis by (simp add: k str_nat.simps [of n])
  qed
qed

lemma length_offset_text: "0 \<le> n \<Longrightarrow> n \<le> 10003 \<Longrightarrow> length (str_int n) \<le> 5"
  using length_str_nat_le [of "nat n" 5] by (simp add: str_int_def nat_less_iff)

lemma prompt_parts_fit:
  "length (fst (prompt_parts s)) \<le> 4096 \<and>
   list_all (\<lambda>(label, ns, action, val). length ns + length action + length val \<le> 39) (snd (prompt_parts s))"
  by (cases s) (simp_all add: control_buttons_def RENOVATION_LEVELS_def level_text_def list_all_iff py_sort_def SEED_AUDIENCE_TAGS_def)

lemma prompt_fits: "user < 36 ^ 11 \<Longrightarrow> now < 36 ^ 7 \<Longrightarrow> sw_owner_id st = user \<Longrightarrow> buttons_fit user (prompt now st)"
  using prompt_parts_fit [of "sw_step st"] by (auto simp: prompt_def intro!: screen_of_fits split: prod.split)

lemma render_search_page_fits: "length (render_search_page dec items) \<le> 3900"
  by (simp add: render_search_page_def)

lemma result_screen_fits:
  assumes "user < 36 ^ 11" and "we_now E < 36 ^ 7" and "0 \<le> md_offset (snd r)" and "md_offset (snd r) \<le> 10000"
    and "md_limit (snd r) = 3"
  shows "buttons_fit user (result_screen E user r)"
proof -
  have "length (str_int (max 0 (md_offset (snd r) - md_limit (snd r)))) \<le> 5"
    "length (str_int (md_offset (snd r) + md_limit (snd r))) \<le> 5"
    using assms(3-5) by (auto intro!: length_offset_text)
  then have "list_all (\<lambda>(label, ns, action, val). length ns + length action + length val \<le> 39) (page_buttons (snd r))"
    by (auto simp: page_buttons_def)
  moreover have "length (render_search_page (we_decimal E) (fst r)) \<le> 4096"
    using render_search_page_fits [of "we_decimal E" "fst r"] by simp
  ultimately show ?thesis unfolding result_screen_def by (intro screen_of_fits assms(1,2))
qed

lemma show_results_fits:
  assumes "user < 36 ^ 11" and "we_now E < 36 ^ 7" and "0 \<le> offset" and "offset \<le> 10000"
  shows "buttons_fit user (fst (show_results E user offset st wz))"
proof -
  have screen: "buttons_fit user (result_screen E user (search_announcements c (we_repository E)))"
    if "state_criteria st offset = Inr c" for c
    using state_criteria_shape [OF that] assms
    by (intro result_screen_fits) (simp_all add: search_announcements_def search_meta_def Let_def PAGE_SIZE_def)
  have "buttons_fit user (Inl e)" for e by (simp add: buttons_fit_def)
  with screen show ?thesis
    by (auto simp: show_results_def then_do_def Let_def split: sum.split prod.split)
qed

lemma fits_cases:
  "buttons_fit user (fst a) \<Longrightarrow> buttons_fit user (fst b) \<Longrightarrow> buttons_fit user (fst (if c then a else b))"
  "(\<And>x. r = Inr x \<Longrightarrow> buttons_fit user (fst (g x))) \<Longrightarrow>
   buttons_fit user (fst (case r of Inl e \<Rightarrow> (Inl e, wz) | Inr x \<Rightarrow> g x))"
  by (cases r; simp add: buttons_fit_def)+

lemma wizard_fits_basic:
  assumes "wizard_ok wz" and "user < 36 ^ 11" and "we_now E < 36 ^ 7"
  shows "buttons_fit user (fst (wizard_start E user wz'))" "buttons_fit user (fst (wizard_cancel user wz'))"
    "(\<And>st. r = Inr st \<Longrightarrow> state_valid user st) \<Longrightarrow> buttons_fit user (fst (store_and_prompt E user r wz'))"
    "0 \<le> offset \<Longrightarrow> offset \<le> 10000 \<Longrightarrow> buttons_fit user (fst (wizard_run E user offset wz'))"
    "buttons_fit user (screen_of (we_now E) ''Bu qadamda tugmalardan foydalaning.'' control_buttons user)"
proof -
  show "buttons_fit user (fst (wizard_start E user wz'))"
    using prompt_fits [OF assms(2,3)] by (simp add: wizard_start_def fresh_state_def)
  show "buttons_fit user (fst (wizard_cancel user wz'))" by (simp add: wizard_cancel_def buttons_fit_def)
  show "buttons_fit user (fst (store_and_prompt E user r wz'))" if "\<And>st. r = Inr st \<Longrightarrow> state_valid user st"
    using that prompt_fits [OF assms(2,3)]
    by (cases r) (auto simp: store_and_prompt_def buttons_fit_def state_valid_def)
  show "buttons_fit user (fst (wizard_run E user offset wz'))" if "0 \<le> offset" "offset \<le> 10000"
    unfolding wizard_run_def using show_results_fits [OF assms(2,3) that] by (intro fits_cases)
  show "buttons_fit user (screen_of (we_now E) ''Bu qadamda tugmalardan foydalaning.'' control_buttons user)"
    by (rule screen_of_fits [OF assms(2,3)]) (simp_all add: control_buttons_def)
qed

lemma wizard_callback_fits:
  assumes "wizard_ok wz" and "user < 36 ^ 11" and "we_now E < 36 ^ 7"
  shows "buttons_fit user (fst (wizard_callback E user action val wz))"
proof -
  have page_fits: "buttons_fit user (fst (case res_bind (expect_step user DoneStep wz) (\<lambda>_. validate_offset val) of
           Inl e \<Rightarrow> (Inl e, wz) | Inr offset \<Rightarrow> wizard_run E user offset wz))"
    by (rule fits_cases) (auto elim!: res_bind_InrE dest!: validate_offset_Inr intro: wizard_fits_basic [OF assms])
  have back_fits: "buttons_fit user (fst (wizard_back E user wz))" "buttons_fit user (fst (wizard_skip E user wz))"
    unfolding wizard_back_def wizard_skip_def
    by (rule wizard_fits_basic [OF assms]; auto dest: require_state_Inr [OF assms(1)] elim!: res_bind_InrE
        intro: state_valid_intros)+
  have audience_fits: "buttons_fit user (fst (case audience_answer user val wz of
      Inl e \<Rightarrow> (Inl e, wz) | Inr st \<Rightarrow> wizard_run E user 0 (put_state user st wz)))"
    by (rule fits_cases) (simp add: wizard_fits_basic [OF assms])
  have unknown_fits: "buttons_fit user (fst (Inl e, wz))" for e by (simp add: buttons_fit_def)
  show ?thesis
    unfolding wizard_callback_def audience_answer_def [symmetric]
    by (intro fits_cases(1) page_fits back_fits audience_fits unknown_fits fits_cases(2) wizard_fits_basic [OF assms])
      (auto elim: basis_answer_valid [OF assms(1)] renovation_answer_valid [OF assms(1)])
qed

lemma wizard_text_fits:
  assumes "wizard_ok wz" and "user < 36 ^ 11" and "we_now E < 36 ^ 7"
  shows "buttons_fit user (fst (wizard_text E user t wz))"
  unfolding wizard_text_def
proof (rule fits_cases)
  fix st assume "require_state user wz = Inr st"
  then have st: "state_valid user st" using assms(1) by (simp add: require_state_Inr)
  show "buttons_fit user (fst (case sw_step st of
      DistrictStep \<Rightarrow> store_and_prompt E user (res_bind (parse_districts t) (\<lambda>ds.
        Inr (st\<lparr>sw_district := Some (hd ds), sw_districts := ds, sw_step := RoomsStep\<rparr>))) wz
    | RoomsStep \<Rightarrow> store_and_prompt E user (res_bind (validate_rooms_text t) (\<lambda>n.
        Inr (st\<lparr>sw_rooms := Some n, sw_step := BudgetStep\<rparr>))) wz
    | BudgetStep \<Rightarrow> store_and_prompt E user (res_bind (parse_price t) (\<lambda>p.
        Inr (st\<lparr>sw_max_price := Some p, sw_step := BasisStep\<rparr>))) wz
    | _ \<Rightarrow> (screen_of (we_now E) ''Bu qadamda tugmalardan foydalaning.'' control_buttons user, wz)))"
    using st by (auto split: wizard_step.split elim!: res_bind_InrE
        intro!: wizard_fits_basic [OF assms] intro: state_valid_intros)
qed

text \<open>
  Every screen of the wizard can be sent: its text is within Telegram's 4096 characters and the data of
  each of its buttons within the 64 bytes Telegram accepts, for every user id below 36^11 (Telegram's are below
  2^52) and until the clock passes 36^7 seconds.
\<close>

theorem wizard_screens_fit:
  assumes "wizard_ok wz" and "user < 36 ^ 11" and "we_now E < 36 ^ 7"
  shows "buttons_fit user (fst (wizard_text E user t wz)) \<and> buttons_fit user (fst (wizard_callback E user action val wz))"
  using wizard_text_fits [OF assms] wizard_callback_fits [OF assms] by blast

theorem wizard_screens_fit_witness:
  "buttons_fit 777 (fst (wizard_text sample_wizard_env 777 ''Sergeli'' empty_wizard)) \<and>
   buttons_fit 777 (fst (wizard_callback sample_wizard_env 777 ''start'' [] empty_wizard))"
  by (rule wizard_screens_fit [OF empty_wizard_ok]) (simp_all add: sample_wizard_env_def)

end
