(* ===== verification/EF_NlpSearch.thy ===== *)
theory EF_NlpSearch
  imports EF_Wizard EF_LlmClient
begin

text \<open>
  Search in free text: \<open>services/nlp_search.py\<close> over the model fallback of EF_LlmClient, and the dialogue of the bot
  (\<open>bot/nlp_search.py\<close>) over the search wizard. The answers of the models, the reading of an answer by Pydantic
  and \<open>str.casefold\<close> are arguments; texts are UTF-8 bytes.
\<close>

section \<open>Names\<close>

definition MAX_NLP_QUERY_LENGTH :: nat where
  "MAX_NLP_QUERY_LENGTH = 140"

text \<open>The text of Cyrillic letters, two bytes each.\<close>

definition cyr :: "int list \<Rightarrow> string" where
  "cyr cs = concat (map (\<lambda>n. [char_of (192 + n div 64), char_of (128 + n mod 64)]) cs)"

definition NLP_DISTRICT_ALIASES :: "(string, string) dict" where
  "NLP_DISTRICT_ALIASES =
     [(''yunusobod'', ''Yunusobod''), (''yunusabad'', ''Yunusobod''),
      (cyr [0x44E] @ '' '' @ cyr [0x43D, 0x443, 0x441, 0x430, 0x431, 0x430, 0x434], ''Yunusobod''),
      (cyr [0x44E, 0x43D, 0x443, 0x441, 0x430, 0x431, 0x430, 0x434], ''Yunusobod''),
      (cyr [0x44E, 0x43D, 0x438, 0x441, 0x430, 0x431, 0x430, 0x434], ''Yunusobod''),
      (cyr [0x447, 0x438, 0x43B, 0x430, 0x43D, 0x437, 0x430, 0x440], ''Chilonzor''),
      (cyr [0x447, 0x438, 0x43B, 0x43E, 0x43D, 0x437, 0x43E, 0x440], ''Chilonzor''), (''chilonzor'', ''Chilonzor''),
      (''chilanazar'', ''Chilonzor''), (''sergeli'', ''Sergeli''),
      (cyr [0x441, 0x435, 0x440, 0x433, 0x435, 0x43B, 0x438], ''Sergeli''), (''mirzo ulugbek'', ''Mirzo Ulugbek''),
      (''mirzo ulug'' @ [CHR 0x27] @ ''bek'', ''Mirzo Ulugbek''),
      (cyr [0x43C, 0x438, 0x440, 0x437, 0x43E] @ '' '' @ cyr [0x443, 0x43B, 0x443, 0x433, 0x431, 0x435, 0x43A], ''Mirzo Ulugbek''),
      (''yakkasaroy'', ''Yakkasaroy''),
      (cyr [0x44F, 0x43A, 0x43A, 0x430, 0x441, 0x430, 0x440, 0x430, 0x439], ''Yakkasaroy''),
      (''shayxontohur'', ''Shayxontohur''),
      (cyr [0x448, 0x430, 0x439, 0x445, 0x430, 0x43D, 0x442, 0x430, 0x445, 0x443, 0x440], ''Shayxontohur''),
      (''olmazor'', ''Olmazor''), (cyr [0x430, 0x43B, 0x43C, 0x430, 0x437, 0x430, 0x440], ''Olmazor''),
      (''uchtepa'', ''Uchtepa''), (cyr [0x443, 0x447, 0x442, 0x435, 0x43F, 0x430], ''Uchtepa''),
      (''mirobod'', ''Mirobod''), (cyr [0x43C, 0x438, 0x440, 0x430, 0x431, 0x43E, 0x430, 0x434], ''Mirobod''),
      (cyr [0x43C, 0x438, 0x440, 0x43E, 0x431, 0x43E, 0x434], ''Mirobod''), (''yashnobod'', ''Yashnobod''),
      (cyr [0x44F, 0x448, 0x43D, 0x430, 0x431, 0x430, 0x434], ''Yashnobod''), (''bektemir'', ''Bektemir''),
      (cyr [0x431, 0x435, 0x43A, 0x442, 0x435, 0x43C, 0x438, 0x440], ''Bektemir'')]"

definition NLP_AUDIENCE_ALIASES :: "(string, string) dict" where
  "NLP_AUDIENCE_ALIASES =
     [(''young_family'', ''family''), (''young family'', ''family''), (''yosh oila'', ''family''),
      (cyr [0x451, 0x448] @ '' '' @ cyr [0x43E, 0x438, 0x43B, 0x430], ''family''),
      (cyr [0x43C, 0x43E, 0x43B, 0x43E, 0x434, 0x430, 0x44F] @ '' '' @ cyr [0x441, 0x435, 0x43C, 0x44C, 0x44F], ''family''),
      (cyr [0x441, 0x435, 0x43C, 0x44C, 0x44F], ''family''), (''oila'', ''family''), (''family'', ''family''),
      (''students'', ''students''), (''student'', ''students''), (''talaba'', ''students''),
      (''talabalar'', ''students''), (cyr [0x441, 0x442, 0x443, 0x434, 0x435, 0x43D, 0x442, 0x44B], ''students''),
      (''studenty'', ''students''), (''foreigners'', ''foreigners''), (''chet elliklar'', ''foreigners''),
      (cyr [0x438, 0x43D, 0x43E, 0x441, 0x442, 0x440, 0x430, 0x43D, 0x446, 0x44B], ''foreigners'')]"

text \<open>\<open>len\<close> of a text: its bytes that do not continue a character.\<close>

definition text_length :: "string \<Rightarrow> nat" where
  "text_length t = length (filter (\<lambda>c. \<not> (128 \<le> code_of c \<and> code_of c < 192)) t)"

text \<open>\<open>NlpSearchExtractionRaw\<close>, as Pydantic reads it from the answer of a model.\<close>

record nlp_raw =
  nr_monthly_budget :: "rat option"
  nr_include_per_person :: bool
  nr_districts :: "string list"
  nr_rooms :: "int option"
  nr_renovation_level :: "renovation_level option"
  nr_audience_tag :: "string option"
  nr_unapplied_conditions :: "string list"
  nr_confidence :: rat

record nlp_env =
  ne_casefold :: "string \<Rightarrow> string"
  ne_coerce :: "(string, json) dict \<Rightarrow> nlp_raw option"
  ne_min_confidence :: rat
  ne_models :: "string list"

record nlp_extraction =
  nx_criteria :: search_criteria
  nx_applied_fields :: "string list"
  nx_unapplied_conditions :: "string list"
  nx_confidence :: rat

section \<open>Reading an answer\<close>

definition fold_key :: "nlp_env \<Rightarrow> string \<Rightarrow> string" where
  "fold_key N v = collapse (ne_casefold N (strip v))"

definition nlp_district :: "nlp_env \<Rightarrow> string \<Rightarrow> string option" where
  "nlp_district N v = dict_get NLP_DISTRICT_ALIASES (fold_key N v)"

definition nlp_audience_tag :: "nlp_env \<Rightarrow> string \<Rightarrow> string option" where
  "nlp_audience_tag N v =
     (let key = fold_key N v; tag = (case dict_get NLP_AUDIENCE_ALIASES key of None \<Rightarrow> key | Some t \<Rightarrow> t)
      in if tag \<in> set (dict_keys SEED_AUDIENCE_TAGS) then Some tag else None)"

fun dedupe_texts :: "string list \<Rightarrow> string list \<Rightarrow> string list" where
  "dedupe_texts acc [] = acc"
| "dedupe_texts acc (v # vs) =
     dedupe_texts (if collapse v \<noteq> [] \<and> collapse v \<notin> set acc then acc @ [collapse v] else acc) vs"

text \<open>The constraints of the fields are checked before the validators run.\<close>

definition nlp_bounds_ok :: "nlp_raw \<Rightarrow> bool" where
  "nlp_bounds_ok r \<longleftrightarrow>
     (case nr_monthly_budget r of None \<Rightarrow> True | Some b \<Rightarrow> 0 \<le> b) \<and> length (nr_districts r) \<le> 5 \<and>
     (case nr_rooms r of None \<Rightarrow> True | Some n \<Rightarrow> 0 \<le> n \<and> n \<le> 20) \<and> length (nr_unapplied_conditions r) \<le> 8 \<and>
     0 \<le> nr_confidence r \<and> nr_confidence r \<le> 1"

definition nlp_model_validate :: "nlp_env \<Rightarrow> (string, json) dict \<Rightarrow> nlp_raw res" where
  "nlp_model_validate N content =
     (case ne_coerce N content of
        None \<Rightarrow> Inl (ValidationError ''NlpSearchExtractionRaw'')
      | Some r \<Rightarrow>
          if \<not> nlp_bounds_ok r then Inl (ValidationError ''NlpSearchExtractionRaw'')
          else (let r1 = r\<lparr>nr_districts := dedupe_texts [] (nr_districts r),
                   nr_unapplied_conditions := dedupe_texts [] (nr_unapplied_conditions r)\<rparr>
            in case nr_audience_tag r of
                 None \<Rightarrow> Inr r1
               | Some v \<Rightarrow> (case nlp_audience_tag N v of
                     None \<Rightarrow> Inl (ValidationError ''Unknown audience tag.'')
                   | Some t \<Rightarrow> Inr (r1\<lparr>nr_audience_tag := Some t\<rparr>))))"

definition normalize_nlp_search_extraction :: "nlp_env \<Rightarrow> nlp_raw \<Rightarrow> nlp_extraction res" where
  "normalize_nlp_search_extraction N r =
     (let districts = List.map_filter (nlp_district N) (nr_districts r) in
      res_bind (validate_criteria (default_criteria\<lparr>sc_max_price := nr_monthly_budget r,
          sc_include_per_person := nr_include_per_person r,
          sc_district := (case districts of [] \<Rightarrow> None | d # _ \<Rightarrow> Some d), sc_districts := districts,
          sc_rooms := nr_rooms r, sc_renovation_level := nr_renovation_level r, sc_audience_tag := nr_audience_tag r\<rparr>)) (\<lambda>c.
        Inr \<lparr>nx_criteria = c,
          nx_applied_fields =
            (if districts \<noteq> [] then [''districts''] else []) @ (if nr_rooms r \<noteq> None then [''rooms''] else []) @
            (if nr_monthly_budget r \<noteq> None then [''max_price''] else []) @
            (if nr_include_per_person r then [''include_per_person''] else []) @
            (if nr_renovation_level r \<noteq> None then [''renovation_level''] else []) @
            (if nr_audience_tag r \<noteq> None then [''audience_tag''] else []),
          nx_unapplied_conditions = dedupe_texts [] (nr_unapplied_conditions r), nx_confidence = nr_confidence r\<rparr>))"

section \<open>The extractor\<close>

definition validate_nlp_query_text :: "string \<Rightarrow> string res" where
  "validate_nlp_query_text t =
     (let n = collapse (strip t) in
      if n = [] then Inl (ValueError ''Qidiruv matnini yozing.'')
      else if MAX_NLP_QUERY_LENGTH < text_length n
      then Inl (ValueError ''Erkin qidiruv matni 140 belgidan oshmasin.'')
      else Inr n)"

text \<open>The fallback policy of this request looks at the confidence only.\<close>

definition nlp_request :: "nlp_env \<Rightarrow> llm_request" where
  "nlp_request N =
     \<lparr>rq_min_confidence = ne_min_confidence N, rq_listing_quality = False, rq_required_listing_fields = [],
      rq_schema_required = [], rq_schema_properties = None, rq_validator = None\<rparr>"

text \<open>\<open>(LLMError, ValidationError, ValueError)\<close>; JSON errors are value errors.\<close>

definition caught_by_extractor :: "py_error \<Rightarrow> bool" where
  "caught_by_extractor e =
     (case e of ValueError _ \<Rightarrow> True | ValidationError _ \<Rightarrow> True
      | OtherError c _ \<Rightarrow> c \<in> {''LLMError'', ''LLMConfigurationError'', ''LLMTransportError'',
          ''LLMMalformedResponseError'', ''LLMAllModelsFailedError''}
      | _ \<Rightarrow> False)"

definition NLP_EXTRACTION_FAILED :: py_error where
  "NLP_EXTRACTION_FAILED = OtherError ''NlpSearchExtractionFailedError'' ''NLP search extraction failed.''"

text \<open>\<open>ask\<close> answers for a normalised text.\<close>

definition nlp_extract ::
  "nlp_env \<Rightarrow> (string \<Rightarrow> nat \<Rightarrow> string \<Rightarrow> llm_answer) \<Rightarrow> string \<Rightarrow> nlp_extraction res" where
  "nlp_extract N ask t =
     res_bind (validate_nlp_query_text t) (\<lambda>n.
       case (case complete_json (nlp_request N) (ask n) (\<lambda>_. 0) (ne_models N) of
               (AllModelsFailed _, _) \<Rightarrow> Inl (OtherError ''LLMAllModelsFailedError'' ''All configured LLM models failed.'')
             | (Escaped e, _) \<Rightarrow> Inl e
             | (Completed rs _, _) \<Rightarrow>
                 res_bind (nlp_model_validate N (rs_content rs)) (normalize_nlp_search_extraction N)) of
         Inl e \<Rightarrow> Inl (if caught_by_extractor e then NLP_EXTRACTION_FAILED else e)
       | Inr x \<Rightarrow> Inr x)"

section \<open>The dialogue\<close>

record nlp_state =
  ns_owner_id :: int
  ns_extraction :: "nlp_extraction option"

type_synonym nlp_flow = "(int, nlp_state) dict"

definition nlp_control_buttons :: "(string \<times> string \<times> string \<times> string) list" where
  "nlp_control_buttons =
     [(''Wizardga o'' @ [CHR 0x27] @ ''tish'', ''nlp'', ''edit'', []), (''Bekor qilish'', ''nlp'', ''cancel'', [])]"

definition nlp_start :: "wizard_env \<Rightarrow> int \<Rightarrow> nlp_flow \<Rightarrow> bot_screen res \<times> nlp_flow" where
  "nlp_start E user fl =
     (screen_of (we_now E)
        (''Qidiruvni erkin matnda yozing. Masalan: Yunusobod 2 xona 600$ gacha yosh oila uchun'') nlp_control_buttons user,
      dict_put user \<lparr>ns_owner_id = user, ns_extraction = None\<rparr> fl)"

definition nlp_cancel :: "int \<Rightarrow> nlp_flow \<Rightarrow> bot_screen res \<times> nlp_flow" where
  "nlp_cancel user fl = (Inr \<lparr>bs_text = ''Erkin qidiruv bekor qilindi.'', bs_buttons = []\<rparr>, dict_pop user fl)"

definition nlp_pending :: "int \<Rightarrow> nlp_flow \<Rightarrow> bool" where
  "nlp_pending user fl \<longleftrightarrow> (case dict_get fl user of None \<Rightarrow> False | Some s \<Rightarrow> ns_extraction s = None)"

definition nlp_require_state :: "int \<Rightarrow> nlp_flow \<Rightarrow> nlp_state res" where
  "nlp_require_state user fl =
     (case dict_get fl user of
        None \<Rightarrow> Inl (ValueError ''NLP search state not found.'')
      | Some s \<Rightarrow> if ns_owner_id s \<noteq> user then Inl (PermissionError ''NLP search owner mismatch.'') else Inr s)"

definition or_unset :: "string option \<Rightarrow> string" where
  "or_unset v = (case v of None \<Rightarrow> ''tanlanmagan'' | Some t \<Rightarrow> if t = [] then ''tanlanmagan'' else t)"

definition nlp_summary_lines :: "wizard_env \<Rightarrow> nlp_extraction \<Rightarrow> string list" where
  "nlp_summary_lines E x =
     (let c = nx_criteria x in
      [''AI tushungan filterlar:'',
       ''Tuman: '' @ or_unset (Some (join '', '' (sc_districts c))),
       ''Xona: '' @ (case sc_rooms c of None \<Rightarrow> ''tanlanmagan'' | Some n \<Rightarrow> str_int n),
       ''Byudjet: '' @ (case sc_max_price c of None \<Rightarrow> ''tanlanmagan'' | Some p \<Rightarrow> we_decimal E p),
       ''Narx turi: '' @ (if sc_include_per_person c then ''kishi boshiga ham'' else ''faqat umumiy''),
       ''Remont: '' @ or_unset (map_option level_text (sc_renovation_level c)),
       ''Auditoriya: '' @ or_unset (sc_audience_tag c)] @
      (if nx_unapplied_conditions x = [] then []
       else [''Qo'' @ [CHR 0x27] @ ''llanmagan shartlar: '' @ join '', '' (nx_unapplied_conditions x)]))"

definition nlp_summary_screen :: "wizard_env \<Rightarrow> int \<Rightarrow> nlp_extraction \<Rightarrow> bot_screen res" where
  "nlp_summary_screen E user x =
     screen_of (we_now E) (join [CHR 0x0A] (nlp_summary_lines E x))
       [(''Tasdiqlash'', ''nlp'', ''confirm'', []), (''Wizardda tahrirlash'', ''nlp'', ''edit'', []),
        (''Bekor qilish'', ''nlp'', ''cancel'', [])] user"

definition nlp_fallback_screen :: "wizard_env \<Rightarrow> int \<Rightarrow> bot_screen res" where
  "nlp_fallback_screen E user =
     screen_of (we_now E)
       (''Matnni ishonchli filterga aylantira olmadim. '' @
        ''Qidiruvni bosqichma-bosqich wizard orqali davom ettirishingiz mumkin.'')
       [(''Wizardni ochish'', ''nlp'', ''edit'', []), (''Bekor qilish'', ''nlp'', ''cancel'', [])] user"

definition nlp_text ::
  "nlp_env \<Rightarrow> (string \<Rightarrow> nat \<Rightarrow> string \<Rightarrow> llm_answer) \<Rightarrow> wizard_env \<Rightarrow> int \<Rightarrow> string \<Rightarrow> nlp_flow \<Rightarrow>
   bot_screen res \<times> nlp_flow" where
  "nlp_text N ask E user t fl =
     (case nlp_require_state user fl of
        Inl e \<Rightarrow> (Inl e, fl)
      | Inr s \<Rightarrow>
          (case validate_nlp_query_text t of
             Inl (ValueError m) \<Rightarrow> (screen_of (we_now E) m nlp_control_buttons user, fl)
           | Inl e \<Rightarrow> (Inl e, fl)
           | Inr _ \<Rightarrow>
               (case nlp_extract N ask t of
                  Inl e \<Rightarrow> (if e = NLP_EXTRACTION_FAILED then nlp_fallback_screen E user else Inl e, fl)
                | Inr x \<Rightarrow> (nlp_summary_screen E user x, dict_put user (s\<lparr>ns_extraction := Some x\<rparr>) fl))))"

text \<open>The state is dropped before the wizard is asked.\<close>

definition nlp_callback ::
  "wizard_env \<Rightarrow> int \<Rightarrow> string \<Rightarrow> nlp_flow \<times> search_wizard \<Rightarrow> bot_screen res \<times> nlp_flow \<times> search_wizard" where
  "nlp_callback E user action fw =
     (let (fl, wz) = fw in
      if action = ''start'' then (let (r, f) = nlp_start E user fl in (r, f, wz))
      else if action = ''cancel'' then (let (r, f) = nlp_cancel user fl in (r, f, wz))
      else if action = ''edit'' then (let (r, w) = wizard_start E user wz in (r, dict_pop user fl, w))
      else if action = ''confirm'' then
        (case res_bind (nlp_require_state user fl) (\<lambda>s.
            case ns_extraction s of None \<Rightarrow> Inl (ValueError ''NLP search criteria is not ready.'') | Some x \<Rightarrow> Inr x) of
           Inl e \<Rightarrow> (Inl e, fl, wz)
         | Inr x \<Rightarrow> (let (r, w) = run_criteria E user (nx_criteria x) wz in (r, dict_pop user fl, w)))
      else (Inl (ValueError ''Unsupported NLP search action.''), fl, wz))"


section \<open>An answer becomes criteria, whatever the models say\<close>

definition nlp_district_names :: "string set" where
  "nlp_district_names = set (dict_values NLP_DISTRICT_ALIASES)"

definition criteria_safe :: "search_criteria \<Rightarrow> bool" where
  "criteria_safe c \<longleftrightarrow> validate_criteria c = Inr c \<and> set (sc_districts c) \<subseteq> nlp_district_names \<and>
     length (sc_districts c) \<le> 5 \<and> (\<forall>n. sc_rooms c = Some n \<longrightarrow> 0 \<le> n \<and> n \<le> 20) \<and>
     (\<forall>p. sc_max_price c = Some p \<longrightarrow> 0 \<le> p) \<and> (\<forall>t. sc_audience_tag c = Some t \<longrightarrow> t \<in> set (dict_keys SEED_AUDIENCE_TAGS)) \<and>
     sc_min_price c = None \<and> sc_sort c = Newest \<and> sc_limit c = 10 \<and> sc_offset c = 0"

lemma nlp_names_normal: "d \<in> nlp_district_names \<Longrightarrow> d \<noteq> [] \<and> collapse d = d"
proof -
  have "list_all (\<lambda>d. d \<noteq> [] \<and> collapse d = d) (dict_values KNOWN_DISTRICTS)" by code_simp
  moreover have "set (dict_values NLP_DISTRICT_ALIASES) \<subseteq> set (dict_values KNOWN_DISTRICTS)"
    by (simp add: NLP_DISTRICT_ALIASES_def KNOWN_DISTRICTS_def)
  ultimately show "d \<in> nlp_district_names \<Longrightarrow> d \<noteq> [] \<and> collapse d = d"
    unfolding nlp_district_names_def list_all_iff by blast
qed

lemma nlp_district_known: "nlp_district N v = Some d \<Longrightarrow> d \<in> nlp_district_names"
  by (auto simp: nlp_district_def nlp_district_names_def dest: dict_get_in_values)

lemma length_dedupe_texts: "length (dedupe_texts acc vs) \<le> length acc + length vs"
proof (induction vs arbitrary: acc)
  case (Cons v vs)
  from Cons.IH [of acc] Cons.IH [of "acc @ [collapse v]"] show ?case by simp
qed simp

lemma length_map_filter: "length (List.map_filter f xs) \<le> length xs"
  by (induction xs) (auto simp: List.map_filter_simps split: option.split)

lemma set_map_filter: "set (List.map_filter f xs) = {y. \<exists>x \<in> set xs. f x = Some y}"
  by (induction xs) (auto simp: List.map_filter_simps split: option.split)

lemma set_normalize_districts:
  "\<forall>d \<in> set ds. collapse d = d \<Longrightarrow> set (normalize_districts acc ds) \<subseteq> set acc \<union> set ds"
proof (induction ds arbitrary: acc)
  case (Cons d ds)
  from Cons.IH [of acc] Cons.IH [of "acc @ [collapse d]"] Cons.prems show ?case by auto
qed simp

lemma hd_in_normalize_districts:
  "d \<noteq> [] \<Longrightarrow> collapse d = d \<Longrightarrow> \<exists>ys. normalize_districts [] (d # ds) = d # ys"
proof -
  assume d: "d \<noteq> []" "collapse d = d"
  have "\<exists>ys. normalize_districts (a # as) ds = a # ys" for a as
    by (induction ds arbitrary: as) auto
  with d show ?thesis by simp
qed

lemma synchronized_districts:
  assumes "\<forall>d \<in> set ds. d \<noteq> [] \<and> collapse d = d"
  defines "out \<equiv> synchronize_district_filters (normalize_space (case ds of [] \<Rightarrow> None | d # _ \<Rightarrow> Some d)) (normalize_districts [] ds)"
  shows "set out \<subseteq> set ds \<and> length out \<le> length ds"
proof (cases ds)
  case Nil
  then show ?thesis by (simp add: out_def normalize_space_def synchronize_district_filters_def)
next
  case (Cons d rest)
  then have d: "d \<noteq> []" "collapse d = d" using assms(1) by simp_all
  obtain ys where ys: "normalize_districts [] ds = d # ys" using hd_in_normalize_districts [OF d] Cons by auto
  have out: "out = d # dedupe_districts [lower d] ys"
    unfolding out_def ys by (simp add: Cons d synchronize_district_filters_def normalize_space_def)
  have "set (d # ys) \<subseteq> set ds" using set_normalize_districts [of ds "[]"] assms(1) ys by auto
  moreover have "length (d # ys) \<le> length ds" using length_normalize_districts [of "[]" ds] ys by simp
  ultimately show ?thesis
    using dedupe_districts_props [of "[lower d]" ys] length_dedupe [of "[lower d]" ys] unfolding out by auto
qed

lemma nlp_raw_read:
  assumes "nlp_model_validate N content = Inr r"
  shows "nlp_bounds_ok r" "\<forall>t. nr_audience_tag r = Some t \<longrightarrow> t \<in> set (dict_keys SEED_AUDIENCE_TAGS)"
proof -
  obtain q where q: "ne_coerce N content = Some q" "nlp_bounds_ok q"
    using assms by (auto simp: nlp_model_validate_def split: option.splits if_splits)
  let ?q = "q\<lparr>nr_districts := dedupe_texts [] (nr_districts q), nr_unapplied_conditions := dedupe_texts [] (nr_unapplied_conditions q)\<rparr>"
  have ok: "nlp_bounds_ok (?q\<lparr>nr_audience_tag := t\<rparr>)" for t
    using q(2) length_dedupe_texts [of "[]" "nr_districts q"] length_dedupe_texts [of "[]" "nr_unapplied_conditions q"]
    by (auto simp: nlp_bounds_ok_def split: option.splits)
  have cases: "r = ?q\<lparr>nr_audience_tag := None\<rparr> \<or>
      (\<exists>v t. nlp_audience_tag N v = Some t \<and> r = ?q\<lparr>nr_audience_tag := Some t\<rparr>)"
    using assms q by (cases "nr_audience_tag q") (auto simp: nlp_model_validate_def Let_def split: option.splits)
  then show "nlp_bounds_ok r" using ok by auto
  show "\<forall>t. nr_audience_tag r = Some t \<longrightarrow> t \<in> set (dict_keys SEED_AUDIENCE_TAGS)"
    using cases by (auto simp: nlp_audience_tag_def Let_def split: if_splits)
qed

lemma normalized_extraction:
  assumes "nlp_bounds_ok r" and "\<forall>t. nr_audience_tag r = Some t \<longrightarrow> t \<in> set (dict_keys SEED_AUDIENCE_TAGS)"
  shows "\<exists>x. normalize_nlp_search_extraction N r = Inr x \<and> criteria_safe (nx_criteria x) \<and>
    (set (sc_districts (nx_criteria x)) \<subseteq> set (List.map_filter (nlp_district N) (nr_districts r)))"
proof -
  let ?ds = "List.map_filter (nlp_district N) (nr_districts r)"
  let ?c = "default_criteria\<lparr>sc_max_price := nr_monthly_budget r,
          sc_include_per_person := nr_include_per_person r,
          sc_district := (case ?ds of [] \<Rightarrow> None | d # _ \<Rightarrow> Some d), sc_districts := ?ds,
          sc_rooms := nr_rooms r, sc_renovation_level := nr_renovation_level r, sc_audience_tag := nr_audience_tag r\<rparr>"
  have known: "set ?ds \<subseteq> nlp_district_names" by (auto simp: set_map_filter dest: nlp_district_known)
  have five: "length ?ds \<le> 5" using length_map_filter [of "nlp_district N" "nr_districts r"] assms(1) by (simp add: nlp_bounds_ok_def)
  have normal: "\<forall>d \<in> set ?ds. d \<noteq> [] \<and> collapse d = d" using known nlp_names_normal by blast
  note sync = synchronized_districts [OF normal, THEN conjunct1] synchronized_districts [OF normal, THEN conjunct2]
  have tag: "validate_audience_tag (nr_audience_tag r) = Inr (nr_audience_tag r)"
    using assms(2) bspec [OF seed_tags_normal] by (cases "nr_audience_tag r") (simp_all add: validate_audience_tag_def del: set_map)
  have "length (normalize_districts [] ?ds) \<le> 12" using length_normalize_districts [of "[]" ?ds] five by simp
  moreover have "bounds_ok ?c" "range_ok ?c"
    using assms(1) by (auto simp: bounds_ok_def range_ok_def nlp_bounds_ok_def default_criteria_def split: option.splits)
  ultimately obtain d where d: "validate_criteria ?c = Inr d"
    and same: "sc_districts d = synchronize_district_filters (normalize_space (case ?ds of [] \<Rightarrow> None | d # _ \<Rightarrow> Some d)) (normalize_districts [] ?ds)"
      "sc_rooms d = nr_rooms r" "sc_max_price d = nr_monthly_budget r" "sc_audience_tag d = nr_audience_tag r" "sc_min_price d = None"
      "sc_sort d = Newest" "sc_limit d = 10" "sc_offset d = 0"
    by (auto simp: validate_criteria_def Let_def tag default_criteria_def)
  have "validate_criteria d = Inr d"
    using validate_criteria_again [OF d] sync(2) five by (simp add: same)
  then have "criteria_safe d"
    using sync known five same assms by (auto simp: criteria_safe_def nlp_bounds_ok_def split: option.splits)
  with d sync(1) show ?thesis by (simp add: normalize_nlp_search_extraction_def Let_def same)
qed


lemma nlp_extract_safe:
  assumes "nlp_extract N ask t = Inr x"
  shows "criteria_safe (nx_criteria x)"
proof -
  obtain content r where r: "nlp_model_validate N content = Inr r" "normalize_nlp_search_extraction N r = Inr x"
    using assms by (auto simp: nlp_extract_def elim!: res_bind_InrE split: sum.splits llm_result.splits prod.splits)
  with normalized_extraction [OF nlp_raw_read [OF r(1)], of N] show ?thesis by auto
qed

text \<open>
  Whatever the models answer to a text, an extraction is a search the user could have composed: criteria that
  validate unchanged, with at most five of the known districts, a seed audience, bounded rooms, no minimum price and
  the default page.
\<close>

theorem nlp_criteria_safe:
  assumes "nlp_extract N ask t = Inr x"
  shows "criteria_safe (nx_criteria x)"
  using assms by (rule nlp_extract_safe)

lemma map_filter_none: "\<forall>v \<in> set vs. f v = None \<Longrightarrow> List.map_filter f vs = []"
  by (induction vs) (auto simp: List.map_filter_simps)

text \<open>
  Districts the table does not know are dropped without a word: the search then covers every district, and neither
  the applied fields nor the conditions reported as not applied mention them.
\<close>

theorem unknown_districts_dropped:
  assumes "nlp_model_validate N content = Inr r" and "\<forall>v \<in> set (nr_districts r). nlp_district N v = None"
  shows "\<exists>x. normalize_nlp_search_extraction N r = Inr x \<and> sc_districts (nx_criteria x) = [] \<and>
    ''districts'' \<notin> set (nx_applied_fields x) \<and>
    nx_unapplied_conditions x = dedupe_texts [] (nr_unapplied_conditions r)"
proof -
  obtain x where x: "normalize_nlp_search_extraction N r = Inr x"
      "set (sc_districts (nx_criteria x)) \<subseteq> set (List.map_filter (nlp_district N) (nr_districts r))"
    using normalized_extraction [OF nlp_raw_read [OF assms(1)]] by blast
  then show ?thesis
    using map_filter_none [OF assms(2)]
    by (auto simp: normalize_nlp_search_extraction_def Let_def elim!: res_bind_InrE)
qed

section \<open>What was confirmed is what is searched\<close>

lemma validate_other_limit:
  assumes "validate_criteria c = Inr c" and "1 \<le> l" and "l \<le> 50"
  shows "validate_criteria (c\<lparr>sc_limit := l\<rparr>) = Inr (c\<lparr>sc_limit := l\<rparr>)"
proof -
  have "bounds_ok (c\<lparr>sc_limit := l\<rparr>)" "range_ok (c\<lparr>sc_limit := l\<rparr>)"
    using assms by (auto simp: bounds_ok_def range_ok_def validate_criteria_def Let_def split: if_splits elim!: res_bind_InrE)
  moreover obtain tag where tag: "validate_audience_tag (sc_audience_tag c) = Inr tag"
    and len: "length (normalize_districts [] (sc_districts c)) \<le> 12"
    and eq: "c = c\<lparr>sc_district := (case synchronize_district_filters (normalize_space (sc_district c)) (normalize_districts [] (sc_districts c))
          of [] \<Rightarrow> None | d # _ \<Rightarrow> Some d),
        sc_districts := synchronize_district_filters (normalize_space (sc_district c)) (normalize_districts [] (sc_districts c)),
        sc_audience_tag := tag\<rparr>"
    using assms(1) by (auto simp: validate_criteria_def Let_def split: if_splits elim!: res_bind_InrE)
  note same = arg_cong [OF eq, of sc_district, simplified, symmetric] arg_cong [OF eq, of sc_districts, simplified, symmetric]
    arg_cong [OF eq, of sc_audience_tag, simplified, symmetric]
  ultimately show ?thesis
    using len by (auto simp: validate_criteria_def Let_def tag same intro: search_criteria.equality)
qed

text \<open>
  Confirming an extraction searches for exactly the criteria whose summary the user saw, only in the pages of the
  wizard; the free text dialogue is over and the wizard of the user holds the same criteria.
\<close>

theorem confirmed_search_is_summary:
  assumes "nlp_extract N ask t = Inr x" and "nlp_require_state user fl = Inr s" and "we_activate E = None"
  shows "\<exists>wz1. nlp_callback E user ''confirm'' (snd (nlp_text N ask E user t fl), wz) =
      (result_screen E user (search_announcements ((nx_criteria x)\<lparr>sc_limit := PAGE_SIZE\<rparr>) (we_repository E)),
       dict_pop user (snd (nlp_text N ask E user t fl)), wz1) \<and>
    current_criteria user wz1 = Inr ((nx_criteria x)\<lparr>sc_limit := PAGE_SIZE\<rparr>) \<and> \<not> nlp_pending user (dict_pop user fl)"
proof -
  let ?c = "nx_criteria x"
  have safe: "criteria_safe ?c" using assms(1) by (rule nlp_extract_safe)
  have shape: "\<lparr>sc_min_price = None, sc_max_price = sc_max_price ?c, sc_include_per_person = sc_include_per_person ?c,
      sc_district = sc_district ?c, sc_districts = sc_districts ?c, sc_rooms = sc_rooms ?c,
      sc_renovation_level = sc_renovation_level ?c, sc_audience_tag = sc_audience_tag ?c, sc_sort = Newest,
      sc_limit = PAGE_SIZE, sc_offset = 0\<rparr> = ?c\<lparr>sc_limit := PAGE_SIZE\<rparr>"
    using safe by (cases ?c) (simp add: criteria_safe_def)
  have crit: "state_criteria (state_of_criteria user ?c) 0 = Inr (?c\<lparr>sc_limit := PAGE_SIZE\<rparr>)"
  proof -
    have "state_criteria (state_of_criteria user ?c) 0 = validate_criteria (?c\<lparr>sc_limit := PAGE_SIZE\<rparr>)"
      unfolding shape [symmetric] by (simp add: state_criteria_def state_of_criteria_def)
    then show ?thesis using validate_other_limit [of ?c PAGE_SIZE] safe by (simp add: criteria_safe_def PAGE_SIZE_def)
  qed
  obtain v where valid: "validate_nlp_query_text t = Inr v" using assms(1) by (auto simp: nlp_extract_def elim!: res_bind_InrE)
  have owner: "ns_owner_id s = user" using assms(2) by (auto simp: nlp_require_state_def split: option.splits if_splits)
  have fl: "snd (nlp_text N ask E user t fl) = dict_put user (s\<lparr>ns_extraction := Some x\<rparr>) fl"
    using assms(1,2) valid by (simp add: nlp_text_def)
  have "current_criteria user (put_state user (state_of_criteria user ?c) w\<lparr>wz_events := es\<rparr>) = Inr (?c\<lparr>sc_limit := PAGE_SIZE\<rparr>)" for w es
    using crit by (simp add: current_criteria_def require_state_def put_state_def dict_get_put state_of_criteria_def)
  moreover have "\<not> nlp_pending user (dict_pop user fl)" by (simp add: nlp_pending_def dict_get_pop)
  ultimately show ?thesis
    using owner crit assms(3)
    by (simp add: fl nlp_callback_def nlp_require_state_def dict_get_put run_criteria_def show_results_def
        record_search_activation_def Let_def)
qed


section \<open>Examples\<close>

text \<open>A model that reads the district it is given.\<close>

definition sample_nlp_env :: "string \<Rightarrow> nlp_env" where
  "sample_nlp_env district =
     \<lparr>ne_casefold = lower,
      ne_coerce = (\<lambda>_. Some \<lparr>nr_monthly_budget = Some 600, nr_include_per_person = False, nr_districts = [district],
        nr_rooms = Some 2, nr_renovation_level = None, nr_audience_tag = None, nr_unapplied_conditions = [''metro''],
        nr_confidence = 9/10\<rparr>),
      ne_min_confidence = 1/4, ne_models = [''m'']\<rparr>"

definition sample_nlp_answer :: "string \<Rightarrow> nat \<Rightarrow> string \<Rightarrow> llm_answer" where
  "sample_nlp_answer t stage model =
     Answered \<lparr>rs_model = model, rs_content = [], rs_confidence = 9/10, rs_usage = [], rs_provider_request_id = None\<rparr>"

lemma sample_extraction:
  "\<exists>x. nlp_extract (sample_nlp_env ''Yunusobod'') sample_nlp_answer ''2 xona'' = Inr x \<and> sc_districts (nx_criteria x) = [''Yunusobod'']"
proof -
  have "case nlp_extract (sample_nlp_env ''Yunusobod'') sample_nlp_answer ''2 xona'' of Inl _ \<Rightarrow> False
    | Inr x \<Rightarrow> sc_districts (nx_criteria x) = [''Yunusobod'']"
    by code_simp
  then show ?thesis by (auto split: sum.splits)
qed

lemma sample_unknown: "nlp_district (sample_nlp_env ''Qibray'') ''Qibray'' = None"
  by code_simp


lemma nlp_criteria_safe_witness:
  "\<exists>x. nlp_extract (sample_nlp_env ''Yunusobod'') sample_nlp_answer ''2 xona'' = Inr x \<and> criteria_safe (nx_criteria x)"
  using sample_extraction nlp_criteria_safe by blast

lemma unknown_districts_dropped_witness:
  "\<exists>x. normalize_nlp_search_extraction (sample_nlp_env ''Qibray'') (the (ne_coerce (sample_nlp_env ''Qibray'') [])) = Inr x \<and>
     sc_districts (nx_criteria x) = [] \<and> ''districts'' \<notin> set (nx_applied_fields x) \<and> nx_unapplied_conditions x = [''metro'']"
proof -
  let ?r = "the (ne_coerce (sample_nlp_env ''Qibray'') [])"
  have texts: "dedupe_texts [] [''Qibray''] = [''Qibray'']" "dedupe_texts [] [''metro''] = [''metro'']" by code_simp+
  then have "nlp_model_validate (sample_nlp_env ''Qibray'') [] = Inr ?r"
    by (simp add: nlp_model_validate_def sample_nlp_env_def nlp_bounds_ok_def Let_def)
  moreover have "nr_districts ?r = [''Qibray'']" "nr_unapplied_conditions ?r = [''metro'']" by (simp_all add: sample_nlp_env_def)
  ultimately show ?thesis
    using unknown_districts_dropped [of "sample_nlp_env ''Qibray''" "[]" ?r] sample_unknown texts by simp
qed

lemma confirmed_search_is_summary_witness:
  "\<exists>x wz1. nlp_extract (sample_nlp_env ''Yunusobod'') sample_nlp_answer ''2 xona'' = Inr x \<and>
     sc_districts (nx_criteria x) = [''Yunusobod''] \<and>
     current_criteria 7 wz1 = Inr ((nx_criteria x)\<lparr>sc_limit := 3\<rparr>)"
proof -
  obtain x where x: "nlp_extract (sample_nlp_env ''Yunusobod'') sample_nlp_answer ''2 xona'' = Inr x"
      "sc_districts (nx_criteria x) = [''Yunusobod'']"
    using sample_extraction by blast
  let ?fl = "snd (nlp_start (sample_wizard_env\<lparr>we_activate := None\<rparr>) 7 [])"
  have "nlp_require_state 7 ?fl = Inr \<lparr>ns_owner_id = 7, ns_extraction = None\<rparr>"
    by (simp add: nlp_start_def nlp_require_state_def dict_get_put)
  from confirmed_search_is_summary [OF x(1) this, of "sample_wizard_env\<lparr>we_activate := None\<rparr>" empty_wizard] x
  show ?thesis by (auto simp: PAGE_SIZE_def)
qed

section \<open>Other users\<close>

lemma nlp_other:
  "u \<noteq> v \<Longrightarrow> dict_get (snd (nlp_text N ask E u t fl)) v = dict_get fl v"
  "u \<noteq> v \<Longrightarrow> dict_get (snd (nlp_start E u fl)) v = dict_get fl v"
  "u \<noteq> v \<Longrightarrow> dict_get (snd (nlp_cancel u fl)) v = dict_get fl v"
  by (auto simp: nlp_text_def nlp_start_def nlp_cancel_def dict_get_put dict_get_pop split: sum.split py_error.split)

lemma nlp_callback_other:
  assumes "u \<noteq> v"
  shows "dict_get (fst (snd (nlp_callback E u a (fl, wz)))) v = dict_get fl v"
    and "dict_get (wz_states (snd (snd (nlp_callback E u a (fl, wz))))) v = dict_get (wz_states wz) v"
  using assms by (simp_all add: nlp_callback_def nlp_start_def nlp_cancel_def Let_def case_prod_beta dict_get_put dict_get_pop
      wizard_start_def put_state_def run_criteria_def split: sum.split)

end
