(* ===== verification/EF_FilterBot.thy ===== *)
theory EF_FilterBot
  imports EF_Wizard EF_SavedFilters
begin

text \<open>
  Saved filters in the bot (\<open>bot/saved_filters.py\<close>): the screens and the pending name and edit of each user over
  the saved-filter service. The clocks, the identifier \<open>uuid4\<close> yields, the activation recorder and the two
  formats of a decimal (\<open>str\<close> and \<open>:g\<close>) are arguments; texts are UTF-8 bytes.
\<close>

section \<open>State\<close>

record pending_filter_write =
  pw_criteria :: search_criteria
  pw_filter_id :: "string option"

record filter_bot =
  fb_store :: filter_store
  fb_pending_names :: "(int, pending_filter_write) dict"
  fb_pending_edits :: "(int, string) dict"

record filter_bot_env =
  fe_limit :: nat
  fe_activate :: "int \<Rightarrow> string \<Rightarrow> unit res"
  fe_time :: time
  fe_clock :: int
  fe_new_id :: string
  fe_str :: "rat \<Rightarrow> string"
  fe_general :: "rat \<Rightarrow> string"

section \<open>Texts\<close>

definition filter_title :: "user_filter \<Rightarrow> string" where
  "filter_title f = uf_name f @ '' ('' @ (if uf_enabled f then ''on'' else ''off'') @ '')''"

definition or_skip :: "string option \<Rightarrow> string" where
  "or_skip v = (case v of None \<Rightarrow> ''skip'' | Some t \<Rightarrow> if t = [] then ''skip'' else t)"

definition DISABLED_TEXT :: string where
  "DISABLED_TEXT = ''o'' @ [CHR 0xE2, CHR 0x80, CHR 0x98] @ ''chirilgan''"

definition filter_details :: "(rat \<Rightarrow> string) \<Rightarrow> user_filter \<Rightarrow> string" where
  "filter_details dec f =
     (let c = uf_criteria f in
      join [CHR 0x0A]
        [''Nomi: '' @ uf_name f,
         ''Holat: '' @ (if uf_enabled f then ''yoqilgan'' else DISABLED_TEXT),
         ''Tuman: '' @ or_skip (Some (join '', '' (sc_districts c))),
         ''Xona: '' @ (case sc_rooms c of None \<Rightarrow> ''skip'' | Some r \<Rightarrow> str_int r),
         ''Byudjet: '' @ (case sc_max_price c of None \<Rightarrow> ''skip'' | Some p \<Rightarrow> dec p),
         ''Kishiga narx: '' @ (if sc_include_per_person c then ''ha'' else ''yoq''),
         ''Remont: '' @ or_skip (map_option level_text (sc_renovation_level c)),
         ''Auditoriya: '' @ or_skip (sc_audience_tag c)])"

definition default_name :: "(rat \<Rightarrow> string) \<Rightarrow> search_criteria \<Rightarrow> string" where
  "default_name general c =
     (if sc_districts c = [] then ''Barcha tumanlar'' else join '', '' (sc_districts c)) @ '' '' @
     (case sc_rooms c of None \<Rightarrow> ''xona skip'' | Some r \<Rightarrow> str_int r @ '' xona'') @ '' '' @
     (case sc_max_price c of None \<Rightarrow> ''byudjet skip'' | Some p \<Rightarrow> general p @ ''$'')"

section \<open>Operations\<close>

definition filter_list_screen :: "filter_bot_env \<Rightarrow> int \<Rightarrow> filter_bot \<Rightarrow> bot_screen res" where
  "filter_list_screen E user fb =
     (let fs = list_for_user user (fb_store fb) in
      if fs = [] then Inr \<lparr>bs_text = ''Hali saqlangan filtr yo'' @ [CHR 0x27] @ ''q.'', bs_buttons = []\<rparr>
      else screen_of (fe_clock E) ''Saqlangan filtrlar''
             (map (\<lambda>f. (filter_title f, ''filter'', ''view'', uf_filter_id f)) fs) user)"

definition filter_get :: "int \<Rightarrow> string \<Rightarrow> filter_bot \<Rightarrow> user_filter res" where
  "filter_get user fid fb =
     (case get_for_user user fid (fb_store fb) of
        None \<Rightarrow> Inl (PermissionError ''Saved filter not found or not owned by user.'') | Some f \<Rightarrow> Inr f)"

definition filter_view_screen :: "filter_bot_env \<Rightarrow> int \<Rightarrow> string \<Rightarrow> filter_bot \<Rightarrow> bot_screen res" where
  "filter_view_screen E user fid fb =
     res_bind (filter_get user fid fb) (\<lambda>f.
       screen_of (fe_clock E) (filter_details (fe_str E) f)
         [(''Qayta qidirish'', ''filter'', ''run'', fid), (''Tahrirlash'', ''filter'', ''edit'', fid),
          (if uf_enabled f then (''O'' @ [CHR 0x27] @ ''chirish'', ''filter'', ''disable'', fid)
           else (''Yoqish'', ''filter'', ''enable'', fid)),
          (''Butunlay o'' @ [CHR 0x27] @ ''chirish'', ''filter'', ''delete_confirm'', fid),
          (''Ro'' @ [CHR 0x27] @ ''yxat'', ''filter'', ''list'', [])] user)"

definition begin_save :: "filter_bot_env \<Rightarrow> int \<Rightarrow> search_criteria \<Rightarrow> filter_bot \<Rightarrow> bot_screen res \<times> filter_bot" where
  "begin_save E user c fb =
     (screen_of (fe_clock E) ''Filtr nomini yozing. Masalan: Yunusobod 2 xona'' [(''Bekor qilish'', ''filter'', ''cancel'', [])] user,
      fb\<lparr>fb_pending_names := dict_put user \<lparr>pw_criteria = c, pw_filter_id = None\<rparr> (fb_pending_names fb)\<rparr>)"

definition begin_update ::
  "filter_bot_env \<Rightarrow> int \<Rightarrow> string \<Rightarrow> search_criteria \<Rightarrow> filter_bot \<Rightarrow> bot_screen res \<times> filter_bot" where
  "begin_update E user fid c fb =
     (screen_of (fe_clock E) ''Yangilangan filtr nomini yozing yoki eski nom uchun /skip yuboring.''
        [(''Bekor qilish'', ''filter'', ''cancel'', [])] user,
      fb\<lparr>fb_pending_names := dict_put user \<lparr>pw_criteria = c, pw_filter_id = Some fid\<rparr> (fb_pending_names fb)\<rparr>)"

definition begin_edit :: "int \<Rightarrow> string \<Rightarrow> filter_bot \<Rightarrow> filter_bot" where
  "begin_edit user fid fb = fb\<lparr>fb_pending_edits := dict_put user fid (fb_pending_edits fb)\<rparr>"

definition pending_edit_filter_id :: "int \<Rightarrow> filter_bot \<Rightarrow> string option" where
  "pending_edit_filter_id user fb = dict_get (fb_pending_edits fb) user"

text \<open>Running a service call on the store of the controller.\<close>

definition on_store :: "'a res \<times> filter_store \<Rightarrow> filter_bot \<Rightarrow> 'a res \<times> filter_bot" where
  "on_store r fb = (fst r, fb\<lparr>fb_store := snd r\<rparr>)"

text \<open>The pending write is dropped before the name is checked.\<close>

definition handle_name_text ::
  "filter_bot_env \<Rightarrow> int \<Rightarrow> string \<Rightarrow> filter_bot \<Rightarrow> bot_screen option res \<times> filter_bot" where
  "handle_name_text E user t fb =
     (case dict_get (fb_pending_names fb) user of
        None \<Rightarrow> (Inr None, fb)
      | Some p \<Rightarrow>
          (let fb1 = fb\<lparr>fb_pending_names := dict_pop user (fb_pending_names fb)\<rparr>;
               name = (if strip t = ''/skip'' then None else Some t)
           in (case pw_filter_id p of
                None \<Rightarrow>
                  then_do (on_store (service_create (fe_limit E) (fe_activate E) (fe_time E) (fe_new_id E) user
                      (case name of None \<Rightarrow> default_name (fe_general E) (pw_criteria p) | Some n \<Rightarrow> n)
                      (pw_criteria p) (fb_store fb1)) fb1)
                    (\<lambda>f fb2. (res_bind (filter_view_screen E user (uf_filter_id f) fb2) (\<lambda>s. Inr (Some s)), fb2))
              | Some fid \<Rightarrow>
                  then_do (on_store (service_update (fe_time E) user fid name (Some (pw_criteria p)) None (fb_store fb1)) fb1)
                    (\<lambda>f fb2. let fb3 = fb2\<lparr>fb_pending_edits := dict_pop user (fb_pending_edits fb2)\<rparr>
                      in (res_bind (filter_view_screen E user (uf_filter_id f) fb3) (\<lambda>s. Inr (Some s)), fb3)))))"

definition set_enabled_screen ::
  "filter_bot_env \<Rightarrow> int \<Rightarrow> string \<Rightarrow> bool \<Rightarrow> filter_bot \<Rightarrow> bot_screen res \<times> filter_bot" where
  "set_enabled_screen E user fid enabled fb =
     then_do (on_store (set_filter_enabled (fe_time E) user fid enabled (fb_store fb)) fb)
       (\<lambda>f fb1. (filter_view_screen E user (uf_filter_id f) fb1, fb1))"

definition delete_confirm_screen :: "filter_bot_env \<Rightarrow> int \<Rightarrow> string \<Rightarrow> filter_bot \<Rightarrow> bot_screen res" where
  "delete_confirm_screen E user fid fb =
     res_bind (filter_get user fid fb) (\<lambda>f.
       screen_of (fe_clock E) ([CHR 0x27] @ uf_name f @ [CHR 0x27] @ '' filtrini butunlay o'' @ [CHR 0x27] @ ''chirasizmi?'')
         [(''Ha, o'' @ [CHR 0x27] @ ''chirish'', ''filter'', ''delete'', fid), (''Yo'' @ [CHR 0x27] @ ''q'', ''filter'', ''view'', fid)] user)"

definition delete_screen :: "filter_bot_env \<Rightarrow> int \<Rightarrow> string \<Rightarrow> filter_bot \<Rightarrow> bot_screen res \<times> filter_bot" where
  "delete_screen E user fid fb =
     (case delete_filter user fid (fb_store fb) of
        (deleted, s) \<Rightarrow>
          if \<not> deleted then (Inl (PermissionError ''Saved filter not found or not owned by user.''), fb\<lparr>fb_store := s\<rparr>)
          else (screen_of (fe_clock E) (''Filtr o'' @ [CHR 0x27] @ ''chirildi.'') [(''Ro'' @ [CHR 0x27] @ ''yxat'', ''filter'', ''list'', [])] user,
                fb\<lparr>fb_store := s\<rparr>))"

definition cancel_pending :: "int \<Rightarrow> filter_bot \<Rightarrow> bot_screen res \<times> filter_bot" where
  "cancel_pending user fb =
     (Inr \<lparr>bs_text = ''Saqlash bekor qilindi.'', bs_buttons = []\<rparr>,
      fb\<lparr>fb_pending_names := dict_pop user (fb_pending_names fb), fb_pending_edits := dict_pop user (fb_pending_edits fb)\<rparr>)"

definition filter_get_criteria :: "int \<Rightarrow> string \<Rightarrow> filter_bot \<Rightarrow> search_criteria res" where
  "filter_get_criteria user fid fb = res_bind (filter_get user fid fb) (\<lambda>f. Inr (uf_criteria f))"


section \<open>What a user can reach\<close>

text \<open>Everything the controller keeps for one user.\<close>

definition user_filters :: "int \<Rightarrow> filter_store \<Rightarrow> string \<Rightarrow> user_filter option" where
  "user_filters v s k = (case dict_get (stored_filters s) k of None \<Rightarrow> None | Some f \<Rightarrow> if uf_user_id f = v then Some f else None)"

definition same_filters :: "int \<Rightarrow> filter_bot \<Rightarrow> filter_bot \<Rightarrow> bool" where
  "same_filters v fb fb' \<longleftrightarrow> user_filters v (fb_store fb') = user_filters v (fb_store fb) \<and>
     dict_get (fb_pending_names fb') v = dict_get (fb_pending_names fb) v \<and>
     dict_get (fb_pending_edits fb') v = dict_get (fb_pending_edits fb) v"

lemma same_filters_refl [simp]: "same_filters v fb fb"
  by (simp add: same_filters_def)

lemma same_filters_trans: "same_filters v a b \<Longrightarrow> same_filters v b c \<Longrightarrow> same_filters v a c"
  by (simp add: same_filters_def)

lemma create_other:
  "u \<noteq> v \<Longrightarrow> dict_get (stored_filters s) fid = None \<Longrightarrow>
   user_filters v (snd (service_create limit activate now fid u name c s)) = user_filters v s"
  by (rule ext) (auto simp: user_filters_def service_create_def create_filter_def Let_def dict_get_put split: sum.split)

lemma update_other:
  assumes "u \<noteq> v"
  shows "user_filters v (snd (service_update now u fid name c enabled s)) = user_filters v s"
proof -
  have "user_filters v (snd (update_filter now u fid n c enabled s)) = user_filters v s" for n
  proof (rule ext)
    fix k
    show "user_filters v (snd (update_filter now u fid n c enabled s)) k = user_filters v s k"
      using assms by (cases "k = fid")
        (auto simp: user_filters_def update_filter_def get_for_user_def Let_def dict_get_put split: option.splits)
  qed
  then show ?thesis by (simp add: service_update_def split: option.split sum.split)
qed

lemma delete_other: "u \<noteq> v \<Longrightarrow> user_filters v (snd (delete_filter u fid s)) = user_filters v s"
  by (rule ext) (auto simp: user_filters_def delete_filter_def get_for_user_def dict_get_pop split: option.splits)

lemma then_do_snd: "snd (then_do (r, s) (\<lambda>x t. (g x t, h x t))) = (case r of Inl _ \<Rightarrow> s | Inr x \<Rightarrow> h x s)"
  by (cases r) simp_all

lemma handle_name_other:
  assumes "u \<noteq> v" and "dict_get (stored_filters (fb_store fb)) (fe_new_id E) = None"
  shows "same_filters v fb (snd (handle_name_text E u t fb))"
proof (cases "dict_get (fb_pending_names fb) u")
  case None
  then show ?thesis by (simp add: handle_name_text_def)
next
  case (Some p)
  let ?fb = "fb\<lparr>fb_pending_names := dict_pop u (fb_pending_names fb)\<rparr>"
  have other: "same_filters v fb (?fb\<lparr>fb_store := s\<rparr>)" "same_filters v fb (?fb\<lparr>fb_store := s, fb_pending_edits := dict_pop u (fb_pending_edits fb)\<rparr>)"
    if "user_filters v s = user_filters v (fb_store fb)" for s
    using that assms(1) by (simp_all add: same_filters_def dict_get_pop)
  show ?thesis
    using create_other [OF assms, of "fe_limit E" "fe_activate E" "fe_time E"] update_other [OF assms(1)] assms(1)
    by (cases "pw_filter_id p")
      (auto simp: handle_name_text_def Some Let_def on_store_def then_do_snd other split: sum.split)
qed

lemma filter_screens_other:
  assumes "u \<noteq> v"
  shows "same_filters v fb (snd (begin_save E u c fb))" "same_filters v fb (snd (begin_update E u fid c fb))"
    "same_filters v fb (begin_edit u fid fb)" "same_filters v fb (snd (set_enabled_screen E u fid b fb))"
    "same_filters v fb (snd (delete_screen E u fid fb))" "same_filters v fb (snd (cancel_pending u fb))"
  using assms update_other [OF assms] delete_other [OF assms, of fid "fb_store fb"]
  by (auto simp: same_filters_def begin_save_def begin_update_def begin_edit_def set_enabled_screen_def delete_screen_def
      cancel_pending_def dict_get_put dict_get_pop on_store_def then_do_snd set_filter_enabled_def split: sum.split prod.split)

text \<open>The filter of somebody else is never shown.\<close>

lemma foreign_filter_refused:
  assumes "dict_get (stored_filters (fb_store fb)) fid = Some f" and "uf_user_id f \<noteq> u"
  shows "filter_view_screen E u fid fb = Inl (PermissionError ''Saved filter not found or not owned by user.'')"
    "filter_get_criteria u fid fb = Inl (PermissionError ''Saved filter not found or not owned by user.'')"
    "delete_confirm_screen E u fid fb = Inl (PermissionError ''Saved filter not found or not owned by user.'')"
    "delete_screen E u fid fb = (Inl (PermissionError ''Saved filter not found or not owned by user.''), fb)"
    "set_enabled_screen E u fid b fb = (Inl (KeyError ''Saved filter not found.''), fb)"
  using assms by (simp_all add: filter_view_screen_def filter_get_criteria_def delete_confirm_screen_def delete_screen_def
      filter_get_def get_for_user_def delete_filter_def set_enabled_screen_def set_filter_enabled_def service_update_def
      update_filter_def on_store_def)

section \<open>Names and sizes\<close>

text \<open>
  A name the service refuses ends the dialogue: the pending criteria are already dropped when the name
  is checked, so the corrected name the user sends next is not taken as a name.
\<close>

theorem refused_name_loses_criteria:
  assumes "dict_get (fb_pending_names fb) user = Some p" and "pw_filter_id p = None"
    and "64 < length (collapse t)" and "strip t \<noteq> ''/skip''"
  shows "\<exists>fb1. handle_name_text E user t fb = (Inl (ValueError ''Filter name must be 1-64 characters.''), fb1) \<and>
    fb_store fb1 = fb_store fb \<and> handle_name_text E user t' fb1 = (Inr None, fb1)"
proof -
  have "validate_name t = Inl (ValueError ''Filter name must be 1-64 characters.'')"
    using assms(3) by (simp add: validate_name_def Let_def)
  then show ?thesis
    using assms by (simp add: handle_name_text_def service_create_def on_store_def dict_get_pop)
qed


definition sample_filter_env :: filter_bot_env where
  "sample_filter_env = \<lparr>fe_limit = 10, fe_activate = (\<lambda>_ _. Inr ()), fe_time = 0, fe_clock = 1700000000,
     fe_new_id = ''0f8fad5b-d9cb-469f-a165-70867728950e'', fe_str = (\<lambda>_. []), fe_general = (\<lambda>_. [])\<rparr>"

definition pending_bot :: filter_bot where
  "pending_bot = \<lparr>fb_store = \<lparr>stored_filters = [], filter_events = []\<rparr>,
     fb_pending_names = [(7, \<lparr>pw_criteria = default_criteria, pw_filter_id = None\<rparr>)], fb_pending_edits = []\<rparr>"

lemma long_word: "collapse (replicate 65 CHR ''x'') = replicate 65 CHR ''x''"
  using words_spaceless_append [of "replicate 65 CHR ''x''" "[]"]
  by (simp add: collapse_def spaceless_def is_space_def code_of_def)

theorem refused_name_loses_criteria_witness:
  "\<exists>fb1. handle_name_text sample_filter_env 7 (replicate 65 CHR ''x'') pending_bot =
     (Inl (ValueError ''Filter name must be 1-64 characters.''), fb1) \<and>
     handle_name_text sample_filter_env 7 ''Sergeli'' fb1 = (Inr None, fb1)"
proof -
  let ?t = "replicate 65 CHR ''x''"
  have "strip ?t = ?t" by (rule strip_spaceless) (simp add: is_space_def code_of_def)
  then have "strip ?t \<noteq> ''/skip''" by (simp add: numeral_eq_Suc)
  moreover have "64 < length (collapse ?t)" unfolding long_word by simp
  moreover have "dict_get (fb_pending_names pending_bot) 7 = Some \<lparr>pw_criteria = default_criteria, pw_filter_id = None\<rparr>"
    by (simp add: pending_bot_def)
  ultimately show ?thesis
    using refused_name_loses_criteria [of pending_bot 7 "\<lparr>pw_criteria = default_criteria, pw_filter_id = None\<rparr>" ?t
        sample_filter_env "''Sergeli''"] by auto
qed

text \<open>
  The list of saved filters cannot be sent: the button of a filter carries its 36-character id, the
  owner and the time, and for every user id and clock of at least 36^5 (about 60 million) its data is longer than
  the 64 bytes Telegram accepts.
\<close>

theorem filter_buttons_too_long:
  assumes "filter_list_screen E user fb = Inr s" and "list_for_user user (fb_store fb) \<noteq> []"
    and "list_all (\<lambda>f. length (uf_filter_id f) = 36) (list_for_user user (fb_store fb))"
    and "36 ^ 5 \<le> user" and "36 ^ 5 \<le> fe_clock E"
  shows "bs_buttons s \<noteq> [] \<and> list_all (\<lambda>b. TELEGRAM_CALLBACK_LIMIT < length (mb_callback_data b)) (bs_buttons s)"
proof -
  let ?fs = "list_for_user user (fb_store fb)"
  let ?bs = "map (\<lambda>f. (filter_title f, ''filter'', ''view'', uf_filter_id f)) ?fs"
  have screen: "screen_of (fe_clock E) ''Saqlangan filtrlar'' ?bs user = Inr s"
    using assms(1,2) by (simp add: filter_list_screen_def Let_def)
  then obtain buttons where buttons: "res_all (map (\<lambda>b. menu_button_of (fe_clock E) b user) ?bs) = Inr buttons"
    "bs_buttons s = buttons"
    by (auto simp: screen_of_def elim!: res_bind_InrE)
  then have "bs_buttons s \<noteq> []" using res_all_Inr_length [OF buttons(1)] assms(2) by auto
  moreover have "TELEGRAM_CALLBACK_LIMIT < length (mb_callback_data b)" if b: "b \<in> set (bs_buttons s)" for b
  proof -
    obtain f where f: "f \<in> set ?fs"
      "menu_button_of (fe_clock E) (filter_title f, ''filter'', ''view'', uf_filter_id f) user = Inr b"
      using screen_of_Inr [OF screen] b by auto
    then obtain d where d: "callback (fe_clock E) ''filter'' ''view'' user (uf_filter_id f) = Inr d" "mb_callback_data b = d"
      by (auto simp: menu_button_of_def elim!: res_bind_InrE)
    have "length (uf_filter_id f) = 36" using assms(3) f(1) by (simp add: list_all_iff)
    with callback_length_ge [OF d(1) assms(4,5)] d(2) show ?thesis by (simp add: TELEGRAM_CALLBACK_LIMIT_def)
  qed
  ultimately show ?thesis by (simp add: list_all_iff)
qed

definition listed_bot :: filter_bot where
  "listed_bot = \<lparr>fb_store = \<lparr>stored_filters = [(fe_new_id sample_filter_env, \<lparr>uf_filter_id = fe_new_id sample_filter_env,
       uf_user_id = 500000000, uf_name = ''n'', uf_criteria = default_criteria, uf_enabled = True, uf_created_at = 0,
       uf_updated_at = 0\<rparr>)], filter_events = []\<rparr>, fb_pending_names = [], fb_pending_edits = []\<rparr>"

theorem filter_buttons_too_long_witness:
  "\<exists>s. filter_list_screen sample_filter_env 500000000 listed_bot = Inr s \<and>
     list_all (\<lambda>b. TELEGRAM_CALLBACK_LIMIT < length (mb_callback_data b)) (bs_buttons s)"
proof -
  have fs: "list_for_user 500000000 (fb_store listed_bot) \<noteq> []"
    "list_all (\<lambda>f. length (uf_filter_id f) = 36) (list_for_user 500000000 (fb_store listed_bot))"
    by (simp_all add: list_for_user_def listed_bot_def py_sort_desc_def sample_filter_env_def)
  obtain s where s: "filter_list_screen sample_filter_env 500000000 listed_bot = Inr s"
    using fs(1) screen_of_total [of 1700000000 500000000]
    by (auto simp: filter_list_screen_def Let_def sample_filter_env_def)
  have "36 ^ 5 \<le> (500000000 :: int)" "36 ^ 5 \<le> fe_clock sample_filter_env"
    by (simp_all add: sample_filter_env_def)
  from filter_buttons_too_long [OF s fs this] s show ?thesis by blast
qed

end
