(* ===== verification/EF_Referrals.thy ===== *)
theory EF_Referrals
  imports EF_Callback
begin

text \<open>
  Users and referrals: \<open>services/users.py\<close>, \<open>services/referrals.py\<close> and the in-memory repository of
  \<open>repositories/users.py\<close>. The clock and the identifier \<open>uuid4\<close> yields are arguments; the accepted analytics
  events are kept as a list of their idempotency keys.
\<close>

section \<open>State\<close>

record telegram_user =
  tu_user_id :: int
  tu_referral_code :: string
  tu_referred_by :: "int option"
  tu_premium_until :: "time option"
  tu_active_referral_count :: nat
  tu_status :: string
  tu_created_at :: time
  tu_updated_at :: time

datatype referral_status = PendingReferral | ActiveReferral | RejectedReferral

record referral_event =
  rv_referral_event_id :: string
  rv_referrer :: int
  rv_referred :: int
  rv_activation_event_key :: string
  rv_status :: referral_status
  rv_created_at :: time
  rv_activated_at :: "time option"

record premium_award =
  pa_referrer_user_id :: int
  pa_milestone :: nat
  pa_premium_until :: time

record user_repo =
  ur_users :: "(int, telegram_user) dict"
  ur_events :: "(int, referral_event) dict"
  ur_awards :: "(int \<times> nat) list"
  ur_audit :: "(int \<times> string \<times> string) list"

record start_result =
  sr_user :: telegram_user
  sr_event :: "referral_event option"
  sr_created :: bool
  sr_skipped_reason :: "string option"

record activation_result =
  ar_activated :: bool
  ar_event :: "referral_event option"
  ar_active_referral_count :: "nat option"
  ar_premium_award :: "premium_award option"
  ar_skipped_reason :: "string option"

record referral_state =
  rf_repo :: user_repo
  rf_attempts :: "(int, time list) dict"
  rf_messages :: "(int \<times> time \<times> nat) list"
  rf_analytics :: "string list"

definition REFERRAL_THRESHOLD :: nat where
  "REFERRAL_THRESHOLD = 5"

definition PREMIUM_EXTENSION_DAYS :: int where
  "PREMIUM_EXTENSION_DAYS = 7"

record referral_config =
  rg_threshold :: nat
  rg_premium_extension :: duration
  rg_max_attempts :: nat
  rg_window :: duration

definition default_referral_config :: referral_config where
  "default_referral_config =
     \<lparr>rg_threshold = REFERRAL_THRESHOLD, rg_premium_extension = seconds (PREMIUM_EXTENSION_DAYS * 86400),
      rg_max_attempts = 20, rg_window = seconds 60\<rparr>"

section \<open>Repository\<close>

definition user_referral_code :: "int \<Rightarrow> string" where
  "user_referral_code user = ''ef_'' @ str_int user"

definition upsert_user :: "time \<Rightarrow> int \<Rightarrow> user_repo \<Rightarrow> telegram_user \<times> user_repo" where
  "upsert_user now user r =
     (case dict_get (ur_users r) user of
        Some u \<Rightarrow> (let v = u\<lparr>tu_updated_at := now\<rparr> in (v, r\<lparr>ur_users := dict_put user v (ur_users r)\<rparr>))
      | None \<Rightarrow>
          (let v = \<lparr>tu_user_id = user, tu_referral_code = user_referral_code user, tu_referred_by = None,
                    tu_premium_until = None, tu_active_referral_count = 0, tu_status = ''active'',
                    tu_created_at = now, tu_updated_at = now\<rparr>
           in (v, r\<lparr>ur_users := dict_put user v (ur_users r)\<rparr>)))"

definition get_user_by_referral_code :: "string \<Rightarrow> user_repo \<Rightarrow> telegram_user option" where
  "get_user_by_referral_code code r = find_first (\<lambda>u. tu_referral_code u = code) (dict_values (ur_users r))"

definition get_pending_or_active_event :: "int \<Rightarrow> user_repo \<Rightarrow> referral_event option" where
  "get_pending_or_active_event user r =
     (case dict_get (ur_events r) user of
        None \<Rightarrow> None | Some e \<Rightarrow> if rv_status e = RejectedReferral then None else Some e)"

definition create_pending_event ::
  "time \<Rightarrow> string \<Rightarrow> int \<Rightarrow> int \<Rightarrow> string \<Rightarrow> user_repo \<Rightarrow> (referral_event \<times> bool) res \<times> user_repo" where
  "create_pending_event now new_id referrer referred key r =
     (case dict_get (ur_events r) referred of
        Some e \<Rightarrow> (Inr (e, False), r)
      | None \<Rightarrow>
          (case dict_get (ur_users r) referred of
             None \<Rightarrow> (Inl (KeyError (str_int referred)), r)
           | Some u \<Rightarrow>
               if tu_referred_by u \<noteq> None \<and> tu_referred_by u \<noteq> Some referrer
               then (Inl (ValueError ''User already has immutable referrer.''), r)
               else
                 (let e = \<lparr>rv_referral_event_id = new_id, rv_referrer = referrer, rv_referred = referred,
                           rv_activation_event_key = key, rv_status = PendingReferral, rv_created_at = now,
                           rv_activated_at = None\<rparr>
                  in (Inr (e, True),
                      r\<lparr>ur_users := dict_put referred (u\<lparr>tu_referred_by := Some referrer, tu_updated_at := now\<rparr>) (ur_users r),
                        ur_events := dict_put referred e (ur_events r)\<rparr>))))"

definition no_activation :: "referral_event option \<Rightarrow> nat option \<Rightarrow> string \<Rightarrow> activation_result" where
  "no_activation e n reason = \<lparr>ar_activated = False, ar_event = e, ar_active_referral_count = n,
     ar_premium_award = None, ar_skipped_reason = Some reason\<rparr>"

definition activate_once ::
  "int \<Rightarrow> string \<Rightarrow> time \<Rightarrow> nat \<Rightarrow> duration \<Rightarrow> user_repo \<Rightarrow> activation_result res \<times> user_repo" where
  "activate_once referred key now threshold extension r =
     (case dict_get (ur_events r) referred of
        None \<Rightarrow> (Inr (no_activation None None ''no_referral_event''), r)
      | Some e \<Rightarrow>
          (case rv_status e of
             ActiveReferral \<Rightarrow>
               (case dict_get (ur_users r) (rv_referrer e) of
                  None \<Rightarrow> (Inl (KeyError (str_int (rv_referrer e))), r)
                | Some u \<Rightarrow> (Inr (no_activation (Some e) (Some (tu_active_referral_count u)) ''already_active''), r))
           | RejectedReferral \<Rightarrow> (Inr (no_activation (Some e) None ''event_rejected''), r)
           | PendingReferral \<Rightarrow>
               (case dict_get (ur_users r) (rv_referrer e) of
                  None \<Rightarrow> (Inl (KeyError (str_int (rv_referrer e))), r)
                | Some u \<Rightarrow>
                    (let count = tu_active_referral_count u + 1;
                         e' = e\<lparr>rv_status := ActiveReferral, rv_activation_event_key := key, rv_activated_at := Some now\<rparr>;
                         due = (threshold \<le> count \<and> (tu_user_id u, threshold) \<notin> set (ur_awards r));
                         base = (case tu_premium_until u of Some t \<Rightarrow> if now < t then t else now | None \<Rightarrow> now);
                         until = (if due then Some (base + extension) else tu_premium_until u);
                         award = (if due then Some \<lparr>pa_referrer_user_id = tu_user_id u, pa_milestone = threshold,
                             pa_premium_until = base + extension\<rparr> else None);
                         u' = u\<lparr>tu_active_referral_count := count, tu_premium_until := until, tu_updated_at := now\<rparr>
                     in (Inr \<lparr>ar_activated = True, ar_event = Some e', ar_active_referral_count = Some count,
                              ar_premium_award = award, ar_skipped_reason = None\<rparr>,
                         r\<lparr>ur_events := dict_put referred e' (ur_events r),
                           ur_awards := (if due then ur_awards r @ [(tu_user_id u, threshold)] else ur_awards r),
                           ur_users := dict_put (tu_user_id u) u' (ur_users r)\<rparr>)))))"

definition audit :: "int \<Rightarrow> string \<Rightarrow> string \<Rightarrow> user_repo \<Rightarrow> user_repo" where
  "audit user action reason r = r\<lparr>ur_audit := ur_audit r @ [(user, action, reason)]\<rparr>"

section \<open>Service\<close>

definition referral_allow :: "nat \<Rightarrow> duration \<Rightarrow> time \<Rightarrow> time list \<Rightarrow> bool \<times> time list" where
  "referral_allow max_attempts window now attempts =
     (let recent = filter (\<lambda>t. now - window \<le> t) attempts in
      if max_attempts \<le> length recent then (False, recent) else (True, recent @ [now]))"

definition validate_referral_code :: "string \<Rightarrow> string res" where
  "validate_referral_code v =
     (if 3 \<le> length v \<and> length v \<le> 64 \<and> (\<forall>c \<in> set v. is_alnum c \<or> c = CHR ''_'' \<or> c = CHR ''-'')
      then Inr v else Inl (ValueError ''Invalid Telegram start referral code.''))"

definition parse_referral_start_parameter :: "string \<Rightarrow> string res" where
  "parse_referral_start_parameter v = validate_referral_code (strip v)"

text \<open>The walk up the referrers; a revisited user ends it as a cycle.\<close>

function would_create_cycle :: "user_repo \<Rightarrow> int \<Rightarrow> int list \<Rightarrow> int \<Rightarrow> bool" where
  "would_create_cycle r user visited current =
     (if current \<in> set visited then True
      else (case get_pending_or_active_event current r of
          None \<Rightarrow> False
        | Some e \<Rightarrow> if rv_referrer e = user then True
            else would_create_cycle r user (current # visited) (rv_referrer e)))"
  by pat_completeness auto

termination
proof (relation "measure (\<lambda>(r, user, visited, current). length (filter (\<lambda>k. k \<notin> set visited) (dict_keys (ur_events r))))")
  fix r :: user_repo and user current :: int and visited e
  assume new: "current \<notin> set visited" and "get_pending_or_active_event current r = Some e"
  then have "dict_get (ur_events r) current \<noteq> None" by (auto simp: get_pending_or_active_event_def split: option.splits)
  then have key: "current \<in> set (dict_keys (ur_events r))" by (simp add: map_of_eq_None_iff)
  have sub: "filter (\<lambda>k. k \<notin> set (current # visited)) ks = filter (\<lambda>k. k \<noteq> current) (filter (\<lambda>k. k \<notin> set visited) ks)" for ks
    by (simp add: conj_commute)
  have "length (filter (\<lambda>k. k \<noteq> current) (filter (\<lambda>k. k \<notin> set visited) (dict_keys (ur_events r)))) <
      length (filter (\<lambda>k. k \<notin> set visited) (dict_keys (ur_events r)))"
    by (rule length_filter_less [of current]) (use key new in auto)
  then show "((r, user, current # visited, rv_referrer e), (r, user, visited, current))
      \<in> measure (\<lambda>(r, user, visited, current). length (filter (\<lambda>k. k \<notin> set visited) (dict_keys (ur_events r))))"
    unfolding in_measure prod.case sub .
qed simp


declare would_create_cycle.simps [simp del]

definition on_repo :: "(user_repo \<Rightarrow> user_repo) \<Rightarrow> referral_state \<Rightarrow> referral_state" where
  "on_repo f st = st\<lparr>rf_repo := f (rf_repo st)\<rparr>"

definition skipped_start :: "telegram_user \<Rightarrow> referral_event option \<Rightarrow> string \<Rightarrow> start_result" where
  "skipped_start u e reason = \<lparr>sr_user = u, sr_event = e, sr_created = False, sr_skipped_reason = Some reason\<rparr>"

definition register_start ::
  "referral_config \<Rightarrow> time \<Rightarrow> string \<Rightarrow> int \<Rightarrow> string option \<Rightarrow> referral_state \<Rightarrow> start_result res \<times> referral_state" where
  "register_start G now new_id user param st =
     (if user \<le> 0 then (Inl (ValueError ''Telegram user id must be positive.''), st)
      else
        (let attempts = (case dict_get (rf_attempts st) user of None \<Rightarrow> [] | Some ts \<Rightarrow> ts);
             (allowed, recent) = referral_allow (rg_max_attempts G) (rg_window G) now attempts;
             st1 = st\<lparr>rf_attempts := dict_put user recent (rf_attempts st)\<rparr>
         in if \<not> allowed
            then (let st2 = on_repo (audit user ''referral_start_rejected'' ''rate_limited'') st1;
                      (u, r) = upsert_user now user (rf_repo st2)
                  in (Inr (skipped_start u None ''rate_limited''), st2\<lparr>rf_repo := r\<rparr>))
            else
              (let (u, r) = upsert_user now user (rf_repo st1); st2 = st1\<lparr>rf_repo := r\<rparr>
               in if param = None \<or> param = Some [] then (Inr (skipped_start u None ''no_referral_code''), st2)
                  else (case parse_referral_start_parameter (the param) of
                      Inl e \<Rightarrow> (Inl e, st2)
                    | Inr code \<Rightarrow>
                        (case get_user_by_referral_code code r of
                           None \<Rightarrow>
                             (Inr (skipped_start u None ''unknown_code''),
                              on_repo (audit user ''referral_start_rejected'' ''malformed_or_unknown_code'') st2)
                         | Some referrer \<Rightarrow>
                             if tu_user_id referrer = user
                             then (Inr (skipped_start u None ''self_referral''),
                                   on_repo (audit user ''referral_start_rejected'' ''self_referral'') st2)
                             else if would_create_cycle r user [] (tu_user_id referrer)
                             then (Inr (skipped_start u None ''circular_referral''),
                                   on_repo (audit user ''referral_start_rejected'' ''circular_referral'') st2)
                             else (case get_pending_or_active_event user r of
                                 Some e \<Rightarrow>
                                   (Inr (skipped_start u (Some e)
                                      (if rv_referrer e = tu_user_id referrer then ''duplicate_referral'' else ''referrer_immutable'')), st2)
                               | None \<Rightarrow>
                                   (case create_pending_event now new_id (tu_user_id referrer) user
                                        (''telegram_referral:'' @ str_int user) r of
                                      (Inl e, r1) \<Rightarrow> (Inl e, st2\<lparr>rf_repo := r1\<rparr>)
                                    | (Inr (e, created), r1) \<Rightarrow>
                                        (Inr \<lparr>sr_user = u, sr_event = Some e, sr_created = created, sr_skipped_reason = None\<rparr>,
                                         st2\<lparr>rf_repo := r1, rf_analytics := rf_analytics st2 @
                                           [''referral_accepted:'' @ rv_referral_event_id e]\<rparr>))))))))"

definition record_qualifying_action ::
  "referral_config \<Rightarrow> time \<Rightarrow> int \<Rightarrow> string \<Rightarrow> string \<Rightarrow> referral_state \<Rightarrow> activation_result res \<times> referral_state" where
  "record_qualifying_action G now user action action_id st =
     (if user \<le> 0 then (Inl (ValueError ''Telegram user id must be positive.''), st)
      else if strip action_id = [] then (Inl (ValueError ''Referral activation action id is required.''), st)
      else
        (case activate_once user (action @ '':'' @ action_id) now (rg_threshold G) (rg_premium_extension G) (rf_repo st) of
           (Inl e, r) \<Rightarrow> (Inl e, st\<lparr>rf_repo := r\<rparr>)
         | (Inr a, r) \<Rightarrow>
             (Inr a,
              st\<lparr>rf_repo := r,
                 rf_messages := rf_messages st @
                   (case ar_premium_award a of
                      None \<Rightarrow> []
                    | Some w \<Rightarrow> [(pa_referrer_user_id w, pa_premium_until w,
                        (case ar_active_referral_count a of Some n \<Rightarrow> n | None \<Rightarrow> 0))]),
                 rf_analytics := rf_analytics st @
                   (if ar_activated a
                    then (case ar_event a of None \<Rightarrow> [] | Some e \<Rightarrow> [''referral_activated:'' @ rv_referral_event_id e])
                    else [])\<rparr>)))"

definition bot_username_ok :: "string \<Rightarrow> bool" where
  "bot_username_ok b \<longleftrightarrow> 5 \<le> length b \<and> length b \<le> 32 \<and> (\<forall>c \<in> set b. is_alnum c \<or> c = CHR ''_'')"

definition deep_link :: "time \<Rightarrow> string \<Rightarrow> int \<Rightarrow> referral_state \<Rightarrow> string res \<times> referral_state" where
  "deep_link now bot_name user st =
     (let (u, st1) = (case dict_get (ur_users (rf_repo st)) user of
            Some u \<Rightarrow> (u, st)
          | None \<Rightarrow> (let (v, r) = upsert_user now user (rf_repo st) in (v, st\<lparr>rf_repo := r\<rparr>)));
          clean = dropWhile (\<lambda>c. c = CHR ''@'') (strip bot_name)
      in (res_bind (validate_referral_code (tu_referral_code u)) (\<lambda>code.
            if \<not> bot_username_ok clean then Inl (ValueError ''Invalid Telegram bot username.'')
            else Inr (''https://t.me/'' @ clean @ ''?start='' @ code)), st1))"

definition register_or_touch :: "time \<Rightarrow> int \<Rightarrow> referral_state \<Rightarrow> telegram_user res \<times> referral_state" where
  "register_or_touch now user st =
     (if user \<le> 0 then (Inl (ValueError ''Telegram user id must be positive.''), st)
      else (let (u, r) = upsert_user now user (rf_repo st)
            in (Inr u, st\<lparr>rf_repo := r, rf_analytics := rf_analytics st @ [''user_registered:'' @ str_int (tu_user_id u)]\<rparr>)))"


section \<open>The cycle check\<close>

definition referral_edges :: "user_repo \<Rightarrow> (int \<times> int) set" where
  "referral_edges r = {(a, b). \<exists>e. get_pending_or_active_event a r = Some e \<and> rv_referrer e = b}"

lemma trancl_functional:
  assumes "(a, c) \<in> R\<^sup>+" and "\<And>x. (a, x) \<in> R \<Longrightarrow> x = b"
  shows "c = b \<or> (b, c) \<in> R\<^sup>+"
  using assms by (metis tranclD rtranclD)

text \<open>On an acyclic repository the walk answers whether the user is above the referrer.\<close>

lemma would_create_cycle_iff:
  assumes "acyclic (referral_edges r)" and "\<forall>v \<in> set visited. (v, current) \<in> (referral_edges r)\<^sup>+"
  shows "would_create_cycle r user visited current \<longleftrightarrow> (current, user) \<in> (referral_edges r)\<^sup>+"
  using assms
proof (induction r user visited current rule: would_create_cycle.induct)
  case (1 r user visited current)
  have fresh: "current \<notin> set visited" using "1.prems" unfolding acyclic_def by blast
  show ?case
  proof (cases "get_pending_or_active_event current r")
    case None
    then have "(current, x) \<notin> referral_edges r" for x by (simp add: referral_edges_def)
    then have "(current, user) \<notin> (referral_edges r)\<^sup>+" by (meson tranclD)
    with fresh None show ?thesis by (simp add: would_create_cycle.simps [of r user visited])
  next
    case (Some e)
    then have edge: "(current, rv_referrer e) \<in> referral_edges r" by (simp add: referral_edges_def)
    have only: "x = rv_referrer e" if "(current, x) \<in> referral_edges r" for x
      using that Some by (auto simp: referral_edges_def)
    show ?thesis
    proof (cases "rv_referrer e = user")
      case True
      with fresh Some edge show ?thesis by (auto simp: would_create_cycle.simps [of r user visited])
    next
      case False
      have "\<forall>v \<in> set (current # visited). (v, rv_referrer e) \<in> (referral_edges r)\<^sup>+"
        using "1.prems"(2) edge by (auto intro: trancl_into_trancl)
      then have "would_create_cycle r user (current # visited) (rv_referrer e) \<longleftrightarrow>
          (rv_referrer e, user) \<in> (referral_edges r)\<^sup>+"
        using "1.IH" [OF fresh Some False "1.prems"(1)] by simp
      moreover have "(current, user) \<in> (referral_edges r)\<^sup>+ \<longleftrightarrow> (rv_referrer e, user) \<in> (referral_edges r)\<^sup>+"
        using trancl_functional [of current user "referral_edges r", OF _ only] edge False
        by (auto intro: trancl_into_trancl2)
      ultimately show ?thesis using fresh Some False by (simp add: would_create_cycle.simps [of r user visited])
    qed
  qed
qed

section \<open>Invariant\<close>

definition active_count :: "int \<Rightarrow> user_repo \<Rightarrow> nat" where
  "active_count u r = length (filter (\<lambda>e. rv_status e = ActiveReferral \<and> rv_referrer e = u) (dict_values (ur_events r)))"

definition repo_ok :: "nat \<Rightarrow> user_repo \<Rightarrow> bool" where
  "repo_ok threshold r \<longleftrightarrow>
     keyed_by tu_user_id (ur_users r) \<and> keyed_by rv_referred (ur_events r) \<and>
     (\<forall>i u. dict_get (ur_users r) i = Some u \<longrightarrow>
        tu_referral_code u = user_referral_code i \<and> tu_active_referral_count u = active_count i r \<and>
        tu_referred_by u = map_option rv_referrer (dict_get (ur_events r) i)) \<and>
     (\<forall>i e. dict_get (ur_events r) i = Some e \<longrightarrow>
        dict_get (ur_users r) i \<noteq> None \<and> dict_get (ur_users r) (rv_referrer e) \<noteq> None \<and> rv_status e \<noteq> RejectedReferral) \<and>
     acyclic (referral_edges r) \<and> distinct (ur_awards r) \<and>
     (\<forall>i m. (i, m) \<in> set (ur_awards r) \<longleftrightarrow> m = threshold \<and> threshold \<le> active_count i r)"


lemma repo_okD:
  assumes "repo_ok n r"
  shows "keyed_by tu_user_id (ur_users r)" "keyed_by rv_referred (ur_events r)" "acyclic (referral_edges r)"
    "dict_get (ur_users r) i = Some u \<Longrightarrow> tu_user_id u = i \<and> tu_referral_code u = user_referral_code i \<and>
       tu_active_referral_count u = active_count i r \<and> tu_referred_by u = map_option rv_referrer (dict_get (ur_events r) i)"
    "dict_get (ur_events r) i = Some e \<Longrightarrow> rv_referred e = i \<and> dict_get (ur_users r) i \<noteq> None \<and>
       dict_get (ur_users r) (rv_referrer e) \<noteq> None \<and> rv_status e \<noteq> RejectedReferral"
    "get_pending_or_active_event i r = dict_get (ur_events r) i"
  using assms keyed_by_getD
  by (auto simp: repo_ok_def get_pending_or_active_event_def split: option.split dest!: keyed_by_getD)

lemma active_count_users [simp]: "active_count i (r\<lparr>ur_users := d\<rparr>) = active_count i r"
  "active_count i (r\<lparr>ur_awards := w\<rparr>) = active_count i r" "active_count i (r\<lparr>ur_audit := l\<rparr>) = active_count i r"
  by (simp_all add: active_count_def)

lemma referral_edges_users [simp]: "referral_edges (r\<lparr>ur_users := d\<rparr>) = referral_edges r"
  "referral_edges (r\<lparr>ur_awards := w\<rparr>) = referral_edges r" "referral_edges (r\<lparr>ur_audit := l\<rparr>) = referral_edges r"
  by (simp_all add: referral_edges_def get_pending_or_active_event_def)

lemma audit_ok [simp]: "repo_ok n (audit u a m r) = repo_ok n r"
  by (simp add: repo_ok_def audit_def)

text \<open>A user without an event, or not yet registered, refers nobody in the counts of others.\<close>

lemma active_count_unregistered:
  assumes "repo_ok n r" and "dict_get (ur_users r) i = None"
  shows "active_count i r = 0"
proof -
  have "rv_referrer e \<noteq> i" if "e \<in> set (dict_values (ur_events r))" for e
  proof -
    have "dict_get (ur_events r) (rv_referred e) = Some e" using that keyed_by_values [OF repo_okD(2) [OF assms(1)]] by simp
    from repo_okD(5) [OF assms(1) this] assms(2) show ?thesis by auto
  qed
  then show ?thesis by (simp add: active_count_def filter_empty_conv)
qed

lemma upsert_user_ok:
  assumes "repo_ok n r" and "0 < n"
  shows "repo_ok n (snd (upsert_user now user r)) \<and> dict_get (ur_users (snd (upsert_user now user r))) user = Some (fst (upsert_user now user r)) \<and>
    ur_events (snd (upsert_user now user r)) = ur_events r \<and>
    (\<forall>i. i \<noteq> user \<longrightarrow> dict_get (ur_users (snd (upsert_user now user r))) i = dict_get (ur_users r) i)"
proof (cases "dict_get (ur_users r) user")
  case (Some u)
  then show ?thesis
    using assms(1) repo_okD(4) [OF assms(1) Some]
    by (auto simp: upsert_user_def Let_def repo_ok_def dict_get_put intro: keyed_by_put)
next
  case None
  have "dict_get (ur_events r) user = None"
  proof (rule ccontr)
    assume "dict_get (ur_events r) user \<noteq> None"
    then obtain e where "dict_get (ur_events r) user = Some e" by auto
    with repo_okD(5) [OF assms(1)] None show False by blast
  qed
  with None active_count_unregistered [OF assms(1) None] assms show ?thesis
    by (auto simp: upsert_user_def Let_def repo_ok_def dict_get_put intro: keyed_by_put)
qed


lemma dict_values_put_new:
  "dict_get d k = None \<Longrightarrow> dict_values (dict_put k v d) = dict_values d @ [v]"
  by (simp add: dict_put_new)

lemma create_pending_event_ok:
  assumes "repo_ok n r" and "dict_get (ur_users r) referred = Some u" and "dict_get (ur_users r) referrer \<noteq> None"
    and "referrer \<noteq> referred" and "\<not> would_create_cycle r referred [] referrer"
    and "dict_get (ur_events r) referred = None"
    and "create_pending_event now new_id referrer referred key r = (res, r1)"
  shows "repo_ok n r1 \<and> (\<exists>e. res = Inr (e, True) \<and> rv_referrer e = referrer \<and> rv_status e = PendingReferral \<and>
      dict_get (ur_events r1) referred = Some e) \<and> (\<forall>i. active_count i r1 = active_count i r) \<and>
    (\<forall>i. i \<noteq> referred \<longrightarrow> dict_get (ur_events r1) i = dict_get (ur_events r) i)"
proof -
  let ?e = "\<lparr>rv_referral_event_id = new_id, rv_referrer = referrer, rv_referred = referred,
                           rv_activation_event_key = key, rv_status = PendingReferral, rv_created_at = now,
                           rv_activated_at = None\<rparr>"
  let ?u = "u\<lparr>tu_referred_by := Some referrer, tu_updated_at := now\<rparr>"
  have u: "tu_user_id u = referred" "tu_referred_by u = None"
    using repo_okD(4) [OF assms(1,2)] assms(6) by simp_all
  then have r1: "r1 = r\<lparr>ur_users := dict_put referred ?u (ur_users r), ur_events := dict_put referred ?e (ur_events r)\<rparr>"
    and res: "res = Inr (?e, True)"
    using assms(2,6,7) by (simp_all add: create_pending_event_def Let_def)
  have count: "active_count i r1 = active_count i r" for i
    using assms(6) by (simp add: active_count_def r1 dict_values_put_new del: set_map)
  have edges: "referral_edges r1 = insert (referred, referrer) (referral_edges r)"
    using assms(6) by (auto simp: referral_edges_def get_pending_or_active_event_def r1 dict_get_put split: option.splits if_splits)
  have "(referrer, referred) \<notin> (referral_edges r)\<^sup>+"
    using would_create_cycle_iff [of r "[]" referrer referred] repo_okD(3) [OF assms(1)] assms(5) by simp
  then have "(referrer, referred) \<notin> (referral_edges r)\<^sup>*" using assms(4) by (simp add: rtrancl_eq_or_trancl)
  then have acyclic: "acyclic (referral_edges r1)" using repo_okD(3) [OF assms(1)] by (simp add: edges acyclic_insert)
  have "repo_ok n r1"
    unfolding repo_ok_def count
  proof (intro conjI allI impI)
    show "keyed_by tu_user_id (ur_users r1)" "keyed_by rv_referred (ur_events r1)"
      using repo_okD(1,2) [OF assms(1)] u(1) by (simp_all add: r1 keyed_by_put)
    fix i v
    assume v: "dict_get (ur_users r1) i = Some v"
    show "tu_referral_code v = user_referral_code i" "tu_active_referral_count v = active_count i r"
      "tu_referred_by v = map_option rv_referrer (dict_get (ur_events r1) i)"
      using v repo_okD(4) [OF assms(1)] repo_okD(4) [OF assms(1,2)] by (auto simp: r1 dict_get_put split: if_splits)
  next
    fix i e
    assume e: "dict_get (ur_events r1) i = Some e"
    show "dict_get (ur_users r1) i \<noteq> None" "dict_get (ur_users r1) (rv_referrer e) \<noteq> None" "rv_status e \<noteq> RejectedReferral"
      using e repo_okD(5) [OF assms(1)] assms(3) by (auto simp: r1 dict_get_put split: if_splits)
  next
    show "acyclic (referral_edges r1)" by (rule acyclic)
    show "distinct (ur_awards r1)" "((i, m) \<in> set (ur_awards r1)) = (m = n \<and> n \<le> active_count i r)" for i m
      using assms(1) by (simp_all add: r1 repo_ok_def)
  qed
  with res count show ?thesis by (simp add: r1 dict_get_put)
qed


lemma filter_put_existing:
  "dict_get d k = Some w \<Longrightarrow>
   length (filter P (dict_values (dict_put k v d))) + (if P w then 1 else 0) =
     length (filter P (dict_values d)) + (if P v then 1 else 0)"
  by (induction d) auto

lemma activate_once_cases:
  assumes "repo_ok n r" and "0 < n" and "activate_once referred key now n ext r = (res, r1)"
  shows "(\<exists>a. res = Inr a \<and> \<not> ar_activated a \<and> ar_premium_award a = None \<and> r1 = r \<and>
      \<not> (\<exists>e. dict_get (ur_events r) referred = Some e \<and> rv_status e = PendingReferral)) \<or>
    (\<exists>a e u. res = Inr a \<and> ar_activated a \<and> dict_get (ur_events r) referred = Some e \<and> rv_status e = PendingReferral \<and>
      dict_get (ur_users r) (rv_referrer e) = Some u \<and>
      repo_ok n r1 \<and> (\<forall>i. active_count i r1 = active_count i r + (if i = rv_referrer e then 1 else 0)) \<and>
      ar_active_referral_count a = Some (active_count (rv_referrer e) r1) \<and>
      ar_event a = dict_get (ur_events r1) referred \<and>
      (\<exists>e'. dict_get (ur_events r1) referred = Some e' \<and> rv_status e' = ActiveReferral \<and> rv_referrer e' = rv_referrer e) \<and>
      ar_premium_award a = (if active_count (rv_referrer e) r1 = n
        then Some \<lparr>pa_referrer_user_id = rv_referrer e, pa_milestone = n,
          pa_premium_until = (case tu_premium_until u of Some t \<Rightarrow> max t now | None \<Rightarrow> now) + ext\<rparr> else None) \<and>
      ur_awards r1 = ur_awards r @ (if active_count (rv_referrer e) r1 = n then [(rv_referrer e, n)] else []))"
proof (cases "\<exists>e. dict_get (ur_events r) referred = Some e \<and> rv_status e = PendingReferral")
  case False
  show ?thesis
  proof (cases "dict_get (ur_events r) referred")
    case None
    with assms(3) show ?thesis by (auto simp: activate_once_def no_activation_def)
  next
    case (Some e)
    with False repo_okD(5) [OF assms(1) Some] have "rv_status e = ActiveReferral" by (cases "rv_status e") auto
    moreover obtain u where "dict_get (ur_users r) (rv_referrer e) = Some u" using repo_okD(5) [OF assms(1) Some] by auto
    ultimately show ?thesis using assms(3) Some by (auto simp: activate_once_def no_activation_def)
  qed
next
  case True
  then obtain e where e: "dict_get (ur_events r) referred = Some e" "rv_status e = PendingReferral" by blast
  obtain u where u: "dict_get (ur_users r) (rv_referrer e) = Some u" using repo_okD(5) [OF assms(1) e(1)] by auto
  note user = repo_okD(4) [OF assms(1) u]
  let ?count = "tu_active_referral_count u + 1"
  let ?due = "n \<le> ?count \<and> (tu_user_id u, n) \<notin> set (ur_awards r)"
  have "((i, m) \<in> set (ur_awards r)) = (m = n \<and> n \<le> active_count i r)" for i m using assms(1) by (simp add: repo_ok_def)
  then have due: "?due \<longleftrightarrow> ?count = n" using user by auto
  have base: "(case tu_premium_until u of Some t \<Rightarrow> if now < t then t else now | None \<Rightarrow> now) =
      (case tu_premium_until u of Some t \<Rightarrow> max t now | None \<Rightarrow> now)"
    by (auto split: option.split)
  let ?until = "(case tu_premium_until u of Some t \<Rightarrow> max t now | None \<Rightarrow> now) + ext"
  let ?e = "e\<lparr>rv_status := ActiveReferral, rv_activation_event_key := key, rv_activated_at := Some now\<rparr>"
  let ?u = "u\<lparr>tu_active_referral_count := ?count, tu_premium_until := (if ?due then Some ?until else tu_premium_until u),
      tu_updated_at := now\<rparr>"
  have r1: "r1 = r\<lparr>ur_events := dict_put referred ?e (ur_events r),
      ur_awards := (if ?due then ur_awards r @ [(tu_user_id u, n)] else ur_awards r),
      ur_users := dict_put (tu_user_id u) ?u (ur_users r)\<rparr>"
    and res: "res = Inr \<lparr>ar_activated = True, ar_event = Some ?e, ar_active_referral_count = Some ?count,
      ar_premium_award = (if ?due then Some \<lparr>pa_referrer_user_id = tu_user_id u, pa_milestone = n, pa_premium_until = ?until\<rparr>
        else None), ar_skipped_reason = None\<rparr>"
    using assms(3) e u by (simp_all add: activate_once_def Let_def base)
  have count: "active_count i r1 = active_count i r + (if i = rv_referrer e then 1 else 0)" for i
    using filter_put_existing [OF e(1), of "\<lambda>e. rv_status e = ActiveReferral \<and> rv_referrer e = i" ?e] e(2)
    by (auto simp: active_count_def r1)
  have edges: "referral_edges r1 = referral_edges r"
    using e by (auto simp: referral_edges_def get_pending_or_active_event_def r1 dict_get_put split: option.splits if_splits)
  have e_ok: "rv_referred e = referred" "dict_get (ur_users r) referred \<noteq> None" using repo_okD(5) [OF assms(1) e(1)] by auto
  have "repo_ok n r1"
    unfolding repo_ok_def edges
  proof (intro conjI allI impI)
    show "keyed_by tu_user_id (ur_users r1)" "keyed_by rv_referred (ur_events r1)"
      using repo_okD(1,2) [OF assms(1)] e_ok by (simp_all add: r1 keyed_by_put)
    fix i v
    assume v: "dict_get (ur_users r1) i = Some v"
    show "tu_referral_code v = user_referral_code i" "tu_active_referral_count v = active_count i r1"
      using v repo_okD(4) [OF assms(1)] user unfolding count by (auto simp: r1 dict_get_put split: if_splits)
    have "map_option rv_referrer (dict_get (ur_events r1) i) = map_option rv_referrer (dict_get (ur_events r) i)"
      using e(1) by (simp add: r1 dict_get_put)
    then show "tu_referred_by v = map_option rv_referrer (dict_get (ur_events r1) i)"
      using v repo_okD(4) [OF assms(1)] user by (auto simp: r1 dict_get_put split: if_splits)
  next
    fix i x
    assume x: "dict_get (ur_events r1) i = Some x"
    show "dict_get (ur_users r1) i \<noteq> None" "dict_get (ur_users r1) (rv_referrer x) \<noteq> None" "rv_status x \<noteq> RejectedReferral"
      using x repo_okD(5) [OF assms(1)] repo_okD(5) [OF assms(1) e(1)] by (auto simp: r1 dict_get_put split: if_splits)
  next
    show "acyclic (referral_edges r)" using repo_okD(3) [OF assms(1)] .
    have old: "distinct (ur_awards r)" "((i, m) \<in> set (ur_awards r)) = (m = n \<and> n \<le> active_count i r)" for i m
      using assms(1) by (simp_all add: repo_ok_def)
    show "distinct (ur_awards r1)" using old(1) by (simp add: r1)
    show "((i, m) \<in> set (ur_awards r1)) = (m = n \<and> n \<le> active_count i r1)" for i m
      using old(2) [of i m] due user unfolding count by (auto simp: r1)
  qed
  moreover have number: "?count = active_count (rv_referrer e) r1" using user by (simp add: count)
  moreover have "dict_get (ur_events r1) referred = Some ?e" by (simp add: r1 dict_get_put)
  moreover have "ur_awards r1 = ur_awards r @ (if active_count (rv_referrer e) r1 = n then [(rv_referrer e, n)] else [])"
    using due user unfolding number [symmetric] by (simp add: r1)
  moreover define a where "a = \<lparr>ar_activated = True, ar_event = Some ?e, ar_active_referral_count = Some (active_count (rv_referrer e) r1),
      ar_premium_award = (if active_count (rv_referrer e) r1 = n
        then Some \<lparr>pa_referrer_user_id = rv_referrer e, pa_milestone = n, pa_premium_until = ?until\<rparr> else None),
      ar_skipped_reason = (None :: string option)\<rparr>"
  moreover have "res = Inr a" unfolding res due number [symmetric] a_def using user by simp
  ultimately show ?thesis
    using e u count by (intro disjI2, intro exI [of _ a], intro exI [of _ e], intro exI [of _ u]) (simp add: a_def)
qed


section \<open>The service\<close>

definition referral_ok :: "referral_config \<Rightarrow> referral_state \<Rightarrow> bool" where
  "referral_ok G st \<longleftrightarrow> 0 < rg_threshold G \<and> repo_ok (rg_threshold G) (rf_repo st) \<and>
     map fst (rf_messages st) = map fst (ur_awards (rf_repo st))"

lemma get_by_code:
  assumes "repo_ok n r" and "get_user_by_referral_code code r = Some u"
  shows "dict_get (ur_users r) (tu_user_id u) = Some u"
  using assms(2) keyed_by_values [OF repo_okD(1) [OF assms(1)], of u]
  by (auto simp: get_user_by_referral_code_def find_first_def find_Some_iff)

lemma upsert_awards [simp]: "ur_awards (snd (upsert_user now user r)) = ur_awards r"
  by (simp add: upsert_user_def Let_def split: option.split)

lemma audit_awards [simp]: "ur_awards (audit a b c r) = ur_awards r"
  by (simp add: audit_def)

lemma create_pending_awards: "create_pending_event now i a b k r = (res, r1) \<Longrightarrow> ur_awards r1 = ur_awards r"
  by (auto simp: create_pending_event_def Let_def split: option.splits if_splits)

lemma register_start_ok:
  assumes "referral_ok G st"
  shows "referral_ok G (snd (register_start G now new_id user param st))"
proof -
  obtain ok recent where allow: "referral_allow (rg_max_attempts G) (rg_window G) now
      (case dict_get (rf_attempts st) user of None \<Rightarrow> [] | Some ts \<Rightarrow> ts) = (ok, recent)" by fastforce
  obtain u r where up: "upsert_user now user (rf_repo st) = (u, r)" by fastforce
  obtain u' r' where up': "upsert_user now user (audit user ''referral_start_rejected'' ''rate_limited'' (rf_repo st)) = (u', r')"
    by fastforce
  have n: "0 < rg_threshold G" and repo: "repo_ok (rg_threshold G) (rf_repo st)"
    and msgs: "map fst (rf_messages st) = map fst (ur_awards (rf_repo st))"
    using assms by (simp_all add: referral_ok_def)
  have r: "repo_ok (rg_threshold G) r" "ur_awards r = ur_awards (rf_repo st)" "dict_get (ur_users r) user = Some u"
    using upsert_user_ok [OF repo n, of now user] upsert_awards [of now user "rf_repo st"] up by simp_all
  have r': "repo_ok (rg_threshold G) r'" "ur_awards r' = ur_awards (rf_repo st)"
    using upsert_user_ok [of "rg_threshold G" "audit user ''referral_start_rejected'' ''rate_limited'' (rf_repo st)" now user]
      upsert_awards [of now user "audit user ''referral_start_rejected'' ''rate_limited'' (rf_repo st)"] repo n up'
    by simp_all
  have keeps: "referral_ok G (st\<lparr>rf_attempts := x, rf_repo := r\<rparr>)"
    "referral_ok G (st\<lparr>rf_attempts := x, rf_repo := audit a b c r\<rparr>)" "referral_ok G (st\<lparr>rf_attempts := x, rf_repo := r'\<rparr>)" for x a b c
    using r r' n msgs by (simp_all add: referral_ok_def)
  have created: "referral_ok G (st\<lparr>rf_attempts := x, rf_repo := r1\<rparr>) \<and> referral_ok G (st\<lparr>rf_attempts := x, rf_repo := r1, rf_analytics := l\<rparr>)"
    if "get_user_by_referral_code code r = Some w" "tu_user_id w \<noteq> user" "\<not> would_create_cycle r user [] (tu_user_id w)"
      "get_pending_or_active_event user r = None"
      "create_pending_event now new_id (tu_user_id w) user k r = (res, r1)" for code w k res r1 x l
  proof -
    have "dict_get (ur_users r) (tu_user_id w) \<noteq> None" using get_by_code [OF r(1) that(1)] by simp
    moreover have "dict_get (ur_events r) user = None" using that(4) repo_okD(6) [OF r(1)] by simp
    ultimately have "repo_ok (rg_threshold G) r1"
      using create_pending_event_ok [OF r(1,3) _ that(2,3) _ that(5)] by blast
    with create_pending_awards [OF that(5)] show ?thesis using r n msgs by (simp add: referral_ok_def)
  qed
  show ?thesis
    unfolding register_start_def allow Let_def prod.case
    using assms keeps up up' created
    by (auto simp: on_repo_def split: sum.split option.split prod.split)
qed


lemma record_qualifying_action_ok:
  assumes "referral_ok G st"
  shows "referral_ok G (snd (record_qualifying_action G now user action action_id st))"
proof -
  have n: "0 < rg_threshold G" and repo: "repo_ok (rg_threshold G) (rf_repo st)"
    and msgs: "map fst (rf_messages st) = map fst (ur_awards (rf_repo st))"
    using assms by (simp_all add: referral_ok_def)
  obtain res r1 where act: "activate_once user (action @ '':'' @ action_id) now (rg_threshold G) (rg_premium_extension G) (rf_repo st) = (res, r1)"
    by fastforce
  from activate_once_cases [OF repo n act] show ?thesis
  proof (elim disjE exE conjE)
    fix a
    assume "res = Inr a" "ar_premium_award a = None" "r1 = rf_repo st"
    then show ?thesis using assms act by (simp add: record_qualifying_action_def referral_ok_def)
  next
    fix a e u
    assume "res = Inr a" "repo_ok (rg_threshold G) r1"
      and award: "ar_premium_award a = (if active_count (rv_referrer e) r1 = rg_threshold G
        then Some \<lparr>pa_referrer_user_id = rv_referrer e, pa_milestone = rg_threshold G,
          pa_premium_until = (case tu_premium_until u of Some t \<Rightarrow> max t now | None \<Rightarrow> now) + rg_premium_extension G\<rparr> else None)"
      and awards: "ur_awards r1 = ur_awards (rf_repo st) @
        (if active_count (rv_referrer e) r1 = rg_threshold G then [(rv_referrer e, rg_threshold G)] else [])"
    then show ?thesis
      using assms act n msgs by (simp add: record_qualifying_action_def referral_ok_def)
  qed
qed

lemma upsert_state_ok: "referral_ok G st \<Longrightarrow> referral_ok G (st\<lparr>rf_repo := snd (upsert_user now user (rf_repo st))\<rparr>)"
  using upsert_user_ok [of "rg_threshold G" "rf_repo st" now user] by (simp add: referral_ok_def)

lemma referral_ok_analytics [simp]: "referral_ok G (st\<lparr>rf_analytics := l\<rparr>) = referral_ok G st"
  by (simp add: referral_ok_def)

lemma deep_link_ok: "referral_ok G st \<Longrightarrow> referral_ok G (snd (deep_link now name user st))"
  using upsert_state_ok [of G st now user]
  by (auto simp: deep_link_def Let_def split: option.split prod.split)

lemma register_or_touch_ok: "referral_ok G st \<Longrightarrow> referral_ok G (snd (register_or_touch now user st))"
proof -
  obtain u r where up: "upsert_user now user (rf_repo st) = (u, r)" by fastforce
  assume "referral_ok G st"
  with upsert_state_ok [OF this, of now user] show ?thesis
    by (simp add: register_or_touch_def up referral_ok_def)
qed

datatype referral_action =
    StartAction time string int "string option"
  | QualifyAction time int string string
  | TouchAction time int
  | LinkAction time string int

fun referral_step :: "referral_config \<Rightarrow> referral_action \<Rightarrow> referral_state \<Rightarrow> referral_state" where
  "referral_step G (StartAction now i user param) st = snd (register_start G now i user param st)"
| "referral_step G (QualifyAction now user a i) st = snd (record_qualifying_action G now user a i st)"
| "referral_step G (TouchAction now user) st = snd (register_or_touch now user st)"
| "referral_step G (LinkAction now name user) st = snd (deep_link now name user st)"

definition referral_run :: "referral_config \<Rightarrow> referral_action list \<Rightarrow> referral_state \<Rightarrow> referral_state" where
  "referral_run G acts st = fold (referral_step G) acts st"

definition empty_referrals :: referral_state where
  "empty_referrals = \<lparr>rf_repo = \<lparr>ur_users = [], ur_events = [], ur_awards = [], ur_audit = []\<rparr>, rf_attempts = [],
     rf_messages = [], rf_analytics = []\<rparr>"

lemma empty_referrals_ok: "0 < rg_threshold G \<Longrightarrow> referral_ok G empty_referrals"
  by (simp add: referral_ok_def empty_referrals_def repo_ok_def active_count_def referral_edges_def
      get_pending_or_active_event_def acyclic_def)

lemma referral_step_ok: "referral_ok G st \<Longrightarrow> referral_ok G (referral_step G act st)"
  by (cases act) (simp_all add: register_start_ok record_qualifying_action_ok register_or_touch_ok deep_link_ok)

lemma referral_run_ok: "referral_ok G st \<Longrightarrow> referral_ok G (referral_run G acts st)"
  by (induction acts arbitrary: st) (simp_all add: referral_run_def referral_step_ok)

text \<open>
  Whatever users do, the referrers never form a cycle, each user's counter is the number of users they
  referred who became active, and the users who were awarded Premium and told about it are exactly those whose
  count reached the threshold, each once.
\<close>

theorem referral_invariant:
  assumes "0 < rg_threshold G"
  shows "let r = rf_repo (referral_run G acts empty_referrals) in
    acyclic (referral_edges r) \<and>
    list_all (\<lambda>u. tu_active_referral_count u = active_count (tu_user_id u) r) (dict_values (ur_users r)) \<and>
    distinct (map fst (rf_messages (referral_run G acts empty_referrals))) \<and>
    set (map fst (rf_messages (referral_run G acts empty_referrals))) = {i. rg_threshold G \<le> active_count i r}"
proof -
  let ?st = "referral_run G acts empty_referrals"
  have ok: "referral_ok G ?st" by (rule referral_run_ok [OF empty_referrals_ok [OF assms]])
  then have repo: "repo_ok (rg_threshold G) (rf_repo ?st)" and msgs: "map fst (rf_messages ?st) = map fst (ur_awards (rf_repo ?st))"
    by (simp_all add: referral_ok_def)
  have counts: "tu_active_referral_count u = active_count (tu_user_id u) (rf_repo ?st)"
    if "u \<in> set (dict_values (ur_users (rf_repo ?st)))" for u
    using that repo_okD(4) [OF repo] keyed_by_values [OF repo_okD(1) [OF repo]] by blast
  have awards: "distinct (ur_awards (rf_repo ?st))"
    "((i, m) \<in> set (ur_awards (rf_repo ?st))) = (m = rg_threshold G \<and> rg_threshold G \<le> active_count i (rf_repo ?st))" for i m
    using repo by (simp_all add: repo_ok_def)
  have "inj_on fst (set (ur_awards (rf_repo ?st)))"
    using awards(2) by (auto simp: inj_on_def)
  then have "distinct (map fst (rf_messages ?st))" unfolding msgs using awards(1) by (simp add: distinct_map)
  moreover have "set (map fst (rf_messages ?st)) = {i. rg_threshold G \<le> active_count i (rf_repo ?st)}"
    unfolding msgs using awards(2) by force
  ultimately show ?thesis
    using counts repo_okD(3) [OF repo] unfolding Let_def list_all_iff by blast
qed

theorem referral_invariant_witness:
  "acyclic (referral_edges (rf_repo (referral_run default_referral_config
     [TouchAction 0 7, StartAction 1 ''e'' 8 (Some ''ef_7''), QualifyAction 2 8 ''search'' ''q''] empty_referrals)))"
proof -
  have "0 < rg_threshold default_referral_config" by (simp add: default_referral_config_def REFERRAL_THRESHOLD_def)
  from referral_invariant [OF this] show ?thesis unfolding Let_def by blast
qed


section \<open>Links, activation and the cycle check\<close>

lemma str_int_chars: "c \<in> set (str_int n) \<Longrightarrow> is_digit c \<or> c = CHR ''-''"
  using str_nat_digits [of "nat n"] str_nat_digits [of "nat (- n)"] by (cases "n < 0") (auto simp: str_int_def)

lemma code_chars:
  assumes "c \<in> set (user_referral_code user)"
  shows "is_alnum c \<or> c = CHR ''_'' \<or> c = CHR ''-''"
proof -
  have "is_alnum CHR ''e''" "is_alnum CHR ''f''" by (simp_all add: is_alnum_def is_lower_def code_of_def)
  moreover have "c = CHR ''e'' \<or> c = CHR ''f'' \<or> c = CHR ''_'' \<or> c \<in> set (str_int user)"
    using assms by (simp add: user_referral_code_def)
  moreover have "is_digit d \<Longrightarrow> is_alnum d" for d by (simp add: is_alnum_def)
  ultimately show ?thesis using str_int_chars [of c user] by blast
qed

lemma code_parses:
  assumes "length (str_int user) \<le> 61"
  shows "parse_referral_start_parameter (user_referral_code user) = Inr (user_referral_code user)"
proof -
  have plain: "\<not> is_space c" if "is_alnum c \<or> c = CHR ''_'' \<or> c = CHR ''-''" for c
    using that alnum_not_space [of c] by (elim disjE) (simp_all add: is_space_def code_of_def)
  have "strip (user_referral_code user) = user_referral_code user"
    by (rule strip_spaceless, rule ballI, rule plain, rule code_chars)
  then show ?thesis
    using assms code_chars [of _ user]
    by (simp add: parse_referral_start_parameter_def validate_referral_code_def) (simp add: user_referral_code_def)
qed

lemma find_by_code:
  assumes "repo_ok n r" and "dict_get (ur_users r) i = Some u"
  shows "get_user_by_referral_code (user_referral_code i) r = Some u"
proof -
  have unique: "v = u" if "v \<in> set (dict_values (ur_users r))" "tu_referral_code v = user_referral_code i" for v
  proof -
    have v: "dict_get (ur_users r) (tu_user_id v) = Some v"
      using that(1) keyed_by_values [OF repo_okD(1) [OF assms(1)]] by simp
    from repo_okD(4) [OF assms(1) v] that(2) have "tu_user_id v = i" by (simp add: user_referral_code_def)
    with v assms(2) show ?thesis by simp
  qed
  have "u \<in> set (dict_values (ur_users r))" "tu_referral_code u = user_referral_code i"
    using assms(2) dict_get_in_values [OF assms(2)] repo_okD(4) [OF assms] by simp_all
  then have "find_first (\<lambda>u. tu_referral_code u = user_referral_code i) (dict_values (ur_users r)) \<noteq> None"
    by (auto simp: find_first_None_iff simp del: set_map)
  then obtain w where w: "get_user_by_referral_code (user_referral_code i) r = Some w"
    by (auto simp: get_user_by_referral_code_def)
  then have "w \<in> set (dict_values (ur_users r)) \<and> tu_referral_code w = user_referral_code i"
    by (auto simp: get_user_by_referral_code_def find_first_def find_Some_iff)
  with unique w show ?thesis by blast
qed

lemma register_start_refers:
  assumes "referral_ok G st" and "dict_get (ur_users (rf_repo st)) referrer = Some w" and "referrer \<noteq> user" and "0 < user"
    and "dict_get (ur_events (rf_repo st)) user = None" and "length (str_int referrer) \<le> 61"
    and "fst (referral_allow (rg_max_attempts G) (rg_window G) now
      (case dict_get (rf_attempts st) user of None \<Rightarrow> [] | Some ts \<Rightarrow> ts))"
  shows "\<exists>s st1. register_start G now new_id user (Some (user_referral_code referrer)) st = (Inr s, st1) \<and>
    (if (referrer, user) \<in> (referral_edges (rf_repo st))\<^sup>+
     then sr_skipped_reason s = Some ''circular_referral'' \<and> sr_event s = None
     else sr_created s \<and> (\<exists>e. sr_event s = Some e \<and> rv_referrer e = referrer \<and> rv_status e = PendingReferral \<and>
       dict_get (ur_events (rf_repo st1)) user = Some e))"
proof -
  obtain recent where allow: "referral_allow (rg_max_attempts G) (rg_window G) now
      (case dict_get (rf_attempts st) user of None \<Rightarrow> [] | Some ts \<Rightarrow> ts) = (True, recent)"
    using assms(7) by (cases "referral_allow (rg_max_attempts G) (rg_window G) now
      (case dict_get (rf_attempts st) user of None \<Rightarrow> [] | Some ts \<Rightarrow> ts)") auto
  obtain u r where up: "upsert_user now user (rf_repo st) = (u, r)" by fastforce
  have n: "0 < rg_threshold G" and repo: "repo_ok (rg_threshold G) (rf_repo st)"
    using assms(1) by (simp_all add: referral_ok_def)
  have r: "repo_ok (rg_threshold G) r" "dict_get (ur_users r) user = Some u" "ur_events r = ur_events (rf_repo st)"
    "dict_get (ur_users r) referrer = Some w"
    using upsert_user_ok [OF repo n, of now user] up assms(2,3) by simp_all
  then have edges: "referral_edges r = referral_edges (rf_repo st)"
    by (simp add: referral_edges_def get_pending_or_active_event_def)
  have w: "tu_user_id w = referrer" using repo_okD(4) [OF r(1,4)] by simp
  have cycle: "would_create_cycle r user [] referrer \<longleftrightarrow> (referrer, user) \<in> (referral_edges (rf_repo st))\<^sup>+"
    using would_create_cycle_iff [of r "[]" referrer user] repo_okD(3) [OF r(1)] edges by simp
  have no_event: "get_pending_or_active_event user r = None" using assms(5) r(3) repo_okD(6) [OF r(1)] by simp
  have code: "user_referral_code referrer \<noteq> []" by (simp add: user_referral_code_def)
  obtain res r1 where create: "create_pending_event now new_id referrer user (''telegram_referral:'' @ str_int user) r = (res, r1)"
    by fastforce
  show ?thesis
  proof (cases "would_create_cycle r user [] referrer")
    case True
    then show ?thesis
      using assms(3,4) allow up code cycle find_by_code [OF r(1,4)] w
      by (simp add: register_start_def code_parses [OF assms(6)] skipped_start_def)
  next
    case False
    have "dict_get (ur_users r) referrer \<noteq> None" "dict_get (ur_events r) user = None" using r assms(5) by simp_all
    from create_pending_event_ok [OF r(1,2) this(1) assms(3) False this(2) create]
    obtain e where "res = Inr (e, True)" "rv_referrer e = referrer" "rv_status e = PendingReferral"
      "dict_get (ur_events r1) user = Some e" by blast
    with False show ?thesis
      using assms(3,4) allow up code cycle find_by_code [OF r(1,4)] w create no_event
      by (simp add: register_start_def code_parses [OF assms(6)])
  qed
qed


text \<open>
  The link of a registered user refers whoever starts the bot with it: a user without a referrer, who is
  not above the owner of the link, gets a pending referral by that owner; if the owner was referred, directly or
  through others, by the user, the start is refused as circular.
\<close>

theorem referral_link_refers:
  assumes "referral_ok G st" and "dict_get (ur_users (rf_repo st)) referrer = Some w" and "referrer \<noteq> user" and "0 < user"
    and "dict_get (ur_events (rf_repo st)) user = None" and "length (str_int referrer) \<le> 61"
    and "fst (referral_allow (rg_max_attempts G) (rg_window G) now
      (case dict_get (rf_attempts st) user of None \<Rightarrow> [] | Some ts \<Rightarrow> ts))"
  shows "\<exists>s st1. register_start G now new_id user (Some (user_referral_code referrer)) st = (Inr s, st1) \<and>
    (if (referrer, user) \<in> (referral_edges (rf_repo st))\<^sup>+
     then sr_skipped_reason s = Some ''circular_referral'' \<and> sr_event s = None
     else sr_created s \<and> (\<exists>e. sr_event s = Some e \<and> rv_referrer e = referrer \<and> rv_status e = PendingReferral \<and>
       dict_get (ur_events (rf_repo st1)) user = Some e))"
  by (rule register_start_refers [OF assms])

definition sample_referrals :: referral_state where
  "sample_referrals = empty_referrals\<lparr>rf_repo := snd (upsert_user 0 7 (rf_repo empty_referrals))\<rparr>"

lemma sample_referrals_ok: "referral_ok default_referral_config sample_referrals"
  unfolding sample_referrals_def
  by (intro upsert_state_ok empty_referrals_ok) (simp add: default_referral_config_def REFERRAL_THRESHOLD_def)

theorem referral_link_refers_witness:
  "\<exists>s st1 e. register_start default_referral_config 5 ''e'' 8 (Some (user_referral_code 7)) sample_referrals = (Inr s, st1) \<and>
     sr_event s = Some e \<and> rv_referrer e = 7"
proof -
  have repo: "rf_repo sample_referrals = \<lparr>ur_users = [(7, \<lparr>tu_user_id = 7, tu_referral_code = user_referral_code 7,
      tu_referred_by = None, tu_premium_until = None, tu_active_referral_count = 0, tu_status = ''active'',
      tu_created_at = 0, tu_updated_at = 0\<rparr>)], ur_events = [], ur_awards = [], ur_audit = []\<rparr>"
    by (simp add: sample_referrals_def empty_referrals_def upsert_user_def Let_def)
  have "referral_edges (rf_repo sample_referrals) = {}" by (simp add: repo referral_edges_def get_pending_or_active_event_def)
  then have edges: "(7, 8) \<notin> (referral_edges (rf_repo sample_referrals))\<^sup>+" by simp
  have short: "length (str_int 7) \<le> 61" by (simp add: str_int_def str_nat.simps)
  have allowed: "fst (referral_allow (rg_max_attempts default_referral_config) (rg_window default_referral_config) 5
      (case dict_get (rf_attempts sample_referrals) 8 of None \<Rightarrow> [] | Some ts \<Rightarrow> ts))"
    by (simp add: sample_referrals_def empty_referrals_def referral_allow_def default_referral_config_def)
  have user: "dict_get (ur_users (rf_repo sample_referrals)) 7 = Some \<lparr>tu_user_id = 7, tu_referral_code = user_referral_code 7,
      tu_referred_by = None, tu_premium_until = None, tu_active_referral_count = 0, tu_status = ''active'',
      tu_created_at = 0, tu_updated_at = 0\<rparr>" "dict_get (ur_events (rf_repo sample_referrals)) 8 = None"
    by (simp_all add: repo)
  from referral_link_refers [OF sample_referrals_ok user(1) _ _ user(2) short allowed, of "''e''"] edges
  show ?thesis by auto
qed

text \<open>
  A referral counts once: the first search or saved filter of a referred user raises the referrer's count
  by one, reaching the threshold extends the referrer's Premium from the later of now and its end, and every
  further action of that user changes nothing at all.
\<close>

theorem referral_counts_once:
  assumes "referral_ok G st" and "0 < user" and "strip i \<noteq> []" and "strip i' \<noteq> []"
    and "dict_get (ur_events (rf_repo st)) user = Some e" and "rv_status e = PendingReferral"
  shows "\<exists>a st1. record_qualifying_action G now user act i st = (Inr a, st1) \<and> ar_activated a \<and>
    active_count (rv_referrer e) (rf_repo st1) = active_count (rv_referrer e) (rf_repo st) + 1 \<and>
    (ar_premium_award a \<noteq> None \<longleftrightarrow> active_count (rv_referrer e) (rf_repo st1) = rg_threshold G) \<and>
    (\<exists>b. record_qualifying_action G later user act' i' st1 = (Inr b, st1) \<and> \<not> ar_activated b)"
proof -
  have n: "0 < rg_threshold G" and repo: "repo_ok (rg_threshold G) (rf_repo st)"
    using assms(1) by (simp_all add: referral_ok_def)
  obtain res r1 where act: "activate_once user (act @ '':'' @ i) now (rg_threshold G) (rg_premium_extension G) (rf_repo st) = (res, r1)"
    by fastforce
  from activate_once_cases [OF repo n act] show ?thesis
  proof (elim disjE exE conjE)
    fix a
    assume "\<not> (\<exists>e. dict_get (ur_events (rf_repo st)) user = Some e \<and> rv_status e = PendingReferral)"
    with assms(5,6) show ?thesis by blast
  next
    fix a x u e'
    assume a: "res = Inr a" "ar_activated a" "dict_get (ur_events (rf_repo st)) user = Some x" "repo_ok (rg_threshold G) r1"
      "\<forall>j. active_count j r1 = active_count j (rf_repo st) + (if j = rv_referrer x then 1 else 0)"
      "ar_premium_award a = (if active_count (rv_referrer x) r1 = rg_threshold G
        then Some \<lparr>pa_referrer_user_id = rv_referrer x, pa_milestone = rg_threshold G,
          pa_premium_until = (case tu_premium_until u of Some t \<Rightarrow> max t now | None \<Rightarrow> now) + rg_premium_extension G\<rparr> else None)"
      "dict_get (ur_events r1) user = Some e'" "rv_status e' = ActiveReferral"
    then have x: "x = e" using assms(5) by simp
    obtain st1 where st1: "record_qualifying_action G now user act i st = (Inr a, st1)" "rf_repo st1 = r1"
      using assms(2,3) act a(1) by (simp add: record_qualifying_action_def)
    obtain b where b: "activate_once user (act' @ '':'' @ i') later (rg_threshold G) (rg_premium_extension G) r1 = (Inr b, r1)"
      "\<not> ar_activated b" "ar_premium_award b = None"
    proof -
      obtain res' r2 where act2: "activate_once user (act' @ '':'' @ i') later (rg_threshold G) (rg_premium_extension G) r1 = (res', r2)"
        by fastforce
      from activate_once_cases [OF a(4) n act2] a(7,8) show ?thesis using act2 that by auto
    qed
    then have "record_qualifying_action G later user act' i' st1 = (Inr b, st1)"
      using assms(2,4) st1(2) by (simp add: record_qualifying_action_def)
    with st1 a(2,5,6) b(2) show ?thesis unfolding x by auto
  qed
qed


theorem referral_counts_once_witness:
  "\<exists>st a st1. record_qualifying_action default_referral_config 9 8 ''search'' ''q'' st = (Inr a, st1) \<and> ar_activated a \<and>
     (\<exists>b. record_qualifying_action default_referral_config 10 8 ''search'' ''q'' st1 = (Inr b, st1) \<and> \<not> ar_activated b)"
proof -
  obtain s st e where start: "register_start default_referral_config 5 ''e'' 8 (Some (user_referral_code 7)) sample_referrals = (Inr s, st)"
    "dict_get (ur_events (rf_repo st)) 8 = Some e" "rv_status e = PendingReferral"
  proof -
    have "referral_edges (rf_repo sample_referrals) = {}" and user: "dict_get (ur_users (rf_repo sample_referrals)) 7 \<noteq> None"
      "dict_get (ur_events (rf_repo sample_referrals)) 8 = None"
      by (simp_all add: sample_referrals_def empty_referrals_def upsert_user_def Let_def referral_edges_def get_pending_or_active_event_def)
    then have edges: "(7, 8) \<notin> (referral_edges (rf_repo sample_referrals))\<^sup>+" by simp
    obtain w where w: "dict_get (ur_users (rf_repo sample_referrals)) 7 = Some w" using user by auto
    obtain s st where s: "register_start default_referral_config 5 ''e'' 8 (Some (user_referral_code 7)) sample_referrals = (Inr s, st)"
      "\<exists>e. dict_get (ur_events (rf_repo st)) 8 = Some e \<and> rv_status e = PendingReferral"
      using register_start_refers [OF sample_referrals_ok w _ _ user(2) _ _, of 5 "''e''"] edges
      by (auto simp: str_int_def str_nat.simps sample_referrals_def empty_referrals_def referral_allow_def default_referral_config_def)
    then show ?thesis using that by blast
  qed
  have st: "referral_ok default_referral_config st"
    using register_start_ok [OF sample_referrals_ok, of 5 "''e''" 8 "Some (user_referral_code 7)"] start(1) by simp
  have nonblank: "strip ''q'' \<noteq> []" by (subst strip_spaceless) (simp_all add: is_space_def code_of_def)
  from referral_counts_once [OF st _ nonblank nonblank start(2,3), of 9 "''search''" 10 "''search''"] show ?thesis by (intro exI [of _ st]) auto
qed

section \<open>The rate limit\<close>

text \<open>The accepted attempts of one user, oldest first, when attempts come in at the given times.\<close>

fun accepted_attempts :: "nat \<Rightarrow> duration \<Rightarrow> time list \<Rightarrow> time list \<Rightarrow> time list" where
  "accepted_attempts n w attempts [] = []"
| "accepted_attempts n w attempts (t # ts) =
     (case referral_allow n w t attempts of
        (True, recent) \<Rightarrow> t # accepted_attempts n w recent ts
      | (False, recent) \<Rightarrow> accepted_attempts n w recent ts)"


definition in_window :: "time \<Rightarrow> duration \<Rightarrow> time list \<Rightarrow> nat" where
  "in_window t w ts = length (filter (\<lambda>s. t - w \<le> s \<and> s \<le> t) ts)"

lemma accepted_within:
  assumes "sorted ts" and "\<forall>a \<in> set past. \<forall>t \<in> set ts. a \<le> t" and "\<forall>t \<in> set ts. filter (\<lambda>s. t - w \<le> s) attempts = filter (\<lambda>s. t - w \<le> s) past"
    and "\<forall>t. in_window t w past \<le> n" and "0 \<le> w"
  shows "in_window t w (past @ accepted_attempts n w attempts ts) \<le> n"
  using assms
proof (induction ts arbitrary: attempts past t)
  case Nil
  then show ?case by simp
next
  case (Cons x xs)
  let ?recent = "filter (\<lambda>s. x - w \<le> s) attempts"
  have recent: "?recent = filter (\<lambda>s. x - w \<le> s) past" using Cons.prems(3) by simp
  have later: "filter (\<lambda>s. y - w \<le> s) ?recent = filter (\<lambda>s. y - w \<le> s) past" if "y \<in> set xs" for y
  proof -
    have "x \<le> y" using that Cons.prems(1) by simp
    then have "(x - w \<le> s \<and> y - w \<le> s) = (y - w \<le> s)" for s by auto
    then show ?thesis unfolding recent by (simp add: conj_commute)
  qed
  show ?case
  proof (cases "n \<le> length ?recent")
    case True
    then have "accepted_attempts n w attempts (x # xs) = accepted_attempts n w ?recent xs" by (simp add: referral_allow_def)
    moreover have "in_window t w (past @ accepted_attempts n w ?recent xs) \<le> n"
      by (rule Cons.IH) (use Cons.prems later in auto)
    ultimately show ?thesis by simp
  next
    case False
    let ?past = "past @ [x]"
    have window: "in_window y w ?past \<le> n" for y
    proof (cases "y - w \<le> x \<and> x \<le> y")
      case False
      then have "in_window y w ?past = in_window y w past" by (auto simp: in_window_def)
      with Cons.prems(4) show ?thesis by simp
    next
      case inside: True
      have "length (filter (\<lambda>s. y - w \<le> s \<and> s \<le> y) past) \<le> length (filter (\<lambda>s. x - w \<le> s) past)"
        using inside by (induction past) auto
      then have "in_window y w past < n" using False unfolding recent in_window_def by linarith
      then show ?thesis using inside by (simp add: in_window_def)
    qed
    have "in_window t w (?past @ accepted_attempts n w (?recent @ [x]) xs) \<le> n"
      by (rule Cons.IH) (use Cons.prems window later in \<open>auto simp del: filter_filter\<close>)
    moreover have "accepted_attempts n w attempts (x # xs) = x # accepted_attempts n w (?recent @ [x]) xs"
      using False by (simp add: referral_allow_def)
    ultimately show ?thesis by simp
  qed
qed

text \<open>
  In no window of the configured length does a user get more than the allowed number of starts counted,
  whenever the attempts come; the limiter forgets only attempts that no later window can hold.
\<close>

theorem referral_rate_limited:
  assumes "sorted ts" and "0 \<le> w"
  shows "in_window t w (accepted_attempts n w [] ts) \<le> n"
  using accepted_within [of ts "[]" w "[]" n t] assms by (simp add: in_window_def)

theorem referral_rate_limited_witness:
  "in_window 5 2 (accepted_attempts 1 2 [] [3, 4, 5, 6]) \<le> 1"
  by (rule referral_rate_limited) simp_all

end
