(* ===== verification/EF_Suggestions.thy ===== *)
theory EF_Suggestions
  imports EF_Sources EF_Callback
begin

text \<open>
  Sources that users suggest: \<open>services/source_suggestions.py\<close> over its in-memory repository and the in-memory
  source registry, and the dialogue of the bot (\<open>bot/source_suggestions.py\<close>). The clock is an argument; the
  notifications of the admins are kept as a list.
\<close>

section \<open>State\<close>

datatype suggestion_status = PendingSuggestion | ApprovedSuggestion | RejectedSuggestion

fun suggestion_status_text :: "suggestion_status \<Rightarrow> string" where
  "suggestion_status_text PendingSuggestion = ''pending''"
| "suggestion_status_text ApprovedSuggestion = ''approved''"
| "suggestion_status_text RejectedSuggestion = ''rejected''"

record source_suggestion =
  su_suggestion_id :: string
  su_source_identifier :: string
  su_user_id :: "int option"
  su_source_type :: source_type
  su_status :: suggestion_status
  su_admin_note :: "string option"
  su_reward_granted :: bool
  su_source_id :: "string option"
  su_created_at :: time
  su_updated_at :: time
  su_decided_at :: "time option"

datatype suggestion_action = SubmitSuggestion | ApproveSuggestion | RejectSuggestion

record suggestion_audit =
  sa_action :: suggestion_action
  sa_idempotency_key :: string
  sa_suggestion_id :: string
  sa_actor_user_id :: "int option"
  sa_note :: "string option"

record suggestion_decision =
  sd_suggestion :: source_suggestion
  sd_created :: bool
  sd_reward_until :: "time option"
  sd_source :: "source_config option"
  sd_source_created :: bool

record suggestion_state =
  sg_suggestions :: "(string, source_suggestion) dict"
  sg_by_identifier :: "(string, string) dict"
  sg_audit :: "(string, suggestion_audit) dict"
  sg_premium_until :: "(int, time) dict"
  sg_registry :: source_registry
  sg_notified :: "source_suggestion list"

record suggestion_env =
  ge_router_env :: router_env
  ge_router :: router
  ge_dump_bytes :: "(string, json) dict \<Rightarrow> nat"
  ge_has_registry :: bool
  ge_extension :: duration

definition DEFAULT_TELEGRAM_ADAPTER_NAME :: string where
  "DEFAULT_TELEGRAM_ADAPTER_NAME = ''telegram_telethon''"

definition PREMIUM_REWARD_DAYS :: int where
  "PREMIUM_REWARD_DAYS = 7"

section \<open>Identifiers\<close>

definition drop_prefix_ci :: "string \<Rightarrow> string \<Rightarrow> string" where
  "drop_prefix_ci p s = (if starts_with (lower s) p then CHR ''@'' # drop (length p) s else s)"

definition username_ok :: "string \<Rightarrow> bool" where
  "username_ok u \<longleftrightarrow> 5 \<le> length u \<and> length u \<le> 64 \<and> (\<forall>c \<in> set u. is_alnum c \<or> c = CHR ''_'')"

definition without_link :: "string \<Rightarrow> string" where
  "without_link v =
     (let a = strip v;
          b = (if starts_with (lower a) ''http://t.me/'' then drop_prefix_ci ''http://t.me/'' a
               else drop_prefix_ci ''https://t.me/'' a)
      in drop_prefix_ci ''t.me/'' b)"

definition normalize_source_identifier :: "string \<Rightarrow> string res" where
  "normalize_source_identifier v =
     (let i = without_link v in
      if starts_with i ''@'' then
        (if username_ok (tl i) then Inr (CHR ''@'' # tl i) else Inl (ValueError ''Invalid Telegram source username.''))
      else if starts_with i ''-100'' \<and> is_decimal (drop 4 i) then Inr i
      else Inl (ValueError ''Source must be a Telegram @username, t.me link, or channel id.''))"

section \<open>Repository\<close>

definition repo_submit ::
  "time \<Rightarrow> int \<Rightarrow> string \<Rightarrow> source_type \<Rightarrow> suggestion_state \<Rightarrow> (source_suggestion \<times> bool) res \<times> suggestion_state" where
  "repo_submit now user ident t st =
     (case dict_get (sg_by_identifier st) ident of
        Some i \<Rightarrow>
          (case dict_get (sg_suggestions st) i of
             None \<Rightarrow> (Inl (KeyError i), st)
           | Some x \<Rightarrow>
               if su_status x = RejectedSuggestion
               then (if su_user_id x \<noteq> None \<and> su_user_id x \<noteq> Some user then (Inr (x, False), st)
                     else (let y = x\<lparr>su_user_id := Some user, su_source_type := t, su_status := PendingSuggestion,
                                    su_admin_note := None, su_updated_at := now, su_decided_at := None\<rparr>
                           in (Inr (y, True), st\<lparr>sg_suggestions := dict_put i y (sg_suggestions st)\<rparr>)))
               else (Inr (x, False), st))
      | None \<Rightarrow>
          (let i = ''source:'' @ ident;
               x = \<lparr>su_suggestion_id = i, su_source_identifier = ident, su_user_id = Some user, su_source_type = t,
                    su_status = PendingSuggestion, su_admin_note = None, su_reward_granted = False, su_source_id = None,
                    su_created_at = now, su_updated_at = now, su_decided_at = None\<rparr>
           in (Inr (x, True), st\<lparr>sg_suggestions := dict_put i x (sg_suggestions st),
                 sg_by_identifier := dict_put ident i (sg_by_identifier st)\<rparr>)))"

definition suggestions_pending :: "suggestion_state \<Rightarrow> source_suggestion list" where
  "suggestions_pending st =
     py_sort (\<lambda>x. (su_created_at x, su_source_identifier x))
       (filter (\<lambda>x. su_status x = PendingSuggestion) (dict_values (sg_suggestions st)))"

definition set_suggestion_status ::
  "string \<Rightarrow> suggestion_status \<Rightarrow> string option \<Rightarrow> bool \<Rightarrow> string option \<Rightarrow> time \<Rightarrow> suggestion_state \<Rightarrow>
   source_suggestion res \<times> suggestion_state" where
  "set_suggestion_status i status note_text granted source now st =
     (case dict_get (sg_suggestions st) i of
        None \<Rightarrow> (Inl (KeyError i), st)
      | Some x \<Rightarrow>
          (let y = x\<lparr>su_status := status, su_admin_note := note_text, su_reward_granted := granted,
                     su_source_id := (if source \<noteq> None then source else su_source_id x), su_updated_at := now,
                     su_decided_at := Some now\<rparr>
           in (Inr y, st\<lparr>sg_suggestions := dict_put i y (sg_suggestions st)\<rparr>)))"

definition suggestion_audit_once :: "suggestion_audit \<Rightarrow> suggestion_state \<Rightarrow> (suggestion_audit \<times> bool) \<times> suggestion_state" where
  "suggestion_audit_once e st =
     (case dict_get (sg_audit st) (sa_idempotency_key e) of
        Some x \<Rightarrow> ((x, False), st)
      | None \<Rightarrow> ((e, True), st\<lparr>sg_audit := dict_put (sa_idempotency_key e) e (sg_audit st)\<rparr>))"

definition grant_premium :: "int \<Rightarrow> duration \<Rightarrow> time \<Rightarrow> suggestion_state \<Rightarrow> time \<times> suggestion_state" where
  "grant_premium user extension now st =
     (let base = (case dict_get (sg_premium_until st) user of None \<Rightarrow> now | Some t \<Rightarrow> if t \<le> now then now else t)
      in (base + extension, st\<lparr>sg_premium_until := dict_put user (base + extension) (sg_premium_until st)\<rparr>))"


section \<open>Service\<close>

definition plain_decision :: "source_suggestion \<Rightarrow> bool \<Rightarrow> suggestion_decision" where
  "plain_decision x created = \<lparr>sd_suggestion = x, sd_created = created, sd_reward_until = None, sd_source = None,
     sd_source_created = False\<rparr>"

definition suggestion_submit ::
  "time \<Rightarrow> int \<Rightarrow> string \<Rightarrow> source_type \<Rightarrow> suggestion_state \<Rightarrow> suggestion_decision res \<times> suggestion_state" where
  "suggestion_submit now user ident t st =
     (if user \<le> 0 then (Inl (ValueError ''user_id must be positive.''), st)
      else (case normalize_source_identifier ident of
          Inl e \<Rightarrow> (Inl e, st)
        | Inr normalized \<Rightarrow>
            then_do (repo_submit now user normalized t st) (\<lambda>(x, created) st1.
              let st2 = snd (suggestion_audit_once \<lparr>sa_action = SubmitSuggestion,
                    sa_idempotency_key = ''submit:'' @ str_int user @ '':'' @ normalized,
                    sa_suggestion_id = su_suggestion_id x, sa_actor_user_id = Some user, sa_note = None\<rparr> st1)
              in (Inr (plain_decision x created), if created then st2\<lparr>sg_notified := sg_notified st2 @ [x]\<rparr> else st2))))"

text \<open>The checks both decisions start with: the audit record is written before them.\<close>

definition decision_start ::
  "suggestion_action \<Rightarrow> suggestion_status \<Rightarrow> string \<Rightarrow> int \<Rightarrow> string \<Rightarrow> string option \<Rightarrow> suggestion_status option \<Rightarrow>
   (source_suggestion \<Rightarrow> suggestion_state \<Rightarrow> suggestion_decision res \<times> suggestion_state) \<Rightarrow> suggestion_state \<Rightarrow>
   suggestion_decision res \<times> suggestion_state" where
  "decision_start action final i admin key note_text expected decide st =
     (if admin \<le> 0 then (Inl (PermissionError ''Admin reviewer id is required.''), st)
      else (case suggestion_audit_once \<lparr>sa_action = action, sa_idempotency_key = key, sa_suggestion_id = i,
                sa_actor_user_id = Some admin, sa_note = note_text\<rparr> st of
          ((_, created), st1) \<Rightarrow>
            (case dict_get (sg_suggestions st1) i of
               None \<Rightarrow> (Inl (KeyError i), st1)
             | Some x \<Rightarrow>
                 if \<not> created then (Inr (plain_decision x False), st1)
                 else if expected \<noteq> None \<and> Some (su_status x) \<noteq> expected
                 then (Inl (ValueError ''source_suggestion_state_conflict''), st1)
                 else if su_status x = final then (Inr (plain_decision x False), st1)
                 else decide x st1)))"

definition registry_request :: "source_suggestion \<Rightarrow> source_request" where
  "registry_request x = \<lparr>sr_type = su_source_type x, sr_identifier = su_source_identifier x, sr_name = su_source_identifier x,
     sr_adapter_name = Some DEFAULT_TELEGRAM_ADAPTER_NAME, sr_source_profile = None, sr_parser_key = None,
     sr_parser_version = None, sr_parser_config = None, sr_parser_mode = None, sr_session_name = None\<rparr>"

definition register_suggested ::
  "suggestion_env \<Rightarrow> source_suggestion \<Rightarrow> suggestion_state \<Rightarrow> (source_config option \<times> bool) res \<times> suggestion_state" where
  "register_suggested G x st =
     (if \<not> ge_has_registry G then (Inr (None, False), st)
      else (case create_or_enable_source (ge_router_env G) (ge_router G) (ge_dump_bytes G) (registry_request x) (sg_registry st) of
          (Inl e, reg) \<Rightarrow> (Inl e, st\<lparr>sg_registry := reg\<rparr>)
        | (Inr (s, created), reg) \<Rightarrow> (Inr (Some s, created), st\<lparr>sg_registry := reg\<rparr>)))"

definition approve_decide ::
  "suggestion_env \<Rightarrow> time \<Rightarrow> string \<Rightarrow> string option \<Rightarrow> source_suggestion \<Rightarrow> suggestion_state \<Rightarrow>
   suggestion_decision res \<times> suggestion_state" where
  "approve_decide G now i note_text x st =
     then_do (register_suggested G x st) (\<lambda>(source, source_created) st1.
       let (reward, st2) = (case su_user_id x of
             Some user \<Rightarrow> if \<not> su_reward_granted x
               then (let (t, s) = grant_premium user (ge_extension G) now st1 in (Some t, s)) else (None, st1)
           | None \<Rightarrow> (None, st1))
       in then_do (set_suggestion_status i ApprovedSuggestion note_text True
              (case source of Some s \<Rightarrow> Some (so_source_id s) | None \<Rightarrow> su_source_id x) now st2)
            (\<lambda>y st3. (Inr \<lparr>sd_suggestion = y, sd_created = True, sd_reward_until = reward, sd_source = source,
                sd_source_created = source_created\<rparr>, st3)))"

definition suggestion_approve ::
  "suggestion_env \<Rightarrow> time \<Rightarrow> string \<Rightarrow> int \<Rightarrow> string \<Rightarrow> string option \<Rightarrow> suggestion_status option \<Rightarrow> suggestion_state \<Rightarrow>
   suggestion_decision res \<times> suggestion_state" where
  "suggestion_approve G now i admin key note_text expected st =
     decision_start ApproveSuggestion ApprovedSuggestion i admin key note_text expected (approve_decide G now i note_text) st"

definition suggestion_reject ::
  "time \<Rightarrow> string \<Rightarrow> int \<Rightarrow> string \<Rightarrow> string option \<Rightarrow> suggestion_status option \<Rightarrow> suggestion_state \<Rightarrow>
   suggestion_decision res \<times> suggestion_state" where
  "suggestion_reject now i admin key note_text expected st =
     decision_start RejectSuggestion RejectedSuggestion i admin key note_text expected
       (\<lambda>x st1. then_do (set_suggestion_status i RejectedSuggestion note_text (su_reward_granted x)
            (su_source_id x) now st1) (\<lambda>y st2. (Inr (plain_decision y True), st2))) st"

section \<open>The dialogue of the bot\<close>

record suggestion_flow =
  gf_service :: suggestion_state
  gf_awaiting :: "int list"

definition suggestion_cancel_button :: "(string \<times> string \<times> string \<times> string) list" where
  "suggestion_cancel_button = [(''Bekor qilish'', ''source'', ''cancel'', [])]"

definition flow_start :: "int \<Rightarrow> int \<Rightarrow> suggestion_flow \<Rightarrow> bot_screen res \<times> suggestion_flow" where
  "flow_start clock user fl =
     (screen_of clock
        (join [CHR 0x0A]
          [''Kanal yoki guruh username/linkini yuboring.'',
           ''Masalan: @estate_channel yoki https://t.me/estate_channel'', [],
           ''Manba avtomatik qo'' @ [CHR 0x27] @ ''shilmaydi. Adminlar faolligi va sifatini ko'' @ [CHR 0x27] @ ''rib chiqadi.''])
        suggestion_cancel_button user,
      fl\<lparr>gf_awaiting := (if user \<in> set (gf_awaiting fl) then gf_awaiting fl else user # gf_awaiting fl)\<rparr>)"

definition flow_pending :: "int \<Rightarrow> suggestion_flow \<Rightarrow> bool" where
  "flow_pending user fl \<longleftrightarrow> user \<in> set (gf_awaiting fl)"

definition flow_discard :: "int \<Rightarrow> suggestion_flow \<Rightarrow> suggestion_flow" where
  "flow_discard user fl = fl\<lparr>gf_awaiting := filter (\<lambda>u. u \<noteq> user) (gf_awaiting fl)\<rparr>"

definition submitted_text :: "suggestion_decision \<Rightarrow> string" where
  "submitted_text d =
     join [CHR 0x0A]
       (if sd_created d
        then [''Taklif qabul qilindi va pending review holatiga qo'' @ [CHR 0x27] @ ''yildi.'',
              ''Manba: '' @ su_source_identifier (sd_suggestion d), [],
              ''Bu kanal avtomatik qo'' @ [CHR 0x27] @ ''shilmaydi. Admin tasdiqlasa, manba monitoringga '' @
              ''topshiriladi va sizga 1 haftalik Premium beriladi.'']
        else [''Bu manba bo'' @ [CHR 0x27] @ ''yicha taklif allaqachon mavjud.'',
              ''Manba: '' @ su_source_identifier (sd_suggestion d),
              ''Holat: '' @ suggestion_status_text (su_status (sd_suggestion d)), [],
              ''Adminlar uni ko'' @ [CHR 0x27] @ ''rib chiqadi; duplicate taklif qayta qo'' @ [CHR 0x27] @ ''shilmadi.''])"

definition flow_text :: "time \<Rightarrow> int \<Rightarrow> int \<Rightarrow> string \<Rightarrow> suggestion_flow \<Rightarrow> bot_screen res \<times> suggestion_flow" where
  "flow_text now clock user t fl =
     (if user \<notin> set (gf_awaiting fl) then (Inl (ValueError ''Kanal taklif qilish oqimi boshlanmagan.''), fl)
      else (case suggestion_submit now user t TelegramChannel (gf_service fl) of
          (Inl (ValueError m), s) \<Rightarrow>
            (screen_of clock (join [CHR 0x0A] [m, [], ''Iltimos, @username yoki https://t.me/... link yuboring.''])
               suggestion_cancel_button user, fl\<lparr>gf_service := s\<rparr>)
        | (Inl e, s) \<Rightarrow> (Inl e, fl\<lparr>gf_service := s\<rparr>)
        | (Inr d, s) \<Rightarrow>
            (Inr \<lparr>bs_text = submitted_text d, bs_buttons = []\<rparr>, flow_discard user (fl\<lparr>gf_service := s\<rparr>))))"

definition flow_cancel :: "int \<Rightarrow> suggestion_flow \<Rightarrow> bot_screen res \<times> suggestion_flow" where
  "flow_cancel user fl =
     (Inr \<lparr>bs_text = ''Kanal taklif qilish bekor qilindi.'', bs_buttons = []\<rparr>, flow_discard user fl)"


section \<open>Identifiers are canonical\<close>

lemma alnum_plain: "is_alnum c \<or> c = CHR ''_'' \<Longrightarrow> \<not> is_space c"
  using alnum_not_space [of c] by (auto simp: is_space_def code_of_def)

lemma without_link_username: "username_ok u \<Longrightarrow> without_link (CHR ''@'' # u) = CHR ''@'' # u"
proof -
  assume ok: "username_ok u"
  have "strip (CHR ''@'' # u) = CHR ''@'' # u"
    by (rule strip_spaceless) (use ok alnum_plain in \<open>auto simp: username_ok_def is_space_def code_of_def\<close>)
  moreover have "lower_char CHR ''@'' = CHR ''@''" by (simp add: lower_char_def is_upper_def code_of_def)
  ultimately show ?thesis by (simp add: without_link_def drop_prefix_ci_def lower_def starts_with_def)
qed

lemma without_link_number: "starts_with i ''-100'' \<Longrightarrow> is_decimal (drop 4 i) \<Longrightarrow> without_link i = i"
proof -
  assume start: "starts_with i ''-100''" and digits: "is_decimal (drop 4 i)"
  define d where "d = drop 4 i"
  have "take 4 i = ''-100''" using start by (simp add: starts_with_def numeral_eq_Suc)
  then have i: "i = ''-100'' @ d" unfolding d_def by (metis append_take_drop_id)
  have "\<forall>c \<in> set d. is_digit c" using digits by (simp add: is_decimal_def d_def)
  moreover have "\<not> is_space c" if "c \<in> set ''-100''" for c using that by (auto simp: is_space_def code_of_def)
  ultimately have "strip i = i" using digit_not_space unfolding i by (intro strip_spaceless) fastforce
  moreover have "lower_char CHR ''-'' = CHR ''-''" by (simp add: lower_char_def is_upper_def code_of_def)
  ultimately show ?thesis by (simp add: without_link_def drop_prefix_ci_def lower_def starts_with_def i)
qed

lemma normalize_source_identifier_shape:
  "normalize_source_identifier v = Inr k \<longleftrightarrow>
     k = without_link v \<and> ((\<exists>u. k = CHR ''@'' # u \<and> username_ok u) \<or> starts_with k ''-100'' \<and> is_decimal (drop 4 k))"
proof -
  have "starts_with i ''@'' \<longleftrightarrow> (\<exists>u. i = CHR ''@'' # u)" for i by (cases i) (auto simp: starts_with_def)
  then show ?thesis by (auto simp: normalize_source_identifier_def Let_def starts_with_def)
qed

text \<open>
  A suggested identifier that is accepted is a username of 5 to 64 characters after an at sign or the
  number of a channel, and normalising it again changes nothing: a link, with or without its scheme and blanks, and
  the username it leads to are one suggestion.
\<close>

theorem suggested_identifier_canonical:
  assumes "normalize_source_identifier v = Inr k"
  shows "normalize_source_identifier k = Inr k \<and>
    ((\<exists>u. k = CHR ''@'' # u \<and> username_ok u) \<or> starts_with k ''-100'' \<and> is_decimal (drop 4 k))"
  using assms without_link_username without_link_number by (auto simp: normalize_source_identifier_shape)

theorem suggested_identifier_canonical_witness:
  "normalize_source_identifier '' https://T.me/Estate_Uz '' = Inr ''@Estate_Uz'' \<and>
   normalize_source_identifier ''@Estate_Uz'' = Inr ''@Estate_Uz''"
proof -
  have given: "normalize_source_identifier '' https://T.me/Estate_Uz '' = Inr ''@Estate_Uz''" by code_simp
  with suggested_identifier_canonical [OF given] show ?thesis by blast
qed

text \<open>
  Usernames are case-insensitive in Telegram and in the registry, but not here: two spellings of one channel are
  two suggestions, each with its own reward, for one source.
\<close>

lemma spellings_are_two_suggestions:
  "normalize_source_identifier ''@Estate_Uz'' = Inr ''@Estate_Uz''"
  "normalize_source_identifier ''@estate_uz'' = Inr ''@estate_uz''"
  "source_key TelegramChannel ''@Estate_Uz'' = source_key TelegramChannel ''@estate_uz''"
  by code_simp+


section \<open>Rewards\<close>

text \<open>Once a suggestion is rewarded it stays so, and its next approval grants nothing.\<close>

definition rewarded :: "string \<Rightarrow> suggestion_state \<Rightarrow> bool" where
  "rewarded i st \<longleftrightarrow> (\<exists>x. dict_get (sg_suggestions st) i = Some x \<and> su_reward_granted x)"

lemma audit_once_suggestions [simp]:
  "sg_suggestions (snd (suggestion_audit_once e st)) = sg_suggestions st"
  "sg_by_identifier (snd (suggestion_audit_once e st)) = sg_by_identifier st"
  by (auto simp: suggestion_audit_once_def split: option.split)

lemma grant_premium_suggestions [simp]:
  "sg_suggestions (snd (grant_premium u d t st)) = sg_suggestions st"
  "sg_by_identifier (snd (grant_premium u d t st)) = sg_by_identifier st"
  by (simp_all add: grant_premium_def Let_def)

lemma register_suggested_suggestions [simp]:
  "sg_suggestions (snd (register_suggested G x st)) = sg_suggestions st"
  "sg_by_identifier (snd (register_suggested G x st)) = sg_by_identifier st"
  by (auto simp: register_suggested_def split: prod.split sum.split)

definition reward_step :: "string \<Rightarrow> suggestion_state \<Rightarrow> suggestion_decision res \<times> suggestion_state \<Rightarrow> bool" where
  "reward_step i st r \<longleftrightarrow> (rewarded i st \<longrightarrow> rewarded i (snd r)) \<and>
     (\<forall>d. fst r = Inr d \<longrightarrow> sd_reward_until d \<noteq> None \<longrightarrow> su_suggestion_id (sd_suggestion d) = i \<longrightarrow>
        \<not> rewarded i st \<and> rewarded i (snd r))"

lemma reward_step_plain:
  "sg_suggestions st1 = sg_suggestions st \<Longrightarrow> reward_step i st (Inl e, st1)"
  "sg_suggestions st1 = sg_suggestions st \<Longrightarrow> reward_step i st (Inr (plain_decision x b), st1)"
  by (simp_all add: reward_step_def rewarded_def plain_decision_def)

text \<open>The repository keeps suggestions under their ids.\<close>

definition suggestions_ok :: "suggestion_state \<Rightarrow> bool" where
  "suggestions_ok st \<longleftrightarrow> keyed_by su_suggestion_id (sg_suggestions st) \<and>
     (\<forall>ident i. dict_get (sg_by_identifier st) ident = Some i \<longrightarrow>
        (\<exists>x. dict_get (sg_suggestions st) i = Some x \<and> su_source_identifier x = ident)) \<and>
     (\<forall>i x. dict_get (sg_suggestions st) i = Some x \<longrightarrow>
        i = ''source:'' @ su_source_identifier x \<and> dict_get (sg_by_identifier st) (su_source_identifier x) = Some i \<and>
        normalize_source_identifier (su_source_identifier x) = Inr (su_source_identifier x) \<and> su_user_id x \<noteq> None \<and>
        (su_status x = ApprovedSuggestion \<longrightarrow> su_reward_granted x))"

lemma suggestions_ok_same:
  "sg_suggestions st1 = sg_suggestions st \<Longrightarrow> sg_by_identifier st1 = sg_by_identifier st \<Longrightarrow>
   suggestions_ok st1 = suggestions_ok st"
  by (simp add: suggestions_ok_def)

lemma suggestions_ok_put:
  assumes "suggestions_ok st" and "dict_get (sg_suggestions st) i = Some x"
    and "su_suggestion_id y = su_suggestion_id x" "su_source_identifier y = su_source_identifier x"
    and "su_user_id y \<noteq> None" and "su_status y = ApprovedSuggestion \<longrightarrow> su_reward_granted y"
    and "sg_suggestions st1 = dict_put i y (sg_suggestions st)" and "sg_by_identifier st1 = sg_by_identifier st"
  shows "suggestions_ok st1"
proof -
  have "keyed_by su_suggestion_id (sg_suggestions st1)"
    using assms(1-3,7) by (auto simp: suggestions_ok_def intro: keyed_by_modify)
  with assms show ?thesis by (auto simp: suggestions_ok_def dict_get_put)
qed

lemma set_suggestion_status_ok:
  assumes "suggestions_ok st" and "st1 = snd (set_suggestion_status i s n g src now st)" and "s = ApprovedSuggestion \<longrightarrow> g"
  shows "suggestions_ok st1"
proof (cases "dict_get (sg_suggestions st) i")
  case None
  with assms show ?thesis by (simp add: set_suggestion_status_def)
next
  case (Some x)
  then have "su_user_id x \<noteq> None" using assms(1) by (simp add: suggestions_ok_def)
  with assms(2,3) Some show ?thesis
    by (intro suggestions_ok_put [OF assms(1) Some]) (simp_all add: set_suggestion_status_def Let_def)
qed


lemma suggestions_okD:
  assumes "suggestions_ok st"
  shows "keyed_by su_suggestion_id (sg_suggestions st)"
    "dict_get (sg_by_identifier st) ident = Some i \<Longrightarrow> \<exists>x. dict_get (sg_suggestions st) i = Some x \<and> su_source_identifier x = ident"
    "dict_get (sg_suggestions st) i = Some x \<Longrightarrow> i = ''source:'' @ su_source_identifier x \<and>
       dict_get (sg_by_identifier st) (su_source_identifier x) = Some i \<and>
       normalize_source_identifier (su_source_identifier x) = Inr (su_source_identifier x) \<and> su_user_id x \<noteq> None \<and>
       (su_status x = ApprovedSuggestion \<longrightarrow> su_reward_granted x)"
  using assms unfolding suggestions_ok_def by blast+

lemma suggestions_ok_new:
  assumes "suggestions_ok st" and "dict_get (sg_by_identifier st) ident = None" and "normalize_source_identifier ident = Inr ident"
    and "i = ''source:'' @ ident" and "su_suggestion_id x = i" "su_source_identifier x = ident" "su_user_id x \<noteq> None"
      "su_status x \<noteq> ApprovedSuggestion"
    and "sg_suggestions st1 = dict_put i x (sg_suggestions st)" "sg_by_identifier st1 = dict_put ident i (sg_by_identifier st)"
  shows "suggestions_ok st1 \<and> dict_get (sg_suggestions st) i = None"
proof
  show new: "dict_get (sg_suggestions st) i = None"
  proof (rule ccontr)
    assume "dict_get (sg_suggestions st) i \<noteq> None"
    then obtain y where "dict_get (sg_suggestions st) i = Some y" by blast
    from suggestions_okD(3) [OF assms(1) this] assms(2,4) show False by auto
  qed
  show "suggestions_ok st1"
    unfolding suggestions_ok_def assms(9,10) dict_get_put
  proof (intro conjI allI impI)
    show "keyed_by su_suggestion_id (dict_put i x (sg_suggestions st))"
      using suggestions_okD(1) [OF assms(1)] assms(5) by (rule keyed_by_put)
  next
    fix other k
    assume k: "(if other = ident then Some i else dict_get (sg_by_identifier st) other) = Some k"
    show "\<exists>y. (if k = i then Some x else dict_get (sg_suggestions st) k) = Some y \<and> su_source_identifier y = other"
    proof (cases "other = ident")
      case True
      with k assms(6) show ?thesis by simp
    next
      case False
      with k suggestions_okD(2) [OF assms(1), of other k] new show ?thesis by auto
    qed
  next
    fix k y
    assume y: "(if k = i then Some x else dict_get (sg_suggestions st) k) = Some y"
    show "k = ''source:'' @ su_source_identifier y"
      "(if su_source_identifier y = ident then Some i else dict_get (sg_by_identifier st) (su_source_identifier y)) = Some k"
      "normalize_source_identifier (su_source_identifier y) = Inr (su_source_identifier y)" "su_user_id y \<noteq> None"
      using y assms(2-8) suggestions_okD(3) [OF assms(1), of k y] by (auto split: if_splits)
    assume "su_status y = ApprovedSuggestion"
    then show "su_reward_granted y" using y assms(8) suggestions_okD(3) [OF assms(1), of k y] by (auto split: if_splits)
  qed
qed

lemma repo_submit_ok:
  assumes "suggestions_ok st" and "normalize_source_identifier ident = Inr ident" and "repo_submit now user ident t st = (r, st1)"
  shows "suggestions_ok st1 \<and> (\<exists>x created. r = Inr (x, created) \<and> su_source_identifier x = ident) \<and>
    (rewarded i st \<longrightarrow> rewarded i st1)"
proof (cases "dict_get (sg_by_identifier st) ident")
  case None
  define k where "k = ''source:'' @ ident"
  let ?x = "\<lparr>su_suggestion_id = k, su_source_identifier = ident, su_user_id = Some user, su_source_type = t,
                    su_status = PendingSuggestion, su_admin_note = None, su_reward_granted = False, su_source_id = None,
                    su_created_at = now, su_updated_at = now, su_decided_at = None\<rparr>"
  have st1: "st1 = st\<lparr>sg_suggestions := dict_put k ?x (sg_suggestions st), sg_by_identifier := dict_put ident k (sg_by_identifier st)\<rparr>"
    and r: "r = Inr (?x, True)"
    using assms(3) None unfolding repo_submit_def Let_def k_def by simp_all
  have "suggestions_ok st1 \<and> dict_get (sg_suggestions st) k = None"
    by (rule suggestions_ok_new [OF assms(1) None assms(2) k_def, of ?x]) (simp_all add: st1)
  moreover from this have "rewarded i st \<longrightarrow> rewarded i st1" by (auto simp: st1 rewarded_def dict_get_put)
  ultimately show ?thesis by (auto simp: r)
next
  case (Some k)
  then obtain x where x: "dict_get (sg_suggestions st) k = Some x" "su_source_identifier x = ident"
    using assms(1) by (auto simp: suggestions_ok_def)
  let ?y = "x\<lparr>su_user_id := Some user, su_source_type := t, su_status := PendingSuggestion,
      su_admin_note := None, su_updated_at := now, su_decided_at := None\<rparr>"
  have "suggestions_ok (st\<lparr>sg_suggestions := dict_put k ?y (sg_suggestions st)\<rparr>)"
    by (rule suggestions_ok_put [OF assms(1) x(1)]) simp_all
  moreover have "rewarded i st \<longrightarrow> rewarded i (st\<lparr>sg_suggestions := dict_put k ?y (sg_suggestions st)\<rparr>)"
    using x(1) by (auto simp: rewarded_def dict_get_put)
  ultimately show ?thesis
    using assms(1,3) Some x by (auto simp: repo_submit_def Let_def split: if_splits)
qed

lemma suggestion_submit_ok:
  assumes "suggestions_ok st"
  shows "suggestions_ok (snd (suggestion_submit now user ident t st)) \<and> reward_step i st (suggestion_submit now user ident t st)"
proof (cases "user \<le> 0 \<or> (\<exists>e. normalize_source_identifier ident = Inl e)")
  case True
  then show ?thesis using assms by (auto simp: suggestion_submit_def reward_step_plain)
next
  case False
  then obtain k where k: "normalize_source_identifier ident = Inr k" "\<not> user \<le> 0" by (cases "normalize_source_identifier ident") auto
  obtain r st1 where sub: "repo_submit now user k t st = (r, st1)" by fastforce
  have "normalize_source_identifier k = Inr k"
    using k(1) without_link_username without_link_number by (auto simp: normalize_source_identifier_shape)
  from repo_submit_ok [OF assms this sub, of i] obtain x created where
    ok: "suggestions_ok st1" "r = Inr (x, created)" "rewarded i st \<longrightarrow> rewarded i st1" by blast
  let ?st2 = "snd (suggestion_audit_once \<lparr>sa_action = SubmitSuggestion,
                    sa_idempotency_key = ''submit:'' @ str_int user @ '':'' @ k,
                    sa_suggestion_id = su_suggestion_id x, sa_actor_user_id = Some user, sa_note = None\<rparr> st1)"
  have run: "suggestion_submit now user ident t st =
      (Inr (plain_decision x created), if created then ?st2\<lparr>sg_notified := sg_notified ?st2 @ [x]\<rparr> else ?st2)"
    using k sub ok(2) by (simp add: suggestion_submit_def Let_def)
  have "suggestions_ok (snd (suggestion_submit now user ident t st))"
    unfolding run using ok(1) by (cases created) (simp_all add: suggestions_ok_def)
  moreover have "reward_step i st (suggestion_submit now user ident t st)"
    unfolding run using ok(3) by (auto simp: reward_step_def rewarded_def plain_decision_def)
  ultimately show ?thesis by blast
qed

lemma decision_start_ok:
  assumes "suggestions_ok st"
    and "\<And>x st1. suggestions_ok st1 \<Longrightarrow> sg_suggestions st1 = sg_suggestions st \<Longrightarrow> dict_get (sg_suggestions st1) i = Some x \<Longrightarrow>
       suggestions_ok (snd (decide x st1)) \<and> reward_step j st1 (decide x st1)"
  shows "suggestions_ok (snd (decision_start action final i admin key n expected decide st)) \<and>
    reward_step j st (decision_start action final i admin key n expected decide st)"
proof -
  let ?a = "\<lparr>sa_action = action, sa_idempotency_key = key, sa_suggestion_id = i, sa_actor_user_id = Some admin, sa_note = n\<rparr>"
  obtain e created st1 where audit: "suggestion_audit_once ?a st = ((e, created), st1)" by (metis prod.collapse)
  have same: "sg_suggestions st1 = sg_suggestions st" "sg_by_identifier st1 = sg_by_identifier st"
    using audit_once_suggestions [of ?a st] audit by simp_all
  then have ok: "suggestions_ok st1" using assms(1) suggestions_ok_same by blast
  have decide: "suggestions_ok (snd (decide x st1)) \<and> reward_step j st (decide x st1)"
    if "dict_get (sg_suggestions st1) i = Some x" for x
    using assms(2) [OF ok same(1) that] by (simp add: reward_step_def rewarded_def same)
  show ?thesis
    using assms(1) ok same decide
    by (auto simp: decision_start_def audit reward_step_plain split: option.split)
qed

lemma suggestion_reject_ok:
  assumes "suggestions_ok st"
  shows "suggestions_ok (snd (suggestion_reject now i admin key n expected st)) \<and>
    reward_step j st (suggestion_reject now i admin key n expected st)"
  unfolding suggestion_reject_def
proof (rule decision_start_ok [OF assms])
  fix x st1
  assume st1: "suggestions_ok st1" and x: "dict_get (sg_suggestions st1) i = Some x"
  let ?r = "set_suggestion_status i RejectedSuggestion n (su_reward_granted x) (su_source_id x) now st1"
  have "suggestions_ok (snd ?r)" by (rule set_suggestion_status_ok [OF st1 refl]) simp
  moreover have "rewarded j st1 \<longrightarrow> rewarded j (snd ?r)"
    using x by (auto simp: set_suggestion_status_def Let_def rewarded_def dict_get_put)
  ultimately show "suggestions_ok (snd (then_do ?r (\<lambda>y st2. (Inr (plain_decision y True), st2)))) \<and>
      reward_step j st1 (then_do ?r (\<lambda>y st2. (Inr (plain_decision y True), st2)))"
    using x by (auto simp: set_suggestion_status_def Let_def reward_step_def plain_decision_def)
qed


lemma suggestion_approve_ok:
  assumes "suggestions_ok st"
  shows "suggestions_ok (snd (suggestion_approve G now i admin key n expected st)) \<and>
    reward_step j st (suggestion_approve G now i admin key n expected st)"
  unfolding suggestion_approve_def
proof (rule decision_start_ok [OF assms])
  fix x st1
  assume st1: "suggestions_ok st1" and x: "dict_get (sg_suggestions st1) i = Some x"
  obtain r st2 where reg: "register_suggested G x st1 = (r, st2)" by fastforce
  have same: "sg_suggestions st2 = sg_suggestions st1" "sg_by_identifier st2 = sg_by_identifier st1"
    using register_suggested_suggestions [of G x st1] reg by simp_all
  have id: "su_suggestion_id x = i" using keyed_by_getD [OF suggestions_okD(1) [OF st1] x] .
  show "suggestions_ok (snd (approve_decide G now i n x st1)) \<and> reward_step j st1 (approve_decide G now i n x st1)"
  proof (cases r)
    case (Inl e)
    have "suggestions_ok st2" using st1 same suggestions_ok_same by blast
    with Inl show ?thesis by (simp add: approve_decide_def reg reward_step_plain same)
  next
    case (Inr sc)
    obtain src created where sc: "sc = (src, created)" by fastforce
    obtain user where user: "su_user_id x = Some user" using suggestions_okD(3) [OF st1 x] by auto
    define grant where "grant = (if \<not> su_reward_granted x
       then (let (t, s) = grant_premium user (ge_extension G) now st2 in (Some t, s)) else (None, st2))"
    have grant_same: "sg_suggestions (snd grant) = sg_suggestions st1" "sg_by_identifier (snd grant) = sg_by_identifier st1"
      using same grant_premium_suggestions [of user "ge_extension G" now st2]
      by (cases "grant_premium user (ge_extension G) now st2"; simp add: grant_def)+
    have grant_fst: "fst grant \<noteq> None \<longleftrightarrow> \<not> su_reward_granted x" by (auto simp: grant_def split: prod.split)
    let ?src = "case src of Some s \<Rightarrow> Some (so_source_id s) | None \<Rightarrow> su_source_id x"
    let ?y = "x\<lparr>su_status := ApprovedSuggestion, su_admin_note := n, su_reward_granted := True,
        su_source_id := (if ?src \<noteq> None then ?src else su_source_id x), su_updated_at := now, su_decided_at := Some now\<rparr>"
    let ?st3 = "(snd grant)\<lparr>sg_suggestions := dict_put i ?y (sg_suggestions st1)\<rparr>"
    have run: "approve_decide G now i n x st1 =
        (Inr \<lparr>sd_suggestion = ?y, sd_created = True, sd_reward_until = fst grant, sd_source = src, sd_source_created = created\<rparr>, ?st3)"
      using x by (simp add: approve_decide_def reg Inr sc user flip: grant_def)
        (simp add: set_suggestion_status_def grant_same Let_def case_prod_beta)
    have "suggestions_ok ?st3"
      by (rule suggestions_ok_put [OF st1 x, of ?y]) (simp_all add: user grant_same)
    moreover have "reward_step j st1 (approve_decide G now i n x st1)"
      unfolding run reward_step_def rewarded_def using x id grant_fst by (auto simp: dict_get_put)
    ultimately show ?thesis unfolding run by simp
  qed
qed

datatype suggestion_event =
    SuggestSource time int string source_type
  | ApproveSource time string int string "string option" "suggestion_status option"
  | RejectSource time string int string "string option" "suggestion_status option"

fun suggestion_event_step ::
  "suggestion_env \<Rightarrow> suggestion_event \<Rightarrow> suggestion_state \<Rightarrow> suggestion_decision res \<times> suggestion_state" where
  "suggestion_event_step G (SuggestSource now user ident t) st = suggestion_submit now user ident t st"
| "suggestion_event_step G (ApproveSource now i admin key n expected) st = suggestion_approve G now i admin key n expected st"
| "suggestion_event_step G (RejectSource now i admin key n expected) st = suggestion_reject now i admin key n expected st"

fun suggestion_history :: "suggestion_env \<Rightarrow> suggestion_event list \<Rightarrow> suggestion_state \<Rightarrow> suggestion_decision res list" where
  "suggestion_history G [] st = []"
| "suggestion_history G (e # es) st =
     fst (suggestion_event_step G e st) # suggestion_history G es (snd (suggestion_event_step G e st))"

definition rewards_for :: "string \<Rightarrow> suggestion_decision res list \<Rightarrow> nat" where
  "rewards_for i ds = length (filter (\<lambda>r. case r of Inl _ \<Rightarrow> False
     | Inr d \<Rightarrow> su_suggestion_id (sd_suggestion d) = i \<and> sd_reward_until d \<noteq> None) ds)"

definition empty_suggestions :: "source_registry \<Rightarrow> suggestion_state" where
  "empty_suggestions reg = \<lparr>sg_suggestions = [], sg_by_identifier = [], sg_audit = [], sg_premium_until = [],
     sg_registry = reg, sg_notified = []\<rparr>"

lemma suggestion_event_ok:
  "suggestions_ok st \<Longrightarrow> suggestions_ok (snd (suggestion_event_step G e st)) \<and> reward_step j st (suggestion_event_step G e st)"
  by (cases e) (simp_all add: suggestion_submit_ok suggestion_approve_ok suggestion_reject_ok)

lemma rewards_bounded:
  "suggestions_ok st \<Longrightarrow> rewards_for i (suggestion_history G es st) \<le> (if rewarded i st then 0 else 1)"
proof (induction es arbitrary: st)
  case Nil
  then show ?case by (simp add: rewards_for_def)
next
  case (Cons e es)
  let ?r = "suggestion_event_step G e st"
  have ok: "suggestions_ok (snd ?r)" and step: "reward_step i st ?r" using suggestion_event_ok [OF Cons.prems] by blast+
  have "rewards_for i (suggestion_history G (e # es) st) =
      (case fst ?r of Inl _ \<Rightarrow> 0 | Inr d \<Rightarrow> if su_suggestion_id (sd_suggestion d) = i \<and> sd_reward_until d \<noteq> None then 1 else 0) +
      rewards_for i (suggestion_history G es (snd ?r))"
    by (cases "fst ?r") (auto simp: rewards_for_def)
  with Cons.IH [OF ok] step show ?case
    by (auto simp: reward_step_def split: sum.split if_splits)
qed

text \<open>
  C21. In any history of submissions, approvals and rejections, with whatever keys, users and failures of the
  registry, the approvals of one suggestion grant Premium at most once, also when it is rejected, suggested again
  and approved again.
\<close>

theorem suggestion_rewarded_once:
  "rewards_for i (suggestion_history G es (empty_suggestions reg)) \<le> 1"
proof -
  have "suggestions_ok (empty_suggestions reg)" by (simp add: suggestions_ok_def empty_suggestions_def)
  from rewards_bounded [OF this, of i G es] show ?thesis by (simp split: if_splits)
qed


section \<open>Retries\<close>

text \<open>
  An approval whose registration of the source raises cannot be retried: its key is recorded before the
  registry is called, so the same request, sent again when the registry works, answers with the suggestion still
  pending and changes nothing.
\<close>

theorem failed_approval_not_retried:
  assumes "dict_get (sg_suggestions st) i = Some x" and "su_status x = PendingSuggestion" and "0 < admin"
    and "dict_get (sg_audit st) key = None"
    and "ge_has_registry G"
    and "create_or_enable_source (ge_router_env G) (ge_router G) (ge_dump_bytes G) (registry_request x) (sg_registry st) =
      (Inl e, sg_registry st)"
  shows "\<exists>st1. suggestion_approve G now i admin key n (Some PendingSuggestion) st = (Inl e, st1) \<and>
    dict_get (sg_suggestions st1) i = Some x \<and>
    suggestion_approve G' later i admin key n (Some PendingSuggestion) st1 = (Inr (plain_decision x False), st1)"
proof -
  let ?a = "\<lparr>sa_action = ApproveSuggestion, sa_idempotency_key = key, sa_suggestion_id = i, sa_actor_user_id = Some admin, sa_note = n\<rparr>"
  let ?st1 = "st\<lparr>sg_audit := dict_put key ?a (sg_audit st)\<rparr>"
  have first: "suggestion_audit_once ?a st = ((?a, True), ?st1)" and again: "suggestion_audit_once ?a ?st1 = ((?a, False), ?st1)"
    using assms(4) by (simp_all add: suggestion_audit_once_def dict_get_put)
  have "register_suggested G x ?st1 = (Inl e, ?st1)" using assms(5,6) by (simp add: register_suggested_def)
  with assms(1-3) first again show ?thesis
    by (simp add: suggestion_approve_def decision_start_def approve_decide_def)
qed


text \<open>A channel that was removed from the registry with a parser that is no longer registered is suggested again.\<close>

definition retired_source :: source_config where
  "retired_source = \<lparr>so_source_id = ''telegram_channel:@uylar'', so_name = ''@uylar'', so_type = TelegramChannel,
     so_identifier = ''@uylar'', so_enabled = False, so_adapter_name = None, so_source_profile = None, so_account_key = None,
     so_parser_key = Some ''retired.parser'', so_parser_version = Some ''1'', so_parser_config = [], so_parser_mode = Active\<rparr>"

definition uylar_suggestion :: source_suggestion where
  "uylar_suggestion = \<lparr>su_suggestion_id = ''s1'', su_source_identifier = ''@uylar'', su_user_id = Some 7,
     su_source_type = TelegramChannel, su_status = PendingSuggestion, su_admin_note = None, su_reward_granted = False,
     su_source_id = None, su_created_at = 0, su_updated_at = 0, su_decided_at = None\<rparr>"

definition uylar_suggestions :: suggestion_state where
  "uylar_suggestions = (empty_suggestions [(source_key TelegramChannel ''@uylar'', retired_source)])
     \<lparr>sg_suggestions := [(''s1'', uylar_suggestion)], sg_by_identifier := [(''@uylar'', ''s1'')]\<rparr>"

definition sample_suggestion_env :: suggestion_env where
  "sample_suggestion_env = \<lparr>ge_router_env = sample_router_env, ge_router = sample_router, ge_dump_bytes = (\<lambda>_. 2),
     ge_has_registry = True, ge_extension = 604800\<rparr>"

lemma failed_approval_not_retried_witness:
  "\<exists>st1. suggestion_approve sample_suggestion_env 5 ''s1'' 1 ''k'' None (Some PendingSuggestion) uylar_suggestions =
      (Inl (ValueError ''unknown parser binding''), st1) \<and>
    dict_get (sg_suggestions st1) ''s1'' = Some uylar_suggestion \<and>
    suggestion_approve sample_suggestion_env 9 ''s1'' 1 ''k'' None (Some PendingSuggestion) st1 =
      (Inr (plain_decision uylar_suggestion False), st1)"
proof (rule failed_approval_not_retried)
  show "dict_get (sg_suggestions uylar_suggestions) ''s1'' = Some uylar_suggestion" by code_simp
  show "su_status uylar_suggestion = PendingSuggestion" by (simp add: uylar_suggestion_def)
  show "dict_get (sg_audit uylar_suggestions) ''k'' = None" by code_simp
  show "ge_has_registry sample_suggestion_env" by (simp add: sample_suggestion_env_def)
  have "fst (create_or_enable_source sample_router_env sample_router (\<lambda>_. 2) (registry_request uylar_suggestion)
      (sg_registry uylar_suggestions)) = Inl (ValueError ''unknown parser binding'')"
    by code_simp
  then show "create_or_enable_source (ge_router_env sample_suggestion_env) (ge_router sample_suggestion_env)
      (ge_dump_bytes sample_suggestion_env) (registry_request uylar_suggestion) (sg_registry uylar_suggestions) =
      (Inl (ValueError ''unknown parser binding''), sg_registry uylar_suggestions)"
    by (auto simp: sample_suggestion_env_def create_or_enable_source_def Let_def split: sum.splits)
qed simp

end
