(* ===== verification/EF_Bot.thy ===== *)
theory EF_Bot
  imports EF_Actors EF_NlpSearch EF_FilterBot EF_Referrals EF_Suggestions EF_Release EF_Notifications
begin

text \<open>
  The controller of the user bot (\<open>bot/controller.py\<close>): beta access, the routing of callbacks and texts to the search
  wizard, the free text search, the saved filters, the suggestions and the referrals, and the screens it builds
  itself. Which of the optional parts are configured is an argument; the handlers of \<open>bot/app.py\<close> are the wrappers
  at the end.
\<close>

section \<open>State\<close>

record bot_state =
  bt_wizard :: search_wizard
  bt_nlp :: nlp_flow
  bt_filters :: filter_bot
  bt_sources :: suggestion_flow
  bt_users :: referral_state
  bt_events :: "(string \<times> string \<times> int \<times> string) list"

record bot_env =
  be_has_wizard :: bool
  be_has_nlp :: bool
  be_has_filters :: bool
  be_has_sources :: bool
  be_has_referrals :: bool
  be_release :: "release_service option"
  be_mini_app_url :: "string option"
  be_bot_username :: "string option"
  be_wizard :: wizard_env
  be_nlp :: nlp_env
  be_ask :: "string \<Rightarrow> nat \<Rightarrow> string \<Rightarrow> llm_answer"
  be_filter :: filter_bot_env
  be_referral :: referral_config
  be_event_id :: string
  be_time :: time

definition bot_clock :: "bot_env \<Rightarrow> int" where
  "bot_clock B = we_now (be_wizard B)"

definition beta_access_blocked :: "bot_env \<Rightarrow> int \<Rightarrow> bot_screen option" where
  "beta_access_blocked B user =
     (case be_release B of
        None \<Rightarrow> None
      | Some s \<Rightarrow> if bd_allowed (beta_access user s) then None
          else Some \<lparr>bs_text = ''Beta hozir yopiq rejimda. Kirish faqat admin tasdiqlagan test cohort uchun yoqilgan.'',
                     bs_buttons = []\<rparr>)"

definition nlp_enabled :: "bot_env \<Rightarrow> bool" where
  "nlp_enabled B = (case be_release B of None \<Rightarrow> True | Some s \<Rightarrow> ff_nlp (as_set (flag_states (rs_store s))))"

definition bot_menu :: "bot_env \<Rightarrow> int \<Rightarrow> bot_screen res" where
  "bot_menu B user = main_menu (bot_clock B) (be_mini_app_url B) user"

definition bot_mini_app :: "bot_env \<Rightarrow> int \<Rightarrow> bot_screen res" where
  "bot_mini_app B user = mini_app_screen (bot_clock B) (be_mini_app_url B) user"

text \<open>A text over the buttons of the main menu.\<close>

definition with_menu :: "bot_env \<Rightarrow> int \<Rightarrow> string \<Rightarrow> bot_screen res" where
  "with_menu B user t = res_bind (bot_menu B user) (\<lambda>m. Inr \<lparr>bs_text = t, bs_buttons = bs_buttons m\<rparr>)"

text \<open>What a part does to its own state.\<close>

definition on_wizard :: "'a \<times> search_wizard \<Rightarrow> bot_state \<Rightarrow> 'a \<times> bot_state" where
  "on_wizard r st = (fst r, st\<lparr>bt_wizard := snd r\<rparr>)"

definition on_filters :: "'a \<times> filter_bot \<Rightarrow> bot_state \<Rightarrow> 'a \<times> bot_state" where
  "on_filters r st = (fst r, st\<lparr>bt_filters := snd r\<rparr>)"

definition on_nlp :: "'a \<times> nlp_flow \<Rightarrow> bot_state \<Rightarrow> 'a \<times> bot_state" where
  "on_nlp r st = (fst r, st\<lparr>bt_nlp := snd r\<rparr>)"

definition on_sources :: "'a \<times> suggestion_flow \<Rightarrow> bot_state \<Rightarrow> 'a \<times> bot_state" where
  "on_sources r st = (fst r, st\<lparr>bt_sources := snd r\<rparr>)"

definition on_users :: "'a \<times> referral_state \<Rightarrow> bot_state \<Rightarrow> 'a \<times> bot_state" where
  "on_users r st = (fst r, st\<lparr>bt_users := snd r\<rparr>)"

section \<open>Commands\<close>

definition bot_start :: "bot_env \<Rightarrow> int \<Rightarrow> string option \<Rightarrow> bot_state \<Rightarrow> bot_screen res \<times> bot_state" where
  "bot_start B user param st =
     (case beta_access_blocked B user of
        Some s \<Rightarrow> (Inr s, st)
      | None \<Rightarrow>
          if be_has_referrals B
          then then_do (on_users (register_start (be_referral B) (be_time B) (be_event_id B) user param (bt_users st)) st)
            (\<lambda>_ st1. (bot_menu B user, st1))
          else then_do (on_users (register_or_touch (be_time B) user (bt_users st)) st) (\<lambda>_ st1. (bot_menu B user, st1)))"

text \<open>The pending name of a filter is not among what is cancelled.\<close>

definition bot_cancel :: "bot_env \<Rightarrow> int \<Rightarrow> bot_state \<Rightarrow> bot_screen res \<times> bot_state" where
  "bot_cancel B user st =
     (let st1 = (if be_has_wizard B then snd (on_wizard (wizard_cancel user (bt_wizard st)) st) else st);
          st2 = (if be_has_nlp B then snd (on_nlp (nlp_cancel user (bt_nlp st1)) st1) else st1);
          st3 = (if be_has_sources B then snd (on_sources (flow_cancel user (bt_sources st2)) st2) else st2)
      in (with_menu B user ''Bekor qilindi.'', st3))"

definition bot_back :: "bot_env \<Rightarrow> int \<Rightarrow> bot_state \<Rightarrow> bot_screen res \<times> bot_state" where
  "bot_back B user st =
     (if be_has_wizard B
      then (case on_wizard (wizard_back (be_wizard B) user (bt_wizard st)) st of
              (Inl (ValueError _), st1) \<Rightarrow> (bot_menu B user, st1)
            | r \<Rightarrow> r)
      else (bot_menu B user, st))"

section \<open>Callbacks\<close>

definition notification_event :: "string \<Rightarrow> string" where
  "notification_event action =
     (if action = ''open'' then ''notification_action_open''
      else if action = ''search'' then ''notification_action_search'' else ''notification_action_read'')"

definition handle_notification_callback :: "bot_env \<Rightarrow> int \<Rightarrow> string \<Rightarrow> bot_state \<Rightarrow> bot_screen res \<times> bot_state" where
  "handle_notification_callback B user data st =
     (case parse_notification_action_callback data of
        Inl e \<Rightarrow> (Inl e, st)
      | Inr (action, nid) \<Rightarrow>
          (if action = ''read'' then with_menu B user (''Bildirishnoma o'' @ [CHR 0x27] @ ''qildi.'')
           else if action = ''search'' then bot_menu B user
           else with_menu B user (''E'' @ [CHR 0x27] @ ''lon tafsilotlari ochildi.''),
           st\<lparr>bt_events := bt_events st @ [(notification_event action,
              ''notification_action:'' @ nid @ '':'' @ action @ '':'' @ str_int user, user, nid)]\<rparr>))"

definition handle_filter_callback ::
  "bot_env \<Rightarrow> int \<Rightarrow> string \<Rightarrow> string \<Rightarrow> bot_state \<Rightarrow> bot_screen res \<times> bot_state" where
  "handle_filter_callback B user action val st =
     (let F = be_filter B; W = be_wizard B; fb = bt_filters st; wz = bt_wizard st;
          empty_search = (search_empty_state (bot_clock B) user, st) in
      if action = ''list'' then (filter_list_screen F user fb, st)
      else if action = ''view'' then (filter_view_screen F user val fb, st)
      else if action = ''save'' then
        if \<not> be_has_wizard B then empty_search
        else (case current_criteria user wz of Inl e \<Rightarrow> (Inl e, st) | Inr c \<Rightarrow> on_filters (begin_save F user c fb) st)
      else if action = ''update'' then
        if \<not> be_has_wizard B then empty_search
        else (case pending_edit_filter_id user fb of
            None \<Rightarrow> (Inr \<lparr>bs_text = ''Yangilash uchun avval saqlangan filtrdan Tahrirlashni tanlang.'', bs_buttons = []\<rparr>, st)
          | Some fid \<Rightarrow> (case current_criteria user wz of
              Inl e \<Rightarrow> (Inl e, st) | Inr c \<Rightarrow> on_filters (begin_update F user fid c fb) st))
      else if action = ''run'' then
        if \<not> be_has_wizard B then empty_search
        else (case filter_get_criteria user val fb of
            Inl e \<Rightarrow> (Inl e, st) | Inr c \<Rightarrow> on_wizard (run_criteria W user c wz) st)
      else if action = ''edit'' then
        if \<not> be_has_wizard B then empty_search
        else (case filter_get_criteria user val fb of
            Inl e \<Rightarrow> (Inl e, st)
          | Inr c \<Rightarrow> then_do (on_wizard (run_criteria W user c wz) (st\<lparr>bt_filters := begin_edit user val fb\<rparr>))
              (\<lambda>s st1. (Inr \<lparr>bs_text = take 3900
                  (''Mavjud kriteriyalar bo'' @ [CHR 0x27] @ ''yicha natija. Yangi kriteriya uchun qidiruvni reset qiling, '' @
                   ''yakunda '' @ [CHR 0x27] @ ''Filtrni yangilash'' @ [CHR 0x27] @ '' bosing.'' @ [CHR 0x0A, CHR 0x0A] @ bs_text s),
                  bs_buttons = bs_buttons s\<rparr>, st1)))
      else if action = ''enable'' then on_filters (set_enabled_screen F user val True fb) st
      else if action = ''disable'' then on_filters (set_enabled_screen F user val False fb) st
      else if action = ''delete_confirm'' then (delete_confirm_screen F user val fb, st)
      else if action = ''delete'' then on_filters (delete_screen F user val fb) st
      else if action = ''cancel'' then on_filters (cancel_pending user fb) st
      else (Inl (ValueError ''Unsupported filter action.''), st))"

definition filters_menu :: "bot_env \<Rightarrow> int \<Rightarrow> bot_state \<Rightarrow> bot_screen res" where
  "filters_menu B user st =
     (if \<not> be_has_filters B then bot_mini_app B user
      else (let fs = list_for_user user (fb_store (bt_filters st)) in
        if fs = [] then saved_filters_empty_state (bot_clock B) user
        else with_menu B user (join [CHR 0x0A]
          (map (\<lambda>(i, f). str_nat i @ ''. '' @ uf_name f @ '' ('' @ (if uf_enabled f then ''yoqilgan'' else DISABLED_TEXT) @ '')'')
            (zip [1..<Suc (length fs)] fs)))))"

definition menu_callback :: "bot_env \<Rightarrow> int \<Rightarrow> string \<Rightarrow> bot_state \<Rightarrow> bot_screen res" where
  "menu_callback B user action st =
     (if action = ''back'' then bot_menu B user
      else if action = ''cancel'' then with_menu B user ''Bekor qilindi.''
      else if action = ''search'' then bot_mini_app B user
      else if action = ''filters'' then filters_menu B user st
      else if action = ''soon'' then Inr coming_soon_screen
      else if action = ''mini_app'' then Inr coming_soon_screen
      else if action = ''help'' then Inr help_screen
      else Inl (ValueError ''Unsupported callback action.''))"

definition referral_callback :: "bot_env \<Rightarrow> int \<Rightarrow> string \<Rightarrow> bot_state \<Rightarrow> bot_screen res \<times> bot_state" where
  "referral_callback B user action st =
     (case be_bot_username B of
        None \<Rightarrow> (with_menu B user ''Referral havolasi hozircha sozlanmagan.'', st)
      | Some username \<Rightarrow>
          if action \<noteq> ''link'' then (with_menu B user ''Referral havolasi hozircha sozlanmagan.'', st)
          else then_do (on_users (register_or_touch (be_time B) user (bt_users st)) st) (\<lambda>u st1.
            (with_menu B user
               (''Do'' @ [CHR 0x27] @ ''stingizga shu havolani yuboring:'' @ [CHR 0x0A, CHR 0x0A] @
                ''https://t.me/'' @ dropWhile (\<lambda>c. c = CHR ''@'') username @ ''?start='' @ tu_referral_code u @ [CHR 0x0A, CHR 0x0A] @
                ''Do'' @ [CHR 0x27] @ ''stingiz kamida bitta qidiruv yoki filter ishlatsa, referral faol hisoblanadi.''), st1)))"

definition route_callback :: "bot_env \<Rightarrow> int \<Rightarrow> callback_payload \<Rightarrow> bot_state \<Rightarrow> bot_screen res \<times> bot_state" where
  "route_callback B user p st =
     (let action = cb_action p; val = cb_value p in
      if cb_namespace p = ''wizard'' then
        if \<not> be_has_wizard B then (bot_mini_app B user, st)
        else on_wizard (wizard_callback (be_wizard B) user action val (bt_wizard st)) st
      else if cb_namespace p = ''nlp'' then
        if \<not> be_has_nlp B \<or> \<not> nlp_enabled B then (bot_mini_app B user, st)
        else (case nlp_callback (be_wizard B) user action (bt_nlp st, bt_wizard st) of
            (r, fl, wz) \<Rightarrow> (r, st\<lparr>bt_nlp := fl, bt_wizard := wz\<rparr>))
      else if cb_namespace p = ''filter'' then
        if \<not> be_has_filters B then (bot_mini_app B user, st) else handle_filter_callback B user action val st
      else if cb_namespace p = ''source'' then
        if \<not> be_has_sources B then (Inr coming_soon_screen, st)
        else if action = ''start'' then on_sources (flow_start (bot_clock B) user (bt_sources st)) st
        else if action = ''cancel'' then on_sources (flow_cancel user (bt_sources st)) st
        else (Inl (ValueError ''Unsupported source suggestion callback action.''), st)
      else if cb_namespace p = ''referral'' then referral_callback B user action st
      else if cb_namespace p \<noteq> ''menu'' then (Inl (ValueError ''Unsupported callback namespace.''), st)
      else (menu_callback B user action st, st))"

definition handle_menu_callback :: "bot_env \<Rightarrow> int \<Rightarrow> string \<Rightarrow> bot_state \<Rightarrow> bot_screen res \<times> bot_state" where
  "handle_menu_callback B user data st =
     (case beta_access_blocked B user of
        Some s \<Rightarrow> (Inr s, st)
      | None \<Rightarrow>
          if starts_with data ''n:v1:'' then handle_notification_callback B user data st
          else (case unpack (Some user) (bot_clock B) DEFAULT_CALLBACK_TTL_SECONDS data of
              Inl e \<Rightarrow> (Inl e, st) | Inr p \<Rightarrow> route_callback B user p st))"

section \<open>Texts\<close>

definition bot_wizard_text :: "bot_env \<Rightarrow> int \<Rightarrow> string \<Rightarrow> bot_state \<Rightarrow> bot_screen res \<times> bot_state" where
  "bot_wizard_text B user t st =
     (if be_has_nlp B \<and> nlp_enabled B \<and> nlp_pending user (bt_nlp st)
      then on_nlp (nlp_text (be_nlp B) (be_ask B) (be_wizard B) user t (bt_nlp st)) st
      else if \<not> be_has_wizard B then (bot_mini_app B user, st)
      else on_wizard (wizard_text (be_wizard B) user t (bt_wizard st)) st)"

definition bot_text :: "bot_env \<Rightarrow> int \<Rightarrow> string \<Rightarrow> bot_state \<Rightarrow> bot_screen res \<times> bot_state" where
  "bot_text B user t st =
     (case beta_access_blocked B user of
        Some s \<Rightarrow> (Inr s, st)
      | None \<Rightarrow>
          if be_has_sources B \<and> flow_pending user (bt_sources st)
          then on_sources (flow_text (be_time B) (bot_clock B) user t (bt_sources st)) st
          else then_do
            (if be_has_filters B then on_filters (handle_name_text (be_filter B) user t (bt_filters st)) st else (Inr None, st))
            (\<lambda>s st1. (case s of Some screen \<Rightarrow> (Inr screen, st1) | None \<Rightarrow> bot_wizard_text B user t st1)))"


section \<open>One action of a user\<close>

datatype bot_action = BotStart "string option" | BotCallback string | BotText string | BotCancel | BotBack

fun bot_handle :: "bot_env \<Rightarrow> int \<Rightarrow> bot_action \<Rightarrow> bot_state \<Rightarrow> bot_screen res \<times> bot_state" where
  "bot_handle B user (BotStart p) st = bot_start B user p st"
| "bot_handle B user (BotCallback d) st = handle_menu_callback B user d st"
| "bot_handle B user (BotText t) st = bot_text B user t st"
| "bot_handle B user BotCancel st = bot_cancel B user st"
| "bot_handle B user BotBack st = bot_back B user st"

definition bot_step :: "bot_env \<Rightarrow> int \<times> bot_action \<Rightarrow> bot_state \<Rightarrow> bot_state" where
  "bot_step B a st = snd (bot_handle B (fst a) (snd a) st)"

text \<open>Identifiers are fresh, the configuration is the same all along.\<close>

definition bot_admissible :: "nat \<Rightarrow> referral_config \<Rightarrow> bot_env \<Rightarrow> bot_state \<Rightarrow> bool" where
  "bot_admissible limit G B st \<longleftrightarrow>
     dict_get (stored_filters (fb_store (bt_filters st))) (fe_new_id (be_filter B)) = None \<and>
     fe_limit (be_filter B) = limit \<and> be_referral B = G"

text \<open>What the bot keeps for one user.\<close>

definition bot_view ::
  "int \<Rightarrow> bot_state \<Rightarrow> wizard_state option \<times> nlp_state option \<times> (string \<Rightarrow> user_filter option) \<times>
     pending_filter_write option \<times> string option \<times> bool" where
  "bot_view v st =
     (dict_get (wz_states (bt_wizard st)) v, dict_get (bt_nlp st) v, user_filters v (fb_store (bt_filters st)),
      dict_get (fb_pending_names (bt_filters st)) v, dict_get (fb_pending_edits (bt_filters st)) v,
      flow_pending v (bt_sources st))"

definition same_view :: "int \<Rightarrow> bot_state \<Rightarrow> 'a \<times> bot_state \<Rightarrow> bool" where
  "same_view v st r \<longleftrightarrow> bot_view v (snd r) = bot_view v st"

lemma same_view_basic:
  "same_view v st (x, st)"
  "leaves_alone v (bt_wizard st) w \<Longrightarrow> same_view v st (on_wizard w st)"
  "same_filters v (bt_filters st) (snd f) \<Longrightarrow> same_view v st (on_filters f st)"
  "dict_get (snd n) v = dict_get (bt_nlp st) v \<Longrightarrow> same_view v st (on_nlp n st)"
  "flow_pending v (snd g) = flow_pending v (bt_sources st) \<Longrightarrow> same_view v st (on_sources g st)"
  "same_view v st (on_users u st)"
  "same_view v st (x, st\<lparr>bt_events := es\<rparr>)"
  by (simp_all add: same_view_def bot_view_def on_wizard_def on_filters_def on_nlp_def on_sources_def on_users_def
      leaves_alone_def same_filters_def)

lemma same_view_cases:
  "same_view v st a \<Longrightarrow> same_view v st b \<Longrightarrow> same_view v st (if c then a else b)"
  "same_view v st r \<Longrightarrow> (\<And>x st1. bot_view v st1 = bot_view v st \<Longrightarrow> same_view v st (f x st1)) \<Longrightarrow>
   same_view v st (then_do r f)"
  "(\<And>e. same_view v st (g e)) \<Longrightarrow> (\<And>x. same_view v st (h x)) \<Longrightarrow> same_view v st (case s of Inl e \<Rightarrow> g e | Inr x \<Rightarrow> h x)"
  "same_view v st g' \<Longrightarrow> (\<And>x. same_view v st (h x)) \<Longrightarrow> same_view v st (case o' of None \<Rightarrow> g' | Some x \<Rightarrow> h x)"
  by (auto simp: same_view_def then_do_def split: sum.splits option.splits prod.splits)

lemma same_view_after: "bot_view v st1 = bot_view v st \<Longrightarrow> same_view v st1 r \<Longrightarrow> same_view v st r"
  by (simp add: same_view_def)

lemma flow_other:
  "u \<noteq> v \<Longrightarrow> flow_pending v (snd (flow_start clock u fl)) = flow_pending v fl"
  "u \<noteq> v \<Longrightarrow> flow_pending v (snd (flow_cancel u fl)) = flow_pending v fl"
  "u \<noteq> v \<Longrightarrow> flow_pending v (snd (flow_text now clock u t fl)) = flow_pending v fl"
  by (auto simp: flow_pending_def flow_start_def flow_cancel_def flow_text_def flow_discard_def
      split: sum.splits py_error.splits prod.splits)

lemma run_criteria_other: "u \<noteq> v \<Longrightarrow> leaves_alone v wz (run_criteria E u c wz)"
  unfolding run_criteria_def by (rule leaves_alone_basic) simp

lemma bot_start_view: "same_view v st (bot_start B u p st)"
  unfolding bot_start_def
  by (intro same_view_cases same_view_basic) (auto simp: same_view_def)


lemma handle_notification_view: "same_view v st (handle_notification_callback B u data st)"
  unfolding handle_notification_callback_def by (auto intro: same_view_basic split: sum.split prod.split)

lemma handle_filter_view:
  assumes "u \<noteq> v"
  shows "same_view v st (handle_filter_callback B u action val st)"
proof -
  have edit: "same_view v st (on_wizard (run_criteria W u c (bt_wizard st)) (st\<lparr>bt_filters := begin_edit u val (bt_filters st)\<rparr>))" for W c
    by (rule same_view_after [OF _ same_view_basic(2)])
      (use filter_screens_other(3) [OF assms, of "bt_filters st" val] run_criteria_other [OF assms]
        in \<open>simp_all add: bot_view_def same_filters_def\<close>)
  show ?thesis
    unfolding handle_filter_callback_def Let_def
    by (intro same_view_cases same_view_basic run_criteria_other filter_screens_other edit assms)
      (simp_all add: same_view_def)
qed

lemma handle_menu_view:
  assumes "u \<noteq> v"
  shows "same_view v st (handle_menu_callback B u data st)"
proof -
  have nlp: "same_view v st (case nlp_callback E u a (bt_nlp st, bt_wizard st) of (r, fl, wz) \<Rightarrow> (r, st\<lparr>bt_nlp := fl, bt_wizard := wz\<rparr>))" for E a
    using nlp_callback_other [OF assms, of E a "bt_nlp st" "bt_wizard st"]
    by (simp add: same_view_def bot_view_def case_prod_beta)
  have "same_view v st (route_callback B u p st)" for p
    unfolding route_callback_def Let_def referral_callback_def
    by (intro same_view_cases same_view_basic nlp handle_filter_view wizard_callback_other flow_other)
      (use assms in \<open>auto simp: same_view_def\<close>)
  then show ?thesis
    unfolding handle_menu_callback_def
    by (intro same_view_cases same_view_basic handle_notification_view)
qed

lemma bot_text_view:
  assumes "u \<noteq> v" and "dict_get (stored_filters (fb_store (bt_filters st))) (fe_new_id (be_filter B)) = None"
  shows "same_view v st (bot_text B u t st)"
proof -
  have "same_view v st1 (bot_wizard_text B u t st1)" for st1
    unfolding bot_wizard_text_def
    by (intro same_view_cases same_view_basic nlp_other wizard_text_other) (use assms(1) in auto)
  then show ?thesis
    unfolding bot_text_def
    by (intro same_view_cases same_view_basic flow_other handle_name_other assms)
      (auto simp: same_view_def)
qed

lemma bot_cancel_view: "u \<noteq> v \<Longrightarrow> same_view v st (bot_cancel B u st)"
  by (simp add: same_view_def bot_cancel_def Let_def bot_view_def on_wizard_def on_nlp_def on_sources_def wizard_cancel_def
      drop_state_def dict_get_pop nlp_other flow_other)

lemma bot_back_view:
  assumes "u \<noteq> v"
  shows "same_view v st (bot_back B u st)"
proof -
  have "leaves_alone v (bt_wizard st) (wizard_back E u (bt_wizard st))" for E
    unfolding wizard_back_def by (rule leaves_alone_basic) (use assms in simp)
  from same_view_basic(2) [OF this, of "be_wizard B"] show ?thesis
    by (auto simp: bot_back_def same_view_def split: prod.splits sum.splits py_error.splits)
qed

lemma bot_frame:
  assumes "bot_admissible limit G B st" and "fst a \<noteq> v"
  shows "bot_view v (bot_step B a st) = bot_view v st"
proof -
  have "same_view v st (bot_handle B (fst a) (snd a) st)"
    using assms by (cases "snd a") (simp_all add: bot_start_view handle_menu_view bot_text_view bot_cancel_view bot_back_view
        bot_admissible_def)
  then show ?thesis by (simp add: same_view_def bot_step_def)
qed


section \<open>The invariant of the whole bot\<close>

text \<open>Criteria that any user can run: every page of the search validates.\<close>

definition runnable :: "search_criteria \<Rightarrow> bool" where
  "runnable c \<longleftrightarrow> (\<forall>u. state_valid u (state_of_criteria u c))"

definition bot_ok :: "nat \<Rightarrow> referral_config \<Rightarrow> bot_state \<Rightarrow> bool" where
  "bot_ok limit G st \<longleftrightarrow>
     wizard_ok (bt_wizard st) \<and>
     (\<forall>u s x. dict_get (bt_nlp st) u = Some s \<longrightarrow> ns_extraction s = Some x \<longrightarrow> runnable (nx_criteria x)) \<and>
     filters_ok limit (fb_store (bt_filters st)) \<and>
     (\<forall>k f. dict_get (stored_filters (fb_store (bt_filters st))) k = Some f \<longrightarrow> runnable (uf_criteria f)) \<and>
     (\<forall>u p. dict_get (fb_pending_names (bt_filters st)) u = Some p \<longrightarrow> runnable (pw_criteria p)) \<and>
     suggestions_ok (gf_service (bt_sources st)) \<and> referral_ok G (bt_users st)"

definition nlp_ok :: "nlp_flow \<Rightarrow> bool" where
  "nlp_ok fl \<longleftrightarrow> (\<forall>u s x. dict_get fl u = Some s \<longrightarrow> ns_extraction s = Some x \<longrightarrow> runnable (nx_criteria x))"

definition filter_bot_ok :: "nat \<Rightarrow> filter_bot \<Rightarrow> bool" where
  "filter_bot_ok limit fb \<longleftrightarrow> filters_ok limit (fb_store fb) \<and>
     (\<forall>k f. dict_get (stored_filters (fb_store fb)) k = Some f \<longrightarrow> runnable (uf_criteria f)) \<and>
     (\<forall>u p. dict_get (fb_pending_names fb) u = Some p \<longrightarrow> runnable (pw_criteria p))"

lemma bot_ok_parts:
  "bot_ok limit G st \<longleftrightarrow> wizard_ok (bt_wizard st) \<and> nlp_ok (bt_nlp st) \<and> filter_bot_ok limit (bt_filters st) \<and>
     suggestions_ok (gf_service (bt_sources st)) \<and> referral_ok G (bt_users st)"
  by (auto simp: bot_ok_def nlp_ok_def filter_bot_ok_def)

lemma runnable_validated: "validate_criteria c0 = Inr c \<Longrightarrow> length (sc_districts c) \<le> 12 \<Longrightarrow> runnable c"
  by (simp add: runnable_def state_of_criteria_valid)

lemma runnable_safe: "criteria_safe c \<Longrightarrow> runnable c"
  by (rule runnable_validated) (auto simp: criteria_safe_def)

lemma current_criteria_runnable: "wizard_ok wz \<Longrightarrow> current_criteria u wz = Inr c \<Longrightarrow> runnable c"
  by (auto simp: current_criteria_def state_criteria_def state_valid_def elim!: res_bind_InrE dest!: require_state_Inr
      intro: runnable_validated)

lemma run_criteria_ok: "wizard_ok wz \<Longrightarrow> runnable c \<Longrightarrow> wizard_ok (snd (run_criteria E u c wz))"
  by (simp add: run_criteria_def wizard_ok_put runnable_def)

lemma nlp_flow_ok:
  assumes "nlp_ok fl"
  shows "nlp_ok (snd (nlp_text N ask E u t fl))" "nlp_ok (snd (nlp_start E u fl))" "nlp_ok (dict_pop u fl)"
proof -
  show "nlp_ok (snd (nlp_text N ask E u t fl))"
    using assms runnable_safe [OF nlp_extract_safe, of N ask t]
    by (auto simp: nlp_ok_def nlp_text_def dict_get_put split: sum.splits py_error.splits)
  show "nlp_ok (snd (nlp_start E u fl))" "nlp_ok (dict_pop u fl)"
    using assms by (auto simp: nlp_ok_def nlp_start_def dict_get_put dict_get_pop)
qed

lemma nlp_callback_ok:
  assumes "nlp_ok fl" and "wizard_ok wz"
  shows "nlp_ok (fst (snd (nlp_callback E u a (fl, wz))))" "wizard_ok (snd (snd (nlp_callback E u a (fl, wz))))"
proof -
  show "nlp_ok (fst (snd (nlp_callback E u a (fl, wz))))"
    using nlp_flow_ok [OF assms(1)] assms(1) by (auto simp: nlp_callback_def nlp_cancel_def Let_def case_prod_beta split: sum.split)
  have "runnable (nx_criteria x)" if "nlp_require_state u fl = Inr s" "ns_extraction s = Some x" for s x
    using that assms(1) by (auto simp: nlp_require_state_def nlp_ok_def split: option.splits if_splits)
  then show "wizard_ok (snd (snd (nlp_callback E u a (fl, wz))))"
    using assms(2) run_criteria_ok [OF assms(2)] wizard_start_ok [OF assms(2)]
    by (auto simp: nlp_callback_def Let_def case_prod_beta elim!: res_bind_InrE split: sum.split option.splits)
qed

lemma service_create_criteria:
  assumes "\<forall>k f. dict_get (stored_filters s) k = Some f \<longrightarrow> runnable (uf_criteria f)" and "runnable c"
  shows "\<forall>k f. dict_get (stored_filters (snd (service_create limit act now fid u name c s))) k = Some f \<longrightarrow> runnable (uf_criteria f)"
  using assms by (auto simp: service_create_def create_filter_def Let_def dict_get_put split: sum.split)

lemma service_update_criteria:
  assumes "\<forall>k f. dict_get (stored_filters s) k = Some f \<longrightarrow> runnable (uf_criteria f)" and "\<And>x. c = Some x \<Longrightarrow> runnable x"
  shows "\<forall>k f. dict_get (stored_filters (snd (service_update now u fid name c e s))) k = Some f \<longrightarrow> runnable (uf_criteria f)"
proof -
  have "\<forall>k f. dict_get (stored_filters (snd (update_filter now u fid n c e s))) k = Some f \<longrightarrow> runnable (uf_criteria f)" for n
    using assms by (auto simp: update_filter_def get_for_user_def Let_def dict_get_put split: option.splits)
  then show ?thesis by (simp add: service_update_def assms(1) split: option.split sum.split)
qed

lemma delete_criteria:
  "\<forall>k f. dict_get (stored_filters s) k = Some f \<longrightarrow> runnable (uf_criteria f) \<Longrightarrow>
   \<forall>k f. dict_get (stored_filters (snd (delete_filter u fid s))) k = Some f \<longrightarrow> runnable (uf_criteria f)"
  by (auto simp: delete_filter_def dict_get_pop split: option.splits)


lemma then_do_filters:
  "snd (then_do (on_store r fb) (\<lambda>x b. (g x b, h b))) = (case fst r of Inl _ \<Rightarrow> fb\<lparr>fb_store := snd r\<rparr> | Inr _ \<Rightarrow> h (fb\<lparr>fb_store := snd r\<rparr>))"
  by (cases "fst r") (simp_all add: on_store_def then_do_def)

lemma filter_bot_ok_store:
  "filter_bot_ok limit fb \<Longrightarrow> filters_ok limit s \<Longrightarrow>
   \<forall>k f. dict_get (stored_filters s) k = Some f \<longrightarrow> runnable (uf_criteria f) \<Longrightarrow> filter_bot_ok limit (fb\<lparr>fb_store := s\<rparr>)"
  by (simp add: filter_bot_ok_def)

lemma filter_bot_ok_pop:
  "filter_bot_ok limit fb \<Longrightarrow> filter_bot_ok limit (fb\<lparr>fb_pending_names := dict_pop u (fb_pending_names fb)\<rparr>)"
  "filter_bot_ok limit fb \<Longrightarrow> filter_bot_ok limit (fb\<lparr>fb_pending_edits := es\<rparr>)"
  by (auto simp: filter_bot_ok_def dict_get_pop)

lemma filter_bot_operations_ok:
  assumes "filter_bot_ok (fe_limit E) fb" and "dict_get (stored_filters (fb_store fb)) (fe_new_id E) = None"
  shows "runnable c \<Longrightarrow> filter_bot_ok (fe_limit E) (snd (begin_save E u c fb))"
    "runnable c \<Longrightarrow> filter_bot_ok (fe_limit E) (snd (begin_update E u fid c fb))"
    "filter_bot_ok (fe_limit E) (begin_edit u fid fb)"
    "filter_bot_ok (fe_limit E) (snd (set_enabled_screen E u fid b fb))"
    "filter_bot_ok (fe_limit E) (snd (delete_screen E u fid fb))"
    "filter_bot_ok (fe_limit E) (snd (cancel_pending u fb))"
    "filter_bot_ok (fe_limit E) (snd (handle_name_text E u t fb))"
proof -
  have ok: "filters_ok (fe_limit E) (fb_store fb)"
    and run: "\<forall>k f. dict_get (stored_filters (fb_store fb)) k = Some f \<longrightarrow> runnable (uf_criteria f)"
    and names: "\<forall>u p. dict_get (fb_pending_names fb) u = Some p \<longrightarrow> runnable (pw_criteria p)"
    using assms(1) by (simp_all add: filter_bot_ok_def)
  note ops = filter_operations_ok [OF ok assms(2)]
  show "runnable c \<Longrightarrow> filter_bot_ok (fe_limit E) (snd (begin_save E u c fb))"
    "runnable c \<Longrightarrow> filter_bot_ok (fe_limit E) (snd (begin_update E u fid c fb))"
    "filter_bot_ok (fe_limit E) (begin_edit u fid fb)"
    using assms(1) by (auto simp: filter_bot_ok_def begin_save_def begin_update_def begin_edit_def dict_get_put)
  have enabled: "filter_bot_ok (fe_limit E) (fb\<lparr>fb_store := snd (set_filter_enabled now u fid b (fb_store fb))\<rparr>)" for now
    using ops service_update_criteria [OF run, of None] by (intro filter_bot_ok_store assms) (auto simp: set_filter_enabled_def)
  then show "filter_bot_ok (fe_limit E) (snd (set_enabled_screen E u fid b fb))"
    by (simp add: set_enabled_screen_def then_do_filters split: sum.split)
  have deleted: "filter_bot_ok (fe_limit E) (fb\<lparr>fb_store := snd (delete_filter u fid (fb_store fb))\<rparr>)"
    using ops delete_criteria [OF run] by (intro filter_bot_ok_store assms) auto
  then show "filter_bot_ok (fe_limit E) (snd (delete_screen E u fid fb))"
    by (simp add: delete_screen_def case_prod_beta)
  show "filter_bot_ok (fe_limit E) (snd (cancel_pending u fb))"
    using assms(1) by (auto simp: cancel_pending_def filter_bot_ok_def dict_get_pop)
  show "filter_bot_ok (fe_limit E) (snd (handle_name_text E u t fb))"
  proof (cases "dict_get (fb_pending_names fb) u")
    case None
    then show ?thesis using assms(1) by (simp add: handle_name_text_def)
  next
    case (Some p)
    let ?fb = "fb\<lparr>fb_pending_names := dict_pop u (fb_pending_names fb)\<rparr>"
    have popped: "filter_bot_ok (fe_limit E) ?fb" using assms(1) by (rule filter_bot_ok_pop)
    have p: "runnable (pw_criteria p)" using names Some by blast
    have created: "filter_bot_ok (fe_limit E) (?fb\<lparr>fb_store :=
        snd (service_create (fe_limit E) (fe_activate E) (fe_time E) (fe_new_id E) u n (pw_criteria p) (fb_store fb))\<rparr>)" for n
      using ops service_create_criteria [OF run p] by (intro filter_bot_ok_store popped) auto
    have updated: "filter_bot_ok (fe_limit E) (?fb\<lparr>fb_store :=
        snd (service_update (fe_time E) u fid n (Some (pw_criteria p)) None (fb_store fb))\<rparr>)" for n fid
      using ops service_update_criteria [OF run, of "Some (pw_criteria p)"] p by (intro filter_bot_ok_store popped) auto
    show ?thesis
      using created updated filter_bot_ok_pop(2) [OF updated]
      by (auto simp: handle_name_text_def Some Let_def then_do_filters split: option.split sum.split)
  qed
qed

lemma flow_ok:
  assumes "suggestions_ok (gf_service fl)"
  shows "suggestions_ok (gf_service (snd (flow_text now clock u t fl)))"
    "suggestions_ok (gf_service (snd (flow_start clock u fl)))" "suggestions_ok (gf_service (snd (flow_cancel u fl)))"
proof -
  have "suggestions_ok s" if "suggestion_submit now u t TelegramChannel (gf_service fl) = (r, s)" for r s
    using suggestion_submit_ok [OF assms, of now u t TelegramChannel] that by simp
  then show "suggestions_ok (gf_service (snd (flow_text now clock u t fl)))"
    using assms by (auto simp: flow_text_def flow_discard_def split: sum.splits py_error.splits prod.splits)
  show "suggestions_ok (gf_service (snd (flow_start clock u fl)))" "suggestions_ok (gf_service (snd (flow_cancel u fl)))"
    using assms by (simp_all add: flow_start_def flow_cancel_def flow_discard_def)
qed


definition keeps_ok :: "nat \<Rightarrow> referral_config \<Rightarrow> 'a \<times> bot_state \<Rightarrow> bool" where
  "keeps_ok limit G r \<longleftrightarrow> bot_ok limit G (snd r)"

lemma keeps_ok_basic:
  assumes "bot_ok limit G st"
  shows "keeps_ok limit G (x, st)" "keeps_ok limit G (x, st\<lparr>bt_events := es\<rparr>)"
    "wizard_ok (snd w) \<Longrightarrow> keeps_ok limit G (on_wizard w st)"
    "filter_bot_ok limit (snd f) \<Longrightarrow> keeps_ok limit G (on_filters f st)"
    "nlp_ok (snd n) \<Longrightarrow> keeps_ok limit G (on_nlp n st)"
    "suggestions_ok (gf_service (snd g)) \<Longrightarrow> keeps_ok limit G (on_sources g st)"
    "referral_ok G (snd u) \<Longrightarrow> keeps_ok limit G (on_users u st)"
  using assms by (simp_all add: keeps_ok_def bot_ok_parts on_wizard_def on_filters_def on_nlp_def on_sources_def on_users_def)

lemma keeps_ok_cases:
  "keeps_ok limit G a \<Longrightarrow> keeps_ok limit G b \<Longrightarrow> keeps_ok limit G (if c then a else b)"
  "keeps_ok limit G r \<Longrightarrow> (\<And>x st1. bot_ok limit G st1 \<Longrightarrow> keeps_ok limit G (f x st1)) \<Longrightarrow> keeps_ok limit G (then_do r f)"
  "(\<And>e. keeps_ok limit G (g e)) \<Longrightarrow> (\<And>x. s = Inr x \<Longrightarrow> keeps_ok limit G (h x)) \<Longrightarrow>
   keeps_ok limit G (case s of Inl e \<Rightarrow> g e | Inr x \<Rightarrow> h x)"
  "keeps_ok limit G g' \<Longrightarrow> (\<And>x. keeps_ok limit G (h x)) \<Longrightarrow> keeps_ok limit G (case o' of None \<Rightarrow> g' | Some x \<Rightarrow> h x)"
proof -
  show "keeps_ok limit G r \<Longrightarrow> (\<And>x st1. bot_ok limit G st1 \<Longrightarrow> keeps_ok limit G (f x st1)) \<Longrightarrow> keeps_ok limit G (then_do r f)"
    by (cases r) (auto simp: keeps_ok_def then_do_def split: sum.split)
qed (auto simp: keeps_ok_def split: sum.splits option.splits)

lemma bot_callback_ok:
  assumes "bot_ok limit G st" and "bot_admissible limit G B st"
  shows "keeps_ok limit G (handle_menu_callback B u data st)"
proof -
  have wz: "wizard_ok (bt_wizard st)" and fl: "nlp_ok (bt_nlp st)" and fb: "filter_bot_ok limit (bt_filters st)"
    and sg: "suggestions_ok (gf_service (bt_sources st))" and rf: "referral_ok G (bt_users st)"
    using assms(1) by (simp_all add: bot_ok_parts)
  have limit: "fe_limit (be_filter B) = limit" "dict_get (stored_filters (fb_store (bt_filters st))) (fe_new_id (be_filter B)) = None"
    using assms(2) by (simp_all add: bot_admissible_def)
  note filter_ops = filter_bot_operations_ok [of "be_filter B" "bt_filters st", unfolded limit(1), OF fb limit(2)]
  have stored: "runnable c" if "filter_get_criteria u val (bt_filters st) = Inr c" for val c
    using that fb by (auto simp: filter_get_criteria_def filter_get_def get_for_user_def filter_bot_ok_def
        elim!: res_bind_InrE split: option.splits if_splits)
  have edit: "keeps_ok limit G (on_wizard (run_criteria W u c (bt_wizard st)) (st\<lparr>bt_filters := begin_edit u val (bt_filters st)\<rparr>))"
    if "filter_get_criteria u val (bt_filters st) = Inr c" for W val c
    by (rule keeps_ok_basic) (use assms(1) filter_ops(3) run_criteria_ok [OF wz stored [OF that]] in \<open>auto simp: bot_ok_parts\<close>)
  have filter: "keeps_ok limit G (handle_filter_callback B u action val st)" for action val
    unfolding handle_filter_callback_def Let_def
    by (intro keeps_ok_cases keeps_ok_basic [OF assms(1)] edit filter_ops run_criteria_ok [OF wz])
      (auto intro: stored current_criteria_runnable [OF wz] simp: keeps_ok_def)
  have nlp: "keeps_ok limit G (case nlp_callback E u a (bt_nlp st, bt_wizard st) of (r, f, w) \<Rightarrow> (r, st\<lparr>bt_nlp := f, bt_wizard := w\<rparr>))" for E a
    using nlp_callback_ok [OF fl wz, of E u a] fb sg rf by (simp add: keeps_ok_def bot_ok_parts case_prod_beta)
  have notify: "keeps_ok limit G (handle_notification_callback B u data st)"
    unfolding handle_notification_callback_def by (auto intro: keeps_ok_basic [OF assms(1)] split: sum.split prod.split)
  have "keeps_ok limit G (route_callback B u p st)" for p
    unfolding route_callback_def Let_def referral_callback_def
    by (intro keeps_ok_cases keeps_ok_basic [OF assms(1)] nlp filter wizard_callback_ok wz flow_ok sg register_or_touch_ok rf)
      (auto simp: keeps_ok_def)
  then show ?thesis
    unfolding handle_menu_callback_def
    by (intro keeps_ok_cases keeps_ok_basic [OF assms(1)] notify)
qed

lemma bot_text_ok:
  assumes "bot_ok limit G st" and "bot_admissible limit G B st"
  shows "keeps_ok limit G (bot_text B u t st)"
proof -
  have "keeps_ok limit G (bot_wizard_text B u t st1)" if "bot_ok limit G st1" for st1
    unfolding bot_wizard_text_def
    by (intro keeps_ok_cases keeps_ok_basic [OF that] nlp_flow_ok wizard_text_ok) (use that in \<open>auto simp: bot_ok_parts\<close>)
  moreover have "filter_bot_ok limit (snd (handle_name_text (be_filter B) u t (bt_filters st)))"
    using filter_bot_operations_ok(7) [of "be_filter B" "bt_filters st" u t] assms by (simp add: bot_ok_parts bot_admissible_def)
  moreover have "suggestions_ok (gf_service (bt_sources st))" using assms(1) by (simp add: bot_ok_parts)
  ultimately show ?thesis
    unfolding bot_text_def by (intro keeps_ok_cases keeps_ok_basic [OF assms(1)] flow_ok) (auto simp: keeps_ok_def)
qed

lemma bot_step_ok:
  assumes "bot_ok limit G st" and "bot_admissible limit G B st"
  shows "bot_ok limit G (bot_step B a st)"
proof -
  have ok: "wizard_ok (bt_wizard st)" "nlp_ok (bt_nlp st)" "suggestions_ok (gf_service (bt_sources st))" "referral_ok G (bt_users st)"
    "be_referral B = G"
    using assms by (simp_all add: bot_ok_parts bot_admissible_def)
  have "keeps_ok limit G (bot_start B (fst a) p st)" for p
    unfolding bot_start_def ok(5)
    by (intro keeps_ok_cases keeps_ok_basic [OF assms(1)] register_start_ok register_or_touch_ok ok) (auto simp: keeps_ok_def)
  moreover have "keeps_ok limit G (bot_cancel B (fst a) st)"
    using ok assms(1) by (simp add: keeps_ok_def bot_ok_parts bot_cancel_def Let_def on_wizard_def on_nlp_def on_sources_def
        wizard_cancel_def wizard_ok_drop nlp_cancel_def nlp_flow_ok flow_ok)
  moreover have "keeps_ok limit G (bot_back B (fst a) st)"
    using keeps_ok_basic(3) [OF assms(1) wizard_back_ok [OF ok(1)], of "be_wizard B" "fst a"] assms(1)
    by (auto simp: bot_back_def keeps_ok_def split: prod.splits sum.splits py_error.splits)
  ultimately have "keeps_ok limit G (bot_handle B (fst a) (snd a) st)"
    using bot_callback_ok [OF assms] bot_text_ok [OF assms] by (cases "snd a") simp_all
  then show ?thesis by (simp add: keeps_ok_def bot_step_def)
qed

interpretation bot_users: acting_users bot_step fst bot_view "bot_admissible limit G" "bot_ok limit G" for limit G
  by unfold_locales (auto intro: bot_frame bot_step_ok)

interpretation wizard_users: acting_users "\<lambda>E a. wizard_step_on E (fst a) (snd a)" fst "\<lambda>v wz. dict_get (wz_states wz) v"
    "\<lambda>_ _. True" wizard_ok
  by unfold_locales (auto intro: wizard_step_other wizard_step_ok)


section \<open>What the bot guarantees\<close>

text \<open>
  C22. The users of the bot are isolated: whatever other users send, in any order and any number, leaves a user's search
  dialogue, free text search, saved filters, pending names and edits and pending suggestion as they were.
\<close>

theorem bot_users_isolated:
  assumes "run_admissible (bot_admissible limit G) bot_step acts st" and "\<forall>(B, u, act) \<in> set acts. u \<noteq> v"
  shows "bot_view v (run_actions bot_step acts st) = bot_view v st"
  using bot_users.run_frame [OF assms(1), of v] assms(2) by (auto simp: case_prod_beta)

definition empty_bot :: "source_registry \<Rightarrow> bot_state" where
  "empty_bot reg =
     \<lparr>bt_wizard = empty_wizard, bt_nlp = [],
      bt_filters = \<lparr>fb_store = \<lparr>stored_filters = [], filter_events = []\<rparr>, fb_pending_names = [], fb_pending_edits = []\<rparr>,
      bt_sources = \<lparr>gf_service = empty_suggestions reg, gf_awaiting = []\<rparr>, bt_users = empty_referrals, bt_events = []\<rparr>"

lemma empty_bot_ok: "0 < rg_threshold G \<Longrightarrow> bot_ok limit G (empty_bot reg)"
  using empty_referrals_ok [of G]
  by (simp add: bot_ok_def empty_bot_def empty_wizard_ok filters_ok_def count_for_user_def suggestions_ok_def empty_suggestions_def)

text \<open>
  C23. The invariants of the parts hold together over every run of the whole bot: dialogues stay valid, filters well
  formed and within the limit, referrals acyclic and counted; and every search the bot keeps for later, in a saved
  filter, a pending name or a free text extraction, can be run by its user.
\<close>

theorem bot_invariant:
  assumes "run_admissible (bot_admissible limit G) bot_step acts (empty_bot reg)" and "0 < rg_threshold G"
  shows "bot_ok limit G (run_actions bot_step acts (empty_bot reg))"
  using bot_users.run_keeps [OF empty_bot_ok [OF assms(2)] assms(1)] .

text \<open>
  A button of another user, or one that is older than a day, changes nothing: the answer is an error and no part of
  the bot has moved.
\<close>

theorem foreign_button_refused:
  assumes "callback issued namespace action owner val = Inr data" and "allowed_callback namespace action"
    and "owner \<noteq> user \<or> bot_clock B - issued > DEFAULT_CALLBACK_TTL_SECONDS"
    and "beta_access_blocked B user = None"
  shows "\<exists>e. handle_menu_callback B user data st = (Inl e, st)"
proof -
  let ?p = "\<lparr>cb_namespace = namespace, cb_action = action, cb_owner_id = owner, cb_value = val, cb_issued_at = 0\<rparr>"
  have packed: "pack issued ?p = Inr data" using assms(1) by (simp add: callback_def)
  obtain o' i where "data = join '':'' [CALLBACK_VERSION, namespace, action, o', i, val]"
    using pack_Inr [OF packed] by fastforce
  then have "\<not> starts_with data ''n:v1:''" by (simp add: starts_with_def CALLBACK_VERSION_def)
  moreover have "\<exists>e. unpack (Some user) (bot_clock B) DEFAULT_CALLBACK_TTL_SECONDS data = Inl e"
    using assms(2,3) by (auto simp: unpack_pack [OF packed] Let_def)
  ultimately show ?thesis using assms(4) by (auto simp: handle_menu_callback_def)
qed

text \<open>
  /cancel does not cancel everything: the name the bot was waiting for stays expected, so the next text of the user
  saves the filter under that text, although the answer to /cancel said that all was cancelled.
\<close>

theorem cancel_keeps_pending_name:
  assumes "dict_get (fb_pending_names (bt_filters st)) user = Some p" and "pw_filter_id p = None"
    and "be_has_filters B" and "be_has_wizard B" and "be_has_sources B"
    and "beta_access_blocked B user = None" and "validate_name t = Inr name" and "strip t \<noteq> ''/skip''"
    and "length (list_for_user user (fb_store (bt_filters st))) < fe_limit (be_filter B)"
    and "\<And>i. fe_activate (be_filter B) user i = Inr ()"
  shows "\<exists>f. dict_get (stored_filters (fb_store (bt_filters
      (run_actions bot_step [(B, user, BotCancel), (B, user, BotText t)] st)))) (fe_new_id (be_filter B)) = Some f \<and>
    uf_user_id f = user \<and> uf_name f = name \<and> uf_criteria f = pw_criteria p"
proof -
  let ?st = "bot_step B (user, BotCancel) st"
  have same: "bt_filters ?st = bt_filters st" "\<not> flow_pending user (bt_sources ?st)"
    using assms(5) by (auto simp: bot_step_def bot_cancel_def Let_def on_wizard_def on_nlp_def on_sources_def flow_cancel_def
        flow_discard_def flow_pending_def)
  have "\<exists>f. dict_get (stored_filters (fb_store (snd (handle_name_text (be_filter B) user t (bt_filters st)))))
        (fe_new_id (be_filter B)) = Some f \<and> uf_user_id f = user \<and> uf_name f = name \<and> uf_criteria f = pw_criteria p"
    using assms(1,2,7-10)
    by (simp add: handle_name_text_def Let_def then_do_filters service_create_def create_filter_def dict_get_put not_le)
  moreover have "bt_filters (snd (bot_text B user t ?st)) = snd (handle_name_text (be_filter B) user t (bt_filters st))"
    using assms(3-6) same
    by (auto simp: bot_text_def on_filters_def then_do_def bot_wizard_text_def on_nlp_def on_wizard_def
        split: sum.split option.split prod.split)
  ultimately show ?thesis by (simp add: bot_step_def)
qed

text \<open>
  While the beta is closed, a user outside the cohort moves nothing by a start, a button or a text.
\<close>

theorem closed_beta_moves_nothing:
  assumes "be_release B = Some s" and "\<not> ff_bot_access (as_set (flag_states (rs_store s)))" and "user \<notin> rs_allowlist s"
  shows "bot_step B (user, BotStart p) st = st" "bot_step B (user, BotCallback d) st = st" "bot_step B (user, BotText t) st = st"
proof -
  have "beta_access_blocked B user \<noteq> None" using assms by (simp add: beta_access_blocked_def beta_access_def beta_decide_def)
  then show "bot_step B (user, BotStart p) st = st" "bot_step B (user, BotCallback d) st = st" "bot_step B (user, BotText t) st = st"
    by (auto simp: bot_step_def bot_start_def handle_menu_callback_def bot_text_def)
qed


section \<open>Examples\<close>

definition sample_bot_env :: bot_env where
  "sample_bot_env =
     \<lparr>be_has_wizard = True, be_has_nlp = True, be_has_filters = True, be_has_sources = True, be_has_referrals = True,
      be_release = None, be_mini_app_url = None, be_bot_username = Some ''@estate_bot'', be_wizard = sample_wizard_env,
      be_nlp = sample_nlp_env ''Yunusobod'', be_ask = sample_nlp_answer, be_filter = sample_filter_env,
      be_referral = default_referral_config, be_event_id = ''e1'', be_time = 0\<rparr>"

lemma sample_bot_start: "bt_filters (bot_step sample_bot_env (u, BotStart p) st) = bt_filters st"
  by (auto simp: bot_step_def bot_start_def then_do_def on_users_def split: option.split sum.split prod.split)

lemma bot_users_isolated_witness:
  "bot_view 7 (run_actions bot_step [(sample_bot_env, 8, BotStart None), (sample_bot_env, 9, BotText ''salom'')] (empty_bot [])) =
     bot_view 7 (empty_bot [])"
  by (rule bot_users_isolated [of "fe_limit sample_filter_env" default_referral_config])
    (simp_all add: bot_admissible_def sample_bot_start, simp_all add: sample_bot_env_def empty_bot_def)

lemma bot_invariant_witness:
  "bot_ok (fe_limit sample_filter_env) default_referral_config
     (run_actions bot_step [(sample_bot_env, 8, BotStart None), (sample_bot_env, 8, BotText ''salom'')] (empty_bot []))"
  by (rule bot_invariant)
    (simp_all add: bot_admissible_def sample_bot_start, simp_all add: sample_bot_env_def empty_bot_def default_referral_config_def
      REFERRAL_THRESHOLD_def)

lemma foreign_button_refused_witness:
  "\<exists>data e. callback 1 ''menu'' ''help'' 5 [] = Inr data \<and>
     handle_menu_callback sample_bot_env 7 data (empty_bot []) = (Inl e, empty_bot [])"
proof -
  obtain data where data: "callback 1 ''menu'' ''help'' 5 [] = Inr data" by (simp add: callback_def pack_def base36_encode_def)
  have "\<exists>e. handle_menu_callback sample_bot_env 7 data (empty_bot []) = (Inl e, empty_bot [])"
    by (rule foreign_button_refused [OF data]) (simp_all add: allowed_callback_def MENU_ACTIONS_def beta_access_blocked_def sample_bot_env_def)
  with data show ?thesis by blast
qed

lemma cancel_keeps_pending_name_witness:
  "\<exists>f. dict_get (stored_filters (fb_store (bt_filters
      (run_actions bot_step [(sample_bot_env, 7, BotCancel), (sample_bot_env, 7, BotText ''Sergeli'')]
        ((empty_bot [])\<lparr>bt_filters := pending_bot\<rparr>))))) (fe_new_id sample_filter_env) = Some f \<and> uf_name f = ''Sergeli''"
proof -
  have "validate_name ''Sergeli'' = Inr ''Sergeli''" "strip ''Sergeli'' \<noteq> ''/skip''" by code_simp+
  then show ?thesis
    using cancel_keeps_pending_name [of "(empty_bot [])\<lparr>bt_filters := pending_bot\<rparr>" 7 _ sample_bot_env "''Sergeli''" "''Sergeli''"]
    by (auto simp: sample_bot_env_def pending_bot_def sample_filter_env_def beta_access_blocked_def list_for_user_def)
qed

lemma closed_beta_moves_nothing_witness:
  "bot_step (sample_bot_env\<lparr>be_release := Some \<lparr>rs_store = \<lparr>flag_states = [], flag_audit = []\<rparr>, rs_allowlist = {}\<rparr>\<rparr>)
     (7, BotText ''salom'') (empty_bot []) = empty_bot []"
  by (rule closed_beta_moves_nothing(3) [of _ "\<lparr>rs_store = \<lparr>flag_states = [], flag_audit = []\<rparr>, rs_allowlist = {}\<rparr>"])
    (simp_all add: as_set_def snapshot_state_def default_flag_state_def)


section \<open>The handlers of the dispatcher\<close>

datatype bot_reply = ScreenReply bot_screen | AlertReply string | SafeError

definition is_value_error :: "py_error \<Rightarrow> string option" where
  "is_value_error e = (case e of ValueError m \<Rightarrow> Some m | ValidationError m \<Rightarrow> Some m | _ \<Rightarrow> None)"

definition start_parameter :: "string option \<Rightarrow> string option" where
  "start_parameter txt =
     (case txt of
        None \<Rightarrow> None
      | Some t \<Rightarrow>
          (let s = strip t; first = takeWhile (\<lambda>c. \<not> is_space c) s; rest = dropWhile is_space (dropWhile (\<lambda>c. \<not> is_space c) s)
           in if rest = [] \<or> first \<noteq> ''/start'' then None else Some rest))"

text \<open>A message without a sender or a text is not answered.\<close>

definition app_text :: "bot_env \<Rightarrow> int option \<Rightarrow> string option \<Rightarrow> bot_state \<Rightarrow> bot_reply option \<times> bot_state" where
  "app_text B sender txt st =
     (case (sender, txt) of
        (Some user, Some t) \<Rightarrow>
          (case bot_text B user t st of
             (Inr s, st1) \<Rightarrow> (Some (ScreenReply s), st1)
           | (Inl e, st1) \<Rightarrow> (Some (case is_value_error e of
                 Some m \<Rightarrow> ScreenReply \<lparr>bs_text = m, bs_buttons = []\<rparr> | None \<Rightarrow> SafeError), st1))
      | _ \<Rightarrow> (None, st))"

definition app_command :: "bot_screen res \<times> bot_state \<Rightarrow> bot_reply option \<times> bot_state" where
  "app_command r = (Some (case fst r of Inr s \<Rightarrow> ScreenReply s | Inl _ \<Rightarrow> SafeError), snd r)"

definition app_start :: "bot_env \<Rightarrow> int option \<Rightarrow> string option \<Rightarrow> bot_state \<Rightarrow> bot_reply option \<times> bot_state" where
  "app_start B sender txt st =
     (case sender of None \<Rightarrow> (None, st) | Some user \<Rightarrow> app_command (bot_start B user (start_parameter txt) st))"

definition app_callback :: "bot_env \<Rightarrow> int \<Rightarrow> string option \<Rightarrow> bot_state \<Rightarrow> bot_reply \<times> bot_state" where
  "app_callback B user data st =
     (case handle_menu_callback B user (case data of None \<Rightarrow> [] | Some d \<Rightarrow> d) st of
        (Inr s, st1) \<Rightarrow> (ScreenReply s, st1)
      | (Inl e, st1) \<Rightarrow>
          (case e of
             PermissionError _ \<Rightarrow> AlertReply ''Bu tugma boshqa foydalanuvchiga tegishli.''
           | OtherError c _ \<Rightarrow> if c = ''TimeoutError'' then AlertReply ''Bu tugma eskirgan. Menyuni qayta oching.'' else SafeError
           | _ \<Rightarrow> (case is_value_error e of
               Some _ \<Rightarrow> AlertReply ''Bu tugma eskirgan. Menyuni qayta oching.'' | None \<Rightarrow> SafeError), st1))"

text \<open>
  What a malformed referral link does to a new user: the start command raises, so the answer is the general error
  and no menu, although the user is already registered.
\<close>

theorem malformed_link_breaks_start:
  assumes "parse_referral_start_parameter param = Inl e" and "param \<noteq> []" and "0 < user"
    and "start_parameter (Some txt) = Some param"
    and "be_has_referrals B" and "beta_access_blocked B user = None"
    and "dict_get (rf_attempts (bt_users st)) user = None" and "0 < rg_max_attempts (be_referral B)"
  shows "\<exists>st1. app_start B (Some user) (Some txt) st = (Some SafeError, st1) \<and>
    dict_get (ur_users (rf_repo (bt_users st1))) user \<noteq> None"
proof -
  have "fst (referral_allow (rg_max_attempts (be_referral B)) (rg_window (be_referral B)) (be_time B) [])"
    using assms(8) by (simp add: referral_allow_def Let_def)
  then obtain recent where allow: "referral_allow (rg_max_attempts (be_referral B)) (rg_window (be_referral B)) (be_time B) [] = (True, recent)"
    by (metis prod.collapse)
  have "fst (register_start (be_referral B) (be_time B) (be_event_id B) user (Some param) (bt_users st)) = Inl e"
    "dict_get (ur_users (rf_repo (snd (register_start (be_referral B) (be_time B) (be_event_id B) user (Some param) (bt_users st))))) user \<noteq> None"
    using assms(1-3,7) allow
    by (auto simp: register_start_def Let_def upsert_user_def dict_get_put split: prod.split option.split)
  then show ?thesis
    using assms(4-6) by (cases "register_start (be_referral B) (be_time B) (be_event_id B) user (Some param) (bt_users st)")
      (simp add: app_start_def app_command_def bot_start_def on_users_def then_do_def)
qed

lemma malformed_link_breaks_start_witness:
  "\<exists>st1. app_start sample_bot_env (Some 7) (Some ''/start ref?'') (empty_bot []) = (Some SafeError, st1) \<and>
     dict_get (ur_users (rf_repo (bt_users st1))) 7 \<noteq> None"
proof -
  have parse: "start_parameter (Some ''/start ref?'') = Some ''ref?''" by code_simp
  have "strip ''ref?'' = ''ref?''" by code_simp
  then have "\<exists>e. parse_referral_start_parameter ''ref?'' = Inl e"
    by (simp add: parse_referral_start_parameter_def validate_referral_code_def is_alnum_def is_digit_def is_upper_def is_lower_def code_of_def)
  then obtain e where "parse_referral_start_parameter ''ref?'' = Inl e" by blast
  from malformed_link_breaks_start [OF this _ _ parse, of 7 sample_bot_env "empty_bot []"] show ?thesis
    by (simp add: sample_bot_env_def empty_bot_def empty_referrals_def default_referral_config_def beta_access_blocked_def)
qed

end
