(* ===== verification/EF_Content.thy ===== *)
theory EF_Content
  imports EF_Queue EF_RawEvent "HOL-Library.Multiset"
begin

text \<open>
  Content automation (\<open>services/content_automation.py\<close>): the daily posts of the channel over the in-memory repository.
  The answers of the Telegram API, the calendar (a day is its ISO text) and the fresh identifiers are arguments;
  the publisher is an interface with two implementations, the dry run and Telegram.
\<close>

section \<open>Data\<close>

datatype post_kind = DailyStats | TopOffer | DistrictStats | TransparencyReport

fun post_kind_text :: "post_kind \<Rightarrow> string" where
  "post_kind_text DailyStats = ''daily_stats''"
| "post_kind_text TopOffer = ''top_offer''"
| "post_kind_text DistrictStats = ''district_stats''"
| "post_kind_text TransparencyReport = ''transparency_report''"

definition post_kind_of :: "string \<Rightarrow> post_kind res" where
  "post_kind_of t =
     (case find (\<lambda>k. post_kind_text k = t) [DailyStats, TopOffer, DistrictStats, TransparencyReport] of
        None \<Rightarrow> Inl (ValueError (''Unsupported content kind: '' @ t)) | Some k \<Rightarrow> Inr k)"

datatype post_status = DraftedPost | PublishedPost | DryRunPost | FailedPost

record content_stats =
  cs_total_checked :: nat
  cs_duplicates :: nat
  cs_active :: nat
  cs_average :: "rat option"

record district_item =
  di_district :: string
  di_count :: nat
  di_average :: rat
  di_min :: rat
  di_max :: rat

record top_offer =
  to_announcement_id :: string
  to_district :: "string option"
  to_rooms :: "int option"
  to_price :: "rat option"
  to_currency :: "string option"
  to_source_url :: "string option"
  to_source_count :: int
  to_created_at :: time

record content_post =
  cp_post_id :: string
  cp_kind :: post_kind
  cp_key :: string
  cp_text :: string
  cp_status :: post_status
  cp_published_at :: "time option"
  cp_message_id :: "string option"
  cp_attempts :: nat
  cp_next_attempt_at :: "time option"
  cp_error :: "string option"
  cp_created_at :: time

record publish_result =
  pr_status :: post_status
  pr_message_id :: "string option"

record publish_failure =
  pf_reason :: string
  pf_retryable :: bool

type_synonym 'p publisher = "string \<Rightarrow> string \<Rightarrow> 'p \<Rightarrow> (publish_failure + publish_result) \<times> 'p"

record content_env =
  ce_stats :: content_stats
  ce_offers :: "top_offer list"
  ce_districts :: "district_item list"
  ce_day :: "time \<Rightarrow> string"
  ce_parse_day :: "string \<Rightarrow> string option"
  ce_timezone :: string
  ce_limit :: nat
  ce_backoff :: duration
  ce_new_id :: string

type_synonym post_store = "(string, content_post) dict"

definition TELEGRAM_MAX_MESSAGE_LENGTH :: nat where
  "TELEGRAM_MAX_MESSAGE_LENGTH = 4096"

definition CONTENT_AUTOMATION_QUEUE :: string where
  "CONTENT_AUTOMATION_QUEUE = ''content.channel.scheduled_posts''"

section \<open>Texts\<close>

text \<open>\<open>splitlines\<close>: a carriage return with the line feed after it is one break.\<close>

definition is_line_break :: "char \<Rightarrow> bool" where
  "is_line_break c \<longleftrightarrow> code_of c \<in> {10, 11, 12, 13, 28, 29, 30}"

fun splitlines :: "string \<Rightarrow> string list" where
  "splitlines [] = []"
| "splitlines (c # cs) =
     (if is_line_break c
      then [] # splitlines (if code_of c = 13 \<and> cs \<noteq> [] \<and> code_of (hd cs) = 10 then tl cs else cs)
      else (case splitlines cs of
          [] \<Rightarrow> [[c]]
        | l # ls \<Rightarrow> (c # l) # ls))"

definition telegram_safe_text :: "string \<Rightarrow> string" where
  "telegram_safe_text v =
     (let n = strip (join [CHR 0x0A] (map rstrip (splitlines v))) in
      if length n \<le> TELEGRAM_MAX_MESSAGE_LENGTH then n
      else rstrip (take (TELEGRAM_MAX_MESSAGE_LENGTH - 3) n) @ ''...'')"

definition safe_source_url :: "string \<Rightarrow> string" where
  "safe_source_url v =
     (if starts_with v ''https://t.me/'' \<or> starts_with v ''https://telegram.me/'' then v
      else ''manba havolasi admin scope'' @ [CHR 0x27] @ ''da mavjud'')"

text \<open>\<open>quantize(Decimal("1"))\<close> rounds half to even.\<close>

definition quantize_one :: "rat \<Rightarrow> int" where
  "quantize_one p =
     (let f = \<lfloor>p\<rfloor>; d = p - of_int f in
      if d < 1 / 2 \<or> (d = 1 / 2 \<and> even f) then f else f + 1)"

definition whole :: "rat \<Rightarrow> string" where
  "whole p = str_int (quantize_one p)"

definition or_unknown :: "string option \<Rightarrow> string" where
  "or_unknown v = (case v of None \<Rightarrow> ''nomalum'' | Some t \<Rightarrow> if t = [] then ''nomalum'' else t)"

section \<open>Repository\<close>

definition reliable_offer :: "top_offer \<Rightarrow> bool" where
  "reliable_offer f \<longleftrightarrow> (case to_price f of None \<Rightarrow> False | Some p \<Rightarrow> 0 < p) \<and> to_currency f \<in> {Some ''USD'', Some ''UZS''}"

definition offer_rank :: "top_offer \<Rightarrow> rat \<times> int \<times> time \<times> string" where
  "offer_rank f =
     (case to_price f of None \<Rightarrow> 999999999 | Some p \<Rightarrow> if p = 0 then 999999999 else p, - to_source_count f,
      to_created_at f, to_announcement_id f)"

definition rank_top_offers :: "nat \<Rightarrow> top_offer list \<Rightarrow> top_offer list" where
  "rank_top_offers limit fs = take limit (py_sort offer_rank (filter reliable_offer fs))"

definition counts_as_post :: "content_post \<Rightarrow> bool" where
  "counts_as_post p \<longleftrightarrow> cp_status p \<noteq> FailedPost"

definition count_posts :: "string \<Rightarrow> post_store \<Rightarrow> nat" where
  "count_posts day d = length (filter (\<lambda>(k, p). starts_with k day \<and> counts_as_post p) d)"

definition save_post :: "content_post \<Rightarrow> post_store \<Rightarrow> post_store" where
  "save_post p d = dict_put (cp_key p) p d"

section \<open>Rendering\<close>

definition render_post :: "content_env \<Rightarrow> post_kind \<Rightarrow> string \<Rightarrow> string option" where
  "render_post E kind day =
     (case kind of
        DistrictStats \<Rightarrow>
          (let items = take 5 (ce_districts E) in
           if items = [] then None
           else Some (join [CHR 0x0A]
             ([''Tumanlar bo'' @ [CHR 0x27] @ ''yicha bozor narxi statistikasi'', ''Sana: '' @ day,
               ''Faqat active canonical, umumiy oylik ijara e'' @ [CHR 0x27] @ ''lonlari hisoblandi.''] @
              map (\<lambda>i. di_district i @ '': o'' @ [CHR 0x27] @ ''rtacha '' @ whole (di_average i) @ '' USD ('' @
                str_nat (di_count i) @ '' ta, min '' @ whole (di_min i) @ '', max '' @ whole (di_max i) @ '')'') items)))
      | TopOffer \<Rightarrow>
          (case rank_top_offers 1 (ce_offers E) of
             [] \<Rightarrow> None
           | f # _ \<Rightarrow>
               (let price = (case to_price f of
                      None \<Rightarrow> ''narx ko'' @ [CHR 0x27] @ ''rsatilmagan''
                    | Some p \<Rightarrow> strip (whole p @ '' '' @ (case to_currency f of None \<Rightarrow> [] | Some c \<Rightarrow> c)))
                in Some (join [CHR 0x0A]
                  ([''Bugungi konservativ top taklif'', ''Tuman: '' @ or_unknown (to_district f),
                    ''Xona: '' @ (case to_rooms f of None \<Rightarrow> ''nomalum'' | Some r \<Rightarrow> str_int r), ''Oylik narx: '' @ price,
                    ''Ranking sababi: umumiy oylik narxi aniq, active canonical e'' @ [CHR 0x27] @ ''lonlar ichida arzon kandidat.'',
                    ''Eslatma: bu kafolat yoki tavsiya emas; ma'' @ [CHR 0x27] @ ''lumotni manbadan tekshiring.''] @
                   (case to_source_url f of None \<Rightarrow> []
                    | Some u \<Rightarrow> if u = [] then [] else [''Manba: '' @ safe_source_url u])))))
      | _ \<Rightarrow>
          Some (join [CHR 0x0A]
            [''EstateFlow kunlik shaffoflik hisoboti'', ''Sana: '' @ day,
             ''Tekshirilgan e'' @ [CHR 0x27] @ ''lonlar: '' @ str_nat (cs_total_checked (ce_stats E)),
             ''Dublikatlar: '' @ str_nat (cs_duplicates (ce_stats E)),
             ''Faol e'' @ [CHR 0x27] @ ''lonlar: '' @ str_nat (cs_active (ce_stats E)),
             ''O'' @ [CHR 0x27] @ ''rtacha oylik narx: '' @
               (case cs_average (ce_stats E) of None \<Rightarrow> ''narx yetarli emas'' | Some p \<Rightarrow> whole p @ '' USD'')]))"

section \<open>The publishers\<close>

definition dry_run_publish :: "((string \<times> string) list) publisher" where
  "dry_run_publish t key sent =
     (Inr \<lparr>pr_status = DryRunPost, pr_message_id = Some (''dry-run:'' @ key)\<rparr>, sent @ [(key, t)])"

text \<open>What a request to the API gives: a status with the parsed body, or the class of an exception.\<close>

datatype telegram_answer = TelegramResponse int json | TelegramRaised string

record telegram_publisher =
  tp_configured :: bool
  tp_text :: text_env
  tp_answers :: "telegram_answer list"
  tp_requests :: "string list"
  tp_dry_run :: "(string \<times> string) list"

definition read_telegram_answer :: "text_env \<Rightarrow> telegram_answer \<Rightarrow> publish_failure + publish_result" where
  "read_telegram_answer E a =
     (case a of
        TelegramRaised c \<Rightarrow> Inl \<lparr>pf_reason = c, pf_retryable = True\<rparr>
      | TelegramResponse status body \<Rightarrow>
          if 500 \<le> status \<or> status = 429
          then Inl \<lparr>pf_reason = ''telegram_retryable_http_'' @ str_int status, pf_retryable = True\<rparr>
          else if 400 \<le> status
          then Inl \<lparr>pf_reason = ''telegram_permanent_http_'' @ str_int status, pf_retryable = False\<rparr>
          else (case body of
              JObj d \<Rightarrow>
                if falsy (get_or d ''ok'' JNull)
                then Inl \<lparr>pf_reason = ''telegram_permanent_http_'' @ str_int status, pf_retryable = False\<rparr>
                else (case get_or d ''result'' (JObj []) of
                    JObj r \<Rightarrow>
                      (let i = py_str E (get_or r ''message_id'' (JStr [])) in
                       Inr \<lparr>pr_status = PublishedPost, pr_message_id = (if i = [] then None else Some i)\<rparr>)
                  | _ \<Rightarrow> Inl \<lparr>pf_reason = ''AttributeError'', pf_retryable = True\<rparr>)
            | _ \<Rightarrow> Inl \<lparr>pf_reason = ''AttributeError'', pf_retryable = True\<rparr>))"

text \<open>The request carries the safe text; an API that does not answer any more counts as a timeout.\<close>

definition telegram_publish :: "telegram_publisher publisher" where
  "telegram_publish t key p =
     (if \<not> tp_configured p
      then (let (r, sent) = dry_run_publish t key (tp_dry_run p) in (r, p\<lparr>tp_dry_run := sent\<rparr>))
      else (let q = p\<lparr>tp_requests := tp_requests p @ [telegram_safe_text t]\<rparr> in
        case tp_answers p of
          [] \<Rightarrow> (Inl \<lparr>pf_reason = ''TimeoutError'', pf_retryable = True\<rparr>, q)
        | a # as \<Rightarrow> (read_telegram_answer (tp_text p) a, q\<lparr>tp_answers := as\<rparr>)))"

section \<open>The service\<close>

definition post_key :: "string \<Rightarrow> post_kind \<Rightarrow> string" where
  "post_key day kind = day @ '':'' @ post_kind_text kind"

text \<open>The limit the service is made with.\<close>

definition content_limit :: "int \<Rightarrow> nat res" where
  "content_limit n =
     (if n < 1 \<or> 2 < n then Inl (ValueError ''Content automation must be capped at 1-2 posts per day.'') else Inr (nat n))"

definition planned_kinds :: "post_kind list" where
  "planned_kinds = [TopOffer, DistrictStats, TransparencyReport]"

definition new_post ::
  "content_env \<Rightarrow> content_post option \<Rightarrow> post_kind \<Rightarrow> string \<Rightarrow> string \<Rightarrow> time \<Rightarrow> publish_failure + publish_result \<Rightarrow> content_post" where
  "new_post E existing kind key t now outcome =
     \<lparr>cp_post_id = (case existing of None \<Rightarrow> ce_new_id E | Some p \<Rightarrow> cp_post_id p), cp_kind = kind, cp_key = key,
      cp_text = telegram_safe_text t,
      cp_status = (case outcome of Inl _ \<Rightarrow> FailedPost | Inr r \<Rightarrow> pr_status r),
      cp_published_at = (case outcome of Inl _ \<Rightarrow> None | Inr r \<Rightarrow> if pr_status r \<in> {PublishedPost, DryRunPost} then Some now else None),
      cp_message_id = (case outcome of Inl _ \<Rightarrow> None | Inr r \<Rightarrow> pr_message_id r),
      cp_attempts = (case existing of None \<Rightarrow> 0 | Some p \<Rightarrow> cp_attempts p) + 1,
      cp_next_attempt_at = (case outcome of Inl f \<Rightarrow> if pf_retryable f then Some (now + ce_backoff E) else None | Inr _ \<Rightarrow> None),
      cp_error = (case outcome of Inl f \<Rightarrow> Some (pf_reason f) | Inr _ \<Rightarrow> None),
      cp_created_at = (case existing of None \<Rightarrow> now | Some p \<Rightarrow> cp_created_at p)\<rparr>"

text \<open>Whether the stored post of the key ends the attempt.\<close>

definition post_settled :: "time \<Rightarrow> content_post option \<Rightarrow> bool" where
  "post_settled now existing =
     (case existing of
        None \<Rightarrow> False
      | Some p \<Rightarrow> counts_as_post p \<or> (case cp_next_attempt_at p of None \<Rightarrow> False | Some n \<Rightarrow> now < n))"

definition create_once ::
  "'p publisher \<Rightarrow> content_env \<Rightarrow> post_kind \<Rightarrow> string \<Rightarrow> time \<Rightarrow> post_store \<times> 'p \<Rightarrow> content_post option \<times> post_store \<times> 'p" where
  "create_once publish E kind day now s =
     (let (posts, p) = s; key = post_key day kind; existing = dict_get posts key in
      if post_settled now existing \<or> ce_limit E \<le> count_posts day posts then (existing, posts, p)
      else (case render_post E kind day of
          None \<Rightarrow> (None, posts, p)
        | Some t \<Rightarrow>
            (case publish (telegram_safe_text t) key p of
               (outcome, p1) \<Rightarrow>
                 (let post = new_post E existing kind key t now outcome in (Some post, save_post post posts, p1)))))"

definition generate_daily ::
  "'p publisher \<Rightarrow> content_env \<Rightarrow> time \<Rightarrow> post_store \<times> 'p \<Rightarrow> content_post list \<times> post_store \<times> 'p" where
  "generate_daily publish E now s =
     fold (\<lambda>kind (made, s1). case create_once publish E kind (ce_day E now) now s1 of
         (r, s2) \<Rightarrow> (made @ (case r of None \<Rightarrow> [] | Some post \<Rightarrow> [post]), s2))
       planned_kinds ([], s)"

text \<open>The preview publishes nothing and stores nothing.\<close>

fun preview_kinds :: "content_env \<Rightarrow> string \<Rightarrow> time \<Rightarrow> post_store \<Rightarrow> nat \<Rightarrow> post_kind list \<Rightarrow> content_post list" where
  "preview_kinds E day now posts n [] = []"
| "preview_kinds E day now posts n (kind # ks) =
     (if n = 0 then []
      else if dict_get posts (post_key day kind) \<noteq> None then preview_kinds E day now posts n ks
      else (case render_post E kind day of
          None \<Rightarrow> preview_kinds E day now posts n ks
        | Some t \<Rightarrow>
            \<lparr>cp_post_id = ''preview:'' @ post_key day kind, cp_kind = kind, cp_key = post_key day kind,
             cp_text = telegram_safe_text t, cp_status = DraftedPost, cp_published_at = None, cp_message_id = None,
             cp_attempts = 0, cp_next_attempt_at = None, cp_error = None, cp_created_at = now\<rparr>
            # preview_kinds E day now posts (n - 1) ks))"

definition preview_daily :: "content_env \<Rightarrow> time \<Rightarrow> post_store \<Rightarrow> content_post list" where
  "preview_daily E now posts =
     (let day = ce_day E now in preview_kinds E day now posts (ce_limit E - count_posts day posts) planned_kinds)"

definition process_scheduled_message ::
  "'p publisher \<Rightarrow> content_env \<Rightarrow> text_env \<Rightarrow> message \<Rightarrow> time \<Rightarrow> post_store \<times> 'p \<Rightarrow> content_post option res \<times> post_store \<times> 'p" where
  "process_scheduled_message publish E T m now s =
     (case payload m of
        JObj d \<Rightarrow>
          (case res_bind (case dict_get d ''kind'' of None \<Rightarrow> Inl (KeyError ''kind'') | Some j \<Rightarrow> post_kind_of (py_str T j)) (\<lambda>kind.
                res_bind (case dict_get d ''day'' of None \<Rightarrow> Inl (KeyError ''day'')
                    | Some j \<Rightarrow> (case ce_parse_day E (py_str T j) of None \<Rightarrow> Inl (ValueError ''Invalid isoformat string'') | Some day \<Rightarrow> Inr day))
                  (\<lambda>day. Inr (kind, day))) of
             Inl e \<Rightarrow> (Inl e, s)
           | Inr (kind, day) \<Rightarrow> (case create_once publish E kind day now s of (r, s1) \<Rightarrow> (Inr r, s1)))
      | _ \<Rightarrow> (Inl (TypeError ''payload''), s))"

definition schedule_message :: "content_env \<Rightarrow> string \<Rightarrow> post_kind \<Rightarrow> message" where
  "schedule_message E day kind =
     \<lparr>queue_name = CONTENT_AUTOMATION_QUEUE,
      payload = JObj [(''schema_version'', JStr ''estateflow.content.schedule.v1''), (''kind'', JStr (post_kind_text kind)),
        (''day'', JStr day), (''idempotency_key'', JStr (post_key day kind)), (''timezone'', JStr (ce_timezone E))],
      correlation_id = ''content:'' @ post_key day kind,
      metadata = [(''idempotency_key'', JStr (post_key day kind)), (''kind'', JStr (post_kind_text kind))],
      delivery_token = None\<rparr>"

text \<open>\<open>publish\<close> of the queue may raise; the messages published before stay.\<close>

fun enqueue_daily :: "(message \<Rightarrow> 'q \<Rightarrow> unit res \<times> 'q) \<Rightarrow> content_env \<Rightarrow> time \<Rightarrow> post_kind list \<Rightarrow> 'q \<Rightarrow> message list res \<times> 'q" where
  "enqueue_daily put E now [] q = (Inr [], q)"
| "enqueue_daily put E now (k # ks) q =
     then_do (put (schedule_message E (ce_day E now) k) q) (\<lambda>_ q1.
       then_do (enqueue_daily put E now ks q1) (\<lambda>ms q2. (Inr (schedule_message E (ce_day E now) k # ms), q2)))"


section \<open>Runs of the service\<close>

text \<open>
  A run is a sequence of daily generations and scheduled messages; the content, the calendar and the identifiers may differ
  from one to the next. \<open>logged\<close> notes of every attempt to publish whether it succeeded.
\<close>

datatype content_action = GenerateDaily time | ScheduledMessage message time

definition content_step ::
  "'p publisher \<Rightarrow> text_env \<Rightarrow> content_env \<times> content_action \<Rightarrow> post_store \<times> 'p \<Rightarrow> post_store \<times> 'p" where
  "content_step publish T x s =
     (case x of
        (E, GenerateDaily now) \<Rightarrow> snd (generate_daily publish E now s)
      | (E, ScheduledMessage m now) \<Rightarrow> snd (process_scheduled_message publish E T m now s))"

definition content_run ::
  "'p publisher \<Rightarrow> text_env \<Rightarrow> (content_env \<times> content_action) list \<Rightarrow> post_store \<times> 'p \<Rightarrow> post_store \<times> 'p" where
  "content_run publish T xs s = fold (content_step publish T) xs s"

definition logged :: "'p publisher \<Rightarrow> ((string \<times> bool) list \<times> 'p) publisher" where
  "logged publish t key s =
     (case publish t key (snd s) of (r, p) \<Rightarrow> (r, (fst s @ [(key, \<not> isl r)], p)))"

definition sent_keys :: "(string \<times> bool) list \<Rightarrow> string list" where
  "sent_keys lg = map fst (filter snd lg)"

text \<open>The text of a day has ten characters: four of the year, two of the month, two of the day and the hyphens.\<close>

definition content_env_ok :: "nat \<Rightarrow> content_env \<Rightarrow> bool" where
  "content_env_ok n E \<longleftrightarrow>
     ce_limit E = n \<and> (\<forall>t. length (ce_day E t) = 10) \<and> (\<forall>t d. ce_parse_day E t = Some d \<longrightarrow> length d = 10)"

definition counted_keys :: "post_store \<Rightarrow> string list" where
  "counted_keys d = map fst (filter (\<lambda>(k, p). counts_as_post p) d)"

definition content_ok :: "nat \<Rightarrow> post_store \<times> (string \<times> bool) list \<times> 'p \<Rightarrow> bool" where
  "content_ok n s \<longleftrightarrow>
     (case s of (posts, lg, p) \<Rightarrow>
        dict_ok posts \<and> mset (sent_keys lg) = mset (counted_keys posts) \<and>
        (\<forall>day. length day = 10 \<longrightarrow> count_posts day posts \<le> n) \<and>
        (\<forall>post \<in> set (dict_values posts). length (cp_text post) \<le> TELEGRAM_MAX_MESSAGE_LENGTH))"

lemma length_telegram_safe_text: "length (telegram_safe_text v) \<le> TELEGRAM_MAX_MESSAGE_LENGTH"
proof -
  have "length (rstrip xs) \<le> length xs" for xs
    using length_dropWhile_le [of is_space "rev xs"] by (simp add: rstrip_def)
  from this [of "take 4093 (strip (join [CHR 0x0A] (map rstrip (splitlines v))))"]
  show ?thesis by (auto simp: telegram_safe_text_def Let_def TELEGRAM_MAX_MESSAGE_LENGTH_def)
qed

lemma count_posts_keys: "count_posts day d = size (filter_mset (\<lambda>k. starts_with k day) (mset (counted_keys d)))"
  by (induction d) (auto simp: count_posts_def counted_keys_def)

lemma counted_keys_put:
  "(case dict_get d k of None \<Rightarrow> True | Some p \<Rightarrow> \<not> counts_as_post p) \<Longrightarrow>
   mset (counted_keys (dict_put k q d)) = mset (counted_keys d) + (if counts_as_post q then {#k#} else {#})"
  by (induction d) (auto simp: counted_keys_def split: if_splits)

lemma distinct_counted_keys: "dict_ok d \<Longrightarrow> distinct (counted_keys d)"
  by (induction d) (auto simp: counted_keys_def dict_ok_def)

lemma put_values: "x \<in> set (dict_values (dict_put k v d)) \<Longrightarrow> x = v \<or> x \<in> set (dict_values d)"
  by (induction d) (auto split: if_splits)

lemma post_key_day: "length day = 10 \<Longrightarrow> length day' = 10 \<Longrightarrow> starts_with (post_key day kind) day' \<longleftrightarrow> day = day'"
  by (auto simp: starts_with_def post_key_def)

lemma post_settled_None [simp]: "\<not> post_settled now None"
  by (simp add: post_settled_def)

lemma not_settledD:
  "\<not> post_settled now x \<Longrightarrow> case x of None \<Rightarrow> True | Some p \<Rightarrow> \<not> counts_as_post p"
  by (auto simp: post_settled_def split: option.splits)

lemma create_once_cases:
  obtains
    (still) r where "create_once publish E kind day now (posts, p) = (r, posts, p)"
  | (attempt) t outcome q where
      "\<not> post_settled now (dict_get posts (post_key day kind))" "count_posts day posts < ce_limit E"
      "render_post E kind day = Some t" "publish (telegram_safe_text t) (post_key day kind) p = (outcome, q)"
      "create_once publish E kind day now (posts, p) =
        (Some (new_post E (dict_get posts (post_key day kind)) kind (post_key day kind) t now outcome),
         dict_put (post_key day kind) (new_post E (dict_get posts (post_key day kind)) kind (post_key day kind) t now outcome) posts, q)"
proof (cases "post_settled now (dict_get posts (post_key day kind)) \<or> ce_limit E \<le> count_posts day posts \<or> render_post E kind day = None")
  case True
  then have "snd (create_once publish E kind day now (posts, p)) = (posts, p)" by (auto simp: create_once_def Let_def)
  then have "create_once publish E kind day now (posts, p) = (fst (create_once publish E kind day now (posts, p)), posts, p)"
    by (metis prod.collapse)
  then show ?thesis by (rule still)
next
  case False
  then obtain t where t: "render_post E kind day = Some t" by auto
  obtain outcome q where o: "publish (telegram_safe_text t) (post_key day kind) p = (outcome, q)" by force
  show ?thesis
    using False t o by (intro attempt [OF _ _ t o]) (simp_all add: create_once_def Let_def save_post_def new_post_def)
qed


section \<open>What the service relies on\<close>

text \<open>A publisher that answers without an error has not answered with the status of a failure.\<close>

locale content_publisher =
  fixes publish :: "'p publisher"
  assumes answers_count: "publish t key p = (Inr r, q) \<Longrightarrow> pr_status r \<noteq> FailedPost"
begin

lemma create_once_ok:
  assumes ok: "content_ok n s" and n: "ce_limit E = n" and day: "length day = 10"
  shows "content_ok n (snd (create_once (logged publish) E kind day now s))"
proof -
  obtain posts lg p where s: "s = (posts, lg, p)" by (metis prod_cases3)
  show ?thesis
  proof (cases rule: create_once_cases [of "logged publish" E kind day now posts "(lg, p)"])
    case (still r)
    then show ?thesis using ok s by simp
  next
    case (attempt t outcome q)
    let ?k = "post_key day kind"
    let ?new = "new_post E (dict_get posts ?k) kind ?k t now outcome"
    obtain p1 where q: "publish (telegram_safe_text t) ?k p = (outcome, p1)" "q = (lg @ [(?k, \<not> isl outcome)], p1)"
      using attempt(4) by (auto simp: logged_def split: prod.splits)
    have "counts_as_post ?new \<longleftrightarrow> \<not> isl outcome"
      using answers_count [of "telegram_safe_text t" ?k p] q(1)
      by (cases outcome) (auto simp: counts_as_post_def new_post_def)
    then have m: "mset (counted_keys (dict_put ?k ?new posts)) = mset (counted_keys posts) + (if isl outcome then {#} else {#?k#})"
      using counted_keys_put [OF not_settledD [OF attempt(1)], of ?new] by simp
    have limit: "count_posts d (dict_put ?k ?new posts) \<le> n" if d: "length d = 10" for d
      using ok s d n attempt(2) day
      by (auto simp: count_posts_keys m content_ok_def post_key_day)
    have texts: "length (cp_text x) \<le> TELEGRAM_MAX_MESSAGE_LENGTH" if "x \<in> set (dict_values (dict_put ?k ?new posts))" for x
    proof -
      have "x = ?new \<or> x \<in> set (dict_values posts)"
        using that by (rule put_values)
      then show ?thesis using ok s length_telegram_safe_text by (auto simp: content_ok_def new_post_def)
    qed
    show ?thesis
      using ok s limit texts m q attempt(5) by (auto simp: content_ok_def sent_keys_def)
  qed
qed

end


context content_publisher
begin

lemma generate_daily_ok:
  assumes ok: "content_ok n s" and E: "content_env_ok n E"
  shows "content_ok n (snd (generate_daily (logged publish) E now s))"
proof -
  have "content_ok n (snd (fold (\<lambda>kind (made, s1). case create_once (logged publish) E kind (ce_day E now) now s1 of
         (r, s2) \<Rightarrow> (made @ (case r of None \<Rightarrow> [] | Some post \<Rightarrow> [post]), s2)) kinds (made, s)))"
    if "content_ok n s" for kinds made s
    using that
  proof (induction kinds arbitrary: made s)
    case (Cons kind kinds)
    then have "content_ok n (snd (create_once (logged publish) E kind (ce_day E now) now s))"
      using E by (intro create_once_ok) (auto simp: content_env_ok_def)
    then show ?case
      using Cons.IH by (cases "create_once (logged publish) E kind (ce_day E now) now s") simp
  qed simp
  from this [OF ok] show ?thesis by (simp add: generate_daily_def)
qed

lemma process_scheduled_ok:
  assumes "content_ok n s" and "content_env_ok n E"
  shows "content_ok n (snd (process_scheduled_message (logged publish) E T m now s))"
  using assms create_once_ok [OF assms(1), of E]
  by (auto simp: process_scheduled_message_def content_env_ok_def res_bind_def
      split: json.splits sum.splits option.splits prod.splits) (metis snd_conv)+

lemma content_step_ok:
  assumes "content_ok n s" and "content_env_ok n (fst x)"
  shows "content_ok n (content_step (logged publish) T x s)"
  using generate_daily_ok [OF assms] process_scheduled_ok [OF assms]
  by (auto simp: content_step_def split: prod.splits content_action.splits)

lemma content_run_ok:
  "list_all (\<lambda>x. content_env_ok n (fst x)) xs \<Longrightarrow> content_ok n s \<Longrightarrow> content_ok n (content_run (logged publish) T xs s)"
  by (induction xs arbitrary: s) (simp_all add: content_run_def content_step_ok del: split_paired_All)

lemma sent_within_limit:
  assumes E: "list_all (\<lambda>x. content_env_ok n (fst x)) xs" and day: "length day = 10"
    and run: "content_run (logged publish) T xs ([], [], p) = (posts, lg, q)"
  shows "distinct (sent_keys lg) \<and> length (filter (\<lambda>k. starts_with k day) (sent_keys lg)) \<le> n \<and>
    (\<forall>post \<in> set (dict_values posts). length (cp_text post) \<le> TELEGRAM_MAX_MESSAGE_LENGTH)"
proof -
  have "content_ok n ([], [], p)"
    by (simp add: content_ok_def sent_keys_def counted_keys_def count_posts_def)
  then have "content_ok n (posts, lg, q)"
    using content_run_ok [OF E, of "([], [], p)" T] run by simp
  then have ok: "dict_ok posts" "mset (sent_keys lg) = mset (counted_keys posts)" "count_posts day posts \<le> n"
    "\<forall>post \<in> set (dict_values posts). length (cp_text post) \<le> TELEGRAM_MAX_MESSAGE_LENGTH"
    using day by (auto simp: content_ok_def)
  have "distinct (sent_keys lg)"
    using distinct_counted_keys [OF ok(1)] ok(2) mset_eq_imp_distinct_iff by blast
  moreover have "length (filter (\<lambda>k. starts_with k day) (sent_keys lg)) = count_posts day posts"
    unfolding count_posts_keys ok(2) [symmetric] by (simp flip: size_mset mset_filter)
  ultimately show ?thesis using ok(3,4) by simp
qed

end

interpretation dry_publisher: content_publisher dry_run_publish
  by unfold_locales (auto simp: dry_run_publish_def)

interpretation channel_publisher: content_publisher telegram_publish
proof
  fix t key r and p q :: telegram_publisher
  assume "telegram_publish t key p = (Inr r, q)"
  then show "pr_status r \<noteq> FailedPost"
    by (auto simp: telegram_publish_def dry_run_publish_def read_telegram_answer_def Let_def
        split: if_splits list.splits telegram_answer.splits json.splits)
qed

lemma create_once_attempt:
  assumes "\<not> post_settled now (dict_get posts (post_key day kind))" "count_posts day posts < ce_limit E"
    and "render_post E kind day = Some t" "publish (telegram_safe_text t) (post_key day kind) p = (outcome, q)"
  shows "create_once publish E kind day now (posts, p) =
    (let new = new_post E (dict_get posts (post_key day kind)) kind (post_key day kind) t now outcome in
     (Some new, dict_put (post_key day kind) new posts, q))"
  using assms by (simp add: create_once_def Let_def save_post_def new_post_def)

text \<open>No planned post of the day has failed.\<close>

definition no_failed_post :: "string \<Rightarrow> post_kind list \<Rightarrow> post_store \<Rightarrow> bool" where
  "no_failed_post day kinds posts \<longleftrightarrow>
     list_all (\<lambda>kind. case dict_get posts (post_key day kind) of None \<Rightarrow> True | Some p \<Rightarrow> counts_as_post p) kinds"

lemma post_key_kind [simp]: "post_key day k = post_key day k' \<longleftrightarrow> k = k'"
  by (cases k; cases k') (simp_all add: post_key_def)

lemma count_posts_put:
  assumes "length day = 10" "dict_get d (post_key day kind) = None" "counts_as_post q"
  shows "count_posts day (dict_put (post_key day kind) q d) = Suc (count_posts day d)"
  using assms counted_keys_put [of d "post_key day kind" q] by (simp add: count_posts_keys post_key_day)

text \<open>The generation of the remaining kinds, over the store and the posts made so far.\<close>

definition generate_kinds ::
  "'p publisher \<Rightarrow> content_env \<Rightarrow> string \<Rightarrow> time \<Rightarrow> post_kind list \<Rightarrow> content_post list \<times> post_store \<times> 'p \<Rightarrow> content_post list \<times> post_store \<times> 'p" where
  "generate_kinds publish E day now kinds x =
     fold (\<lambda>kind (made, s1). case create_once publish E kind day now s1 of
         (r, s2) \<Rightarrow> (made @ (case r of None \<Rightarrow> [] | Some post \<Rightarrow> [post]), s2)) kinds x"

lemma preview_kinds_put:
  "kind \<notin> set ks \<Longrightarrow>
   preview_kinds E day now (dict_put (post_key day kind) q posts) n ks = preview_kinds E day now posts n ks"
  by (induction ks arbitrary: n) (auto simp: dict_simps split: option.splits)

lemma generate_kinds_preview:
  assumes day: "length day = 10" and "distinct kinds" and "no_failed_post day kinds posts"
  shows "snd (snd (generate_kinds dry_run_publish E day now kinds (made, posts, sent))) =
    sent @ map (\<lambda>p. (cp_key p, cp_text p)) (preview_kinds E day now posts (ce_limit E - count_posts day posts) kinds)"
  using assms(2,3)
proof (induction kinds arbitrary: made posts sent)
  case (Cons kind kinds)
  let ?k = "post_key day kind"
  have rest: "no_failed_post day kinds posts" using Cons.prems(2) by (simp add: no_failed_post_def)
  have step: "generate_kinds dry_run_publish E day now (kind # kinds) (made, posts, sent) =
    (case create_once dry_run_publish E kind day now (posts, sent) of
       (r, s2) \<Rightarrow> generate_kinds dry_run_publish E day now kinds (made @ (case r of None \<Rightarrow> [] | Some post \<Rightarrow> [post]), s2))"
    by (auto simp: generate_kinds_def split: prod.splits)
  show ?case
  proof (cases "dict_get posts ?k = None \<and> count_posts day posts < ce_limit E \<and> render_post E kind day \<noteq> None")
    case False
    then have "snd (create_once dry_run_publish E kind day now (posts, sent)) = (posts, sent)"
      using Cons.prems(2) by (auto simp: create_once_def Let_def no_failed_post_def post_settled_def)
    moreover have "preview_kinds E day now posts 0 kinds = []" by (cases kinds) simp_all
    then have "preview_kinds E day now posts (ce_limit E - count_posts day posts) (kind # kinds) =
      preview_kinds E day now posts (ce_limit E - count_posts day posts) kinds"
      using False by (auto split: option.splits)
    ultimately show ?thesis
      using Cons.IH [OF _ rest] Cons.prems(1) by (auto simp: step split: prod.splits)
  next
    case True
    then obtain t where t: "render_post E kind day = Some t" by auto
    let ?r = "\<lparr>pr_status = DryRunPost, pr_message_id = Some (''dry-run:'' @ ?k)\<rparr>"
    define new where "new = new_post E None kind ?k t now (Inr ?r)"
    have made1: "create_once dry_run_publish E kind day now (posts, sent) =
      (Some new, dict_put ?k new posts, sent @ [(?k, telegram_safe_text t)])"
      using True create_once_attempt [where publish = dry_run_publish, OF _ _ t, of now posts]
      by (simp add: dry_run_publish_def Let_def new_def)
    have counts: "counts_as_post new" by (simp add: counts_as_post_def new_post_def new_def)
    have other: "kind' \<in> set kinds \<Longrightarrow> dict_get (dict_put ?k new posts) (post_key day kind') = dict_get posts (post_key day kind')" for kind'
      using Cons.prems(1) by (auto simp: dict_simps)
    have rest1: "no_failed_post day kinds (dict_put ?k new posts)"
      using rest other by (auto simp: no_failed_post_def list_all_iff)
    have again: "preview_kinds E day now (dict_put ?k new posts) n kinds = preview_kinds E day now posts n kinds" for n
      using Cons.prems(1) by (simp add: preview_kinds_put)
    have new: "cp_key new = ?k" "cp_text new = telegram_safe_text t" by (simp_all add: new_def new_post_def)
    have "ce_limit E - count_posts day posts = Suc (ce_limit E - Suc (count_posts day posts))"
      using True by (auto simp: Suc_diff_Suc)
    then show ?thesis
      using Cons.IH [OF _ rest1] Cons.prems(1) True count_posts_put [OF day _ counts]
      by (simp add: step made1 t again new)
  qed
qed (simp add: generate_kinds_def)

section \<open>Properties\<close>

text \<open>
  C24. Whatever the daily generations and the scheduled messages do, in any order, with any answers of Telegram and with
  retries, the channel gets every planned post at most once, at most the limit of posts for a day, and no stored text is
  longer than a Telegram message.
\<close>

theorem channel_posts_limited:
  assumes "list_all (\<lambda>x. content_env_ok n (fst x)) xs" and "length day = 10"
    and "content_run (logged telegram_publish) T xs ([], [], p) = (posts, lg, q)"
  shows "distinct (sent_keys lg) \<and> length (filter (\<lambda>k. starts_with k day) (sent_keys lg)) \<le> n \<and>
    (\<forall>post \<in> set (dict_values posts). length (cp_text post) \<le> TELEGRAM_MAX_MESSAGE_LENGTH)"
  using assms by (rule channel_publisher.sent_within_limit)

text \<open>
  A failed post is attempted again: a failure that Telegram calls temporary only when its wait is over, a permanent one,
  of which nothing better can be expected, already by the next attempt at any time.
\<close>

theorem failed_post_retry_time:
  assumes "\<not> post_settled now (dict_get posts (post_key day kind))" "count_posts day posts < ce_limit E"
    and "render_post E kind day = Some t" "publish (telegram_safe_text t) (post_key day kind) p = (Inl f, p1)"
    and "create_once publish E kind day now (posts, p) = (r, posts1, p2)"
  shows "if pf_retryable f
    then now2 < now + ce_backoff E \<longrightarrow> create_once publish E kind day now2 (posts1, p2) = (r, posts1, p1)
    else snd (snd (create_once publish E kind day now2 (posts1, p2))) = snd (publish (telegram_safe_text t) (post_key day kind) p1)"
proof -
  let ?k = "post_key day kind"
  let ?new = "new_post E (dict_get posts ?k) kind ?k t now (Inl f)"
  have r: "r = Some ?new" "posts1 = dict_put ?k ?new posts" "p2 = p1"
    using assms(5) create_once_attempt [where publish = publish, OF assms(1,2,3,4)] by (auto simp: Let_def)
  have "mset (counted_keys posts1) = mset (counted_keys posts)"
    using counted_keys_put [OF not_settledD [OF assms(1)], of ?new]
    by (simp add: r counts_as_post_def new_post_def)
  then have n: "count_posts day posts1 < ce_limit E"
    using assms(2) by (simp add: count_posts_keys)
  have get: "dict_get posts1 ?k = Some ?new" by (simp add: r dict_simps)
  show ?thesis
  proof (cases "pf_retryable f")
    case True
    then show ?thesis
      using get by (auto simp: create_once_def post_settled_def r new_post_def Let_def)
  next
    case False
    then have "\<not> post_settled now2 (dict_get posts1 ?k)"
      by (simp add: get post_settled_def new_post_def counts_as_post_def)
    then show ?thesis
      using False n assms(3) create_once_attempt [where publish = publish and now = now2 and p = p1]
      by (cases "publish (telegram_safe_text t) ?k p1") (simp add: r Let_def)
  qed
qed

text \<open>
  Unless a post of the day has failed before, the preview of the day is what the generation then sends: the same posts, in the
  same order, with the same texts.
\<close>

theorem preview_is_what_is_sent:
  assumes "content_env_ok n E" "no_failed_post (ce_day E now) planned_kinds posts"
  shows "snd (snd (generate_daily dry_run_publish E now (posts, []))) =
    map (\<lambda>p. (cp_key p, cp_text p)) (preview_daily E now posts)"
  using assms generate_kinds_preview [of "ce_day E now" planned_kinds posts E now "[]" "[]"]
  by (simp add: generate_daily_def generate_kinds_def preview_daily_def content_env_ok_def Let_def)
    (simp add: planned_kinds_def)


section \<open>Witnesses\<close>

text \<open>
  A day with statistics but no offers and no districts: only the report can be made. Telegram first asks to wait and then
  refuses for good; the third answer is a success.
\<close>

definition sample_content :: content_env where
  "sample_content = \<lparr>ce_stats = \<lparr>cs_total_checked = 12, cs_duplicates = 3, cs_active = 9, cs_average = None\<rparr>, ce_offers = [], ce_districts = [],
     ce_day = (\<lambda>t. ''2026-08-01''), ce_parse_day = (\<lambda>t. if length t = 10 then Some t else None), ce_timezone = ''Asia/Tashkent'',
     ce_limit = 2, ce_backoff = 600, ce_new_id = ''p1''\<rparr>"

definition sample_channel :: "telegram_answer list \<Rightarrow> telegram_publisher" where
  "sample_channel as = \<lparr>tp_configured = True, tp_text = sample_env, tp_answers = as, tp_requests = [], tp_dry_run = []\<rparr>"

lemma sample_content_ok: "content_env_ok 2 sample_content"
  by (simp add: content_env_ok_def sample_content_def)

lemma sample_report:
  "render_post sample_content TransparencyReport ''2026-08-01'' \<noteq> None"
  "render_post sample_content TopOffer day = None" "render_post sample_content DistrictStats day = None"
  by (simp_all add: render_post_def sample_content_def rank_top_offers_def py_sort_def)

definition sample_report_text :: string where
  "sample_report_text = the (render_post sample_content TransparencyReport ''2026-08-01'')"

lemma sample_channel_run:
  "fst (snd (content_run (logged telegram_publish) sample_env
     [(sample_content, GenerateDaily 0), (sample_content, GenerateDaily 300), (sample_content, GenerateDaily 900),
      (sample_content, GenerateDaily 901)]
     ([], [], sample_channel [TelegramResponse 429 (JObj []), TelegramResponse 403 (JObj []), TelegramResponse 200 (JObj [(''ok'', JBool True)])]))) =
   [(''2026-08-01:transparency_report'', False), (''2026-08-01:transparency_report'', False),
    (''2026-08-01:transparency_report'', True)]"
  by code_simp

theorem channel_posts_limited_witness:
  "case content_run (logged telegram_publish) sample_env
     [(sample_content, GenerateDaily 0), (sample_content, GenerateDaily 300), (sample_content, GenerateDaily 900),
      (sample_content, GenerateDaily 901)]
     ([], [], sample_channel [TelegramResponse 429 (JObj []), TelegramResponse 403 (JObj []), TelegramResponse 200 (JObj [(''ok'', JBool True)])]) of
     (posts, lg, q) \<Rightarrow>
       lg = [(''2026-08-01:transparency_report'', False), (''2026-08-01:transparency_report'', False),
         (''2026-08-01:transparency_report'', True)] \<and>
       distinct (sent_keys lg) \<and> length (filter (\<lambda>k. starts_with k ''2026-08-01'') (sent_keys lg)) \<le> 2"
proof -
  let ?xs = "[(sample_content, GenerateDaily 0), (sample_content, GenerateDaily 300), (sample_content, GenerateDaily 900),
      (sample_content, GenerateDaily 901)]"
  have "list_all (\<lambda>x. content_env_ok 2 (fst x)) ?xs" by (simp add: sample_content_ok)
  from channel_posts_limited [OF this, of "''2026-08-01''"] sample_channel_run
  show ?thesis by (auto split: prod.splits)
qed

theorem failed_post_retry_time_witness:
  "\<exists>r posts q.
     create_once telegram_publish sample_content TransparencyReport ''2026-08-01'' 0
       ([], sample_channel [TelegramResponse 403 (JObj []), TelegramResponse 429 (JObj [])]) = (r, posts, q) \<and>
     snd (snd (create_once telegram_publish sample_content TransparencyReport ''2026-08-01'' 0 (posts, q))) =
       (sample_channel [])\<lparr>tp_requests := [sample_report_text, sample_report_text]\<rparr>"
proof -
  let ?p = "sample_channel [TelegramResponse 403 (JObj []), TelegramResponse 429 (JObj [])]"
  have safe: "telegram_safe_text sample_report_text = sample_report_text" by code_simp
  have t: "render_post sample_content TransparencyReport ''2026-08-01'' = Some sample_report_text"
    using sample_report(1) by (auto simp: sample_report_text_def)
  have p1: "telegram_publish (telegram_safe_text sample_report_text) (post_key ''2026-08-01'' TransparencyReport) ?p =
    (Inl \<lparr>pf_reason = ''telegram_permanent_http_403'', pf_retryable = False\<rparr>,
     (sample_channel [TelegramResponse 429 (JObj [])])\<lparr>tp_requests := [sample_report_text]\<rparr>)"
    by (simp add: telegram_publish_def sample_channel_def safe read_telegram_answer_def) code_simp
  obtain r posts q where c: "create_once telegram_publish sample_content TransparencyReport ''2026-08-01'' 0 ([], ?p) = (r, posts, q)"
    by (rule prod_cases3)
  have n: "count_posts ''2026-08-01'' [] < ce_limit sample_content" by (simp add: count_posts_def sample_content_def)
  have "snd (snd (create_once telegram_publish sample_content TransparencyReport ''2026-08-01'' 0 (posts, q))) =
    (sample_channel [])\<lparr>tp_requests := [sample_report_text, sample_report_text]\<rparr>"
    using failed_post_retry_time [OF _ n t p1 c, of 0]
    by (simp add: telegram_publish_def sample_channel_def safe read_telegram_answer_def)
  with c show ?thesis by blast
qed

theorem preview_is_what_is_sent_witness:
  "map (\<lambda>p. (cp_key p, cp_text p)) (preview_daily sample_content 0 []) =
     [(''2026-08-01:transparency_report'', sample_report_text)] \<and>
   snd (snd (generate_daily dry_run_publish sample_content 0 ([], []))) =
     map (\<lambda>p. (cp_key p, cp_text p)) (preview_daily sample_content 0 [])"
proof
  show "map (\<lambda>p. (cp_key p, cp_text p)) (preview_daily sample_content 0 []) =
     [(''2026-08-01:transparency_report'', sample_report_text)]"
    by code_simp
  show "snd (snd (generate_daily dry_run_publish sample_content 0 ([], []))) =
     map (\<lambda>p. (cp_key p, cp_text p)) (preview_daily sample_content 0 [])"
    by (rule preview_is_what_is_sent [OF sample_content_ok]) (simp add: no_failed_post_def planned_kinds_def)
qed

end
