(* ===== verification/EF_WebAppAuth.thy ===== *)
theory EF_WebAppAuth
  imports EF_Image EF_Queue "HOL-Library.Multiset"
begin

text \<open>
  Authentication of the Mini App (\<open>services/telegram_webapp_auth.py\<close>): the check of Telegram's init data, the access
  tokens and their base64 form, read the way \<open>binascii.a2b_base64\<close> reads it (not strictly). HMAC-SHA256, the JSON parser
  and the clock in whole seconds are arguments. Texts are lists of their bytes, so a text and its UTF-8 encoding coincide.
\<close>

section \<open>Base64\<close>

fun sextet_char :: "nat \<Rightarrow> char" where
  "sextet_char n =
     (if n < 26 then char_of (65 + n) else if n < 52 then char_of (97 + (n - 26)) else if n < 62 then char_of (48 + (n - 52))
      else if n = 62 then CHR ''-'' else CHR ''_'')"

text \<open>\<open>urlsafe_b64encode\<close>.\<close>

fun b64_full :: "bytes \<Rightarrow> string" where
  "b64_full [] = []"
| "b64_full [a] = [sextet_char (unat a div 4), sextet_char (unat a mod 4 * 16), CHR ''='', CHR ''='']"
| "b64_full [a, b] =
     [sextet_char (unat a div 4), sextet_char (unat a mod 4 * 16 + unat b div 16), sextet_char (unat b mod 16 * 4), CHR ''='']"
| "b64_full (a # b # c # bs) =
     [sextet_char (unat a div 4), sextet_char (unat a mod 4 * 16 + unat b div 16), sextet_char (unat b mod 16 * 4 + unat c div 64),
      sextet_char (unat c mod 64)] @ b64_full bs"

definition rstrip_char :: "char \<Rightarrow> string \<Rightarrow> string" where
  "rstrip_char c s = rev (dropWhile (\<lambda>x. x = c) (rev s))"

definition b64encode :: "bytes \<Rightarrow> string" where
  "b64encode bs = rstrip_char (CHR ''='') (b64_full bs)"

text \<open>The value of a character of the alphabet; the safe variant stands for the plain one, which is accepted as well.\<close>

definition sextet_of :: "char \<Rightarrow> nat option" where
  "sextet_of c =
     (if is_upper c then Some (code_of c - 65) else if is_lower c then Some (code_of c - 97 + 26)
      else if is_digit c then Some (code_of c - 48 + 52)
      else if c \<in> {CHR ''-'', CHR ''+''} then Some 62 else if c \<in> {CHR ''_'', CHR ''/''} then Some 63 else None)"

text \<open>
  The decoder keeps its position in the group of four, the bits left over and the pads it has seen. Characters that are not in
  the alphabet are passed over; the pads that complete a group end the input.
\<close>

fun a2b :: "nat \<Rightarrow> nat \<Rightarrow> nat \<Rightarrow> string \<Rightarrow> bytes option" where
  "a2b q left pads [] = (if q = 0 then Some [] else None)"
| "a2b q left pads (c # cs) =
     (if c = CHR ''='' then
        (if 2 \<le> q then (if 4 \<le> q + (pads + 1) then Some [] else a2b q left (pads + 1) cs) else a2b q left pads cs)
      else (case sextet_of c of
          None \<Rightarrow> a2b q left pads cs
        | Some v \<Rightarrow>
            (if q = 0 then a2b 1 v 0 cs
             else if q = 1 then map_option (Cons (word_of_nat (left * 4 + v div 16))) (a2b 2 (v mod 16) 0 cs)
             else if q = 2 then map_option (Cons (word_of_nat (left * 16 + v div 4))) (a2b 3 (v mod 4) 0 cs)
             else map_option (Cons (word_of_nat (left * 64 + v))) (a2b 0 0 0 cs))))"

definition is_ascii :: "char \<Rightarrow> bool" where
  "is_ascii c \<longleftrightarrow> code_of c < 128"

definition b64decode :: "string \<Rightarrow> bytes res" where
  "b64decode s =
     (if \<not> list_all is_ascii s then Inl (ValueError ''string argument should contain only ASCII characters'')
      else (case a2b 0 0 0 (s @ replicate (nat ((- int (length s)) mod 4)) (CHR ''='')) of
          None \<Rightarrow> Inl (ValueError ''Incorrect padding'') | Some bs \<Rightarrow> Inr bs))"

section \<open>Sessions\<close>

record webapp_identity =
  wi_user_id :: int
  wi_username :: json
  wi_first_name :: json
  wi_last_name :: json

record webapp_session =
  ws_access_token :: string
  ws_user :: webapp_identity
  ws_expires_in :: int

record webapp_env =
  we_hmac :: "bytes \<Rightarrow> bytes \<Rightarrow> bytes"
  we_loads :: "string \<Rightarrow> json option"
  we_app_secret :: "string option"
  we_bot_token :: "string option"
  we_max_age :: int

definition text_of_bytes :: "bytes \<Rightarrow> string" where
  "text_of_bytes bs = map (\<lambda>b. char_of (unat b)) bs"

definition signing_secret :: "webapp_env \<Rightarrow> bytes res" where
  "signing_secret E =
     (case we_app_secret E of
        Some k \<Rightarrow> Inr (ascii_bytes k)
      | None \<Rightarrow> (case we_bot_token E of
          Some k \<Rightarrow> Inr (ascii_bytes k)
        | None \<Rightarrow> Inl (ValueError ''APP_SECRET_KEY or TELEGRAM_BOT_TOKEN is required for WebApp tokens.'')))"

definition session_payload :: "int \<Rightarrow> int \<Rightarrow> string" where
  "session_payload user expires_at = str_int user @ ''.'' @ str_int expires_at"

definition issue_session :: "webapp_env \<Rightarrow> webapp_identity \<Rightarrow> int \<Rightarrow> int \<Rightarrow> webapp_session res" where
  "issue_session E user expires_in now =
     res_bind (signing_secret E) (\<lambda>secret.
       (let p = ascii_bytes (session_payload (wi_user_id user) (now + expires_in)) in
        Inr \<lparr>ws_access_token = join ''.'' [b64encode p, b64encode (we_hmac E secret p)], ws_user = user, ws_expires_in = expires_in\<rparr>))"

text \<open>\<open>s.split(".", maxsplit=1)\<close> into two names.\<close>

definition two_parts :: "string \<Rightarrow> (string \<times> string) res" where
  "two_parts s = (case split_n (CHR ''.'') 1 s of [a, b] \<Rightarrow> Inr (a, b) | _ \<Rightarrow> Inl (ValueError ''not enough values to unpack''))"

definition int_part :: "string \<Rightarrow> int res" where
  "int_part s = (case py_int s of None \<Rightarrow> Inl (ValueError ''invalid literal for int()'') | Some n \<Rightarrow> Inr n)"

definition read_token :: "string \<Rightarrow> (bytes \<times> bytes \<times> int \<times> int) res" where
  "read_token token =
     res_bind (two_parts token) (\<lambda>(payload_part, signature_part).
     res_bind (b64decode payload_part) (\<lambda>p.
     res_bind (b64decode signature_part) (\<lambda>signature.
     res_bind (two_parts (text_of_bytes p)) (\<lambda>(user_text, expires_text).
     res_bind (int_part user_text) (\<lambda>user.
     res_bind (int_part expires_text) (\<lambda>expires_at. Inr (p, signature, user, expires_at)))))))"

definition verify_session :: "webapp_env \<Rightarrow> int \<Rightarrow> string \<Rightarrow> webapp_identity res" where
  "verify_session E now token =
     (case read_token token of
        Inl _ \<Rightarrow> Inl (ValueError ''WebApp access token is malformed.'')
      | Inr (p, signature, user, expires_at) \<Rightarrow>
          res_bind (signing_secret E) (\<lambda>secret.
            if we_hmac E secret p \<noteq> signature then Inl (ValueError ''WebApp access token is invalid.'')
            else if user \<le> 0 \<or> expires_at \<le> now then Inl (ValueError ''WebApp access token has expired.'')
            else Inr \<lparr>wi_user_id = user, wi_username = JNull, wi_first_name = JNull, wi_last_name = JNull\<rparr>))"

section \<open>Init data\<close>

text \<open>\<open>unquote(s.replace("+", " "))\<close>.\<close>

fun unquote :: "string \<Rightarrow> string" where
  "unquote [] = []"
| "unquote (c # cs) =
     (if c = CHR ''%'' then
        (case cs of
           a # b # rest \<Rightarrow>
             (case (hex_val a, hex_val b) of
                (Some x, Some y) \<Rightarrow> char_of (16 * x + y) # unquote rest
              | _ \<Rightarrow> c # unquote cs)
         | _ \<Rightarrow> c # unquote cs)
      else c # unquote cs)"

definition unquote_plus :: "string \<Rightarrow> string" where
  "unquote_plus s = unquote (map (\<lambda>c. if c = CHR ''+'' then CHR 0x20 else c) s)"

text \<open>\<open>parse_qsl(s, keep_blank_values=True)\<close>.\<close>

definition parse_qsl :: "string \<Rightarrow> (string \<times> string) list" where
  "parse_qsl s =
     map (\<lambda>part. case split_n (CHR ''='') 1 part of
         [k] \<Rightarrow> (unquote_plus k, []) | k # v # _ \<Rightarrow> (unquote_plus k, unquote_plus v) | [] \<Rightarrow> ([], []))
       (filter (\<lambda>part. part \<noteq> []) (split_all (CHR ''&'') s))"

text \<open>\<open>hexdigest\<close>.\<close>

definition hex_digit :: "nat \<Rightarrow> char" where
  "hex_digit n = (if n < 10 then char_of (48 + n) else char_of (87 + n))"

definition hex_text :: "bytes \<Rightarrow> string" where
  "hex_text bs = concat (map (\<lambda>b. [hex_digit (unat b div 16), hex_digit (unat b mod 16)]) bs)"

definition data_check_string :: "(string, string) dict \<Rightarrow> string" where
  "data_check_string fs =
     join [CHR 0x0A] (map (\<lambda>k. k @ ''='' @ the (dict_get fs k)) (py_sort (\<lambda>k. k) (dict_keys fs)))"

definition init_data_hash :: "webapp_env \<Rightarrow> string \<Rightarrow> (string, string) dict \<Rightarrow> string" where
  "init_data_hash E bot_token fs =
     hex_text (we_hmac E (we_hmac E (ascii_bytes ''WebAppData'') (ascii_bytes bot_token)) (ascii_bytes (data_check_string fs)))"

text \<open>The moment, the user object and the id of the user, when all of them are there and readable.\<close>

definition init_data_user :: "webapp_env \<Rightarrow> (string, string) dict \<Rightarrow> (int \<times> (string, json) dict \<times> int) option" where
  "init_data_user E fs =
     (case (dict_get fs ''auth_date'', dict_get fs ''user'') of
        (Some d, Some u) \<Rightarrow>
          (case (py_int d, we_loads E u) of
             (Some auth_date, Some (JObj raw)) \<Rightarrow>
               (case dict_get raw ''id'' of
                  None \<Rightarrow> None
                | Some j \<Rightarrow> (case json_int j of Inl _ \<Rightarrow> None | Inr user \<Rightarrow> Some (auth_date, raw, user)))
           | _ \<Rightarrow> None)
      | _ \<Rightarrow> None)"

definition authenticate :: "webapp_env \<Rightarrow> int \<Rightarrow> string \<Rightarrow> webapp_identity res" where
  "authenticate E now init_data =
     (let given = fold (\<lambda>(k, v) d. dict_put k v d) (parse_qsl init_data) [];
          received = (case dict_get given ''hash'' of None \<Rightarrow> [] | Some h \<Rightarrow> h);
          fs = dict_pop ''hash'' given in
      if received = [] then Inl (ValueError ''Telegram WebApp init data is missing its hash.'')
      else (case we_bot_token E of
          None \<Rightarrow> Inl (ValueError ''Telegram bot token is not configured.'')
        | Some bot_token \<Rightarrow>
            if init_data_hash E bot_token fs \<noteq> received
            then Inl (ValueError ''Telegram WebApp init data signature is invalid.'')
            else (case init_data_user E fs of
                None \<Rightarrow> Inl (ValueError ''Telegram WebApp init data is incomplete.'')
              | Some (auth_date, raw, user) \<Rightarrow>
                  if user \<le> 0 \<or> we_max_age E < now - auth_date
                  then Inl (ValueError ''Telegram WebApp init data has expired.'')
                  else Inr \<lparr>wi_user_id = user, wi_username = get_or raw ''username'' JNull,
                    wi_first_name = get_or raw ''first_name'' JNull, wi_last_name = get_or raw ''last_name'' JNull\<rparr>)))"

section \<open>Decoding what was encoded\<close>

lemma sextet_char_facts:
  assumes "n < 64"
  shows "sextet_of (sextet_char n) = Some n" "sextet_char n \<noteq> CHR ''=''" "is_ascii (sextet_char n)" "sextet_char n \<noteq> CHR ''.''"
proof -
  have codes: "code_of CHR ''='' = 61" "code_of CHR ''.'' = 46" "code_of CHR ''-'' = 45" "code_of CHR ''_'' = 95"
    by (simp_all add: code_of_def)
  have code: "code_of (sextet_char n) =
      (if n < 26 then 65 + n else if n < 52 then 71 + n else if n < 62 then n - 4 else if n = 62 then 45 else 95)"
    using assms by (auto simp: code_of_char_of codes)
  show "sextet_char n \<noteq> CHR ''=''" "sextet_char n \<noteq> CHR ''.''" "is_ascii (sextet_char n)"
    using assms code codes by (auto simp: is_ascii_def split: if_splits simp del: sextet_char.simps)
  consider "n < 62" | "n = 62" | "n = 63" using assms by linarith
  then show "sextet_of (sextet_char n) = Some n"
  proof cases
    case 1
    then show ?thesis
      using code by (auto simp: sextet_of_def is_upper_def is_lower_def is_digit_def split: if_splits simp del: sextet_char.simps)
  qed (simp_all add: sextet_of_def is_upper_def is_lower_def is_digit_def codes)
qed

declare sextet_char.simps [simp del]

lemma a2b_sextet:
  assumes "v < 64"
  shows "a2b 0 l p (sextet_char v # cs) = a2b 1 v 0 cs"
    "a2b 1 l p (sextet_char v # cs) = map_option (Cons (word_of_nat (l * 4 + v div 16))) (a2b 2 (v mod 16) 0 cs)"
    "a2b 2 l p (sextet_char v # cs) = map_option (Cons (word_of_nat (l * 16 + v div 4))) (a2b 3 (v mod 4) 0 cs)"
    "a2b 3 l p (sextet_char v # cs) = map_option (Cons (word_of_nat (l * 64 + v))) (a2b 0 0 0 cs)"
  using sextet_char_facts [OF assms] by simp_all

lemma unat_byte: "unat (a :: 8 word) < 256"
  using unsigned_less [of a, where ?'a = nat] by simp

lemma quotient_and_rest: "k < n \<Longrightarrow> (m * n + k) div n = m" "k < n \<Longrightarrow> (m * n + k) mod n = k" for k m n :: nat
  by simp_all

lemma byte_parts:
  fixes a b c :: "8 word"
  shows "unat a div 4 < 64" "unat a mod 4 * 16 < 64" "unat a mod 4 * 16 + unat b div 16 < 64" "unat b mod 16 * 4 < 64"
    "unat b mod 16 * 4 + unat c div 64 < 64" "unat c mod 64 < 64"
    "word_of_nat (unat a div 4 * 4 + (unat a mod 4 * 16) div 16) = a"
    "word_of_nat (unat a div 4 * 4 + (unat a mod 4 * 16 + unat b div 16) div 16) = a"
    "word_of_nat ((unat a mod 4 * 16 + unat b div 16) mod 16 * 16 + (unat b mod 16 * 4) div 4) = b"
    "word_of_nat ((unat a mod 4 * 16 + unat b div 16) mod 16 * 16 + (unat b mod 16 * 4 + unat c div 64) div 4) = b"
    "word_of_nat ((unat b mod 16 * 4 + unat c div 64) mod 4 * 64 + unat c mod 64) = c"
proof -
  have lt: "unat a < 256" "unat b < 256" "unat c < 256" by (rule unat_byte)+
  then show "unat a div 4 < 64" "unat a mod 4 * 16 < 64" "unat b mod 16 * 4 < 64" "unat c mod 64 < 64"
    "unat a mod 4 * 16 + unat b div 16 < 64" "unat b mod 16 * 4 + unat c div 64 < 64"
    by linarith+
  have "unat a div 4 * 4 + (unat a mod 4 * 16) div 16 = unat a"
    "unat a div 4 * 4 + (unat a mod 4 * 16 + unat b div 16) div 16 = unat a"
    "(unat a mod 4 * 16 + unat b div 16) mod 16 * 16 + (unat b mod 16 * 4) div 4 = unat b"
    "(unat a mod 4 * 16 + unat b div 16) mod 16 * 16 + (unat b mod 16 * 4 + unat c div 64) div 4 = unat b"
    "(unat b mod 16 * 4 + unat c div 64) mod 4 * 64 + unat c mod 64 = unat c"
    using lt by (simp_all add: quotient_and_rest)
  then show "word_of_nat (unat a div 4 * 4 + (unat a mod 4 * 16) div 16) = a"
    "word_of_nat (unat a div 4 * 4 + (unat a mod 4 * 16 + unat b div 16) div 16) = a"
    "word_of_nat ((unat a mod 4 * 16 + unat b div 16) mod 16 * 16 + (unat b mod 16 * 4) div 4) = b"
    "word_of_nat ((unat a mod 4 * 16 + unat b div 16) mod 16 * 16 + (unat b mod 16 * 4 + unat c div 64) div 4) = b"
    "word_of_nat ((unat b mod 16 * 4 + unat c div 64) mod 4 * 64 + unat c mod 64) = c"
    by simp_all
qed

lemma a2b_pads:
  "a2b 2 l 0 [CHR ''='', CHR ''=''] = Some []" "a2b 3 l 0 [CHR ''=''] = Some []"
  by simp_all

lemma a2b_full: "a2b 0 0 0 (b64_full bs) = Some bs"
proof (induction bs rule: b64_full.induct)
  case (2 a)
  show ?case by (simp only: b64_full.simps a2b_sextet byte_parts a2b_pads option.simps)
next
  case (3 a b)
  show ?case by (simp only: b64_full.simps a2b_sextet byte_parts a2b_pads option.simps)
next
  case (4 a b c bs)
  then show ?case by (simp only: b64_full.simps append.simps a2b_sextet byte_parts option.simps)
qed simp


lemma sextet_char_not_dot: "n < 64 \<Longrightarrow> CHR ''.'' \<noteq> sextet_char n"
  using sextet_char_facts(4) by fastforce

lemma b64_full_shape:
  "\<exists>core k. b64_full bs = core @ replicate k (CHR ''='') \<and> k < 4 \<and> (length core + k) mod 4 = 0 \<and>
     list_all is_ascii core \<and> CHR ''.'' \<notin> set core \<and> (core = [] \<or> last core \<noteq> CHR ''='')"
proof (induction bs rule: b64_full.induct)
  case (2 a)
  show ?case
    by (rule exI [of _ "[sextet_char (unat a div 4), sextet_char (unat a mod 4 * 16)]"], rule exI [of _ 2])
      (simp add: sextet_char_facts sextet_char_not_dot byte_parts numeral_2_eq_2)
next
  case (3 a b)
  show ?case
    by (rule exI [of _ "[sextet_char (unat a div 4), sextet_char (unat a mod 4 * 16 + unat b div 16), sextet_char (unat b mod 16 * 4)]"],
        rule exI [of _ 1])
      (simp add: sextet_char_facts sextet_char_not_dot byte_parts)
next
  case (4 a b c bs)
  then obtain core k where core: "b64_full bs = core @ replicate k (CHR ''='')" "k < 4" "(length core + k) mod 4 = 0"
    "list_all is_ascii core" "CHR ''.'' \<notin> set core" "core = [] \<or> last core \<noteq> CHR ''=''" by metis
  let ?four = "[sextet_char (unat a div 4), sextet_char (unat a mod 4 * 16 + unat b div 16), sextet_char (unat b mod 16 * 4 + unat c div 64),
      sextet_char (unat c mod 64)]"
  have four: "list_all is_ascii ?four" "CHR ''.'' \<notin> set ?four" "last ?four \<noteq> CHR ''=''"
    by (simp_all add: sextet_char_facts sextet_char_not_dot byte_parts)
  have "length (?four @ core) + k = (length core + k) + 4" by simp
  then have "(length (?four @ core) + k) mod 4 = 0" using core(3) by simp
  moreover have "b64_full (a # b # c # bs) = (?four @ core) @ replicate k (CHR ''='')" using core(1) by simp
  moreover have "?four @ core = [] \<or> last (?four @ core) \<noteq> CHR ''=''"
    using core(6) four(3) by (cases "core = []") (simp_all only: last_append append_Nil2 if_True if_False simp_thms)
  ultimately show ?case
    using core(2,4,5) four(1,2) by (metis list_all_append set_append Un_iff)
qed (auto intro: exI [of _ 0])

lemma rstrip_char_pads: "core = [] \<or> last core \<noteq> c \<Longrightarrow> rstrip_char c (core @ replicate k c) = core"
proof -
  assume core: "core = [] \<or> last core \<noteq> c"
  have "dropWhile (\<lambda>x. x = c) (replicate k c @ rev core) = dropWhile (\<lambda>x. x = c) (rev core)"
    by (induction k) simp_all
  also have "\<dots> = rev core"
    using core by (cases "rev core") (auto simp: last_rev hd_rev dropWhile_eq_self_iff)
  finally show ?thesis by (simp add: rstrip_char_def)
qed

lemma missing_pads: "k < 4 \<Longrightarrow> (n + k) mod 4 = 0 \<Longrightarrow> nat ((- int n) mod 4) = k" for n k :: nat
proof -
  assume k: "k < 4" and "(n + k) mod 4 = 0"
  then obtain m where "n + k = 4 * m" by fastforce
  then have "- int n = int k + 4 * (- int m)" by linarith
  then have "(- int n) mod 4 = int k mod 4" by (simp only: mod_mult_self2)
  with k show ?thesis by simp
qed

lemma b64encode_chars: "list_all is_ascii (b64encode bs)" "CHR ''.'' \<notin> set (b64encode bs)"
  using b64_full_shape [of bs] rstrip_char_pads unfolding b64encode_def by metis+

lemma b64decode_encode: "b64decode (b64encode bs) = Inr bs"
proof -
  obtain core k where core: "b64_full bs = core @ replicate k (CHR ''='')" "k < 4" "(length core + k) mod 4 = 0"
    "list_all is_ascii core" "core = [] \<or> last core \<noteq> CHR ''=''"
    using b64_full_shape [of bs] by metis
  have "b64encode bs = core" using core by (simp add: b64encode_def rstrip_char_pads)
  moreover have "nat ((- int (length core)) mod 4) = k" using core by (intro missing_pads) simp_all
  ultimately show ?thesis
    using core a2b_full [of bs] by (simp add: b64decode_def)
qed


section \<open>Properties\<close>

lemma text_of_ascii_bytes [simp]: "text_of_bytes (ascii_bytes s) = s"
proof -
  have "char_of (unat (word_of_nat (of_char c) :: 8 word)) = c" for c :: char
    by (simp add: unat_of_nat)
  then show ?thesis by (simp add: text_of_bytes_def ascii_bytes_def comp_def)
qed

lemma two_parts_join: "CHR ''.'' \<notin> set a \<Longrightarrow> two_parts (a @ CHR ''.'' # b) = Inr (a, b)"
  using split_n_append [of "CHR ''.''" a 0 b] by (simp add: two_parts_def split_n_0)

lemma two_parts_payload: "two_parts (session_payload user expires) = Inr (str_int user, str_int expires)"
proof -
  have "CHR ''.'' \<notin> set (str_int user)"
    using str_nat_digits [of "nat user"] str_nat_digits [of "nat (- user)"]
    by (auto simp: str_int_def is_digit_def code_of_def split: if_splits)
  then show ?thesis by (simp add: session_payload_def two_parts_join)
qed

lemma read_token_issued:
  "read_token (b64encode (ascii_bytes (session_payload user expires)) @ CHR ''.'' # b64encode signature) =
     Inr (ascii_bytes (session_payload user expires), signature, user, expires)"
  by (simp add: read_token_def two_parts_join b64encode_chars b64decode_encode two_parts_payload int_part_def)

text \<open>
  C27. The token of a session names its user until it expires, and nothing afterwards.
\<close>

theorem session_token_round_trip:
  assumes "issue_session E user expires_in now = Inr ses" and "0 < wi_user_id user"
  shows "verify_session E later (ws_access_token ses) =
    (if later < now + expires_in
     then Inr \<lparr>wi_user_id = wi_user_id user, wi_username = JNull, wi_first_name = JNull, wi_last_name = JNull\<rparr>
     else Inl (ValueError ''WebApp access token has expired.''))"
proof -
  obtain secret where secret: "signing_secret E = Inr secret"
    using assms(1) by (auto simp: issue_session_def elim: res_bind_InrE)
  let ?p = "ascii_bytes (session_payload (wi_user_id user) (now + expires_in))"
  have "ws_access_token ses = b64encode ?p @ CHR ''.'' # b64encode (we_hmac E secret ?p)"
    using assms(1) by (auto simp: issue_session_def secret Let_def)
  then show ?thesis
    using assms(2) by (simp add: verify_session_def read_token_issued secret)
qed

text \<open>What HMAC promises of one token: its signature was made by the service, for one of the sessions it issued.\<close>

definition not_forged :: "webapp_env \<Rightarrow> (int \<times> int) list \<Rightarrow> string \<Rightarrow> bool" where
  "not_forged E issued token \<longleftrightarrow>
     (case (read_token token, signing_secret E) of
        (Inr (p, signature, _), Inr secret) \<Rightarrow>
          we_hmac E secret p = signature \<longrightarrow> list_ex (\<lambda>(user, expires). p = ascii_bytes (session_payload user expires)) issued
      | _ \<Rightarrow> True)"

lemma verified_issued:
  assumes "not_forged E issued token" and "verify_session E now token = Inr w"
  shows "\<exists>expires. (wi_user_id w, expires) \<in> set issued \<and> now < expires \<and> 0 < wi_user_id w"
proof -
  from assms(2) obtain p signature user expires secret where
    t: "read_token token = Inr (p, signature, user, expires)" "signing_secret E = Inr secret" "we_hmac E secret p = signature"
      "0 < user" "now < expires" "wi_user_id w = user"
    by (auto simp: verify_session_def split: sum.splits if_splits prod.splits elim!: res_bind_InrE)
  then obtain u e where i: "(u, e) \<in> set issued" "p = ascii_bytes (session_payload u e)"
    using assms(1) by (auto simp: not_forged_def list_ex_iff)
  have "two_parts (text_of_bytes p) = Inr (str_int u, str_int e)" by (simp add: i two_parts_payload)
  then have "u = user \<and> e = expires"
    using t(1) by (auto simp: read_token_def int_part_def elim!: res_bind_InrE)
  with i t show ?thesis by auto
qed

text \<open>
  C28. Unless HMAC is broken, whoever a token is accepted for was issued a session that has not expired yet.
\<close>

theorem verified_session_was_issued:
  assumes "not_forged E issued token" and "verify_session E now token = Inr w"
  shows "\<exists>expires. (wi_user_id w, expires) \<in> set issued \<and> now < expires \<and> 0 < wi_user_id w"
  using assms by (rule verified_issued)

text \<open>Init data that carries the signature of Telegram and names a user: Telegram made it for that user.\<close>

definition signed_init_data :: "webapp_env \<Rightarrow> string \<Rightarrow> int \<Rightarrow> bool" where
  "signed_init_data E init_data user \<longleftrightarrow>
     (let given = fold (\<lambda>(k, v) d. dict_put k v d) (parse_qsl init_data) []; fs = dict_pop ''hash'' given in
      \<exists>bot_token hash auth_date raw. we_bot_token E = Some bot_token \<and> dict_get given ''hash'' = Some hash \<and> hash \<noteq> [] \<and>
        init_data_hash E bot_token fs = hash \<and> init_data_user E fs = Some (auth_date, raw, user))"

lemma authenticated_signed: "authenticate E now d = Inr w \<Longrightarrow> signed_init_data E d (wi_user_id w)"
  by (auto simp: authenticate_def signed_init_data_def Let_def split: if_splits option.splits)

text \<open>Tokens are not unique: characters outside the alphabet are passed over.\<close>

lemma a2b_junk: "sextet_of c = None \<Longrightarrow> c \<noteq> CHR ''='' \<Longrightarrow> a2b q l p (s @ c # t) = a2b q l p (s @ t)"
  by (induction s arbitrary: q l p) (auto split: option.splits)

lemma b64decode_junk: "b64decode (s @ ''!!!!'') = b64decode s"
proof -
  have "sextet_of CHR ''!'' = None" by code_simp
  moreover have "(- 4 - int (length s)) mod 4 = (- int (length s)) mod 4" by presburger
  moreover have "is_ascii CHR ''!''" by code_simp
  ultimately show ?thesis by (simp add: b64decode_def a2b_junk)
qed

lemma token_spellings:
  assumes "issue_session E user expires_in now = Inr ses"
  shows "verify_session E later (ws_access_token ses @ ''!!!!'') = verify_session E later (ws_access_token ses)"
proof -
  obtain p q where "ws_access_token ses = b64encode p @ CHR ''.'' # b64encode q"
    using assms by (auto simp: issue_session_def Let_def elim!: res_bind_InrE)
  then have "read_token (ws_access_token ses @ ''!!!!'') = read_token (ws_access_token ses)"
    by (simp add: read_token_def two_parts_join b64encode_chars b64decode_junk)
  then show ?thesis by (simp add: verify_session_def)
qed


lemma two_parts_prefix: "two_parts s = Inr (a, b) \<Longrightarrow> s = a @ CHR ''.'' # b"
  using split_n_join [of "CHR ''.''" 1 s] by (auto simp: two_parts_def split: list.splits)

section \<open>The order of the parameters\<close>

text \<open>A parameter as it is sent.\<close>

definition query_part :: "string \<times> string \<Rightarrow> string" where
  "query_part x = fst x @ CHR ''='' # snd x"

definition plain_part :: "string \<times> string \<Rightarrow> bool" where
  "plain_part x \<longleftrightarrow> CHR ''&'' \<notin> set (query_part x) \<and> CHR ''='' \<notin> set (fst x)"

lemma split_all_join:
  "xs \<noteq> [] \<Longrightarrow> list_all (\<lambda>x. sep \<notin> set x) xs \<Longrightarrow> split_all sep (join [sep] xs) = xs"
  by (induction "[sep]" xs rule: join.induct) (simp_all add: split_all_append split_all_none)

lemma parse_qsl_join:
  assumes "xs \<noteq> []" "list_all plain_part xs"
  shows "parse_qsl (join ''&'' (map query_part xs)) = map (\<lambda>(k, v). (unquote_plus k, unquote_plus v)) xs"
proof -
  have "split_all (CHR ''&'') (join ''&'' (map query_part xs)) = map query_part xs"
    using assms by (intro split_all_join) (auto simp: list_all_iff plain_part_def)
  moreover have "split_n (CHR ''='') 1 (query_part x) = [fst x, snd x]" if "plain_part x" for x
    using that split_n_append [of "CHR ''=''" "fst x" 0 "snd x"] by (simp add: query_part_def plain_part_def split_n_0)
  ultimately show ?thesis
    using assms(2) by (auto simp: parse_qsl_def query_part_def list_all_iff comp_def filter_map split: prod.splits)
qed

lemma fold_put_get: "dict_get (fold (\<lambda>(k, v) d. dict_put k v d) xs d) k =
    (case dict_get (rev xs) k of None \<Rightarrow> dict_get d k | Some v \<Rightarrow> Some v)"
  by (induction xs arbitrary: d) (auto simp: dict_simps map_add_def split: option.splits)


lemma fold_put_ok: "dict_ok d \<Longrightarrow> dict_ok (fold (\<lambda>(k, v) d. dict_put k v d) xs d)"
  by (induction xs arbitrary: d) auto

lemma same_lookups_same_keys:
  assumes "dict_ok a" "dict_ok b" "dict_get a = dict_get b"
  shows "py_sort (\<lambda>k. k) (dict_keys a) = py_sort (\<lambda>k. k) (dict_keys b)"
proof -
  have "set (dict_keys a) = set (dict_keys b)"
    using assms(3) by (metis dom_map_of_conv_image_fst list.set_map)
  then show ?thesis
    using assms(1,2) by (simp add: py_sort_def dict_ok_def sorted_distinct_set_unique)
qed

lemma data_check_string_cong:
  "dict_ok a \<Longrightarrow> dict_ok b \<Longrightarrow> dict_get a = dict_get b \<Longrightarrow> data_check_string a = data_check_string b"
  using same_lookups_same_keys [of a b] by (simp add: data_check_string_def)

lemma map_of_permuted:
  "distinct (map fst xs) \<Longrightarrow> mset ys = mset xs \<Longrightarrow> map_of (rev ys) = map_of (rev xs)"
proof (rule ext)
  fix k
  assume d: "distinct (map fst xs)" and m: "mset ys = mset xs"
  then have "mset (map fst ys) = mset (map fst xs)" by simp
  then have "distinct (map fst ys)" using d mset_eq_imp_distinct_iff by blast
  then have "distinct (map fst (rev ys))" "distinct (map fst (rev xs))" using d by (simp_all flip: rev_map)
  from map_of_eq_Some_iff [OF this(1)] map_of_eq_Some_iff [OF this(2)]
  have "map_of (rev ys) k = Some v \<longleftrightarrow> map_of (rev xs) k = Some v" for v
    using mset_eq_setD [OF m] by simp
  then show "map_of (rev ys) k = map_of (rev xs) k" by (metis option.exhaust)
qed

text \<open>
  Telegram signs the parameters in the order of their names, so the order they are sent in is of no matter: for any
  rearrangement of parameters with different names the answer is the same.
\<close>

theorem init_data_order_irrelevant:
  assumes "xs \<noteq> []" and "list_all plain_part xs" and "distinct (map (\<lambda>x. unquote_plus (fst x)) xs)" and "mset ys = mset xs"
  shows "authenticate E now (join ''&'' (map query_part ys)) = authenticate E now (join ''&'' (map query_part xs))"
proof -
  let ?f = "\<lambda>(k, v). (unquote_plus k, unquote_plus v)"
  let ?D = "\<lambda>zs. fold (\<lambda>(k, v) d. dict_put k v d) (map ?f zs) []"
  have "set ys = set xs" using assms(4) by (rule mset_eq_setD)
  then have "ys \<noteq> []" "list_all plain_part ys" using assms(1,2) by (auto simp: list_all_iff)
  then have parse: "parse_qsl (join ''&'' (map query_part ys)) = map ?f ys" "parse_qsl (join ''&'' (map query_part xs)) = map ?f xs"
    using assms(1,2) by (simp_all add: parse_qsl_join)
  have "distinct (map fst (map ?f xs))" using assms(3) by (simp add: comp_def case_prod_unfold)
  moreover have "mset (map ?f ys) = mset (map ?f xs)" using assms(4) by simp
  ultimately have "map_of (rev (map ?f ys)) = map_of (rev (map ?f xs))" by (rule map_of_permuted)
  then have get: "dict_get (?D ys) = dict_get (?D xs)" by (intro ext) (simp add: fold_put_get)
  have ok: "dict_ok (?D ys)" "dict_ok (?D xs)" by (rule fold_put_ok, simp)+
  have pop: "dict_get (dict_pop ''hash'' (?D ys)) = dict_get (dict_pop ''hash'' (?D xs))"
    by (intro ext) (simp add: dict_simps get)
  then have "data_check_string (dict_pop ''hash'' (?D ys)) = data_check_string (dict_pop ''hash'' (?D xs))"
    using ok by (intro data_check_string_cong) simp_all
  then have "init_data_hash E k (dict_pop ''hash'' (?D ys)) = init_data_hash E k (dict_pop ''hash'' (?D xs))" for k
    by (simp add: init_data_hash_def)
  moreover have "init_data_user E (dict_pop ''hash'' (?D ys)) = init_data_user E (dict_pop ''hash'' (?D xs))"
    by (simp only: init_data_user_def pop)
  ultimately show ?thesis
    unfolding authenticate_def parse Let_def get by (simp only:)
qed

section \<open>Witnesses\<close>

definition sample_webapp :: webapp_env where
  "sample_webapp = \<lparr>we_hmac = (\<lambda>k m. take 4 (rev m @ k)), we_loads = (\<lambda>t. Some (JObj [(''id'', JNum 7)])), we_app_secret = Some ''s'',
     we_bot_token = Some ''t'', we_max_age = 86400\<rparr>"

definition sample_identity :: webapp_identity where
  "sample_identity = \<lparr>wi_user_id = 7, wi_username = JNull, wi_first_name = JNull, wi_last_name = JNull\<rparr>"

theorem session_token_round_trip_witness:
  "\<exists>ses. issue_session sample_webapp sample_identity 60 1000 = Inr ses \<and>
     verify_session sample_webapp 1059 (ws_access_token ses) = Inr sample_identity \<and>
     verify_session sample_webapp 1060 (ws_access_token ses) = Inl (ValueError ''WebApp access token has expired.'')"
proof -
  obtain ses where s: "issue_session sample_webapp sample_identity 60 1000 = Inr ses"
    by (simp add: issue_session_def signing_secret_def sample_webapp_def Let_def)
  with session_token_round_trip [OF s, of 1059] session_token_round_trip [OF s, of 1060] show ?thesis
    by (simp add: sample_identity_def)
qed

theorem verified_session_was_issued_witness:
  "\<exists>token. verify_session sample_webapp 1010 token = Inr sample_identity \<and> (\<exists>e. (7, e) \<in> set [(7, 1060 :: int)] \<and> 1010 < e)"
proof -
  let ?p = "ascii_bytes (session_payload 7 1060)"
  let ?t = "b64encode ?p @ CHR ''.'' # b64encode (we_hmac sample_webapp (ascii_bytes ''s'') ?p)"
  have r: "read_token ?t = Inr (?p, we_hmac sample_webapp (ascii_bytes ''s'') ?p, 7, 1060)" by (rule read_token_issued)
  have secret: "signing_secret sample_webapp = Inr (ascii_bytes ''s'')" by (simp add: signing_secret_def sample_webapp_def)
  have v: "verify_session sample_webapp 1010 ?t = Inr sample_identity"
    by (simp add: verify_session_def r secret sample_identity_def)
  have "not_forged sample_webapp [(7, 1060)] ?t" by (simp add: not_forged_def r secret)
  from verified_session_was_issued [OF this v] v show ?thesis by (auto simp: sample_identity_def)
qed

theorem init_data_order_irrelevant_witness:
  "authenticate E now (join ''&'' (map query_part [(''user'', ''x''), (''auth_date'', ''5''), (''hash'', ''00'')])) =
     authenticate E now (join ''&'' (map query_part [(''auth_date'', ''5''), (''hash'', ''00''), (''user'', ''x'')]))"
proof -
  let ?xs = "[(''auth_date'', ''5''), (''hash'', ''00''), (''user'', ''x'')]"
  have "list_all plain_part ?xs" "distinct (map (\<lambda>x. unquote_plus (fst x)) ?xs)" by code_simp+
  from init_data_order_irrelevant [OF _ this, of "[(''user'', ''x''), (''auth_date'', ''5''), (''hash'', ''00'')]"]
  show ?thesis by simp
qed

end
