(* ===== verification/EF_WebApp.thy ===== *)
theory EF_WebApp
  imports EF_WebAppAuth EF_Actors EF_NlpSearch EF_FilterBot EF_Referrals
begin

text \<open>
  The public routes (\<open>api/search.py\<close>, \<open>api/webapp.py\<close>): the search without login, and the Mini App with its tokens over
  the search, the free text search, the saved filters and the referrals. Reading a request into its typed parameters is
  FastAPI's; which services are configured, the clocks and the fresh identifiers are arguments.
\<close>

section \<open>Requests\<close>

text \<open>An \<open>EstateFlowError\<close> with its code, message and status, or any other exception, which no handler turns into an answer.\<close>

datatype api_error = Refused string string nat | Unhandled py_error

type_synonym 'a api = "api_error + 'a"

record webapp_app =
  wp_auth :: "webapp_env option"
  wp_search :: "announcement list option"
  wp_nlp :: "nlp_env option"
  wp_ask :: "string \<Rightarrow> nat \<Rightarrow> string \<Rightarrow> llm_answer"
  wp_has_filters :: bool
  wp_has_referrals :: bool
  wp_has_users :: bool
  wp_referral :: referral_config
  wp_filter_limit :: nat
  wp_activate :: "int \<Rightarrow> string \<Rightarrow> unit res"
  wp_search_key :: "search_criteria \<Rightarrow> string"
  wp_decimal :: "rat \<Rightarrow> string"
  wp_new_id :: string
  wp_clock :: int
  wp_time :: time

record webapp_state =
  wb_filters :: filter_store
  wb_users :: referral_state

definition webapp_unauthorized :: "string \<Rightarrow> api_error" where
  "webapp_unauthorized m = Refused ''webapp_unauthorized'' m 401"

definition auth_service :: "webapp_app \<Rightarrow> webapp_env api" where
  "auth_service A =
     (case wp_auth A of None \<Rightarrow> Inl (Refused ''webapp_auth_unavailable'' ''WebApp auth is not configured.'' 503) | Some E \<Rightarrow> Inr E)"

definition bearer_token :: "string option \<Rightarrow> string option" where
  "bearer_token header =
     (case header of
        None \<Rightarrow> None
      | Some h \<Rightarrow> if starts_with (lower h) ''bearer '' then Some (strip (drop 7 h)) else None)"

text \<open>Every error of the check of a token is a \<open>ValueError\<close>.\<close>

definition require_user :: "webapp_app \<Rightarrow> string option \<Rightarrow> webapp_identity api" where
  "require_user A header =
     (case bearer_token header of
        None \<Rightarrow> Inl (webapp_unauthorized ''WebApp authorization is required.'')
      | Some t \<Rightarrow>
          (case auth_service A of
             Inl e \<Rightarrow> Inl e
           | Inr E \<Rightarrow>
               (case verify_session E (wp_clock A) t of
                  Inl e \<Rightarrow> Inl (case e of ValueError m \<Rightarrow> webapp_unauthorized m | _ \<Rightarrow> Unhandled e)
                | Inr w \<Rightarrow> Inr w)))"

section \<open>Searching\<close>

record search_item =
  si_announcement_id :: string
  si_canonical :: canonical_listing
  si_description :: string
  si_source_count :: int
  si_source_url :: "string option"
  si_preview_url :: "string option"
  si_media_count :: nat

definition search_item_of :: "(string \<Rightarrow> string) \<Rightarrow> announcement \<Rightarrow> search_item" where
  "search_item_of shorten a =
     \<lparr>si_announcement_id = an_id a, si_canonical = an_canonical a, si_description = shorten (cl_description (an_canonical a)),
      si_source_count = an_source_count a, si_source_url = an_source_url a,
      si_preview_url = (case an_media a of [] \<Rightarrow> None | m # _ \<Rightarrow> Some (sm_storage_url m)), si_media_count = length (an_media a)\<rparr>"

definition shorten :: "string \<Rightarrow> nat \<Rightarrow> string" where
  "shorten v limit =
     (let stripped = collapse v in
      if length stripped \<le> limit then stripped else rstrip (take (limit - 1) stripped) @ ''...'')"

definition webapp_description :: "string \<Rightarrow> string" where
  "webapp_description v = take 240 (collapse v)"

definition search_service :: "webapp_app \<Rightarrow> announcement list api" where
  "search_service A =
     (case wp_search A of None \<Rightarrow> Inl (Refused ''search_unavailable'' ''Search service is not configured.'' 503) | Some repo \<Rightarrow> Inr repo)"

text \<open>The route of \<open>api/search.py\<close> leaves the errors of the criteria to the framework.\<close>

definition search_route :: "webapp_app \<Rightarrow> search_criteria \<Rightarrow> (search_item list \<times> search_metadata) api" where
  "search_route A c =
     (case search_service A of
        Inl e \<Rightarrow> Inl e
      | Inr repo \<Rightarrow>
          (case validate_criteria c of
             Inl e \<Rightarrow> Inl (Unhandled e)
           | Inr v \<Rightarrow> (case search_announcements v repo of (items, md) \<Rightarrow> Inr (map (search_item_of (\<lambda>d. shorten d 240)) items, md))))"

section \<open>The Mini App\<close>

definition authenticate_webapp :: "webapp_app \<Rightarrow> string \<Rightarrow> webapp_state \<Rightarrow> webapp_session api \<times> webapp_state" where
  "authenticate_webapp A init_data s =
     (case auth_service A of
        Inl e \<Rightarrow> (Inl e, s)
      | Inr E \<Rightarrow>
          (case res_bind (authenticate E (wp_clock A) init_data) (\<lambda>w. res_bind (issue_session E w 86400 (wp_clock A)) (\<lambda>t. Inr (w, t))) of
             Inl (ValueError m) \<Rightarrow> (Inl (Refused ''webapp_auth_failed'' m 401), s)
           | Inl e \<Rightarrow> (Inl (Unhandled e), s)
           | Inr (w, t) \<Rightarrow>
               if \<not> wp_has_users A then (Inr t, s)
               else (case register_or_touch (wp_time A) (wi_user_id w) (wb_users s) of
                   (Inl e, u) \<Rightarrow> (Inl (Unhandled e), s\<lparr>wb_users := u\<rparr>)
                 | (Inr _, u) \<Rightarrow> (Inr t, s\<lparr>wb_users := u\<rparr>))))"

record nlp_tag =
  nt_key :: string
  nt_label :: string
  nt_value :: string
  nt_applied :: bool

definition applied_tag :: "string \<Rightarrow> string \<Rightarrow> string \<Rightarrow> nlp_tag" where
  "applied_tag k l v = \<lparr>nt_key = k, nt_label = l, nt_value = v, nt_applied = True\<rparr>"

definition audience_labels :: "(string, string) dict" where
  "audience_labels = [(''family'', ''Yosh oila''), (''students'', ''Talabalar''), (''foreigners'', ''Chet elliklar'')]"

definition condition_text :: "string \<Rightarrow> string" where
  "condition_text t =
     (if starts_with t ''additional_districts:''
      then join '', '' (split_all (CHR '','') (drop (length ''additional_districts:'') t)) else t)"

definition nlp_tags :: "webapp_app \<Rightarrow> nlp_extraction \<Rightarrow> nlp_tag list" where
  "nlp_tags A x =
     (let c = nx_criteria x in
      map (applied_tag ''district'' ''Tuman'') (sc_districts c) @
      (case sc_rooms c of None \<Rightarrow> [] | Some r \<Rightarrow> [applied_tag ''rooms'' ''Xona'' (str_int r @ '' xona'')]) @
      (case sc_max_price c of None \<Rightarrow> [] | Some p \<Rightarrow> [applied_tag ''max_price'' ''Budjet'' (wp_decimal A p @ '' gacha'')]) @
      (if sc_include_per_person c then [applied_tag ''include_per_person'' ''Narx turi'' ''Bir kishilik ham''] else []) @
      (case sc_renovation_level c of None \<Rightarrow> [] | Some l \<Rightarrow> [applied_tag ''renovation_level'' ''Remont'' (level_text l)]) @
      (case sc_audience_tag c of
         None \<Rightarrow> []
       | Some t \<Rightarrow> if t = [] then []
           else [applied_tag ''audience_tag'' ''Kim uchun'' (case dict_get audience_labels t of None \<Rightarrow> t | Some l \<Rightarrow> l)]) @
      map (\<lambda>u. \<lparr>nt_key = ''condition'', nt_label = ''Qo'' @ [CHR 0x27] @ ''shimcha shart'', nt_value = condition_text u, nt_applied = False\<rparr>)
        (nx_unapplied_conditions x))"

definition webapp_nlp_search ::
  "webapp_app \<Rightarrow> string \<Rightarrow> (string \<times> search_criteria \<times> nlp_tag list \<times> rat) api" where
  "webapp_nlp_search A query =
     (case wp_nlp A of
        None \<Rightarrow> Inl (Refused ''nlp_search_unavailable'' ''NLP qidiruv xizmati hozircha mavjud emas.'' 503)
      | Some N \<Rightarrow>
          (case validate_nlp_query_text query of
             Inl e \<Rightarrow> Inl (Refused ''invalid_nlp_query'' (case e of ValueError m \<Rightarrow> m | _ \<Rightarrow> []) 422)
           | Inr q \<Rightarrow>
               (case nlp_extract N (wp_ask A) q of
                  Inl e \<Rightarrow> Inl (if e = NLP_EXTRACTION_FAILED
                    then Refused ''nlp_search_failed'' (''Qidiruv matnidan mezonlarni ajratib bo'' @ [CHR 0x27] @ ''lmadi. Qayta urinib ko'' @ [CHR 0x27] @ ''ring.'') 502
                    else Unhandled e)
                | Inr x \<Rightarrow> Inr (q, nx_criteria x, nlp_tags A x, nx_confidence x))))"

text \<open>The search of a user counts as an action of the referral programme; its key is the hash of the criteria.\<close>

definition webapp_search ::
  "webapp_app \<Rightarrow> int \<Rightarrow> search_criteria \<Rightarrow> webapp_state \<Rightarrow> (search_item list \<times> search_metadata) api \<times> webapp_state" where
  "webapp_search A user c s =
     (case search_service A of
        Inl e \<Rightarrow> (Inl e, s)
      | Inr repo \<Rightarrow>
          (case validate_criteria c of
             Inl e \<Rightarrow> (Inl (Refused ''invalid_search'' (case e of ValueError m \<Rightarrow> m | ValidationError m \<Rightarrow> m | _ \<Rightarrow> []) 422), s)
           | Inr v \<Rightarrow>
               (case search_announcements v repo of
                  (items, md) \<Rightarrow>
                    (let answer = (map (search_item_of webapp_description) items, md) in
                     if \<not> wp_has_referrals A then (Inr answer, s)
                     else (case record_qualifying_action (wp_referral A) (wp_time A) user ''search'' (wp_search_key A v) (wb_users s) of
                         (Inl e, u) \<Rightarrow> (Inl (Unhandled e), s\<lparr>wb_users := u\<rparr>)
                       | (Inr _, u) \<Rightarrow> (Inr answer, s\<lparr>wb_users := u\<rparr>))))))"

definition webapp_detail :: "webapp_app \<Rightarrow> string \<Rightarrow> announcement api" where
  "webapp_detail A k =
     (case search_service A of
        Inl e \<Rightarrow> Inl e
      | Inr repo \<Rightarrow>
          (case search_get k repo of
             None \<Rightarrow> Inl (Refused ''announcement_not_found'' ''Announcement not found.'' 404)
           | Some a \<Rightarrow> Inr a))"

definition filter_error :: "py_error \<Rightarrow> api_error" where
  "filter_error e =
     (case e of
        KeyError _ \<Rightarrow> Refused ''saved_filter_not_found'' ''Saved filter not found.'' 404
      | ValueError m \<Rightarrow> Refused ''invalid_saved_filter'' m 422
      | _ \<Rightarrow> Unhandled e)"

text \<open>Creating catches a \<open>ValueError\<close> only.\<close>

definition create_error :: "py_error \<Rightarrow> api_error" where
  "create_error e = (case e of ValueError m \<Rightarrow> Refused ''invalid_saved_filter'' m 422 | _ \<Rightarrow> Unhandled e)"

definition filters_unavailable :: api_error where
  "filters_unavailable = Refused ''saved_filters_unavailable'' ''Saved filters are not configured.'' 503"

datatype user_request =
    Me
  | NlpSearch string
  | SearchRequest search_criteria
  | Detail string
  | ListFilters
  | CreateFilter string search_criteria
  | UpdateFilter string "string option" "search_criteria option" "bool option"
  | DeleteFilter string

text \<open>A request with its \<open>Authorization\<close> header, or the login.\<close>

datatype webapp_request = Login string | AsUser "string option" user_request

datatype webapp_answer =
    SessionAnswer webapp_session
  | UserAnswer webapp_identity
  | NlpAnswer "string \<times> search_criteria \<times> nlp_tag list \<times> rat"
  | SearchAnswer "search_item list \<times> search_metadata"
  | DetailAnswer announcement
  | FiltersAnswer "user_filter list"
  | FilterAnswer user_filter
  | NoContent

definition answer_of :: "('a \<Rightarrow> webapp_answer) \<Rightarrow> 'a api \<Rightarrow> webapp_answer api" where
  "answer_of f r = (case r of Inl e \<Rightarrow> Inl e | Inr x \<Rightarrow> Inr (f x))"

definition on_filters_store :: "(py_error \<Rightarrow> api_error) \<Rightarrow> ('a \<Rightarrow> webapp_answer) \<Rightarrow> 'a res \<times> filter_store \<Rightarrow> webapp_state \<Rightarrow> webapp_answer api \<times> webapp_state" where
  "on_filters_store err f p s =
     ((case fst p of Inl e \<Rightarrow> Inl (err e) | Inr x \<Rightarrow> Inr (f x)), s\<lparr>wb_filters := snd p\<rparr>)"

text \<open>What a route does for the user of a valid token.\<close>

fun webapp_serve :: "webapp_app \<Rightarrow> webapp_identity \<Rightarrow> user_request \<Rightarrow> webapp_state \<Rightarrow> webapp_answer api \<times> webapp_state" where
  "webapp_serve A w Me s = (Inr (UserAnswer w), s)"
| "webapp_serve A w (NlpSearch q) s = (answer_of NlpAnswer (webapp_nlp_search A q), s)"
| "webapp_serve A w (SearchRequest c) s = (case webapp_search A (wi_user_id w) c s of (r, s1) \<Rightarrow> (answer_of SearchAnswer r, s1))"
| "webapp_serve A w (Detail k) s = (answer_of DetailAnswer (webapp_detail A k), s)"
| "webapp_serve A w ListFilters s =
     (if \<not> wp_has_filters A then (Inl filters_unavailable, s)
      else (Inr (FiltersAnswer (list_for_user (wi_user_id w) (wb_filters s))), s))"
| "webapp_serve A w (CreateFilter name c) s =
     (if \<not> wp_has_filters A then (Inl filters_unavailable, s)
      else on_filters_store create_error FilterAnswer
        (service_create (wp_filter_limit A) (wp_activate A) (wp_time A) (wp_new_id A) (wi_user_id w) name c (wb_filters s)) s)"
| "webapp_serve A w (UpdateFilter fid name c enabled) s =
     (if \<not> wp_has_filters A then (Inl filters_unavailable, s)
      else on_filters_store filter_error FilterAnswer
        (service_update (wp_time A) (wi_user_id w) fid name c enabled (wb_filters s)) s)"
| "webapp_serve A w (DeleteFilter fid) s =
     (if \<not> wp_has_filters A then (Inl filters_unavailable, s)
      else (case delete_filter (wi_user_id w) fid (wb_filters s) of
          (True, f) \<Rightarrow> (Inr NoContent, s\<lparr>wb_filters := f\<rparr>)
        | (False, f) \<Rightarrow> (Inl (Refused ''saved_filter_not_found'' ''Saved filter not found.'' 404), s\<lparr>wb_filters := f\<rparr>)))"

text \<open>Every route but the login begins with the check of the token.\<close>

definition webapp_handle :: "webapp_app \<Rightarrow> webapp_request \<Rightarrow> webapp_state \<Rightarrow> webapp_answer api \<times> webapp_state" where
  "webapp_handle A q s =
     (case q of
        Login d \<Rightarrow> (case authenticate_webapp A d s of (r, s1) \<Rightarrow> (answer_of SessionAnswer r, s1))
      | AsUser header u \<Rightarrow> (case require_user A header of Inl e \<Rightarrow> (Inl e, s) | Inr w \<Rightarrow> webapp_serve A w u s))"


section \<open>Users\<close>

text \<open>The user a token names, valid or not; nobody for a request without a readable one.\<close>

definition token_user :: "webapp_request \<Rightarrow> int" where
  "token_user q =
     (case q of
        Login d \<Rightarrow> 0
      | AsUser header u \<Rightarrow>
          (case bearer_token header of
             None \<Rightarrow> 0
           | Some t \<Rightarrow> (case read_token t of Inl _ \<Rightarrow> 0 | Inr (p, signature, user, expires) \<Rightarrow> user)))"

definition webapp_step :: "webapp_app \<Rightarrow> webapp_request \<Rightarrow> webapp_state \<Rightarrow> webapp_state" where
  "webapp_step A q s = snd (webapp_handle A q s)"

text \<open>Fresh identifiers are fresh, and the limit is the same all the time.\<close>

definition webapp_admissible :: "nat \<Rightarrow> webapp_app \<Rightarrow> webapp_state \<Rightarrow> bool" where
  "webapp_admissible limit A s \<longleftrightarrow> wp_filter_limit A = limit \<and> dict_get (stored_filters (wb_filters s)) (wp_new_id A) = None"

lemma verify_reads: "verify_session E now t = Inr w \<Longrightarrow> \<exists>p signature expires. read_token t = Inr (p, signature, wi_user_id w, expires)"
  by (auto simp: verify_session_def split: sum.splits prod.splits if_splits elim!: res_bind_InrE)

lemma require_user_reads:
  assumes "require_user A header = Inr w"
  shows "token_user (AsUser header u) = wi_user_id w"
  using assms verify_reads
  by (fastforce simp: require_user_def token_user_def split: option.splits sum.splits py_error.splits)

lemma on_filters_store_simps [simp]:
  "wb_filters (snd (on_filters_store err f p s)) = snd p" "wb_users (snd (on_filters_store err f p s)) = wb_users s"
  by (simp_all add: on_filters_store_def)

lemma authenticate_webapp_filters: "wb_filters (snd (authenticate_webapp A d s)) = wb_filters s"
  by (auto simp: authenticate_webapp_def split: sum.split option.split prod.split py_error.split)

lemma webapp_search_filters: "wb_filters (snd (webapp_search A user c s)) = wb_filters s"
  by (auto simp: webapp_search_def Let_def split: sum.split prod.split)

lemma serve_filters:
  "wb_filters (snd (webapp_serve A w u s)) \<in>
     {wb_filters s} \<union>
     {snd (service_create (wp_filter_limit A) (wp_activate A) (wp_time A) (wp_new_id A) (wi_user_id w) name c (wb_filters s)) | name c. True} \<union>
     {snd (service_update (wp_time A) (wi_user_id w) fid name c enabled (wb_filters s)) | fid name c enabled. True} \<union>
     {snd (delete_filter (wi_user_id w) fid (wb_filters s)) | fid. True}"
proof (cases u)
  case (SearchRequest c)
  then show ?thesis
    using webapp_search_filters [of A "wi_user_id w" c s] by (auto split: prod.splits)
next
  case (DeleteFilter fid)
  have "wb_filters (snd (webapp_serve A w u s)) \<in> {wb_filters s, snd (delete_filter (wi_user_id w) fid (wb_filters s))}"
    unfolding DeleteFilter by (cases "delete_filter (wi_user_id w) fid (wb_filters s)") (simp split: bool.split)
  then show ?thesis by blast
qed auto

text \<open>A request that is not served for a user leaves the filters of that user alone.\<close>

lemma webapp_frame_session:
  assumes "webapp_admissible limit A s" and "\<And>header u w. q = AsUser header u \<Longrightarrow> require_user A header = Inr w \<Longrightarrow> wi_user_id w \<noteq> v"
  shows "user_filters v (wb_filters (webapp_step A q s)) = user_filters v (wb_filters s)"
proof (cases q)
  case (Login d)
  then show ?thesis
    using authenticate_webapp_filters [of A d s] by (auto simp: webapp_step_def webapp_handle_def split: prod.splits)
next
  case (AsUser header u)
  show ?thesis
  proof (cases "require_user A header")
    case (Inr w)
    then have "wi_user_id w \<noteq> v" using assms(2) AsUser by blast
    then show ?thesis
      using serve_filters [of A w u s] create_other update_other delete_other assms(1) Inr
      by (auto simp: AsUser webapp_step_def webapp_handle_def webapp_admissible_def)
  qed (simp add: AsUser webapp_step_def webapp_handle_def)
qed

lemma webapp_frame:
  assumes "webapp_admissible limit A s" and "token_user q \<noteq> v"
  shows "user_filters v (wb_filters (webapp_step A q s)) = user_filters v (wb_filters s)"
  using assms(1) by (rule webapp_frame_session) (use assms(2) require_user_reads in \<open>metis\<close>)

lemma webapp_keeps:
  assumes "filters_ok limit (wb_filters s)" and "webapp_admissible limit A s"
  shows "filters_ok limit (wb_filters (webapp_step A q s))"
proof (cases q)
  case (Login d)
  then show ?thesis
    using assms authenticate_webapp_filters [of A d s] by (auto simp: webapp_step_def webapp_handle_def split: prod.splits)
next
  case (AsUser header u)
  show ?thesis
  proof (cases "require_user A header")
    case (Inr w)
    then show ?thesis
      using serve_filters [of A w u s] filter_operations_ok [OF assms(1)] assms
      by (auto simp: AsUser webapp_step_def webapp_handle_def webapp_admissible_def)
  qed (simp add: AsUser webapp_step_def webapp_handle_def assms)
qed

interpretation webapp_users: acting_users webapp_step token_user "\<lambda>v s. user_filters v (wb_filters s)" "webapp_admissible limit"
    "\<lambda>s. filters_ok limit (wb_filters s)" for limit
  by unfold_locales (simp_all add: webapp_frame webapp_keeps)


section \<open>Sessions\<close>

text \<open>The session a request is answered with: whom it is for and when it ends.\<close>

definition issued_by :: "webapp_app \<Rightarrow> webapp_request \<Rightarrow> webapp_state \<Rightarrow> (int \<times> int) list" where
  "issued_by A q s =
     (case fst (webapp_handle A q s) of
        Inr (SessionAnswer t) \<Rightarrow> [(wi_user_id (ws_user t), wp_clock A + ws_expires_in t)]
      | _ \<Rightarrow> [])"

text \<open>
  A run of requests of people who know neither the tokens of a user nor init data Telegram made for that user: they may
  present any token and any init data, but none with a signature of the service except those of the sessions issued
  before or in the run so far (\<open>issued\<close>), and none with a signature of Telegram that names the user.
\<close>

fun sent_by_others :: "int \<Rightarrow> (webapp_app \<times> webapp_request) list \<Rightarrow> webapp_state \<Rightarrow> (int \<times> int) list \<Rightarrow> bool" where
  "sent_by_others v [] s issued \<longleftrightarrow> True"
| "sent_by_others v ((A, q) # es) s issued \<longleftrightarrow>
     (\<forall>E. wp_auth A = Some E \<longrightarrow>
        (case q of
           Login d \<Rightarrow> \<not> signed_init_data E d v
         | AsUser header u \<Rightarrow> (case bearer_token header of None \<Rightarrow> True | Some t \<Rightarrow> not_forged E issued t))) \<and>
     sent_by_others v es (webapp_step A q s) (issued @ issued_by A q s)"

lemma session_for_authenticated:
  assumes "(u, e) \<in> set (issued_by A q s)"
  obtains d E w where "q = Login d" "wp_auth A = Some E" "authenticate E (wp_clock A) d = Inr w" "u = wi_user_id w"
proof (cases q)
  case (Login d)
  then obtain t where t: "fst (authenticate_webapp A d s) = Inr t" "u = wi_user_id (ws_user t)"
    using assms by (auto simp: issued_by_def webapp_handle_def answer_of_def split: prod.splits sum.splits webapp_answer.splits)
  then show thesis
    using that Login
    by (auto simp: authenticate_webapp_def auth_service_def issue_session_def Let_def
        split: option.splits sum.splits py_error.splits prod.splits if_splits elim!: res_bind_InrE)
next
  case (AsUser header r)
  have "fst (webapp_serve A w r s) \<noteq> Inr (SessionAnswer t)" for w t
    by (cases r) (auto simp: answer_of_def on_filters_store_def split: sum.split prod.split bool.split)
  then have "issued_by A q s = []"
    by (auto simp: AsUser issued_by_def webapp_handle_def split: sum.split webapp_answer.split)
  with assms show thesis by simp
qed

lemma served_for_other:
  assumes "\<forall>(u, e) \<in> set issued. u \<noteq> v" and "require_user A header = Inr w"
    and "\<And>E t. wp_auth A = Some E \<Longrightarrow> bearer_token header = Some t \<Longrightarrow> not_forged E issued t"
  shows "wi_user_id w \<noteq> v"
proof -
  obtain E t where t: "wp_auth A = Some E" "bearer_token header = Some t" "verify_session E (wp_clock A) t = Inr w"
    using assms(2) by (auto simp: require_user_def auth_service_def split: option.splits sum.splits)
  from verified_issued [OF assms(3) [OF t(1,2)] t(3)] assms(1) show ?thesis by fastforce
qed

lemma run_of_others:
  assumes "run_admissible (webapp_admissible limit) webapp_step es s" and "sent_by_others v es s issued"
    and "\<forall>(u, e) \<in> set issued. u \<noteq> v"
  shows "user_filters v (wb_filters (run_actions webapp_step es s)) = user_filters v (wb_filters s)"
  using assms
proof (induction es arbitrary: s issued)
  case (Cons x es)
  obtain A q where x: "x = (A, q)" by (cases x)
  have adm: "webapp_admissible limit A s" and
    rest: "run_admissible (webapp_admissible limit) webapp_step es (webapp_step A q s)"
      "sent_by_others v es (webapp_step A q s) (issued @ issued_by A q s)"
    using Cons.prems(1,2) by (simp_all add: x)
  have "wi_user_id w \<noteq> v" if "q = AsUser header u" "require_user A header = Inr w" for header u w
  proof (rule served_for_other [OF Cons.prems(3) that(2)])
    fix E t
    assume "wp_auth A = Some E" "bearer_token header = Some t"
    then show "not_forged E issued t" using Cons.prems(2) that(1) by (auto simp: x)
  qed
  with adm have here: "user_filters v (wb_filters (webapp_step A q s)) = user_filters v (wb_filters s)"
    by (rule webapp_frame_session)
  have "\<forall>(u, e) \<in> set (issued_by A q s). u \<noteq> v"
  proof clarify
    fix e
    assume "(v, e) \<in> set (issued_by A q s)"
    then obtain d E w where "q = Login d" "wp_auth A = Some E" "authenticate E (wp_clock A) d = Inr w" "v = wi_user_id w"
      by (rule session_for_authenticated)
    with authenticated_signed Cons.prems(2) show False by (auto simp: x)
  qed
  with Cons.prems(3) have "\<forall>(u, e) \<in> set (issued @ issued_by A q s). u \<noteq> v" by auto
  from Cons.IH [OF rest this] here show ?case by (simp add: x)
qed simp

section \<open>Properties\<close>

text \<open>
  A request without a valid token gets an error and changes nothing.
\<close>

theorem webapp_needs_token:
  assumes "case wp_auth A of None \<Rightarrow> True
    | Some E \<Rightarrow> (case bearer_token header of None \<Rightarrow> True | Some t \<Rightarrow> isl (verify_session E (wp_clock A) t))"
  shows "\<exists>e. webapp_handle A (AsUser header u) s = (Inl e, s)"
proof -
  have "isl (require_user A header)"
    using assms by (auto simp: require_user_def auth_service_def isl_def split: option.splits sum.splits)
  then show ?thesis by (auto simp: webapp_handle_def isl_def)
qed

text \<open>
  C29. Whatever the others send to the Mini App, logins and requests with tokens of their own, with forged ones or with none,
  the filters of a user stay as they are: no request without a token the service signed for that user, and no login without
  init data Telegram signed for that user, reaches them. (Sessions issued before the run, \<open>issued\<close>, are those of others; that
  a valid signature cannot be made without the key is what \<open>sent_by_others\<close> says of HMAC.) The filter store keeps its
  invariant over the run.
\<close>

theorem webapp_users_isolated:
  assumes "filters_ok limit (wb_filters s)" and "run_admissible (webapp_admissible limit) webapp_step es s"
    and "sent_by_others v es s issued" and "\<forall>(u, e) \<in> set issued. u \<noteq> v"
  shows "filters_ok limit (wb_filters (run_actions webapp_step es s)) \<and>
    user_filters v (wb_filters (run_actions webapp_step es s)) = user_filters v (wb_filters s)"
  using webapp_users.run_keeps [OF assms(1,2)] run_of_others [OF assms(2,3,4)] by simp

text \<open>
  A user never gets, changes or deletes the filter of somebody else: the list does not hold it, and both other routes
  answer that there is no such filter.
\<close>

theorem webapp_foreign_filter:
  assumes "require_user A header = Inr w" and "wp_has_filters A"
    and "dict_get (stored_filters (wb_filters s)) fid = Some f" and "uf_user_id f \<noteq> wi_user_id w"
  shows "webapp_handle A (AsUser header (DeleteFilter fid)) s = (Inl (Refused ''saved_filter_not_found'' ''Saved filter not found.'' 404), s) \<and>
    webapp_handle A (AsUser header (UpdateFilter fid None c enabled)) s = (Inl (Refused ''saved_filter_not_found'' ''Saved filter not found.'' 404), s) \<and>
    (case fst (webapp_handle A (AsUser header ListFilters) s) of Inr (FiltersAnswer fs) \<Rightarrow> f \<notin> set fs | _ \<Rightarrow> False)"
proof -
  have none: "get_for_user (wi_user_id w) fid (wb_filters s) = None" using assms(3,4) by (simp add: get_for_user_def)
  then have "delete_filter (wi_user_id w) fid (wb_filters s) = (False, wb_filters s)" by (simp add: delete_filter_def)
  moreover have "service_update (wp_time A) (wi_user_id w) fid None c enabled (wb_filters s) =
      (Inl (KeyError ''Saved filter not found.''), wb_filters s)"
    by (simp add: service_update_def update_filter_def none)
  moreover have "f \<notin> set (list_for_user (wi_user_id w) (wb_filters s))" using assms(4) by (simp add: list_for_user_def)
  ultimately show ?thesis using assms(1,2) by (simp add: webapp_handle_def on_filters_store_def filter_error_def)
qed

text \<open>
  The search without login answers bad criteria with an error no handler knows, where the same criteria are refused
  with 422 in the Mini App.
\<close>

theorem search_route_crashes:
  assumes "validate_criteria c = Inl e" and "wp_search A = Some repo"
  shows "search_route A c = Inl (Unhandled e) \<and>
    (\<exists>m. webapp_search A user c s = (Inl (Refused ''invalid_search'' m 422), s))"
  using assms by (simp add: search_route_def search_service_def webapp_search_def)

text \<open>
  A shortened description may be longer than the limit: one character less of the text is followed by three dots.
\<close>

theorem shorten_exceeds_limit:
  assumes "1 < limit" and "limit < length (collapse v)" and "\<not> is_space (collapse v ! (limit - 2))"
  shows "length (shorten v limit) = limit + 2"
proof -
  let ?t = "take (limit - 1) (collapse v)"
  have len: "length ?t = limit - 1" using assms(2) by simp
  then have "?t \<noteq> []" using assms(1,2) by auto
  then have "last ?t = collapse v ! (limit - 2)"
    using assms(1,2) len by (simp add: last_conv_nth numeral_2_eq_2)
  with \<open>?t \<noteq> []\<close> have "rstrip ?t = ?t"
    using assms(3) by (cases ?t rule: rev_cases) (simp_all add: rstrip_def)
  then show ?thesis using assms len by (simp add: shorten_def)
qed


section \<open>Witnesses\<close>

definition sample_app :: webapp_app where
  "sample_app = \<lparr>wp_auth = Some sample_webapp, wp_search = Some [], wp_nlp = None, wp_ask = sample_nlp_answer, wp_has_filters = True,
     wp_has_referrals = False, wp_has_users = False, wp_referral = default_referral_config, wp_filter_limit = 5, wp_activate = (\<lambda>u f. Inr ()),
     wp_search_key = (\<lambda>c. ''k''), wp_decimal = (\<lambda>r. []), wp_new_id = ''f2'', wp_clock = 1010, wp_time = 0\<rparr>"

definition sample_filter :: user_filter where
  "sample_filter = \<lparr>uf_filter_id = ''f1'', uf_user_id = 9, uf_name = ''n'', uf_criteria = default_criteria, uf_enabled = True,
     uf_created_at = 0, uf_updated_at = 0\<rparr>"

definition sample_webapp_state :: webapp_state where
  "sample_webapp_state = \<lparr>wb_filters = \<lparr>stored_filters = [(''f1'', sample_filter)], filter_events = []\<rparr>, wb_users = empty_referrals\<rparr>"

definition sample_header :: "string option" where
  "sample_header =
     (let p = ascii_bytes (session_payload 7 1060) in
      Some (''Bearer '' @ b64encode p @ ''.'' @ b64encode (we_hmac sample_webapp (ascii_bytes ''s'') p)))"

lemma sample_header_user: "require_user sample_app sample_header = Inr sample_identity"
  by code_simp

theorem webapp_needs_token_witness:
  "\<exists>e. webapp_handle sample_app (AsUser (Some ''Bearer x'') ListFilters) sample_webapp_state = (Inl e, sample_webapp_state)"
proof (rule webapp_needs_token)
  show "case wp_auth sample_app of None \<Rightarrow> True
    | Some E \<Rightarrow> (case bearer_token (Some ''Bearer x'') of None \<Rightarrow> True | Some t \<Rightarrow> isl (verify_session E (wp_clock sample_app) t))"
    by code_simp
qed

definition forged_header :: "string option" where
  "forged_header =
     (let p = ascii_bytes (session_payload 9 1060) in
      Some (''Bearer '' @ b64encode p @ ''.'' @ b64encode (ascii_bytes ''guess'')))"

theorem webapp_users_isolated_witness:
  "user_filters 9 (wb_filters (run_actions webapp_step
      [(sample_app, AsUser sample_header (DeleteFilter ''f1'')), (sample_app, AsUser forged_header (DeleteFilter ''f1''))]
      sample_webapp_state)) ''f1'' = Some sample_filter"
proof -
  let ?es = "[(sample_app, AsUser sample_header (DeleteFilter ''f1'')), (sample_app, AsUser forged_header (DeleteFilter ''f1''))]"
  have "collapse ''n'' = ''n''" by code_simp
  then have ok: "filters_ok 5 (wb_filters sample_webapp_state)"
    by (simp add: filters_ok_def sample_webapp_state_def sample_filter_def keyed_by_def dict_ok_def name_ok_def count_for_user_def)
  have handled: "webapp_handle sample_app (AsUser sample_header (DeleteFilter ''f1'')) sample_webapp_state =
      (Inl (Refused ''saved_filter_not_found'' ''Saved filter not found.'' 404), sample_webapp_state)"
    using sample_header_user
    by (simp add: webapp_handle_def delete_filter_def get_for_user_def sample_app_def sample_webapp_state_def sample_filter_def sample_identity_def)
  then have "run_admissible (webapp_admissible 5) webapp_step ?es sample_webapp_state"
    by (simp add: webapp_step_def webapp_admissible_def sample_app_def sample_webapp_state_def)
  moreover have "sent_by_others 9 ?es sample_webapp_state [(7, 1060)]"
  proof -
    have "not_forged sample_webapp [(7, 1060)] (the (bearer_token sample_header))"
      "not_forged sample_webapp [(7, 1060)] (the (bearer_token forged_header))"
      "bearer_token sample_header \<noteq> None" "bearer_token forged_header \<noteq> None"
      by code_simp+
    then show ?thesis
      using handled by (auto simp: webapp_step_def issued_by_def sample_app_def split: option.splits)
  qed
  ultimately show ?thesis
    using webapp_users_isolated [OF ok, of ?es 9 "[(7, 1060)]"]
    by (simp add: user_filters_def sample_webapp_state_def sample_filter_def)
qed

theorem webapp_foreign_filter_witness:
  "webapp_handle sample_app (AsUser sample_header (DeleteFilter ''f1'')) sample_webapp_state =
      (Inl (Refused ''saved_filter_not_found'' ''Saved filter not found.'' 404), sample_webapp_state)"
  using webapp_foreign_filter [OF sample_header_user, of sample_webapp_state "''f1''" sample_filter]
  by (simp add: sample_app_def sample_webapp_state_def sample_filter_def sample_identity_def)

theorem search_route_crashes_witness:
  "search_route sample_app (default_criteria\<lparr>sc_min_price := Some 5, sc_max_price := Some 3\<rparr>) =
     Inl (Unhandled (ValueError ''min_price must be less than or equal to max_price''))"
proof -
  have "validate_criteria (default_criteria\<lparr>sc_min_price := Some 5, sc_max_price := Some 3\<rparr>) =
      Inl (ValueError ''min_price must be less than or equal to max_price'')"
    by code_simp
  from search_route_crashes [OF this, of sample_app "[]"] show ?thesis by (simp add: sample_app_def)
qed

theorem shorten_exceeds_limit_witness: "length (shorten (replicate 300 (CHR ''a'')) 240) = 242"
proof -
  have c: "collapse (replicate 300 (CHR ''a'')) = replicate 300 (CHR ''a'')" by code_simp
  show ?thesis using shorten_exceeds_limit [of 240 "replicate 300 (CHR ''a'')"] by (simp add: c is_space_def code_of_def)
qed

end
