(* ===== verification/EF_TelegramAuth.thy ===== *)
theory EF_TelegramAuth
  imports EF_RawEvent
begin

text \<open>
  The login of Telegram accounts (\<open>services/telegram_auth.py\<close>): session names and their files, the state of a login that
  is kept in Redis for a quarter of an hour, the steps of the login and the inspection of a session. The Telegram client of
  a session is an argument that answers each of the calls the service makes, a closing of the connection never fails, and
  the note to the saved messages, whose errors are swallowed, is left out. The clock and the session files are arguments.
\<close>

section \<open>Session names\<close>

definition is_session_char :: "char \<Rightarrow> bool" where
  "is_session_char c \<longleftrightarrow> is_alnum c \<or> c \<in> {CHR ''_'', CHR ''.'', CHR ''-''}"

definition sanitize_session_name :: "string \<Rightarrow> string res" where
  "sanitize_session_name name =
     (let n = strip name in
      if n = [] then Inl (ValueError ''session_name is required'')
      else if \<not> (list_all is_session_char n \<and> 3 \<le> length n \<and> length n \<le> 80)
      then Inl (ValueError ''session_name must use only letters, digits, dot, dash and underscore'')
      else Inr n)"

text \<open>\<open>with_suffix(".session")\<close> on the last part of a path: a suffix begins at the last dot, unless that is its first or last character.\<close>

definition with_session_suffix :: "string \<Rightarrow> string" where
  "with_session_suffix name =
     (let ending = takeWhile (\<lambda>c. c \<noteq> CHR ''.'') (rev name); i = length name - length ending - 1 in
      (if length ending < length name \<and> 0 < i \<and> ending \<noteq> [] then take i name else name) @ ''.session'')"

definition session_file_path :: "string \<Rightarrow> string res" where
  "session_file_path name = res_bind (sanitize_session_name name) (\<lambda>n. Inr (with_session_suffix n))"

section \<open>The client\<close>

text \<open>The errors of the client the service tells apart; all but the last two are RPC errors.\<close>

datatype client_failure =
    FloodWaitError nat
  | PhoneNumberInvalidError
  | ApiIdInvalidError
  | PhoneCodeInvalidError
  | PhoneCodeEmptyError
  | PhoneCodeExpiredError
  | PasswordHashInvalidError
  | SessionPasswordNeededError
  | UnauthorizedError string
  | RPCError string
  | FileFailure string
  | OtherFailure py_error

record telegram_client =
  tc_connect :: "client_failure option"
  tc_is_authorized :: "client_failure + bool"
  tc_send_code :: "string \<Rightarrow> client_failure + string option"
  tc_sign_in :: "string \<Rightarrow> string \<Rightarrow> string option \<Rightarrow> client_failure option"
  tc_sign_in_password :: "string \<Rightarrow> client_failure option"
  tc_get_entity :: "string \<Rightarrow> client_failure + int option"

record auth_env =
  au_has_credentials :: bool
  au_prefix :: string
  au_text :: text_env
  au_failure_text :: "client_failure \<Rightarrow> string"
  au_client :: "string \<Rightarrow> telegram_client"
  au_files :: "(string, nat) dict"
  au_now :: time

definition TELEGRAM_AUTH_TTL_SECONDS :: int where "TELEGRAM_AUTH_TTL_SECONDS = 15 * 60"

definition quoted :: "string \<Rightarrow> string" where
  "quoted t = [CHR 0x27] @ t @ [CHR 0x27]"

text \<open>What leaves the service when it does not translate a failure.\<close>

definition raised_again :: "auth_env \<Rightarrow> client_failure \<Rightarrow> py_error" where
  "raised_again E f =
     (case f of OtherFailure e \<Rightarrow> e | FileFailure m \<Rightarrow> OtherError ''OSError'' m | _ \<Rightarrow> OtherError ''RPCError'' (au_failure_text E f))"

definition is_rpc :: "client_failure \<Rightarrow> bool" where
  "is_rpc f = (case f of FileFailure _ \<Rightarrow> False | OtherFailure _ \<Rightarrow> False | _ \<Rightarrow> True)"

definition rate_limited :: "nat \<Rightarrow> py_error" where
  "rate_limited n = RuntimeError (''Telegram rate limited login for '' @ str_nat n @ '' seconds.'')"

definition new_client :: "auth_env \<Rightarrow> string \<Rightarrow> telegram_client res" where
  "new_client E name =
     (if \<not> au_has_credentials E then Inl (RuntimeError ''Telegram API credentials are not configured.'')
      else res_bind (sanitize_session_name name) (\<lambda>n. Inr (au_client E n)))"

definition connect_client :: "auth_env \<Rightarrow> string \<Rightarrow> telegram_client \<Rightarrow> unit res" where
  "connect_client E name c =
     (case tc_connect c of
        None \<Rightarrow> Inr ()
      | Some (FileFailure m) \<Rightarrow>
          if contains (lower m) ''lock''
          then Inl (RuntimeError (''Session '' @ quoted name @ '' file is locked by an active listener or process.''))
          else Inl (raised_again E (FileFailure m))
      | Some f \<Rightarrow> Inl (raised_again E f))"

definition connected_client :: "auth_env \<Rightarrow> string \<Rightarrow> telegram_client res" where
  "connected_client E name = res_bind (new_client E name) (\<lambda>c. res_bind (connect_client E name c) (\<lambda>_. Inr c))"

section \<open>The state of a login\<close>

record auth_state =
  as_session_name :: string
  as_phone_number :: string
  as_phone_code_hash :: "string option"
  as_created_at :: time
  as_updated_at :: time
  as_requires_password :: bool

text \<open>The keys of Redis, with the moment at which each of them expires.\<close>

type_synonym auth_store = "(string, (string, json) dict \<times> time) dict"

definition auth_key :: "auth_env \<Rightarrow> string \<Rightarrow> string" where
  "auth_key E name = au_prefix E @ '':'' @ name"

definition auth_payload :: "auth_env \<Rightarrow> auth_state \<Rightarrow> (string, json) dict" where
  "auth_payload E st =
     [(''session_name'', JStr (as_session_name st)), (''phone_number'', JStr (as_phone_number st)),
      (''phone_code_hash'', json_opt (as_phone_code_hash st)), (''created_at'', JStr (te_to_iso (au_text E) (as_created_at st))),
      (''updated_at'', JStr (te_to_iso (au_text E) (as_updated_at st))), (''requires_password'', JBool (as_requires_password st))]"

definition required_moment :: "text_env \<Rightarrow> (string, json) dict \<Rightarrow> string \<Rightarrow> time res" where
  "required_moment T d k =
     res_bind (required_text T d k) (\<lambda>t. case te_of_iso T t of None \<Rightarrow> Inl (ValueError ''Invalid isoformat string'') | Some m \<Rightarrow> Inr m)"

definition auth_of_payload :: "auth_env \<Rightarrow> (string, json) dict \<Rightarrow> auth_state res" where
  "auth_of_payload E d =
     (let T = au_text E; h = get_or d ''phone_code_hash'' JNull in
      res_bind (required_text T d ''session_name'') (\<lambda>name.
      res_bind (required_text T d ''phone_number'') (\<lambda>phone.
      res_bind (required_moment T d ''created_at'') (\<lambda>created.
      res_bind (required_moment T d ''updated_at'') (\<lambda>updated.
        Inr \<lparr>as_session_name = name, as_phone_number = phone, as_phone_code_hash = (if falsy h then None else Some (py_str T h)),
          as_created_at = created, as_updated_at = updated,
          as_requires_password = \<not> falsy (get_or d ''requires_password'' (JBool False))\<rparr>)))))"

definition auth_get :: "auth_env \<Rightarrow> string \<Rightarrow> auth_store \<Rightarrow> auth_state option res" where
  "auth_get E name s =
     (case dict_get s (auth_key E name) of
        None \<Rightarrow> Inr None
      | Some (d, expires) \<Rightarrow> if expires \<le> au_now E then Inr None else res_bind (auth_of_payload E d) (\<lambda>st. Inr (Some st)))"

definition auth_put :: "auth_env \<Rightarrow> auth_state \<Rightarrow> auth_store \<Rightarrow> auth_store" where
  "auth_put E st s =
     dict_put (auth_key E (as_session_name st)) (auth_payload E st, au_now E + seconds TELEGRAM_AUTH_TTL_SECONDS) s"

definition auth_delete :: "auth_env \<Rightarrow> string \<Rightarrow> auth_store \<Rightarrow> auth_store" where
  "auth_delete E name s = dict_pop (auth_key E name) s"

definition required_auth_state :: "auth_env \<Rightarrow> string \<Rightarrow> auth_store \<Rightarrow> auth_state res" where
  "required_auth_state E name s =
     res_bind (auth_get E name s) (\<lambda>st. case st of None \<Rightarrow> Inl (KeyError name) | Some st \<Rightarrow> Inr st)"

section \<open>The login\<close>

record login_start =
  sr_session_name :: string
  sr_phone_number :: string
  sr_code_sent :: bool
  sr_already_authorized :: bool

definition start_error :: "auth_env \<Rightarrow> client_failure \<Rightarrow> py_error" where
  "start_error E f =
     (case f of
        FloodWaitError n \<Rightarrow> rate_limited n
      | PhoneNumberInvalidError \<Rightarrow> ValueError ''The phone number provided is invalid.''
      | ApiIdInvalidError \<Rightarrow> RuntimeError ''Telegram API credentials (api_id / api_hash) are invalid.''
      | _ \<Rightarrow> if is_rpc f then RuntimeError (''Telegram start login failed: '' @ au_failure_text E f) else raised_again E f)"

definition start_login :: "auth_env \<Rightarrow> string \<Rightarrow> string \<Rightarrow> auth_store \<Rightarrow> login_start res \<times> auth_store" where
  "start_login E name phone s =
     (case connected_client E name of
        Inl e \<Rightarrow> (Inl e, s)
      | Inr c \<Rightarrow>
          (case tc_is_authorized c of
             Inl f \<Rightarrow> (Inl (start_error E f), s)
           | Inr True \<Rightarrow>
               (Inr \<lparr>sr_session_name = name, sr_phone_number = phone, sr_code_sent = False, sr_already_authorized = True\<rparr>, s)
           | Inr False \<Rightarrow>
               (case tc_send_code c phone of
                  Inl f \<Rightarrow> (Inl (start_error E f), s)
                | Inr h \<Rightarrow>
                    (Inr \<lparr>sr_session_name = name, sr_phone_number = phone, sr_code_sent = True, sr_already_authorized = False\<rparr>,
                     auth_put E \<lparr>as_session_name = name, as_phone_number = phone, as_phone_code_hash = h, as_created_at = au_now E,
                       as_updated_at = au_now E, as_requires_password = False\<rparr> s))))"

record login_code =
  cr_session_name :: string
  cr_authorized :: bool
  cr_requires_password :: bool

definition code_error :: "auth_env \<Rightarrow> client_failure \<Rightarrow> py_error" where
  "code_error E f =
     (case f of
        PhoneCodeInvalidError \<Rightarrow> ValueError ''The phone code entered was invalid.''
      | PhoneCodeEmptyError \<Rightarrow> ValueError ''The phone code entered was invalid.''
      | PhoneCodeExpiredError \<Rightarrow> ValueError ''The phone code has expired. Please request a new code.''
      | FloodWaitError n \<Rightarrow> rate_limited n
      | UnauthorizedError m \<Rightarrow> RuntimeError ''Telegram authentication rejected the login code.''
      | _ \<Rightarrow> if is_rpc f then RuntimeError (''Telegram login code error: '' @ au_failure_text E f) else raised_again E f)"

definition confirm_code :: "auth_env \<Rightarrow> string \<Rightarrow> string \<Rightarrow> auth_store \<Rightarrow> login_code res \<times> auth_store" where
  "confirm_code E name code s =
     (case res_bind (required_auth_state E name s) (\<lambda>st. res_bind (connected_client E name) (\<lambda>c. Inr (st, c))) of
        Inl e \<Rightarrow> (Inl e, s)
      | Inr (st, c) \<Rightarrow>
          (case tc_sign_in c (as_phone_number st) code (as_phone_code_hash st) of
             None \<Rightarrow> (Inr \<lparr>cr_session_name = name, cr_authorized = True, cr_requires_password = False\<rparr>, auth_delete E name s)
           | Some SessionPasswordNeededError \<Rightarrow>
               (Inr \<lparr>cr_session_name = name, cr_authorized = False, cr_requires_password = True\<rparr>,
                auth_put E (st\<lparr>as_updated_at := au_now E, as_requires_password := True\<rparr>) s)
           | Some f \<Rightarrow> (Inl (code_error E f), s)))"

definition password_error :: "auth_env \<Rightarrow> client_failure \<Rightarrow> py_error" where
  "password_error E f =
     (case f of
        PasswordHashInvalidError \<Rightarrow> ValueError ''The 2FA password entered was invalid.''
      | FloodWaitError n \<Rightarrow> rate_limited n
      | _ \<Rightarrow> if is_rpc f then RuntimeError (''Telegram 2FA password login failed: '' @ au_failure_text E f) else raised_again E f)"

definition confirm_password :: "auth_env \<Rightarrow> string \<Rightarrow> string \<Rightarrow> auth_store \<Rightarrow> bool res \<times> auth_store" where
  "confirm_password E name password s =
     (case required_auth_state E name s of
        Inl e \<Rightarrow> (Inl e, s)
      | Inr st \<Rightarrow>
          if \<not> as_requires_password st then (Inl (ValueError ''2FA password is not required for this session.''), s)
          else (case connected_client E name of
              Inl e \<Rightarrow> (Inl e, s)
            | Inr c \<Rightarrow>
                (case tc_sign_in_password c password of
                   None \<Rightarrow> (Inr True, auth_delete E name s)
                 | Some f \<Rightarrow> (Inl (password_error E f), s))))"

section \<open>Inspection\<close>

datatype session_status = MissingSession | PendingAuth | NeedsPassword | ReadySession | UnauthorizedSession | LockedSession | BrokenSession

fun session_status_text :: "session_status \<Rightarrow> string" where
  "session_status_text MissingSession = ''missing''"
| "session_status_text PendingAuth = ''pending_auth''"
| "session_status_text NeedsPassword = ''needs_password''"
| "session_status_text ReadySession = ''ready''"
| "session_status_text UnauthorizedSession = ''unauthorized''"
| "session_status_text LockedSession = ''locked''"
| "session_status_text BrokenSession = ''error''"

record session_report =
  sn_session_name :: string
  sn_file_path :: string
  sn_file_size :: "nat option"
  sn_authorized :: "bool option"
  sn_state_present :: bool
  sn_requires_password :: bool
  sn_updated_at :: "time option"
  sn_status :: session_status
  sn_error :: "string option"

text \<open>
  The outcome of connecting and asking: the status, the answer and the text of the error. Failures that are neither of a file
  nor of an RPC are raised.
\<close>

definition probe_session :: "auth_env \<Rightarrow> telegram_client \<Rightarrow> bool \<Rightarrow> (session_status \<times> bool option \<times> string option) res" where
  "probe_session E c needs_password =
     (case (case tc_connect c of Some f \<Rightarrow> Inl f | None \<Rightarrow> tc_is_authorized c) of
        Inr b \<Rightarrow> Inr (if needs_password then NeedsPassword else if b then ReadySession else UnauthorizedSession, Some b, None)
      | Inl (FileFailure m) \<Rightarrow> Inr (LockedSession, None, Some m)
      | Inl f \<Rightarrow> if is_rpc f then Inr (BrokenSession, None, Some (au_failure_text E f)) else Inl (raised_again E f))"

definition inspect_session :: "auth_env \<Rightarrow> string \<Rightarrow> auth_store \<Rightarrow> session_report res" where
  "inspect_session E name s =
     res_bind (session_file_path name) (\<lambda>file.
     res_bind (auth_get E name s) (\<lambda>state.
       (let report = \<lparr>sn_session_name = name, sn_file_path = file, sn_file_size = dict_get (au_files E) file, sn_authorized = None,
              sn_state_present = (state \<noteq> None), sn_requires_password = (case state of None \<Rightarrow> False | Some st \<Rightarrow> as_requires_password st),
              sn_updated_at = map_option as_updated_at state,
              sn_status = (case state of None \<Rightarrow> MissingSession | Some st \<Rightarrow> if as_requires_password st then NeedsPassword else PendingAuth),
              sn_error = None\<rparr> in
        if dict_get (au_files E) file = None then Inr report
        else res_bind (new_client E name) (\<lambda>c.
          res_bind (probe_session E c (sn_requires_password report)) (\<lambda>(status, authorized, err).
            Inr (report\<lparr>sn_status := status, sn_authorized := authorized, sn_error := err\<rparr>))))))"

definition resolved_channel_id :: "int \<Rightarrow> string" where
  "resolved_channel_id i = (let raw = str_int i in if starts_with raw ''-'' then raw else ''-100'' @ raw)"

definition access_denied :: "string \<Rightarrow> string \<Rightarrow> py_error" where
  "access_denied name why = PermissionError (''Telegram session '' @ quoted name @ '' '' @ why)"

definition verify_source_access :: "auth_env \<Rightarrow> string \<Rightarrow> string \<Rightarrow> auth_store \<Rightarrow> string option res" where
  "verify_source_access E name source s =
     res_bind (inspect_session E name s) (\<lambda>report.
       if sn_status report \<noteq> ReadySession then Inl (access_denied name (''is not ready for source access: '' @ session_status_text (sn_status report) @ ''.''))
       else res_bind (new_client E name) (\<lambda>c.
         case (case tc_connect c of Some f \<Rightarrow> Inl f | None \<Rightarrow> tc_get_entity c source) of
           Inr i \<Rightarrow> Inr (map_option resolved_channel_id i)
         | Inl f \<Rightarrow>
             if is_rpc f \<or> (case f of OtherFailure (ValueError _) \<Rightarrow> True | _ \<Rightarrow> False)
             then Inl (access_denied name (''cannot access '' @ source @ '': '' @ au_failure_text E f))
             else Inl (raised_again E f)))"


section \<open>Reading back the state\<close>

text \<open>Moments survive their text, and an empty code hash is not sent.\<close>

definition auth_env_ok :: "auth_env \<Rightarrow> bool" where
  "auth_env_ok E \<longleftrightarrow> (\<forall>t. te_of_iso (au_text E) (te_to_iso (au_text E) t) = Some t) \<and>
     (\<forall>n phone. tc_send_code (au_client E n) phone \<noteq> Inr (Some []))"

lemma auth_of_payload_payload:
  assumes "auth_env_ok E" and "as_phone_code_hash st \<noteq> Some []"
  shows "auth_of_payload E (auth_payload E st) = Inr st"
  using assms
  by (cases "as_phone_code_hash st")
    (simp_all add: auth_of_payload_def auth_payload_def required_text_def required_moment_def require_def get_or_def Let_def
      auth_env_ok_def py_str_def falsy_def json_opt_def)

lemma auth_get_put:
  assumes "auth_env_ok E" and "as_phone_code_hash st \<noteq> Some []"
  shows "auth_get E name (auth_put E st s) = (if name = as_session_name st then Inr (Some st) else auth_get E name s)"
  using auth_of_payload_payload [OF assms]
  by (auto simp: auth_get_def auth_put_def dict_simps auth_key_def seconds_def TELEGRAM_AUTH_TTL_SECONDS_def)

lemma auth_get_delete:
  "auth_get E name (auth_delete E other s) = (if name = other then Inr None else auth_get E name s)"
  by (simp add: auth_get_def auth_delete_def dict_simps auth_key_def)

section \<open>The stages of a login\<close>

datatype login_stage = NoLogin | AwaitsCode string "string option" | AwaitsPassword string "string option"

definition login_stage :: "auth_env \<Rightarrow> auth_store \<Rightarrow> string \<Rightarrow> login_stage" where
  "login_stage E s name =
     (case auth_get E name s of
        Inr (Some st) \<Rightarrow>
          if as_requires_password st then AwaitsPassword (as_phone_number st) (as_phone_code_hash st)
          else AwaitsCode (as_phone_number st) (as_phone_code_hash st)
      | _ \<Rightarrow> NoLogin)"

datatype auth_action =
    StartLogin string string
  | ConfirmCode string string
  | ConfirmPassword string string
  | DeleteState string

fun auth_step :: "auth_env \<Rightarrow> auth_action \<Rightarrow> auth_store \<Rightarrow> auth_store" where
  "auth_step E (StartLogin n phone) s = snd (start_login E n phone s)"
| "auth_step E (ConfirmCode n code) s = snd (confirm_code E n code s)"
| "auth_step E (ConfirmPassword n password) s = snd (confirm_password E n password s)"
| "auth_step E (DeleteState n) s = auth_delete E n s"

text \<open>
  What Telegram answers to an operation of the service in the stage the session is in. The client is asked only with
  credentials, under a name that is valid and over a connection that succeeds, to confirm a code only when one is awaited,
  with the phone and the hash of the code that was sent, and to check a password only when one is awaited.
\<close>

datatype login_answer =
    Unasked
  | NotReached
  | SignedInBefore
  | CodeSent "string option"
  | Accepted
  | PasswordAsked
  | Refused client_failure

definition reached :: "auth_env \<Rightarrow> string \<Rightarrow> telegram_client option" where
  "reached E n =
     (case sanitize_session_name n of
        Inl e \<Rightarrow> None
      | Inr m \<Rightarrow> if au_has_credentials E \<and> tc_connect (au_client E m) = None then Some (au_client E m) else None)"

definition answer_to_start :: "telegram_client \<Rightarrow> string \<Rightarrow> login_answer" where
  "answer_to_start c phone =
     (case tc_is_authorized c of
        Inl f \<Rightarrow> Refused f
      | Inr True \<Rightarrow> SignedInBefore
      | Inr False \<Rightarrow> (case tc_send_code c phone of Inl f \<Rightarrow> Refused f | Inr h \<Rightarrow> CodeSent h))"

definition answer_to_sign_in :: "client_failure option \<Rightarrow> login_answer" where
  "answer_to_sign_in r =
     (case r of None \<Rightarrow> Accepted | Some SessionPasswordNeededError \<Rightarrow> PasswordAsked | Some f \<Rightarrow> Refused f)"

fun code_of_stage :: "login_stage \<Rightarrow> (string \<times> string option) option" where
  "code_of_stage NoLogin = None"
| "code_of_stage (AwaitsCode phone h) = Some (phone, h)"
| "code_of_stage (AwaitsPassword phone h) = Some (phone, h)"

fun telegram_says :: "auth_env \<Rightarrow> auth_action \<Rightarrow> login_stage \<Rightarrow> login_answer" where
  "telegram_says E (StartLogin n phone) g = (case reached E n of None \<Rightarrow> NotReached | Some c \<Rightarrow> answer_to_start c phone)"
| "telegram_says E (ConfirmCode n code) g =
     (case code_of_stage g of
        None \<Rightarrow> Unasked
      | Some (phone, h) \<Rightarrow>
          (case reached E n of None \<Rightarrow> NotReached | Some c \<Rightarrow> answer_to_sign_in (tc_sign_in c phone code h)))"
| "telegram_says E (ConfirmPassword n password) (AwaitsPassword phone h) =
     (case reached E n of
        None \<Rightarrow> NotReached
      | Some c \<Rightarrow> (case tc_sign_in_password c password of None \<Rightarrow> Accepted | Some f \<Rightarrow> Refused f))"
| "telegram_says E a g = Unasked"

text \<open>The protocol: the stage after an operation and what its caller is told, from the stage before and the answer alone.\<close>

fun session_of :: "auth_action \<Rightarrow> string" where
  "session_of (StartLogin n phone) = n"
| "session_of (ConfirmCode n code) = n"
| "session_of (ConfirmPassword n password) = n"
| "session_of (DeleteState n) = n"

fun login_next :: "auth_action \<Rightarrow> login_answer \<Rightarrow> login_stage \<Rightarrow> login_stage" where
  "login_next (StartLogin n phone) (CodeSent h) g = AwaitsCode phone h"
| "login_next (ConfirmCode n code) Accepted g = NoLogin"
| "login_next (ConfirmCode n code) PasswordAsked (AwaitsCode phone h) = AwaitsPassword phone h"
| "login_next (ConfirmPassword n password) Accepted g = NoLogin"
| "login_next (DeleteState n) r g = NoLogin"
| "login_next a r g = g"

datatype told = ToldSignedIn | ToldCodeSent | ToldPasswordNeeded | ToldError | ToldDone

fun told_next :: "auth_action \<Rightarrow> login_answer \<Rightarrow> told" where
  "told_next (StartLogin n phone) SignedInBefore = ToldSignedIn"
| "told_next (StartLogin n phone) (CodeSent h) = ToldCodeSent"
| "told_next (ConfirmCode n code) Accepted = ToldSignedIn"
| "told_next (ConfirmCode n code) PasswordAsked = ToldPasswordNeeded"
| "told_next (ConfirmPassword n password) Accepted = ToldSignedIn"
| "told_next (DeleteState n) r = ToldDone"
| "told_next a r = ToldError"

definition told_of_start :: "login_start res \<Rightarrow> told" where
  "told_of_start r =
     (case r of Inl e \<Rightarrow> ToldError
      | Inr x \<Rightarrow> if sr_already_authorized x \<and> \<not> sr_code_sent x then ToldSignedIn
                else if sr_code_sent x \<and> \<not> sr_already_authorized x then ToldCodeSent else ToldDone)"

definition told_of_code :: "login_code res \<Rightarrow> told" where
  "told_of_code r =
     (case r of Inl e \<Rightarrow> ToldError
      | Inr x \<Rightarrow> if cr_authorized x \<and> \<not> cr_requires_password x then ToldSignedIn
                else if cr_requires_password x \<and> \<not> cr_authorized x then ToldPasswordNeeded else ToldDone)"

fun auth_told :: "auth_env \<Rightarrow> auth_action \<Rightarrow> auth_store \<Rightarrow> told" where
  "auth_told E (StartLogin n phone) s = told_of_start (fst (start_login E n phone s))"
| "auth_told E (ConfirmCode n code) s = told_of_code (fst (confirm_code E n code s))"
| "auth_told E (ConfirmPassword n password) s =
     (case fst (confirm_password E n password s) of Inl e \<Rightarrow> ToldError | Inr b \<Rightarrow> if b then ToldSignedIn else ToldDone)"
| "auth_told E (DeleteState n) s = ToldDone"

text \<open>Every state of the store has the name of its key and a hash that is not empty.\<close>

definition auth_store_ok :: "auth_env \<Rightarrow> auth_store \<Rightarrow> bool" where
  "auth_store_ok E s \<longleftrightarrow>
     (\<forall>name st. auth_get E name s = Inr (Some st) \<longrightarrow> as_session_name st = name \<and> as_phone_code_hash st \<noteq> Some [])"

lemma required_auth_state_Inr: "required_auth_state E name s = Inr st \<longleftrightarrow> auth_get E name s = Inr (Some st)"
  by (auto simp: required_auth_state_def elim!: res_bind_InrE split: option.splits)

text \<open>What a login holds, and which client it talks to.\<close>

lemma login_stage_eq:
  "login_stage E s n =
     (case auth_get E n s of
        Inr (Some st) \<Rightarrow> (if as_requires_password st then AwaitsPassword else AwaitsCode) (as_phone_number st) (as_phone_code_hash st)
      | _ \<Rightarrow> NoLogin)"
  by (simp add: login_stage_def split: sum.split option.split)

lemma connected_reached:
  "case reached E n of Some c \<Rightarrow> connected_client E n = Inr c | None \<Rightarrow> \<exists>e. connected_client E n = Inl e"
  by (auto simp: reached_def connected_client_def new_client_def connect_client_def res_bind_def
      split: sum.split option.split client_failure.split)

lemma send_code_hash: "auth_env_ok E \<Longrightarrow> reached E n = Some c \<Longrightarrow> tc_send_code c phone \<noteq> Inr (Some [])"
  by (auto simp: auth_env_ok_def reached_def split: sum.splits if_splits)

section \<open>The protocol\<close>

lemma login_stage_put:
  assumes "auth_env_ok E" and "as_phone_code_hash st \<noteq> Some []"
  shows "login_stage E (auth_put E st s) n =
    (if n = as_session_name st
     then (if as_requires_password st then AwaitsPassword else AwaitsCode) (as_phone_number st) (as_phone_code_hash st)
     else login_stage E s n)"
  using auth_get_put [OF assms] by (simp add: login_stage_def)

lemma login_stage_delete: "login_stage E (auth_delete E other s) n = (if n = other then NoLogin else login_stage E s n)"
  by (simp add: login_stage_def auth_get_delete)

lemma auth_store_ok_put:
  assumes "auth_env_ok E" and "as_phone_code_hash st \<noteq> Some []" and "auth_store_ok E s"
  shows "auth_store_ok E (auth_put E st s)"
  using assms(2,3) auth_get_put [OF assms(1,2)] by (simp add: auth_store_ok_def)

lemma auth_store_ok_delete: "auth_store_ok E s \<Longrightarrow> auth_store_ok E (auth_delete E n s)"
  by (simp add: auth_store_ok_def auth_get_delete)

lemma login_next_start:
  "login_next (StartLogin m phone) r g = (case r of CodeSent h \<Rightarrow> AwaitsCode phone h | _ \<Rightarrow> g)"
  by (cases r) simp_all

lemma start_step:
  fixes m phone :: string and g :: login_stage
  assumes env: "auth_env_ok E" and ok: "auth_store_ok E s"
  defines "r \<equiv> telegram_says E (StartLogin m phone) g"
  shows "auth_store_ok E (snd (start_login E m phone s)) \<and>
    login_stage E (snd (start_login E m phone s)) n =
      (if n = m then login_next (StartLogin m phone) r (login_stage E s n) else login_stage E s n) \<and>
    told_of_start (fst (start_login E m phone s)) = told_next (StartLogin m phone) r"
proof (cases "reached E m")
  case None
  with connected_reached [of E m] obtain e where "connected_client E m = Inl e" by auto
  with None ok show ?thesis by (simp add: start_login_def r_def told_of_start_def)
next
  case (Some c)
  with connected_reached [of E m] have c: "connected_client E m = Inr c" by simp
  let ?st = "\<lambda>h. \<lparr>as_session_name = m, as_phone_number = phone, as_phone_code_hash = h, as_created_at = au_now E,
      as_updated_at = au_now E, as_requires_password = False\<rparr>"
  show ?thesis
  proof (cases "answer_to_start c phone")
    case (CodeSent h)
    then have sent: "tc_is_authorized c = Inr False" "tc_send_code c phone = Inr h"
      by (auto simp: answer_to_start_def split: sum.splits bool.splits)
    with send_code_hash [OF env Some, of phone] have h: "as_phone_code_hash (?st h) \<noteq> Some []" by simp
    show ?thesis
      using Some c CodeSent sent auth_store_ok_put [OF env h ok] login_stage_put [OF env h, of s n]
      by (simp add: start_login_def r_def told_of_start_def)
  qed (use Some c ok in \<open>auto simp: start_login_def r_def told_of_start_def answer_to_start_def login_next_start split: sum.splits bool.splits\<close>)
qed

lemma code_step:
  fixes m code :: string
  assumes env: "auth_env_ok E" and ok: "auth_store_ok E s"
  defines "r \<equiv> telegram_says E (ConfirmCode m code) (login_stage E s m)"
  shows "auth_store_ok E (snd (confirm_code E m code s)) \<and>
    login_stage E (snd (confirm_code E m code s)) n =
      (if n = m then login_next (ConfirmCode m code) r (login_stage E s n) else login_stage E s n) \<and>
    told_of_code (fst (confirm_code E m code s)) = told_next (ConfirmCode m code) r"
proof (cases "required_auth_state E m s")
  case (Inl e)
  then have "login_stage E s m = NoLogin"
    by (auto simp: required_auth_state_def login_stage_def res_bind_def split: sum.splits option.splits)
  with Inl ok show ?thesis by (simp add: confirm_code_def r_def told_of_code_def)
next
  case (Inr st)
  then have st: "auth_get E m s = Inr (Some st)" by (simp add: required_auth_state_Inr)
  then have name: "as_session_name st = m" "as_phone_code_hash st \<noteq> Some []" using ok by (auto simp: auth_store_ok_def)
  have stage: "login_stage E s m = (if as_requires_password st then AwaitsPassword else AwaitsCode) (as_phone_number st) (as_phone_code_hash st)"
    using st by (simp add: login_stage_eq)
  then have asked: "code_of_stage (login_stage E s m) = Some (as_phone_number st, as_phone_code_hash st)" by simp
  show ?thesis
  proof (cases "reached E m")
    case None
    with connected_reached [of E m] obtain e where "connected_client E m = Inl e" by auto
    with None Inr ok asked show ?thesis by (simp add: confirm_code_def r_def told_of_code_def)
  next
    case (Some c)
    with connected_reached [of E m] have c: "connected_client E m = Inr c" by simp
    let ?a = "tc_sign_in c (as_phone_number st) code (as_phone_code_hash st)"
    let ?st = "st\<lparr>as_updated_at := au_now E, as_requires_password := True\<rparr>"
    have r: "r = answer_to_sign_in ?a" using Some asked by (simp add: r_def)
    show ?thesis
    proof (cases "answer_to_sign_in ?a")
      case Accepted
      then have "?a = None" by (auto simp: answer_to_sign_in_def split: option.splits client_failure.splits)
      with Accepted r Inr c ok show ?thesis
        by (simp add: confirm_code_def told_of_code_def auth_store_ok_delete login_stage_delete)
    next
      case PasswordAsked
      then have "?a = Some SessionPasswordNeededError"
        by (auto simp: answer_to_sign_in_def split: option.splits client_failure.splits)
      moreover have "auth_store_ok E (auth_put E ?st s)" and "login_stage E (auth_put E ?st s) n =
          (if n = m then AwaitsPassword (as_phone_number st) (as_phone_code_hash st) else login_stage E s n)"
        using auth_store_ok_put [OF env _ ok, of ?st] login_stage_put [OF env, of ?st s n] name by simp_all
      ultimately show ?thesis
        using PasswordAsked r Inr c stage by (simp add: confirm_code_def told_of_code_def)
    next
      case (Refused f)
      then have "?a = Some f" and "f \<noteq> SessionPasswordNeededError"
        by (auto simp: answer_to_sign_in_def split: option.splits client_failure.splits)
      with Refused r Inr c ok show ?thesis
        by (cases f) (simp_all add: confirm_code_def told_of_code_def)
    qed (auto simp: answer_to_sign_in_def split: option.splits client_failure.splits)
  qed
qed

lemma password_step:
  fixes m password :: string
  assumes ok: "auth_store_ok E s"
  defines "r \<equiv> telegram_says E (ConfirmPassword m password) (login_stage E s m)"
  shows "auth_store_ok E (snd (confirm_password E m password s)) \<and>
    login_stage E (snd (confirm_password E m password s)) n =
      (if n = m then login_next (ConfirmPassword m password) r (login_stage E s n) else login_stage E s n) \<and>
    auth_told E (ConfirmPassword m password) s = told_next (ConfirmPassword m password) r"
proof (cases "\<exists>st. required_auth_state E m s = Inr st \<and> as_requires_password st")
  case False
  then have "\<forall>phone h. login_stage E s m \<noteq> AwaitsPassword phone h"
    by (auto simp: required_auth_state_Inr login_stage_eq split: sum.splits option.splits if_splits)
  then have r: "r = Unasked" by (cases "login_stage E s m") (simp_all add: r_def)
  obtain e where "confirm_password E m password s = (Inl e, s)"
    using False by (cases "required_auth_state E m s") (simp_all add: confirm_password_def)
  with r ok show ?thesis by simp
next
  case True
  then obtain st where st: "required_auth_state E m s = Inr st" "as_requires_password st" by blast
  then have stage: "login_stage E s m = AwaitsPassword (as_phone_number st) (as_phone_code_hash st)"
    by (simp add: required_auth_state_Inr login_stage_eq)
  show ?thesis
  proof (cases "reached E m")
    case None
    with connected_reached [of E m] obtain e where "connected_client E m = Inl e" by auto
    with None st stage ok show ?thesis by (simp add: confirm_password_def r_def)
  next
    case (Some c)
    with connected_reached [of E m] have c: "connected_client E m = Inr c" by simp
    with Some st stage ok show ?thesis
      by (simp add: confirm_password_def r_def auth_store_ok_delete login_stage_delete split: option.split)
  qed
qed

text \<open>The stage of a session other than the one an operation names is not looked at.\<close>

lemma step_follows_protocol:
  assumes env: "auth_env_ok E" and ok: "auth_store_ok E s"
  defines "r \<equiv> \<lambda>a. telegram_says E a (login_stage E s (session_of a))"
  shows "auth_store_ok E (auth_step E a s) \<and>
    login_stage E (auth_step E a s) n =
      (if n = session_of a then login_next a (r a) (login_stage E s n) else login_stage E s n) \<and>
    auth_told E a s = told_next a (r a)"
proof (cases a)
  case (StartLogin m phone)
  then show ?thesis
    using start_step [OF env ok, where m = m and phone = phone and n = n and g = "login_stage E s m"]
    by (auto simp: r_def)
next
  case (ConfirmCode m code)
  then show ?thesis using code_step [OF env ok, of m code n] by (simp add: r_def)
next
  case (ConfirmPassword m password)
  then show ?thesis using password_step [OF ok, of m password n] by (simp add: r_def)
next
  case (DeleteState m)
  then show ?thesis using ok by (simp add: r_def auth_store_ok_delete login_stage_delete)
qed

text \<open>Later, a state is the same or it has expired.\<close>

definition later_env :: "auth_env \<Rightarrow> auth_env \<Rightarrow> bool" where
  "later_env E E' \<longleftrightarrow> au_prefix E' = au_prefix E \<and> au_text E' = au_text E \<and> au_now E \<le> au_now E'"

lemma auth_get_later: "later_env E E' \<Longrightarrow> auth_get E' n s = auth_get E n s \<or> auth_get E' n s = Inr None"
  by (auto simp: auth_get_def later_env_def auth_key_def auth_of_payload_def split: option.split)

lemma login_stage_later: "later_env E E' \<Longrightarrow> login_stage E' s n = login_stage E s n \<or> login_stage E' s n = NoLogin"
  using auth_get_later [of E E' n s] by (auto simp: login_stage_def)

lemma auth_store_ok_later: "later_env E E' \<Longrightarrow> auth_store_ok E s \<Longrightarrow> auth_store_ok E' s"
  using auth_get_later [of E E'] unfolding auth_store_ok_def by (metis option.distinct(1) sum.inject(2))

section \<open>Runs\<close>

fun auth_run :: "(auth_env \<times> auth_action) list \<Rightarrow> auth_store \<Rightarrow> auth_store" where
  "auth_run [] s = s"
| "auth_run ((E, a) # xs) s = auth_run xs (auth_step E a s)"

fun auth_run_ok :: "auth_env \<Rightarrow> (auth_env \<times> auth_action) list \<Rightarrow> auth_env \<Rightarrow> bool" where
  "auth_run_ok E [] E2 \<longleftrightarrow> later_env E E2"
| "auth_run_ok E ((E1, a) # xs) E2 \<longleftrightarrow> later_env E E1 \<and> auth_env_ok E1 \<and> auth_run_ok E1 xs E2"

text \<open>
  In a history of operations, each with what Telegram would answer then: Telegram sent a code for the session to a phone,
  and later accepted a code as the one it had sent, asking for the password; no other code was sent for the session since.
\<close>

definition sent_code :: "auth_env \<times> auth_action \<Rightarrow> string \<Rightarrow> string \<Rightarrow> string option \<Rightarrow> bool" where
  "sent_code x n phone h \<longleftrightarrow> snd x = StartLogin n phone \<and>
     (\<exists>c. reached (fst x) n = Some c \<and> tc_is_authorized c = Inr False \<and> tc_send_code c phone = Inr h)"

definition accepted_code :: "auth_env \<times> auth_action \<Rightarrow> string \<Rightarrow> string \<Rightarrow> string option \<Rightarrow> bool" where
  "accepted_code x n phone h \<longleftrightarrow>
     (\<exists>code c. snd x = ConfirmCode n code \<and> reached (fst x) n = Some c \<and>
        tc_sign_in c phone code h = Some SessionPasswordNeededError)"

definition no_new_code :: "(auth_env \<times> auth_action) list \<Rightarrow> string \<Rightarrow> bool" where
  "no_new_code hist n \<longleftrightarrow> (\<forall>x \<in> set hist. \<forall>phone h. \<not> sent_code x n phone h)"

definition code_requested :: "(auth_env \<times> auth_action) list \<Rightarrow> string \<Rightarrow> string \<Rightarrow> string option \<Rightarrow> bool" where
  "code_requested hist n phone h \<longleftrightarrow>
     (\<exists>before x after. hist = before @ x # after \<and> sent_code x n phone h \<and> no_new_code after n)"

definition code_confirmed :: "(auth_env \<times> auth_action) list \<Rightarrow> string \<Rightarrow> string \<Rightarrow> string option \<Rightarrow> bool" where
  "code_confirmed hist n phone h \<longleftrightarrow>
     (\<exists>before x between y after. hist = before @ x # between @ y # after \<and> sent_code x n phone h \<and>
        accepted_code y n phone h \<and> no_new_code (between @ y # after) n)"

definition stage_explained :: "(auth_env \<times> auth_action) list \<Rightarrow> auth_env \<Rightarrow> auth_store \<Rightarrow> bool" where
  "stage_explained hist E s \<longleftrightarrow>
     (\<forall>n phone h. (login_stage E s n = AwaitsCode phone h \<longrightarrow> code_requested hist n phone h) \<and>
       (login_stage E s n = AwaitsPassword phone h \<longrightarrow> code_confirmed hist n phone h))"

lemma no_new_code_simps [simp]:
  "no_new_code [] n"
  "no_new_code (xs @ ys) n \<longleftrightarrow> no_new_code xs n \<and> no_new_code ys n"
  "no_new_code (x # xs) n \<longleftrightarrow> (\<forall>phone h. \<not> sent_code x n phone h) \<and> no_new_code xs n"
  by (auto simp: no_new_code_def)

lemma code_history_grows:
  assumes "\<And>p k. \<not> sent_code x n p k"
  shows "code_requested hist n phone h \<Longrightarrow> code_requested (hist @ [x]) n phone h"
    and "code_confirmed hist n phone h \<Longrightarrow> code_confirmed (hist @ [x]) n phone h"
proof -
  assume "code_requested hist n phone h"
  then obtain before y after where "hist = before @ y # after" "sent_code y n phone h" "no_new_code after n"
    unfolding code_requested_def by blast
  with assms show "code_requested (hist @ [x]) n phone h"
    unfolding code_requested_def by (intro exI [of _ before] exI [of _ y] exI [of _ "after @ [x]"]) simp
next
  assume "code_confirmed hist n phone h"
  then obtain before y between z after where "hist = before @ y # between @ z # after" "sent_code y n phone h"
    "accepted_code z n phone h" "no_new_code (between @ z # after) n"
    unfolding code_confirmed_def by blast
  with assms show "code_confirmed (hist @ [x]) n phone h"
    unfolding code_confirmed_def
    by (intro exI [of _ before] exI [of _ y] exI [of _ between] exI [of _ z] exI [of _ "after @ [x]"]) simp
qed

lemma code_requested_now: "sent_code x n phone h \<Longrightarrow> code_requested (hist @ [x]) n phone h"
  unfolding code_requested_def by (intro exI [of _ hist] exI [of _ x] exI [of _ "[]"]) simp

lemma code_confirmed_now:
  assumes "code_requested hist n phone h" and "accepted_code x n phone h"
  shows "code_confirmed (hist @ [x]) n phone h"
proof -
  obtain before y after where "hist = before @ y # after" "sent_code y n phone h" "no_new_code after n"
    using assms(1) unfolding code_requested_def by blast
  moreover have "\<not> sent_code x n p k" for p k using assms(2) by (auto simp: accepted_code_def sent_code_def)
  ultimately show ?thesis
    using assms(2) unfolding code_confirmed_def
    by (intro exI [of _ before] exI [of _ y] exI [of _ after] exI [of _ x] exI [of _ "[]"]) simp
qed

lemma stage_explained_later: "later_env E E' \<Longrightarrow> stage_explained hist E s \<Longrightarrow> stage_explained hist E' s"
  using login_stage_later [of E E'] unfolding stage_explained_def by (metis login_stage.distinct(1,3))

text \<open>The two answers that move a session into a stage, and that every other operation sends no code for it.\<close>

lemma says_sent: "telegram_says E (StartLogin n phone) g = CodeSent h \<longleftrightarrow> sent_code (E, StartLogin n phone) n phone h"
  by (auto simp: sent_code_def answer_to_start_def split: option.splits sum.splits bool.splits)

lemma says_password_asked:
  "telegram_says E (ConfirmCode n code) (AwaitsCode phone h) = PasswordAsked \<Longrightarrow> accepted_code (E, ConfirmCode n code) n phone h"
  by (auto simp: accepted_code_def answer_to_sign_in_def split: option.splits client_failure.splits)

lemma login_next_moved:
  assumes "g' = login_next a r g" and "g' \<noteq> g" and "\<nexists>h. r = CodeSent h"
    and "\<not> (\<exists>code. a = ConfirmCode (session_of a) code \<and> r = PasswordAsked)"
  shows "g' = NoLogin"
  using assms by (cases a; cases r; cases g) simp_all

lemma answer_not_sent: "answer_to_sign_in r \<noteq> CodeSent h"
  by (auto simp: answer_to_sign_in_def split: option.split client_failure.split)

lemma says_code_sent: "telegram_says E a g = CodeSent h \<Longrightarrow> \<exists>phone. a = StartLogin (session_of a) phone"
  using answer_not_sent by (cases a; cases g) (auto split: option.splits)

lemma not_sent: "telegram_says E a g \<noteq> CodeSent h \<or> session_of a \<noteq> n \<Longrightarrow> \<not> sent_code (E, a) n phone h"
  using says_sent [of E n phone g h] by (auto simp: sent_code_def)

lemma stage_explained_step:
  assumes env: "auth_env_ok E" and ok: "auth_store_ok E s" and hist: "stage_explained hist E s"
  shows "stage_explained (hist @ [(E, a)]) E (auth_step E a s)"
  unfolding stage_explained_def
proof (intro allI)
  fix n phone h
  let ?r = "telegram_says E a (login_stage E s (session_of a))"
  let ?g = "login_stage E (auth_step E a s) n"
  have g: "?g = (if n = session_of a then login_next a ?r (login_stage E s n) else login_stage E s n)"
    using step_follows_protocol [OF env ok, of a n] by simp
  show "(?g = AwaitsCode phone h \<longrightarrow> code_requested (hist @ [(E, a)]) n phone h) \<and>
    (?g = AwaitsPassword phone h \<longrightarrow> code_confirmed (hist @ [(E, a)]) n phone h)"
  proof (cases "\<exists>k. ?r = CodeSent k \<and> session_of a = n")
    case True
    then obtain k p where a: "a = StartLogin n p" "?r = CodeSent k"
      using says_code_sent by blast
    then have "sent_code (E, a) n p k" using says_sent by auto
    with a g show ?thesis using code_requested_now by auto
  next
    case False
    then have none: "\<And>p k. \<not> sent_code (E, a) n p k" using not_sent by blast
    note grows = code_history_grows [OF none, of hist phone h]
    show ?thesis
    proof (cases "?g = login_stage E s n")
      case True
      then show ?thesis using hist grows by (simp add: stage_explained_def)
    next
      case moved: False
      with g have n: "n = session_of a" "?g = login_next a ?r (login_stage E s n)" by (auto split: if_splits)
      show ?thesis
      proof (cases "\<exists>code. a = ConfirmCode n code \<and> ?r = PasswordAsked")
        case True
        then obtain code where a: "a = ConfirmCode n code" "?r = PasswordAsked" by blast
        have eq: "?g = login_next (ConfirmCode n code) PasswordAsked (login_stage E s n)"
          using n(2) unfolding a(2) by (simp only: a(1))
        with moved obtain p k where st: "login_stage E s n = AwaitsCode p k" "?g = AwaitsPassword p k"
          by (cases "login_stage E s n") simp_all
        have "telegram_says E (ConfirmCode n code) (AwaitsCode p k) = PasswordAsked"
          using a(2) unfolding n(1) [symmetric] st(1) by (simp only: a(1))
        then have "accepted_code (E, a) n p k" unfolding a(1) by (rule says_password_asked)
        moreover have "code_requested hist n p k" using hist st(1) by (simp add: stage_explained_def)
        ultimately have "code_confirmed (hist @ [(E, a)]) n p k" by (rule code_confirmed_now [rotated])
        then show ?thesis using st(2) by auto
      next
        case same: False
        have "\<nexists>k. ?r = CodeSent k" using False n(1) by blast
        moreover have "\<not> (\<exists>code. a = ConfirmCode (session_of a) code \<and> ?r = PasswordAsked)"
          using same unfolding n(1) .
        ultimately have "?g = NoLogin" by (rule login_next_moved [OF n(2) moved])
        then show ?thesis by simp
      qed
    qed
  qed
qed

lemma run_explained:
  "auth_run_ok E xs E2 \<Longrightarrow> auth_store_ok E s \<Longrightarrow> stage_explained hist E s \<Longrightarrow>
   auth_store_ok E2 (auth_run xs s) \<and> stage_explained (hist @ xs) E2 (auth_run xs s)"
proof (induction xs arbitrary: E s hist)
  case Nil
  then show ?case using auth_store_ok_later stage_explained_later by simp
next
  case (Cons x xs)
  obtain E1 a where x: "x = (E1, a)" by (cases x)
  with Cons.prems have E1: "later_env E E1" "auth_env_ok E1" "auth_run_ok E1 xs E2" by simp_all
  then have ok: "auth_store_ok E1 s" "stage_explained hist E1 s"
    using Cons.prems auth_store_ok_later stage_explained_later by blast+
  show ?case
    using Cons.IH [OF E1(3), of "auth_step E1 a s" "hist @ [(E1, a)]"] step_follows_protocol [OF E1(2) ok(1)]
      stage_explained_step [OF E1(2) ok]
    by (simp add: x)
qed


section \<open>Properties\<close>

text \<open>
  C30. Every operation of the login, over states kept as texts in a store that forgets, is the protocol: the stage of the
  session it names and what its caller is told are those the protocol gives from the stage before and what Telegram answers
  in it, and the stage of every other session stays. So a code is awaited exactly after Telegram sent one, the password
  exactly after Telegram accepted that code and asked for it, and a login ends exactly when Telegram accepts or it is given up.
\<close>

theorem login_follows_protocol:
  assumes "auth_env_ok E" and "auth_store_ok E s"
  shows "auth_store_ok E (auth_step E a s) \<and>
    login_stage E (auth_step E a s) n =
      (if n = session_of a
       then login_next a (telegram_says E a (login_stage E s n)) (login_stage E s n) else login_stage E s n) \<and>
    auth_told E a s = told_next a (telegram_says E a (login_stage E s (session_of a)))"
  using step_follows_protocol [OF assms, of a n] by auto

text \<open>
  C31. A password is accepted only if Telegram accepts it, and only for a session for which Telegram had sent a code to some
  phone and later accepted a code for just that phone and that request, with no other code sent for the session since; however
  the operations of all sessions are mixed, whatever Telegram answers and whenever the states expire.
\<close>

theorem password_needs_code:
  assumes "auth_run_ok E0 xs E" and "confirm_password E n password (auth_run xs []) = (Inr b, s)"
  shows "b \<and> (\<exists>c. reached E n = Some c \<and> tc_sign_in_password c password = None) \<and>
    (\<exists>phone h before x between y after. xs = before @ x # between @ y # after \<and> sent_code x n phone h \<and>
       accepted_code y n phone h \<and> no_new_code (between @ y # after) n)"
proof -
  have "auth_store_ok E0 []" "stage_explained [] E0 []"
    by (simp_all add: auth_store_ok_def stage_explained_def login_stage_def auth_get_def)
  with run_explained [OF assms(1)] have explained: "stage_explained xs E (auth_run xs [])" by fastforce
  obtain st c where st: "auth_get E n (auth_run xs []) = Inr (Some st)" "as_requires_password st"
    "connected_client E n = Inr c" "tc_sign_in_password c password = None" "b"
    using assms(2) by (auto simp: confirm_password_def required_auth_state_Inr split: sum.splits if_splits option.splits)
  then have "login_stage E (auth_run xs []) n = AwaitsPassword (as_phone_number st) (as_phone_code_hash st)"
    by (simp add: login_stage_def)
  moreover have "reached E n = Some c" using connected_reached [of E n] st(3) by (auto split: option.splits)
  ultimately show ?thesis
    using explained st(4,5) unfolding stage_explained_def code_confirmed_def by blast
qed

text \<open>The name of a session is a single part of a path.\<close>

lemma sanitized_name_safe:
  assumes "sanitize_session_name name = Inr n"
  shows "CHR ''/'' \<notin> set n \<and> n \<noteq> ''.'' \<and> n \<noteq> ''..'' \<and> 3 \<le> length n \<and> length n \<le> 80 \<and> sanitize_session_name n = Inr n"
proof -
  have n: "n = strip name" "list_all is_session_char n" "3 \<le> length n" "length n \<le> 80"
    using assms by (auto simp: sanitize_session_name_def Let_def split: if_splits)
  have "\<not> is_session_char CHR ''/''" by code_simp
  moreover have "\<not> is_space c" if "is_session_char c" for c
    using that alnum_not_space by (auto simp: is_session_char_def is_space_def code_of_def)
  then have "strip n = n"
    using n(2) by (intro strip_spaceless) (auto simp: list_all_iff)
  moreover have "n \<noteq> []" using n(3) by auto
  ultimately show ?thesis
    using n by (auto simp: list_all_iff sanitize_session_name_def Let_def)
qed

text \<open>
  The file a session is looked for in loses what follows the last dot of the name: two different sessions with a dot are
  looked for in the same file.
\<close>

theorem dotted_sessions_share_file:
  assumes "sanitize_session_name (base @ ''.'' @ x) = Inr (base @ ''.'' @ x)" "sanitize_session_name (base @ ''.'' @ y) = Inr (base @ ''.'' @ y)"
    and "base \<noteq> []" "x \<noteq> []" "y \<noteq> []" "CHR ''.'' \<notin> set x" "CHR ''.'' \<notin> set y"
  shows "session_file_path (base @ ''.'' @ x) = Inr (base @ ''.session'') \<and>
    session_file_path (base @ ''.'' @ y) = Inr (base @ ''.session'')"
proof -
  have "with_session_suffix (base @ ''.'' @ z) = base @ ''.session''" if "z \<noteq> []" "CHR ''.'' \<notin> set z" for z
  proof -
    have "takeWhile (\<lambda>c. c \<noteq> CHR ''.'') (rev (base @ ''.'' @ z)) = rev z"
      using that(2) by (simp, subst takeWhile_append2) auto
    then show ?thesis using that(1) assms(3) by (simp add: with_session_suffix_def Let_def)
  qed
  then show ?thesis using assms by (simp add: session_file_path_def)
qed

text \<open>
  A name with spaces around it and the name without them are one session file but two logins: after the code was sent
  for the one, the other has no login to confirm.
\<close>

theorem padded_name_two_logins:
  assumes "start_login E (CHR 0x20 # n) phone [] = (Inr r, s)" and "sr_code_sent r" and "sanitize_session_name n = Inr n"
  shows "new_client E (CHR 0x20 # n) = new_client E n \<and> confirm_code E n code s = (Inl (KeyError n), s)"
proof -
  have "strip (CHR 0x20 # n) = strip n" by (simp add: strip_def lstrip_def is_space_def code_of_def)
  then have "sanitize_session_name (CHR 0x20 # n) = sanitize_session_name n" by (simp add: sanitize_session_name_def)
  moreover have "\<exists>h. s = auth_put E \<lparr>as_session_name = CHR 0x20 # n, as_phone_number = phone, as_phone_code_hash = h,
      as_created_at = au_now E, as_updated_at = au_now E, as_requires_password = False\<rparr> []"
    using assms(1,2) by (auto simp: start_login_def split: sum.splits bool.splits)
  then have "auth_get E n s = Inr None" by (auto simp: auth_get_def auth_put_def auth_key_def)
  ultimately show ?thesis by (simp add: new_client_def confirm_code_def required_auth_state_def)
qed

section \<open>Witnesses\<close>

text \<open>A client that sends codes and asks for a password after any of them.\<close>

definition sample_client :: telegram_client where
  "sample_client = \<lparr>tc_connect = None, tc_is_authorized = Inr False, tc_send_code = (\<lambda>phone. Inr (Some ''h'')),
     tc_sign_in = (\<lambda>phone code h. Some SessionPasswordNeededError), tc_sign_in_password = (\<lambda>pw. None), tc_get_entity = (\<lambda>i. Inr None)\<rparr>"

definition sample_auth_env :: "time \<Rightarrow> auth_env" where
  "sample_auth_env t = \<lparr>au_has_credentials = True, au_prefix = ''p'', au_text = sample_env, au_failure_text = (\<lambda>f. []),
     au_client = (\<lambda>n. sample_client), au_files = [], au_now = t\<rparr>"

lemma sample_auth_env_ok: "auth_env_ok (sample_auth_env t)"
  by (simp add: auth_env_ok_def sample_auth_env_def sample_env_def sample_client_def)

theorem login_follows_protocol_witness:
  "login_stage (sample_auth_env 0) (auth_step (sample_auth_env 0) (StartLogin ''acc'' ''998'') []) ''acc'' =
     AwaitsCode ''998'' (Some ''h'')"
proof -
  have "telegram_says (sample_auth_env 0) (StartLogin ''acc'' ''998'') NoLogin = CodeSent (Some ''h'')" by code_simp
  then show ?thesis
    using login_follows_protocol [OF sample_auth_env_ok, of 0 "[]" "StartLogin ''acc'' ''998''" "''acc''"]
    by (simp add: auth_store_ok_def auth_get_def login_stage_def [of _ "[]"])
qed

theorem password_needs_code_witness:
  "\<exists>phone h. accepted_code (sample_auth_env 5, ConfirmCode ''acc'' ''12345'') ''acc'' phone h \<and>
     sent_code (sample_auth_env 0, StartLogin ''acc'' ''998'') ''acc'' phone h"
proof -
  let ?xs = "[(sample_auth_env 0, StartLogin ''acc'' ''998''), (sample_auth_env 5, ConfirmCode ''acc'' ''12345'')]"
  have "auth_run_ok (sample_auth_env 0) ?xs (sample_auth_env 9)"
    by (simp add: sample_auth_env_ok) (simp add: later_env_def sample_auth_env_def)
  moreover have "fst (confirm_password (sample_auth_env 9) ''acc'' ''pw'' (auth_run ?xs [])) = Inr True"
    by code_simp
  then obtain s where "confirm_password (sample_auth_env 9) ''acc'' ''pw'' (auth_run ?xs []) = (Inr True, s)"
    by (metis prod.collapse)
  ultimately obtain phone h before x between y after where xs: "?xs = before @ x # between @ y # after"
    and who: "sent_code x ''acc'' phone h" "accepted_code y ''acc'' phone h"
    using password_needs_code [of "sample_auth_env 0" ?xs "sample_auth_env 9" "''acc''" "''pw''" True s] by blast
  have "length before = 0 \<and> length between = 0 \<and> length after = 0"
    using arg_cong [OF xs, of length] by simp
  with xs who show ?thesis by auto
qed

theorem dotted_sessions_share_file_witness:
  "session_file_path ''acc.one'' = session_file_path ''acc.two''"
proof -
  have "sanitize_session_name ''acc.one'' = Inr ''acc.one''" "sanitize_session_name ''acc.two'' = Inr ''acc.two''" by code_simp+
  with dotted_sessions_share_file [of "''acc''" "''one''" "''two''"] show ?thesis by simp
qed

theorem padded_name_two_logins_witness:
  "\<exists>s. confirm_code (sample_auth_env 0) ''acc'' ''12345'' s = (Inl (KeyError ''acc''), s) \<and> s \<noteq> []"
proof -
  let ?x = "start_login (sample_auth_env 0) (CHR 0x20 # ''acc'') ''998'' []"
  have "(case fst ?x of Inr r \<Rightarrow> sr_code_sent r | _ \<Rightarrow> False) \<and> snd ?x \<noteq> [] \<and> sanitize_session_name ''acc'' = Inr ''acc''"
    by code_simp
  then obtain r s where "?x = (Inr r, s)" "sr_code_sent r" "s \<noteq> []" "sanitize_session_name ''acc'' = Inr ''acc''"
    by (cases ?x) (auto split: sum.splits)
  with padded_name_two_logins [of "sample_auth_env 0" "''acc''" "''998''" r s] show ?thesis by blast
qed

end
