(* ===== verification/EF_Analytics.thy ===== *)
theory EF_Analytics
  imports EF_Text EF_Once "HOL-Library.Product_Lexorder" "HOL-Library.Multiset"
begin

text \<open>
  Product and technical metrics (\<open>services/analytics.py\<close>): events recorded once per idempotency key, the ratios of the beta
  snapshot, the buckets of product events and the snapshot of technical events. A moment is an instant: the recorder turns
  every moment into UTC, so comparing two of them never fails. Floats are exact rationals. A day is counted from the epoch,
  and the end of the calendar is out of reach.
\<close>

section \<open>Events\<close>

datatype analytics_event_name =
    UserRegistered
  | SearchCompleted
  | SavedFilterCreated
  | ReferralAccepted
  | ReferralActivated
  | NotificationSent
  | NotificationDeliveryFailed
  | NotificationActionOpen
  | NotificationActionSearch
  | NotificationActionRead

fun analytics_event_text :: "analytics_event_name \<Rightarrow> string" where
  "analytics_event_text UserRegistered = ''user_registered''"
| "analytics_event_text SearchCompleted = ''search_completed''"
| "analytics_event_text SavedFilterCreated = ''saved_filter_created''"
| "analytics_event_text ReferralAccepted = ''referral_accepted''"
| "analytics_event_text ReferralActivated = ''referral_activated''"
| "analytics_event_text NotificationSent = ''notification_sent''"
| "analytics_event_text NotificationDeliveryFailed = ''notification_delivery_failed''"
| "analytics_event_text NotificationActionOpen = ''notification_action_open''"
| "analytics_event_text NotificationActionSearch = ''notification_action_search''"
| "analytics_event_text NotificationActionRead = ''notification_action_read''"

definition NOTIFICATION_ENGAGEMENT_EVENTS :: "analytics_event_name list" where
  "NOTIFICATION_ENGAGEMENT_EVENTS = [NotificationActionOpen, NotificationActionSearch, NotificationActionRead]"

definition ACTIVATION_EVENTS :: "analytics_event_name list" where
  "ACTIVATION_EVENTS = [SearchCompleted, SavedFilterCreated]"

datatype technical_metric_name =
    QueueDelayMs
  | AiFallbackAttempt
  | AiValidationFailure
  | DedupDecision
  | NotificationRetry
  | NotificationError
  | ListenerHealth
  | SourceParserDecision

record analytics_event =
  ae_name :: analytics_event_name
  ae_key :: string
  ae_at :: time
  ae_user :: "int option"
  ae_subject :: "string option"
  ae_metadata :: "(string, string) dict"

record technical_event =
  te_name :: technical_metric_name
  te_key :: string
  te_at :: time
  te_value :: rat
  te_component :: "string option"
  te_subject :: "string option"
  te_metadata :: "(string, string) dict"

type_synonym analytics_store = "(string, analytics_event) dict"
type_synonym technical_store = "(string, technical_event) dict"

section \<open>Recording\<close>

definition analytics_repository :: "analytics_event list \<Rightarrow> analytics_store" where
  "analytics_repository es = fold (\<lambda>e. dict_put (ae_key e) e) es []"

definition record_once :: "analytics_event \<Rightarrow> analytics_store \<Rightarrow> bool \<times> analytics_store" where
  "record_once e s = (if dict_get s (ae_key e) \<noteq> None then (False, s) else (True, dict_put (ae_key e) e s))"

definition list_events :: "time \<Rightarrow> time \<Rightarrow> analytics_store \<Rightarrow> analytics_event list" where
  "list_events start_at end_at s = filter (\<lambda>e. start_at \<le> ae_at e \<and> ae_at e < end_at) (dict_values s)"

definition technical_repository :: "technical_event list \<Rightarrow> technical_store" where
  "technical_repository es = fold (\<lambda>e. dict_put (te_key e) e) es []"

definition record_metric_once :: "technical_event \<Rightarrow> technical_store \<Rightarrow> bool \<times> technical_store" where
  "record_metric_once e s = (if dict_get s (te_key e) \<noteq> None then (False, s) else (True, dict_put (te_key e) e s))"

definition list_metrics :: "time \<Rightarrow> time \<Rightarrow> technical_store \<Rightarrow> technical_event list" where
  "list_metrics start_at end_at s = filter (\<lambda>e. start_at \<le> te_at e \<and> te_at e < end_at) (dict_values s)"

text \<open>The recorders over any repository; the clock is an argument.\<close>

definition record_event ::
  "(analytics_event \<Rightarrow> 's \<Rightarrow> 'r) \<Rightarrow> time \<Rightarrow> analytics_event_name \<Rightarrow> string \<Rightarrow> time option \<Rightarrow> int option \<Rightarrow> string option \<Rightarrow>
   (string, string) dict option \<Rightarrow> 's \<Rightarrow> 'r" where
  "record_event put now name key occurred_at user subject metadata s =
     put \<lparr>ae_name = name, ae_key = key, ae_at = (case occurred_at of None \<Rightarrow> now | Some t \<Rightarrow> t), ae_user = user,
       ae_subject = subject, ae_metadata = (case metadata of None \<Rightarrow> [] | Some m \<Rightarrow> m)\<rparr> s"

definition record_technical ::
  "(technical_event \<Rightarrow> 's \<Rightarrow> 'r) \<Rightarrow> time \<Rightarrow> technical_metric_name \<Rightarrow> string \<Rightarrow> time option \<Rightarrow> rat \<Rightarrow> string option \<Rightarrow> string option \<Rightarrow>
   (string, string) dict option \<Rightarrow> 's \<Rightarrow> 'r" where
  "record_technical put now name key occurred_at v component subject metadata s =
     put \<lparr>te_name = name, te_key = key, te_at = (case occurred_at of None \<Rightarrow> now | Some t \<Rightarrow> t), te_value = v,
       te_component = component, te_subject = subject, te_metadata = (case metadata of None \<Rightarrow> [] | Some m \<Rightarrow> m)\<rparr> s"

text \<open>Recording that must not fail: without a recorder nothing happens, and an exception of the repository is swallowed.\<close>

definition safe_record_event :: "('e \<Rightarrow> 's \<Rightarrow> bool res \<times> 's) option \<Rightarrow> 'e \<Rightarrow> 's \<Rightarrow> 's" where
  "safe_record_event recorder e s = (case recorder of None \<Rightarrow> s | Some r \<Rightarrow> snd (r e s))"

section \<open>Counting\<close>

definition count_up :: "'k \<Rightarrow> ('k, nat) dict \<Rightarrow> ('k, nat) dict" where
  "count_up k d = dict_put k ((case dict_get d k of None \<Rightarrow> 0 | Some n \<Rightarrow> n) + 1) d"

definition tally :: "'k list \<Rightarrow> ('k, nat) dict" where
  "tally ks = fold count_up ks []"

datatype granularity = Hourly | Daily

definition bucket_start :: "granularity \<Rightarrow> time \<Rightarrow> time" where
  "bucket_start g t = t - t mod (case g of Hourly \<Rightarrow> seconds 3600 | Daily \<Rightarrow> seconds 86400)"

record product_bucket =
  pb_start :: time
  pb_name :: analytics_event_name
  pb_count :: nat

definition event_buckets :: "granularity \<Rightarrow> time \<Rightarrow> time \<Rightarrow> analytics_event list \<Rightarrow> product_bucket list" where
  "event_buckets g start_at end_at es =
     (let counts = tally (map (\<lambda>e. (bucket_start g (ae_at e), ae_name e)) (filter (\<lambda>e. start_at \<le> ae_at e \<and> ae_at e < end_at) es))
      in map (\<lambda>((b, name), n). \<lparr>pb_start = b, pb_name = name, pb_count = n\<rparr>)
           (py_sort (\<lambda>((b, name), n). (b, analytics_event_text name)) counts))"

section \<open>Technical metrics\<close>

record technical_snapshot =
  ts_queue_delay_avg_ms :: "rat option"
  ts_queue_delay_samples :: nat
  ts_ai_fallback_count :: nat
  ts_ai_validation_failure_count :: nat
  ts_dedup_duplicate_rate :: "rat option"
  ts_dedup_duplicate_count :: nat
  ts_dedup_total_count :: nat
  ts_notification_retry_count :: nat
  ts_notification_error_count :: nat
  ts_listener_health_counts :: "(string, nat) dict"
  ts_source_parser_decision_count :: nat
  ts_source_parser_decision_counts :: "(string, nat) dict"
  ts_source_parser_source_counts :: "(string, (string, nat) dict) dict"

definition metric_events :: "technical_metric_name \<Rightarrow> technical_event list \<Rightarrow> technical_event list" where
  "metric_events name es = filter (\<lambda>e. te_name e = name) es"

definition is_duplicate_decision :: "technical_event \<Rightarrow> bool" where
  "is_duplicate_decision e \<longleftrightarrow> dict_get (te_metadata e) ''decision'' \<in> {Some ''exact_duplicate'', Some ''high_confidence_duplicate''}"

definition listener_health :: "technical_event \<Rightarrow> string" where
  "listener_health e = (case dict_get (te_metadata e) ''status'' of None \<Rightarrow> ''unknown'' | Some st \<Rightarrow> st)"

definition listener_latest :: "technical_event list \<Rightarrow> (string, string) dict" where
  "listener_latest es =
     fold (\<lambda>e d. case te_subject e of
         Some k \<Rightarrow> if te_name e = ListenerHealth then dict_put k (listener_health e) d else d
       | None \<Rightarrow> d) (py_sort te_at es) []"

definition parser_decision :: "technical_event \<Rightarrow> string" where
  "parser_decision e = (case dict_get (te_metadata e) ''decision'' of None \<Rightarrow> ''unknown'' | Some x \<Rightarrow> x)"

definition parser_source :: "technical_event \<Rightarrow> string" where
  "parser_source e =
     (if dict_get (te_metadata e) ''source_id'' \<notin> {None, Some []} then the (dict_get (te_metadata e) ''source_id'')
      else if te_subject e \<notin> {None, Some []} then the (te_subject e) else ''unknown'')"

definition count_source :: "technical_event \<Rightarrow> (string, (string, nat) dict) dict \<Rightarrow> (string, (string, nat) dict) dict" where
  "count_source e d =
     dict_put (parser_source e) (count_up (parser_decision e) (case dict_get d (parser_source e) of None \<Rightarrow> [] | Some c \<Rightarrow> c)) d"

definition technical_snapshot_of :: "technical_event list \<Rightarrow> technical_snapshot" where
  "technical_snapshot_of es =
     (let delays = map te_value (metric_events QueueDelayMs es);
          dedup = metric_events DedupDecision es;
          duplicates = length (filter is_duplicate_decision dedup);
          parsed = metric_events SourceParserDecision es in
      \<lparr>ts_queue_delay_avg_ms = (if delays = [] then None else Some (sum_list delays / of_nat (length delays))),
       ts_queue_delay_samples = length delays,
       ts_ai_fallback_count = length (metric_events AiFallbackAttempt es),
       ts_ai_validation_failure_count = length (metric_events AiValidationFailure es),
       ts_dedup_duplicate_rate = (if dedup = [] then None else Some (of_nat duplicates / of_nat (length dedup))),
       ts_dedup_duplicate_count = duplicates,
       ts_dedup_total_count = length dedup,
       ts_notification_retry_count = length (metric_events NotificationRetry es),
       ts_notification_error_count = length (metric_events NotificationError es),
       ts_listener_health_counts = tally (dict_values (listener_latest es)),
       ts_source_parser_decision_count = length parsed,
       ts_source_parser_decision_counts = tally (map parser_decision parsed),
       ts_source_parser_source_counts = fold count_source parsed []\<rparr>)"

section \<open>The beta snapshot\<close>

record metric_ratio =
  mr_numerator :: nat
  mr_denominator :: nat
  mr_rate :: "rat option"
  mr_missing_data :: string

definition ratio :: "nat \<Rightarrow> nat \<Rightarrow> string \<Rightarrow> metric_ratio" where
  "ratio n d missing =
     \<lparr>mr_numerator = n, mr_denominator = d, mr_rate = (if d = 0 then None else Some (of_nat n / of_nat d)), mr_missing_data = missing\<rparr>"

text \<open>The dictionary of registrations: a later event of the same user replaces the moment of an earlier one.\<close>

definition registrations :: "analytics_event list \<Rightarrow> (int, time) dict" where
  "registrations es =
     fold (\<lambda>e r. case ae_user e of Some u \<Rightarrow> if ae_name e = UserRegistered then dict_put u (ae_at e) r else r | None \<Rightarrow> r) es []"

definition activation_rate :: "analytics_event list \<Rightarrow> time \<Rightarrow> metric_ratio" where
  "activation_rate es end_at =
     (let r = registrations es;
          active = map ae_user (filter (\<lambda>e. ae_name e \<in> set ACTIVATION_EVENTS \<and>
            (case ae_user e of None \<Rightarrow> False
             | Some u \<Rightarrow> (case dict_get r u of None \<Rightarrow> False | Some t \<Rightarrow> t \<le> ae_at e \<and> ae_at e < end_at))) es) in
      ratio (length (remdups active)) (length r) ''If user_registered is missing, the user is excluded from this cohort.'')"

definition in_retention_window :: "duration \<Rightarrow> int \<times> time \<Rightarrow> analytics_event \<Rightarrow> bool" where
  "in_retention_window window r e \<longleftrightarrow>
     ae_user e = Some (fst r) \<and> ae_name e \<noteq> UserRegistered \<and>
     snd r + seconds (7 * 86400) \<le> ae_at e \<and> ae_at e < snd r + seconds (7 * 86400) + window"

definition d7_retention :: "analytics_event list \<Rightarrow> time \<Rightarrow> time \<Rightarrow> duration \<Rightarrow> metric_ratio" where
  "d7_retention es start_at end_at window =
     (let r = registrations (filter (\<lambda>e. start_at \<le> ae_at e \<and> ae_at e < end_at) es) in
      ratio (length (filter (\<lambda>x. list_ex (in_retention_window window x) es) r)) (length r)
        (''Users without a user_registered event are excluded; late-arriving day-7 events '' @
         ''are absent until the retention lookup window has elapsed.''))"

definition referral_conversion :: "analytics_event list \<Rightarrow> metric_ratio" where
  "referral_conversion es =
     (let invited = remdups (map ae_user (filter (\<lambda>e. ae_name e = ReferralAccepted \<and> ae_user e \<noteq> None) es));
          activated = remdups (map ae_user (filter (\<lambda>e. ae_name e = ReferralActivated \<and> ae_user e \<in> set invited) es)) in
      ratio (length activated) (length invited) ''Referral starts without referral_accepted are excluded from the denominator.'')"

definition notification_engagement :: "analytics_event list \<Rightarrow> metric_ratio" where
  "notification_engagement es =
     (let sent = remdups (map ae_subject (filter (\<lambda>e. ae_name e = NotificationSent \<and> ae_subject e \<noteq> None) es));
          engaged = remdups (map ae_subject (filter (\<lambda>e. ae_name e \<in> set NOTIFICATION_ENGAGEMENT_EVENTS \<and> ae_subject e \<in> set sent) es)) in
      ratio (length engaged) (length sent)
        (''Telegram read receipts are not assumed. Only explicit action/callback/read events '' @
         ''recorded by the bot count as engagement.''))"

text \<open>The offset of a known time zone, and the start of a local day.\<close>

definition timezone_offset :: "string \<Rightarrow> duration res" where
  "timezone_offset name =
     (if name = ''UTC'' then Inr 0
      else if name = ''Asia/Tashkent'' then Inr (seconds (5 * 3600))
      else Inl (ValueError ''Unsupported metrics timezone.''))"

definition local_date_to_utc :: "int \<Rightarrow> duration \<Rightarrow> time" where
  "local_date_to_utc day offset = seconds (86400 * day) - offset"

record beta_snapshot =
  bs_activation_rate :: metric_ratio
  bs_d7_retention :: metric_ratio
  bs_referral_conversion :: metric_ratio
  bs_notification_engagement :: metric_ratio
  bs_timezone :: string
  bs_start_at :: time
  bs_end_at :: time
  bs_d7_window_hours :: int
  bs_product_event_buckets :: "product_bucket list"
  bs_technical_metrics :: "technical_snapshot option"
  bs_generated_at :: time

definition beta_snapshot ::
  "analytics_store \<Rightarrow> technical_store option \<Rightarrow> time \<Rightarrow> int \<Rightarrow> int \<Rightarrow> string \<Rightarrow> int \<Rightarrow> beta_snapshot res" where
  "beta_snapshot s technical now start_day end_day timezone_name hours =
     (if end_day \<le> start_day then Inl (ValueError ''end date must be after start date.'')
      else if hours < 1 \<or> hours > 72 then Inl (ValueError ''d7_window_hours must be between 1 and 72.'')
      else res_bind (timezone_offset timezone_name) (\<lambda>tz.
        let start_at = local_date_to_utc start_day tz;
            end_at = local_date_to_utc end_day tz;
            events = list_events start_at (end_at + seconds (8 * 86400 + 3600 * hours)) s;
            window_events = filter (\<lambda>e. start_at \<le> ae_at e \<and> ae_at e < end_at) events in
        Inr \<lparr>bs_activation_rate = activation_rate window_events end_at,
             bs_d7_retention = d7_retention events start_at end_at (seconds (3600 * hours)),
             bs_referral_conversion = referral_conversion window_events,
             bs_notification_engagement = notification_engagement window_events,
             bs_timezone = timezone_name, bs_start_at = start_at, bs_end_at = end_at, bs_d7_window_hours = hours,
             bs_product_event_buckets = event_buckets Daily start_at end_at window_events,
             bs_technical_metrics = map_option (\<lambda>t. technical_snapshot_of (list_metrics start_at end_at t)) technical,
             bs_generated_at = now\<rparr>))"

section \<open>Counts\<close>

lemma sum_dict_put:
  fixes f :: "'v \<Rightarrow> nat"
  assumes "dict_ok d"
  shows "sum_list (map f (dict_values (dict_put k v d))) + (case dict_get d k of None \<Rightarrow> 0 | Some w \<Rightarrow> f w) =
    sum_list (map f (dict_values d)) + f v"
  using assms
proof (induction d)
  case (Cons x d)
  obtain k1 v1 where x: "x = (k1, v1)" by (cases x)
  have ok: "dict_ok d" and new: "k1 \<notin> fst ` set d" using Cons.prems by (simp_all add: dict_ok_def x)
  show ?case
  proof (cases "k1 = k")
    case True
    then have "dict_get d k = None" using new by (simp add: map_of_eq_None_iff)
    with True show ?thesis by (simp add: x)
  next
    case False
    then show ?thesis using Cons.IH [OF ok] by (simp add: x)
  qed
qed simp

lemma tally_snoc: "tally (ks @ [k]) = count_up k (tally ks)"
  by (simp add: tally_def)

lemma dict_ok_count_up: "dict_ok d \<Longrightarrow> dict_ok (count_up k d)"
  by (simp add: count_up_def)

lemma dict_ok_tally: "dict_ok (tally ks)"
  by (induction ks rule: rev_induct) (simp_all add: tally_snoc dict_ok_count_up, simp add: tally_def)

lemma count_list_snoc: "count_list (ks @ [k]) x = count_list ks x + (if x = k then 1 else 0)"
  by (induction ks) auto

lemma dict_get_tally: "dict_get (tally ks) x = (if x \<in> set ks then Some (count_list ks x) else None)"
proof (induction ks rule: rev_induct)
  case (snoc k ks)
  then show ?case by (auto simp: tally_snoc count_up_def dict_simps count_list_snoc count_list_0_iff)
qed (simp add: tally_def)

lemma sum_count_up:
  assumes "dict_ok d"
  shows "sum_list (dict_values (count_up k d)) = sum_list (dict_values d) + 1"
  using sum_dict_put [OF assms, of "\<lambda>n. n" k "(case dict_get d k of None \<Rightarrow> 0 | Some n \<Rightarrow> n) + 1"]
  by (simp add: count_up_def split: option.splits)

lemma sum_tally: "sum_list (dict_values (tally ks)) = length ks"
  by (induction ks rule: rev_induct) (simp_all add: tally_snoc sum_count_up [OF dict_ok_tally], simp add: tally_def)

lemma inj_analytics_event_text: "analytics_event_text x = analytics_event_text y \<Longrightarrow> x = y"
  by (cases x; cases y; simp)

lemma sum_list_py_sort:
  fixes f :: "'a \<Rightarrow> nat"
  shows "sum_list (map f (py_sort key xs)) = sum_list (map f xs)"
proof -
  have "sum_mset (image_mset f (mset (py_sort key xs))) = sum_mset (image_mset f (mset xs))" by (simp add: py_sort_def)
  then show ?thesis by (simp only: mset_map [symmetric] sum_mset_sum_list)
qed

lemma distinct_named:
  assumes "distinct (map fst xs)"
  shows "distinct (map (\<lambda>((b, name), n). (b, analytics_event_text name)) xs)"
proof -
  have "map (\<lambda>((b, name), n). (b, analytics_event_text name)) xs = map (\<lambda>(b, name). (b, analytics_event_text name)) (map fst xs)"
    by (simp add: case_prod_unfold)
  moreover have "inj_on (\<lambda>(b, name). (b, analytics_event_text name)) A" for A
    by (auto simp: inj_on_def dest: inj_analytics_event_text)
  ultimately show ?thesis using assms by (metis distinct_map)
qed

lemma sorted_distinct_strict: "sorted (map f xs) \<Longrightarrow> distinct (map f xs) \<Longrightarrow> sorted_wrt (\<lambda>x y. f x < f y) xs"
  by (induction xs) (auto simp: order.strict_iff_order image_iff)

text \<open>
  C32. The buckets of a window are in strict order of their start and name, each has exactly the events of its name and
  span, none is empty, and together they count every event of the window once.
\<close>

theorem event_buckets_partition:
  "sorted_wrt (\<lambda>x y. (pb_start x, analytics_event_text (pb_name x)) < (pb_start y, analytics_event_text (pb_name y)))
     (event_buckets g a b es) \<and>
   list_all (\<lambda>x. 0 < pb_count x \<and>
     pb_count x = length (filter (\<lambda>e. a \<le> ae_at e \<and> ae_at e < b \<and> bucket_start g (ae_at e) = pb_start x \<and> ae_name e = pb_name x) es))
     (event_buckets g a b es) \<and>
   sum_list (map pb_count (event_buckets g a b es)) = length (filter (\<lambda>e. a \<le> ae_at e \<and> ae_at e < b) es)"
proof -
  let ?in = "filter (\<lambda>e. a \<le> ae_at e \<and> ae_at e < b) es"
  let ?key = "\<lambda>e. (bucket_start g (ae_at e), ae_name e)"
  let ?t = "tally (map ?key ?in)"
  let ?s = "py_sort (\<lambda>((b, name), n). (b, analytics_event_text name)) ?t"
  let ?mk = "\<lambda>((b, name), n). \<lparr>pb_start = b, pb_name = name, pb_count = n\<rparr>"
  have eb: "event_buckets g a b es = map ?mk ?s" by (simp add: event_buckets_def Let_def)
  have dt: "distinct (map (\<lambda>((b, name), n). (b, analytics_event_text name)) ?t)"
    using dict_ok_tally [of "map ?key ?in"] by (intro distinct_named) (simp add: dict_ok_def)
  then have ds: "distinct (map (\<lambda>((b, name), n). (b, analytics_event_text name)) ?s)"
    by (auto simp: distinct_map)
  have "sorted_wrt (\<lambda>x y. (\<lambda>((b, name), n). (b, analytics_event_text name)) x < (\<lambda>((b, name), n). (b, analytics_event_text name)) y) ?s"
    by (rule sorted_distinct_strict [OF sorted_py_sort ds])
  then have 1: "sorted_wrt (\<lambda>x y. (pb_start x, analytics_event_text (pb_name x)) < (pb_start y, analytics_event_text (pb_name y))) (map ?mk ?s)"
    by (simp add: sorted_wrt_map case_prod_unfold)
  have cnt: "n = count_list (map ?key ?in) k \<and> k \<in> set (map ?key ?in)" if "(k, n) \<in> set ?t" for k n
  proof -
    have "dict_get ?t k = Some n" using that dict_ok_tally [of "map ?key ?in"] by (simp add: dict_ok_def)
    then show ?thesis by (simp add: dict_get_tally split: if_splits)
  qed
  have cl: "count_list (map ?key xs) (u, v) = length (filter (\<lambda>e. bucket_start g (ae_at e) = u \<and> ae_name e = v) xs)" for xs u v
    by (induction xs) auto
  have 2: "list_all (\<lambda>x. 0 < pb_count x \<and>
     pb_count x = length (filter (\<lambda>e. a \<le> ae_at e \<and> ae_at e < b \<and> bucket_start g (ae_at e) = pb_start x \<and> ae_name e = pb_name x) es)) (map ?mk ?s)"
  proof (unfold list_all_iff, rule ballI)
    fix x assume "x \<in> set (map ?mk ?s)"
    then obtain u v n where x: "x = \<lparr>pb_start = u, pb_name = v, pb_count = n\<rparr>" and "((u, v), n) \<in> set ?t" by auto
    with cnt [of "(u, v)" n] cl [of ?in u v] show "0 < pb_count x \<and>
     pb_count x = length (filter (\<lambda>e. a \<le> ae_at e \<and> ae_at e < b \<and> bucket_start g (ae_at e) = pb_start x \<and> ae_name e = pb_name x) es)"
      by (auto simp: conj_ac count_list_0_iff intro!: Nat.gr0I)
  qed
  have "sum_list (map pb_count (map ?mk ?s)) = sum_list (map snd ?s)"
    by (simp add: comp_def case_prod_unfold)
  also have "\<dots> = sum_list (map snd ?t)"
    by (rule sum_list_py_sort)
  also have "\<dots> = length ?in" using sum_tally [of "map ?key ?in"] by simp
  finally show ?thesis unfolding eb using 1 2 by blast
qed

section \<open>Technical counts\<close>

definition source_total :: "(string, (string, nat) dict) dict \<Rightarrow> nat" where
  "source_total d = sum_list (map (\<lambda>c. sum_list (dict_values c)) (dict_values d))"

definition sources_ok :: "(string, (string, nat) dict) dict \<Rightarrow> bool" where
  "sources_ok d \<longleftrightarrow> dict_ok d \<and> (\<forall>k c. dict_get d k = Some c \<longrightarrow> dict_ok c)"

lemma sources_ok_count_source: "sources_ok d \<Longrightarrow> sources_ok (count_source e d)"
  by (auto simp: sources_ok_def count_source_def dict_simps dict_ok_count_up split: option.splits)

lemma source_total_count_source:
  assumes "sources_ok d"
  shows "source_total (count_source e d) = source_total d + 1"
proof -
  have d: "dict_ok d" using assms by (simp add: sources_ok_def)
  show ?thesis
  proof (cases "dict_get d (parser_source e)")
    case None
    with sum_dict_put [OF d, of "\<lambda>c. sum_list (dict_values c)" "parser_source e"] show ?thesis
      by (simp add: source_total_def count_source_def sum_count_up)
  next
    case (Some c)
    then have "dict_ok c" using assms by (auto simp: sources_ok_def)
    with Some sum_dict_put [OF d, of "\<lambda>c. sum_list (dict_values c)" "parser_source e" "count_up (parser_decision e) c"] show ?thesis
      by (simp add: source_total_def count_source_def sum_count_up)
  qed
qed

lemma source_total_fold: "sources_ok d \<Longrightarrow> source_total (fold count_source es d) = source_total d + length es"
  by (induction es arbitrary: d) (simp_all add: source_total_count_source sources_ok_count_source)

lemma latest_fold:
  "dict_get (fold (\<lambda>e d. case te_subject e of
         Some k \<Rightarrow> if te_name e = ListenerHealth then dict_put k (listener_health e) d else d
       | None \<Rightarrow> d) es d) k =
   (case filter (\<lambda>e. te_name e = ListenerHealth \<and> te_subject e = Some k) es of
      [] \<Rightarrow> dict_get d k | xs \<Rightarrow> Some (listener_health (last xs)))"
  by (induction es arbitrary: d) (auto simp: dict_simps split: list.splits option.splits)

text \<open>
  The counts of a technical snapshot add up: duplicates are among the decisions, the parser decisions over all decisions
  and over all sources are the parser events, and a listener is counted with the status of its latest event, the last
  recorded of several at the same moment.
\<close>

theorem technical_counts_add_up:
  fixes es :: "technical_event list"
  defines "t \<equiv> technical_snapshot_of es"
  shows "ts_dedup_duplicate_count t \<le> ts_dedup_total_count t \<and>
    sum_list (dict_values (ts_source_parser_decision_counts t)) = ts_source_parser_decision_count t \<and>
    source_total (ts_source_parser_source_counts t) = ts_source_parser_decision_count t \<and>
    sum_list (dict_values (ts_listener_health_counts t)) = length (listener_latest es) \<and>
    dict_get (listener_latest es) k =
      (case filter (\<lambda>e. te_name e = ListenerHealth \<and> te_subject e = Some k) (py_sort te_at es) of
         [] \<Rightarrow> None | xs \<Rightarrow> Some (listener_health (last xs)))"
  unfolding t_def
  by (simp add: technical_snapshot_of_def Let_def sum_tally source_total_fold sources_ok_def)
    (simp add: source_total_def listener_latest_def latest_fold split: list.splits)

section \<open>Ratios\<close>

definition ratio_sound :: "metric_ratio \<Rightarrow> bool" where
  "ratio_sound r \<longleftrightarrow> mr_numerator r \<le> mr_denominator r \<and>
     mr_rate r = (if mr_denominator r = 0 then None else Some (of_nat (mr_numerator r) / of_nat (mr_denominator r))) \<and>
     (case mr_rate r of None \<Rightarrow> True | Some x \<Rightarrow> 0 \<le> x \<and> x \<le> 1)"

lemma ratio_sound: "n \<le> d \<Longrightarrow> ratio_sound (ratio n d missing)"
  by (auto simp: ratio_sound_def ratio_def)

lemma length_remdups_le:
  assumes "set xs \<subseteq> f ` set ys"
  shows "length (remdups xs) \<le> length ys"
proof -
  have "length (remdups xs) = card (set xs)" by (simp add: length_remdups_card_conv)
  also have "\<dots> \<le> card (f ` set ys)" using assms by (intro card_mono) auto
  also have "\<dots> \<le> length ys" by (meson List.finite_set card_image_le card_length le_trans)
  finally show ?thesis .
qed

lemma activation_sound: "ratio_sound (activation_rate es end_at)"
  unfolding activation_rate_def Let_def
proof (intro ratio_sound length_remdups_le [where f = "\<lambda>x. Some (fst x)"])
  show "set (map ae_user (filter (\<lambda>e. ae_name e \<in> set ACTIVATION_EVENTS \<and>
      (case ae_user e of None \<Rightarrow> False
       | Some u \<Rightarrow> (case dict_get (registrations es) u of None \<Rightarrow> False | Some t \<Rightarrow> t \<le> ae_at e \<and> ae_at e < end_at))) es))
    \<subseteq> (\<lambda>x. Some (fst x)) ` set (registrations es)"
    (is "?A \<subseteq> ?B")
  proof
    fix x assume "x \<in> ?A"
    then obtain u t where "x = Some u" "dict_get (registrations es) u = Some t"
      by (auto split: option.splits)
    then show "x \<in> ?B" by (force dest: map_of_SomeD)
  qed
qed

lemma retention_sound: "ratio_sound (d7_retention es start_at end_at window)"
  unfolding d7_retention_def Let_def by (intro ratio_sound) simp

lemma conversion_sound: "ratio_sound (referral_conversion es)"
  unfolding referral_conversion_def Let_def
  by (intro ratio_sound length_remdups_le [where f = "\<lambda>x. x"]) auto

lemma engagement_sound: "ratio_sound (notification_engagement es)"
  unfolding notification_engagement_def Let_def
  by (intro ratio_sound length_remdups_le [where f = "\<lambda>x. x"]) auto

section \<open>Snapshots\<close>

lemma beta_snapshot_InrD:
  assumes "beta_snapshot s technical now d1 d2 zone hours = Inr b"
  obtains tz where "d1 < d2" "1 \<le> hours" "hours \<le> 72" "timezone_offset zone = Inr tz"
    "bs_start_at b = local_date_to_utc d1 tz" "bs_end_at b = local_date_to_utc d2 tz"
    "bs_activation_rate b = activation_rate (list_events (bs_start_at b) (bs_end_at b) s) (bs_end_at b)"
    "bs_referral_conversion b = referral_conversion (list_events (bs_start_at b) (bs_end_at b) s)"
    "bs_notification_engagement b = notification_engagement (list_events (bs_start_at b) (bs_end_at b) s)"
    "bs_product_event_buckets b = event_buckets Daily (bs_start_at b) (bs_end_at b) (dict_values s)"
    "bs_d7_retention b = d7_retention (list_events (bs_start_at b) (bs_end_at b + seconds (8 * 86400 + 3600 * hours)) s)
       (bs_start_at b) (bs_end_at b) (seconds (3600 * hours))"
proof -
  obtain tz where b: "d1 < d2" "1 \<le> hours" "hours \<le> 72" and tz: "timezone_offset zone = Inr tz"
    using assms by (auto simp: beta_snapshot_def res_bind_def split: if_splits sum.splits)
  define a where "a = local_date_to_utc d1 tz"
  define e where "e = local_date_to_utc d2 tz"
  have "filter (\<lambda>x. a \<le> ae_at x \<and> ae_at x < e) (list_events a (e + seconds (8 * 86400 + 3600 * hours)) s) = list_events a e s"
    unfolding list_events_def filter_filter
    by (rule filter_cong) (use b in \<open>auto simp: seconds_def\<close>)
  moreover have "event_buckets Daily a e (list_events a e s) = event_buckets Daily a e (dict_values s)"
    by (simp add: event_buckets_def list_events_def conj_comms cong: conj_cong)
  ultimately show ?thesis
    using assms b tz
    by (intro that [of tz]) (auto simp: beta_snapshot_def Let_def a_def e_def)
qed

text \<open>
  In every snapshot each ratio is sound: its numerator is at most its denominator, and its rate is the quotient, between
  0 and 1, or missing for an empty cohort.
\<close>

theorem beta_ratios_sound:
  assumes "beta_snapshot s technical now d1 d2 zone hours = Inr b"
  shows "ratio_sound (bs_activation_rate b) \<and> ratio_sound (bs_d7_retention b) \<and>
    ratio_sound (bs_referral_conversion b) \<and> ratio_sound (bs_notification_engagement b)"
  using beta_snapshot_InrD [OF assms]
  by (metis activation_sound retention_sound conversion_sound engagement_sound)

lemma retained_in_lookup:
  assumes "in_retention_window w x e" "a \<le> snd x" "snd x < b"
  shows "a \<le> ae_at e \<and> ae_at e < b + seconds (8 * 86400) + w"
  using assms by (auto simp: in_retention_window_def seconds_def)

lemma in_dict_put: "x \<in> set (dict_put k v d) \<Longrightarrow> x = (k, v) \<or> x \<in> set d"
  by (induction d) (auto split: if_splits)

lemma registrations_in:
  "(u, t) \<in> set (registrations es) \<Longrightarrow> \<exists>e \<in> set es. ae_name e = UserRegistered \<and> ae_user e = Some u \<and> ae_at e = t"
proof (induction es rule: rev_induct)
  case (snoc e es)
  then have "(u, t) \<in> set (registrations es) \<or> (ae_user e = Some u \<and> ae_name e = UserRegistered \<and> ae_at e = t)"
    by (auto simp: registrations_def split: option.splits if_splits dest: in_dict_put)
  with snoc.IH show ?case by auto
qed (simp add: registrations_def)

lemma retention_lookup:
  assumes "beta_snapshot s technical now d1 d2 zone hours = Inr b"
  shows "bs_d7_retention b = d7_retention (dict_values s) (bs_start_at b) (bs_end_at b) (seconds (3600 * hours))"
proof -
  let ?a = "bs_start_at b" and ?e = "bs_end_at b" and ?w = "seconds (3600 * hours)"
  let ?late = "?e + seconds (8 * 86400 + 3600 * hours)"
  have b: "bs_d7_retention b = d7_retention (list_events ?a ?late s) ?a ?e ?w" and h: "1 \<le> hours"
    using beta_snapshot_InrD [OF assms] by blast+
  have f: "filter (\<lambda>x. ?a \<le> ae_at x \<and> ae_at x < ?e) (list_events ?a ?late s) = filter (\<lambda>x. ?a \<le> ae_at x \<and> ae_at x < ?e) (dict_values s)"
    unfolding list_events_def filter_filter
    by (rule filter_cong) (use h in \<open>auto simp: seconds_def\<close>)
  let ?r = "registrations (filter (\<lambda>x. ?a \<le> ae_at x \<and> ae_at x < ?e) (dict_values s))"
  have "list_ex (in_retention_window ?w x) (list_events ?a ?late s) = list_ex (in_retention_window ?w x) (dict_values s)"
    if "x \<in> set ?r" for x
  proof -
    have "?a \<le> snd x \<and> snd x < ?e" using registrations_in [of "fst x" "snd x" "filter (\<lambda>x. ?a \<le> ae_at x \<and> ae_at x < ?e) (dict_values s)"] that by auto
    with retained_in_lookup [of ?w x _ ?a ?e] have "?a \<le> ae_at e \<and> ae_at e < ?late" if "in_retention_window ?w x e" for e
      using that by (fastforce simp: seconds_def)
    then show ?thesis by (auto simp: list_ex_iff list_events_def)
  qed
  then show ?thesis unfolding b d7_retention_def f Let_def by (simp cong: filter_cong)
qed

text \<open>
  The snapshot reads only the events up to eight days and one window after its end; the retention it computes from
  them is the one over all recorded events.
\<close>

theorem retention_lookup_complete:
  assumes "beta_snapshot s technical now d1 d2 zone hours = Inr b"
  shows "bs_d7_retention b = d7_retention (dict_values s) (bs_start_at b) (bs_end_at b) (seconds (3600 * hours))"
  by (rule retention_lookup [OF assms])

section \<open>Recording twice\<close>

interpretation product_events: insert_once dict_get "\<lambda>e s. (the (dict_get (snd (record_once e s)) (ae_key e)), snd (record_once e s))" ae_key
  by unfold_locales (auto simp: record_once_def dict_simps)

interpretation technical_events: insert_once dict_get
  "\<lambda>e s. (the (dict_get (snd (record_metric_once e s)) (te_key e)), snd (record_metric_once e s))" te_key
  by unfold_locales (auto simp: record_metric_once_def dict_simps)

definition record_all :: "analytics_event list \<Rightarrow> analytics_store \<Rightarrow> analytics_store" where
  "record_all es s = fold (\<lambda>e s. snd (record_once e s)) es s"

lemma record_all_replay:
  "\<forall>e \<in> set es. dict_get s (ae_key e) \<noteq> None \<Longrightarrow> record_all es s = s"
  by (induction es) (auto simp: record_all_def record_once_def)

lemma record_all_get:
  "dict_get (record_all es s) k = (case dict_get s k of Some e \<Rightarrow> Some e | None \<Rightarrow> find_first (\<lambda>e. ae_key e = k) es)"
proof (induction es arbitrary: s)
  case (Cons e es)
  then show ?case
    by (cases "dict_get s (ae_key e)") (auto simp: record_all_def record_once_def find_first_def dict_simps split: option.splits)
qed (simp add: record_all_def find_first_def split: option.splits)

text \<open>
  The first event of a key counts: what is recorded under a key is the first event that had it, and events whose keys
  have been recorded, in whatever order and number they come again, change nothing.
\<close>

theorem first_record_counts:
  shows "dict_get (record_all es s) k = (case dict_get s k of Some e \<Rightarrow> Some e | None \<Rightarrow> find_first (\<lambda>e. ae_key e = k) es)"
    and "ae_key ` set later \<subseteq> ae_key ` set es \<Longrightarrow> record_all (es @ later) s = record_all es s"
proof -
  show "dict_get (record_all es s) k = (case dict_get s k of Some e \<Rightarrow> Some e | None \<Rightarrow> find_first (\<lambda>e. ae_key e = k) es)"
    by (rule record_all_get)
  assume "ae_key ` set later \<subseteq> ae_key ` set es"
  then have "find_first (\<lambda>x. ae_key x = ae_key e) es \<noteq> None" if "e \<in> set later" for e
  proof -
    have "ae_key e \<in> ae_key ` set es" using \<open>ae_key ` set later \<subseteq> ae_key ` set es\<close> imageI [OF that, of ae_key] by (rule subsetD)
    then obtain x where "ae_key e = ae_key x" "x \<in> set es" by (rule imageE)
    then show ?thesis unfolding find_first_None_iff by metis
  qed
  then have "\<forall>e \<in> set later. dict_get (record_all es s) (ae_key e) \<noteq> None"
    by (auto simp: record_all_get split: option.splits)
  then have "record_all later (record_all es s) = record_all es s" by (rule record_all_replay)
  then show "record_all (es @ later) s = record_all es s" by (simp add: record_all_def)
qed

section \<open>What the events of users are keyed by\<close>

definition registered_event :: "int \<Rightarrow> time \<Rightarrow> analytics_event" where
  "registered_event u t =
     \<lparr>ae_name = UserRegistered, ae_key = ''user_registered:'' @ str_int u, ae_at = t, ae_user = Some u, ae_subject = None, ae_metadata = []\<rparr>"

definition search_event :: "int \<Rightarrow> string \<Rightarrow> string \<Rightarrow> time \<Rightarrow> analytics_event" where
  "search_event u criteria_json returned t =
     \<lparr>ae_name = SearchCompleted, ae_key = ''search_completed:user:'' @ str_int u @ '':'' @ criteria_json, ae_at = t, ae_user = Some u,
      ae_subject = None, ae_metadata = [(''result_count'', returned)]\<rparr>"

definition sent_event :: "int \<Rightarrow> string \<Rightarrow> string \<Rightarrow> time \<Rightarrow> analytics_event" where
  "sent_event u notification_id message_id t =
     \<lparr>ae_name = NotificationSent, ae_key = ''notification_sent:'' @ notification_id, ae_at = t, ae_user = Some u,
      ae_subject = Some notification_id, ae_metadata = [(''telegram_message_id'', message_id)]\<rparr>"

lemma retention_of_one:
  assumes "a \<le> t" "t < b" "ae_name e \<noteq> UserRegistered"
  shows "mr_rate (d7_retention [registered_event u t, e] a b w) = Some (if in_retention_window w (u, t) e then 1 else 0)"
proof -
  have "registrations (filter (\<lambda>e. a \<le> ae_at e \<and> ae_at e < b) [registered_event u t, e]) = [(u, t)]"
    using assms by (auto simp: registrations_def registered_event_def split: option.splits)
  moreover have "\<not> in_retention_window w (u, t) (registered_event u t)"
    by (simp add: in_retention_window_def registered_event_def)
  ultimately show ?thesis by (simp add: d7_retention_def Let_def ratio_def)
qed

lemma names_of_events [simp]: "ae_name (search_event u c r t) = SearchCompleted" "ae_name (sent_event u n m t) = NotificationSent"
  by (simp_all add: search_event_def sent_event_def)

text \<open>
  Retention is not about what users do: one who repeats the first search on the seventh day is not retained, since the key of
  the event has no time in it, and one who does nothing but is sent a notification on that day is.
\<close>

theorem retention_counts_messages_not_searches:
  assumes "beta_snapshot (record_all [registered_event u t, search_event u c r1 t1, search_event u c r2 t2] []) technical now d1 d2 zone hours = Inr b"
    and "beta_snapshot (record_all [registered_event u t, sent_event u nid mid t2] []) technical now d1 d2 zone hours = Inr b'"
    and "bs_start_at b \<le> t" "t < bs_end_at b" "t1 < t + seconds (7 * 86400)"
    and "t + seconds (7 * 86400) \<le> t2" "t2 < t + seconds (7 * 86400) + seconds (3600 * hours)"
  shows "mr_rate (bs_d7_retention b) = Some 0 \<and> mr_rate (bs_d7_retention b') = Some 1"
proof -
  have b': "bs_start_at b' = bs_start_at b" "bs_end_at b' = bs_end_at b"
    using beta_snapshot_InrD [OF assms(1)] beta_snapshot_InrD [OF assms(2)] by (metis sum.inject(2))+
  have "t < t2" using assms(6) by (simp add: seconds_def)
  have 1: "dict_values (record_all [registered_event u t, search_event u c r1 t1, search_event u c r2 t2] []) = [registered_event u t, search_event u c r1 t1]"
    by (simp add: record_all_def record_once_def registered_event_def search_event_def)
  have 2: "dict_values (record_all [registered_event u t, sent_event u nid mid t2] []) = [registered_event u t, sent_event u nid mid t2]"
    by (simp add: record_all_def record_once_def registered_event_def sent_event_def)
  show ?thesis
    unfolding retention_lookup [OF assms(1)] retention_lookup [OF assms(2)] b' 1 2
    using assms(3-7) \<open>t < t2\<close>
    by (simp add: retention_of_one) (simp add: in_retention_window_def search_event_def sent_event_def)
qed

lemma daily_bucket:
  assumes "seconds 86400 * q \<le> t" "t < seconds 86400 * (q + 1)"
  shows "bucket_start Daily t = seconds 86400 * q"
proof -
  have "t div seconds 86400 = q"
    by (rule int_div_pos_eq [of _ _ _ "t - seconds 86400 * q"]) (use assms in \<open>auto simp: seconds_def algebra_simps\<close>)
  then show ?thesis by (simp add: bucket_start_def minus_mod_eq_mult_div)
qed

text \<open>The daily buckets are days in UTC while the window consists of local days: one local day in Tashkent has two buckets.\<close>

theorem one_local_day_two_buckets:
  assumes "timezone_offset ''Asia/Tashkent'' = Inr tz" and "a = local_date_to_utc day tz"
    and "ae_name e1 = name" "ae_name e2 = name" "a \<le> ae_at e1" "ae_at e1 < a + seconds (5 * 3600)"
    and "a + seconds (5 * 3600) \<le> ae_at e2" "ae_at e2 < local_date_to_utc (day + 1) tz"
  shows "map pb_start (event_buckets Daily a (local_date_to_utc (day + 1) tz) [e1, e2]) = [a - seconds (19 * 3600), a + seconds (5 * 3600)]"
proof -
  have tz: "tz = seconds (5 * 3600)" using assms(1) by (simp add: timezone_offset_def)
  have b1: "bucket_start Daily (ae_at e1) = a - seconds (19 * 3600)" and b2: "bucket_start Daily (ae_at e2) = a + seconds (5 * 3600)"
    using assms(2,5-8) daily_bucket [of "day - 1" "ae_at e1"] daily_bucket [of day "ae_at e2"] unfolding tz
    by (auto simp: local_date_to_utc_def seconds_def algebra_simps)
  have "a \<le> ae_at e2" "ae_at e1 < local_date_to_utc (day + 1) tz"
    using assms(5-8) by (auto simp: seconds_def)
  then show ?thesis
    using assms(3-8) b1 b2
    by (simp add: event_buckets_def Let_def tally_def count_up_def py_sort_def seconds_def)
qed

section \<open>Witnesses\<close>

text \<open>A snapshot fails for bad arguments only.\<close>

lemma beta_snapshot_total:
  "(\<exists>b. beta_snapshot s technical now d1 d2 zone hours = Inr b) \<longleftrightarrow>
     d1 < d2 \<and> 1 \<le> hours \<and> hours \<le> 72 \<and> (zone = ''UTC'' \<or> zone = ''Asia/Tashkent'')"
  by (auto simp: beta_snapshot_def timezone_offset_def Let_def)

lemma snapshot_of_first_day:
  obtains b where "beta_snapshot s technical now 0 1 ''UTC'' 24 = Inr b" "bs_start_at b = 0" "bs_end_at b = seconds 86400"
proof -
  obtain b where b: "beta_snapshot s technical now 0 1 ''UTC'' 24 = Inr b"
    using beta_snapshot_total [of s technical now 0 1 "''UTC''" 24] by auto
  then show thesis
    by (rule that) (use beta_snapshot_InrD [OF b] in \<open>auto simp: timezone_offset_def local_date_to_utc_def seconds_def\<close>)
qed

theorem beta_ratios_sound_witness:
  "\<exists>b. beta_snapshot (record_all [registered_event 7 0] []) None 0 0 1 ''UTC'' 24 = Inr b \<and> ratio_sound (bs_activation_rate b)"
  by (rule snapshot_of_first_day [of "record_all [registered_event 7 0] []" None 0]) (use beta_ratios_sound in blast)

theorem retention_lookup_complete_witness:
  "\<exists>b. beta_snapshot (record_all [registered_event 7 0] []) None 0 0 1 ''UTC'' 24 = Inr b \<and>
     bs_d7_retention b = d7_retention [registered_event 7 0] 0 (seconds 86400) (seconds (3600 * 24))"
proof -
  obtain b where b: "beta_snapshot (record_all [registered_event 7 0] []) None 0 0 1 ''UTC'' 24 = Inr b" "bs_start_at b = 0" "bs_end_at b = seconds 86400"
    by (rule snapshot_of_first_day)
  have "dict_values (record_all [registered_event 7 0] []) = [registered_event 7 0]" by (simp add: record_all_def record_once_def)
  with retention_lookup_complete [OF b(1)] b show ?thesis by auto
qed

theorem retention_counts_messages_not_searches_witness:
  "\<exists>b b'. beta_snapshot (record_all [registered_event 7 0, search_event 7 ''{}'' ''3'' 5, search_event 7 ''{}'' ''4'' (seconds (7 * 86400))] []) None 0 0 1 ''UTC'' 24 = Inr b \<and>
     beta_snapshot (record_all [registered_event 7 0, sent_event 7 ''n'' ''m'' (seconds (7 * 86400))] []) None 0 0 1 ''UTC'' 24 = Inr b' \<and>
     mr_rate (bs_d7_retention b) = Some 0 \<and> mr_rate (bs_d7_retention b') = Some 1"
proof -
  obtain b where b: "beta_snapshot (record_all [registered_event 7 0, search_event 7 ''{}'' ''3'' 5, search_event 7 ''{}'' ''4'' (seconds (7 * 86400))] []) None 0 0 1 ''UTC'' 24 = Inr b"
      "bs_start_at b = 0" "bs_end_at b = seconds 86400"
    by (rule snapshot_of_first_day)
  obtain b' where b': "beta_snapshot (record_all [registered_event 7 0, sent_event 7 ''n'' ''m'' (seconds (7 * 86400))] []) None 0 0 1 ''UTC'' 24 = Inr b'"
    by (rule snapshot_of_first_day)
  from retention_counts_messages_not_searches [OF b(1) b'] b b' show ?thesis by (simp add: seconds_def)
qed

theorem one_local_day_two_buckets_witness:
  "map pb_start (event_buckets Daily (- seconds (5 * 3600)) (seconds (19 * 3600)) [registered_event 1 (- seconds (5 * 3600)), registered_event 2 0]) =
     [- seconds 86400, 0]"
  using one_local_day_two_buckets [of "seconds (5 * 3600)" "- seconds (5 * 3600)" 0 "registered_event 1 (- seconds (5 * 3600))" UserRegistered "registered_event 2 0"]
  by (simp add: timezone_offset_def local_date_to_utc_def seconds_def registered_event_def)

end
