(* ===== verification/EF_SqlSearch.thy ===== *)
theory EF_SqlSearch
  imports EF_Search
begin

text \<open>
  The searches over PostgreSQL: the one the program runs (\<open>SQLAlchemySearchRepository\<close> in \<open>repositories/sqlalchemy.py\<close>) and
  the one over asyncpg (\<open>repositories/search.py\<close>), whose conditions, orders and pages are read as the standard defines them:
  a comparison with NULL is neither true nor false, and a row is kept only if the condition is true. A row of the table
  \<open>announcements\<close> has the columns of \<open>AnnouncementRecord\<close> (\<open>models/announcements.py\<close>) the code reads; a column that may be
  NULL is an option, and nothing in the code writes the status \<open>deleted\<close>. \<open>lower\<close> of PostgreSQL and \<open>casefold\<close> agree on ASCII,
  and a UUID is its canonical text, whose order is that of the column.
\<close>

section \<open>Conditions with NULL\<close>

type_synonym sql_bool = "bool option"

definition sql_cmp :: "('a \<Rightarrow> 'b \<Rightarrow> bool) \<Rightarrow> 'a option \<Rightarrow> 'b \<Rightarrow> sql_bool" where
  "sql_cmp R c v = map_option (\<lambda>x. R x v) c"

definition sql_is_null :: "'a option \<Rightarrow> sql_bool" where
  "sql_is_null c = Some (c = None)"

definition sql_in :: "'a option \<Rightarrow> 'a list \<Rightarrow> sql_bool" where
  "sql_in c vs = map_option (\<lambda>x. x \<in> set vs) c"

definition sql_not :: "sql_bool \<Rightarrow> sql_bool" where
  "sql_not b = map_option Not b"

definition sql_or :: "sql_bool \<Rightarrow> sql_bool \<Rightarrow> sql_bool" where
  "sql_or a b = (if a = Some True \<or> b = Some True then Some True else if a = Some False \<and> b = Some False then Some False else None)"

definition sql_and :: "sql_bool \<Rightarrow> sql_bool \<Rightarrow> sql_bool" where
  "sql_and a b = (if a = Some False \<or> b = Some False then Some False else if a = Some True \<and> b = Some True then Some True else None)"

text \<open>A condition is a conjunction; a row is kept if it is true.\<close>

definition sql_all :: "sql_bool list \<Rightarrow> sql_bool" where
  "sql_all bs = foldr sql_and bs (Some True)"

definition kept :: "sql_bool list \<Rightarrow> bool" where
  "kept bs \<longleftrightarrow> sql_all bs = Some True"

lemma kept_iff: "kept bs \<longleftrightarrow> (\<forall>b \<in> set bs. b = Some True)"
  by (induction bs) (auto simp: kept_def sql_all_def sql_and_def)

lemma kept_simps [simp]:
  "kept []" "kept (b # bs) \<longleftrightarrow> b = Some True \<and> kept bs" "kept (bs @ cs) \<longleftrightarrow> kept bs \<and> kept cs"
  by (auto simp: kept_iff)

lemma sql_true [simp]:
  "sql_cmp R c v = Some True \<longleftrightarrow> (\<exists>x. c = Some x \<and> R x v)" "sql_is_null c = Some True \<longleftrightarrow> c = None"
  "sql_in c vs = Some True \<longleftrightarrow> (\<exists>x. c = Some x \<and> x \<in> set vs)"
  "sql_or a b = Some True \<longleftrightarrow> a = Some True \<or> b = Some True" "sql_not b = Some True \<longleftrightarrow> b = Some False"
  by (auto simp: sql_cmp_def sql_is_null_def sql_in_def sql_or_def sql_not_def)

section \<open>Rows\<close>

record announcement_row =
  rw_announcement_id :: string
  rw_idempotency_key :: string
  rw_source_id :: string
  rw_source_channel_id :: "string option"
  rw_source_message_id :: "string option"
  rw_source_message_ids :: "string list"
  rw_parent_announcement_id :: "string option"
  rw_status :: announcement_status
  rw_source_count :: int
  rw_latest_source_id :: "string option"
  rw_source_url :: "string option"
  rw_forward_origin_key :: "string option"
  rw_price :: "rat option"
  rw_currency :: "string option"
  rw_price_period :: price_period
  rw_price_basis :: price_basis
  rw_price_normalized_monthly :: "rat option"
  rw_rooms :: "int option"
  rw_area_sqm :: "rat option"
  rw_floor :: "int option"
  rw_total_floors :: "int option"
  rw_district :: "string option"
  rw_address :: "string option"
  rw_phone_numbers :: "string list"
  rw_owner_type :: owner_type
  rw_renovation_level :: "renovation_level option"
  rw_renovation_source :: renovation_source
  rw_furniture :: "bool option"
  rw_description :: string
  rw_audience_tags :: "string list"
  rw_audience_excluded_tags :: "string list"
  rw_confidence :: "rat option"
  rw_field_confidence :: "(string, rat) dict"
  rw_assumptions :: "string list"
  rw_prompt_version :: "string option"
  rw_occurred_at :: time
  rw_created_at :: time
  rw_updated_at :: time

text \<open>\<open>record.prompt_version or ...\<close>: a missing or empty version is the default one.\<close>

definition canonical_of_row :: "announcement_row \<Rightarrow> canonical_listing" where
  "canonical_of_row r =
     \<lparr>cl_schema_version = ''estateflow.announcement.v1'',
      cl_prompt_version = (case rw_prompt_version r of None \<Rightarrow> ''estateflow.listing.v1'' | Some v \<Rightarrow> if v = [] then ''estateflow.listing.v1'' else v),
      cl_price = rw_price r, cl_currency = rw_currency r, cl_price_period = rw_price_period r, cl_price_basis = rw_price_basis r,
      cl_price_normalized_monthly = rw_price_normalized_monthly r, cl_listing_type = None, cl_rooms = rw_rooms r,
      cl_area_sqm = rw_area_sqm r, cl_floor = rw_floor r, cl_total_floors = rw_total_floors r, cl_district = rw_district r,
      cl_address = rw_address r, cl_phone_numbers = rw_phone_numbers r, cl_owner_type = rw_owner_type r,
      cl_renovation_level = rw_renovation_level r, cl_renovation_source = rw_renovation_source r, cl_furniture = rw_furniture r,
      cl_description = rw_description r, cl_audience_tags = rw_audience_tags r, cl_audience_excluded_tags = rw_audience_excluded_tags r,
      cl_confidence = (case rw_confidence r of None \<Rightarrow> 0 | Some c \<Rightarrow> c), cl_field_confidence = rw_field_confidence r,
      cl_assumptions = rw_assumptions r\<rparr>"

definition announcement_of_row :: "announcement_row \<Rightarrow> announcement" where
  "announcement_of_row r =
     \<lparr>an_id = rw_announcement_id r, an_idempotency_key = rw_idempotency_key r, an_source_id = rw_source_id r,
      an_source_channel_id = (case rw_source_channel_id r of None \<Rightarrow> [] | Some c \<Rightarrow> c),
      an_source_message_id = (case rw_source_message_id r of None \<Rightarrow> [] | Some m \<Rightarrow> m), an_occurred_at = rw_occurred_at r,
      an_canonical = canonical_of_row r, an_media = [], an_source_url = rw_source_url r,
      an_forward_origin_key = rw_forward_origin_key r, an_source_message_ids = rw_source_message_ids r, an_trusted_source_score = 0,
      an_parent_id = rw_parent_announcement_id r, an_status = rw_status r, an_source_count = rw_source_count r,
      an_latest_source_id = rw_latest_source_id r, an_review_reason = None, an_created_at = rw_created_at r,
      an_updated_at = rw_updated_at r\<rparr>"

text \<open>
  The asyncpg conversion: the images that the query joins to the row come with it, an argument here, and a missing channel or
  message is the text of \<open>None\<close>.
\<close>

definition pg_announcement_of_row :: "stored_media list \<Rightarrow> announcement_row \<Rightarrow> announcement" where
  "pg_announcement_of_row media r =
     (announcement_of_row r)\<lparr>an_source_channel_id := (case rw_source_channel_id r of None \<Rightarrow> ''None'' | Some c \<Rightarrow> c),
       an_source_message_id := (case rw_source_message_id r of None \<Rightarrow> ''None'' | Some m \<Rightarrow> m), an_media := media\<rparr>"

section \<open>The search over SQLAlchemy\<close>

definition sa_search_where :: "search_criteria \<Rightarrow> announcement_row \<Rightarrow> sql_bool list" where
  "sa_search_where c r =
     [Some (rw_status r = ActiveAnn), sql_is_null (rw_parent_announcement_id r), Some (rw_price_period r \<noteq> OneTime)] @
     (if \<not> sc_include_per_person c then [sql_or (Some (rw_price_basis r = TotalPrice)) (Some False)] else []) @
     (if sc_districts c \<noteq> [] then [sql_in (map_option lower (rw_district r)) (map lower (sc_districts c))] else []) @
     (case sc_rooms c of None \<Rightarrow> [] | Some n \<Rightarrow> [sql_cmp (=) (rw_rooms r) n]) @
     (case sc_renovation_level c of None \<Rightarrow> [] | Some l \<Rightarrow> [sql_cmp (=) (rw_renovation_level r) l]) @
     (case sc_audience_tag c of None \<Rightarrow> [] | Some t \<Rightarrow> [Some (t \<in> set (rw_audience_tags r))]) @
     (case sc_min_price c of None \<Rightarrow> []
      | Some p \<Rightarrow> [sql_or (sql_is_null (rw_price_normalized_monthly r)) (sql_cmp (\<ge>) (rw_price_normalized_monthly r) p)]) @
     (case sc_max_price c of None \<Rightarrow> []
      | Some p \<Rightarrow> [sql_or (sql_is_null (rw_price_normalized_monthly r)) (sql_cmp (\<le>) (rw_price_normalized_monthly r) p)])"

definition row_price :: "announcement_row \<Rightarrow> rat" where
  "row_price r = (case rw_price_normalized_monthly r of None \<Rightarrow> 0 | Some p \<Rightarrow> p)"

definition row_unpriced :: "announcement_row \<Rightarrow> bool" where
  "row_unpriced r \<longleftrightarrow> rw_price_normalized_monthly r = None"

text \<open>
  \<open>ORDER BY\<close> with several expressions: equal rows of one are ordered by the next. For \<open>price_desc\<close> the first is
  \<open>price is not null\<close>, ascending.
\<close>

definition sa_order_by :: "search_sort \<Rightarrow> announcement_row list \<Rightarrow> announcement_row list" where
  "sa_order_by order rs =
     (case order of
        Newest \<Rightarrow> py_sort_desc (\<lambda>r. (rw_created_at r, rw_announcement_id r)) rs
      | Cheapest \<Rightarrow> py_sort (\<lambda>r. (row_unpriced r, row_price r, rw_created_at r, rw_announcement_id r)) rs
      | PriceDesc \<Rightarrow> py_sort (\<lambda>r. \<not> row_unpriced r)
          (py_sort_desc (\<lambda>r. (\<not> row_unpriced r, row_price r, rw_created_at r, rw_announcement_id r)) rs))"

definition sa_search_meta :: "search_criteria \<Rightarrow> nat \<Rightarrow> nat \<Rightarrow> search_metadata" where
  "sa_search_meta c returned found =
     \<lparr>md_returned = returned, md_limit = sc_limit c, md_offset = sc_offset c, md_total = found,
      md_per_person_included = sc_include_per_person c,
      md_null_price_included = (sc_min_price c = None \<and> sc_max_price c = None), md_notes = []\<rparr>"

text \<open>The rows of the table, or the error of the database: any exception gives an empty result.\<close>

definition sa_search :: "search_criteria \<Rightarrow> announcement_row list res \<Rightarrow> announcement list \<times> search_metadata" where
  "sa_search c db =
     (case db of
        Inl e \<Rightarrow> ([], sa_search_meta c 0 0)
      | Inr table \<Rightarrow>
          (let found = filter (\<lambda>r. kept (sa_search_where c r)) table;
               rows = page (nat (sc_offset c)) (nat (sc_limit c)) (sa_order_by (sc_sort c) found)
           in (map announcement_of_row rows, sa_search_meta c (length rows) (length found))))"

text \<open>\<open>UUID(text)\<close> in canonical form: prefixes, braces and hyphens are dropped and 32 hexadecimal digits must remain.\<close>

fun remove_text :: "string \<Rightarrow> string \<Rightarrow> string" where
  "remove_text p [] = []"
| "remove_text p (c # cs) =
     (if p \<noteq> [] \<and> take (length p) (c # cs) = p then remove_text p (drop (length p) (c # cs)) else c # remove_text p cs)"

definition is_hex_digit :: "char \<Rightarrow> bool" where
  "is_hex_digit c \<longleftrightarrow> is_digit c \<or> lower_char c \<in> {CHR ''a'', CHR ''b'', CHR ''c'', CHR ''d'', CHR ''e'', CHR ''f''}"

definition canonical_uuid :: "string \<Rightarrow> string" where
  "canonical_uuid h = take 8 h @ ''-'' @ take 4 (drop 8 h) @ ''-'' @ take 4 (drop 12 h) @ ''-'' @ take 4 (drop 16 h) @ ''-'' @ drop 20 h"

definition parse_uuid :: "string \<Rightarrow> string option" where
  "parse_uuid text =
     (let brace = (\<lambda>c. c \<in> {CHR 0x7B, CHR 0x7D});
          bare = remove_text ''uuid:'' (remove_text ''urn:'' text);
          inner = rev (dropWhile brace (rev (dropWhile brace bare)));
          h = filter (\<lambda>c. c \<noteq> CHR ''-'') inner
      in if length h = 32 \<and> list_all is_hex_digit h then Some (canonical_uuid (lower h)) else None)"

definition sa_get :: "string \<Rightarrow> announcement_row list res \<Rightarrow> announcement option res" where
  "sa_get text db =
     (case parse_uuid text of
        None \<Rightarrow> Inr None
      | Some k \<Rightarrow> res_bind db (\<lambda>table.
          Inr (map_option announcement_of_row (find_first (\<lambda>r. kept
            [Some (rw_announcement_id r = k), Some (rw_status r = ActiveAnn), sql_is_null (rw_parent_announcement_id r),
             Some (rw_price_period r \<noteq> OneTime)]) table))))"

section \<open>The search over asyncpg\<close>

definition pg_search_where :: "search_criteria \<Rightarrow> announcement_row \<Rightarrow> sql_bool list" where
  "pg_search_where c r =
     [sql_is_null (rw_parent_announcement_id r), Some (rw_status r = ActiveAnn), Some (rw_price_period r \<in> {Daily, Monthly})] @
     (if \<not> sc_include_per_person c then [Some (rw_price_basis r = TotalPrice)] else []) @
     (case sc_min_price c of None \<Rightarrow> [] | Some p \<Rightarrow> [sql_cmp (\<ge>) (rw_price_normalized_monthly r) p]) @
     (case sc_max_price c of None \<Rightarrow> [] | Some p \<Rightarrow> [sql_cmp (\<le>) (rw_price_normalized_monthly r) p]) @
     (case sc_districts c of [] \<Rightarrow> []
      | [d] \<Rightarrow> [sql_cmp (=) (map_option lower (rw_district r)) (lower d)]
      | ds \<Rightarrow> [sql_in (map_option lower (rw_district r)) (map lower ds)]) @
     (case sc_rooms c of None \<Rightarrow> [] | Some n \<Rightarrow> [sql_cmp (=) (rw_rooms r) n]) @
     (case sc_renovation_level c of None \<Rightarrow> [] | Some l \<Rightarrow> [sql_cmp (=) (rw_renovation_level r) l]) @
     (case sc_audience_tag c of None \<Rightarrow> []
      | Some t \<Rightarrow> [Some (t \<in> set (rw_audience_tags r)), sql_not (Some (t \<in> set (rw_audience_excluded_tags r)))])"

definition pg_order_by :: "search_sort \<Rightarrow> announcement_row list \<Rightarrow> announcement_row list" where
  "pg_order_by order rs =
     (case order of
        Newest \<Rightarrow> py_sort_desc (\<lambda>r. (rw_created_at r, rw_announcement_id r)) rs
      | Cheapest \<Rightarrow> py_sort (\<lambda>r. (row_unpriced r, row_price r)) (py_sort_desc (\<lambda>r. (rw_created_at r, rw_announcement_id r)) rs)
      | PriceDesc \<Rightarrow> py_sort_desc (\<lambda>r. (\<not> row_unpriced r, row_price r, rw_created_at r, rw_announcement_id r)) rs)"

text \<open>The number of all matches is a column of the rows of the page.\<close>

definition pg_search ::
  "(string \<Rightarrow> stored_media list) \<Rightarrow> search_criteria \<Rightarrow> announcement_row list \<Rightarrow> announcement list \<times> search_metadata" where
  "pg_search media c table =
     (let found = filter (\<lambda>r. kept (pg_search_where c r)) table;
          rows = page (nat (sc_offset c)) (nat (sc_limit c)) (pg_order_by (sc_sort c) found)
      in (map (\<lambda>r. pg_announcement_of_row (media (rw_announcement_id r)) r) rows,
          search_meta c (length rows) (if rows = [] then 0 else length found)))"

definition pg_get :: "(string \<Rightarrow> stored_media list) \<Rightarrow> string \<Rightarrow> announcement_row list \<Rightarrow> announcement option" where
  "pg_get media k table =
     map_option (\<lambda>r. pg_announcement_of_row (media (rw_announcement_id r)) r) (find_first (\<lambda>r. kept
       [Some (rw_announcement_id r = k), sql_is_null (rw_parent_announcement_id r), Some (rw_status r = ActiveAnn),
        Some (rw_price_period r \<in> {Daily, Monthly})]) table)"

section \<open>What is found\<close>

text \<open>Tags are stored in lower case: the extraction normalises them.\<close>

definition tags_lower :: "announcement_row \<Rightarrow> bool" where
  "tags_lower r \<longleftrightarrow> (\<forall>t \<in> set (rw_audience_tags r) \<union> set (rw_audience_excluded_tags r). lower t = t)"

definition districts_named :: "search_criteria \<Rightarrow> bool" where
  "districts_named c \<longleftrightarrow> [] \<notin> set (sc_districts c)"

lemma criteria_ok_districts: "criteria_ok c \<Longrightarrow> districts_named c"
  by (auto simp: criteria_ok_def districts_named_def)

lemma lower_all: "\<forall>t \<in> set ts. lower t = t \<Longrightarrow> map lower ts = ts"
  by (simp add: map_idI)

lemma row_fields [simp]:
  "an_status (announcement_of_row r) = rw_status r" "an_parent_id (announcement_of_row r) = rw_parent_announcement_id r"
  "an_canonical (announcement_of_row r) = canonical_of_row r" "an_created_at (announcement_of_row r) = rw_created_at r"
  "an_id (announcement_of_row r) = rw_announcement_id r"
  "cl_price_period (canonical_of_row r) = rw_price_period r" "cl_price_basis (canonical_of_row r) = rw_price_basis r"
  "cl_price_normalized_monthly (canonical_of_row r) = rw_price_normalized_monthly r" "cl_rooms (canonical_of_row r) = rw_rooms r"
  "cl_district (canonical_of_row r) = rw_district r" "cl_renovation_level (canonical_of_row r) = rw_renovation_level r"
  "cl_audience_tags (canonical_of_row r) = rw_audience_tags r" "cl_audience_excluded_tags (canonical_of_row r) = rw_audience_excluded_tags r"
  by (simp_all add: announcement_of_row_def canonical_of_row_def)

lemma pg_row_fields [simp]:
  "an_status (pg_announcement_of_row m r) = rw_status r" "an_parent_id (pg_announcement_of_row m r) = rw_parent_announcement_id r"
  "an_canonical (pg_announcement_of_row m r) = canonical_of_row r" "an_created_at (pg_announcement_of_row m r) = rw_created_at r"
  "an_id (pg_announcement_of_row m r) = rw_announcement_id r"
  by (simp_all add: pg_announcement_of_row_def)

text \<open>The part of the condition about the price and about the excluded audience, and the rest.\<close>

definition price_ok :: "search_criteria \<Rightarrow> rat option \<Rightarrow> bool" where
  "price_ok c p \<longleftrightarrow> (has_price_filter c \<longrightarrow> price_in_range c p)"

definition audience_allowed :: "search_criteria \<Rightarrow> announcement_row \<Rightarrow> bool" where
  "audience_allowed c r \<longleftrightarrow> (case sc_audience_tag c of None \<Rightarrow> True | Some t \<Rightarrow> t \<notin> set (rw_audience_excluded_tags r))"

definition otherwise_found :: "search_criteria \<Rightarrow> announcement_row \<Rightarrow> bool" where
  "otherwise_found c r \<longleftrightarrow>
     rw_status r = ActiveAnn \<and> rw_parent_announcement_id r = None \<and> rw_price_period r \<noteq> OneTime \<and>
     (sc_include_per_person c \<or> rw_price_basis r = TotalPrice) \<and>
     (sc_districts c = [] \<or> (\<exists>d. rw_district r = Some d \<and> lower d \<in> set (map lower (sc_districts c)))) \<and>
     (case sc_rooms c of None \<Rightarrow> True | Some n \<Rightarrow> rw_rooms r = Some n) \<and>
     (case sc_renovation_level c of None \<Rightarrow> True | Some l \<Rightarrow> rw_renovation_level r = Some l) \<and>
     (case sc_audience_tag c of None \<Rightarrow> True | Some t \<Rightarrow> t \<in> set (rw_audience_tags r))"

lemma district_condition:
  assumes "districts_named c"
  shows "lower (case d of None \<Rightarrow> [] | Some x \<Rightarrow> x) \<in> set (map lower (sc_districts c)) \<longleftrightarrow>
    (\<exists>x. d = Some x \<and> lower x \<in> set (map lower (sc_districts c)))"
proof (cases d)
  case None
  have "[] \<notin> set (map lower (sc_districts c))" using assms by (auto simp: districts_named_def)
  with None show ?thesis by (simp add: lower_def)
qed simp

lemma basis_cases: "b = TotalPrice \<longleftrightarrow> b \<noteq> PerPerson"
  by (cases b) simp_all

lemma matches_row:
  assumes "tags_lower r" and "districts_named c"
    and a: "an_status a = rw_status r" "an_parent_id a = rw_parent_announcement_id r" "an_canonical a = canonical_of_row r"
  shows "announcement_matches a c \<longleftrightarrow> otherwise_found c r \<and> price_ok c (rw_price_normalized_monthly r) \<and> audience_allowed c r"
proof -
  have tags: "map lower (rw_audience_tags r) = rw_audience_tags r" "map lower (rw_audience_excluded_tags r) = rw_audience_excluded_tags r"
    using assms(1) by (auto simp: tags_lower_def intro: lower_all)
  show ?thesis
    unfolding announcement_matches_def Let_def a row_fields tags district_condition [OF assms(2)] otherwise_found_def price_ok_def
      audience_allowed_def basis_cases
    by (cases "sc_rooms c"; cases "sc_renovation_level c"; cases "sc_audience_tag c") auto
qed

lemma sa_price_condition:
  "kept (case sc_min_price c of None \<Rightarrow> [] | Some p \<Rightarrow> [sql_or (sql_is_null q) (sql_cmp (\<ge>) q p)]) \<and>
   kept (case sc_max_price c of None \<Rightarrow> [] | Some p \<Rightarrow> [sql_or (sql_is_null q) (sql_cmp (\<le>) q p)]) \<longleftrightarrow>
   price_ok c q \<or> q = None"
  by (auto simp: price_ok_def has_price_filter_def price_in_range_def not_less split: option.splits)

lemma pg_price_condition:
  "kept (case sc_min_price c of None \<Rightarrow> [] | Some p \<Rightarrow> [sql_cmp (\<ge>) q p]) \<and>
   kept (case sc_max_price c of None \<Rightarrow> [] | Some p \<Rightarrow> [sql_cmp (\<le>) q p]) \<longleftrightarrow> price_ok c q"
  by (auto simp: price_ok_def has_price_filter_def price_in_range_def not_less split: option.splits)

lemma kept_given_eq:
  "kept (case v of None \<Rightarrow> [] | Some n \<Rightarrow> [sql_cmp (=) q n]) \<longleftrightarrow> (case v of None \<Rightarrow> True | Some n \<Rightarrow> q = Some n)"
  by (cases v) auto

lemma kept_tag:
  "kept (case v of None \<Rightarrow> [] | Some t \<Rightarrow> [Some (t \<in> A)]) \<longleftrightarrow> (case v of None \<Rightarrow> True | Some t \<Rightarrow> t \<in> A)"
  "kept (case v of None \<Rightarrow> [] | Some t \<Rightarrow> [Some (t \<in> A), sql_not (Some (t \<in> B))]) \<longleftrightarrow>
     (case v of None \<Rightarrow> True | Some t \<Rightarrow> t \<in> A) \<and> (case v of None \<Rightarrow> True | Some t \<Rightarrow> t \<notin> B)"
  by (cases v; simp add: sql_not_def)+

lemma kept_districts:
  "kept (if ds \<noteq> [] then [sql_in (map_option lower q) (map lower ds)] else []) \<longleftrightarrow> (ds = [] \<or> (\<exists>d. q = Some d \<and> lower d \<in> set (map lower ds)))"
  "kept (case ds of [] \<Rightarrow> [] | [d] \<Rightarrow> [sql_cmp (=) (map_option lower q) (lower d)]
      | es \<Rightarrow> [sql_in (map_option lower q) (map lower es)]) \<longleftrightarrow> (ds = [] \<or> (\<exists>d. q = Some d \<and> lower d \<in> set (map lower ds)))"
  by (cases q; auto split: list.splits)+

lemma kept_basis:
  "kept (if \<not> b then [sql_or (Some x) (Some False)] else []) \<longleftrightarrow> b \<or> x"
  "kept (if \<not> b then [Some x] else []) \<longleftrightarrow> b \<or> x"
  by auto

lemma kept_canonical:
  "kept [Some (rw_status r = ActiveAnn), sql_is_null (rw_parent_announcement_id r), Some (rw_price_period r \<noteq> OneTime)] \<longleftrightarrow>
     rw_status r = ActiveAnn \<and> rw_parent_announcement_id r = None \<and> rw_price_period r \<noteq> OneTime"
  "kept [sql_is_null (rw_parent_announcement_id r), Some (rw_status r = ActiveAnn), Some (rw_price_period r \<in> {Daily, Monthly})] \<longleftrightarrow>
     rw_status r = ActiveAnn \<and> rw_parent_announcement_id r = None \<and> rw_price_period r \<noteq> OneTime"
  by (cases "rw_price_period r"; auto)+

lemmas kept_conditions = kept_simps(3) kept_given_eq kept_tag kept_districts kept_basis kept_canonical

lemma sa_where_iff:
  "kept (sa_search_where c r) \<longleftrightarrow> otherwise_found c r \<and> (price_ok c (rw_price_normalized_monthly r) \<or> rw_price_normalized_monthly r = None)"
  unfolding sa_search_where_def sa_price_condition [symmetric] otherwise_found_def kept_conditions by blast

lemma pg_where_iff:
  "kept (pg_search_where c r) \<longleftrightarrow> otherwise_found c r \<and> price_ok c (rw_price_normalized_monthly r) \<and> audience_allowed c r"
  unfolding pg_search_where_def pg_price_condition [symmetric] otherwise_found_def audience_allowed_def kept_conditions by blast

section \<open>Orders\<close>

lemma insort_key_map: "insort_key k (f x) (map f xs) = map f (insort_key (\<lambda>x. k (f x)) x xs)"
  by (induction xs) auto

lemma sort_key_map: "sort_key k (map f xs) = map f (sort_key (\<lambda>x. k (f x)) xs)"
  by (induction xs) (simp_all add: insort_key_map)

lemma py_sort_map: "py_sort k (map f xs) = map f (py_sort (\<lambda>x. k (f x)) xs)"
  by (simp add: py_sort_def sort_key_map)

lemma py_sort_desc_map: "py_sort_desc k (map f xs) = map f (py_sort_desc (\<lambda>x. k (f x)) xs)"
  by (simp add: py_sort_desc_def sort_key_map rev_map)

lemma row_sort_keys:
  assumes "\<And>r. an_canonical (f r) = canonical_of_row r"
  shows "price_or_zero (f r) = row_price r" "unpriced (f r) = row_unpriced r"
  using assms by (simp_all add: price_or_zero_def row_price_def unpriced_def row_unpriced_def)

lemma memory_order_map:
  assumes "\<And>r. an_canonical (f r) = canonical_of_row r" "\<And>r. an_created_at (f r) = rw_created_at r" "\<And>r. an_id (f r) = rw_announcement_id r"
  shows "sort_announcements order (map f rs) =
    map f (case order of
        Newest \<Rightarrow> py_sort_desc (\<lambda>r. (rw_created_at r, rw_announcement_id r)) rs
      | Cheapest \<Rightarrow> py_sort (\<lambda>r. (row_unpriced r, row_price r, rw_created_at r, rw_announcement_id r)) rs
      | PriceDesc \<Rightarrow> py_sort_desc (\<lambda>r. (\<not> row_unpriced r, row_price r, rw_created_at r, rw_announcement_id r)) rs)"
  by (cases order) (simp_all add: sort_announcements_def py_sort_map py_sort_desc_map row_sort_keys [OF assms(1)] assms(2,3))

lemma page_map: "page n m (map f xs) = map f (page n m xs)"
  by (simp add: page_def take_map drop_map)

lemma mset_sa_order [simp]: "mset (sa_order_by order rs) = mset rs"
  by (cases order) (simp_all add: sa_order_by_def)

lemma length_sa_order [simp]: "length (sa_order_by order rs) = length rs"
  by (cases order) (simp_all add: sa_order_by_def)

lemma length_pg_order [simp]: "length (pg_order_by order rs) = length rs"
  by (cases order) (simp_all add: pg_order_by_def)

section \<open>How the searches relate\<close>

text \<open>What the order by price compares, and the whole list of which the search over asyncpg gives a page.\<close>

definition price_place :: "announcement \<Rightarrow> bool \<times> rat" where
  "price_place a = (unpriced a, price_or_zero a)"

definition cheapest_newest_first :: "announcement list \<Rightarrow> bool" where
  "cheapest_newest_first xs \<longleftrightarrow>
     sorted_wrt (\<lambda>a b. price_place a \<le> price_place b \<and>
       (price_place a = price_place b \<longrightarrow> (an_created_at b, an_id b) \<le> (an_created_at a, an_id a))) xs"

lemma insort_keeps_order:
  assumes "sorted_wrt (\<lambda>a b. k a \<le> k b \<and> (k a = k b \<longrightarrow> R a b)) xs" and "\<forall>y \<in> set xs. R x y"
  shows "sorted_wrt (\<lambda>a b. k a \<le> k b \<and> (k a = k b \<longrightarrow> R a b)) (insort_key k x xs)"
  using assms by (induction xs) (auto simp: set_insort_key)

lemma sort_key_stable:
  "sorted_wrt R xs \<Longrightarrow> sorted_wrt (\<lambda>a b. k a \<le> k b \<and> (k a = k b \<longrightarrow> R a b)) (sort_key k xs)"
  by (induction xs) (simp_all add: insort_keeps_order)

lemma cheapest_newest_first_sort:
  "cheapest_newest_first (py_sort price_place (py_sort_desc (\<lambda>a. (an_created_at a, an_id a)) xs))"
proof -
  have "sorted_wrt (\<lambda>a b. (an_created_at b, an_id b) \<le> (an_created_at a, an_id a)) (py_sort_desc (\<lambda>a. (an_created_at a, an_id a)) xs)"
    by (rule sorted_wrt_py_sort_desc)
  from sort_key_stable [OF this, of price_place] show ?thesis
    by (simp add: cheapest_newest_first_def py_sort_def)
qed

lemma cheapest_places:
  assumes "cheapest_newest_first xs" and "mset xs = mset ys"
  shows "map price_place xs = map price_place (sort_announcements Cheapest ys)"
proof -
  let ?zs = "sort_announcements Cheapest ys"
  have "sorted_wrt (\<lambda>a b. price_place a \<le> price_place b) ?zs"
    using sorted_wrt_py_sort [of "\<lambda>a. (unpriced a, price_or_zero a, an_created_at a, an_id a)" ys]
    unfolding sort_announcements_def search_sort.case
    by (rule sorted_wrt_mono_rel [rotated]) (auto simp: price_place_def less_eq_prod_def less_prod_def)
  then have "sorted (map price_place ?zs)" by (simp add: sorted_wrt_map)
  moreover have "sorted (map price_place xs)"
    using assms(1) unfolding cheapest_newest_first_def
    by (auto simp: sorted_wrt_map intro: sorted_wrt_mono_rel [rotated])
  moreover have "mset (map price_place xs) = mset (map price_place ?zs)"
    using assms(2) by (simp add: sort_announcements_def)
  ultimately show ?thesis by (metis properties_for_sort)
qed

text \<open>
  C33. The search over asyncpg over any table gives pages of the announcements the search in memory finds over the same
  announcements. For the newest and for the most expensive first it is exactly the page in memory. For the cheapest first it
  is the page of a list of all those announcements (\<open>ys\<close>) that is sorted by price, those without a price last, and by the
  newest first among equal prices, where the search in memory puts the oldest first; so both pages show the same prices in the
  same places. The total is the number of all matches, as in memory, unless the page is empty, when it is 0.
\<close>

theorem pg_search_refines:
  fixes media :: "string \<Rightarrow> stored_media list"
  assumes "list_all tags_lower table" and "districts_named c"
  defines "listed \<equiv> map (\<lambda>r. pg_announcement_of_row (media (rw_announcement_id r)) r) table"
  shows "(sc_sort c \<noteq> Cheapest \<longrightarrow> fst (pg_search media c table) = fst (search_announcements c listed)) \<and>
    (sc_sort c = Cheapest \<longrightarrow>
       (\<exists>ys. mset ys = mset (filter (\<lambda>a. announcement_matches a c) listed) \<and> cheapest_newest_first ys \<and>
          fst (pg_search media c table) = page (nat (sc_offset c)) (nat (sc_limit c)) ys) \<and>
       map price_place (fst (pg_search media c table)) = map price_place (fst (search_announcements c listed))) \<and>
    md_total (snd (pg_search media c table)) =
      (if fst (pg_search media c table) = [] then 0 else md_total (snd (search_announcements c listed)))"
proof -
  let ?f = "\<lambda>r. pg_announcement_of_row (media (rw_announcement_id r)) r"
  let ?rows = "filter (\<lambda>r. kept (pg_search_where c r)) table"
  let ?page = "page (nat (sc_offset c)) (nat (sc_limit c))"
  have "announcement_matches (?f r) c \<longleftrightarrow> kept (pg_search_where c r)" if "r \<in> set table" for r
    using matches_row [of r c "?f r"] assms(1,2) that by (simp add: pg_where_iff list_all_iff)
  then have found: "filter (\<lambda>a. announcement_matches a c) listed = map ?f ?rows"
    by (simp add: listed_def filter_map comp_def cong: filter_cong)
  have order: "sort_announcements (sc_sort c) (map ?f rs) = map ?f (pg_order_by (sc_sort c) rs)" if "sc_sort c \<noteq> Cheapest" for rs
    using that memory_order_map [of ?f "sc_sort c" rs] by (cases "sc_sort c") (simp_all add: pg_order_by_def)
  have items: "fst (pg_search media c table) = ?page (map ?f (pg_order_by (sc_sort c) ?rows))"
    by (simp add: pg_search_def Let_def page_map)
  have memory: "fst (search_announcements c listed) = ?page (sort_announcements (sc_sort c) (map ?f ?rows))"
    by (simp add: search_announcements_def Let_def found)
  have "fst (pg_search media c table) = fst (search_announcements c listed)" if "sc_sort c \<noteq> Cheapest"
    unfolding items memory order [OF that] ..
  moreover have "(\<exists>ys. mset ys = mset (map ?f ?rows) \<and> cheapest_newest_first ys \<and> fst (pg_search media c table) = ?page ys) \<and>
      map price_place (fst (pg_search media c table)) = map price_place (fst (search_announcements c listed))"
    if "sc_sort c = Cheapest"
  proof -
    let ?ys = "py_sort price_place (py_sort_desc (\<lambda>a. (an_created_at a, an_id a)) (map ?f ?rows))"
    have ys: "map ?f (pg_order_by Cheapest ?rows) = ?ys"
      by (simp add: pg_order_by_def py_sort_map py_sort_desc_map price_place_def [abs_def] row_sort_keys)
    have "map price_place ?ys = map price_place (sort_announcements Cheapest (map ?f ?rows))"
      by (rule cheapest_places [OF cheapest_newest_first_sort]) simp
    then have "map price_place (?page ?ys) = map price_place (?page (sort_announcements Cheapest (map ?f ?rows)))"
      by (simp only: page_map [symmetric])
    then show ?thesis
      using ys cheapest_newest_first_sort unfolding items memory that by (intro conjI exI [of _ ?ys]) simp_all
  qed
  moreover have "md_total (snd (pg_search media c table)) =
      (if fst (pg_search media c table) = [] then 0 else md_total (snd (search_announcements c listed)))"
    by (simp add: pg_search_def search_announcements_def Let_def found search_meta_def)
  ultimately show ?thesis unfolding found by blast
qed

text \<open>
  C34. The search the program runs finds every announcement that matches the criteria, and beyond them exactly those without a
  price when a price was asked for, and those that exclude the audience that was asked for.
\<close>

theorem sa_search_finds_more:
  assumes "tags_lower r" and "districts_named c"
  shows "(announcement_matches (announcement_of_row r) c \<longrightarrow> kept (sa_search_where c r)) \<and>
    (kept (sa_search_where c r) \<and> \<not> announcement_matches (announcement_of_row r) c \<longleftrightarrow>
      otherwise_found c r \<and>
      (has_price_filter c \<and> row_unpriced r \<or>
       price_ok c (rw_price_normalized_monthly r) \<and> \<not> audience_allowed c r))"
  using matches_row [OF assms, of "announcement_of_row r"]
  by (auto simp: sa_where_iff price_ok_def price_in_range_def row_unpriced_def)

text \<open>
  Where the two cannot differ, for criteria without a price and an audience and for the two orders that treat prices
  alike, the search the program runs gives exactly the page and the total of the search in memory.
\<close>

theorem sa_search_refines:
  assumes "list_all tags_lower table" and "districts_named c"
    and "\<not> has_price_filter c" "sc_audience_tag c = None" "sc_sort c \<noteq> PriceDesc"
  shows "fst (sa_search c (Inr table)) = fst (search_announcements c (map announcement_of_row table)) \<and>
    md_total (snd (sa_search c (Inr table))) = md_total (snd (search_announcements c (map announcement_of_row table)))"
proof -
  have "announcement_matches (announcement_of_row r) c \<longleftrightarrow> kept (sa_search_where c r)" if "r \<in> set table" for r
    using matches_row [of r c "announcement_of_row r"] assms that
    by (simp add: sa_where_iff list_all_iff price_ok_def audience_allowed_def)
  then have found: "filter (\<lambda>a. announcement_matches a c) (map announcement_of_row table) = map announcement_of_row (filter (\<lambda>r. kept (sa_search_where c r)) table)"
    by (simp add: filter_map comp_def cong: filter_cong)
  have order: "sort_announcements (sc_sort c) (map announcement_of_row rs) = map announcement_of_row (sa_order_by (sc_sort c) rs)" for rs
    using assms(5) memory_order_map [of announcement_of_row "sc_sort c" rs] by (cases "sc_sort c") (simp_all add: sa_order_by_def)
  show ?thesis
    by (simp add: sa_search_def search_announcements_def Let_def found order page_map search_meta_def sa_search_meta_def)
qed

text \<open>
  Sorted by falling price, the search the program runs puts the listings without a price before all others, while it tells
  for a price filter that none is included; the search in memory puts them last.
\<close>

theorem unpriced_listings_come_first:
  assumes "sc_sort c = PriceDesc"
  shows "sorted_wrt (\<lambda>a b. unpriced b \<longrightarrow> unpriced a) (fst (sa_search c (Inr table))) \<and>
    (has_price_filter c \<longrightarrow> \<not> md_null_price_included (snd (sa_search c (Inr table))))"
proof -
  let ?found = "filter (\<lambda>r. kept (sa_search_where c r)) table"
  have "sorted_wrt (\<lambda>a b. (\<not> row_unpriced a) \<le> (\<not> row_unpriced b)) (sa_order_by PriceDesc ?found)"
    unfolding sa_order_by_def search_sort.case by (rule sorted_wrt_py_sort)
  then have "sorted_wrt (\<lambda>a b. row_unpriced b \<longrightarrow> row_unpriced a) (sa_order_by PriceDesc ?found)"
    by (rule sorted_wrt_mono_rel [rotated]) (auto simp: le_bool_def)
  then have "sorted_wrt (\<lambda>a b. unpriced b \<longrightarrow> unpriced a) (map announcement_of_row (page (nat (sc_offset c)) (nat (sc_limit c)) (sa_order_by PriceDesc ?found)))"
    by (simp add: sorted_wrt_map row_sort_keys sorted_wrt_page)
  then show ?thesis
    using assms by (auto simp: sa_search_def Let_def sa_search_meta_def has_price_filter_def)
qed

section \<open>Witnesses\<close>

definition sample_row :: "string \<Rightarrow> rat option \<Rightarrow> announcement_row" where
  "sample_row k p =
     \<lparr>rw_announcement_id = k, rw_idempotency_key = k, rw_source_id = ''s'', rw_source_channel_id = Some ''c'',
      rw_source_message_id = Some k, rw_source_message_ids = [k], rw_parent_announcement_id = None, rw_status = ActiveAnn,
      rw_source_count = 1, rw_latest_source_id = None, rw_source_url = None, rw_forward_origin_key = None, rw_price = p,
      rw_currency = Some ''USD'', rw_price_period = Monthly, rw_price_basis = TotalPrice, rw_price_normalized_monthly = p,
      rw_rooms = None, rw_area_sqm = None, rw_floor = None, rw_total_floors = None, rw_district = None, rw_address = None,
      rw_phone_numbers = [], rw_owner_type = UnknownOwner, rw_renovation_level = None, rw_renovation_source = UnknownSource,
      rw_furniture = None, rw_description = [], rw_audience_tags = [''students''], rw_audience_excluded_tags = [],
      rw_confidence = None, rw_field_confidence = [], rw_assumptions = [], rw_prompt_version = None, rw_occurred_at = 0,
      rw_created_at = 0, rw_updated_at = 0\<rparr>"

lemma sample_tags: "tags_lower (sample_row k p)"
  by (simp add: tags_lower_def sample_row_def lower_def lower_char_def is_upper_def code_of_def)

lemma default_districts [simp]: "districts_named default_criteria" "sc_sort default_criteria = Newest"
    "\<not> has_price_filter default_criteria" "sc_audience_tag default_criteria = None"
  by (simp_all add: districts_named_def default_criteria_def has_price_filter_def)

text \<open>The cheapest first: the newer one of two listings with the same price leads, where memory has the older one first.\<close>

theorem pg_search_refines_witness:
  "map price_place (fst (pg_search (\<lambda>_. []) (default_criteria\<lparr>sc_sort := Cheapest\<rparr>)
       [sample_row ''a'' (Some 300), sample_row ''b'' (Some 300)])) = [(False, 300), (False, 300)]"
proof -
  let ?c = "default_criteria\<lparr>sc_sort := Cheapest\<rparr>" and ?t = "[sample_row ''a'' (Some 300), sample_row ''b'' (Some 300)]"
  have "list_all tags_lower ?t" "districts_named ?c" by (simp_all add: sample_tags districts_named_def default_criteria_def)
  note pg_search_refines [OF this, of "\<lambda>_. []"]
  moreover have "map price_place (fst (search_announcements ?c (map (pg_announcement_of_row []) ?t))) = [(False, 300), (False, 300)]"
    by code_simp
  ultimately show ?thesis by simp
qed

text \<open>A listing without a price is found for a minimum price, one that excludes students is found for students.\<close>

theorem sa_search_finds_more_witness:
  "\<not> announcement_matches (announcement_of_row (sample_row ''a'' None)) (default_criteria\<lparr>sc_min_price := Some 300\<rparr>) \<and>
   kept (sa_search_where (default_criteria\<lparr>sc_min_price := Some 300\<rparr>) (sample_row ''a'' None)) \<and>
   \<not> announcement_matches (announcement_of_row (sample_row ''a'' None\<lparr>rw_audience_excluded_tags := [''students'']\<rparr>))
       (default_criteria\<lparr>sc_audience_tag := Some ''students''\<rparr>) \<and>
   kept (sa_search_where (default_criteria\<lparr>sc_audience_tag := Some ''students''\<rparr>) (sample_row ''a'' None\<lparr>rw_audience_excluded_tags := [''students'']\<rparr>))"
proof -
  let ?r = "sample_row ''a'' None" and ?p = "default_criteria\<lparr>sc_min_price := Some 300\<rparr>"
  let ?x = "sample_row ''a'' None\<lparr>rw_audience_excluded_tags := [''students'']\<rparr>" and ?t = "default_criteria\<lparr>sc_audience_tag := Some ''students''\<rparr>"
  have ok: "tags_lower ?x" "districts_named ?p" "districts_named ?t"
    using sample_tags [of "''a''" None] by (auto simp: tags_lower_def sample_row_def districts_named_def default_criteria_def)
  have p: "otherwise_found ?p ?r \<and> has_price_filter ?p \<and> row_unpriced ?r"
    by (simp add: otherwise_found_def sample_row_def default_criteria_def has_price_filter_def row_unpriced_def)
  have t: "otherwise_found ?t ?x \<and> price_ok ?t (rw_price_normalized_monthly ?x) \<and> \<not> audience_allowed ?t ?x"
    by (simp add: otherwise_found_def sample_row_def default_criteria_def has_price_filter_def price_ok_def audience_allowed_def)
  from sa_search_finds_more [OF sample_tags ok(2), of "''a''" None] p sa_search_finds_more [OF ok(1,3)] t show ?thesis by blast
qed

theorem sa_search_refines_witness:
  "fst (sa_search default_criteria (Inr [sample_row ''a'' (Some 300)])) =
   fst (search_announcements default_criteria [announcement_of_row (sample_row ''a'' (Some 300))])"
  using sa_search_refines [of "[sample_row ''a'' (Some 300)]" default_criteria] by (simp add: sample_tags)

theorem unpriced_listings_come_first_witness:
  "sorted_wrt (\<lambda>a b. unpriced b \<longrightarrow> unpriced a)
     (fst (sa_search (default_criteria\<lparr>sc_sort := PriceDesc, sc_min_price := Some 300\<rparr>) (Inr [sample_row ''a'' (Some 400), sample_row ''b'' None])))"
  using unpriced_listings_come_first [of "default_criteria\<lparr>sc_sort := PriceDesc, sc_min_price := Some 300\<rparr>"] by simp

end
