(* ===== verification/EF_SqlDelivery.thy ===== *)
theory EF_SqlDelivery
  imports EF_Delivery EF_SqlSearch
begin

text \<open>
  The delivery of notifications over PostgreSQL. The delivery worker (\<open>NotificationDeliveryWorker\<close>) is one program over any
  repository, here over the operations of a record; the repository in memory, the one the program runs
  (\<open>SQLAlchemyNotificationDeliveryRepository\<close>) and the one over asyncpg (\<open>repositories/notifications.py\<close>) are three such records.
  A job row is stored only with a status that the check constraint of the table allows, an argument here: the one declared in
  \<open>models/announcements.py\<close> and in the Alembic migration has no \<open>sending\<close>. Keys are UUIDs in canonical form.
\<close>

section \<open>The tables\<close>

record job_row =
  jr_notification_id :: string
  jr_user_id :: int
  jr_announcement_id :: string
  jr_filter_id :: "string option"
  jr_status :: notification_status
  jr_priority :: int
  jr_attempts :: nat
  jr_last_attempt_at :: "time option"
  jr_next_attempt_at :: "time option"
  jr_telegram_message_id :: "string option"
  jr_delivered_at :: "time option"
  jr_sent_at :: "time option"
  jr_error_reason :: "string option"
  jr_created_at :: time

record delivery_db =
  db_jobs :: "(string, job_row) dict"
  db_attempts :: "delivery_attempt list"
  db_announcements :: "(string, announcement_row) dict"
  db_filter_names :: "(string, string) dict"

definition declared_statuses :: "notification_status list" where
  "declared_statuses = [PendingJob, SentJob, FailedJob, SuppressedJob]"

definition check_violation :: py_error where
  "check_violation = OtherError ''IntegrityError'' ''ck_notifications_status''"

text \<open>Writing a job with its attempts in one transaction: a status that is not allowed refuses all of it.\<close>

definition commit_job :: "notification_status list \<Rightarrow> job_row \<Rightarrow> delivery_attempt list \<Rightarrow> delivery_db \<Rightarrow> delivery_db res" where
  "commit_job allowed r attempts db =
     (if jr_status r \<notin> set allowed then Inl check_violation
      else Inr (db\<lparr>db_jobs := dict_put (jr_notification_id r) r (db_jobs db), db_attempts := db_attempts db @ attempts\<rparr>))"

definition queue_name_of :: "int \<Rightarrow> notification_queue" where
  "queue_name_of priority = (if 0 < priority then HighPriorityQueue else StandardQueue)"

definition job_of_row :: "notification_queue \<Rightarrow> job_row \<Rightarrow> notification_job" where
  "job_of_row queue r =
     \<lparr>nj_notification_id = jr_notification_id r, nj_user_id = jr_user_id r,
      nj_filter_id = (case jr_filter_id r of None \<Rightarrow> [] | Some f \<Rightarrow> f), nj_announcement_id = jr_announcement_id r,
      nj_status = jr_status r, nj_priority = jr_priority r, nj_queue_name = queue, nj_created_at = jr_created_at r,
      nj_attempts = jr_attempts r, nj_next_attempt_at = jr_next_attempt_at r, nj_telegram_message_id = jr_telegram_message_id r\<rparr>"

definition bad_uuid :: py_error where
  "bad_uuid = ValueError ''badly formed hexadecimal UUID string''"

definition uuid_row :: "string \<Rightarrow> delivery_db \<Rightarrow> job_row option res" where
  "uuid_row nid db = (case parse_uuid nid of None \<Rightarrow> Inl bad_uuid | Some k \<Rightarrow> Inr (dict_get (db_jobs db) k))"

definition row_ready :: "time \<Rightarrow> job_row \<Rightarrow> bool" where
  "row_ready now r \<longleftrightarrow>
     kept [Some (jr_status r = PendingJob), sql_or (sql_is_null (jr_next_attempt_at r)) (sql_cmp (\<le>) (jr_next_attempt_at r) now)]"

section \<open>The worker over any repository\<close>

record 's delivery_ops =
  op_claim :: "string \<Rightarrow> time \<Rightarrow> 's \<Rightarrow> notification_job option res \<times> 's"
  op_context :: "string \<Rightarrow> 's \<Rightarrow> (notification_job \<times> announcement \<times> string) option"
  op_retry :: "string \<Rightarrow> string \<Rightarrow> duration \<Rightarrow> time \<Rightarrow> 's \<Rightarrow> delivery_attempt res \<times> 's"
  op_fail :: "string \<Rightarrow> string \<Rightarrow> time \<Rightarrow> 's \<Rightarrow> delivery_attempt res \<times> 's"
  op_sent :: "string \<Rightarrow> string \<Rightarrow> time \<Rightarrow> 's \<Rightarrow> delivery_attempt res \<times> 's"

text \<open>What the worker keeps besides the repository: its rate limiter, and what Telegram has accepted so far.\<close>

record 's delivery_worker =
  wk_limiter :: rate_limiter
  wk_delivered :: "string list"
  wk_repo :: 's

definition on_worker_repo :: "('s \<Rightarrow> 'a res \<times> 's) \<Rightarrow> 's delivery_worker \<Rightarrow> 'a res \<times> 's delivery_worker" where
  "on_worker_repo f w = (case f (wk_repo w) of (r, s) \<Rightarrow> (r, w\<lparr>wk_repo := s\<rparr>))"

definition settle_retry where
  "settle_retry ops nid error wait now metric w = then_do (on_worker_repo (op_retry ops nid error wait now) w) (\<lambda>a w. (Inr (a, metric), w))"

definition settle_failed where
  "settle_failed ops nid error now w = then_do (on_worker_repo (op_fail ops nid error now) w) (\<lambda>a w. (Inr (a, MPermanent), w))"

definition settle_sent where
  "settle_sent ops nid mid now w =
     then_do (on_worker_repo (op_sent ops nid mid now) (w\<lparr>wk_delivered := wk_delivered w @ [nid]\<rparr>)) (\<lambda>a w. (Inr (a, MSent), w))"

definition deliver_claimed ::
  "'s delivery_ops \<Rightarrow> (notification_job \<Rightarrow> announcement \<Rightarrow> string \<Rightarrow> send_outcome) \<Rightarrow> duration \<Rightarrow> time \<Rightarrow> notification_job \<Rightarrow>
   's delivery_worker \<Rightarrow> (delivery_attempt \<times> delivery_metric) res \<times> 's delivery_worker" where
  "deliver_claimed ops send backoff now sending w =
     (case rate_retry_after (nj_user_id sending) now (wk_limiter w) of
        (wait, rl) \<Rightarrow>
          (let nid = nj_notification_id sending; w2 = w\<lparr>wk_limiter := rl\<rparr> in
           case wait of
             Some d \<Rightarrow> settle_retry ops nid ''local_rate_limited'' d now MRateLimited w2
           | None \<Rightarrow>
               (case op_context ops nid (wk_repo w2) of
                  None \<Rightarrow> settle_failed ops nid ''missing_delivery_context'' now w2
                | Some (j, an, name) \<Rightarrow>
                    (case send j an name of
                       TelegramRateLimit secs \<Rightarrow> settle_retry ops nid ''telegram_rate_limited'' (seconds secs) now MRetryable w2
                     | TelegramUserBlocked \<Rightarrow> settle_failed ops nid ''telegram_user_blocked'' now w2
                     | TelegramPermanent \<Rightarrow> settle_failed ops nid ''telegram_permanent_error'' now w2
                     | TelegramTransient \<Rightarrow> settle_retry ops nid ''telegram_transient_error'' backoff now MRetryable w2
                     | OtherException e \<Rightarrow> (Inl e, w2)
                     | Delivered mid \<Rightarrow> settle_sent ops nid mid now w2))))"

definition deliver_job ::
  "'s delivery_ops \<Rightarrow> (notification_job \<Rightarrow> announcement \<Rightarrow> string \<Rightarrow> send_outcome) \<Rightarrow> duration \<Rightarrow> time \<Rightarrow> notification_job \<Rightarrow>
   's delivery_worker \<Rightarrow> (delivery_attempt \<times> delivery_metric) res \<times> 's delivery_worker" where
  "deliver_job ops send backoff now job w =
     then_do (on_worker_repo (op_claim ops (nj_notification_id job) now) w) (\<lambda>claim w1.
       case claim of
         None \<Rightarrow>
           (Inr (\<lparr>da_notification_id = nj_notification_id job, da_attempt_no = nj_attempts job, da_result = Skipped,
                  da_error_type = None, da_retryable = False, da_telegram_message_id = None, da_created_at = now\<rparr>, MSkipped), w1)
       | Some sending \<Rightarrow> deliver_claimed ops send backoff now sending w1)"

text \<open>Jobs that are handed over one after the other, each at its moment and with what Telegram answers.\<close>

definition deliver_all ::
  "'s delivery_ops \<Rightarrow> duration \<Rightarrow> ((notification_job \<Rightarrow> announcement \<Rightarrow> string \<Rightarrow> send_outcome) \<times> time \<times> notification_job) list \<Rightarrow>
   's delivery_worker \<Rightarrow> 's delivery_worker" where
  "deliver_all ops backoff jobs w = fold (\<lambda>(send, now, job) w. snd (deliver_job ops send backoff now job w)) jobs w"

section \<open>The repositories\<close>

definition memory_ops :: "notif delivery_ops" where
  "memory_ops =
     \<lparr>op_claim = (\<lambda>nid now s. apfst Inr (mark_sending nid now s)), op_context = get_delivery_context,
      op_retry = mark_retryable_failure, op_fail = mark_permanent_failure, op_sent = mark_sent\<rparr>"

text \<open>
  Over SQLAlchemy: \<open>mark_sending\<close> reads the row and writes it in a later statement, here in two steps whose composition is the
  operation when nothing comes between them.
\<close>

definition sa_select_pending :: "string \<Rightarrow> time \<Rightarrow> delivery_db \<Rightarrow> job_row option res" where
  "sa_select_pending nid now db =
     res_bind (uuid_row nid db) (\<lambda>r. Inr (case r of None \<Rightarrow> None | Some x \<Rightarrow> if row_ready now x then Some x else None))"

definition sending_row :: "time \<Rightarrow> job_row \<Rightarrow> job_row" where
  "sending_row now r = r\<lparr>jr_status := SendingJob, jr_attempts := Suc (jr_attempts r), jr_last_attempt_at := Some now\<rparr>"

definition sa_commit_sending :: "notification_status list \<Rightarrow> time \<Rightarrow> job_row \<Rightarrow> delivery_db \<Rightarrow> notification_job option res \<times> delivery_db" where
  "sa_commit_sending allowed now r db =
     (case commit_job allowed (sending_row now r) [] db of
        Inl e \<Rightarrow> (Inl e, db)
      | Inr t \<Rightarrow> (Inr (Some (job_of_row (queue_name_of (jr_priority r)) (sending_row now r))), t))"

definition sa_mark_sending :: "notification_status list \<Rightarrow> string \<Rightarrow> time \<Rightarrow> delivery_db \<Rightarrow> notification_job option res \<times> delivery_db" where
  "sa_mark_sending allowed nid now db =
     (case sa_select_pending nid now db of
        Inl e \<Rightarrow> (Inl e, db)
      | Inr None \<Rightarrow> (Inr None, db)
      | Inr (Some r) \<Rightarrow> sa_commit_sending allowed now r db)"

definition new_attempt :: "string \<Rightarrow> nat \<Rightarrow> attempt_result \<Rightarrow> string option \<Rightarrow> bool \<Rightarrow> string option \<Rightarrow> time \<Rightarrow> delivery_attempt" where
  "new_attempt nid n result error retryable mid now =
     \<lparr>da_notification_id = nid, da_attempt_no = n, da_result = result, da_error_type = error, da_retryable = retryable,
      da_telegram_message_id = mid, da_created_at = now\<rparr>"

definition sa_settle ::
  "notification_status list \<Rightarrow> string \<Rightarrow> (job_row \<Rightarrow> job_row) \<Rightarrow> (nat \<Rightarrow> delivery_attempt) \<Rightarrow> delivery_db \<Rightarrow> delivery_attempt res \<times> delivery_db" where
  "sa_settle allowed nid change attempt db =
     (case uuid_row nid db of
        Inl e \<Rightarrow> (Inl e, db)
      | Inr None \<Rightarrow> (Inl (KeyError nid), db)
      | Inr (Some r) \<Rightarrow>
          (case commit_job allowed (change r) [attempt (jr_attempts r)] db of
             Inl e \<Rightarrow> (Inl e, db)
           | Inr t \<Rightarrow> (Inr (attempt (jr_attempts r)), t)))"

definition sent_row :: "string \<Rightarrow> time \<Rightarrow> job_row \<Rightarrow> job_row" where
  "sent_row mid now r =
     r\<lparr>jr_status := SentJob, jr_sent_at := Some now, jr_delivered_at := Some now, jr_telegram_message_id := Some mid,
       jr_next_attempt_at := None, jr_error_reason := None\<rparr>"

definition retry_row :: "string \<Rightarrow> duration \<Rightarrow> time \<Rightarrow> job_row \<Rightarrow> job_row" where
  "retry_row error wait now r = r\<lparr>jr_status := PendingJob, jr_next_attempt_at := Some (now + wait), jr_error_reason := Some error\<rparr>"

definition failed_row :: "string \<Rightarrow> job_row \<Rightarrow> job_row" where
  "failed_row error r =
     r\<lparr>jr_status := (if error = ''telegram_user_blocked'' then SuppressedJob else FailedJob), jr_next_attempt_at := None,
       jr_error_reason := Some error\<rparr>"

definition sa_mark_sent :: "notification_status list \<Rightarrow> string \<Rightarrow> string \<Rightarrow> time \<Rightarrow> delivery_db \<Rightarrow> delivery_attempt res \<times> delivery_db" where
  "sa_mark_sent allowed nid mid now =
     sa_settle allowed nid (sent_row mid now) (\<lambda>n. new_attempt nid n SentAttempt None False (Some mid) now)"

definition sa_mark_retryable_failure ::
  "notification_status list \<Rightarrow> string \<Rightarrow> string \<Rightarrow> duration \<Rightarrow> time \<Rightarrow> delivery_db \<Rightarrow> delivery_attempt res \<times> delivery_db" where
  "sa_mark_retryable_failure allowed nid error wait now =
     sa_settle allowed nid (retry_row error wait now) (\<lambda>n. new_attempt nid n RetryableFailure (Some error) True None now)"

definition sa_mark_permanent_failure ::
  "notification_status list \<Rightarrow> string \<Rightarrow> string \<Rightarrow> time \<Rightarrow> delivery_db \<Rightarrow> delivery_attempt res \<times> delivery_db" where
  "sa_mark_permanent_failure allowed nid error now =
     sa_settle allowed nid (failed_row error) (\<lambda>n. new_attempt nid n PermanentFailure (Some error) False None now)"

definition sa_context :: "string \<Rightarrow> delivery_db \<Rightarrow> (notification_job \<times> announcement \<times> string) option" where
  "sa_context nid db =
     (case parse_uuid nid of
        None \<Rightarrow> None
      | Some k \<Rightarrow>
          (case dict_get (db_jobs db) k of
             None \<Rightarrow> None
           | Some r \<Rightarrow>
               (case jr_filter_id r of
                  None \<Rightarrow> None
                | Some f \<Rightarrow>
                    (case (dict_get (db_filter_names db) f, dict_get (db_announcements db) (jr_announcement_id r)) of
                       (Some name, Some a) \<Rightarrow> Some (job_of_row (queue_name_of (jr_priority r)) r, announcement_of_row a, name)
                     | _ \<Rightarrow> None))))"

definition sa_list_ready :: "nat \<Rightarrow> time \<Rightarrow> delivery_db \<Rightarrow> notification_job list" where
  "sa_list_ready limit now db =
     map (\<lambda>r. job_of_row (queue_name_of (jr_priority r)) r)
       (take limit (py_sort (\<lambda>r. (- jr_priority r, jr_created_at r, jr_notification_id r))
         (filter (row_ready now) (dict_values (db_jobs db)))))"

definition sa_ops :: "notification_status list \<Rightarrow> delivery_db delivery_ops" where
  "sa_ops allowed =
     \<lparr>op_claim = sa_mark_sending allowed, op_context = sa_context, op_retry = sa_mark_retryable_failure allowed,
      op_fail = sa_mark_permanent_failure allowed, op_sent = sa_mark_sent allowed\<rparr>"

text \<open>
  Over asyncpg: \<open>mark_sending\<close> locks the row it selects and passes over a row that somebody else has locked; the locks are the
  list of locked keys. The attempt is written in the same transaction. A text is a UUID if it is 32 hexadecimal digits with
  any hyphens.
\<close>

definition pg_uuid :: "string \<Rightarrow> string option" where
  "pg_uuid text =
     (let h = filter (\<lambda>c. c \<noteq> CHR ''-'') text in if length h = 32 \<and> list_all is_hex_digit h then Some (canonical_uuid (lower h)) else None)"

definition pg_row :: "string \<Rightarrow> delivery_db \<Rightarrow> job_row option res" where
  "pg_row nid db =
     (case pg_uuid nid of None \<Rightarrow> Inl (OtherError ''DataError'' ''invalid UUID'') | Some k \<Rightarrow> Inr (dict_get (db_jobs db) k))"

definition pg_job_of_row :: "notification_queue \<Rightarrow> job_row \<Rightarrow> notification_job" where
  "pg_job_of_row queue r = (job_of_row queue r)\<lparr>nj_filter_id := (case jr_filter_id r of None \<Rightarrow> ''None'' | Some f \<Rightarrow> f)\<rparr>"

definition pg_select_pending :: "string \<Rightarrow> time \<Rightarrow> string list \<Rightarrow> delivery_db \<Rightarrow> (job_row option \<times> string list) res" where
  "pg_select_pending nid now locked db =
     res_bind (pg_row nid db) (\<lambda>r. Inr (case r of
        None \<Rightarrow> (None, locked)
      | Some x \<Rightarrow>
          if row_ready now x \<and> jr_notification_id x \<notin> set locked then (Some x, jr_notification_id x # locked) else (None, locked)))"

definition pg_commit_sending ::
  "notification_status list \<Rightarrow> string \<Rightarrow> time \<Rightarrow> job_row \<Rightarrow> string list \<Rightarrow> delivery_db \<Rightarrow>
   (notification_job option res \<times> string list) \<times> delivery_db" where
  "pg_commit_sending allowed nid now r locked db =
     (let u = sending_row now r in
      case commit_job allowed u [new_attempt nid (jr_attempts u) SendingAttempt None False None now] db of
        Inl e \<Rightarrow> ((Inl e, removeAll (jr_notification_id r) locked), db)
      | Inr t \<Rightarrow> ((Inr (Some (pg_job_of_row (queue_name_of (jr_priority r)) u)), removeAll (jr_notification_id r) locked), t))"

definition pg_mark_sending :: "notification_status list \<Rightarrow> string \<Rightarrow> time \<Rightarrow> delivery_db \<Rightarrow> notification_job option res \<times> delivery_db" where
  "pg_mark_sending allowed nid now db =
     (case pg_select_pending nid now [] db of
        Inl e \<Rightarrow> (Inl e, db)
      | Inr (None, locked) \<Rightarrow> (Inr None, db)
      | Inr (Some r, locked) \<Rightarrow> apfst fst (pg_commit_sending allowed nid now r locked db))"

definition pg_settle ::
  "notification_status list \<Rightarrow> string \<Rightarrow> (job_row \<Rightarrow> job_row) \<Rightarrow> (nat \<Rightarrow> delivery_attempt) \<Rightarrow> delivery_db \<Rightarrow> delivery_attempt res \<times> delivery_db" where
  "pg_settle allowed nid change attempt db =
     (case pg_row nid db of
        Inl e \<Rightarrow> (Inl e, db)
      | Inr None \<Rightarrow> (Inl (OtherError ''AssertionError'' []), db)
      | Inr (Some r) \<Rightarrow>
          (case commit_job allowed (change r) [attempt (jr_attempts r)] db of
             Inl e \<Rightarrow> (Inl e, db)
           | Inr t \<Rightarrow> (Inr (attempt (jr_attempts r)), t)))"

definition pg_mark_sent :: "notification_status list \<Rightarrow> string \<Rightarrow> string \<Rightarrow> time \<Rightarrow> delivery_db \<Rightarrow> delivery_attempt res \<times> delivery_db" where
  "pg_mark_sent allowed nid mid now =
     pg_settle allowed nid (sent_row mid now) (\<lambda>n. new_attempt nid n SentAttempt None False (Some mid) now)"

definition pg_mark_retryable_failure ::
  "notification_status list \<Rightarrow> string \<Rightarrow> string \<Rightarrow> duration \<Rightarrow> time \<Rightarrow> delivery_db \<Rightarrow> delivery_attempt res \<times> delivery_db" where
  "pg_mark_retryable_failure allowed nid error wait now =
     pg_settle allowed nid (retry_row error wait now)
       (\<lambda>n. new_attempt nid n (if contains error ''rate_limited'' then RateLimited else RetryableFailure) (Some error) True None now)"

definition pg_mark_permanent_failure ::
  "notification_status list \<Rightarrow> string \<Rightarrow> string \<Rightarrow> time \<Rightarrow> delivery_db \<Rightarrow> delivery_attempt res \<times> delivery_db" where
  "pg_mark_permanent_failure allowed nid error now =
     pg_settle allowed nid (failed_row error) (\<lambda>n. new_attempt nid n PermanentFailure (Some error) False None now)"

text \<open>The columns of the delivery context over asyncpg are left out: the context is an argument.\<close>

definition pg_ops ::
  "(string \<Rightarrow> delivery_db \<Rightarrow> (notification_job \<times> announcement \<times> string) option) \<Rightarrow> notification_status list \<Rightarrow> delivery_db delivery_ops" where
  "pg_ops ctx allowed =
     \<lparr>op_claim = pg_mark_sending allowed, op_context = ctx, op_retry = pg_mark_retryable_failure allowed,
      op_fail = pg_mark_permanent_failure allowed, op_sent = pg_mark_sent allowed\<rparr>"

text \<open>Creating jobs: one per user, filter and announcement.\<close>

definition job_row_of :: "int \<Rightarrow> string \<Rightarrow> string \<Rightarrow> delivery_db \<Rightarrow> job_row option" where
  "job_row_of user fid aid db =
     find_first (\<lambda>r. jr_user_id r = user \<and> jr_filter_id r = Some fid \<and> jr_announcement_id r = aid) (dict_values (db_jobs db))"

definition new_job_row :: "time \<Rightarrow> string \<Rightarrow> int \<Rightarrow> string \<Rightarrow> string \<Rightarrow> int \<Rightarrow> job_row" where
  "new_job_row now nid user fid aid priority =
     \<lparr>jr_notification_id = nid, jr_user_id = user, jr_announcement_id = aid, jr_filter_id = Some fid, jr_status = PendingJob,
      jr_priority = priority, jr_attempts = 0, jr_last_attempt_at = None, jr_next_attempt_at = None,
      jr_telegram_message_id = None, jr_delivered_at = None, jr_sent_at = None, jr_error_reason = None, jr_created_at = now\<rparr>"

definition sa_create_pending ::
  "notification_status list \<Rightarrow> time \<Rightarrow> string \<Rightarrow> int \<Rightarrow> string \<Rightarrow> string \<Rightarrow> int \<Rightarrow> notification_queue \<Rightarrow> delivery_db \<Rightarrow>
   (notification_job \<times> bool) res \<times> delivery_db" where
  "sa_create_pending allowed now nid user fid aid priority queue db =
     (case (parse_uuid fid, parse_uuid aid) of
        (Some f, Some a) \<Rightarrow>
          (case job_row_of user f a db of
             Some r \<Rightarrow> (Inr (job_of_row queue r, False), db)
           | None \<Rightarrow>
               (case commit_job allowed (new_job_row now nid user f a priority) [] db of
                  Inl e \<Rightarrow> (Inl e, db)
                | Inr t \<Rightarrow> (Inr (job_of_row queue (new_job_row now nid user f a priority), True), t)))
      | _ \<Rightarrow> (Inl bad_uuid, db))"

section \<open>The contract of a delivery repository\<close>

text \<open>
  Claiming gives a pending job and makes it \<open>sending\<close>, or changes nothing; what settles a known job decides its status; no
  operation touches another job.
\<close>

locale delivery_store =
  fixes ops :: "'s delivery_ops"
    and status :: "'s \<Rightarrow> string \<Rightarrow> notification_status option"
    and ok :: "'s \<Rightarrow> bool"
  assumes claims: "ok s \<Longrightarrow> op_claim ops nid now s = (Inr (Some j), t) \<Longrightarrow>
      ok t \<and> status s (nj_notification_id j) = Some PendingJob \<and> status t = (status s)(nj_notification_id j \<mapsto> SendingJob)"
    and passes: "ok s \<Longrightarrow> op_claim ops nid now s = (r, t) \<Longrightarrow> \<forall>j. r \<noteq> Inr (Some j) \<Longrightarrow> t = s"
    and retries: "ok s \<Longrightarrow> status s n \<noteq> None \<Longrightarrow> op_retry ops n error wait now s = (a, t) \<Longrightarrow>
      ok t \<and> status t = (status s)(n \<mapsto> PendingJob)"
    and fails: "ok s \<Longrightarrow> status s n \<noteq> None \<Longrightarrow> op_fail ops n error now s = (a, t) \<Longrightarrow>
      ok t \<and> (status t = (status s)(n \<mapsto> FailedJob) \<or> status t = (status s)(n \<mapsto> SuppressedJob))"
    and sends: "ok s \<Longrightarrow> status s n \<noteq> None \<Longrightarrow> op_sent ops n mid now s = (a, t) \<Longrightarrow>
      ok t \<and> status t = (status s)(n \<mapsto> SentJob)"
begin

text \<open>What Telegram has accepted is sent, each job once.\<close>

definition delivered_once :: "'s delivery_worker \<Rightarrow> bool" where
  "delivered_once w \<longleftrightarrow> ok (wk_repo w) \<and> distinct (wk_delivered w) \<and> (\<forall>n \<in> set (wk_delivered w). status (wk_repo w) n = Some SentJob)"

lemma retry_keeps:
  assumes "delivered_once w" and "status (wk_repo w) n = Some SendingJob"
  shows "delivered_once (snd (settle_retry ops n error wait now m w))"
proof -
  obtain r t where rt: "op_retry ops n error wait now (wk_repo w) = (r, t)" by fastforce
  with retries [of "wk_repo w" n] assms have "ok t" "status t = (status (wk_repo w))(n \<mapsto> PendingJob)"
    by (simp_all add: delivered_once_def)
  then show ?thesis using assms rt by (cases r) (auto simp: delivered_once_def on_worker_repo_def then_do_def settle_retry_def settle_failed_def settle_sent_def)
qed

lemma fail_keeps:
  assumes "delivered_once w" and "status (wk_repo w) n = Some SendingJob"
  shows "delivered_once (snd (settle_failed ops n error now w))"
proof -
  obtain r t where rt: "op_fail ops n error now (wk_repo w) = (r, t)" by fastforce
  with fails [of "wk_repo w" n] assms have "ok t" "\<exists>st. status t = (status (wk_repo w))(n \<mapsto> st)"
    unfolding delivered_once_def by blast+
  then show ?thesis using assms rt by (cases r) (auto simp: delivered_once_def on_worker_repo_def then_do_def settle_retry_def settle_failed_def settle_sent_def)
qed

lemma sent_keeps:
  assumes "delivered_once w" and "status (wk_repo w) n = Some SendingJob"
  shows "delivered_once (snd (settle_sent ops n mid now w))"
proof -
  obtain r t where rt: "op_sent ops n mid now (wk_repo w) = (r, t)" by fastforce
  with sends [of "wk_repo w" n] assms have "ok t" "status t = (status (wk_repo w))(n \<mapsto> SentJob)"
    by (simp_all add: delivered_once_def)
  then show ?thesis using assms rt by (cases r) (auto simp: delivered_once_def on_worker_repo_def then_do_def settle_retry_def settle_failed_def settle_sent_def)
qed

lemma claimed_keeps:
  assumes "delivered_once w" and "status (wk_repo w) (nj_notification_id j) = Some SendingJob"
  shows "delivered_once (snd (deliver_claimed ops send backoff now j w))"
proof -
  obtain wait rl where rl: "rate_retry_after (nj_user_id j) now (wk_limiter w) = (wait, rl)" by fastforce
  let ?w = "w\<lparr>wk_limiter := rl\<rparr>"
  have w: "delivered_once ?w" "status (wk_repo ?w) (nj_notification_id j) = Some SendingJob"
    using assms by (simp_all add: delivered_once_def)
  note keeps = w(1) retry_keeps [OF w] fail_keeps [OF w] sent_keeps [OF w]
  show ?thesis
    unfolding deliver_claimed_def rl prod.case Let_def
    by (cases wait; cases "op_context ops (nj_notification_id j) (wk_repo ?w)")
      (simp_all add: keeps split: prod.split send_outcome.split)
qed

lemma deliver_keeps:
  assumes "delivered_once w"
  shows "delivered_once (snd (deliver_job ops send backoff now job w))"
proof -
  obtain r t where claim: "op_claim ops (nj_notification_id job) now (wk_repo w) = (r, t)" by fastforce
  show ?thesis
  proof (cases "\<exists>j. r = Inr (Some j)")
    case False
    then have "t = wk_repo w" using passes [of "wk_repo w"] claim assms by (simp add: delivered_once_def)
    then show ?thesis using False claim assms
      by (cases r) (auto simp: deliver_job_def on_worker_repo_def then_do_def split: option.splits)
  next
    case True
    then obtain j where j: "r = Inr (Some j)" by blast
    let ?n = "nj_notification_id j"
    have t: "ok t" "status (wk_repo w) ?n = Some PendingJob" "status t = (status (wk_repo w))(?n \<mapsto> SendingJob)"
      using claims [of "wk_repo w"] claim j assms unfolding delivered_once_def by blast+
    let ?w = "w\<lparr>wk_repo := t\<rparr>"
    have w: "delivered_once ?w" "status (wk_repo ?w) ?n = Some SendingJob"
      using assms t by (auto simp: delivered_once_def)
    have "deliver_job ops send backoff now job w = deliver_claimed ops send backoff now j ?w"
      by (simp add: deliver_job_def on_worker_repo_def claim j then_do_def)
    then show ?thesis using claimed_keeps [OF w] by simp
  qed
qed

lemma run_keeps: "delivered_once w \<Longrightarrow> delivered_once (deliver_all ops backoff jobs w)"
  by (induction jobs arbitrary: w) (auto simp: deliver_all_def deliver_keeps)

end

section \<open>The repositories keep the contract\<close>

definition memory_status :: "notif \<Rightarrow> string \<Rightarrow> notification_status option" where
  "memory_status s n = map_option nj_status (job_by_id n s)"

lemma memory_status_replaced:
  assumes "notif_ok s" "job_by_id n s = Some j" "nj_key u = nj_key j" "nj_notification_id u = n"
    and "nt_jobs t = dict_put (nj_key j) u (nt_jobs s)"
  shows "notif_ok t \<and> memory_status t = (memory_status s)(n \<mapsto> nj_status u)"
  using job_by_id_replaced [OF assms] by (auto simp: memory_status_def)

lemma memory_job_id: "notif_ok s \<Longrightarrow> job_by_id n s = Some j \<Longrightarrow> nj_notification_id j = n"
  by (simp add: job_by_id_iff)

lemma memory_claims:
  assumes "notif_ok s" "op_claim memory_ops nid now s = (Inr (Some j), t)"
  shows "notif_ok t \<and> memory_status s (nj_notification_id j) = Some PendingJob \<and> memory_status t = (memory_status s)(nj_notification_id j \<mapsto> SendingJob)"
proof -
  have "mark_sending nid now s = (Some j, t)"
    using assms(2) by (cases "mark_sending nid now s") (simp add: memory_ops_def)
  then obtain i where i: "job_by_id nid s = Some i" "nj_status i = PendingJob" by (auto simp: mark_sending_def Let_def split: option.splits if_splits)
  from mark_sending_pending [OF assms(1) i, of now] \<open>mark_sending nid now s = (Some j, t)\<close>
  have j: "j = i\<lparr>nj_status := SendingJob, nj_attempts := Suc (nj_attempts i)\<rparr>" "nt_jobs t = dict_put (nj_key i) j (nt_jobs s)" by auto
  with memory_job_id [OF assms(1) i(1)] memory_status_replaced [OF assms(1) i(1), of j t] i show ?thesis
    by (simp add: memory_status_def)
qed

lemma memory_passes:
  assumes "op_claim memory_ops nid now s = (r, t)" "\<forall>j. r \<noteq> Inr (Some j)"
  shows "t = s"
  using assms by (auto simp: memory_ops_def mark_sending_def Let_def split: option.splits if_splits)

interpretation memory_deliveries: delivery_store memory_ops memory_status notif_ok
proof unfold_locales
  fix s n error wait now a t
  assume ok: "notif_ok s" and known: "memory_status s n \<noteq> None"
  then obtain j where j: "job_by_id n s = Some j" by (auto simp: memory_status_def)
  note id = memory_job_id [OF ok j]
  show "notif_ok t \<and> memory_status t = (memory_status s)(n \<mapsto> PendingJob)" if "op_retry memory_ops n error wait now s = (a, t)"
    using memory_status_replaced [OF ok j, of "j\<lparr>nj_status := PendingJob, nj_next_attempt_at := Some (now + wait)\<rparr>" t] that id j
    by (auto simp: memory_ops_def mark_retryable_failure_def Let_def)
  show "notif_ok t \<and> (memory_status t = (memory_status s)(n \<mapsto> FailedJob) \<or> memory_status t = (memory_status s)(n \<mapsto> SuppressedJob))"
    if "op_fail memory_ops n error now s = (a, t)"
    using memory_status_replaced [OF ok j, of "j\<lparr>nj_status := (if error = ''telegram_user_blocked'' then SuppressedJob else FailedJob), nj_next_attempt_at := None\<rparr>" t]
      that id j
    by (auto simp: memory_ops_def mark_permanent_failure_def Let_def)
  show "notif_ok t \<and> memory_status t = (memory_status s)(n \<mapsto> SentJob)" if "op_sent memory_ops n error now s = (a, t)"
    using memory_status_replaced [OF ok j, of "j\<lparr>nj_status := SentJob, nj_telegram_message_id := Some error, nj_next_attempt_at := None\<rparr>" t] that id j
    by (auto simp: memory_ops_def mark_sent_def Let_def)
qed (use memory_claims memory_passes in blast)+

definition db_status :: "delivery_db \<Rightarrow> string \<Rightarrow> notification_status option" where
  "db_status db n = map_option jr_status (dict_get (db_jobs db) n)"

definition db_ok :: "(string \<Rightarrow> string option) \<Rightarrow> delivery_db \<Rightarrow> bool" where
  "db_ok uuid db \<longleftrightarrow> dict_ok (db_jobs db) \<and> (\<forall>k r. dict_get (db_jobs db) k = Some r \<longrightarrow> jr_notification_id r = k \<and> uuid k = Some k)"

lemma commit_job_effect:
  assumes "commit_job allowed u as db = Inr t" "db_ok uuid db" "dict_get (db_jobs db) n = Some r" "jr_notification_id u = n"
  shows "db_ok uuid t \<and> db_status t = (db_status db)(n \<mapsto> jr_status u)"
  using assms by (auto simp: commit_job_def db_ok_def db_status_def dict_simps split: if_splits)

lemma commit_allowed: "set allowed = UNIV \<Longrightarrow> \<exists>t. commit_job allowed u as db = Inr t"
  by (simp add: commit_job_def)

lemma changed_rows [simp]:
  "jr_notification_id (sending_row now r) = jr_notification_id r" "jr_status (sending_row now r) = SendingJob"
  "jr_notification_id (sent_row m now r) = jr_notification_id r" "jr_status (sent_row m now r) = SentJob"
  "jr_notification_id (retry_row e w now r) = jr_notification_id r" "jr_status (retry_row e w now r) = PendingJob"
  "jr_notification_id (failed_row e r) = jr_notification_id r"
  by (simp_all add: sending_row_def sent_row_def retry_row_def failed_row_def)

lemma sa_settle_effect:
  assumes "set allowed = UNIV" "db_ok parse_uuid db" "db_status db n \<noteq> None" "\<And>r. jr_notification_id (change r) = jr_notification_id r"
    and "sa_settle allowed n change attempt db = (a, t)"
  shows "\<exists>r. db_ok parse_uuid t \<and> db_status t = (db_status db)(n \<mapsto> jr_status (change r))"
proof -
  obtain r where r: "dict_get (db_jobs db) n = Some r" using assms(3) by (auto simp: db_status_def)
  then have n: "jr_notification_id r = n" "parse_uuid n = Some n" using assms(2) by (auto simp: db_ok_def)
  obtain u where u: "commit_job allowed (change r) [attempt (jr_attempts r)] db = Inr u" using commit_allowed [OF assms(1)] by blast
  then have "t = u" using assms(5) r n by (simp add: sa_settle_def uuid_row_def)
  with commit_job_effect [OF u assms(2) r] assms(4) n show ?thesis by auto
qed

lemma pg_settle_effect:
  assumes "set allowed = UNIV" "db_ok pg_uuid db" "db_status db n \<noteq> None" "\<And>r. jr_notification_id (change r) = jr_notification_id r"
    and "pg_settle allowed n change attempt db = (a, t)"
  shows "\<exists>r. db_ok pg_uuid t \<and> db_status t = (db_status db)(n \<mapsto> jr_status (change r))"
proof -
  obtain r where r: "dict_get (db_jobs db) n = Some r" using assms(3) by (auto simp: db_status_def)
  then have n: "jr_notification_id r = n" "pg_uuid n = Some n" using assms(2) by (auto simp: db_ok_def)
  obtain u where u: "commit_job allowed (change r) [attempt (jr_attempts r)] db = Inr u" using commit_allowed [OF assms(1)] by blast
  then have "t = u" using assms(5) r n by (simp add: pg_settle_def pg_row_def)
  with commit_job_effect [OF u assms(2) r] assms(4) n show ?thesis by auto
qed

lemma row_ready_pending: "row_ready now r \<Longrightarrow> jr_status r = PendingJob"
  by (simp add: row_ready_def)

lemma sa_claim_effect:
  assumes "db_ok parse_uuid db" "sa_mark_sending allowed nid now db = (Inr (Some j), t)"
  shows "db_ok parse_uuid t \<and> db_status db (nj_notification_id j) = Some PendingJob \<and> db_status t = (db_status db)(nj_notification_id j \<mapsto> SendingJob)"
proof -
  obtain k r where r: "dict_get (db_jobs db) k = Some r" "row_ready now r" and c: "sa_commit_sending allowed now r db = (Inr (Some j), t)"
    using assms(2)
    by (auto simp: sa_mark_sending_def sa_select_pending_def uuid_row_def split: sum.splits option.splits if_splits elim!: res_bind_InrE)
  have k: "jr_notification_id r = k" using assms(1) r(1) by (auto simp: db_ok_def)
  have "commit_job allowed (sending_row now r) [] db = Inr t" "nj_notification_id j = k"
    using c k by (auto simp: sa_commit_sending_def job_of_row_def split: sum.splits)
  with commit_job_effect [OF _ assms(1) r(1), of allowed "sending_row now r" "[]" t] k r row_ready_pending show ?thesis
    by (auto simp: db_status_def)
qed

lemma pg_claim_effect:
  assumes "db_ok pg_uuid db" "pg_mark_sending allowed nid now db = (Inr (Some j), t)"
  shows "db_ok pg_uuid t \<and> db_status db (nj_notification_id j) = Some PendingJob \<and> db_status t = (db_status db)(nj_notification_id j \<mapsto> SendingJob)"
proof -
  obtain k r locked where r: "dict_get (db_jobs db) k = Some r" "row_ready now r"
    and c: "apfst fst (pg_commit_sending allowed nid now r locked db) = (Inr (Some j), t)"
    using assms(2)
    by (auto simp: pg_mark_sending_def pg_select_pending_def pg_row_def split: sum.splits option.splits if_splits elim!: res_bind_InrE)
  have k: "jr_notification_id r = k" using assms(1) r(1) by (auto simp: db_ok_def)
  have "\<exists>as. commit_job allowed (sending_row now r) as db = Inr t" "nj_notification_id j = k"
    using c k by (auto simp: pg_commit_sending_def Let_def pg_job_of_row_def job_of_row_def split: sum.splits)
  with commit_job_effect [OF _ assms(1) r(1), of allowed "sending_row now r" _ t] k r row_ready_pending show ?thesis
    by (auto simp: db_status_def)
qed

lemma sa_deliveries:
  assumes "set allowed = UNIV"
  shows "delivery_store (sa_ops allowed) db_status (db_ok parse_uuid)"
proof
  show "t = s" if "op_claim (sa_ops allowed) nid now s = (r, t)" "\<forall>j. r \<noteq> Inr (Some j)" for s nid now r t
    using that commit_allowed [OF assms]
    by (auto simp: sa_ops_def sa_mark_sending_def sa_commit_sending_def split: sum.splits option.splits)
  fix s n error wait now mid a t
  assume ok: "db_ok parse_uuid s" "db_status s n \<noteq> None"
  show "db_ok parse_uuid t \<and> db_status t = (db_status s)(n \<mapsto> PendingJob)" if "op_retry (sa_ops allowed) n error wait now s = (a, t)"
    using sa_settle_effect [OF assms ok, of "retry_row error wait now"] that by (auto simp: sa_ops_def sa_mark_retryable_failure_def)
  show "db_ok parse_uuid t \<and> (db_status t = (db_status s)(n \<mapsto> FailedJob) \<or> db_status t = (db_status s)(n \<mapsto> SuppressedJob))"
    if "op_fail (sa_ops allowed) n error now s = (a, t)"
    using sa_settle_effect [OF assms ok, of "failed_row error"] that by (auto simp: sa_ops_def sa_mark_permanent_failure_def failed_row_def split: if_splits)
  show "db_ok parse_uuid t \<and> db_status t = (db_status s)(n \<mapsto> SentJob)" if "op_sent (sa_ops allowed) n mid now s = (a, t)"
    using sa_settle_effect [OF assms ok, of "sent_row mid now"] that by (auto simp: sa_ops_def sa_mark_sent_def)
qed (simp add: sa_ops_def sa_claim_effect)

lemma pg_deliveries:
  assumes "set allowed = UNIV"
  shows "delivery_store (pg_ops ctx allowed) db_status (db_ok pg_uuid)"
proof
  show "t = s" if "op_claim (pg_ops ctx allowed) nid now s = (r, t)" "\<forall>j. r \<noteq> Inr (Some j)" for s nid now r t
    using that commit_allowed [OF assms]
    by (auto simp: pg_ops_def pg_mark_sending_def pg_commit_sending_def Let_def split: sum.splits option.splits prod.splits)
  fix s n error wait now mid a t
  assume ok: "db_ok pg_uuid s" "db_status s n \<noteq> None"
  show "db_ok pg_uuid t \<and> db_status t = (db_status s)(n \<mapsto> PendingJob)" if "op_retry (pg_ops ctx allowed) n error wait now s = (a, t)"
    using pg_settle_effect [OF assms ok, of "retry_row error wait now"] that by (auto simp: pg_ops_def pg_mark_retryable_failure_def)
  show "db_ok pg_uuid t \<and> (db_status t = (db_status s)(n \<mapsto> FailedJob) \<or> db_status t = (db_status s)(n \<mapsto> SuppressedJob))"
    if "op_fail (pg_ops ctx allowed) n error now s = (a, t)"
    using pg_settle_effect [OF assms ok, of "failed_row error"] that by (auto simp: pg_ops_def pg_mark_permanent_failure_def failed_row_def split: if_splits)
  show "db_ok pg_uuid t \<and> db_status t = (db_status s)(n \<mapsto> SentJob)" if "op_sent (pg_ops ctx allowed) n mid now s = (a, t)"
    using pg_settle_effect [OF assms ok, of "sent_row mid now"] that by (auto simp: pg_ops_def pg_mark_sent_def)
qed (simp add: pg_ops_def pg_claim_effect)

text \<open>The statuses that the SQL migration of an earlier version allows.\<close>

definition migrated_statuses :: "notification_status list" where
  "migrated_statuses = [PendingJob, SendingJob, SentJob, FailedJob, SuppressedJob]"

lemma all_migrated: "set migrated_statuses = UNIV"
proof -
  have "s \<in> set migrated_statuses" for s by (cases s) (simp_all add: migrated_statuses_def)
  then show ?thesis by blast
qed

interpretation sa_store: delivery_store "sa_ops migrated_statuses" db_status "db_ok parse_uuid"
  by (rule sa_deliveries [OF all_migrated])

interpretation pg_store: delivery_store "pg_ops ctx migrated_statuses" db_status "db_ok pg_uuid" for ctx
  by (rule pg_deliveries [OF all_migrated])

section \<open>What the worker does in memory and in the database\<close>

text \<open>The state in memory that a worker over it stands for.\<close>

definition memory_view :: "notif delivery_worker \<Rightarrow> notif" where
  "memory_view w = (wk_repo w)\<lparr>nt_limiter := wk_limiter w, nt_delivered := wk_delivered w\<rparr>"

lemma view_simps [simp]:
  "job_by_id n (memory_view w) = job_by_id n (wk_repo w)" "nt_limiter (memory_view w) = wk_limiter w"
  "nt_delivered (memory_view w) = wk_delivered w" "nt_announcements (memory_view w) = nt_announcements (wk_repo w)"
  "nt_filter_names (memory_view w) = nt_filter_names (wk_repo w)"
  by (simp_all add: memory_view_def job_by_id_def)

lemma view_changes:
  "memory_view (w\<lparr>wk_limiter := rl\<rparr>) = (memory_view w)\<lparr>nt_limiter := rl\<rparr>"
  "memory_view (w\<lparr>wk_delivered := dl\<rparr>) = (memory_view w)\<lparr>nt_delivered := dl\<rparr>"
  "memory_view (w\<lparr>wk_repo := add_attempt a (put_job j (wk_repo w))\<rparr>) = add_attempt a (put_job j (memory_view w))"
  "memory_view (w\<lparr>wk_repo := wk_repo w\<rparr>) = memory_view w"
  by (simp_all add: memory_view_def add_attempt_def put_job_def)

lemma context_view: "get_delivery_context n (memory_view w) = get_delivery_context n (wk_repo w)"
  by (simp add: get_delivery_context_def cong: option.case_cong)

lemma settle_over_memory:
  "apsnd memory_view (settle_retry memory_ops n e d now m w) = then_do (mark_retryable_failure n e d now (memory_view w)) (\<lambda>a s. (Inr (a, m), s))"
  "apsnd memory_view (settle_failed memory_ops n e now w) = then_do (mark_permanent_failure n e now (memory_view w)) (\<lambda>a s. (Inr (a, MPermanent), s))"
  "apsnd memory_view (settle_sent memory_ops n x now w) =
     then_do (mark_sent n x now ((memory_view w)\<lparr>nt_delivered := nt_delivered (memory_view w) @ [n]\<rparr>)) (\<lambda>a s. (Inr (a, MSent), s))"
  by (cases "job_by_id n (wk_repo w)"; simp add: settle_retry_def settle_failed_def settle_sent_def on_worker_repo_def memory_ops_def
      mark_retryable_failure_def mark_permanent_failure_def mark_sent_def Let_def then_do_def view_changes;
      simp add: memory_view_def add_attempt_def put_job_def)+

text \<open>
  Over the repository in memory, the worker over any repository is the delivery of a job as the rest of this library
  states it: with the limiter and what was delivered beside the repository, both do the same.
\<close>

lemma worker_over_memory:
  "process_job send backoff now job s =
     apsnd memory_view (deliver_job memory_ops send backoff now job \<lparr>wk_limiter = nt_limiter s, wk_delivered = nt_delivered s, wk_repo = s\<rparr>)"
proof -
  let ?w = "\<lambda>t. \<lparr>wk_limiter = nt_limiter s, wk_delivered = nt_delivered s, wk_repo = t\<rparr>"
  obtain claim s1 where claim: "mark_sending (nj_notification_id job) now s = (claim, s1)" by fastforce
  then have same: "nt_limiter s1 = nt_limiter s" "nt_delivered s1 = nt_delivered s"
    by (auto simp: mark_sending_def Let_def split: option.splits if_splits)
  then have v: "memory_view (?w s1) = s1" by (simp add: memory_view_def)
  show ?thesis
  proof (cases claim)
    case None
    with claim v show ?thesis by (simp add: process_job_def deliver_job_def on_worker_repo_def memory_ops_def then_do_def)
  next
    case (Some j)
    obtain wait rl where rl: "rate_retry_after (nj_user_id j) now (nt_limiter s) = (wait, rl)" by fastforce
    let ?v = "\<lparr>wk_limiter = rl, wk_delivered = nt_delivered s, wk_repo = s1\<rparr>"
    have view: "memory_view ?v = s1\<lparr>nt_limiter := rl\<rparr>" using v view_changes(1) [where w = "?w s1" and rl = rl] by simp
    have ctx: "op_context memory_ops n (wk_repo ?v) = get_delivery_context n (s1\<lparr>nt_limiter := rl\<rparr>)" for n
      using context_view [of n ?v] unfolding view by (simp add: memory_ops_def)
    have "deliver_job memory_ops send backoff now job (?w s) = deliver_claimed memory_ops send backoff now j (?w s1)"
      using claim Some by (simp add: deliver_job_def on_worker_repo_def memory_ops_def then_do_def)
    moreover have "apsnd memory_view (deliver_claimed memory_ops send backoff now j (?w s1)) = process_job send backoff now job s"
      unfolding process_job_def deliver_claimed_def claim Some prod.case option.case Let_def same delivery_worker.simps(1) rl ctx
      by (cases wait; cases "get_delivery_context (nj_notification_id j) (s1\<lparr>nt_limiter := rl\<rparr>)")
        (auto simp: settle_over_memory view same ctx [simplified] split: send_outcome.split)
    ultimately show ?thesis by simp
  qed
qed

section \<open>The outcome of one delivery\<close>

text \<open>
  How an attempt is meant to end: delivered, to be tried again after a while, given up for good, or broken off by an error
  nobody expects, from the wait of the limiter, the context and what Telegram answers.
\<close>

datatype fate = Arrived string | Again duration string | GivenUp notification_status string | BrokenOff py_error

definition fate_of ::
  "duration \<Rightarrow> duration option \<Rightarrow> (notification_job \<times> announcement \<times> string) option \<Rightarrow>
   (notification_job \<Rightarrow> announcement \<Rightarrow> string \<Rightarrow> send_outcome) \<Rightarrow> fate" where
  "fate_of backoff wait ctx send =
     (case (wait, ctx) of
        (Some d, _) \<Rightarrow> Again d ''local_rate_limited''
      | (None, None) \<Rightarrow> GivenUp FailedJob ''missing_delivery_context''
      | (None, Some (j, an, name)) \<Rightarrow>
          (case send j an name of
             Delivered mid \<Rightarrow> Arrived mid
           | TelegramRateLimit secs \<Rightarrow> Again (seconds secs) ''telegram_rate_limited''
           | TelegramTransient \<Rightarrow> Again backoff ''telegram_transient_error''
           | TelegramUserBlocked \<Rightarrow> GivenUp SuppressedJob ''telegram_user_blocked''
           | TelegramPermanent \<Rightarrow> GivenUp FailedJob ''telegram_permanent_error''
           | OtherException e \<Rightarrow> BrokenOff e))"

text \<open>What the table then holds of the job: when it will be picked again, and why the attempt ended.\<close>

definition row_of_fate :: "time \<Rightarrow> fate \<Rightarrow> job_row \<Rightarrow> bool" where
  "row_of_fate now f r \<longleftrightarrow>
     (case f of
        Arrived mid \<Rightarrow> jr_status r = SentJob \<and> jr_telegram_message_id r = Some mid \<and> jr_sent_at r = Some now \<and>
          jr_error_reason r = None \<and> (\<forall>t. \<not> row_ready t r)
      | Again d why \<Rightarrow> jr_status r = PendingJob \<and> jr_error_reason r = Some why \<and> (\<forall>t. row_ready t r \<longleftrightarrow> now + d \<le> t)
      | GivenUp st why \<Rightarrow> jr_status r = st \<and> jr_error_reason r = Some why \<and> (\<forall>t. \<not> row_ready t r)
      | BrokenOff e \<Rightarrow> jr_status r = SendingJob \<and> (\<forall>t. \<not> row_ready t r))"

definition attempt_of_fate :: "string \<Rightarrow> nat \<Rightarrow> time \<Rightarrow> fate \<Rightarrow> (delivery_attempt \<times> delivery_metric) res" where
  "attempt_of_fate n k now f =
     (case f of
        Arrived mid \<Rightarrow> Inr (new_attempt n k SentAttempt None False (Some mid) now, MSent)
      | Again d why \<Rightarrow> Inr (new_attempt n k RetryableFailure (Some why) True None now,
          if why = ''local_rate_limited'' then MRateLimited else MRetryable)
      | GivenUp st why \<Rightarrow> Inr (new_attempt n k PermanentFailure (Some why) False None now, MPermanent)
      | BrokenOff e \<Rightarrow> Inl e)"

lemma settled_row_ready:
  "\<not> row_ready t (sent_row mid now r)" "row_ready t (retry_row why d now r) \<longleftrightarrow> now + d \<le> t"
  "\<not> row_ready t (failed_row why r)" "\<not> row_ready t (sending_row now r)"
  by (auto simp: row_ready_def sent_row_def retry_row_def failed_row_def sending_row_def)

lemma sa_settle_known:
  assumes "parse_uuid n = Some n" and "dict_get (db_jobs db) n = Some r" and "jr_notification_id (change r) = n"
  shows "sa_settle migrated_statuses n change attempt db =
    (Inr (attempt (jr_attempts r)), db\<lparr>db_jobs := dict_put n (change r) (db_jobs db), db_attempts := db_attempts db @ [attempt (jr_attempts r)]\<rparr>)"
  using assms by (simp add: sa_settle_def uuid_row_def commit_job_def all_migrated)

lemma sa_claim_ready:
  assumes "parse_uuid n = Some n" and "dict_get (db_jobs db) n = Some r" and "jr_notification_id r = n" and "row_ready now r"
  shows "sa_mark_sending migrated_statuses n now db =
    (Inr (Some (job_of_row (queue_name_of (jr_priority r)) (sending_row now r))), db\<lparr>db_jobs := dict_put n (sending_row now r) (db_jobs db)\<rparr>)"
  using assms by (simp add: sa_mark_sending_def sa_select_pending_def uuid_row_def sa_commit_sending_def commit_job_def all_migrated)

lemma sa_claim_other:
  assumes "parse_uuid n = Some n" and "dict_get (db_jobs db) n = Some r" and "\<not> row_ready now r"
  shows "sa_mark_sending allowed n now db = (Inr None, db)"
  using assms by (simp add: sa_mark_sending_def sa_select_pending_def uuid_row_def)

text \<open>What an attempt leaves of the worker whose job \<open>n\<close> was claimed as \<open>r\<close>.\<close>

definition left_by :: "string \<Rightarrow> time \<Rightarrow> fate \<Rightarrow> delivery_db delivery_worker \<Rightarrow> rate_limiter \<Rightarrow> delivery_db delivery_worker \<Rightarrow> bool" where
  "left_by n now f w rl w' \<longleftrightarrow>
     wk_limiter w' = rl \<and>
     wk_delivered w' = wk_delivered w @ (case f of Arrived mid \<Rightarrow> [n] | _ \<Rightarrow> []) \<and>
     (\<exists>r r'. dict_get (db_jobs (wk_repo w)) n = Some r \<and> dict_get (db_jobs (wk_repo w')) n = Some r' \<and>
        jr_attempts r' = Suc (jr_attempts r) \<and> jr_last_attempt_at r' = Some now \<and> row_of_fate now f r' \<and>
        db_attempts (wk_repo w') = db_attempts (wk_repo w) @
          (case attempt_of_fate n (Suc (jr_attempts r)) now f of Inl e \<Rightarrow> [] | Inr (a, m) \<Rightarrow> [a])) \<and>
     (\<forall>k. k \<noteq> n \<longrightarrow> dict_get (db_jobs (wk_repo w')) k = dict_get (db_jobs (wk_repo w)) k)"

definition claimed_db :: "string \<Rightarrow> time \<Rightarrow> job_row \<Rightarrow> delivery_db \<Rightarrow> delivery_db" where
  "claimed_db n now r db = db\<lparr>db_jobs := dict_put n (sending_row now r) (db_jobs db)\<rparr>"

lemma claimed_row:
  "jr_notification_id (sending_row now r) = jr_notification_id r" "jr_attempts (sending_row now r) = Suc (jr_attempts r)"
  "jr_last_attempt_at (sending_row now r) = Some now" "jr_user_id (sending_row now r) = jr_user_id r"
  by (simp_all add: sending_row_def)

text \<open>The three ways to settle a claimed job.\<close>

lemma settle_claimed:
  assumes w: "wk_repo w = claimed_db n now r db" and n: "parse_uuid n = Some n" "dict_get (db_jobs db) n = Some r" "jr_notification_id r = n"
    and w0: "wk_repo w0 = db" "wk_delivered w = wk_delivered w0"
  shows "settle_retry (sa_ops migrated_statuses) n why d now m w = (r1, w1) \<Longrightarrow>
      r1 = Inr (new_attempt n (Suc (jr_attempts r)) RetryableFailure (Some why) True None now, m) \<and>
      left_by n now (Again d why) w0 (wk_limiter w) w1"
    and "settle_failed (sa_ops migrated_statuses) n why now w = (r2, w2) \<Longrightarrow>
      r2 = Inr (new_attempt n (Suc (jr_attempts r)) PermanentFailure (Some why) False None now, MPermanent) \<and>
      left_by n now (GivenUp (if why = ''telegram_user_blocked'' then SuppressedJob else FailedJob) why) w0 (wk_limiter w) w2"
    and "settle_sent (sa_ops migrated_statuses) n mid now w = (r3, w3) \<Longrightarrow>
      r3 = Inr (new_attempt n (Suc (jr_attempts r)) SentAttempt None False (Some mid) now, MSent) \<and>
      left_by n now (Arrived mid) w0 (wk_limiter w) w3"
    and "left_by n now (BrokenOff e) w0 (wk_limiter w) w"
proof -
  have row: "dict_get (db_jobs (claimed_db n now r db)) n = Some (sending_row now r)" by (simp add: claimed_db_def dict_simps)
  have settled: "sa_settle migrated_statuses n change attempt (claimed_db n now r db) =
      (Inr (attempt (Suc (jr_attempts r))), db\<lparr>db_jobs := dict_put n (change (sending_row now r)) (dict_put n (sending_row now r) (db_jobs db)),
         db_attempts := db_attempts db @ [attempt (Suc (jr_attempts r))]\<rparr>)"
    if "\<And>x. jr_notification_id (change x) = jr_notification_id x" for change attempt
    using sa_settle_known [OF n(1) row, of change attempt] that n(3) by (simp add: claimed_row) (simp add: claimed_db_def)
  have rows: "jr_attempts (sent_row mid now x) = jr_attempts x" "jr_last_attempt_at (sent_row mid now x) = jr_last_attempt_at x"
    "jr_attempts (retry_row why d now x) = jr_attempts x" "jr_last_attempt_at (retry_row why d now x) = jr_last_attempt_at x"
    "jr_attempts (failed_row why x) = jr_attempts x" "jr_last_attempt_at (failed_row why x) = jr_last_attempt_at x" for x
    by (simp_all add: sent_row_def retry_row_def failed_row_def)
  have fates: "row_of_fate now (Again d why) (retry_row why d now x)"
    "row_of_fate now (GivenUp (if why = ''telegram_user_blocked'' then SuppressedJob else FailedJob) why) (failed_row why x)"
    "row_of_fate now (Arrived mid) (sent_row mid now x)" "row_of_fate now (BrokenOff e) (sending_row now x)" for x
    by (simp_all add: row_of_fate_def settled_row_ready) (simp_all add: retry_row_def failed_row_def sent_row_def)
  define st where "st = (if why = ''telegram_user_blocked'' then SuppressedJob else FailedJob)"
  have failed: "row_of_fate now (GivenUp st why) (failed_row why x)" for x using fates(2) by (simp only: st_def)
  note left = left_by_def attempt_of_fate_def w0 n(2) dict_simps rows claimed_row
  show "r1 = Inr (new_attempt n (Suc (jr_attempts r)) RetryableFailure (Some why) True None now, m) \<and>
      left_by n now (Again d why) w0 (wk_limiter w) w1" if "settle_retry (sa_ops migrated_statuses) n why d now m w = (r1, w1)"
    using that fates(1) w by (auto simp: settle_retry_def on_worker_repo_def sa_ops_def sa_mark_retryable_failure_def settled then_do_def left)
  show "r2 = Inr (new_attempt n (Suc (jr_attempts r)) PermanentFailure (Some why) False None now, MPermanent) \<and>
      left_by n now (GivenUp (if why = ''telegram_user_blocked'' then SuppressedJob else FailedJob) why) w0 (wk_limiter w) w2"
    if "settle_failed (sa_ops migrated_statuses) n why now w = (r2, w2)"
    unfolding st_def [symmetric] using that failed w by (auto simp: settle_failed_def on_worker_repo_def sa_ops_def sa_mark_permanent_failure_def settled then_do_def left)
  show "r3 = Inr (new_attempt n (Suc (jr_attempts r)) SentAttempt None False (Some mid) now, MSent) \<and>
      left_by n now (Arrived mid) w0 (wk_limiter w) w3" if "settle_sent (sa_ops migrated_statuses) n mid now w = (r3, w3)"
    using that fates(3) w by (auto simp: settle_sent_def on_worker_repo_def sa_ops_def sa_mark_sent_def settled then_do_def left)
  show "left_by n now (BrokenOff e) w0 (wk_limiter w) w"
    using fates(4) w by (auto simp: left claimed_db_def)
qed

lemma deliver_claimed_outcome:
  assumes w: "wk_repo w = claimed_db n now r db" and n: "parse_uuid n = Some n" "dict_get (db_jobs db) n = Some r" "jr_notification_id r = n"
    and w0: "wk_repo w0 = db" "wk_delivered w = wk_delivered w0"
    and rl: "rate_retry_after (jr_user_id r) now (wk_limiter w) = (wait, rl)"
    and run: "deliver_claimed (sa_ops migrated_statuses) send backoff now (job_of_row q (sending_row now r)) w = (res, w')"
  defines "f \<equiv> fate_of backoff wait (sa_context n (wk_repo w)) send"
  shows "res = attempt_of_fate n (Suc (jr_attempts r)) now f \<and> left_by n now f w0 rl w'"
proof -
  let ?w = "w\<lparr>wk_limiter := rl\<rparr>"
  have w1: "wk_repo ?w = claimed_db n now r db" "wk_delivered ?w = wk_delivered w0" "wk_limiter ?w = rl" using w w0(2) by simp_all
  note settles = settle_claimed [OF w1(1) n w0(1) w1(2), unfolded w1(3)]
  have job: "nj_notification_id (job_of_row q (sending_row now r)) = n" "nj_user_id (job_of_row q (sending_row now r)) = jr_user_id r"
    using n(3) by (simp_all add: job_of_row_def claimed_row)
  have ctx: "op_context (sa_ops migrated_statuses) = sa_context" by (simp add: sa_ops_def)
  note run' = run [unfolded deliver_claimed_def job rl prod.case Let_def ctx]
  show ?thesis
  proof (cases wait)
    case (Some d)
    then show ?thesis using run' settles(1) by (simp add: f_def fate_of_def attempt_of_fate_def)
  next
    case None
    show ?thesis
    proof (cases "sa_context n (wk_repo w)")
      case no_context: None
      then show ?thesis
        using run' None settles(2) [where why = "''missing_delivery_context''"] by (simp add: f_def fate_of_def attempt_of_fate_def)
    next
      case (Some x)
      obtain j an name where x: "x = (j, an, name)" by (cases x)
      note here = f_def fate_of_def attempt_of_fate_def Some None x
      note run'' = run' [unfolded None option.case, simplified, unfolded Some x option.case prod.case]
      show ?thesis
      proof (cases "send j an name")
        case (Delivered mid)
        with run'' settles(3) show ?thesis by (simp add: here)
      next
        case (OtherException e)
        with run'' settles(4) show ?thesis by (auto simp: here)
      next
        case TelegramUserBlocked
        with run'' settles(2) [where why = "''telegram_user_blocked''"] show ?thesis by (simp add: here)
      next
        case TelegramPermanent
        with run'' settles(2) [where why = "''telegram_permanent_error''"] show ?thesis by (simp add: here)
      qed (use run'' settles(1) in \<open>simp_all add: here\<close>)
    qed
  qed
qed

text \<open>
  C35. What one handing over of a job does, over the database that allows every status. A job that is ready is claimed, counted
  as one more attempt with one record of it, and ends as its fate says: a delivered one is sent under Telegram's message id and
  never picked again; one to be repeated (the limiter's wait, Telegram's, or the back-off after a transient error) is ready
  again exactly when that time is over; one that has no context, whose user blocked the bot or whose error is permanent is
  never picked again; and one that an unexpected error breaks off stays claimed, so it is never picked again either. What
  Telegram accepted grows by the delivered job alone and no other job changes. A job that is not ready is skipped, and nothing
  changes.
\<close>

theorem delivery_outcome:
  assumes "db_ok parse_uuid (wk_repo w)" and "dict_get (db_jobs (wk_repo w)) n = Some r" and "nj_notification_id job = n"
    and "rate_retry_after (jr_user_id r) now (wk_limiter w) = (wait, rl)"
    and "deliver_job (sa_ops migrated_statuses) send backoff now job w = (res, w')"
  defines "f \<equiv> fate_of backoff wait (sa_context n (claimed_db n now r (wk_repo w))) send"
  shows "if row_ready now r
    then res = attempt_of_fate n (Suc (jr_attempts r)) now f \<and> left_by n now f w rl w'
    else w' = w \<and> (\<exists>a. res = Inr (a, MSkipped) \<and> da_result a = Skipped)"
proof -
  have n: "parse_uuid n = Some n" "jr_notification_id r = n" using assms(1,2) by (auto simp: db_ok_def)
  let ?ops = "sa_ops migrated_statuses"
  show ?thesis
  proof (cases "row_ready now r")
    case True
    let ?w = "w\<lparr>wk_repo := claimed_db n now r (wk_repo w)\<rparr>"
    have "deliver_claimed ?ops send backoff now (job_of_row (queue_name_of (jr_priority r)) (sending_row now r)) ?w = (res, w')"
      using assms(5) sa_claim_ready [OF n(1) assms(2) n(2) True]
      by (simp add: deliver_job_def on_worker_repo_def sa_ops_def assms(3) then_do_def claimed_db_def)
    from deliver_claimed_outcome [OF _ n(1) assms(2) n(2) refl _ _ this, of wait rl] assms(4) True
    show ?thesis by (simp add: f_def)
  next
    case False
    with assms(5) sa_claim_other [OF n(1) assms(2) False, of migrated_statuses] show ?thesis
      by (auto simp: deliver_job_def on_worker_repo_def sa_ops_def assms(3) then_do_def)
  qed
qed

section \<open>Deliveries over the database\<close>

text \<open>
  C36. One worker, over a table that allows every status, to which jobs are handed over one after the other, as often and in
  whatever order and whatever Telegram answers, delivers each job at most once, and each delivered job is marked as sent. (Two
  workers at once are another matter: the claims of \<open>two_workers_claim_one_job\<close> below.)
\<close>

theorem one_worker_delivers_once:
  assumes "db_ok parse_uuid db" and "w = deliver_all (sa_ops migrated_statuses) backoff jobs \<lparr>wk_limiter = rl, wk_delivered = [], wk_repo = db\<rparr>"
  shows "distinct (wk_delivered w) \<and> list_all (\<lambda>n. db_status (wk_repo w) n = Some SentJob) (wk_delivered w)"
proof -
  have "sa_store.delivered_once \<lparr>wk_limiter = rl, wk_delivered = [], wk_repo = db\<rparr>"
    using assms(1) by (simp add: sa_store.delivered_once_def)
  from sa_store.run_keeps [OF this, of backoff jobs] assms(2) show ?thesis
    by (simp add: sa_store.delivered_once_def list_all_iff)
qed

text \<open>The same holds over asyncpg.\<close>

lemma asyncpg_delivers_once:
  assumes "db_ok pg_uuid db" and "w = deliver_all (pg_ops ctx migrated_statuses) backoff jobs \<lparr>wk_limiter = rl, wk_delivered = [], wk_repo = db\<rparr>"
  shows "distinct (wk_delivered w)"
proof -
  have "pg_store.delivered_once \<lparr>wk_limiter = rl, wk_delivered = [], wk_repo = db\<rparr>"
    using assms(1) by (simp add: pg_store.delivered_once_def)
  from pg_store.run_keeps [OF this] assms(2) show ?thesis by (simp add: pg_store.delivered_once_def)
qed

lemma declared_refuses_sending: "commit_job declared_statuses (sending_row now r) as db = Inl check_violation"
  by (simp add: commit_job_def declared_statuses_def)

lemma declared_claim:
  "sa_mark_sending declared_statuses nid now db = (Inl check_violation, db) \<or>
   sa_mark_sending declared_statuses nid now db = (Inl bad_uuid, db) \<or> sa_mark_sending declared_statuses nid now db = (Inr None, db)"
  by (auto simp: sa_mark_sending_def sa_select_pending_def sa_commit_sending_def uuid_row_def declared_refuses_sending split: sum.splits option.splits)

lemma declared_delivery: "snd (deliver_job (sa_ops declared_statuses) send backoff now job w) = w"
  using declared_claim [of "nj_notification_id job" now "wk_repo w"]
  by (auto simp: deliver_job_def on_worker_repo_def sa_ops_def then_do_def)

text \<open>
  C37. With the statuses that the models and the Alembic migration declare, no notification is ever delivered: a claim marks the
  job as \<open>sending\<close>, which the check constraint refuses. Every ready job raises the error of the database, and a run over any
  jobs leaves the tables, the limiter and what was delivered as they are.
\<close>

theorem declared_schema_delivers_nothing:
  assumes "db_ok parse_uuid (wk_repo w)"
  shows "deliver_all (sa_ops declared_statuses) backoff jobs w = w \<and>
    list_all (\<lambda>j. deliver_job (sa_ops declared_statuses) send backoff now j w = (Inl check_violation, w))
      (sa_list_ready limit now (wk_repo w))"
proof
  show "deliver_all (sa_ops declared_statuses) backoff jobs w = w"
    by (induction jobs) (auto simp: deliver_all_def declared_delivery)
  let ?db = "wk_repo w"
  have "deliver_job (sa_ops declared_statuses) send backoff now j w = (Inl check_violation, w)"
    if j: "j \<in> set (sa_list_ready limit now ?db)" for j
  proof -
    obtain r where "r \<in> set (dict_values (db_jobs ?db))" and r: "row_ready now r" "nj_notification_id j = jr_notification_id r"
      using j set_take_subset by (fastforce simp: sa_list_ready_def job_of_row_def)
    then obtain k where "dict_get (db_jobs ?db) k = Some r" using assms dict_values_iff [of "db_jobs ?db" r] unfolding db_ok_def by blast
    then have "sa_mark_sending declared_statuses (nj_notification_id j) now ?db = (Inl check_violation, ?db)"
      using r assms by (auto simp: db_ok_def sa_mark_sending_def sa_select_pending_def uuid_row_def sa_commit_sending_def declared_refuses_sending)
    then show ?thesis by (simp add: deliver_job_def on_worker_repo_def sa_ops_def then_do_def)
  qed
  then show "list_all (\<lambda>j. deliver_job (sa_ops declared_statuses) send backoff now j w = (Inl check_violation, w)) (sa_list_ready limit now ?db)"
    by (simp add: list_all_iff)
qed

text \<open>
  Two workers that select a job before either has written it both claim it, and both count it as the same attempt: reading
  and writing are two statements and nothing locks the row between them.
\<close>

theorem two_workers_claim_one_job:
  assumes "sa_select_pending nid now1 db = Inr (Some r1)" "sa_select_pending nid now2 db = Inr (Some r2)"
  shows "\<exists>j1 j2 t1 t2. sa_commit_sending migrated_statuses now1 r1 db = (Inr (Some j1), t1) \<and>
      sa_commit_sending migrated_statuses now2 r2 t1 = (Inr (Some j2), t2) \<and>
      nj_notification_id j1 = nj_notification_id j2 \<and> nj_attempts j1 = nj_attempts j2"
proof -
  have "r1 = r2" using assms
    by (auto simp: sa_select_pending_def uuid_row_def split: option.splits if_splits elim!: res_bind_InrE)
  then show ?thesis
    by (simp add: sa_commit_sending_def commit_job_def all_migrated job_of_row_def sending_row_def)
qed

text \<open>
  Over asyncpg the second worker passes over the row that the first has locked, and finds it no longer pending once the first
  is done: of any two claims one at most succeeds.
\<close>

theorem asyncpg_claims_once:
  assumes "db_ok pg_uuid db" "pg_select_pending nid now1 [] db = Inr (Some r, locked)"
  shows "pg_select_pending nid now2 locked db = Inr (None, locked)"
    and "pg_commit_sending migrated_statuses nid now1 r locked db = ((Inr (Some j), rest), t) \<Longrightarrow>
      pg_select_pending nid now2 rest t = Inr (None, rest)"
proof -
  obtain k where k: "pg_uuid nid = Some k" "dict_get (db_jobs db) k = Some r" "locked = [jr_notification_id r]"
    using assms(2) by (auto simp: pg_select_pending_def pg_row_def split: option.splits if_splits elim!: res_bind_InrE)
  then have id: "jr_notification_id r = k" using assms(1) by (auto simp: db_ok_def)
  show "pg_select_pending nid now2 locked db = Inr (None, locked)"
    using k by (simp add: pg_select_pending_def pg_row_def)
  show "pg_select_pending nid now2 rest t = Inr (None, rest)"
    if "pg_commit_sending migrated_statuses nid now1 r locked db = ((Inr (Some j), rest), t)"
    using that k id by (auto simp: pg_commit_sending_def Let_def commit_job_def all_migrated pg_select_pending_def pg_row_def dict_simps row_ready_def)
qed

section \<open>Witnesses\<close>

definition sample_uuid :: string where
  "sample_uuid = ''00000000-0000-0000-0000-000000000001''"

lemma sample_uuid_canonical: "parse_uuid sample_uuid = Some sample_uuid"
  by code_simp

definition sample_db :: delivery_db where
  "sample_db =
     \<lparr>db_jobs = [(sample_uuid, new_job_row 0 sample_uuid 7 ''f'' ''a'' 0)], db_attempts = [], db_announcements = [], db_filter_names = []\<rparr>"

lemma sample_db_ok: "db_ok parse_uuid sample_db"
  by (simp add: db_ok_def sample_db_def dict_ok_def new_job_row_def sample_uuid_canonical)

definition sample_delivery_job :: notification_job where
  "sample_delivery_job = job_of_row StandardQueue (new_job_row 0 sample_uuid 7 ''f'' ''a'' 0)"

lemma sample_pending: "sa_select_pending sample_uuid now sample_db = Inr (Some (new_job_row 0 sample_uuid 7 ''f'' ''a'' 0))"
  by (simp add: sa_select_pending_def uuid_row_def sample_uuid_canonical sample_db_def row_ready_def new_job_row_def)

theorem one_worker_delivers_once_witness:
  "distinct (wk_delivered (deliver_all (sa_ops migrated_statuses) 60 [(\<lambda>_ _ _. Delivered ''m'', 5, sample_delivery_job), (\<lambda>_ _ _. Delivered ''m'', 6, sample_delivery_job)]
     \<lparr>wk_limiter = \<lparr>rl_per_user_interval = 0, rl_global_interval = 0, rl_last_user_send = [], rl_last_global_send = None\<rparr>, wk_delivered = [], wk_repo = sample_db\<rparr>))"
  using one_worker_delivers_once [OF sample_db_ok refl] by blast

definition sample_worker :: "delivery_db delivery_worker" where
  "sample_worker =
     \<lparr>wk_limiter = \<lparr>rl_per_user_interval = 0, rl_global_interval = 0, rl_last_user_send = [], rl_last_global_send = None\<rparr>,
      wk_delivered = [], wk_repo = sample_db\<rparr>"

text \<open>The sample job has no filter any more: it is given up.\<close>

theorem delivery_outcome_witness:
  "\<exists>r'. dict_get (db_jobs (wk_repo (snd (deliver_job (sa_ops migrated_statuses) (\<lambda>_ _ _. Delivered ''m'') 60 5 sample_delivery_job sample_worker))))
     sample_uuid = Some r' \<and> jr_status r' = FailedJob \<and> jr_attempts r' = 1"
proof -
  let ?r = "new_job_row 0 sample_uuid 7 ''f'' ''a'' 0"
  have get: "dict_get (db_jobs (wk_repo sample_worker)) sample_uuid = Some ?r" "db_ok parse_uuid (wk_repo sample_worker)"
    using sample_db_ok by (simp_all add: sample_worker_def sample_db_def)
  have id: "nj_notification_id sample_delivery_job = sample_uuid" by (simp add: sample_delivery_job_def job_of_row_def new_job_row_def)
  obtain rl where rl: "rate_retry_after (jr_user_id ?r) 5 (wk_limiter sample_worker) = (None, rl)"
  proof -
    have "fst (rate_retry_after (jr_user_id ?r) 5 (wk_limiter sample_worker)) = None" by code_simp
    then show thesis using that by (metis prod.collapse)
  qed
  obtain res w' where run: "deliver_job (sa_ops migrated_statuses) (\<lambda>_ _ _. Delivered ''m'') 60 5 sample_delivery_job sample_worker = (res, w')"
    by fastforce
  have "row_ready 5 ?r" by (simp add: row_ready_def new_job_row_def)
  moreover have "sa_context sample_uuid (claimed_db sample_uuid 5 ?r (wk_repo sample_worker)) = None"
    by (simp add: sa_context_def claimed_db_def sample_worker_def sample_db_def sample_uuid_canonical sending_row_def new_job_row_def)
  ultimately have "left_by sample_uuid 5 (GivenUp FailedJob ''missing_delivery_context'') sample_worker rl w'"
    using delivery_outcome [OF get(2,1) id rl run] by (simp add: fate_of_def)
  then show ?thesis using get(1) run by (auto simp: left_by_def row_of_fate_def new_job_row_def)
qed

theorem declared_schema_delivers_nothing_witness:
  "deliver_job (sa_ops declared_statuses) (\<lambda>_ _ _. Delivered ''m'') 60 5 sample_delivery_job sample_worker = (Inl check_violation, sample_worker)"
proof -
  have "sa_list_ready 1 5 sample_db = [sample_delivery_job]"
    by (simp add: sa_list_ready_def sample_db_def row_ready_def new_job_row_def py_sort_def sample_delivery_job_def queue_name_of_def job_of_row_def)
  moreover have "wk_repo sample_worker = sample_db" by (simp add: sample_worker_def)
  ultimately show ?thesis
    using declared_schema_delivers_nothing [of sample_worker 60 "[]" "\<lambda>_ _ _. Delivered ''m''" 5 1] sample_db_ok by simp
qed

theorem two_workers_claim_one_job_witness:
  "\<exists>j1 j2 t1 t2. sa_commit_sending migrated_statuses 5 (new_job_row 0 sample_uuid 7 ''f'' ''a'' 0) sample_db = (Inr (Some j1), t1) \<and>
     sa_commit_sending migrated_statuses 6 (new_job_row 0 sample_uuid 7 ''f'' ''a'' 0) t1 = (Inr (Some j2), t2) \<and>
     nj_notification_id j1 = nj_notification_id j2 \<and> nj_attempts j1 = nj_attempts j2"
  by (rule two_workers_claim_one_job [OF sample_pending sample_pending])

end
