(* ===== verification/EF_SqlDedup.thy ===== *)
theory EF_SqlDedup
  imports EF_SqlSearch EF_PostAi
begin

text \<open>
  The announcement repository the deduplication runs on in production (\<open>repositories/post_ai_dedup.py\<close>): parents and
  children as rows of the table \<open>announcements\<close>, their images, the audit of merges, the decisions and the review items. Rows are
  kept in the order they were inserted, which is the order a query gives where it asks for none. A statement that fails changes
  nothing; a transaction that fails changes nothing either, while the statements of an operation without one stay. An identifier
  is the canonical text of a UUID. The moments that the database takes as \<open>now()\<close> are arguments.
\<close>

section \<open>Columns\<close>

text \<open>A number in a column \<open>numeric(p, d)\<close> is rounded to \<open>d\<close> places, halves away from zero, and must leave \<open>p - d\<close> digits before the point.\<close>

definition numeric_column :: "nat \<Rightarrow> rat \<Rightarrow> rat" where
  "numeric_column d x =
     (if x < 0 then - of_int \<lfloor>- x * 10 ^ d + 1 / 2\<rfloor> else of_int \<lfloor>x * 10 ^ d + 1 / 2\<rfloor>) / 10 ^ d"

definition fits_column :: "nat \<Rightarrow> nat \<Rightarrow> rat option \<Rightarrow> bool" where
  "fits_column p d x = (case x of None \<Rightarrow> True | Some v \<Rightarrow> \<bar>numeric_column d v\<bar> < 10 ^ (p - d))"

text \<open>The columns that hold the canonical listing.\<close>

definition put_canonical :: "canonical_listing \<Rightarrow> announcement_row \<Rightarrow> announcement_row" where
  "put_canonical c r =
     r\<lparr>rw_price := map_option (numeric_column 2) (cl_price c), rw_currency := cl_currency c,
       rw_price_period := cl_price_period c, rw_price_basis := cl_price_basis c,
       rw_price_normalized_monthly := map_option (numeric_column 2) (cl_price_normalized_monthly c),
       rw_rooms := cl_rooms c, rw_area_sqm := map_option (numeric_column 2) (cl_area_sqm c),
       rw_floor := cl_floor c, rw_total_floors := cl_total_floors c, rw_district := cl_district c,
       rw_address := cl_address c, rw_phone_numbers := cl_phone_numbers c, rw_owner_type := cl_owner_type c,
       rw_renovation_level := cl_renovation_level c, rw_renovation_source := cl_renovation_source c,
       rw_furniture := cl_furniture c, rw_description := cl_description c, rw_audience_tags := cl_audience_tags c,
       rw_audience_excluded_tags := cl_audience_excluded_tags c,
       rw_confidence := Some (numeric_column 3 (cl_confidence c)), rw_field_confidence := cl_field_confidence c,
       rw_assumptions := cl_assumptions c, rw_prompt_version := Some (cl_prompt_version c)\<rparr>"

definition announcement_row_of :: "announcement \<Rightarrow> announcement_row" where
  "announcement_row_of a =
     put_canonical (an_canonical a)
       \<lparr>rw_announcement_id = an_id a, rw_idempotency_key = an_idempotency_key a, rw_source_id = an_source_id a,
        rw_source_channel_id = Some (an_source_channel_id a), rw_source_message_id = Some (an_source_message_id a),
        rw_source_message_ids = (if an_source_message_ids a = [] then [an_source_message_id a] else an_source_message_ids a),
        rw_parent_announcement_id = None, rw_status = an_status a, rw_source_count = an_source_count a,
        rw_latest_source_id = (if truthy (an_latest_source_id a) then an_latest_source_id a else Some (an_source_id a)),
        rw_source_url = an_source_url a, rw_forward_origin_key = an_forward_origin_key a,
        rw_price = None, rw_currency = None, rw_price_period = Monthly, rw_price_basis = TotalPrice,
        rw_price_normalized_monthly = None, rw_rooms = None, rw_area_sqm = None, rw_floor = None, rw_total_floors = None,
        rw_district = None, rw_address = None, rw_phone_numbers = [], rw_owner_type = UnknownOwner, rw_renovation_level = None,
        rw_renovation_source = UnknownSource, rw_furniture = None, rw_description = [], rw_audience_tags = [],
        rw_audience_excluded_tags = [], rw_confidence = None, rw_field_confidence = [], rw_assumptions = [],
        rw_prompt_version = None, rw_occurred_at = an_occurred_at a, rw_created_at = an_created_at a,
        rw_updated_at = an_created_at a\<rparr>"

section \<open>The tables\<close>

record merge_row =
  mg_parent_announcement_id :: string
  mg_child_announcement_id :: string
  mg_merge_policy :: string
  mg_conflicts :: "conflict list"
  mg_reason :: "string option"

record dedup_db =
  dp_rows :: "(string, announcement_row) dict"
  dp_media :: "(string \<times> stored_media) list"
  dp_sources :: "string list"
  dp_merge_audit :: "merge_row list"
  dp_decisions :: "(string \<times> dedup_decision) list"
  dp_reviews :: "(string, review_item) dict"

definition table_rows :: "dedup_db \<Rightarrow> announcement_row list" where
  "table_rows db = dict_values (dp_rows db)"

definition media_rows :: "dedup_db \<Rightarrow> string \<Rightarrow> stored_media list" where
  "media_rows db k = map snd (filter (\<lambda>(a, m). a = k) (dp_media db))"

text \<open>A row as the queries that join the images read it.\<close>

definition pg_stored :: "dedup_db \<Rightarrow> announcement_row \<Rightarrow> announcement" where
  "pg_stored db r = pg_announcement_of_row (media_rows db (rw_announcement_id r)) r"

definition integrity_error :: "string \<Rightarrow> py_error" where
  "integrity_error what = OtherError ''PostgresError'' what"

text \<open>A number in a column \<open>integer\<close> has 32 bits.\<close>

definition fits_integer :: "int option \<Rightarrow> bool" where
  "fits_integer n = (case n of None \<Rightarrow> True | Some v \<Rightarrow> - (2 ^ 31) \<le> v \<and> v < 2 ^ 31)"

text \<open>The checks a row must pass to be stored, and the unique index over the source message.\<close>

definition row_allowed :: "announcement_row \<Rightarrow> bool" where
  "row_allowed r \<longleftrightarrow>
     1 \<le> rw_source_count r \<and> rw_parent_announcement_id r \<noteq> Some (rw_announcement_id r) \<and>
     (case rw_rooms r of None \<Rightarrow> True | Some n \<Rightarrow> 0 \<le> n) \<and> (case rw_area_sqm r of None \<Rightarrow> True | Some x \<Rightarrow> 0 \<le> x) \<and>
     (case rw_confidence r of None \<Rightarrow> True | Some x \<Rightarrow> 0 \<le> x \<and> x \<le> 1) \<and>
     fits_column 14 2 (rw_price r) \<and> fits_column 14 2 (rw_price_normalized_monthly r) \<and> fits_column 10 2 (rw_area_sqm r) \<and>
     fits_integer (rw_rooms r) \<and> fits_integer (rw_floor r) \<and> fits_integer (rw_total_floors r)"

definition same_message :: "announcement_row \<Rightarrow> announcement_row \<Rightarrow> bool" where
  "same_message r r' \<longleftrightarrow>
     rw_source_id r = rw_source_id r' \<and>
     rw_source_channel_id r \<noteq> None \<and> rw_source_channel_id r = rw_source_channel_id r' \<and>
     rw_source_message_id r \<noteq> None \<and> rw_source_message_id r = rw_source_message_id r'"

definition put_row :: "announcement_row \<Rightarrow> dedup_db \<Rightarrow> dedup_db" where
  "put_row r db = db\<lparr>dp_rows := dict_put (rw_announcement_id r) r (dp_rows db)\<rparr>"

text \<open>\<open>_ensure_source_exists\<close>\<close>

definition ensure_source_exists :: "string \<Rightarrow> dedup_db \<Rightarrow> dedup_db" where
  "ensure_source_exists k db =
     (if k = [] \<or> k \<in> set (dp_sources db) then db else db\<lparr>dp_sources := dp_sources db @ [k]\<rparr>)"

definition ensure_sources :: "announcement \<Rightarrow> dedup_db \<Rightarrow> dedup_db" where
  "ensure_sources a db =
     ensure_source_exists (if truthy (an_latest_source_id a) then the (an_latest_source_id a) else an_source_id a)
       (ensure_source_exists (an_source_id a) db)"

text \<open>\<open>_save_announcement_media\<close>: an image that the announcement has is passed over, and no two images have one object key.\<close>

fun save_announcement_media :: "string \<Rightarrow> stored_media list \<Rightarrow> dedup_db \<Rightarrow> unit res \<times> dedup_db" where
  "save_announcement_media k [] db = (Inr (), db)"
| "save_announcement_media k (m # ms) db =
     (if sm_size_bytes m < 0 then (Inl (integrity_error ''ck_announcement_media_size_bytes_nonnegative''), db)
      else if list_ex (\<lambda>(a, x). a = k \<and> sm_media_id x = sm_media_id m) (dp_media db)
      then save_announcement_media k ms db
      else if list_ex (\<lambda>(a, x). sm_object_key x = sm_object_key m) (dp_media db)
      then (Inl (integrity_error ''uq_announcement_media_object_key''), db)
      else save_announcement_media k ms (db\<lparr>dp_media := dp_media db @ [(k, m)]\<rparr>))"

text \<open>An \<open>insert\<close> of a row that conflicts with none through the index its \<open>on conflict\<close> names.\<close>

definition insert_row :: "announcement_row \<Rightarrow> dedup_db \<Rightarrow> announcement_row res \<times> dedup_db" where
  "insert_row r db =
     (if dict_get (dp_rows db) (rw_announcement_id r) \<noteq> None \<or>
        list_ex (\<lambda>x. rw_idempotency_key x = rw_idempotency_key r \<or> same_message r x) (table_rows db)
      then (Inl (integrity_error ''unique_violation''), db)
      else if rw_source_id r \<notin> set (dp_sources db) \<or> \<not> set_option (rw_latest_source_id r) \<subseteq> set (dp_sources db)
      then (Inl (integrity_error ''foreign_key_violation''), db)
      else (Inr r, put_row r db))"

section \<open>Operations\<close>

definition pg_save_parent :: "announcement \<Rightarrow> dedup_db \<Rightarrow> announcement res \<times> dedup_db" where
  "pg_save_parent a db =
     (let db1 = ensure_sources a db; r = announcement_row_of a in
      if \<not> row_allowed r then (Inl (integrity_error ''check_violation''), db1)
      else then_do (case find_first (same_message r) (table_rows db1) of
             Some old \<Rightarrow> (Inr old, db1) | None \<Rightarrow> insert_row r db1) (\<lambda>p db2.
        then_do (save_announcement_media (rw_announcement_id p) (an_media a) db2) (\<lambda>_ db3.
          (Inr (pg_announcement_of_row (an_media a) p), db3))))"

definition pg_find :: "string \<Rightarrow> dedup_db \<Rightarrow> announcement option" where
  "pg_find k db = map_option (pg_stored db) (dict_get (dp_rows db) k)"

definition not_found :: "string \<Rightarrow> string \<Rightarrow> py_error" where
  "not_found what k = ValueError (what @ '' not found: '' @ k)"

definition pg_activate_announcement :: "time \<Rightarrow> string \<Rightarrow> dedup_db \<Rightarrow> announcement res \<times> dedup_db" where
  "pg_activate_announcement now k db =
     (case dict_get (dp_rows db) k of
        None \<Rightarrow> (Inl (not_found ''Announcement'' k), db)
      | Some r \<Rightarrow>
          if rw_status r = ManualReviewAnn
          then (let u = r\<lparr>rw_status := ActiveAnn, rw_updated_at := now\<rparr> in (Inr (pg_announcement_of_row [] u), put_row u db))
          else (Inr (pg_stored db r), db))"

text \<open>A transaction: what fails leaves nothing behind.\<close>

definition in_transaction :: "'a res \<times> 's \<Rightarrow> 's \<Rightarrow> 'a res \<times> 's" where
  "in_transaction p s = (case p of (Inl e, t) \<Rightarrow> (Inl e, s) | (Inr x, t) \<Rightarrow> (Inr x, t))"

definition add_merge_row :: "merge_row \<Rightarrow> dedup_db \<Rightarrow> dedup_db" where
  "add_merge_row m db =
     (if list_ex (\<lambda>x. mg_child_announcement_id x = mg_child_announcement_id m) (dp_merge_audit db) then db
      else db\<lparr>dp_merge_audit := dp_merge_audit db @ [m]\<rparr>)"

definition pg_update_canonical ::
  "time \<Rightarrow> string \<Rightarrow> canonical_listing \<Rightarrow> string \<Rightarrow> dedup_db \<Rightarrow> announcement res \<times> dedup_db" where
  "pg_update_canonical now k c reason db =
     (case dict_get (dp_rows db) k of
        None \<Rightarrow> (Inl (not_found ''Announcement'' k), db)
      | Some r \<Rightarrow>
          (let u = (put_canonical c r)\<lparr>rw_updated_at := now\<rparr> in
           if \<not> row_allowed u then (Inl (integrity_error ''check_violation''), db)
           else (Inr (pg_announcement_of_row [] u),
             add_merge_row \<lparr>mg_parent_announcement_id = k, mg_child_announcement_id = k, mg_merge_policy = ''manual_review'',
               mg_conflicts = [], mg_reason = Some reason\<rparr> (put_row u db))))"

text \<open>\<open>_upsert_child\<close>: a stored row keeps all but its parent, status and time of change.\<close>

definition child_row :: "announcement \<Rightarrow> string \<Rightarrow> announcement_row" where
  "child_row child pid =
     (announcement_row_of child)\<lparr>rw_parent_announcement_id := Some pid, rw_status := ActiveAnn, rw_source_count := 1,
       rw_latest_source_id := Some (an_source_id child)\<rparr>"

definition upsert_child :: "announcement \<Rightarrow> string \<Rightarrow> dedup_db \<Rightarrow> announcement res \<times> dedup_db" where
  "upsert_child child pid db =
     (let db1 = ensure_sources child db; r = child_row child pid in
      if \<not> row_allowed r then (Inl (integrity_error ''check_violation''), db1)
      else then_do (case dict_get (dp_rows db1) (an_id child) of
             Some old \<Rightarrow>
               (let u = old\<lparr>rw_parent_announcement_id := Some pid, rw_status := ActiveAnn, rw_updated_at := an_created_at child\<rparr>
                in (Inr u, put_row u db1))
           | None \<Rightarrow> insert_row r db1) (\<lambda>u db2.
        then_do (save_announcement_media (an_id child) (an_media child) db2) (\<lambda>_ db3.
          (Inr (pg_announcement_of_row (an_media child) u), db3))))"

definition family :: "string \<Rightarrow> announcement_row list \<Rightarrow> announcement_row list" where
  "family pid rows = filter (\<lambda>r. rw_parent_announcement_id r = Some pid \<or> rw_announcement_id r = pid) rows"

text \<open>\<open>_update_parent_aggregate\<close>\<close>

definition update_parent_aggregate :: "time \<Rightarrow> announcement \<Rightarrow> string \<Rightarrow> dedup_db \<Rightarrow> unit res \<times> dedup_db" where
  "update_parent_aggregate now parent latest db =
     (let db1 = ensure_source_exists latest db in
      case dict_get (dp_rows db1) (an_id parent) of
        None \<Rightarrow> (Inr (), db1)
      | Some r \<Rightarrow>
          (let u = (put_canonical (an_canonical parent) r)
                 \<lparr>rw_source_count := max 1 (int (length (family (an_id parent) (table_rows db1)))),
                  rw_latest_source_id := Some latest, rw_updated_at := now\<rparr> in
           if \<not> row_allowed u then (Inl (integrity_error ''check_violation''), db1)
           else if latest \<notin> set (dp_sources db1) then (Inl (integrity_error ''foreign_key_violation''), db1)
           else (Inr (), put_row u db1)))"

definition linked_already :: "announcement \<Rightarrow> string \<Rightarrow> dedup_db \<Rightarrow> announcement_row option" where
  "linked_already child pid db =
     (case dict_get (dp_rows db) (an_id child) of
        None \<Rightarrow> None | Some r \<Rightarrow> if rw_parent_announcement_id r = Some pid then Some r else None)"

definition pg_link_child ::
  "time \<Rightarrow> announcement \<Rightarrow> string \<Rightarrow> string \<Rightarrow> dedup_db \<Rightarrow> announcement res \<times> dedup_db" where
  "pg_link_child now child pid policy db =
     (case dict_get (dp_rows db) pid of
        None \<Rightarrow> (Inl (not_found ''Parent announcement'' pid), db)
      | Some p \<Rightarrow>
          (case linked_already child pid db of
             Some old \<Rightarrow> (Inr (pg_announcement_of_row [] old), db)
           | None \<Rightarrow>
               (case merge_parent_fields (pg_announcement_of_row [] p) child of
                  Inl e \<Rightarrow> (Inl e, db)
                | Inr (merged, conflicts) \<Rightarrow>
                    in_transaction (then_do (upsert_child child pid db) (\<lambda>linked db1.
                      then_do (update_parent_aggregate now merged (an_source_id child) db1) (\<lambda>_ db2.
                        (Inr linked, add_merge_row \<lparr>mg_parent_announcement_id = pid, mg_child_announcement_id = an_id child,
                           mg_merge_policy = policy, mg_conflicts = conflicts, mg_reason = None\<rparr> db2)))) db)))"

definition pg_record_decision :: "string \<Rightarrow> dedup_decision \<Rightarrow> dedup_db \<Rightarrow> unit res \<times> dedup_db" where
  "pg_record_decision k d db =
     (if dd_score d < 0 \<or> dd_threshold d < 0 then (Inl (integrity_error ''check_violation''), db)
      else if \<not> insert k (set_option (dd_candidate_id d)) \<subseteq> set (dict_keys (dp_rows db))
      then (Inl (integrity_error ''foreign_key_violation''), db)
      else (Inr (), db\<lparr>dp_decisions := dp_decisions db @ [(k, d)]\<rparr>))"

definition pg_list_user_facing :: "nat \<Rightarrow> nat \<Rightarrow> dedup_db \<Rightarrow> announcement list" where
  "pg_list_user_facing limit offset db =
     map (pg_announcement_of_row []) (page offset limit (py_sort_desc rw_created_at
       (filter (\<lambda>r. rw_parent_announcement_id r = None \<and> rw_status r = ActiveAnn) (table_rows db))))"

definition pg_list_for_audit :: "string option \<Rightarrow> nat \<Rightarrow> nat \<Rightarrow> dedup_db \<Rightarrow> announcement list" where
  "pg_list_for_audit parent limit offset db =
     map (pg_announcement_of_row []) (page offset limit
       (py_sort (\<lambda>r. (case rw_parent_announcement_id r of None \<Rightarrow> rw_announcement_id r | Some p \<Rightarrow> p, rw_created_at r))
         (filter (\<lambda>r. case parent of None \<Rightarrow> True
             | Some p \<Rightarrow> rw_announcement_id r = p \<or> rw_parent_announcement_id r = Some p) (table_rows db))))"

section \<open>The review items\<close>

definition pg_enqueue_review ::
  "(string \<Rightarrow> string) \<Rightarrow> time \<Rightarrow> announcement \<Rightarrow> review_reason \<Rightarrow> dedup_decision \<Rightarrow> dedup_db \<Rightarrow> review_item res \<times> dedup_db" where
  "pg_enqueue_review uuid5 now a reason d db =
     (case py_sort ri_created_at (filter (\<lambda>i. ri_announcement_id i = an_id a \<and> ri_reason i = reason) (dict_values (dp_reviews db))) of
        i # _ \<Rightarrow> (Inr i, db)
      | [] \<Rightarrow>
          (let k = uuid5 (''manual-review:'' @ reason_text reason @ '':'' @ an_idempotency_key a) in
           case dict_get (dp_reviews db) k of
             Some i \<Rightarrow> (Inr i, db)
           | None \<Rightarrow>
               if \<not> insert (an_id a) (set_option (dd_candidate_id d)) \<subseteq> set (dict_keys (dp_rows db))
               then (Inl (integrity_error ''foreign_key_violation''), db)
               else (let i = (new_review_item now a reason d)\<lparr>ri_review_id := k\<rparr>
                     in (Inr i, db\<lparr>dp_reviews := dict_put k i (dp_reviews db)\<rparr>))))"

definition pg_list_reviews ::
  "review_status option \<Rightarrow> review_reason option \<Rightarrow> nat \<Rightarrow> nat \<Rightarrow> dedup_db \<Rightarrow> review_item list" where
  "pg_list_reviews status reason limit offset db =
     page offset limit (py_sort (\<lambda>i. (ri_created_at i, ri_review_id i))
       (filter (review_matches status reason) (dict_values (dp_reviews db))))"

definition pg_count_reviews :: "review_status option \<Rightarrow> review_reason option \<Rightarrow> dedup_db \<Rightarrow> nat" where
  "pg_count_reviews status reason db = length (filter (review_matches status reason) (dict_values (dp_reviews db)))"

definition pg_get_review :: "string \<Rightarrow> dedup_db \<Rightarrow> review_item option" where
  "pg_get_review k db = dict_get (dp_reviews db) k"

definition pg_update_review :: "review_item \<Rightarrow> dedup_db \<Rightarrow> dedup_db" where
  "pg_update_review i db =
     (case dict_get (dp_reviews db) (ri_review_id i) of
        None \<Rightarrow> db
      | Some old \<Rightarrow> db\<lparr>dp_reviews := dict_put (ri_review_id i)
          (old\<lparr>ri_status := ri_status i, ri_decided_at := ri_decided_at i\<rparr>) (dp_reviews db)\<rparr>)"

section \<open>Candidates\<close>

definition comparable_price :: "canonical_listing \<Rightarrow> rat option" where
  "comparable_price c =
     (if cl_price_basis c \<noteq> TotalPrice \<or> cl_price_period c = OneTime then None else cl_price_normalized_monthly c)"

definition DEDUP_LOOKBACK :: duration where
  "DEDUP_LOOKBACK = seconds (90 * 86400)"

text \<open>A condition on a parameter that may be NULL: \<open>$n is not null and ...\<close>.\<close>

definition with_param :: "'a option \<Rightarrow> ('a \<Rightarrow> sql_bool) \<Rightarrow> sql_bool" where
  "with_param p cond = sql_and (Some (p \<noteq> None)) (case p of None \<Rightarrow> None | Some v \<Rightarrow> cond v)"

definition sql_any :: "sql_bool list \<Rightarrow> sql_bool" where
  "sql_any bs = foldr sql_or bs (Some False)"

text \<open>The condition of \<open>DEDUP_CANDIDATE_QUERY\<close> on a row and its images.\<close>

definition dedup_candidate_where ::
  "scoring_config \<Rightarrow> duration \<Rightarrow> announcement \<Rightarrow> stored_media list \<Rightarrow> announcement_row \<Rightarrow> sql_bool list" where
  "dedup_candidate_where cfg lookback a media r =
     (let c = an_canonical a in
      [sql_is_null (rw_parent_announcement_id r), Some (rw_status r = ActiveAnn), Some (rw_announcement_id r \<noteq> an_id a),
       Some (an_occurred_at a - lookback \<le> rw_occurred_at r),
       sql_any
         [with_param (an_source_url a) (sql_cmp (=) (rw_source_url r)),
          with_param (an_forward_origin_key a) (sql_cmp (=) (rw_forward_origin_key r)),
          with_param (cl_district c) (sql_cmp (=) (rw_district r)),
          with_param (cl_rooms c) (sql_cmp (=) (rw_rooms r)),
          with_param (cl_area_sqm c)
            (sql_cmp (\<lambda>x v. v - area_tolerance_sqm cfg \<le> x \<and> x \<le> v + area_tolerance_sqm cfg) (rw_area_sqm r)),
          with_param (comparable_price c) (\<lambda>v. sql_all
            [Some (rw_price_period r = cl_price_period c), Some (rw_price_basis r = cl_price_basis c),
             (case cl_currency c of None \<Rightarrow> None | Some u \<Rightarrow> sql_cmp (=) (rw_currency r) u),
             sql_cmp (\<lambda>x v. v * (1 - price_tolerance_ratio cfg) \<le> x \<and> x \<le> v * (1 + price_tolerance_ratio cfg))
               (rw_price_normalized_monthly r) v]),
          Some (list_ex (\<lambda>m. sm_phash m \<in> set (map sm_phash (an_media a))) media)]])"

definition pg_candidate_rows :: "scoring_config \<Rightarrow> duration \<Rightarrow> announcement \<Rightarrow> dedup_db \<Rightarrow> announcement_row list" where
  "pg_candidate_rows cfg lookback a db =
     filter (\<lambda>r. kept (dedup_candidate_where cfg lookback a (media_rows db (rw_announcement_id r)) r)) (table_rows db)"

definition pg_list_candidates ::
  "scoring_config \<Rightarrow> duration \<Rightarrow> announcement \<Rightarrow> nat \<Rightarrow> dedup_db \<Rightarrow> announcement list" where
  "pg_list_candidates cfg lookback a limit db =
     map (pg_stored db) (take (min limit (candidate_limit cfg))
       (py_sort_desc (\<lambda>r. (rw_occurred_at r, rw_created_at r)) (pg_candidate_rows cfg lookback a db)))"

section \<open>The tables stay sound\<close>

definition kids :: "string \<Rightarrow> (string, announcement_row) dict \<Rightarrow> string set" where
  "kids pid rows = {k. \<exists>r. dict_get rows k = Some r \<and> rw_parent_announcement_id r = Some pid}"

text \<open>
  Rows are stored under their identifiers and pass the checks; parents are stored; no two rows have one idempotency key or one
  source message; and a row counts at least itself and its children, those of \<open>E\<close> apart, which a transaction is about to count.
\<close>

definition rows_sound :: "string set \<Rightarrow> (string, announcement_row) dict \<Rightarrow> bool" where
  "rows_sound E rows \<longleftrightarrow>
     keyed_by rw_announcement_id rows \<and>
     (\<forall>k r. dict_get rows k = Some r \<longrightarrow>
        row_allowed r \<and> (\<forall>p. rw_parent_announcement_id r = Some p \<longrightarrow> dict_get rows p \<noteq> None) \<and>
        (k \<in> E \<or> 1 + int (card (kids k rows)) \<le> rw_source_count r)) \<and>
     (\<forall>k r k' r'. dict_get rows k = Some r \<longrightarrow> dict_get rows k' = Some r' \<longrightarrow>
        rw_idempotency_key r = rw_idempotency_key r' \<or> same_message r r' \<longrightarrow> k = k')"

definition dedup_db_ok :: "dedup_db \<Rightarrow> bool" where
  "dedup_db_ok db \<longleftrightarrow> rows_sound {} (dp_rows db)"

lemma finite_kids [simp]: "finite (kids k rows)"
  by (rule finite_subset [OF _ finite_dom_map_of [of rows]]) (auto simp: kids_def)

lemma kids_put: "kids k (dict_put i u rows) = (kids k rows - {i}) \<union> (if rw_parent_announcement_id u = Some k then {i} else {})"
  by (auto simp: kids_def dict_simps)

lemma length_filter_dict:
  "dict_ok d \<Longrightarrow> length (filter P (dict_values d)) = card {k. \<exists>v. dict_get d k = Some v \<and> P v}"
proof (induction d)
  case (Cons x d)
  obtain k v where x: "x = (k, v)" by fastforce
  let ?A = "{k. \<exists>v. dict_get d k = Some v \<and> P v}"
  have "dict_get d k = None" and ok: "dict_ok d"
    using Cons.prems by (auto simp: x dict_ok_def map_of_eq_None_iff)
  then have "{j. \<exists>w. dict_get (x # d) j = Some w \<and> P w} = (if P v then insert k ?A else ?A)" and "k \<notin> ?A"
    by (auto simp: x split: if_splits)
  moreover have "finite ?A" by (rule finite_subset [OF _ finite_dom_map_of [of d]]) auto
  ultimately show ?case using Cons.IH [OF ok] by (simp add: x)
qed simp

lemma length_family:
  assumes "rows_sound E rows" and "dict_get rows pid = Some p"
  shows "length (family pid (dict_values rows)) = Suc (card (kids pid rows))"
proof -
  have keyed: "keyed_by rw_announcement_id rows" using assms(1) by (simp add: rows_sound_def)
  have id: "rw_announcement_id r = k" if "dict_get rows k = Some r" for k r
    using keyed_by_getD [OF keyed that] .
  have "(\<exists>r. dict_get rows k = Some r \<and> (rw_parent_announcement_id r = Some pid \<or> rw_announcement_id r = pid)) \<longleftrightarrow> k \<in> insert pid (kids pid rows)" for k
    using assms(2) id [of k] id [of pid] unfolding kids_def by (cases "dict_get rows k") auto
  then have "{k. \<exists>r. dict_get rows k = Some r \<and> (rw_parent_announcement_id r = Some pid \<or> rw_announcement_id r = pid)} = insert pid (kids pid rows)"
    by (intro set_eqI, simp only: mem_Collect_eq)
  moreover have "row_allowed p" using assms unfolding rows_sound_def by blast
  then have "pid \<notin> kids pid rows"
    using assms(2) keyed_by_getD [OF keyed assms(2)] by (simp add: kids_def row_allowed_def)
  ultimately show ?thesis unfolding family_def length_filter_dict [OF keyed_by_okD [OF keyed]] by simp
qed

lemma same_message_sym: "same_message r r' = same_message r' r"
  unfolding same_message_def by metis

text \<open>Storing one row, new or changed.\<close>

lemma rows_sound_put:
  assumes "rows_sound E rows" and "row_allowed u" and i: "rw_announcement_id u = i"
    and parent: "\<And>p. rw_parent_announcement_id u = Some p \<Longrightarrow> dict_get rows p \<noteq> None \<and> (p \<in> E' \<or> i \<in> kids p rows)"
    and fresh: "\<And>k r. dict_get rows k = Some r \<Longrightarrow> k \<noteq> i \<Longrightarrow> rw_idempotency_key u \<noteq> rw_idempotency_key r \<and> \<not> same_message u r"
    and bound: "i \<in> E' \<or> 1 + int (card (kids i rows)) \<le> rw_source_count u" and E: "E - {i} \<subseteq> E'"
  shows "rows_sound E' (dict_put i u rows)"
proof -
  note sound = assms(1) [unfolded rows_sound_def]
  have no_self: "rw_parent_announcement_id u \<noteq> Some i" using assms(2) i by (auto simp: row_allowed_def)
  have kids_i: "kids i (dict_put i u rows) \<subseteq> kids i rows" using no_self by (auto simp: kids_put)
  have kids_le: "card (kids k (dict_put i u rows)) \<le> card (kids k rows)" if "k \<notin> E'" for k
    by (rule card_mono) (use parent that in \<open>auto simp: kids_put split: if_splits\<close>)
  have "k \<in> E' \<or> 1 + int (card (kids k (dict_put i u rows))) \<le> rw_source_count r"
    if r: "dict_get (dict_put i u rows) k = Some r" for k r
  proof (cases "k \<in> E'")
    case False
    have "1 + int (card (kids k rows)) \<le> rw_source_count r"
    proof (cases "k = i")
      case True
      with r bound False show ?thesis by (simp add: dict_simps)
    next
      case other: False
      with r sound E False show ?thesis by (auto simp: dict_simps)
    qed
    with kids_le [OF False] show ?thesis by linarith
  qed simp
  moreover have "keyed_by rw_announcement_id (dict_put i u rows)" using sound i by simp
  moreover have "row_allowed r \<and> (\<forall>p. rw_parent_announcement_id r = Some p \<longrightarrow> dict_get (dict_put i u rows) p \<noteq> None)"
    if r: "dict_get (dict_put i u rows) k = Some r" for k r
  proof (cases "k = i")
    case True
    with r have "r = u" by (simp add: dict_simps)
    with assms(2) parent show ?thesis by (auto simp: dict_simps)
  next
    case False
    with r have "dict_get rows k = Some r" by (simp add: dict_simps)
    with sound show ?thesis by (auto simp: dict_simps)
  qed
  moreover have "k = k'"
    if r: "dict_get (dict_put i u rows) k = Some r" "dict_get (dict_put i u rows) k' = Some r'"
      and "rw_idempotency_key r = rw_idempotency_key r' \<or> same_message r r'" for k r k' r'
  proof (cases "k = i \<or> k' = i")
    case True
    with r that(3) fresh [of k r] fresh [of k' r'] show ?thesis
      by (cases "k = i"; cases "k' = i") (simp_all add: dict_simps same_message_sym [of r r'])
  next
    case False
    with r that(3) sound show ?thesis unfolding dict_get_put by (metis (no_types))
  qed
  ultimately show ?thesis unfolding rows_sound_def by blast
qed

lemma put_row_rows [simp]: "dp_rows (put_row u db) = dict_put (rw_announcement_id u) u (dp_rows db)"
  by (simp add: put_row_def)

lemma sources_rows [simp]: "dp_rows (ensure_source_exists k db) = dp_rows db" "dp_rows (ensure_sources a db) = dp_rows db"
  by (simp_all add: ensure_sources_def ensure_source_exists_def)

lemma audit_rows [simp]: "dp_rows (add_merge_row m db) = dp_rows db"
  by (simp add: add_merge_row_def)

lemma media_keep_rows [simp]: "dp_rows (snd (save_announcement_media k ms db)) = dp_rows db"
  by (induction k ms db rule: save_announcement_media.induct) simp_all

lemma save_media_rows: "save_announcement_media k ms db = (r, t) \<Longrightarrow> dp_rows t = dp_rows db"
  using media_keep_rows [of k ms db] by simp

text \<open>What each write does to the rows.\<close>

lemma insert_row_Inr:
  assumes "insert_row r db = (Inr x, t)"
  shows "x = r \<and> t = put_row r db \<and> dict_get (dp_rows db) (rw_announcement_id r) = None \<and>
    (\<forall>k y. dict_get (dp_rows db) k = Some y \<longrightarrow> rw_idempotency_key r \<noteq> rw_idempotency_key y \<and> \<not> same_message r y)"
  using assms dict_get_in_values [of "dp_rows db"]
  by (auto simp: insert_row_def table_rows_def list_ex_iff split: if_splits dest!: dict_get_in_values)

lemma insert_row_Inl: "insert_row r db = (Inl e, t) \<Longrightarrow> t = db"
  by (auto simp: insert_row_def split: if_splits)

lemma rows_sound_insert:
  assumes "rows_sound {} (dp_rows db)" and "insert_row r db = (Inr x, t)" and "row_allowed r" and "1 \<le> rw_source_count r"
    and "\<And>p. rw_parent_announcement_id r = Some p \<Longrightarrow> dict_get (dp_rows db) p \<noteq> None"
  shows "rows_sound (set_option (rw_parent_announcement_id r)) (dp_rows t)"
proof -
  note ins = insert_row_Inr [OF assms(2)]
  have "kids (rw_announcement_id r) (dp_rows db) = {}"
    using ins assms(1) by (force simp: kids_def rows_sound_def)
  with ins assms show ?thesis
    by (auto intro!: rows_sound_put [where E = "{}"])
qed

lemma rows_sound_mono: "rows_sound E rows \<Longrightarrow> E \<subseteq> E' \<Longrightarrow> rows_sound E' rows"
  unfolding rows_sound_def by blast

text \<open>A change that leaves the identity of a row and its parent as they are.\<close>

lemma rows_sound_update:
  assumes "rows_sound E rows" and "dict_get rows k = Some r" and "row_allowed u"
    and "rw_announcement_id u = rw_announcement_id r" "rw_idempotency_key u = rw_idempotency_key r" "rw_source_id u = rw_source_id r"
      "rw_source_channel_id u = rw_source_channel_id r" "rw_source_message_id u = rw_source_message_id r"
      "rw_parent_announcement_id u = rw_parent_announcement_id r"
    and "k \<in> E' \<or> 1 + int (card (kids k rows)) \<le> rw_source_count u" and "E - {k} \<subseteq> E'"
  shows "rows_sound E' (dict_put k u rows)"
proof (rule rows_sound_put [OF assms(1,3)])
  note sound = assms(1) [unfolded rows_sound_def]
  show "rw_announcement_id u = k" using keyed_by_getD [OF _ assms(2), of rw_announcement_id] sound assms(4) by simp
  show "dict_get rows p \<noteq> None \<and> (p \<in> E' \<or> k \<in> kids p rows)" if "rw_parent_announcement_id u = Some p" for p
    using that assms(2,9) sound by (auto simp: kids_def)
  show "rw_idempotency_key u \<noteq> rw_idempotency_key y \<and> \<not> same_message u y" if "dict_get rows i = Some y" "i \<noteq> k" for i y
  proof -
    have "rw_idempotency_key r \<noteq> rw_idempotency_key y \<and> \<not> same_message r y"
      using sound assms(2) that by blast
    with assms(5-8) show ?thesis by (simp add: same_message_def)
  qed
qed (use assms(10,11) in auto)

lemma sound_rowD:
  assumes "rows_sound E rows" "dict_get rows k = Some r"
  shows "row_allowed r" "rw_announcement_id r = k" "rw_parent_announcement_id r = Some p \<Longrightarrow> dict_get rows p \<noteq> None"
    "k \<notin> E \<Longrightarrow> 1 + int (card (kids k rows)) \<le> rw_source_count r"
  using assms keyed_by_getD [of rw_announcement_id rows k r] unfolding rows_sound_def by blast+

lemma sound_unique:
  "rows_sound E rows \<Longrightarrow> dict_get rows k = Some r \<Longrightarrow> dict_get rows k' = Some r' \<Longrightarrow>
   rw_idempotency_key r = rw_idempotency_key r' \<or> same_message r r' \<Longrightarrow> k = k'"
  unfolding rows_sound_def by blast

lemma put_canonical_fields [simp]:
  "rw_announcement_id (put_canonical c r) = rw_announcement_id r" "rw_idempotency_key (put_canonical c r) = rw_idempotency_key r"
  "rw_source_id (put_canonical c r) = rw_source_id r" "rw_source_channel_id (put_canonical c r) = rw_source_channel_id r"
  "rw_source_message_id (put_canonical c r) = rw_source_message_id r" "rw_source_message_ids (put_canonical c r) = rw_source_message_ids r"
  "rw_parent_announcement_id (put_canonical c r) = rw_parent_announcement_id r" "rw_status (put_canonical c r) = rw_status r"
  "rw_source_count (put_canonical c r) = rw_source_count r" "rw_latest_source_id (put_canonical c r) = rw_latest_source_id r"
  "rw_source_url (put_canonical c r) = rw_source_url r" "rw_forward_origin_key (put_canonical c r) = rw_forward_origin_key r"
  "rw_occurred_at (put_canonical c r) = rw_occurred_at r" "rw_created_at (put_canonical c r) = rw_created_at r"
  "rw_updated_at (put_canonical c r) = rw_updated_at r"
  by (simp_all add: put_canonical_def)

lemma announcement_row_fields [simp]:
  "rw_announcement_id (announcement_row_of a) = an_id a" "rw_parent_announcement_id (announcement_row_of a) = None"
  "rw_source_count (announcement_row_of a) = an_source_count a" "rw_status (announcement_row_of a) = an_status a"
  by (simp_all add: announcement_row_of_def)

lemma child_row_fields [simp]:
  "rw_announcement_id (child_row a pid) = an_id a" "rw_parent_announcement_id (child_row a pid) = Some pid"
  "rw_source_count (child_row a pid) = 1"
  by (simp_all add: child_row_def)

lemma save_parent_sound:
  assumes "dedup_db_ok db"
  shows "dedup_db_ok (snd (pg_save_parent a db))"
proof (cases "row_allowed (announcement_row_of a)")
  case True
  let ?r = "announcement_row_of a" and ?db = "ensure_sources a db"
  obtain x t where step: "(case find_first (same_message ?r) (table_rows ?db) of Some old \<Rightarrow> (Inr old, ?db) | None \<Rightarrow> insert_row ?r ?db) = (x, t)"
    by fastforce
  have "rows_sound {} (dp_rows t)"
  proof (cases x)
    case (Inl e)
    with step assms show ?thesis by (auto simp: dedup_db_ok_def split: option.splits dest: insert_row_Inl)
  next
    case (Inr p)
    show ?thesis
    proof (cases "find_first (same_message ?r) (table_rows ?db)")
      case None
      with step Inr have ins: "insert_row ?r ?db = (Inr p, t)" by simp
      have "1 \<le> rw_source_count ?r" using True by (simp add: row_allowed_def)
      with rows_sound_insert [OF _ ins True] assms show ?thesis by (simp add: dedup_db_ok_def)
    next
      case (Some old)
      with step assms show ?thesis by (auto simp: dedup_db_ok_def)
    qed
  qed
  then show ?thesis
    using True step by (auto simp: pg_save_parent_def Let_def dedup_db_ok_def then_do_def save_media_rows split: sum.split prod.split)
qed (use assms in \<open>simp add: pg_save_parent_def Let_def dedup_db_ok_def\<close>)

lemma activate_sound:
  assumes "dedup_db_ok db"
  shows "dedup_db_ok (snd (pg_activate_announcement now k db))"
proof (cases "dict_get (dp_rows db) k")
  case None
  with assms show ?thesis by (simp add: pg_activate_announcement_def)
next
  case (Some r)
  let ?u = "r\<lparr>rw_status := ActiveAnn, rw_updated_at := now\<rparr>"
  note r = sound_rowD [OF assms [unfolded dedup_db_ok_def] Some]
  have "rows_sound {} (dict_put k ?u (dp_rows db))"
    by (rule rows_sound_update [OF assms [unfolded dedup_db_ok_def] Some]) (use r in \<open>auto simp: row_allowed_def\<close>)
  with assms Some r show ?thesis by (auto simp: pg_activate_announcement_def dedup_db_ok_def Let_def)
qed

lemma update_canonical_sound:
  assumes "dedup_db_ok db"
  shows "dedup_db_ok (snd (pg_update_canonical now k c reason db))"
proof (cases "dict_get (dp_rows db) k")
  case None
  with assms show ?thesis by (simp add: pg_update_canonical_def)
next
  case (Some r)
  let ?u = "(put_canonical c r)\<lparr>rw_updated_at := now\<rparr>"
  note r = sound_rowD [OF assms [unfolded dedup_db_ok_def] Some]
  have "rows_sound {} (dict_put k ?u (dp_rows db))" if "row_allowed ?u"
    by (rule rows_sound_update [OF assms [unfolded dedup_db_ok_def] Some that]) (use r in auto)
  with assms Some r show ?thesis by (auto simp: pg_update_canonical_def dedup_db_ok_def Let_def)
qed

lemma upsert_child_sound:
  assumes "rows_sound {} (dp_rows db)" and "upsert_child child pid db = (Inr b, t)" and "dict_get (dp_rows db) pid \<noteq> None"
  shows "rows_sound {pid} (dp_rows t)"
proof -
  let ?r = "child_row child pid" and ?db = "ensure_sources child db"
  let ?u = "\<lambda>old. old\<lparr>rw_parent_announcement_id := Some pid, rw_status := ActiveAnn, rw_updated_at := an_created_at child\<rparr>"
  obtain u s where step: "(case dict_get (dp_rows ?db) (an_id child) of Some old \<Rightarrow> (Inr (?u old), put_row (?u old) ?db) | None \<Rightarrow> insert_row ?r ?db) = (Inr u, s)"
    and allowed: "row_allowed ?r" and t: "dp_rows t = dp_rows s"
    using assms(2) unfolding upsert_child_def Let_def
    by (auto dest!: save_media_rows split: if_splits elim!: then_do_InrE)
  show ?thesis
  proof (cases "dict_get (dp_rows db) (an_id child)")
    case None
    then have ins: "insert_row ?r ?db = (Inr u, s)" using step by simp
    have "1 \<le> rw_source_count ?r" by simp
    with rows_sound_insert [OF _ ins allowed] assms(1,3) t show ?thesis by simp
  next
    case (Some old)
    note o = sound_rowD [OF assms(1) Some]
    have s: "dp_rows s = dict_put (an_id child) (?u old) (dp_rows db)" using step Some o(2) by auto
    have no_self: "pid \<noteq> an_id child" using allowed by (simp add: row_allowed_def)
    have "rows_sound {pid} (dict_put (an_id child) (?u old) (dp_rows db))"
    proof (rule rows_sound_put [OF assms(1)])
      show "row_allowed (?u old)" using o(1,2) no_self by (simp add: row_allowed_def)
      show "rw_idempotency_key (?u old) \<noteq> rw_idempotency_key y \<and> \<not> same_message (?u old) y"
        if "dict_get (dp_rows db) i = Some y" "i \<noteq> an_id child" for i y
      proof -
        have "same_message (?u old) y = same_message old y" by (simp add: same_message_def)
        with sound_unique [OF assms(1) Some that(1)] that(2) show ?thesis by auto
      qed
    qed (use assms(3) o in auto)
    with s t show ?thesis by simp
  qed
qed

lemma aggregate_sound:
  assumes "rows_sound {pid} (dp_rows db)" and "update_parent_aggregate now m latest db = (Inr x, t)" and "an_id m = pid"
    and "dict_get (dp_rows db) pid = Some p"
  shows "rows_sound {} (dp_rows t) \<and>
    (\<exists>u. dp_rows t = dict_put pid u (dp_rows db) \<and>
       u = (put_canonical (an_canonical m) p)\<lparr>rw_source_count := 1 + int (card (kids pid (dp_rows db))),
         rw_latest_source_id := Some latest, rw_updated_at := now\<rparr>)"
proof -
  note p = sound_rowD [OF assms(1,4)]
  let ?u = "(put_canonical (an_canonical m) p)\<lparr>rw_source_count := 1 + int (card (kids pid (dp_rows db))),
         rw_latest_source_id := Some latest, rw_updated_at := now\<rparr>"
  have "max 1 (int (length (family pid (table_rows (ensure_source_exists latest db))))) = 1 + int (card (kids pid (dp_rows db)))"
    using length_family [OF assms(1,4)] by (simp add: table_rows_def)
  then have allowed: "row_allowed ?u" and t: "dp_rows t = dict_put pid ?u (dp_rows db)"
    using assms(2-4) p(2) by (auto simp: update_parent_aggregate_def Let_def split: if_splits)
  have "rows_sound {} (dict_put pid ?u (dp_rows db))"
    by (rule rows_sound_update [OF assms(1,4) allowed]) auto
  with t show ?thesis by simp
qed

text \<open>A link that is not there yet changes two rows: the child's and then the parent's.\<close>

lemma link_child_Inr:
  assumes "dedup_db_ok db" and "pg_link_child now child pid policy db = (Inr b, t)" and "linked_already child pid db = None"
  shows "\<exists>p db1 u. dict_get (dp_rows db) pid = Some p \<and> upsert_child child pid db = (Inr b, db1) \<and> dict_get (dp_rows db1) pid = Some p \<and>
    dp_rows t = dict_put pid u (dp_rows db1) \<and> rows_sound {} (dp_rows t) \<and>
    u = (put_canonical (merged_listing (canonical_of_row p) (an_canonical child)) p)
      \<lparr>rw_source_count := 1 + int (card (kids pid (dp_rows db1))), rw_latest_source_id := Some (an_source_id child), rw_updated_at := now\<rparr>"
proof -
  obtain p where p: "dict_get (dp_rows db) pid = Some p"
    using assms(2) by (auto simp: pg_link_child_def split: option.splits)
  let ?p = "pg_announcement_of_row [] p"
  let ?m = "?p\<lparr>an_canonical := merged_listing (canonical_of_row p) (an_canonical child)\<rparr>"
  have canon: "an_canonical ?p = canonical_of_row p" "an_id ?m = rw_announcement_id p"
    by (simp_all add: pg_announcement_of_row_def announcement_of_row_def)
  note sound = assms(1) [unfolded dedup_db_ok_def]
  have id: "rw_announcement_id p = pid" using sound_rowD(2) [OF sound p] .
  obtain db1 db2 where up: "upsert_child child pid db = (Inr b, db1)"
    and agg: "update_parent_aggregate now ?m (an_source_id child) db1 = (Inr (), db2)" and t: "dp_rows t = dp_rows db2"
    using assms(2,3) p unfolding pg_link_child_def in_transaction_def
    by (auto simp: merge_parent_fields_eq canon split: prod.splits sum.splits elim!: then_do_InrE)
  have s1: "rows_sound {pid} (dp_rows db1)" by (rule upsert_child_sound [OF sound up]) (simp add: p)
  have "pid \<noteq> an_id child" using up by (auto simp: upsert_child_def Let_def row_allowed_def split: if_splits)
  then have p1: "dict_get (dp_rows db1) pid = Some p"
    using up p unfolding upsert_child_def Let_def
    by (auto dest!: save_media_rows insert_row_Inr simp: dict_simps dest: sound_rowD(2) [OF sound] split: if_splits option.splits elim!: then_do_InrE)
  from aggregate_sound [OF s1 agg _ p1] id t p up p1 show ?thesis by (auto simp: canon)
qed

lemma link_child_Inl: "pg_link_child now child pid policy db = (Inl e, t) \<Longrightarrow> t = db"
  by (auto simp: pg_link_child_def in_transaction_def split: option.splits sum.splits prod.splits)

lemma link_child_sound:
  assumes "dedup_db_ok db"
  shows "dedup_db_ok (snd (pg_link_child now child pid policy db))"
proof (cases "pg_link_child now child pid policy db")
  case (Pair x t)
  show ?thesis
  proof (cases x)
    case (Inl e)
    with Pair link_child_Inl assms show ?thesis by fastforce
  next
    case (Inr b)
    show ?thesis
    proof (cases "linked_already child pid db")
      case None
      from link_child_Inr [OF assms _ this] Pair Inr show ?thesis by (auto simp: dedup_db_ok_def)
    next
      case (Some old)
      then show ?thesis using Pair assms by (auto simp: pg_link_child_def split: option.splits)
    qed
  qed
qed

section \<open>Runs\<close>

datatype dedup_action =
    SaveParent announcement
  | LinkChild time announcement string string
  | ActivateAnnouncement time string
  | UpdateCanonical time string canonical_listing string

fun dedup_action_step :: "dedup_action \<Rightarrow> dedup_db \<Rightarrow> dedup_db" where
  "dedup_action_step (SaveParent a) db = snd (pg_save_parent a db)"
| "dedup_action_step (LinkChild now child pid policy) db = snd (pg_link_child now child pid policy db)"
| "dedup_action_step (ActivateAnnouncement now k) db = snd (pg_activate_announcement now k db)"
| "dedup_action_step (UpdateCanonical now k c reason) db = snd (pg_update_canonical now k c reason db)"

definition empty_dedup_db :: dedup_db where
  "empty_dedup_db = \<lparr>dp_rows = [], dp_media = [], dp_sources = [], dp_merge_audit = [], dp_decisions = [], dp_reviews = []\<rparr>"

lemma dedup_run_sound: "dedup_db_ok db \<Longrightarrow> dedup_db_ok (fold dedup_action_step as db)"
proof (induction as arbitrary: db)
  case (Cons a as)
  have "dedup_db_ok (dedup_action_step a db)"
    using Cons.prems by (cases a) (simp_all add: save_parent_sound link_child_sound activate_sound update_canonical_sound)
  then show ?case by (simp add: Cons.IH)
qed simp

lemma empty_dedup_db_ok: "dedup_db_ok empty_dedup_db"
  by (simp add: dedup_db_ok_def rows_sound_def empty_dedup_db_def)

lemmas dedup_tables_sound_run = dedup_run_sound [OF empty_dedup_db_ok]

text \<open>
  C38. Whatever is saved, linked, activated and corrected, in whatever order and with whatever refused: in every table that arises
  the rows stand under their identifiers and pass the checks, parents are stored, no two rows have one idempotency key or one
  source message, and a row counts at least itself and its children.
\<close>

theorem dedup_tables_sound: "dedup_db_ok (fold dedup_action_step as empty_dedup_db)"
  by (rule dedup_tables_sound_run)

section \<open>The repository in memory\<close>

text \<open>
  What the tables keep of an announcement: numbers at the precision of their columns, the message among the messages, a latest
  source, and neither the kind of listing, the trust in the source, the reason for a review nor, here, images and time of change.
\<close>

definition stored_listing :: "canonical_listing \<Rightarrow> canonical_listing" where
  "stored_listing c =
     c\<lparr>cl_schema_version := ''estateflow.announcement.v1'',
       cl_prompt_version := (if cl_prompt_version c = [] then ''estateflow.listing.v1'' else cl_prompt_version c),
       cl_price := map_option (numeric_column 2) (cl_price c),
       cl_price_normalized_monthly := map_option (numeric_column 2) (cl_price_normalized_monthly c), cl_listing_type := None,
       cl_area_sqm := map_option (numeric_column 2) (cl_area_sqm c), cl_confidence := numeric_column 3 (cl_confidence c)\<rparr>"

definition stored_form :: "announcement \<Rightarrow> announcement" where
  "stored_form a =
     a\<lparr>an_canonical := stored_listing (an_canonical a), an_media := [],
       an_source_message_ids := (if an_source_message_ids a = [] then [an_source_message_id a] else an_source_message_ids a),
       an_trusted_source_score := 0,
       an_latest_source_id := (if truthy (an_latest_source_id a) then an_latest_source_id a else Some (an_source_id a)),
       an_review_reason := None, an_updated_at := 0\<rparr>"

definition row_form :: "announcement_row \<Rightarrow> announcement" where
  "row_form r = (pg_announcement_of_row [] r)\<lparr>an_updated_at := 0\<rparr>"

definition same_announcements :: "dedup_db \<Rightarrow> post_ai \<Rightarrow> bool" where
  "same_announcements db s \<longleftrightarrow>
     (\<forall>k. map_option row_form (dict_get (dp_rows db) k) = map_option stored_form (dict_get (announcements s) k))"

lemma numeric_column_again [simp]: "numeric_column d (numeric_column d x) = numeric_column d x"
proof -
  define m where "m = (if x < 0 then - \<lfloor>- x * 10 ^ d + 1 / 2\<rfloor> else \<lfloor>x * 10 ^ d + 1 / 2\<rfloor>)"
  have x: "numeric_column d x = of_int m / 10 ^ d" by (simp add: numeric_column_def m_def)
  have half: "\<lfloor>of_int n + 1 / 2 :: rat\<rfloor> = n" for n :: int by (rule floor_unique) simp_all
  have "- (of_int m / 10 ^ d) * 10 ^ d + 1 / 2 = (of_int (- m) + 1 / 2 :: rat)" by simp
  then have "\<lfloor>- (of_int m / 10 ^ d) * 10 ^ d + 1 / 2 :: rat\<rfloor> = - m" using half [of "- m"] by simp
  moreover have "\<lfloor>of_int m / 10 ^ d * 10 ^ d + 1 / 2 :: rat\<rfloor> = m" using half [of m] by simp
  ultimately show ?thesis unfolding x by (simp add: numeric_column_def)
qed

lemma numeric_option_again [simp]: "map_option (numeric_column d) (map_option (numeric_column d) x) = map_option (numeric_column d) x"
  by (cases x) simp_all

lemma canonical_of_put [simp]: "canonical_of_row (put_canonical c r) = stored_listing c"
  by (cases c) (simp add: canonical_of_row_def put_canonical_def stored_listing_def)

lemma canonical_of_update [simp]:
  "canonical_of_row (r\<lparr>rw_parent_announcement_id := p\<rparr>) = canonical_of_row r" "canonical_of_row (r\<lparr>rw_status := st\<rparr>) = canonical_of_row r"
  "canonical_of_row (r\<lparr>rw_source_count := n\<rparr>) = canonical_of_row r" "canonical_of_row (r\<lparr>rw_latest_source_id := l\<rparr>) = canonical_of_row r"
  "canonical_of_row (r\<lparr>rw_updated_at := t\<rparr>) = canonical_of_row r"
  by (simp_all add: canonical_of_row_def)

lemma canonical_of_announcement [simp]: "canonical_of_row (announcement_row_of a) = stored_listing (an_canonical a)"
  by (simp add: announcement_row_of_def)

lemma stored_listing_again [simp]: "stored_listing (stored_listing c) = stored_listing c"
  by (simp add: stored_listing_def)

lemma map_fill_opt: "map_option f (fill_opt p c) = fill_opt (map_option f p) (map_option f c)"
  by (cases p) (simp_all add: fill_opt_def)

lemma fill_opt_None [simp]: "fill_opt None None = None"
  by (simp add: fill_opt_def)

text \<open>Merging what the table has of the parent and merging the parent give the same columns.\<close>

lemma stored_merge:
  assumes "cl_prompt_version p \<noteq> []"
  shows "stored_listing (merged_listing (stored_listing p) c) = stored_listing (merged_listing p c)"
  using assms by (simp add: stored_listing_def merged_listing_def map_fill_opt fill_list_def)

lemma row_form_row [simp]: "row_form (announcement_row_of a) = (stored_form a)\<lparr>an_parent_id := None\<rparr>"
  by (cases a) (simp add: row_form_def pg_announcement_of_row_def announcement_of_row_def stored_form_def, simp add: announcement_row_of_def put_canonical_def)

lemma stored_merge_child:
  assumes "cl_prompt_version p \<noteq> []"
  shows "stored_listing (merged_listing p (stored_listing c)) = stored_listing (merged_listing p c)"
  using assms by (simp add: stored_listing_def merged_listing_def map_fill_opt fill_list_def)

lemma row_form_put:
  "row_form (put_canonical c r) = (row_form r)\<lparr>an_canonical := stored_listing c\<rparr>"
  "row_form (r\<lparr>rw_parent_announcement_id := p\<rparr>) = (row_form r)\<lparr>an_parent_id := p\<rparr>"
  "row_form (r\<lparr>rw_status := st\<rparr>) = (row_form r)\<lparr>an_status := st\<rparr>"
  "row_form (r\<lparr>rw_source_count := n\<rparr>) = (row_form r)\<lparr>an_source_count := n\<rparr>"
  "row_form (r\<lparr>rw_latest_source_id := l\<rparr>) = (row_form r)\<lparr>an_latest_source_id := l\<rparr>"
  "row_form (r\<lparr>rw_updated_at := t\<rparr>) = row_form r"
  by (simp_all add: row_form_def pg_announcement_of_row_def announcement_of_row_def)

lemma row_form_media: "(pg_announcement_of_row ms r)\<lparr>an_media := [], an_updated_at := 0\<rparr> = row_form r"
  by (simp add: row_form_def pg_announcement_of_row_def announcement_of_row_def)

lemma row_form_fields [simp]:
  "an_id (row_form r) = rw_announcement_id r" "an_parent_id (row_form r) = rw_parent_announcement_id r"
  "an_source_count (row_form r) = rw_source_count r" "an_canonical (row_form r) = canonical_of_row r"
  by (simp_all add: row_form_def pg_announcement_of_row_def announcement_of_row_def)

lemma stored_form_fields [simp]:
  "an_id (stored_form a) = an_id a" "an_parent_id (stored_form a) = an_parent_id a"
  "an_source_count (stored_form a) = an_source_count a" "an_canonical (stored_form a) = stored_listing (an_canonical a)"
  "an_source_id (stored_form a) = an_source_id a" "an_created_at (stored_form a) = an_created_at a"
  by (simp_all add: stored_form_def)

lemma same_announcementsD:
  assumes "same_announcements db s"
  shows "dict_get (announcements s) k = None \<longleftrightarrow> dict_get (dp_rows db) k = None"
    and "dict_get (dp_rows db) k = Some r \<Longrightarrow> \<exists>a. dict_get (announcements s) k = Some a \<and> stored_form a = row_form r"
proof -
  have eq: "map_option row_form (dict_get (dp_rows db) k) = map_option stored_form (dict_get (announcements s) k)"
    using assms by (simp add: same_announcements_def)
  then show "dict_get (announcements s) k = None \<longleftrightarrow> dict_get (dp_rows db) k = None" by (metis option.map_disc_iff)
  assume "dict_get (dp_rows db) k = Some r"
  with eq show "\<exists>a. dict_get (announcements s) k = Some a \<and> stored_form a = row_form r"
    by (cases "dict_get (announcements s) k") auto
qed

lemma same_announcements_put:
  assumes "same_announcements db s" and "row_form r = stored_form a"
    and "dp_rows t = dict_put k r (dp_rows db)" and "announcements u = dict_put k a (announcements s)"
  shows "same_announcements t u"
  using assms by (simp add: same_announcements_def dict_simps)

text \<open>
  Saving a parent in the tables is saving it in memory, where no other announcement has its source message: the same
  announcements are stored afterwards, and the same one is returned.
\<close>

theorem save_parent_refines:
  assumes "dedup_db_ok db" and "same_announcements db s" and "an_latest_source_id a \<in> {None, Some (an_source_id a)}"
    and only: "\<And>r. r \<in> set (table_rows db) \<Longrightarrow> same_message (announcement_row_of a) r \<Longrightarrow> rw_announcement_id r = an_id a"
    and run: "pg_save_parent a db = (Inr b, t)"
  shows "same_announcements t (snd (save_parent a s)) \<and> stored_form (fst (save_parent a s)) = b\<lparr>an_media := [], an_updated_at := 0\<rparr>"
proof -
  let ?r = "announcement_row_of a" and ?db = "ensure_sources a db"
  obtain p db2 where step: "(case find_first (same_message ?r) (table_rows ?db) of Some old \<Rightarrow> (Inr old, ?db) | None \<Rightarrow> insert_row ?r ?db) = (Inr p, db2)"
    and b: "b = pg_announcement_of_row (an_media a) p" and t: "dp_rows t = dp_rows db2"
    using run unfolding pg_save_parent_def Let_def by (auto dest!: save_media_rows split: if_splits elim!: then_do_InrE)
  have form: "b\<lparr>an_media := [], an_updated_at := 0\<rparr> = row_form p" unfolding b by (rule row_form_media)
  show ?thesis
  proof (cases "find_first (same_message ?r) (table_rows ?db)")
    case None
    then have ins: "insert_row ?r ?db = (Inr p, db2)" using step by simp
    have p: "p = ?r" and rows: "dp_rows db2 = dict_put (an_id a) ?r (dp_rows db)" and "dict_get (dp_rows db) (an_id a) = None"
      using insert_row_Inr [OF ins] by auto
    then have "dict_get (announcements s) (an_id a) = None" using same_announcementsD(1) [OF assms(2)] by simp
    then have save: "save_parent a s = (a\<lparr>an_parent_id := None, an_latest_source_id := Some (an_source_id a)\<rparr>,
        s\<lparr>announcements := dict_put (an_id a) (a\<lparr>an_parent_id := None, an_latest_source_id := Some (an_source_id a)\<rparr>) (announcements s)\<rparr>)"
      by (rule save_parent_fresh)
    have same: "row_form ?r = stored_form (a\<lparr>an_parent_id := None, an_latest_source_id := Some (an_source_id a)\<rparr>)"
      using assms(3) by (auto simp: stored_form_def truthy_def)
    show ?thesis unfolding form p save prod.sel
      using same_announcements_put [OF assms(2) same, of t "an_id a"] rows t same by simp
  next
    case (Some old)
    with step have p: "p = old" and db2: "db2 = ?db" by simp_all
    have "old \<in> set (table_rows ?db) \<and> same_message ?r old" using Some by (rule find_first_SomeD)
    then have "old \<in> set (table_rows db)" "same_message ?r old" by (simp_all add: table_rows_def)
    then have id: "rw_announcement_id old = an_id a" by (rule only)
    have "keyed_by rw_announcement_id (dp_rows db)" using assms(1) unfolding dedup_db_ok_def rows_sound_def by blast
    then have "dict_get (dp_rows db) (an_id a) = Some old"
      using keyed_by_values [of rw_announcement_id "dp_rows db" old] \<open>old \<in> set (table_rows db)\<close> id by (simp only: table_rows_def)
    then obtain a' where a': "dict_get (announcements s) (an_id a) = Some a'" "stored_form a' = row_form old"
      using same_announcementsD(2) [OF assms(2)] by blast
    then show ?thesis unfolding form p
      using assms(2) t db2 by (simp add: save_parent_def same_announcements_def)
  qed
qed

lemma linked_already_None:
  "linked_already child pid db = None \<longleftrightarrow> (\<forall>r. dict_get (dp_rows db) (an_id child) = Some r \<longrightarrow> rw_parent_announcement_id r \<noteq> Some pid)"
  by (simp add: linked_already_def split: option.split)

text \<open>The row of a child after it was linked, whether it was stored before or not.\<close>

lemma upserted_form:
  assumes sound: "rows_sound {} (dp_rows db)" and run: "upsert_child child pid db = (Inr b, t)"
    and stored: "\<And>r. dict_get (dp_rows db) (an_id child) = Some r \<Longrightarrow> row_form r = stored_form child"
    and new: "dict_get (dp_rows db) (an_id child) = None \<Longrightarrow> an_source_count child = 1 \<and> an_latest_source_id child \<in> {None, Some (an_source_id child)}"
  shows "\<exists>u. dp_rows t = dict_put (an_id child) u (dp_rows db) \<and> rw_parent_announcement_id u = Some pid \<and> pid \<noteq> an_id child \<and>
    row_form u = (stored_form child)\<lparr>an_parent_id := Some pid, an_status := ActiveAnn\<rparr> \<and> b\<lparr>an_media := [], an_updated_at := 0\<rparr> = row_form u"
proof -
  let ?r = "child_row child pid" and ?db = "ensure_sources child db"
  let ?u = "\<lambda>old. old\<lparr>rw_parent_announcement_id := Some pid, rw_status := ActiveAnn, rw_updated_at := an_created_at child\<rparr>"
  obtain u s where step: "(case dict_get (dp_rows ?db) (an_id child) of Some old \<Rightarrow> (Inr (?u old), put_row (?u old) ?db) | None \<Rightarrow> insert_row ?r ?db) = (Inr u, s)"
    and allowed: "row_allowed ?r" and t: "dp_rows t = dp_rows s" and b: "b = pg_announcement_of_row (an_media child) u"
    using run unfolding upsert_child_def Let_def
    by (auto dest!: save_media_rows split: if_splits elim!: then_do_InrE)
  have no_self: "pid \<noteq> an_id child" using allowed by (simp add: row_allowed_def)
  have form: "b\<lparr>an_media := [], an_updated_at := 0\<rparr> = row_form u" unfolding b by (rule row_form_media)
  show ?thesis
  proof (cases "dict_get (dp_rows db) (an_id child)")
    case None
    then have ins: "insert_row ?r ?db = (Inr u, s)" using step by simp
    have u: "u = ?r" "dp_rows s = dict_put (an_id child) ?r (dp_rows db)" using insert_row_Inr [OF ins] by auto
    have "row_form ?r = (stored_form child)\<lparr>an_parent_id := Some pid, an_status := ActiveAnn\<rparr>"
      using new [OF None] unfolding child_row_def row_form_put row_form_row by (auto simp: stored_form_def truthy_def)
    with u t form no_self show ?thesis by auto
  next
    case (Some old)
    have u: "u = ?u old" "dp_rows s = dict_put (an_id child) (?u old) (dp_rows db)"
      using step Some sound_rowD(2) [OF sound Some] by auto
    moreover have "row_form (?u old) = (stored_form child)\<lparr>an_parent_id := Some pid, an_status := ActiveAnn\<rparr>"
      unfolding row_form_put stored [OF Some] by simp
    ultimately show ?thesis using t form no_self by auto
  qed
qed

text \<open>The pieces of a link: what is linked already, the parent's row and the run in memory.\<close>

lemma linked_already_memory:
  assumes "same_announcements db s"
  shows "linked_already child pid db = None \<longleftrightarrow> (\<forall>c. dict_get (announcements s) (an_id child) = Some c \<longrightarrow> an_parent_id c \<noteq> Some pid)"
proof (cases "dict_get (dp_rows db) (an_id child)")
  case None
  moreover have "dict_get (announcements s) (an_id child) = None" using None same_announcementsD(1) [OF assms, of "an_id child"] by simp
  ultimately show ?thesis by (simp add: linked_already_None)
next
  case (Some r)
  obtain c where c: "dict_get (announcements s) (an_id child) = Some c" "stored_form c = row_form r"
    using same_announcementsD(2) [OF assms Some] by blast
  have "an_parent_id c = rw_parent_announcement_id r" using arg_cong [OF c(2), of an_parent_id] by simp
  with Some c(1) show ?thesis by (simp add: linked_already_None)
qed

definition parent_after_link :: "time \<Rightarrow> announcement \<Rightarrow> announcement \<Rightarrow> announcement" where
  "parent_after_link now p child =
     p\<lparr>an_canonical := merged_listing (an_canonical p) (an_canonical child), an_source_count := an_source_count p + 1,
       an_latest_source_id := Some (an_source_id child), an_updated_at := now\<rparr>"

definition child_after_link :: "time \<Rightarrow> string \<Rightarrow> announcement \<Rightarrow> announcement" where
  "child_after_link now pid child = child\<lparr>an_parent_id := Some pid, an_status := ActiveAnn, an_updated_at := now\<rparr>"

lemma link_child_memory:
  assumes "dict_get (announcements s) pid = Some q" "an_id q = pid"
    and "\<And>c. dict_get (announcements s) (an_id child) = Some c \<Longrightarrow> an_parent_id c \<noteq> Some pid"
  shows "\<exists>u. link_child now child pid d policy s = (Inr (child_after_link now pid child), u) \<and>
    announcements u = dict_put (an_id child) (child_after_link now pid child) (dict_put pid (parent_after_link now q child) (announcements s))"
  using assms
  by (cases "dict_get (announcements s) (an_id child)")
    (auto simp: link_child_def merge_parent_fields_eq Let_def child_after_link_def parent_after_link_def)

lemma parent_form:
  assumes pq: "stored_form q = row_form p" and "cl_prompt_version (an_canonical q) \<noteq> []"
    and child: "stored_form child = stored_form child'" "an_source_id child \<noteq> []" and n: "n = rw_source_count p + 1"
  shows "row_form ((put_canonical (merged_listing (canonical_of_row p) (an_canonical child)) p)
      \<lparr>rw_source_count := n, rw_latest_source_id := Some (an_source_id child), rw_updated_at := now\<rparr>) = stored_form (parent_after_link now' q child')"
proof -
  have "canonical_of_row p = stored_listing (an_canonical q)" using arg_cong [OF pq, of an_canonical] by simp
  moreover have "stored_listing (an_canonical child) = stored_listing (an_canonical child')" using arg_cong [OF child(1), of an_canonical] by simp
  ultimately have listing: "stored_listing (merged_listing (canonical_of_row p) (an_canonical child)) =
      stored_listing (merged_listing (an_canonical q) (an_canonical child'))"
    using stored_merge stored_merge_child assms(2) by metis
  have "an_source_id child = an_source_id child'" using arg_cong [OF child(1), of an_source_id] by simp
  then show ?thesis
    unfolding row_form_put pq [symmetric] listing using n child(2) arg_cong [OF pq, of an_source_count]
    by (simp add: stored_form_def truthy_def parent_after_link_def)
qed

lemma kids_after_link:
  assumes "linked_already child pid db = None" and "dp_rows db1 = dict_put (an_id child) u (dp_rows db)"
    and "rw_parent_announcement_id u = Some pid"
  shows "card (kids pid (dp_rows db1)) = Suc (card (kids pid (dp_rows db)))"
proof -
  have "an_id child \<notin> kids pid (dp_rows db)" using assms(1) by (auto simp: kids_def linked_already_None)
  then show ?thesis using assms(2,3) by (simp add: kids_put)
qed

lemma link_again:
  assumes "same_announcements db s" and "linked_already child pid db = Some old" and "dict_get (dp_rows db) pid = Some p"
    and "an_id child = an_id child'" and "pg_link_child now child pid policy db = (Inr b, t)"
  shows "\<exists>c. link_child now child' pid d policy s = (Inr c, s) \<and> t = db \<and> stored_form c = b\<lparr>an_media := [], an_updated_at := 0\<rparr>"
proof -
  have old: "dict_get (dp_rows db) (an_id child) = Some old" "rw_parent_announcement_id old = Some pid"
    using assms(2) by (auto simp: linked_already_def split: option.splits if_splits)
  obtain c where c: "dict_get (announcements s) (an_id child) = Some c" "stored_form c = row_form old"
    using same_announcementsD(2) [OF assms(1) old(1)] by blast
  obtain q where "dict_get (announcements s) pid = Some q" using same_announcementsD(2) [OF assms(1,3)] by blast
  moreover have "an_parent_id c = Some pid" using arg_cong [OF c(2), of an_parent_id] old(2) by simp
  moreover have "b = pg_announcement_of_row [] old" "t = db" using assms(2,3,5) by (simp_all add: pg_link_child_def)
  ultimately show ?thesis using c assms(4) by (simp add: link_child_def row_form_media)
qed

text \<open>
  C39. Linking a child in the tables is linking it in memory, where the parent counts its family and a child that is not stored
  yet counts itself: the same announcements are stored afterwards, the same child is returned, and the parent counts its family
  again. The child may be the announcement as it was read from either repository.
\<close>

theorem link_child_refines:
  assumes "dedup_db_ok db" and same: "same_announcements db s"
    and counted: "\<And>p. dict_get (dp_rows db) pid = Some p \<Longrightarrow> rw_source_count p = 1 + int (card (kids pid (dp_rows db)))"
    and versioned: "\<And>p. dict_get (announcements s) pid = Some p \<Longrightarrow> cl_prompt_version (an_canonical p) \<noteq> []"
    and child: "stored_form child = stored_form child'" "an_source_id child \<noteq> []"
    and stored: "\<And>c. dict_get (announcements s) (an_id child) = Some c \<Longrightarrow> an_parent_id c \<noteq> Some pid \<Longrightarrow> stored_form c = stored_form child"
    and new: "dict_get (announcements s) (an_id child) = None \<Longrightarrow> an_source_count child = 1 \<and> an_latest_source_id child \<in> {None, Some (an_source_id child)}"
    and run: "pg_link_child now child pid policy db = (Inr b, t)"
  shows "\<exists>b' u. link_child now child' pid d policy s = (Inr b', u) \<and> same_announcements t u \<and>
    stored_form b' = b\<lparr>an_media := [], an_updated_at := 0\<rparr> \<and>
    (\<forall>p. dict_get (dp_rows t) pid = Some p \<longrightarrow> rw_source_count p = 1 + int (card (kids pid (dp_rows t))))"
proof -
  note sound = assms(1) [unfolded dedup_db_ok_def]
  obtain p where p: "dict_get (dp_rows db) pid = Some p"
    using run by (auto simp: pg_link_child_def split: option.splits)
  obtain q where q: "dict_get (announcements s) pid = Some q" and pq: "stored_form q = row_form p"
    using same_announcementsD(2) [OF same p] by blast
  have id: "an_id child = an_id child'" using arg_cong [OF child(1), of an_id] by simp
  have pid: "rw_announcement_id p = pid" using sound_rowD(2) [OF sound p] .
  have "an_id q = pid" using arg_cong [OF pq, of an_id] pid by simp
  show ?thesis
  proof (cases "linked_already child pid db")
    case (Some old)
    with link_again [OF same Some p id run] same counted show ?thesis by blast
  next
    case None
    note unlinked = None [unfolded linked_already_memory [OF same]]
    from link_child_Inr [OF assms(1) run None] p obtain db1 v
      where up: "upsert_child child pid db = (Inr b, db1)" and t: "dp_rows t = dict_put pid v (dp_rows db1)"
        and v: "v = (put_canonical (merged_listing (canonical_of_row p) (an_canonical child)) p)
          \<lparr>rw_source_count := 1 + int (card (kids pid (dp_rows db1))), rw_latest_source_id := Some (an_source_id child), rw_updated_at := now\<rparr>"
        and p1: "dict_get (dp_rows db1) pid = Some p" by auto
    have "row_form r = stored_form child" if r: "dict_get (dp_rows db) (an_id child) = Some r" for r
      using same_announcementsD(2) [OF same r] stored unlinked by metis
    from upserted_form [OF sound up this] new same_announcementsD(1) [OF same, of "an_id child"]
    obtain u where u: "dp_rows db1 = dict_put (an_id child) u (dp_rows db)" "rw_parent_announcement_id u = Some pid" "pid \<noteq> an_id child"
      "row_form u = (stored_form child)\<lparr>an_parent_id := Some pid, an_status := ActiveAnn\<rparr>" "b\<lparr>an_media := [], an_updated_at := 0\<rparr> = row_form u"
      by auto
    have fv: "row_form v = stored_form (parent_after_link now q child')"
      unfolding v by (rule parent_form [OF pq versioned [OF q] child]) (use counted [OF p] kids_after_link [OF None u(1,2)] in simp)
    have fu: "row_form u = stored_form (child_after_link now pid child')"
      unfolding u(4) child(1) by (simp add: stored_form_def child_after_link_def)
    from link_child_memory [OF q \<open>an_id q = pid\<close>, of child' now d policy] unlinked id obtain w
      where w: "link_child now child' pid d policy s = (Inr (child_after_link now pid child'), w)"
        "announcements w = dict_put (an_id child) (child_after_link now pid child') (dict_put pid (parent_after_link now q child') (announcements s))"
      by auto
    have "same_announcements t w"
      using same u(3) t u(1) w(2) fu fv by (simp add: same_announcements_def dict_simps)
    moreover have "kids pid (dp_rows t) = kids pid (dp_rows db1)"
      using t v sound_rowD(1) [OF sound p] pid p1 by (auto simp: kids_def dict_simps row_allowed_def)
    ultimately show ?thesis using w(1) u(5) fu t v by (auto simp: dict_simps)
  qed
qed

section \<open>Which announcements become candidates\<close>

text \<open>What the query asks of an announcement and its images.\<close>

definition shares_field :: "announcement \<Rightarrow> announcement \<Rightarrow> bool" where
  "shares_field a c \<longleftrightarrow>
     (an_source_url a \<noteq> None \<and> an_source_url c = an_source_url a) \<or>
     (an_forward_origin_key a \<noteq> None \<and> an_forward_origin_key c = an_forward_origin_key a) \<or>
     (cl_district (an_canonical a) \<noteq> None \<and> cl_district (an_canonical c) = cl_district (an_canonical a)) \<or>
     (cl_rooms (an_canonical a) \<noteq> None \<and> cl_rooms (an_canonical c) = cl_rooms (an_canonical a))"

definition close_numbers :: "scoring_config \<Rightarrow> announcement \<Rightarrow> announcement \<Rightarrow> bool" where
  "close_numbers cfg a c \<longleftrightarrow>
     (\<exists>v x. cl_area_sqm (an_canonical a) = Some v \<and> cl_area_sqm (an_canonical c) = Some x \<and> \<bar>x - v\<bar> \<le> area_tolerance_sqm cfg) \<or>
     (\<exists>v x u. comparable_price (an_canonical a) = Some v \<and> cl_price_normalized_monthly (an_canonical c) = Some x \<and>
        cl_price_period (an_canonical c) = cl_price_period (an_canonical a) \<and>
        cl_price_basis (an_canonical c) = cl_price_basis (an_canonical a) \<and>
        cl_currency (an_canonical a) = Some u \<and> cl_currency (an_canonical c) = Some u \<and>
        v * (1 - price_tolerance_ratio cfg) \<le> x \<and> x \<le> v * (1 + price_tolerance_ratio cfg))"

definition equal_image :: "announcement \<Rightarrow> announcement \<Rightarrow> bool" where
  "equal_image a c \<longleftrightarrow> set (map sm_phash (an_media a)) \<inter> set (map sm_phash (an_media c)) \<noteq> {}"

lemma sql_any_true [simp]: "sql_any bs = Some True \<longleftrightarrow> (\<exists>b \<in> set bs. b = Some True)"
  by (induction bs) (auto simp: sql_any_def)

lemma sql_all_true [simp]: "sql_all bs = Some True \<longleftrightarrow> (\<forall>b \<in> set bs. b = Some True)"
  by (induction bs) (auto simp: sql_all_def sql_and_def)

lemma with_param_true [simp]: "with_param p cond = Some True \<longleftrightarrow> (\<exists>v. p = Some v \<and> cond v = Some True)"
  by (cases p) (simp_all add: with_param_def sql_and_def)

lemma pg_stored_fields [simp]:
  "an_id (pg_stored db r) = rw_announcement_id r" "an_source_url (pg_stored db r) = rw_source_url r"
  "an_forward_origin_key (pg_stored db r) = rw_forward_origin_key r" "an_canonical (pg_stored db r) = canonical_of_row r"
  "an_media (pg_stored db r) = media_rows db (rw_announcement_id r)" "an_status (pg_stored db r) = rw_status r"
  "an_parent_id (pg_stored db r) = rw_parent_announcement_id r" "an_occurred_at (pg_stored db r) = rw_occurred_at r"
  by (simp_all add: pg_stored_def pg_announcement_of_row_def announcement_of_row_def)

lemma canonical_columns [simp]:
  "cl_district (canonical_of_row r) = rw_district r" "cl_rooms (canonical_of_row r) = rw_rooms r"
  "cl_area_sqm (canonical_of_row r) = rw_area_sqm r" "cl_price_normalized_monthly (canonical_of_row r) = rw_price_normalized_monthly r"
  "cl_price_period (canonical_of_row r) = rw_price_period r" "cl_price_basis (canonical_of_row r) = rw_price_basis r"
  "cl_currency (canonical_of_row r) = rw_currency r" "cl_phone_numbers (canonical_of_row r) = rw_phone_numbers r"
  by (simp_all add: canonical_of_row_def)

lemma param_equal: "with_param p (sql_cmp (=) c) = Some True \<longleftrightarrow> p \<noteq> None \<and> c = p"
  by (cases p; cases c) simp_all

lemma param_area:
  "with_param p (sql_cmp (\<lambda>x v. v - t \<le> x \<and> x \<le> v + t) (c :: rat option)) = Some True \<longleftrightarrow>
     (\<exists>v x. p = Some v \<and> c = Some x \<and> \<bar>x - v\<bar> \<le> t)"
  by (cases p; cases c) (auto simp: abs_le_iff algebra_simps)

lemma param_currency: "(case p of None \<Rightarrow> None | Some u \<Rightarrow> sql_cmp (=) c u) = Some True \<longleftrightarrow> (\<exists>u. p = Some u \<and> c = Some u)"
  by (cases p) auto

lemma candidate_where_iff:
  "kept (dedup_candidate_where cfg lookback a (media_rows db (rw_announcement_id r)) r) \<longleftrightarrow>
     rw_parent_announcement_id r = None \<and> rw_status r = ActiveAnn \<and> rw_announcement_id r \<noteq> an_id a \<and>
     an_occurred_at a - lookback \<le> rw_occurred_at r \<and>
     (shares_field a (pg_stored db r) \<or> close_numbers cfg a (pg_stored db r) \<or> equal_image a (pg_stored db r))"
proof -
  let ?c = "an_canonical a"
  have images: "list_ex (\<lambda>m. sm_phash m \<in> set (map sm_phash (an_media a))) (media_rows db (rw_announcement_id r)) \<longleftrightarrow> equal_image a (pg_stored db r)"
    by (auto simp: list_ex_iff equal_image_def) (metis image_eqI)
  have price: "with_param (comparable_price ?c) (\<lambda>v. sql_all
            [Some (rw_price_period r = cl_price_period ?c), Some (rw_price_basis r = cl_price_basis ?c),
             (case cl_currency ?c of None \<Rightarrow> None | Some u \<Rightarrow> sql_cmp (=) (rw_currency r) u),
             sql_cmp (\<lambda>x v. v * (1 - price_tolerance_ratio cfg) \<le> x \<and> x \<le> v * (1 + price_tolerance_ratio cfg))
               (rw_price_normalized_monthly r) v]) = Some True \<longleftrightarrow>
      (\<exists>v x u. comparable_price ?c = Some v \<and> rw_price_normalized_monthly r = Some x \<and>
        rw_price_period r = cl_price_period ?c \<and> rw_price_basis r = cl_price_basis ?c \<and>
        cl_currency ?c = Some u \<and> rw_currency r = Some u \<and>
        v * (1 - price_tolerance_ratio cfg) \<le> x \<and> x \<le> v * (1 + price_tolerance_ratio cfg))"
    unfolding with_param_true sql_all_true by (simp only: list.set ball_simps simp_thms param_currency sql_true option.inject eq_True) blast
  show ?thesis
    unfolding dedup_candidate_where_def Let_def images kept_simps sql_any_true
    by (simp only: list.set bex_simps simp_thms kept_simps(1) param_equal param_area price sql_true option.inject eq_True shares_field_def close_numbers_def
        pg_stored_fields canonical_columns disj_assoc)
qed

lemma candidate_rows_iff:
  assumes "dedup_db_ok db"
  shows "r \<in> set (pg_candidate_rows cfg lookback a db) \<longleftrightarrow>
    dict_get (dp_rows db) (rw_announcement_id r) = Some r \<and> rw_parent_announcement_id r = None \<and> rw_status r = ActiveAnn \<and>
    rw_announcement_id r \<noteq> an_id a \<and> an_occurred_at a - lookback \<le> rw_occurred_at r \<and>
    (shares_field a (pg_stored db r) \<or> close_numbers cfg a (pg_stored db r) \<or> equal_image a (pg_stored db r))"
proof -
  have "keyed_by rw_announcement_id (dp_rows db)" using assms unfolding dedup_db_ok_def rows_sound_def by blast
  then show ?thesis
    using keyed_by_values [of rw_announcement_id "dp_rows db" r]
    by (simp add: pg_candidate_rows_def candidate_where_iff table_rows_def)
qed

lemma candidate_row:
  assumes "c \<in> set (pg_list_candidates cfg lookback a limit db)"
  obtains r where "r \<in> set (pg_candidate_rows cfg lookback a db)" "c = pg_stored db r"
proof -
  let ?n = "min limit (candidate_limit cfg)" and ?sorted = "py_sort_desc (\<lambda>r. (rw_occurred_at r, rw_created_at r)) (pg_candidate_rows cfg lookback a db)"
  have "c \<in> pg_stored db ` set (take ?n ?sorted)" using assms by (simp only: pg_list_candidates_def set_map)
  then have "c \<in> pg_stored db ` set ?sorted" using set_take_subset [of ?n ?sorted] by blast
  then show thesis using that by auto
qed

text \<open>Which stored announcements may be compared with a newcomer, and what the query asks them to share with it.\<close>

definition eligible :: "duration \<Rightarrow> announcement \<Rightarrow> dedup_db \<Rightarrow> announcement \<Rightarrow> bool" where
  "eligible lookback a db c \<longleftrightarrow>
     pg_find (an_id c) db = Some c \<and> an_parent_id c = None \<and> an_status c = ActiveAnn \<and> an_id c \<noteq> an_id a \<and>
     an_occurred_at a - lookback \<le> an_occurred_at c"

definition comparable :: "scoring_config \<Rightarrow> announcement \<Rightarrow> announcement \<Rightarrow> bool" where
  "comparable cfg a c \<longleftrightarrow> shares_field a c \<or> close_numbers cfg a c \<or> equal_image a c"

lemma candidate_rows_eligible:
  assumes ok: "dedup_db_ok db"
  shows "r \<in> set (pg_candidate_rows cfg lookback a db) \<longleftrightarrow>
    dict_get (dp_rows db) (rw_announcement_id r) = Some r \<and> eligible lookback a db (pg_stored db r) \<and> comparable cfg a (pg_stored db r)"
  using candidate_rows_iff [OF ok, of r cfg lookback a] by (auto simp: eligible_def comparable_def pg_find_def)

lemma eligible_row:
  assumes "dedup_db_ok db" and "eligible lookback a db c"
  obtains r where "c = pg_stored db r" "dict_get (dp_rows db) (rw_announcement_id r) = Some r"
proof -
  obtain r where r: "dict_get (dp_rows db) (an_id c) = Some r" "c = pg_stored db r"
    using assms(2) by (auto simp: eligible_def pg_find_def)
  then show thesis using that by simp
qed

text \<open>The best evidence there is makes two announcements comparable, near images and texts apart.\<close>

lemma evidence_comparable:
  assumes "same_source_url a c \<or> same_forward_origin a c \<or> common_phone a c \<and> same_fingerprint cfg a c"
  shows "comparable cfg a c"
  using assms by (auto simp: comparable_def shares_field_def same_source_url_def same_forward_origin_def same_fingerprint_def
      rooms_match_def plain_signal_def truthy_def Let_def)

text \<open>
  C40. The candidates from the tables are active parents other than the announcement, from within the lookback, that share a
  field, an area, a price or the very hash of an image with it, the latest first and no more than asked for. A parent of that
  kind is left out only if the list is full, and then everything listed is at least as late. Of the parents with the evidence on which
  announcements are merged, the query passes over just those where that evidence is an image that is near but not equal, or a
  common telephone number together with address and description; a common source link, a common forwarded post and a
  telephone number together with the whole fingerprint are always found.
\<close>

theorem candidates_from_tables:
  assumes ok: "dedup_db_ok db"
  shows "sorted_wrt (\<lambda>c d. an_occurred_at d \<le> an_occurred_at c) (pg_list_candidates cfg lookback a limit db) \<and>
    length (pg_list_candidates cfg lookback a limit db) \<le> min limit (candidate_limit cfg) \<and>
    (\<forall>c \<in> set (pg_list_candidates cfg lookback a limit db). eligible lookback a db c \<and> comparable cfg a c) \<and>
    (\<forall>c. eligible lookback a db c \<longrightarrow> comparable cfg a c \<longrightarrow>
       c \<in> set (pg_list_candidates cfg lookback a limit db) \<or>
       length (pg_list_candidates cfg lookback a limit db) = min limit (candidate_limit cfg) \<and>
       (\<forall>d \<in> set (pg_list_candidates cfg lookback a limit db). an_occurred_at c \<le> an_occurred_at d)) \<and>
    (\<forall>c. merge_evidence cfg a c \<longrightarrow> \<not> comparable cfg a c \<longrightarrow>
       \<not> same_source_url a c \<and> \<not> same_forward_origin a c \<and> \<not> (common_phone a c \<and> same_fingerprint cfg a c) \<and>
       (close_image cfg a c \<and> \<not> equal_image a c \<or> common_phone a c \<and> same_text cfg a c))"
proof -
  let ?rows = "pg_candidate_rows cfg lookback a db" and ?n = "min limit (candidate_limit cfg)"
  let ?sorted = "py_sort_desc (\<lambda>r. (rw_occurred_at r, rw_created_at r)) ?rows"
  have list: "pg_list_candidates cfg lookback a limit db = map (pg_stored db) (take ?n ?sorted)" by (simp add: pg_list_candidates_def)
  have "sorted_wrt (\<lambda>r s. (rw_occurred_at s, rw_created_at s) \<le> (rw_occurred_at r, rw_created_at r)) ?sorted"
    using sorted_py_sort_desc [of "\<lambda>r. (rw_occurred_at r, rw_created_at r)" ?rows]
    by (simp only: sorted_wrt_rev sorted_wrt_map rev_map [symmetric])
  then have latest: "sorted_wrt (\<lambda>r s. rw_occurred_at s \<le> rw_occurred_at r) ?sorted" by (rule sorted_wrt_mono_rel [rotated]) auto
  have "sorted_wrt (\<lambda>r s. rw_occurred_at s \<le> rw_occurred_at r) (take ?n ?sorted @ drop ?n ?sorted)"
    by (simp only: append_take_drop_id latest)
  then have cut_latest: "\<forall>s \<in> set (take ?n ?sorted). \<forall>r \<in> set (drop ?n ?sorted). rw_occurred_at r \<le> rw_occurred_at s"
    unfolding sorted_wrt_append by (elim conjE)
  from latest have sorted: "sorted_wrt (\<lambda>c d. an_occurred_at d \<le> an_occurred_at c) (map (pg_stored db) (take ?n ?sorted))"
    by (simp add: sorted_wrt_map sorted_wrt_take)
  have found: "eligible lookback a db c \<and> comparable cfg a c" if member: "c \<in> set (map (pg_stored db) (take ?n ?sorted))" for c
  proof -
    obtain r where "r \<in> set ?rows" "c = pg_stored db r" using member unfolding list [symmetric] by (rule candidate_row)
    then show ?thesis using candidate_rows_eligible [OF ok, of r cfg lookback a] by simp
  qed
  have cut: "c \<in> set (map (pg_stored db) (take ?n ?sorted)) \<or> length (take ?n ?sorted) = ?n \<and>
      (\<forall>d \<in> set (map (pg_stored db) (take ?n ?sorted)). an_occurred_at c \<le> an_occurred_at d)"
    if c: "eligible lookback a db c" "comparable cfg a c" for c
  proof -
    obtain r where r: "c = pg_stored db r" "dict_get (dp_rows db) (rw_announcement_id r) = Some r"
      using eligible_row [OF ok c(1)] .
    then have "r \<in> set ?sorted" using c candidate_rows_eligible [OF ok, of r cfg lookback a] by simp
    then have "r \<in> set (take ?n ?sorted) \<or> r \<in> set (drop ?n ?sorted)"
      by (metis append_take_drop_id set_append UnE)
    then show ?thesis
    proof
      assume "r \<in> set (take ?n ?sorted)"
      with r(1) show ?thesis by simp
    next
      assume dropped: "r \<in> set (drop ?n ?sorted)"
      then have "drop ?n ?sorted \<noteq> []" by (metis empty_iff list.set(1))
      then have "length (take ?n ?sorted) = ?n" by (simp only: drop_eq_Nil length_take not_le min.absorb2 less_imp_le)
      moreover have "\<forall>s \<in> set (take ?n ?sorted). rw_occurred_at r \<le> rw_occurred_at s"
        using cut_latest dropped by blast
      ultimately show ?thesis using r(1) by simp
    qed
  qed
  have missed: "\<not> same_source_url a c \<and> \<not> same_forward_origin a c \<and> \<not> (common_phone a c \<and> same_fingerprint cfg a c) \<and>
      (close_image cfg a c \<and> \<not> equal_image a c \<or> common_phone a c \<and> same_text cfg a c)"
    if "merge_evidence cfg a c" "\<not> comparable cfg a c" for c
    using that evidence_comparable [of a c cfg] by (auto simp: merge_evidence_def comparable_def)
  have short: "length (map (pg_stored db) (take ?n ?sorted)) \<le> ?n" by (simp only: length_map length_take min.cobounded2)
  have "\<forall>c \<in> set (pg_list_candidates cfg lookback a limit db). eligible lookback a db c \<and> comparable cfg a c"
    unfolding list by (intro ballI) (rule found)
  moreover have "\<forall>c. eligible lookback a db c \<longrightarrow> comparable cfg a c \<longrightarrow>
       c \<in> set (pg_list_candidates cfg lookback a limit db) \<or>
       length (pg_list_candidates cfg lookback a limit db) = min limit (candidate_limit cfg) \<and>
       (\<forall>d \<in> set (pg_list_candidates cfg lookback a limit db). an_occurred_at c \<le> an_occurred_at d)"
    unfolding list length_map by (intro allI impI) (rule cut)
  ultimately show ?thesis
    using sorted short missed unfolding list [symmetric] by (intro conjI allI impI) (assumption | blast)+
qed

text \<open>
  The repository in memory also offers whatever shares a telephone number or has an image that is close. In the tables such an
  announcement is no candidate, so it is never compared and the newcomer is stored as a new one.
\<close>

theorem near_images_not_compared:
  assumes "dedup_db_ok db" and "pg_find k db = Some c"
    and "\<not> shares_field a c" "\<not> close_numbers cfg a c" "\<not> equal_image a c" "\<not> are_fanout_sibling_announcements a c"
    and "common_phone a c \<or> any_close (cfg_phash_threshold cfg) (media_pairs a c) = Inr True"
  shows "cheap_candidate_match cfg a c = Inr True \<and> c \<notin> set (pg_list_candidates cfg lookback a limit db)"
proof
  show "cheap_candidate_match cfg a c = Inr True"
    using assms(6,7) by (auto simp: cheap_candidate_match_def common_phone_def Let_def)
  show "c \<notin> set (pg_list_candidates cfg lookback a limit db)"
  proof
    assume "c \<in> set (pg_list_candidates cfg lookback a limit db)"
    then obtain r where "r \<in> set (pg_candidate_rows cfg lookback a db)" "c = pg_stored db r" by (rule candidate_row)
    then show False using assms(3-5) candidate_rows_iff [OF assms(1), of r cfg lookback a] by blast
  qed
qed

section \<open>Witnesses\<close>

lemma numeric_one [simp]: "numeric_column d 1 = 1"
proof -
  have "\<lfloor>of_int (10 ^ d) + 1 / 2 :: rat\<rfloor> = 10 ^ d" by (rule floor_unique) simp_all
  then show ?thesis by (simp add: numeric_column_def)
qed

definition sample_tables :: dedup_db where
  "sample_tables = empty_dedup_db\<lparr>dp_rows := [(''m1'', announcement_row_of (blank_announcement ''m1'' ''u''))], dp_sources := [''s'']\<rparr>"

definition sample_memory :: post_ai where
  "sample_memory = snd (save_parent (blank_announcement ''m1'' ''u'') empty_post_ai)"

lemma blank_row_allowed [simp]: "row_allowed (announcement_row_of (blank_announcement k u))" "row_allowed (child_row (blank_announcement k u) pid) \<longleftrightarrow> pid \<noteq> k"
  by (auto simp: row_allowed_def fits_integer_def child_row_def announcement_row_of_def put_canonical_def blank_announcement_def blank_listing_def fits_column_def)

lemma blank_fields [simp]:
  "an_latest_source_id (blank_announcement k u) = None" "an_source_id (blank_announcement k u) = ''s''" "an_media (blank_announcement k u) = []"
  "an_id (blank_announcement k u) = k" "an_source_count (blank_announcement k u) = 1"
  "an_status (blank_announcement k u) = ActiveAnn" "an_occurred_at (blank_announcement k u) = 0" "cl_prompt_version (an_canonical (blank_announcement k u)) = ''v1''"
  "truthy None \<longleftrightarrow> False"
  by (simp_all add: blank_announcement_def blank_listing_def truthy_def)

lemma sample_save:
  "pg_save_parent (blank_announcement ''m1'' ''u'') empty_dedup_db =
     (Inr (pg_announcement_of_row [] (announcement_row_of (blank_announcement ''m1'' ''u''))), sample_tables)"
  by (simp add: pg_save_parent_def Let_def find_first_def table_rows_def ensure_sources_def ensure_source_exists_def empty_dedup_db_def insert_row_def
      sample_tables_def put_row_def)
    (simp add: announcement_row_of_def put_canonical_def blank_announcement_def truthy_def)

lemma sample_tables_ok: "dedup_db_ok sample_tables"
  using dedup_tables_sound_run [of "[SaveParent (blank_announcement ''m1'' ''u'')]"] by (simp add: sample_save)

theorem save_parent_refines_witness:
  "same_announcements sample_tables sample_memory"
  using save_parent_refines [of empty_dedup_db empty_post_ai "blank_announcement ''m1'' ''u''", OF _ _ _ _ sample_save]
  by (simp add: sample_memory_def dedup_db_ok_def rows_sound_def same_announcements_def empty_dedup_db_def empty_post_ai_def table_rows_def blank_announcement_def)

lemma sample_same: "same_announcements sample_tables sample_memory"
  by (auto simp: same_announcements_def sample_tables_def sample_memory_def empty_dedup_db_def empty_post_ai_def save_parent_def Let_def
      stored_form_def blank_announcement_def truthy_def)

lemma sample_rows: "dp_rows sample_tables = [(''m1'', announcement_row_of (blank_announcement ''m1'' ''u''))]" "dp_sources sample_tables = [''s'']"
    "dp_media sample_tables = []" "dp_merge_audit sample_tables = []"
  by (simp_all add: sample_tables_def empty_dedup_db_def)

lemma sample_child:
  "\<exists>b t. pg_link_child 5 (blank_announcement ''m2'' ''u'') ''m1'' ''p'' sample_tables = (Inr b, t)"
proof -
  let ?p = "announcement_row_of (blank_announcement ''m1'' ''u'')" and ?c = "blank_announcement ''m2'' ''u''"
  have "\<not> same_message (child_row ?c ''m1'') ?p \<and> rw_idempotency_key ?p \<noteq> rw_idempotency_key (child_row ?c ''m1'')"
    by (simp add: same_message_def child_row_def announcement_row_of_def put_canonical_def blank_announcement_def)
  moreover have "ensure_sources ?c sample_tables = sample_tables"
    by (simp add: ensure_sources_def ensure_source_exists_def sample_rows)
  moreover have "rw_source_id (child_row ?c ''m1'') = ''s''" "rw_latest_source_id (child_row ?c ''m1'') = Some ''s''"
    by (simp_all add: child_row_def announcement_row_of_def put_canonical_def)
  ultimately have up: "upsert_child ?c ''m1'' sample_tables = (Inr (pg_announcement_of_row [] (child_row ?c ''m1'')), put_row (child_row ?c ''m1'') sample_tables)"
    by (simp add: upsert_child_def Let_def insert_row_def sample_rows table_rows_def)
  show ?thesis
    by (simp add: pg_link_child_def sample_rows linked_already_def merge_parent_fields_eq up in_transaction_def update_parent_aggregate_def
        Let_def table_rows_def ensure_source_exists_def pg_announcement_of_row_def announcement_of_row_def put_row_def)
      (simp add: row_allowed_def fits_integer_def put_canonical_def merged_listing_def canonical_of_row_def announcement_row_of_def blank_announcement_def
        stored_listing_def blank_listing_def fill_opt_def fill_text_def fill_list_def fits_column_def)
qed

theorem link_child_refines_witness:
  "\<exists>b t b' u. pg_link_child 5 (blank_announcement ''m2'' ''u'') ''m1'' ''p'' sample_tables = (Inr b, t) \<and>
     link_child 5 (blank_announcement ''m2'' ''u'') ''m1'' (manual_review_decision LowConfidence None []) ''p'' sample_memory = (Inr b', u) \<and>
     same_announcements t u"
proof -
  let ?c = "blank_announcement ''m2'' ''u''"
  obtain b t where run: "pg_link_child 5 ?c ''m1'' ''p'' sample_tables = (Inr b, t)" using sample_child by blast
  have kids: "kids k [(''m1'', announcement_row_of (blank_announcement ''m1'' ''u''))] = {}" for k by (auto simp: kids_def split: if_splits)
  have memory: "announcements sample_memory = [(''m1'', (blank_announcement ''m1'' ''u'')\<lparr>an_parent_id := None, an_latest_source_id := Some ''s''\<rparr>)]"
    by (simp add: sample_memory_def save_parent_def Let_def empty_post_ai_def)
  have "\<exists>b' u. link_child 5 ?c ''m1'' (manual_review_decision LowConfidence None []) ''p'' sample_memory = (Inr b', u) \<and> same_announcements t u \<and>
      stored_form b' = b\<lparr>an_media := [], an_updated_at := 0\<rparr> \<and>
      (\<forall>p. dict_get (dp_rows t) ''m1'' = Some p \<longrightarrow> rw_source_count p = 1 + int (card (kids ''m1'' (dp_rows t))))"
    by (rule link_child_refines [OF sample_tables_ok sample_same _ _ refl _ _ _ run])
      (auto simp: sample_rows kids memory)
  with run show ?thesis by blast
qed

lemma sample_found: "pg_find ''m1'' sample_tables = Some (pg_stored sample_tables (announcement_row_of (blank_announcement ''m1'' ''u'')))"
  by (simp add: pg_find_def sample_rows)

theorem candidates_from_tables_witness:
  "pg_stored sample_tables (announcement_row_of (blank_announcement ''m1'' ''u''))
     \<in> set (pg_list_candidates default_scoring_config DEDUP_LOOKBACK (blank_announcement ''m2'' ''u'') 50 sample_tables)"
proof -
  let ?c = "pg_stored sample_tables (announcement_row_of (blank_announcement ''m1'' ''u''))" and ?a = "blank_announcement ''m2'' ''u''"
  let ?list = "pg_list_candidates default_scoring_config DEDUP_LOOKBACK ?a 50 sample_tables"
  have "length (pg_candidate_rows default_scoring_config DEDUP_LOOKBACK ?a sample_tables) \<le> 1"
    using length_filter_le [of _ "table_rows sample_tables"] by (simp add: pg_candidate_rows_def table_rows_def sample_rows)
  then have "length ?list \<noteq> min 50 (candidate_limit default_scoring_config)"
    by (simp add: pg_list_candidates_def default_scoring_config_def)
  moreover have "comparable default_scoring_config ?a ?c"
    by (simp add: comparable_def shares_field_def announcement_row_of_def put_canonical_def blank_announcement_def)
  moreover have "eligible DEDUP_LOOKBACK ?a sample_tables ?c"
    using sample_found
    by (simp add: eligible_def) (simp add: announcement_row_of_def put_canonical_def blank_announcement_def DEDUP_LOOKBACK_def seconds_def)
  ultimately show ?thesis
    using candidates_from_tables [OF sample_tables_ok, where cfg = default_scoring_config and lookback = DEDUP_LOOKBACK and a = ?a and limit = 50]
    by blast
qed

definition sample_image :: "string \<Rightarrow> stored_media" where
  "sample_image h =
     \<lparr>sm_media_id = ''i'', sm_storage_url = ''s'', sm_object_key = h, sm_mime_type = ''image/jpeg'', sm_size_bytes = 1, sm_phash = h,
      sm_content_sha256 = h, sm_width = None, sm_height = None, sm_metadata = []\<rparr>"

lemma one_bit: "hamming_distance_hex ''01'' ''00'' = Inr 1"
  by code_simp

theorem near_images_not_compared_witness:
  "\<exists>a db c. pg_find ''m1'' db = Some c \<and> close_image default_scoring_config a c \<and>
     cheap_candidate_match default_scoring_config a c = Inr True \<and> c \<notin> set (pg_list_candidates default_scoring_config DEDUP_LOOKBACK a 50 db)"
proof -
  let ?a = "(blank_announcement ''m2'' ''v'')\<lparr>an_canonical := blank_listing\<lparr>cl_rooms := Some 3\<rparr>, an_media := [sample_image ''01'']\<rparr>"
  let ?db = "sample_tables\<lparr>dp_media := [(''m1'', sample_image ''00'')]\<rparr>"
  let ?c = "pg_stored ?db (announcement_row_of (blank_announcement ''m1'' ''u''))"
  have found: "pg_find ''m1'' ?db = Some ?c" by (simp add: pg_find_def sample_rows)
  have ok: "dedup_db_ok ?db" using sample_tables_ok by (simp add: dedup_db_ok_def)
  have c: "an_media ?c = [sample_image ''00'']" "an_source_url ?c = Some ''u''" "an_canonical ?c = stored_listing blank_listing"
      "an_source_message_id ?c = ''m1''"
    by (simp_all add: media_rows_def) (simp_all add: pg_stored_def pg_announcement_of_row_def announcement_of_row_def announcement_row_of_def put_canonical_def blank_announcement_def)
  have apart: "\<not> are_fanout_sibling_announcements ?a ?c"
    using c(4) by (simp add: are_fanout_sibling_announcements_def blank_announcement_def)
  have different: "\<not> shares_field ?a ?c" "\<not> close_numbers default_scoring_config ?a ?c" "\<not> equal_image ?a ?c"
    unfolding shares_field_def close_numbers_def equal_image_def c
    by (simp_all add: blank_announcement_def stored_listing_def blank_listing_def comparable_price_def sample_image_def)
  have near: "any_close (cfg_phash_threshold default_scoring_config) (media_pairs ?a ?c) = Inr True"
    using c(1) by (simp add: media_pairs_def sample_image_def one_bit default_scoring_config_def)
  have "close_image default_scoring_config ?a ?c"
    using apart c(1) by (simp add: close_image_def sample_image_def one_bit default_scoring_config_def)
  with found near_images_not_compared [OF ok found different apart disjI2 [OF near]] show ?thesis by blast
qed

end
