(* ===== verification/EF_Evaluation.thy ===== *)
theory EF_Evaluation
  imports EF_Router "HOL-Library.Multiset"
begin

text \<open>
  The replay of labelled posts against the parser recipes (\<open>services/source_parsing/evaluation.py\<close>): what one case is judged by
  and the report over all of them. A label is compared after NFKC, case folding and the joining of white space.
\<close>

record labeled_case =
  lc_case_id :: string
  lc_event :: raw_event
  lc_expected_decision :: parse_decision
  lc_expected_candidate_texts :: "string list"
  lc_expected_candidate_count :: "int option"
  lc_payload :: "(string, json) dict"

text \<open>\<open>LabeledParseCase.__post_init__\<close>\<close>

definition make_case :: "labeled_case \<Rightarrow> labeled_case res" where
  "make_case c =
     (case lc_expected_candidate_count c of
        None \<Rightarrow> Inr c
      | Some n \<Rightarrow>
          if n < 0 then Inl (ValueError ''expected_candidate_count cannot be negative'')
          else if lc_expected_candidate_texts c \<noteq> [] \<and> n \<noteq> int (length (lc_expected_candidate_texts c))
          then Inl (ValueError ''expected candidate count and labeled texts disagree'')
          else Inr c)"

record case_evaluation =
  ce_case_id :: string
  ce_source_id :: string
  ce_expected_decision :: parse_decision
  ce_actual_decision :: parse_decision
  ce_expected_candidate_count :: nat
  ce_actual_candidate_count :: nat
  ce_true_positive :: nat
  ce_false_positive :: nat
  ce_false_negative :: nat
  ce_content_labeled :: bool
  ce_decision_correct :: bool
  ce_outcome :: parse_outcome

record evaluation_report =
  er_case_count :: nat
  er_expected_candidate_count :: nat
  er_actual_candidate_count :: nat
  er_true_positive :: nat
  er_false_positive :: nat
  er_false_negative :: nat
  er_labeled_case_count :: nat
  er_precision :: "rat option"
  er_recall :: "rat option"
  er_decision_accuracy :: "rat option"
  er_drop_accuracy :: "rat option"
  er_count_accuracy :: "rat option"
  er_cases :: "case_evaluation list"

definition normalized_label :: "router_env \<Rightarrow> string \<Rightarrow> string" where
  "normalized_label V t = collapse (lower (te_normalize (rv_text V) NFKC t))"

definition share :: "nat \<Rightarrow> nat \<Rightarrow> rat option" where
  "share n d = (if d = 0 then None else Some (of_nat n / of_nat d))"

text \<open>The texts a case yields and the labels it has; \<open>Counter & Counter\<close> is the intersection of multisets.\<close>

definition actual_texts :: "router_env \<Rightarrow> parse_outcome \<Rightarrow> string list" where
  "actual_texts V po = map (\<lambda>c. normalized_label V (case pc_cleaned_text c of None \<Rightarrow> [] | Some t \<Rightarrow> t)) (po_candidates po)"

definition expected_texts :: "router_env \<Rightarrow> labeled_case \<Rightarrow> string list" where
  "expected_texts V c = map (normalized_label V) (lc_expected_candidate_texts c)"

definition expected_count :: "labeled_case \<Rightarrow> nat" where
  "expected_count c =
     (if lc_expected_candidate_texts c \<noteq> [] then length (lc_expected_candidate_texts c)
      else case lc_expected_candidate_count c of
             Some n \<Rightarrow> nat n
           | None \<Rightarrow> if lc_expected_decision c = EmitDecision then 1 else 0)"

definition judged_case :: "router_env \<Rightarrow> labeled_case \<Rightarrow> parse_outcome \<Rightarrow> case_evaluation" where
  "judged_case V c po =
     (let labeled = lc_expected_candidate_texts c \<noteq> [];
          tp = (if labeled then size (mset (actual_texts V po) \<inter># mset (expected_texts V c)) else 0) in
      \<lparr>ce_case_id = lc_case_id c, ce_source_id = ev_source_id (lc_event c), ce_expected_decision = lc_expected_decision c,
       ce_actual_decision = po_decision po, ce_expected_candidate_count = expected_count c,
       ce_actual_candidate_count = length (po_candidates po), ce_true_positive = tp,
       ce_false_positive = (if labeled then length (actual_texts V po) - tp else 0),
       ce_false_negative = (if labeled then expected_count c - tp else 0), ce_content_labeled = labeled,
       ce_decision_correct = (po_decision po = lc_expected_decision c), ce_outcome = po\<rparr>)"

definition evaluate_case :: "router_env \<Rightarrow> router \<Rightarrow> labeled_case \<Rightarrow> case_evaluation res" where
  "evaluate_case V rt c = res_bind (router_parse V rt (lc_event c) (lc_payload c)) (\<lambda>po. Inr (judged_case V c po))"

definition report_of :: "case_evaluation list \<Rightarrow> evaluation_report" where
  "report_of es =
     (let tp = sum_list (map ce_true_positive es); fp = sum_list (map ce_false_positive es); fn = sum_list (map ce_false_negative es);
          negative = filter (\<lambda>e. ce_expected_decision e \<noteq> EmitDecision) es;
          exact = filter (\<lambda>e. ce_expected_candidate_count e = ce_actual_candidate_count e) es in
      \<lparr>er_case_count = length es, er_expected_candidate_count = sum_list (map ce_expected_candidate_count es),
       er_actual_candidate_count = sum_list (map ce_actual_candidate_count es), er_true_positive = tp, er_false_positive = fp,
       er_false_negative = fn, er_labeled_case_count = length (filter ce_content_labeled es),
       er_precision = share tp (tp + fp), er_recall = share tp (tp + fn),
       er_decision_accuracy = share (length (filter ce_decision_correct es)) (length es),
       er_drop_accuracy = share (length (filter ce_decision_correct negative)) (length negative),
       er_count_accuracy = share (length exact) (length es), er_cases = es\<rparr>)"

definition evaluate_cases :: "router_env \<Rightarrow> router \<Rightarrow> labeled_case list \<Rightarrow> evaluation_report res" where
  "evaluate_cases V rt cs = res_bind (res_all (map (evaluate_case V rt) cs)) (\<lambda>es. Inr (report_of es))"

section \<open>What the measures say\<close>

lemma share_one: "share n (n + m) = Some 1 \<longleftrightarrow> 0 < n \<and> m = 0"
  by (auto simp: share_def field_simps)

lemma share_bounds: "n \<le> d \<Longrightarrow> share n d = Some r \<Longrightarrow> 0 \<le> r \<and> r \<le> 1"
  by (auto simp: share_def divide_le_eq_1 split: if_splits)

lemma inter_size: "size (A \<inter># B) \<le> size A" "size (A \<inter># B) \<le> size B"
  by (auto intro: size_mset_mono)

lemma inter_size_eq: "size (A \<inter># B) = size A \<longleftrightarrow> A \<subseteq># B"
proof
  assume eq: "size (A \<inter># B) = size A"
  have "A \<inter># B = A" by (rule ccontr) (use eq mset_subset_size [of "A \<inter># B" A] in \<open>auto simp: subset_mset_def\<close>)
  then show "A \<subseteq># B" by (metis inter_subset_eq_union subset_mset.inf_le2)
qed (simp add: subset_mset.inf_absorb1)

lemma judged_outcome [simp]: "ce_outcome (judged_case V c po) = po"
  by (simp add: judged_case_def Let_def)

lemma judged_fields:
  "ce_content_labeled (judged_case V c po) \<longleftrightarrow> lc_expected_candidate_texts c \<noteq> []"
  "ce_true_positive (judged_case V c po) + ce_false_positive (judged_case V c po) =
     (if lc_expected_candidate_texts c \<noteq> [] then length (po_candidates po) else 0)"
  "ce_true_positive (judged_case V c po) + ce_false_negative (judged_case V c po) =
     length (lc_expected_candidate_texts c)"
  using inter_size [of "mset (actual_texts V po)" "mset (expected_texts V c)"]
  by (simp_all add: judged_case_def Let_def actual_texts_def expected_texts_def expected_count_def)

lemma judged_false:
  "ce_false_positive (judged_case V c po) = 0 \<longleftrightarrow>
     (lc_expected_candidate_texts c \<noteq> [] \<longrightarrow> mset (actual_texts V po) \<subseteq># mset (expected_texts V c))"
  "ce_false_negative (judged_case V c po) = 0 \<longleftrightarrow>
     mset (expected_texts V c) \<subseteq># mset (actual_texts V po)"
proof -
  let ?a = "mset (actual_texts V po)" and ?e = "mset (expected_texts V c)"
  have le: "size (?a \<inter># ?e) \<le> size ?a" "size (?a \<inter># ?e) \<le> size ?e" by (rule inter_size)+
  show "ce_false_positive (judged_case V c po) = 0 \<longleftrightarrow> (lc_expected_candidate_texts c \<noteq> [] \<longrightarrow> ?a \<subseteq># ?e)"
    using le(1) inter_size_eq [of ?a ?e] by (auto simp: judged_case_def Let_def)
  have "size (?a \<inter># ?e) = size ?e \<longleftrightarrow> ?e \<subseteq># ?a"
    using inter_size_eq [of ?e ?a] by (simp add: subset_mset.inf_commute)
  then show "ce_false_negative (judged_case V c po) = 0 \<longleftrightarrow> ?e \<subseteq># ?a"
    using le(2) by (cases "lc_expected_candidate_texts c") (auto simp: judged_case_def Let_def expected_count_def expected_texts_def)
qed

lemma evaluate_cases_InrD:
  assumes "evaluate_cases V rt cs = Inr r"
  shows "\<exists>pos. length pos = length cs \<and> r = report_of (map2 (judged_case V) cs pos) \<and>
    (\<forall>i < length cs. router_parse V rt (lc_event (cs ! i)) (lc_payload (cs ! i)) = Inr (pos ! i))"
proof -
  obtain es where es: "res_all (map (evaluate_case V rt) cs) = Inr es" and r: "r = report_of es"
    using assms by (auto simp: evaluate_cases_def elim!: res_bind_InrE)
  let ?pos = "map ce_outcome es"
  have len: "length es = length cs" using res_all_Inr_length [OF es] by simp
  have "router_parse V rt (lc_event (cs ! i)) (lc_payload (cs ! i)) = Inr (ce_outcome (es ! i)) \<and>
      es ! i = judged_case V (cs ! i) (ce_outcome (es ! i))" if "i < length cs" for i
  proof -
    have "evaluate_case V rt (cs ! i) = Inr (es ! i)" using res_all_nth [OF es, of i] that by simp
    then obtain po where "router_parse V rt (lc_event (cs ! i)) (lc_payload (cs ! i)) = Inr po" "es ! i = judged_case V (cs ! i) po"
      by (auto simp: evaluate_case_def elim!: res_bind_InrE)
    then show ?thesis by (simp add: judged_outcome)
  qed
  moreover from this have "es = map2 (judged_case V) cs ?pos"
    using len by (intro nth_equalityI) auto
  ultimately show ?thesis using len r by (intro exI [of _ ?pos]) auto
qed

text \<open>
  What the measures of a report say: the true and false positives of a case are its candidates and the true positives and false
  negatives its labels, where it has labels; the precision is 1 exactly if something was found and no labelled post yields a text
  beyond its labels, and the recall is 1 exactly if something was found and every labelled post yields all of its labels.
\<close>

theorem evaluation_measures:
  assumes "evaluate_cases V rt cs = Inr r"
  shows "\<exists>pos. length pos = length cs \<and>
    (\<forall>i < length cs. router_parse V rt (lc_event (cs ! i)) (lc_payload (cs ! i)) = Inr (pos ! i)) \<and>
    er_true_positive r + er_false_negative r = sum_list (map (length \<circ> lc_expected_candidate_texts) cs) \<and>
    (er_precision r = Some 1 \<longleftrightarrow> 0 < er_true_positive r \<and>
       (\<forall>i < length cs. lc_expected_candidate_texts (cs ! i) \<noteq> [] \<longrightarrow> mset (actual_texts V (pos ! i)) \<subseteq># mset (expected_texts V (cs ! i)))) \<and>
    (er_recall r = Some 1 \<longleftrightarrow> 0 < er_true_positive r \<and>
       (\<forall>i < length cs. mset (expected_texts V (cs ! i)) \<subseteq># mset (actual_texts V (pos ! i))))"
proof -
  obtain pos where pos: "length pos = length cs" and r: "r = report_of (map2 (judged_case V) cs pos)"
    and parsed: "\<forall>i < length cs. router_parse V rt (lc_event (cs ! i)) (lc_payload (cs ! i)) = Inr (pos ! i)"
    using evaluate_cases_InrD [OF assms] by blast
  let ?es = "map2 (judged_case V) cs pos"
  have measures: "er_precision r = share (er_true_positive r) (er_true_positive r + er_false_positive r)"
      "er_recall r = share (er_true_positive r) (er_true_positive r + er_false_negative r)"
      "er_true_positive r = sum_list (map ce_true_positive ?es)"
      "er_false_positive r = sum_list (map ce_false_positive ?es)" "er_false_negative r = sum_list (map ce_false_negative ?es)"
    by (simp_all add: r report_of_def Let_def)
  have "er_true_positive r + er_false_negative r = sum_list (map (\<lambda>e. ce_true_positive e + ce_false_negative e) ?es)"
    unfolding measures(3,5) by (rule sum_list_addf [symmetric])
  also have "map (\<lambda>e. ce_true_positive e + ce_false_negative e) ?es = map (length \<circ> lc_expected_candidate_texts) cs"
    using pos by (intro nth_equalityI) (simp_all add: judged_fields)
  finally have counts: "er_true_positive r + er_false_negative r = sum_list (map (length \<circ> lc_expected_candidate_texts) cs)" .
  have all: "(\<forall>e \<in> set ?es. P e) \<longleftrightarrow> (\<forall>i < length cs. P (judged_case V (cs ! i) (pos ! i)))" for P
    using pos by (auto simp: set_zip) 
  have "er_false_positive r = 0 \<longleftrightarrow>
      (\<forall>i < length cs. lc_expected_candidate_texts (cs ! i) \<noteq> [] \<longrightarrow> mset (actual_texts V (pos ! i)) \<subseteq># mset (expected_texts V (cs ! i)))"
    unfolding measures(4) sum_list_eq_0_iff using all [of "\<lambda>e. ce_false_positive e = 0"] by (auto simp: judged_false)
  moreover have "er_false_negative r = 0 \<longleftrightarrow> (\<forall>i < length cs. mset (expected_texts V (cs ! i)) \<subseteq># mset (actual_texts V (pos ! i)))"
    unfolding measures(5) sum_list_eq_0_iff using all [of "\<lambda>e. ce_false_negative e = 0"] by (auto simp: judged_false)
  moreover have "er_precision r = Some 1 \<longleftrightarrow> 0 < er_true_positive r \<and> er_false_positive r = 0"
      "er_recall r = Some 1 \<longleftrightarrow> 0 < er_true_positive r \<and> er_false_negative r = 0"
    unfolding measures(1,2) by (rule share_one)+
  ultimately show ?thesis
    by (intro exI [of _ pos] conjI) (rule pos parsed counts | simp only:)+
qed

text \<open>The measures are proportions.\<close>

lemma report_bounds:
  assumes "evaluate_cases V rt cs = Inr r"
    and "x \<in> {er_precision r, er_recall r, er_decision_accuracy r, er_drop_accuracy r, er_count_accuracy r}" and "x = Some q"
  shows "0 \<le> q \<and> q \<le> 1"
proof -
  obtain es where r: "r = report_of es" using assms(1) by (auto simp: evaluate_cases_def elim!: res_bind_InrE)
  have "\<exists>n d. n \<le> d \<and> x = share n d"
    using assms(2) unfolding r report_of_def Let_def evaluation_report.simps insert_iff empty_iff
    by (elim disjE) (blast intro: le_add1 length_filter_le)+
  then show ?thesis using assms(3) share_bounds by metis
qed

text \<open>Since the router answers every event, every list of cases has a report, with one evaluation for each.\<close>

lemma evaluation_total:
  assumes "new_router V recipes src plugins fb = Inr rt"
  shows "\<exists>r. evaluate_cases V rt cs = Inr r \<and> er_case_count r = length cs"
proof -
  have "\<exists>e. evaluate_case V rt c = Inr e" for c
    using router_parse_total [OF assms, of "lc_event c" "lc_payload c"] by (auto simp: evaluate_case_def)
  then obtain f where "\<And>c. evaluate_case V rt c = Inr (f c)" by metis
  then have "evaluate_case V rt = (\<lambda>c. Inr (f c))" by (rule ext)
  then have "res_all (map (evaluate_case V rt) cs) = Inr (map f cs)" by (simp only: res_all_map_Inr)
  then show ?thesis by (simp add: evaluate_cases_def report_of_def Let_def)
qed

definition sample_case :: labeled_case where
  "sample_case =
     \<lparr>lc_case_id = ''c'', lc_event = sample_event ''k'' ''3 xona'', lc_expected_decision = EmitDecision,
      lc_expected_candidate_texts = [''3 xona''], lc_expected_candidate_count = None, lc_payload = []\<rparr>"

theorem evaluation_measures_witness:
  "\<exists>r. evaluate_cases sample_router_env sample_router [sample_case] = Inr r \<and> er_true_positive r + er_false_negative r = 1"
proof -
  obtain r where r: "evaluate_cases sample_router_env sample_router [sample_case] = Inr r"
    using evaluation_total [OF sample_router_new] by blast
  with evaluation_measures [OF r] show ?thesis by (auto simp: sample_case_def)
qed

end
