(* ===== verification/EF_OpsAlerts.thy ===== *)
theory EF_OpsAlerts
  imports EF_Text
begin

text \<open>
  Alerts to the operators (\<open>services/ops_notifications.py\<close>): equal alerts are sent once per window and counted in between, and
  an answer 429 silences all of them for a while. The clock is that of \<open>time.monotonic\<close>, read once more after a message was
  sent; the redaction of secrets, the answers of the Telegram API and the wording of a message are arguments, and a moment of
  the monotonic clock is a whole number of microseconds.
\<close>

section \<open>The service\<close>

record alert_bucket =
  ab_first_seen :: time
  ab_last_sent :: time
  ab_suppressed :: nat

record ops_alerts =
  oa_window :: duration
  oa_buckets :: "(string \<times> string, alert_bucket) dict"
  oa_blocked_until :: time

datatype send_answer = SendRaises | SentWithoutAnswer | Answered nat "int option"

record alert_message =
  am_severity :: string
  am_reason :: string
  am_suppressed :: nat

definition new_ops_alerts :: "duration \<Rightarrow> ops_alerts" where
  "new_ops_alerts window = \<lparr>oa_window = window, oa_buckets = [], oa_blocked_until = 0\<rparr>"

text \<open>\<open>_retry_after_seconds\<close>\<close>

definition retry_after_seconds :: "string option \<Rightarrow> int option" where
  "retry_after_seconds v = (case v of None \<Rightarrow> None | Some t \<Rightarrow> map_option (max 1) (py_int t))"

definition alert_key :: "(string \<Rightarrow> string) \<Rightarrow> string \<Rightarrow> string \<Rightarrow> string \<times> string" where
  "alert_key redact severity reason = (upper severity, redact reason)"

text \<open>What the answer to a message means: whether it counts as sent, and until when the service is blocked.\<close>

definition settle_alert :: "send_answer \<Rightarrow> time \<Rightarrow> ops_alerts \<Rightarrow> bool \<times> ops_alerts" where
  "settle_alert answer later s =
     (case answer of
        SendRaises \<Rightarrow> (False, s)
      | SentWithoutAnswer \<Rightarrow> (True, s)
      | Answered status retry \<Rightarrow>
          if status = 429
          then (False, s\<lparr>oa_blocked_until := later + seconds (max (case retry of None \<Rightarrow> 60 | Some n \<Rightarrow> if n = 0 then 60 else n) 1)\<rparr>)
          else (status < 400, s))"

text \<open>A call of \<open>notify\<close>: its result, the message it tried to send, and the state after it.\<close>

definition notify_ops ::
  "(string \<Rightarrow> string) \<Rightarrow> send_answer \<Rightarrow> time \<Rightarrow> time \<Rightarrow> string \<Rightarrow> string \<Rightarrow> ops_alerts \<Rightarrow> (bool \<times> alert_message option) \<times> ops_alerts" where
  "notify_ops redact answer now later severity reason s =
     (if now < oa_blocked_until s then ((False, None), s)
      else let key = alert_key redact severity reason; bucket = dict_get (oa_buckets s) key in
        if bucket \<noteq> None \<and> now - ab_last_sent (the bucket) < oa_window s
        then ((False, None), s\<lparr>oa_buckets := dict_put key ((the bucket)\<lparr>ab_suppressed := ab_suppressed (the bucket) + 1\<rparr>) (oa_buckets s)\<rparr>)
        else let held = (case bucket of None \<Rightarrow> 0 | Some b \<Rightarrow> ab_suppressed b);
                 s1 = s\<lparr>oa_buckets := dict_put key \<lparr>ab_first_seen = now, ab_last_sent = now, ab_suppressed = 0\<rparr> (oa_buckets s)\<rparr>
          in case settle_alert answer later s1 of
               (sent, s2) \<Rightarrow> ((sent, Some \<lparr>am_severity = fst key, am_reason = snd key, am_suppressed = held\<rparr>), s2))"

definition disabled_notify :: "string \<Rightarrow> string \<Rightarrow> bool" where
  "disabled_notify severity reason = False"

section \<open>Runs\<close>

record alert_call =
  al_answer :: send_answer
  al_now :: time
  al_later :: time
  al_severity :: string
  al_reason :: string

text \<open>The messages a run tries to send, each with its moment.\<close>

fun alert_run :: "(string \<Rightarrow> string) \<Rightarrow> alert_call list \<Rightarrow> ops_alerts \<Rightarrow> (time \<times> alert_message) list \<times> ops_alerts" where
  "alert_run redact [] s = ([], s)"
| "alert_run redact (c # cs) s =
     (case notify_ops redact (al_answer c) (al_now c) (al_later c) (al_severity c) (al_reason c) s of
        ((_, m), t) \<Rightarrow>
          (case alert_run redact cs t of
             (ms, u) \<Rightarrow> ((case m of None \<Rightarrow> ms | Some x \<Rightarrow> (al_now c, x) # ms), u)))"

abbreviation message_key :: "alert_message \<Rightarrow> string \<times> string" where
  "message_key m \<equiv> (am_severity m, am_reason m)"

lemma settle_keeps [simp]: "oa_buckets (snd (settle_alert a l s)) = oa_buckets s" "oa_window (snd (settle_alert a l s)) = oa_window s"
  by (simp_all add: settle_alert_def split: send_answer.split)

lemma notify_window [simp]: "oa_window (snd (notify_ops redact a now later sev r s)) = oa_window s"
proof -
  have "oa_window t = oa_window s'" if "settle_alert a later s' = (x, t)" for x t s'
    using settle_keeps(2) [of a later s'] that by simp
  then show ?thesis by (simp add: notify_ops_def Let_def split: prod.split)
qed

text \<open>A message is only tried when its key was not tried within the window, and then its bucket is stamped.\<close>

lemma notify_message:
  assumes "notify_ops redact a now later sev r s = ((x, Some m), t)"
  shows "message_key m = alert_key redact sev r \<and>
    (\<forall>b. dict_get (oa_buckets s) (message_key m) = Some b \<longrightarrow> oa_window s \<le> now - ab_last_sent b \<and> am_suppressed m = ab_suppressed b) \<and>
    dict_get (oa_buckets t) (message_key m) = Some \<lparr>ab_first_seen = now, ab_last_sent = now, ab_suppressed = 0\<rparr>"
proof -
  let ?k = "alert_key redact sev r"
  let ?b = "dict_get (oa_buckets s) ?k"
  let ?s1 = "s\<lparr>oa_buckets := dict_put ?k \<lparr>ab_first_seen = now, ab_last_sent = now, ab_suppressed = 0\<rparr> (oa_buckets s)\<rparr>"
  obtain y u where u: "settle_alert a later ?s1 = (y, u)" by fastforce
  have "oa_buckets u = oa_buckets ?s1" using settle_keeps(1) [of a later ?s1] u by simp
  moreover have "\<not> (?b \<noteq> None \<and> now - ab_last_sent (the ?b) < oa_window s)" and "t = u"
    and "m = \<lparr>am_severity = fst ?k, am_reason = snd ?k, am_suppressed = (case ?b of None \<Rightarrow> 0 | Some b \<Rightarrow> ab_suppressed b)\<rparr>"
    using assms u by (simp_all add: notify_ops_def Let_def split: if_splits)
  ultimately show ?thesis by (auto simp: dict_simps)
qed

text \<open>The last attempt of a key only moves forward.\<close>

lemma notify_stamps:
  assumes "dict_get (oa_buckets s) k = Some b" and "ab_last_sent b \<le> now"
  shows "\<exists>b'. dict_get (oa_buckets (snd (notify_ops redact a now later sev r s))) k = Some b' \<and> ab_last_sent b \<le> ab_last_sent b' \<and>
    ab_last_sent b' \<le> now"
proof -
  have same: "oa_buckets t = oa_buckets s'" if "settle_alert a later s' = (x, t)" for x t s'
    using settle_keeps(1) [of a later s'] that by simp
  show ?thesis using assms
    by (auto simp: notify_ops_def Let_def dict_simps same split: prod.split)
qed

text \<open>
  Two messages of one key are at least a window apart, whatever calls come in between, and whatever became of the first one.
\<close>

lemma alert_first:
  assumes "alert_run redact cs s = (ms, t)" and "sorted (map al_now cs)" and "dict_get (oa_buckets s) k = Some b"
    and "\<forall>c \<in> set cs. ab_last_sent b \<le> al_now c" and "(u, m) \<in> set ms" "message_key m = k"
  shows "oa_window s \<le> u - ab_last_sent b"
  using assms
proof (induction redact cs s arbitrary: ms t b rule: alert_run.induct)
  case (2 redact c cs s)
  obtain x tried s1 where call: "notify_ops redact (al_answer c) (al_now c) (al_later c) (al_severity c) (al_reason c) s = ((x, tried), s1)"
    by (metis surj_pair)
  obtain ms1 t1 where rest: "alert_run redact cs s1 = (ms1, t1)" by fastforce
  have ms: "ms = (case tried of None \<Rightarrow> ms1 | Some y \<Rightarrow> (al_now c, y) # ms1)" using 2(2) call rest by simp
  obtain b' where b': "dict_get (oa_buckets s1) k = Some b'" "ab_last_sent b \<le> ab_last_sent b'" "ab_last_sent b' \<le> al_now c"
    using notify_stamps [OF 2(4), of "al_now c" redact "al_answer c" "al_later c" "al_severity c" "al_reason c"] 2(5) call by auto
  show ?case
  proof (cases "(u, m) \<in> set ms1")
    case True
    have "oa_window s1 \<le> u - ab_last_sent b'"
      using 2(1) [OF call [symmetric] refl rest _ b'(1) _ True 2(7)] 2(3) b'(3) by (auto intro: order_trans)
    moreover have "oa_window s1 = oa_window s"
      using notify_window [of redact "al_answer c" "al_now c" "al_later c" "al_severity c" "al_reason c" s] call by simp
    ultimately show ?thesis using b'(2) by simp
  next
    case False
    then have "tried = Some m" "u = al_now c" using 2(6) ms by (auto split: option.splits)
    then show ?thesis using notify_message [OF call [unfolded \<open>tried = Some m\<close>]] 2(4,7) by auto
  qed
qed simp

theorem alert_spacing:
  assumes "sorted (map al_now cs)" and "alert_run redact cs (new_ops_alerts window) = (ms, t)"
    and "i < j" "j < length ms" "message_key (snd (ms ! i)) = message_key (snd (ms ! j))"
  shows "window \<le> fst (ms ! j) - fst (ms ! i)"
proof -
  have "oa_window s \<le> fst (ms ! j) - fst (ms ! i)"
    if "alert_run redact cs s = (ms, t)" "sorted (map al_now cs)" "i < j" "j < length ms"
      "message_key (snd (ms ! i)) = message_key (snd (ms ! j))" for s cs ms i j t
    using that
  proof (induction redact cs s arbitrary: ms i j t rule: alert_run.induct)
    case (2 redact c cs s)
    obtain x tried s1 where call: "notify_ops redact (al_answer c) (al_now c) (al_later c) (al_severity c) (al_reason c) s = ((x, tried), s1)"
      by (metis surj_pair)
    obtain ms1 t1 where rest: "alert_run redact cs s1 = (ms1, t1)" by fastforce
    have ms: "ms = (case tried of None \<Rightarrow> ms1 | Some y \<Rightarrow> (al_now c, y) # ms1)" using 2(2) call rest by simp
    have w: "oa_window s1 = oa_window s"
      using notify_window [of redact "al_answer c" "al_now c" "al_later c" "al_severity c" "al_reason c" s] call by simp
    have sorted: "sorted (map al_now cs)" "\<forall>d \<in> set cs. al_now c \<le> al_now d" using 2(3) by auto
    note ih = 2(1) [OF call [symmetric] refl rest sorted(1)]
    show ?case
    proof (cases tried)
      case None
      then show ?thesis using ih [of i j] 2(4-6) ms w by simp
    next
      case (Some y)
      show ?thesis
      proof (cases i)
        case 0
        obtain l where l: "j = Suc l" using 2(4) 0 by (cases j) auto
        have y: "message_key y = message_key (snd (ms1 ! l))" "l < length ms1" using 2(5,6) ms Some 0 l by simp_all
        have "dict_get (oa_buckets s1) (message_key y) = Some \<lparr>ab_first_seen = al_now c, ab_last_sent = al_now c, ab_suppressed = 0\<rparr>"
          using notify_message [OF call [unfolded Some]] by blast
        from alert_first [OF rest sorted(1) this] sorted(2) y have "oa_window s1 \<le> fst (ms1 ! l) - al_now c"
          by (metis alert_bucket.select_convs(2) nth_mem prod.collapse)
        then show ?thesis using ms Some 0 l w by simp
      next
        case (Suc l)
        then obtain n where "j = Suc n" using 2(4) by (cases j) auto
        then show ?thesis using ih [of l n] 2(4-6) ms w Some Suc by simp
      qed
    qed
  qed simp
  from this [OF assms(2,1,3-5)] show ?thesis by (simp add: new_ops_alerts_def)
qed

text \<open>
  The bucket is stamped before the message is sent. If sending fails, the operators have not been told, the calls that were
  counted so far are forgotten, and the same alert is kept back for the whole window.
\<close>

theorem failed_alert_kept_back:
  assumes "notify_ops redact a now later sev r s = ((False, Some m), t)"
    and "now' < now + oa_window s" "upper sev' = upper sev" "redact r' = redact r"
  shows "fst (notify_ops redact a' now' later' sev' r' t) = (False, None) \<and> (\<forall>b. dict_get (oa_buckets t) (message_key m) = Some b \<longrightarrow> ab_suppressed b = 0)"
proof -
  have "oa_window t = oa_window s" using notify_window [of redact a now later sev r s] assms(1) by simp
  moreover have key: "message_key m = alert_key redact sev r"
      "dict_get (oa_buckets t) (message_key m) = Some \<lparr>ab_first_seen = now, ab_last_sent = now, ab_suppressed = 0\<rparr>"
    using notify_message [OF assms(1)] by blast+
  moreover have "alert_key redact sev r = alert_key redact sev' r'" using assms(3,4) by (simp add: alert_key_def)
  ultimately show ?thesis using assms(2) by (simp add: notify_ops_def Let_def)
qed

theorem failed_alert_kept_back_witness:
  "\<exists>m t. notify_ops id SendRaises 5 5 ''critical'' ''down'' (new_ops_alerts (seconds 300)) = ((False, Some m), t) \<and>
     fst (notify_ops id SentWithoutAnswer (seconds 200) (seconds 200) ''critical'' ''down'' t) = (False, None)"
proof -
  obtain m t where run: "notify_ops id SendRaises 5 5 ''critical'' ''down'' (new_ops_alerts (seconds 300)) = ((False, Some m), t)"
    by (simp add: notify_ops_def new_ops_alerts_def Let_def settle_alert_def)
  with failed_alert_kept_back [OF run, of "seconds 200"] show ?thesis by (auto simp: seconds_def new_ops_alerts_def)
qed

theorem alert_spacing_witness:
  "\<forall>ms t. alert_run id [\<lparr>al_answer = SentWithoutAnswer, al_now = 0, al_later = 0, al_severity = ''info'', al_reason = ''a''\<rparr>,
       \<lparr>al_answer = SentWithoutAnswer, al_now = seconds 400, al_later = seconds 400, al_severity = ''info'', al_reason = ''a''\<rparr>]
       (new_ops_alerts (seconds 300)) = (ms, t) \<longrightarrow> length ms = 2 \<and> seconds 300 \<le> fst (ms ! 1) - fst (ms ! 0)"
proof (intro allI impI)
  fix ms t
  let ?c1 = "\<lparr>al_answer = SentWithoutAnswer, al_now = 0, al_later = 0, al_severity = ''info'', al_reason = ''a''\<rparr>"
  let ?c2 = "\<lparr>al_answer = SentWithoutAnswer, al_now = seconds 400, al_later = seconds 400, al_severity = ''info'', al_reason = ''a''\<rparr>"
  assume run: "alert_run id [?c1, ?c2] (new_ops_alerts (seconds 300)) = (ms, t)"
  then have ms: "length ms = 2" "message_key (snd (ms ! 0)) = message_key (snd (ms ! 1))"
    by (auto simp: notify_ops_def new_ops_alerts_def Let_def settle_alert_def seconds_def alert_key_def)
  with alert_spacing [OF _ run, of 0 1] show "length ms = 2 \<and> seconds 300 \<le> fst (ms ! 1) - fst (ms ! 0)"
    by (simp add: seconds_def)
qed

end
