(* ===== verification/Spec2Isabelle.thy ===== *)
theory Spec2Isabelle
  imports EF_Consumer EF_Review EF_Delivery EF_Release EF_Pipeline EF_AiOutcome EF_Album EF_Refresh EF_Bot EF_Content EF_WebApp
    EF_TelegramAuth EF_Analytics EF_SqlDelivery EF_SqlDedup EF_Evaluation EF_OpsAlerts
begin

text \<open>
  EstateFlow: a verification library.

  EstateFlow reads rental offers from Telegram channels and websites, turns each into a structured listing with the help of
  language models, removes duplicates, and serves the listings through a Telegram bot, a Mini App and a public API, with saved
  filters and notifications. This library models the services of that program (Python, under \<open>src/estateflow\<close> of the
  repository) and proves what makes them correct. File names below are relative to that directory.

  The program and its parts

  A listener (\<open>services/telegram_listener.py\<close>) turns updates into raw events and publishes them on a queue
  (\<open>services/queue.py\<close>); the messages of an album are joined first (\<open>services/media_buffer.py\<close>). A worker
  (\<open>services/queue_consumer.py\<close>) takes the messages of three queues through three stages. The first parses the event with
  the recipe of its source and drops what is a duplicate on its face (\<open>services/ingestion_pipeline.py\<close>,
  \<open>services/source_parsing\<close>, \<open>services/pre_ai_dedup.py\<close>). The second stores the images, asks the language models and
  normalises what they extracted (\<open>services/ai_worker.py\<close>, \<open>services/ai_client.py\<close>, \<open>services/extraction.py\<close>,
  \<open>services/media_storage.py\<close>). The third scores the announcement against the stored ones and stores it, merges it into
  another or sends it to the manual review (\<open>services/post_ai_dedup.py\<close>). What is stored is searched
  (\<open>services/search.py\<close>, \<open>services/nlp_search.py\<close>), matched against saved filters and sent to users
  (\<open>services/notifications.py\<close>). Around this stand the accounts that listen (\<open>services/listener_pool.py\<close>,
  \<open>services/listener_refresh.py\<close>, \<open>services/telegram_auth.py\<close>), the dialogues of the bot (\<open>bot\<close>), the Mini App
  (\<open>api/webapp.py\<close>), the posts of the channel (\<open>services/content_automation.py\<close>), suggestions, referrals, flags and
  metrics. Every service stands over a repository, in memory or over PostgreSQL.

  Theories

  Each theory holds one component: its records and datatypes with the fields and constructors of the source, one definition per
  function, method or handler under the name it has there where that is free, then its lemmas and theorems.

  \<^item> EF_Prelude, EF_Text: dictionaries in insertion order, results, stable sorting, paging, JSON values, and the routines of
    \<open>str\<close> and \<open>int\<close> the code calls.
  \<^item> EF_Once: the contract of stores with idempotency keys. EF_Actors: the contract of components that several users act on.
  \<^item> EF_Queue: the RabbitMQ and the Redis queue. EF_Consumer: the polling worker and its stages.
  \<^item> EF_Regex, EF_RawEvent, EF_Recipe, EF_SourceParser, EF_Router, EF_Evaluation, EF_Pipeline: the check of regular expressions, raw events on
    the queue, recipes and their operators, the parser, the router between parsers, the replay of labelled posts, and the first stage.
  \<^item> EF_Fanout, EF_PhoneText, EF_PreAi: identities of the candidates of one post, the phone pattern with its backtracking, and
    the filter before extraction.
  \<^item> EF_Image, EF_MediaStore, EF_LlmClient, EF_Tags, EF_Listing, EF_AiWorker, EF_AiOutcome, EF_Handover: images and their
    headers, the media storage, the model fallback, audience tags, the listing and its normalisation, the second stage, what it
    guarantees over runs, and the reading of its message by the third stage.
  \<^item> EF_Scoring, EF_Merge, EF_PostAi, EF_Review: signals and decision, the merge of fields, the repository, the review queue and
    the processor, and what holds over their runs.
  \<^item> EF_SqlDedup: the announcement repository over PostgreSQL, with its candidates and links compared with those in memory.
  \<^item> EF_Search, EF_SqlSearch: search in memory and its two versions over PostgreSQL.
  \<^item> EF_SavedFilters, EF_Notifications, EF_Delivery, EF_SqlDelivery: saved filters, matching and delivery in memory, and the
    delivery over PostgreSQL with the worker over any repository.
  \<^item> EF_Sources, EF_Listener, EF_Album, EF_ListenerPool, EF_Topology, EF_Refresh, EF_TelegramAuth: configured sources, the account
    listener, the album buffer, the assignment of accounts, the published topology, the coordinator of the listeners and the
    login of accounts.
  \<^item> EF_Callback, EF_Wizard, EF_FilterBot, EF_NlpSearch, EF_Bot: callback data, the search dialogue, saved filters in the bot,
    search in free text, and the controller over all of them.
  \<^item> EF_WebAppAuth, EF_WebApp: tokens and init data of the Mini App, and its routes.
  \<^item> EF_Referrals, EF_Suggestions, EF_Release, EF_Content, EF_Analytics, EF_OpsAlerts: users and referrals, suggested sources, release
    controls, posts of the channel, metrics, and alerts to the operators.

  How the code is read

  A dataclass is a record, a Literal or an enum is a datatype, a dict is an association list in insertion order, a value that may
  be \<open>None\<close> is an option. An exception is the left side of a result; an operation that may raise after it has written returns
  the state beside its result, so what was written before stays. State is passed explicitly. Moments and durations are integers
  of microseconds, decimals and floats are exact rationals, bytes are 8-bit words. Texts are lists of characters; lengths and
  slices count characters, and the character classes are those of ASCII, so statements about text are exact for ASCII and treat
  a text beyond it as its UTF-8 bytes. Loops of the source are folds or recursions that end by themselves or with a stated
  measure (the scanner for JPEG headers, the phone pattern, the check of regular expressions, the wizard's pages); no definition
  needs fuel. Clocks, fresh identifiers, digests, HMAC, the regular expression engine, Pydantic's coercion, the brokers, Redis, the
  Telegram client and the answers of the language models are arguments, and a theorem states as a hypothesis what it needs of
  them. SQL is read with three values of truth: a comparison with NULL is neither true nor false, and a row is kept only where
  the condition is true; a transaction is one step, and where the code reads and writes in two statements the two are two steps.

  Contracts between components

  Each interface is a locale, and each locale is interpreted on the definitions of the model.
  \<^item> \<open>insert_once\<close> (EF_Once): storing under a key that is taken changes nothing and returns what is stored. Interpreted on
    notification jobs, parent announcements, review items, and product and technical events.
  \<^item> \<open>retrying_queue\<close> (EF_Queue): every delivered message ends acknowledged, republished with one attempt more, or
    dead-lettered after its last attempt. Interpreted on RabbitMQ and Redis; the consumer rests on it.
  \<^item> \<open>seen_store\<close> (EF_Listener): what was published is remembered. Interpreted on the store in memory and the one in Redis.
  \<^item> \<open>acting_users\<close> (EF_Actors): an action changes the view of its actor only and keeps the invariant. Interpreted on the
    bot, its wizard and the Mini App; isolation and invariants over all runs follow from it.
  \<^item> \<open>content_publisher\<close> (EF_Content): a publisher reports what it did. Interpreted on the dry run and on Telegram.
  \<^item> \<open>topology_store\<close> (EF_Topology) and \<open>refresh_store\<close> (EF_Refresh): a topology that was put is read back; a
    signal raises the version. Interpreted on both stores each.
  \<^item> \<open>delivery_store\<close> (EF_SqlDelivery): a claim takes a pending job to \<open>sending\<close>, and only a claimed job is settled.
    Interpreted on the repository in memory, over SQLAlchemy and over asyncpg; at most one delivery per job is proved once.

  What is proved

  \<^item> The pipeline: a message is acknowledged, retried or dead-lettered and never lost, over every run of the worker on
    a broker that delivers in order a message whose handler always fails is dead-lettered after its attempts, and of the candidates
    published for extraction no two carry the same normalised text, empty ones apart. The check of regular expressions is characterised on a
    grammar of literals, classes, groups and quantifiers; what lies outside that grammar is named beside it.
  \<^item> Deduplication: the filter skips exactly what the stated signals name, the decision is that of the best candidate with the
    evidence it needs, the merge is field by field what it promises, the processor's outcome is characterised on every
    branch, and every item of the review queue can be decided.
  \<^item> The tables: whatever is saved, linked and corrected, rows stay unique and parents stored and counted; saving and linking
    in the tables is saving and linking in memory; the candidates from the tables are characterised exactly, with
    the cut of a full list and the evidence the query passes over.
  \<^item> Search: the pages of every order partition the matching announcements; the searches over PostgreSQL are compared with the
    search in memory, with equality where it holds and an exact statement of the difference where it does not.
  \<^item> Users: saved filters stay within their limit and each user's own through the bot and the Mini App; what others send changes nothing a user
    of the Mini App sees, as long as they hold no token and no init data signed for that user. A job is delivered at most once by
    one worker, what becomes of it is tied to the answer of Telegram, and deliveries keep the spacing of the rate limiter.
  \<^item> Listening: what a registered source publishes is what its recipe was checked for, every message of an album is in
    the published event, waits in the buffer or came too late and is dropped, every enabled source is assigned where an account is free, and at most one supervisor listens as long as
    refreshes do not overlap.
  \<^item> Sessions and logins: tokens round-trip, and a token that is accepted was issued unless the HMAC is broken; where a login
    stands is a function of the answers Telegram gave, and a password is accepted only after a code was sent
    for that session and accepted.

  Some theorems state that the code does not do what it means to; the comment above such a theorem says so. They are about the
  code as it is at this commit.

  What is not modelled

  The admin pages (\<open>api/admin.py\<close>), which render forms over the modelled services; the application factories, configuration,
  logging, health routes and entry points; the session and migration tools under \<open>db\<close>; the models of tables beyond those of
  announcements and notifications; the PostgreSQL repositories of users, filters, suggestions, tags, flags, content and the
  listener pool, which store the records of services modelled here over their repositories in memory; the adapters, which
  translate between Telethon or HTTP and the raw events; the website scraper, which is not fed into the queue; the
  wording of operator notes, of prompts and of log records. Concurrency is modelled where the code suspends between a read and a write that
  depends on it: the flush of an album, the refresh of the listeners, the claim of a job.
\<close>

end
